(* ===== verification/Prelude.thy ===== *)
theory Prelude
  imports Main "HOL-Library.Word"
begin

text \<open>
  What the whole library shares: bytes, the Python exceptions the code raises, the error monad
  of functions without state (\<open>pyexc + 'a\<close>, with \<open>Inl\<close> for a raised exception), and
  Python's list indexing (negative indices count from the end, a bad index raises) and slicing
  (bounds are clamped). The collection \<open>model_defs\<close> holds the defining equations that a
  concrete evaluation unfolds.
\<close>

named_theorems model_defs

type_synonym byte = "8 word"
type_synonym bytes = "byte list"

datatype pyexc =
    ValueError | KeyError | IndexError | TypeError | OverflowError | ZeroDivisionError
  | StructError | NotSupported | NotImplementedError | PlainException | InvalidListOperation | RecursionError | AttributeError
  | DecimalInvalid | UnicodeError | UnboundLocalError | OutOfFuel

section \<open>The error monad\<close>

definition ebind :: "pyexc + 'a \<Rightarrow> ('a \<Rightarrow> pyexc + 'b) \<Rightarrow> pyexc + 'b" where
  "ebind r f = (case r of Inl e \<Rightarrow> Inl e | Inr a \<Rightarrow> f a)"

lemma ebind_simps [simp]:
  "ebind (Inl e) f = Inl e"
  "ebind (Inr a) f = f a"
  by (simp_all add: ebind_def)

lemma ebind_Inr_iff: "ebind r f = Inr b \<longleftrightarrow> (\<exists>a. r = Inr a \<and> f a = Inr b)"
  by (cases r) auto

lemma ebind_assoc: "ebind (ebind r f) g = ebind r (\<lambda>a. ebind (f a) g)"
  by (cases r) auto

fun emap :: "('a \<Rightarrow> pyexc + 'b) \<Rightarrow> 'a list \<Rightarrow> pyexc + 'b list" where
  "emap f [] = Inr []"
| "emap f (x # xs) = ebind (f x) (\<lambda>y. ebind (emap f xs) (\<lambda>ys. Inr (y # ys)))"

lemma emap_length: "emap f xs = Inr ys \<Longrightarrow> length ys = length xs"
  by (induction xs arbitrary: ys) (auto simp: ebind_Inr_iff)

section \<open>Python lists\<close>

definition py_index :: "int \<Rightarrow> nat \<Rightarrow> pyexc + nat" where
  "py_index i n =
     (let j = (if i < 0 then i + int n else i)
      in if 0 \<le> j \<and> j < int n then Inr (nat j) else Inl IndexError)"

definition py_nth :: "int \<Rightarrow> 'a list \<Rightarrow> pyexc + 'a" where
  "py_nth i xs = ebind (py_index i (length xs)) (\<lambda>j. Inr (xs ! j))"

definition py_set :: "int \<Rightarrow> 'a \<Rightarrow> 'a list \<Rightarrow> pyexc + 'a list" where
  "py_set i x xs = ebind (py_index i (length xs)) (\<lambda>j. Inr (xs[j := x]))"

definition py_pop :: "int \<Rightarrow> 'a list \<Rightarrow> pyexc + 'a \<times> 'a list" where
  "py_pop i xs =
     ebind (py_index i (length xs)) (\<lambda>j. Inr (xs ! j, take j xs @ drop (Suc j) xs))"

text \<open>A slice bound or an insertion point is clamped to the list, never an error.\<close>

definition py_clamp :: "int \<Rightarrow> nat \<Rightarrow> nat" where
  "py_clamp i n = nat (max 0 (min (int n) (if i < 0 then i + int n else i)))"

definition py_insert :: "int \<Rightarrow> 'a \<Rightarrow> 'a list \<Rightarrow> 'a list" where
  "py_insert i x xs = (let j = py_clamp i (length xs) in take j xs @ x # drop j xs)"

definition py_slice :: "int \<Rightarrow> int \<Rightarrow> 'a list \<Rightarrow> 'a list" where
  "py_slice lo hi xs =
     (let l = py_clamp lo (length xs); h = py_clamp hi (length xs) in take (h - l) (drop l xs))"

definition py_slice_from :: "int \<Rightarrow> 'a list \<Rightarrow> 'a list" where
  "py_slice_from lo xs = drop (py_clamp lo (length xs)) xs"

lemmas py_list_defs =
  py_index_def py_nth_def py_set_def py_pop_def py_clamp_def py_insert_def py_slice_def
  py_slice_from_def Let_def

declare py_list_defs [model_defs]

lemma py_index_in: "0 \<le> i \<Longrightarrow> i < int n \<Longrightarrow> py_index i n = Inr (nat i)"
  by (simp add: py_index_def)

lemma py_index_lt: "py_index i n = Inr j \<Longrightarrow> j < n"
  by (auto simp: py_index_def Let_def split: if_splits)

lemma py_slice_nonneg:
  "0 \<le> lo \<Longrightarrow> lo \<le> hi \<Longrightarrow> py_slice lo hi xs = take (nat hi - nat lo) (drop (nat lo) xs)"
  by (cases "nat lo \<le> length xs"; cases "nat hi \<le> length xs")
     (auto simp: py_slice_def py_clamp_def Let_def min_def max_def nat_diff_distrib)

lemma length_py_slice: "length (py_slice lo hi xs) \<le> length xs"
  by (simp add: py_slice_def Let_def)

section \<open>Integers as bytes, least significant byte first\<close>

text \<open>\<open>int.from_bytes\<close> and \<open>int.to_bytes\<close> with \<open>byteorder = 'little'\<close>.\<close>

fun from_bytes_u :: "bytes \<Rightarrow> int" where
  "from_bytes_u [] = 0"
| "from_bytes_u (b # bs) = uint b + 256 * from_bytes_u bs"

definition from_bytes_s :: "bytes \<Rightarrow> int" where
  "from_bytes_s bs =
     (if bs = [] then 0
      else if 128 \<le> uint (last bs) then from_bytes_u bs - 256 ^ length bs
      else from_bytes_u bs)"

fun int_bytes :: "nat \<Rightarrow> int \<Rightarrow> bytes" where
  "int_bytes 0 v = []"
| "int_bytes (Suc n) v = word_of_int (v mod 256) # int_bytes n (v div 256)"

definition to_bytes_u :: "nat \<Rightarrow> int \<Rightarrow> pyexc + bytes" where
  "to_bytes_u n v = (if 0 \<le> v \<and> v < 256 ^ n then Inr (int_bytes n v) else Inl OverflowError)"

definition to_bytes_s :: "nat \<Rightarrow> int \<Rightarrow> pyexc + bytes" where
  "to_bytes_s n v =
     (if - (256 ^ n) \<le> 2 * v \<and> 2 * v < 256 ^ n then Inr (int_bytes n v) else Inl OverflowError)"

fun bit_length_nat :: "nat \<Rightarrow> nat" where
  "bit_length_nat n = (if n = 0 then 0 else Suc (bit_length_nat (n div 2)))"

declare bit_length_nat.simps [simp del]

definition bit_length :: "int \<Rightarrow> nat" where
  "bit_length v = bit_length_nat (nat \<bar>v\<bar>)"

lemma length_int_bytes [simp]: "length (int_bytes n v) = n"
  by (induction n arbitrary: v) auto

lemma uint_word_of_int_8: "uint (word_of_int v :: byte) = v mod 256"
  by (simp add: unsigned_of_int take_bit_eq_mod)

lemma uint_byte_lt: "uint (b :: byte) < 256"
  using uint_lt2p [of b] by simp

lemma from_bytes_u_range: "0 \<le> from_bytes_u bs \<and> from_bytes_u bs < 256 ^ length bs"
proof (induction bs)
  case (Cons b bs)
  then show ?case using uint_byte_lt [of b] by simp
qed simp

lemma from_bytes_u_int_bytes: "from_bytes_u (int_bytes n v) = v mod 256 ^ n"
proof (induction n arbitrary: v)
  case (Suc n)
  have "v mod 256 ^ Suc n = v mod 256 + 256 * (v div 256 mod 256 ^ n)"
    using zmod_zmult2_eq [of "256 ^ n" v 256] by simp
  with Suc show ?case by (simp add: uint_word_of_int_8)
qed simp

lemma int_bytes_from_bytes_u: "int_bytes (length bs) (from_bytes_u bs) = bs"
  using uint_byte_lt by (induction bs) auto

lemma int_bytes_mod: "int_bytes n (v mod 256 ^ n) = int_bytes n v"
  using int_bytes_from_bytes_u [of "int_bytes n v"] by (simp add: from_bytes_u_int_bytes)

lemma int_bytes_Suc_last: "int_bytes (Suc n) v = int_bytes n v @ [word_of_int (v div 256 ^ n)]"
proof (induction n arbitrary: v)
  case 0
  show ?case by (simp add: word_uint_eq_iff uint_word_of_int_8)
next
  case (Suc n)
  have "int_bytes (Suc (Suc n)) v = word_of_int (v mod 256) # int_bytes (Suc n) (v div 256)"
    by simp
  also have "\<dots> = word_of_int (v mod 256) # int_bytes n (v div 256) @ [word_of_int (v div 256 div 256 ^ n)]"
    by (simp only: Suc)
  finally show ?case by (simp add: zdiv_zmult2_eq)
qed

lemma from_bytes_u_append:
  "from_bytes_u (xs @ ys) = from_bytes_u xs + 256 ^ length xs * from_bytes_u ys"
  by (induction xs) (auto simp: algebra_simps)

lemma div_in_byte_range:
  fixes v d :: int
  assumes "- 128 * d \<le> v" "v < 128 * d"
  shows "- 128 \<le> v div d \<and> v div d < 128"
proof -
  have d: "0 < d" using assms by linarith
  have lo: "v div d * d \<le> v" using d pos_mod_sign [of d v] div_mult_mod_eq [of v d] by linarith
  have hi: "v < (v div d + 1) * d"
  proof -
    have "v = v div d * d + v mod d" by simp
    moreover have "(v div d + 1) * d = v div d * d + d" by (simp add: algebra_simps)
    ultimately show ?thesis using pos_mod_bound [OF d, of v] by linarith
  qed
  have "v div d < 128"
    using lo assms(2) mult_less_cancel_right_pos [OF d, of "v div d" 128] by linarith
  moreover have "- 128 < v div d + 1"
    using hi assms(1) mult_less_cancel_right_pos [OF d, of "- 128" "v div d + 1"] by linarith
  ultimately show ?thesis by simp
qed

lemma neg_byte_mod: "- 128 \<le> q \<Longrightarrow> q < 0 \<Longrightarrow> 128 \<le> q mod (256 :: int)"
  by presburger

lemma from_bytes_s_int_bytes:
  assumes "- (256 ^ n) \<le> 2 * v" "2 * v < 256 ^ n"
  shows "from_bytes_s (int_bytes n v) = v"
proof (cases n)
  case 0
  with assms show ?thesis by (simp add: from_bytes_s_def)
next
  case (Suc m)
  let ?q = "v div 256 ^ m"
  have last: "uint (last (int_bytes n v)) = ?q mod 256"
    unfolding Suc int_bytes_Suc_last by (simp add: uint_word_of_int_8)
  have ne: "int_bytes n v \<noteq> []" by (simp add: Suc)
  have q: "- 128 \<le> ?q \<and> ?q < 128"
  proof -
    have "- 128 * 256 ^ m \<le> v" "v < 128 * 256 ^ m" using assms by (simp_all add: Suc)
    then show ?thesis by (rule div_in_byte_range)
  qed
  show ?thesis
  proof (cases "v < 0")
    case True
    then have "?q < 0" by (simp add: pos_imp_zdiv_neg_iff)
    then have "128 \<le> ?q mod 256" using q by (simp add: neg_byte_mod)
    moreover have "v mod 256 ^ n = v + 256 ^ n"
    proof -
      have "(v + 256 ^ n) mod 256 ^ n = v + 256 ^ n"
        by (rule mod_pos_pos_trivial) (use assms True in linarith)+
      then show ?thesis by simp
    qed
    ultimately show ?thesis using ne by (simp add: from_bytes_s_def last from_bytes_u_int_bytes)
  next
    case False
    then have "0 \<le> ?q" by (simp add: pos_imp_zdiv_nonneg_iff)
    then have "?q mod 256 < 128" using q by simp
    moreover have "v mod 256 ^ n = v" using assms False by simp
    ultimately show ?thesis using ne by (simp add: from_bytes_s_def last from_bytes_u_int_bytes)
  qed
qed

lemma bit_length_nat_le_iff: "bit_length_nat n \<le> k \<longleftrightarrow> n < 2 ^ k"
proof (induction n arbitrary: k rule: bit_length_nat.induct)
  case (1 n)
  show ?case
  proof (cases "n = 0")
    case True
    then show ?thesis by (simp add: bit_length_nat.simps [of 0])
  next
    case False
    show ?thesis
    proof (cases k)
      case 0
      with False show ?thesis by (simp add: bit_length_nat.simps [of n])
    next
      case (Suc j)
      have "bit_length_nat n \<le> k \<longleftrightarrow> n div 2 < 2 ^ j"
        using False "1.IH" by (simp add: bit_length_nat.simps [of n] Suc)
      also have "\<dots> \<longleftrightarrow> n < 2 ^ k" by (auto simp: Suc)
      finally show ?thesis .
    qed
  qed
qed

lemma bit_length_le_iff: "bit_length v \<le> k \<longleftrightarrow> \<bar>v\<bar> < 2 ^ k"
  unfolding bit_length_def bit_length_nat_le_iff by (simp add: nat_less_iff)

end
