(* ===== verification/Py_Monad.thy ===== *)
theory Py_Monad
  imports Prelude
begin

text \<open>
  The state transformers the library's methods are written in: a method maps a state to its new
  state and one of three outcomes (a value, an early \<open>return\<close> of the enclosing method, an
  exception); the state survives an exception, as the mutations made before a Python exception do.
  \<open>run_simps\<close> rewrites a transformer applied to a state to its result.
\<close>

section \<open>State transformers\<close>

datatype 'a res = Val 'a | Ret bool | Exc pyexc

type_synonym ('s, 'a) m = "'s \<Rightarrow> 'a res \<times> 's"

definition ret :: "'a \<Rightarrow> ('s, 'a) m" where
  "ret a s = (Val a, s)"

definition fin :: "bool \<Rightarrow> ('s, 'a) m" where
  "fin b s = (Ret b, s)"

definition throw :: "pyexc \<Rightarrow> ('s, 'a) m" where
  "throw e s = (Exc e, s)"

definition bnd :: "('s, 'a) m \<Rightarrow> ('a \<Rightarrow> ('s, 'b) m) \<Rightarrow> ('s, 'b) m" where
  "bnd m f s = (case m s of (Val a, s') \<Rightarrow> f a s' | (Ret b, s') \<Rightarrow> (Ret b, s') | (Exc e, s') \<Rightarrow> (Exc e, s'))"

definition sq :: "('s, 'a) m \<Rightarrow> ('s, 'b) m \<Rightarrow> ('s, 'b) m" where
  "sq m n = bnd m (\<lambda>_. n)"

definition lft :: "pyexc + 'a \<Rightarrow> ('s, 'a) m" where
  "lft r s = (case r of Inl e \<Rightarrow> (Exc e, s) | Inr a \<Rightarrow> (Val a, s))"

definition gets :: "('s \<Rightarrow> 'a) \<Rightarrow> ('s, 'a) m" where
  "gets f s = (Val (f s), s)"

definition modify :: "('s \<Rightarrow> 's) \<Rightarrow> ('s, unit) m" where
  "modify f s = (Val (), f s)"

definition whenm :: "bool \<Rightarrow> ('s, unit) m \<Rightarrow> ('s, unit) m" where
  "whenm c m = (if c then m else ret ())"

text \<open>The call of a method whose own \<open>return\<close> is not the caller's.\<close>

definition catch_ret :: "('s, bool) m \<Rightarrow> ('s, bool) m" where
  "catch_ret m s = (case m s of (Ret b, s') \<Rightarrow> (Val b, s') | r \<Rightarrow> r)"

primrec repeatm :: "nat \<Rightarrow> ('s, 'a) m \<Rightarrow> ('s, 'a list) m" where
  "repeatm 0 m = ret []"
| "repeatm (Suc n) m = bnd m (\<lambda>x. bnd (repeatm n m) (\<lambda>xs. ret (x # xs)))"

primrec mapm :: "('a \<Rightarrow> ('s, unit) m) \<Rightarrow> 'a list \<Rightarrow> ('s, unit) m" where
  "mapm f [] = ret ()"
| "mapm f (x # xs) = sq (f x) (mapm f xs)"

lemmas monad_defs = ret_def fin_def throw_def bnd_def sq_def lft_def gets_def modify_def whenm_def
  catch_ret_def

declare monad_defs [model_defs]

text \<open>\<open>try ... except\<close>: the handler sees the exception and the state it left.\<close>

definition try_except :: "('s, 'a) m \<Rightarrow> (pyexc \<Rightarrow> ('s, 'a) m) \<Rightarrow> ('s, 'a) m" where
  "try_except p h s = (case p s of (Exc e, s') \<Rightarrow> h e s' | r \<Rightarrow> r)"

section \<open>Running a transformer\<close>

named_theorems run_simps

lemma run_bnd [run_simps]:
  "bnd (ret a) f s = f a s"
  "bnd (gets g) f s = f (g s) s"
  "bnd (lft (Inr a)) f s = f a s"
  "bnd (lft (Inl e)) f s = (Exc e, s)"
  "bnd (throw e) f s = (Exc e, s)"
  "bnd (fin b) f s = (Ret b, s)"
  "bnd (modify u) h s = h () (u s)"
  by (simp_all add: monad_defs)

lemma run_sq [run_simps]:
  "sq (ret a) m s = m s"
  "sq (modify g) m s = m (g s)"
  "sq (fin b) m s = (Ret b, s)"
  "sq (throw e) m s = (Exc e, s)"
  by (simp_all add: monad_defs)

lemma run_assoc [run_simps]:
  "bnd (bnd m f) g = bnd m (\<lambda>a. bnd (f a) g)"
  "bnd (sq p q) h = sq p (bnd q h)"
  "sq (sq m1 m2) m3 = sq m1 (sq m2 m3)"
  "sq (bnd m4 h4) m5 = bnd m4 (\<lambda>a. sq (h4 a) m5)"
  by (auto simp: fun_eq_iff bnd_def sq_def split: res.splits prod.splits)

lemma run_case_option [run_simps]:
  "bnd (case x of None \<Rightarrow> m | Some a \<Rightarrow> h a) f = (case x of None \<Rightarrow> bnd m f | Some a \<Rightarrow> bnd (h a) f)"
  by (simp split: option.splits)

lemma run_last [run_simps]:
  "ret a s = (Val a, s)"
  "fin b s = (Ret b, s)"
  "throw e s = (Exc e, s)"
  "modify g s = (Val (), g s)"
  "gets h s = (Val (h s), s)"
  by (simp_all add: monad_defs)

text \<open>The simplifier turns \<open>ret a\<close> into \<open>Pair (Val a)\<close>.\<close>

lemma run_pair [run_simps]:
  "bnd (Pair (Val a)) f s = f a s"
  "bnd (Pair (Ret b)) f s = (Ret b, s)"
  "bnd (Pair (Exc e)) f s = (Exc e, s)"
  "sq (Pair (Val a)) m s = m s"
  "sq (Pair (Ret b)) m s = (Ret b, s)"
  "sq (Pair (Exc e)) m s = (Exc e, s)"
  by (simp_all add: monad_defs)

lemma run_mapm_append: "mapm f (xs @ ys) = sq (mapm f xs) (mapm f ys)"
  by (induction xs) (auto simp: fun_eq_iff sq_def bnd_def ret_def split: res.splits prod.splits)

end
