(* ===== verification/PyFloat.thy ===== *)
theory PyFloat
  imports Prelude
begin

text \<open>
  Python's true division of two integers: the correctly rounded IEEE double (round half to even,
  subnormals, overflow to an exception), kept exactly as a dyadic number \<open>m * 2 ^ e\<close>, and
  the conversions \<open>int\<close>, \<open>math.floor\<close> and \<open>math.ceil\<close> of such a float.
  BigInteger and Fixed8 divide through floats, so their results depend on this rounding. The main
  lemma says when the float path is exact.
\<close>

type_synonym dyadic = "int \<times> int"

definition scaled :: "int \<Rightarrow> int \<Rightarrow> int \<Rightarrow> int \<times> int" where
  "scaled s n d = (n * 2 ^ nat (- s), d * 2 ^ nat s)"

definition float_exp :: "int \<Rightarrow> int \<Rightarrow> int" where
  "float_exp n d =
     (let s = int (bit_length n) - int (bit_length d) - 53;
          (a, b) = scaled s n d
      in max (if 2 ^ 53 \<le> a div b then s + 1 else s) (- 1074))"

definition round_half_even :: "int \<Rightarrow> int \<Rightarrow> int" where
  "round_half_even a b =
     (let q = a div b; r = a mod b
      in if b < 2 * r \<or> (2 * r = b \<and> odd q) then q + 1 else q)"

definition int_truediv :: "int \<Rightarrow> int \<Rightarrow> pyexc + dyadic" where
  "int_truediv x y =
     (if y = 0 then Inl ZeroDivisionError
      else if x = 0 then Inr (0, 0)
      else let s = float_exp \<bar>x\<bar> \<bar>y\<bar>; (a, b) = scaled s \<bar>x\<bar> \<bar>y\<bar>; q = round_half_even a b
        in if 971 < s \<or> (s = 971 \<and> 2 ^ 53 \<le> q) then Inl OverflowError
           else Inr (sgn x * sgn y * q, s))"

definition float_floor :: "dyadic \<Rightarrow> int" where
  "float_floor f = (case f of (m, e) \<Rightarrow> if 0 \<le> e then m * 2 ^ nat e else m div 2 ^ nat (- e))"

definition float_ceil :: "dyadic \<Rightarrow> int" where
  "float_ceil f = (case f of (m, e) \<Rightarrow> - float_floor (- m, e))"

definition float_trunc :: "dyadic \<Rightarrow> int" where
  "float_trunc f = (case f of (m, e) \<Rightarrow> sgn m * float_floor (\<bar>m\<bar>, e))"

lemmas py_float_defs =
  scaled_def float_exp_def round_half_even_def int_truediv_def float_floor_def float_ceil_def
  float_trunc_def

declare py_float_defs [model_defs]

text \<open>Truncating division, what the code means by an integer quotient.\<close>

definition truncated_quotient :: "int \<Rightarrow> int \<Rightarrow> int" where
  "truncated_quotient n d = sgn n * (sgn d * (\<bar>n\<bar> div \<bar>d\<bar>))"

lemma scaled_pos: "0 < d \<Longrightarrow> scaled s n d = (a, b) \<Longrightarrow> 0 < b"
  by (auto simp: scaled_def)

lemma bit_length_bounds:
  assumes "0 < n"
  shows "2 ^ (bit_length n - 1) \<le> n \<and> n < 2 ^ bit_length n \<and> 0 < bit_length n"
proof -
  have pos: "0 < bit_length n"
    using assms bit_length_le_iff [of n 0] by (cases "bit_length n") auto
  then have "\<not> bit_length n \<le> bit_length n - 1" by simp
  then show ?thesis
    using assms pos bit_length_le_iff [of n "bit_length n - 1"] bit_length_le_iff [of n "bit_length n"]
    by simp
qed

text \<open>At the first exponent tried the scaled quotient already has 53 bits.\<close>

lemma first_exp_normalised:
  assumes "0 < n" "0 < d" "s = int (bit_length n) - int (bit_length d) - 53" "scaled s n d = (a, b)"
  shows "2 ^ 52 * b \<le> a"
proof -
  obtain x y where x: "bit_length n = Suc x" and y: "bit_length d = y"
    using bit_length_bounds [OF assms(1)] by (cases "bit_length n") auto
  have n: "2 ^ x \<le> n" and d: "d \<le> 2 ^ y"
    using bit_length_bounds [OF assms(1)] bit_length_bounds [OF assms(2)] by (simp_all add: x y)
  have s: "s = int x - int y - 52" using assms(3) x y by simp
  have "2 ^ 52 * (d * 2 ^ nat s) \<le> 2 ^ 52 * (2 ^ y * 2 ^ nat s)"
    using d by (simp add: mult_right_mono)
  also have "\<dots> = (2 :: int) ^ (52 + y + nat s)" by (simp add: power_add)
  also have "\<dots> = 2 ^ (x + nat (- s))" using s by (intro arg_cong2 [where f = power]) auto
  also have "\<dots> = 2 ^ x * 2 ^ nat (- s)" by (simp add: power_add)
  also have "\<dots> \<le> n * 2 ^ nat (- s)" using n by (simp add: mult_right_mono)
  finally show ?thesis using assms(4) by (auto simp: scaled_def)
qed

lemma scaled_Suc:
  assumes "scaled s n d = (a, b)" "scaled (s + 1) n d = (a', b')"
  shows "a' * b * 2 = a * b'"
proof (cases "0 \<le> s")
  case True
  with assms show ?thesis by (auto simp: scaled_def nat_add_distrib)
next
  case False
  define k where "k = nat (- s - 1)"
  have "nat (- s) = Suc k" "nat (- (s + 1)) = k" "nat s = 0" "nat (s + 1) = 0"
    using False by (auto simp: k_def)
  with assms show ?thesis by (auto simp: scaled_def simp del: minus_add_distrib)
qed

lemma float_exp_normalised:
  assumes "0 < n" "0 < d" "d < 2 ^ 1000" "scaled (float_exp n d) n d = (a, b)"
  shows "2 ^ 52 * b \<le> a"
proof -
  define s where "s = int (bit_length n) - int (bit_length d) - 53"
  obtain a0 b0 where ab0: "scaled s n d = (a0, b0)" by (cases "scaled s n d")
  obtain a1 b1 where ab1: "scaled (s + 1) n d = (a1, b1)" by (cases "scaled (s + 1) n d")
  have b0: "0 < b0" and b1: "0 < b1" using scaled_pos assms(2) ab0 ab1 by auto
  have first: "2 ^ 52 * b0 \<le> a0"
    by (rule first_exp_normalised [OF assms(1,2) s_def ab0])
  have second: "2 ^ 52 * b1 \<le> a1" if "2 ^ 53 \<le> a0 div b0"
  proof -
    have "2 ^ 53 * b0 \<le> a0 div b0 * b0" using that b0 by (simp add: mult_right_mono)
    also have "\<dots> \<le> a0" using pos_mod_sign [OF b0, of a0] div_mult_mod_eq [of a0 b0] by linarith
    finally have "2 ^ 53 * b0 * b1 \<le> a0 * b1" using b1 by (simp add: mult_right_mono)
    also have "\<dots> = a1 * b0 * 2" using scaled_Suc [OF ab0 ab1] by simp
    finally have "b0 * (2 ^ 52 * b1) \<le> b0 * a1" by (simp add: ac_simps)
    then show ?thesis using b0 by (simp only: mult_le_cancel_left_pos)
  qed
  have "float_exp n d = max (if 2 ^ 53 \<le> a0 div b0 then s + 1 else s) (- 1074)"
    by (simp add: float_exp_def s_def [symmetric] ab0)
  moreover have "- 1074 < s"
    using bit_length_bounds [OF assms(1)] bit_length_le_iff [of d 1000] assms(2,3)
    by (simp add: s_def)
  ultimately show ?thesis using assms(4) ab0 ab1 first second
    by (auto simp: max_def split: if_splits)
qed

lemma round_half_even_cases:
  "round_half_even a b = a div b \<or> round_half_even a b = a div b + 1 \<and> b \<le> 2 * (a mod b)"
  by (auto simp: round_half_even_def Let_def)

lemma div_Suc_same:
  fixes q t :: int
  assumes "0 < t" "\<not> t dvd q + 1"
  shows "(q + 1) div t = q div t"
proof -
  let ?r = "q mod t"
  have r: "0 \<le> ?r" "?r < t" using assms(1) by simp_all
  have q: "q = t * (q div t) + ?r" by simp
  have "?r + 1 \<noteq> t"
  proof
    assume "?r + 1 = t"
    moreover have "t * (q div t + 1) = t * (q div t) + t" by (simp add: algebra_simps)
    ultimately have "q + 1 = t * (q div t + 1)" using q by linarith
    with assms(2) show False by (metis dvd_triv_left)
  qed
  with r have "0 \<le> ?r + 1" "?r + 1 < t" by linarith+
  moreover have "q + 1 = t * (q div t) + (?r + 1)" using q by linarith
  ultimately show ?thesis by (rule int_div_pos_eq [rotated])
qed

text \<open>
  A scaled quotient \<open>n * t / d\<close> with at least 53 bits and \<open>n\<close> below \<open>2 ^ 53\<close>
  is never within half a unit of a multiple of \<open>t\<close> that it does not equal: the gap \<open>g\<close>
  to that multiple, times \<open>d\<close>, is itself a multiple of \<open>t\<close>.
\<close>

lemma no_half_gap:
  fixes n d t g :: int
  assumes "n < 2 ^ 53" "0 < t" "2 ^ 52 * d \<le> n * t" "t dvd g" "0 < g" "2 * g \<le> d"
  shows False
proof -
  have "t \<le> g" using assms(4,5) by (simp add: zdvd_imp_le)
  with assms(6) have "2 * t \<le> d" by linarith
  with assms(3) have "9007199254740992 * t \<le> n * t" by simp
  with assms(1,2) show False by (simp add: mult_le_cancel_right)
qed

lemma rounding_stays:
  fixes n d t :: int
  assumes n: "n < 2 ^ 53" and d: "0 < d" and t: "0 < t" and norm: "2 ^ 52 * d \<le> n * t"
  defines "q \<equiv> round_half_even (n * t) d"
  shows "q div t = n div d" and "t dvd q \<longleftrightarrow> d dvd n"
proof -
  let ?q = "n * t div d" and ?r = "n * t mod d"
  have nt: "n * t = ?q * d + ?r" by simp
  have base: "?q div t = n div d"
    using t by (simp add: div_mult2_eq [symmetric] mult.commute zdiv_zmult2_eq [symmetric])
  have up_no: "\<not> t dvd ?q + 1" if "d \<le> 2 * ?r"
  proof
    assume "t dvd ?q + 1"
    then have "t dvd (?q + 1) * d - n * t" by simp
    moreover have "(?q + 1) * d - n * t = d - ?r" using nt by (simp add: algebra_simps)
    ultimately have "t dvd d - ?r" by simp
    moreover have "0 < d - ?r" "2 * (d - ?r) \<le> d" using d that by simp_all
    ultimately show False using no_half_gap n t norm by blast
  qed
  have down: "d dvd n * t" if "2 * ?r \<le> d" "t dvd ?q"
  proof (rule ccontr)
    assume "\<not> d dvd n * t"
    then have "0 < ?r" using d by (simp add: dvd_eq_mod_eq_0 less_le)
    moreover have "t dvd n * t - ?q * d" using that(2) by simp
    then have "t dvd ?r" using nt by (metis add_diff_cancel_left')
    ultimately show False using no_half_gap n t norm that(1) by blast
  qed
  have cancel: "d dvd n" if dvd: "d dvd n * t" "t dvd ?q"
  proof -
    obtain k where k: "?q = t * k" using dvd(2) by (elim dvdE)
    have "n * t = ?q * d" using nt dvd(1) by (simp add: dvd_eq_mod_eq_0)
    then have "n = k * d" using t by (simp add: k)
    then show ?thesis by simp
  qed
  have exact: "t dvd ?q" "?r = 0" if "d dvd n"
    using that d by (auto simp: dvd_def ac_simps)
  show "q div t = n div d"
    using up_no base t by (auto simp: q_def round_half_even_def Let_def div_Suc_same)
  show "t dvd q \<longleftrightarrow> d dvd n"
  proof
    assume q: "t dvd q"
    have "\<not> (d < 2 * ?r \<or> (2 * ?r = d \<and> odd ?q))"
      using q up_no by (auto simp: q_def round_half_even_def Let_def split: if_splits)
    then have "q = ?q" "2 * ?r \<le> d" by (auto simp: q_def round_half_even_def Let_def)
    with q down cancel show "d dvd n" by auto
  next
    assume "d dvd n"
    with exact d show "t dvd q" by (auto simp: q_def round_half_even_def Let_def)
  qed
qed

text \<open>
  The float quotient of integers below \<open>2 ^ 53\<close> (and a divisor that keeps the exponent
  normal): its floor, and whether it is an integer, are those of the exact quotient.
\<close>

lemma float_quotient_exact:
  assumes n: "0 < n" "n < 2 ^ 53" and d: "0 < d" "d < 2 ^ 1000"
  obtains q s where "int_truediv n d = Inr (q, s)" "float_floor (q, s) = n div d"
    "float_ceil (q, s) = - (- n div d)" "0 \<le> q"
proof -
  define s where "s = float_exp n d"
  obtain a b where ab: "scaled s n d = (a, b)" by (cases "scaled s n d")
  define q where "q = round_half_even a b"
  have norm: "2 ^ 52 * b \<le> a" using float_exp_normalised [OF n(1) d] ab s_def by blast
  have s0: "s \<le> 0 \<and> (s = 0 \<longrightarrow> d = 1)"
  proof -
    have "2 ^ 52 * (d * 2 ^ nat s) \<le> n" if "0 \<le> s" using norm ab that by (auto simp: scaled_def)
    moreover have "2 ^ 53 \<le> 2 ^ 52 * (d * 2 ^ nat s)" if "0 < s \<or> 0 \<le> s \<and> d \<noteq> 1"
    proof -
      have "2 \<le> d * 2 ^ nat s"
      proof (cases "0 < s")
        case True
        then obtain k where "nat s = Suc k" by (metis gr0_implies_Suc zero_less_nat_eq)
        then show ?thesis using d(1) mult_mono [of 1 d 2 "2 ^ nat s"] by simp
      next
        case False
        then show ?thesis using that d(1) by auto
      qed
      then show ?thesis by simp
    qed
    ultimately have "\<not> (0 < s \<or> 0 \<le> s \<and> d \<noteq> 1)" using n(2) by fastforce
    then show ?thesis by auto
  qed
  then have a: "a = n * 2 ^ nat (- s)" and b: "b = d" using ab by (auto simp: scaled_def)
  have q: "q div 2 ^ nat (- s) = n div d" "2 ^ nat (- s) dvd q \<longleftrightarrow> d dvd n"
    using rounding_stays [OF n(2) d(1), of "2 ^ nat (- s)"] norm by (simp_all add: q_def a b)
  have q0: "0 \<le> q"
    using n(1) d(1) by (simp add: q_def a b round_half_even_def Let_def pos_imp_zdiv_nonneg_iff)
  have res: "int_truediv n d = Inr (q, s)"
    using n d s0 ab by (simp add: int_truediv_def s_def [symmetric] q_def)
  have floor: "float_floor (q, s) = n div d" using q(1) s0 by (auto simp: float_floor_def)
  have ceil: "float_ceil (q, s) = - (- n div d)"
  proof -
    have "float_ceil (q, s) = - (- q div 2 ^ nat (- s))" using s0 by (auto simp: float_ceil_def float_floor_def)
    also have "\<dots> = (if 2 ^ nat (- s) dvd q then q div 2 ^ nat (- s) else q div 2 ^ nat (- s) + 1)"
      by (simp add: zdiv_zminus1_eq_if dvd_eq_mod_eq_0)
    also have "\<dots> = - (- n div d)"
      using d(1) q by (simp add: zdiv_zminus1_eq_if dvd_eq_mod_eq_0)
    finally show ?thesis .
  qed
  from that [OF res floor ceil q0] show ?thesis .
qed

lemma int_truediv_signs:
  assumes "x \<noteq> 0" "y \<noteq> 0" "int_truediv \<bar>x\<bar> \<bar>y\<bar> = Inr (q, s)"
  shows "int_truediv x y = Inr (sgn x * sgn y * q, s)"
  using assms by (auto simp: int_truediv_def Let_def split: if_splits prod.splits)

lemma int_truediv_trunc:
  assumes "\<bar>x\<bar> < 2 ^ 53" "y \<noteq> 0" "\<bar>y\<bar> < 2 ^ 1000"
  shows "\<exists>f. int_truediv x y = Inr f \<and> float_trunc f = truncated_quotient x y"
proof (cases "x = 0")
  case True
  with assms(2) show ?thesis by (simp add: int_truediv_def float_trunc_def truncated_quotient_def)
next
  case False
  with assms(2) have pos: "0 < \<bar>x\<bar>" "0 < \<bar>y\<bar>" by simp_all
  obtain q s where q: "int_truediv \<bar>x\<bar> \<bar>y\<bar> = Inr (q, s)"
      "float_floor (q, s) = \<bar>x\<bar> div \<bar>y\<bar>" "0 \<le> q"
    by (rule float_quotient_exact [OF pos(1) assms(1) pos(2) assms(3)])
  have "float_trunc (sgn x * sgn y * q, s) = sgn x * sgn y * (if q = 0 then 0 else float_floor (q, s))"
    using q(3) False assms(2) by (auto simp: float_trunc_def sgn_mult abs_mult)
  also have "\<dots> = truncated_quotient x y"
    using q(2) by (auto simp: truncated_quotient_def float_floor_def split: if_splits)
  finally show ?thesis using int_truediv_signs [OF False assms(2) q(1)] by blast
qed

end
