(* ===== verification/BigInteger.thy ===== *)
theory BigInteger
  imports PyFloat
begin

unbundle bit_operations_syntax

text \<open>
  \<open>neo/Core/BigInteger.py\<close>: Python integers with the byte conversion and the arithmetic the
  VM uses. A BigInteger is an \<open>int\<close>; an operation that can raise returns \<open>pyexc + int\<close>.
  The lemmas give the range of the encoding, its round trip, and its exact length, which is minimal
  but for the values \<open>- (256 ^ k)\<close>.
\<close>

section \<open>Operations\<close>

definition Sign :: "int \<Rightarrow> int" where
  "Sign v = (if 0 < v then 1 else if v = 0 then 0 else - 1)"

definition FromBytes :: "bytes \<Rightarrow> bool \<Rightarrow> int" where
  "FromBytes data sgnd = (if sgnd then from_bytes_s data else from_bytes_u data)"

text \<open>The \<open>for i, b in enumerate(data[::-1])\<close> loop: \<open>msb\<close> less the index of the first other byte.\<close>

fun scan_msb :: "byte \<Rightarrow> int \<Rightarrow> int \<Rightarrow> bytes \<Rightarrow> int" where
  "scan_msb highbyte msb i [] = msb"
| "scan_msb highbyte msb i (b # bs) =
     (if b \<noteq> highbyte then msb - i else scan_msb highbyte msb (i + 1) bs)"

definition ToByteArray :: "int \<Rightarrow> pyexc + bytes" where
  "ToByteArray v =
     (if v = 0 then Inr [0]
      else if v < 0 then
        let highbyte = 0xff in
        ebind (to_bytes_s (1 + (bit_length v + 7) div 8) v) (\<lambda>data.
        let msb = scan_msb highbyte (int (length data) - 1) 0 (rev data) in
        ebind (py_nth msb data) (\<lambda>b.
        let needExtraByte = (b AND 0x80 \<noteq> highbyte AND 0x80) in
        if needExtraByte then Inr data else Inr (butlast data)))
      else
        case to_bytes_s ((bit_length v + 7) div 8) v of
          Inr d \<Rightarrow> Inr d
        | Inl _ \<Rightarrow> to_bytes_s (1 + (bit_length v + 7) div 8) v)"

definition bi_abs :: "int \<Rightarrow> int" where "bi_abs v = \<bar>v\<bar>"
definition bi_add :: "int \<Rightarrow> int \<Rightarrow> int" where "bi_add v w = v + w"
definition bi_mul :: "int \<Rightarrow> int \<Rightarrow> int" where "bi_mul v w = v * w"
definition bi_neg :: "int \<Rightarrow> int" where "bi_neg v = - v"
definition bi_sub :: "int \<Rightarrow> int \<Rightarrow> int" where "bi_sub v w = v - w"

text \<open>
  \<open>Decimal(self) % Decimal(other)\<close> at precision 100: the remainder has the sign of the dividend;
  a zero divisor, or an integer quotient of more than 100 digits, is an \<open>InvalidOperation\<close>. The
  operands reaching it from the VM have passed CheckBigInteger, so the result needs no rounding.
\<close>

definition bi_mod :: "int \<Rightarrow> int \<Rightarrow> pyexc + int" where
  "bi_mod v w =
     (if w = 0 \<or> 10 ^ 100 \<le> \<bar>v\<bar> div \<bar>w\<bar> then Inl DecimalInvalid
      else Inr (sgn v * (\<bar>v\<bar> mod \<bar>w\<bar>)))"

definition bi_floordiv :: "int \<Rightarrow> int \<Rightarrow> pyexc + int" where
  "bi_floordiv v w = (if w = 0 then Inl ZeroDivisionError else Inr (v div w))"

text \<open>\<open>__truediv__\<close>: a negative dividend is divided as a float, any other is floor-divided.\<close>

definition bi_truediv :: "int \<Rightarrow> int \<Rightarrow> pyexc + int" where
  "bi_truediv v w =
     (if v < 0 then ebind (int_truediv v w) (\<lambda>f. Inr (float_trunc f)) else bi_floordiv v w)"

definition bi_rshift :: "int \<Rightarrow> int \<Rightarrow> int" where
  "bi_rshift v shift = (if shift < 0 then push_bit (nat \<bar>shift\<bar>) v else drop_bit (nat shift) v)"

definition bi_lshift :: "int \<Rightarrow> int \<Rightarrow> int" where
  "bi_lshift v shift = (if shift < 0 then drop_bit (nat \<bar>shift\<bar>) v else push_bit (nat shift) v)"

lemmas bi_defs = Sign_def FromBytes_def bi_abs_def bi_add_def bi_mul_def bi_neg_def bi_sub_def
  bi_mod_def bi_floordiv_def bi_truediv_def bi_rshift_def bi_lshift_def

declare bi_defs [model_defs]

section \<open>The byte encoding\<close>

text \<open>\<open>nbytes v\<close> is the number of bytes of the magnitude, what the code asks of \<open>to_bytes\<close>.\<close>

definition nbytes :: "int \<Rightarrow> nat" where
  "nbytes v = (bit_length v + 7) div 8"

lemma nbytes_le_iff: "nbytes v \<le> k \<longleftrightarrow> \<bar>v\<bar> < 256 ^ k"
proof -
  have "nbytes v \<le> k \<longleftrightarrow> bit_length v \<le> 8 * k" unfolding nbytes_def by linarith
  also have "\<dots> \<longleftrightarrow> \<bar>v\<bar> < 2 ^ (8 * k)" by (rule bit_length_le_iff)
  finally show ?thesis by (simp add: power_mult)
qed

lemma nbytes_bounds: "v \<noteq> 0 \<Longrightarrow> \<exists>k. nbytes v = Suc k \<and> 256 ^ k \<le> \<bar>v\<bar> \<and> \<bar>v\<bar> < 256 ^ Suc k"
  using nbytes_le_iff [of v "nbytes v - 1"] nbytes_le_iff [of v "nbytes v"] nbytes_le_iff [of v 0]
  by (cases "nbytes v") auto

lemma byte_and_0x80: "(b :: byte) AND 0x80 = (if uint b < 128 then 0 else 0x80)"
proof -
  have "b AND 2 ^ n = (if bit b n then 2 ^ n else 0)" for n
    by (rule bit_eqI) (auto simp: bit_simps)
  from this [of 7] have "b AND 0x80 = (if bit b 7 then 0x80 else 0)" by simp
  moreover have "\<not> bit b 7 \<longleftrightarrow> uint b < 128"
  proof -
    have "bit b 7 \<longleftrightarrow> bit (uint b) 7" by (simp add: bit_uint_iff)
    then have "bit b 7 \<longleftrightarrow> odd (uint b div 128)" by (simp only: bit_iff_odd) simp
    moreover have "uint b div 128 = 0 \<or> uint b div 128 = 1" using uint_byte_lt [of b] by auto
    ultimately show ?thesis using uint_byte_lt [of b] by (auto simp: div_eq_0_iff)
  qed
  ultimately show ?thesis by (auto split: if_splits)
qed

lemma int_bytes_neg_pow: "int_bytes k (- (256 ^ k)) = replicate k 0"
proof -
  have "int_bytes k (- (256 ^ k) mod 256 ^ k) = replicate k 0"
  proof -
    have "int_bytes k 0 = replicate k 0" by (induction k) auto
    then show ?thesis by simp
  qed
  then show ?thesis by (simp only: int_bytes_mod)
qed

text \<open>The \<open>nbytes v + 1\<close> bytes of a negative value end in the byte \<open>top\<close> and a sign byte.\<close>

lemma neg_data_split:
  assumes "v < 0" "nbytes v = Suc k"
  shows "int_bytes (Suc (Suc k)) v = int_bytes k v @ [word_of_int (v div 256 ^ k), 0xff]"
    and "- 256 \<le> v div 256 ^ k" "v div 256 ^ k < 0"
    and "v div 256 ^ k = - 1 \<longleftrightarrow> v = - (256 ^ k)"
    and "v div 256 ^ k < - 128 \<longleftrightarrow> v < - 128 * 256 ^ k"
proof -
  let ?d = "256 ^ k :: int"
  have mag: "?d \<le> - v" "- v < 256 * ?d"
    using nbytes_bounds [of v] assms by (auto simp: abs_if)
  show lo: "- 256 \<le> v div ?d" and neg: "v div ?d < 0"
  proof -
    have "(- 256 * ?d) div ?d \<le> v div ?d" using mag by (intro zdiv_mono1) auto
    moreover have "(- 256 * ?d) div ?d = - 256" by (rule nonzero_mult_div_cancel_right) simp
    ultimately show "- 256 \<le> v div ?d" by simp
    show "v div ?d < 0" using assms(1) by (simp add: pos_imp_zdiv_neg_iff)
  qed
  have eq: "v = v div ?d * ?d + v mod ?d" by (rule div_mult_mod_eq [symmetric])
  have r: "0 \<le> v mod ?d" "v mod ?d < ?d" by simp_all
  show "v div ?d = - 1 \<longleftrightarrow> v = - (256 ^ k)"
  proof
    assume "v div ?d = - 1"
    then have "v = - ?d + v mod ?d" using eq by simp
    then show "v = - (256 ^ k)" using r mag by linarith
  next
    assume v: "v = - (256 ^ k)"
    then have "v mod ?d = 0" by simp
    then have "v div ?d * ?d = - 1 * ?d" using eq v by linarith
    then show "v div ?d = - 1" by (simp only: mult_cancel_right) simp
  qed
  show "v div ?d < - 128 \<longleftrightarrow> v < - 128 * ?d"
  proof
    assume "v div ?d < - 128"
    then have "(v div ?d + 1) * ?d \<le> - 128 * ?d" by (intro mult_right_mono) auto
    then have "v div ?d * ?d + ?d \<le> - 128 * ?d" by (simp only: distrib_right mult_1)
    then show "v < - 128 * ?d" using eq r by linarith
  next
    assume v: "v < - 128 * ?d"
    show "v div ?d < - 128"
    proof (rule ccontr)
      assume "\<not> v div ?d < - 128"
      then have "- 128 * ?d \<le> v div ?d * ?d" by (intro mult_right_mono) auto
      then show False using v eq r by linarith
    qed
  qed
  have "v div 256 ^ Suc k = - 1"
  proof -
    have "v div (?d * 256) = v div ?d div 256" by (rule zdiv_zmult2_eq) simp
    also have "\<dots> = - 1" using lo neg by (simp add: div_eq_minus1)
    finally show ?thesis by (simp add: mult.commute)
  qed
  then show "int_bytes (Suc (Suc k)) v = int_bytes k v @ [word_of_int (v div 256 ^ k), 0xff]"
    unfolding int_bytes_Suc_last by simp
qed

lemma ToByteArray_neg:
  assumes "v < 0" "nbytes v = Suc k"
  shows "ToByteArray v = Inr (int_bytes
    (if v < - 128 * 256 ^ k \<or> (v = - (256 ^ k) \<and> k \<noteq> 0) then Suc (Suc k) else Suc k) v)"
proof -
  note split = neg_data_split [OF assms]
  let ?data = "int_bytes (Suc (Suc k)) v"
  let ?w = "word_of_int (v div 256 ^ k) :: byte"
  have mag: "\<bar>v\<bar> < 256 ^ Suc k" using nbytes_bounds [of v] assms by auto
  have data: "to_bytes_s (1 + (bit_length v + 7) div 8) v = Inr ?data"
    using mag assms by (simp add: to_bytes_s_def nbytes_def [symmetric] abs_if)
  have butlast: "butlast ?data = int_bytes (Suc k) v"
    unfolding int_bytes_Suc_last [of "Suc k"] by simp
  have rev: "rev ?data = 0xff # ?w # rev (int_bytes k v)" unfolding split(1) by simp
  have uw: "uint ?w = v div 256 ^ k + 256"
  proof -
    have "v div 256 ^ k mod 256 = v div 256 ^ k + 256"
      using split(2,3) by (simp add: mod_pos_pos_trivial [of "v div 256 ^ k + 256" 256, simplified])
    then show ?thesis by (simp add: uint_word_of_int_8)
  qed
  have ff: "?w = 0xff \<longleftrightarrow> v div 256 ^ k = - 1" using uw by (auto simp: word_uint_eq_iff)
  show ?thesis
  proof (cases "v = - (256 ^ k)")
    case False
    then have w: "?w \<noteq> 0xff" using ff split(4) by simp
    have "py_nth (int k) ?data = Inr ?w"
      by (simp add: split(1) py_nth_def py_index_in nth_append del: int_bytes.simps)
    then show ?thesis
      using assms(1) w data rev butlast False split(5) uw
      by (auto simp: ToByteArray_def byte_and_0x80 Let_def simp del: int_bytes.simps)
  next
    case True
    show ?thesis
    proof (cases k)
      case 0
      with True have v: "v = - 1" by simp
      show ?thesis unfolding v 0
        using data unfolding v 0
        by (simp add: ToByteArray_def py_list_defs)
    next
      case (Suc j)
      have zeros: "int_bytes k v = replicate k 0" using int_bytes_neg_pow True by simp
      have w: "?w = 0xff" using ff split(4) True by simp
      have "j < k" by (simp add: Suc)
      then have nth: "py_nth (int j) ?data = Inr 0"
        unfolding split(1) zeros by (simp add: py_nth_def py_index_in nth_append)
      have "rev ?data = 0xff # 0xff # 0 # replicate j 0"
        unfolding rev w zeros rev_replicate by (simp add: Suc)
      then have scan: "scan_msb 0xff (int (length ?data) - 1) 0 (rev ?data) = int j"
        by (simp only: length_int_bytes) (simp add: Suc)
      have "ToByteArray v = Inr ?data"
        using assms(1) data scan nth by (simp add: ToByteArray_def Let_def del: int_bytes.simps)
      moreover have "v = - (256 ^ k) \<and> k \<noteq> 0" using True Suc by simp
      ultimately show ?thesis by (simp only: if_P simp_thms)
    qed
  qed
qed

lemma ToByteArray_pos:
  assumes "0 < v" "nbytes v = Suc k"
  shows "ToByteArray v = Inr (int_bytes (if 2 * v < 256 ^ Suc k then Suc k else Suc (Suc k)) v)"
proof -
  have "v < 256 ^ Suc k" using nbytes_bounds [of v] assms by auto
  with assms show ?thesis
    by (simp add: ToByteArray_def to_bytes_s_def nbytes_def [symmetric] del: int_bytes.simps)
qed

lemma ToByteArray_zero: "ToByteArray 0 = Inr [0]"
  by (simp add: ToByteArray_def)

text \<open>Every integer has an encoding, of this length, and the encoding decodes to it.\<close>

definition encoded_length :: "int \<Rightarrow> nat" where
  "encoded_length v =
     (if v = 0 then 1
      else if v < 0 then
        (if 2 * v < - (256 ^ nbytes v) \<or> (1 < nbytes v \<and> v = - (256 ^ (nbytes v - 1)))
         then nbytes v + 1 else nbytes v)
      else if 2 * v < 256 ^ nbytes v then nbytes v else nbytes v + 1)"

lemma ToByteArray_eq: "ToByteArray v = Inr (int_bytes (encoded_length v) v)"
proof -
  consider "v = 0" | "v < 0" | "0 < v" by linarith
  then show ?thesis
  proof cases
    case 1
    then show ?thesis by (simp add: ToByteArray_zero encoded_length_def numeral_eq_Suc)
  next
    case 2
    then obtain k where k: "nbytes v = Suc k" using nbytes_bounds [of v] by auto
    show ?thesis
      using ToByteArray_neg [OF 2 k] 2
      by (auto simp: encoded_length_def k simp del: int_bytes.simps)
  next
    case 3
    then obtain k where k: "nbytes v = Suc k" using nbytes_bounds [of v] by auto
    show ?thesis
      using ToByteArray_pos [OF 3 k] 3
      by (auto simp: encoded_length_def k simp del: int_bytes.simps)
  qed
qed

lemma encoded_length_fits:
  "- (256 ^ encoded_length v) \<le> 2 * v \<and> 2 * v < 256 ^ encoded_length v"
proof (cases "v = 0")
  case True
  then show ?thesis by (simp add: encoded_length_def)
next
  case False
  then obtain k where "nbytes v = Suc k" "256 ^ k \<le> \<bar>v\<bar>" "\<bar>v\<bar> < 256 ^ Suc k"
    using nbytes_bounds by blast
  with False show ?thesis by (auto simp: encoded_length_def)
qed

text \<open>Every integer has a byte encoding, and decoding the bytes gives the integer back.\<close>

theorem ToByteArray_roundtrip: "\<exists>d. ToByteArray v = Inr d \<and> FromBytes d True = v"
  using encoded_length_fits [of v]
  by (simp add: ToByteArray_eq FromBytes_def from_bytes_s_int_bytes)

lemma encoded_length_pos: "0 < encoded_length v"
  using nbytes_bounds [of v] by (auto simp: encoded_length_def)

text \<open>The two's-complement width of a value, and when the encoding is longer than it.\<close>

lemma encoded_length_le_iff:
  "encoded_length v \<le> Suc m \<longleftrightarrow>
     - (256 ^ Suc m) \<le> 2 * v \<and> 2 * v < 256 ^ Suc m \<and> \<not> (m \<noteq> 0 \<and> v = - (256 ^ m))"
proof (cases "v = 0")
  case True
  then show ?thesis by (simp add: encoded_length_def)
next
  case False
  then obtain k where k: "nbytes v = Suc k" "256 ^ k \<le> \<bar>v\<bar>" "\<bar>v\<bar> < 256 ^ Suc k"
    using nbytes_bounds by blast
  have mono: "(256 :: int) ^ a \<le> 256 ^ b" if "a \<le> b" for a b
    using that by (simp add: power_increasing)
  consider "k < m" | "k = m" | "m < k" by linarith
  then show ?thesis
  proof cases
    case 1
    then have "256 ^ Suc k \<le> (256 :: int) ^ m" using mono [of "Suc k" m] by simp
    with k False 1 show ?thesis by (auto simp: encoded_length_def)
  next
    case 2
    with k False show ?thesis by (auto simp: encoded_length_def)
  next
    case 3
    then have "256 ^ Suc m \<le> (256 :: int) ^ k" using mono [of "Suc m" k] by simp
    with k False 3 show ?thesis by (auto simp: encoded_length_def)
  qed
qed

end
