(* ===== verification/Stack_Item.thy ===== *)
theory Stack_Item
  imports BigInteger
begin

text \<open>
  The stack items of \<open>neo/VM/InteropService.py\<close>. Python's items are objects: an array or struct
  holds a reference to a mutable list that others may share (\<open>Array(item)\<close> of an existing
  struct takes over its list), a map holds a dict, and a Boolean used as a dict key is found by its
  identity. So the model has a heap: \<open>h_list\<close> and \<open>h_dict\<close> by reference, and items that
  carry references. Byte arrays and integers are never mutated and are values. Two arrays with one
  list are one item of the model: their \<open>==\<close>, their length and every mutation agree.

  An object of the host behind an InteropInterface is a number; \<open>oeq\<close> is the host's own
  \<open>==\<close>. \<open>depth\<close> is the nesting depth at which Python raises RecursionError; comparison and
  cloning recurse through nested items and fail there. Addresses of objects are assumed never to
  coincide with the byte hash of a key.
\<close>

type_synonym ref = nat

datatype stack_item =
    ByteArray bytes
  | Integer int
  | Boolean ref bool
  | InteropInterface ref "nat option"
  | Array ref
  | Struct ref
  | Map ref

record heap =
  h_list :: "ref \<Rightarrow> stack_item list"
  h_dict :: "ref \<Rightarrow> (stack_item \<times> stack_item) list"
  h_next :: ref

definition empty_heap :: heap where
  "empty_heap = \<lparr>h_list = (\<lambda>_. []), h_dict = (\<lambda>_. []), h_next = 0\<rparr>"

definition alloc_list :: "stack_item list \<Rightarrow> heap \<Rightarrow> ref \<times> heap" where
  "alloc_list xs h =
     (h_next h, h\<lparr>h_list := (h_list h)(h_next h := xs), h_next := Suc (h_next h)\<rparr>)"

definition alloc_dict :: "(stack_item \<times> stack_item) list \<Rightarrow> heap \<Rightarrow> ref \<times> heap" where
  "alloc_dict d h =
     (h_next h, h\<lparr>h_dict := (h_dict h)(h_next h := d), h_next := Suc (h_next h)\<rparr>)"

definition alloc_id :: "heap \<Rightarrow> ref \<times> heap" where
  "alloc_id h = (h_next h, h\<lparr>h_next := Suc (h_next h)\<rparr>)"

definition set_list :: "ref \<Rightarrow> stack_item list \<Rightarrow> heap \<Rightarrow> heap" where
  "set_list r xs h = h\<lparr>h_list := (h_list h)(r := xs)\<rparr>"

definition set_dict :: "ref \<Rightarrow> (stack_item \<times> stack_item) list \<Rightarrow> heap \<Rightarrow> heap" where
  "set_dict r d h = h\<lparr>h_dict := (h_dict h)(r := d)\<rparr>"

lemmas heap_defs = empty_heap_def alloc_list_def alloc_dict_def alloc_id_def set_list_def set_dict_def

section \<open>Types and conversions\<close>

fun IsTypeMap :: "stack_item \<Rightarrow> bool" where
  "IsTypeMap (Map _) = True"
| "IsTypeMap _ = False"

text \<open>\<open>isinstance(item, Array)\<close> and \<open>IsTypeArray\<close>: a Struct is an Array.\<close>

fun IsTypeArray :: "stack_item \<Rightarrow> bool" where
  "IsTypeArray (Array _) = True"
| "IsTypeArray (Struct _) = True"
| "IsTypeArray _ = False"

fun IsStruct :: "stack_item \<Rightarrow> bool" where
  "IsStruct (Struct _) = True"
| "IsStruct _ = False"

definition IsCollection :: "stack_item \<Rightarrow> bool" where
  "IsCollection x \<longleftrightarrow> IsTypeArray x \<or> IsTypeMap x"

text \<open>The methods of the classes that compute; the others return their field or raise.\<close>

definition Boolean_GetByteArray :: "bool \<Rightarrow> bytes" where
  [simp]: "Boolean_GetByteArray b = (if b then [1] else [])"

definition Boolean_GetBigInteger :: "bool \<Rightarrow> int" where
  [simp]: "Boolean_GetBigInteger b = (if b then 1 else 0)"

definition ByteArray_GetBigInteger :: "bytes \<Rightarrow> int" where
  [simp]: "ByteArray_GetBigInteger b = from_bytes_s b"

definition ByteArray_GetBoolean :: "bytes \<Rightarrow> bool" where
  [simp]: "ByteArray_GetBoolean b = (if from_bytes_u b > 32 then True else list_ex (\<lambda>x. x > 0) b)"

definition Integer_GetBoolean :: "int \<Rightarrow> bool" where
  [simp]: "Integer_GetBoolean v \<longleftrightarrow> v \<noteq> 0"

definition InteropInterface_GetBoolean :: "nat option \<Rightarrow> bool" where
  [simp]: "InteropInterface_GetBoolean ob \<longleftrightarrow> ob \<noteq> None"

fun GetByteArray :: "stack_item \<Rightarrow> pyexc + bytes" where
  "GetByteArray (ByteArray b) = Inr b"
| "GetByteArray (Integer v) = ToByteArray v"
| "GetByteArray (Boolean _ b) = Inr (Boolean_GetByteArray b)"
| "GetByteArray (InteropInterface _ _) = Inl NotSupported"
| "GetByteArray (Array _) = Inl NotSupported"
| "GetByteArray (Struct _) = Inl NotSupported"
| "GetByteArray (Map _) = Inl NotSupported"

fun GetBigInteger :: "stack_item \<Rightarrow> pyexc + int" where
  "GetBigInteger (ByteArray b) = Inr (ByteArray_GetBigInteger b)"
| "GetBigInteger (Integer v) = Inr v"
| "GetBigInteger (Boolean _ b) = Inr (Boolean_GetBigInteger b)"
| "GetBigInteger (Array _) = Inl NotSupported"
| "GetBigInteger (Struct _) = Inl NotSupported"
| "GetBigInteger x = ebind (GetByteArray x) (\<lambda>b. Inr (from_bytes_s b))"

fun GetBoolean :: "stack_item \<Rightarrow> bool" where
  "GetBoolean (ByteArray b) = ByteArray_GetBoolean b"
| "GetBoolean (Integer v) = Integer_GetBoolean v"
| "GetBoolean (Boolean _ b) = b"
| "GetBoolean (InteropInterface _ ob) = InteropInterface_GetBoolean ob"
| "GetBoolean (Array _) = True"
| "GetBoolean (Struct _) = True"
| "GetBoolean (Map _) = True"

definition GetByteLength :: "stack_item \<Rightarrow> pyexc + int" where
  "GetByteLength x = ebind (GetByteArray x) (\<lambda>b. Inr (int (length b)))"

fun GetArray :: "heap \<Rightarrow> stack_item \<Rightarrow> pyexc + stack_item list" where
  "GetArray h (Array r) = Inr (h_list h r)"
| "GetArray h (Struct r) = Inr (h_list h r)"
| "GetArray h _ = Inl NotSupported"

text \<open>The values \<open>PushT\<close> accepts besides stack items, and \<open>StackItem.New\<close> on them.\<close>

datatype pyval =
    PyInt int | PyFloat dyadic | PyBool bool | PyBytes bytes | PyList "stack_item list" | PyStr bytes

fun StackItem_New :: "pyval \<Rightarrow> heap \<Rightarrow> stack_item \<times> heap" where
  "StackItem_New (PyInt v) h = (Integer v, h)"
| "StackItem_New (PyFloat f) h = (Integer (float_trunc f), h)"
| "StackItem_New (PyBool b) h = (let (i, h') = alloc_id h in (Boolean i b, h'))"
| "StackItem_New (PyBytes b) h = (ByteArray b, h)"
| "StackItem_New (PyList xs) h = (let (r, h') = alloc_list xs h in (Array r, h'))"
| "StackItem_New (PyStr s) h = (ByteArray s, h)"

definition FromInterface :: "nat option \<Rightarrow> heap \<Rightarrow> stack_item \<times> heap" where
  "FromInterface ob h = (let (i, h') = alloc_id h in (InteropInterface i ob, h'))"

section \<open>Hashing and equality\<close>

datatype hashval = HashInt int | HashId stack_item

definition bytes_hash :: "bytes \<Rightarrow> int" where
  "bytes_hash bs = foldl (\<lambda>hash b. hash * 31 + uint b) 17 bs"

fun item_hash :: "stack_item \<Rightarrow> pyexc + hashval" where
  "item_hash (ByteArray b) = Inr (HashInt (bytes_hash b))"
| "item_hash (Integer v) = ebind (ToByteArray v) (\<lambda>b. Inr (HashInt (bytes_hash b)))"
| "item_hash x = Inr (HashId x)"

definition hash_eq :: "stack_item \<Rightarrow> stack_item \<Rightarrow> pyexc + bool" where
  "hash_eq x y = ebind (item_hash x) (\<lambda>a. ebind (item_hash y) (\<lambda>b. Inr (a = b)))"

text \<open>
  A dict finds a key by its hash; keys with equal hashes are then compared with \<open>==\<close>, which for
  byte arrays and integers compares the same hashes again, and objects hashed by identity are the
  same object.
\<close>

fun dict_get :: "stack_item \<Rightarrow> (stack_item \<times> stack_item) list \<Rightarrow> pyexc + stack_item option" where
  "dict_get k [] = Inr None"
| "dict_get k ((k', v) # d) = ebind (hash_eq k' k) (\<lambda>b. if b then Inr (Some v) else dict_get k d)"

fun dict_set ::
  "stack_item \<Rightarrow> stack_item \<Rightarrow> (stack_item \<times> stack_item) list \<Rightarrow> pyexc + (stack_item \<times> stack_item) list" where
  "dict_set k v [] = Inr [(k, v)]"
| "dict_set k v ((k', v') # d) =
     ebind (hash_eq k' k) (\<lambda>b.
     if b then Inr ((k', v) # d) else ebind (dict_set k v d) (\<lambda>d'. Inr ((k', v') # d')))"

text \<open>\<open>del d[k]\<close>: the flag says whether the key was there (KeyError otherwise).\<close>

fun dict_del ::
  "stack_item \<Rightarrow> (stack_item \<times> stack_item) list \<Rightarrow> pyexc + bool \<times> (stack_item \<times> stack_item) list" where
  "dict_del k [] = Inr (False, [])"
| "dict_del k ((k', v') # d) =
     ebind (hash_eq k' k) (\<lambda>b.
     if b then Inr (True, d) else ebind (dict_del k d) (\<lambda>(f, d'). Inr (f, (k', v') # d')))"

text \<open>\<open>list == list\<close> and \<open>dict == dict\<close>, given \<open>==\<close> on the elements; \<open>is\<close> short-cuts it.\<close>

fun list_eqv :: "('a \<Rightarrow> 'a \<Rightarrow> pyexc + bool) \<Rightarrow> 'a list \<Rightarrow> 'a list \<Rightarrow> pyexc + bool" where
  "list_eqv eq (x # xs) (y # ys) =
     ebind (if x = y then Inr True else eq x y) (\<lambda>b. if b then list_eqv eq xs ys else Inr False)"
| "list_eqv eq _ _ = Inr True"

definition list_eq :: "('a \<Rightarrow> 'a \<Rightarrow> pyexc + bool) \<Rightarrow> 'a list \<Rightarrow> 'a list \<Rightarrow> pyexc + bool" where
  "list_eq eq xs ys = (if length xs \<noteq> length ys then Inr False else list_eqv eq xs ys)"

fun dict_eqv ::
  "(stack_item \<Rightarrow> stack_item \<Rightarrow> pyexc + bool) \<Rightarrow> (stack_item \<times> stack_item) list \<Rightarrow>
   (stack_item \<times> stack_item) list \<Rightarrow> pyexc + bool" where
  "dict_eqv eq [] d = Inr True"
| "dict_eqv eq ((k, v) # a) d =
     ebind (dict_get k d) (\<lambda>r. case r of None \<Rightarrow> Inr False | Some w \<Rightarrow>
     ebind (if v = w then Inr True else eq v w) (\<lambda>b. if b then dict_eqv eq a d else Inr False))"

definition dict_eq ::
  "(stack_item \<Rightarrow> stack_item \<Rightarrow> pyexc + bool) \<Rightarrow> (stack_item \<times> stack_item) list \<Rightarrow>
   (stack_item \<times> stack_item) list \<Rightarrow> pyexc + bool" where
  "dict_eq eq a b = (if length a \<noteq> length b then Inr False else dict_eqv eq a b)"

fun obj_eq :: "(nat \<Rightarrow> nat \<Rightarrow> bool) \<Rightarrow> nat option \<Rightarrow> nat option \<Rightarrow> bool" where
  "obj_eq oeq None None = True"
| "obj_eq oeq (Some a) (Some b) = oeq a b"
| "obj_eq oeq _ _ = False"

text \<open>\<open>x == y\<close>: \<open>StackItem.__eq__\<close> compares hashes, the other classes call \<open>Equals\<close>.\<close>

fun py_eq :: "(stack_item \<Rightarrow> stack_item \<Rightarrow> pyexc + bool) \<Rightarrow> stack_item \<Rightarrow> stack_item \<Rightarrow> pyexc + bool" where
  "py_eq equals (ByteArray b) y = hash_eq (ByteArray b) y"
| "py_eq equals (Integer v) y = hash_eq (Integer v) y"
| "py_eq equals x y = equals x y"

text \<open>\<open>Equals\<close> of each class, after its checks for None and for the same object.\<close>

definition ByteArray_Equals :: "bytes \<Rightarrow> stack_item \<Rightarrow> pyexc + bool" where
  [simp]: "ByteArray_Equals b y = (case GetByteArray y of Inr b' \<Rightarrow> Inr (b = b') | Inl _ \<Rightarrow> Inr False)"

definition Integer_Equals :: "int \<Rightarrow> stack_item \<Rightarrow> pyexc + bool" where
  [simp]: "Integer_Equals v y =
     (case y of Integer w \<Rightarrow> Inr (v = w)
      | _ \<Rightarrow> ebind (ToByteArray v) (\<lambda>a. ebind (GetByteArray y) (\<lambda>b. Inr (a = b))))"

definition Boolean_Equals :: "bool \<Rightarrow> stack_item \<Rightarrow> pyexc + bool" where
  [simp]: "Boolean_Equals b y =
     (case y of Boolean _ c \<Rightarrow> Inr (b = c)
      | _ \<Rightarrow> ebind (GetByteArray y) (\<lambda>d. Inr (Boolean_GetByteArray b = d)))"

definition InteropInterface_Equals :: "(nat \<Rightarrow> nat \<Rightarrow> bool) \<Rightarrow> nat option \<Rightarrow> stack_item \<Rightarrow> pyexc + bool" where
  [simp]: "InteropInterface_Equals oeq a y =
     (case y of InteropInterface _ b \<Rightarrow> Inr (obj_eq oeq a b) | _ \<Rightarrow> Inr False)"

definition Array_Equals ::
  "(stack_item \<Rightarrow> stack_item \<Rightarrow> pyexc + bool) \<Rightarrow> heap \<Rightarrow> ref \<Rightarrow> stack_item \<Rightarrow> pyexc + bool" where
  [simp]: "Array_Equals eq h r y = (case y of Array q \<Rightarrow> list_eq eq (h_list h r) (h_list h q) | _ \<Rightarrow> Inr False)"

definition Struct_Equals ::
  "(stack_item \<Rightarrow> stack_item \<Rightarrow> pyexc + bool) \<Rightarrow> heap \<Rightarrow> ref \<Rightarrow> stack_item \<Rightarrow> pyexc + bool" where
  [simp]: "Struct_Equals eq h r y = (case y of Struct q \<Rightarrow> list_eq eq (h_list h r) (h_list h q) | _ \<Rightarrow> Inr False)"

definition Map_Equals ::
  "(stack_item \<Rightarrow> stack_item \<Rightarrow> pyexc + bool) \<Rightarrow> heap \<Rightarrow> ref \<Rightarrow> stack_item \<Rightarrow> pyexc + bool" where
  [simp]: "Map_Equals eq h r y = (case y of Map q \<Rightarrow> dict_eq eq (h_dict h r) (h_dict h q) | _ \<Rightarrow> Inr False)"

fun item_Equals ::
  "(nat \<Rightarrow> nat \<Rightarrow> bool) \<Rightarrow> heap \<Rightarrow> nat \<Rightarrow> stack_item \<Rightarrow> stack_item \<Rightarrow> pyexc + bool" where
  "item_Equals oeq h 0 x y = Inl RecursionError"
| "item_Equals oeq h (Suc n) x y =
     (if x = y then Inr True
      else case x of
        ByteArray b \<Rightarrow> ByteArray_Equals b y
      | Integer v \<Rightarrow> Integer_Equals v y
      | Boolean _ b \<Rightarrow> Boolean_Equals b y
      | InteropInterface _ a \<Rightarrow> InteropInterface_Equals oeq a y
      | Array r \<Rightarrow> Array_Equals (py_eq (item_Equals oeq h n)) h r y
      | Struct r \<Rightarrow> Struct_Equals (py_eq (item_Equals oeq h n)) h r y
      | Map r \<Rightarrow> Map_Equals (py_eq (item_Equals oeq h n)) h r y)"

definition item_eq ::
  "(nat \<Rightarrow> nat \<Rightarrow> bool) \<Rightarrow> heap \<Rightarrow> nat \<Rightarrow> stack_item \<Rightarrow> stack_item \<Rightarrow> pyexc + bool" where
  "item_eq oeq h n x y = py_eq (item_Equals oeq h n) x y"

text \<open>\<open>x in xs\<close> on a list.\<close>

fun list_contains ::
  "(stack_item \<Rightarrow> stack_item \<Rightarrow> pyexc + bool) \<Rightarrow> stack_item \<Rightarrow> stack_item list \<Rightarrow> pyexc + bool" where
  "list_contains eq x [] = Inr False"
| "list_contains eq x (y # ys) =
     ebind (if x = y then Inr True else eq x y) (\<lambda>b. if b then Inr True else list_contains eq x ys)"

section \<open>Methods of arrays, structs and maps\<close>

text \<open>
  The methods of \<open>Array\<close> on the list at \<open>r\<close>. (\<open>Clear\<close>, which would give the object a
  new list, is called by nothing in the VM and is not modelled.)
\<close>

definition Array_Count :: "heap \<Rightarrow> ref \<Rightarrow> int" where
  "Array_Count h r = int (length (h_list h r))"

definition Array_Contains ::
  "(nat \<Rightarrow> nat \<Rightarrow> bool) \<Rightarrow> nat \<Rightarrow> heap \<Rightarrow> ref \<Rightarrow> stack_item \<Rightarrow> pyexc + bool" where
  "Array_Contains oeq depth h r x = list_contains (item_eq oeq h depth) x (h_list h r)"

definition Array_Add :: "ref \<Rightarrow> stack_item \<Rightarrow> heap \<Rightarrow> heap" where
  "Array_Add r x h = set_list r (h_list h r @ [x]) h"

definition Array_Insert :: "ref \<Rightarrow> int \<Rightarrow> stack_item \<Rightarrow> heap \<Rightarrow> pyexc + heap" where
  "Array_Insert r i x h = ebind (py_set i x (h_list h r)) (\<lambda>l. Inr (set_list r l h))"

fun list_index :: "(stack_item \<Rightarrow> stack_item \<Rightarrow> pyexc + bool) \<Rightarrow> stack_item \<Rightarrow> stack_item list \<Rightarrow> pyexc + nat option" where
  "list_index eq x [] = Inr None"
| "list_index eq x (y # ys) =
     ebind (if y = x then Inr True else eq y x) (\<lambda>b.
     if b then Inr (Some 0) else ebind (list_index eq x ys) (\<lambda>k. Inr (map_option Suc k)))"

definition Array_IndexOf ::
  "(nat \<Rightarrow> nat \<Rightarrow> bool) \<Rightarrow> nat \<Rightarrow> heap \<Rightarrow> ref \<Rightarrow> stack_item \<Rightarrow> pyexc + int" where
  "Array_IndexOf oeq depth h r x =
     ebind (list_index (item_eq oeq h depth) x (h_list h r)) (\<lambda>k.
     case k of None \<Rightarrow> Inl ValueError | Some j \<Rightarrow> Inr (int j))"

definition Array_Remove ::
  "(nat \<Rightarrow> nat \<Rightarrow> bool) \<Rightarrow> nat \<Rightarrow> ref \<Rightarrow> stack_item \<Rightarrow> heap \<Rightarrow> pyexc + bool \<times> heap" where
  "Array_Remove oeq depth r x h =
     ebind (list_index (item_eq oeq h depth) x (h_list h r)) (\<lambda>k.
     case k of None \<Rightarrow> Inr (False, h)
     | Some j \<Rightarrow> Inr (True, set_list r (take j (h_list h r) @ drop (Suc j) (h_list h r)) h))"

definition Array_RemoveAt :: "ref \<Rightarrow> int \<Rightarrow> heap \<Rightarrow> pyexc + stack_item \<times> heap" where
  "Array_RemoveAt r i h = ebind (py_pop i (h_list h r)) (\<lambda>(x, l). Inr (x, set_list r l h))"

definition Array_Reverse :: "ref \<Rightarrow> heap \<Rightarrow> heap" where
  "Array_Reverse r h = set_list r (rev (h_list h r)) h"

definition Map_Keys :: "heap \<Rightarrow> ref \<Rightarrow> stack_item list" where
  "Map_Keys h r = map fst (h_dict h r)"

definition Map_Values :: "heap \<Rightarrow> ref \<Rightarrow> stack_item list" where
  "Map_Values h r = map snd (h_dict h r)"

definition Map_Count :: "heap \<Rightarrow> ref \<Rightarrow> int" where
  "Map_Count h r = int (length (h_dict h r))"

definition Map_TryGetValue :: "heap \<Rightarrow> ref \<Rightarrow> stack_item \<Rightarrow> pyexc + stack_item option" where
  "Map_TryGetValue h r k = dict_get k (h_dict h r)"

definition Map_GetItem :: "heap \<Rightarrow> ref \<Rightarrow> stack_item \<Rightarrow> pyexc + stack_item" where
  "Map_GetItem h r k =
     ebind (dict_get k (h_dict h r)) (\<lambda>v. case v of None \<Rightarrow> Inl KeyError | Some x \<Rightarrow> Inr x)"

definition Map_ContainsKey :: "heap \<Rightarrow> ref \<Rightarrow> stack_item \<Rightarrow> pyexc + bool" where
  "Map_ContainsKey h r k = ebind (dict_get k (h_dict h r)) (\<lambda>v. Inr (v \<noteq> None))"

definition Map_SetItem :: "ref \<Rightarrow> stack_item \<Rightarrow> stack_item \<Rightarrow> heap \<Rightarrow> pyexc + heap" where
  "Map_SetItem r k v h = ebind (dict_set k v (h_dict h r)) (\<lambda>d. Inr (set_dict r d h))"

definition Map_Remove :: "ref \<Rightarrow> stack_item \<Rightarrow> heap \<Rightarrow> pyexc + bool \<times> heap" where
  "Map_Remove r k h = ebind (dict_del k (h_dict h r)) (\<lambda>(f, d). Inr (f, set_dict r d h))"

definition Map_Contains ::
  "(nat \<Rightarrow> nat \<Rightarrow> bool) \<Rightarrow> nat \<Rightarrow> heap \<Rightarrow> ref \<Rightarrow> stack_item \<Rightarrow> pyexc + bool" where
  "Map_Contains oeq depth h r x = list_contains (item_eq oeq h depth) x (Map_Values h r)"

text \<open>\<open>Struct.Clone\<close>: nested structs are cloned in order, everything else is shared.\<close>

fun clone_items ::
  "(heap \<Rightarrow> ref \<Rightarrow> pyexc + ref \<times> heap) \<Rightarrow> heap \<Rightarrow> stack_item list \<Rightarrow> pyexc + stack_item list \<times> heap" where
  "clone_items clone h [] = Inr ([], h)"
| "clone_items clone h (x # xs) =
     ebind (case x of Struct r \<Rightarrow> ebind (clone h r) (\<lambda>(q, h'). Inr (Struct q, h')) | _ \<Rightarrow> Inr (x, h)) (\<lambda>(y, h').
     ebind (clone_items clone h' xs) (\<lambda>(ys, h''). Inr (y # ys, h'')))"

fun Clone :: "nat \<Rightarrow> heap \<Rightarrow> ref \<Rightarrow> pyexc + ref \<times> heap" where
  "Clone 0 h r = Inl RecursionError"
| "Clone (Suc n) h r =
     ebind (clone_items (Clone n) h (h_list h r)) (\<lambda>(newArray, h'). Inr (alloc_list newArray h'))"

lemmas item_method_defs =
  IsCollection_def GetByteLength_def FromInterface_def hash_eq_def list_eq_def dict_eq_def
  item_eq_def Array_Count_def Array_Contains_def Array_Add_def Array_Insert_def Array_IndexOf_def
  Array_Remove_def Array_RemoveAt_def Array_Reverse_def Map_Keys_def Map_Values_def Map_Count_def
  Map_TryGetValue_def Map_GetItem_def Map_ContainsKey_def Map_SetItem_def Map_Remove_def
  Map_Contains_def bytes_hash_def

declare heap_defs [model_defs]
declare item_method_defs [model_defs]

section \<open>Hashes\<close>

lemma item_hash_total: "\<exists>a. item_hash x = Inr a"
  by (cases x) (auto simp: ToByteArray_eq)

definition hash_of :: "stack_item \<Rightarrow> hashval" where
  "hash_of x = projr (item_hash x)"

lemma item_hash_Inr: "item_hash x = Inr (hash_of x)"
  using item_hash_total [of x] by (auto simp: hash_of_def)

lemma hash_eq_iff: "hash_eq x y = Inr (hash_of x = hash_of y)"
  by (simp add: hash_eq_def item_hash_Inr)

text \<open>Small byte strings already share hashes: the multiplier 31 is less than the 256 byte values.\<close>

lemma hash_collision: "hash_of (ByteArray [1, 0]) = hash_of (ByteArray [0, 31])"
  by (simp add: hash_of_def bytes_hash_def)

fun dkeys :: "(stack_item \<times> stack_item) list \<Rightarrow> hashval list" where
  "dkeys [] = []"
| "dkeys ((k, v) # d) = hash_of k # dkeys d"

definition dict_wf :: "(stack_item \<times> stack_item) list \<Rightarrow> bool" where
  "dict_wf d \<longleftrightarrow> distinct (dkeys d)"

lemma dict_get_eq: "dict_get k d = Inr (map_of (map (\<lambda>(k', v). (hash_of k', v)) d) (hash_of k))"
  by (induction d) (auto simp: hash_eq_iff)

lemma dict_set_total: "\<exists>d'. dict_set k v d = Inr d'"
  by (induction d) (auto simp: hash_eq_iff)

lemma dict_set_hashes:
  "dict_set k v d = Inr d' \<Longrightarrow>
     dkeys d' = dkeys d @ (if hash_of k \<in> set (dkeys d) then [] else [hash_of k])"
  by (induction d arbitrary: d') (auto simp: hash_eq_iff ebind_Inr_iff split: if_splits)

lemma dict_set_wf: "dict_set k v d = Inr d' \<Longrightarrow> dict_wf d \<Longrightarrow> dict_wf d'"
  by (auto simp: dict_wf_def dict_set_hashes)

lemma dict_get_set:
  "dict_set k v d = Inr d' \<Longrightarrow>
     dict_get k' d' = (if hash_of k = hash_of k' then Inr (Some v) else dict_get k' d)"
  by (induction d arbitrary: d') (auto simp: hash_eq_iff ebind_Inr_iff split: if_splits)

lemma dict_del_total: "\<exists>r. dict_del k d = Inr r"
  by (induction d) (auto simp: hash_eq_iff)

lemma dict_del_hashes: "dict_del k d = Inr (f, d') \<Longrightarrow> set (dkeys d') \<subseteq> set (dkeys d)"
proof (induction d arbitrary: d' f)
  case (Cons p d)
  then show ?case
    by (cases p) (fastforce simp: hash_eq_iff ebind_Inr_iff split: if_splits)
qed simp

lemma dict_del_wf: "dict_del k d = Inr (f, d') \<Longrightarrow> dict_wf d \<Longrightarrow> dict_wf d'"
proof (induction d arbitrary: d' f)
  case (Cons p d)
  then show ?case
    using dict_del_hashes [of k d]
    by (cases p) (fastforce simp: dict_wf_def hash_eq_iff ebind_Inr_iff split: if_splits)
qed (simp add: dict_wf_def)

lemma dict_get_None_iff: "dict_get k d = Inr None \<longleftrightarrow> hash_of k \<notin> set (dkeys d)"
  by (induction d) (auto simp: hash_eq_iff split: if_splits)

lemma dict_get_del:
  "dict_del k d = Inr (f, d') \<Longrightarrow> dict_wf d \<Longrightarrow>
     dict_get k' d' = (if hash_of k = hash_of k' then Inr None else dict_get k' d)"
proof (induction d arbitrary: d' f)
  case (Cons p d)
  obtain k1 v1 where p: "p = (k1, v1)" by (cases p)
  show ?case
  proof (cases "hash_of k1 = hash_of k")
    case True
    with Cons.prems show ?thesis
      using dict_get_None_iff [of k' d] by (auto simp: p hash_eq_iff dict_wf_def)
  next
    case False
    with Cons show ?thesis by (auto simp: p hash_eq_iff ebind_Inr_iff dict_wf_def)
  qed
qed simp

section \<open>The interface of a keyed map\<close>

text \<open>Keys are only distinguished up to \<open>same\<close>; for the VM's maps that is equality of hashes.\<close>

locale keyed_map =
  fixes same :: "'k \<Rightarrow> 'k \<Rightarrow> bool"
    and wf :: "'m \<Rightarrow> bool"
    and get :: "'k \<Rightarrow> 'm \<Rightarrow> pyexc + 'v option"
    and put :: "'k \<Rightarrow> 'v \<Rightarrow> 'm \<Rightarrow> pyexc + 'm"
    and del :: "'k \<Rightarrow> 'm \<Rightarrow> pyexc + bool \<times> 'm"
  assumes get_total: "\<exists>v. get k m = Inr v"
    and put_total: "\<exists>m'. put k v m = Inr m'"
    and del_total: "\<exists>f m'. del k m = Inr (f, m')"
    and put_wf: "put k v m = Inr m' \<Longrightarrow> wf m \<Longrightarrow> wf m'"
    and del_wf: "del k m = Inr (f, m') \<Longrightarrow> wf m \<Longrightarrow> wf m'"
    and get_put: "put k v m = Inr m' \<Longrightarrow> get k' m' = (if same k k' then Inr (Some v) else get k' m)"
    and get_del: "del k m = Inr (f, m') \<Longrightarrow> wf m \<Longrightarrow>
      get k' m' = (if same k k' then Inr None else get k' m)"

fun put_all :: "('k \<Rightarrow> 'v \<Rightarrow> 'm \<Rightarrow> pyexc + 'm) \<Rightarrow> ('k \<times> 'v) list \<Rightarrow> 'm \<Rightarrow> pyexc + 'm" where
  "put_all put [] m = Inr m"
| "put_all put ((k, v) # kvs) m = ebind (put k v m) (put_all put kvs)"

context keyed_map
begin

lemma put_all_total: "\<exists>m'. put_all put kvs m = Inr m'"
proof (induction kvs arbitrary: m)
  case (Cons p kvs)
  obtain k v where p: "p = (k, v)" by (cases p)
  obtain m1 where "put k v m = Inr m1" using put_total by blast
  with Cons show ?case by (simp add: p)
qed simp

text \<open>After a sequence of insertions a lookup gives the last value written under the key.\<close>

lemma get_put_all:
  "put_all put kvs m = Inr m' \<Longrightarrow>
     get k m' = (case find (\<lambda>p. same (fst p) k) (rev kvs) of Some p \<Rightarrow> Inr (Some (snd p)) | None \<Rightarrow> get k m)"
proof (induction kvs arbitrary: m)
  case (Cons p kvs)
  obtain k1 v1 where p: "p = (k1, v1)" by (cases p)
  obtain m1 where m1: "put k1 v1 m = Inr m1" using put_total by blast
  with Cons have "get k m' =
      (case find (\<lambda>p. same (fst p) k) (rev kvs) of Some p \<Rightarrow> Inr (Some (snd p)) | None \<Rightarrow> get k m1)"
    by (simp add: p)
  moreover have "find P (xs @ [y]) = (case find P xs of Some x \<Rightarrow> Some x | None \<Rightarrow> if P y then Some y else None)"
    for P :: "'k \<times> 'v \<Rightarrow> bool" and xs y
    by (induction xs) auto
  ultimately show ?case
    using get_put [OF m1] by (auto simp: p split: option.splits)
qed simp

lemma put_all_wf: "put_all put kvs m = Inr m' \<Longrightarrow> wf m \<Longrightarrow> wf m'"
proof (induction kvs arbitrary: m)
  case (Cons p kvs)
  then show ?case by (cases p) (auto simp: ebind_Inr_iff intro: put_wf)
qed simp

end

interpretation vm_map: keyed_map "\<lambda>k k'. hash_of k = hash_of k'" dict_wf dict_get dict_set dict_del
proof unfold_locales
  show "\<exists>v. dict_get k d = Inr v" for k d by (simp add: dict_get_eq)
  show "\<exists>f m'. dict_del k d = Inr (f, m')" for k d using dict_del_total [of k d] by auto
qed (auto simp: dict_set_total dict_get_set dict_get_del intro: dict_set_wf dict_del_wf)

section \<open>Heaps without dangling references\<close>

fun item_wf :: "nat \<Rightarrow> stack_item \<Rightarrow> bool" where
  "item_wf n (ByteArray _) = True"
| "item_wf n (Integer _) = True"
| "item_wf n (Boolean i _) = (i < n)"
| "item_wf n (InteropInterface i _) = (i < n)"
| "item_wf n (Array r) = (r < n)"
| "item_wf n (Struct r) = (r < n)"
| "item_wf n (Map r) = (r < n)"

definition heap_wf :: "heap \<Rightarrow> bool" where
  "heap_wf h \<longleftrightarrow>
     (\<forall>r. list_all (item_wf (h_next h)) (h_list h r)) \<and>
     (\<forall>r. list_all (\<lambda>(k, v). item_wf (h_next h) k \<and> item_wf (h_next h) v) (h_dict h r)) \<and>
     (\<forall>r. h_next h \<le> r \<longrightarrow> h_list h r = [] \<and> h_dict h r = [])"

text \<open>The heap only grows: old references keep what they hold unless an operation sets them.\<close>

definition heap_ext :: "heap \<Rightarrow> heap \<Rightarrow> bool" where
  "heap_ext h h' \<longleftrightarrow> h_next h \<le> h_next h' \<and>
     (\<forall>r < h_next h. h_list h' r = h_list h r \<and> h_dict h' r = h_dict h r)"

lemma heap_ext_refl [simp]: "heap_ext h h"
  by (simp add: heap_ext_def)

lemma heap_ext_trans: "heap_ext h h' \<Longrightarrow> heap_ext h' h'' \<Longrightarrow> heap_ext h h''"
  by (auto simp: heap_ext_def)

lemma item_wf_mono: "item_wf n x \<Longrightarrow> n \<le> m \<Longrightarrow> item_wf m x"
  by (cases x) auto

lemma list_item_wf_mono: "list_all (item_wf n) xs \<Longrightarrow> n \<le> m \<Longrightarrow> list_all (item_wf m) xs"
  by (auto simp: list_all_iff intro: item_wf_mono)

lemma dict_item_wf_mono:
  "list_all (\<lambda>(k, v). item_wf n k \<and> item_wf n v) d \<Longrightarrow> n \<le> m \<Longrightarrow>
     list_all (\<lambda>(k, v). item_wf m k \<and> item_wf m v) d"
  by (auto simp: list_all_iff intro: item_wf_mono)

lemma heap_wf_empty: "heap_wf empty_heap"
  by (simp add: heap_wf_def empty_heap_def)

lemma heap_wf_listD: "heap_wf h \<Longrightarrow> list_all (item_wf (h_next h)) (h_list h r)"
  by (simp add: heap_wf_def)

lemma heap_wf_dictD:
  "heap_wf h \<Longrightarrow> list_all (\<lambda>(k, v). item_wf (h_next h) k \<and> item_wf (h_next h) v) (h_dict h r)"
  by (simp add: heap_wf_def)

lemma alloc_list_wf:
  assumes "heap_wf h" "list_all (item_wf (h_next h)) xs" "alloc_list xs h = (r, h')"
  shows "heap_wf h'" "heap_ext h h'" "r < h_next h'" "h_list h' r = xs" "h_next h \<le> r"
proof -
  have h': "h' = h\<lparr>h_list := (h_list h)(h_next h := xs), h_next := Suc (h_next h)\<rparr>" "r = h_next h"
    using assms(3) by (auto simp: alloc_list_def)
  show "heap_wf h'"
    using assms(1,2) unfolding h' heap_wf_def
    by (auto intro: list_item_wf_mono dict_item_wf_mono)
  show "heap_ext h h'" "r < h_next h'" "h_list h' r = xs" "h_next h \<le> r"
    by (auto simp: heap_ext_def h')
qed

lemma alloc_dict_wf:
  assumes "heap_wf h" "list_all (\<lambda>(k, v). item_wf (h_next h) k \<and> item_wf (h_next h) v) d"
    "alloc_dict d h = (r, h')"
  shows "heap_wf h'" "heap_ext h h'" "r < h_next h'" "h_dict h' r = d"
proof -
  have h': "h' = h\<lparr>h_dict := (h_dict h)(h_next h := d), h_next := Suc (h_next h)\<rparr>" "r = h_next h"
    using assms(3) by (auto simp: alloc_dict_def)
  show "heap_wf h'"
    using assms(1,2) unfolding h' heap_wf_def
    by (auto intro: list_item_wf_mono dict_item_wf_mono)
  show "heap_ext h h'" "r < h_next h'" "h_dict h' r = d"
    by (auto simp: heap_ext_def h')
qed

lemma alloc_id_wf:
  assumes "heap_wf h" "alloc_id h = (i, h')"
  shows "heap_wf h'" "heap_ext h h'" "i < h_next h'"
proof -
  have h': "h' = h\<lparr>h_next := Suc (h_next h)\<rparr>" "i = h_next h"
    using assms(2) by (auto simp: alloc_id_def)
  show "heap_wf h'"
    using assms(1) unfolding h' heap_wf_def
    by (auto intro: list_item_wf_mono dict_item_wf_mono)
  show "heap_ext h h'" "i < h_next h'" by (auto simp: heap_ext_def h')
qed

lemma set_list_wf:
  "heap_wf h \<Longrightarrow> r < h_next h \<Longrightarrow> list_all (item_wf (h_next h)) xs \<Longrightarrow> heap_wf (set_list r xs h)"
  by (auto simp: heap_wf_def set_list_def)

lemma set_dict_wf:
  "heap_wf h \<Longrightarrow> r < h_next h \<Longrightarrow>
     list_all (\<lambda>(k, v). item_wf (h_next h) k \<and> item_wf (h_next h) v) d \<Longrightarrow> heap_wf (set_dict r d h)"
  by (auto simp: heap_wf_def set_dict_def)

lemma set_list_next [simp]: "h_next (set_list r xs h) = h_next h"
  by (simp add: set_list_def)

lemma set_dict_next [simp]: "h_next (set_dict r d h) = h_next h"
  by (simp add: set_dict_def)

section \<open>Cloning\<close>

definition clone_ok :: "heap \<Rightarrow> pyexc + ref \<times> heap \<Rightarrow> bool" where
  "clone_ok h res \<longleftrightarrow>
     (\<forall>q h'. res = Inr (q, h') \<longrightarrow> heap_wf h' \<and> heap_ext h h' \<and> h_next h \<le> q \<and> q < h_next h')"

lemma clone_items_ok:
  assumes "\<And>h r. heap_wf h \<Longrightarrow> clone_ok h (clone h r)"
  shows "heap_wf h \<Longrightarrow> list_all (item_wf (h_next h)) xs \<Longrightarrow> clone_items clone h xs = Inr (ys, h') \<Longrightarrow>
    heap_wf h' \<and> heap_ext h h' \<and> list_all (item_wf (h_next h')) ys \<and> length ys = length xs"
proof (induction xs arbitrary: h ys)
  case (Cons x xs)
  obtain y h1 zs where y: "(case x of Struct r \<Rightarrow> ebind (clone h r) (\<lambda>(q, h'). Inr (Struct q, h')) | _ \<Rightarrow> Inr (x, h)) = Inr (y, h1)"
      and zs: "clone_items clone h1 xs = Inr (zs, h')" "ys = y # zs"
    using Cons.prems(3) by (auto simp: ebind_Inr_iff)
  have 1: "heap_wf h1 \<and> heap_ext h h1 \<and> item_wf (h_next h1) y"
    using y Cons.prems(1,2) assms [OF Cons.prems(1)]
    by (cases x) (auto simp: ebind_Inr_iff clone_ok_def)
  then have "list_all (item_wf (h_next h1)) xs"
    using Cons.prems(2) by (auto simp: heap_ext_def intro: list_item_wf_mono)
  from Cons.IH [OF _ this zs(1)] 1 show ?case
    using zs(2) by (auto simp: heap_ext_def intro: item_wf_mono)
qed simp

lemma Clone_ok: "heap_wf h \<Longrightarrow> clone_ok h (Clone n h r)"
proof (induction n arbitrary: h r)
  case (Suc n)
  show ?case
    unfolding clone_ok_def
  proof (intro allI impI)
    fix q h' assume "Clone (Suc n) h r = Inr (q, h')"
    then obtain ys h1 where ys: "clone_items (Clone n) h (h_list h r) = Inr (ys, h1)" "alloc_list ys h1 = (q, h')"
      by (auto simp: ebind_Inr_iff)
    have "heap_wf h1 \<and> heap_ext h h1 \<and> list_all (item_wf (h_next h1)) ys"
      using clone_items_ok [OF Suc.IH Suc.prems heap_wf_listD [OF Suc.prems] ys(1)] by simp
    then show "heap_wf h' \<and> heap_ext h h' \<and> h_next h \<le> q \<and> q < h_next h'"
      using alloc_list_wf [OF _ _ ys(2)] heap_ext_trans by (auto simp: heap_ext_def)
  qed
qed (simp add: clone_ok_def)

text \<open>Cloning runs out of depth only on nesting deeper than the limit.\<close>

lemma clone_flat:
  assumes "\<And>x. x \<in> set (h_list h r) \<Longrightarrow> \<not> IsStruct x"
  shows "Clone (Suc n) h r = Inr (alloc_list (h_list h r) h)"
proof -
  have "clone_items (Clone n) h xs = Inr (xs, h)" if "\<And>x. x \<in> set xs \<Longrightarrow> \<not> IsStruct x" for xs
    using that
  proof (induction xs)
    case (Cons x xs)
    from Cons.prems [of x] Cons show ?case by (cases x) auto
  qed simp
  with assms show ?thesis by simp
qed

section \<open>Properties\<close>

text \<open>The map object \<open>r\<close> of a heap is a keyed map too.\<close>

interpretation map_object: keyed_map "\<lambda>k k'. hash_of k = hash_of k'" "\<lambda>h. dict_wf (h_dict h r)"
  "\<lambda>k h. Map_TryGetValue h r k" "Map_SetItem r" "Map_Remove r" for r
proof unfold_locales
  show "\<exists>v. Map_TryGetValue h r k = Inr v" for h k by (simp add: Map_TryGetValue_def vm_map.get_total)
  show "\<exists>h'. Map_SetItem r k v h = Inr h'" for k v h
    using dict_set_total [of k v "h_dict h r"] by (auto simp: Map_SetItem_def)
  show "\<exists>f h'. Map_Remove r k h = Inr (f, h')" for k h
    using dict_del_total [of k "h_dict h r"] by (auto simp: Map_Remove_def)
qed (auto simp: Map_SetItem_def Map_Remove_def Map_TryGetValue_def set_dict_def ebind_Inr_iff dict_get_set dict_get_del
      intro: dict_set_wf dict_del_wf)

text \<open>
  After any sequence of \<open>SetItem\<close> on a map, \<open>TryGetValue\<close> finds the last value set under a key
  with the same hash, and what the map held before if there was none.
\<close>

theorem map_last_value:
  "put_all (Map_SetItem r) kvs h = Inr h' \<Longrightarrow>
     Map_TryGetValue h' r k =
       (case find (\<lambda>p. hash_of (fst p) = hash_of k) (rev kvs) of
          Some p \<Rightarrow> Inr (Some (snd p)) | None \<Rightarrow> Map_TryGetValue h r k)"
  by (rule map_object.get_put_all)

lemma map_last_value_witness:
  "Map_TryGetValue (set_dict 0 [(Integer 1, Integer 9)] empty_heap) 0 (Integer 1) = Inr (Some (Integer 9))"
  using map_last_value [of 0 "[(Integer 1, Integer 8), (Integer 1, Integer 9)]" empty_heap
      "set_dict 0 [(Integer 1, Integer 9)] empty_heap" "Integer 1"]
  by (simp add: Map_SetItem_def heap_defs hash_eq_iff)

text \<open>
  Two different byte strings are one key: a value set under \<open>01 00\<close> is found under \<open>00 1f\<close>, since
  keys are compared by a hash with multiplier 31.
\<close>

theorem map_key_collision:
  "Map_SetItem r (ByteArray [1, 0]) v h = Inr h' \<Longrightarrow> Map_TryGetValue h' r (ByteArray [0, 31]) = Inr (Some v)"
  using map_object.get_put [of r "ByteArray [1, 0]" v h h' "ByteArray [0, 31]"] hash_collision by simp

lemma map_key_collision_witness:
  "Map_TryGetValue (set_dict 0 [(ByteArray [1, 0], Integer 5)] empty_heap) 0 (ByteArray [0, 31]) = Inr (Some (Integer 5))"
  using map_key_collision [of 0 "Integer 5" empty_heap "set_dict 0 [(ByteArray [1, 0], Integer 5)] empty_heap"]
  by (simp add: Map_SetItem_def heap_defs hash_eq_iff)

text \<open>
  A clone of a struct is a new object of a heap without dangling references, and every object
  that existed keeps its content.
\<close>

theorem Clone_fresh:
  "heap_wf h \<Longrightarrow> Clone n h r = Inr (q, h') \<Longrightarrow>
     h_next h \<le> q \<and> q < h_next h' \<and> heap_wf h' \<and> heap_ext h h'"
  using Clone_ok [of h n r] by (simp add: clone_ok_def)

lemma Clone_fresh_witness:
  "h_next empty_heap \<le> fst (alloc_list [] empty_heap) \<and> heap_wf (snd (alloc_list [] empty_heap))"
  using Clone_fresh [OF heap_wf_empty, of 1 0 "fst (alloc_list [] empty_heap)" "snd (alloc_list [] empty_heap)"]
  by (simp add: heap_defs)

end
