(* ===== verification/Random_Access_Stack.thy ===== *)
theory Random_Access_Stack
  imports Prelude
begin

text \<open>
  \<open>neo/VM/RandomAccessStack.py\<close>: the VM's stacks, a Python list with the top at the end and
  a separate element counter \<open>_size\<close>. The code keeps the two in step; \<open>ras_wf\<close> says so, and
  each operation is shown on \<open>mk_ras xs\<close>, the stack that holds \<open>xs\<close> with the top first. The
  locale \<open>stack_adt\<close> is what the engine relies on: an indexed view, and the effect of every
  operation on it.
\<close>

record 'a ras =
  ras_list :: "'a list"
  ras_size :: int

definition ras_empty :: "'a ras" where
  "ras_empty = \<lparr>ras_list = [], ras_size = 0\<rparr>"

definition ras_Count :: "'a ras \<Rightarrow> int" where
  "ras_Count s = ras_size s"

definition ras_Items :: "'a ras \<Rightarrow> 'a list" where
  "ras_Items s = ras_list s"

definition ras_Clear :: "'a ras \<Rightarrow> 'a ras" where
  "ras_Clear s = s\<lparr>ras_list := [], ras_size := 0\<rparr>"

definition ras_CopyTo :: "'a ras \<Rightarrow> 'a ras \<Rightarrow> int \<Rightarrow> 'a ras" where
  "ras_CopyTo s stack count =
     (if count = 0 then stack
      else if count = - 1 then
        stack\<lparr>ras_list := ras_list stack @ ras_list s, ras_size := ras_size stack + ras_size s\<rparr>
      else
        let skip_count = ras_size s - count in
        stack\<lparr>ras_list := ras_list stack @ py_slice_from skip_count (ras_list s),
              ras_size := ras_size stack + count\<rparr>)"

definition ras_Insert :: "int \<Rightarrow> 'a \<Rightarrow> 'a ras \<Rightarrow> pyexc + 'a ras" where
  "ras_Insert index item s =
     (if index > ras_size s then Inl InvalidListOperation
      else Inr (s\<lparr>ras_list := py_insert (ras_size s - index) item (ras_list s),
                 ras_size := ras_size s + 1\<rparr>))"

text \<open>The index checks that \<open>Peek\<close>, \<open>Remove\<close> and \<open>Set\<close> share, line for line.\<close>

definition ras_index :: "int \<Rightarrow> 'a ras \<Rightarrow> pyexc + int" where
  "ras_index index s =
     (if index \<ge> ras_size s then Inl InvalidListOperation
      else let index = (if index < 0 then index + ras_size s else index)
        in if index < 0 then Inl InvalidListOperation else Inr index)"

definition ras_Peek :: "int \<Rightarrow> 'a ras \<Rightarrow> pyexc + 'a" where
  "ras_Peek index s =
     ebind (ras_index index s) (\<lambda>index. py_nth (ras_size s - index - 1) (ras_list s))"

definition ras_Remove :: "int \<Rightarrow> 'a ras \<Rightarrow> pyexc + 'a \<times> 'a ras" where
  "ras_Remove index s =
     ebind (ras_index index s) (\<lambda>index.
     ebind (py_pop (ras_size s - 1 - index) (ras_list s)) (\<lambda>(item, l).
     Inr (item, s\<lparr>ras_list := l, ras_size := ras_size s - 1\<rparr>)))"

definition ras_Pop :: "'a ras \<Rightarrow> pyexc + 'a \<times> 'a ras" where
  "ras_Pop s = ras_Remove 0 s"

definition ras_PushT :: "'a \<Rightarrow> 'a ras \<Rightarrow> 'a ras" where
  "ras_PushT item s = s\<lparr>ras_list := ras_list s @ [item], ras_size := ras_size s + 1\<rparr>"

definition ras_Set :: "int \<Rightarrow> 'a \<Rightarrow> 'a ras \<Rightarrow> pyexc + 'a ras" where
  "ras_Set index item s =
     ebind (ras_index index s) (\<lambda>index.
     ebind (py_set (ras_size s - index - 1) item (ras_list s)) (\<lambda>l. Inr (s\<lparr>ras_list := l\<rparr>)))"

lemmas ras_defs = ras_empty_def ras_Count_def ras_Items_def ras_Clear_def ras_CopyTo_def
  ras_Insert_def ras_index_def ras_Peek_def ras_Remove_def ras_Pop_def ras_PushT_def ras_Set_def

declare ras_defs [model_defs]

section \<open>Well-formed stacks and their view\<close>

definition ras_wf :: "'a ras \<Rightarrow> bool" where
  "ras_wf s \<longleftrightarrow> ras_size s = int (length (ras_list s))"

definition ras_view :: "'a ras \<Rightarrow> 'a list" where
  "ras_view s = rev (ras_list s)"

definition mk_ras :: "'a list \<Rightarrow> 'a ras" where
  "mk_ras xs = \<lparr>ras_list = rev xs, ras_size = int (length xs)\<rparr>"

lemma ras_wf_mk [simp]: "ras_wf (mk_ras xs)"
  by (simp add: ras_wf_def mk_ras_def)

lemma ras_view_mk [simp]: "ras_view (mk_ras xs) = xs"
  by (simp add: ras_view_def mk_ras_def)

lemma mk_ras_view: "ras_wf s \<Longrightarrow> mk_ras (ras_view s) = s"
  by (simp add: ras_wf_def mk_ras_def ras_view_def)

lemma ras_wfE: "ras_wf s \<Longrightarrow> (\<And>xs. s = mk_ras xs \<Longrightarrow> P) \<Longrightarrow> P"
  using mk_ras_view by metis

lemma mk_ras_inject [simp]: "mk_ras xs = mk_ras ys \<longleftrightarrow> xs = ys"
  by (auto simp: mk_ras_def)

lemma ras_empty_mk: "ras_empty = mk_ras []"
  by (simp add: ras_empty_def mk_ras_def)

lemma ras_Count_mk [simp]: "ras_Count (mk_ras xs) = int (length xs)"
  by (simp add: ras_Count_def mk_ras_def)

lemma ras_size_mk [simp]: "ras_size (mk_ras xs) = int (length xs)"
  by (simp add: mk_ras_def)

lemma ras_Items_mk: "ras_Items (mk_ras xs) = rev xs"
  by (simp add: ras_Items_def mk_ras_def)

lemma ras_Clear_mk [simp]: "ras_Clear (mk_ras xs) = mk_ras []"
  by (simp add: ras_Clear_def mk_ras_def)

lemma ras_PushT_mk [simp]: "ras_PushT x (mk_ras xs) = mk_ras (x # xs)"
  by (simp add: ras_PushT_def mk_ras_def)

lemma ras_index_mk:
  "ras_index i (mk_ras xs) =
     (if - int (length xs) \<le> i \<and> i < int (length xs)
      then Inr (if i < 0 then i + int (length xs) else i) else Inl InvalidListOperation)"
  by (auto simp: ras_index_def Let_def)

lemma ras_Peek_mk:
  assumes "0 \<le> i"
  shows "ras_Peek i (mk_ras xs) =
    (if i < int (length xs) then Inr (xs ! nat i) else Inl InvalidListOperation)"
  using assms
  by (auto simp: ras_Peek_def ras_index_def mk_ras_def py_nth_def py_index_in rev_nth nat_diff_distrib)

lemma take_rev_drop: "k < length xs \<Longrightarrow>
  take (length xs - Suc k) (rev xs) @ drop (length xs - k) (rev xs) = rev (take k xs @ drop (Suc k) xs)"
  by (simp add: take_rev drop_rev)

lemma ras_Remove_mk:
  assumes "0 \<le> i"
  shows "ras_Remove i (mk_ras xs) =
    (if i < int (length xs)
     then Inr (xs ! nat i, mk_ras (take (nat i) xs @ drop (Suc (nat i)) xs))
     else Inl InvalidListOperation)"
proof (cases "i < int (length xs)")
  case True
  define k where "k = nat i"
  have k: "i = int k" "k < length xs" using assms True by (auto simp: k_def)
  have "nat (int (length xs) - 1 - int k) = length xs - Suc k" using k by linarith
  moreover have "Suc (length xs - Suc k) = length xs - k" using k by linarith
  ultimately show ?thesis
    using k take_rev_drop [of k xs]
    by (simp add: ras_Remove_def ras_index_def mk_ras_def py_pop_def py_index_in rev_nth of_nat_diff)
next
  case False
  with assms show ?thesis by (simp add: ras_Remove_def ras_index_mk)
qed

lemma ras_Pop_mk [simp]:
  "ras_Pop (mk_ras []) = Inl InvalidListOperation"
  "ras_Pop (mk_ras (x # xs)) = Inr (x, mk_ras xs)"
  by (simp_all add: ras_Pop_def ras_Remove_mk)

lemma ras_Insert_mk:
  assumes "0 \<le> i"
  shows "ras_Insert i x (mk_ras xs) =
    (if i \<le> int (length xs) then Inr (mk_ras (take (nat i) xs @ x # drop (nat i) xs))
     else Inl InvalidListOperation)"
proof (cases "i \<le> int (length xs)")
  case True
  define k where "k = nat i"
  have k: "i = int k" "k \<le> length xs" using assms True by (auto simp: k_def)
  have "py_clamp (int (length xs) - int k) (length xs) = length xs - k"
    using k by (simp add: py_clamp_def)
  then show ?thesis
    using k by (simp add: ras_Insert_def mk_ras_def py_insert_def take_rev drop_rev)
next
  case False
  then show ?thesis by (simp add: ras_Insert_def)
qed

lemma ras_Set_mk:
  assumes "0 \<le> i"
  shows "ras_Set i x (mk_ras xs) =
    (if i < int (length xs) then Inr (mk_ras (xs[nat i := x])) else Inl InvalidListOperation)"
proof (cases "i < int (length xs)")
  case True
  define k where "k = nat i"
  have k: "i = int k" "k < length xs" using assms True by (auto simp: k_def)
  have "nat (int (length xs) - int k - 1) = length xs - k - 1" using k by linarith
  with k show ?thesis
    by (simp add: ras_Set_def ras_index_def mk_ras_def py_set_def py_index_in rev_update)
next
  case False
  with assms show ?thesis by (simp add: ras_Set_def ras_index_mk)
qed

lemma ras_CopyTo_mk:
  "ras_CopyTo (mk_ras xs) (mk_ras ys) (- 1) = mk_ras (xs @ ys)"
  "0 \<le> n \<Longrightarrow> n \<le> int (length xs) \<Longrightarrow> ras_CopyTo (mk_ras xs) (mk_ras ys) n = mk_ras (take (nat n) xs @ ys)"
proof -
  show "ras_CopyTo (mk_ras xs) (mk_ras ys) (- 1) = mk_ras (xs @ ys)"
    by (simp add: ras_CopyTo_def mk_ras_def)
  assume n: "0 \<le> n" "n \<le> int (length xs)"
  define k where "k = nat n"
  have k: "n = int k" "k \<le> length xs" using n by (auto simp: k_def)
  have "py_clamp (int (length xs) - int k) (length xs) = length xs - k"
    using k by (simp add: py_clamp_def)
  then show "ras_CopyTo (mk_ras xs) (mk_ras ys) n = mk_ras (take (nat n) xs @ ys)"
    using k by (auto simp: ras_CopyTo_def mk_ras_def py_slice_from_def drop_rev)
qed

lemmas ras_mk_simps = ras_Peek_mk ras_Remove_mk ras_Insert_mk ras_Set_mk ras_CopyTo_mk

section \<open>The interface the engine relies on\<close>

locale stack_adt =
  fixes wf :: "'s \<Rightarrow> bool"
    and view :: "'s \<Rightarrow> 'a list"
    and push :: "'a \<Rightarrow> 's \<Rightarrow> 's"
    and peek :: "int \<Rightarrow> 's \<Rightarrow> pyexc + 'a"
    and remove :: "int \<Rightarrow> 's \<Rightarrow> pyexc + 'a \<times> 's"
    and insert_at :: "int \<Rightarrow> 'a \<Rightarrow> 's \<Rightarrow> pyexc + 's"
  assumes view_inj: "wf s \<Longrightarrow> wf t \<Longrightarrow> view s = view t \<Longrightarrow> s = t"
    and wf_push: "wf s \<Longrightarrow> wf (push x s)"
    and view_push: "wf s \<Longrightarrow> view (push x s) = x # view s"
    and peek_law: "wf s \<Longrightarrow> 0 \<le> i \<Longrightarrow> peek i s =
      (if i < int (length (view s)) then Inr (view s ! nat i) else Inl InvalidListOperation)"
    and remove_ok: "wf s \<Longrightarrow> 0 \<le> i \<Longrightarrow> i < int (length (view s)) \<Longrightarrow>
      \<exists>t. remove i s = Inr (view s ! nat i, t) \<and> wf t \<and>
          view t = take (nat i) (view s) @ drop (Suc (nat i)) (view s)"
    and remove_err: "wf s \<Longrightarrow> int (length (view s)) \<le> i \<Longrightarrow> remove i s = Inl InvalidListOperation"
    and insert_ok: "wf s \<Longrightarrow> 0 \<le> i \<Longrightarrow> i \<le> int (length (view s)) \<Longrightarrow>
      \<exists>t. insert_at i x s = Inr t \<and> wf t \<and>
          view t = take (nat i) (view s) @ x # drop (nat i) (view s)"

text \<open>\<open>estack.PushT(estack.Remove(n))\<close>, what ROLL, ROT and SWAP do.\<close>

definition roll_with ::
  "('a \<Rightarrow> 's \<Rightarrow> 's) \<Rightarrow> (int \<Rightarrow> 's \<Rightarrow> pyexc + 'a \<times> 's) \<Rightarrow> int \<Rightarrow> 's \<Rightarrow> pyexc + 's" where
  "roll_with push remove n s = ebind (remove n s) (\<lambda>(x, t). Inr (push x t))"

fun iterate_e :: "nat \<Rightarrow> ('s \<Rightarrow> pyexc + 's) \<Rightarrow> 's \<Rightarrow> pyexc + 's" where
  "iterate_e 0 f s = Inr s"
| "iterate_e (Suc k) f s = ebind (f s) (iterate_e k f)"

context stack_adt
begin

lemma roll_view:
  assumes "wf s" "n < length (view s)"
  shows "\<exists>t. roll_with push remove (int n) s = Inr t \<and> wf t \<and>
    view t = rotate n (take (Suc n) (view s)) @ drop (Suc n) (view s)"
proof -
  let ?v = "view s"
  obtain t where t: "remove (int n) s = Inr (?v ! n, t)" "wf t"
      "view t = take n ?v @ drop (Suc n) ?v"
    using remove_ok [of s "int n"] assms by auto
  have "rotate n (take (Suc n) ?v) = ?v ! n # take n ?v"
    using assms(2) rotate_append [of "take n ?v" "[?v ! n]"]
    by (simp add: take_Suc_conv_app_nth min_absorb2)
  then show ?thesis
    using t by (auto simp: roll_with_def wf_push view_push)
qed

lemma roll_iterate:
  assumes "wf s" "n < length (view s)"
  shows "\<exists>t. iterate_e k (roll_with push remove (int n)) s = Inr t \<and> wf t \<and>
    view t = rotate (k * n) (take (Suc n) (view s)) @ drop (Suc n) (view s)"
  using assms
proof (induction k arbitrary: s)
  case 0
  then show ?case by simp
next
  case (Suc k)
  obtain u where u: "roll_with push remove (int n) s = Inr u" "wf u"
      "view u = rotate n (take (Suc n) (view s)) @ drop (Suc n) (view s)"
    using roll_view Suc.prems by blast
  have len: "length (rotate n (take (Suc n) (view s))) = Suc n" using Suc.prems by simp
  then have u2: "take (Suc n) (view u) = rotate n (take (Suc n) (view s))"
      "drop (Suc n) (view u) = drop (Suc n) (view s)" "n < length (view u)"
    using u(3) by simp_all
  then obtain t where "iterate_e k (roll_with push remove (int n)) u = Inr t" "wf t"
      "view t = rotate (k * n) (take (Suc n) (view u)) @ drop (Suc n) (view u)"
    using Suc.IH u(2) by blast
  then show ?case using u(1) u2 by (simp add: rotate_rotate add.commute)
qed

text \<open>Rolling the same depth \<open>n + 1\<close> times brings every element back.\<close>

lemma roll_cycle:
  assumes "wf s" "n < length (view s)"
  shows "iterate_e (Suc n) (roll_with push remove (int n)) s = Inr s"
proof -
  obtain t where t: "iterate_e (Suc n) (roll_with push remove (int n)) s = Inr t" "wf t"
      "view t = rotate (Suc n * n) (take (Suc n) (view s)) @ drop (Suc n) (view s)"
    using roll_iterate [OF assms, of "Suc n"] by blast
  have "rotate (Suc n * n) (take (Suc n) (view s)) = take (Suc n) (view s)"
    using assms(2) by (intro rotate_id) (simp del: mult_Suc)
  then have "view t = view s" using t(3) by simp
  then have "t = s" using view_inj t(2) assms(1) by blast
  with t(1) show ?thesis by simp
qed

lemma push_remove: "wf s \<Longrightarrow> \<exists>t. remove 0 (push x s) = Inr (x, t) \<and> t = s"
  using remove_ok [of "push x s" 0] view_inj [of _ s] by (auto simp: wf_push view_push)

end

interpretation ras: stack_adt ras_wf ras_view ras_PushT ras_Peek ras_Remove ras_Insert
proof unfold_locales
  fix s t :: "'a ras"
  show "ras_wf s \<Longrightarrow> ras_wf t \<Longrightarrow> ras_view s = ras_view t \<Longrightarrow> s = t"
    by (metis mk_ras_view)
qed (auto elim!: ras_wfE simp: ras_Peek_mk ras_Remove_mk ras_Insert_mk)

section \<open>Properties\<close>

text \<open>Rolling the item at depth \<open>n\<close> to the top \<open>n + 1\<close> times gives back the same stack.\<close>

theorem stack_roll_cycle:
  "ras_wf s \<Longrightarrow> n < length (ras_view s) \<Longrightarrow>
     iterate_e (Suc n) (roll_with ras_PushT ras_Remove (int n)) s = Inr s"
  by (rule ras.roll_cycle)

lemma stack_roll_cycle_witness:
  "iterate_e 3 (roll_with ras_PushT ras_Remove 2) (mk_ras [1, 2, 3, 4 :: int]) = Inr (mk_ras [1, 2, 3, 4])"
  using stack_roll_cycle [of "mk_ras [1, 2, 3, 4 :: int]" 2] by (simp add: eval_nat_numeral)

end
