(* ===== verification/Op_Code.thy ===== *)
theory Op_Code
  imports Prelude
begin

text \<open>
  \<open>neo/VM/OpCode.py\<close>: the opcodes, one constant each (the constants PUSHBYTES2 to PUSHBYTES74
  are the bytes between the two that are named), the names the module exports with their bytes,
  and \<open>ToName\<close>. The file's module scan visits names in alphabetical order, which for the two
  bytes with two names (PUSH0/PUSHF, PUSH1/PUSHT) is the order of the table.
\<close>

definition OP_PUSH0 :: byte where "OP_PUSH0 = 0x00"
definition OP_PUSHF :: byte where "OP_PUSHF = 0x00"
definition OP_PUSHBYTES1 :: byte where "OP_PUSHBYTES1 = 0x01"
definition OP_PUSHBYTES75 :: byte where "OP_PUSHBYTES75 = 0x4B"
definition OP_PUSHDATA1 :: byte where "OP_PUSHDATA1 = 0x4C"
definition OP_PUSHDATA2 :: byte where "OP_PUSHDATA2 = 0x4D"
definition OP_PUSHDATA4 :: byte where "OP_PUSHDATA4 = 0x4E"
definition OP_PUSHM1 :: byte where "OP_PUSHM1 = 0x4F"
definition OP_PUSH1 :: byte where "OP_PUSH1 = 0x51"
definition OP_PUSHT :: byte where "OP_PUSHT = 0x51"
definition OP_PUSH2 :: byte where "OP_PUSH2 = 0x52"
definition OP_PUSH3 :: byte where "OP_PUSH3 = 0x53"
definition OP_PUSH4 :: byte where "OP_PUSH4 = 0x54"
definition OP_PUSH5 :: byte where "OP_PUSH5 = 0x55"
definition OP_PUSH6 :: byte where "OP_PUSH6 = 0x56"
definition OP_PUSH7 :: byte where "OP_PUSH7 = 0x57"
definition OP_PUSH8 :: byte where "OP_PUSH8 = 0x58"
definition OP_PUSH9 :: byte where "OP_PUSH9 = 0x59"
definition OP_PUSH10 :: byte where "OP_PUSH10 = 0x5A"
definition OP_PUSH11 :: byte where "OP_PUSH11 = 0x5B"
definition OP_PUSH12 :: byte where "OP_PUSH12 = 0x5C"
definition OP_PUSH13 :: byte where "OP_PUSH13 = 0x5D"
definition OP_PUSH14 :: byte where "OP_PUSH14 = 0x5E"
definition OP_PUSH15 :: byte where "OP_PUSH15 = 0x5F"
definition OP_PUSH16 :: byte where "OP_PUSH16 = 0x60"
definition OP_NOP :: byte where "OP_NOP = 0x61"
definition OP_JMP :: byte where "OP_JMP = 0x62"
definition OP_JMPIF :: byte where "OP_JMPIF = 0x63"
definition OP_JMPIFNOT :: byte where "OP_JMPIFNOT = 0x64"
definition OP_CALL :: byte where "OP_CALL = 0x65"
definition OP_RET :: byte where "OP_RET = 0x66"
definition OP_APPCALL :: byte where "OP_APPCALL = 0x67"
definition OP_SYSCALL :: byte where "OP_SYSCALL = 0x68"
definition OP_TAILCALL :: byte where "OP_TAILCALL = 0x69"
definition OP_DUPFROMALTSTACK :: byte where "OP_DUPFROMALTSTACK = 0x6A"
definition OP_TOALTSTACK :: byte where "OP_TOALTSTACK = 0x6B"
definition OP_FROMALTSTACK :: byte where "OP_FROMALTSTACK = 0x6C"
definition OP_XDROP :: byte where "OP_XDROP = 0x6D"
definition OP_XSWAP :: byte where "OP_XSWAP = 0x72"
definition OP_XTUCK :: byte where "OP_XTUCK = 0x73"
definition OP_DEPTH :: byte where "OP_DEPTH = 0x74"
definition OP_DROP :: byte where "OP_DROP = 0x75"
definition OP_DUP :: byte where "OP_DUP = 0x76"
definition OP_NIP :: byte where "OP_NIP = 0x77"
definition OP_OVER :: byte where "OP_OVER = 0x78"
definition OP_PICK :: byte where "OP_PICK = 0x79"
definition OP_ROLL :: byte where "OP_ROLL = 0x7A"
definition OP_ROT :: byte where "OP_ROT = 0x7B"
definition OP_SWAP :: byte where "OP_SWAP = 0x7C"
definition OP_TUCK :: byte where "OP_TUCK = 0x7D"
definition OP_CAT :: byte where "OP_CAT = 0x7E"
definition OP_SUBSTR :: byte where "OP_SUBSTR = 0x7F"
definition OP_LEFT :: byte where "OP_LEFT = 0x80"
definition OP_RIGHT :: byte where "OP_RIGHT = 0x81"
definition OP_SIZE :: byte where "OP_SIZE = 0x82"
definition OP_INVERT :: byte where "OP_INVERT = 0x83"
definition OP_AND :: byte where "OP_AND = 0x84"
definition OP_OR :: byte where "OP_OR = 0x85"
definition OP_XOR :: byte where "OP_XOR = 0x86"
definition OP_EQUAL :: byte where "OP_EQUAL = 0x87"
definition OP_INC :: byte where "OP_INC = 0x8B"
definition OP_DEC :: byte where "OP_DEC = 0x8C"
definition OP_SIGN :: byte where "OP_SIGN = 0x8D"
definition OP_NEGATE :: byte where "OP_NEGATE = 0x8F"
definition OP_ABS :: byte where "OP_ABS = 0x90"
definition OP_NOT :: byte where "OP_NOT = 0x91"
definition OP_NZ :: byte where "OP_NZ = 0x92"
definition OP_ADD :: byte where "OP_ADD = 0x93"
definition OP_SUB :: byte where "OP_SUB = 0x94"
definition OP_MUL :: byte where "OP_MUL = 0x95"
definition OP_DIV :: byte where "OP_DIV = 0x96"
definition OP_MOD :: byte where "OP_MOD = 0x97"
definition OP_SHL :: byte where "OP_SHL = 0x98"
definition OP_SHR :: byte where "OP_SHR = 0x99"
definition OP_BOOLAND :: byte where "OP_BOOLAND = 0x9A"
definition OP_BOOLOR :: byte where "OP_BOOLOR = 0x9B"
definition OP_NUMEQUAL :: byte where "OP_NUMEQUAL = 0x9C"
definition OP_NUMNOTEQUAL :: byte where "OP_NUMNOTEQUAL = 0x9E"
definition OP_LT :: byte where "OP_LT = 0x9F"
definition OP_GT :: byte where "OP_GT = 0xA0"
definition OP_LTE :: byte where "OP_LTE = 0xA1"
definition OP_GTE :: byte where "OP_GTE = 0xA2"
definition OP_MIN :: byte where "OP_MIN = 0xA3"
definition OP_MAX :: byte where "OP_MAX = 0xA4"
definition OP_WITHIN :: byte where "OP_WITHIN = 0xA5"
definition OP_SHA1 :: byte where "OP_SHA1 = 0xA7"
definition OP_SHA256 :: byte where "OP_SHA256 = 0xA8"
definition OP_HASH160 :: byte where "OP_HASH160 = 0xA9"
definition OP_HASH256 :: byte where "OP_HASH256 = 0xAA"
definition OP_CHECKSIG :: byte where "OP_CHECKSIG = 0xAC"
definition OP_VERIFY :: byte where "OP_VERIFY = 0xAD"
definition OP_CHECKMULTISIG :: byte where "OP_CHECKMULTISIG = 0xAE"
definition OP_ARRAYSIZE :: byte where "OP_ARRAYSIZE = 0xC0"
definition OP_PACK :: byte where "OP_PACK = 0xC1"
definition OP_UNPACK :: byte where "OP_UNPACK = 0xC2"
definition OP_PICKITEM :: byte where "OP_PICKITEM = 0xC3"
definition OP_SETITEM :: byte where "OP_SETITEM = 0xC4"
definition OP_NEWARRAY :: byte where "OP_NEWARRAY = 0xC5"
definition OP_NEWSTRUCT :: byte where "OP_NEWSTRUCT = 0xC6"
definition OP_NEWMAP :: byte where "OP_NEWMAP = 0xC7"
definition OP_APPEND :: byte where "OP_APPEND = 0xC8"
definition OP_REVERSE :: byte where "OP_REVERSE = 0xC9"
definition OP_REMOVE :: byte where "OP_REMOVE = 0xCA"
definition OP_HASKEY :: byte where "OP_HASKEY = 0xCB"
definition OP_KEYS :: byte where "OP_KEYS = 0xCC"
definition OP_VALUES :: byte where "OP_VALUES = 0xCD"
definition OP_CALL_I :: byte where "OP_CALL_I = 0xE0"
definition OP_CALL_E :: byte where "OP_CALL_E = 0xE1"
definition OP_CALL_ED :: byte where "OP_CALL_ED = 0xE2"
definition OP_CALL_ET :: byte where "OP_CALL_ET = 0xE3"
definition OP_CALL_EDT :: byte where "OP_CALL_EDT = 0xE4"
definition OP_THROW :: byte where "OP_THROW = 0xF0"
definition OP_THROWIFNOT :: byte where "OP_THROWIFNOT = 0xF1"

lemmas opcode_defs =
  OP_PUSH0_def OP_PUSHF_def OP_PUSHBYTES1_def OP_PUSHBYTES75_def OP_PUSHDATA1_def
  OP_PUSHDATA2_def OP_PUSHDATA4_def OP_PUSHM1_def OP_PUSH1_def OP_PUSHT_def
  OP_PUSH2_def OP_PUSH3_def OP_PUSH4_def OP_PUSH5_def OP_PUSH6_def
  OP_PUSH7_def OP_PUSH8_def OP_PUSH9_def OP_PUSH10_def OP_PUSH11_def
  OP_PUSH12_def OP_PUSH13_def OP_PUSH14_def OP_PUSH15_def OP_PUSH16_def
  OP_NOP_def OP_JMP_def OP_JMPIF_def OP_JMPIFNOT_def OP_CALL_def
  OP_RET_def OP_APPCALL_def OP_SYSCALL_def OP_TAILCALL_def OP_DUPFROMALTSTACK_def
  OP_TOALTSTACK_def OP_FROMALTSTACK_def OP_XDROP_def OP_XSWAP_def OP_XTUCK_def
  OP_DEPTH_def OP_DROP_def OP_DUP_def OP_NIP_def OP_OVER_def
  OP_PICK_def OP_ROLL_def OP_ROT_def OP_SWAP_def OP_TUCK_def
  OP_CAT_def OP_SUBSTR_def OP_LEFT_def OP_RIGHT_def OP_SIZE_def
  OP_INVERT_def OP_AND_def OP_OR_def OP_XOR_def OP_EQUAL_def
  OP_INC_def OP_DEC_def OP_SIGN_def OP_NEGATE_def OP_ABS_def
  OP_NOT_def OP_NZ_def OP_ADD_def OP_SUB_def OP_MUL_def
  OP_DIV_def OP_MOD_def OP_SHL_def OP_SHR_def OP_BOOLAND_def
  OP_BOOLOR_def OP_NUMEQUAL_def OP_NUMNOTEQUAL_def OP_LT_def OP_GT_def
  OP_LTE_def OP_GTE_def OP_MIN_def OP_MAX_def OP_WITHIN_def
  OP_SHA1_def OP_SHA256_def OP_HASH160_def OP_HASH256_def OP_CHECKSIG_def
  OP_VERIFY_def OP_CHECKMULTISIG_def OP_ARRAYSIZE_def OP_PACK_def OP_UNPACK_def
  OP_PICKITEM_def OP_SETITEM_def OP_NEWARRAY_def OP_NEWSTRUCT_def OP_NEWMAP_def
  OP_APPEND_def OP_REVERSE_def OP_REMOVE_def OP_HASKEY_def OP_KEYS_def
  OP_VALUES_def OP_CALL_I_def OP_CALL_E_def OP_CALL_ED_def OP_CALL_ET_def
  OP_CALL_EDT_def OP_THROW_def OP_THROWIFNOT_def

definition push_items :: "(string \<times> byte) list" where
  "push_items =
  [(''PUSH0'', 0x00), (''PUSHF'', 0x00), (''PUSHBYTES1'', 0x01), (''PUSHBYTES2'', 0x02),
   (''PUSHBYTES3'', 0x03), (''PUSHBYTES4'', 0x04), (''PUSHBYTES5'', 0x05), (''PUSHBYTES6'', 0x06),
   (''PUSHBYTES7'', 0x07), (''PUSHBYTES8'', 0x08), (''PUSHBYTES9'', 0x09), (''PUSHBYTES10'', 0x0A),
   (''PUSHBYTES11'', 0x0B), (''PUSHBYTES12'', 0x0C), (''PUSHBYTES13'', 0x0D), (''PUSHBYTES14'', 0x0E),
   (''PUSHBYTES15'', 0x0F), (''PUSHBYTES16'', 0x10), (''PUSHBYTES17'', 0x11), (''PUSHBYTES18'', 0x12),
   (''PUSHBYTES19'', 0x13), (''PUSHBYTES20'', 0x14), (''PUSHBYTES21'', 0x15), (''PUSHBYTES22'', 0x16),
   (''PUSHBYTES23'', 0x17), (''PUSHBYTES24'', 0x18), (''PUSHBYTES25'', 0x19), (''PUSHBYTES26'', 0x1A),
   (''PUSHBYTES27'', 0x1B), (''PUSHBYTES28'', 0x1C), (''PUSHBYTES29'', 0x1D), (''PUSHBYTES30'', 0x1E),
   (''PUSHBYTES31'', 0x1F), (''PUSHBYTES32'', 0x20), (''PUSHBYTES33'', 0x21), (''PUSHBYTES34'', 0x22),
   (''PUSHBYTES35'', 0x23), (''PUSHBYTES36'', 0x24), (''PUSHBYTES37'', 0x25), (''PUSHBYTES38'', 0x26),
   (''PUSHBYTES39'', 0x27), (''PUSHBYTES40'', 0x28), (''PUSHBYTES41'', 0x29), (''PUSHBYTES42'', 0x2A),
   (''PUSHBYTES43'', 0x2B), (''PUSHBYTES44'', 0x2C), (''PUSHBYTES45'', 0x2D), (''PUSHBYTES46'', 0x2E),
   (''PUSHBYTES47'', 0x2F), (''PUSHBYTES48'', 0x30), (''PUSHBYTES49'', 0x31), (''PUSHBYTES50'', 0x32),
   (''PUSHBYTES51'', 0x33), (''PUSHBYTES52'', 0x34), (''PUSHBYTES53'', 0x35), (''PUSHBYTES54'', 0x36),
   (''PUSHBYTES55'', 0x37), (''PUSHBYTES56'', 0x38), (''PUSHBYTES57'', 0x39), (''PUSHBYTES58'', 0x3A),
   (''PUSHBYTES59'', 0x3B), (''PUSHBYTES60'', 0x3C), (''PUSHBYTES61'', 0x3D), (''PUSHBYTES62'', 0x3E),
   (''PUSHBYTES63'', 0x3F), (''PUSHBYTES64'', 0x40), (''PUSHBYTES65'', 0x41), (''PUSHBYTES66'', 0x42),
   (''PUSHBYTES67'', 0x43), (''PUSHBYTES68'', 0x44), (''PUSHBYTES69'', 0x45), (''PUSHBYTES70'', 0x46),
   (''PUSHBYTES71'', 0x47), (''PUSHBYTES72'', 0x48), (''PUSHBYTES73'', 0x49), (''PUSHBYTES74'', 0x4A),
   (''PUSHBYTES75'', 0x4B), (''PUSHDATA1'', 0x4C), (''PUSHDATA2'', 0x4D), (''PUSHDATA4'', 0x4E),
   (''PUSHM1'', 0x4F), (''PUSH1'', 0x51), (''PUSHT'', 0x51), (''PUSH2'', 0x52),
   (''PUSH3'', 0x53), (''PUSH4'', 0x54), (''PUSH5'', 0x55), (''PUSH6'', 0x56),
   (''PUSH7'', 0x57), (''PUSH8'', 0x58), (''PUSH9'', 0x59), (''PUSH10'', 0x5A),
   (''PUSH11'', 0x5B), (''PUSH12'', 0x5C), (''PUSH13'', 0x5D), (''PUSH14'', 0x5E),
   (''PUSH15'', 0x5F), (''PUSH16'', 0x60)]"

definition other_items :: "(string \<times> byte) list" where
  "other_items =
  [(''NOP'', 0x61), (''JMP'', 0x62), (''JMPIF'', 0x63), (''JMPIFNOT'', 0x64),
   (''CALL'', 0x65), (''RET'', 0x66), (''APPCALL'', 0x67), (''SYSCALL'', 0x68),
   (''TAILCALL'', 0x69), (''DUPFROMALTSTACK'', 0x6A), (''TOALTSTACK'', 0x6B), (''FROMALTSTACK'', 0x6C),
   (''XDROP'', 0x6D), (''XSWAP'', 0x72), (''XTUCK'', 0x73), (''DEPTH'', 0x74),
   (''DROP'', 0x75), (''DUP'', 0x76), (''NIP'', 0x77), (''OVER'', 0x78),
   (''PICK'', 0x79), (''ROLL'', 0x7A), (''ROT'', 0x7B), (''SWAP'', 0x7C),
   (''TUCK'', 0x7D), (''CAT'', 0x7E), (''SUBSTR'', 0x7F), (''LEFT'', 0x80),
   (''RIGHT'', 0x81), (''SIZE'', 0x82), (''INVERT'', 0x83), (''AND'', 0x84),
   (''OR'', 0x85), (''XOR'', 0x86), (''EQUAL'', 0x87), (''INC'', 0x8B),
   (''DEC'', 0x8C), (''SIGN'', 0x8D), (''NEGATE'', 0x8F), (''ABS'', 0x90),
   (''NOT'', 0x91), (''NZ'', 0x92), (''ADD'', 0x93), (''SUB'', 0x94),
   (''MUL'', 0x95), (''DIV'', 0x96), (''MOD'', 0x97), (''SHL'', 0x98),
   (''SHR'', 0x99), (''BOOLAND'', 0x9A), (''BOOLOR'', 0x9B), (''NUMEQUAL'', 0x9C),
   (''NUMNOTEQUAL'', 0x9E), (''LT'', 0x9F), (''GT'', 0xA0), (''LTE'', 0xA1),
   (''GTE'', 0xA2), (''MIN'', 0xA3), (''MAX'', 0xA4), (''WITHIN'', 0xA5),
   (''SHA1'', 0xA7), (''SHA256'', 0xA8), (''HASH160'', 0xA9), (''HASH256'', 0xAA),
   (''CHECKSIG'', 0xAC), (''VERIFY'', 0xAD), (''CHECKMULTISIG'', 0xAE), (''ARRAYSIZE'', 0xC0),
   (''PACK'', 0xC1), (''UNPACK'', 0xC2), (''PICKITEM'', 0xC3), (''SETITEM'', 0xC4),
   (''NEWARRAY'', 0xC5), (''NEWSTRUCT'', 0xC6), (''NEWMAP'', 0xC7), (''APPEND'', 0xC8),
   (''REVERSE'', 0xC9), (''REMOVE'', 0xCA), (''HASKEY'', 0xCB), (''KEYS'', 0xCC),
   (''VALUES'', 0xCD), (''CALL_I'', 0xE0), (''CALL_E'', 0xE1), (''CALL_ED'', 0xE2),
   (''CALL_ET'', 0xE3), (''CALL_EDT'', 0xE4), (''THROW'', 0xF0), (''THROWIFNOT'', 0xF1)]"

declare opcode_defs [model_defs]

definition ToName :: "byte \<Rightarrow> string option" where
  "ToName op = map_option fst (find (\<lambda>(n, b). b = op) (push_items @ other_items))"

end
