(* ===== verification/Instruction.thy ===== *)
theory Instruction
  imports Op_Code
begin

text \<open>
  \<open>neo/VM/Instruction.py\<close> and \<open>neo/VM/Script.py\<close>: decoding one instruction of a script. A
  script is its bytes and its hash. The lemmas say that decoding depends on the instruction's own
  bytes only and that a decoded instruction lies inside the script.
\<close>

record script =
  s_value :: bytes
  s_hash :: bytes

text \<open>\<open>Script(crypto, value)\<close> computes its hash on demand; \<open>Script.FromHash\<close> is given it.\<close>

definition Script_new :: "(bytes \<Rightarrow> bytes) \<Rightarrow> bytes \<Rightarrow> script" where
  "Script_new hash160 value = \<lparr>s_value = value, s_hash = hash160 value\<rparr>"

definition Script_FromHash :: "bytes \<Rightarrow> bytes \<Rightarrow> script" where
  "Script_FromHash script_hash value = \<lparr>s_value = value, s_hash = script_hash\<rparr>"

definition Script_Length :: "script \<Rightarrow> int" where
  "Script_Length s = int (length (s_value s))"

record instruction =
  ins_OpCode :: byte
  ins_Operand :: bytes

definition Instruction_RET :: instruction where
  "Instruction_RET = \<lparr>ins_OpCode = 0x66, ins_Operand = []\<rparr>"

definition OperandSizePrefixTable :: "byte \<Rightarrow> int" where
  "OperandSizePrefixTable op =
     (if op = OP_PUSHDATA1 then 1
      else if op = OP_PUSHDATA2 then 2
      else if op = OP_PUSHDATA4 then 4
      else if op = OP_SYSCALL then 1
      else 0)"

definition OperandSizeTable :: "byte \<Rightarrow> int" where
  "OperandSizeTable op =
     (if OP_PUSHBYTES1 \<le> op \<and> op \<le> OP_PUSHBYTES75 then uint op
      else if op \<in> {OP_JMP, OP_JMPIF, OP_JMPIFNOT, OP_CALL} then 2
      else if op \<in> {OP_APPCALL, OP_TAILCALL} then 20
      else if op = OP_CALL_I then 4
      else if op \<in> {OP_CALL_E, OP_CALL_ET} then 22
      else if op \<in> {OP_CALL_ED, OP_CALL_EDT} then 2
      else 0)"

definition ReadByte :: "script \<Rightarrow> int \<Rightarrow> pyexc + int \<times> int" where
  "ReadByte script ip =
     (let next_byte_index = ip + 1
      in if next_byte_index > Script_Length script then Inl ValueError
         else ebind (py_nth ip (s_value script)) (\<lambda>b. Inr (next_byte_index, uint b)))"

definition ReadUint16 :: "script \<Rightarrow> int \<Rightarrow> pyexc + int \<times> int" where
  "ReadUint16 script ip =
     (if ip + 2 > Script_Length script then Inl ValueError
      else Inr (ip + 2, from_bytes_u (py_slice ip (ip + 2) (s_value script))))"

definition ReadInt32 :: "script \<Rightarrow> int \<Rightarrow> pyexc + int \<times> int" where
  "ReadInt32 script ip =
     (if ip + 4 > Script_Length script then Inl ValueError
      else Inr (ip + 4, from_bytes_s (py_slice ip (ip + 4) (s_value script))))"

definition ReadExactBytes :: "script \<Rightarrow> int \<Rightarrow> int \<Rightarrow> pyexc + bytes" where
  "ReadExactBytes script ip count =
     (if ip + count > Script_Length script then Inl ValueError
      else Inr (py_slice ip (ip + count) (s_value script)))"

definition FromScriptAndIP :: "script \<Rightarrow> int \<Rightarrow> pyexc + instruction" where
  "FromScriptAndIP script ip =
     ebind (py_nth ip (s_value script)) (\<lambda>opcode.
     let ip = ip + 1; operand_size = OperandSizePrefixTable opcode in
     ebind (if operand_size = 0 then Inr (ip, OperandSizeTable opcode)
            else if operand_size = 1 then ReadByte script ip
            else if operand_size = 2 then ReadUint16 script ip
            else ReadInt32 script ip) (\<lambda>(ip, operand_size).
     if operand_size > 0
     then ebind (ReadExactBytes script ip operand_size) (\<lambda>operand.
          Inr \<lparr>ins_OpCode = opcode, ins_Operand = operand\<rparr>)
     else Inr \<lparr>ins_OpCode = opcode, ins_Operand = []\<rparr>))"

definition Instruction_Size :: "instruction \<Rightarrow> int" where
  "Instruction_Size i =
     (let prefixSize = OperandSizePrefixTable (ins_OpCode i)
      in if prefixSize > 0 then 1 + prefixSize + int (length (ins_Operand i))
         else 1 + OperandSizeTable (ins_OpCode i))"

definition TokenI16 :: "instruction \<Rightarrow> int" where
  "TokenI16 i = from_bytes_s (ins_Operand i)"

definition TokenI16_1 :: "instruction \<Rightarrow> int" where
  "TokenI16_1 i = from_bytes_s (py_slice_from 2 (ins_Operand i))"

definition TokenU32 :: "instruction \<Rightarrow> int" where
  "TokenU32 i = from_bytes_u (ins_Operand i)"

definition Instruction_ReadBytes :: "instruction \<Rightarrow> int \<Rightarrow> int \<Rightarrow> pyexc + bytes" where
  "Instruction_ReadBytes i offset count =
     (if offset + count > int (length (ins_Operand i)) then Inl ValueError
      else Inr (py_slice offset (offset + count) (ins_Operand i)))"

lemmas instruction_defs = Script_new_def Script_FromHash_def Script_Length_def Instruction_RET_def
  OperandSizePrefixTable_def OperandSizeTable_def ReadByte_def ReadUint16_def ReadInt32_def
  ReadExactBytes_def FromScriptAndIP_def Instruction_Size_def TokenI16_def TokenI16_1_def
  TokenU32_def Instruction_ReadBytes_def

declare instruction_defs [model_defs]

lemma length_slice_exact:
  "0 \<le> lo \<Longrightarrow> 0 \<le> n \<Longrightarrow> lo + n \<le> int (length xs) \<Longrightarrow> int (length (py_slice lo (lo + n) xs)) = n"
  by (simp add: py_slice_nonneg min_def nat_add_distrib) linarith

lemma OperandSizeTable_nonneg: "0 \<le> OperandSizeTable op"
  by (simp add: OperandSizeTable_def)

lemma Instruction_Size_pos: "1 \<le> Instruction_Size i"
  using OperandSizeTable_nonneg [of "ins_OpCode i"]
  by (simp add: Instruction_Size_def Let_def OperandSizePrefixTable_def)

text \<open>A decoded instruction occupies at least one byte and ends inside the script.\<close>

lemma FromScriptAndIP_inside:
  assumes "FromScriptAndIP script ip = Inr i" "0 \<le> ip"
  shows "ip + Instruction_Size i \<le> Script_Length script"
proof -
  let ?len = "int (length (s_value script))"
  obtain op where op: "py_nth ip (s_value script) = Inr op" "ip < ?len"
    using assms by (auto simp: FromScriptAndIP_def py_nth_def py_index_def Let_def ebind_Inr_iff split: if_splits)
  define pre where "pre = OperandSizePrefixTable op"
  obtain ip' sz where rd': "(if OperandSizePrefixTable op = 0 then Inr (ip + 1, OperandSizeTable op)
            else if OperandSizePrefixTable op = 1 then ReadByte script (ip + 1)
            else if OperandSizePrefixTable op = 2 then ReadUint16 script (ip + 1)
            else ReadInt32 script (ip + 1)) = Inr (ip', sz)"
      and res: "(if sz > 0 then ebind (ReadExactBytes script ip' sz) (\<lambda>operand.
          Inr \<lparr>ins_OpCode = op, ins_Operand = operand\<rparr>) else Inr \<lparr>ins_OpCode = op, ins_Operand = []\<rparr>) = Inr i"
    using assms(1) op(1) by (auto simp: FromScriptAndIP_def Let_def ebind_Inr_iff)
  note rd = rd' [folded pre_def]
  have pre: "pre = 0 \<or> pre = 1 \<or> pre = 2 \<or> pre = 4"
    by (simp add: pre_def OperandSizePrefixTable_def)
  have ip': "ip' = ip + 1 + pre \<and> ip' \<le> ?len \<and> (pre = 0 \<longrightarrow> sz = OperandSizeTable op)"
    using rd pre op(2)
    by (auto simp: ReadByte_def ReadUint16_def ReadInt32_def Script_Length_def Let_def ebind_Inr_iff split: if_splits)
  have i: "ins_OpCode i = op \<and> int (length (ins_Operand i)) = max 0 sz \<and> ip' + max 0 sz \<le> ?len"
  proof (cases "0 < sz")
    case True
    with res have le: "ip' + sz \<le> ?len" and i: "i = \<lparr>ins_OpCode = op, ins_Operand = py_slice ip' (ip' + sz) (s_value script)\<rparr>"
      by (auto simp: ReadExactBytes_def Script_Length_def split: if_splits)
    show ?thesis using length_slice_exact [of ip' sz "s_value script"] True le ip' pre assms(2) by (auto simp: i)
  next
    case False
    with res ip' show ?thesis by auto
  qed
  show ?thesis
    using i ip' pre OperandSizeTable_nonneg [of op]
    by (auto simp: Instruction_Size_def Let_def pre_def [symmetric] Script_Length_def)
qed

end
