(* ===== verification/UInt_Base.thy ===== *)
theory UInt_Base
  imports Prelude
begin

text \<open>
  \<open>neo/Core/UIntBase.py\<close>, \<open>UInt160.py\<close> and \<open>UInt256.py\<close>: hashes of 20 and 32 bytes, their
  hexadecimal form (most significant byte first) and their order. Python strings are HOL strings;
  \<open>bytes.hex\<close> and \<open>bytearray.fromhex\<close> are modelled because the code converts with them.
  \<open>data\<close> always is \<open>bytes\<close> or a \<open>bytearray\<close> here, so the constructor's \<open>TypeError\<close> cannot occur.
\<close>

section \<open>Hexadecimal text\<close>

definition hex_digit :: "nat \<Rightarrow> char" where
  "hex_digit n = char_of (if n < 10 then 48 + n else 87 + n)"

definition hex_val :: "char \<Rightarrow> nat option" where
  "hex_val c =
     (let n = (of_char c :: nat)
      in if 48 \<le> n \<and> n \<le> 57 then Some (n - 48)
         else if 65 \<le> n \<and> n \<le> 70 then Some (n - 55)
         else if 97 \<le> n \<and> n \<le> 102 then Some (n - 87)
         else None)"

definition hex_byte :: "byte \<Rightarrow> string" where
  "hex_byte b = [hex_digit (unat b div 16), hex_digit (unat b mod 16)]"

definition hex :: "bytes \<Rightarrow> string" where
  "hex bs = concat (map hex_byte bs)"

definition is_space :: "char \<Rightarrow> bool" where
  "is_space c \<longleftrightarrow> (let n = (of_char c :: nat) in n = 32 \<or> 9 \<le> n \<and> n \<le> 13)"

text \<open>Spaces between two bytes are skipped; anything else that is not a pair of digits raises.\<close>

fun fromhex :: "string \<Rightarrow> pyexc + bytes" where
  "fromhex [] = Inr []"
| "fromhex [c] = (if is_space c then Inr [] else Inl ValueError)"
| "fromhex (c # d # cs) =
     (if is_space c then fromhex (d # cs)
      else case (hex_val c, hex_val d) of
        (Some a, Some b) \<Rightarrow> ebind (fromhex cs) (\<lambda>bs. Inr (of_nat (16 * a + b) # bs))
      | _ \<Rightarrow> Inl ValueError)"

text \<open>ASCII text as bytes (\<open>bytes(s, encoding='utf-8')\<close> of hexadecimal text).\<close>

definition ascii :: "string \<Rightarrow> bytes" where
  "ascii s = map of_char s"

section \<open>The class\<close>

record uint =
  Data :: bytes
  uint_hash :: int

definition GetHashCode :: "bytes \<Rightarrow> int" where
  "GetHashCode data =
     (let slice_length = (if 4 \<le> length data then 4 else int (length data))
      in from_bytes_u (py_slice 0 slice_length data))"

definition UIntBase_new :: "nat \<Rightarrow> bytes option \<Rightarrow> pyexc + uint" where
  "UIntBase_new num_bytes data =
     (case data of
        None \<Rightarrow>
          Inr \<lparr>Data = replicate num_bytes 0, uint_hash = GetHashCode (replicate num_bytes 0)\<rparr>
      | Some d \<Rightarrow>
          if length d \<noteq> num_bytes then Inl ValueError
          else Inr \<lparr>Data = d, uint_hash = GetHashCode d\<rparr>)"

definition UInt160 :: "bytes option \<Rightarrow> pyexc + uint" where
  "UInt160 data = UIntBase_new 20 data"

definition UInt256 :: "bytes option \<Rightarrow> pyexc + uint" where
  "UInt256 data = UIntBase_new 32 data"

definition uint_Size :: "uint \<Rightarrow> int" where
  "uint_Size u = int (length (Data u))"

definition uint_ToString :: "uint \<Rightarrow> string" where
  "uint_ToString u = hex (rev (Data u))"

definition uint_ToString2 :: "uint \<Rightarrow> string" where
  "uint_ToString2 u = hex (Data u)"

definition uint_To0xString :: "uint \<Rightarrow> string" where
  "uint_To0xString u = ''0x'' @ uint_ToString u"

definition uint_ToBytes :: "uint \<Rightarrow> bytes" where
  "uint_ToBytes u = ascii (uint_ToString u)"

definition uint_eq :: "uint \<Rightarrow> uint \<Rightarrow> bool" where
  "uint_eq u v \<longleftrightarrow> Data u = Data v"

text \<open>The loop \<open>for i in range(length - 1, 0, -1)\<close>: index 0 is never looked at.\<close>

fun compare_down :: "nat \<Rightarrow> bytes \<Rightarrow> bytes \<Rightarrow> int" where
  "compare_down 0 x y = 0"
| "compare_down (Suc i) x y =
     (if x ! Suc i > y ! Suc i then 1
      else if x ! Suc i < y ! Suc i then - 1
      else compare_down i x y)"

definition CompareTo :: "uint \<Rightarrow> uint \<Rightarrow> pyexc + int" where
  "CompareTo u v =
     (let x = Data u; y = Data v
      in if length x \<noteq> length y then Inl ValueError
         else Inr (compare_down (length x - 1) x y))"

definition uint_lt :: "uint \<Rightarrow> uint \<Rightarrow> pyexc + bool" where
  "uint_lt u v = ebind (CompareTo u v) (\<lambda>c. Inr (c < 0))"

definition uint_gt :: "uint \<Rightarrow> uint \<Rightarrow> pyexc + bool" where
  "uint_gt u v = ebind (CompareTo u v) (\<lambda>c. Inr (c > 0))"

definition uint_le :: "uint \<Rightarrow> uint \<Rightarrow> pyexc + bool" where
  "uint_le u v = ebind (CompareTo u v) (\<lambda>c. Inr (c \<le> 0))"

definition uint_ge :: "uint \<Rightarrow> uint \<Rightarrow> pyexc + bool" where
  "uint_ge u v = ebind (CompareTo u v) (\<lambda>c. Inr (c \<ge> 0))"

definition UInt_ParseString :: "nat \<Rightarrow> string \<Rightarrow> pyexc + uint" where
  "UInt_ParseString num_bytes value =
     (let value = (if take 2 value = ''0x'' then drop 2 value else value)
      in if length value \<noteq> 2 * num_bytes then Inl ValueError
         else ebind (fromhex value) (\<lambda>reversed_data. UIntBase_new num_bytes (Some (rev reversed_data))))"

definition UInt160_ParseString :: "string \<Rightarrow> pyexc + uint" where
  "UInt160_ParseString value = UInt_ParseString 20 value"

definition UInt256_ParseString :: "string \<Rightarrow> pyexc + uint" where
  "UInt256_ParseString value = UInt_ParseString 32 value"

lemmas uint_base_defs = hex_digit_def hex_val_def hex_byte_def hex_def is_space_def ascii_def
  GetHashCode_def UIntBase_new_def UInt160_def UInt256_def uint_Size_def uint_ToString_def
  uint_ToString2_def uint_To0xString_def uint_ToBytes_def uint_eq_def CompareTo_def uint_lt_def
  uint_gt_def uint_le_def uint_ge_def UInt_ParseString_def UInt160_ParseString_def
  UInt256_ParseString_def

declare uint_base_defs [model_defs]

section \<open>Hexadecimal text round-trips\<close>

lemma of_char_hex_digit: "n < 16 \<Longrightarrow> of_char (hex_digit n) = (if n < 10 then 48 + n else 87 + n)"
  by (simp add: hex_digit_def)

lemma hex_val_digit: "n < 16 \<Longrightarrow> hex_val (hex_digit n) = Some n"
  by (auto simp: hex_val_def of_char_hex_digit Let_def)

lemma is_space_digit: "n < 16 \<Longrightarrow> \<not> is_space (hex_digit n)"
  by (auto simp: is_space_def of_char_hex_digit Let_def)

lemma fromhex_hex: "fromhex (hex bs) = Inr bs"
proof (induction bs)
  case (Cons b bs)
  have "unat b < 256" using unsigned_less [of b, where 'a=nat] by simp
  then have "unat b div 16 < 16" "unat b mod 16 < 16" by simp_all
  moreover have "of_nat (16 * (unat b div 16) + unat b mod 16) = b" by simp
  ultimately show ?case
    using Cons by (simp add: hex_def hex_byte_def hex_val_digit is_space_digit)
qed (simp add: hex_def)

lemma length_hex: "length (hex bs) = 2 * length bs"
  by (induction bs) (auto simp: hex_def hex_byte_def)

lemma hex_inject: "hex xs = hex ys \<Longrightarrow> xs = ys"
  using fromhex_hex by (metis Inr_inject)

lemma hex_no_prefix: "take 2 (hex bs) \<noteq> ''0x''"
proof (cases bs)
  case (Cons b cs)
  have "unat b mod 16 < 16" by simp
  then have "hex_digit (unat b mod 16) \<noteq> CHR ''x''"
    using hex_val_digit [of "unat b mod 16"] by (auto simp: hex_val_def)
  then show ?thesis by (simp add: Cons hex_def hex_byte_def)
qed (simp add: hex_def)

lemma ParseString_hex:
  "length d = n \<Longrightarrow> UInt_ParseString n (hex (rev d)) = UIntBase_new n (Some d)"
  "length d = n \<Longrightarrow> UInt_ParseString n (''0x'' @ hex (rev d)) = UIntBase_new n (Some d)"
  by (simp_all add: UInt_ParseString_def hex_no_prefix length_hex fromhex_hex)

section \<open>The order\<close>

definition uint_wf :: "nat \<Rightarrow> uint \<Rightarrow> bool" where
  "uint_wf n u \<longleftrightarrow> length (Data u) = n \<and> uint_hash u = GetHashCode (Data u)"

lemma UIntBase_new_wf: "UIntBase_new n d = Inr u \<Longrightarrow> uint_wf n u"
  by (auto simp: UIntBase_new_def uint_wf_def split: option.splits if_splits)

lemma from_bytes_u_take_Suc:
  "i < length x \<Longrightarrow> from_bytes_u (take (Suc i) x) = from_bytes_u (take i x) + 256 ^ i * uint (x ! i)"
  by (simp add: take_Suc_conv_app_nth from_bytes_u_append min_absorb2)

lemma sgn_top_digit:
  fixes a b :: int
  assumes "0 \<le> a" "a < d" "0 \<le> b" "b < d" "p \<noteq> q"
  shows "sgn (a + d * p - (b + d * q)) = sgn (p - q)"
proof -
  have d: "0 < d" using assms by linarith
  have *: "p - q \<ge> 1 \<Longrightarrow> d * (p - q) \<ge> d" "q - p \<ge> 1 \<Longrightarrow> d * (q - p) \<ge> d"
    using d mult_left_mono [of 1 "p - q" d] mult_left_mono [of 1 "q - p" d] by auto
  have "a + d * p - (b + d * q) = (a - b) + d * (p - q)" by (simp add: algebra_simps)
  moreover have "d * (q - p) = - (d * (p - q))" by (simp add: algebra_simps)
  moreover have "p - q \<ge> 1 \<or> q - p \<ge> 1" using assms(5) by linarith
  ultimately have "p > q \<and> a + d * p - (b + d * q) > 0 \<or> p < q \<and> a + d * p - (b + d * q) < 0"
    using assms(1-4) * by linarith
  then show ?thesis by auto
qed

text \<open>The loop compares the numbers without their least significant byte.\<close>

lemma compare_down_eq:
  "i < length x \<Longrightarrow> length x = length y \<Longrightarrow>
     compare_down i x y = sgn (from_bytes_u (take i (tl x)) - from_bytes_u (take i (tl y)))"
proof (induction i)
  case (Suc i)
  have len: "i < length (tl x)" "i < length (tl y)" using Suc.prems by simp_all
  have nth: "x ! Suc i = tl x ! i" "y ! Suc i = tl y ! i"
    using Suc.prems by (simp_all add: nth_tl)
  let ?a = "from_bytes_u (take i (tl x))" and ?b = "from_bytes_u (take i (tl y))"
  have range: "0 \<le> ?a" "?a < 256 ^ i" "0 \<le> ?b" "?b < 256 ^ i"
    using from_bytes_u_range [of "take i (tl x)"] from_bytes_u_range [of "take i (tl y)"] len
    by (simp_all add: min_absorb2)
  show ?case
  proof (cases "x ! Suc i = y ! Suc i")
    case True
    with Suc len show ?thesis by (simp add: from_bytes_u_take_Suc nth)
  next
    case False
    then have "uint (tl x ! i) \<noteq> uint (tl y ! i)" using nth word_uint_eq_iff by metis
    then have "sgn (from_bytes_u (take (Suc i) (tl x)) - from_bytes_u (take (Suc i) (tl y)))
        = sgn (uint (tl x ! i) - uint (tl y ! i))"
      using sgn_top_digit [OF range] by (simp only: from_bytes_u_take_Suc [OF len(1)] from_bytes_u_take_Suc [OF len(2)])
    moreover have "compare_down (Suc i) x y = sgn (uint (tl x ! i) - uint (tl y ! i))"
      using \<open>uint (tl x ! i) \<noteq> uint (tl y ! i)\<close> by (simp add: nth word_less_def)
    ultimately show ?thesis by simp
  qed
qed simp

text \<open>\<open>CompareTo\<close> orders two values of the same width as little-endian numbers without their lowest
  byte, which the loop never reaches.\<close>

theorem CompareTo_eq:
  assumes "uint_wf n u" "uint_wf n v" "0 < n"
  shows "CompareTo u v = Inr (sgn (from_bytes_u (tl (Data u)) - from_bytes_u (tl (Data v))))"
  using assms compare_down_eq [of "n - 1" "Data u" "Data v"]
  by (simp add: CompareTo_def uint_wf_def Let_def)

lemma CompareTo_eq_witness:
  "CompareTo \<lparr>Data = [1, 0], uint_hash = 1\<rparr> \<lparr>Data = [2, 0], uint_hash = 2\<rparr> = Inr 0"
  using CompareTo_eq [of 2 "\<lparr>Data = [1, 0], uint_hash = 1\<rparr>" "\<lparr>Data = [2, 0], uint_hash = 2\<rparr>"]
  by (simp add: uint_wf_def GetHashCode_def py_slice_nonneg)

text \<open>Parsing what \<open>ToString\<close> or \<open>To0xString\<close> printed gives the same 20-byte value back.\<close>

theorem UInt160_print_parse:
  "uint_wf 20 u \<Longrightarrow>
     UInt160_ParseString (uint_ToString u) = Inr u \<and> UInt160_ParseString (uint_To0xString u) = Inr u"
  using ParseString_hex [of "Data u" 20]
  by (simp add: UInt160_ParseString_def uint_ToString_def uint_To0xString_def uint_wf_def UIntBase_new_def)

lemma UInt160_print_parse_witness:
  "UInt160_ParseString (uint_ToString \<lparr>Data = replicate 20 7, uint_hash = GetHashCode (replicate 20 7)\<rparr>) =
     Inr \<lparr>Data = replicate 20 7, uint_hash = GetHashCode (replicate 20 7)\<rparr>"
  using UInt160_print_parse [of "\<lparr>Data = replicate 20 7, uint_hash = GetHashCode (replicate 20 7)\<rparr>"]
  by (simp add: uint_wf_def)

end
