(* ===== verification/Crypto.thy ===== *)
theory Crypto
  imports UInt_Base
begin

text \<open>
  \<open>neo/Core/Cryptography/Crypto.py\<close> and the hash helpers of \<open>Cryptography/Helper.py\<close>. The
  digest functions (hashlib) and the elliptic-curve routines (the packages ecdsa and bitcoin) are
  the fields of the record \<open>primitives\<close>; everything the source builds from them is defined.
\<close>

record primitives =
  sha1 :: "bytes \<Rightarrow> bytes"
  sha256 :: "bytes \<Rightarrow> bytes"
  ripemd160 :: "bytes \<Rightarrow> bytes"
  decompress :: "bytes \<Rightarrow> pyexc + bytes"
  vk_verify :: "bytes \<Rightarrow> bytes \<Rightarrow> bytes \<Rightarrow> pyexc + bool"

definition bin_dbl_sha256 :: "primitives \<Rightarrow> bytes \<Rightarrow> bytes" where
  "bin_dbl_sha256 c s = sha256 c (sha256 c s)"

definition bin_hash160Bytes :: "primitives \<Rightarrow> bytes \<Rightarrow> bytes" where
  "bin_hash160Bytes c bts = (let intermed = sha256 c bts in ripemd160 c intermed)"

definition bin_hash160 :: "primitives \<Rightarrow> bytes \<Rightarrow> string" where
  "bin_hash160 c s = (let intermed = sha256 c s in hex (ripemd160 c intermed))"

definition double_sha256 :: "primitives \<Rightarrow> bytes \<Rightarrow> string" where
  "double_sha256 c ba = hex (sha256 c (sha256 c ba))"

text \<open>\<open>binascii.unhexlify\<close> on bytes; \<open>None\<close> is \<open>binascii.Error\<close>.\<close>

fun unhexlify :: "bytes \<Rightarrow> bytes option" where
  "unhexlify [] = Some []"
| "unhexlify [_] = None"
| "unhexlify (a # b # bs) =
     (case (hex_val (char_of (unat a)), hex_val (char_of (unat b))) of
        (Some x, Some y) \<Rightarrow> map_option (\<lambda>r. of_nat (16 * x + y) # r) (unhexlify bs)
      | _ \<Rightarrow> None)"

text \<open>\<open>binascii.hexlify\<close>.\<close>

definition hexlify :: "bytes \<Rightarrow> bytes" where
  "hexlify bs = ascii (hex bs)"

text \<open>Redeem scripts and addresses' hashes; \<open>pubkey\<close> is hexadecimal text.\<close>

definition pubkey_to_redeem :: "bytes \<Rightarrow> pyexc + bytes" where
  "pubkey_to_redeem pubkey =
     (case unhexlify (ascii ''21'' @ pubkey @ ascii ''ac'') of Some r \<Rightarrow> Inr r | None \<Rightarrow> Inl ValueError)"

definition redeem_to_scripthash :: "primitives \<Rightarrow> bytes \<Rightarrow> bytes" where
  "redeem_to_scripthash c redeem = bin_hash160Bytes c redeem"

definition pubkey_to_pubhash :: "primitives \<Rightarrow> bytes \<Rightarrow> pyexc + bytes" where
  "pubkey_to_pubhash c pubkey = ebind (pubkey_to_redeem pubkey) (\<lambda>r. Inr (redeem_to_scripthash c r))"

definition Crypto_ToScriptHash :: "primitives \<Rightarrow> bytes \<Rightarrow> bool \<Rightarrow> pyexc + uint" where
  "Crypto_ToScriptHash c data unhex =
     ebind (if 1 < length data \<and> unhex
            then (case unhexlify data of Some d \<Rightarrow> Inr d | None \<Rightarrow> Inl ValueError)
            else Inr data) (\<lambda>data.
     case unhexlify (ascii (bin_hash160 c data)) of
       Some d \<Rightarrow> UInt160 (Some d)
     | None \<Rightarrow> Inl ValueError)"

text \<open>
  \<open>VerifySignature\<close> for a public key given as bytes (the VM never passes an \<open>ECPoint\<close>). An
  exception of \<open>VerifyingKey.from_string\<close> or \<open>verify\<close> is caught, one of \<open>decompress\<close> is not.
\<close>

definition VerifySignature :: "primitives \<Rightarrow> bytes \<Rightarrow> bytes \<Rightarrow> bytes \<Rightarrow> bool \<Rightarrow> pyexc + bool" where
  "VerifySignature c message signature public_key unhex =
     (let message =
        (if unhex then (case unhexlify message of Some m \<Rightarrow> m | None \<Rightarrow> message) else message)
      in ebind (if length public_key = 33
                then ebind (decompress c public_key) (\<lambda>k. Inr (py_slice_from 1 k))
                else Inr public_key) (\<lambda>public_key.
         case vk_verify c public_key signature message of
           Inr res \<Rightarrow> Inr res
         | Inl _ \<Rightarrow> Inr False))"

definition Hash160 :: "primitives \<Rightarrow> bytes \<Rightarrow> bytes" where
  "Hash160 c message = bin_hash160Bytes c message"

definition Hash256 :: "primitives \<Rightarrow> bytes \<Rightarrow> bytes" where
  "Hash256 c message = bin_dbl_sha256 c message"

lemmas crypto_defs = bin_dbl_sha256_def bin_hash160Bytes_def bin_hash160_def double_sha256_def
  hexlify_def pubkey_to_redeem_def redeem_to_scripthash_def pubkey_to_pubhash_def
  Crypto_ToScriptHash_def VerifySignature_def Hash160_def Hash256_def

declare crypto_defs [model_defs]

lemma unat_of_char: "unat (of_char c :: byte) = of_char c"
proof -
  have "(of_char c :: byte) = of_nat (of_char c)" by (rule of_nat_of_char [symmetric])
  moreover have "(of_char c :: nat) < 256" by (rule nat_of_char_less_256)
  ultimately show ?thesis by (simp add: unat_of_nat)
qed

lemma unhexlify_hexlify [simp]: "unhexlify (hexlify bs) = Some bs"
proof (induction bs)
  case (Cons b bs)
  have "unat b div 16 < 16" "unat b mod 16 < 16" using unsigned_less [of b, where 'a=nat] by simp_all
  moreover have "of_nat (16 * (unat b div 16) + unat b mod 16) = b" by simp
  ultimately show ?case
    using Cons by (simp add: hexlify_def ascii_def hex_def hex_byte_def unat_of_char hex_val_digit)
qed (simp add: hexlify_def ascii_def hex_def)

text \<open>The script hash of a script is its Hash160, whether given as bytes or as hexadecimal text.\<close>

theorem ToScriptHash_eq:
  assumes "length (Hash160 c data) = 20"
  shows "Crypto_ToScriptHash c data False = UInt160 (Some (Hash160 c data)) \<and>
    (2 \<le> length data \<longrightarrow> Crypto_ToScriptHash c (hexlify data) True = UInt160 (Some (Hash160 c data)))"
proof -
  have u: "unhexlify (ascii (bin_hash160 c d)) = Some (Hash160 c d)" for d
    using unhexlify_hexlify [of "Hash160 c d"] by (simp add: bin_hash160_def Hash160_def bin_hash160Bytes_def hexlify_def Let_def)
  have "2 \<le> length data \<Longrightarrow> 1 < length (hexlify data)" by (simp add: hexlify_def ascii_def length_hex)
  then show ?thesis
    by (simp add: Crypto_ToScriptHash_def u)
qed

lemma ToScriptHash_eq_witness:
  "Crypto_ToScriptHash \<lparr>sha1 = id, sha256 = id, ripemd160 = (\<lambda>b. take 20 (b @ replicate 20 0)), decompress = Inr,
     vk_verify = (\<lambda>k s m. Inr True)\<rparr> [81] False = UInt160 (Some (81 # replicate 19 0))"
  using ToScriptHash_eq [of "\<lparr>sha1 = id, sha256 = id, ripemd160 = (\<lambda>b. take 20 (b @ replicate 20 0)), decompress = Inr,
     vk_verify = (\<lambda>k s m. Inr True)\<rparr>" "[81]"]
  by (simp add: Hash160_def bin_hash160Bytes_def)

end
