(* ===== verification/Engine_State.thy ===== *)
theory Engine_State
  imports Py_Monad Stack_Item Random_Access_Stack Instruction Crypto
begin

text \<open>
  The state of \<open>neo/VM/ExecutionEngine.py\<close>, the execution contexts of
  \<open>neo/VM/ExecutionContext.py\<close>, the limits of the engine and the counting of stack items.

  Python's methods mutate the engine and may raise in the middle, so a method is a state
  transformer that returns its new state with one of three outcomes: a value, an early \<open>return\<close>
  of the enclosing \<open>ExecuteInstruction\<close>, or an exception. A context is an object that outlives its
  place on the invocation stack (TAILCALL and RET go on using the one they removed), so contexts
  live in a store and the invocation stack holds their numbers. A context's \<open>instructions\<close>
  dictionary memoises the decoding of the immutable script; it is not modelled.
\<close>

section \<open>Contexts and the engine\<close>

type_synonym cid = nat

record exec_context =
  Script :: script
  RVCount :: int
  InstructionPointer :: int
  ins :: "instruction option"
  EvaluationStack :: "stack_item ras"
  AltStack :: "stack_item ras"

definition ExecutionContext :: "script \<Rightarrow> int \<Rightarrow> exec_context" where
  "ExecutionContext scr rvcount =
     \<lparr>Script = scr, RVCount = rvcount, InstructionPointer = 0, ins = None,
      EvaluationStack = ras_empty, AltStack = ras_empty\<rparr>"

text \<open>\<open>engine.debugger\<close>: no such attribute, None, or a debugger with its breakpoints.\<close>

datatype debugger = NoAttribute | NoDebugger | Debugger "bytes \<Rightarrow> int set option"

record engine =
  VMState :: int
  InvocationStack :: "cid ras"
  contexts :: "cid \<Rightarrow> exec_context"
  next_context :: cid
  ResultStack :: "stack_item ras"
  ExecutedScriptHashes :: "bytes list"
  ops_processed :: int
  is_stackitem_count_strict :: bool
  stackitem_count :: int
  debug_map :: "(bytes \<times> int list) option"
  debugger :: debugger
  items_heap :: heap

definition VM_NONE :: int where "VM_NONE = 0"
definition VM_HALT :: int where "VM_HALT = 1"
definition VM_FAULT :: int where "VM_FAULT = 2"
definition VM_BREAK :: int where "VM_BREAK = 4"

definition has_flag :: "int \<Rightarrow> int \<Rightarrow> bool" where
  "has_flag st flag \<longleftrightarrow> st div flag mod 2 = 1"

text \<open>\<open>_VMState &= ~VMState.BREAK\<close>.\<close>

definition clear_break :: "int \<Rightarrow> int" where
  "clear_break st = (if has_flag st VM_BREAK then st - VM_BREAK else st)"

text \<open>
  What the engine is given: the cryptographic primitives, the table of scripts (None when there is
  none), the message of the script container (None when there is no container), the container
  itself, the interop service, the host's object equality, the recursion limit and
  \<open>exit_on_error\<close>.
\<close>

record 's env =
  primitives_of :: primitives
  GetScript :: "(bytes \<Rightarrow> ('s, bytes option) m) option"
  container :: "nat option"
  GetMessage :: "pyexc + bytes"
  service :: "(int \<Rightarrow> ('s, bool) m option) option"
  host_eq :: "nat \<Rightarrow> nat \<Rightarrow> bool"
  recursion_limit :: nat
  exit_on_error :: bool

definition ExecutionEngine :: engine where
  "ExecutionEngine =
     \<lparr>VMState = VM_BREAK, InvocationStack = ras_empty, contexts = (\<lambda>_. ExecutionContext \<lparr>s_value = [], s_hash = []\<rparr> 0),
      next_context = 0, ResultStack = ras_empty, ExecutedScriptHashes = [], ops_processed = 0,
      is_stackitem_count_strict = True, stackitem_count = 0, debug_map = None, debugger = NoAttribute,
      items_heap = empty_heap\<rparr>"

section \<open>Contexts\<close>

definition GetInstruction :: "script \<Rightarrow> int \<Rightarrow> pyexc + instruction" where
  "GetInstruction scr ip =
     (if ip \<ge> Script_Length scr then Inr Instruction_RET else FromScriptAndIP scr ip)"

definition CurrentInstruction :: "exec_context \<Rightarrow> pyexc + instruction" where
  "CurrentInstruction c =
     (case ins c of None \<Rightarrow> GetInstruction (Script c) (InstructionPointer c) | Some i \<Rightarrow> Inr i)"

definition NextInstruction :: "exec_context \<Rightarrow> pyexc + instruction" where
  "NextInstruction c =
     ebind (CurrentInstruction c) (\<lambda>i.
     GetInstruction (Script c) (InstructionPointer c + Instruction_Size i))"

definition update_context :: "cid \<Rightarrow> (exec_context \<Rightarrow> exec_context) \<Rightarrow> 'z engine_scheme \<Rightarrow> 'z engine_scheme" where
  "update_context c f s = s\<lparr>contexts := (contexts s)(c := f (contexts s c))\<rparr>"

text \<open>Setting the instruction pointer and caching the instruction there.\<close>

definition jump_to :: "cid \<Rightarrow> int \<Rightarrow> ('z engine_scheme, unit) m" where
  "jump_to c ip =
     sq (modify (update_context c (\<lambda>x. x\<lparr>InstructionPointer := ip\<rparr>)))
        (bnd (gets (\<lambda>s. contexts s c)) (\<lambda>x.
         bnd (lft (GetInstruction (Script x) ip)) (\<lambda>i.
         modify (update_context c (\<lambda>x. x\<lparr>ins := Some i\<rparr>)))))"

definition MoveNext :: "cid \<Rightarrow> ('z engine_scheme, bool) m" where
  "MoveNext c =
     bnd (gets (\<lambda>s. contexts s c)) (\<lambda>x.
     bnd (lft (CurrentInstruction x)) (\<lambda>i.
     sq (jump_to c (InstructionPointer x + Instruction_Size i))
        (gets (\<lambda>s. InstructionPointer (contexts s c) < Script_Length (Script (contexts s c))))))"

section \<open>The stacks of the engine\<close>

datatype stack_ref = EStack cid | AStack cid | RStack

fun get_stack :: "stack_ref \<Rightarrow> 'z engine_scheme \<Rightarrow> stack_item ras" where
  "get_stack (EStack c) s = EvaluationStack (contexts s c)"
| "get_stack (AStack c) s = AltStack (contexts s c)"
| "get_stack RStack s = ResultStack s"

fun put_stack :: "stack_ref \<Rightarrow> stack_item ras \<Rightarrow> 'z engine_scheme \<Rightarrow> 'z engine_scheme" where
  "put_stack (EStack c) t s = update_context c (\<lambda>x. x\<lparr>EvaluationStack := t\<rparr>) s"
| "put_stack (AStack c) t s = update_context c (\<lambda>x. x\<lparr>AltStack := t\<rparr>) s"
| "put_stack RStack t s = s\<lparr>ResultStack := t\<rparr>"

definition Pop :: "stack_ref \<Rightarrow> ('z engine_scheme, stack_item) m" where
  "Pop k = bnd (gets (get_stack k)) (\<lambda>t. bnd (lft (ras_Pop t)) (\<lambda>(x, t). sq (modify (put_stack k t)) (ret x)))"

definition Remove :: "stack_ref \<Rightarrow> int \<Rightarrow> ('z engine_scheme, stack_item) m" where
  "Remove k n =
     bnd (gets (get_stack k)) (\<lambda>t. bnd (lft (ras_Remove n t)) (\<lambda>(x, t). sq (modify (put_stack k t)) (ret x)))"

definition Peek :: "stack_ref \<Rightarrow> int \<Rightarrow> ('z engine_scheme, stack_item) m" where
  "Peek k n = bnd (gets (get_stack k)) (\<lambda>t. lft (ras_Peek n t))"

definition Push :: "stack_ref \<Rightarrow> stack_item \<Rightarrow> ('z engine_scheme, unit) m" where
  "Push k x = modify (\<lambda>s. put_stack k (ras_PushT x (get_stack k s)) s)"

definition new_item :: "pyval \<Rightarrow> ('z engine_scheme, stack_item) m" where
  "new_item v s = (let (x, h) = StackItem_New v (items_heap s) in (Val x, s\<lparr>items_heap := h\<rparr>))"

text \<open>\<open>PushT\<close> of a value that is not a stack item yet.\<close>

definition PushT :: "stack_ref \<Rightarrow> pyval \<Rightarrow> ('z engine_scheme, unit) m" where
  "PushT k v = bnd (new_item v) (Push k)"

definition Insert :: "stack_ref \<Rightarrow> int \<Rightarrow> stack_item \<Rightarrow> ('z engine_scheme, unit) m" where
  "Insert k n x = bnd (gets (get_stack k)) (\<lambda>t. bnd (lft (ras_Insert n x t)) (\<lambda>t. modify (put_stack k t)))"

definition SetAt :: "stack_ref \<Rightarrow> int \<Rightarrow> stack_item \<Rightarrow> ('z engine_scheme, unit) m" where
  "SetAt k n x = bnd (gets (get_stack k)) (\<lambda>t. bnd (lft (ras_Set n x t)) (\<lambda>t. modify (put_stack k t)))"

definition Count :: "stack_ref \<Rightarrow> ('z engine_scheme, int) m" where
  "Count k = gets (\<lambda>s. ras_Count (get_stack k s))"

definition CopyTo :: "stack_ref \<Rightarrow> stack_ref \<Rightarrow> int \<Rightarrow> ('z engine_scheme, unit) m" where
  "CopyTo k l n = modify (\<lambda>s. put_stack l (ras_CopyTo (get_stack k s) (get_stack l s) n) s)"

definition Clear :: "stack_ref \<Rightarrow> ('z engine_scheme, unit) m" where
  "Clear k = modify (\<lambda>s. put_stack k (ras_Clear (get_stack k s)) s)"

definition PopInt :: "stack_ref \<Rightarrow> ('z engine_scheme, int) m" where
  "PopInt k = bnd (Pop k) (\<lambda>x. lft (GetBigInteger x))"

definition PopBytes :: "stack_ref \<Rightarrow> ('z engine_scheme, bytes) m" where
  "PopBytes k = bnd (Pop k) (\<lambda>x. lft (GetByteArray x))"

definition PopBool :: "stack_ref \<Rightarrow> ('z engine_scheme, bool) m" where
  "PopBool k = bnd (Pop k) (\<lambda>x. ret (GetBoolean x))"

text \<open>The invocation stack.\<close>

definition CurrentContext :: "('z engine_scheme, cid) m" where
  "CurrentContext = bnd (gets InvocationStack) (\<lambda>t. lft (ras_Peek 0 t))"

definition CallingContext :: "('z engine_scheme, cid option) m" where
  "CallingContext =
     bnd (gets InvocationStack) (\<lambda>t.
     if ras_Count t > 1 then bnd (lft (ras_Peek 1 t)) (\<lambda>c. ret (Some c)) else ret None)"

definition EntryContext :: "('z engine_scheme, cid) m" where
  "EntryContext = bnd (gets InvocationStack) (\<lambda>t. lft (ras_Peek (ras_Count t - 1) t))"

definition remove_context :: "int \<Rightarrow> ('z engine_scheme, cid) m" where
  "remove_context n =
     bnd (gets InvocationStack) (\<lambda>t.
     bnd (lft (ras_Remove n t)) (\<lambda>(c, t). sq (modify (\<lambda>s. s\<lparr>InvocationStack := t\<rparr>)) (ret c)))"

definition engine_Dispose :: "'z engine_scheme \<Rightarrow> 'z engine_scheme" where
  "engine_Dispose s = s\<lparr>InvocationStack := ras_Clear (InvocationStack s)\<rparr>"

definition VM_FAULT_and_report :: "('z engine_scheme, 'a) m" where
  "VM_FAULT_and_report = sq (modify (\<lambda>s. s\<lparr>VMState := VM_FAULT\<rparr>)) (fin False)"

text \<open>Where the code calls \<open>VM_FAULT_and_report\<close> without returning its result.\<close>

definition set_fault :: "('z engine_scheme, unit) m" where
  "set_fault = modify (\<lambda>s. s\<lparr>VMState := VM_FAULT\<rparr>)"

end
