(* ===== verification/Engine_Limits.thy ===== *)
theory Engine_Limits
  imports Engine_State
begin

text \<open>
  The limits of \<open>neo/VM/ExecutionEngine.py\<close> (sizes, shifts, integers, invocations, stack items),
  the count of reachable stack items, and the loading of scripts. \<open>GetItemCount\<close> works through a
  deque; \<open>count_items\<close> is its loop with fuel, and \<open>count_fuel\<close> (every entry of every list and
  dict at most twice) is enough on a heap without dangling references.
\<close>

definition int_MaxValue :: int where "int_MaxValue = 2147483647"
definition MaxSizeForBigInteger :: int where "MaxSizeForBigInteger = 32"
definition max_shl_shr :: int where "max_shl_shr = 256"
definition min_shl_shr :: int where "min_shl_shr = - 256"
definition maxItemSize :: int where "maxItemSize = 1024 * 1024"
definition maxArraySize :: int where "maxArraySize = 1024"
definition maxStackSize :: int where "maxStackSize = 2048"
definition maxInvocationStackSize :: int where "maxInvocationStackSize = 1024"

definition CheckArraySize :: "int \<Rightarrow> bool" where
  "CheckArraySize n \<longleftrightarrow> n \<le> maxArraySize"

definition CheckMaxItemSize :: "int \<Rightarrow> bool" where
  "CheckMaxItemSize n \<longleftrightarrow> n \<ge> 0 \<and> n \<le> maxItemSize"

definition CheckMaxInvocationStack :: "('z engine_scheme, bool) m" where
  "CheckMaxInvocationStack = gets (\<lambda>s. ras_Count (InvocationStack s) < maxInvocationStackSize)"

definition CheckBigInteger :: "int \<Rightarrow> pyexc + bool" where
  "CheckBigInteger v = ebind (ToByteArray v) (\<lambda>b. Inr (int (length b) \<le> MaxSizeForBigInteger))"

definition CheckShift :: "int \<Rightarrow> bool" where
  "CheckShift shift \<longleftrightarrow> shift \<le> max_shl_shr \<and> shift \<ge> min_shl_shr"

section \<open>Counting stack items\<close>

text \<open>The deque is kept with its right end, where it pops and extends, first.\<close>

fun count_items ::
  "nat \<Rightarrow> (stack_item \<Rightarrow> stack_item \<Rightarrow> pyexc + bool) \<Rightarrow> heap \<Rightarrow>
   stack_item list \<Rightarrow> stack_item list \<Rightarrow> int \<Rightarrow> pyexc + int" where
  "count_items fuel eq h [] counted count = Inr count"
| "count_items 0 eq h (x # items) counted count = Inl OutOfFuel"
| "count_items (Suc fuel) eq h (x # items) counted count =
     (case x of
        Map r \<Rightarrow>
          ebind (list_contains eq x counted) (\<lambda>b.
          if b then count_items fuel eq h items counted count
          else count_items fuel eq h (rev (Map_Values h r) @ items) (counted @ [x]) count)
      | Array r \<Rightarrow>
          ebind (list_contains eq x counted) (\<lambda>b.
          if b then count_items fuel eq h items counted count
          else count_items fuel eq h (rev (h_list h r) @ items) (counted @ [x]) count)
      | Struct r \<Rightarrow>
          ebind (list_contains eq x counted) (\<lambda>b.
          if b then count_items fuel eq h items counted count
          else count_items fuel eq h (rev (h_list h r) @ items) (counted @ [x]) count)
      | _ \<Rightarrow> count_items fuel eq h items counted (count + 1))"

definition count_fuel :: "heap \<Rightarrow> stack_item list \<Rightarrow> nat" where
  "count_fuel h items =
     length items + sum_list (map (\<lambda>r. 2 * length (h_list h r) + length (h_dict h r)) [0..<h_next h])"

definition GetItemCount ::
  "(nat \<Rightarrow> nat \<Rightarrow> bool) \<Rightarrow> nat \<Rightarrow> heap \<Rightarrow> stack_item list \<Rightarrow> pyexc + int" where
  "GetItemCount oeq depth h items_list =
     count_items (count_fuel h items_list) (item_eq oeq h depth) h (rev items_list) [] 0"

text \<open>The items of the evaluation and alt stacks of the invoked contexts.\<close>

definition stack_item_list :: "'z engine_scheme \<Rightarrow> stack_item list" where
  "stack_item_list s =
     concat (map (\<lambda>c. ras_Items (EvaluationStack (contexts s c)) @ ras_Items (AltStack (contexts s c)))
               (ras_Items (InvocationStack s)))"

definition CheckStackSize :: "'z engine_scheme env \<Rightarrow> bool \<Rightarrow> int \<Rightarrow> ('z engine_scheme, bool) m" where
  "CheckStackSize env strict count =
     sq (modify (\<lambda>s. s\<lparr>is_stackitem_count_strict := is_stackitem_count_strict s \<and> strict,
                       stackitem_count := stackitem_count s + count\<rparr>))
    (sq (modify (\<lambda>s. if stackitem_count s < 0 \<or> stackitem_count s > int_MaxValue
                     then s\<lparr>stackitem_count := int_MaxValue\<rparr> else s))
    (bnd (gets stackitem_count) (\<lambda>n.
     if n \<le> maxStackSize then ret True
     else bnd (gets is_stackitem_count_strict) (\<lambda>b.
     if b then ret False
     else bnd (gets (\<lambda>s. (items_heap s, stack_item_list s))) (\<lambda>(h, items).
          bnd (lft (GetItemCount (host_eq env) (recursion_limit env) h items)) (\<lambda>n.
          sq (modify (\<lambda>s. s\<lparr>stackitem_count := n\<rparr>))
          (if n > maxStackSize then ret False
           else sq (modify (\<lambda>s. s\<lparr>is_stackitem_count_strict := True\<rparr>)) (ret True))))))))"

section \<open>Loading scripts\<close>

definition LoadScriptInternal :: "script \<Rightarrow> int \<Rightarrow> ('z engine_scheme, cid) m" where
  "LoadScriptInternal scr rvcount =
     bnd (gets next_context) (\<lambda>c.
     sq (modify (\<lambda>s. s\<lparr>contexts := (contexts s)(c := ExecutionContext scr rvcount),
                       next_context := Suc c,
                       InvocationStack := ras_PushT c (InvocationStack s),
                       ExecutedScriptHashes := ExecutedScriptHashes s @ [s_hash scr]\<rparr>))
    (bnd (gets (\<lambda>s. (debug_map s, debugger s))) (\<lambda>(dm, dbg).
     sq (case dm of
           Some (script_hash, bps) \<Rightarrow>
             if s_hash scr = script_hash then
               (case dbg of
                  NoAttribute \<Rightarrow> throw AttributeError
                | NoDebugger \<Rightarrow> ret ()
                | Debugger b \<Rightarrow> modify (\<lambda>s. s\<lparr>debugger := Debugger (b(script_hash := Some (set bps)))\<rparr>))
             else ret ()
         | None \<Rightarrow> ret ())
     (ret c))))"

definition LoadScriptByHash ::
  "'z engine_scheme env \<Rightarrow> bytes \<Rightarrow> int \<Rightarrow> ('z engine_scheme, cid option) m" where
  "LoadScriptByHash env script_hash rvcount =
     (case GetScript env of
        None \<Rightarrow> ret None
      | Some table \<Rightarrow>
          bnd (lft (UInt160 (Some script_hash))) (\<lambda>u.
          bnd (table (uint_ToBytes u)) (\<lambda>scr.
          case scr of
            None \<Rightarrow> ret None
          | Some v \<Rightarrow>
              bnd (LoadScriptInternal (Script_FromHash script_hash v) rvcount) (\<lambda>c. ret (Some c)))))"

definition LoadScript :: "'z engine_scheme env \<Rightarrow> bytes \<Rightarrow> int \<Rightarrow> ('z engine_scheme, cid) m" where
  "LoadScript env scr rvcount =
     LoadScriptInternal (Script_new (Hash160 (primitives_of env)) scr) rvcount"

definition LoadDebugInfoForScriptHash ::
  "int list option \<Rightarrow> bytes \<Rightarrow> 'z engine_scheme \<Rightarrow> 'z engine_scheme" where
  "LoadDebugInfoForScriptHash bps script_hash s =
     (case bps of
        Some b \<Rightarrow> if script_hash \<noteq> [] then s\<lparr>debug_map := Some (script_hash, b)\<rparr> else s
      | None \<Rightarrow> s)"

lemmas limit_defs = int_MaxValue_def MaxSizeForBigInteger_def max_shl_shr_def min_shl_shr_def
  maxItemSize_def maxArraySize_def maxStackSize_def maxInvocationStackSize_def CheckArraySize_def
  CheckMaxItemSize_def CheckMaxInvocationStack_def CheckBigInteger_def CheckShift_def
  count_fuel_def GetItemCount_def stack_item_list_def CheckStackSize_def

declare limit_defs [model_defs]
declare LoadScriptInternal_def [model_defs] LoadScriptByHash_def [model_defs]
  LoadScript_def [model_defs] LoadDebugInfoForScriptHash_def [model_defs]

section \<open>Lookups in the table of scripts\<close>

text \<open>A table may be a cache of its own; a lookup leaves the base engine as it is.\<close>

definition lookup_only :: "('z engine_scheme, 'a) m \<Rightarrow> bool" where
  "lookup_only m \<longleftrightarrow> (\<forall>s. engine.truncate (snd (m s)) = engine.truncate s \<and> (\<forall>b. fst (m s) \<noteq> Ret b))"

definition table_looks_up :: "'z engine_scheme env \<Rightarrow> bool" where
  "table_looks_up env \<longleftrightarrow> (\<forall>table h. GetScript env = Some table \<longrightarrow> lookup_only (table h))"

lemma table_looks_up_service [simp]: "table_looks_up (env\<lparr>service := x\<rparr>) = table_looks_up env"
  by (simp add: table_looks_up_def)

lemma table_looks_up_None: "GetScript env = None \<Longrightarrow> table_looks_up env"
  by (simp add: table_looks_up_def)

lemma lookup_only_fields:
  assumes "lookup_only m"
  shows "VMState (snd (m s)) = VMState s" "InvocationStack (snd (m s)) = InvocationStack s"
    "contexts (snd (m s)) = contexts s" "next_context (snd (m s)) = next_context s"
    "ResultStack (snd (m s)) = ResultStack s" "ExecutedScriptHashes (snd (m s)) = ExecutedScriptHashes s"
    "ops_processed (snd (m s)) = ops_processed s" "stackitem_count (snd (m s)) = stackitem_count s"
    "is_stackitem_count_strict (snd (m s)) = is_stackitem_count_strict s" "debug_map (snd (m s)) = debug_map s"
    "debugger (snd (m s)) = debugger s" "items_heap (snd (m s)) = items_heap s"
  using assms by (simp_all add: lookup_only_def engine.defs)

lemma lookup_only_lft: "lookup_only (lft r)" "lookup_only (ret a)"
  by (auto simp: lookup_only_def monad_defs split: sum.splits)

section \<open>The integers the VM accepts\<close>

lemma CheckBigInteger_range:
  "CheckBigInteger v = Inr (- (2 ^ 255) \<le> v \<and> v < 2 ^ 255 \<and> v \<noteq> - (256 ^ 31))"
proof -
  have "int (encoded_length v) \<le> 32 \<longleftrightarrow> encoded_length v \<le> Suc 31" by simp
  also have "\<dots> \<longleftrightarrow> - (2 ^ 255) \<le> v \<and> v < 2 ^ 255 \<and> v \<noteq> - (256 ^ 31)"
    by (subst encoded_length_le_iff) auto
  finally show ?thesis
    by (simp add: CheckBigInteger_def ToByteArray_eq MaxSizeForBigInteger_def)
qed

section \<open>Enough fuel\<close>

lemma list_contains_self: "x \<in> set ys \<Longrightarrow> list_contains eq x ys \<noteq> Inr False"
  by (induction ys) (auto simp: ebind_Inr_iff split: if_splits)

definition no_fuel_error :: "(stack_item \<Rightarrow> stack_item \<Rightarrow> pyexc + bool) \<Rightarrow> bool" where
  "no_fuel_error eq \<longleftrightarrow> (\<forall>x y. eq x y \<noteq> Inl OutOfFuel)"

lemma ebind_Inl_iff: "ebind r f = Inl e \<longleftrightarrow> r = Inl e \<or> (\<exists>a. r = Inr a \<and> f a = Inl e)"
  by (cases r) auto

lemma list_contains_no_fuel_error: "no_fuel_error eq \<Longrightarrow> list_contains eq x ys \<noteq> Inl OutOfFuel"
  by (induction ys) (auto simp: ebind_Inl_iff no_fuel_error_def split: if_splits)

lemma list_eqv_no_fuel_error: "no_fuel_error eq \<Longrightarrow> list_eqv eq xs ys \<noteq> Inl OutOfFuel"
  by (induction eq xs ys rule: list_eqv.induct) (auto simp: ebind_Inl_iff no_fuel_error_def split: if_splits)

lemma dict_eqv_no_fuel_error: "no_fuel_error eq \<Longrightarrow> dict_eqv eq a d \<noteq> Inl OutOfFuel"
  by (induction eq a d rule: dict_eqv.induct)
     (auto simp: ebind_Inl_iff no_fuel_error_def dict_get_eq split: if_splits option.splits)

lemma GetByteArray_no_fuel_error: "GetByteArray x \<noteq> Inl OutOfFuel"
  by (cases x) (auto simp: ToByteArray_eq)

lemma py_eq_no_fuel_error: "no_fuel_error eq \<Longrightarrow> no_fuel_error (py_eq eq)"
  unfolding no_fuel_error_def
proof (intro allI)
  fix x y assume "\<forall>x y. eq x y \<noteq> Inl OutOfFuel"
  then show "py_eq eq x y \<noteq> Inl OutOfFuel" by (cases x) (simp_all add: hash_eq_iff)
qed

lemma item_Equals_no_fuel_error: "no_fuel_error (item_Equals oeq h n)"
proof (induction n)
  case 0
  show ?case by (simp add: no_fuel_error_def)
next
  case (Suc n)
  note eq = py_eq_no_fuel_error [OF Suc]
  show ?case
    unfolding no_fuel_error_def
    using list_eqv_no_fuel_error [OF eq] dict_eqv_no_fuel_error [OF eq] GetByteArray_no_fuel_error
    by (auto simp: list_eq_def dict_eq_def ebind_Inl_iff ToByteArray_eq split: stack_item.splits sum.splits)
qed

lemma item_eq_no_fuel_error: "no_fuel_error (item_eq oeq h n)"
  using py_eq_no_fuel_error [OF item_Equals_no_fuel_error] by (simp add: item_eq_def no_fuel_error_def)

text \<open>What the collections not yet counted can still add to the deque.\<close>

definition uncounted :: "heap \<Rightarrow> stack_item list \<Rightarrow> nat" where
  "uncounted h counted =
     (\<Sum>r < h_next h. (if Array r \<in> set counted then 0 else length (h_list h r))) +
     (\<Sum>r < h_next h. (if Struct r \<in> set counted then 0 else length (h_list h r))) +
     (\<Sum>r < h_next h. (if Map r \<in> set counted then 0 else length (h_dict h r)))"

lemma sum_drop_one:
  fixes f :: "nat \<Rightarrow> nat"
  assumes "r < n" "\<not> P r"
  shows "(\<Sum>k < n. if k = r \<or> P k then 0 else f k) + f r = (\<Sum>k < n. if P k then 0 else f k)"
proof -
  have r: "r \<in> {..<n}" using assms by simp
  have "(\<Sum>k < n. if P k then 0 else f k) = (if P r then 0 else f r) + (\<Sum>k \<in> {..<n} - {r}. if P k then 0 else f k)"
    using r by (simp add: sum.remove)
  moreover have "(\<Sum>k < n. if k = r \<or> P k then 0 else f k) = (\<Sum>k \<in> {..<n} - {r}. if P k then 0 else f k)"
    using r by (simp add: sum.remove)
  ultimately show ?thesis using assms(2) by simp
qed

lemma uncounted_add:
  assumes "x \<notin> set counted" "item_wf (h_next h) x"
  shows "x = Array r \<Longrightarrow> uncounted h (counted @ [x]) + length (h_list h r) = uncounted h counted"
    and "x = Struct r \<Longrightarrow> uncounted h (counted @ [x]) + length (h_list h r) = uncounted h counted"
    and "x = Map r \<Longrightarrow> uncounted h (counted @ [x]) + length (h_dict h r) = uncounted h counted"
  using assms
    sum_drop_one [of r "h_next h" "\<lambda>r. Array r \<in> set counted" "\<lambda>r. length (h_list h r)"]
    sum_drop_one [of r "h_next h" "\<lambda>r. Struct r \<in> set counted" "\<lambda>r. length (h_list h r)"]
    sum_drop_one [of r "h_next h" "\<lambda>r. Map r \<in> set counted" "\<lambda>r. length (h_dict h r)"]
  by (auto simp: uncounted_def)

lemma count_items_enough_fuel:
  assumes "heap_wf h" "no_fuel_error eq"
  shows "list_all (item_wf (h_next h)) items \<Longrightarrow> length items + uncounted h counted \<le> fuel \<Longrightarrow>
    count_items fuel eq h items counted count \<noteq> Inl OutOfFuel"
proof (induction fuel arbitrary: items counted count)
  case 0
  then show ?case by simp
next
  case (Suc fuel)
  show ?case
  proof (cases items)
    case (Cons x xs)
    have x: "item_wf (h_next h) x" and xs: "list_all (item_wf (h_next h)) xs" using Suc.prems Cons by simp_all
    have skip: "count_items fuel eq h xs counted k \<noteq> Inl OutOfFuel" for k
      using Suc.IH [of xs counted k] Suc.prems xs Cons by simp
    have rl: "list_all (item_wf (h_next h)) (rev (h_list h r) @ xs)" for r
      using heap_wf_listD [OF assms(1), of r] xs by (auto simp: list_all_iff)
    have rm: "list_all (item_wf (h_next h)) (rev (Map_Values h r) @ xs)" for r
      using heap_wf_dictD [OF assms(1), of r] xs by (auto simp: list_all_iff Map_Values_def)
    have len: "length xs + uncounted h counted \<le> fuel" using Suc.prems Cons by simp
    have fresh: "list_contains eq x counted = Inr False \<Longrightarrow> x \<notin> set counted"
      using list_contains_self by blast
    have go_l: "count_items fuel eq h (rev (h_list h r) @ xs) (counted @ [x]) count \<noteq> Inl OutOfFuel"
      if "list_contains eq x counted = Inr False" "x = Array r \<or> x = Struct r" for r
      using Suc.IH [OF rl, of r "counted @ [x]"] uncounted_add [OF fresh [OF that(1)] x, of r] that(2) len by auto
    have go_m: "count_items fuel eq h (rev (Map_Values h r) @ xs) (counted @ [x]) count \<noteq> Inl OutOfFuel"
      if "list_contains eq x counted = Inr False" "x = Map r" for r
      using Suc.IH [OF rm, of r "counted @ [x]"] uncounted_add [OF fresh [OF that(1)] x, of r] that(2) len
      by (auto simp: Map_Values_def)
    note nf = list_contains_no_fuel_error [OF assms(2), of x counted]
    show ?thesis
      using skip go_l go_m nf
      by (cases x) (auto simp: Cons ebind_Inl_iff)
  qed simp
qed

lemma uncounted_Nil: "length items + uncounted h [] = count_fuel h items"
  unfolding uncounted_def count_fuel_def
  by (simp add: sum_list_sum_nth atLeast0LessThan sum.distrib mult_2)

text \<open>Counting the items of the stacks ends, on cyclic arrays too: every array is entered once.\<close>

theorem GetItemCount_enough_fuel:
  assumes "heap_wf h" "list_all (item_wf (h_next h)) items"
  shows "GetItemCount oeq depth h items \<noteq> Inl OutOfFuel"
  unfolding GetItemCount_def
  by (rule count_items_enough_fuel [OF assms(1) item_eq_no_fuel_error])
     (use assms(2) uncounted_Nil [of items h] in auto)

section \<open>Properties\<close>

text \<open>
  The VM accepts exactly the integers from \<open>- (2 ^ 255)\<close> below \<open>2 ^ 255\<close>, but for \<open>- (2 ^ 248)\<close>,
  whose encoding is one byte too long.
\<close>

theorem accepted_integers:
  "CheckBigInteger v = Inr True \<longleftrightarrow> - (2 ^ 255) \<le> v \<and> v < 2 ^ 255 \<and> v \<noteq> - (2 ^ 248)"
  by (simp add: CheckBigInteger_range)

lemma GetItemCount_enough_fuel_witness:
  "GetItemCount (=) 10 (snd (alloc_list [Array 0] empty_heap)) [Array 0] \<noteq> Inl OutOfFuel"
  by (rule GetItemCount_enough_fuel) (simp_all add: heap_wf_def heap_defs)

end
