(* ===== verification/Interop_Service.thy ===== *)
theory Interop_Service
  imports Engine_Limits
begin

text \<open>
  The class \<open>InteropService\<close> of \<open>neo/VM/InteropService.py\<close>: the dictionary of services by the
  first four bytes of the SHA-256 of their name, and the four services of the execution engine. A
  service is a method of its own: what it returns is its value, never an early return.
\<close>

type_synonym 's service_table = "int \<Rightarrow> ('s, bool) m option"

definition interop_hash :: "primitives \<Rightarrow> bytes \<Rightarrow> int" where
  "interop_hash p method = from_bytes_u (py_slice 0 4 (sha256 p method))"

definition Register ::
  "primitives \<Rightarrow> string \<Rightarrow> ('s, bool) m \<Rightarrow> 's service_table \<Rightarrow> 's service_table" where
  "Register p method func dict = dict(interop_hash p (ascii method) := Some func)"

definition Invoke :: "primitives \<Rightarrow> 's service_table \<Rightarrow> bytes \<Rightarrow> ('s, bool) m" where
  "Invoke p dict method =
     (let hashed_method = (if length method = 4 then from_bytes_u method else interop_hash p method)
      in case dict hashed_method of None \<Rightarrow> ret False | Some func \<Rightarrow> func)"

definition GetScriptContainer :: "'z engine_scheme env \<Rightarrow> ('z engine_scheme, bool) m" where
  "GetScriptContainer env =
     bnd CurrentContext (\<lambda>c.
     bnd (\<lambda>s. let (x, h) = FromInterface (container env) (items_heap s) in (Val x, s\<lparr>items_heap := h\<rparr>)) (\<lambda>x.
     sq (Push (EStack c) x) (ret True)))"

definition GetExecutingScriptHash :: "('z engine_scheme, bool) m" where
  "GetExecutingScriptHash =
     bnd CurrentContext (\<lambda>c.
     bnd (gets (\<lambda>s. s_hash (Script (contexts s c)))) (\<lambda>h.
     sq (PushT (EStack c) (PyBytes h)) (ret True)))"

definition GetCallingScriptHash :: "('z engine_scheme, bool) m" where
  "GetCallingScriptHash =
     bnd CurrentContext (\<lambda>c.
     bnd CallingContext (\<lambda>caller.
     case caller of
       None \<Rightarrow> throw AttributeError
     | Some d \<Rightarrow>
         bnd (gets (\<lambda>s. s_hash (Script (contexts s d)))) (\<lambda>h.
         sq (PushT (EStack c) (PyBytes h)) (ret True))))"

definition GetEntryScriptHash :: "('z engine_scheme, bool) m" where
  "GetEntryScriptHash =
     bnd CurrentContext (\<lambda>c.
     bnd EntryContext (\<lambda>d.
     bnd (gets (\<lambda>s. s_hash (Script (contexts s d)))) (\<lambda>h.
     sq (PushT (EStack c) (PyBytes h)) (ret True))))"

definition InteropService :: "'z engine_scheme env \<Rightarrow> 'z engine_scheme service_table" where
  "InteropService env =
     (let p = primitives_of env in
      Register p ''System.ExecutionEngine.GetEntryScriptHash'' GetEntryScriptHash
     (Register p ''System.ExecutionEngine.GetCallingScriptHash'' GetCallingScriptHash
     (Register p ''System.ExecutionEngine.GetExecutingScriptHash'' GetExecutingScriptHash
     (Register p ''System.ExecutionEngine.GetScriptContainer'' (GetScriptContainer env)
       (\<lambda>_. None)))))"

lemmas interop_defs = interop_hash_def Register_def Invoke_def GetScriptContainer_def
  GetExecutingScriptHash_def GetCallingScriptHash_def GetEntryScriptHash_def InteropService_def

declare interop_defs [model_defs]

text \<open>A registered service answers to its name and to its four-byte hash alike.\<close>

theorem Invoke_registered:
  "length (ascii name) \<noteq> 4 \<Longrightarrow> 4 \<le> length (sha256 p (ascii name)) \<Longrightarrow>
     Invoke p (Register p name f dict) (ascii name) = f \<and>
     Invoke p (Register p name f dict) (take 4 (sha256 p (ascii name))) = f"
  by (simp add: Invoke_def Register_def interop_hash_def py_slice_nonneg min_absorb2)

lemma Invoke_registered_witness:
  "Invoke \<lparr>sha1 = id, sha256 = (\<lambda>b. b @ replicate 4 0), ripemd160 = id, decompress = Inr, vk_verify = (\<lambda>k s m. Inr True)\<rparr>
     (Register \<lparr>sha1 = id, sha256 = (\<lambda>b. b @ replicate 4 0), ripemd160 = id, decompress = Inr, vk_verify = (\<lambda>k s m. Inr True)\<rparr>
        ''Neo.X'' (ret True :: (engine, bool) m) (\<lambda>_. None)) (ascii ''Neo.X'') = ret True"
  by (rule Invoke_registered [THEN conjunct1]) (simp_all add: ascii_def)

end
