(* ===== verification/Ops_Stack.thy ===== *)
theory Ops_Stack
  imports Interop_Service
begin

unbundle bit_operations_syntax

text \<open>
  The branches of \<open>ExecuteInstruction\<close> (\<open>neo/VM/ExecutionEngine.py\<close>) that push constants, jump,
  call and return, move items on the stacks, splice byte strings and work bitwise. Each branch is
  one definition of the context \<open>c\<close> (\<open>estack\<close> is \<open>EStack c\<close>) and the instruction \<open>i\<close>; falling
  through to the end of \<open>ExecuteInstruction\<close> is the value \<open>()\<close>.
\<close>

type_synonym 'z op = "cid \<Rightarrow> instruction \<Rightarrow> ('z engine_scheme, unit) m"

text \<open>The three ways the code uses \<open>CheckStackSize\<close>.\<close>

definition check_stack :: "'z engine_scheme env \<Rightarrow> bool \<Rightarrow> int \<Rightarrow> ('z engine_scheme, unit) m" where
  "check_stack env strict count = bnd (CheckStackSize env strict count) (\<lambda>_. ret ())"

definition check_or_return :: "'z engine_scheme env \<Rightarrow> bool \<Rightarrow> int \<Rightarrow> ('z engine_scheme, unit) m" where
  "check_or_return env strict count =
     bnd (CheckStackSize env strict count) (\<lambda>ok. if ok then ret () else VM_FAULT_and_report)"

definition check_or_fault :: "'z engine_scheme env \<Rightarrow> bool \<Rightarrow> int \<Rightarrow> ('z engine_scheme, unit) m" where
  "check_or_fault env strict count =
     bnd (CheckStackSize env strict count) (\<lambda>ok. if ok then ret () else set_fault)"

section \<open>Push values\<close>

definition op_PUSHBYTES :: "'z engine_scheme env \<Rightarrow> 'z op" where
  "op_PUSHBYTES env c i =
     (if \<not> CheckMaxItemSize (int (length (ins_Operand i))) then fin False
      else sq (PushT (EStack c) (PyBytes (ins_Operand i))) (check_or_return env True 1))"

definition op_PUSHINT :: "'z engine_scheme env \<Rightarrow> 'z op" where
  "op_PUSHINT env c i =
     (let topush = uint (ins_OpCode i) - uint OP_PUSH1 + 1
      in sq (PushT (EStack c) (PyInt topush)) (check_or_return env True 1))"

definition op_PUSH0 :: "'z engine_scheme env \<Rightarrow> 'z op" where
  "op_PUSH0 env c i = sq (PushT (EStack c) (PyBytes [])) (check_or_return env True 1)"

section \<open>Control\<close>

definition op_JMP :: "'z engine_scheme env \<Rightarrow> 'z op" where
  "op_JMP env c i =
     bnd (gets (\<lambda>s. contexts s c)) (\<lambda>x.
     let offset = InstructionPointer x + TokenI16 i in
     if offset < 0 \<or> offset > Script_Length (Script x) then VM_FAULT_and_report
     else bnd (if ins_OpCode i > OP_JMP
               then sq (check_stack env False (- 1))
                      (bnd (PopBool (EStack c)) (\<lambda>v. ret (if ins_OpCode i = OP_JMPIFNOT then \<not> v else v)))
               else ret True) (\<lambda>fValue.
          sq (jump_to c (if fValue then offset else InstructionPointer x + 3)) (fin True)))"

definition op_CALL :: "'z op" where
  "op_CALL c i =
     bnd CheckMaxInvocationStack (\<lambda>ok.
     if \<not> ok then VM_FAULT_and_report
     else bnd (gets (\<lambda>s. contexts s c)) (\<lambda>x.
          bnd (LoadScriptInternal (Script x) (- 1)) (\<lambda>d.
          let ip = InstructionPointer x + TokenI16 i in
          sq (modify (update_context d (\<lambda>y. y\<lparr>InstructionPointer := ip\<rparr>)))
          (if ip < 0 \<or> ip > Script_Length (Script x) then fin False
           else sq (CopyTo (EStack c) (EStack d) (- 1)) (Clear (EStack c))))))"

definition op_RET :: "'z engine_scheme env \<Rightarrow> 'z op" where
  "op_RET env c i =
     bnd (remove_context 0) (\<lambda>context_pop.
     bnd (gets (\<lambda>s. RVCount (contexts s context_pop))) (\<lambda>rv.
     bnd (Count (EStack context_pop)) (\<lambda>n.
     let rvcount = (if rv = - 1 then n else rv) in
     sq (if rvcount > 0 then
           if n < rvcount then VM_FAULT_and_report
           else bnd (gets InvocationStack) (\<lambda>t.
                if ras_Count t = 0 then CopyTo (EStack context_pop) RStack rvcount
                else bnd CurrentContext (\<lambda>q. CopyTo (EStack context_pop) (EStack q) rvcount))
         else ret ())
    (sq (bnd (gets InvocationStack) (\<lambda>t.
         if rv = - 1 \<and> ras_Count t > 0
         then bnd CurrentContext (\<lambda>q. CopyTo (AStack context_pop) (AStack q) (- 1))
         else ret ()))
    (sq (check_stack env False 0)
    (sq (bnd (gets InvocationStack) (\<lambda>t. whenm (ras_Count t = 0) (modify (\<lambda>s. s\<lparr>VMState := VM_HALT\<rparr>))))
    (fin True)))))))"

definition op_APPCALL :: "'z engine_scheme env \<Rightarrow> 'z op" where
  "op_APPCALL env c i =
     (if GetScript env = None then VM_FAULT_and_report
      else bnd (if ins_OpCode i = OP_APPCALL then CheckMaxInvocationStack else ret True) (\<lambda>ok.
        if \<not> ok then VM_FAULT_and_report
        else
          let is_normal_call = list_ex (\<lambda>b. b > 0) (ins_Operand i) in
          bnd (if is_normal_call then ret (ins_Operand i) else PopBytes (EStack c)) (\<lambda>script_hash.
          bnd (LoadScriptByHash env script_hash (- 1)) (\<lambda>context_new.
          case context_new of
            None \<Rightarrow> VM_FAULT_and_report
          | Some d \<Rightarrow>
              sq (CopyTo (EStack c) (EStack d) (- 1))
             (sq (if ins_OpCode i = OP_TAILCALL then bnd (remove_context 1) (\<lambda>_. ret ())
                  else Clear (EStack c))
             (check_stack env False 0))))))"

definition op_SYSCALL :: "'z engine_scheme env \<Rightarrow> 'z op" where
  "op_SYSCALL env c i =
     (if length (ins_Operand i) > 252 then fin False
      else case service env of
        None \<Rightarrow> throw AttributeError
      | Some dict \<Rightarrow>
          bnd (Invoke (primitives_of env) dict (ins_Operand i)) (\<lambda>ok.
          if \<not> ok then VM_FAULT_and_report
          else check_or_return env False int_MaxValue))"

text \<open>The calls with stack isolation.\<close>

definition op_CALL_I :: "'z op" where
  "op_CALL_I c i =
     bnd CheckMaxInvocationStack (\<lambda>ok.
     if \<not> ok then VM_FAULT_and_report
     else bnd (lft (py_nth 0 (ins_Operand i))) (\<lambda>rvcount.
          bnd (lft (py_nth 1 (ins_Operand i))) (\<lambda>pcount.
          bnd (Count (EStack c)) (\<lambda>n.
          if n < uint pcount then VM_FAULT_and_report
          else bnd (gets (\<lambda>s. contexts s c)) (\<lambda>x.
               bnd (LoadScriptInternal (Script x) (uint rvcount)) (\<lambda>d.
               let ip = InstructionPointer x + TokenI16_1 i + 2 in
               sq (modify (update_context d (\<lambda>y. y\<lparr>InstructionPointer := ip\<rparr>)))
               (if ip < 0 \<or> ip > Script_Length (Script x) then fin False
                else sq (CopyTo (EStack c) (EStack d) (uint pcount))
                       (bnd (repeatm (unat pcount) (Pop (EStack c))) (\<lambda>_. ret ())))))))))"

definition op_CALL_E :: "'z engine_scheme env \<Rightarrow> 'z op" where
  "op_CALL_E env c i =
     (if GetScript env = None then VM_FAULT_and_report
      else
        bnd (lft (py_nth 0 (ins_Operand i))) (\<lambda>rvcount.
        bnd (lft (py_nth 1 (ins_Operand i))) (\<lambda>pcount.
        bnd (Count (EStack c)) (\<lambda>n.
        if n < uint pcount then VM_FAULT_and_report
        else
          bnd (gets (\<lambda>s. contexts s c)) (\<lambda>x.
          let tail = ins_OpCode i \<in> {OP_CALL_ET, OP_CALL_EDT};
              dynamic = ins_OpCode i \<in> {OP_CALL_ED, OP_CALL_EDT} in
          bnd (if tail then ret (RVCount x = uint rvcount) else CheckMaxInvocationStack) (\<lambda>ok.
          if \<not> ok then VM_FAULT_and_report
          else
            bnd (if dynamic
                 then bnd (PopBytes (EStack c)) (\<lambda>b. sq (check_stack env True (- 1)) (ret b))
                 else lft (Instruction_ReadBytes i 2 20)) (\<lambda>script_hash.
            bnd (LoadScriptByHash env script_hash (uint rvcount)) (\<lambda>context_new.
            case context_new of
              None \<Rightarrow> VM_FAULT_and_report
            | Some d \<Rightarrow>
                sq (CopyTo (EStack c) (EStack d) (uint pcount))
                (if tail then bnd (remove_context 1) (\<lambda>_. ret ())
                 else bnd (repeatm (unat pcount) (Pop (EStack c))) (\<lambda>_. ret ()))))))))))"

definition op_THROW :: "'z op" where
  "op_THROW c i = VM_FAULT_and_report"

definition op_THROWIFNOT :: "'z engine_scheme env \<Rightarrow> 'z op" where
  "op_THROWIFNOT env c i =
     bnd (PopBool (EStack c)) (\<lambda>b. if \<not> b then VM_FAULT_and_report else check_stack env False (- 1))"

section \<open>Stack operations\<close>

definition op_DUPFROMALTSTACK :: "'z engine_scheme env \<Rightarrow> 'z op" where
  "op_DUPFROMALTSTACK env c i =
     bnd (Peek (AStack c) 0) (\<lambda>x. sq (Push (EStack c) x) (check_or_return env True 1))"

definition op_TOALTSTACK :: "'z op" where
  "op_TOALTSTACK c i = bnd (Pop (EStack c)) (Push (AStack c))"

definition op_FROMALTSTACK :: "'z op" where
  "op_FROMALTSTACK c i = bnd (Pop (AStack c)) (Push (EStack c))"

definition op_XDROP :: "'z engine_scheme env \<Rightarrow> 'z op" where
  "op_XDROP env c i =
     bnd (PopInt (EStack c)) (\<lambda>n.
     if n < 0 then sq set_fault (fin False)
     else bnd (Remove (EStack c) n) (\<lambda>_. check_stack env False (- 2)))"

definition op_XSWAP :: "'z engine_scheme env \<Rightarrow> 'z op" where
  "op_XSWAP env c i =
     bnd (PopInt (EStack c)) (\<lambda>n.
     if n < 0 then VM_FAULT_and_report
     else sq (check_stack env True (- 1))
       (if n > 0 then
          bnd (Peek (EStack c) n) (\<lambda>item.
          bnd (Peek (EStack c) 0) (\<lambda>top.
          sq (SetAt (EStack c) n top) (SetAt (EStack c) 0 item)))
        else ret ()))"

definition op_XTUCK :: "'z op" where
  "op_XTUCK c i =
     bnd (PopInt (EStack c)) (\<lambda>n.
     if n \<le> 0 then VM_FAULT_and_report
     else bnd (Peek (EStack c) 0) (Insert (EStack c) n))"

definition op_DEPTH :: "'z engine_scheme env \<Rightarrow> 'z op" where
  "op_DEPTH env c i =
     bnd (Count (EStack c)) (\<lambda>n. sq (PushT (EStack c) (PyInt n)) (check_or_return env True 1))"

definition op_DROP :: "'z engine_scheme env \<Rightarrow> 'z op" where
  "op_DROP env c i = bnd (Pop (EStack c)) (\<lambda>_. check_stack env False (- 1))"

definition op_DUP :: "'z engine_scheme env \<Rightarrow> 'z op" where
  "op_DUP env c i = bnd (Peek (EStack c) 0) (\<lambda>x. sq (Push (EStack c) x) (check_or_return env True 1))"

definition op_NIP :: "'z engine_scheme env \<Rightarrow> 'z op" where
  "op_NIP env c i = bnd (Remove (EStack c) 1) (\<lambda>_. check_stack env False (- 1))"

definition op_OVER :: "'z engine_scheme env \<Rightarrow> 'z op" where
  "op_OVER env c i = bnd (Peek (EStack c) 1) (\<lambda>x. sq (Push (EStack c) x) (check_or_return env True 1))"

definition op_PICK :: "'z op" where
  "op_PICK c i =
     bnd (PopInt (EStack c)) (\<lambda>n.
     if n < 0 then VM_FAULT_and_report else bnd (Peek (EStack c) n) (Push (EStack c)))"

definition op_ROLL :: "'z engine_scheme env \<Rightarrow> 'z op" where
  "op_ROLL env c i =
     bnd (PopInt (EStack c)) (\<lambda>n.
     if n < 0 then VM_FAULT_and_report
     else sq (check_stack env True (- 1))
            (if n > 0 then bnd (Remove (EStack c) n) (Push (EStack c)) else ret ()))"

definition op_ROT :: "'z op" where
  "op_ROT c i = bnd (Remove (EStack c) 2) (Push (EStack c))"

definition op_SWAP :: "'z op" where
  "op_SWAP c i = bnd (Remove (EStack c) 1) (Push (EStack c))"

definition op_TUCK :: "'z engine_scheme env \<Rightarrow> 'z op" where
  "op_TUCK env c i =
     bnd (Peek (EStack c) 0) (\<lambda>x. sq (Insert (EStack c) 2 x) (check_or_return env True 1))"

section \<open>Splice\<close>

definition op_CAT :: "'z engine_scheme env \<Rightarrow> 'z op" where
  "op_CAT env c i =
     bnd (PopBytes (EStack c)) (\<lambda>x2.
     bnd (PopBytes (EStack c)) (\<lambda>x1.
     if \<not> CheckMaxItemSize (int (length x1) + int (length x2)) then VM_FAULT_and_report
     else sq (PushT (EStack c) (PyBytes (x1 @ x2))) (check_stack env True (- 1))))"

definition op_SUBSTR :: "'z engine_scheme env \<Rightarrow> 'z op" where
  "op_SUBSTR env c i =
     bnd (PopInt (EStack c)) (\<lambda>count.
     if count < 0 then VM_FAULT_and_report
     else bnd (PopInt (EStack c)) (\<lambda>index.
          if index < 0 then VM_FAULT_and_report
          else bnd (PopBytes (EStack c)) (\<lambda>x.
               sq (PushT (EStack c) (PyBytes (py_slice index (count + index) x)))
                  (check_stack env True (- 2)))))"

definition op_LEFT :: "'z engine_scheme env \<Rightarrow> 'z op" where
  "op_LEFT env c i =
     bnd (PopInt (EStack c)) (\<lambda>count.
     if count < 0 then VM_FAULT_and_report
     else bnd (PopBytes (EStack c)) (\<lambda>x.
          sq (PushT (EStack c) (PyBytes (if count \<ge> int (length x) then x else py_slice 0 count x)))
             (check_stack env True (- 1))))"

definition op_RIGHT :: "'z engine_scheme env \<Rightarrow> 'z op" where
  "op_RIGHT env c i =
     bnd (PopInt (EStack c)) (\<lambda>count.
     if count < 0 then VM_FAULT_and_report
     else bnd (PopBytes (EStack c)) (\<lambda>x.
          if count > int (length x) then VM_FAULT_and_report
          else
            let offset = int (length x) - count in
            sq (PushT (EStack c)
                 (PyBytes (if count = int (length x) then x else py_slice offset (offset + count) x)))
               (check_stack env True (- 1))))"

definition op_SIZE :: "'z op" where
  "op_SIZE c i =
     bnd (Pop (EStack c)) (\<lambda>x. bnd (lft (GetByteLength x)) (\<lambda>n. PushT (EStack c) (PyInt n)))"

section \<open>Bitwise logic\<close>

text \<open>Two integers popped (the second operand first) and a value pushed, as most operators do.\<close>

definition int_binop ::
  "'z engine_scheme env \<Rightarrow> cid \<Rightarrow> (int \<Rightarrow> int \<Rightarrow> pyval) \<Rightarrow> ('z engine_scheme, unit) m" where
  "int_binop env c f =
     bnd (PopInt (EStack c)) (\<lambda>x2.
     bnd (PopInt (EStack c)) (\<lambda>x1.
     sq (PushT (EStack c) (f x1 x2)) (check_stack env True (- 1))))"

definition op_INVERT :: "'z op" where
  "op_INVERT c i = bnd (PopInt (EStack c)) (\<lambda>x. PushT (EStack c) (PyInt (NOT x)))"

definition op_AND :: "'z engine_scheme env \<Rightarrow> 'z op" where
  "op_AND env c i = int_binop env c (\<lambda>x1 x2. PyInt (x1 AND x2))"

definition op_OR :: "'z engine_scheme env \<Rightarrow> 'z op" where
  "op_OR env c i = int_binop env c (\<lambda>x1 x2. PyInt (x1 OR x2))"

definition op_XOR :: "'z engine_scheme env \<Rightarrow> 'z op" where
  "op_XOR env c i = int_binop env c (\<lambda>x1 x2. PyInt (x1 XOR x2))"

definition op_EQUAL :: "'z engine_scheme env \<Rightarrow> 'z op" where
  "op_EQUAL env c i =
     bnd (Pop (EStack c)) (\<lambda>x2.
     bnd (Pop (EStack c)) (\<lambda>x1.
     bnd (gets items_heap) (\<lambda>h.
     bnd (lft (item_Equals (host_eq env) h (recursion_limit env) x1 x2)) (\<lambda>b.
     sq (PushT (EStack c) (PyBool b)) (check_stack env False (- 1))))))"

lemmas stack_op_defs = check_stack_def check_or_return_def check_or_fault_def op_PUSHBYTES_def
  op_PUSHINT_def op_PUSH0_def op_JMP_def op_CALL_def op_RET_def op_APPCALL_def op_SYSCALL_def
  op_CALL_I_def op_CALL_E_def op_THROW_def op_THROWIFNOT_def op_DUPFROMALTSTACK_def
  op_TOALTSTACK_def op_FROMALTSTACK_def op_XDROP_def op_XSWAP_def op_XTUCK_def op_DEPTH_def
  op_DROP_def op_DUP_def op_NIP_def op_OVER_def op_PICK_def op_ROLL_def op_ROT_def op_SWAP_def
  op_TUCK_def op_CAT_def op_SUBSTR_def op_LEFT_def op_RIGHT_def op_SIZE_def int_binop_def
  op_INVERT_def op_AND_def op_OR_def op_XOR_def op_EQUAL_def

declare stack_op_defs [model_defs]

end
