(* ===== verification/Ops_Numeric.thy ===== *)
theory Ops_Numeric
  imports Ops_Stack "HOL-Library.Sublist"
begin

text \<open>
  The numeric and cryptographic branches of \<open>ExecuteInstruction\<close>
  (\<open>neo/VM/ExecutionEngine.py\<close>), with the matching loop of CHECKMULTISIG.
\<close>

section \<open>Numeric\<close>

text \<open>\<open>not (not CheckBigInteger(a) or not CheckBigInteger(b) ...)\<close>, with its short circuit.\<close>

fun check_ints :: "int list \<Rightarrow> pyexc + bool" where
  "check_ints [] = Inr True"
| "check_ints (x # xs) = ebind (CheckBigInteger x) (\<lambda>b. if b then check_ints xs else Inr False)"

definition op_INC :: "'z op" where
  "op_INC c i =
     bnd (PopInt (EStack c)) (\<lambda>x.
     bnd (lft (check_ints [x, bi_add x 1])) (\<lambda>ok.
     if \<not> ok then VM_FAULT_and_report else PushT (EStack c) (PyInt (bi_add x 1))))"

definition op_DEC :: "'z op" where
  "op_DEC c i =
     bnd (PopInt (EStack c)) (\<lambda>x.
     bnd (lft (check_ints (if Sign x \<le> 0 then [x, bi_sub x 1] else [x]))) (\<lambda>ok.
     if \<not> ok then VM_FAULT_and_report else PushT (EStack c) (PyInt (bi_sub x 1))))"

definition op_SIGN :: "'z op" where
  "op_SIGN c i = bnd (PopInt (EStack c)) (\<lambda>x. PushT (EStack c) (PyInt (Sign x)))"

definition op_NEGATE :: "'z op" where
  "op_NEGATE c i = bnd (PopInt (EStack c)) (\<lambda>x. PushT (EStack c) (PyInt (bi_neg x)))"

definition op_ABS :: "'z op" where
  "op_ABS c i = bnd (PopInt (EStack c)) (\<lambda>x. PushT (EStack c) (PyInt (bi_abs x)))"

definition op_NOT :: "'z engine_scheme env \<Rightarrow> 'z op" where
  "op_NOT env c i =
     bnd (PopBool (EStack c)) (\<lambda>x. sq (PushT (EStack c) (PyBool (\<not> x))) (check_stack env False 0))"

text \<open>\<open>x is not 0\<close> compares a BigInteger object with the int 0 by identity: always True.\<close>

definition op_NZ :: "'z op" where
  "op_NZ c i = bnd (PopInt (EStack c)) (\<lambda>x. PushT (EStack c) (PyBool True))"

definition op_ADD :: "'z engine_scheme env \<Rightarrow> 'z op" where
  "op_ADD env c i =
     bnd (PopInt (EStack c)) (\<lambda>x2.
     bnd (PopInt (EStack c)) (\<lambda>x1.
     bnd (lft (check_ints [x1, x2, bi_add x1 x2])) (\<lambda>ok.
     if \<not> ok then VM_FAULT_and_report
     else sq (PushT (EStack c) (PyInt (bi_add x1 x2))) (check_stack env True (- 1)))))"

definition op_SUB :: "'z engine_scheme env \<Rightarrow> 'z op" where
  "op_SUB env c i =
     bnd (PopInt (EStack c)) (\<lambda>x2.
     bnd (PopInt (EStack c)) (\<lambda>x1.
     bnd (lft (check_ints [x1, x2, bi_sub x1 x2])) (\<lambda>ok.
     if \<not> ok then VM_FAULT_and_report
     else sq (PushT (EStack c) (PyInt (bi_sub x1 x2))) (check_stack env True (- 1)))))"

text \<open>MUL, DIV, MOD, SHL and SHR check each operand before popping the next.\<close>

definition pop_checked :: "cid \<Rightarrow> ('z engine_scheme, int) m" where
  "pop_checked c =
     bnd (PopInt (EStack c)) (\<lambda>x.
     bnd (lft (CheckBigInteger x)) (\<lambda>ok. if \<not> ok then VM_FAULT_and_report else ret x))"

definition pop_shift :: "cid \<Rightarrow> ('z engine_scheme, int) m" where
  "pop_shift c =
     bnd (PopInt (EStack c)) (\<lambda>x. if \<not> CheckShift x then VM_FAULT_and_report else ret x)"

definition op_MUL :: "'z engine_scheme env \<Rightarrow> 'z op" where
  "op_MUL env c i =
     bnd (pop_checked c) (\<lambda>x2.
     bnd (pop_checked c) (\<lambda>x1.
     let result = bi_mul x1 x2 in
     bnd (lft (CheckBigInteger result)) (\<lambda>ok.
     if \<not> ok then VM_FAULT_and_report
     else sq (PushT (EStack c) (PyInt result)) (check_stack env True (- 1)))))"

definition op_DIV :: "'z engine_scheme env \<Rightarrow> 'z op" where
  "op_DIV env c i =
     bnd (pop_checked c) (\<lambda>x2.
     bnd (PopInt (EStack c)) (\<lambda>x1.
     bnd (lft (check_ints [x1, x2])) (\<lambda>ok.
     if \<not> ok then VM_FAULT_and_report
     else bnd (lft (bi_truediv x1 x2)) (\<lambda>q.
          sq (PushT (EStack c) (PyInt q)) (check_stack env True (- 1))))))"

definition op_MOD :: "'z engine_scheme env \<Rightarrow> 'z op" where
  "op_MOD env c i =
     bnd (pop_checked c) (\<lambda>x2.
     bnd (pop_checked c) (\<lambda>x1.
     bnd (lft (bi_mod x1 x2)) (\<lambda>r.
     sq (PushT (EStack c) (PyInt r)) (check_stack env True (- 1)))))"

definition op_SHL :: "'z engine_scheme env \<Rightarrow> 'z op" where
  "op_SHL env c i =
     bnd (pop_shift c) (\<lambda>shift.
     bnd (pop_checked c) (\<lambda>x.
     let x = bi_lshift x shift in
     bnd (lft (CheckBigInteger x)) (\<lambda>ok.
     if \<not> ok then VM_FAULT_and_report
     else sq (PushT (EStack c) (PyInt x)) (check_stack env True (- 1)))))"

definition op_SHR :: "'z engine_scheme env \<Rightarrow> 'z op" where
  "op_SHR env c i =
     bnd (pop_shift c) (\<lambda>shift.
     bnd (pop_checked c) (\<lambda>x.
     sq (PushT (EStack c) (PyInt (bi_rshift x shift))) (check_stack env True (- 1))))"

definition op_BOOLAND :: "'z engine_scheme env \<Rightarrow> 'z op" where
  "op_BOOLAND env c i =
     bnd (PopBool (EStack c)) (\<lambda>x2.
     bnd (PopBool (EStack c)) (\<lambda>x1.
     sq (PushT (EStack c) (PyBool (x1 \<and> x2))) (check_stack env False (- 1))))"

definition op_BOOLOR :: "'z engine_scheme env \<Rightarrow> 'z op" where
  "op_BOOLOR env c i =
     bnd (PopBool (EStack c)) (\<lambda>x2.
     bnd (PopBool (EStack c)) (\<lambda>x1.
     sq (PushT (EStack c) (PyBool (x1 \<or> x2))) (check_stack env False (- 1))))"

definition op_NUMEQUAL :: "'z engine_scheme env \<Rightarrow> 'z op" where
  "op_NUMEQUAL env c i = int_binop env c (\<lambda>x1 x2. PyBool (x2 = x1))"

definition op_NUMNOTEQUAL :: "'z engine_scheme env \<Rightarrow> 'z op" where
  "op_NUMNOTEQUAL env c i = int_binop env c (\<lambda>x1 x2. PyBool (x1 \<noteq> x2))"

definition op_LT :: "'z engine_scheme env \<Rightarrow> 'z op" where
  "op_LT env c i = int_binop env c (\<lambda>x1 x2. PyBool (x1 < x2))"

definition op_GT :: "'z engine_scheme env \<Rightarrow> 'z op" where
  "op_GT env c i = int_binop env c (\<lambda>x1 x2. PyBool (x1 > x2))"

definition op_LTE :: "'z engine_scheme env \<Rightarrow> 'z op" where
  "op_LTE env c i = int_binop env c (\<lambda>x1 x2. PyBool (x1 \<le> x2))"

definition op_GTE :: "'z engine_scheme env \<Rightarrow> 'z op" where
  "op_GTE env c i = int_binop env c (\<lambda>x1 x2. PyBool (x1 \<ge> x2))"

definition op_MIN :: "'z engine_scheme env \<Rightarrow> 'z op" where
  "op_MIN env c i = int_binop env c (\<lambda>x1 x2. PyInt (min x1 x2))"

definition op_MAX :: "'z engine_scheme env \<Rightarrow> 'z op" where
  "op_MAX env c i = int_binop env c (\<lambda>x1 x2. PyInt (max x1 x2))"

definition op_WITHIN :: "'z engine_scheme env \<Rightarrow> 'z op" where
  "op_WITHIN env c i =
     bnd (PopInt (EStack c)) (\<lambda>b.
     bnd (PopInt (EStack c)) (\<lambda>a.
     bnd (PopInt (EStack c)) (\<lambda>x.
     sq (PushT (EStack c) (PyBool (a \<le> x \<and> x < b))) (check_stack env True (- 2)))))"

section \<open>Cryptography\<close>

definition op_SHA1 :: "'z engine_scheme env \<Rightarrow> 'z op" where
  "op_SHA1 env c i = bnd (PopBytes (EStack c)) (\<lambda>b. PushT (EStack c) (PyBytes (sha1 (primitives_of env) b)))"

definition op_SHA256 :: "'z engine_scheme env \<Rightarrow> 'z op" where
  "op_SHA256 env c i = bnd (PopBytes (EStack c)) (\<lambda>b. PushT (EStack c) (PyBytes (sha256 (primitives_of env) b)))"

definition op_HASH160 :: "'z engine_scheme env \<Rightarrow> 'z op" where
  "op_HASH160 env c i = bnd (PopBytes (EStack c)) (\<lambda>b. PushT (EStack c) (PyBytes (Hash160 (primitives_of env) b)))"

definition op_HASH256 :: "'z engine_scheme env \<Rightarrow> 'z op" where
  "op_HASH256 env c i = bnd (PopBytes (EStack c)) (\<lambda>b. PushT (EStack c) (PyBytes (Hash256 (primitives_of env) b)))"

text \<open>An exception inside the \<open>try\<close> block counts as a failed verification.\<close>

fun or_false :: "pyexc + bool \<Rightarrow> bool" where
  "or_false (Inr b) = b"
| "or_false (Inl _) = False"

definition op_CHECKSIG :: "'z engine_scheme env \<Rightarrow> 'z op" where
  "op_CHECKSIG env c i =
     bnd (PopBytes (EStack c)) (\<lambda>pubkey.
     bnd (PopBytes (EStack c)) (\<lambda>sig.
     if container env = None then sq (PushT (EStack c) (PyBool False)) (fin False)
     else
       let res = ebind (GetMessage env) (\<lambda>msg. VerifySignature (primitives_of env) msg sig pubkey True) in
       sq (PushT (EStack c) (PyBool (or_false res))) (check_stack env True (- 1))))"

definition op_VERIFY :: "'z engine_scheme env \<Rightarrow> 'z op" where
  "op_VERIFY env c i =
     bnd (PopBytes (EStack c)) (\<lambda>pubkey.
     bnd (PopBytes (EStack c)) (\<lambda>sig.
     bnd (PopBytes (EStack c)) (\<lambda>msg.
     let res = VerifySignature (primitives_of env) msg sig pubkey False in
     sq (PushT (EStack c) (PyBool (or_false res))) (check_stack env True (- 2)))))"

text \<open>
  The loop \<open>while fSuccess and i < m and j < n\<close> on the signatures and keys not yet consumed
  (\<open>sigs[i:]\<close> and \<open>pubkeys[j:]\<close>).
\<close>

fun multisig_loop :: "(bytes \<Rightarrow> bytes \<Rightarrow> pyexc + bool) \<Rightarrow> bytes list \<Rightarrow> bytes list \<Rightarrow> pyexc + bool" where
  "multisig_loop verify [] keys = Inr True"
| "multisig_loop verify sigs [] = Inr True"
| "multisig_loop verify (s # sigs) (k # keys) =
     ebind (verify s k) (\<lambda>ok.
     let rest = (if ok then sigs else s # sigs) in
     if length rest > length keys then Inr False else multisig_loop verify rest keys)"

definition op_CHECKMULTISIG :: "'z engine_scheme env \<Rightarrow> 'z op" where
  "op_CHECKMULTISIG env c i =
     bnd (Pop (EStack c)) (\<lambda>item.
     bnd (if IsTypeArray item then
            bnd (gets (\<lambda>s. GetArray (items_heap s) item)) (\<lambda>r. bnd (lft r) (\<lambda>ps.
            bnd (lft (emap GetByteArray ps)) (\<lambda>pubkeys.
            if pubkeys = [] then VM_FAULT_and_report
            else sq (check_stack env False (- 1)) (ret pubkeys))))
          else
            bnd (lft (GetBigInteger item)) (\<lambda>n.
            bnd (Count (EStack c)) (\<lambda>cnt.
            if n < 1 \<or> n > cnt then VM_FAULT_and_report
            else bnd (repeatm (nat n) (PopBytes (EStack c))) (\<lambda>pubkeys.
                 sq (check_stack env True (- n - 1)) (ret pubkeys))))) (\<lambda>pubkeys.
     bnd (Pop (EStack c)) (\<lambda>item.
     bnd (if IsTypeArray item then
            bnd (gets (\<lambda>s. GetArray (items_heap s) item)) (\<lambda>r. bnd (lft r) (\<lambda>ss.
            bnd (lft (emap GetByteArray ss)) (\<lambda>sigs.
            if sigs = [] \<or> length sigs > length pubkeys then VM_FAULT_and_report
            else sq (check_stack env False (- 1)) (ret sigs))))
          else
            bnd (lft (GetBigInteger item)) (\<lambda>m.
            bnd (Count (EStack c)) (\<lambda>cnt.
            if m < 1 \<or> m > int (length pubkeys) \<or> m > cnt then VM_FAULT_and_report
            else bnd (repeatm (nat m) (PopBytes (EStack c))) (\<lambda>sigs.
                 sq (check_stack env True (- m - 1)) (ret sigs))))) (\<lambda>sigs.
     bnd (if container env = None then ret [] else lft (GetMessage env)) (\<lambda>msg.
     PushT (EStack c) (PyBool (or_false
       (multisig_loop (\<lambda>s k. VerifySignature (primitives_of env) msg s k True) sigs pubkeys))))))))"

lemmas numeric_op_defs = op_INC_def op_DEC_def op_SIGN_def op_NEGATE_def op_ABS_def op_NOT_def
  op_NZ_def op_ADD_def op_SUB_def pop_checked_def pop_shift_def op_MUL_def op_DIV_def op_MOD_def
  op_SHL_def op_SHR_def op_BOOLAND_def op_BOOLOR_def op_NUMEQUAL_def op_NUMNOTEQUAL_def op_LT_def
  op_GT_def op_LTE_def op_GTE_def op_MIN_def op_MAX_def op_WITHIN_def op_SHA1_def op_SHA256_def
  op_HASH160_def op_HASH256_def op_CHECKSIG_def op_VERIFY_def op_CHECKMULTISIG_def

declare numeric_op_defs [model_defs]

section \<open>The matching of signatures to keys\<close>

text \<open>
  With a verification that does not raise, the greedy loop finds a matching whenever there is one:
  each signature is assigned a key of its own, in the order of the keys.
\<close>

definition matching :: "(bytes \<Rightarrow> bytes \<Rightarrow> bool) \<Rightarrow> bytes list \<Rightarrow> bytes list \<Rightarrow> bool" where
  "matching V sigs keys \<longleftrightarrow> (\<exists>ks. subseq ks keys \<and> list_all2 V sigs ks)"

lemma matching_Nil [simp]: "matching V [] keys"
  by (simp add: matching_def)

lemma matching_accept: "V s k \<Longrightarrow> matching V (s # sigs) (k # keys) \<longleftrightarrow> matching V sigs keys"
proof
  assume "V s k" "matching V sigs keys"
  then obtain ks where "subseq ks keys" "list_all2 V sigs ks" by (auto simp: matching_def)
  with \<open>V s k\<close> have "subseq (k # ks) (k # keys)" "list_all2 V (s # sigs) (k # ks)" by auto
  then show "matching V (s # sigs) (k # keys)" unfolding matching_def by blast
next
  assume "matching V (s # sigs) (k # keys)"
  then obtain y ys where "subseq (y # ys) (k # keys)" "list_all2 V sigs ys"
    by (auto simp: matching_def list_all2_Cons1)
  then have "subseq ys keys"
    by (metis subseq_Cons' subseq_Cons2' subseq_Cons2_neq)
  with \<open>list_all2 V sigs ys\<close> show "matching V sigs keys" by (auto simp: matching_def)
qed

lemma matching_reject: "\<not> V s k \<Longrightarrow> matching V (s # sigs) (k # keys) \<longleftrightarrow> matching V (s # sigs) keys"
proof
  assume nv: "\<not> V s k" and "matching V (s # sigs) (k # keys)"
  then obtain y ys where y: "subseq (y # ys) (k # keys)" "V s y" "list_all2 V sigs ys"
    by (auto simp: matching_def list_all2_Cons1)
  with nv have "y \<noteq> k" by blast
  with y have "subseq (y # ys) keys" by simp
  with y show "matching V (s # sigs) keys" by (auto simp: matching_def intro!: exI [of _ "y # ys"])
next
  assume "matching V (s # sigs) keys"
  then show "matching V (s # sigs) (k # keys)" by (auto simp: matching_def intro: subseq_Cons')
qed

lemma matching_length: "matching V sigs keys \<Longrightarrow> length sigs \<le> length keys"
  by (fastforce simp: matching_def dest: list_all2_lengthD list_emb_length)

text \<open>
  Only the decompression of a key of 33 bytes raises in \<open>VerifySignature\<close>. In the loop it ends the search without
  success, so what counts are the keys before the first one that is not readable.
\<close>

definition readable :: "primitives \<Rightarrow> bytes \<Rightarrow> bool" where
  "readable c k \<longleftrightarrow> (length k = 33 \<longrightarrow> (\<exists>d. decompress c k = Inr d))"

definition verifies :: "primitives \<Rightarrow> bytes \<Rightarrow> bytes \<Rightarrow> bytes \<Rightarrow> bool" where
  "verifies c msg sig k \<longleftrightarrow> VerifySignature c msg sig k True = Inr True"

lemma verify_readable:
  "readable c k \<Longrightarrow> VerifySignature c msg sig k True = Inr (verifies c msg sig k)"
  "\<not> readable c k \<Longrightarrow> \<exists>e. VerifySignature c msg sig k True = Inl e"
  unfolding readable_def verifies_def VerifySignature_def Let_def
  by (cases "decompress c k"; auto split: sum.splits)+

lemma multisig_loop_matching:
  "length sigs \<le> length keys \<Longrightarrow>
     or_false (multisig_loop (\<lambda>s k. VerifySignature c msg s k True) sigs keys) =
     matching (verifies c msg) sigs (takeWhile (readable c) keys)"
proof (induction keys arbitrary: sigs)
  case Nil
  then show ?case by simp
next
  case (Cons k keys)
  show ?case
  proof (cases sigs)
    case sigs: (Cons s ss)
    show ?thesis
    proof (cases "readable c k")
      case False
      then obtain e where "VerifySignature c msg s k True = Inl e" using verify_readable(2) by blast
      then show ?thesis using False sigs matching_length [of _ sigs "[]"] by auto
    next
      case True
      note r = verify_readable(1) [OF True, of msg s]
      show ?thesis
      proof (cases "verifies c msg s k")
        case True
        with r Cons.IH [of ss] Cons.prems sigs \<open>readable c k\<close> show ?thesis by (simp add: matching_accept)
      next
        case False
        have "length (takeWhile (readable c) keys) \<le> length keys" by (rule length_takeWhile_le)
        then have "\<not> matching (verifies c msg) sigs (takeWhile (readable c) keys)" if "length sigs > length keys"
          using that matching_length [of _ sigs "takeWhile (readable c) keys"] by auto
        with False r Cons.IH [of sigs] sigs \<open>readable c k\<close> show ?thesis by (auto simp: matching_reject)
      qed
    qed
  qed simp
qed

section \<open>The integers that pass the checks\<close>

lemma check_ints_eq: "check_ints xs = Inr (list_all (\<lambda>x. CheckBigInteger x = Inr True) xs)"
  by (induction xs) (auto simp: CheckBigInteger_range)

end
