(* ===== verification/Ops_Collection.thy ===== *)
theory Ops_Collection
  imports Ops_Stack
begin

text \<open>
  The branches of \<open>ExecuteInstruction\<close> (\<open>neo/VM/ExecutionEngine.py\<close>) on arrays, structs and
  maps. They work on the heap of lists and dicts, so a change through one item is seen through
  every other item with the same reference. (\<open>if not item\<close> in ARRAYSIZE tests the truth of an
  object without \<open>__bool__\<close> and never holds.)
\<close>

text \<open>A computation on the heap that may raise; the heap changes only when it does not.\<close>

definition on_heap :: "(heap \<Rightarrow> pyexc + 'a \<times> heap) \<Rightarrow> ('z engine_scheme, 'a) m" where
  "on_heap f s = (case f (items_heap s) of Inl e \<Rightarrow> (Exc e, s) | Inr (a, h) \<Rightarrow> (Val a, s\<lparr>items_heap := h\<rparr>))"

definition get_heap :: "(heap \<Rightarrow> pyexc + 'a) \<Rightarrow> ('z engine_scheme, 'a) m" where
  "get_heap f = bnd (gets items_heap) (\<lambda>h. lft (f h))"

text \<open>\<open>if isinstance(x, Struct): x = x.Clone()\<close>.\<close>

definition clone_struct :: "'z engine_scheme env \<Rightarrow> stack_item \<Rightarrow> ('z engine_scheme, stack_item) m" where
  "clone_struct env x =
     (case x of
        Struct r \<Rightarrow> on_heap (\<lambda>h. ebind (Clone (recursion_limit env) h r) (\<lambda>(q, h'). Inr (Struct q, h')))
      | _ \<Rightarrow> ret x)"

definition new_list :: "stack_item list \<Rightarrow> ('z engine_scheme, ref) m" where
  "new_list xs = on_heap (\<lambda>h. Inr (alloc_list xs h))"

definition op_ARRAYSIZE :: "'z engine_scheme env \<Rightarrow> 'z op" where
  "op_ARRAYSIZE env c i =
     bnd (Pop (EStack c)) (\<lambda>item.
     if IsCollection item then
       bnd (gets items_heap) (\<lambda>h.
       sq (PushT (EStack c) (PyInt (case item of Array r \<Rightarrow> Array_Count h r | Struct r \<Rightarrow> Array_Count h r
                                              | Map r \<Rightarrow> Map_Count h r | _ \<Rightarrow> 0)))
          (check_stack env False 0))
     else
       bnd (lft (GetByteArray item)) (\<lambda>b.
       sq (PushT (EStack c) (PyInt (int (length b)))) (check_stack env True 0)))"

definition op_PACK :: "'z op" where
  "op_PACK c i =
     bnd (PopInt (EStack c)) (\<lambda>size.
     bnd (Count (EStack c)) (\<lambda>cnt.
     if size < 0 \<or> size > cnt \<or> \<not> CheckArraySize size then VM_FAULT_and_report
     else bnd (repeatm (nat size) (Pop (EStack c))) (\<lambda>items.
          PushT (EStack c) (PyList items))))"

text \<open>\<open>isinstance(item, Array)\<close> (a Struct is one) and \<open>isinstance(item, Map)\<close>, with the reference.\<close>

fun list_ref :: "stack_item \<Rightarrow> ref option" where
  "list_ref (Array r) = Some r"
| "list_ref (Struct r) = Some r"
| "list_ref _ = None"

fun map_ref :: "stack_item \<Rightarrow> ref option" where
  "map_ref (Map r) = Some r"
| "map_ref _ = None"

definition op_UNPACK :: "'z engine_scheme env \<Rightarrow> 'z op" where
  "op_UNPACK env c i =
     bnd (Pop (EStack c)) (\<lambda>item.
     case list_ref item of
       None \<Rightarrow> VM_FAULT_and_report
     | Some r \<Rightarrow>
         sq (on_heap (\<lambda>h. Inr ((), Array_Reverse r h)))
        (bnd (gets (\<lambda>s. h_list (items_heap s) r)) (\<lambda>items.
         sq (mapm (Push (EStack c)) items)
        (sq (PushT (EStack c) (PyInt (int (length items))))
         (check_or_fault env False (int (length items)))))))"

definition op_PICKITEM :: "'z engine_scheme env \<Rightarrow> 'z op" where
  "op_PICKITEM env c i =
     bnd (Pop (EStack c)) (\<lambda>key.
     if IsCollection key then VM_FAULT_and_report
     else bnd (Pop (EStack c)) (\<lambda>collection.
       case list_ref collection of
         Some r \<Rightarrow>
           bnd (lft (GetBigInteger key)) (\<lambda>index.
           bnd (gets items_heap) (\<lambda>h.
           if index < 0 \<or> index \<ge> Array_Count h r then VM_FAULT_and_report
           else bnd (lft (py_nth index (h_list h r))) (\<lambda>to_pick.
                sq (Push (EStack c) to_pick) (check_or_fault env False (- 1)))))
       | None \<Rightarrow>
           (case map_ref collection of
             Some r \<Rightarrow>
               bnd (get_heap (\<lambda>h. Map_TryGetValue h r key)) (\<lambda>v.
               case v of
                 Some value \<Rightarrow> sq (Push (EStack c) value) (check_or_fault env False (- 1))
               | None \<Rightarrow> VM_FAULT_and_report)
           | None \<Rightarrow> VM_FAULT_and_report)))"

definition op_SETITEM :: "'z engine_scheme env \<Rightarrow> 'z op" where
  "op_SETITEM env c i =
     bnd (Pop (EStack c)) (\<lambda>popped.
     bnd (clone_struct env popped) (\<lambda>value.
     bnd (Pop (EStack c)) (\<lambda>key.
     if IsCollection key then VM_FAULT_and_report
     else bnd (Pop (EStack c)) (\<lambda>collection.
       sq (case list_ref collection of
             Some r \<Rightarrow>
               bnd (lft (GetBigInteger key)) (\<lambda>index.
               bnd (gets items_heap) (\<lambda>h.
               if index < 0 \<or> index \<ge> Array_Count h r then VM_FAULT_and_report
               else on_heap (\<lambda>h. ebind (py_set index value (h_list h r)) (\<lambda>l. Inr ((), set_list r l h)))))
           | None \<Rightarrow>
               (case map_ref collection of
                 Some r \<Rightarrow>
                   bnd (get_heap (\<lambda>h. Map_ContainsKey h r key)) (\<lambda>has.
                   bnd (gets items_heap) (\<lambda>h.
                   if \<not> has \<and> \<not> CheckArraySize (Map_Count h r + 1) then VM_FAULT_and_report
                   else on_heap (\<lambda>h. ebind (Map_SetItem r key value h) (\<lambda>h'. Inr ((), h')))))
               | None \<Rightarrow> VM_FAULT_and_report))
          (check_or_fault env False int_MaxValue)))))"

text \<open>An array or struct of the other kind is made on the same list, not on a copy of it.\<close>

definition op_NEWARRAY :: "'z engine_scheme env \<Rightarrow> 'z op" where
  "op_NEWARRAY env c i =
     bnd (Pop (EStack c)) (\<lambda>item.
     case list_ref item of
       Some r \<Rightarrow>
         let result = (if IsStruct item then if ins_OpCode i = OP_NEWSTRUCT then Some item else None
                       else if ins_OpCode i = OP_NEWARRAY then Some item else None) in
         Push (EStack c) (case result of Some x \<Rightarrow> x
           | None \<Rightarrow> if ins_OpCode i = OP_NEWARRAY then Array r else Struct r)
     | None \<Rightarrow>
         bnd (lft (GetBigInteger item)) (\<lambda>count.
         if count < 0 then VM_FAULT_and_report
         else if \<not> CheckArraySize count then VM_FAULT_and_report
         else bnd (repeatm (nat count) (new_item (PyBool False))) (\<lambda>items.
              bnd (new_list items) (\<lambda>r.
              sq (Push (EStack c) (if ins_OpCode i = OP_NEWARRAY then Array r else Struct r))
                 (check_or_fault env True count)))))"

definition op_NEWMAP :: "'z engine_scheme env \<Rightarrow> 'z op" where
  "op_NEWMAP env c i =
     bnd (on_heap (\<lambda>h. Inr (alloc_dict [] h))) (\<lambda>r.
     sq (Push (EStack c) (Map r)) (check_or_fault env True 1))"

definition op_APPEND :: "'z engine_scheme env \<Rightarrow> 'z op" where
  "op_APPEND env c i =
     bnd (Pop (EStack c)) (\<lambda>popped.
     bnd (clone_struct env popped) (\<lambda>newItem.
     bnd (Pop (EStack c)) (\<lambda>arrItem.
     case list_ref arrItem of
       None \<Rightarrow> VM_FAULT_and_report
     | Some r \<Rightarrow>
         bnd (gets items_heap) (\<lambda>h.
         if \<not> CheckArraySize (Array_Count h r + 1) then VM_FAULT_and_report
         else sq (on_heap (\<lambda>h. Inr ((), Array_Add r newItem h)))
                 (check_or_fault env False int_MaxValue)))))"

definition op_REVERSE :: "'z engine_scheme env \<Rightarrow> 'z op" where
  "op_REVERSE env c i =
     bnd (Pop (EStack c)) (\<lambda>arrItem.
     sq (check_stack env False (- 1))
     (case list_ref arrItem of
        None \<Rightarrow> VM_FAULT_and_report
      | Some r \<Rightarrow> on_heap (\<lambda>h. Inr ((), Array_Reverse r h))))"

definition op_REMOVE :: "'z engine_scheme env \<Rightarrow> 'z op" where
  "op_REMOVE env c i =
     bnd (Pop (EStack c)) (\<lambda>key.
     if IsCollection key then VM_FAULT_and_report
     else bnd (Pop (EStack c)) (\<lambda>collection.
       sq (check_stack env False (- 2))
       (case list_ref collection of
          Some r \<Rightarrow>
            bnd (lft (GetBigInteger key)) (\<lambda>index.
            bnd (gets items_heap) (\<lambda>h.
            if index < 0 \<or> index \<ge> Array_Count h r then VM_FAULT_and_report
            else bnd (on_heap (Array_RemoveAt r index)) (\<lambda>_. ret ())))
        | None \<Rightarrow>
            (case map_ref collection of
              Some r \<Rightarrow> bnd (on_heap (Map_Remove r key)) (\<lambda>_. ret ())
            | None \<Rightarrow> VM_FAULT_and_report))))"

definition op_HASKEY :: "'z engine_scheme env \<Rightarrow> 'z op" where
  "op_HASKEY env c i =
     bnd (Pop (EStack c)) (\<lambda>key.
     if IsCollection key then VM_FAULT_and_report
     else bnd (Pop (EStack c)) (\<lambda>collection.
       sq (case list_ref collection of
             Some r \<Rightarrow>
               bnd (lft (GetBigInteger key)) (\<lambda>index.
               if index < 0 then VM_FAULT_and_report
               else bnd (gets items_heap) (\<lambda>h. PushT (EStack c) (PyBool (index < Array_Count h r))))
           | None \<Rightarrow>
               (case map_ref collection of
                 Some r \<Rightarrow>
                   bnd (get_heap (\<lambda>h. Map_ContainsKey h r key)) (\<lambda>b. PushT (EStack c) (PyBool b))
               | None \<Rightarrow> VM_FAULT_and_report))
          (check_stack env False (- 1))))"

definition op_KEYS :: "'z engine_scheme env \<Rightarrow> 'z op" where
  "op_KEYS env c i =
     bnd (Pop (EStack c)) (\<lambda>collection.
     case map_ref collection of
       Some r \<Rightarrow>
         bnd (gets items_heap) (\<lambda>h.
         bnd (new_list (Map_Keys h r)) (\<lambda>q.
         sq (Push (EStack c) (Array q)) (check_or_fault env False (Map_Count h r))))
     | None \<Rightarrow> VM_FAULT_and_report)"

text \<open>\<open>for item in values\<close> raises when \<open>values\<close> is an Array, which is not iterable.\<close>

definition op_VALUES :: "'z engine_scheme env \<Rightarrow> 'z op" where
  "op_VALUES env c i =
     bnd (Pop (EStack c)) (\<lambda>collection.
     case map_ref collection of
       Some r \<Rightarrow>
         bnd (gets (\<lambda>s. Map_Values (items_heap s) r)) (\<lambda>values.
         bnd (new_list []) (\<lambda>newArray.
         sq (mapm (\<lambda>item. bnd (clone_struct env item) (\<lambda>x. on_heap (\<lambda>h. Inr ((), Array_Add newArray x h)))) values)
        (sq (Push (EStack c) (Array newArray)) (check_or_fault env False int_MaxValue))))
     | None \<Rightarrow> if list_ref collection = None then VM_FAULT_and_report else throw TypeError)"

lemmas collection_op_defs = on_heap_def get_heap_def clone_struct_def new_list_def
  op_ARRAYSIZE_def op_PACK_def op_UNPACK_def op_PICKITEM_def op_SETITEM_def op_NEWARRAY_def
  op_NEWMAP_def op_APPEND_def op_REVERSE_def op_REMOVE_def op_HASKEY_def op_KEYS_def op_VALUES_def

declare collection_op_defs [model_defs]

end
