(* ===== verification/Execution_Engine.thy ===== *)
theory Execution_Engine
  imports Ops_Numeric Ops_Collection
begin

text \<open>
  The interpreter of \<open>neo/VM/ExecutionEngine.py\<close>: \<open>dispatch\<close> is the chain of opcode tests of
  \<open>ExecuteInstruction\<close>, \<open>ExecuteNext\<close> one step with its hooks and its \<open>except\<close> block, and
  \<open>Execute\<close> the loop. The hooks \<open>PreExecuteInstruction\<close> and \<open>PostExecuteInstruction\<close> are
  arguments, since the subclass ApplicationEngine overrides the first. A run that does not end is
  \<open>None\<close>. Writing the instruction log is not modelled.
\<close>

definition dispatch :: "'z engine_scheme env \<Rightarrow> 'z op" where
  "dispatch env c i =
    (let op = ins_OpCode i in
     if OP_PUSHBYTES1 \<le> op \<and> op \<le> OP_PUSHDATA4 then op_PUSHBYTES env c i
     else if op \<in> {OP_PUSHM1, OP_PUSH1, OP_PUSH2, OP_PUSH3, OP_PUSH4, OP_PUSH5, OP_PUSH6, OP_PUSH7, OP_PUSH8,
       OP_PUSH9, OP_PUSH10, OP_PUSH11, OP_PUSH12, OP_PUSH13, OP_PUSH14, OP_PUSH15, OP_PUSH16} then op_PUSHINT env c i
     else if op = OP_PUSH0 then op_PUSH0 env c i
     else if op = OP_NOP then ret ()
     else if op \<in> {OP_JMP, OP_JMPIF, OP_JMPIFNOT} then op_JMP env c i
     else if op = OP_CALL then op_CALL c i
     else if op = OP_RET then op_RET env c i
     else if op = OP_APPCALL \<or> op = OP_TAILCALL then op_APPCALL env c i
     else if op = OP_SYSCALL then op_SYSCALL env c i
     else if op = OP_DUPFROMALTSTACK then op_DUPFROMALTSTACK env c i
     else if op = OP_TOALTSTACK then op_TOALTSTACK c i
     else if op = OP_FROMALTSTACK then op_FROMALTSTACK c i
     else if op = OP_XDROP then op_XDROP env c i
     else if op = OP_XSWAP then op_XSWAP env c i
     else if op = OP_XTUCK then op_XTUCK c i
     else if op = OP_DEPTH then op_DEPTH env c i
     else if op = OP_DROP then op_DROP env c i
     else if op = OP_DUP then op_DUP env c i
     else if op = OP_NIP then op_NIP env c i
     else if op = OP_OVER then op_OVER env c i
     else if op = OP_PICK then op_PICK c i
     else if op = OP_ROLL then op_ROLL env c i
     else if op = OP_ROT then op_ROT c i
     else if op = OP_SWAP then op_SWAP c i
     else if op = OP_TUCK then op_TUCK env c i
     else if op = OP_CAT then op_CAT env c i
     else if op = OP_SUBSTR then op_SUBSTR env c i
     else if op = OP_LEFT then op_LEFT env c i
     else if op = OP_RIGHT then op_RIGHT env c i
     else if op = OP_SIZE then op_SIZE c i
     else if op = OP_INVERT then op_INVERT c i
     else if op = OP_AND then op_AND env c i
     else if op = OP_OR then op_OR env c i
     else if op = OP_XOR then op_XOR env c i
     else if op = OP_EQUAL then op_EQUAL env c i
     else if op = OP_INC then op_INC c i
     else if op = OP_DEC then op_DEC c i
     else if op = OP_SIGN then op_SIGN c i
     else if op = OP_NEGATE then op_NEGATE c i
     else if op = OP_ABS then op_ABS c i
     else if op = OP_NOT then op_NOT env c i
     else if op = OP_NZ then op_NZ c i
     else if op = OP_ADD then op_ADD env c i
     else if op = OP_SUB then op_SUB env c i
     else if op = OP_MUL then op_MUL env c i
     else if op = OP_DIV then op_DIV env c i
     else if op = OP_MOD then op_MOD env c i
     else if op = OP_SHL then op_SHL env c i
     else if op = OP_SHR then op_SHR env c i
     else if op = OP_BOOLAND then op_BOOLAND env c i
     else if op = OP_BOOLOR then op_BOOLOR env c i
     else if op = OP_NUMEQUAL then op_NUMEQUAL env c i
     else if op = OP_NUMNOTEQUAL then op_NUMNOTEQUAL env c i
     else if op = OP_LT then op_LT env c i
     else if op = OP_GT then op_GT env c i
     else if op = OP_LTE then op_LTE env c i
     else if op = OP_GTE then op_GTE env c i
     else if op = OP_MIN then op_MIN env c i
     else if op = OP_MAX then op_MAX env c i
     else if op = OP_WITHIN then op_WITHIN env c i
     else if op = OP_SHA1 then op_SHA1 env c i
     else if op = OP_SHA256 then op_SHA256 env c i
     else if op = OP_HASH160 then op_HASH160 env c i
     else if op = OP_HASH256 then op_HASH256 env c i
     else if op = OP_CHECKSIG then op_CHECKSIG env c i
     else if op = OP_VERIFY then op_VERIFY env c i
     else if op = OP_CHECKMULTISIG then op_CHECKMULTISIG env c i
     else if op = OP_ARRAYSIZE then op_ARRAYSIZE env c i
     else if op = OP_PACK then op_PACK c i
     else if op = OP_UNPACK then op_UNPACK env c i
     else if op = OP_PICKITEM then op_PICKITEM env c i
     else if op = OP_SETITEM then op_SETITEM env c i
     else if op \<in> {OP_NEWARRAY, OP_NEWSTRUCT} then op_NEWARRAY env c i
     else if op = OP_NEWMAP then op_NEWMAP env c i
     else if op = OP_APPEND then op_APPEND env c i
     else if op = OP_REVERSE then op_REVERSE env c i
     else if op = OP_REMOVE then op_REMOVE env c i
     else if op = OP_HASKEY then op_HASKEY env c i
     else if op = OP_KEYS then op_KEYS env c i
     else if op = OP_VALUES then op_VALUES env c i
     else if op = OP_CALL_I then op_CALL_I c i
     else if op \<in> {OP_CALL_E, OP_CALL_ED, OP_CALL_ET, OP_CALL_EDT} then op_CALL_E env c i
     else if op = OP_THROW then op_THROW c i
     else if op = OP_THROWIFNOT then op_THROWIFNOT env c i
     else VM_FAULT_and_report)"

definition ExecuteInstruction :: "'z engine_scheme env \<Rightarrow> ('z engine_scheme, bool) m" where
  "ExecuteInstruction env =
     catch_ret
      (bnd CurrentContext (\<lambda>c.
       bnd (gets (\<lambda>s. contexts s c)) (\<lambda>x.
       bnd (lft (CurrentInstruction x)) (\<lambda>i.
       sq (dispatch env c i)
      (sq (MoveNext c)
          (ret True))))))"

text \<open>The hooks of the base class.\<close>

definition PreExecuteInstruction :: "('z engine_scheme, bool) m" where
  "PreExecuteInstruction = ret True"

definition PostExecuteInstruction :: "('z engine_scheme, bool) m" where
  "PostExecuteInstruction = ret True"

text \<open>\<open>if not hook(): self._VMState = VMState.FAULT\<close>: the step goes on all the same.\<close>

definition or_fault :: "('z engine_scheme, bool) m \<Rightarrow> ('z engine_scheme, unit) m" where
  "or_fault hook = bnd (catch_ret hook) (\<lambda>ok. whenm (\<not> ok) set_fault)"

definition step_body ::
  "'z engine_scheme env \<Rightarrow> ('z engine_scheme, bool) m \<Rightarrow> ('z engine_scheme, bool) m \<Rightarrow>
   ('z engine_scheme, unit) m" where
  "step_body env pre post =
     bnd CurrentContext (\<lambda>c.
     bnd (gets (\<lambda>s. contexts s c)) (\<lambda>x.
     bnd (lft (CurrentInstruction x)) (\<lambda>_.
     sq (or_fault pre)
    (sq (or_fault (ExecuteInstruction env))
        (or_fault post)))))"

definition ExecuteNext ::
  "'z engine_scheme env \<Rightarrow> ('z engine_scheme, bool) m \<Rightarrow> ('z engine_scheme, bool) m \<Rightarrow>
   'z engine_scheme \<Rightarrow> 'z engine_scheme" where
  "ExecuteNext env pre post s =
     (if ras_Count (InvocationStack s) = 0 then s\<lparr>VMState := VM_HALT\<rparr>
      else
        case step_body env pre post (s\<lparr>ops_processed := ops_processed s + 1\<rparr>) of
          (Exc e, s') \<Rightarrow> if exit_on_error env then s'\<lparr>VMState := VM_FAULT\<rparr> else s'
        | (_, s') \<Rightarrow> s')"

definition running :: "'z engine_scheme \<Rightarrow> bool" where
  "running s \<longleftrightarrow>
     \<not> has_flag (VMState s) VM_HALT \<and> \<not> has_flag (VMState s) VM_FAULT \<and> \<not> has_flag (VMState s) VM_BREAK"

partial_function (option) loop_stepinto ::
  "'z engine_scheme env \<Rightarrow> ('z engine_scheme, bool) m \<Rightarrow> ('z engine_scheme, bool) m \<Rightarrow>
   'z engine_scheme \<Rightarrow> 'z engine_scheme option" where
  "loop_stepinto env pre post s =
     (if running s then loop_stepinto env pre post (ExecuteNext env pre post s) else Some s)"

declare loop_stepinto.simps [code]

definition Execute ::
  "'z engine_scheme env \<Rightarrow> ('z engine_scheme, bool) m \<Rightarrow> ('z engine_scheme, bool) m \<Rightarrow>
   'z engine_scheme \<Rightarrow> (bool \<times> 'z engine_scheme) option" where
  "Execute env pre post s =
     map_option (\<lambda>s'. (\<not> has_flag (VMState s') VM_FAULT, s'))
       (loop_stepinto env pre post (s\<lparr>VMState := clear_break (VMState s)\<rparr>))"

lemmas execution_defs = dispatch_def ExecuteInstruction_def PreExecuteInstruction_def
  PostExecuteInstruction_def or_fault_def step_body_def ExecuteNext_def running_def Execute_def

declare execution_defs [model_defs]

lemmas vm_state_defs = VM_NONE_def VM_HALT_def VM_FAULT_def VM_BREAK_def has_flag_def clear_break_def

declare vm_state_defs [model_defs]

declare GetInstruction_def [model_defs] CurrentInstruction_def [model_defs]
  NextInstruction_def [model_defs] update_context_def [model_defs] jump_to_def [model_defs]
  MoveNext_def [model_defs] Pop_def [model_defs] Remove_def [model_defs] Peek_def [model_defs]
  Push_def [model_defs] new_item_def [model_defs] PushT_def [model_defs] Insert_def [model_defs]
  SetAt_def [model_defs] Count_def [model_defs] CopyTo_def [model_defs] Clear_def [model_defs]
  PopInt_def [model_defs] PopBytes_def [model_defs] PopBool_def [model_defs]
  CurrentContext_def [model_defs] CallingContext_def [model_defs] EntryContext_def [model_defs]
  remove_context_def [model_defs] VM_FAULT_and_report_def [model_defs] set_fault_def [model_defs]
  ExecutionContext_def [model_defs] ExecutionEngine_def [model_defs]

end
