(* ===== verification/Engine_Invariant.thy ===== *)
theory Engine_Invariant
  imports Execution_Engine
begin

text \<open>
  The invariant of the engine's state and its preservation. \<open>engine_wf\<close> says that every stack's
  counter is the length of its list, that the invocation stack holds distinct existing contexts,
  and that no item on a stack or in a collection has a dangling reference, so an allocation never
  aliases a live object. \<open>safe n m A\<close> is the triple of the proofs: from a well-formed state with
  at least \<open>n\<close> references in use, \<open>m\<close> leaves a well-formed state however it ends, and a value it
  returns satisfies \<open>A\<close> at the references then in use.
\<close>

definition stack_wf :: "nat \<Rightarrow> stack_item ras \<Rightarrow> bool" where
  "stack_wf n t \<longleftrightarrow> ras_wf t \<and> list_all (item_wf n) (ras_list t)"

definition contexts_wf :: "nat \<Rightarrow> (cid \<Rightarrow> exec_context) \<Rightarrow> bool" where
  "contexts_wf n f \<longleftrightarrow> (\<forall>c. stack_wf n (EvaluationStack (f c)) \<and> stack_wf n (AltStack (f c)))"

definition invocation_wf :: "cid \<Rightarrow> cid ras \<Rightarrow> bool" where
  "invocation_wf n t \<longleftrightarrow> ras_wf t \<and> distinct (ras_list t) \<and> list_all (\<lambda>c. c < n) (ras_list t)"

definition heap_size :: "'z engine_scheme \<Rightarrow> nat" where
  "heap_size s = h_next (items_heap s)"

definition engine_wf :: "'z engine_scheme \<Rightarrow> bool" where
  "engine_wf s \<longleftrightarrow>
     heap_wf (items_heap s) \<and> invocation_wf (next_context s) (InvocationStack s) \<and>
     contexts_wf (heap_size s) (contexts s) \<and> stack_wf (heap_size s) (ResultStack s)"

definition safe :: "nat \<Rightarrow> ('z engine_scheme, 'a) m \<Rightarrow> (nat \<Rightarrow> 'a \<Rightarrow> bool) \<Rightarrow> bool" where
  "safe n m A \<longleftrightarrow>
     (\<forall>s. engine_wf s \<and> n \<le> heap_size s \<longrightarrow>
        engine_wf (snd (m s)) \<and> n \<le> heap_size (snd (m s)) \<and>
        (\<forall>a. fst (m s) = Val a \<longrightarrow> A (heap_size (snd (m s))) a))"

abbreviation any_value :: "nat \<Rightarrow> 'a \<Rightarrow> bool" where
  "any_value \<equiv> \<lambda>_ _. True"

named_theorems safe_intros

section \<open>Rules of the triple\<close>

lemma safeI:
  assumes "\<And>s. engine_wf s \<Longrightarrow> n \<le> heap_size s \<Longrightarrow>
    engine_wf (snd (m s)) \<and> n \<le> heap_size (snd (m s)) \<and>
    (\<forall>a. fst (m s) = Val a \<longrightarrow> A (heap_size (snd (m s))) a)"
  shows "safe n m A"
  using assms by (simp add: safe_def)

lemma safeD:
  assumes "safe n m A" "engine_wf s" "n \<le> heap_size s"
  shows "engine_wf (snd (m s))" "n \<le> heap_size (snd (m s))"
    "fst (m s) = Val a \<Longrightarrow> A (heap_size (snd (m s))) a"
  using assms by (auto simp: safe_def)

lemma safe_bnd [safe_intros]:
  fixes m :: "('z engine_scheme, 'a) m"
  assumes "safe n m A" "\<And>a k. n \<le> k \<Longrightarrow> A k a \<Longrightarrow> safe k (f a) B"
  shows "safe n (bnd m f) B"
proof (rule safeI)
  fix s :: "'z engine_scheme" assume s: "engine_wf s" "n \<le> heap_size s"
  obtain r s' where m: "m s = (r, s')" by (cases "m s")
  note 1 = safeD [OF assms(1) s, unfolded m, simplified]
  show "engine_wf (snd (bnd m f s)) \<and> n \<le> heap_size (snd (bnd m f s)) \<and>
      (\<forall>a. fst (bnd m f s) = Val a \<longrightarrow> B (heap_size (snd (bnd m f s))) a)"
  proof (cases r)
    case (Val a)
    from assms(2) [OF 1(2), of a] 1(3) [of a] Val have "safe (heap_size s') (f a) B" by simp
    from safeD [OF this 1(1)] show ?thesis using 1(2) by (auto simp: bnd_def m Val)
  qed (use 1 in \<open>auto simp: bnd_def m\<close>)
qed

lemma safe_sq [safe_intros]:
  assumes "safe n m any_value" "\<And>k. n \<le> k \<Longrightarrow> safe k m' B"
  shows "safe n (sq m m') B"
  unfolding sq_def using assms by (blast intro: safe_bnd)

lemma safe_if [safe_intros]:
  "(b \<Longrightarrow> safe n m A) \<Longrightarrow> (\<not> b \<Longrightarrow> safe n m' A) \<Longrightarrow> safe n (if b then m else m') A"
  by simp

lemma safe_let [safe_intros]: "safe n (f a) A \<Longrightarrow> safe n (Let a f) A"
  by simp

lemma safe_case_option [safe_intros]:
  "(x = None \<Longrightarrow> safe n m A) \<Longrightarrow> (\<And>a. x = Some a \<Longrightarrow> safe n (f a) A) \<Longrightarrow>
     safe n (case x of None \<Rightarrow> m | Some a \<Rightarrow> f a) A"
  by (cases x) auto

lemma safe_ret [safe_intros]: "safe n (ret a) any_value"
  by (simp add: safe_def ret_def)

lemma safe_fin [safe_intros]: "safe n (fin b) A"
  by (simp add: safe_def fin_def)

lemma safe_throw [safe_intros]: "safe n (throw e) A"
  by (simp add: safe_def throw_def)

lemma safe_lft [safe_intros]: "safe n (lft r) any_value"
  by (auto simp: safe_def lft_def split: sum.splits)

lemma safe_gets [safe_intros]: "safe n (gets f) any_value"
  by (simp add: safe_def gets_def)

lemma safe_weaken: "safe n m A \<Longrightarrow> (\<And>k a. A k a \<Longrightarrow> B k a) \<Longrightarrow> safe n m B"
  by (auto simp: safe_def)

lemma safe_case_prod [safe_intros]:
  "(\<And>a b. p = (a, b) \<Longrightarrow> safe n (f a b) A) \<Longrightarrow> safe n (case p of (a, b) \<Rightarrow> f a b) A"
  by (cases p) auto

lemma safe_modify: "(\<And>s. engine_wf s \<Longrightarrow> engine_wf (f s) \<and> heap_size (f s) = heap_size s) \<Longrightarrow> safe n (modify f) any_value"
  by (simp add: safe_def modify_def)

lemma safe_whenm [safe_intros]: "safe n m any_value \<Longrightarrow> safe n (whenm b m) any_value"
  by (simp add: whenm_def safe_ret)

lemma safe_catch_ret [safe_intros]: "safe n m any_value \<Longrightarrow> safe n (catch_ret m) any_value"
  by (fastforce simp: safe_def catch_ret_def split: prod.splits res.splits)

text \<open>Facts about items persist while references are added.\<close>

lemma safe_repeatm_items [safe_intros]:
  assumes "\<And>k. n \<le> k \<Longrightarrow> safe k m item_wf"
  shows "safe n (repeatm j m) (\<lambda>k. list_all (item_wf k))"
  using assms
proof (induction j arbitrary: n)
  case 0
  then show ?case by (simp add: safe_def ret_def)
next
  case (Suc j)
  show ?case
    unfolding repeatm.simps
  proof (rule safe_bnd)
    show "safe n m item_wf" using Suc.prems by simp
    fix x k assume k: "n \<le> k" "item_wf k x"
    have "safe k (repeatm j m) (\<lambda>k. list_all (item_wf k))"
      by (rule Suc.IH) (use Suc.prems k in simp)
    then show "safe k (bnd (repeatm j m) (\<lambda>xs. ret (x # xs))) (\<lambda>k. list_all (item_wf k))"
    proof (rule safe_bnd)
      fix xs l assume "k \<le> l" "list_all (item_wf l) xs"
      with k(2) have "list_all (item_wf l) (x # xs)" using item_wf_mono by auto
      then show "safe l (ret (x # xs)) (\<lambda>k. list_all (item_wf k))"
        by (auto simp: safe_def ret_def intro: list_item_wf_mono item_wf_mono)
    qed
  qed
qed

lemma safe_repeatm_any:
  assumes "\<And>k. n \<le> k \<Longrightarrow> safe k m any_value"
  shows "safe n (repeatm j m) any_value"
  using assms
proof (induction j arbitrary: n)
  case 0
  then show ?case by (simp add: safe_def ret_def)
next
  case (Suc j)
  show ?case
    unfolding repeatm.simps
  proof (rule safe_bnd)
    show "safe n m any_value" using Suc.prems by simp
    show "safe k (bnd (repeatm j m) (\<lambda>xs. ret (x # xs))) any_value" if "n \<le> k" for k x
      by (rule safe_bnd [OF Suc.IH safe_ret]) (use Suc.prems that in simp)
  qed
qed

lemma safe_mapm:
  assumes "\<And>k x. n \<le> k \<Longrightarrow> x \<in> set xs \<Longrightarrow> safe k (f x) any_value"
  shows "safe n (mapm f xs) any_value"
  using assms
proof (induction xs arbitrary: n)
  case Nil
  show ?case by (simp add: safe_ret)
next
  case (Cons x xs)
  show ?case
    unfolding mapm.simps by (rule safe_sq) (use Cons in auto)
qed

section \<open>The stacks\<close>

lemma stack_wf_mono: "stack_wf n t \<Longrightarrow> n \<le> k \<Longrightarrow> stack_wf k t"
  by (auto simp: stack_wf_def intro: list_item_wf_mono)

lemma stack_wf_empty: "stack_wf n ras_empty"
  by (simp add: stack_wf_def ras_empty_def ras_wf_def)

lemma list_all_take_drop: "list_all P xs \<Longrightarrow> list_all P (take n xs) \<and> list_all P (drop n xs)"
  by (auto simp: list_all_iff dest: in_set_takeD in_set_dropD)

lemma list_all_update: "list_all P xs \<Longrightarrow> P x \<Longrightarrow> list_all P (xs[n := x])"
  by (auto simp: list_all_iff dest!: set_update_subset_insert [THEN subsetD])

lemma ras_Remove_wf:
  assumes "ras_Remove i t = Inr (x, t')" "ras_wf t"
  shows "ras_wf t'" "x \<in> set (ras_list t)" "set (ras_list t') \<subseteq> set (ras_list t)"
    "distinct (ras_list t) \<Longrightarrow> distinct (ras_list t')"
proof -
  obtain j where j: "j < length (ras_list t)" "x = ras_list t ! j"
      "t' = t\<lparr>ras_list := take j (ras_list t) @ drop (Suc j) (ras_list t), ras_size := ras_size t - 1\<rparr>"
    using assms(1) by (auto simp: ras_Remove_def py_pop_def ebind_Inr_iff dest: py_index_lt)
  show "ras_wf t'" using j assms(2) by (auto simp: ras_wf_def)
  show "x \<in> set (ras_list t)" using j by simp
  show "set (ras_list t') \<subseteq> set (ras_list t)"
    using j set_take_subset set_drop_subset by fastforce
  assume "distinct (ras_list t)"
  then show "distinct (ras_list t')"
    using j id_take_nth_drop [OF j(1)] distinct_append [of "take j (ras_list t)" "ras_list t ! j # drop (Suc j) (ras_list t)"]
    by auto
qed

lemma ras_Peek_in: "ras_Peek i t = Inr x \<Longrightarrow> x \<in> set (ras_list t)"
  by (auto simp: ras_Peek_def py_nth_def ebind_Inr_iff dest: py_index_lt)

lemma stack_wf_Remove: "ras_Remove i t = Inr (x, t') \<Longrightarrow> stack_wf n t \<Longrightarrow> stack_wf n t' \<and> item_wf n x"
  using ras_Remove_wf [of i t x t'] by (auto simp: stack_wf_def list_all_iff)

lemma stack_wf_Pop: "ras_Pop t = Inr (x, t') \<Longrightarrow> stack_wf n t \<Longrightarrow> stack_wf n t' \<and> item_wf n x"
  using stack_wf_Remove unfolding ras_Pop_def by blast

lemma stack_wf_Peek: "ras_Peek i t = Inr x \<Longrightarrow> stack_wf n t \<Longrightarrow> item_wf n x"
  using ras_Peek_in by (fastforce simp: stack_wf_def list_all_iff)

lemma stack_wf_PushT: "stack_wf n t \<Longrightarrow> item_wf n x \<Longrightarrow> stack_wf n (ras_PushT x t)"
  by (simp add: stack_wf_def ras_PushT_def ras_wf_def)

lemma stack_wf_Insert: "ras_Insert i x t = Inr t' \<Longrightarrow> stack_wf n t \<Longrightarrow> item_wf n x \<Longrightarrow> stack_wf n t'"
  by (auto simp: stack_wf_def ras_Insert_def ras_wf_def py_insert_def Let_def list_all_take_drop split: if_splits)

lemma stack_wf_Set: "ras_Set i x t = Inr t' \<Longrightarrow> stack_wf n t \<Longrightarrow> item_wf n x \<Longrightarrow> stack_wf n t'"
  by (auto simp: stack_wf_def ras_Set_def ras_wf_def py_set_def Let_def ebind_Inr_iff list_all_update)

lemma stack_wf_Clear: "stack_wf n (ras_Clear t)"
  by (simp add: stack_wf_def ras_Clear_def ras_wf_def)

lemma stack_wf_CopyTo:
  assumes "stack_wf n s" "stack_wf n t" "j = - 1 \<or> 0 \<le> j \<and> j \<le> ras_Count s"
  shows "stack_wf n (ras_CopyTo s t j)"
proof -
  have len: "ras_size s = int (length (ras_list s))" using assms(1) by (simp add: stack_wf_def ras_wf_def)
  have "py_clamp (ras_size s - j) (length (ras_list s)) = length (ras_list s) - nat j" if "0 \<le> j"
    using that assms(3) len by (auto simp: py_clamp_def ras_Count_def)
  then show ?thesis
    using assms len
    by (auto simp: stack_wf_def ras_CopyTo_def ras_wf_def Let_def py_slice_from_def ras_Count_def list_all_take_drop)
qed

section \<open>The state\<close>

lemma engine_wf_get_stack: "engine_wf s \<Longrightarrow> stack_wf (heap_size s) (get_stack k s)"
  by (cases k) (auto simp: engine_wf_def contexts_wf_def)

lemma heap_size_put_stack [simp]: "heap_size (put_stack k t s) = heap_size s"
  by (cases k) (auto simp: heap_size_def update_context_def)

lemma engine_wf_put_stack: "engine_wf s \<Longrightarrow> stack_wf (heap_size s) t \<Longrightarrow> engine_wf (put_stack k t s)"
  by (cases k) (auto simp: engine_wf_def contexts_wf_def heap_size_def update_context_def)

lemma heap_size_update_context [simp]: "heap_size (update_context c f s) = heap_size s"
  by (simp add: heap_size_def update_context_def)

lemma engine_wf_update_context:
  "engine_wf s \<Longrightarrow> EvaluationStack (f (contexts s c)) = EvaluationStack (contexts s c) \<Longrightarrow>
     AltStack (f (contexts s c)) = AltStack (contexts s c) \<Longrightarrow> engine_wf (update_context c f s)"
  by (auto simp: engine_wf_def contexts_wf_def update_context_def heap_size_def)

lemma contexts_wf_mono: "contexts_wf n f \<Longrightarrow> n \<le> k \<Longrightarrow> contexts_wf k f"
  by (auto simp: contexts_wf_def intro: stack_wf_mono)

text \<open>Replacing the heap by a larger one.\<close>

lemma engine_wf_heap:
  "engine_wf s \<Longrightarrow> heap_wf h \<Longrightarrow> heap_size s \<le> h_next h \<Longrightarrow> engine_wf (s\<lparr>items_heap := h\<rparr>)"
  by (auto simp: engine_wf_def heap_size_def intro: contexts_wf_mono stack_wf_mono)

text \<open>What touches neither the stacks, the contexts nor the heap.\<close>

lemma engine_wf_fields [simp]:
  "engine_wf (s\<lparr>VMState := a\<rparr>) = engine_wf s"
  "engine_wf (s\<lparr>is_stackitem_count_strict := b\<rparr>) = engine_wf s"
  "engine_wf (s\<lparr>stackitem_count := i\<rparr>) = engine_wf s"
  "engine_wf (s\<lparr>ops_processed := i\<rparr>) = engine_wf s"
  "engine_wf (s\<lparr>debugger := d\<rparr>) = engine_wf s"
  "engine_wf (s\<lparr>ExecutedScriptHashes := hs\<rparr>) = engine_wf s"
  by (simp_all add: engine_wf_def heap_size_def)

lemma heap_size_fields [simp]:
  "heap_size (s\<lparr>VMState := a\<rparr>) = heap_size s"
  "heap_size (s\<lparr>is_stackitem_count_strict := b\<rparr>) = heap_size s"
  "heap_size (s\<lparr>stackitem_count := i\<rparr>) = heap_size s"
  "heap_size (s\<lparr>ops_processed := i\<rparr>) = heap_size s"
  "heap_size (s\<lparr>debugger := d\<rparr>) = heap_size s"
  "heap_size (s\<lparr>ExecutedScriptHashes := hs\<rparr>) = heap_size s"
  "heap_size (s\<lparr>InvocationStack := t\<rparr>) = heap_size s"
  "heap_size (s\<lparr>items_heap := h\<rparr>) = h_next h"
  by (simp_all add: heap_size_def)

section \<open>The primitives\<close>

lemma safe_Pop [safe_intros]: "safe n (Pop k) item_wf"
proof (rule safeI)
  fix s :: "'a engine_scheme" assume s: "engine_wf s" "n \<le> heap_size s"
  show "engine_wf (snd (Pop k s)) \<and> n \<le> heap_size (snd (Pop k s)) \<and>
      (\<forall>a. fst (Pop k s) = Val a \<longrightarrow> item_wf (heap_size (snd (Pop k s))) a)"
    using s stack_wf_Pop [OF _ engine_wf_get_stack [OF s(1)], of k] engine_wf_put_stack [OF s(1)]
    by (cases "ras_Pop (get_stack k s)") (auto simp: Pop_def monad_defs)
qed

lemma safe_Remove [safe_intros]: "safe n (Remove k i) item_wf"
proof (rule safeI)
  fix s :: "'a engine_scheme" assume s: "engine_wf s" "n \<le> heap_size s"
  show "engine_wf (snd (Remove k i s)) \<and> n \<le> heap_size (snd (Remove k i s)) \<and>
      (\<forall>a. fst (Remove k i s) = Val a \<longrightarrow> item_wf (heap_size (snd (Remove k i s))) a)"
    using s stack_wf_Remove [OF _ engine_wf_get_stack [OF s(1)], of i k] engine_wf_put_stack [OF s(1)]
    by (cases "ras_Remove i (get_stack k s)") (auto simp: Remove_def monad_defs)
qed

lemma safe_Peek [safe_intros]: "safe n (Peek k i) item_wf"
proof (rule safeI)
  fix s :: "'a engine_scheme" assume s: "engine_wf s" "n \<le> heap_size s"
  show "engine_wf (snd (Peek k i s)) \<and> n \<le> heap_size (snd (Peek k i s)) \<and>
      (\<forall>a. fst (Peek k i s) = Val a \<longrightarrow> item_wf (heap_size (snd (Peek k i s))) a)"
    using s stack_wf_Peek [OF _ engine_wf_get_stack [OF s(1)], of i k]
    by (cases "ras_Peek i (get_stack k s)") (auto simp: Peek_def monad_defs)
qed

lemma safe_Push [safe_intros]: "item_wf n x \<Longrightarrow> safe n (Push k x) any_value"
  unfolding safe_def Push_def modify_def
  by (auto intro!: engine_wf_put_stack stack_wf_PushT engine_wf_get_stack elim: item_wf_mono)

lemma safe_Insert [safe_intros]: "item_wf n x \<Longrightarrow> safe n (Insert k i x) any_value"
proof (rule safeI)
  fix s :: "'a engine_scheme" assume x: "item_wf n x" and s: "engine_wf s" "n \<le> heap_size s"
  have "item_wf (heap_size s) x" using item_wf_mono [OF x s(2)] .
  then show "engine_wf (snd (Insert k i x s)) \<and> n \<le> heap_size (snd (Insert k i x s)) \<and>
      (\<forall>a. fst (Insert k i x s) = Val a \<longrightarrow> True)"
    using s stack_wf_Insert [OF _ engine_wf_get_stack [OF s(1)], of i x k] engine_wf_put_stack [OF s(1)]
    by (cases "ras_Insert i x (get_stack k s)") (auto simp: Insert_def monad_defs)
qed

lemma safe_SetAt [safe_intros]: "item_wf n x \<Longrightarrow> safe n (SetAt k i x) any_value"
proof (rule safeI)
  fix s :: "'a engine_scheme" assume x: "item_wf n x" and s: "engine_wf s" "n \<le> heap_size s"
  have "item_wf (heap_size s) x" using item_wf_mono [OF x s(2)] .
  then show "engine_wf (snd (SetAt k i x s)) \<and> n \<le> heap_size (snd (SetAt k i x s)) \<and>
      (\<forall>a. fst (SetAt k i x s) = Val a \<longrightarrow> True)"
    using s stack_wf_Set [OF _ engine_wf_get_stack [OF s(1)], of i x k] engine_wf_put_stack [OF s(1)]
    by (cases "ras_Set i x (get_stack k s)") (auto simp: SetAt_def monad_defs)
qed

lemma safe_Clear [safe_intros]: "safe n (Clear k) any_value"
  unfolding Clear_def by (rule safe_modify) (simp add: engine_wf_put_stack stack_wf_Clear)

lemma safe_CopyTo_all [safe_intros]: "safe n (CopyTo k l (- 1)) any_value"
  unfolding CopyTo_def
  by (rule safe_modify) (simp add: engine_wf_put_stack stack_wf_CopyTo engine_wf_get_stack)

lemma safe_Count [safe_intros]: "safe n (Count k) any_value"
  unfolding Count_def by (rule safe_gets)

lemma safe_update_context [safe_intros]:
  "safe n (modify (update_context c (\<lambda>x. x\<lparr>InstructionPointer := ip\<rparr>))) any_value"
  "safe n (modify (update_context c (\<lambda>x. x\<lparr>ins := j\<rparr>))) any_value"
  by (rule safe_modify, simp add: engine_wf_update_context)+

lemma safe_heap:
  assumes "\<And>h. heap_wf h \<Longrightarrow> n \<le> h_next h \<Longrightarrow>
    heap_wf (snd (f h)) \<and> h_next h \<le> h_next (snd (f h)) \<and> A (h_next (snd (f h))) (fst (f h))"
  shows "safe n (\<lambda>s. let (x, h) = f (items_heap s) in (Val x, s\<lparr>items_heap := h\<rparr>)) A"
proof (rule safeI)
  fix s :: "'b engine_scheme" assume s: "engine_wf s" "n \<le> heap_size s"
  then have "heap_wf (items_heap s)" "n \<le> h_next (items_heap s)" by (simp_all add: engine_wf_def heap_size_def)
  from assms [OF this] s show "engine_wf (snd (let (x, h) = f (items_heap s) in (Val x, s\<lparr>items_heap := h\<rparr>))) \<and>
      n \<le> heap_size (snd (let (x, h) = f (items_heap s) in (Val x, s\<lparr>items_heap := h\<rparr>))) \<and>
      (\<forall>a. fst (let (x, h) = f (items_heap s) in (Val x, s\<lparr>items_heap := h\<rparr>)) = Val a \<longrightarrow>
        A (heap_size (snd (let (x, h) = f (items_heap s) in (Val x, s\<lparr>items_heap := h\<rparr>)))) a)"
    by (cases "f (items_heap s)") (auto simp: engine_wf_heap heap_size_def)
qed

fun pyval_wf :: "nat \<Rightarrow> pyval \<Rightarrow> bool" where
  "pyval_wf n (PyList xs) = list_all (item_wf n) xs"
| "pyval_wf n _ = True"

lemma StackItem_New_wf:
  "heap_wf h \<Longrightarrow> pyval_wf (h_next h) v \<Longrightarrow> StackItem_New v h = (x, h') \<Longrightarrow>
     heap_wf h' \<and> heap_ext h h' \<and> item_wf (h_next h') x"
  by (cases v) (auto split: prod.splits dest: alloc_list_wf [rotated 2] alloc_id_wf [rotated])

lemma pyval_wf_mono: "pyval_wf n v \<Longrightarrow> n \<le> k \<Longrightarrow> pyval_wf k v"
  by (cases v) (auto intro: list_item_wf_mono)

lemma safe_new_item [safe_intros]: "pyval_wf n v \<Longrightarrow> safe n (new_item v) item_wf"
proof -
  assume v: "pyval_wf n v"
  have "heap_wf (snd (StackItem_New v h)) \<and> h_next h \<le> h_next (snd (StackItem_New v h)) \<and>
      item_wf (h_next (snd (StackItem_New v h))) (fst (StackItem_New v h))" if "heap_wf h" "n \<le> h_next h" for h
    using StackItem_New_wf [OF that(1) pyval_wf_mono [OF v that(2)]] by (auto simp: heap_ext_def prod_eq_iff)
  from safe_heap [OF this] show ?thesis by (simp add: new_item_def [abs_def])
qed

lemma safe_PushT [safe_intros]: "pyval_wf n v \<Longrightarrow> safe n (PushT k v) any_value"
  unfolding PushT_def by (auto intro!: safe_bnd safe_new_item safe_Push)

lemma safe_PopInt [safe_intros]: "safe n (PopInt k) any_value"
  unfolding PopInt_def by (rule safe_bnd [OF safe_Pop safe_lft])

lemma safe_PopBytes [safe_intros]: "safe n (PopBytes k) any_value"
  unfolding PopBytes_def by (rule safe_bnd [OF safe_Pop safe_lft])

lemma safe_PopBool [safe_intros]: "safe n (PopBool k) any_value"
  unfolding PopBool_def by (rule safe_bnd [OF safe_Pop safe_ret])

lemma safe_set_fault [safe_intros]: "safe n set_fault any_value"
  unfolding set_fault_def by (rule safe_modify) simp

lemma safe_VM_FAULT_and_report [safe_intros]: "safe n VM_FAULT_and_report A"
  unfolding VM_FAULT_and_report_def by (rule safe_sq [OF safe_modify safe_fin]) simp

lemma safe_CurrentContext [safe_intros]: "safe n CurrentContext any_value"
  unfolding CurrentContext_def by (rule safe_bnd [OF safe_gets safe_lft])

lemma safe_EntryContext [safe_intros]: "safe n EntryContext any_value"
  unfolding EntryContext_def by (rule safe_bnd [OF safe_gets safe_lft])

lemma safe_CallingContext [safe_intros]: "safe n CallingContext any_value"
  unfolding CallingContext_def by (rule safe_intros)+

lemma invocation_wf_Remove:
  "ras_Remove i t = Inr (c, t') \<Longrightarrow> invocation_wf n t \<Longrightarrow> invocation_wf n t' \<and> c < n"
  using ras_Remove_wf [of i t c t'] by (auto simp: invocation_wf_def list_all_iff)

lemma safe_remove_context [safe_intros]: "safe n (remove_context i) any_value"
proof (rule safeI)
  fix s :: "'b engine_scheme" assume s: "engine_wf s" "n \<le> heap_size s"
  then have "invocation_wf (next_context s) (InvocationStack s)" by (simp add: engine_wf_def)
  with s invocation_wf_Remove [of i "InvocationStack s"]
  show "engine_wf (snd (remove_context i s)) \<and> n \<le> heap_size (snd (remove_context i s)) \<and>
      (\<forall>a. fst (remove_context i s) = Val a \<longrightarrow> True)"
    by (cases "ras_Remove i (InvocationStack s)")
       (auto simp: remove_context_def monad_defs engine_wf_def heap_size_def)
qed

lemma safe_jump_to [safe_intros]: "safe n (jump_to c ip) any_value"
  unfolding jump_to_def by (rule safe_intros)+

lemma safe_MoveNext [safe_intros]: "safe n (MoveNext c) any_value"
  unfolding MoveNext_def by (rule safe_intros)+

lemma safe_CheckMaxInvocationStack [safe_intros]: "safe n CheckMaxInvocationStack any_value"
  unfolding CheckMaxInvocationStack_def by (rule safe_gets)

lemma safe_CheckStackSize [safe_intros]: "safe n (CheckStackSize env strict j) any_value"
  unfolding CheckStackSize_def by (rule safe_intros safe_modify | simp)+

lemma safe_check [safe_intros]:
  "safe n (check_stack env strict j) any_value"
  "safe n (check_or_return env strict j) any_value"
  "safe n (check_or_fault env strict j) any_value"
  unfolding check_stack_def check_or_return_def check_or_fault_def by (rule safe_intros)+

section \<open>Loading a script\<close>

lemma engine_wf_new_context:
  assumes "engine_wf s"
  shows "engine_wf (s\<lparr>contexts := (contexts s)(next_context s := ExecutionContext scr rv),
    next_context := Suc (next_context s), InvocationStack := ras_PushT (next_context s) (InvocationStack s),
    ExecutedScriptHashes := hs\<rparr>)"
  using assms
  by (auto simp: engine_wf_def heap_size_def contexts_wf_def ExecutionContext_def stack_wf_empty
      invocation_wf_def ras_PushT_def ras_wf_def list_all_iff)

lemma LoadScriptInternal_wf:
  assumes "engine_wf s" "LoadScriptInternal scr rv s = (r, s')"
  shows "engine_wf s' \<and> heap_size s' = heap_size s \<and> (\<forall>d. r = Val d \<longrightarrow> d = next_context s \<and>
    contexts s' = (contexts s)(d := ExecutionContext scr rv))"
  using assms engine_wf_new_context [OF assms(1), where scr = scr and rv = rv]
  by (auto simp: LoadScriptInternal_def monad_defs heap_size_def split: option.splits if_splits debugger.splits prod.splits)

lemma safe_LoadScriptInternal [safe_intros]: "safe n (LoadScriptInternal scr rv) any_value"
proof (rule safeI)
  fix s :: "'b engine_scheme" assume "engine_wf s" "n \<le> heap_size s"
  then show "engine_wf (snd (LoadScriptInternal scr rv s)) \<and> n \<le> heap_size (snd (LoadScriptInternal scr rv s)) \<and>
      (\<forall>a. fst (LoadScriptInternal scr rv s) = Val a \<longrightarrow> True)"
    using LoadScriptInternal_wf [of s scr rv] by (cases "LoadScriptInternal scr rv s") auto
qed

lemma lookup_only_wf:
  assumes "lookup_only m" "engine_wf s"
  shows "engine_wf (snd (m s))" "heap_size (snd (m s)) = heap_size s" "get_stack k (snd (m s)) = get_stack k s"
  using assms(2) by (cases k; simp add: engine_wf_def heap_size_def lookup_only_fields [OF assms(1)])+

lemma safe_lookup: "lookup_only m \<Longrightarrow> safe n m any_value"
  by (simp add: safe_def lookup_only_wf)

lemma safe_LoadScriptByHash: "table_looks_up env \<Longrightarrow> safe n (LoadScriptByHash env h rv) any_value"
  unfolding LoadScriptByHash_def table_looks_up_def
  by (rule safe_intros safe_lookup | simp)+

end
