(* ===== verification/Engine_Safety.thy ===== *)
theory Engine_Safety
  imports Engine_Invariant
begin

text \<open>
  Every instruction keeps \<open>engine_wf\<close>, whatever its outcome, but for CALL_ED and CALL_EDT: these
  test the parameter count before they pop the script hash off the same stack, and may copy one
  item fewer than they count (\<open>CALL_EDT_breaks_stack\<close>).
\<close>

section \<open>The branches without a copied parameter count\<close>

lemma safe_stack_ops [safe_intros]:
  "safe n (op_PUSHBYTES env c i) any_value"
  "safe n (op_PUSHINT env c i) any_value"
  "safe n (op_PUSH0 env c i) any_value"
  "safe n (op_JMP env c i) any_value"
  "safe n (op_CALL c i) any_value"
  "safe n (op_THROW c i) any_value"
  "safe n (op_THROWIFNOT env c i) any_value"
  "safe n (op_DUPFROMALTSTACK env c i) any_value"
  "safe n (op_TOALTSTACK c i) any_value"
  "safe n (op_FROMALTSTACK c i) any_value"
  "safe n (op_XDROP env c i) any_value"
  "safe n (op_XSWAP env c i) any_value"
  "safe n (op_XTUCK c i) any_value"
  "safe n (op_DEPTH env c i) any_value"
  "safe n (op_DROP env c i) any_value"
  "safe n (op_DUP env c i) any_value"
  "safe n (op_NIP env c i) any_value"
  "safe n (op_OVER env c i) any_value"
  "safe n (op_PICK c i) any_value"
  "safe n (op_ROLL env c i) any_value"
  "safe n (op_ROT c i) any_value"
  "safe n (op_SWAP c i) any_value"
  "safe n (op_TUCK env c i) any_value"
  "safe n (op_CAT env c i) any_value"
  "safe n (op_SUBSTR env c i) any_value"
  "safe n (op_LEFT env c i) any_value"
  "safe n (op_RIGHT env c i) any_value"
  "safe n (op_SIZE c i) any_value"
  "safe n (op_INVERT c i) any_value"
  "safe n (op_EQUAL env c i) any_value"
  unfolding stack_op_defs
  by (rule safe_intros | (erule item_wf_mono, arith) | simp)+

lemma safe_int_binop [safe_intros]:
  assumes "\<And>n x1 x2. pyval_wf n (f x1 x2)"
  shows "safe n (int_binop env c f) any_value"
  unfolding int_binop_def by (rule safe_intros assms)+

lemma safe_numeric_ops [safe_intros]:
  "safe n (op_AND env c i) any_value"
  "safe n (op_OR env c i) any_value"
  "safe n (op_XOR env c i) any_value"
  "safe n (op_INC c i) any_value"
  "safe n (op_DEC c i) any_value"
  "safe n (op_SIGN c i) any_value"
  "safe n (op_NEGATE c i) any_value"
  "safe n (op_ABS c i) any_value"
  "safe n (op_NOT env c i) any_value"
  "safe n (op_NZ c i) any_value"
  "safe n (op_ADD env c i) any_value"
  "safe n (op_SUB env c i) any_value"
  "safe n (op_MUL env c i) any_value"
  "safe n (op_DIV env c i) any_value"
  "safe n (op_MOD env c i) any_value"
  "safe n (op_SHL env c i) any_value"
  "safe n (op_SHR env c i) any_value"
  "safe n (op_BOOLAND env c i) any_value"
  "safe n (op_BOOLOR env c i) any_value"
  "safe n (op_NUMEQUAL env c i) any_value"
  "safe n (op_NUMNOTEQUAL env c i) any_value"
  "safe n (op_LT env c i) any_value"
  "safe n (op_GT env c i) any_value"
  "safe n (op_LTE env c i) any_value"
  "safe n (op_GTE env c i) any_value"
  "safe n (op_MIN env c i) any_value"
  "safe n (op_MAX env c i) any_value"
  "safe n (op_WITHIN env c i) any_value"
  unfolding numeric_op_defs op_AND_def op_OR_def op_XOR_def
  by (rule safe_intros | simp)+

lemma safe_crypto_ops [safe_intros]:
  "safe n (op_SHA1 env c i) any_value"
  "safe n (op_SHA256 env c i) any_value"
  "safe n (op_HASH160 env c i) any_value"
  "safe n (op_HASH256 env c i) any_value"
  "safe n (op_CHECKSIG env c i) any_value"
  "safe n (op_VERIFY env c i) any_value"
  "safe n (op_CHECKMULTISIG env c i) any_value"
  unfolding numeric_op_defs
  by (rule safe_intros safe_repeatm_any | simp)+

section \<open>Collections\<close>

lemma safe_on_heap:
  assumes "\<And>h a h'. heap_wf h \<Longrightarrow> n \<le> h_next h \<Longrightarrow> f h = Inr (a, h') \<Longrightarrow>
    heap_wf h' \<and> h_next h \<le> h_next h' \<and> A (h_next h') a"
  shows "safe n (on_heap f) A"
proof (rule safeI)
  fix s :: "'b engine_scheme" assume s: "engine_wf s" "n \<le> heap_size s"
  then have h: "heap_wf (items_heap s)" "n \<le> h_next (items_heap s)" by (simp_all add: engine_wf_def heap_size_def)
  show "engine_wf (snd (on_heap f s)) \<and> n \<le> heap_size (snd (on_heap f s)) \<and>
      (\<forall>a. fst (on_heap f s) = Val a \<longrightarrow> A (heap_size (snd (on_heap f s))) a)"
  proof (cases "f (items_heap s)")
    case (Inl e)
    with s show ?thesis by (simp add: on_heap_def)
  next
    case (Inr p)
    obtain a h' where p: "p = (a, h')" by (cases p)
    from assms [OF h Inr [unfolded p]] s show ?thesis
      by (auto simp: on_heap_def Inr p engine_wf_heap heap_size_def)
  qed
qed

lemma safe_clone_struct [safe_intros]: "item_wf n x \<Longrightarrow> safe n (clone_struct env x) item_wf"
proof -
  assume x: "item_wf n x"
  have ret: "safe n (ret x) item_wf" using x by (auto simp: safe_def ret_def intro: item_wf_mono)
  have "safe n (on_heap (\<lambda>h. ebind (Clone d h r) (\<lambda>(q, h'). Inr (Struct q, h')))) item_wf" for d r
    by (rule safe_on_heap) (use Clone_ok in \<open>fastforce simp: ebind_Inr_iff clone_ok_def heap_ext_def\<close>)
  with ret show ?thesis by (cases x) (auto simp: clone_struct_def)
qed

definition ref_value :: "nat \<Rightarrow> ref \<Rightarrow> bool" where
  "ref_value n r \<longleftrightarrow> r < n"

lemma safe_new_list: "list_all (item_wf n) xs \<Longrightarrow> safe n (new_list xs) ref_value"
  unfolding new_list_def
  by (rule safe_on_heap) (auto simp: ref_value_def heap_ext_def dest: alloc_list_wf [rotated 2] list_item_wf_mono)

lemma safe_new_dict: "safe n (on_heap (\<lambda>h. Inr (alloc_dict [] h))) ref_value"
  by (rule safe_on_heap) (auto simp: ref_value_def heap_ext_def dest: alloc_dict_wf [rotated 2])

lemma ref_value_items: "ref_value n r \<Longrightarrow> n \<le> k \<Longrightarrow> item_wf k (Array r) \<and> item_wf k (Struct r) \<and> item_wf k (Map r)"
  by (simp add: ref_value_def)

lemma list_ref_less: "item_wf n x \<Longrightarrow> list_ref x = Some r \<Longrightarrow> r < n"
  by (cases x) auto

lemma map_ref_less: "item_wf n x \<Longrightarrow> map_ref x = Some r \<Longrightarrow> r < n"
  by (cases x) auto

lemma safe_on_heap_set_list:
  assumes "r < n" "\<And>h l a. heap_wf h \<Longrightarrow> n \<le> h_next h \<Longrightarrow> f h = Inr (a, l) \<Longrightarrow> list_all (item_wf (h_next h)) l"
    "\<And>h. g h = ebind (f h) (\<lambda>(a, l). Inr (a, set_list r l h))"
  shows "safe n (on_heap g) any_value"
  by (rule safe_on_heap) (use assms in \<open>auto simp: ebind_Inr_iff intro!: set_list_wf\<close>)

lemma safe_Reverse [safe_intros]: "r < n \<Longrightarrow> safe n (on_heap (\<lambda>h. Inr ((), Array_Reverse r h))) any_value"
  by (rule safe_on_heap_set_list [where f = "\<lambda>h. Inr ((), rev (h_list h r))"])
     (auto simp: Array_Reverse_def dest: heap_wf_listD)

lemma safe_Add [safe_intros]:
  "r < n \<Longrightarrow> item_wf n x \<Longrightarrow> safe n (on_heap (\<lambda>h. Inr ((), Array_Add r x h))) any_value"
  by (rule safe_on_heap_set_list [where f = "\<lambda>h. Inr ((), h_list h r @ [x])"])
     (auto simp: Array_Add_def dest: heap_wf_listD item_wf_mono)

lemma safe_SetItem [safe_intros]:
  "r < n \<Longrightarrow> item_wf n x \<Longrightarrow>
     safe n (on_heap (\<lambda>h. ebind (py_set i x (h_list h r)) (\<lambda>l. Inr ((), set_list r l h)))) any_value"
  by (rule safe_on_heap_set_list [where f = "\<lambda>h. ebind (py_set i x (h_list h r)) (\<lambda>l. Inr ((), l))"])
     (auto simp: py_set_def ebind_Inr_iff ebind_assoc intro!: list_all_update dest: heap_wf_listD item_wf_mono)

lemma safe_RemoveAt [safe_intros]: "r < n \<Longrightarrow> safe n (on_heap (Array_RemoveAt r i)) any_value"
  by (rule safe_on_heap_set_list [where f = "\<lambda>h. py_pop i (h_list h r)"])
     (auto simp: Array_RemoveAt_def py_pop_def ebind_Inr_iff heap_wf_listD list_all_take_drop)

lemma dict_set_items:
  "dict_set k v d = Inr d' \<Longrightarrow> list_all (\<lambda>(k, v). P k \<and> P v) d \<Longrightarrow> P k \<Longrightarrow> P v \<Longrightarrow>
     list_all (\<lambda>(k, v). P k \<and> P v) d'"
  by (induction d arbitrary: d') (auto simp: hash_eq_iff ebind_Inr_iff split: if_splits)

lemma dict_del_items:
  "dict_del k d = Inr (f, d') \<Longrightarrow> list_all (\<lambda>(k, v). P k \<and> P v) d \<Longrightarrow> list_all (\<lambda>(k, v). P k \<and> P v) d'"
proof (induction d arbitrary: d' f)
  case (Cons p d)
  then show ?case by (cases p) (fastforce simp: hash_eq_iff ebind_Inr_iff split: if_splits)
qed simp

lemma safe_Map_SetItem [safe_intros]:
  "r < n \<Longrightarrow> item_wf n k \<Longrightarrow> item_wf n v \<Longrightarrow>
     safe n (on_heap (\<lambda>h. ebind (Map_SetItem r k v h) (\<lambda>h'. Inr ((), h')))) any_value"
proof (rule safe_on_heap)
  fix h a h' assume r: "r < n" "item_wf n k" "item_wf n v" and h: "heap_wf h" "n \<le> h_next h"
    and "ebind (Map_SetItem r k v h) (\<lambda>h'. Inr ((), h')) = Inr (a, h')"
  then obtain d where "dict_set k v (h_dict h r) = Inr d" "h' = set_dict r d h"
    by (auto simp: Map_SetItem_def ebind_Inr_iff)
  moreover have "item_wf (h_next h) k" "item_wf (h_next h) v" using r h item_wf_mono by blast+
  ultimately show "heap_wf h' \<and> h_next h \<le> h_next h' \<and> True"
    using dict_set_items [OF _ heap_wf_dictD [OF h(1)]] r h by (auto intro!: set_dict_wf)
qed

lemma safe_Map_Remove [safe_intros]: "r < n \<Longrightarrow> safe n (on_heap (Map_Remove r k)) any_value"
proof (rule safe_on_heap)
  fix h a h' assume r: "r < n" and h: "heap_wf h" "n \<le> h_next h" and "Map_Remove r k h = Inr (a, h')"
  then obtain f d where "dict_del k (h_dict h r) = Inr (f, d)" "h' = set_dict r d h"
    by (auto simp: Map_Remove_def ebind_Inr_iff)
  with dict_del_items [OF this(1) heap_wf_dictD [OF h(1)]] r h
  show "heap_wf h' \<and> h_next h \<le> h_next h' \<and> True"
    by (auto intro!: set_dict_wf)
qed

text \<open>Values read off the heap.\<close>

definition heap_value :: "nat \<Rightarrow> heap \<Rightarrow> bool" where
  "heap_value n h \<longleftrightarrow> heap_wf h \<and> h_next h \<le> n"

lemma safe_gets_heap: "safe n (gets items_heap) heap_value"
  by (auto simp: safe_def gets_def engine_wf_def heap_value_def heap_size_def)

lemma safe_gets_list: "safe n (gets (\<lambda>s. h_list (items_heap s) r)) (\<lambda>k. list_all (item_wf k))"
  by (auto simp: safe_def gets_def engine_wf_def heap_size_def heap_wf_listD)

lemma safe_gets_values: "safe n (gets (\<lambda>s. Map_Values (items_heap s) r)) (\<lambda>k. list_all (item_wf k))"
proof -
  have "list_all (item_wf (h_next h)) (Map_Values h r)" if "heap_wf h" for h
    using heap_wf_dictD [OF that, of r] by (auto simp: Map_Values_def list_all_iff)
  then show ?thesis by (auto simp: safe_def gets_def engine_wf_def heap_size_def)
qed

lemma safe_get_heap [safe_intros]: "safe n (get_heap f) any_value"
  unfolding get_heap_def by (rule safe_intros)+

lemma heap_value_nth: "heap_value n h \<Longrightarrow> safe n (lft (py_nth i (h_list h r))) item_wf"
proof -
  assume h: "heap_value n h"
  have "item_wf n x" if "py_nth i (h_list h r) = Inr x" for x
  proof -
    from that have "x \<in> set (h_list h r)" by (auto simp: py_nth_def ebind_Inr_iff dest: py_index_lt)
    then have "item_wf (h_next h) x" using h heap_wf_listD [of h r] by (auto simp: heap_value_def list_all_iff)
    with h show ?thesis by (auto simp: heap_value_def elim: item_wf_mono)
  qed
  then show ?thesis by (auto simp: safe_def lft_def split: sum.splits intro: item_wf_mono)
qed

lemma dict_get_item: "dict_get k d = Inr (Some v) \<Longrightarrow> \<exists>k'. (k', v) \<in> set d"
  by (induction d) (auto simp: hash_eq_iff split: if_splits)

definition opt_item_wf :: "nat \<Rightarrow> stack_item option \<Rightarrow> bool" where
  "opt_item_wf n v \<longleftrightarrow> (\<forall>x. v = Some x \<longrightarrow> item_wf n x)"

lemma safe_TryGetValue: "safe n (get_heap (\<lambda>h. Map_TryGetValue h r k)) opt_item_wf"
proof -
  have "item_wf (h_next h) v" if "heap_wf h" "dict_get k (h_dict h r) = Inr (Some v)" for h v
    using heap_wf_dictD [OF that(1), of r] dict_get_item [OF that(2)] by (auto simp: list_all_iff)
  then show ?thesis
    by (auto simp: safe_def get_heap_def monad_defs Map_TryGetValue_def engine_wf_def heap_size_def opt_item_wf_def
        split: sum.splits)
qed

lemma safe_collection_ops [safe_intros]:
  "safe n (op_ARRAYSIZE env c i) any_value"
  "safe n (op_PACK c i) any_value"
  "safe n (op_SETITEM env c i) any_value"
  "safe n (op_NEWARRAY env c i) any_value"
  "safe n (op_NEWMAP env c i) any_value"
  "safe n (op_APPEND env c i) any_value"
  "safe n (op_REVERSE env c i) any_value"
  "safe n (op_REMOVE env c i) any_value"
  "safe n (op_HASKEY env c i) any_value"
  unfolding op_ARRAYSIZE_def op_PACK_def op_SETITEM_def op_NEWARRAY_def op_NEWMAP_def op_APPEND_def
    op_REVERSE_def op_REMOVE_def op_HASKEY_def
  by (rule safe_intros safe_new_list safe_new_dict
      | (erule item_wf_mono list_item_wf_mono, arith)
      | (drule list_ref_less map_ref_less, assumption, arith)
      | (auto simp: ref_value_def dest: list_ref_less split: option.splits if_splits; fail)
      | simp)+

lemma safe_Push_all [safe_intros]: "list_all (item_wf n) xs \<Longrightarrow> safe n (mapm (Push k) xs) any_value"
  by (rule safe_mapm) (auto simp: list_all_iff intro!: safe_Push elim: item_wf_mono)

lemma safe_op_UNPACK [safe_intros]: "safe n (op_UNPACK env c i) any_value"
  unfolding op_UNPACK_def
  by (rule safe_gets_list safe_intros
      | (drule list_ref_less, assumption, arith)
      | (erule list_item_wf_mono, arith) | simp)+

lemma safe_op_PICKITEM [safe_intros]: "safe n (op_PICKITEM env c i) any_value"
  unfolding op_PICKITEM_def
  by (rule safe_gets_heap safe_TryGetValue heap_value_nth safe_intros | assumption
      | (simp add: opt_item_wf_def; fail))+

lemma safe_op_KEYS [safe_intros]: "safe n (op_KEYS env c i) any_value"
proof -
  have keys: "list_all (item_wf n) (Map_Keys h r)" if "heap_value n h" for n h r
    using that heap_wf_dictD [of h r]
    by (fastforce simp: heap_value_def Map_Keys_def list_all_iff intro: item_wf_mono)
  show ?thesis
    unfolding op_KEYS_def
    by (rule safe_gets_heap safe_new_list safe_intros keys | assumption | (simp add: ref_value_def; fail))+
qed

lemma safe_op_VALUES [safe_intros]: "safe n (op_VALUES env c i) any_value"
proof -
  have add: "safe k (bnd (clone_struct env x) (\<lambda>x. on_heap (\<lambda>h. Inr ((), Array_Add q x h)))) any_value"
    if "item_wf m x" "ref_value m q" "m \<le> k" for k m x q
    using that by (auto simp: ref_value_def elim: item_wf_mono intro!: safe_bnd safe_clone_struct safe_Add)
  have adds: "safe k (mapm (\<lambda>x. bnd (clone_struct env x) (\<lambda>x. on_heap (\<lambda>h. Inr ((), Array_Add q x h)))) xs) any_value"
    if "list_all (item_wf m) xs" "m \<le> k" "ref_value k q" for k m xs q
    by (rule safe_mapm)
       (use that in \<open>auto intro!: add [where m = k] simp: list_all_iff elim: item_wf_mono\<close>)
  show ?thesis
    unfolding op_VALUES_def
    by (rule safe_gets_values safe_new_list adds safe_intros | assumption | (simp add: ref_value_def; fail))+
qed

section \<open>From a known state\<close>

text \<open>The triple at one state, for branches that rely on what they have read there.\<close>

definition safe_at :: "'z engine_scheme \<Rightarrow> ('z engine_scheme, 'a) m \<Rightarrow> bool" where
  "safe_at s m \<longleftrightarrow> engine_wf (snd (m s)) \<and> heap_size s \<le> heap_size (snd (m s))"

lemma safe_at_safe: "engine_wf s \<Longrightarrow> safe (heap_size s) m A \<Longrightarrow> safe_at s m"
  by (simp add: safe_at_def safe_def)

lemma safe_at_if: "safe_at s m \<Longrightarrow> safe_at s m' \<Longrightarrow> safe_at s (if b then m else m')"
  by simp

lemma safe_at_cond: "(b \<Longrightarrow> safe_at s m) \<Longrightarrow> (\<not> b \<Longrightarrow> safe_at s m') \<Longrightarrow> safe_at s (if b then m else m')"
  by simp

lemma safe_at_gets: "safe_at s (f (g s)) \<Longrightarrow> safe_at s (bnd (gets g) f)"
  by (simp add: safe_at_def bnd_def gets_def)

lemma safe_at_Count: "safe_at s (f (ras_Count (get_stack k s))) \<Longrightarrow> safe_at s (bnd (Count k) f)"
  by (simp add: Count_def safe_at_gets)

lemma safe_at_lft: "engine_wf s \<Longrightarrow> (\<And>a. r = Inr a \<Longrightarrow> safe_at s (f a)) \<Longrightarrow> safe_at s (bnd (lft r) f)"
  by (auto simp: safe_at_def bnd_def lft_def split: sum.splits)

lemma safe_at_lookup:
  assumes "lookup_only m" "engine_wf s"
    "\<And>a s'. engine_wf s' \<Longrightarrow> heap_size s' = heap_size s \<Longrightarrow> next_context s' = next_context s \<Longrightarrow>
       (\<And>k. get_stack k s' = get_stack k s) \<Longrightarrow> safe_at s' (f a)"
  shows "safe_at s (bnd m f)"
proof -
  obtain r s' where m: "m s = (r, s')" by (cases "m s")
  have s': "engine_wf s'" "heap_size s' = heap_size s" "next_context s' = next_context s"
    "\<And>k. get_stack k s' = get_stack k s"
    using lookup_only_wf [OF assms(1,2)] lookup_only_fields(4) [OF assms(1), of s] by (simp_all add: m)
  with assms(3) [OF s'] show ?thesis
    by (cases r) (auto simp: safe_at_def bnd_def m)
qed

lemma safe_at_CurrentContext:
  "engine_wf s \<Longrightarrow> (\<And>c. ras_Peek 0 (InvocationStack s) = Inr c \<Longrightarrow> safe_at s (f c)) \<Longrightarrow> safe_at s (bnd CurrentContext f)"
  by (auto simp: safe_at_def bnd_def CurrentContext_def lft_def gets_def split: sum.splits)

lemma safe_at_sq:
  assumes "safe_at s m" "\<And>k. safe k m' any_value"
  shows "safe_at s (sq m m')"
  using assms(1) safeD [OF assms(2) _ order_refl]
  by (auto simp: safe_at_def sq_def bnd_def split: prod.splits res.splits intro: le_trans)

lemma safe_at_CopyTo:
  "engine_wf s \<Longrightarrow> j = - 1 \<or> 0 \<le> j \<and> j \<le> ras_Count (get_stack k s) \<Longrightarrow> safe_at s (CopyTo k l j)"
  by (auto simp: safe_at_def CopyTo_def modify_def intro!: engine_wf_put_stack stack_wf_CopyTo engine_wf_get_stack)

lemma safe_at_ret [simp]: "engine_wf s \<Longrightarrow> safe_at s (ret a)"
  by (simp add: safe_at_def ret_def)

lemma safe_at_VM_FAULT: "engine_wf s \<Longrightarrow> safe_at s VM_FAULT_and_report"
  by (simp add: safe_at_safe safe_VM_FAULT_and_report)

lemma safeI_at: "(\<And>s. engine_wf s \<Longrightarrow> n \<le> heap_size s \<Longrightarrow> safe_at s m) \<Longrightarrow> safe n m any_value"
  by (auto simp: safe_def safe_at_def intro: le_trans)

lemma safe_op_RET [safe_intros]: "safe n (op_RET env c i) any_value"
proof -
  let ?finish = "\<lambda>p rv. sq (bnd (gets InvocationStack) (\<lambda>t. if rv = - 1 \<and> ras_Count t > 0
         then bnd CurrentContext (\<lambda>q. CopyTo (AStack p) (AStack q) (- 1)) else ret ()))
    (sq (check_stack env False 0)
    (sq (bnd (gets InvocationStack) (\<lambda>t. whenm (ras_Count t = 0) (modify (\<lambda>s. s\<lparr>VMState := VM_HALT\<rparr>))))
    (fin True)))"
  have fin: "safe k (?finish p rv) any_value" for k p and rv :: int
    by (rule safe_intros safe_modify | simp)+
  have copy: "safe_at s (if rv > 0 then if ras_Count (get_stack (EStack p) s) < rv then VM_FAULT_and_report
       else bnd (gets InvocationStack) (\<lambda>t. if ras_Count t = 0 then CopyTo (EStack p) RStack rv
            else bnd CurrentContext (\<lambda>q. CopyTo (EStack p) (EStack q) rv)) else ret ())"
    if "engine_wf s" for s :: "'a engine_scheme" and p and rv :: int
    using that by (auto intro!: safe_at_VM_FAULT safe_at_gets safe_at_CopyTo safe_at_CurrentContext)
  show ?thesis
    unfolding op_RET_def Let_def
    by (rule safe_bnd [OF safe_remove_context], rule safeI_at)
       (intro safe_at_gets safe_at_Count safe_at_sq copy fin)
qed

section \<open>Calls with a parameter count\<close>

lemma Current_exists:
  "engine_wf s \<Longrightarrow> ras_Peek 0 (InvocationStack s) = Inr c \<Longrightarrow> c < next_context s"
  using ras_Peek_in [of 0 "InvocationStack s" c] by (auto simp: engine_wf_def invocation_wf_def list_all_iff)

text \<open>The new context's stacks are empty and those of the others are untouched.\<close>

lemma safe_at_load:
  assumes "engine_wf s" "c < next_context s"
    "\<And>d s'. engine_wf s' \<Longrightarrow> get_stack (EStack c) s' = get_stack (EStack c) s \<Longrightarrow>
       heap_size s' = heap_size s \<Longrightarrow> safe_at s' (f d)"
  shows "safe_at s (bnd (LoadScriptInternal scr rv) f)"
proof -
  obtain r s' where l: "LoadScriptInternal scr rv s = (r, s')" by (cases "LoadScriptInternal scr rv s")
  note wf = LoadScriptInternal_wf [OF assms(1) l]
  show ?thesis
  proof (cases r)
    case (Val d)
    with wf assms(2) have "get_stack (EStack c) s' = get_stack (EStack c) s" by simp
    with assms(3) [of s' d] wf Val show ?thesis by (simp add: safe_at_def bnd_def l)
  qed (use wf in \<open>auto simp: safe_at_def bnd_def l\<close>)
qed

lemma safe_at_set_ip:
  assumes "engine_wf s" "\<And>s'. engine_wf s' \<Longrightarrow> get_stack (EStack c) s' = get_stack (EStack c) s \<Longrightarrow>
       heap_size s' = heap_size s \<Longrightarrow> safe_at s' m"
  shows "safe_at s (sq (modify (update_context d (\<lambda>y. y\<lparr>InstructionPointer := ip\<rparr>))) m)"
proof -
  let ?s' = "update_context d (\<lambda>y. y\<lparr>InstructionPointer := ip\<rparr>) s"
  have "engine_wf ?s'" using assms(1) by (simp add: engine_wf_update_context)
  moreover have "get_stack (EStack c) ?s' = get_stack (EStack c) s" by (simp add: update_context_def)
  ultimately have "safe_at ?s' m" by (intro assms(2)) simp_all
  then show ?thesis by (simp add: safe_at_def sq_def bnd_def modify_def)
qed

lemma uint_count: "uint (b :: byte) = - 1 \<or> 0 \<le> uint b"
  by simp

lemma safe_at_op_CALL_I:
  assumes "engine_wf s" "c < next_context s"
  shows "safe_at s (op_CALL_I c i)"
proof -
  have pops: "safe k (bnd (repeatm j (Pop (EStack c))) (\<lambda>_. ret ())) any_value" for k j
    by (rule safe_intros)+
  have go: "safe_at s (if b then fin False
         else sq (CopyTo (EStack c) (EStack d) (uint p)) (bnd (repeatm j (Pop (EStack c))) (\<lambda>_. ret ())))"
    if "engine_wf s" "\<not> ras_Count (get_stack (EStack c) s) < uint p"
    for b d j and s :: "'a engine_scheme" and p :: byte
    using that by (auto intro!: safe_at_sq safe_at_CopyTo pops safe_at_safe [OF _ safe_fin])
  show ?thesis
    unfolding op_CALL_I_def CheckMaxInvocationStack_def Let_def
    by (intro safe_at_gets)
       (auto intro!: safe_at_gets safe_at_Count safe_at_lft safe_at_VM_FAULT assms(1)
             safe_at_load [OF assms] safe_at_set_ip [where c = c] go split: if_splits)
qed

lemma safe_at_op_CALL_E:
  assumes s: "engine_wf s" "c < next_context s" and op: "ins_OpCode i \<notin> {OP_CALL_ED, OP_CALL_EDT}"
    and tb: "table_looks_up env"
  shows "safe_at s (op_CALL_E env c i)"
proof -
  have tail: "safe k (if b then bnd (remove_context 1) (\<lambda>_. ret ())
      else bnd (repeatm j (Pop (EStack c))) (\<lambda>_. ret ())) any_value" for k j b
    by (rule safe_intros)+
  have load: "safe_at s (bnd (LoadScriptByHash env h rv) (\<lambda>context_new.
        case context_new of None \<Rightarrow> VM_FAULT_and_report
        | Some d \<Rightarrow> sq (CopyTo (EStack c) (EStack d) (uint p))
           (if b then bnd (remove_context 1) (\<lambda>_. ret ())
            else bnd (repeatm j (Pop (EStack c))) (\<lambda>_. ret ()))))"
    if "\<not> ras_Count (get_stack (EStack c) s) < uint p" for h rv b j and p :: byte
  proof -
    have copy: "safe_at s' (sq (CopyTo (EStack c) (EStack d) (uint p))
           (if b then bnd (remove_context 1) (\<lambda>_. ret ())
            else bnd (repeatm j (Pop (EStack c))) (\<lambda>_. ret ())))"
      if "engine_wf s'" "get_stack (EStack c) s' = get_stack (EStack c) s" for d and s' :: "'a engine_scheme"
      by (rule safe_at_sq [OF safe_at_CopyTo tail])
         (use that \<open>\<not> ras_Count (get_stack (EStack c) s) < uint p\<close> in auto)
    have bind: "bnd (bnd (LoadScriptInternal scr rv) (\<lambda>d. ret (Some d))) f =
        bnd (LoadScriptInternal scr rv) (\<lambda>d. f (Some d))" for scr and f :: "nat option \<Rightarrow> ('a engine_scheme, unit) m"
      by (auto simp: fun_eq_iff bnd_def ret_def split: res.splits prod.splits)
    have assoc: "bnd (bnd (lft r) g) f = bnd (lft r) (\<lambda>a. bnd (g a) f)"
      for r :: "pyexc + 'x" and g :: "'x \<Rightarrow> ('a engine_scheme, 'y) m" and f :: "'y \<Rightarrow> ('a engine_scheme, unit) m"
      by (auto simp: fun_eq_iff bnd_def lft_def split: sum.splits)
    have none: "bnd (ret None) f = f None" for f :: "nat option \<Rightarrow> ('a engine_scheme, unit) m"
      by (simp add: fun_eq_iff bnd_def ret_def)
    have look: "safe_at s (bnd (bnd (table h) (\<lambda>scr. case scr of None \<Rightarrow> ret None
            | Some v \<Rightarrow> bnd (LoadScriptInternal (Script_FromHash h' v) rv) (\<lambda>c. ret (Some c)))) F)"
      if tab: "GetScript env = Some table"
        and F: "\<And>s'. engine_wf s' \<Longrightarrow> safe_at s' (F None)"
          "\<And>d s'. engine_wf s' \<Longrightarrow> get_stack (EStack c) s' = get_stack (EStack c) s \<Longrightarrow> safe_at s' (F (Some d))"
      for table h h' and F :: "nat option \<Rightarrow> ('a engine_scheme, unit) m"
      unfolding run_assoc
    proof (rule safe_at_lookup)
      show "lookup_only (table h)" using tb tab by (simp add: table_looks_up_def)
      fix x and s' :: "'a engine_scheme"
      assume s': "engine_wf s'" "next_context s' = next_context s" "\<And>k. get_stack k s' = get_stack k s"
      then show "safe_at s' (bnd (case x of None \<Rightarrow> ret None
            | Some v \<Rightarrow> bnd (LoadScriptInternal (Script_FromHash h' v) rv) (\<lambda>c. ret (Some c))) F)"
        using s(2) by (cases x) (auto simp: bind none intro!: F safe_at_load [of _ c])
    qed (rule s)
    show ?thesis
      unfolding LoadScriptByHash_def
      by (cases "GetScript env")
         (auto simp: assoc none s(1) simp del: get_stack.simps
           intro!: safe_at_VM_FAULT safe_at_lft look copy split: option.splits split del: if_split)
  qed
  have assoc: "bnd (if b then ret x else CheckMaxInvocationStack) f =
      bnd (gets (\<lambda>s. if b then x else ras_Count (InvocationStack s) < maxInvocationStackSize)) f"
    for b x and f :: "bool \<Rightarrow> ('a engine_scheme, unit) m"
    by (simp add: CheckMaxInvocationStack_def fun_eq_iff bnd_def ret_def gets_def)
  have nd: "(ins_OpCode i \<in> {OP_CALL_ED, OP_CALL_EDT}) = False" using op by simp
  show ?thesis
    unfolding op_CALL_E_def Let_def assoc nd if_False
    by (rule safe_at_cond safe_at_gets safe_at_Count safe_at_lft safe_at_VM_FAULT s(1) load | assumption)+
qed

section \<open>The instruction\<close>

definition services_safe :: "'z engine_scheme env \<Rightarrow> bool" where
  "services_safe env \<longleftrightarrow>
     (\<forall>dict h f. service env = Some dict \<longrightarrow> dict h = Some f \<longrightarrow> (\<forall>n. safe n f any_value)) \<and>
     table_looks_up env"

lemma safe_op_APPCALL:
  assumes "services_safe env"
  shows "safe n (op_APPCALL env c i) any_value"
  using assms unfolding op_APPCALL_def check_stack_def services_safe_def
  by (auto intro!: safe_intros safe_LoadScriptByHash)

lemma safe_op_SYSCALL:
  assumes "services_safe env"
  shows "safe n (op_SYSCALL env c i) any_value"
proof -
  have inv: "safe k (Invoke p dict m) any_value" if "service env = Some dict" for k p dict m
    using that assms by (auto simp: Invoke_def Let_def services_safe_def intro: safe_ret split: option.splits)
  show ?thesis
    unfolding op_SYSCALL_def by (rule inv safe_intros | assumption)+
qed

lemma safe_at_dispatch:
  assumes "engine_wf s" "c < next_context s" "services_safe env"
    "ins_OpCode i \<notin> {OP_CALL_ED, OP_CALL_EDT}"
  shows "safe_at s (dispatch env c i)"
proof -
  have tb: "table_looks_up env" using assms(3) by (simp add: services_safe_def)
  show ?thesis
    unfolding dispatch_def Let_def
    by (rule safe_at_if safe_at_op_CALL_I [OF assms(1,2)] safe_at_op_CALL_E [OF assms(1,2,4) tb]
        safe_at_safe [OF assms(1)] safe_intros safe_op_SYSCALL [OF assms(3)] safe_op_APPCALL [OF assms(3)])+
qed

lemma safe_at_bnd_step:
  assumes "safe_at s m" "\<And>a k. safe k (f a) any_value"
  shows "safe_at s (bnd m f)"
  using assms(1) safeD [OF assms(2) _ order_refl]
  by (auto simp: safe_at_def bnd_def split: prod.splits res.splits intro: le_trans)

lemma safe_at_catch_ret: "safe_at s m \<Longrightarrow> safe_at s (catch_ret m)"
  by (auto simp: safe_at_def catch_ret_def split: prod.splits res.splits)

text \<open>The current instruction is a dynamic call with stack isolation.\<close>

definition dynamic_isolated :: "'z engine_scheme \<Rightarrow> bool" where
  "dynamic_isolated s \<longleftrightarrow>
     (case ras_Peek 0 (InvocationStack s) of
        Inl _ \<Rightarrow> False
      | Inr c \<Rightarrow>
          (case CurrentInstruction (contexts s c) of
             Inl _ \<Rightarrow> False
           | Inr i \<Rightarrow> ins_OpCode i \<in> {OP_CALL_ED, OP_CALL_EDT}))"

lemma safe_at_ExecuteInstruction:
  assumes "engine_wf s" "services_safe env" "\<not> dynamic_isolated s"
  shows "safe_at s (ExecuteInstruction env)"
proof -
  have go_on: "safe k (sq (MoveNext c) (ret True)) any_value" for k c
    by (rule safe_intros)+
  show ?thesis
    unfolding ExecuteInstruction_def
  proof (rule safe_at_catch_ret, rule safe_at_CurrentContext [OF assms(1)], rule safe_at_gets,
      rule safe_at_lft [OF assms(1)], rule safe_at_sq)
    fix c i assume c: "ras_Peek 0 (InvocationStack s) = Inr c" "CurrentInstruction (contexts s c) = Inr i"
    show "safe_at s (dispatch env c i)"
      by (rule safe_at_dispatch)
         (use assms c Current_exists in \<open>auto simp: dynamic_isolated_def\<close>)
  qed (rule go_on)
qed

text \<open>A hook may change neither the invocation stack nor the contexts.\<close>

definition hook_ok :: "('z engine_scheme, bool) m \<Rightarrow> bool" where
  "hook_ok hook \<longleftrightarrow> (\<forall>n. safe n hook any_value) \<and>
     (\<forall>s. InvocationStack (snd (hook s)) = InvocationStack s \<and> contexts (snd (hook s)) = contexts s)"

lemma hook_ok_base: "hook_ok PreExecuteInstruction" "hook_ok PostExecuteInstruction"
  by (simp_all add: hook_ok_def PreExecuteInstruction_def PostExecuteInstruction_def safe_ret)
     (simp_all add: ret_def)

lemma dynamic_isolated_cong:
  assumes "InvocationStack s = InvocationStack t" "contexts s = contexts t"
  shows "dynamic_isolated s = dynamic_isolated t"
  unfolding dynamic_isolated_def assms ..

lemma snd_or_fault: "\<exists>st. snd (or_fault hook s) = (snd (hook s))\<lparr>VMState := st\<rparr>"
proof -
  obtain r s' where h: "hook s = (r, s')" by (cases "hook s")
  have keep: "\<exists>st. s' = s'\<lparr>VMState := st\<rparr>" by (rule exI [of _ "VMState s'"]) simp
  show ?thesis
    using keep by (cases r) (auto simp: h or_fault_def monad_defs set_fault_def)
qed

lemma safe_at_sq_then:
  assumes "safe_at s m" "\<And>s' a. m s = (Val a, s') \<Longrightarrow> engine_wf s' \<Longrightarrow> safe_at s' m'"
  shows "safe_at s (sq m m')"
proof -
  obtain r s' where m: "m s = (r, s')" by (cases "m s")
  show ?thesis
    using assms by (cases r) (fastforce simp: m safe_at_def sq_def bnd_def)+
qed

lemma safe_or_fault: "safe n hook any_value \<Longrightarrow> safe n (or_fault hook) any_value"
  unfolding or_fault_def by (rule safe_intros | assumption)+

lemma safe_at_or_fault: "safe_at s hook \<Longrightarrow> safe_at s (or_fault hook)"
  using snd_or_fault [of hook s] by (auto simp: safe_at_def)

lemma safe_at_step_body:
  assumes "engine_wf s" "services_safe env" "\<not> dynamic_isolated s" "hook_ok pre" "hook_ok post"
  shows "safe_at s (step_body env pre post)"
proof -
  have pre: "safe_at s (or_fault pre)"
    using assms(1,4) by (auto simp: hook_ok_def intro!: safe_at_or_fault safe_at_safe)
  have post: "safe k (or_fault post) any_value" for k
    using assms(5) by (auto simp: hook_ok_def intro!: safe_or_fault)
  have rest: "safe_at s' (sq (or_fault (ExecuteInstruction env)) (or_fault post))"
    if "or_fault pre s = (Val a, s')" "engine_wf s'" for s' a
  proof -
    obtain st where st: "snd (or_fault pre s) = (snd (pre s))\<lparr>VMState := st\<rparr>"
      using snd_or_fault by blast
    have "snd (or_fault pre s) = s'" using that(1) by simp
    with st have "InvocationStack s' = InvocationStack s" "contexts s' = contexts s"
      using assms(4) by (simp_all add: hook_ok_def)
    then have "\<not> dynamic_isolated s'" using assms(3) dynamic_isolated_cong by metis
    with that(2) assms(2) show ?thesis
      by (intro safe_at_sq safe_at_or_fault safe_at_ExecuteInstruction post)
  qed
  show ?thesis
    unfolding step_body_def
    by (rule safe_at_CurrentContext [OF assms(1)], rule safe_at_gets, rule safe_at_lft [OF assms(1)],
        rule safe_at_sq_then [OF pre]) (rule rest)
qed

lemma ExecuteNext_wf:
  assumes "engine_wf s" "services_safe env" "\<not> dynamic_isolated s" "hook_ok pre" "hook_ok post"
  shows "engine_wf (ExecuteNext env pre post s)"
proof -
  let ?s = "s\<lparr>ops_processed := ops_processed s + 1\<rparr>"
  have "\<not> dynamic_isolated ?s" using assms(3) dynamic_isolated_cong [of ?s s] by simp
  with assms have "safe_at ?s (step_body env pre post)" by (intro safe_at_step_body) simp_all
  then have "engine_wf (snd (step_body env pre post ?s))" by (simp add: safe_at_def)
  with assms(1) show ?thesis
    by (auto simp: ExecuteNext_def split: prod.splits res.splits)
qed

section \<open>The services of the engine\<close>

lemma safe_GetScriptContainer: "safe n (GetScriptContainer env) any_value"
proof -
  have new: "safe n (\<lambda>s. let (x, h) = FromInterface ob (items_heap s) in (Val x, s\<lparr>items_heap := h\<rparr>)) item_wf" for n ob
    by (rule safe_heap) (auto simp: FromInterface_def heap_ext_def split: prod.splits dest: alloc_id_wf [rotated])
  show ?thesis
    unfolding GetScriptContainer_def by (rule safe_intros new | assumption)+
qed

lemma services_safe_InteropService: "table_looks_up env \<Longrightarrow> services_safe (env\<lparr>service := Some (InteropService env)\<rparr>)"
proof -
  assume tb: "table_looks_up env"
  have hash: "safe n (bnd (gets (\<lambda>s. s_hash (Script (contexts s d)))) (\<lambda>h. sq (PushT k (PyBytes h)) (ret True))) any_value"
    for n d k by (rule safe_intros | simp)+
  have "safe n GetExecutingScriptHash any_value" for n
    unfolding GetExecutingScriptHash_def by (rule safe_intros hash)+
  moreover have "safe n GetCallingScriptHash any_value" for n
    unfolding GetCallingScriptHash_def by (rule safe_intros hash)+
  moreover have "safe n GetEntryScriptHash any_value" for n
    unfolding GetEntryScriptHash_def by (rule safe_intros hash)+
  ultimately show ?thesis
    using safe_GetScriptContainer tb
    by (auto simp: services_safe_def InteropService_def Register_def Let_def split: if_splits)
qed

section \<open>Reachable states\<close>

text \<open>
  A run of the engine from a loaded script, step by step while it is running. The step relation
  leaves out the dynamic calls with stack isolation.
\<close>

inductive vm_reachable ::
  "'z engine_scheme env \<Rightarrow> ('z engine_scheme, bool) m \<Rightarrow> ('z engine_scheme, bool) m \<Rightarrow>
   'z engine_scheme \<Rightarrow> 'z engine_scheme \<Rightarrow> bool"
  for env pre post s0 where
  start: "vm_reachable env pre post s0 s0"
| step: "vm_reachable env pre post s0 s \<Longrightarrow> running s \<Longrightarrow> \<not> dynamic_isolated s \<Longrightarrow>
    vm_reachable env pre post s0 (ExecuteNext env pre post s)"

inductive_cases vm_reachableE: "vm_reachable env pre post s0 s"

lemma vm_reachable_wf:
  assumes "vm_reachable env pre post s0 s" "engine_wf s0" "services_safe env" "hook_ok pre" "hook_ok post"
  shows "engine_wf s"
  using assms by (induction rule: vm_reachable.induct) (auto intro: ExecuteNext_wf)

lemma engine_wf_initial: "engine_wf ExecutionEngine"
  by (simp add: engine_wf_def ExecutionEngine_def heap_wf_empty invocation_wf_def contexts_wf_def
      ExecutionContext_def stack_wf_empty ras_empty_def ras_wf_def stack_wf_def)

lemma engine_wf_LoadScript: "engine_wf s \<Longrightarrow> engine_wf (snd (LoadScript env scr rv s))"
  using LoadScriptInternal_wf [of s "Script_new (Hash160 (primitives_of env)) scr" rv]
  by (cases "LoadScriptInternal (Script_new (Hash160 (primitives_of env)) scr) rv s") (auto simp: LoadScript_def)

end
