(* ===== verification/Engine_Frame.thy ===== *)
theory Engine_Frame
  imports Execution_Engine
begin

text \<open>
  What the base engine promises to its subclasses and tools: an instruction changes the state only
  through the fields of the engine listed in \<open>engine_frame\<close>, and sets the VM state only to FAULT
  and HALT. Any predicate that is stable under these is kept by \<open>ExecuteInstruction\<close>.
\<close>

definition keeps :: "('s \<Rightarrow> bool) \<Rightarrow> ('s, 'a) m \<Rightarrow> bool" where
  "keeps P m \<longleftrightarrow> (\<forall>s. P s \<longrightarrow> P (snd (m s)))"

named_theorems keeps_intros

lemma keepsD: "keeps P m \<Longrightarrow> P s \<Longrightarrow> m s = (r, s') \<Longrightarrow> P s'"
  by (force simp: keeps_def)

lemma keeps_bnd [keeps_intros]: "keeps P m \<Longrightarrow> (\<And>a. keeps P (f a)) \<Longrightarrow> keeps P (bnd m f)"
  unfolding keeps_def bnd_def by (auto split: prod.splits res.splits)

lemma keeps_sq [keeps_intros]: "keeps P m \<Longrightarrow> keeps P m' \<Longrightarrow> keeps P (sq m m')"
  unfolding sq_def by (rule keeps_bnd)

lemma keeps_if [keeps_intros]: "keeps P m \<Longrightarrow> keeps P m' \<Longrightarrow> keeps P (if b then m else m')"
  by simp

lemma keeps_let [keeps_intros]: "keeps P (f a) \<Longrightarrow> keeps P (Let a f)"
  by simp

lemma keeps_case_option [keeps_intros]:
  "keeps P m \<Longrightarrow> (\<And>a. x = Some a \<Longrightarrow> keeps P (f a)) \<Longrightarrow> keeps P (case x of None \<Rightarrow> m | Some a \<Rightarrow> f a)"
  by (cases x) auto

lemma keeps_case_prod [keeps_intros]: "(\<And>a b. keeps P (f a b)) \<Longrightarrow> keeps P (case p of (a, b) \<Rightarrow> f a b)"
  by (cases p) auto

lemma keeps_case_debugger [keeps_intros]:
  "keeps P m \<Longrightarrow> keeps P m' \<Longrightarrow> (\<And>b. keeps P (f b)) \<Longrightarrow>
     keeps P (case d of NoAttribute \<Rightarrow> m | NoDebugger \<Rightarrow> m' | Debugger b \<Rightarrow> f b)"
  by (cases d) auto

lemma keeps_basic [keeps_intros]:
  "keeps P (ret a)" "keeps P (fin b)" "keeps P (throw e)" "keeps P (lft r)" "keeps P (gets g)"
  by (auto simp: keeps_def monad_defs split: sum.splits)

lemma keeps_modify: "(\<And>s. P s \<Longrightarrow> P (u s)) \<Longrightarrow> keeps P (modify u)"
  by (simp add: keeps_def modify_def)

lemma keeps_whenm [keeps_intros]: "keeps P m \<Longrightarrow> keeps P (whenm b m)"
  by (simp add: whenm_def keeps_basic)

lemma keeps_catch_ret [keeps_intros]: "keeps P m \<Longrightarrow> keeps P (catch_ret m)"
  by (auto simp: catch_ret_def keeps_def split: prod.splits res.splits)

lemma keeps_repeatm [keeps_intros]: "keeps P m \<Longrightarrow> keeps P (repeatm n m)"
  by (induction n) (auto intro!: keeps_intros)

lemma keeps_mapm [keeps_intros]: "(\<And>x. keeps P (f x)) \<Longrightarrow> keeps P (mapm f xs)"
  by (induction xs) (auto intro!: keeps_intros)

text \<open>
  The host's part: its services keep the predicate, and so does the table of scripts, which may be a
  cache.
\<close>

definition host_keeps :: "('s \<Rightarrow> bool) \<Rightarrow> 's env \<Rightarrow> bool" where
  "host_keeps P env \<longleftrightarrow>
     (\<forall>dict h f. service env = Some dict \<longrightarrow> dict h = Some f \<longrightarrow> keeps P f) \<and>
     (\<forall>table h. GetScript env = Some table \<longrightarrow> keeps P (table h))"

lemma lookup_only_keeps:
  assumes "lookup_only m" "\<And>s t. engine.truncate s = engine.truncate t \<Longrightarrow> P s = P t"
  shows "keeps P m"
  using assms unfolding keeps_def lookup_only_def by blast

section \<open>The fields of the base engine\<close>

locale item_frame =
  fixes P :: "'z engine_scheme \<Rightarrow> bool"
  assumes P_contexts: "P s \<Longrightarrow> P (s\<lparr>contexts := f\<rparr>)"
    and P_result: "P s \<Longrightarrow> P (s\<lparr>ResultStack := r\<rparr>)"
    and P_strict: "P s \<Longrightarrow> P (s\<lparr>is_stackitem_count_strict := b\<rparr>)"
    and P_count: "P s \<Longrightarrow> P (s\<lparr>stackitem_count := n\<rparr>)"
    and P_heap: "P s \<Longrightarrow> P (s\<lparr>items_heap := h\<rparr>)"
    and P_fault: "P s \<Longrightarrow> P (s\<lparr>VMState := VM_FAULT\<rparr>)"
    and P_halt: "P s \<Longrightarrow> P (s\<lparr>VMState := VM_HALT\<rparr>)"
begin

lemma keeps_put_stack: "P s \<Longrightarrow> P (put_stack k t s)"
  by (cases k) (auto simp: update_context_def P_contexts P_result)

lemma keeps_primitives:
  "keeps P (Pop k)" "keeps P (Remove k n)" "keeps P (Peek k n)" "keeps P (Push k x)"
  "keeps P (Insert k n x)" "keeps P (SetAt k n x)" "keeps P (Count k)" "keeps P (CopyTo k l n)"
  "keeps P (Clear k)" "keeps P CurrentContext" "keeps P CallingContext" "keeps P EntryContext"
  "keeps P VM_FAULT_and_report" "keeps P set_fault"
  "keeps P CheckMaxInvocationStack" "keeps P (modify (update_context c f))"
  unfolding Pop_def Remove_def Peek_def Push_def Insert_def SetAt_def Count_def CopyTo_def Clear_def
    CurrentContext_def CallingContext_def EntryContext_def VM_FAULT_and_report_def
    set_fault_def CheckMaxInvocationStack_def update_context_def
  by (rule keeps_intros | (rule keeps_modify, erule keeps_put_stack P_fault P_contexts))+

lemma keeps_on_heap: "keeps P (on_heap f)"
  by (auto simp: keeps_def on_heap_def P_heap split: sum.splits)

lemma keeps_heap: "keeps P (\<lambda>s. let (x, h) = f (items_heap s) in (Val x, s\<lparr>items_heap := h\<rparr>))"
  by (auto simp: keeps_def P_heap split: prod.splits)

lemma keeps_new_item: "keeps P (new_item v)"
  using keeps_heap [of "StackItem_New v"] by (simp add: new_item_def [abs_def])

lemma keeps_derived:
  "keeps P (PushT k v)" "keeps P (PopInt k)" "keeps P (PopBytes k)" "keeps P (PopBool k)"
  "keeps P (get_heap g)" "keeps P (new_list xs)" "keeps P (jump_to c ip)" "keeps P (MoveNext c)"
  unfolding PushT_def PopInt_def PopBytes_def PopBool_def get_heap_def new_list_def jump_to_def MoveNext_def
  by (rule keeps_intros keeps_primitives keeps_on_heap keeps_new_item)+

lemma keeps_CheckStackSize: "keeps P (CheckStackSize env b n)"
  unfolding CheckStackSize_def
  by (rule keeps_intros | (rule keeps_modify, simp add: P_strict P_count; fail))+

lemma keeps_clone_struct: "keeps P (clone_struct env x)"
  by (cases x) (auto simp: clone_struct_def keeps_on_heap intro: keeps_intros)

lemmas keeps_prims0 = keeps_intros keeps_primitives keeps_on_heap keeps_new_item keeps_derived
  keeps_CheckStackSize keeps_clone_struct

end

locale engine_frame = item_frame +
  assumes P_load: "P s \<Longrightarrow> P (s\<lparr>contexts := (contexts s)(next_context s := x), next_context := Suc (next_context s),
      InvocationStack := ras_PushT (next_context s) (InvocationStack s), ExecutedScriptHashes := hs\<rparr>)"
    and P_remove: "P s \<Longrightarrow> ras_Remove n (InvocationStack s) = Inr (c, t) \<Longrightarrow> P (s\<lparr>InvocationStack := t\<rparr>)"
    and P_debugger: "P s \<Longrightarrow> P (s\<lparr>debugger := d\<rparr>)"
begin

lemma keeps_remove_context: "keeps P (remove_context n)"
  by (auto simp: keeps_def remove_context_def monad_defs P_remove split: sum.splits)

lemma keeps_set_breakpoints:
  "keeps P (modify (\<lambda>s. s\<lparr>debugger := d\<rparr>))"
  by (rule keeps_modify) (rule P_debugger)

lemma keeps_Load: "keeps P (LoadScriptInternal scr rv)"
proof -
  have new: "keeps P (bnd (gets next_context) (\<lambda>d. sq (modify (\<lambda>s. s\<lparr>contexts := (contexts s)(d := ExecutionContext scr rv),
      next_context := Suc d, InvocationStack := ras_PushT d (InvocationStack s),
      ExecutedScriptHashes := ExecutedScriptHashes s @ [s_hash scr]\<rparr>)) (m d)))"
    if "\<And>d. keeps P (m d)" for m :: "nat \<Rightarrow> ('a engine_scheme, nat) m"
    using that unfolding keeps_def by (auto simp: monad_defs dest: P_load)
  show ?thesis
    unfolding LoadScriptInternal_def
    by (rule new, (rule keeps_prims0 keeps_set_breakpoints)+)
qed

lemma keeps_LoadByHash: "host_keeps P env \<Longrightarrow> keeps P (LoadScriptByHash env h rv)"
  unfolding LoadScriptByHash_def by (rule keeps_intros keeps_Load | simp add: host_keeps_def)+

lemmas keeps_prims = keeps_prims0 keeps_remove_context keeps_Load

lemma keeps_stack_ops:
  "keeps P (op_PUSHBYTES env c i)" "keeps P (op_PUSHINT env c i)" "keeps P (op_PUSH0 env c i)"
  "keeps P (op_JMP env c i)" "keeps P (op_CALL c i)" "keeps P (op_CALL_I c i)" "keeps P (op_THROW c i)"
  "keeps P (op_THROWIFNOT env c i)" "keeps P (op_DUPFROMALTSTACK env c i)" "keeps P (op_TOALTSTACK c i)"
  "keeps P (op_FROMALTSTACK c i)" "keeps P (op_XDROP env c i)" "keeps P (op_XSWAP env c i)"
  "keeps P (op_XTUCK c i)" "keeps P (op_DEPTH env c i)" "keeps P (op_DROP env c i)"
  "keeps P (op_DUP env c i)" "keeps P (op_NIP env c i)" "keeps P (op_OVER env c i)"
  "keeps P (op_PICK c i)" "keeps P (op_ROLL env c i)" "keeps P (op_ROT c i)" "keeps P (op_SWAP c i)"
  "keeps P (op_TUCK env c i)" "keeps P (op_CAT env c i)" "keeps P (op_SUBSTR env c i)"
  "keeps P (op_LEFT env c i)" "keeps P (op_RIGHT env c i)" "keeps P (op_SIZE c i)"
  "keeps P (op_INVERT c i)" "keeps P (op_AND env c i)" "keeps P (op_OR env c i)"
  "keeps P (op_XOR env c i)" "keeps P (op_EQUAL env c i)"
  unfolding stack_op_defs by (rule keeps_prims)+

lemma keeps_script_calls:
  assumes "host_keeps P env"
  shows "keeps P (op_APPCALL env c i)" "keeps P (op_CALL_E env c i)"
  unfolding op_APPCALL_def op_CALL_E_def check_stack_def
  by (rule keeps_prims keeps_LoadByHash [OF assms])+

lemma keeps_op_RET: "keeps P (op_RET env c i)"
  unfolding op_RET_def check_stack_def
  by (rule keeps_prims | (rule keeps_modify, erule P_halt))+

lemma keeps_int_binop: "keeps P (int_binop env c f)"
  unfolding int_binop_def check_stack_def by (rule keeps_prims)+

lemma keeps_numeric_ops:
  "keeps P (op_INC c i)" "keeps P (op_DEC c i)" "keeps P (op_SIGN c i)" "keeps P (op_NEGATE c i)"
  "keeps P (op_ABS c i)" "keeps P (op_NOT env c i)" "keeps P (op_NZ c i)" "keeps P (op_ADD env c i)"
  "keeps P (op_SUB env c i)" "keeps P (op_MUL env c i)" "keeps P (op_DIV env c i)"
  "keeps P (op_MOD env c i)" "keeps P (op_SHL env c i)" "keeps P (op_SHR env c i)"
  "keeps P (op_BOOLAND env c i)" "keeps P (op_BOOLOR env c i)" "keeps P (op_NUMEQUAL env c i)"
  "keeps P (op_NUMNOTEQUAL env c i)" "keeps P (op_LT env c i)" "keeps P (op_GT env c i)"
  "keeps P (op_LTE env c i)" "keeps P (op_GTE env c i)" "keeps P (op_MIN env c i)"
  "keeps P (op_MAX env c i)" "keeps P (op_WITHIN env c i)" "keeps P (op_SHA1 env c i)"
  "keeps P (op_SHA256 env c i)" "keeps P (op_HASH160 env c i)" "keeps P (op_HASH256 env c i)"
  "keeps P (op_CHECKSIG env c i)" "keeps P (op_VERIFY env c i)" "keeps P (op_CHECKMULTISIG env c i)"
  unfolding numeric_op_defs check_stack_def by (rule keeps_prims keeps_int_binop)+

lemma keeps_collection_ops:
  "keeps P (op_ARRAYSIZE env c i)" "keeps P (op_PACK c i)" "keeps P (op_UNPACK env c i)"
  "keeps P (op_PICKITEM env c i)" "keeps P (op_SETITEM env c i)" "keeps P (op_NEWARRAY env c i)"
  "keeps P (op_NEWMAP env c i)" "keeps P (op_APPEND env c i)" "keeps P (op_REVERSE env c i)"
  "keeps P (op_REMOVE env c i)" "keeps P (op_HASKEY env c i)" "keeps P (op_KEYS env c i)"
  "keeps P (op_VALUES env c i)"
  unfolding op_ARRAYSIZE_def op_PACK_def op_UNPACK_def op_PICKITEM_def op_SETITEM_def op_NEWARRAY_def
    op_NEWMAP_def op_APPEND_def op_REVERSE_def op_REMOVE_def op_HASKEY_def op_KEYS_def op_VALUES_def
    check_stack_def check_or_fault_def
  by (rule keeps_prims)+

lemma keeps_Invoke:
  "(\<And>h f. dict h = Some f \<Longrightarrow> keeps P f) \<Longrightarrow> keeps P (Invoke p dict m)"
  by (auto simp: Invoke_def Let_def intro: keeps_intros split: option.splits)

lemma keeps_SYSCALL:
  assumes "host_keeps P env"
  shows "keeps P (op_SYSCALL env c i)"
  unfolding op_SYSCALL_def check_or_return_def
  using assms by (auto intro!: keeps_prims keeps_Invoke simp: host_keeps_def)

lemma keeps_dispatch:
  assumes "host_keeps P env"
  shows "keeps P (dispatch env c i)"
  unfolding dispatch_def
  by (rule keeps_let, (rule keeps_if keeps_basic keeps_stack_ops keeps_op_RET keeps_int_binop keeps_numeric_ops
        keeps_collection_ops keeps_SYSCALL [OF assms] keeps_script_calls [OF assms] keeps_primitives | assumption)+)

lemma keeps_ExecuteInstruction:
  assumes "host_keeps P env"
  shows "keeps P (ExecuteInstruction env)"
  unfolding ExecuteInstruction_def
  by (rule keeps_prims keeps_dispatch [OF assms] | assumption)+

text \<open>The services of the engine itself keep the frame too.\<close>

lemma keeps_InteropService: "InteropService env h = Some f \<Longrightarrow> keeps P f"
proof -
  have hash: "keeps P (bnd (gets (\<lambda>s. s_hash (Script (contexts s d)))) (\<lambda>h. sq (PushT k (PyBytes h)) (ret True)))" for d k
    by (rule keeps_prims)+
  have "keeps P (GetScriptContainer env)"
    unfolding GetScriptContainer_def by (rule keeps_heap keeps_prims)+
  moreover have "keeps P GetExecutingScriptHash" "keeps P GetCallingScriptHash" "keeps P GetEntryScriptHash"
    unfolding GetExecutingScriptHash_def GetCallingScriptHash_def GetEntryScriptHash_def
    by (rule keeps_prims hash)+
  ultimately show "InteropService env h = Some f \<Longrightarrow> keeps P f"
    by (auto simp: InteropService_def Register_def Let_def split: if_splits)
qed

end

section \<open>Frames of the base engine\<close>

lemma not_running_flags [simp]: "\<not> running (s\<lparr>VMState := VM_FAULT\<rparr>)" "\<not> running (s\<lparr>VMState := VM_HALT\<rparr>)"
  by (simp_all add: running_def VM_FAULT_def VM_HALT_def has_flag_def)

text \<open>No instruction sets a stopped engine going again, nor touches the number of steps.\<close>

interpretation stopped: engine_frame "\<lambda>s. \<not> running s"
  by unfold_locales (simp_all, simp_all add: running_def)

interpretation steps: engine_frame "\<lambda>s. ops_processed s = n" for n
  by unfold_locales simp_all

end
