(* ===== verification/Engine_Run.thy ===== *)
theory Engine_Run
  imports Engine_Safety Engine_Frame
begin

text \<open>
  Symbolic execution. \<open>run_simps\<close> rewrites a state transformer applied to a state whose stacks are
  given as \<open>mk_ras xs\<close> to its result, one primitive at a time; the functional properties of the
  instructions are proved with it.
\<close>

section \<open>Stacks\<close>

lemma get_put_stack [simp]: "get_stack k (put_stack l t s) = (if k = l then t else get_stack k s)"
  by (cases k; cases l) (auto simp: update_context_def)

lemma put_put_stack [simp]: "put_stack k t (put_stack k u s) = put_stack k t s"
  by (cases k) (auto simp: update_context_def)

lemma put_get_stack: "put_stack k (get_stack k s) s = s"
  by (cases k) (simp_all add: update_context_def)

lemma put_stack_heap: "put_stack k t s\<lparr>items_heap := h\<rparr> = put_stack k t (s\<lparr>items_heap := h\<rparr>)"
  by (cases k) (auto simp: update_context_def)

lemma put_stack_fields [simp]:
  "InvocationStack (put_stack k t s) = InvocationStack s"
  "next_context (put_stack k t s) = next_context s"
  "VMState (put_stack k t s) = VMState s"
  "stackitem_count (put_stack k t s) = stackitem_count s"
  "is_stackitem_count_strict (put_stack k t s) = is_stackitem_count_strict s"
  "items_heap (put_stack k t s) = items_heap s"
  "debug_map (put_stack k t s) = debug_map s"
  "debugger (put_stack k t s) = debugger s"
  "ops_processed (put_stack k t s) = ops_processed s"
  by (cases k, auto simp: update_context_def)+

lemma get_stack_fields [simp]:
  "get_stack k (s\<lparr>stackitem_count := n\<rparr>) = get_stack k s"
  "get_stack k (s\<lparr>is_stackitem_count_strict := b\<rparr>) = get_stack k s"
  "get_stack k (s\<lparr>items_heap := h\<rparr>) = get_stack k s"
  "get_stack k (s\<lparr>VMState := v\<rparr>) = get_stack k s"
  by (cases k, auto)+

declare get_stack.simps [simp del] put_stack.simps [simp del]

lemma run_Pop [run_simps]:
  "get_stack k s = mk_ras (x # xs) \<Longrightarrow> bnd (Pop k) f s = f x (put_stack k (mk_ras xs) s)"
  by (simp add: Pop_def run_assoc run_bnd run_sq)

lemma run_PopInt [run_simps]:
  "get_stack k s = mk_ras (x # xs) \<Longrightarrow> GetBigInteger x = Inr v \<Longrightarrow>
     bnd (PopInt k) f s = f v (put_stack k (mk_ras xs) s)"
  by (simp add: PopInt_def run_assoc run_Pop run_bnd)

lemma run_PopBytes [run_simps]:
  "get_stack k s = mk_ras (x # xs) \<Longrightarrow> GetByteArray x = Inr b \<Longrightarrow>
     bnd (PopBytes k) f s = f b (put_stack k (mk_ras xs) s)"
  by (simp add: PopBytes_def run_assoc run_Pop run_bnd)

lemma run_PopBool [run_simps]:
  "get_stack k s = mk_ras (x # xs) \<Longrightarrow> bnd (PopBool k) f s = f (GetBoolean x) (put_stack k (mk_ras xs) s)"
  by (simp add: PopBool_def run_assoc run_Pop run_bnd)

lemma run_Push [run_simps]:
  "get_stack k s = mk_ras xs \<Longrightarrow> sq (Push k x) m s = m (put_stack k (mk_ras (x # xs)) s)"
  "get_stack k s = mk_ras xs \<Longrightarrow> Push k x s = (Val (), put_stack k (mk_ras (x # xs)) s)"
  by (simp_all add: Push_def run_sq run_last)

lemma run_PushT_int [run_simps]:
  "get_stack k s = mk_ras xs \<Longrightarrow> sq (PushT k (PyInt v)) m s = m (put_stack k (mk_ras (Integer v # xs)) s)"
  "get_stack k s = mk_ras xs \<Longrightarrow> PushT k (PyInt v) s = (Val (), put_stack k (mk_ras (Integer v # xs)) s)"
  by (simp_all add: PushT_def new_item_def sq_def bnd_def Push_def run_last)

lemma run_PushT_bytes [run_simps]:
  "get_stack k s = mk_ras xs \<Longrightarrow> sq (PushT k (PyBytes b)) m s = m (put_stack k (mk_ras (ByteArray b # xs)) s)"
  "get_stack k s = mk_ras xs \<Longrightarrow> PushT k (PyBytes b) s = (Val (), put_stack k (mk_ras (ByteArray b # xs)) s)"
  by (simp_all add: PushT_def new_item_def sq_def bnd_def Push_def run_last)

text \<open>The state after a Boolean got its identity.\<close>

definition with_new_id :: "'z engine_scheme \<Rightarrow> 'z engine_scheme" where
  "with_new_id s = s\<lparr>items_heap := snd (alloc_id (items_heap s))\<rparr>"

lemma with_new_id_fields [simp]:
  "get_stack k (with_new_id s) = get_stack k s"
  "stackitem_count (with_new_id s) = stackitem_count s"
  "is_stackitem_count_strict (with_new_id s) = is_stackitem_count_strict s"
  by (simp_all add: with_new_id_def)

lemma run_PushT_bool [run_simps]:
  "get_stack k s = mk_ras xs \<Longrightarrow>
     sq (PushT k (PyBool b)) m s = m (put_stack k (mk_ras (Boolean (heap_size s) b # xs)) (with_new_id s))"
  "get_stack k s = mk_ras xs \<Longrightarrow>
     PushT k (PyBool b) s = (Val (), put_stack k (mk_ras (Boolean (heap_size s) b # xs)) (with_new_id s))"
  by (simp_all add: PushT_def new_item_def sq_def bnd_def Push_def run_last alloc_id_def with_new_id_def heap_size_def)

lemma run_PushT_list [run_simps]:
  "get_stack k s = mk_ras xs \<Longrightarrow>
     PushT k (PyList l) s = (Val (), put_stack k (mk_ras (Array (heap_size s) # xs))
       (s\<lparr>items_heap := snd (alloc_list l (items_heap s))\<rparr>))"
  by (simp add: PushT_def new_item_def sq_def bnd_def Push_def run_last alloc_list_def heap_size_def)

lemma run_Remove [run_simps]:
  "get_stack k s = mk_ras xs \<Longrightarrow> 0 \<le> n \<Longrightarrow> n < int (length xs) \<Longrightarrow>
     bnd (Remove k n) f s = f (xs ! nat n) (put_stack k (mk_ras (take (nat n) xs @ drop (Suc (nat n)) xs)) s)"
  by (simp add: Remove_def run_assoc run_bnd run_sq ras_Remove_mk)

lemma run_Peek [run_simps]:
  "get_stack k s = mk_ras xs \<Longrightarrow> 0 \<le> n \<Longrightarrow> n < int (length xs) \<Longrightarrow> bnd (Peek k n) f s = f (xs ! nat n) s"
  by (simp add: Peek_def run_assoc run_bnd ras_Peek_mk)

lemma run_Count [run_simps]:
  "get_stack k s = mk_ras xs \<Longrightarrow> bnd (Count k) f s = f (int (length xs)) s"
  by (simp add: Count_def run_bnd)

lemma run_CheckBigInteger [run_simps]:
  "CheckBigInteger v = Inr b \<Longrightarrow> bnd (lft (CheckBigInteger v)) f s = f b s"
  by (simp add: run_bnd)

section \<open>The count of stack items\<close>

definition counted :: "bool \<Rightarrow> int \<Rightarrow> 'z engine_scheme \<Rightarrow> 'z engine_scheme" where
  "counted strict n s =
     s\<lparr>is_stackitem_count_strict := is_stackitem_count_strict s \<and> strict, stackitem_count := stackitem_count s + n\<rparr>"

definition count_fits :: "'z engine_scheme \<Rightarrow> int \<Rightarrow> bool" where
  "count_fits s n \<longleftrightarrow> 0 \<le> stackitem_count s + n \<and> stackitem_count s + n \<le> maxStackSize"

lemma count_fits_put [simp]:
  "count_fits (put_stack k t s) n = count_fits s n" "count_fits (with_new_id s) n = count_fits s n"
  by (simp_all add: count_fits_def)

lemma count_fits_invocation [simp]: "count_fits (s\<lparr>InvocationStack := t\<rparr>) n = count_fits s n"
  by (simp add: count_fits_def)

lemma CheckStackSize_fits: "count_fits s n \<Longrightarrow> CheckStackSize env strict n s = (Val True, counted strict n s)"
  by (simp add: CheckStackSize_def monad_defs maxStackSize_def int_MaxValue_def count_fits_def counted_def)

lemma run_check [run_simps]:
  "count_fits s n \<Longrightarrow> check_stack env strict n s = (Val (), counted strict n s)"
  "count_fits s n \<Longrightarrow> check_or_return env strict n s = (Val (), counted strict n s)"
  "count_fits s n \<Longrightarrow> check_or_fault env strict n s = (Val (), counted strict n s)"
  "count_fits s n \<Longrightarrow> sq (check_stack env strict n) m s = m (counted strict n s)"
  by (simp_all add: check_stack_def check_or_return_def check_or_fault_def bnd_def sq_def CheckStackSize_fits run_last)

lemma run_VM_FAULT [run_simps]:
  "VM_FAULT_and_report s = (Ret False, s\<lparr>VMState := VM_FAULT\<rparr>)"
  "bnd VM_FAULT_and_report f s = (Ret False, s\<lparr>VMState := VM_FAULT\<rparr>)"
  "sq VM_FAULT_and_report m s = (Ret False, s\<lparr>VMState := VM_FAULT\<rparr>)"
  by (simp_all add: VM_FAULT_and_report_def monad_defs)

lemma run_CopyTo [run_simps]:
  "sq (CopyTo k l n) m s = m (put_stack l (ras_CopyTo (get_stack k s) (get_stack l s) n) s)"
  by (simp add: CopyTo_def run_simps)

lemma run_remove_context [run_simps]:
  "InvocationStack s = mk_ras xs \<Longrightarrow> 0 \<le> n \<Longrightarrow> n < int (length xs) \<Longrightarrow>
     bnd (remove_context n) f s =
       f (xs ! nat n) (s\<lparr>InvocationStack := mk_ras (take (nat n) xs @ drop (Suc (nat n)) xs)\<rparr>)"
  by (simp add: remove_context_def run_simps ras_Remove_mk)

text \<open>The state after a script was loaded, without breakpoints for it.\<close>

definition loaded :: "script \<Rightarrow> int \<Rightarrow> 'z engine_scheme \<Rightarrow> 'z engine_scheme" where
  "loaded scr rv s =
     s\<lparr>contexts := (contexts s)(next_context s := ExecutionContext scr rv),
       next_context := Suc (next_context s),
       InvocationStack := ras_PushT (next_context s) (InvocationStack s),
       ExecutedScriptHashes := ExecutedScriptHashes s @ [s_hash scr]\<rparr>"

lemma loaded_fields [simp]:
  "d = next_context s \<Longrightarrow> get_stack (EStack d) (loaded scr rv s) = ras_empty"
  "c \<noteq> next_context s \<Longrightarrow> get_stack (EStack c) (loaded scr rv s) = get_stack (EStack c) s"
  "InvocationStack (loaded scr rv s) = ras_PushT (next_context s) (InvocationStack s)"
  by (simp_all add: loaded_def get_stack.simps ExecutionContext_def)

lemma run_LoadScriptInternal [run_simps]:
  "debug_map s = None \<Longrightarrow> bnd (LoadScriptInternal scr rv) f s = f (next_context s) (loaded scr rv s)"
  by (simp add: LoadScriptInternal_def loaded_def bnd_def sq_def gets_def modify_def ret_def)

lemma get_stack_invocation [simp]: "get_stack k (s\<lparr>InvocationStack := t\<rparr>) = get_stack k s"
  by (cases k) (simp_all add: get_stack.simps)

lemma counted_fields [simp]:
  "debug_map (counted b n s) = debug_map s" "InvocationStack (counted b n s) = InvocationStack s"
  "next_context (counted b n s) = next_context s"
  by (simp_all add: counted_def)

text \<open>A successful check of the stack size leaves at most \<open>maxStackSize\<close> counted items, however the
  count was reached.\<close>

theorem CheckStackSize_bound:
  assumes "CheckStackSize env strict n s = (Val True, s')"
  shows "stackitem_count s' \<le> maxStackSize"
  using assms
  by (auto simp: CheckStackSize_def monad_defs Let_def maxStackSize_def split: if_splits sum.splits prod.splits)

end
