(* ===== verification/Application_Engine.thy ===== *)
theory Application_Engine
  imports Engine_Run
begin

unbundle bit_operations_syntax

text \<open>
  \<open>neo/SmartContract/ApplicationEngine.py\<close>: the engine with a gas limit. Its fields extend the
  record of the base engine and its \<open>PreExecuteInstruction\<close> is the hook it gives to
  \<open>ExecuteNext\<close>. What it reads of the blockchain is a parameter: whether the contract with a
  script hash allows dynamic invocation, and the price of a system call that the state machine
  states itself (\<open>StateReader.GetPrice\<close>, zero where it has none). The events that \<open>Run\<close>
  dispatches after the execution are not modelled.
\<close>

record app_engine = engine +
  gas_amount :: int
  gas_consumed :: int
  testMode :: bool

record 's app_env =
  vm_env :: "'s env"
  HasDynamicInvoke :: "bytes \<Rightarrow> ('s, bool) m"
  Service_GetPrice :: "int \<Rightarrow> pyexc + int"

definition ratio :: int where "ratio = 100000"
definition gas_free :: int where "gas_free = 10 * 100000000"
definition max_free_ops :: int where "max_free_ops = 500000"

text \<open>What a new engine's service brings along is the rest of its record.\<close>

definition ApplicationEngine :: "'z \<Rightarrow> int \<Rightarrow> bool \<Rightarrow> 'z app_engine_scheme" where
  "ApplicationEngine services gas test =
     engine.extend (ExecutionEngine\<lparr>debugger := NoDebugger\<rparr>)
       \<lparr>gas_amount = gas_free + gas, gas_consumed = 0, testMode = test, \<dots> = services\<rparr>"

definition CheckDynamicInvoke :: "'z app_engine_scheme app_env \<Rightarrow> ('z app_engine_scheme, bool) m" where
  "CheckDynamicInvoke env =
     bnd CurrentContext (\<lambda>c.
     bnd (gets (\<lambda>s. contexts s c)) (\<lambda>cx.
     bnd (lft (CurrentInstruction cx)) (\<lambda>i.
     let current_allows =
       bnd (lft (UInt160 (Some (s_hash (Script cx))))) (\<lambda>current.
       HasDynamicInvoke env (uint_ToBytes current))
     in
     if ins_OpCode i \<in> {OP_APPCALL, OP_TAILCALL} then
       if list_ex (\<lambda>b. b > 0) (ins_Operand i) then ret True else current_allows
     else if ins_OpCode i \<in> {OP_CALL_ED, OP_CALL_EDT} then current_allows
     else ret True)))"

text \<open>\<open>int(a / b)\<close> of two integers, through a float; with a \<open>BigInteger\<close> for \<open>a\<close> it is \<open>bi_truediv\<close> instead.\<close>

definition int_of_quotient :: "int \<Rightarrow> int \<Rightarrow> pyexc + int" where
  "int_of_quotient a b = ebind (int_truediv a b) (\<lambda>f. Inr (float_trunc f))"

text \<open>\<open>Operand.decode('ascii')\<close>, encoded again for the hash.\<close>

definition TokenString :: "bytes \<Rightarrow> pyexc + bytes" where
  "TokenString operand = (if list_all (\<lambda>b. b < 128) operand then Inr operand else Inl UnicodeError)"

definition peek_bytes_length :: "cid \<Rightarrow> int \<Rightarrow> ('z app_engine_scheme, int) m" where
  "peek_bytes_length c n = bnd (Peek (EStack c) n) (\<lambda>x. bnd (lft (GetByteArray x)) (\<lambda>b. ret (int (length b))))"

definition ContractFee :: "int \<Rightarrow> pyexc + int" where
  "ContractFee contract_properties =
     ebind (int_of_quotient (100 * 100000000) ratio) (\<lambda>fee.
     if contract_properties < 0 \<or> contract_properties > 0xff then Inl ValueError
     else ebind (if contract_properties AND 1 > 0 then int_of_quotient (400 * 100000000) ratio else Inr 0) (\<lambda>f1.
          ebind (if contract_properties AND 2 > 0 then int_of_quotient (500 * 100000000) ratio else Inr 0) (\<lambda>f2.
          Inr (fee + f1 + f2))))"

definition GetPriceForSysCall :: "'z app_engine_scheme app_env \<Rightarrow> ('z app_engine_scheme, int) m" where
  "GetPriceForSysCall env =
     (let name_hash = (\<lambda>name. interop_hash (primitives_of (vm_env env)) (ascii name)) in
     bnd CurrentContext (\<lambda>c.
     bnd (gets (\<lambda>s. contexts s c)) (\<lambda>cx.
     bnd (lft (CurrentInstruction cx)) (\<lambda>i.
     bnd (if length (ins_Operand i) = 4 then ret (TokenU32 i)
          else bnd (lft (TokenString (ins_Operand i))) (\<lambda>name.
               ret (interop_hash (primitives_of (vm_env env)) name))) (\<lambda>api_hash.
     bnd (lft (Service_GetPrice env api_hash)) (\<lambda>price.
     if price > 0 then ret price
     else if api_hash = name_hash ''Neo.Asset.Create'' \<or> api_hash = name_hash ''AntShares.Asset.Create'' then
       lft (int_of_quotient (5000 * 100000000) ratio)
     else if api_hash = name_hash ''AntShares.Asset.Renew'' \<or> api_hash = name_hash ''AntShares.Asset.Renew'' then
       bnd (Peek (EStack c) 1) (\<lambda>x. bnd (lft (GetBigInteger x)) (\<lambda>years.
       lft (bi_truediv (years * 5000 * 100000000) ratio)))
     else if api_hash = name_hash ''Neo.Contract.Create'' \<or> api_hash = name_hash ''Neo.Contract.Migrate''
          \<or> api_hash = name_hash ''AntShares.Contract.Create'' \<or> api_hash = name_hash ''AntShares.Contract.Migrate'' then
       bnd (Peek (EStack c) 3) (\<lambda>x. bnd (lft (GetBigInteger x)) (\<lambda>props. lft (ContractFee props)))
     else if api_hash = name_hash ''System.Storage.Put'' \<or> api_hash = name_hash ''System.Storage.PutEx''
          \<or> api_hash = name_hash ''Neo.Storage.Put'' \<or> api_hash = name_hash ''AntShares.Storage.Put'' then
       bnd (peek_bytes_length c 1) (\<lambda>l1. bnd (peek_bytes_length c 2) (\<lambda>l2.
       bnd (lft (int_of_quotient (l1 + l2 - 1) 1024)) (\<lambda>q. ret ((q + 1) * 1000))))
     else ret 1))))))"

definition GetPrice :: "'z app_engine_scheme app_env \<Rightarrow> ('z app_engine_scheme, int) m" where
  "GetPrice env =
     bnd CurrentContext (\<lambda>c.
     bnd (gets (\<lambda>s. contexts s c)) (\<lambda>cx.
     bnd (lft (CurrentInstruction cx)) (\<lambda>i.
     let opcode = ins_OpCode i in
     if opcode \<le> OP_NOP then ret 0
     else if opcode \<in> {OP_APPCALL, OP_TAILCALL} then ret 10
     else if opcode = OP_SYSCALL then GetPriceForSysCall env
     else if opcode \<in> {OP_SHA1, OP_SHA256} then ret 10
     else if opcode \<in> {OP_HASH160, OP_HASH256} then ret 20
     else if opcode \<in> {OP_CHECKSIG, OP_VERIFY} then ret 100
     else if opcode = OP_CHECKMULTISIG then
       if ras_Count (EvaluationStack cx) = 0 then ret 1
       else bnd (Peek (EStack c) 0) (\<lambda>item.
            bnd (gets items_heap) (\<lambda>h.
            bnd (case list_ref item of Some r \<Rightarrow> ret (Array_Count h r) | None \<Rightarrow> lft (GetBigInteger item)) (\<lambda>n.
            ret (if n < 1 then 1 else 100 * n))))
     else ret 1)))"

text \<open>\<open>try: ... except Exception: pass\<close>: an exception lets the instruction pass.\<close>

definition pass_on_error :: "('s, bool) m \<Rightarrow> ('s, bool) m" where
  "pass_on_error m s = (case m s of (Exc e, s') \<Rightarrow> (Val True, s') | r \<Rightarrow> r)"

definition app_PreExecuteInstruction :: "'z app_engine_scheme app_env \<Rightarrow> ('z app_engine_scheme, bool) m" where
  "app_PreExecuteInstruction env =
     bnd CurrentContext (\<lambda>c.
     bnd (gets (\<lambda>s. contexts s c)) (\<lambda>cx.
     if InstructionPointer cx \<ge> Script_Length (Script cx) then ret True
     else
       bnd (GetPrice env) (\<lambda>price.
       sq (modify (\<lambda>s. s\<lparr>gas_consumed := gas_consumed s + price * ratio\<rparr>))
      (bnd (gets (\<lambda>s. (testMode s, gas_consumed s, gas_amount s, ops_processed s))) (\<lambda>(test, consumed, amount, ops).
       if \<not> test \<and> consumed > amount then ret False
       else if test \<and> ops > max_free_ops then ret False
       else pass_on_error (CheckDynamicInvoke env))))))"

definition app_ExecuteNext :: "'z app_engine_scheme app_env \<Rightarrow> 'z app_engine_scheme \<Rightarrow> 'z app_engine_scheme" where
  "app_ExecuteNext env = ExecuteNext (vm_env env) (app_PreExecuteInstruction env) PostExecuteInstruction"

definition app_Execute :: "'z app_engine_scheme app_env \<Rightarrow> 'z app_engine_scheme \<Rightarrow> (bool \<times> 'z app_engine_scheme) option" where
  "app_Execute env = Execute (vm_env env) (app_PreExecuteInstruction env) PostExecuteInstruction"

text \<open>\<open>Run\<close>: None where the execution does not end; the script may fail to be hexadecimal.\<close>

definition Run ::
  "'z app_engine_scheme app_env \<Rightarrow> 'z \<Rightarrow> bytes \<Rightarrow> int \<Rightarrow> bool \<Rightarrow> bool \<Rightarrow> (pyexc + 'z app_engine_scheme) option" where
  "Run env services scr gas test_mode wb =
     (case (if wb then Some scr else unhexlify scr) of
        None \<Rightarrow> Some (Inl ValueError)
      | Some s \<Rightarrow>
          map_option (\<lambda>(_, e). Inr e)
            (app_Execute env (snd (LoadScript (vm_env env) s (- 1) (ApplicationEngine services gas test_mode)))))"

lemmas app_defs = ratio_def gas_free_def max_free_ops_def ApplicationEngine_def CheckDynamicInvoke_def
  int_of_quotient_def TokenString_def peek_bytes_length_def ContractFee_def GetPriceForSysCall_def
  GetPrice_def pass_on_error_def app_PreExecuteInstruction_def app_ExecuteNext_def app_Execute_def Run_def

declare app_defs [model_defs]

end
