(* ===== verification/Samples.thy ===== *)
theory Samples
  imports Engine_Run
begin

text \<open>
  Concrete engines and environments, for the instances of the theorems: an engine with one context
  whose evaluation stack is given, and an environment without contracts and services, whose hash
  functions truncate and whose signatures are valid when they equal the key.
\<close>

definition sample_primitives :: primitives where
  "sample_primitives =
     \<lparr>sha1 = (\<lambda>b. take 20 (b @ replicate 20 0)), sha256 = (\<lambda>b. take 32 (b @ replicate 32 0)),
      ripemd160 = (\<lambda>b. take 20 (b @ replicate 20 0)), decompress = Inr,
      vk_verify = (\<lambda>key sig msg. Inr (key = sig))\<rparr>"

definition sample_env :: "'s env" where
  "sample_env =
     \<lparr>primitives_of = sample_primitives, GetScript = None, container = Some 0, GetMessage = Inr [],
      service = None, host_eq = (=), recursion_limit = 10, exit_on_error = True\<rparr>"

definition sample :: "stack_item list \<Rightarrow> engine" where
  "sample xs =
     put_stack (EStack 0) (mk_ras xs) (ExecutionEngine\<lparr>stackitem_count := int (length xs)\<rparr>)"

definition sample_instruction :: instruction where
  "sample_instruction = \<lparr>ins_OpCode = OP_NOP, ins_Operand = []\<rparr>"

lemma sample_stack [simp]: "get_stack (EStack 0) (sample xs) = mk_ras xs"
  by (simp add: sample_def)

lemma sample_fits [simp]: "count_fits (sample xs) n \<longleftrightarrow> 0 \<le> int (length xs) + n \<and> int (length xs) + n \<le> 2048"
  by (simp add: sample_def count_fits_def maxStackSize_def)

lemma sample_debug_map [simp]: "debug_map (sample xs) = None"
  by (simp add: sample_def ExecutionEngine_def)

lemma sample_heap [simp]: "items_heap (sample xs) = empty_heap"
  by (simp add: sample_def ExecutionEngine_def)

lemma sample_env_simps [simp]:
  "container sample_env = Some 0" "GetMessage sample_env = Inr []" "service sample_env = None"
  "exit_on_error sample_env" "primitives_of sample_env = sample_primitives" "GetScript sample_env = None"
  "table_looks_up sample_env"
  by (simp_all add: sample_env_def table_looks_up_None)

lemma CheckStackSize_bound_witness:
  "stackitem_count (counted True 1 (sample [Integer 1])) \<le> maxStackSize"
  by (rule CheckStackSize_bound [OF CheckStackSize_fits [of "sample [Integer 1]" 1 sample_env True]]) simp

section \<open>A loaded script\<close>

text \<open>The engine with a script of two NOPs loaded and started.\<close>

definition sample_nops :: engine where
  "sample_nops =
     (loaded \<lparr>s_value = [0x61, 0x61], s_hash = []\<rparr> (- 1) ExecutionEngine)\<lparr>VMState := VM_NONE\<rparr>"

end
