(* ===== verification/Instruction_Properties.thy ===== *)
theory Instruction_Properties
  imports Samples
begin

text \<open>
  What the instructions do, stated on a state whose evaluation stack is given: the effect on the
  stack for operands in range, and the branch taken for those out of range.
\<close>

text \<open>The evaluation stack of \<open>c\<close> holds \<open>xs\<close>, and a change of the count by \<open>n\<close> stays in bounds.\<close>

definition at_stack :: "cid \<Rightarrow> stack_item list \<Rightarrow> int \<Rightarrow> 'z engine_scheme \<Rightarrow> bool" where
  "at_stack c xs n s \<longleftrightarrow> get_stack (EStack c) s = mk_ras xs \<and> count_fits s n"

definition int_of :: "stack_item \<Rightarrow> int \<Rightarrow> bool" where
  "int_of x v \<longleftrightarrow> GetBigInteger x = Inr v"

definition in_vm_range :: "int \<Rightarrow> bool" where
  "in_vm_range v \<longleftrightarrow> - (2 ^ 255) \<le> v \<and> v < 2 ^ 255 \<and> v \<noteq> - (256 ^ 31)"

lemma CheckBigInteger_iff: "CheckBigInteger v = Inr (in_vm_range v)"
  unfolding in_vm_range_def by (rule CheckBigInteger_range)

lemma check_ints_iff: "check_ints xs = Inr (list_all in_vm_range xs)"
  by (simp add: check_ints_eq CheckBigInteger_iff)

text \<open>The result of an instruction that only replaces the top of the evaluation stack.\<close>

definition result_stack :: "cid \<Rightarrow> stack_item list \<Rightarrow> bool \<Rightarrow> int \<Rightarrow> 'z engine_scheme \<Rightarrow> 'z engine_scheme" where
  "result_stack c xs strict n s = counted strict n (put_stack (EStack c) (mk_ras xs) s)"

section \<open>Arithmetic\<close>

text \<open>ADD replaces the two topmost integers by their sum when both and the sum are integers the VM
  accepts, and otherwise stops in FAULT with the operands consumed.\<close>

theorem op_ADD_ok:
  assumes "at_stack c (y # x # xs) (- 1) s" "int_of x v" "int_of y w"
  shows "op_ADD env c i s =
    (if in_vm_range v \<and> in_vm_range w \<and> in_vm_range (v + w)
     then (Val (), result_stack c (Integer (v + w) # xs) True (- 1) s)
     else (Ret False, (put_stack (EStack c) (mk_ras xs) s)\<lparr>VMState := VM_FAULT\<rparr>))"
  using assms
  by (simp add: op_ADD_def at_stack_def int_of_def run_simps check_ints_iff bi_add_def result_stack_def)

lemma op_SUB_ok:
  assumes "at_stack c (y # x # xs) (- 1) s" "int_of x v" "int_of y w"
  shows "op_SUB env c i s =
    (if in_vm_range v \<and> in_vm_range w \<and> in_vm_range (v - w)
     then (Val (), result_stack c (Integer (v - w) # xs) True (- 1) s)
     else (Ret False, (put_stack (EStack c) (mk_ras xs) s)\<lparr>VMState := VM_FAULT\<rparr>))"
  using assms
  by (simp add: op_SUB_def at_stack_def int_of_def run_simps check_ints_iff bi_sub_def result_stack_def)

lemma run_pop_checked [run_simps]:
  "get_stack (EStack c) s = mk_ras (x # xs) \<Longrightarrow> GetBigInteger x = Inr v \<Longrightarrow>
     bnd (pop_checked c) f s =
       (if in_vm_range v then f v (put_stack (EStack c) (mk_ras xs) s)
        else (Ret False, (put_stack (EStack c) (mk_ras xs) s)\<lparr>VMState := VM_FAULT\<rparr>))"
  by (simp add: pop_checked_def run_simps CheckBigInteger_iff)

lemma run_pop_shift [run_simps]:
  "get_stack (EStack c) s = mk_ras (x # xs) \<Longrightarrow> GetBigInteger x = Inr v \<Longrightarrow>
     bnd (pop_shift c) f s =
       (if CheckShift v then f v (put_stack (EStack c) (mk_ras xs) s)
        else (Ret False, (put_stack (EStack c) (mk_ras xs) s)\<lparr>VMState := VM_FAULT\<rparr>))"
  by (simp add: pop_shift_def run_simps)

lemma op_MUL_ok:
  assumes "at_stack c (y # x # xs) (- 1) s" "int_of x v" "int_of y w"
    "in_vm_range v" "in_vm_range w" "in_vm_range (v * w)"
  shows "op_MUL env c i s = (Val (), result_stack c (Integer (v * w) # xs) True (- 1) s)"
  using assms
  by (simp add: op_MUL_def at_stack_def int_of_def run_simps CheckBigInteger_iff bi_mul_def result_stack_def)

text \<open>MOD gives the remainder with the sign of the dividend; a zero divisor raises with the operands
  consumed.\<close>

theorem op_MOD_ok:
  assumes "at_stack c (y # x # xs) (- 1) s" "int_of x v" "int_of y w"
    "in_vm_range v" "in_vm_range w"
  shows "op_MOD env c i s =
    (if w = 0 then (Exc DecimalInvalid, put_stack (EStack c) (mk_ras xs) s)
     else (Val (), result_stack c (Integer (sgn v * (\<bar>v\<bar> mod \<bar>w\<bar>)) # xs) True (- 1) s))"
proof -
  have "\<bar>v\<bar> div \<bar>w\<bar> < 10 ^ 100" if "w \<noteq> 0"
  proof -
    have "\<bar>v\<bar> div \<bar>w\<bar> \<le> \<bar>v\<bar> div 1" using that by (intro zdiv_mono2) simp_all
    also have "\<dots> \<le> 2 ^ 255" using assms(4) by (simp add: in_vm_range_def abs_le_iff)
    also have "\<dots> < (10 :: int) ^ 100" by simp
    finally show ?thesis .
  qed
  with assms show ?thesis
    by (cases "w = 0") (auto simp: op_MOD_def at_stack_def int_of_def run_simps bi_mod_def result_stack_def)
qed

lemma op_DIV_ok:
  assumes "at_stack c (y # x # xs) (- 1) s" "int_of x v" "int_of y w"
    "in_vm_range v" "in_vm_range w" "0 \<le> v"
  shows "op_DIV env c i s =
    (if w = 0 then (Exc ZeroDivisionError, put_stack (EStack c) (mk_ras xs) s)
     else (Val (), result_stack c (Integer (v div w) # xs) True (- 1) s))"
  using assms
  by (auto simp: op_DIV_def at_stack_def int_of_def run_simps check_ints_iff bi_truediv_def bi_floordiv_def result_stack_def)

text \<open>DIV of a negative dividend above \<open>- (2 ^ 53)\<close> truncates towards zero, although the code divides
  floats.\<close>

theorem op_DIV_neg:
  assumes "at_stack c (y # x # xs) (- 1) s" "int_of x v" "int_of y w"
    "- (2 ^ 53) < v" "v < 0" "w \<noteq> 0" "in_vm_range w"
  shows "op_DIV env c i s = (Val (), result_stack c (Integer (truncated_quotient v w) # xs) True (- 1) s)"
proof -
  have v: "in_vm_range v" using assms(4,5) by (simp add: in_vm_range_def)
  have "\<bar>w\<bar> \<le> 2 ^ 255" using assms(7) by (simp add: in_vm_range_def abs_le_iff)
  also have "\<dots> < (2 :: int) ^ 1000" by simp
  finally have "\<bar>w\<bar> < 2 ^ 1000" .
  moreover have "\<bar>v\<bar> < 2 ^ 53" using assms(4,5) by simp
  ultimately obtain f where "int_truediv v w = Inr f" "float_trunc f = truncated_quotient v w"
    using int_truediv_trunc [of v w] assms(6) by blast
  then show ?thesis
    using assms v
    by (simp add: op_DIV_def at_stack_def int_of_def run_simps check_ints_iff bi_truediv_def result_stack_def)
qed

text \<open>NZ pushes True for every integer, zero included: the code compares identities.\<close>

theorem op_NZ_true:
  assumes "at_stack c (x # xs) 0 s" "int_of x v"
  shows "op_NZ c i s =
    (Val (), put_stack (EStack c) (mk_ras (Boolean (heap_size s) True # xs)) (with_new_id s))"
proof -
  have 1: "with_new_id (put_stack k t s) = put_stack k t (with_new_id s)" for k t
    by (cases k) (auto simp: with_new_id_def put_stack.simps update_context_def)
  from assms show ?thesis
    by (simp add: op_NZ_def at_stack_def int_of_def run_simps 1)
qed

section \<open>Stack manipulation\<close>

text \<open>ROLL moves the item at the given depth to the top and keeps the order of all others.\<close>

theorem op_ROLL_ok:
  assumes "at_stack c (x # xs) (- 1) s" "int_of x (int n)" "n < length xs"
  shows "op_ROLL env c i s =
    (Val (), result_stack c (rotate n (take (Suc n) xs) @ drop (Suc n) xs) True (- 1) s)"
proof -
  have cnt: "counted b j (put_stack k t s) = put_stack k t (counted b j s)" for b j k t
    by (cases k) (auto simp: counted_def put_stack.simps update_context_def)
  have get: "get_stack k (counted b j s) = get_stack k s" for b j k
    by (cases k) (auto simp: counted_def get_stack.simps)
  have "rotate n (take (Suc n) xs) = xs ! n # take n xs"
    using assms(3) rotate_append [of "take n xs" "[xs ! n]"]
    by (simp add: take_Suc_conv_app_nth min_absorb2)
  with assms show ?thesis
    by (cases "n = 0")
       (auto simp: op_ROLL_def at_stack_def int_of_def run_simps result_stack_def cnt get Cons_nth_drop_Suc [of 0 xs, simplified])
qed

lemma op_CAT_ok:
  assumes "at_stack c (y # x # xs) (- 1) s" "GetByteArray x = Inr a" "GetByteArray y = Inr b"
  shows "op_CAT env c i s =
    (if length a + length b \<le> 1024 * 1024
     then (Val (), result_stack c (ByteArray (a @ b) # xs) True (- 1) s)
     else (Ret False, (put_stack (EStack c) (mk_ras xs) s)\<lparr>VMState := VM_FAULT\<rparr>))"
  using assms
  by (auto simp: op_CAT_def at_stack_def run_simps CheckMaxItemSize_def maxItemSize_def result_stack_def)

lemma op_SUBSTR_ok:
  assumes "at_stack c (z # y # x # xs) (- 2) s" "int_of z cnt" "int_of y idx" "GetByteArray x = Inr b"
  shows "op_SUBSTR env c i s =
    (if cnt < 0 then (Ret False, (put_stack (EStack c) (mk_ras (y # x # xs)) s)\<lparr>VMState := VM_FAULT\<rparr>)
     else if idx < 0 then (Ret False, (put_stack (EStack c) (mk_ras (x # xs)) s)\<lparr>VMState := VM_FAULT\<rparr>)
     else (Val (), result_stack c (ByteArray (take (nat cnt) (drop (nat idx) b)) # xs) True (- 2) s))"
  using assms
  by (auto simp: op_SUBSTR_def at_stack_def int_of_def run_simps result_stack_def py_slice_nonneg nat_add_distrib)

section \<open>Collections\<close>

lemma run_gets_heap [run_simps]: "bnd (get_heap f) g s = bnd (lft (f (items_heap s))) g s"
  by (simp add: get_heap_def run_simps)

lemma run_on_heap [run_simps]:
  "f (items_heap s) = Inr (a, h) \<Longrightarrow> bnd (on_heap f) g s = g a (s\<lparr>items_heap := h\<rparr>)"
  "f (items_heap s) = Inr (a, h) \<Longrightarrow> sq (on_heap f) m s = m (s\<lparr>items_heap := h\<rparr>)"
  by (simp_all add: on_heap_def bnd_def sq_def)

lemma run_repeatm_Pop:
  "get_stack k s = mk_ras (xs @ ys) \<Longrightarrow>
     bnd (repeatm (length xs) (Pop k)) f s = f xs (if xs = [] then s else put_stack k (mk_ras ys) s)"
proof (induction xs arbitrary: s f)
  case (Cons x xs)
  show ?case
    using Cons.prems Cons.IH [of "put_stack k (mk_ras (xs @ ys)) s"]
    by (cases "xs = []") (simp_all add: run_simps)
qed (simp add: run_simps)

lemma run_push_all: "get_stack k s = mk_ras ys \<Longrightarrow>
  sq (mapm (Push k) xs) m s = m (put_stack k (mk_ras (rev xs @ ys)) s)"
proof (induction xs arbitrary: s ys)
  case Nil
  then show ?case using put_get_stack [of k s] by (simp add: run_simps)
qed (simp add: run_simps)

text \<open>PACK of the \<open>n\<close> topmost items makes an array of them, in the order they are popped.\<close>

lemma op_PACK_ok:
  assumes "get_stack (EStack c) s = mk_ras (x # xs @ ys)" "int_of x (int (length xs))" "length xs \<le> 1024"
  shows "op_PACK c i s =
    (Val (), put_stack (EStack c) (mk_ras (Array (heap_size s) # ys))
       (s\<lparr>items_heap := snd (alloc_list xs (items_heap s))\<rparr>))"
proof -
  have pop: "bnd (repeatm (length xs) (Pop (EStack c))) f (put_stack (EStack c) (mk_ras (xs @ ys)) s) =
      f xs (put_stack (EStack c) (mk_ras ys) s)" for f :: "stack_item list \<Rightarrow> ('a engine_scheme, unit) m"
    using run_repeatm_Pop [of "EStack c" "put_stack (EStack c) (mk_ras (xs @ ys)) s" xs ys f] by auto
  from assms show ?thesis
    by (auto simp: op_PACK_def int_of_def run_simps CheckArraySize_def maxArraySize_def pop put_stack_heap)
qed

text \<open>UNPACK pushes the items and their number, and leaves the shared list itself reversed.\<close>

theorem op_UNPACK_ok:
  assumes "get_stack (EStack c) s = mk_ras (item # ys)" "list_ref item = Some r"
    "h_list (items_heap s) r = xs" "count_fits s (int (length xs))"
  shows "op_UNPACK env c i s =
    (Val (), result_stack c (Integer (int (length xs)) # xs @ ys) False (int (length xs))
       (s\<lparr>items_heap := set_list r (rev xs) (items_heap s)\<rparr>))"
  using assms
  by (simp add: op_UNPACK_def run_simps Array_Reverse_def set_list_def put_stack_heap run_push_all
      result_stack_def count_fits_def)

lemma CheckStackSize_heap: "items_heap (snd (CheckStackSize env strict n s)) = items_heap s"
  by (auto simp: CheckStackSize_def monad_defs Let_def split: if_splits sum.splits prod.splits)

lemma check_or_fault_heap: "items_heap (snd (check_or_fault env strict n s)) = items_heap s"
  using CheckStackSize_heap [of env strict n s]
  by (auto simp: check_or_fault_def monad_defs set_fault_def split: prod.splits res.splits)

text \<open>SETITEM on a map within the size limit sets the key's value in the shared dictionary, and
  nothing else of the heap, however the final size check turns out.\<close>

theorem op_SETITEM_map:
  assumes "get_stack (EStack c) s = mk_ras (v # k # Map r # ys)" "\<not> IsStruct v" "\<not> IsCollection k"
    "dict_set k v (h_dict (items_heap s) r) = Inr d"
    "Map_Count (items_heap s) r < 1024 \<or> hash_of k \<in> set (dkeys (h_dict (items_heap s) r))"
  shows "items_heap (snd (op_SETITEM env c i s)) = set_dict r d (items_heap s)"
proof -
  have cl: "clone_struct env v = ret v" using assms(2) by (cases v) (auto simp: clone_struct_def)
  obtain b where b: "Map_ContainsKey (items_heap s) r k = Inr b"
      "b \<longleftrightarrow> hash_of k \<in> set (dkeys (h_dict (items_heap s) r))"
    using dict_get_None_iff [of k "h_dict (items_heap s) r"]
    by (auto simp: Map_ContainsKey_def dict_get_eq)
  have "b \<or> CheckArraySize (Map_Count (items_heap s) r + 1)"
    using assms(5) b(2) by (auto simp: CheckArraySize_def maxArraySize_def)
  with assms b(1) show ?thesis
    by (auto simp: op_SETITEM_def cl run_simps Map_SetItem_def check_or_fault_heap)
qed

lemma op_SETITEM_array:
  assumes "get_stack (EStack c) s = mk_ras (v # k # item # ys)" "\<not> IsStruct v" "\<not> IsCollection k"
    "list_ref item = Some r" "int_of k (int n)" "n < length (h_list (items_heap s) r)"
  shows "items_heap (snd (op_SETITEM env c i s)) =
    set_list r ((h_list (items_heap s) r)[n := v]) (items_heap s)"
proof -
  have cl: "clone_struct env v = ret v" using assms(2) by (cases v) (auto simp: clone_struct_def)
  have set: "py_set (int n) v (h_list (items_heap s) r) = Inr ((h_list (items_heap s) r)[n := v])"
    using assms(6) by (simp add: py_set_def py_index_def)
  from assms set show ?thesis
    by (auto simp: op_SETITEM_def cl run_simps int_of_def Array_Count_def check_or_fault_heap)
qed

text \<open>PICKITEM finds what the map holds under the key.\<close>

lemma op_PICKITEM_map:
  assumes "get_stack (EStack c) s = mk_ras (k # Map r # ys)" "\<not> IsCollection k" "count_fits s (- 1)"
    "Map_TryGetValue (items_heap s) r k = Inr v"
  shows "op_PICKITEM env c i s =
    (case v of
       Some x \<Rightarrow> (Val (), result_stack c (x # ys) False (- 1) s)
     | None \<Rightarrow> (Ret False, (put_stack (EStack c) (mk_ras ys) s)\<lparr>VMState := VM_FAULT\<rparr>))"
  using assms by (simp add: op_PICKITEM_def run_simps result_stack_def split: option.splits)

section \<open>Signatures\<close>

lemma run_repeatm_PopBytes:
  "get_stack k s = mk_ras (map ByteArray bs @ ys) \<Longrightarrow>
     bnd (repeatm (length bs) (PopBytes k)) f s = f bs (if bs = [] then s else put_stack k (mk_ras ys) s)"
proof (induction bs arbitrary: s f)
  case (Cons b bs)
  show ?case
    using Cons.prems Cons.IH [of "put_stack k (mk_ras (map ByteArray bs @ ys)) s"]
    by (cases "bs = []") (simp_all add: run_simps)
qed (simp add: run_simps)

lemma count_fits_counted: "count_fits (counted b j s) n \<longleftrightarrow> count_fits s (j + n)"
  by (simp add: count_fits_def counted_def add.assoc)

lemma counted_put: "counted b j (put_stack k t s) = put_stack k t (counted b j s)"
  by (cases k) (auto simp: counted_def put_stack.simps update_context_def)

lemma get_counted [simp]: "get_stack k (counted b j s) = get_stack k s"
  by (cases k) (auto simp: counted_def get_stack.simps)

lemma counted_counted: "counted b j (counted b' k s) = counted (b' \<and> b) (k + j) s"
  by (simp add: counted_def add.assoc)

lemma heap_size_counted [simp]: "heap_size (counted b j s) = heap_size s"
  by (simp add: heap_size_def counted_def)

lemma with_new_id_put: "with_new_id (put_stack k t s) = put_stack k t (with_new_id s)"
  by (simp add: with_new_id_def put_stack_heap)

lemma run_CHECKMULTISIG:
  assumes st: "get_stack (EStack c) s = mk_ras (Integer (int (length keys)) # map ByteArray keys @
      Integer (int (length sigs)) # map ByteArray sigs @ ys)"
    and n: "keys \<noteq> []" "sigs \<noteq> []" "length sigs \<le> length keys"
    and fits: "count_fits s (- int (length keys) - 1)" "count_fits s (- int (length keys) - int (length sigs) - 2)"
    and msg: "container env = Some ob" "GetMessage env = Inr msg"
  shows "op_CHECKMULTISIG env c i s =
    (Val (), put_stack (EStack c) (mk_ras (Boolean (heap_size s) (matching (verifies (primitives_of env) msg) sigs (takeWhile (readable (primitives_of env)) keys)) # ys))
       (with_new_id (counted True (- int (length keys) - int (length sigs) - 2) s)))"
proof -
  let ?s1 = "put_stack (EStack c) (mk_ras (Integer (int (length sigs)) # map ByteArray sigs @ ys))
     (counted True (- int (length keys) - 1) s)"
  have keys: "bnd (repeatm (length keys) (PopBytes (EStack c))) f
       (put_stack (EStack c) (mk_ras (map ByteArray keys @ Integer (int (length sigs)) # map ByteArray sigs @ ys)) s)
     = f keys (put_stack (EStack c) (mk_ras (Integer (int (length sigs)) # map ByteArray sigs @ ys)) s)"
    for f :: "bytes list \<Rightarrow> ('a engine_scheme, unit) m"
    using n(1) by (subst run_repeatm_PopBytes) auto
  have sigs: "bnd (repeatm (length sigs) (PopBytes (EStack c))) f
       (put_stack (EStack c) (mk_ras (map ByteArray sigs @ ys)) t) = f sigs (put_stack (EStack c) (mk_ras ys) t)"
    for f :: "bytes list \<Rightarrow> ('a engine_scheme, unit) m" and t
    using n(2) by (subst run_repeatm_PopBytes) auto
  note loop = multisig_loop_matching [OF n(3), of "primitives_of env" msg]
  have pos: "0 < length keys" "0 < length sigs" using n by simp_all
  have f2: "count_fits s (- int (length keys) - 1 + (- int (length sigs) - 1))"
    using fits(2) by (simp add: algebra_simps)
  show ?thesis
    using st fits(1) f2 msg n(3) pos
    by (simp add: op_CHECKMULTISIG_def run_simps keys sigs loop counted_put count_fits_counted counted_counted with_new_id_put)
qed

text \<open>C39. CHECKMULTISIG with the keys and signatures on the stack pushes whether every signature can be
  given a key of its own that verifies it, keeping the order. A key of 33 bytes that cannot be decompressed
  ends the search: only the keys before it count.\<close>

theorem op_CHECKMULTISIG_ok:
  assumes st: "get_stack (EStack c) s = mk_ras (Integer (int (length keys)) # map ByteArray keys @
      Integer (int (length sigs)) # map ByteArray sigs @ ys)"
    and n: "keys \<noteq> []" "sigs \<noteq> []" "length sigs \<le> length keys"
    and fits: "count_fits s (- int (length keys) - 1)" "count_fits s (- int (length keys) - int (length sigs) - 2)"
    and msg: "container env = Some ob" "GetMessage env = Inr msg"
  shows "\<exists>s'. op_CHECKMULTISIG env c i s = (Val (), s') \<and>
    (\<exists>j. get_stack (EStack c) s' = mk_ras (Boolean j
       (matching (\<lambda>sig k. VerifySignature (primitives_of env) msg sig k True = Inr True) sigs
          (takeWhile (\<lambda>k. length k = 33 \<longrightarrow> (\<exists>d. decompress (primitives_of env) k = Inr d)) keys)) # ys))"
proof -
  have "(\<lambda>sig k. VerifySignature (primitives_of env) msg sig k True = Inr True) = verifies (primitives_of env) msg"
    "(\<lambda>k. length k = 33 \<longrightarrow> (\<exists>d. decompress (primitives_of env) k = Inr d)) = readable (primitives_of env)"
    by (simp_all add: verifies_def readable_def fun_eq_iff)
  then show ?thesis using run_CHECKMULTISIG [OF assms] by simp
qed

section \<open>Instances\<close>

lemma op_ADD_ok_witness:
  "op_ADD sample_env 0 sample_instruction (sample [Integer 3, Integer 2]) =
     (Val (), result_stack 0 [Integer 5] True (- 1) (sample [Integer 3, Integer 2]))"
  using op_ADD_ok [of 0 "Integer 3" "Integer 2" "[]" "sample [Integer 3, Integer 2]" 2 3 sample_env sample_instruction]
  by (simp add: at_stack_def int_of_def in_vm_range_def)

lemma op_MOD_ok_witness:
  "op_MOD sample_env 0 sample_instruction (sample [Integer 3, Integer (- 7)]) =
     (Val (), result_stack 0 [Integer (- 1)] True (- 1) (sample [Integer 3, Integer (- 7)]))"
  using op_MOD_ok [of 0 "Integer 3" "Integer (- 7)" "[]" "sample [Integer 3, Integer (- 7)]" "- 7" 3 sample_env sample_instruction]
  by (simp add: at_stack_def int_of_def in_vm_range_def)

lemma op_DIV_neg_witness:
  "op_DIV sample_env 0 sample_instruction (sample [Integer 2, Integer (- 7)]) =
     (Val (), result_stack 0 [Integer (- 3)] True (- 1) (sample [Integer 2, Integer (- 7)]))"
  using op_DIV_neg [of 0 "Integer 2" "Integer (- 7)" "[]" "sample [Integer 2, Integer (- 7)]" "- 7" 2 sample_env sample_instruction]
  by (simp add: at_stack_def int_of_def in_vm_range_def truncated_quotient_def)

text \<open>DIV of \<open>- (2 ^ 53) - 1\<close> by 1 gives \<open>- (2 ^ 53)\<close>: from there on the float division is not exact.\<close>

theorem op_DIV_rounds:
  "op_DIV sample_env 0 sample_instruction (sample [Integer 1, Integer (- (2 ^ 53) - 1)]) =
     (Val (), result_stack 0 [Integer (- (2 ^ 53))] True (- 1) (sample [Integer 1, Integer (- (2 ^ 53) - 1)]))"
proof -
  have "bit_length (- (2 ^ 53) - 1) = 54" "bit_length 1 = 1"
    using bit_length_le_iff [of "- (2 ^ 53) - 1" 53] bit_length_le_iff [of "- (2 ^ 53) - 1" 54]
      bit_length_le_iff [of 1 0] bit_length_le_iff [of 1 1] by simp_all
  then have "int_truediv (- (2 ^ 53) - 1) 1 = Inr (- (2 ^ 52), 1)"
    by (simp add: py_float_defs bit_length_def)
  then have "ebind (int_truediv (- (2 ^ 53) - 1) 1) (\<lambda>f. Inr (float_trunc f)) = Inr (- (2 ^ 53))"
    by (simp add: float_trunc_def float_floor_def)
  then show ?thesis
    by (simp add: op_DIV_def run_simps check_ints_iff in_vm_range_def bi_truediv_def result_stack_def)
qed

lemma op_NZ_true_witness:
  "op_NZ 0 sample_instruction (sample [Integer 0]) =
     (Val (), put_stack (EStack 0) (mk_ras [Boolean 0 True]) (with_new_id (sample [Integer 0])))"
  using op_NZ_true [of 0 "Integer 0" "[]" "sample [Integer 0]" 0 sample_instruction]
  by (simp add: at_stack_def int_of_def heap_size_def empty_heap_def)

lemma op_ROLL_ok_witness:
  "op_ROLL sample_env 0 sample_instruction (sample [Integer 2, Integer 10, Integer 20, Integer 30, Integer 40]) =
     (Val (), result_stack 0 [Integer 30, Integer 10, Integer 20, Integer 40] True (- 1)
        (sample [Integer 2, Integer 10, Integer 20, Integer 30, Integer 40]))"
  using op_ROLL_ok [of 0 "Integer 2" "[Integer 10, Integer 20, Integer 30, Integer 40]"
      "sample [Integer 2, Integer 10, Integer 20, Integer 30, Integer 40]" 2 sample_env sample_instruction]
  by (simp add: at_stack_def int_of_def numeral_2_eq_2)

definition sample_list :: "stack_item list \<Rightarrow> engine" where
  "sample_list xs = (sample [Array 0])\<lparr>items_heap := snd (alloc_list xs empty_heap)\<rparr>"

lemma op_UNPACK_ok_witness:
  "h_list (items_heap (snd (op_UNPACK sample_env 0 sample_instruction (sample_list [Integer 1, Integer 2])))) 0 =
     [Integer 2, Integer 1]"
  using op_UNPACK_ok [of 0 "sample_list [Integer 1, Integer 2]" "Array 0" "[]" 0 "[Integer 1, Integer 2]" sample_env
      sample_instruction]
  by (simp add: sample_list_def count_fits_def sample_def maxStackSize_def result_stack_def counted_def heap_defs)

lemma op_SETITEM_map_witness:
  "h_dict (items_heap (snd (op_SETITEM sample_env 0 sample_instruction (sample [Integer 7, Integer 1, Map 0])))) 0 =
     [(Integer 1, Integer 7)]"
  using op_SETITEM_map [of 0 "sample [Integer 7, Integer 1, Map 0]" "Integer 7" "Integer 1" 0 "[]"
      "[(Integer 1, Integer 7)]" sample_env sample_instruction]
  by (simp add: Map_Count_def heap_defs IsCollection_def)

text \<open>One signature that the second key verifies; and a first key that cannot be read, whatever comes behind it.\<close>

definition picky_env :: "engine env" where
  "picky_env = sample_env\<lparr>primitives_of := sample_primitives\<lparr>decompress := (\<lambda>k. if hd k = 2 then Inr k else Inl PlainException)\<rparr>\<rparr>"

lemma op_CHECKMULTISIG_ok_witness:
  "(\<exists>s'. op_CHECKMULTISIG sample_env 0 sample_instruction
      (sample [Integer 2, ByteArray [1], ByteArray [2], Integer 1, ByteArray [2]]) = (Val (), s') \<and>
    (\<exists>j. get_stack (EStack 0) s' = mk_ras [Boolean j True])) \<and>
   (\<exists>s'. op_CHECKMULTISIG picky_env 0 sample_instruction
      (sample [Integer 2, ByteArray (replicate 33 7), ByteArray [2], Integer 1, ByteArray [2]]) = (Val (), s') \<and>
    (\<exists>j. get_stack (EStack 0) s' = mk_ras [Boolean j False]))"
proof -
  have prim: "primitives_of sample_env = sample_primitives" "container picky_env = Some 0" "GetMessage picky_env = Inr []"
    "decompress (primitives_of picky_env) (replicate 33 7) = Inl PlainException"
    by (simp_all add: picky_env_def hd_replicate)
  have yes: "matching (\<lambda>sig k. VerifySignature sample_primitives [] sig k True = Inr True) [[2]]
      (takeWhile (\<lambda>k. length k = 33 \<longrightarrow> (\<exists>d. decompress sample_primitives k = Inr d)) [[1], [2]])"
    by (simp add: matching_def VerifySignature_def sample_primitives_def) (intro exI [of _ "[[2]]"], simp)
  have no: "\<not> matching V [[2]] []" for V using matching_length [of V "[[2]]" "[]"] by auto
  have "\<exists>s'. op_CHECKMULTISIG sample_env 0 sample_instruction
      (sample [Integer 2, ByteArray [1], ByteArray [2], Integer 1, ByteArray [2]]) = (Val (), s') \<and>
    (\<exists>j. get_stack (EStack 0) s' = mk_ras [Boolean j True])"
    using op_CHECKMULTISIG_ok [of 0 "sample [Integer 2, ByteArray [1], ByteArray [2], Integer 1, ByteArray [2]]"
        "[[1], [2]]" "[[2]]" "[]" sample_env 0 "[]" sample_instruction] yes by (simp add: prim(1))
  moreover have "\<exists>s'. op_CHECKMULTISIG picky_env 0 sample_instruction
      (sample [Integer 2, ByteArray (replicate 33 7), ByteArray [2], Integer 1, ByteArray [2]]) = (Val (), s') \<and>
    (\<exists>j. get_stack (EStack 0) s' = mk_ras [Boolean j False])"
    using op_CHECKMULTISIG_ok [of 0 "sample [Integer 2, ByteArray (replicate 33 7), ByteArray [2], Integer 1, ByteArray [2]]"
        "[replicate 33 7, [2]]" "[[2]]" "[]" picky_env 0 "[]" sample_instruction] prim no by simp
  ultimately show ?thesis by blast
qed

end
