(* ===== verification/Control_Flow.thy ===== *)
theory Control_Flow
  imports Instruction_Properties
begin

text \<open>
  The flow of control: every context's instruction pointer stays inside its script and its cached
  instruction is the one decoded at the pointer (\<open>code_ok\<close>), whenever an instruction succeeds.
  A successful instruction is one that falls through or returns True; a failed one leaves the
  engine in FAULT, possibly with a pointer outside the script.
\<close>

definition context_code_ok :: "exec_context \<Rightarrow> bool" where
  "context_code_ok x \<longleftrightarrow>
     0 \<le> InstructionPointer x \<and> InstructionPointer x \<le> Script_Length (Script x) \<and>
     (\<forall>i. ins x = Some i \<longrightarrow> GetInstruction (Script x) (InstructionPointer x) = Inr i)"

definition code_ok :: "'z engine_scheme \<Rightarrow> bool" where
  "code_ok s \<longleftrightarrow> (\<forall>c. context_code_ok (contexts s c))"

fun succeeds :: "'a res \<Rightarrow> bool" where
  "succeeds (Val a) = True"
| "succeeds (Ret b) = b"
| "succeeds (Exc e) = False"

definition code_view :: "exec_context \<Rightarrow> script \<times> int \<times> instruction option" where
  "code_view x = (Script x, InstructionPointer x, ins x)"

text \<open>
  From a state with \<open>code_ok\<close>, \<open>m\<close> ends in one if it succeeds, and if it goes on the context \<open>c\<close>
  is where it was.
\<close>

definition keeps_code :: "cid \<Rightarrow> ('z engine_scheme, 'a) m \<Rightarrow> bool" where
  "keeps_code c m \<longleftrightarrow>
     (\<forall>s. code_ok s \<and> c < next_context s \<longrightarrow> succeeds (fst (m s)) \<longrightarrow>
        code_ok (snd (m s)) \<and> c < next_context (snd (m s)) \<and>
        (\<forall>a. fst (m s) = Val a \<longrightarrow> code_view (contexts (snd (m s)) c) = code_view (contexts s c)))"

named_theorems code_intros

lemma keeps_codeD:
  assumes "keeps_code c m" "code_ok s" "c < next_context s" "m s = (r, s')" "succeeds r"
  shows "code_ok s'" "c < next_context s'" "r = Val a \<Longrightarrow> code_view (contexts s' c) = code_view (contexts s c)"
  using assms unfolding keeps_code_def by (metis fst_conv snd_conv)+

lemma code_bnd [code_intros]:
  assumes "keeps_code c m" "\<And>a. keeps_code c (f a)"
  shows "keeps_code c (bnd m f)"
  unfolding keeps_code_def
proof (intro allI impI)
  fix s assume s: "code_ok s \<and> c < next_context s" "succeeds (fst (bnd m f s))"
  obtain r s' where m: "m s = (r, s')" by (cases "m s")
  note d = keeps_codeD [OF assms(1) conjunct1 [OF s(1)] conjunct2 [OF s(1)] m]
  show "code_ok (snd (bnd m f s)) \<and> c < next_context (snd (bnd m f s)) \<and>
      (\<forall>a. fst (bnd m f s) = Val a \<longrightarrow> code_view (contexts (snd (bnd m f s)) c) = code_view (contexts s c))"
  proof (cases r)
    case (Val a)
    have "code_ok s' \<and> c < next_context s'" "code_view (contexts s' c) = code_view (contexts s c)"
      using d(1,2) d(3) [of a] Val by simp_all
    then show ?thesis using assms(2) [of a] s(2) by (auto simp: keeps_code_def bnd_def m Val)
  next
    case (Ret b)
    with d(1,2) s(2) show ?thesis by (simp add: bnd_def m)
  next
    case (Exc e)
    with s(2) show ?thesis by (simp add: bnd_def m)
  qed
qed

lemma code_sq [code_intros]: "keeps_code c m \<Longrightarrow> keeps_code c m' \<Longrightarrow> keeps_code c (sq m m')"
  unfolding sq_def by (rule code_bnd)

lemma code_if [code_intros]: "(b \<Longrightarrow> keeps_code c m) \<Longrightarrow> (\<not> b \<Longrightarrow> keeps_code c m') \<Longrightarrow> keeps_code c (if b then m else m')"
  by simp

lemma code_let [code_intros]: "keeps_code c (f a) \<Longrightarrow> keeps_code c (Let a f)"
  by simp

lemma code_case_option [code_intros]:
  "keeps_code c m \<Longrightarrow> (\<And>a. keeps_code c (f a)) \<Longrightarrow> keeps_code c (case x of None \<Rightarrow> m | Some a \<Rightarrow> f a)"
  by (cases x) auto

lemma code_case_prod [code_intros]: "(\<And>a b. keeps_code c (f a b)) \<Longrightarrow> keeps_code c (case p of (a, b) \<Rightarrow> f a b)"
  by (cases p) auto

lemma code_basic [code_intros]:
  "keeps_code c (ret a)" "keeps_code c (fin b)" "keeps_code c (throw e)" "keeps_code c (lft r)" "keeps_code c (gets g)"
  by (auto simp: keeps_code_def monad_defs split: sum.splits)

lemma code_modify:
  "(\<And>s. code_ok s \<Longrightarrow> c < next_context s \<Longrightarrow> code_ok (u s) \<and> c < next_context (u s) \<and>
     code_view (contexts (u s) c) = code_view (contexts s c)) \<Longrightarrow> keeps_code c (modify u)"
  by (simp add: keeps_code_def modify_def)

lemma code_whenm [code_intros]: "keeps_code c m \<Longrightarrow> keeps_code c (whenm b m)"
  by (simp add: whenm_def code_basic)

lemma code_repeatm [code_intros]: "keeps_code c m \<Longrightarrow> keeps_code c (repeatm n m)"
  by (induction n) (auto intro!: code_intros)

lemma code_mapm [code_intros]: "(\<And>x. keeps_code c (f x)) \<Longrightarrow> keeps_code c (mapm f xs)"
  by (induction xs) (auto intro!: code_intros)

section \<open>Primitives\<close>

lemma code_ok_update:
  "Script (f (contexts s c)) = Script (contexts s c) \<Longrightarrow>
   InstructionPointer (f (contexts s c)) = InstructionPointer (contexts s c) \<Longrightarrow>
   ins (f (contexts s c)) = ins (contexts s c) \<Longrightarrow> code_ok s \<Longrightarrow> code_ok (update_context c f s)"
  by (auto simp: code_ok_def update_context_def context_code_ok_def)

lemma code_ok_put [simp]: "code_ok s \<Longrightarrow> code_ok (put_stack k t s)"
  by (cases k) (auto simp: put_stack.simps code_ok_update, auto simp: code_ok_def)

lemma code_view_put [simp]: "code_view (contexts (put_stack k t s) c) = code_view (contexts s c)"
  by (cases k) (auto simp: put_stack.simps update_context_def code_view_def)

lemma code_ok_fields [simp]:
  "code_ok (s\<lparr>VMState := a\<rparr>) = code_ok s"
  "code_ok (s\<lparr>is_stackitem_count_strict := b\<rparr>) = code_ok s"
  "code_ok (s\<lparr>stackitem_count := i\<rparr>) = code_ok s"
  "code_ok (s\<lparr>items_heap := h\<rparr>) = code_ok s"
  "code_ok (s\<lparr>InvocationStack := t\<rparr>) = code_ok s"
  "code_ok (s\<lparr>debugger := d\<rparr>) = code_ok s"
  "code_ok (s\<lparr>ops_processed := i\<rparr>) = code_ok s"
  by (simp_all add: code_ok_def)

lemma code_heap: "keeps_code c (\<lambda>s. let (x, h) = f (items_heap s) in (Val x, s\<lparr>items_heap := h\<rparr>))"
  by (auto simp: keeps_code_def split: prod.splits)

lemma code_on_heap [code_intros]: "keeps_code c (on_heap f)"
  by (auto simp: keeps_code_def on_heap_def split: sum.splits)

lemma code_stack_prims [code_intros]:
  "keeps_code c (Push k x)" "keeps_code c (CopyTo k l n)" "keeps_code c (Clear k)" "keeps_code c (Count k)"
  "keeps_code c set_fault" "keeps_code c CheckMaxInvocationStack"
  unfolding Push_def CopyTo_def Clear_def Count_def set_fault_def CheckMaxInvocationStack_def
  by (rule code_intros code_modify | simp)+

lemma code_stack_ops [code_intros]:
  "keeps_code c (Pop k)" "keeps_code c (Remove k n)" "keeps_code c (Peek k n)" "keeps_code c (Insert k n x)"
  "keeps_code c (SetAt k n x)" "keeps_code c VM_FAULT_and_report" "keeps_code c CurrentContext"
  "keeps_code c CallingContext" "keeps_code c EntryContext" "keeps_code c (remove_context n)"
  unfolding Pop_def Remove_def Peek_def Insert_def SetAt_def VM_FAULT_and_report_def CurrentContext_def
    CallingContext_def EntryContext_def remove_context_def
  by (rule code_intros code_modify | simp)+

lemma code_new_item [code_intros]: "keeps_code c (new_item v)"
  using code_heap [where f = "StackItem_New v"] by (simp add: new_item_def [abs_def])

lemma code_derived [code_intros]:
  "keeps_code c (PushT k v)" "keeps_code c (PopInt k)" "keeps_code c (PopBytes k)" "keeps_code c (PopBool k)"
  "keeps_code c (get_heap f')" "keeps_code c (new_list xs)"
  unfolding PushT_def PopInt_def PopBytes_def PopBool_def get_heap_def new_list_def
  by (rule code_intros)+

lemma code_CheckStackSize [code_intros]: "keeps_code c (CheckStackSize env b n)"
  unfolding CheckStackSize_def
  by (rule code_intros | (rule code_modify, simp; fail))+

lemma code_clone_struct [code_intros]: "keeps_code c (clone_struct env x)"
  by (cases x) (auto simp: clone_struct_def intro: code_intros)

lemma context_code_ok_new: "context_code_ok (ExecutionContext scr rv)"
  by (simp add: context_code_ok_def ExecutionContext_def Script_Length_def)

lemma code_case_debugger [code_intros]:
  "keeps_code c m \<Longrightarrow> keeps_code c m' \<Longrightarrow> (\<And>b. keeps_code c (f b)) \<Longrightarrow>
     keeps_code c (case d of NoAttribute \<Rightarrow> m | NoDebugger \<Rightarrow> m' | Debugger b \<Rightarrow> f b)"
  by (cases d) auto

lemma code_Load [code_intros]: "keeps_code c (LoadScriptInternal scr rv)"
proof -
  have new: "keeps_code c (bnd (gets next_context) (\<lambda>d.
      sq (modify (\<lambda>s. s\<lparr>contexts := (contexts s)(d := ExecutionContext scr rv),
      next_context := Suc d, InvocationStack := ras_PushT d (InvocationStack s),
      ExecutedScriptHashes := ExecutedScriptHashes s @ [s_hash scr]\<rparr>)) (m d)))"
    if "\<And>d. keeps_code c (m d)" for m :: "nat \<Rightarrow> ('a engine_scheme, nat) m"
    using that unfolding keeps_code_def
    by (auto simp: monad_defs code_ok_def context_code_ok_new)
  show ?thesis
    unfolding LoadScriptInternal_def
    by (rule code_intros new | (rule code_modify, simp; fail))+
qed

lemma code_lookup:
  assumes "lookup_only m"
  shows "keeps_code c m"
  using lookup_only_fields [OF assms] assms
  unfolding keeps_code_def code_ok_def lookup_only_def by metis

lemma code_LoadByHash:
  "table_looks_up env \<Longrightarrow> keeps_code c (LoadScriptByHash env h rv :: ('a engine_scheme, nat option) m)"
proof -
  assume tb: "table_looks_up env"
  have "keeps_code c (table k)" if "GetScript env = Some table" for table k
    using tb that by (auto simp: table_looks_up_def intro: code_lookup)
  then show ?thesis
    unfolding LoadScriptByHash_def by (cases "GetScript env") (auto intro!: code_intros)
qed

section \<open>Jumps\<close>

text \<open>Setting a pointer inside the script also fetches the instruction there.\<close>

lemma jump_to_code:
  assumes "code_ok s" "0 \<le> ip" "ip \<le> Script_Length (Script (contexts s c))"
    "jump_to c ip s = (r, s')" "succeeds r"
  shows "code_ok s'"
  using assms
  by (auto simp: jump_to_def monad_defs code_ok_def context_code_ok_def update_context_def
      split: sum.splits if_splits)

lemma current_inside:
  assumes "code_ok s" "CurrentInstruction (contexts s c) = Inr i"
  shows "InstructionPointer (contexts s c) < Script_Length (Script (contexts s c)) \<Longrightarrow>
      InstructionPointer (contexts s c) + Instruction_Size i \<le> Script_Length (Script (contexts s c))"
    and "\<not> InstructionPointer (contexts s c) < Script_Length (Script (contexts s c)) \<Longrightarrow> i = Instruction_RET"
proof -
  have g: "GetInstruction (Script (contexts s c)) (InstructionPointer (contexts s c)) = Inr i"
    and ip: "0 \<le> InstructionPointer (contexts s c)"
    using assms by (auto simp: code_ok_def context_code_ok_def CurrentInstruction_def split: option.splits)
  then show "InstructionPointer (contexts s c) < Script_Length (Script (contexts s c)) \<Longrightarrow>
      InstructionPointer (contexts s c) + Instruction_Size i \<le> Script_Length (Script (contexts s c))"
    using FromScriptAndIP_inside by (auto simp: GetInstruction_def)
  show "\<not> InstructionPointer (contexts s c) < Script_Length (Script (contexts s c)) \<Longrightarrow> i = Instruction_RET"
    using g by (auto simp: GetInstruction_def)
qed

lemma code_ops [code_intros]:
  "keeps_code c (op_PUSHBYTES env k i)" "keeps_code c (op_PUSHINT env k i)" "keeps_code c (op_PUSH0 env k i)"
  "keeps_code c (op_THROW k i)"
  "keeps_code c (op_THROWIFNOT env k i)" "keeps_code c (op_DUPFROMALTSTACK env k i)"
  "keeps_code c (op_TOALTSTACK k i)" "keeps_code c (op_FROMALTSTACK k i)" "keeps_code c (op_XDROP env k i)"
  "keeps_code c (op_XSWAP env k i)" "keeps_code c (op_XTUCK k i)" "keeps_code c (op_DEPTH env k i)"
  "keeps_code c (op_DROP env k i)" "keeps_code c (op_DUP env k i)" "keeps_code c (op_NIP env k i)"
  "keeps_code c (op_OVER env k i)" "keeps_code c (op_PICK k i)" "keeps_code c (op_ROLL env k i)"
  "keeps_code c (op_ROT k i)" "keeps_code c (op_SWAP k i)" "keeps_code c (op_TUCK env k i)"
  "keeps_code c (op_CAT env k i)" "keeps_code c (op_SUBSTR env k i)" "keeps_code c (op_LEFT env k i)"
  "keeps_code c (op_RIGHT env k i)" "keeps_code c (op_SIZE k i)" "keeps_code c (op_INVERT k i)"
  "keeps_code c (op_AND env k i)" "keeps_code c (op_OR env k i)" "keeps_code c (op_XOR env k i)"
  "keeps_code c (op_EQUAL env k i)"
  unfolding stack_op_defs
  by (rule code_intros)+

lemma code_int_binop [code_intros]: "keeps_code c (int_binop env k f)"
  unfolding int_binop_def check_stack_def by (rule code_intros)+

lemma code_numeric_ops [code_intros]:
  "keeps_code c (op_INC k i)" "keeps_code c (op_DEC k i)" "keeps_code c (op_SIGN k i)"
  "keeps_code c (op_NEGATE k i)" "keeps_code c (op_ABS k i)" "keeps_code c (op_NOT env k i)"
  "keeps_code c (op_NZ k i)" "keeps_code c (op_ADD env k i)" "keeps_code c (op_SUB env k i)"
  "keeps_code c (op_MUL env k i)" "keeps_code c (op_DIV env k i)" "keeps_code c (op_MOD env k i)"
  "keeps_code c (op_SHL env k i)" "keeps_code c (op_SHR env k i)" "keeps_code c (op_BOOLAND env k i)"
  "keeps_code c (op_BOOLOR env k i)" "keeps_code c (op_NUMEQUAL env k i)"
  "keeps_code c (op_NUMNOTEQUAL env k i)" "keeps_code c (op_LT env k i)" "keeps_code c (op_GT env k i)"
  "keeps_code c (op_LTE env k i)" "keeps_code c (op_GTE env k i)" "keeps_code c (op_MIN env k i)"
  "keeps_code c (op_MAX env k i)" "keeps_code c (op_WITHIN env k i)" "keeps_code c (op_SHA1 env k i)"
  "keeps_code c (op_SHA256 env k i)" "keeps_code c (op_HASH160 env k i)" "keeps_code c (op_HASH256 env k i)"
  "keeps_code c (op_CHECKSIG env k i)" "keeps_code c (op_VERIFY env k i)"
  "keeps_code c (op_CHECKMULTISIG env k i)"
  unfolding numeric_op_defs check_stack_def
  by (rule code_intros)+

lemma code_collection_ops [code_intros]:
  "keeps_code c (op_ARRAYSIZE env k i)" "keeps_code c (op_PACK k i)" "keeps_code c (op_UNPACK env k i)"
  "keeps_code c (op_PICKITEM env k i)" "keeps_code c (op_SETITEM env k i)"
  "keeps_code c (op_NEWARRAY env k i)" "keeps_code c (op_NEWMAP env k i)"
  "keeps_code c (op_APPEND env k i)" "keeps_code c (op_REVERSE env k i)" "keeps_code c (op_REMOVE env k i)"
  "keeps_code c (op_HASKEY env k i)" "keeps_code c (op_KEYS env k i)" "keeps_code c (op_VALUES env k i)"
  unfolding op_ARRAYSIZE_def op_PACK_def op_UNPACK_def op_PICKITEM_def op_SETITEM_def op_NEWARRAY_def
    op_NEWMAP_def op_APPEND_def op_REVERSE_def op_REMOVE_def op_HASKEY_def op_KEYS_def op_VALUES_def
    check_stack_def check_or_fault_def
  by (rule code_intros)+

text \<open>RET and the jumps never fall through to \<open>MoveNext\<close>.\<close>

lemma code_op_RET: "keeps_code c (op_RET env k i)" "fst (op_RET env k i s) \<noteq> Val a"
proof -
  show "keeps_code c (op_RET env k i)"
    unfolding op_RET_def check_stack_def by (rule code_intros | (rule code_modify, simp; fail))+
  have fin: "fst (bnd m f s) \<noteq> Val a" if "\<And>b s. fst (f b s) \<noteq> Val a"
    for m :: "('x, 'y) m" and f :: "'y \<Rightarrow> ('x, unit) m" and s
    using that by (auto simp: bnd_def split: prod.splits res.splits)
  have fins: "fst (sq m m' s) \<noteq> Val a" if "\<And>s. fst (m' s) \<noteq> Val a"
    for m :: "('x, 'y) m" and m' :: "('x, unit) m" and s
    unfolding sq_def by (rule fin) (rule that)
  show "fst (op_RET env k i s) \<noteq> Val a"
    unfolding op_RET_def Let_def by (intro fin fins) (simp add: fin_def)
qed

lemma frame_check: "contexts (snd (CheckStackSize env b n s)) = contexts s"
  by (auto simp: CheckStackSize_def monad_defs Let_def split: if_splits sum.splits prod.splits)

text \<open>A jump with a checked target; \<open>sz\<close> is the size of the jump instruction.\<close>

lemma code_op_JMP:
  assumes s: "code_ok s" "c < next_context s" and cur: "CurrentInstruction (contexts s c) = Inr i"
    and op: "ins_OpCode i \<in> {OP_JMP, OP_JMPIF, OP_JMPIFNOT}"
    and run: "op_JMP env c i s = (r, s')" "succeeds r"
  shows "code_ok s'" "r \<noteq> Val a"
proof -
  let ?x = "contexts s c"
  let ?offset = "InstructionPointer ?x + TokenI16 i"
  let ?test = "if ins_OpCode i > OP_JMP
      then sq (check_stack env False (- 1))
        (bnd (PopBool (EStack c)) (\<lambda>v. ret (if ins_OpCode i = OP_JMPIFNOT then \<not> v else v)))
      else ret True"
  have ok: "0 \<le> ?offset" "?offset \<le> Script_Length (Script ?x)"
    and tail: "bnd ?test (\<lambda>f. sq (jump_to c (if f then ?offset else InstructionPointer ?x + 3)) (fin True)) s = (r, s')"
    using run by (auto simp: op_JMP_def Let_def run_simps split: if_splits)
  have "i \<noteq> Instruction_RET" using op by (auto simp: Instruction_RET_def opcode_defs)
  then have inside: "InstructionPointer ?x + Instruction_Size i \<le> Script_Length (Script ?x)"
    using current_inside [OF s(1) cur] by blast
  have "Instruction_Size i = 3"
    using op by (auto simp: Instruction_Size_def OperandSizePrefixTable_def OperandSizeTable_def opcode_defs)
  with inside have next_ok: "InstructionPointer ?x + 3 \<le> Script_Length (Script ?x)" by simp
  have ip0: "0 \<le> InstructionPointer ?x" using s(1) by (auto simp: code_ok_def context_code_ok_def)
  obtain rt s1 where t: "?test s = (rt, s1)" by (cases "?test s")
  have keep: "keeps_code c ?test"
    unfolding check_stack_def by (rule code_intros)+
  have nret: "rt \<noteq> Ret b" for b
    using t by (auto simp: check_stack_def PopBool_def Pop_def CheckStackSize_def monad_defs Let_def
        split: if_splits sum.splits prod.splits)
  have "code_ok s' \<and> (\<forall>a. r \<noteq> Val a)"
  proof (cases rt)
    case (Val f)
    note k = keeps_codeD [OF keep s t, unfolded Val]
    have v: "code_ok s1" "Script (contexts s1 c) = Script ?x"
      using k(1) k(3) [of f] by (simp_all add: code_view_def)
    obtain rj s2 where j: "jump_to c (if f then ?offset else InstructionPointer ?x + 3) s1 = (rj, s2)"
      by (cases "jump_to c (if f then ?offset else InstructionPointer ?x + 3) s1")
    have rs: "s' = s2" "rj = Val () \<and> r = Ret True \<or> (\<exists>b. rj = Ret b \<and> r = Ret b) \<or> (\<exists>e. rj = Exc e \<and> r = Exc e)"
      using tail t Val j by (auto simp: bnd_def sq_def fin_def split: res.splits)
    with run(2) have "succeeds rj" by auto
    have "code_ok s'"
      unfolding rs(1) by (rule jump_to_code [OF v(1) _ _ j \<open>succeeds rj\<close>]) (use ok next_ok ip0 v(2) in \<open>auto split: if_splits\<close>)
    then show ?thesis using rs(2) by auto
  next
    case (Ret b)
    with nret show ?thesis by auto
  next
    case (Exc e)
    with tail t run(2) show ?thesis by (auto simp: bnd_def)
  qed
  then show "code_ok s'" "r \<noteq> Val a" by auto
qed

text \<open>A call checks its target after it has set it; a bad one makes the instruction fail.\<close>

lemma code_call:
  assumes "\<And>d. keeps_code c (m d)"
  shows "keeps_code c (bnd (gets (\<lambda>s. contexts s k)) (\<lambda>x.
     bnd (LoadScriptInternal (Script x) rv) (\<lambda>d.
     sq (modify (update_context d (\<lambda>y. y\<lparr>InstructionPointer := InstructionPointer x + off\<rparr>)))
     (if InstructionPointer x + off < 0 \<or> InstructionPointer x + off > Script_Length (Script x) then fin False else m d))))"
  unfolding keeps_code_def
proof (intro allI impI)
  fix s :: "'a engine_scheme"
  let ?x = "contexts s k" and ?ip = "InstructionPointer (contexts s k) + off"
  let ?set = "\<lambda>d. modify (update_context d (\<lambda>y. y\<lparr>InstructionPointer := ?ip\<rparr>)) :: ('a engine_scheme, unit) m"
  let ?body = "bnd (gets (\<lambda>s. contexts s k)) (\<lambda>x.
     bnd (LoadScriptInternal (Script x) rv) (\<lambda>d.
     sq (modify (update_context d (\<lambda>y. y\<lparr>InstructionPointer := InstructionPointer x + off\<rparr>)))
     (if InstructionPointer x + off < 0 \<or> InstructionPointer x + off > Script_Length (Script x) then fin False else m d)))"
  assume s: "code_ok s \<and> c < next_context s" and suc: "succeeds (fst (?body s))"
  obtain r1 s1 where l: "LoadScriptInternal (Script ?x) rv s = (r1, s1)" by (cases "LoadScriptInternal (Script ?x) rv s")
  have body: "?body s = bnd (LoadScriptInternal (Script ?x) rv) (\<lambda>d.
     sq (?set d) (if ?ip < 0 \<or> ?ip > Script_Length (Script ?x) then fin False else m d)) s"
    by (simp add: run_simps)
  show "code_ok (snd (?body s)) \<and> c < next_context (snd (?body s)) \<and>
      (\<forall>a. fst (?body s) = Val a \<longrightarrow> code_view (contexts (snd (?body s)) c) = code_view (contexts s c))"
  proof (cases r1)
    case (Val d)
    have d: "d = next_context s" "contexts s1 = (contexts s)(d := ExecutionContext (Script ?x) rv)" "next_context s1 = Suc d"
      using l Val by (auto simp: LoadScriptInternal_def monad_defs split: option.splits if_splits debugger.splits prod.splits)
    let ?s2 = "update_context d (\<lambda>y. y\<lparr>InstructionPointer := ?ip\<rparr>) s1"
    have ip: "0 \<le> ?ip" "?ip \<le> Script_Length (Script ?x)"
      using suc [unfolded body] by (auto simp: bnd_def l Val sq_def modify_def fin_def split: if_splits)
    have e: "?body s = m d ?s2"
      unfolding body using ip by (simp add: bnd_def l Val sq_def modify_def)
    have "code_ok ?s2"
      using s ip by (auto simp: code_ok_def update_context_def d context_code_ok_def ExecutionContext_def)
    moreover have "c < next_context ?s2" "code_view (contexts ?s2 c) = code_view (contexts s c)"
      using s d(1,3) by (auto simp: update_context_def d(2))
    ultimately show ?thesis
      using assms [of d] suc unfolding e keeps_code_def by auto
  next
    case (Ret b)
    then have False using l by (auto simp: LoadScriptInternal_def monad_defs split: option.splits if_splits debugger.splits prod.splits)
    then show ?thesis ..
  next
    case (Exc e)
    with suc [unfolded body] show ?thesis by (simp add: bnd_def l)
  qed
qed

lemma code_op_CALL: "keeps_code c (op_CALL k i)"
  unfolding op_CALL_def Let_def
  by (rule code_bnd [OF code_stack_prims(6)], rule code_if, rule code_stack_ops, rule code_call) (rule code_intros)+

lemma code_op_CALL_I: "keeps_code c (op_CALL_I k i)"
  unfolding op_CALL_I_def Let_def add.assoc
  by (rule code_bnd [OF code_stack_prims(6)], rule code_if, rule code_stack_ops, (rule code_call | rule code_intros)+)

lemma code_script_calls:
  assumes "table_looks_up env"
  shows "keeps_code c (op_APPCALL env k i)" "keeps_code c (op_CALL_E env k i)"
  unfolding op_APPCALL_def op_CALL_E_def check_stack_def
  by (rule code_intros code_LoadByHash [OF assms])+

definition services_keep_code :: "'z engine_scheme env \<Rightarrow> bool" where
  "services_keep_code env \<longleftrightarrow>
     (\<forall>dict h f c. service env = Some dict \<longrightarrow> dict h = Some f \<longrightarrow> keeps_code c f) \<and> table_looks_up env"

lemma code_op_SYSCALL:
  assumes "services_keep_code env"
  shows "keeps_code c (op_SYSCALL env k i)"
proof -
  have "keeps_code c (Invoke p dict m)" if "service env = Some dict" for p dict m
    using assms that by (auto simp: services_keep_code_def Invoke_def Let_def intro: code_intros split: option.splits)
  then show ?thesis
    unfolding op_SYSCALL_def check_or_return_def
    by (cases "service env") (auto intro!: code_intros)
qed

section \<open>The instruction and the step\<close>

lemma code_cond: "P m \<Longrightarrow> P m' \<Longrightarrow> P (if b then m else m')"
  by simp

lemma code_dispatch:
  assumes s: "code_ok s" "c < next_context s" and cur: "CurrentInstruction (contexts s c) = Inr i"
    and sv: "services_keep_code env" and run: "dispatch env c i s = (r, s')" "succeeds r"
  shows "code_ok s' \<and> (\<forall>a. r = Val a \<longrightarrow>
    code_view (contexts s' c) = code_view (contexts s c) \<and> c < next_context s' \<and> i \<noteq> Instruction_RET)"
proof (cases "ins_OpCode i \<in> {OP_JMP, OP_JMPIF, OP_JMPIFNOT}")
  case True
  then have "dispatch env c i = op_JMP env c i" by (auto simp: dispatch_def opcode_defs)
  with code_op_JMP [OF s cur True] run show ?thesis by metis
next
  case False
  then have jmp: "(ins_OpCode i \<in> {OP_JMP, OP_JMPIF, OP_JMPIFNOT}) = False" by simp
  have tb: "table_looks_up env" using sv by (simp add: services_keep_code_def)
  have keep: "keeps_code c (dispatch env c i)"
    unfolding dispatch_def Let_def jmp if_False
    by (rule code_cond [where P = "keeps_code c"] code_op_CALL code_op_CALL_I code_op_SYSCALL [OF sv] code_script_calls [OF tb] code_op_RET(1)
          code_intros)+
  have "r \<noteq> Val a" if "i = Instruction_RET" for a
  proof -
    have "dispatch env c i = op_RET env c i" using that by (simp add: dispatch_def opcode_defs Instruction_RET_def)
    then show ?thesis using code_op_RET(2) [of env c i s a] run(1) by auto
  qed
  with keeps_codeD [OF keep s run] show ?thesis by auto
qed

text \<open>The instruction that was decoded lies inside the script, and so does the one after it.\<close>

lemma MoveNext_code:
  assumes "code_ok s" "CurrentInstruction (contexts s c) = Inr i" "i \<noteq> Instruction_RET"
    "MoveNext c s = (r, s')" "succeeds r"
  shows "code_ok s'"
proof -
  have inside: "InstructionPointer (contexts s c) + Instruction_Size i \<le> Script_Length (Script (contexts s c))"
    using current_inside [OF assms(1,2)] assms(3) by blast
  have ip0: "0 \<le> InstructionPointer (contexts s c)" using assms(1) by (auto simp: code_ok_def context_code_ok_def)
  obtain rj s2 where j: "jump_to c (InstructionPointer (contexts s c) + Instruction_Size i) s = (rj, s2)"
    by (cases "jump_to c (InstructionPointer (contexts s c) + Instruction_Size i) s")
  have "MoveNext c s = sq (jump_to c (InstructionPointer (contexts s c) + Instruction_Size i))
        (gets (\<lambda>s. InstructionPointer (contexts s c) < Script_Length (Script (contexts s c)))) s"
    by (simp add: MoveNext_def run_simps assms(2))
  then have "s' = s2 \<and> succeeds rj"
    using assms(4,5) by (cases rj) (auto simp: sq_def bnd_def j gets_def)
  moreover have "code_ok s2" if "succeeds rj"
    by (rule jump_to_code [OF assms(1) _ inside j that]) (use ip0 Instruction_Size_pos [of i] in linarith)
  ultimately show ?thesis by blast
qed

text \<open>The invoked contexts are distinct and exist; no instruction breaks that, CALL_EDT included.\<close>

definition calls_wf :: "'z engine_scheme \<Rightarrow> bool" where
  "calls_wf s \<longleftrightarrow> invocation_wf (next_context s) (InvocationStack s)"

interpretation calls: engine_frame calls_wf
proof unfold_locales
  show "calls_wf s \<Longrightarrow> ras_Remove n (InvocationStack s) = Inr (c, t) \<Longrightarrow> calls_wf (s\<lparr>InvocationStack := t\<rparr>)" for s :: "'a engine_scheme" and n c t
    using invocation_wf_Remove by (auto simp: calls_wf_def)
qed (auto simp: calls_wf_def invocation_wf_def ras_PushT_def ras_wf_def list_all_iff)

lemma calls_wf_Peek: "calls_wf s \<Longrightarrow> ras_Peek 0 (InvocationStack s) = Inr c \<Longrightarrow> c < next_context s"
  using ras_Peek_in [of 0 "InvocationStack s" c] by (auto simp: calls_wf_def invocation_wf_def list_all_iff)

lemma ExecuteInstruction_code:
  assumes wf: "calls_wf s" and s: "code_ok s" and sv: "services_keep_code env"
    and run: "ExecuteInstruction env s = (Val True, s')"
  shows "code_ok s'"
proof -
  obtain c where c: "ras_Peek 0 (InvocationStack s) = Inr c"
    using run by (cases "ras_Peek 0 (InvocationStack s)") (auto simp: ExecuteInstruction_def CurrentContext_def catch_ret_def run_simps)
  have cn: "c < next_context s" using calls_wf_Peek [OF wf c] .
  obtain i where i: "CurrentInstruction (contexts s c) = Inr i"
    using run by (cases "CurrentInstruction (contexts s c)") (auto simp: ExecuteInstruction_def CurrentContext_def catch_ret_def run_simps c)
  obtain rd s1 where d: "dispatch env c i s = (rd, s1)" by (cases "dispatch env c i s")
  have e: "ExecuteInstruction env s = catch_ret (sq (dispatch env c i) (sq (MoveNext c) (ret True))) s"
    by (simp add: ExecuteInstruction_def CurrentContext_def catch_ret_def run_simps c i)
  have "succeeds rd" using run d by (auto simp: e catch_ret_def sq_def bnd_def split: res.splits)
  note D = code_dispatch [OF s cn i sv d this]
  show ?thesis
  proof (cases rd)
    case (Val u)
    with D have k: "code_view (contexts s1 c) = code_view (contexts s c)" "i \<noteq> Instruction_RET" by auto
    then have i1: "CurrentInstruction (contexts s1 c) = Inr i" using i by (simp add: CurrentInstruction_def code_view_def split: option.splits)
    obtain rm s2 where m: "MoveNext c s1 = (rm, s2)" by (cases "MoveNext c s1")
    have nr: "rm \<noteq> Ret b" for b
      using m by (auto simp: MoveNext_def jump_to_def monad_defs split: sum.splits)
    have "s' = s2 \<and> succeeds rm"
      using run d m Val nr by (auto simp: e catch_ret_def sq_def bnd_def ret_def split: res.splits)
    with MoveNext_code [OF _ i1 k(2) m] D show ?thesis by blast
  next
    case (Ret b)
    with D run d show ?thesis by (auto simp: e catch_ret_def sq_def bnd_def)
  next
    case (Exc x)
    with run d show ?thesis by (auto simp: e catch_ret_def sq_def bnd_def)
  qed
qed

end
