(* ===== verification/Engine_Step.thy ===== *)
theory Engine_Step
  imports Control_Flow Samples
begin

text \<open>
  The step of \<open>ExecuteNext\<close> seen from outside: a step that leaves the engine running has passed
  the hook and executed its instruction, so \<open>code_ok\<close> holds again; and a loop whose steps decrease
  a measure ends.
\<close>

text \<open>What the engine expects of a service: it acts through the engine's own operations.\<close>

definition services_behave :: "'z engine_scheme env \<Rightarrow> bool" where
  "services_behave env \<longleftrightarrow>
     (\<forall>dict h f. service env = Some dict \<longrightarrow> dict h = Some f \<longrightarrow>
        keeps (\<lambda>s. \<not> running s) f \<and> keeps calls_wf f \<and> (\<forall>n. keeps (\<lambda>s. ops_processed s = n) f) \<and>
        (\<forall>c. keeps_code c f)) \<and> table_looks_up env"

lemma lookups_keep:
  assumes "lookup_only m"
  shows "keeps (\<lambda>s. \<not> running s) m" "keeps calls_wf m" "keeps (\<lambda>s. ops_processed s = n) m"
  by (simp_all add: keeps_def running_def calls_wf_def lookup_only_fields [OF assms])

lemma host_keepsI:
  assumes "\<And>dict h f. service env = Some dict \<Longrightarrow> dict h = Some f \<Longrightarrow> keeps P f"
    "table_looks_up env" "\<And>m :: ('z engine_scheme, bytes option) m. lookup_only m \<Longrightarrow> keeps P m"
  shows "host_keeps P env"
  using assms by (auto simp: host_keeps_def table_looks_up_def)

lemma services_behave_host:
  assumes "services_behave env"
  shows "host_keeps (\<lambda>s. \<not> running s) env" "host_keeps calls_wf env" "host_keeps (\<lambda>s. ops_processed s = n) env"
  by (rule host_keepsI, use assms lookups_keep in \<open>auto simp: services_behave_def\<close>)+

definition hook_keeps_code :: "('z engine_scheme, bool) m \<Rightarrow> bool" where
  "hook_keeps_code m \<longleftrightarrow>
     (\<forall>s. InvocationStack (snd (m s)) = InvocationStack s \<and> contexts (snd (m s)) = contexts s \<and>
          next_context (snd (m s)) = next_context s \<and> VMState (snd (m s)) = VMState s \<and>
          ops_processed (snd (m s)) = ops_processed s)"

lemma running_cong: "VMState s = VMState s' \<Longrightarrow> running s = running s'"
  by (simp add: running_def)

lemma or_fault_outcome:
  assumes "or_fault hook s = (r, s')"
  obtains (passed) "r = Val ()" "catch_ret hook s = (Val True, s')"
    | (failed) t where "r = Val ()" "catch_ret hook s = (Val False, t)" "s' = t\<lparr>VMState := VM_FAULT\<rparr>"
    | (raised) e where "r = Exc e"
proof -
  obtain q t where q: "catch_ret hook s = (q, t)" by (cases "catch_ret hook s")
  then have nr: "q \<noteq> Ret b" for b by (auto simp: catch_ret_def split: prod.splits res.splits)
  with q assms show thesis
    by (cases q) (auto simp: or_fault_def set_fault_def monad_defs split: if_splits
      intro: passed failed raised)
qed

lemma or_fault_passes: "hook s = (Val True, s') \<Longrightarrow> or_fault hook s = (Val (), s')"
  by (simp add: or_fault_def catch_ret_def bnd_def whenm_def ret_def)

lemma run_sq_val: "m s = (Val a, s') \<Longrightarrow> sq m m' s = m' s'"
  by (simp add: sq_def bnd_def)

lemma catch_ret_idem: "catch_ret (catch_ret m) = catch_ret m"
  by (auto simp: catch_ret_def fun_eq_iff split: prod.splits res.splits)

lemma keeps_or_fault: "keeps (\<lambda>s. \<not> running s) hook \<Longrightarrow> keeps (\<lambda>s. \<not> running s) (or_fault hook)"
  unfolding or_fault_def by (rule stopped.keeps_prims | assumption)+

lemma hook_stays_stopped: "hook_keeps_code hook \<Longrightarrow> keeps (\<lambda>s. \<not> running s) hook"
  unfolding keeps_def hook_keeps_code_def using running_cong by metis

lemma stopped_ExecuteInstruction: "services_behave env \<Longrightarrow> keeps (\<lambda>s. \<not> running s) (ExecuteInstruction env)"
  by (rule stopped.keeps_ExecuteInstruction) (rule services_behave_host)

text \<open>What the step did, when it leaves the engine running.\<close>

lemma running_step:
  assumes run: "running (ExecuteNext env pre post s)" and ex: "exit_on_error env"
    and sv: "services_behave env" and hooks: "hook_keeps_code pre" "hook_keeps_code post"
  obtains c i t u where
    "ras_Count (InvocationStack s) \<noteq> 0" "ras_Peek 0 (InvocationStack s) = Inr c"
    "CurrentInstruction (contexts s c) = Inr i"
    "catch_ret pre (s\<lparr>ops_processed := ops_processed s + 1\<rparr>) = (Val True, t)"
    "ExecuteInstruction env t = (Val True, u)"
    "catch_ret post u = (Val True, ExecuteNext env pre post s)"
proof -
  let ?s = "s\<lparr>ops_processed := ops_processed s + 1\<rparr>" and ?n = "ExecuteNext env pre post s"
  have cnt: "ras_Count (InvocationStack s) \<noteq> 0" using run by (auto simp: ExecuteNext_def)
  obtain r n where b: "step_body env pre post ?s = (r, n)" by (cases "step_body env pre post ?s")
  have n: "?n = n" "\<And>e. r \<noteq> Exc e"
    using run cnt b ex by (auto simp: ExecuteNext_def split: res.splits)
  have stop: "keeps (\<lambda>s. \<not> running s) (or_fault (ExecuteInstruction env))" "keeps (\<lambda>s. \<not> running s) (or_fault post)"
    using keeps_or_fault stopped_ExecuteInstruction [OF sv] hook_stays_stopped [OF hooks(2)] by blast+
  obtain c where c: "ras_Peek 0 (InvocationStack s) = Inr c"
    using b n(2) by (cases "ras_Peek 0 (InvocationStack s)") (auto simp: step_body_def CurrentContext_def run_simps)
  obtain i where i: "CurrentInstruction (contexts s c) = Inr i"
    using b n(2) by (cases "CurrentInstruction (contexts s c)") (auto simp: step_body_def CurrentContext_def run_simps c)
  have b: "sq (or_fault pre) (sq (or_fault (ExecuteInstruction env)) (or_fault post)) ?s = (r, n)"
    using b by (simp add: step_body_def CurrentContext_def run_simps c i)
  obtain r1 t where 1: "or_fault pre ?s = (r1, t)" by (cases "or_fault pre ?s")
  obtain r2 u where 2: "or_fault (ExecuteInstruction env) t = (r2, u)" by (cases "or_fault (ExecuteInstruction env) t")
  obtain r3 v where 3: "or_fault post u = (r3, v)" by (cases "or_fault post u")
  have v: "r1 = Val ()" "r2 = Val ()" "r3 = Val ()" "v = n"
    using b n(2) or_fault_outcome [OF 1] or_fault_outcome [OF 2] or_fault_outcome [OF 3]
    by (auto simp: sq_def bnd_def 1 2 3 split: res.splits)
  have rv: "running v" "running u" "running t"
    using run n(1) v(4) keepsD [OF stop(2) _ 3] keepsD [OF stop(1) _ 2] by auto
  show thesis
  proof (rule that [OF cnt c i])
    show "catch_ret pre ?s = (Val True, t)" using or_fault_outcome [OF 1] v(1) rv(3) by fastforce
    show "ExecuteInstruction env t = (Val True, u)" 
      using or_fault_outcome [OF 2] v(2) rv(2) by (fastforce simp: ExecuteInstruction_def catch_ret_idem)
    show "catch_ret post u = (Val True, ?n)" using or_fault_outcome [OF 3] v(3,4) rv(1) n(1) by fastforce
  qed
qed


lemma running_step_code:
  assumes run: "running (ExecuteNext env pre post s)" and ex: "exit_on_error env"
    and sv: "services_behave env" and hooks: "hook_keeps_code pre" "hook_keeps_code post"
    and s: "calls_wf s" "code_ok s"
  shows "calls_wf (ExecuteNext env pre post s)" "code_ok (ExecuteNext env pre post s)"
    "ops_processed (ExecuteNext env pre post s) = ops_processed s + 1"
proof -
  obtain t u where pre: "catch_ret pre (s\<lparr>ops_processed := ops_processed s + 1\<rparr>) = (Val True, t)"
    and ins: "ExecuteInstruction env t = (Val True, u)"
    and post: "catch_ret post u = (Val True, ExecuteNext env pre post s)"
    using running_step [OF run ex sv hooks] by metis
  have hook: "InvocationStack b = InvocationStack a \<and> contexts b = contexts a \<and> next_context b = next_context a \<and>
      ops_processed b = ops_processed a" if "hook_keeps_code h" "catch_ret h a = (r, b)" for h and a b :: "'a engine_scheme" and r
    using that by (cases "h a") (auto simp: hook_keeps_code_def catch_ret_def split: res.splits dest!: spec [of _ a])
  have t: "calls_wf t" "code_ok t" "ops_processed t = ops_processed s + 1"
    using hook [OF hooks(1) pre] s by (simp_all add: calls_wf_def code_ok_def)
  have k: "keeps calls_wf (ExecuteInstruction env)" "keeps (\<lambda>s. ops_processed s = ops_processed t) (ExecuteInstruction env)"
    by (rule calls.keeps_ExecuteInstruction steps.keeps_ExecuteInstruction services_behave_host [OF sv])+
  have u: "calls_wf u" "ops_processed u = ops_processed t"
    using keepsD [OF k(1) t(1) ins] keepsD [OF k(2) refl ins] by simp_all
  have "services_keep_code env" using sv by (auto simp: services_behave_def services_keep_code_def)
  then have "code_ok u" using ExecuteInstruction_code [OF t(1,2) _ ins] by blast
  with u t(3) hook [OF hooks(2) post]
  show "calls_wf (ExecuteNext env pre post s)" "code_ok (ExecuteNext env pre post s)"
    "ops_processed (ExecuteNext env pre post s) = ops_processed s + 1"
    by (simp_all add: calls_wf_def code_ok_def)
qed

lemma services_behave_None: "service env = None \<Longrightarrow> table_looks_up env \<Longrightarrow> services_behave env"
  by (simp add: services_behave_def)

lemma code_InteropService: "InteropService env h = Some f \<Longrightarrow> keeps_code c f"
proof -
  have hash: "keeps_code c (bnd (gets (\<lambda>s. s_hash (Script (contexts s d)))) (\<lambda>h. sq (PushT k (PyBytes h)) (ret True)))" for d k
    by (rule code_intros)+
  have "keeps_code c (GetScriptContainer env)"
    unfolding GetScriptContainer_def by (rule code_heap code_intros)+
  moreover have "keeps_code c GetExecutingScriptHash" "keeps_code c GetCallingScriptHash" "keeps_code c GetEntryScriptHash"
    unfolding GetExecutingScriptHash_def GetCallingScriptHash_def GetEntryScriptHash_def
    by (rule code_intros hash)+
  ultimately show "InteropService env h = Some f \<Longrightarrow> keeps_code c f"
    by (auto simp: InteropService_def Register_def Let_def split: if_splits)
qed

lemma services_behave_InteropService: "table_looks_up env \<Longrightarrow> services_behave (env\<lparr>service := Some (InteropService env)\<rparr>)"
  using stopped.keeps_InteropService calls.keeps_InteropService steps.keeps_InteropService code_InteropService
  by (auto simp: services_behave_def) 

section \<open>Returning from a context\<close>

interpretation same_calls: item_frame "\<lambda>s. InvocationStack s = t" for t
  by unfold_locales simp_all

lemma remove_context_then:
  assumes "InvocationStack s = mk_ras (d # ds)" "\<And>d. keeps (\<lambda>s. InvocationStack s = mk_ras ds) (f d)"
  shows "InvocationStack (snd (bnd (remove_context 0) f s)) = mk_ras ds"
  using assms(1) assms(2) [of d] by (simp add: run_simps keeps_def)

text \<open>RET takes its context off the invocation stack, whatever else happens.\<close>

lemma op_RET_pops:
  assumes "calls_wf s" "ras_Count (InvocationStack s) \<noteq> 0"
  shows "ras_Count (InvocationStack (snd (op_RET env c i s))) < ras_Count (InvocationStack s)"
proof -
  obtain d ds where inv: "InvocationStack s = mk_ras (d # ds)"
    using assms by (cases "ras_view (InvocationStack s)")
      (auto simp: calls_wf_def invocation_wf_def elim!: ras_wfE)
  have "InvocationStack (snd (op_RET env c i s)) = mk_ras ds"
    unfolding op_RET_def check_stack_def
    by (rule remove_context_then [OF inv]) (rule same_calls.keeps_prims0 | (rule keeps_modify, simp))+
  then show ?thesis by (simp add: inv)
qed

text \<open>At the end of its script, a context returns.\<close>

lemma end_of_script_pops:
  assumes s: "calls_wf s" "code_ok s" and c: "ras_Peek 0 (InvocationStack s) = Inr c"
    and ip: "InstructionPointer (contexts s c) \<ge> Script_Length (Script (contexts s c))"
    and run: "ExecuteInstruction env s = (Val True, s')"
  shows "ras_Count (InvocationStack s') < ras_Count (InvocationStack s)"
proof -
  obtain i where i: "CurrentInstruction (contexts s c) = Inr i"
    using run by (cases "CurrentInstruction (contexts s c)") (auto simp: ExecuteInstruction_def CurrentContext_def catch_ret_def run_simps c)
  have "i = Instruction_RET" using current_inside(2) [OF s(2) i] ip by simp
  then have d: "dispatch env c i = op_RET env c i" by (simp add: dispatch_def opcode_defs Instruction_RET_def)
  have "ExecuteInstruction env s = catch_ret (sq (op_RET env c i) (sq (MoveNext c) (ret True))) s"
    by (simp add: ExecuteInstruction_def CurrentContext_def catch_ret_def run_simps c i d)
  then have "s' = snd (op_RET env c i s)"
    using run code_op_RET(2) [of env c i s]
    by (cases "op_RET env c i s"; cases "fst (op_RET env c i s)") (auto simp: catch_ret_def sq_def bnd_def)
  moreover have "ras_Count (InvocationStack s) \<noteq> 0"
    using c s(1) by (auto simp: ras_Peek_def ras_index_def ras_Count_def split: if_splits)
  ultimately show ?thesis using op_RET_pops [OF s(1)] by simp
qed

section \<open>Loops that end\<close>

lemma loop_ends:
  assumes step: "\<And>s. P s \<Longrightarrow> running s \<Longrightarrow> running (ExecuteNext env pre post s) \<Longrightarrow>
      P (ExecuteNext env pre post s) \<and> (ExecuteNext env pre post s, s) \<in> measures fs"
  shows "P s \<Longrightarrow> \<exists>t. loop_stepinto env pre post s = Some t \<and> \<not> running t"
proof (induction s rule: wf_induct_rule [OF wf_measures [of fs]])
  case (1 s)
  show ?case
  proof (cases "running s")
    case run: True
    show ?thesis
    proof (cases "running (ExecuteNext env pre post s)")
      case True
      with 1 run step show ?thesis by (subst loop_stepinto.simps) simp
    next
      case False
      with run show ?thesis by (subst loop_stepinto.simps, subst loop_stepinto.simps) simp
    qed
  next
    case False
    then show ?thesis by (subst loop_stepinto.simps) simp
  qed
qed

section \<open>Properties\<close>

lemma running_was_running:
  assumes "running (ExecuteNext env pre post s)" "exit_on_error env" "services_behave env"
    "hook_keeps_code pre" "hook_keeps_code post"
  shows "running s"
proof -
  obtain t u where pre: "catch_ret pre (s\<lparr>ops_processed := ops_processed s + 1\<rparr>) = (Val True, t)"
    and ins: "ExecuteInstruction env t = (Val True, u)"
    and post: "catch_ret post u = (Val True, ExecuteNext env pre post s)"
    using running_step [OF assms] by metis
  have hook: "VMState b = VMState a" if "hook_keeps_code h" "catch_ret h a = (r, b)" for h and a b :: "'a engine_scheme" and r
    using that by (cases "h a") (auto simp: hook_keeps_code_def catch_ret_def split: res.splits dest!: spec [of _ a])
  have "running u" using hook [OF assms(5) post] assms(1) running_cong by metis
  then have "running t" using keepsD [OF stopped_ExecuteInstruction [OF assms(3)] _ ins] by blast
  then show ?thesis using hook [OF assms(4) pre] by (simp add: running_def)
qed

text \<open>
  C3. While a run goes on, every context's pointer stays inside its script and its cached instruction
  is the one decoded there, and the invoked contexts are distinct and exist - dynamic calls included.
\<close>

theorem code_along_run:
  assumes "exit_on_error env" "services_behave env" "hook_keeps_code pre" "hook_keeps_code post"
    and "calls_wf s" "code_ok s"
  shows "running ((ExecuteNext env pre post ^^ n) s) \<Longrightarrow>
    calls_wf ((ExecuteNext env pre post ^^ n) s) \<and> code_ok ((ExecuteNext env pre post ^^ n) s)"
proof (induction n)
  case (Suc n)
  let ?t = "(ExecuteNext env pre post ^^ n) s"
  have run: "running (ExecuteNext env pre post ?t)" using Suc.prems by simp
  then have "calls_wf ?t" "code_ok ?t" using Suc.IH running_was_running [OF run assms(1-4)] by blast+
  with running_step_code [OF run assms(1-4)] show ?case by simp
qed (use assms(5,6) in simp)

lemma hook_keeps_code_base: "hook_keeps_code PreExecuteInstruction" "hook_keeps_code PostExecuteInstruction"
  by (simp_all add: hook_keeps_code_def PreExecuteInstruction_def PostExecuteInstruction_def ret_def)

lemma calls_wf_loaded: "calls_wf s \<Longrightarrow> calls_wf (loaded scr rv s)"
  by (auto simp: calls_wf_def loaded_def invocation_wf_def ras_PushT_def ras_wf_def list_all_iff)

lemma code_ok_loaded: "code_ok s \<Longrightarrow> code_ok (loaded scr rv s)"
  by (simp add: code_ok_def loaded_def context_code_ok_new)

lemma initial_code: "calls_wf ExecutionEngine" "code_ok ExecutionEngine"
  by (simp_all add: calls_wf_def invocation_wf_def ExecutionEngine_def ras_empty_def ras_wf_def code_ok_def
      context_code_ok_new)

lemma sample_nops_code: "calls_wf sample_nops" "code_ok sample_nops"
  using calls_wf_loaded [OF initial_code(1)] code_ok_loaded [OF initial_code(2)]
  by (simp_all add: sample_nops_def calls_wf_def)

text \<open>A step whose instruction falls through.\<close>

lemma ExecuteNext_falls_through:
  assumes "InvocationStack s = mk_ras (c # cs)" "CurrentInstruction (contexts s c) = Inr i"
    and pre: "pre (s\<lparr>ops_processed := ops_processed s + 1\<rparr>) = (Val True, s')"
    and s': "InvocationStack s' = mk_ras (c # cs)" "CurrentInstruction (contexts s' c) = Inr i"
    and d: "dispatch env c i s' = (Val (), t)"
    and mv: "MoveNext c t = (Val b, u)" and post: "post u = (Val True, v)"
  shows "ExecuteNext env pre post s = v"
proof -
  let ?s = "s\<lparr>ops_processed := ops_processed s + 1\<rparr>"
  have peek: "ras_Peek 0 (mk_ras (c # cs)) = Inr c" by (simp add: ras_Peek_mk)
  have "ExecuteInstruction env s' = (Val True, u)"
    by (simp add: ExecuteInstruction_def CurrentContext_def catch_ret_def run_simps s' peek run_sq_val d mv)
  then have ins: "or_fault (ExecuteInstruction env) s' = (Val (), u)" by (intro or_fault_passes)
  have hooks: "or_fault pre ?s = (Val (), s')" "or_fault post u = (Val (), v)"
    using pre post by (auto intro: or_fault_passes)
  have "step_body env pre post ?s = (Val (), v)"
    by (simp add: step_body_def CurrentContext_def run_simps assms(1,2) peek run_sq_val hooks ins)
  then show ?thesis by (simp add: ExecuteNext_def assms(1))
qed

lemma sample_nops_decode:
  "ip = 0 \<or> ip = 1 \<Longrightarrow>
     GetInstruction \<lparr>s_value = [0x61, 0x61], s_hash = []\<rparr> ip = Inr \<lparr>ins_OpCode = OP_NOP, ins_Operand = []\<rparr>"
  by (auto simp: GetInstruction_def FromScriptAndIP_def Script_Length_def py_nth_def py_index_def
      OperandSizePrefixTable_def OperandSizeTable_def opcode_defs)

lemma sample_nops_fields:
  "InvocationStack sample_nops = mk_ras [0]"
  "contexts sample_nops 0 = ExecutionContext \<lparr>s_value = [0x61, 0x61], s_hash = []\<rparr> (- 1)"
  "CurrentInstruction (contexts sample_nops 0) = Inr \<lparr>ins_OpCode = OP_NOP, ins_Operand = []\<rparr>"
  by (simp_all add: sample_nops_def loaded_def ExecutionEngine_def ras_empty_mk CurrentInstruction_def
      ExecutionContext_def sample_nops_decode)

lemma sample_nops_step:
  "running (ExecuteNext sample_env PreExecuteInstruction PostExecuteInstruction sample_nops)"
proof -
  let ?nop = "\<lparr>ins_OpCode = OP_NOP, ins_Operand = []\<rparr>"
  let ?s = "sample_nops\<lparr>ops_processed := ops_processed sample_nops + 1\<rparr>"
  note inv = sample_nops_fields(1) and cx = sample_nops_fields(2) and cur = sample_nops_fields(3)
  note dec = sample_nops_decode
  have d: "dispatch sample_env 0 ?nop ?s = (Val (), ?s)"
    by (simp add: dispatch_def opcode_defs ret_def)
  have sz: "Instruction_Size ?nop = 1"
    by (simp add: Instruction_Size_def OperandSizePrefixTable_def OperandSizeTable_def opcode_defs)
  obtain b u where mv: "MoveNext 0 ?s = (Val b, u)" "VMState u = VMState ?s"
    using cur by (auto simp: MoveNext_def jump_to_def monad_defs cx ExecutionContext_def CurrentInstruction_def sz
      Script_Length_def dec update_context_def)
  have "ExecuteNext sample_env PreExecuteInstruction PostExecuteInstruction sample_nops = u"
    by (rule ExecuteNext_falls_through [OF inv cur _ _ _ d mv(1)])
       (use inv cur in \<open>simp_all add: PreExecuteInstruction_def PostExecuteInstruction_def ret_def\<close>)
  with mv(2) show ?thesis
    by (simp add: running_def sample_nops_def VM_NONE_def has_flag_def)
qed

lemma code_along_run_witness:
  "code_ok ((ExecuteNext sample_env PreExecuteInstruction PostExecuteInstruction ^^ 1) sample_nops)"
  using code_along_run [where env = sample_env, OF _ services_behave_None hook_keeps_code_base sample_nops_code, of 1] sample_nops_step
  by simp

text \<open>
  C4. In every state that a run reaches from a loaded script, the stacks count what they hold, the
  invoked contexts are distinct and exist, and no item refers to an object the heap does not have -
  as long as no dynamic call with stack isolation is run.
\<close>

theorem reachable_engine_wf:
  assumes "vm_reachable env pre post ((snd (LoadScriptInternal scr rv ExecutionEngine))\<lparr>VMState := VM_NONE\<rparr>) s"
    and "services_safe env" "hook_ok pre" "hook_ok post"
  shows "engine_wf s"
proof (rule vm_reachable_wf [OF assms(1) _ assms(2-4)])
  have "engine_wf (snd (LoadScriptInternal scr rv ExecutionEngine))"
    using LoadScriptInternal_wf [OF engine_wf_initial] by (metis prod.collapse)
  then show "engine_wf ((snd (LoadScriptInternal scr rv ExecutionEngine))\<lparr>VMState := VM_NONE\<rparr>)"
    by (simp add: engine_wf_def heap_size_def)
qed

lemma reachable_engine_wf_witness:
  "engine_wf (ExecuteNext sample_env PreExecuteInstruction PostExecuteInstruction sample_nops)"
proof -
  have load: "sample_nops =
      (snd (LoadScriptInternal \<lparr>s_value = [0x61, 0x61], s_hash = []\<rparr> (- 1) ExecutionEngine))\<lparr>VMState := VM_NONE\<rparr>"
    by (simp add: sample_nops_def loaded_def LoadScriptInternal_def monad_defs ExecutionEngine_def)
  have "running sample_nops" by (simp add: sample_nops_def running_def VM_NONE_def has_flag_def)
  moreover have "\<not> dynamic_isolated sample_nops"
    by (simp add: dynamic_isolated_def sample_nops_fields(1,3) ras_Peek_mk opcode_defs)
  ultimately have "vm_reachable sample_env PreExecuteInstruction PostExecuteInstruction sample_nops
      (ExecuteNext sample_env PreExecuteInstruction PostExecuteInstruction sample_nops)"
    by (intro vm_reachable.step vm_reachable.start)
  from reachable_engine_wf [OF this [unfolded load] _ hook_ok_base] show ?thesis
    by (simp add: services_safe_def load)
qed

end
