(* ===== verification/Gas_Limit.thy ===== *)
theory Gas_Limit
  imports Application_Engine Engine_Step
begin

text \<open>
  What the gas limit of \<open>ApplicationEngine\<close> achieves: an engine that is still running has stayed
  within its gas, and a test run ends after \<open>max_free_ops\<close> instructions at the latest. Both rest on
  the hook, which changes nothing but \<open>gas_consumed\<close>.
\<close>

section \<open>The hook\<close>

text \<open>
  A computation that leaves what \<open>v\<close> shows of the state, and ends in a value or an exception. The price
  changes nothing; a lookup of a contract may change the cache it looks in, behind the fields of the
  application engine.
\<close>

definition looks_at :: "('s \<Rightarrow> 'v) \<Rightarrow> ('s, 'a) m \<Rightarrow> bool" where
  "looks_at v m \<longleftrightarrow> (\<forall>s. v (snd (m s)) = v s \<and> (\<forall>b. fst (m s) \<noteq> Ret b))"

abbreviation looks :: "('s, 'a) m \<Rightarrow> bool" where
  "looks \<equiv> looks_at id"

abbreviation app_lookup :: "('z app_engine_scheme, 'a) m \<Rightarrow> bool" where
  "app_lookup \<equiv> looks_at app_engine.truncate"

named_theorems looks_intros

lemma looks_atD: "looks_at v m \<Longrightarrow> m s = (r, s') \<Longrightarrow> v s' = v s \<and> r \<noteq> Ret b"
  by (auto simp: looks_at_def dest!: spec [of _ s])

lemma looksD: "looks m \<Longrightarrow> m s = (r, s') \<Longrightarrow> s' = s \<and> r \<noteq> Ret b"
  using looks_atD [of id m s r s' b] by simp

lemma looks_atI: "(\<And>s r s'. m s = (r, s') \<Longrightarrow> v s' = v s \<and> (\<forall>b. r \<noteq> Ret b)) \<Longrightarrow> looks_at v m"
  unfolding looks_at_def by (metis prod.collapse)

lemma looks_bnd [looks_intros]:
  assumes "looks_at v m" "\<And>a. looks_at v (f a)"
  shows "looks_at v (bnd m f)"
proof (rule looks_atI)
  fix s r s' assume run: "bnd m f s = (r, s')"
  obtain q t where m: "m s = (q, t)" by (cases "m s")
  show "v s' = v s \<and> (\<forall>b. r \<noteq> Ret b)"
    using run looks_atD [OF assms(1) m] looks_atD [OF assms(2), of _ t r s'] by (cases q) (auto simp: bnd_def m)
qed

lemma looks_basic [looks_intros]:
  "looks_at v (ret a)" "looks_at v (lft r)" "looks_at v (gets g)" "looks_at v (throw e)"
  by (auto simp: looks_at_def monad_defs split: sum.splits)

lemma looks_if [looks_intros]: "looks_at v m \<Longrightarrow> looks_at v m' \<Longrightarrow> looks_at v (if b then m else m')"
  by simp

lemma looks_let [looks_intros]: "looks_at v (f a) \<Longrightarrow> looks_at v (Let a f)"
  by simp

lemma looks_option [looks_intros]:
  "looks_at v m \<Longrightarrow> (\<And>a. looks_at v (f a)) \<Longrightarrow> looks_at v (case x of None \<Rightarrow> m | Some a \<Rightarrow> f a)"
  by (cases x) auto

lemma looks_stack [looks_intros]:
  "looks_at v CurrentContext" "looks_at v (Peek k n)" "looks_at v (peek_bytes_length c n)"
  unfolding CurrentContext_def Peek_def peek_bytes_length_def by (rule looks_intros)+

lemma looks_price: "looks (GetPrice env)"
proof -
  have "looks (GetPriceForSysCall env)" unfolding GetPriceForSysCall_def by (rule looks_intros)+
  then show ?thesis unfolding GetPrice_def by (intro looks_intros)
qed

lemma lookup_CheckDynamicInvoke:
  "(\<And>h. app_lookup (HasDynamicInvoke env h)) \<Longrightarrow> app_lookup (CheckDynamicInvoke env)"
  unfolding CheckDynamicInvoke_def by (rule looks_intros | assumption)+

lemma app_truncate_fields:
  assumes "app_engine.truncate s = app_engine.truncate t"
  shows "VMState s = VMState t" "InvocationStack s = InvocationStack t" "contexts s = contexts t"
    "next_context s = next_context t" "ops_processed s = ops_processed t" "gas_consumed s = gas_consumed t"
    "gas_amount s = gas_amount t" "testMode s = testMode t"
  using assms by (simp_all add: app_engine.defs)

text \<open>The outcomes of the hook.\<close>

lemma hook_outcome:
  assumes lk: "\<And>h. app_lookup (HasDynamicInvoke env h)"
  obtains (end_of_script) c where "ras_Peek 0 (InvocationStack s) = Inr c"
      "InstructionPointer (contexts s c) \<ge> Script_Length (Script (contexts s c))"
      "app_PreExecuteInstruction env s = (Val True, s)"
    | (raised) e where "app_PreExecuteInstruction env s = (Exc e, s)"
    | (charged) c price b t where "ras_Peek 0 (InvocationStack s) = Inr c"
      "InstructionPointer (contexts s c) < Script_Length (Script (contexts s c))"
      "GetPrice env s = (Val price, s)" "app_PreExecuteInstruction env s = (Val b, t)"
      "app_engine.truncate t = app_engine.truncate (s\<lparr>gas_consumed := gas_consumed s + price * ratio\<rparr>)"
      "b \<Longrightarrow> if testMode s then ops_processed s \<le> max_free_ops
           else gas_consumed s + price * ratio \<le> gas_amount s"
proof (cases "ras_Peek 0 (InvocationStack s)")
  case (Inl e)
  then show thesis by (intro raised) (simp add: app_PreExecuteInstruction_def CurrentContext_def run_simps)
next
  case (Inr c)
  show thesis
  proof (cases "InstructionPointer (contexts s c) \<ge> Script_Length (Script (contexts s c))")
    case True
    then show thesis
      by (intro end_of_script [OF Inr]) (simp_all add: app_PreExecuteInstruction_def CurrentContext_def run_simps Inr)
  next
    case ip: False
    obtain r s' where g: "GetPrice env s = (r, s')" by (cases "GetPrice env s")
    have g': "s' = s" "r \<noteq> Ret b" for b
      using looksD [OF looks_price g] by simp_all
    show thesis
    proof (cases r)
      case (Val price)
      let ?s = "s\<lparr>gas_consumed := gas_consumed s + price * ratio\<rparr>"
      obtain rd sd where d: "CheckDynamicInvoke env ?s = (rd, sd)" by (cases "CheckDynamicInvoke env ?s")
      have d': "app_engine.truncate sd = app_engine.truncate ?s" "rd \<noteq> Ret b" for b
        using looks_atD [OF lookup_CheckDynamicInvoke [OF lk] d] by simp_all
      have pass: "pass_on_error (CheckDynamicInvoke env) ?s = (Val (case rd of Val b \<Rightarrow> b | _ \<Rightarrow> True), sd)"
        using d d'(2) by (auto simp: pass_on_error_def split: res.splits)
      have "app_PreExecuteInstruction env s = 
         (if \<not> testMode s \<and> gas_consumed s + price * ratio > gas_amount s then (Val False, ?s)
          else if testMode s \<and> ops_processed s > max_free_ops then (Val False, ?s)
          else (Val (case rd of Val b \<Rightarrow> b | _ \<Rightarrow> True), sd))"
        using ip g g' Val pass
        by (simp add: app_PreExecuteInstruction_def CurrentContext_def run_simps Inr bnd_def [of "GetPrice env"])
      with ip g g' Val d'(1) show thesis
        by (cases "app_PreExecuteInstruction env s")
           (auto intro!: charged [OF Inr] split: if_splits)
    next
      case (Exc e)
      with ip g g' show thesis
        by (intro raised) (simp add: app_PreExecuteInstruction_def CurrentContext_def run_simps Inr bnd_def [of "GetPrice env"])
    qed (use g' in auto)
  qed
qed

lemma hook_keeps_code_app:
  assumes "\<And>h. app_lookup (HasDynamicInvoke env h)"
  shows "hook_keeps_code (app_PreExecuteInstruction env)"
  unfolding hook_keeps_code_def
proof
  fix s
  show "InvocationStack (snd (app_PreExecuteInstruction env s)) = InvocationStack s \<and>
      contexts (snd (app_PreExecuteInstruction env s)) = contexts s \<and>
      next_context (snd (app_PreExecuteInstruction env s)) = next_context s \<and>
      VMState (snd (app_PreExecuteInstruction env s)) = VMState s \<and>
      ops_processed (snd (app_PreExecuteInstruction env s)) = ops_processed s"
  proof (rule hook_outcome [OF assms, of s])
    fix b t price assume pre: "app_PreExecuteInstruction env s = (Val b, t)"
      and t: "app_engine.truncate t = app_engine.truncate (s\<lparr>gas_consumed := gas_consumed s + price * ratio\<rparr>)"
    show ?thesis using app_truncate_fields [OF t] by (simp add: pre)
  qed simp_all
qed

lemma hook_keeps_code_Post: "hook_keeps_code PostExecuteInstruction"
  by (simp add: hook_keeps_code_def PostExecuteInstruction_def ret_def)

section \<open>Steps\<close>

text \<open>
  What the engine expects of its services beyond the base engine's demands: that they leave the
  accounting alone, and so do the two lookups in the snapshot.
\<close>

definition accounts :: "'z app_engine_scheme \<Rightarrow> int \<times> int \<times> bool" where
  "accounts s = (gas_consumed s, gas_amount s, testMode s)"

definition app_services_behave :: "'z app_engine_scheme app_env \<Rightarrow> bool" where
  "app_services_behave env \<longleftrightarrow> services_behave (vm_env env) \<and>
     (\<forall>dict h f a. service (vm_env env) = Some dict \<longrightarrow> dict h = Some f \<longrightarrow> keeps (\<lambda>s. accounts s = a) f) \<and>
     (\<forall>table h. GetScript (vm_env env) = Some table \<longrightarrow> app_lookup (table h)) \<and>
     (\<forall>h. app_lookup (HasDynamicInvoke env h))"

interpretation accounting: engine_frame "\<lambda>s. accounts s = a" for a
  by unfold_locales (simp_all add: accounts_def)

lemma accounts_lookup: "app_lookup m \<Longrightarrow> keeps (\<lambda>s. accounts s = a) m"
proof -
  assume m: "app_lookup m"
  then have "app_engine.truncate (snd (m s)) = app_engine.truncate s" for s by (simp add: looks_at_def)
  from app_truncate_fields(6-8) [OF this] show ?thesis by (simp add: keeps_def accounts_def)
qed

lemma accounts_host: "app_services_behave env \<Longrightarrow> host_keeps (\<lambda>s. accounts s = a) (vm_env env)"
  using accounts_lookup unfolding host_keeps_def app_services_behave_def by blast

text \<open>A step that leaves the engine running was paid for, and stayed within the free operations.\<close>

lemma app_running_step:
  assumes run: "running (app_ExecuteNext env s)" and ex: "exit_on_error (vm_env env)"
    and sv: "app_services_behave env"
  obtains c g t where
    "ras_Peek 0 (InvocationStack s) = Inr c"
    "app_engine.truncate t = app_engine.truncate (s\<lparr>ops_processed := ops_processed s + 1, gas_consumed := g\<rparr>)"
    "ExecuteInstruction (vm_env env) t = (Val True, app_ExecuteNext env s)"
    "accounts (app_ExecuteNext env s) = (g, gas_amount s, testMode s)"
    "InstructionPointer (contexts s c) \<ge> Script_Length (Script (contexts s c)) \<and> g = gas_consumed s \<or>
     (if testMode s then ops_processed s < max_free_ops else g \<le> gas_amount s)"
proof -
  let ?n = "app_ExecuteNext env s" and ?s = "s\<lparr>ops_processed := ops_processed s + 1\<rparr>"
  have run': "running (ExecuteNext (vm_env env) (app_PreExecuteInstruction env) PostExecuteInstruction s)"
    using run by (simp add: app_ExecuteNext_def)
  have sv': "services_behave (vm_env env)" and lk: "\<And>h. app_lookup (HasDynamicInvoke env h)"
    using sv by (simp_all add: app_services_behave_def)
  obtain c t u where c: "ras_Peek 0 (InvocationStack s) = Inr c"
    and pre: "catch_ret (app_PreExecuteInstruction env) ?s = (Val True, t)"
    and ins: "ExecuteInstruction (vm_env env) t = (Val True, u)"
    and post: "catch_ret PostExecuteInstruction u = (Val True, ?n)"
    using running_step [OF run' ex sv' hook_keeps_code_app [OF lk] hook_keeps_code_Post]
    by (metis app_ExecuteNext_def)
  have u: "u = ?n" using post by (simp add: PostExecuteInstruction_def catch_ret_def ret_def)
  obtain g where t: "app_engine.truncate t = app_engine.truncate (s\<lparr>ops_processed := ops_processed s + 1, gas_consumed := g\<rparr>)"
    and g: "InstructionPointer (contexts s c) \<ge> Script_Length (Script (contexts s c)) \<and> g = gas_consumed s \<or>
     (if testMode s then ops_processed s < max_free_ops else g \<le> gas_amount s)"
  proof (rule hook_outcome [OF lk, of ?s])
    fix c' assume *: "ras_Peek 0 (InvocationStack ?s) = Inr c'"
      "InstructionPointer (contexts ?s c') \<ge> Script_Length (Script (contexts ?s c'))"
      "app_PreExecuteInstruction env ?s = (Val True, ?s)"
    show thesis by (rule that [of "gas_consumed s"]) (use * pre c in \<open>auto simp: catch_ret_def\<close>)
  next
    fix e assume "app_PreExecuteInstruction env ?s = (Exc e, ?s)"
    with pre show thesis by (simp add: catch_ret_def)
  next
    fix c' price b t' assume *: "ras_Peek 0 (InvocationStack ?s) = Inr c'"
      "app_PreExecuteInstruction env ?s = (Val b, t')"
      "app_engine.truncate t' = app_engine.truncate (?s\<lparr>gas_consumed := gas_consumed ?s + price * ratio\<rparr>)"
      "b \<Longrightarrow> if testMode ?s then ops_processed ?s \<le> max_free_ops
           else gas_consumed ?s + price * ratio \<le> gas_amount ?s"
    show thesis
      by (rule that [of "gas_consumed s + price * ratio"]) (use * pre in \<open>auto simp: catch_ret_def\<close>)
  qed
  have "keeps (\<lambda>s. accounts s = accounts t) (ExecuteInstruction (vm_env env))"
    by (rule accounting.keeps_ExecuteInstruction) (rule accounts_host [OF sv])
  from keepsD [OF this refl ins] app_truncate_fields [OF t] u
  have "accounts ?n = (g, gas_amount s, testMode s)" by (simp add: accounts_def)
  from that [OF c t ins [unfolded u] this g] show thesis .
qed

lemma step_was_running:
  assumes "running (app_ExecuteNext env s)" "exit_on_error (vm_env env)" "app_services_behave env"
  shows "running s"
proof (rule app_running_step [OF assms])
  fix c g t
  assume t: "app_engine.truncate t = app_engine.truncate (s\<lparr>ops_processed := ops_processed s + 1, gas_consumed := g\<rparr>)"
    and ins: "ExecuteInstruction (vm_env env) t = (Val True, app_ExecuteNext env s)"
  have "keeps (\<lambda>s. \<not> running s) (ExecuteInstruction (vm_env env))"
    using assms(3) by (intro stopped_ExecuteInstruction) (simp add: app_services_behave_def)
  from keepsD [OF this _ ins] have "running t" using assms(1) by blast
  then show "running s" using app_truncate_fields(1) [OF t] by (simp add: running_def)
qed

section \<open>The gas limit\<close>

text \<open>C2. An application engine outside test mode that is still running after any number of steps has
  consumed at most its gas.\<close>

theorem gas_limit:
  assumes ex: "exit_on_error (vm_env env)" and sv: "app_services_behave env"
    and s: "\<not> testMode s" "gas_consumed s \<le> gas_amount s"
  shows "running ((app_ExecuteNext env ^^ n) s) \<Longrightarrow>
    \<not> testMode ((app_ExecuteNext env ^^ n) s) \<and> gas_amount ((app_ExecuteNext env ^^ n) s) = gas_amount s \<and>
    gas_consumed ((app_ExecuteNext env ^^ n) s) \<le> gas_amount s"
proof (induction n)
  case (Suc n)
  let ?t = "(app_ExecuteNext env ^^ n) s"
  have run: "running (app_ExecuteNext env ?t)" using Suc.prems by simp
  have IH: "\<not> testMode ?t" "gas_amount ?t = gas_amount s" "gas_consumed ?t \<le> gas_amount s"
    using Suc.IH [OF step_was_running [OF run ex sv]] by simp_all
  show ?case
  proof (rule app_running_step [OF run ex sv])
    fix c g u
    assume "accounts (app_ExecuteNext env ?t) = (g, gas_amount ?t, testMode ?t)"
      and "InstructionPointer (contexts ?t c) \<ge> Script_Length (Script (contexts ?t c)) \<and> g = gas_consumed ?t \<or>
       (if testMode ?t then ops_processed ?t < max_free_ops else g \<le> gas_amount ?t)"
    with IH show ?case by (auto simp: accounts_def)
  qed
qed (use s in simp)

section \<open>Test runs end\<close>

definition in_test :: "'z app_engine_scheme \<Rightarrow> bool" where
  "in_test s \<longleftrightarrow> testMode s \<and> calls_wf s \<and> code_ok s"

lemma test_step:
  assumes run: "running (app_ExecuteNext env s)" and ex: "exit_on_error (vm_env env)"
    and sv: "app_services_behave env" and s: "in_test s"
  shows "in_test (app_ExecuteNext env s)"
    and "(app_ExecuteNext env s, s) \<in> measures
      [\<lambda>s. nat (max_free_ops - ops_processed s), \<lambda>s. nat (ras_Count (InvocationStack s))]"
proof -
  let ?n = "app_ExecuteNext env s"
  have sv': "services_behave (vm_env env)" and lk: "\<And>h. app_lookup (HasDynamicInvoke env h)"
    using sv by (simp_all add: app_services_behave_def)
  have wf: "calls_wf s" "code_ok s" "testMode s" using s by (simp_all add: in_test_def)
  note code = running_step_code [OF run [unfolded app_ExecuteNext_def] ex sv' hook_keeps_code_app [OF lk] hook_keeps_code_Post wf(1,2),
      folded app_ExecuteNext_def]
  obtain c g t where st: "ras_Peek 0 (InvocationStack s) = Inr c"
    "app_engine.truncate t = app_engine.truncate (s\<lparr>ops_processed := ops_processed s + 1, gas_consumed := g\<rparr>)"
    "ExecuteInstruction (vm_env env) t = (Val True, ?n)"
    "accounts ?n = (g, gas_amount s, testMode s)"
    "InstructionPointer (contexts s c) \<ge> Script_Length (Script (contexts s c)) \<or> ops_processed s < max_free_ops"
    by (rule app_running_step [OF run ex sv]) (use wf(3) in auto)
  show "in_test ?n" using code st(4) wf(3) by (simp add: in_test_def accounts_def)
  have "ras_Count (InvocationStack ?n) < ras_Count (InvocationStack s)"
    if "\<not> ops_processed s < max_free_ops"
    using end_of_script_pops [of t c "vm_env env" ?n] app_truncate_fields [OF st(2)] st that wf by (simp add: calls_wf_def code_ok_def)
  moreover have "0 \<le> ras_Count (InvocationStack ?n)"
    using code(1) by (simp add: calls_wf_def invocation_wf_def ras_wf_def ras_Count_def)
  ultimately show "(?n, s) \<in> measures
      [\<lambda>s. nat (max_free_ops - ops_processed s), \<lambda>s. nat (ras_Count (InvocationStack s))]"
    using code(3) by auto
qed

lemma test_run_ends:
  assumes "exit_on_error (vm_env env)" "app_services_behave env" "in_test s"
  shows "\<exists>r t. app_Execute env s = Some (r, t) \<and> \<not> running t"
proof -
  let ?s = "s\<lparr>VMState := clear_break (VMState s)\<rparr>"
  have "in_test ?s" using assms(3) by (simp add: in_test_def calls_wf_def)
  then have "\<exists>t. loop_stepinto (vm_env env) (app_PreExecuteInstruction env) PostExecuteInstruction ?s = Some t \<and> \<not> running t"
  proof (rule loop_ends [rotated])
    fix u assume "in_test u" "running (ExecuteNext (vm_env env) (app_PreExecuteInstruction env) PostExecuteInstruction u)"
    then show "in_test (ExecuteNext (vm_env env) (app_PreExecuteInstruction env) PostExecuteInstruction u) \<and>
      (ExecuteNext (vm_env env) (app_PreExecuteInstruction env) PostExecuteInstruction u, u) \<in> measures
        [\<lambda>s. nat (max_free_ops - ops_processed s), \<lambda>s. nat (ras_Count (InvocationStack s))]"
      using test_step [OF _ assms(1,2)] unfolding app_ExecuteNext_def by blast
  qed
  then show ?thesis by (auto simp: app_Execute_def Execute_def)
qed

lemma in_test_initial: "in_test (snd (LoadScript env scr rv (ApplicationEngine z gas True)))"
proof -
  have dm: "debug_map (ApplicationEngine z gas True) = None"
    by (simp add: ApplicationEngine_def ExecutionEngine_def engine.defs)
  have "bnd (LoadScript env scr rv) ret (ApplicationEngine z gas True) =
      ret (next_context (ApplicationEngine z gas True)) (loaded (Script_new (Hash160 (primitives_of env)) scr) rv (ApplicationEngine z gas True))"
    unfolding LoadScript_def by (rule run_LoadScriptInternal [OF dm])
  moreover have "snd (bnd m ret t) = snd (m t)" for m :: "('z app_engine_scheme, cid) m" and t
    by (auto simp: bnd_def ret_def split: prod.splits res.splits)
  ultimately have "snd (LoadScript env scr rv (ApplicationEngine z gas True)) =
      loaded (Script_new (Hash160 (primitives_of env)) scr) rv (ApplicationEngine z gas True)"
    by (metis ret_def snd_conv)
  then show ?thesis
    by (auto simp: in_test_def loaded_def calls_wf_def invocation_wf_def code_ok_def context_code_ok_new
      ApplicationEngine_def ExecutionEngine_def engine.defs ras_defs ras_wf_def)
qed

text \<open>C1. A test run ends for every script: after \<open>max_free_ops\<close> instructions every further step fails or
  returns from a context.\<close>

theorem test_Run_ends:
  assumes "exit_on_error (vm_env env)" "app_services_behave env"
  shows "\<exists>r. Run env z scr gas True wb = Some r"
proof -
  have "\<exists>r t. app_Execute env (snd (LoadScript (vm_env env) bs (- 1) (ApplicationEngine z gas True))) = Some (r, t)" for bs
    using test_run_ends [OF assms in_test_initial] by blast
  then show ?thesis by (fastforce simp: Run_def split: option.splits)
qed

section \<open>The last instruction is not stopped\<close>

text \<open>
  The hook's refusal sets FAULT, but the instruction runs all the same: when it is the RET of the
  last context, the engine halts as if the gas had sufficed.
\<close>

theorem last_RET_overruns:
  assumes inv: "InvocationStack s = mk_ras [c]"
    and cur: "CurrentInstruction (contexts s c) = Inr i" "ins_OpCode i = OP_RET"
    and ip: "InstructionPointer (contexts s c) < Script_Length (Script (contexts s c))"
    and rv: "RVCount (contexts s c) = - 1" and st: "get_stack (EStack c) s = mk_ras xs"
    and cnt: "count_fits s 0"
    and gas: "\<not> testMode s" "gas_amount s < gas_consumed s + ratio"
  shows "VMState (app_ExecuteNext env s) = VM_HALT \<and>
    gas_amount (app_ExecuteNext env s) < gas_consumed (app_ExecuteNext env s)"
proof -
  let ?s = "s\<lparr>ops_processed := ops_processed s + 1\<rparr>"
  let ?t = "?s\<lparr>gas_consumed := gas_consumed s + ratio\<rparr>"
  have peek: "ras_Peek 0 (mk_ras [c]) = Inr c" by (simp add: ras_Peek_mk)
  have "GetPrice env ?s = (Val 1, ?s)"
    by (simp add: GetPrice_def CurrentContext_def run_simps inv peek cur opcode_defs)
  then have pre: "app_PreExecuteInstruction env ?s = (Val False, ?t)"
    using gas ip by (simp add: app_PreExecuteInstruction_def CurrentContext_def run_simps inv peek bnd_def [of "GetPrice env"])
  let ?u = "?t\<lparr>VMState := VM_FAULT\<rparr>"
  have pre': "or_fault (app_PreExecuteInstruction env) ?s = (Val (), ?u)"
    by (simp add: or_fault_def catch_ret_def bnd_def pre whenm_def set_fault_def modify_def)
  have "dispatch (vm_env env) c i = op_RET (vm_env env) c i"
    using cur(2) by (simp add: dispatch_def opcode_defs)
  then have ex: "ExecuteInstruction (vm_env env) ?u = catch_ret (sq (op_RET (vm_env env) c i) (sq (MoveNext c) (ret True))) ?u"
    by (simp add: ExecuteInstruction_def CurrentContext_def catch_ret_def run_simps inv peek cur(1))
  have ras: "RVCount (contexts ?u c) = - 1" "get_stack (EStack c) ?u = mk_ras xs" "InvocationStack ?u = mk_ras [c]"
    "count_fits ?u 0"
    using rv st inv cnt by (simp_all add: get_stack.simps count_fits_def)
  have "fst (op_RET (vm_env env) c i u) = Ret True \<and> VMState (snd (op_RET (vm_env env) c i u)) = VM_HALT"
    if "RVCount (contexts u c) = - 1" "get_stack (EStack c) u = mk_ras xs" "InvocationStack u = mk_ras [c]"
    "count_fits u 0" for u
    using that
    by (cases "xs = []") (simp_all add: op_RET_def run_simps whenm_def)
  from this [OF ras] obtain v where ret: "op_RET (vm_env env) c i ?u = (Ret True, v)" "VMState v = VM_HALT"
    by (cases "op_RET (vm_env env) c i ?u") auto
  have "ExecuteInstruction (vm_env env) ?u = (Val True, v)"
    using ex by (simp add: catch_ret_def sq_def bnd_def ret(1))
  then have ins: "or_fault (ExecuteInstruction (vm_env env)) ?u = (Val (), v)"
    by (intro or_fault_passes)
  have post: "or_fault PostExecuteInstruction v = (Val (), v)"
    by (intro or_fault_passes) (simp add: PostExecuteInstruction_def ret_def)
  have "step_body (vm_env env) (app_PreExecuteInstruction env) PostExecuteInstruction ?s = (Val (), v)"
    by (simp add: step_body_def CurrentContext_def run_simps inv peek cur(1) run_sq_val pre' ins post)
  then have "app_ExecuteNext env s = v"
    by (simp add: app_ExecuteNext_def ExecuteNext_def inv)
  moreover have "accounts v = accounts ?u"
    using keepsD [OF accounting.keeps_op_RET refl ret(1)] .
  ultimately show ?thesis
    using ret(2) gas by (simp_all add: accounts_def)
qed

section \<open>Instances\<close>

definition sample_app_env :: "app_engine app_env" where
  "sample_app_env = \<lparr>vm_env = sample_env, HasDynamicInvoke = (\<lambda>_. ret True), Service_GetPrice = (\<lambda>_. Inr 0)\<rparr>"

lemma sample_app_services: "app_services_behave sample_app_env" "exit_on_error (vm_env sample_app_env)"
  by (simp_all add: sample_app_env_def app_services_behave_def services_behave_None looks_basic)

lemma test_Run_ends_witness: "\<exists>r. Run sample_app_env () [0x51, 0x63, 0xff] 0 True True = Some r"
  by (rule test_Run_ends [OF sample_app_services(2,1)])

text \<open>An engine at a RET, with all but its last hundred thousand units of gas consumed.\<close>

definition sample_ret :: app_engine where
  "sample_ret =
     (loaded \<lparr>s_value = [0x66], s_hash = []\<rparr> (- 1) (ApplicationEngine () 0 False))
       \<lparr>VMState := VM_NONE, gas_consumed := gas_free - 1\<rparr>"

lemma sample_ret_fields:
  "InvocationStack sample_ret = mk_ras [0]" "RVCount (contexts sample_ret 0) = - 1"
  "get_stack (EStack 0) sample_ret = mk_ras []" "count_fits sample_ret 0" "\<not> testMode sample_ret"
  "gas_amount sample_ret = gas_free" "gas_consumed sample_ret = gas_free - 1"
  "InstructionPointer (contexts sample_ret 0) < Script_Length (Script (contexts sample_ret 0))"
  by (simp_all add: sample_ret_def loaded_def ApplicationEngine_def ExecutionEngine_def engine.defs ras_empty_mk
      ExecutionContext_def count_fits_def maxStackSize_def get_stack.simps Script_Length_def)

lemma sample_ret_current:
  "CurrentInstruction (contexts sample_ret 0) = Inr \<lparr>ins_OpCode = OP_RET, ins_Operand = []\<rparr>"
  by (simp add: sample_ret_def loaded_def ApplicationEngine_def ExecutionEngine_def engine.defs ExecutionContext_def
      CurrentInstruction_def GetInstruction_def FromScriptAndIP_def Script_Length_def py_nth_def py_index_def
      OperandSizePrefixTable_def OperandSizeTable_def opcode_defs)

lemma last_RET_overruns_witness:
  "VMState (app_ExecuteNext sample_app_env sample_ret) = VM_HALT \<and>
     gas_amount (app_ExecuteNext sample_app_env sample_ret) < gas_consumed (app_ExecuteNext sample_app_env sample_ret)"
  by (rule last_RET_overruns [OF sample_ret_fields(1) sample_ret_current _ sample_ret_fields(8,2,3,4,5)])
     (simp_all add: sample_ret_fields ratio_def)

text \<open>The application engine at the first of two NOPs.\<close>

definition sample_app_nops :: app_engine where
  "sample_app_nops =
     (loaded \<lparr>s_value = [0x61, 0x61], s_hash = []\<rparr> (- 1) (ApplicationEngine () 0 False))\<lparr>VMState := VM_NONE\<rparr>"

lemma sample_app_nops_fields:
  "InvocationStack sample_app_nops = mk_ras [0]"
  "contexts sample_app_nops 0 = ExecutionContext \<lparr>s_value = [0x61, 0x61], s_hash = []\<rparr> (- 1)"
  "CurrentInstruction (contexts sample_app_nops 0) = Inr \<lparr>ins_OpCode = OP_NOP, ins_Operand = []\<rparr>"
  "\<not> testMode sample_app_nops" "gas_consumed sample_app_nops = 0" "gas_amount sample_app_nops = gas_free"
  by (simp_all add: sample_app_nops_def loaded_def ApplicationEngine_def ExecutionEngine_def engine.defs ras_empty_mk
      CurrentInstruction_def ExecutionContext_def sample_nops_decode)

lemma sample_app_nops_step: "running (app_ExecuteNext sample_app_env sample_app_nops)"
proof -
  let ?nop = "\<lparr>ins_OpCode = OP_NOP, ins_Operand = []\<rparr>"
  let ?s = "sample_app_nops\<lparr>ops_processed := ops_processed sample_app_nops + 1\<rparr>"
  note inv = sample_app_nops_fields(1) and cx = sample_app_nops_fields(2) and cur = sample_app_nops_fields(3)
  have peek: "ras_Peek 0 (mk_ras [0]) = Inr 0" by (simp add: ras_Peek_mk)
  have price: "GetPrice sample_app_env ?s = (Val 0, ?s)"
    by (simp add: GetPrice_def CurrentContext_def run_simps inv peek cur)
  have dyn: "CheckDynamicInvoke sample_app_env t = (Val True, t)"
    if "InvocationStack t = mk_ras [0]" "contexts t 0 = contexts sample_app_nops 0" for t
    using cur by (simp add: CheckDynamicInvoke_def CurrentContext_def run_simps that peek opcode_defs)
  have pre: "app_PreExecuteInstruction sample_app_env ?s = (Val True, ?s\<lparr>gas_consumed := 0\<rparr>)"
    using inv cx by (simp add: app_PreExecuteInstruction_def CurrentContext_def run_simps peek bnd_def [of "GetPrice _"] price
      sample_app_nops_fields(4-6) gas_free_def pass_on_error_def dyn ExecutionContext_def Script_Length_def)
  have d: "dispatch (vm_env sample_app_env) 0 ?nop t = (Val (), t)" for t
    by (simp add: dispatch_def opcode_defs ret_def)
  have sz: "Instruction_Size ?nop = 1"
    by (simp add: Instruction_Size_def OperandSizePrefixTable_def OperandSizeTable_def opcode_defs)
  obtain b u where mv: "MoveNext 0 (?s\<lparr>gas_consumed := 0\<rparr>) = (Val b, u)" "VMState u = VMState ?s"
    using cur by (auto simp: MoveNext_def jump_to_def monad_defs cx ExecutionContext_def CurrentInstruction_def sz
      Script_Length_def sample_nops_decode update_context_def)
  have "app_ExecuteNext sample_app_env sample_app_nops = u"
    unfolding app_ExecuteNext_def
    by (rule ExecuteNext_falls_through [OF inv cur, where s' = "?s\<lparr>gas_consumed := 0\<rparr>"])
       (use inv cur pre d mv(1) in \<open>simp_all add: PostExecuteInstruction_def ret_def\<close>)
  with mv(2) show ?thesis
    by (simp add: running_def sample_app_nops_def VM_NONE_def has_flag_def)
qed

lemma gas_limit_witness:
  "gas_consumed ((app_ExecuteNext sample_app_env ^^ 1) sample_app_nops) \<le> gas_free"
  using gas_limit [OF sample_app_services(2,1) sample_app_nops_fields(4), of 1] sample_app_nops_step
  by (simp add: sample_app_nops_fields gas_free_def)

end
