(* ===== verification/Stack_Isolation.thy ===== *)
theory Stack_Isolation
  imports Instruction_Properties
begin

text \<open>
  The calls with stack isolation: CALL_E passes its parameters to the new context and keeps the
  rest of the stack; CALL_EDT can be made to succeed with a broken stack.
\<close>

section \<open>Stack isolation\<close>

lemma run_LoadScriptByHash [run_simps]:
  assumes "debug_map s = None" "GetScript env = Some table" "table (ascii (hex (rev h))) = ret (Some scr)"
    "length h = 20"
  shows "bnd (LoadScriptByHash env h rv) f s = f (Some (next_context s)) (loaded (Script_FromHash h scr) rv s)"
  using assms
  by (simp add: LoadScriptByHash_def UInt160_def UIntBase_new_def uint_ToBytes_def uint_ToString_def run_simps)

lemma ras_CopyTo_over:
  "ras_CopyTo (mk_ras (x # xs)) ras_empty (int (length xs) + 2) =
     \<lparr>ras_list = [x], ras_size = int (length xs) + 2\<rparr>"
  by (simp add: ras_CopyTo_def mk_ras_def ras_empty_def py_slice_from_def py_clamp_def drop_rev take_Suc)

text \<open>CALL_EDT compares the parameter count with the stack before it pops the script hash: with as
  many items as parameters it succeeds, and the new context gets a stack that counts them all and holds one.\<close>

theorem CALL_EDT_breaks_stack:
  assumes st: "get_stack (EStack c) s = mk_ras (ByteArray h # x # xs)" and h: "length h = 20"
    and i: "ins_OpCode i = OP_CALL_EDT" "ins_Operand i = rv # pc # rest" "uint pc = int (length xs) + 2"
    and rv: "RVCount (contexts s c) = uint rv"
    and inv: "InvocationStack s = mk_ras (c # cs)" "c < next_context s"
    and cnt: "count_fits s (- 1)" and dm: "debug_map s = None"
    and tb: "GetScript env = Some table" "table (ascii (hex (rev h))) = ret (Some scr)"
  shows "\<exists>s'. op_CALL_E env c i s = (Val (), s') \<and> InvocationStack s' = mk_ras (next_context s # cs) \<and>
      get_stack (EStack (next_context s)) s' = \<lparr>ras_list = [x], ras_size = int (length xs) + 2\<rparr>"
proof -
  have op: "(ins_OpCode i = OP_CALL_ET) = False" "OP_CALL_EDT \<noteq> OP_CALL_ET" "OP_CALL_EDT \<noteq> OP_CALL_ED" 
    using i(1) by (simp_all add: opcode_defs)
  from inv(2) have ne: "c \<noteq> next_context s" by simp
  show ?thesis
  using i inv cnt dm tb h rv st ne
  by (simp add: op_CALL_E_def run_simps op py_nth_def py_index_def ras_CopyTo_over)
qed

lemma run_CheckMaxInvocationStack [run_simps]:
  "InvocationStack s = mk_ras cs \<Longrightarrow> bnd CheckMaxInvocationStack f s = f (int (length cs) < 1024) s"
  by (simp add: CheckMaxInvocationStack_def run_simps maxInvocationStackSize_def)

text \<open>C40. CALL_E starts a context with the script of the contract whose stack holds the parameters in their
  order, and leaves the caller what is below them.\<close>

theorem op_CALL_E_ok:
  assumes st: "get_stack (EStack c) s = mk_ras (xs @ ys)"
    and i: "ins_OpCode i = OP_CALL_E" "ins_Operand i = rv # pc # h" "unat pc = length xs" "length h = 20"
    and inv: "InvocationStack s = mk_ras cs" "length cs < 1024" "c < next_context s" and dm: "debug_map s = None"
    and tb: "GetScript env = Some table" "table (ascii (hex (rev h))) = ret (Some scr)"
  shows "\<exists>s'. op_CALL_E env c i s = (Val (), s') \<and> InvocationStack s' = mk_ras (next_context s # cs) \<and>
      get_stack (EStack (next_context s)) s' = mk_ras xs \<and> get_stack (EStack c) s' = mk_ras ys"
proof -
  have ne: "c \<noteq> next_context s" using inv(3) by simp
  have pc: "uint pc = int (length xs)" using i(3) by (simp add: uint_nat)
  have op: "OP_CALL_E \<notin> {OP_CALL_ET, OP_CALL_EDT}" "OP_CALL_E \<notin> {OP_CALL_ED, OP_CALL_EDT}"
    by (simp_all add: opcode_defs)
  have rd: "Instruction_ReadBytes i 2 20 = Inr h"
    using i by (simp add: Instruction_ReadBytes_def ReadExactBytes_def py_slice_nonneg)
  have cp: "ras_CopyTo (mk_ras (xs @ ys)) ras_empty (int (length xs)) = mk_ras xs"
    using ras_CopyTo_mk(2) [of "int (length xs)" "xs @ ys" "[]"] by (simp add: ras_empty_mk)
  let ?t = "put_stack (EStack (next_context s)) (mk_ras xs) (loaded (Script_FromHash h scr) (uint rv) s)"
  have pop: "bnd (repeatm (length xs) (Pop (EStack c))) (\<lambda>_. ret ()) ?t =
      (Val (), if xs = [] then ?t else put_stack (EStack c) (mk_ras ys) ?t)"
    using st ne by (subst run_repeatm_Pop [of _ _ xs ys]) (simp_all add: run_simps)
  show ?thesis
    using st i inv dm tb rd ne op pop
    by (auto simp: op_CALL_E_def run_simps py_nth_def py_index_def pc cp Let_def)
qed

section \<open>Instances\<close>

definition sample_table :: "'s env" where
  "sample_table = sample_env\<lparr>GetScript := Some (\<lambda>_. ret (Some [0x61]))\<rparr>"

definition sample_call :: "stack_item list \<Rightarrow> engine" where
  "sample_call xs = put_stack (EStack 0) (mk_ras xs)
     (sample_nops\<lparr>contexts := (contexts sample_nops)(0 := (contexts sample_nops 0)\<lparr>RVCount := 0\<rparr>),
       stackitem_count := int (length xs)\<rparr>)"

lemma sample_call_fields:
  "InvocationStack (sample_call xs) = mk_ras [0]" "next_context (sample_call xs) = 1"
  "get_stack (EStack 0) (sample_call xs) = mk_ras xs" "debug_map (sample_call xs) = None"
  "RVCount (contexts (sample_call xs) 0) = 0" "GetScript sample_table = Some (\<lambda>_. ret (Some [0x61]))"
  "count_fits (sample_call xs) n \<longleftrightarrow> 0 \<le> int (length xs) + n \<and> int (length xs) + n \<le> 2048"
  by (simp_all add: sample_call_def sample_nops_def loaded_def ExecutionEngine_def ras_empty_mk sample_table_def
      count_fits_def maxStackSize_def put_stack.simps get_stack.simps update_context_def)

lemma op_CALL_E_ok_witness:
  "\<exists>s'. op_CALL_E sample_table 0 \<lparr>ins_OpCode = OP_CALL_E, ins_Operand = 0 # 1 # replicate 20 7\<rparr>
      (sample_call [Integer 5, Integer 6]) = (Val (), s') \<and> InvocationStack s' = mk_ras [1, 0] \<and>
    get_stack (EStack 1) s' = mk_ras [Integer 5] \<and> get_stack (EStack 0) s' = mk_ras [Integer 6]"
  using op_CALL_E_ok [of 0 "sample_call [Integer 5, Integer 6]" "[Integer 5]" "[Integer 6]"
      "\<lparr>ins_OpCode = OP_CALL_E, ins_Operand = 0 # 1 # replicate 20 7\<rparr>" 0 1 "replicate 20 7" "[0]" sample_table]
  by (simp add: sample_call_fields)

lemma CALL_EDT_breaks_stack_witness:
  "\<exists>s'. op_CALL_E sample_table 0 \<lparr>ins_OpCode = OP_CALL_EDT, ins_Operand = [0, 2]\<rparr>
      (sample_call [ByteArray (replicate 20 7), Integer 6]) = (Val (), s') \<and> InvocationStack s' = mk_ras [1] \<and>
    get_stack (EStack 1) s' = \<lparr>ras_list = [Integer 6], ras_size = 2\<rparr>"
  using CALL_EDT_breaks_stack [of 0 "sample_call [ByteArray (replicate 20 7), Integer 6]" "replicate 20 7" "Integer 6" "[]"
      "\<lparr>ins_OpCode = OP_CALL_EDT, ins_Operand = [0, 2]\<rparr>" 0 2 "[]" "[]" sample_table]
  by (simp add: sample_call_fields)

end
