(* ===== verification/Memory_Stream.thy ===== *)
theory Memory_Stream
  imports Py_Monad Crypto
begin

text \<open>
  \<open>neo/IO/MemoryStream.py\<close>: Python's \<open>BytesIO\<close> (a buffer and a position), the hexadecimal text of
  its contents, and the pool of streams of \<open>StreamManager\<close>.
\<close>

section \<open>A stream\<close>

record stream =
  getvalue :: bytes
  position :: nat

definition stream_empty :: stream where
  "stream_empty = \<lparr>getvalue = [], position = 0\<rparr>"

text \<open>The largest size a read may ask for (\<open>sys.maxsize\<close>).\<close>

definition maxsize :: int where
  "maxsize = 2 ^ 63 - 1"

text \<open>\<open>read(n)\<close>: at most \<open>n\<close> bytes from the position on, all of them for a negative \<open>n\<close>.\<close>

definition stream_read :: "int \<Rightarrow> (stream, bytes) m" where
  "stream_read n s =
     (if maxsize < n \<or> n < - maxsize - 1 then (Exc OverflowError, s)
      else let rest = drop (position s) (getvalue s);
               data = (if n < 0 then rest else take (nat (min n (int (length rest)))) rest)
        in (Val data, s\<lparr>position := position s + length data\<rparr>))"

text \<open>\<open>write(b)\<close>: over the bytes at the position; a gap after the end is filled with zeros.\<close>

definition stream_write :: "bytes \<Rightarrow> (stream, int) m" where
  "stream_write bs s =
     (if bs = [] then (Val 0, s)
      else let buf = getvalue s; p = position s
        in (Val (int (length bs)),
            s\<lparr>getvalue := take p (buf @ replicate (p - length buf) 0) @ bs @ drop (p + length bs) buf,
              position := p + length bs\<rparr>))"

definition stream_seek :: "nat \<Rightarrow> (stream, unit) m" where
  "stream_seek p = modify (\<lambda>s. s\<lparr>position := p\<rparr>)"

definition stream_truncate :: "nat \<Rightarrow> (stream, unit) m" where
  "stream_truncate n = modify (\<lambda>s. s\<lparr>getvalue := take n (getvalue s)\<rparr>)"

definition stream_ToArray :: "stream \<Rightarrow> bytes" where
  "stream_ToArray s = hexlify (getvalue s)"

definition Cleanup :: "(stream, unit) m" where
  "Cleanup = sq (stream_seek 0) (stream_truncate 0)"

lemmas stream_defs = stream_empty_def maxsize_def stream_read_def stream_write_def stream_seek_def
  stream_truncate_def stream_ToArray_def Cleanup_def

declare stream_defs [model_defs]

section \<open>The pool of streams\<close>

text \<open>\<open>__mstreams__\<close> and \<open>__mstreams_available__\<close>; streams are objects, so they live in a store.\<close>

record stream_manager =
  streams :: "nat \<Rightarrow> stream"
  mstreams :: "nat list"
  mstreams_available :: "nat list"

definition TotalBuffers :: "stream_manager \<Rightarrow> int" where
  "TotalBuffers s = int (length (mstreams s))"

definition on_stream :: "nat \<Rightarrow> (stream, 'a) m \<Rightarrow> (stream_manager, 'a) m" where
  "on_stream i p s = (case p (streams s i) of (r, t) \<Rightarrow> (r, s\<lparr>streams := (streams s)(i := t)\<rparr>))"

text \<open>
  The bytes a stream is built from, or none. A new stream gets a number no other has (its place in
  \<open>__mstreams__\<close>).
\<close>

definition GetStream :: "bytes option \<Rightarrow> (stream_manager, nat) m" where
  "GetStream data =
     bnd (gets mstreams_available) (\<lambda>available.
       if available = [] then
         bnd (gets (\<lambda>s. length (mstreams s))) (\<lambda>i.
           sq (modify (\<lambda>s. s\<lparr>streams := (streams s)(i := \<lparr>getvalue = case_option [] id data, position = 0\<rparr>)\<rparr>))
             (sq (modify (\<lambda>s. s\<lparr>mstreams := mstreams s @ [i]\<rparr>)) (ret i)))
       else
         let i = last available
         in sq (modify (\<lambda>s. s\<lparr>mstreams_available := butlast (mstreams_available s)\<rparr>))
              (sq (case data of
                     None \<Rightarrow> ret ()
                   | Some d \<Rightarrow> whenm (d \<noteq> []) (sq (on_stream i Cleanup) (sq (on_stream i (stream_write d)) (ret ()))))
                (sq (on_stream i (stream_seek 0)) (ret i))))"

definition ReleaseStream :: "nat \<Rightarrow> (stream_manager, unit) m" where
  "ReleaseStream i =
     sq (on_stream i Cleanup)
       (modify (\<lambda>s. s\<lparr>mstreams_available := mstreams_available s @ [i]\<rparr>))"

lemmas stream_manager_defs = TotalBuffers_def on_stream_def GetStream_def ReleaseStream_def

declare stream_manager_defs [model_defs]

section \<open>Hexadecimal text\<close>

lemma length_hexlify: "length (hexlify bs) = 2 * length bs"
  by (induction bs) (simp_all add: hexlify_def hex_def hex_byte_def ascii_def)

lemma length_unhexlify: "unhexlify bs = Some cs \<Longrightarrow> length bs = 2 * length cs"
  by (induction bs arbitrary: cs rule: unhexlify.induct) (auto split: option.splits)

lemma unhexlify_odd: "odd (length bs) \<Longrightarrow> unhexlify bs = None"
  using length_unhexlify [of bs] by (cases "unhexlify bs") auto

section \<open>The pool hands out clean streams\<close>

definition pool_wf :: "stream_manager \<Rightarrow> bool" where
  "pool_wf s \<longleftrightarrow>
     mstreams s = [0..<length (mstreams s)] \<and> set (mstreams_available s) \<subseteq> set (mstreams s) \<and>
     distinct (mstreams_available s) \<and> (\<forall>i\<in>set (mstreams_available s). streams s i = stream_empty)"

lemma run_Cleanup: "Cleanup s = (Val (), stream_empty)"
  by (cases s) (simp add: stream_empty_def Cleanup_def stream_seek_def stream_truncate_def run_simps)

lemma run_ReleaseStream:
  "ReleaseStream i s =
     (Val (), s\<lparr>streams := (streams s)(i := stream_empty), mstreams_available := mstreams_available s @ [i]\<rparr>)"
  by (simp add: ReleaseStream_def on_stream_def run_Cleanup sq_def bnd_def modify_def)

lemma pool_ReleaseStream:
  assumes "pool_wf s" "i \<in> set (mstreams s)" "i \<notin> set (mstreams_available s)"
  shows "pool_wf (snd (ReleaseStream i s))"
  using assms by (auto simp: pool_wf_def run_ReleaseStream)

definition initial_stream :: "bytes option \<Rightarrow> stream" where
  "initial_stream data = \<lparr>getvalue = case_option [] id data, position = 0\<rparr>"

lemma run_GetStream_new:
  "mstreams_available s = [] \<Longrightarrow>
   GetStream data s =
     (Val (length (mstreams s)),
      s\<lparr>streams := (streams s)(length (mstreams s) := initial_stream data),
        mstreams := mstreams s @ [length (mstreams s)]\<rparr>)"
  by (simp add: GetStream_def run_simps initial_stream_def)

lemma run_GetStream_pooled:
  assumes "mstreams_available s = xs @ [i]" "streams s i = stream_empty"
  shows "GetStream data s =
     (Val i, s\<lparr>mstreams_available := xs, streams := (streams s)(i := initial_stream data)\<rparr>)"
proof (cases data)
  case None
  then show ?thesis
    using assms by (simp add: GetStream_def run_simps on_stream_def stream_seek_def sq_def bnd_def
        modify_def ret_def gets_def initial_stream_def stream_empty_def)
next
  case (Some d)
  then show ?thesis
    using assms by (simp add: GetStream_def on_stream_def stream_seek_def sq_def bnd_def whenm_def
        modify_def ret_def gets_def initial_stream_def stream_empty_def run_Cleanup stream_write_def)
qed

text \<open>
  Every stream handed out holds just the data asked for, at position 0, whether it is new or was
  used before, and is no longer in the pool.
\<close>

lemma GetStream_clean:
  assumes "pool_wf s"
  obtains i s' where "GetStream data s = (Val i, s')" "pool_wf s'" "streams s' i = initial_stream data"
    "i \<in> set (mstreams s')" "i \<notin> set (mstreams_available s')"
    "\<And>j. j \<in> set (mstreams s) - set (mstreams_available s) \<Longrightarrow> j \<noteq> i \<and> streams s' j = streams s j"
proof (cases "mstreams_available s" rule: rev_cases)
  case Nil
  have m: "mstreams s = [0..<length (mstreams s)]" using assms by (simp add: pool_wf_def)
  have nin: "j \<noteq> length (mstreams s)" if "j \<in> set (mstreams s)" for j
    using that by (subst (asm) m) auto
  show ?thesis
    by (rule that [OF run_GetStream_new [OF Nil]])
       (use assms Nil m nin in \<open>auto simp: pool_wf_def\<close>)
next
  case (snoc xs i)
  then have e: "streams s i = stream_empty" using assms by (simp add: pool_wf_def)
  show ?thesis
    by (rule that [OF run_GetStream_pooled [OF snoc e]])
       (use assms snoc in \<open>auto simp: pool_wf_def\<close>)
qed

end
