(* ===== verification/Fixed_Point.thy ===== *)
theory Fixed_Point
  imports PyFloat
begin

text \<open>
  \<open>neo/Core/Fixed8.py\<close>: amounts as integers of \<open>10 ^ -8\<close> units. Sums, differences and
  comparisons are exact; \<open>__truediv__\<close>, \<open>Ceil\<close>, \<open>Floor\<close>, \<open>ToInt\<close> and \<open>ToString\<close> go through a float,
  so they are exact only for amounts below \<open>2 ^ 53\<close> units. \<open>__pow__\<close> (which gives a float for a
  negative power) and \<open>TryParse\<close> of text are not modelled.
\<close>

datatype fixed8 = Fixed8 (fx_value: int)

definition Fixed8_D :: int where
  "Fixed8_D = 100000000"

definition fx_GetData :: "fixed8 \<Rightarrow> int" where
  "fx_GetData a = fx_value a"

definition fx_FD :: fixed8 where
  "fx_FD = Fixed8 Fixed8_D"

definition fx_Satoshi :: fixed8 where
  "fx_Satoshi = Fixed8 1"

definition fx_One :: fixed8 where
  "fx_One = Fixed8 Fixed8_D"

definition fx_NegativeSatoshi :: fixed8 where
  "fx_NegativeSatoshi = Fixed8 (- 1)"

definition fx_Zero :: fixed8 where
  "fx_Zero = Fixed8 0"

text \<open>\<open>FromDecimal\<close> of an integer, and of a float (whose product with \<open>D\<close> is rounded again).\<close>

definition fx_FromDecimal_int :: "int \<Rightarrow> fixed8" where
  "fx_FromDecimal_int number = Fixed8 (number * Fixed8_D)"

definition float_mul_int :: "dyadic \<Rightarrow> int \<Rightarrow> pyexc + dyadic" where
  "float_mul_int f k =
     (case f of (m, e) \<Rightarrow> int_truediv (m * k * 2 ^ nat e) (2 ^ nat (- e)))"

definition fx_FromDecimal :: "dyadic \<Rightarrow> pyexc + fixed8" where
  "fx_FromDecimal number =
     ebind (float_mul_int number Fixed8_D) (\<lambda>f. Inr (Fixed8 (float_trunc f)))"

section \<open>Arithmetic\<close>

definition fx_add :: "fixed8 \<Rightarrow> fixed8 \<Rightarrow> fixed8" where
  "fx_add a b = Fixed8 (fx_value a + fx_value b)"

definition fx_sub :: "fixed8 \<Rightarrow> fixed8 \<Rightarrow> fixed8" where
  "fx_sub a b = Fixed8 (fx_value a - fx_value b)"

definition fx_mul :: "fixed8 \<Rightarrow> fixed8 \<Rightarrow> fixed8" where
  "fx_mul a b = Fixed8 (fx_value a * fx_value b)"

definition fx_truediv :: "fixed8 \<Rightarrow> fixed8 \<Rightarrow> pyexc + fixed8" where
  "fx_truediv a b =
     ebind (int_truediv (fx_value a) (fx_value b)) (\<lambda>f. Inr (Fixed8 (float_trunc f)))"

definition fx_floordiv :: "fixed8 \<Rightarrow> fixed8 \<Rightarrow> pyexc + fixed8" where
  "fx_floordiv a b =
     (if fx_value b = 0 then Inl ZeroDivisionError else Inr (Fixed8 (fx_value a div fx_value b)))"

definition fx_mod :: "fixed8 \<Rightarrow> fixed8 \<Rightarrow> pyexc + fixed8" where
  "fx_mod a b =
     (if fx_value b = 0 then Inl ZeroDivisionError else Inr (Fixed8 (fx_value a mod fx_value b)))"

definition fx_neg :: "fixed8 \<Rightarrow> fixed8" where
  "fx_neg a = Fixed8 (- 1 * fx_value a)"

definition fx_lt :: "fixed8 \<Rightarrow> fixed8 \<Rightarrow> bool" where
  "fx_lt a b \<longleftrightarrow> fx_value a < fx_value b"

definition fx_le :: "fixed8 \<Rightarrow> fixed8 \<Rightarrow> bool" where
  "fx_le a b \<longleftrightarrow> fx_value a \<le> fx_value b"

instantiation fixed8 :: linorder
begin

definition less_eq_fixed8 :: "fixed8 \<Rightarrow> fixed8 \<Rightarrow> bool" where
  "less_eq_fixed8 = fx_le"

definition less_fixed8 :: "fixed8 \<Rightarrow> fixed8 \<Rightarrow> bool" where
  "less_fixed8 = fx_lt"

instance
  by standard (auto simp: less_eq_fixed8_def less_fixed8_def fx_le_def fx_lt_def fixed8.expand)

end

definition fx_Ceil :: "fixed8 \<Rightarrow> pyexc + fixed8" where
  "fx_Ceil a = ebind (int_truediv (fx_value a) Fixed8_D) (\<lambda>f. Inr (Fixed8 (float_ceil f * Fixed8_D)))"

definition fx_Floor :: "fixed8 \<Rightarrow> pyexc + fixed8" where
  "fx_Floor a = ebind (int_truediv (fx_value a) Fixed8_D) (\<lambda>f. Inr (Fixed8 (float_floor f * Fixed8_D)))"

definition fx_ToInt :: "fixed8 \<Rightarrow> pyexc + int" where
  "fx_ToInt a = ebind (int_truediv (fx_value a) Fixed8_D) (\<lambda>f. Inr (float_trunc f))"

definition fx_Size :: "fixed8 \<Rightarrow> int" where
  "fx_Size a = 8"

section \<open>Text\<close>

fun decimal :: "nat \<Rightarrow> string" where
  "decimal n = (if n < 10 then [char_of (48 + n)] else decimal (n div 10) @ [char_of (48 + n mod 10)])"

declare decimal.simps [simp del]

text \<open>The last \<open>k\<close> decimal digits of \<open>n\<close>.\<close>

fun digits_of :: "nat \<Rightarrow> nat \<Rightarrow> string" where
  "digits_of 0 n = []"
| "digits_of (Suc k) n = digits_of k (n div 10) @ [char_of (48 + n mod 10)]"

definition rstrip :: "'a \<Rightarrow> 'a list \<Rightarrow> 'a list" where
  "rstrip c s = rev (dropWhile (\<lambda>x. x = c) (rev s))"

text \<open>The float times \<open>10 ^ k\<close> (a power of ten may be negative), rounded to an integer.\<close>

definition float_scaled10 :: "dyadic \<Rightarrow> int \<Rightarrow> int" where
  "float_scaled10 f k =
     (case f of (m, e) \<Rightarrow> round_half_even (m * 2 ^ nat e * 10 ^ nat k) (2 ^ nat (- e) * 10 ^ nat (- k)))"

text \<open>\<open>format(value, '.08f')\<close> of a float that is not negative.\<close>

definition format_08f :: "dyadic \<Rightarrow> string" where
  "format_08f f =
     (let k = nat (float_scaled10 f 8) in decimal (k div 10 ^ 8) @ ''.'' @ digits_of 8 (k mod 10 ^ 8))"

text \<open>
  \<open>format(value, '.08g')\<close> of a negative float: eight significant digits. The decimal exponent of
  an amount of at least \<open>10 ^ -8\<close> is at least -9, so nine steps find it below one.
\<close>

fun small_exponent :: "nat \<Rightarrow> dyadic \<Rightarrow> int \<Rightarrow> int" where
  "small_exponent 0 f k = k"
| "small_exponent (Suc n) f k =
     (if float_floor (fst f * 10 ^ nat (- k), snd f) = 0 then small_exponent n f (k - 1) else k)"

definition decimal_exponent :: "dyadic \<Rightarrow> int" where
  "decimal_exponent f =
     (if float_floor f = 0 then small_exponent 9 f (- 1)
      else int (length (decimal (nat (float_floor f)))) - 1)"

definition strip_point :: "string \<Rightarrow> string" where
  "strip_point s = rstrip (CHR ''.'') (rstrip (CHR ''0'') s)"

definition format_08g_abs :: "dyadic \<Rightarrow> string" where
  "format_08g_abs f =
     (let e0 = decimal_exponent f;
          n0 = float_scaled10 f (7 - e0);
          (e, n) = (if n0 = 10 ^ 8 then (e0 + 1, 10 ^ 7) else (e0, n0))
      in if - 4 \<le> e \<and> e < 8 then
           let k = nat (7 - e) in
           if k = 0 then decimal (nat n)
           else strip_point (decimal (nat n div 10 ^ k) @ ''.'' @ digits_of k (nat n mod 10 ^ k))
         else strip_point (decimal (nat n div 10 ^ 7) @ ''.'' @ digits_of 7 (nat n mod 10 ^ 7)) @ ''e'' @
           (if e < 0 then ''-'' else ''+'') @
           (if nat \<bar>e\<bar> < 10 then ''0'' else '''') @ decimal (nat \<bar>e\<bar>))"

definition fx_ToString :: "fixed8 \<Rightarrow> pyexc + string" where
  "fx_ToString a =
     ebind (int_truediv (fx_value a) Fixed8_D) (\<lambda>value.
       if fst value < 0 then Inr (''-'' @ format_08g_abs (- fst value, snd value))
       else let res = rstrip (CHR ''0'') (format_08f value)
         in if res \<noteq> [] \<and> last res = CHR ''.'' then Inr (rstrip (CHR ''.'') res) else Inr res)"

definition fx_ToNeoJsonString :: "fixed8 \<Rightarrow> pyexc + string" where
  "fx_ToNeoJsonString a =
     ebind (fx_ToString a) (\<lambda>strval.
       if py_slice_from (- 2) strval = ''.0'' then Inr (py_slice 0 (- 2) strval) else Inr strval)"

lemmas fixed8_defs = Fixed8_D_def fx_GetData_def fx_FD_def fx_Satoshi_def fx_One_def
  fx_NegativeSatoshi_def fx_Zero_def fx_FromDecimal_int_def float_mul_int_def fx_FromDecimal_def
  fx_add_def fx_sub_def fx_mul_def fx_truediv_def fx_floordiv_def fx_mod_def fx_neg_def
  less_eq_fixed8_def less_fixed8_def fx_le_def fx_lt_def fx_Ceil_def fx_Floor_def fx_ToInt_def fx_Size_def

declare fixed8_defs [model_defs]

section \<open>Amounts below \<open>2 ^ 53\<close> units\<close>

lemma int_truediv_floor_ceil:
  assumes "\<bar>x\<bar> < 2 ^ 53" "0 < y" "y < 2 ^ 1000"
  shows "\<exists>f. int_truediv x y = Inr f \<and> float_floor f = x div y \<and> float_ceil f = - (- x div y)"
proof (cases "x = 0")
  case True
  with assms(2) show ?thesis by (simp add: int_truediv_def float_floor_def float_ceil_def)
next
  case False
  then have pos: "0 < \<bar>x\<bar>" by simp
  obtain q s where q: "int_truediv \<bar>x\<bar> y = Inr (q, s)" "float_floor (q, s) = \<bar>x\<bar> div y"
      "float_ceil (q, s) = - (- \<bar>x\<bar> div y)" "0 \<le> q"
    by (rule float_quotient_exact [OF pos assms(1) assms(2) assms(3)])
  show ?thesis
  proof (cases "0 < x")
    case True
    with q show ?thesis by auto
  next
    case neg: False
    with False have x: "sgn x = - 1" "\<bar>x\<bar> = - x" by auto
    have "int_truediv x y = Inr (- q, s)"
      using int_truediv_signs [OF False, of y q s] q(1) assms(2) x(1) by simp
    moreover have "float_floor (- q, s) = - float_ceil (q, s)"
      "float_ceil (- q, s) = - float_floor (q, s)" by (simp_all add: float_ceil_def)
    ultimately show ?thesis using q(2,3) x(2) by simp
  qed
qed

lemma fx_Floor_exact:
  assumes "\<bar>fx_value a\<bar> < 2 ^ 53"
  shows "fx_Floor a = Inr (Fixed8 (fx_value a div Fixed8_D * Fixed8_D))"
    and "fx_Ceil a = Inr (Fixed8 (- (- fx_value a div Fixed8_D) * Fixed8_D))"
proof -
  have D: "0 < Fixed8_D" "Fixed8_D < 2 ^ 1000" by (simp_all add: Fixed8_D_def)
  obtain f where "int_truediv (fx_value a) Fixed8_D = Inr f" "float_floor f = fx_value a div Fixed8_D"
      "float_ceil f = - (- fx_value a div Fixed8_D)"
    using int_truediv_floor_ceil [OF assms D] by blast
  then show "fx_Floor a = Inr (Fixed8 (fx_value a div Fixed8_D * Fixed8_D))"
    "fx_Ceil a = Inr (Fixed8 (- (- fx_value a div Fixed8_D) * Fixed8_D))"
    by (simp_all add: fx_Floor_def fx_Ceil_def)
qed

lemma fx_ToInt_exact:
  assumes "\<bar>fx_value a\<bar> < 2 ^ 53"
  shows "fx_ToInt a = Inr (truncated_quotient (fx_value a) Fixed8_D)"
proof -
  have "Fixed8_D \<noteq> 0" "\<bar>Fixed8_D\<bar> < 2 ^ 1000" by (simp_all add: Fixed8_D_def)
  then obtain f where "int_truediv (fx_value a) Fixed8_D = Inr f"
      "float_trunc f = truncated_quotient (fx_value a) Fixed8_D"
    using int_truediv_trunc [OF assms] by blast
  then show ?thesis by (simp add: fx_ToInt_def)
qed

end
