(* ===== verification/Binary_Format.thy ===== *)
theory Binary_Format
  imports Memory_Stream Fixed_Point
begin

text \<open>
  The formats of Python's \<open>struct\<close> that the reader and the writer use, the encoding of text as
  UTF-8, and the values handed to the writer's untyped methods. \<open>struct.error\<close> is raised for a
  number that does not fit and for data of another length than the format's.
\<close>

section \<open>Formats\<close>

datatype endian = LE | BE

definition order_bytes :: "endian \<Rightarrow> bytes \<Rightarrow> bytes" where
  "order_bytes e bs = (case e of LE \<Rightarrow> bs | BE \<Rightarrow> rev bs)"

text \<open>Formats \<open>b h i q\<close> (signed) and \<open>B H I Q\<close>, by their size.\<close>

definition pack_int :: "nat \<Rightarrow> bool \<Rightarrow> endian \<Rightarrow> int \<Rightarrow> pyexc + bytes" where
  "pack_int n sgnd e v =
     (case (if sgnd then to_bytes_s n v else to_bytes_u n v) of
        Inl _ \<Rightarrow> Inl StructError
      | Inr bs \<Rightarrow> Inr (order_bytes e bs))"

definition unpack_int :: "nat \<Rightarrow> bool \<Rightarrow> endian \<Rightarrow> bytes \<Rightarrow> pyexc + int" where
  "unpack_int n sgnd e bs =
     (if length bs \<noteq> n then Inl StructError
      else Inr ((if sgnd then from_bytes_s else from_bytes_u) (order_bytes e bs)))"

definition unpack_bool :: "bytes \<Rightarrow> pyexc + bool" where
  "unpack_bool bs = (if length bs \<noteq> 1 then Inl StructError else Inr (bs \<noteq> [0]))"

definition unpack_char :: "bytes \<Rightarrow> pyexc + bytes" where
  "unpack_char bs = (if length bs \<noteq> 1 then Inl StructError else Inr bs)"

definition unpack_str :: "int \<Rightarrow> bytes \<Rightarrow> pyexc + bytes" where
  "unpack_str n bs = (if int (length bs) \<noteq> n then Inl StructError else Inr bs)"

section \<open>Text\<close>

text \<open>A Python string is its list of code points; a lone surrogate has no UTF-8 encoding.\<close>

type_synonym pystr = "nat list"

definition utf8_point :: "nat \<Rightarrow> pyexc + bytes" where
  "utf8_point c =
     (if c < 128 then Inr [of_nat c]
      else if c < 2048 then Inr [of_nat (192 + c div 64), of_nat (128 + c mod 64)]
      else if 55296 \<le> c \<and> c < 57344 then Inl UnicodeError
      else if c < 65536 then
        Inr [of_nat (224 + c div 4096), of_nat (128 + c div 64 mod 64), of_nat (128 + c mod 64)]
      else Inr [of_nat (240 + c div 262144), of_nat (128 + c div 4096 mod 64),
                of_nat (128 + c div 64 mod 64), of_nat (128 + c mod 64)])"

definition utf8_encode :: "pystr \<Rightarrow> pyexc + bytes" where
  "utf8_encode s = ebind (emap utf8_point s) (\<lambda>bss. Inr (concat bss))"

text \<open>\<open>bytes.decode('utf-8')\<close>: continuation bytes, and no form longer than needed.\<close>

definition utf8_more :: "byte \<Rightarrow> nat option" where
  "utf8_more b = (if unat b div 64 = 2 then Some (unat b mod 64) else None)"

fun utf8_decode :: "bytes \<Rightarrow> pyexc + pystr" where
  "utf8_decode [] = Inr []"
| "utf8_decode (a # bs) =
     (let x = unat a in
      if x < 128 then ebind (utf8_decode bs) (\<lambda>s. Inr (x # s))
      else if 194 \<le> x \<and> x < 224 then
        (case bs of
           b # cs \<Rightarrow>
             (case utf8_more b of
                Some y \<Rightarrow> ebind (utf8_decode cs) (\<lambda>s. Inr (((x - 192) * 64 + y) # s))
              | None \<Rightarrow> Inl UnicodeError)
         | [] \<Rightarrow> Inl UnicodeError)
      else if 224 \<le> x \<and> x < 240 then
        (case bs of
           b # c # ds \<Rightarrow>
             (case (utf8_more b, utf8_more c) of
                (Some y, Some z) \<Rightarrow>
                  let v = (x - 224) * 4096 + y * 64 + z
                  in if v < 2048 \<or> 55296 \<le> v \<and> v < 57344 then Inl UnicodeError
                     else ebind (utf8_decode ds) (\<lambda>s. Inr (v # s))
              | _ \<Rightarrow> Inl UnicodeError)
         | _ \<Rightarrow> Inl UnicodeError)
      else if 240 \<le> x \<and> x < 245 then
        (case bs of
           b # c # d # es \<Rightarrow>
             (case (utf8_more b, utf8_more c, utf8_more d) of
                (Some y, Some z, Some w) \<Rightarrow>
                  let v = (x - 240) * 262144 + y * 4096 + z * 64 + w
                  in if v < 65536 \<or> 1114112 \<le> v then Inl UnicodeError
                     else ebind (utf8_decode es) (\<lambda>s. Inr (v # s))
              | _ \<Rightarrow> Inl UnicodeError)
         | _ \<Rightarrow> Inl UnicodeError)
      else Inl UnicodeError)"

definition ascii_points :: "bytes \<Rightarrow> pystr" where
  "ascii_points bs = map unat bs"

text \<open>\<open>unhexlify\<close> takes text of code points below 128; other text is a \<open>ValueError\<close>.\<close>

definition unhexlify_str :: "pystr \<Rightarrow> pyexc + bytes option" where
  "unhexlify_str s =
     (if (\<forall>c\<in>set s. c < 128) then Inr (unhexlify (map of_nat s)) else Inl ValueError)"

section \<open>Values\<close>

datatype io_value =
    PBytes bytes | PByteArray bytes | PStr pystr | PInt int | PBool bool | PNone

definition truthy :: "io_value \<Rightarrow> bool" where
  "truthy v = (case v of
       PBytes bs \<Rightarrow> bs \<noteq> [] | PByteArray bs \<Rightarrow> bs \<noteq> [] | PStr s \<Rightarrow> s \<noteq> []
     | PInt i \<Rightarrow> i \<noteq> 0 | PBool b \<Rightarrow> b | PNone \<Rightarrow> False)"

text \<open>\<open>bin(n)\<close>.\<close>

fun binary :: "nat \<Rightarrow> string" where
  "binary n = (if n < 2 then [char_of (48 + n)] else binary (n div 2) @ [char_of (48 + n mod 2)])"

declare binary.simps [simp del]

definition py_bin :: "int \<Rightarrow> string" where
  "py_bin i = (if i < 0 then ''-0b'' else ''0b'') @ binary (nat \<bar>i\<bar>)"

lemmas format_defs = order_bytes_def pack_int_def unpack_int_def unpack_bool_def unpack_char_def
  unpack_str_def utf8_point_def utf8_encode_def ascii_points_def unhexlify_str_def truthy_def
  py_bin_def

declare format_defs [model_defs]

section \<open>Packing and unpacking\<close>

lemma length_order_bytes [simp]: "length (order_bytes e bs) = length bs"
  by (cases e) (simp_all add: order_bytes_def)

lemma order_order_bytes [simp]: "order_bytes e (order_bytes e bs) = bs"
  by (cases e) (simp_all add: order_bytes_def)

definition int_fits :: "nat \<Rightarrow> bool \<Rightarrow> int \<Rightarrow> bool" where
  "int_fits n sgnd v \<longleftrightarrow>
     (if sgnd then - (256 ^ n) \<le> 2 * v \<and> 2 * v < 256 ^ n else 0 \<le> v \<and> v < 256 ^ n)"

lemma pack_int_fits:
  "pack_int n sgnd e v = (if int_fits n sgnd v then Inr (order_bytes e (int_bytes n v)) else Inl StructError)"
  by (auto simp: pack_int_def int_fits_def to_bytes_s_def to_bytes_u_def split: if_splits)

lemma unpack_pack_int:
  "int_fits n sgnd v \<Longrightarrow> unpack_int n sgnd e (order_bytes e (int_bytes n v)) = Inr v"
  by (auto simp: unpack_int_def int_fits_def from_bytes_s_int_bytes from_bytes_u_int_bytes split: if_splits)

text \<open>Every number read fits, and packs again to the bytes it was read from.\<close>

lemma pack_unpack_unsigned:
  assumes "unpack_int n False e bs = Inr v"
  shows "pack_int n False e v = Inr bs"
proof -
  have l: "length bs = n" and v: "v = from_bytes_u (order_bytes e bs)"
    using assms by (auto simp: unpack_int_def split: if_splits)
  have "int_bytes n v = order_bytes e bs"
    using int_bytes_from_bytes_u [of "order_bytes e bs"] by (simp add: v l)
  moreover have "int_fits n False v"
    using from_bytes_u_range [of "order_bytes e bs"] by (simp add: int_fits_def v l)
  ultimately show ?thesis by (simp add: pack_int_fits)
qed

end
