(* ===== verification/Binary_Writer.thy ===== *)
theory Binary_Writer
  imports Binary_Format
begin

text \<open>
  \<open>neo/Core/IO/BinaryWriter.py\<close>: the writer is its stream. \<open>WriteBytes\<close> first takes its bytes for
  hexadecimal text and writes what they denote if they are; only bytes that are no such text are
  written as they are. Not modelled: \<open>WriteFloat\<close> and \<open>WriteDouble\<close>.
\<close>

definition swap32 :: "int \<Rightarrow> pyexc + int" where
  "swap32 i = ebind (pack_int 4 False BE i) (unpack_int 4 False LE)"

definition convert_to_uint160 :: "int \<Rightarrow> string" where
  "convert_to_uint160 i = py_slice_from (- 20) (py_bin (i + 2 ^ 20))"

definition convert_to_uint256 :: "int \<Rightarrow> string" where
  "convert_to_uint256 i = py_slice_from (- 32) (py_bin (i + 2 ^ 32))"

section \<open>Bytes\<close>

text \<open>\<open>type(value) is ...\<close>: a \<open>bytearray\<close> or None is of none of the types, and nothing is written.\<close>

definition WriteByte :: "io_value \<Rightarrow> (stream, unit) m" where
  "WriteByte v =
     (case v of
        PBytes bs \<Rightarrow> sq (stream_write bs) (ret ())
      | PStr s \<Rightarrow> bnd (lft (utf8_encode s)) (\<lambda>bs. sq (stream_write bs) (ret ()))
      | PInt i \<Rightarrow>
          if 0 \<le> i \<and> i < 256 then sq (stream_write [word_of_int i]) (ret ()) else throw ValueError
      | PBool b \<Rightarrow> if b then sq (stream_write [1]) (ret ()) else sq (stream_write [0]) (ret ())
      | PByteArray bs \<Rightarrow> ret ()
      | PNone \<Rightarrow> ret ())"

definition WriteBytes_any :: "io_value \<Rightarrow> bool \<Rightarrow> (stream, int) m" where
  "WriteBytes_any v unhex =
     (let raw = (\<lambda>bs. stream_write (if unhex then case unhexlify bs of Some cs \<Rightarrow> cs | None \<Rightarrow> bs else bs))
      in case v of
        PBytes bs \<Rightarrow> raw bs
      | PByteArray bs \<Rightarrow> raw bs
      | PStr s \<Rightarrow>
          if unhex then
            bnd (lft (unhexlify_str s)) (\<lambda>r. case r of Some cs \<Rightarrow> stream_write cs | None \<Rightarrow> throw TypeError)
          else throw TypeError
      | PInt i \<Rightarrow> throw TypeError
      | PBool b \<Rightarrow> throw TypeError
      | PNone \<Rightarrow> throw TypeError)"

text \<open>The call with bytes, and its default \<open>unhex=True\<close>.\<close>

definition WriteBytes :: "bytes \<Rightarrow> (stream, int) m" where
  "WriteBytes bs = WriteBytes_any (PBytes bs) True"

definition WriteRaw :: "bytes \<Rightarrow> (stream, int) m" where
  "WriteRaw bs = WriteBytes_any (PBytes bs) False"

definition pack :: "pyexc + bytes \<Rightarrow> (stream, int) m" where
  "pack packed = bnd (lft packed) WriteRaw"

definition WriteChar :: "io_value \<Rightarrow> (stream, int) m" where
  "WriteChar v =
     pack (case v of PBytes bs \<Rightarrow> if length bs = 1 then Inr bs else Inl StructError | _ \<Rightarrow> Inl StructError)"

definition WriteBool :: "io_value \<Rightarrow> (stream, int) m" where
  "WriteBool v = pack (Inr [if truthy v then 1 else 0])"

section \<open>Numbers\<close>

definition WriteInt8 :: "int \<Rightarrow> endian \<Rightarrow> (stream, int) m" where
  "WriteInt8 v e = pack (pack_int 1 True e v)"

definition WriteUInt8 :: "int \<Rightarrow> endian \<Rightarrow> (stream, int) m" where
  "WriteUInt8 v e = pack (pack_int 1 False e v)"

definition WriteInt16 :: "int \<Rightarrow> endian \<Rightarrow> (stream, int) m" where
  "WriteInt16 v e = pack (pack_int 2 True e v)"

definition WriteUInt16 :: "int \<Rightarrow> endian \<Rightarrow> (stream, int) m" where
  "WriteUInt16 v e = pack (pack_int 2 False e v)"

definition WriteInt32 :: "int \<Rightarrow> endian \<Rightarrow> (stream, int) m" where
  "WriteInt32 v e = pack (pack_int 4 True e v)"

definition WriteUInt32 :: "int \<Rightarrow> endian \<Rightarrow> (stream, int) m" where
  "WriteUInt32 v e = pack (pack_int 4 False e v)"

definition WriteInt64 :: "int \<Rightarrow> endian \<Rightarrow> (stream, int) m" where
  "WriteInt64 v e = pack (pack_int 8 True e v)"

definition WriteUInt64 :: "int \<Rightarrow> endian \<Rightarrow> (stream, int) m" where
  "WriteUInt64 v e = pack (pack_int 8 False e v)"

text \<open>\<open>UIntBase.Serialize\<close>, and the methods that call it when the value is of their class.\<close>

definition uint_Serialize :: "uint \<Rightarrow> (stream, unit) m" where
  "uint_Serialize u = sq (WriteBytes (Data u)) (ret ())"

datatype hash_value = V160 uint | V256 uint | NoHash

definition WriteUInt160 :: "hash_value \<Rightarrow> (stream, unit) m" where
  "WriteUInt160 v = (case v of V160 u \<Rightarrow> uint_Serialize u | V256 _ \<Rightarrow> throw TypeError | NoHash \<Rightarrow> throw TypeError)"

definition WriteUInt256 :: "hash_value \<Rightarrow> (stream, unit) m" where
  "WriteUInt256 v = (case v of V256 u \<Rightarrow> uint_Serialize u | V160 _ \<Rightarrow> throw TypeError | NoHash \<Rightarrow> throw TypeError)"

text \<open>A bool is an \<open>int\<close>; it is below \<open>0xfd\<close> and is written by \<open>WriteByte\<close> as a bool.\<close>

definition WriteVarInt_any :: "io_value \<Rightarrow> endian \<Rightarrow> (stream, unit) m" where
  "WriteVarInt_any v e =
     (case v of
        PInt i \<Rightarrow>
          if i < 0 then throw ValueError
          else if i < 0xfd then WriteByte (PInt i)
          else if i \<le> 0xffff then sq (WriteByte (PInt 0xfd)) (sq (WriteUInt16 i e) (ret ()))
          else if i \<le> 0xFFFFFFFF then sq (WriteByte (PInt 0xfe)) (sq (WriteUInt32 i e) (ret ()))
          else sq (WriteByte (PInt 0xff)) (sq (WriteUInt64 i e) (ret ()))
      | PBool b \<Rightarrow> WriteByte (PBool b)
      | _ \<Rightarrow> throw TypeError)"

definition WriteVarInt :: "int \<Rightarrow> (stream, unit) m" where
  "WriteVarInt i = WriteVarInt_any (PInt i) LE"

definition WriteVarBytes_e :: "bytes \<Rightarrow> endian \<Rightarrow> (stream, int) m" where
  "WriteVarBytes_e bs e = sq (WriteVarInt_any (PInt (int (length bs))) e) (WriteRaw bs)"

definition WriteVarBytes :: "bytes \<Rightarrow> (stream, int) m" where
  "WriteVarBytes bs = WriteVarBytes_e bs LE"

text \<open>With the encoding every caller leaves at UTF-8.\<close>

definition WriteVarString :: "io_value \<Rightarrow> (stream, unit) m" where
  "WriteVarString v =
     bnd (case v of
            PStr s \<Rightarrow> lft (utf8_encode s) | PBytes bs \<Rightarrow> ret bs | PByteArray bs \<Rightarrow> ret bs
          | _ \<Rightarrow> throw TypeError) (\<lambda>bs.
       let string = ascii_points (hexlify bs)
       in sq (WriteVarInt (int (length bs))) (sq (WriteBytes_any (PStr string) True) (ret ())))"

primrec write_zeros :: "nat \<Rightarrow> (stream, unit) m" where
  "write_zeros 0 = ret ()"
| "write_zeros (Suc n) = sq (WriteByte (PInt 0)) (write_zeros n)"

definition WriteFixedString :: "pystr \<Rightarrow> int \<Rightarrow> (stream, unit) m" where
  "WriteFixedString s n =
     bnd (lft (utf8_encode s)) (\<lambda>towrite.
       if n < int (length towrite) then throw ValueError
       else sq (WriteBytes towrite) (write_zeros (nat (n - int (length towrite)))))"

section \<open>Collections\<close>

text \<open>\<open>item.Serialize(self)\<close> is given by \<open>ser\<close>; the array may be None.\<close>

definition WriteSerializableArray_opt :: "('a \<Rightarrow> (stream, unit) m) \<Rightarrow> 'a list option \<Rightarrow> (stream, unit) m" where
  "WriteSerializableArray_opt ser array =
     (case array of
        None \<Rightarrow> WriteByte (PInt 0)
      | Some xs \<Rightarrow> sq (WriteVarInt (int (length xs))) (mapm ser xs))"

definition WriteSerializableArray :: "('a \<Rightarrow> (stream, unit) m) \<Rightarrow> 'a list \<Rightarrow> (stream, unit) m" where
  "WriteSerializableArray ser xs = WriteSerializableArray_opt ser (Some xs)"

text \<open>The items are hexadecimal text; \<open>unhexlify\<close> raises \<open>binascii.Error\<close>, a \<open>ValueError\<close>.\<close>

definition write_reversed :: "bytes \<Rightarrow> (stream, unit) m" where
  "write_reversed item =
     (case unhexlify item of
        None \<Rightarrow> throw ValueError
      | Some ba \<Rightarrow> sq (WriteBytes (rev ba)) (ret ()))"

definition Write2000256List :: "bytes list \<Rightarrow> (stream, unit) m" where
  "Write2000256List arr = mapm write_reversed arr"

definition WriteHashes :: "bytes list \<Rightarrow> (stream, unit) m" where
  "WriteHashes arr = sq (WriteVarInt (int (length arr))) (mapm write_reversed arr)"

definition WriteFixed8 :: "fixed8 \<Rightarrow> (stream, int) m" where
  "WriteFixed8 v = WriteInt64 (fx_value v) LE"

lemmas binary_writer_defs = swap32_def convert_to_uint160_def convert_to_uint256_def WriteByte_def
  WriteBytes_any_def WriteBytes_def WriteRaw_def pack_def WriteChar_def WriteBool_def WriteInt8_def
  WriteUInt8_def WriteInt16_def WriteUInt16_def WriteInt32_def WriteUInt32_def WriteInt64_def
  WriteUInt64_def uint_Serialize_def WriteUInt160_def WriteUInt256_def WriteVarInt_any_def
  WriteVarInt_def WriteVarBytes_e_def WriteVarBytes_def WriteVarString_def WriteFixedString_def
  WriteSerializableArray_opt_def WriteSerializableArray_def write_reversed_def
  Write2000256List_def WriteHashes_def WriteFixed8_def

declare binary_writer_defs [model_defs]

end
