(* ===== verification/Binary_Reader.thy ===== *)
theory Binary_Reader
  imports Binary_Format
begin

text \<open>
  \<open>neo/Core/IO/BinaryReader.py\<close>: the reader is its stream, which stays advanced when a read raises.
  The class \<open>ReadSerializableArray\<close> imports by its name is an argument: \<open>deser\<close> makes an object of
  it and runs its \<open>Deserialize\<close>. Not modelled: \<open>ReadFloat\<close> and \<open>ReadDouble\<close>.
\<close>

text \<open>\<open>struct.unpack(fmt, ...)[0]\<close> is given by its format's function.\<close>

definition unpack :: "(bytes \<Rightarrow> pyexc + 'a) \<Rightarrow> int \<Rightarrow> (stream, 'a) m" where
  "unpack fmt n = bnd (stream_read n) (\<lambda>bs. lft (fmt bs))"

definition ReadBytes :: "int \<Rightarrow> (stream, bytes) m" where
  "ReadBytes n = stream_read n"

definition SafeReadBytes :: "int \<Rightarrow> (stream, bytes) m" where
  "SafeReadBytes n =
     bnd (ReadBytes n) (\<lambda>data. if int (length data) < n then throw ValueError else ret data)"

definition reader_ReadByte :: "(stream, bytes) m" where
  "reader_ReadByte = SafeReadBytes 1"

definition ReadBool :: "(stream, bool) m" where
  "ReadBool = unpack unpack_bool 1"

definition ReadChar :: "(stream, bytes) m" where
  "ReadChar = unpack unpack_char 1"

definition ReadInt8 :: "endian \<Rightarrow> (stream, int) m" where
  "ReadInt8 e = unpack (unpack_int 1 True e) 1"

definition ReadUInt8 :: "endian \<Rightarrow> (stream, int) m" where
  "ReadUInt8 e = unpack (unpack_int 1 False e) 1"

definition ReadInt16 :: "endian \<Rightarrow> (stream, int) m" where
  "ReadInt16 e = unpack (unpack_int 2 True e) 2"

definition ReadUInt16 :: "endian \<Rightarrow> (stream, int) m" where
  "ReadUInt16 e = unpack (unpack_int 2 False e) 2"

definition reader_ReadInt32 :: "endian \<Rightarrow> (stream, int) m" where
  "reader_ReadInt32 e = unpack (unpack_int 4 True e) 4"

definition ReadUInt32 :: "endian \<Rightarrow> (stream, int) m" where
  "ReadUInt32 e = unpack (unpack_int 4 False e) 4"

definition ReadInt64 :: "endian \<Rightarrow> (stream, int) m" where
  "ReadInt64 e = unpack (unpack_int 8 True e) 8"

definition ReadUInt64 :: "endian \<Rightarrow> (stream, int) m" where
  "ReadUInt64 e = unpack (unpack_int 8 False e) 8"

section \<open>Lengths, bytes and text\<close>

text \<open>At the end of the stream the missing first byte counts as the number 0.\<close>

definition ReadVarInt :: "int \<Rightarrow> (stream, int) m" where
  "ReadVarInt mx =
     bnd (try_except (bnd reader_ReadByte (\<lambda>fb. ret (Some fb)))
            (\<lambda>e. if e = ValueError then ret None else throw e)) (\<lambda>r.
       case r of
         None \<Rightarrow> ret 0
       | Some fb \<Rightarrow>
           bnd (if fb = [0xfd] then ReadUInt16 LE
                else if fb = [0xfe] then ReadUInt32 LE
                else if fb = [0xff] then ReadUInt64 LE
                else ret (from_bytes_u fb)) (\<lambda>v.
             if mx < v then throw ValueError else ret v))"

definition ReadVarBytes :: "int \<Rightarrow> (stream, bytes) m" where
  "ReadVarBytes mx = bnd (ReadVarInt mx) SafeReadBytes"

definition ReadString :: "(stream, bytes) m" where
  "ReadString = bnd (ReadUInt8 LE) (\<lambda>n. unpack (unpack_str n) n)"

definition ReadVarString :: "int \<Rightarrow> (stream, bytes) m" where
  "ReadVarString mx = bnd (ReadVarInt mx) (\<lambda>n. unpack (unpack_str n) n)"

definition ReadFixedString :: "int \<Rightarrow> (stream, bytes) m" where
  "ReadFixedString n = bnd (ReadBytes n) (\<lambda>bs. ret (rstrip 0 bs))"

section \<open>Collections\<close>

text \<open>The loop of \<open>ReadSerializableArray\<close>: an item that raises is left out.\<close>

primrec read_items :: "nat \<Rightarrow> (stream, 'a) m \<Rightarrow> (stream, 'a list) m" where
  "read_items 0 deser = ret []"
| "read_items (Suc n) deser =
     bnd (try_except (bnd deser (\<lambda>item. ret (Some item))) (\<lambda>e. ret None)) (\<lambda>r.
       bnd (read_items n deser) (\<lambda>items. ret (case r of None \<Rightarrow> items | Some item \<Rightarrow> item # items)))"

definition ReadSerializableArray :: "(stream, 'a) m \<Rightarrow> int \<Rightarrow> (stream, 'a list) m" where
  "ReadSerializableArray deser mx = bnd (ReadVarInt mx) (\<lambda>n. read_items (nat n) deser)"

definition ReadUInt256 :: "(stream, uint) m" where
  "ReadUInt256 = bnd (ReadBytes 32) (\<lambda>bs. lft (UInt256 (Some bs)))"

definition ReadUInt160 :: "(stream, uint) m" where
  "ReadUInt160 = bnd (ReadBytes 20) (\<lambda>bs. lft (UInt160 (Some bs)))"

text \<open>\<open>UIntBase.Deserialize\<close>: the bytes read may be fewer than the size.\<close>

definition uint_Deserialize :: "uint \<Rightarrow> (stream, uint) m" where
  "uint_Deserialize u =
     bnd (ReadBytes (uint_Size u)) (\<lambda>bs. ret (u\<lparr>Data := bs, uint_hash := GetHashCode bs\<rparr>))"

definition Read2000256List :: "(stream, bytes list) m" where
  "Read2000256List =
     repeatm 2000 (bnd (ReadBytes 64) (\<lambda>data.
       case unhexlify data of None \<Rightarrow> throw ValueError | Some ba \<Rightarrow> ret (hexlify (rev ba))))"

definition ReadHashes :: "(stream, bytes list) m" where
  "ReadHashes =
     bnd (ReadVarInt maxsize) (\<lambda>n.
       repeatm (nat n) (bnd (ReadBytes 32) (\<lambda>ba. ret (hexlify (rev ba)))))"

definition ReadFixed8 :: "(stream, fixed8) m" where
  "ReadFixed8 = bnd (ReadInt64 LE) (\<lambda>fval. ret (Fixed8 fval))"

lemmas binary_reader_defs = unpack_def ReadBytes_def SafeReadBytes_def reader_ReadByte_def ReadBool_def
  ReadChar_def ReadInt8_def ReadUInt8_def ReadInt16_def ReadUInt16_def reader_ReadInt32_def ReadUInt32_def
  ReadInt64_def ReadUInt64_def ReadVarInt_def ReadVarBytes_def ReadString_def ReadVarString_def
  ReadFixedString_def ReadSerializableArray_def ReadUInt256_def ReadUInt160_def uint_Deserialize_def
  Read2000256List_def ReadHashes_def ReadFixed8_def

declare binary_reader_defs [model_defs]

end
