(* ===== verification/Codec.thy ===== *)
theory Codec
  imports Binary_Writer Binary_Reader
begin

text \<open>
  What writing and reading promise each other. A writer \<open>emits\<close> bytes when it appends just them to
  any stream; a reader \<open>reads\<close> a value from bytes when it consumes just them wherever they lie in a
  stream. Both are closed under the composition of transformers, so the formats of the program's
  classes are put together from those of their fields. The locale \<open>codec\<close> is the contract of a
  \<open>Serialize\<close> and a \<open>Deserialize\<close> with the format between them; an array of such items, and the
  conversions of \<open>neo/IO/Helper.py\<close> and \<open>neo/Core/Helper.py\<close>, rest on it alone.
\<close>

section \<open>Emitting and reading\<close>

text \<open>A stream that stands between the bytes \<open>pre\<close> and the bytes \<open>post\<close>.\<close>

definition cursor :: "bytes \<Rightarrow> bytes \<Rightarrow> stream" where
  "cursor pre post = \<lparr>getvalue = pre @ post, position = length pre\<rparr>"

definition emits :: "(stream, 'a) m \<Rightarrow> bytes \<Rightarrow> 'a \<Rightarrow> bool" where
  "emits p bs x \<longleftrightarrow> (\<forall>buf. p (cursor buf []) = (Val x, cursor (buf @ bs) []))"

definition reads :: "(stream, 'a) m \<Rightarrow> bytes \<Rightarrow> 'a \<Rightarrow> bool" where
  "reads p bs x \<longleftrightarrow> (\<forall>pre post. p (cursor pre (bs @ post)) = (Val x, cursor (pre @ bs) post))"

lemma getvalue_cursor [simp]: "getvalue (cursor pre post) = pre @ post"
  by (simp add: cursor_def)

named_theorems emits_intros
named_theorems reads_intros

lemma emits_ret [emits_intros]: "emits (ret x) [] x"
  by (simp add: emits_def ret_def)

lemma emits_bnd: "emits p bs x \<Longrightarrow> emits (f x) cs y \<Longrightarrow> emits (bnd p f) (bs @ cs) y"
  by (simp add: emits_def bnd_def)

lemma emits_sq: "emits p bs x \<Longrightarrow> emits q cs y \<Longrightarrow> emits (sq p q) (bs @ cs) y"
  by (simp add: sq_def emits_bnd)

lemma emits_sq_ret: "emits p bs x \<Longrightarrow> emits (sq p (ret y)) bs y"
  using emits_sq [OF _ emits_ret] by fastforce

lemma emits_lft [emits_intros]: "r = Inr x \<Longrightarrow> emits (lft r) [] x"
  by (simp add: emits_def lft_def)

lemma emits_bnd_lft: "r = Inr x \<Longrightarrow> emits (f x) bs y \<Longrightarrow> emits (bnd (lft r) f) bs y"
  using emits_bnd [OF emits_lft, of r x f bs y] by simp

lemma emits_stream_write [emits_intros]: "emits (stream_write bs) bs (int (length bs))"
  by (simp add: emits_def stream_write_def cursor_def)

lemma reads_ret [reads_intros]: "reads (ret x) [] x"
  by (simp add: reads_def ret_def)

lemma reads_bnd: "reads p bs x \<Longrightarrow> reads (f x) cs y \<Longrightarrow> reads (bnd p f) (bs @ cs) y"
  by (simp add: reads_def bnd_def)

lemma reads_bnd_ret: "reads p bs x \<Longrightarrow> y = g x \<Longrightarrow> reads (bnd p (\<lambda>x. ret (g x))) bs y"
  using reads_bnd [OF _ reads_ret, of p bs x g] by simp

lemma reads_bnd_lft: "reads p bs x \<Longrightarrow> g x = Inr y \<Longrightarrow> reads (bnd p (\<lambda>x. lft (g x))) bs y"
  using reads_bnd [of p bs x "\<lambda>x. lft (g x)" "[]" y] by (simp add: reads_def lft_def)

lemma reads_read:
  assumes "int (length bs) \<le> maxsize" "n = int (length bs)"
  shows "reads (stream_read n) bs bs"
  using assms by (auto simp: reads_def stream_read_def Let_def maxsize_def cursor_def)

lemma reads_try:
  assumes "reads p bs x"
  shows "reads (try_except p h) bs x"
  using assms by (simp add: reads_def try_except_def)

lemma reads_mapM:
  assumes "\<And>x. x \<in> set xs \<Longrightarrow> reads p (enc x) x"
  shows "reads (repeatm (length xs) p) (concat (map enc xs)) xs"
  using assms
proof (induction xs)
  case (Cons x xs)
  have "reads (bnd p (\<lambda>x. bnd (repeatm (length xs) p) (\<lambda>xs. ret (x # xs))))
      (enc x @ concat (map enc xs)) (x # xs)"
    using Cons by (intro reads_bnd [of _ _ x] reads_bnd_ret [of _ _ xs]) auto
  then show ?case by simp
qed (simp add: reads_ret)

lemma reads_sq: "reads p bs x \<Longrightarrow> reads q cs y \<Longrightarrow> reads (sq p q) (bs @ cs) y"
  by (simp add: sq_def reads_bnd)

lemma reads_sq_same: "reads p bs x \<Longrightarrow> reads q [] y \<Longrightarrow> reads (sq p q) bs y"
  using reads_sq [of p bs x q "[]" y] by simp

lemma reads_lft [reads_intros]: "r = Inr x \<Longrightarrow> reads (lft r) [] x"
  by (simp add: reads_def lft_def)

lemma reads_repeatm:
  "(\<And>x. x \<in> set xs \<Longrightarrow> reads p (enc x) x) \<Longrightarrow>
     reads (repeatm (nat (int (length xs))) p) (concat (map enc xs)) xs"
  by (simp add: reads_mapM)

text \<open>A reader that first computes something without reading.\<close>

lemma reads_bnd_lft_first: "r = Inr x \<Longrightarrow> reads (f x) bs y \<Longrightarrow> reads (bnd (lft r) f) bs y"
  using reads_bnd [OF reads_lft, of r x f bs y] by simp

lemma emits_mapm:
  assumes "\<And>x. x \<in> set xs \<Longrightarrow> emits (f x) (enc x) ()"
  shows "emits (mapm f xs) (concat (map enc xs)) ()"
  using assms by (induction xs) (auto intro: emits_ret emits_sq)

section \<open>The methods of the writer and the reader\<close>

lemma emits_WriteRaw [emits_intros]: "emits (WriteRaw bs) bs (int (length bs))"
  by (simp add: WriteRaw_def WriteBytes_any_def emits_stream_write)

lemma emits_WriteBytes: "unhexlify bs = None \<Longrightarrow> emits (WriteBytes bs) bs (int (length bs))"
  by (simp add: WriteBytes_def WriteBytes_any_def emits_stream_write)

lemma emits_WriteBytes_hex:
  "unhexlify bs = Some cs \<Longrightarrow> emits (WriteBytes bs) cs (int (length cs))"
  by (simp add: WriteBytes_def WriteBytes_any_def emits_stream_write)

lemma emits_pack_int:
  "int_fits n sgnd v \<Longrightarrow> emits (pack (pack_int n sgnd e v)) (order_bytes e (int_bytes n v)) (int n)"
  by (simp add: pack_def pack_int_fits)
     (metis emits_WriteRaw emits_bnd_lft length_int_bytes length_order_bytes)

lemma emits_WriteByte [emits_intros]:
  "0 \<le> i \<Longrightarrow> i < 256 \<Longrightarrow> emits (WriteByte (PInt i)) [word_of_int i] ()"
  by (simp add: WriteByte_def) (rule emits_sq_ret [OF emits_stream_write])

lemma emits_WriteByte_bytes [emits_intros]: "emits (WriteByte (PBytes bs)) bs ()"
  by (simp add: WriteByte_def) (rule emits_sq_ret [OF emits_stream_write])

lemma reads_unpack_int:
  assumes "int_fits n sgnd v" "int n \<le> maxsize"
  shows "reads (unpack (unpack_int n sgnd e) (int n)) (order_bytes e (int_bytes n v)) v"
  unfolding unpack_def using assms
  by (intro reads_bnd_lft [OF reads_read]) (simp_all add: unpack_pack_int)

lemma reads_SafeReadBytes:
  assumes "int (length bs) \<le> maxsize" "n = int (length bs)"
  shows "reads (SafeReadBytes n) bs bs"
proof -
  have "reads (bnd (ReadBytes n) (\<lambda>data. if int (length data) < n then throw ValueError else ret data)) (bs @ []) bs"
    using assms by (intro reads_bnd [OF reads_read [folded ReadBytes_def]]) (simp_all add: reads_ret)
  then show ?thesis by (simp add: SafeReadBytes_def)
qed

lemma reads_reader_ReadByte: "reads reader_ReadByte [b] [b]"
  using reads_SafeReadBytes [of "[b]" 1] by (simp add: reader_ReadByte_def maxsize_def)

lemma reads_unpack_str:
  assumes "int (length bs) \<le> maxsize" "n = int (length bs)"
  shows "reads (unpack (unpack_str n) n) bs bs"
  unfolding unpack_def using assms
  by (intro reads_bnd_lft [OF reads_read]) (simp_all add: unpack_str_def)

subsection \<open>Numbers of variable length\<close>

definition var_int :: "int \<Rightarrow> bytes" where
  "var_int i =
     (if i < 0xfd then int_bytes 1 i
      else if i \<le> 0xffff then 0xfd # int_bytes 2 i
      else if i \<le> 0xFFFFFFFF then 0xfe # int_bytes 4 i
      else 0xff # int_bytes 8 i)"

lemma emits_WriteVarInt:
  assumes "0 \<le> i" "i < 2 ^ 64"
  shows "emits (WriteVarInt i) (var_int i) ()"
proof -
  have wide: "emits (sq (WriteByte (PInt b)) (sq (pack (pack_int n False LE i)) (ret ()))) (word_of_int b # int_bytes n i) ()"
    if "i < 256 ^ n" "0 \<le> b" "b < 256" for n b
  proof -
    have "emits (pack (pack_int n False LE i)) (int_bytes n i) (int n)"
      using emits_pack_int [of n False i LE] assms that by (simp add: int_fits_def order_bytes_def)
    from emits_sq [OF emits_WriteByte [OF that(2,3)] emits_sq_ret [OF this]] show ?thesis by simp
  qed
  show ?thesis
    using assms wide [of 2 253] wide [of 4 254] wide [of 8 255] emits_WriteByte [of i]
    by (auto simp: WriteVarInt_def WriteVarInt_any_def var_int_def WriteUInt16_def WriteUInt32_def
        WriteUInt64_def)
qed


lemma emits_WriteVarInt_length [emits_intros]:
  "int (length xs) \<le> maxsize \<Longrightarrow> emits (WriteVarInt (int (length xs))) (var_int (int (length xs))) ()"
  by (rule emits_WriteVarInt) (simp_all add: maxsize_def)

lemma int_bytes_1: "int_bytes 1 i = [word_of_int (i mod 256)]"
  by simp

lemma reads_ReadVarInt_first:
  assumes "reads (bnd (if b = 0xfd then ReadUInt16 LE else if b = 0xfe then ReadUInt32 LE
       else if b = 0xff then ReadUInt64 LE else ret (uint b))
      (\<lambda>v. if mx < v then throw ValueError else ret v)) bs i"
  shows "reads (ReadVarInt mx) (b # bs) i"
proof -
  have first: "reads (try_except (bnd reader_ReadByte (\<lambda>fb. ret (Some fb)))
      (\<lambda>e. if e = ValueError then ret None else throw e)) [b] (Some [b])"
    by (intro reads_try reads_bnd_ret [OF reads_reader_ReadByte] refl)
  show ?thesis
    unfolding ReadVarInt_def
    by (rule reads_bnd [OF first, of _ bs i, simplified append_Cons append_Nil])
       (use assms in \<open>auto split: if_splits\<close>)
qed

lemma reads_ReadVarInt:
  assumes "0 \<le> i" "i < 2 ^ 64" "i \<le> mx"
  shows "reads (ReadVarInt mx) (var_int i) i"
proof -
  have max_ok: "reads (if mx < i then throw ValueError else ret i) [] i"
    using assms by (simp add: reads_ret)
  have wide: "reads (bnd (unpack (unpack_int n False LE) (int n)) (\<lambda>v. if mx < v then throw ValueError else ret v))
      (int_bytes n i) i" if "i < 256 ^ n" "int n \<le> maxsize" for n
  proof -
    have "reads (unpack (unpack_int n False LE) (int n)) (int_bytes n i) i"
      using reads_unpack_int [of n False i LE] assms that by (simp add: int_fits_def order_bytes_def)
    from reads_bnd [OF this, of "\<lambda>v. if mx < v then throw ValueError else ret v" "[]" i] max_ok
    show ?thesis by simp
  qed
  have one: "reads (ReadVarInt mx) [word_of_int i] i" if "i < 253"
  proof (rule reads_ReadVarInt_first)
    have "word_of_int i \<noteq> (0xfd :: byte)" "word_of_int i \<noteq> (0xfe :: byte)" "word_of_int i \<noteq> (0xff :: byte)"
      "uint (word_of_int i :: byte) = i"
      using assms that by (auto simp: word_uint_eq_iff uint_word_of_int_8)
    then show "reads (bnd (if word_of_int i = (0xfd :: byte) then ReadUInt16 LE
        else if word_of_int i = (0xfe :: byte) then ReadUInt32 LE
        else if word_of_int i = (0xff :: byte) then ReadUInt64 LE else ret (uint (word_of_int i :: byte)))
      (\<lambda>v. if mx < v then throw ValueError else ret v)) [] i"
      using reads_bnd [OF reads_ret, of "\<lambda>v. if mx < v then throw ValueError else ret v" i "[]" i] max_ok
      by simp
  qed
  have "reads (ReadVarInt mx) (0xfd # int_bytes 2 i) i" if "i \<le> 0xffff"
    using wide [of 2] that by (intro reads_ReadVarInt_first) (simp add: ReadUInt16_def maxsize_def)
  moreover have "reads (ReadVarInt mx) (0xfe # int_bytes 4 i) i" if "i \<le> 0xFFFFFFFF"
    using wide [of 4] that by (intro reads_ReadVarInt_first) (simp add: ReadUInt32_def maxsize_def)
  moreover have "reads (ReadVarInt mx) (0xff # int_bytes 8 i) i"
    using wide [of 8] assms by (intro reads_ReadVarInt_first) (simp add: ReadUInt64_def maxsize_def)
  ultimately show ?thesis using one assms by (simp add: var_int_def int_bytes_1)
qed

text \<open>
  Every number the writer takes has exactly one format of the four, and a byte more never is a
  number less: the formats of two numbers differ, as the reader reads each back.
\<close>

lemma var_int_inject:
  assumes "0 \<le> i" "i < 2 ^ 63" "0 \<le> j" "j < 2 ^ 63" "var_int i = var_int j"
  shows "i = j"
proof -
  have "reads (ReadVarInt maxsize) (var_int i) i" "reads (ReadVarInt maxsize) (var_int i) j"
    using assms reads_ReadVarInt [of i maxsize] reads_ReadVarInt [of j maxsize] by (simp_all add: maxsize_def)
  then show ?thesis by (simp add: reads_def)
qed

subsection \<open>Bytes with their length, hashes and amounts\<close>

definition var_bytes :: "bytes \<Rightarrow> bytes" where
  "var_bytes bs = var_int (int (length bs)) @ bs"

lemma emits_WriteVarBytes [emits_intros]:
  "int (length bs) \<le> maxsize \<Longrightarrow> emits (WriteVarBytes bs) (var_bytes bs) (int (length bs))"
  unfolding WriteVarBytes_def WriteVarBytes_e_def var_bytes_def WriteVarInt_def [symmetric]
  by (rule emits_sq [OF emits_WriteVarInt emits_WriteRaw]) (simp_all add: maxsize_def)

lemma reads_ReadVarBytes [reads_intros]:
  "int (length bs) \<le> mx \<Longrightarrow> int (length bs) \<le> maxsize \<Longrightarrow> reads (ReadVarBytes mx) (var_bytes bs) bs"
  unfolding ReadVarBytes_def var_bytes_def
  by (intro reads_bnd [OF reads_ReadVarInt reads_SafeReadBytes]) (simp_all add: maxsize_def)

lemma reads_ReadVarString:
  "int (length bs) \<le> mx \<Longrightarrow> int (length bs) \<le> maxsize \<Longrightarrow> reads (ReadVarString mx) (var_bytes bs) bs"
  unfolding ReadVarString_def var_bytes_def
  by (intro reads_bnd [OF reads_ReadVarInt reads_unpack_str]) (simp_all add: maxsize_def)

text \<open>\<open>WriteVarString\<close> writes text through its hexadecimal form, so always as it is.\<close>

lemma map_word_of_nat_unat: "map (of_nat \<circ> unat) bs = (bs :: bytes)"
  by (induction bs) simp_all

lemma hexlify_ascii:
  assumes "c \<in> set (hexlify bs)"
  shows "unat c < 128"
proof -
  obtain b :: byte where "c = of_char (hex_digit (unat b div 16)) \<or> c = of_char (hex_digit (unat b mod 16))"
    using assms by (auto simp: hexlify_def ascii_def hex_def hex_byte_def)
  moreover have "unat b div 16 < 16" "unat b mod 16 < 16"
    using unsigned_less [of b, where ?'a = nat] by auto
  ultimately obtain n where n: "n < 16" "c = of_char (hex_digit n)" by blast
  then have "unat c = of_char (hex_digit n)"
    unfolding of_nat_of_char [symmetric, where ?'a = byte] by (simp add: of_char_hex_digit unat_of_nat)
  then show ?thesis using n(1) by (simp add: of_char_hex_digit)
qed

lemma unhexlify_str_hexlify: "unhexlify_str (ascii_points (hexlify bs)) = Inr (Some bs)"
  by (auto simp: unhexlify_str_def ascii_points_def map_word_of_nat_unat dest: hexlify_ascii)


lemma emits_WriteVarString_bytes:
  assumes "int (length bs) \<le> maxsize" "v = PBytes bs \<or> v = PByteArray bs \<or> v = PStr s \<and> utf8_encode s = Inr bs"
  shows "emits (WriteVarString v) (var_bytes bs) ()"
proof -
  let ?string = "ascii_points (hexlify bs)"
  have w: "emits (WriteBytes_any (PStr ?string) True) bs (int (length bs))"
    using emits_bnd_lft [OF unhexlify_str_hexlify, of "\<lambda>r. case r of Some cs \<Rightarrow> stream_write cs | None \<Rightarrow> throw TypeError"]
      emits_stream_write [of bs] by (simp add: WriteBytes_any_def)
  have n: "emits (WriteVarInt (int (length bs))) (var_int (int (length bs))) ()"
    using assms(1) by (intro emits_WriteVarInt) (simp_all add: maxsize_def)
  have "emits (sq (WriteVarInt (int (length bs))) (sq (WriteBytes_any (PStr ?string) True) (ret ()))) (var_bytes bs) ()"
    unfolding var_bytes_def by (rule emits_sq [OF n emits_sq_ret [OF w]])
  moreover have "emits (case v of PStr s \<Rightarrow> lft (utf8_encode s) | PBytes bs \<Rightarrow> ret bs | PByteArray bs \<Rightarrow> ret bs
      | _ \<Rightarrow> throw TypeError) [] bs"
    using assms(2) by (auto intro: emits_ret emits_lft)
  ultimately show ?thesis unfolding WriteVarString_def Let_def using emits_bnd by fastforce
qed

text \<open>
  A hash is read back from what was written unless its bytes happen to be the text of hexadecimal
  digits; such a hash is written as half as many bytes.
\<close>

definition uint_ok :: "nat \<Rightarrow> uint \<Rightarrow> bool" where
  "uint_ok n u \<longleftrightarrow> length (Data u) = n \<and> uint_hash u = GetHashCode (Data u) \<and> unhexlify (Data u) = None"

lemma UIntBase_new_ok: "uint_ok n u \<Longrightarrow> UIntBase_new n (Some (Data u)) = Inr u"
  by (cases u) (simp add: uint_ok_def UIntBase_new_def)

lemma emits_uint_Serialize [emits_intros]: "uint_ok n u \<Longrightarrow> emits (uint_Serialize u) (Data u) ()"
  unfolding uint_Serialize_def by (rule emits_sq_ret [OF emits_WriteBytes]) (simp add: uint_ok_def)

lemma reads_ReadUInt160 [reads_intros]: "uint_ok 20 u \<Longrightarrow> reads ReadUInt160 (Data u) u"
  unfolding ReadUInt160_def ReadBytes_def
  by (rule reads_bnd_lft [OF reads_read])
     (simp_all add: UInt160_def UIntBase_new_ok, simp_all add: uint_ok_def maxsize_def)

lemma reads_ReadUInt256 [reads_intros]: "uint_ok 32 u \<Longrightarrow> reads ReadUInt256 (Data u) u"
  unfolding ReadUInt256_def ReadBytes_def
  by (rule reads_bnd_lft [OF reads_read])
     (simp_all add: UInt256_def UIntBase_new_ok, simp_all add: uint_ok_def maxsize_def)

lemma reads_uint_Deserialize:
  assumes "uint_ok n u" "length (Data v) = n" "int n \<le> maxsize"
  shows "reads (uint_Deserialize v) (Data u) u"
  unfolding uint_Deserialize_def ReadBytes_def using assms
  by (intro reads_bnd_ret [OF reads_read]) (cases u; cases v; simp add: uint_ok_def uint_Size_def)+

definition fixed8_bytes :: "fixed8 \<Rightarrow> bytes" where
  "fixed8_bytes v = int_bytes 8 (fx_value v)"

definition fixed8_ok :: "fixed8 \<Rightarrow> bool" where
  "fixed8_ok v \<longleftrightarrow> int_fits 8 True (fx_value v)"

lemma emits_WriteFixed8 [emits_intros]: "fixed8_ok v \<Longrightarrow> emits (WriteFixed8 v) (fixed8_bytes v) 8"
  using emits_pack_int [of 8 True "fx_value v" LE]
  by (simp add: WriteFixed8_def WriteInt64_def fixed8_bytes_def fixed8_ok_def order_bytes_def)

lemma reads_ReadFixed8 [reads_intros]: "fixed8_ok v \<Longrightarrow> reads ReadFixed8 (fixed8_bytes v) v"
  using reads_bnd_ret [OF reads_unpack_int [of 8 True "fx_value v" LE], of v Fixed8]
  by (simp add: ReadFixed8_def ReadInt64_def fixed8_bytes_def fixed8_ok_def order_bytes_def maxsize_def)


section \<open>Objects\<close>

text \<open>
  \<open>Helper.ToArray\<close>, \<open>Helper.ToStream\<close> and \<open>Helper.GetHashData\<close> of \<open>neo/Core/Helper.py\<close> differ in
  the text of the result and in the method that serializes. A serialization that raises keeps its
  stream. \<open>AsSerializableWithType\<close> of \<open>neo/IO/Helper.py\<close> releases it in any case.
\<close>

definition helper_ToStream :: "('a \<Rightarrow> (stream, unit) m) \<Rightarrow> 'a \<Rightarrow> (stream_manager, bytes) m" where
  "helper_ToStream ser v =
     bnd (GetStream None) (\<lambda>ms.
       sq (on_stream ms (ser v))
         (bnd (gets (\<lambda>s. getvalue (streams s ms))) (\<lambda>retVal.
           sq (ReleaseStream ms) (ret retVal))))"

definition helper_ToArray :: "('a \<Rightarrow> (stream, unit) m) \<Rightarrow> 'a \<Rightarrow> (stream_manager, bytes) m" where
  "helper_ToArray ser v =
     bnd (GetStream None) (\<lambda>ms.
       sq (on_stream ms (ser v))
         (bnd (gets (\<lambda>s. stream_ToArray (streams s ms))) (\<lambda>retVal.
           sq (ReleaseStream ms) (ret retVal))))"

definition helper_GetHashData :: "('a \<Rightarrow> (stream, unit) m) \<Rightarrow> 'a \<Rightarrow> (stream_manager, bytes) m" where
  "helper_GetHashData serialize_unsigned hashable =
     bnd (GetStream None) (\<lambda>ms.
       sq (on_stream ms (serialize_unsigned hashable))
         (bnd (gets (\<lambda>s. stream_ToArray (streams s ms))) (\<lambda>retVal.
           sq (ReleaseStream ms) (ret retVal))))"

definition AsSerializableWithType :: "(stream, 'a) m \<Rightarrow> bytes \<Rightarrow> (stream_manager, 'a option) m" where
  "AsSerializableWithType deser buffer =
     bnd (GetStream (Some buffer)) (\<lambda>mstream.
       bnd (try_except (bnd (on_stream mstream deser) (\<lambda>x. ret (Some x))) (\<lambda>e. ret None)) (\<lambda>r.
         sq (ReleaseStream mstream) (ret r)))"

definition array_ok :: "('a \<Rightarrow> bool) \<Rightarrow> 'a list \<Rightarrow> bool" where
  "array_ok ok xs \<longleftrightarrow> list_all ok xs \<and> int (length xs) \<le> maxsize"

definition array_enc :: "('a \<Rightarrow> bytes) \<Rightarrow> 'a list \<Rightarrow> bytes" where
  "array_enc enc xs = var_int (int (length xs)) @ concat (map enc xs)"

lemma on_stream_emits:
  assumes "emits p bs x" "streams s i = cursor pre []"
  shows "on_stream i p s = (Val x, s\<lparr>streams := (streams s)(i := cursor (pre @ bs) [])\<rparr>)"
  using assms by (simp add: on_stream_def emits_def)

lemma on_new_stream_emits:
  assumes "emits p bs x" "streams s i = initial_stream None"
  shows "on_stream i p s = (Val x, s\<lparr>streams := (streams s)(i := cursor bs [])\<rparr>)"
  using on_stream_emits [of p bs x s i "[]"] assms by (simp add: initial_stream_def cursor_def)

lemma helper_ToArray_emits:
  assumes "emits (ser x) bs ()" "pool_wf s"
  shows "\<exists>s'. helper_ToArray ser x s = (Val (hexlify bs), s') \<and> pool_wf s'"
proof -
  obtain i s1 where g: "GetStream None s = (Val i, s1)" "pool_wf s1" "streams s1 i = initial_stream None"
    "i \<in> set (mstreams s1)" "i \<notin> set (mstreams_available s1)"
    using GetStream_clean [OF assms(2), of None] by blast
  let ?s2 = "s1\<lparr>streams := (streams s1)(i := cursor bs [])\<rparr>"
  have "helper_ToArray ser x s = (Val (hexlify bs), snd (ReleaseStream i ?s2))"
    using g(1) on_new_stream_emits [OF assms(1) g(3)]
    by (simp add: helper_ToArray_def bnd_def sq_def gets_def ret_def run_ReleaseStream stream_ToArray_def)
  moreover have "pool_wf (snd (ReleaseStream i ?s2))"
    by (rule pool_ReleaseStream) (use g in \<open>auto simp: pool_wf_def\<close>)
  ultimately show ?thesis by blast
qed

locale codec =
  fixes ser :: "'a \<Rightarrow> (stream, unit) m"
    and deser :: "(stream, 'a) m"
    and enc :: "'a \<Rightarrow> bytes"
    and ok :: "'a \<Rightarrow> bool"
  assumes ser_emits: "ok x \<Longrightarrow> emits (ser x) (enc x) ()"
    and deser_reads: "ok x \<Longrightarrow> reads deser (enc x) x"
begin

lemma read_items_reads: "list_all ok xs \<Longrightarrow> reads (read_items (length xs) deser) (concat (map enc xs)) xs"
proof (induction xs)
  case Nil
  show ?case by (simp add: reads_ret)
next
  case (Cons x xs)
  have first: "reads (try_except (bnd deser (\<lambda>item. ret (Some item))) (\<lambda>e. ret None)) (enc x) (Some x)"
    using Cons.prems by (intro reads_try reads_bnd_ret [OF deser_reads]) simp_all
  have rest: "reads (bnd (read_items (length xs) deser)
      (\<lambda>items. ret (case Some x of None \<Rightarrow> items | Some item \<Rightarrow> item # items))) (concat (map enc xs)) (x # xs)"
    using Cons by (intro reads_bnd_ret [of _ _ xs]) simp_all
  show ?case
    using reads_bnd [OF first, of "\<lambda>r. bnd (read_items (length xs) deser)
      (\<lambda>items. ret (case r of None \<Rightarrow> items | Some item \<Rightarrow> item # items))", OF rest] by simp
qed

text \<open>Two objects with the same format are the same.\<close>

lemma enc_inject: "ok x \<Longrightarrow> ok y \<Longrightarrow> enc x = enc y \<Longrightarrow> x = y"
  using deser_reads [of x] deser_reads [of y] by (simp add: reads_def)

lemma array_emits: "array_ok ok xs \<Longrightarrow> emits (WriteSerializableArray ser xs) (array_enc enc xs) ()"
  unfolding WriteSerializableArray_def WriteSerializableArray_opt_def option.case array_enc_def array_ok_def
  by (rule emits_sq [OF emits_WriteVarInt_length emits_mapm]) (auto simp: list_all_iff ser_emits)

lemma array_reads:
  assumes "array_ok ok xs" "int (length xs) \<le> mx"
  shows "reads (ReadSerializableArray deser mx) (array_enc enc xs) xs"
proof -
  have "reads (ReadVarInt mx) (var_int (int (length xs))) (int (length xs))"
    using assms by (intro reads_ReadVarInt) (simp_all add: array_ok_def maxsize_def)
  moreover have "reads (read_items (nat (int (length xs))) deser) (concat (map enc xs)) xs"
    using assms by (simp add: array_ok_def read_items_reads)
  ultimately show ?thesis unfolding ReadSerializableArray_def array_enc_def by (rule reads_bnd)
qed

lemma on_stream_ser:
  assumes "ok x" "streams s i = initial_stream None"
  shows "on_stream i (ser x) s = (Val (), s\<lparr>streams := (streams s)(i := cursor (enc x) [])\<rparr>)"
  by (rule on_new_stream_emits [where p = "ser x", OF ser_emits [OF assms(1)] assms(2)])

lemma on_stream_deser:
  assumes "ok x" "streams s i = initial_stream (Some (enc x @ rest))"
  shows "on_stream i deser s = (Val x, s\<lparr>streams := (streams s)(i := cursor (enc x) rest)\<rparr>)"
proof -
  have "initial_stream (Some (enc x @ rest)) = cursor [] (enc x @ rest)"
    by (simp add: initial_stream_def cursor_def)
  then show ?thesis
    using deser_reads [OF assms(1), unfolded reads_def, rule_format, of "[]" rest] assms(2)
    by (simp add: on_stream_def)
qed

lemma ToStream_ok:
  assumes "ok x" "pool_wf s"
  shows "\<exists>s'. helper_ToStream ser x s = (Val (enc x), s') \<and> pool_wf s'"
proof -
  obtain i s1 where g: "GetStream None s = (Val i, s1)" "pool_wf s1" "streams s1 i = initial_stream None"
    "i \<in> set (mstreams s1)" "i \<notin> set (mstreams_available s1)"
    using GetStream_clean [OF assms(2), of None] by blast
  let ?s2 = "s1\<lparr>streams := (streams s1)(i := cursor (enc x) [])\<rparr>"
  have "helper_ToStream ser x s = (Val (enc x), snd (ReleaseStream i ?s2))"
    using g(1) on_stream_ser [OF assms(1) g(3)]
    by (simp add: helper_ToStream_def bnd_def sq_def gets_def ret_def run_ReleaseStream)
  moreover have "pool_wf (snd (ReleaseStream i ?s2))"
    by (rule pool_ReleaseStream) (use g in \<open>auto simp: pool_wf_def\<close>)
  ultimately show ?thesis by blast
qed

lemma ToArray_ok:
  assumes "ok x" "pool_wf s"
  shows "\<exists>s'. helper_ToArray ser x s = (Val (hexlify (enc x)), s') \<and> pool_wf s'"
  by (rule helper_ToArray_emits [where ser = ser, OF ser_emits [OF assms(1)] assms(2)])

lemma AsSerializable_ok:
  assumes "ok x" "pool_wf s"
  shows "\<exists>s'. AsSerializableWithType deser (enc x @ rest) s = (Val (Some x), s') \<and> pool_wf s'"
proof -
  obtain i s1 where g: "GetStream (Some (enc x @ rest)) s = (Val i, s1)" "pool_wf s1"
    "streams s1 i = initial_stream (Some (enc x @ rest))" "i \<in> set (mstreams s1)" "i \<notin> set (mstreams_available s1)"
    using GetStream_clean [OF assms(2), of "Some (enc x @ rest)"] by blast
  let ?s2 = "s1\<lparr>streams := (streams s1)(i := cursor (enc x) rest)\<rparr>"
  have "AsSerializableWithType deser (enc x @ rest) s = (Val (Some x), snd (ReleaseStream i ?s2))"
    using g(1) on_stream_deser [OF assms(1) g(3)]
    by (simp add: AsSerializableWithType_def try_except_def bnd_def sq_def ret_def run_ReleaseStream)
  moreover have "pool_wf (snd (ReleaseStream i ?s2))"
    by (rule pool_ReleaseStream) (use g in \<open>auto simp: pool_wf_def\<close>)
  ultimately show ?thesis by blast
qed

end

interpretation hash160: codec uint_Serialize ReadUInt160 Data "uint_ok 20"
  by unfold_locales (auto intro: emits_intros reads_intros)

interpretation hash256: codec uint_Serialize ReadUInt256 Data "uint_ok 32"
  by unfold_locales (auto intro: emits_intros reads_intros)

end
