(* ===== verification/IO_Properties.thy ===== *)
theory IO_Properties
  imports Codec
begin

text \<open>
  What the binary reader and writer promise at their boundary: numbers and lengths, truncated
  streams, hashes that look like hexadecimal text, arrays whose items fail.
\<close>

section \<open>Truncated streams\<close>

lemma read_short:
  assumes "int (length rest) < n" "n \<le> maxsize"
  shows "stream_read n (cursor pre rest) = (Val rest, cursor (pre @ rest) [])"
  using assms by (simp add: stream_read_def cursor_def Let_def)

lemma SafeReadBytes_short:
  assumes "int (length rest) < n" "n \<le> maxsize"
  shows "SafeReadBytes n (cursor pre rest) = (Exc ValueError, cursor (pre @ rest) [])"
  using assms by (simp add: SafeReadBytes_def ReadBytes_def bnd_def read_short throw_def)

lemma checked_max:
  fixes H :: "(stream, 'b option) m" and V :: "'b \<Rightarrow> (stream, int) m"
  defines "P \<equiv> \<lambda>m. bnd H (\<lambda>r. case r of None \<Rightarrow> ret 0
    | Some fb \<Rightarrow> bnd (V fb) (\<lambda>v. if m < v then throw ValueError else ret v))"
  assumes "P n s = (Val n, t)" "0 < n" "mx < n"
  shows "P mx s = (Exc ValueError, t)"
  using assms(2-4) by (auto simp: P_def bnd_def throw_def ret_def split: option.splits res.splits prod.splits if_splits)

lemma ReadVarInt_max: "ReadVarInt n s = (Val n, t) \<Longrightarrow> 0 < n \<Longrightarrow> mx < n \<Longrightarrow> ReadVarInt mx s = (Exc ValueError, t)"
  unfolding ReadVarInt_def by (rule checked_max)

text \<open>
  C37. The format of a number of variable length is the shortest of 1, 3, 5 and 9 bytes that holds
  it: \<open>WriteVarInt\<close> emits it for every number below \<open>2 ^ 64\<close>, and \<open>ReadVarInt\<close> reads the number back
  wherever the bytes lie in a stream, whatever follows them, unless it is above the maximum.
\<close>

theorem VarInt_roundtrip:
  assumes "0 \<le> i" "i < 2 ^ 64" "i \<le> mx"
  shows "\<exists>bs. emits (WriteVarInt i) bs () \<and> reads (ReadVarInt mx) bs i \<and>
    length bs = (if i < 2 ^ 8 - 3 then 1 else if i < 2 ^ 16 then 3 else if i < 2 ^ 32 then 5 else 9)"
proof (intro exI conjI)
  show "emits (WriteVarInt i) (var_int i) ()" using assms(1,2) by (rule emits_WriteVarInt)
  show "reads (ReadVarInt mx) (var_int i) i" using assms by (rule reads_ReadVarInt)
  show "length (var_int i) =
      (if i < 2 ^ 8 - 3 then 1 else if i < 2 ^ 16 then 3 else if i < 2 ^ 32 then 5 else 9)"
    by (auto simp: var_int_def)
qed

lemma VarInt_roundtrip_witness:
  "\<exists>bs. emits (WriteVarInt 253) bs () \<and> reads (ReadVarInt 1000) bs 253 \<and> length bs = 3"
  using VarInt_roundtrip [of 253 1000] by simp

lemma SafeReadBytes_1: "SafeReadBytes 1 (cursor pre (b # rest)) = (Val [b], cursor (pre @ [b]) rest)"
  using reads_SafeReadBytes [of "[b]" 1] by (simp add: reads_def maxsize_def)

lemma ReadVarInt_empty: "ReadVarInt mx (cursor pre []) = (Val 0, cursor pre [])"
  using SafeReadBytes_short [of "[]" 1 pre]
  by (simp add: ReadVarInt_def reader_ReadByte_def try_except_def bnd_def ret_def maxsize_def)

lemma ReadVarInt_cut:
  assumes "0 \<le> n" "0 < k" "k < length (var_int n)"
  shows "ReadVarInt mx (cursor pre (take k (var_int n))) = (Exc StructError, cursor (pre @ take k (var_int n)) [])"
proof -
  obtain b bs where b: "var_int n = b # bs" "(b, length bs) \<in> {(0xfd, 2), (0xfe, 4), (0xff, 8)}"
    using assms(2,3) by (auto simp: var_int_def split: if_splits)
  obtain j where j: "k = Suc j" using assms(2) by (cases k) auto
  have short: "length (take j bs) < length bs" using assms(3) b(1) j by simp
  have read: "unpack (unpack_int m False LE) (int m) (cursor (pre @ [b]) (take j bs)) = (Exc StructError, cursor (pre @ b # take j bs) [])"
    if "m = length bs" "m \<le> 8" for m
    using that short read_short [of "take j bs" "int m" "pre @ [b]"]
    by (simp add: unpack_def bnd_def unpack_int_def lft_def throw_def maxsize_def)
  show ?thesis
    using b(2) read [of 2] read [of 4] read [of 8] SafeReadBytes_1 [of pre b "take j bs"]
    by (auto simp: b(1) j ReadVarInt_def reader_ReadByte_def try_except_def bnd_def ret_def ReadUInt16_def ReadUInt32_def ReadUInt64_def)
qed

text \<open>
  C38. What \<open>ReadVarBytes\<close> does when the stream ends inside what was written, after the first \<open>k\<close> bytes. Inside the
  data it raises \<open>ValueError\<close>, never giving fewer bytes. Inside the length it raises \<open>struct.error\<close>, as the numbers of
  several bytes are unpacked from too few. And from an empty stream it returns no bytes without an error. A
  length above the maximum raises \<open>ValueError\<close> before any of the bytes behind it are read.
\<close>

theorem ReadVarBytes_errors:
  assumes "n = int (length data)" "n \<le> maxsize"
  shows "(n \<le> mx \<and> k < length (var_int n @ data) \<longrightarrow>
      ReadVarBytes mx (cursor pre (take k (var_int n @ data))) =
        (if k = 0 then Val [] else if k < length (var_int n) then Exc StructError else Exc ValueError,
         cursor (pre @ take k (var_int n @ data)) [])) \<and>
    (0 \<le> mx \<and> mx < n \<longrightarrow>
      ReadVarBytes mx (cursor pre (var_int n @ rest)) = (Exc ValueError, cursor (pre @ var_int n) rest))"
proof (intro conjI impI)
  assume a: "n \<le> mx \<and> k < length (var_int n @ data)"
  consider "k = 0" | "0 < k" "k < length (var_int n)" | "length (var_int n) \<le> k" "0 < k"
    by (metis gr0I not_less)
  then show "ReadVarBytes mx (cursor pre (take k (var_int n @ data))) =
      (if k = 0 then Val [] else if k < length (var_int n) then Exc StructError else Exc ValueError,
       cursor (pre @ take k (var_int n @ data)) [])"
  proof cases
    case 1
    have "reads (SafeReadBytes 0) [] []" by (rule reads_SafeReadBytes) (simp_all add: maxsize_def)
    then have "SafeReadBytes 0 (cursor pre []) = (Val [], cursor pre [])" by (auto simp: reads_def dest: spec [of _ "[]"])
    then show ?thesis using 1 by (simp add: ReadVarBytes_def bnd_def ReadVarInt_empty)
  next
    case 2
    then show ?thesis using assms(1) ReadVarInt_cut [of n k mx pre] by (simp add: ReadVarBytes_def bnd_def)
  next
    case 3
    define cut where "cut = take (k - length (var_int n)) data"
    have cut: "take k (var_int n @ data) = var_int n @ cut" "int (length cut) < n"
      using 3 a assms(1) by (simp_all add: cut_def min_less_iff_disj) linarith
    have "reads (ReadVarInt mx) (var_int n) n" using assms a by (intro reads_ReadVarInt) (simp_all add: maxsize_def)
    then have "ReadVarInt mx (cursor pre (var_int n @ cut)) = (Val n, cursor (pre @ var_int n) cut)" by (simp add: reads_def)
    then show ?thesis using 3 cut assms(2) by (simp add: ReadVarBytes_def bnd_def SafeReadBytes_short)
  qed
next
  assume a: "0 \<le> mx \<and> mx < n"
  have "reads (ReadVarInt n) (var_int n) n" using assms by (intro reads_ReadVarInt) (simp_all add: maxsize_def)
  then have "ReadVarInt n (cursor pre (var_int n @ rest)) = (Val n, cursor (pre @ var_int n) rest)"
    by (simp add: reads_def)
  then have "ReadVarInt mx (cursor pre (var_int n @ rest)) = (Exc ValueError, cursor (pre @ var_int n) rest)"
    by (rule ReadVarInt_max) (use a in simp_all)
  then show "ReadVarBytes mx (cursor pre (var_int n @ rest)) = (Exc ValueError, cursor (pre @ var_int n) rest)"
    by (simp add: ReadVarBytes_def bnd_def)
qed

lemma ReadVarBytes_errors_witness:
  "ReadVarBytes 10 (cursor [] (take 2 (var_int 2 @ [7, 8]))) = (Exc ValueError, cursor ([] @ take 2 (var_int 2 @ [7, 8])) []) \<and>
   ReadVarBytes 10 (cursor [] (take 0 (var_int 2 @ [7, 8]))) = (Val [], cursor [] []) \<and>
   ReadVarBytes 1 (cursor [] (var_int 2 @ [7])) = (Exc ValueError, cursor ([] @ var_int 2) [7])"
proof -
  have "length (var_int 2) = 1" by (simp add: var_int_def)
  then show ?thesis
    using ReadVarBytes_errors [of 2 "[7, 8]" 10 2 "[]" "[]"] ReadVarBytes_errors [of 2 "[7, 8]" 10 0 "[]" "[]"]
      ReadVarBytes_errors [of 2 "[7, 8]" 1 0 "[]" "[7]"]
    by (simp add: maxsize_def)
qed

text \<open>
  A hash comes back from the bytes written for it exactly when its own bytes are not the text of
  hexadecimal digits: \<open>UIntBase.Serialize\<close> writes through \<open>WriteBytes\<close>, which takes such text for the
  bytes it denotes and writes half as many.
\<close>

theorem hash_roundtrip_iff:
  assumes "length (Data u) = 20" "uint_hash u = GetHashCode (Data u)"
  shows "(\<exists>bs. emits (uint_Serialize u) bs () \<and> reads ReadUInt160 bs u) \<longleftrightarrow> unhexlify (Data u) = None"
proof
  assume "unhexlify (Data u) = None"
  then have "uint_ok 20 u" using assms by (simp add: uint_ok_def)
  then show "\<exists>bs. emits (uint_Serialize u) bs () \<and> reads ReadUInt160 bs u"
    using emits_uint_Serialize reads_ReadUInt160 by blast
next
  assume "\<exists>bs. emits (uint_Serialize u) bs () \<and> reads ReadUInt160 bs u"
  then obtain bs where bs: "emits (uint_Serialize u) bs ()" "reads ReadUInt160 bs u" by blast
  show "unhexlify (Data u) = None"
  proof (rule ccontr)
    assume "unhexlify (Data u) \<noteq> None"
    then obtain cs where cs: "unhexlify (Data u) = Some cs" by blast
    then have "emits (uint_Serialize u) cs ()"
      unfolding uint_Serialize_def by (rule emits_sq_ret [OF emits_WriteBytes_hex])
    then have eq: "bs = cs"
      using bs(1) by (auto simp: emits_def cursor_def)
    have len: "length cs = 10" using length_unhexlify [OF cs] assms(1) by simp
    have "stream_read 20 (cursor [] cs) = (Val cs, cursor ([] @ cs) [])"
      using len by (intro read_short) (simp_all add: maxsize_def)
    then have "ReadUInt160 (cursor [] (cs @ [])) = (Exc ValueError, cursor cs [])"
      using len by (simp add: ReadUInt160_def ReadBytes_def bnd_def lft_def UInt160_def UIntBase_new_def)
    moreover have "ReadUInt160 (cursor [] (cs @ [])) = (Val u, cursor ([] @ cs) [])"
      using bs(2) unfolding eq reads_def by blast
    ultimately show False by simp
  qed
qed

definition hex_hash :: uint where
  "hex_hash = \<lparr>Data = replicate 20 0x61, uint_hash = GetHashCode (replicate 20 0x61)\<rparr>"

lemma hash_roundtrip_iff_witness:
  "\<not> (\<exists>bs. emits (uint_Serialize hex_hash) bs () \<and> reads ReadUInt160 bs hex_hash)"
proof -
  have "unhexlify (replicate (2 * n) 0x61) \<noteq> None" for n
    by (induction n) (auto simp: hex_val_def)
  from this [of 10] have "unhexlify (Data hex_hash) \<noteq> None" by (simp add: hex_hash_def)
  then show ?thesis using hash_roundtrip_iff [of hex_hash] by (simp add: hex_hash_def)
qed

lemma read_items_total:
  "\<exists>xs s'. read_items n deser s = (Val xs, s') \<and> length xs \<le> n" if "\<And>s b s'. deser s \<noteq> (Ret b, s')"
proof (induction n arbitrary: s)
  case 0
  show ?case by (simp add: ret_def)
next
  case (Suc n)
  show ?case
  proof (cases "deser s")
    case (Pair r t)
    obtain xs s' where xs: "read_items n deser t = (Val xs, s')" "length xs \<le> n" using Suc by blast
    then show ?thesis using Pair that [of s] by (cases r) (auto simp: bnd_def try_except_def ret_def)
  qed
qed

text \<open>
  \<open>ReadSerializableArray\<close> raises only for its length: once that is read, it returns, whatever the
  items' \<open>Deserialize\<close> does, and it returns at most as many items as announced: those that raised
  are left out.
\<close>

theorem ReadSerializableArray_total:
  assumes "\<And>s b s'. deser s \<noteq> (Ret b, s')" and "ReadVarInt mx s = (Val n, t)"
  shows "\<exists>xs s'. ReadSerializableArray deser mx s = (Val xs, s') \<and> length xs \<le> nat n"
  using read_items_total [where deser = deser and n = "nat n" and s = t, OF assms(1)] assms(2)
  by (auto simp: ReadSerializableArray_def bnd_def)

lemma ReadSerializableArray_total_witness:
  "\<exists>xs s'. ReadSerializableArray (throw ValueError :: (stream, nat) m) 9 (cursor [] [3]) = (Val xs, s') \<and>
     length xs \<le> nat 3"
proof (rule ReadSerializableArray_total)
  have "reads (ReadVarInt 9) (var_int 3) 3" by (rule reads_ReadVarInt) simp_all
  then show "ReadVarInt 9 (cursor [] [3]) = (Val 3, cursor [3] [])"
    unfolding reads_def by (elim allE [of _ "[]"]) (simp add: var_int_def)
qed (simp add: throw_def)

end
