(* ===== verification/Elliptic_Curve.thy ===== *)
theory Elliptic_Curve
  imports Codec
begin

text \<open>
  \<open>neo/Core/Cryptography/ECCurve.py\<close>: the extended Euclidean algorithm, the finite field, the
  curve's points with their group operations, their encodings, and the decoding of public keys.

  A \<open>FiniteField.Value\<close> is its integer, which need not be reduced (a negation gives
  \<open>p - value\<close>); all values meet in one field, since every operation converts its operands to the
  field of the left one. Not modelled: \<open>ECDSA\<close>'s signatures (the program signs with the package
  ecdsa; \<open>secp256r1\<close> here gives a field where the class expects a number, so they only raise), the
  square roots through float exponents of \<open>FiniteField.sqrt\<close>, the random choices of
  \<open>next_random_integer\<close> and the sequence of Lucas, which no input reaches (\<open>U\<close> is None in the loop's
  first test).
\<close>

section \<open>Numbers\<close>

function ext_GCD :: "int \<Rightarrow> int \<Rightarrow> int \<times> int \<times> int" where
  "ext_GCD a b =
     (if a = 0 then (b, 0, 1)
      else let (d1, x1, y1) = ext_GCD (b mod a) a in (d1, y1 - (b div a) * x1, x1))"
  by auto
termination
proof (relation "measure (\<lambda>(a, b). nat \<bar>a\<bar>)")
  fix a b :: int
  assume "a \<noteq> 0"
  then have "\<bar>b mod a\<bar> < \<bar>a\<bar>" by (rule abs_mod_less)
  then show "((b mod a, a), a, b) \<in> measure (\<lambda>(a, b). nat \<bar>a\<bar>)" by simp
qed simp

declare ext_GCD.simps [simp del]

definition modinv :: "int \<Rightarrow> int \<Rightarrow> int" where
  "modinv x m = (case ext_GCD x m of (g, c, d) \<Rightarrow> c)"

definition test_bit :: "int \<Rightarrow> nat \<Rightarrow> bool" where
  "test_bit num index \<longleftrightarrow> num div 2 ^ index mod 2 = 1"

text \<open>\<open>pow(b, e, m)\<close> for a modulus \<open>m\<close> above 0 and an exponent that is not negative.\<close>

fun modpow :: "int \<Rightarrow> nat \<Rightarrow> int \<Rightarrow> int" where
  "modpow b e m =
     (if e = 0 then 1 mod m
      else let h = modpow (b * b mod m) (e div 2) m in if odd e then b * h mod m else h)"

declare modpow.simps [simp del]

text \<open>
  \<open>sqrtCQ\<close>: for a modulus that is 3 modulo 4 (bit 1 set) the only candidate is tried; for another
  modulus the loop is left at once. \<open>LegendaireExponentError\<close> is \<open>Inl ValueError\<close> here; every
  caller turns it into None.
\<close>

definition sqrtCQ :: "int \<Rightarrow> int \<Rightarrow> pyexc + int option" where
  "sqrtCQ val CQ =
     (if test_bit CQ 1 then
        let z = modpow val (nat (CQ div 4 + 1)) CQ; zsquare = z * z mod CQ
        in if zsquare = val then Inr (Some z) else Inr None
      else if modpow val (nat ((CQ - 1) div 2)) CQ \<noteq> 1 then Inl ValueError
      else Inr None)"

section \<open>The field\<close>

definition f_add :: "int \<Rightarrow> int \<Rightarrow> int \<Rightarrow> int" where
  "f_add p a b = (a + b) mod p"

definition f_sub :: "int \<Rightarrow> int \<Rightarrow> int \<Rightarrow> int" where
  "f_sub p a b = (a - b) mod p"

definition f_mul :: "int \<Rightarrow> int \<Rightarrow> int \<Rightarrow> int" where
  "f_mul p a b = (a * b) mod p"

definition f_inverse :: "int \<Rightarrow> int \<Rightarrow> int" where
  "f_inverse p a = modinv a p"

definition f_div :: "int \<Rightarrow> int \<Rightarrow> int \<Rightarrow> int" where
  "f_div p a b = (a * f_inverse p b) mod p"

definition f_pow :: "int \<Rightarrow> int \<Rightarrow> nat \<Rightarrow> int" where
  "f_pow p a e = modpow a e p"

definition f_eq :: "int \<Rightarrow> int \<Rightarrow> int \<Rightarrow> bool" where
  "f_eq p a b \<longleftrightarrow> (a - b) mod p = 0"

definition f_neg :: "int \<Rightarrow> int \<Rightarrow> int" where
  "f_neg p a = p - a"

definition f_iszero :: "int \<Rightarrow> bool" where
  "f_iszero a \<longleftrightarrow> a = 0"

section \<open>Points\<close>

record curve =
  field_p :: int
  curve_a :: int
  curve_b :: int

record ec_point =
  ec_x :: int
  ec_y :: int

definition ec_make :: "int \<Rightarrow> int \<Rightarrow> ec_point" where
  "ec_make x y = \<lparr>ec_x = x, ec_y = y\<rparr>"

definition ec_zero :: ec_point where
  "ec_zero = ec_make 0 0"

definition ec_Infinity :: ec_point where
  "ec_Infinity = ec_make 0 0"

definition ec_iszero :: "ec_point \<Rightarrow> bool" where
  "ec_iszero P \<longleftrightarrow> f_iszero (ec_x P) \<and> f_iszero (ec_y P)"

definition ec_eq :: "curve \<Rightarrow> ec_point \<Rightarrow> ec_point \<Rightarrow> bool" where
  "ec_eq C P Q \<longleftrightarrow> f_eq (field_p C) (ec_x P) (ec_x Q) \<and> f_eq (field_p C) (ec_y P) (ec_y Q)"

definition IsInfinity :: "curve \<Rightarrow> ec_point \<Rightarrow> bool" where
  "IsInfinity C P \<longleftrightarrow> ec_eq C P ec_Infinity"

text \<open>The order of points compares \<open>x\<close> alone (two points with equal \<open>x\<close> are never ordered).\<close>

definition ec_lt :: "curve \<Rightarrow> ec_point \<Rightarrow> ec_point \<Rightarrow> bool" where
  "ec_lt C P Q \<longleftrightarrow>
     (if ec_eq C Q P then False
      else if ec_x P < ec_x Q then True
      else if ec_x P > ec_x Q then False
      else if ec_x P = ec_x Q then False
      else ec_y P < ec_y Q)"

definition ec_gt :: "curve \<Rightarrow> ec_point \<Rightarrow> ec_point \<Rightarrow> bool" where
  "ec_gt C P Q \<longleftrightarrow>
     (if ec_eq C Q P then False
      else if ec_x P > ec_x Q then True
      else if ec_x P < ec_x Q then False
      else if ec_x P = ec_x Q then False
      else ec_y P > ec_y Q)"

definition ec_le :: "curve \<Rightarrow> ec_point \<Rightarrow> ec_point \<Rightarrow> bool" where
  "ec_le C P Q \<longleftrightarrow> (if ec_eq C Q P then True else ec_lt C P Q)"

definition ec_ge :: "curve \<Rightarrow> ec_point \<Rightarrow> ec_point \<Rightarrow> bool" where
  "ec_ge C P Q \<longleftrightarrow> (if ec_eq C Q P then True else ec_gt C P Q)"

definition ec_neg :: "curve \<Rightarrow> ec_point \<Rightarrow> ec_point" where
  "ec_neg C P = ec_make (ec_x P) (f_neg (field_p C) (ec_y P))"

definition ec_add :: "curve \<Rightarrow> ec_point \<Rightarrow> ec_point \<Rightarrow> ec_point" where
  "ec_add C P Q =
     (let p = field_p C
      in if ec_iszero P then Q
         else if ec_iszero Q then P
         else if ec_eq C P Q \<and> f_eq p (ec_y P) 0 then ec_zero
         else if \<not> ec_eq C P Q \<and> f_eq p (ec_x P) (ec_x Q) then ec_zero
         else let lft =
             (if ec_eq C P Q
              then f_div p (f_add p (f_mul p 3 (f_pow p (ec_x P) 2)) (curve_a C)) (f_mul p 2 (ec_y P))
              else f_div p (f_sub p (ec_y P) (ec_y Q)) (f_sub p (ec_x P) (ec_x Q)));
             x = f_sub p (f_pow p lft 2) (f_add p (ec_x P) (ec_x Q));
             y = f_sub p (f_mul p lft (f_sub p (ec_x P) x)) (ec_y P)
           in ec_make x y)"

definition ec_sub :: "curve \<Rightarrow> ec_point \<Rightarrow> ec_point \<Rightarrow> ec_point" where
  "ec_sub C P Q = ec_add C P (ec_neg C Q)"

text \<open>
  \<open>mul\<close> halves the scalar with \<open>/=\<close>: it becomes a float and the loop goes on below one, until the
  float underflows to zero.
\<close>

definition float_odd :: "dyadic \<Rightarrow> bool" where
  "float_odd f = (case f of (m, e) \<Rightarrow> m * 2 ^ nat e mod (2 * 2 ^ nat (- e)) \<noteq> 0)"

definition float_half :: "dyadic \<Rightarrow> pyexc + dyadic" where
  "float_half f = (case f of (m, e) \<Rightarrow> int_truediv (m * 2 ^ nat e) (2 * 2 ^ nat (- e)))"

partial_function (option) ec_mul_loop :: "curve \<Rightarrow> dyadic \<Rightarrow> ec_point \<Rightarrow> ec_point \<Rightarrow> (pyexc + ec_point) option" where
  "ec_mul_loop C scalar accumulator shifter =
     (if fst scalar = 0 then Some (Inr accumulator)
      else let accumulator' = (if float_odd scalar then ec_add C accumulator shifter else accumulator);
               shifter' = ec_add C shifter shifter
           in (case float_half scalar of
                 Inl e \<Rightarrow> Some (Inl e)
               | Inr scalar' \<Rightarrow> ec_mul_loop C scalar' accumulator' shifter'))"

definition ec_mul :: "curve \<Rightarrow> ec_point \<Rightarrow> int \<Rightarrow> (pyexc + ec_point) option" where
  "ec_mul C P scalar = ec_mul_loop C (scalar, 0) ec_zero P"

text \<open>The right side of the curve's equation.\<close>

definition ec_ysquare :: "curve \<Rightarrow> int \<Rightarrow> int" where
  "ec_ysquare C x =
     (let p = field_p C in f_add p (f_add p (f_pow p x 3) (f_mul p (curve_a C) x)) (curve_b C))"

definition isoncurve :: "curve \<Rightarrow> ec_point \<Rightarrow> bool" where
  "isoncurve C P \<longleftrightarrow> ec_iszero P \<or> f_eq (field_p C) (f_pow (field_p C) (ec_y P) 2) (ec_ysquare C (ec_x P))"

text \<open>A missing root (None) makes \<open>%\<close> raise.\<close>

definition decompress_from_curve :: "curve \<Rightarrow> int \<Rightarrow> int \<Rightarrow> pyexc + ec_point" where
  "decompress_from_curve C x flag =
     (let cq = field_p C;
          ysquare_root = (case sqrtCQ (ec_ysquare C x) cq of Inl _ \<Rightarrow> None | Inr r \<Rightarrow> r)
      in case ysquare_root of
           None \<Rightarrow> Inl TypeError
         | Some root \<Rightarrow>
             let bit0 = (if root mod 2 \<noteq> 0 then 1 else 0);
                 beta = (if bit0 \<noteq> flag then (cq - root) mod cq else root)
             in Inr (ec_make x beta))"

section \<open>Encodings\<close>

definition encode_point_e :: "curve \<Rightarrow> ec_point \<Rightarrow> bool \<Rightarrow> endian \<Rightarrow> pyexc + bytes" where
  "encode_point_e C P compressed e =
     (if IsInfinity C P then Inr [0]
      else ebind (to_bytes_u 32 (ec_x P)) (\<lambda>xb.
        let xbytes = rev (order_bytes e xb)
        in if compressed then
             Inr (hexlify ((if ec_y P mod 2 = 0 then 0x02 else 0x03) # xbytes))
           else ebind (to_bytes_u 32 (ec_y P)) (\<lambda>yb.
             Inr (hexlify (0x04 # xbytes @ rev (order_bytes e yb))))))"

definition encode_point :: "curve \<Rightarrow> ec_point \<Rightarrow> bool \<Rightarrow> pyexc + bytes" where
  "encode_point C P compressed = encode_point_e C P compressed LE"

definition ec_ToBytes :: "curve \<Rightarrow> ec_point \<Rightarrow> pyexc + bytes" where
  "ec_ToBytes C P = ebind (encode_point C P True) (\<lambda>bs. Inr (hexlify bs))"

definition ec_ToString :: "curve \<Rightarrow> ec_point \<Rightarrow> pyexc + bytes" where
  "ec_ToString C P = ebind (encode_point C P True) (\<lambda>bs. Inr (hexlify bs))"

definition ec_Size :: "curve \<Rightarrow> ec_point \<Rightarrow> int" where
  "ec_Size C P = (if IsInfinity C P then 1 else 33)"

definition ec_Serialize :: "curve \<Rightarrow> bool \<Rightarrow> ec_point \<Rightarrow> (stream, unit) m" where
  "ec_Serialize C compress P =
     (if ec_eq C P ec_Infinity then WriteByte (PBytes [0])
      else bnd (lft (encode_point C P compress)) (\<lambda>byt. sq (WriteBytes byt) (ret ())))"

definition decode_from_reader :: "curve \<Rightarrow> (stream, ec_point) m" where
  "decode_from_reader C =
     bnd (try_except (bnd reader_ReadByte (\<lambda>f. ret (Some f)))
            (\<lambda>e. if e = ValueError then ret None else throw e)) (\<lambda>r.
       case r of
         None \<Rightarrow> ret ec_Infinity
       | Some fb \<Rightarrow>
           let f = from_bytes_u fb
           in if f = 0 then ret ec_Infinity
              else if f = 2 \<or> f = 3 then
                bnd (ReadBytes 32) (\<lambda>data.
                  lft (decompress_from_curve C (from_bytes_u (rev data @ [0])) (f mod 2)))
              else if f = 4 \<or> f = 6 \<or> f = 7 then throw NotImplementedError
              else throw ValueError)"

definition decode_from_hex :: "curve \<Rightarrow> bytes \<Rightarrow> bool \<Rightarrow> pyexc + ec_point" where
  "decode_from_hex C hex_str unhex =
     ebind (if unhex then (case unhexlify hex_str of Some ba \<Rightarrow> Inr ba | None \<Rightarrow> Inl ValueError)
            else Inr hex_str) (\<lambda>ba.
       let expected_byte_len = (bit_length (field_p C) + 7) div 8
       in case ba of
            [] \<Rightarrow> Inl IndexError
          | fb # rest \<Rightarrow>
              let f = uint fb
              in if f = 0 then Inr ec_Infinity
                 else if f = 2 \<or> f = 3 then
                   if length ba \<noteq> expected_byte_len + 1 then Inl ValueError
                   else decompress_from_curve C (from_bytes_u (rev rest @ [0])) (f mod 2)
                 else if f = 4 then
                   if length ba \<noteq> 2 * expected_byte_len + 1 then Inl ValueError
                   else Inr (ec_make (from_bytes_u (rev (take expected_byte_len rest) @ [0]))
                                     (from_bytes_u (rev (drop expected_byte_len rest) @ [0])))
                 else if f = 6 \<or> f = 7 then Inl NotImplementedError
                 else Inl ValueError)"

definition secp256r1_p :: int where
  "secp256r1_p = 0xFFFFFFFF00000001000000000000000000000000FFFFFFFFFFFFFFFFFFFFFFFF"

definition secp256r1_curve :: curve where
  "secp256r1_curve =
     \<lparr>field_p = secp256r1_p,
      curve_a = 115792089210356248762697446949407573530086143415290314195533631308867097853948,
      curve_b = 41058363725152142129326129780047268409114441015993725554835256314039467401291\<rparr>"

definition secp256k1_curve :: curve where
  "secp256k1_curve = \<lparr>field_p = 2 ^ 256 - 2 ^ 32 - 977, curve_a = 0, curve_b = 7\<rparr>"

text \<open>The decoded key (the class wraps it as the base point \<open>G\<close> of an \<open>ECDSA\<close>).\<close>

definition decode_secp256r1 :: "bytes \<Rightarrow> bool \<Rightarrow> bool \<Rightarrow> pyexc + ec_point" where
  "decode_secp256r1 str unhex check_on_curve =
     ebind (decode_from_hex secp256r1_curve str unhex) (\<lambda>point.
       if check_on_curve then
         if isoncurve secp256r1_curve point then Inr point else Inl ValueError
       else Inr point)"

definition Deserialize_Secp256r1 :: "(stream, ec_point) m" where
  "Deserialize_Secp256r1 = decode_from_reader secp256r1_curve"

lemmas ec_defs = modinv_def test_bit_def sqrtCQ_def f_add_def f_sub_def f_mul_def f_inverse_def
  f_div_def f_pow_def f_eq_def f_neg_def f_iszero_def ec_make_def ec_zero_def ec_Infinity_def
  ec_iszero_def ec_eq_def IsInfinity_def ec_lt_def ec_gt_def ec_le_def ec_ge_def ec_neg_def
  ec_add_def ec_sub_def float_odd_def float_half_def ec_mul_def ec_ysquare_def isoncurve_def
  decompress_from_curve_def encode_point_e_def encode_point_def ec_ToBytes_def ec_ToString_def
  ec_Size_def ec_Serialize_def decode_from_reader_def decode_from_hex_def secp256r1_p_def
  secp256r1_curve_def secp256k1_curve_def decode_secp256r1_def Deserialize_Secp256r1_def

declare ec_defs [model_defs]

end
