(* ===== verification/EC_Properties.thy ===== *)
theory EC_Properties
  imports Elliptic_Curve
begin

text \<open>
  What the elliptic curve routines compute: Bezout's coefficients and inverses, powers modulo, sums
  of points that stay on the curve, and the compressed encoding of a point, which decodes to it.
\<close>

section \<open>Inverses and powers\<close>

lemma ext_GCD_bezout: "ext_GCD a b = (g, x, y) \<Longrightarrow> a * x + b * y = g"
proof (induction a b arbitrary: g x y rule: ext_GCD.induct)
  case (1 a b)
  show ?case
  proof (cases "a = 0")
    case True
    with "1.prems" show ?thesis by (auto simp: ext_GCD.simps [of 0 b])
  next
    case False
    obtain d x1 y1 where r: "ext_GCD (b mod a) a = (d, x1, y1)" by (cases "ext_GCD (b mod a) a")
    with False "1.prems" have e: "g = d" "x = y1 - b div a * x1" "y = x1"
      by (auto simp: ext_GCD.simps [of a b])
    have "(b mod a) * x1 + a * y1 = d" using "1.IH" [OF False r] .
    moreover have "b mod a = b - a * (b div a)" by (simp add: minus_mult_div_eq_mod)
    ultimately show ?thesis by (simp add: e algebra_simps)
  qed
qed

lemma ext_GCD_gcd: "0 \<le> a \<Longrightarrow> 0 \<le> b \<Longrightarrow> ext_GCD a b = (g, x, y) \<Longrightarrow> g = gcd a b"
proof (induction a b arbitrary: g x y rule: ext_GCD.induct)
  case (1 a b)
  show ?case
  proof (cases "a = 0")
    case True
    with "1.prems" show ?thesis by (auto simp: ext_GCD.simps [of 0 b])
  next
    case False
    obtain d x1 y1 where r: "ext_GCD (b mod a) a = (d, x1, y1)" by (cases "ext_GCD (b mod a) a")
    with False "1.prems" have "g = d" by (auto simp: ext_GCD.simps [of a b])
    also have "d = gcd (b mod a) a" using "1.IH" [OF False _ _ r] "1.prems" False by simp
    also have "\<dots> = gcd a b" by (metis gcd.commute gcd_red_int)
    finally show ?thesis .
  qed
qed

lemma modinv_inverse:
  assumes "0 \<le> a" "0 \<le> p" "coprime a p"
  shows "p dvd a * modinv a p - 1"
proof -
  obtain g x y where r: "ext_GCD a p = (g, x, y)" by (cases "ext_GCD a p")
  then have "a * x + p * y = 1"
    using ext_GCD_bezout [OF r] ext_GCD_gcd [OF assms(1,2) r] assms(3) by simp
  then have "a * x - 1 = p * (- y)" by (simp add: algebra_simps)
  then show ?thesis using r by (simp add: modinv_def)
qed

lemma modpow_power: "0 < m \<Longrightarrow> modpow b e m = b ^ e mod m"
proof (induction b e m rule: modpow.induct)
  case (1 b e m)
  show ?case
  proof (cases "e = 0")
    case True
    then show ?thesis by (simp add: modpow.simps [of b 0 m])
  next
    case False
    let ?h = "(b * b mod m) ^ (e div 2) mod m"
    have h: "?h = b ^ (2 * (e div 2)) mod m" by (simp add: power_mod power_mult power2_eq_square)
    have "modpow b e m = (if odd e then b * ?h mod m else ?h)"
      using 1 False by (simp add: modpow.simps [of b e m] Let_def)
    also have "\<dots> = b ^ e mod m"
    proof (cases "odd e")
      case True
      then have "b ^ e = b * b ^ (2 * (e div 2))" by (metis odd_two_times_div_two_succ power_Suc Suc_eq_plus1)
      then show ?thesis using True h by (simp add: mod_mult_right_eq)
    next
      case False
      then show ?thesis using h by simp
    qed
    finally show ?thesis .
  qed
qed

section \<open>The group operation stays on the curve\<close>

definition prime_modulus :: "int \<Rightarrow> bool" where
  "prime_modulus p \<longleftrightarrow> 1 < p \<and> list_all (\<lambda>x. coprime x p) [1..p - 1]"

lemma prime_modulus_coprime:
  assumes "prime_modulus p" "\<not> p dvd x"
  shows "coprime x p"
proof -
  have "x mod p \<in> set [1..p - 1]"
    using assms by (simp add: prime_modulus_def dvd_eq_mod_eq_0) (smt (verit) pos_mod_bound pos_mod_sign)
  then have "coprime (x mod p) p" using assms(1) by (simp add: prime_modulus_def list_all_iff)
  then show ?thesis by (metis coprime_iff_gcd_eq_1 gcd_red_int gcd.commute)
qed

lemma prime_modulus_dvd:
  assumes "prime_modulus p" "p dvd x * y" "\<not> p dvd x"
  shows "p dvd y"
  using prime_modulus_coprime [OF assms(1,3)] assms(2) by (simp add: coprime_commute coprime_dvd_mult_right_iff)

lemma chord_identity:
  fixes x1 x2 y1 y2 a b l :: int
  assumes "p dvd l * (x1 - x2) - (y1 - y2)" "p dvd y1 ^ 2 - (x1 ^ 3 + a * x1 + b)"
    "p dvd y2 ^ 2 - (x2 ^ 3 + a * x2 + b)" "x = l ^ 2 - (x1 + x2)" "y = l * (x1 - x) - y1"
  shows "p dvd (x1 - x2) * (y ^ 2 - (x ^ 3 + a * x + b))"
  using assms by algebra


lemma tangent_identity:
  fixes x1 y1 a b l :: int
  assumes "p dvd l * (2 * y1) - (3 * x1 ^ 2 + a)" "p dvd y1 ^ 2 - (x1 ^ 3 + a * x1 + b)"
    "x = l ^ 2 - (x1 + x1)" "y = l * (x1 - x) - y1"
  shows "p dvd y ^ 2 - (x ^ 3 + a * x + b)"
proof -
  have "y ^ 2 - (x ^ 3 + a * x + b) =
      (y1 ^ 2 - (x1 ^ 3 + a * x1 + b)) + (l * (2 * y1) - (3 * x1 ^ 2 + a)) * (x - x1)"
    unfolding assms(3,4) by algebra
  then show ?thesis by (metis assms(1,2) dvd_add dvd_mult2)
qed

text \<open>The coordinates the code computes are these polynomials modulo \<open>p\<close>.\<close>

lemma f_eq_mod: "f_eq p a b \<longleftrightarrow> a mod p = b mod p"
  by (simp add: f_eq_def mod_eq_dvd_iff dvd_eq_mod_eq_0)

lemma isoncurve_iff:
  assumes "0 < field_p C"
  shows "isoncurve C P \<longleftrightarrow> ec_iszero P \<or>
    field_p C dvd ec_y P ^ 2 - (ec_x P ^ 3 + curve_a C * ec_x P + curve_b C)"
proof -
  let ?p = "field_p C"
  have "ec_ysquare C (ec_x P) = (ec_x P ^ 3 + curve_a C * ec_x P + curve_b C) mod ?p"
    using assms mod_add_left_eq [of "ec_x P ^ 3" ?p "curve_a C * ec_x P + curve_b C"]
    by (simp add: ec_ysquare_def f_add_def f_mul_def f_pow_def modpow_power Let_def mod_simps add.assoc)
  then show ?thesis
    using assms by (simp add: isoncurve_def f_eq_mod f_pow_def modpow_power mod_eq_dvd_iff)
qed

lemma on_curve_mod:
  fixes x y a b p :: int
  shows "p dvd (y mod p) ^ 2 - ((x mod p) ^ 3 + a * (x mod p) + b) \<longleftrightarrow> p dvd y ^ 2 - (x ^ 3 + a * x + b)"
proof -
  have cong: "p dvd (u ^ 2 - (v ^ 3 + a * v + b)) - (y ^ 2 - (x ^ 3 + a * x + b))"
    if "p dvd u - y" "p dvd v - x" for u v
    using that by algebra
  have "p dvd z mod p - z" for z by (simp add: mod_eq_dvd_iff [symmetric])
  then have "p dvd ((y mod p) ^ 2 - ((x mod p) ^ 3 + a * (x mod p) + b)) - (y ^ 2 - (x ^ 3 + a * x + b))"
    using cong by blast
  then show ?thesis by (metis dvd_diff_right_iff dvd_diff_left_iff)
qed

text \<open>One addition: the slope is a quotient modulo \<open>p\<close>, the rest polynomials in it.\<close>

lemma f_div_mult:
  assumes "prime_modulus p" "\<not> p dvd d" "0 \<le> d"
  shows "p dvd f_div p n d * d - n"
proof -
  have "p dvd d * modinv d p - 1"
    using assms prime_modulus_coprime [OF assms(1,2)] by (intro modinv_inverse) (simp_all add: prime_modulus_def)
  then have "p dvd (n * modinv d p) * d - n" by algebra
  moreover have "f_div p n d = n * modinv d p - p * (n * modinv d p div p)"
    by (simp add: f_div_def f_inverse_def minus_mult_div_eq_mod)
  ultimately show ?thesis by algebra
qed

lemma chord_on_curve:
  assumes p: "prime_modulus p" and
    P: "p dvd y1 ^ 2 - (x1 ^ 3 + a * x1 + b)" and Q: "p dvd y2 ^ 2 - (x2 ^ 3 + a * x2 + b)" and
    ne: "\<not> p dvd x1 - x2" and l: "p dvd l * (x1 - x2) - (y1 - y2)" and
    x: "x = l ^ 2 - (x1 + x2)" and y: "y = l * (x1 - x) - y1"
  shows "p dvd y ^ 2 - (x ^ 3 + a * x + b)"
  using prime_modulus_dvd [OF p chord_identity [OF l P Q x y] ne] .


lemma sum_coordinates:
  fixes p l x1 x2 y1 :: int
  assumes "0 < p"
  shows "f_sub p (f_pow p l 2) (f_add p x1 x2) = (l ^ 2 - (x1 + x2)) mod p" (is "?x = _")
    and "f_sub p (f_mul p l (f_sub p x1 ((l ^ 2 - (x1 + x2)) mod p))) y1 =
      (l * (x1 - (l ^ 2 - (x1 + x2))) - y1) mod p"
proof -
  show "?x = (l ^ 2 - (x1 + x2)) mod p"
    using assms by (simp add: f_sub_def f_add_def f_pow_def modpow_power mod_diff_eq)
  have "f_sub p (f_mul p l (f_sub p x1 (x mod p))) y1 = (l * (x1 - x) - y1) mod p" for x
    by (simp add: f_sub_def f_mul_def mod_diff_left_eq mod_diff_right_eq mod_mult_right_eq)
  then show "f_sub p (f_mul p l (f_sub p x1 ((l ^ 2 - (x1 + x2)) mod p))) y1 =
      (l * (x1 - (l ^ 2 - (x1 + x2))) - y1) mod p" by blast
qed

lemma ec_add_generic:
  fixes C P Q
  defines "p \<equiv> field_p C"
  assumes p: "prime_modulus p" "2 < p" and ne: "\<not> ec_iszero P" "\<not> ec_iszero Q"
    and on: "isoncurve C P" "isoncurve C Q"
    and D: "\<not> (ec_eq C P Q \<and> f_eq p (ec_y P) 0)" "\<not> (\<not> ec_eq C P Q \<and> f_eq p (ec_x P) (ec_x Q))"
  shows "isoncurve C (ec_add C P Q)"
proof -
  let ?on = "\<lambda>x y. p dvd y ^ 2 - (x ^ 3 + curve_a C * x + curve_b C)"
  have p0: "0 < p" using p(2) by simp
  have P: "?on (ec_x P) (ec_y P)" and Q: "?on (ec_x Q) (ec_y Q)"
    using on ne p0 by (auto simp: isoncurve_iff p_def)
  define l where "l = (if ec_eq C P Q
    then f_div p (f_add p (f_mul p 3 (f_pow p (ec_x P) 2)) (curve_a C)) (f_mul p 2 (ec_y P))
    else f_div p (f_sub p (ec_y P) (ec_y Q)) (f_sub p (ec_x P) (ec_x Q)))"
  define x where "x = l ^ 2 - (ec_x P + ec_x Q)"
  define y where "y = l * (ec_x P - x) - ec_y P"
  have add: "ec_add C P Q = ec_make (x mod p) (y mod p)"
    using ne D unfolding ec_add_def Let_def p_def [symmetric] l_def [symmetric] x_def y_def
    by (auto simp: sum_coordinates [OF p0])
  have m: "p dvd z mod p - z" for z by (simp add: mod_eq_dvd_iff [symmetric])
  have "?on x y"
  proof (cases "ec_eq C P Q")
    case True
    have "\<not> p dvd ec_y P" using D(1) True by (simp add: f_eq_def dvd_eq_mod_eq_0)
    moreover have "\<not> p dvd 2" using p(2) zdvd_imp_le by fastforce
    ultimately have "\<not> p dvd 2 * ec_y P" using prime_modulus_dvd [OF p(1)] by blast
    then have nd: "\<not> p dvd f_mul p 2 (ec_y P)" by (simp add: f_mul_def dvd_eq_mod_eq_0)
    have "0 \<le> f_mul p 2 (ec_y P)" using p0 by (simp add: f_mul_def)
    from f_div_mult [OF p(1) nd this, of "f_add p (f_mul p 3 (f_pow p (ec_x P) 2)) (curve_a C)"]
    have "p dvd l * (2 * ec_y P mod p) - (3 * ec_x P ^ 2 + curve_a C) mod p"
      using True p0 by (simp add: l_def f_mul_def f_add_def f_pow_def modpow_power mod_simps)
    then have l: "p dvd l * (2 * ec_y P) - (3 * ec_x P ^ 2 + curve_a C)"
      using m [of "2 * ec_y P"] m [of "3 * ec_x P ^ 2 + curve_a C"] by algebra
    have "p dvd ec_x P - ec_x Q" using True by (simp add: ec_eq_def f_eq_def p_def dvd_eq_mod_eq_0)
    then have "p dvd (l ^ 2 - (ec_x P + ec_x P)) - x" unfolding x_def by algebra
    moreover note tangent_identity [OF l P refl refl]
    ultimately show ?thesis unfolding y_def by algebra
  next
    case False
    have ndx: "\<not> p dvd ec_x P - ec_x Q" using D(2) False by (simp add: f_eq_def dvd_eq_mod_eq_0)
    then have nd: "\<not> p dvd f_sub p (ec_x P) (ec_x Q)" by (simp add: f_sub_def dvd_eq_mod_eq_0)
    have "0 \<le> f_sub p (ec_x P) (ec_x Q)" using p0 by (simp add: f_sub_def)
    from f_div_mult [OF p(1) nd this, of "f_sub p (ec_y P) (ec_y Q)"]
    have "p dvd l * ((ec_x P - ec_x Q) mod p) - (ec_y P - ec_y Q) mod p"
      using False by (simp add: l_def f_sub_def)
    then have "p dvd l * (ec_x P - ec_x Q) - (ec_y P - ec_y Q)"
      using m [of "ec_x P - ec_x Q"] m [of "ec_y P - ec_y Q"] by algebra
    from chord_on_curve [OF p(1) P Q ndx this x_def y_def] show ?thesis .
  qed
  then show ?thesis
    using p0 unfolding add by (simp add: isoncurve_iff p_def [symmetric] ec_make_def on_curve_mod)
qed

section \<open>Square roots and compressed points\<close>

lemma prod_mod_int: "(\<Prod>x\<in>A. f x mod p) mod p = (\<Prod>x\<in>A. f x) mod (p :: int)"
  by (rule mod_prod_eq)

text \<open>Fermat's little theorem: multiplication by a number coprime to \<open>p\<close> permutes the residues.\<close>

lemma fermat:
  assumes p: "prime_modulus p" and a: "\<not> p dvd a"
  shows "a ^ nat (p - 1) mod p = 1"
proof -
  have p1: "1 < p" using p by (simp add: prime_modulus_def)
  let ?R = "{1..p - 1}"
  have nz: "\<not> p dvd x" if "x \<in> ?R" for x using that zdvd_imp_le [of p x] by auto
  have maps: "a * x mod p \<in> ?R" if "x \<in> ?R" for x
  proof -
    have "\<not> p dvd a * x" using prime_modulus_dvd [OF p _ a] nz [OF that] by blast
    then have "a * x mod p \<noteq> 0" by (simp add: dvd_eq_mod_eq_0)
    moreover have "0 \<le> a * x mod p" "a * x mod p < p" using p1 by simp_all
    ultimately show ?thesis by simp
  qed
  have inj: "inj_on (\<lambda>x. a * x mod p) ?R"
  proof (rule inj_onI)
    fix x y assume xy: "x \<in> ?R" "y \<in> ?R" "a * x mod p = a * y mod p"
    then have "p dvd a * (x - y)" by (simp add: mod_eq_dvd_iff right_diff_distrib)
    then have "p dvd x - y" using prime_modulus_dvd [OF p _ a] by blast
    then have "x mod p = y mod p" by (simp add: mod_eq_dvd_iff)
    then show "x = y" using xy(1,2) by simp
  qed
  have "(\<lambda>x. a * x mod p) ` ?R = ?R"
    by (rule endo_inj_surj) (use maps inj in auto)
  then have "(\<Prod>x\<in>?R. a * x mod p) = \<Prod>?R"
    using prod.reindex [OF inj, of "\<lambda>x. x"] by simp
  then have "(\<Prod>x\<in>?R. a * x) mod p = \<Prod>?R mod p"
    using mod_prod_eq [of "\<lambda>x. a * x" p ?R] by simp
  moreover have "(\<Prod>x\<in>?R. a * x) = a ^ nat (p - 1) * \<Prod>?R" by (simp add: prod.distrib)
  ultimately have "p dvd \<Prod>?R * (a ^ nat (p - 1) - 1)"
    by (simp add: mod_eq_dvd_iff algebra_simps)
  moreover have "\<not> p dvd \<Prod>?R"
  proof -
    have "\<not> p dvd \<Prod>A" if "A \<subseteq> ?R" "finite A" for A
      using that(2,1)
    proof (induction A rule: finite_induct)
      case empty
      then show ?case using p1 zdvd_imp_le [of p 1] by auto
    next
      case (insert x A)
      then show ?case using prime_modulus_dvd [OF p, of x "\<Prod>A"] nz [of x] by auto
    qed
    then show ?thesis by blast
  qed
  ultimately have "p dvd a ^ nat (p - 1) - 1" using prime_modulus_dvd [OF p] by blast
  then show ?thesis using p1 by (simp add: mod_eq_dvd_iff [symmetric])
qed


text \<open>For a prime modulus that is 3 modulo 4, \<open>sqrtCQ\<close> finds a root of every square.\<close>

lemma sqrtCQ_square:
  assumes p: "prime_modulus p" "p mod 4 = 3"
  obtains z where "sqrtCQ (y ^ 2 mod p) p = Inr (Some z)" "0 \<le> z" "z < p" "p dvd z - y \<or> p dvd z + y"
proof -
  have p1: "1 < p" using p by (simp add: prime_modulus_def)
  define k where "k = nat (p div 4 + 1)"
  have p4: "p = 4 * (p div 4) + 3" using p(2) by presburger
  then have k2: "2 * (2 * k) = nat (p - 1) + 2" using p1 by (simp add: k_def)
  have bit: "test_bit p 1" using p4 by (simp add: test_bit_def) presburger
  define z where "z = modpow (y ^ 2 mod p) k p"
  have z: "z = y ^ (2 * k) mod p"
    using p1 by (simp add: z_def modpow_power power_mod power_mult)
  have zz: "p dvd z * z - y ^ 2"
  proof (cases "p dvd y")
    case True
    have "2 * k \<noteq> 0" using p4 p1 by (simp add: k_def)
    then have "p dvd y ^ (2 * k)" using True by (metis dvd_power dvd_trans not_gr_zero)
    then have "z = 0" by (simp add: z)
    then show ?thesis using True by (simp add: power2_eq_square)
  next
    case False
    have "y ^ (2 * (2 * k)) = y ^ nat (p - 1) * y ^ 2" by (simp only: k2 power_add)
    then have "y ^ (2 * k) * y ^ (2 * k) = y ^ nat (p - 1) * y ^ 2" by (simp add: power_add [symmetric] mult_2)
    then have "z * z mod p = (y ^ nat (p - 1) mod p) * y ^ 2 mod p"
      by (simp add: z mod_simps)
    also have "\<dots> = y ^ 2 mod p" using fermat [OF p(1) False] by simp
    finally show ?thesis by (simp add: mod_eq_dvd_iff)
  qed
  then have "z * z mod p = y ^ 2 mod p" by (simp add: mod_eq_dvd_iff)
  then have "sqrtCQ (y ^ 2 mod p) p = Inr (Some z)"
    using bit by (simp add: sqrtCQ_def z_def k_def Let_def)
  moreover have "0 \<le> z" "z < p" using p1 by (simp_all add: z)
  moreover have "p dvd z - y \<or> p dvd z + y"
  proof -
    have "p dvd (z - y) * (z + y)" using zz by (simp add: algebra_simps power2_eq_square)
    then show ?thesis using prime_modulus_dvd [OF p(1)] by blast
  qed
  ultimately show ?thesis by (rule that)
qed


definition reduced :: "curve \<Rightarrow> ec_point \<Rightarrow> bool" where
  "reduced C P \<longleftrightarrow> 0 \<le> ec_x P \<and> ec_x P < field_p C \<and> 0 \<le> ec_y P \<and> ec_y P < field_p C"

lemma decompress_ok:
  assumes p: "prime_modulus (field_p C)" "field_p C mod 4 = 3" and r: "reduced C P" and on: "isoncurve C P"
    and nz: "\<not> ec_iszero P"
  shows "decompress_from_curve C (ec_x P) (ec_y P mod 2) = Inr P"
proof -
  let ?p = "field_p C"
  have p1: "1 < ?p" using p by (simp add: prime_modulus_def)
  have "ec_y P ^ 2 mod ?p = ec_ysquare C (ec_x P) mod ?p"
    using on nz p1 by (simp add: isoncurve_def f_eq_mod f_pow_def modpow_power)
  moreover have "ec_ysquare C (ec_x P) mod ?p = ec_ysquare C (ec_x P)"
    by (simp add: ec_ysquare_def f_add_def Let_def)
  ultimately have sq: "ec_ysquare C (ec_x P) = ec_y P ^ 2 mod ?p" by simp
  obtain z where z: "sqrtCQ (ec_y P ^ 2 mod ?p) ?p = Inr (Some z)" "0 \<le> z" "z < ?p"
      "?p dvd z - ec_y P \<or> ?p dvd z + ec_y P"
    using sqrtCQ_square [OF p] by blast
  have odd: "odd ?p" using p(2) by presburger
  have y: "0 \<le> ec_y P" "ec_y P < ?p" using r by (simp_all add: reduced_def)
  have P: "ec_make (ec_x P) (ec_y P) = P" by (simp add: ec_make_def)
  from z(4) show ?thesis
  proof
    assume "?p dvd z - ec_y P"
    then have "z mod ?p = ec_y P mod ?p" by (simp add: mod_eq_dvd_iff)
    then have "z = ec_y P" using z(2,3) y by simp
    then show ?thesis using z(1) P by (auto simp: decompress_from_curve_def sq Let_def)
  next
    assume "?p dvd z + ec_y P"
    then obtain k where k: "z + ec_y P = ?p * k" by (auto simp: dvd_def)
    then have "0 \<le> ?p * k" "?p * k < ?p * 2" using z(2,3) y by linarith+
    then have "0 \<le> k" "k < 2" using p1 by (simp_all add: zero_le_mult_iff)
    then have "k = 0 \<or> k = 1" by linarith
    then show ?thesis
    proof
      assume "k = 0"
      then have "z = 0" "ec_y P = 0" using k z(2) y(1) by simp_all
      then show ?thesis using z(1) P by (auto simp: decompress_from_curve_def sq Let_def)
    next
      assume "k = 1"
      then have zy: "z = ?p - ec_y P" using k by simp
      then have par: "z mod 2 \<noteq> ec_y P mod 2" using odd by presburger
      have "(?p - z) mod ?p = ec_y P" using zy y by simp
      then show ?thesis using z(1) P par
        by (auto simp: decompress_from_curve_def sq Let_def mod2_eq_if split: if_splits)
    qed
  qed
qed

text \<open>The bytes of a point: one zero for infinity, else the parity of \<open>y\<close> and \<open>x\<close>, high byte first.\<close>

definition ec_bytes :: "curve \<Rightarrow> ec_point \<Rightarrow> bytes" where
  "ec_bytes C P =
     (if IsInfinity C P then [0]
      else (if ec_y P mod 2 = 0 then 0x02 else 0x03) # rev (int_bytes 32 (ec_x P)))"

lemma IsInfinity_reduced: "reduced C P \<Longrightarrow> IsInfinity C P \<longleftrightarrow> P = ec_Infinity"
  by (cases P) (auto simp: IsInfinity_def ec_eq_def f_eq_def ec_Infinity_def ec_make_def reduced_def)

lemma encode_point_ok:
  assumes "\<not> IsInfinity C P" "0 \<le> ec_x P" "ec_x P < 2 ^ 256"
  shows "encode_point C P True = Inr (hexlify (ec_bytes C P))"
proof -
  have "(256 :: int) ^ 32 = 2 ^ 256" by simp
  then show ?thesis
    using assms by (simp add: encode_point_def encode_point_e_def to_bytes_u_def order_bytes_def ec_bytes_def Let_def)
qed

lemma emits_ec_Serialize [emits_intros]:
  assumes "0 \<le> ec_x P" "ec_x P < 2 ^ 256"
  shows "emits (ec_Serialize C True P) (ec_bytes C P) ()"
proof (cases "IsInfinity C P")
  case True
  then show ?thesis using emits_WriteByte_bytes [of "[0]"] by (simp add: ec_Serialize_def IsInfinity_def ec_bytes_def)
next
  case False
  have "emits (bnd (lft (encode_point C P True)) (\<lambda>byt. sq (WriteBytes byt) (ret ()))) (ec_bytes C P) ()"
    by (rule emits_bnd_lft [OF encode_point_ok [OF False assms]])
       (rule emits_sq_ret [OF emits_WriteBytes_hex [OF unhexlify_hexlify]])
  then show ?thesis using False by (simp add: ec_Serialize_def IsInfinity_def)
qed

lemma reads_decode_first:
  assumes "reads (if uint b = 0 then ret ec_Infinity
      else if uint b = 2 \<or> uint b = 3 then
        bnd (ReadBytes 32) (\<lambda>data. lft (decompress_from_curve C (from_bytes_u (rev data @ [0])) (uint b mod 2)))
      else if uint b = 4 \<or> uint b = 6 \<or> uint b = 7 then throw NotImplementedError
      else throw ValueError) bs P"
  shows "reads (decode_from_reader C) (b # bs) P"
proof -
  have first: "reads (try_except (bnd reader_ReadByte (\<lambda>f. ret (Some f)))
      (\<lambda>e. if e = ValueError then ret None else throw e)) [b] (Some [b])"
    by (intro reads_try reads_bnd_ret [OF reads_reader_ReadByte] refl)
  show ?thesis
    unfolding decode_from_reader_def
    by (rule reads_bnd [OF first, of _ bs P, simplified append_Cons append_Nil]) (use assms in \<open>simp add: Let_def\<close>)
qed

lemma reads_decode_from_reader [reads_intros]:
  assumes p: "prime_modulus (field_p C)" "field_p C mod 4 = 3" "field_p C < 2 ^ 256"
    and r: "reduced C P" and on: "isoncurve C P"
  shows "reads (decode_from_reader C) (ec_bytes C P) P"
proof (cases "IsInfinity C P")
  case True
  then show ?thesis
    using r reads_ret [of ec_Infinity]
    by (auto simp: ec_bytes_def IsInfinity_reduced intro: reads_decode_first)
next
  case False
  have nz: "\<not> ec_iszero P" using False
    by (auto simp: IsInfinity_def ec_eq_def f_eq_def ec_Infinity_def ec_make_def ec_iszero_def f_iszero_def)
  have x: "0 \<le> ec_x P" "ec_x P < 256 ^ 32" using r p(3) by (simp_all add: reduced_def)
  then have v: "from_bytes_u (int_bytes 32 (ec_x P) @ [0]) = ec_x P"
    by (simp add: from_bytes_u_append from_bytes_u_int_bytes)
  have rd: "reads (bnd (ReadBytes 32) (\<lambda>data. lft (decompress_from_curve C (from_bytes_u (rev data @ [0])) (ec_y P mod 2))))
      (rev (int_bytes 32 (ec_x P))) P"
    unfolding ReadBytes_def
    by (rule reads_bnd_lft [OF reads_read]) (use decompress_ok [OF p(1,2) r on nz] v in \<open>simp_all add: maxsize_def\<close>)
  show ?thesis
  proof (cases "ec_y P mod 2 = 0")
    case True
    then show ?thesis using rd False by (auto simp: ec_bytes_def intro!: reads_decode_first)
  next
    case odd: False
    then have "ec_y P mod 2 = 1" by presburger
    then show ?thesis using rd False by (auto simp: ec_bytes_def intro!: reads_decode_first)
  qed
qed


text \<open>
  Keys that are read back from their bytes: on the program's curve these are the points of the
  curve, its modulus being a prime that is 3 modulo 4.
\<close>

definition ec_ok :: "curve \<Rightarrow> ec_point \<Rightarrow> bool" where
  "ec_ok C P \<longleftrightarrow> 0 \<le> ec_x P \<and> ec_x P < 2 ^ 256 \<and> reads (decode_from_reader C) (ec_bytes C P) P"

lemma ec_ok_on_curve:
  assumes "prime_modulus (field_p C)" "field_p C mod 4 = 3" "field_p C < 2 ^ 256" "reduced C P" "isoncurve C P"
  shows "ec_ok C P"
  using assms reads_decode_from_reader [OF assms] by (auto simp: ec_ok_def reduced_def)

interpretation public_key: codec "ec_Serialize secp256r1_curve True" Deserialize_Secp256r1
    "ec_bytes secp256r1_curve" "ec_ok secp256r1_curve"
  by unfold_locales (auto simp: ec_ok_def Deserialize_Secp256r1_def intro: emits_ec_Serialize)

section \<open>Properties\<close>

lemma prime_modulus_7: "prime_modulus 7"
  by code_simp

text \<open>The curve \<open>y ^ 2 = x ^ 3 + 3\<close> over the field of 7 elements, and two points of it.\<close>

definition sample_curve :: curve where
  "sample_curve = \<lparr>field_p = 7, curve_a = 0, curve_b = 3\<rparr>"

definition sample_point :: ec_point where
  "sample_point = ec_make 1 2"

lemma sample_point_ok:
  "isoncurve sample_curve sample_point" "reduced sample_curve sample_point" "ec_x sample_point = 1"
  by (simp_all add: sample_curve_def sample_point_def isoncurve_iff ec_make_def reduced_def)

text \<open>
  C34. The sum of two points of a curve over a prime field above 2, as \<open>EllipticCurve.add\<close> computes it
  with its extended Euclidean inverse, is a point of the curve: for a chord, a tangent, opposite
  points and infinity.
\<close>

theorem ec_add_stays:
  assumes "prime_modulus (field_p C)" "2 < field_p C" "isoncurve C P" "isoncurve C Q"
  shows "isoncurve C (ec_add C P Q)"
proof -
  have zero: "isoncurve C ec_zero" by (simp add: isoncurve_def ec_iszero_def ec_zero_def ec_make_def f_iszero_def)
  consider "ec_iszero P" | "ec_iszero Q" "\<not> ec_iszero P"
    | "\<not> ec_iszero P" "\<not> ec_iszero Q" "ec_eq C P Q \<and> f_eq (field_p C) (ec_y P) 0 \<or> \<not> ec_eq C P Q \<and> f_eq (field_p C) (ec_x P) (ec_x Q)"
    | "\<not> ec_iszero P" "\<not> ec_iszero Q" "\<not> (ec_eq C P Q \<and> f_eq (field_p C) (ec_y P) 0)" "\<not> (\<not> ec_eq C P Q \<and> f_eq (field_p C) (ec_x P) (ec_x Q))"
    by blast
  then show ?thesis
  proof cases
    case 1
    with assms show ?thesis by (simp add: ec_add_def)
  next
    case 2
    with assms show ?thesis by (simp add: ec_add_def)
  next
    case 3
    with zero show ?thesis by (auto simp: ec_add_def)
  next
    case 4
    with assms show ?thesis by (intro ec_add_generic)
  qed
qed



lemma ec_add_stays_witness:
  "isoncurve sample_curve (ec_add sample_curve sample_point sample_point)"
  using ec_add_stays [of sample_curve sample_point sample_point] sample_point_ok prime_modulus_7
  by (simp add: sample_curve_def)

text \<open>
  C35. A point of a curve whose modulus is a prime below \<open>2 ^ 256\<close> and 3 modulo 4 (as the moduli of
  the program's curves are) is read back from its compressed encoding: \<open>ECPoint.Serialize\<close> emits one
  byte for infinity and 33 bytes for any other point, and \<open>decode_from_reader\<close> reads them as that
  point, the square root of \<open>decompress_from_curve\<close> included.
\<close>

theorem point_roundtrip:
  assumes "prime_modulus (field_p C)" "field_p C mod 4 = 3" "field_p C < 2 ^ 256"
    and "reduced C P" "isoncurve C P"
  shows "\<exists>bs. emits (ec_Serialize C True P) bs () \<and> reads (decode_from_reader C) bs P \<and>
    int (length bs) = ec_Size C P"
proof (intro exI conjI)
  show "emits (ec_Serialize C True P) (ec_bytes C P) ()"
    using assms by (intro emits_ec_Serialize) (auto simp: reduced_def)
  show "reads (decode_from_reader C) (ec_bytes C P) P" using assms by (rule reads_decode_from_reader)
  show "int (length (ec_bytes C P)) = ec_Size C P" by (simp add: ec_bytes_def ec_Size_def)
qed

lemma point_roundtrip_witness:
  "\<exists>bs. emits (ec_Serialize sample_curve True sample_point) bs () \<and>
     reads (decode_from_reader sample_curve) bs sample_point \<and> int (length bs) = ec_Size sample_curve sample_point"
  using point_roundtrip [of sample_curve sample_point] sample_point_ok prime_modulus_7
  by (simp add: sample_curve_def)

end
