(* ===== verification/Ledger_Size.thy ===== *)
theory Ledger_Size
  imports Codec
begin

text \<open>
  \<open>neo/Core/Size.py\<close>: the sizes that objects announce for the network. \<open>GetVarSize\<close> takes values of
  several types; each case is a function of its own. An array of objects that are neither
  serializable nor an \<open>Enum\<close> is refused, unless it is empty.
\<close>

definition GetVarSize_int :: "int \<Rightarrow> int" where
  "GetVarSize_int value = (if value < 0xFD then 1 else if value \<le> 0xFFFF then 1 + 2 else 1 + 4)"

definition GetVarSize_str :: "pystr \<Rightarrow> pyexc + int" where
  "GetVarSize_str s =
     ebind (utf8_encode s) (\<lambda>bs. let n = int (length bs) in Inr (GetVarSize_int n + n))"

definition GetVarSize_bytes :: "bytes \<Rightarrow> int" where
  "GetVarSize_bytes bs = GetVarSize_int (int (length bs)) + int (length bs)"

definition GetVarSize_items :: "('a \<Rightarrow> int) \<Rightarrow> 'a list \<Rightarrow> int" where
  "GetVarSize_items sz xs = GetVarSize_int (int (length xs)) + sum_list (map sz xs)"

definition GetVarSize_other :: "'a list \<Rightarrow> pyexc + int" where
  "GetVarSize_other xs = (if xs = [] then Inr (GetVarSize_int 0) else Inl PlainException)"

lemmas size_defs = GetVarSize_int_def GetVarSize_str_def GetVarSize_bytes_def GetVarSize_items_def
  GetVarSize_other_def

declare size_defs [model_defs]

text \<open>The sizes agree with the formats for fewer than \<open>2 ^ 32\<close> bytes or items.\<close>

lemma length_var_int: "0 \<le> i \<Longrightarrow> i < 2 ^ 32 \<Longrightarrow> int (length (var_int i)) = GetVarSize_int i"
  by (auto simp: var_int_def GetVarSize_int_def)

lemma length_var_bytes: "int (length bs) < 2 ^ 32 \<Longrightarrow> int (length (var_bytes bs)) = GetVarSize_bytes bs"
  using length_var_int [of "int (length bs)"] by (simp add: var_bytes_def GetVarSize_bytes_def)

lemma length_array_enc:
  assumes "int (length xs) < 2 ^ 32" "\<And>x. x \<in> set xs \<Longrightarrow> int (length (enc x)) = sz x"
  shows "int (length (array_enc enc xs)) = GetVarSize_items sz xs"
proof -
  have "int (length (concat (map enc xs))) = sum_list (map sz xs)"
    using assms(2) by (induction xs) auto
  then show ?thesis
    using length_var_int [of "int (length xs)"] assms(1) by (simp add: array_enc_def GetVarSize_items_def)
qed

end
