(* ===== verification/State_Objects.thy ===== *)
theory State_Objects
  imports Ledger_Size EC_Properties
begin

text \<open>
  The records of the ledger that \<open>neo/Core/State\<close> stores: accounts, assets, validators, contracts with
  their \<open>FunctionCode\<close>, spent and unspent coins, storage items and keys, state descriptors. Each has
  the fields of its class, \<open>Serialize\<close> and \<open>Deserialize\<close> in the order of the source, \<open>Size\<close>, and its
  own operations. Python dictionaries are association lists in insertion order.

  The objects \<open>Deserialize\<close> fills in are new, so it is a reader that returns the object. Not
  modelled: the conversions to JSON, and \<open>DetermineIsNEP5\<close>, which runs the contract.
\<close>

section \<open>StateBase\<close>

definition StateVersion :: int where
  "StateVersion = 0"

definition base_Size :: int where
  "base_Size = 1"

definition base_Deserialize :: "(stream, unit) m" where
  "base_Deserialize =
     bnd reader_ReadByte (\<lambda>b.
       let sv = from_bytes_u b in if sv \<noteq> StateVersion then throw PlainException else ret ())"

definition base_Serialize :: "(stream, unit) m" where
  "base_Serialize = WriteByte (PInt StateVersion)"

text \<open>
  \<open>state_ToByteArray\<close> of every class, and \<open>DeserializeFromDB\<close>, which releases its stream only when the
  object was read.
\<close>

definition state_ToByteArray :: "('a \<Rightarrow> (stream, unit) m) \<Rightarrow> 'a \<Rightarrow> (stream_manager, bytes) m" where
  "state_ToByteArray ser v =
     bnd (GetStream None) (\<lambda>ms.
       sq (on_stream ms (ser v))
         (bnd (gets (\<lambda>s. stream_ToArray (streams s ms))) (\<lambda>retval.
           sq (ReleaseStream ms) (ret retval))))"

definition DeserializeFromDB :: "(stream, 'a) m \<Rightarrow> bytes \<Rightarrow> (stream_manager, 'a) m" where
  "DeserializeFromDB deser buffer =
     bnd (GetStream (Some buffer)) (\<lambda>m.
       bnd (on_stream m deser) (\<lambda>v. sq (ReleaseStream m) (ret v)))"

text \<open>A hash handed to \<open>WriteUInt160\<close> and \<open>WriteUInt256\<close>; None is refused there.\<close>

definition write160 :: "uint option \<Rightarrow> (stream, unit) m" where
  "write160 h = WriteUInt160 (case h of Some u \<Rightarrow> V160 u | None \<Rightarrow> NoHash)"

definition write256 :: "uint option \<Rightarrow> (stream, unit) m" where
  "write256 h = WriteUInt256 (case h of Some u \<Rightarrow> V256 u | None \<Rightarrow> NoHash)"

section \<open>StorageItem and StorageKey\<close>

record storage_item =
  si_Value :: bytes
  si_IsConstant :: bool

definition StorageItem :: "bytes option \<Rightarrow> storage_item" where
  "StorageItem v = \<lparr>si_Value = (case v of None \<Rightarrow> [] | Some b \<Rightarrow> b), si_IsConstant = False\<rparr>"

definition si_Clone :: "storage_item \<Rightarrow> storage_item" where
  "si_Clone i = StorageItem (Some (si_Value i))"

definition si_FromReplica :: "storage_item \<Rightarrow> storage_item \<Rightarrow> storage_item" where
  "si_FromReplica i replica = i\<lparr>si_Value := si_Value replica\<rparr>"

definition si_Size :: "storage_item \<Rightarrow> int" where
  "si_Size i = base_Size + GetVarSize_bytes (si_Value i)"

definition si_Deserialize :: "(stream, storage_item) m" where
  "si_Deserialize =
     sq base_Deserialize (bnd (ReadVarBytes maxsize) (\<lambda>v. ret ((StorageItem None)\<lparr>si_Value := v\<rparr>)))"

definition si_Serialize :: "storage_item \<Rightarrow> (stream, unit) m" where
  "si_Serialize i = sq base_Serialize (sq (WriteVarBytes (si_Value i)) (ret ()))"

record storage_key =
  sk_ScriptHash :: uint
  sk_Key :: bytes

text \<open>\<open>mmh3.hash\<close> is a third-party function, given as \<open>murmur\<close>.\<close>

definition sk_murmur :: "(bytes \<Rightarrow> int) \<Rightarrow> storage_key \<Rightarrow> int" where
  "sk_murmur murmur k = murmur (sk_Key k)"

definition sk_GetHashCode :: "(bytes \<Rightarrow> int) \<Rightarrow> storage_key \<Rightarrow> int" where
  "sk_GetHashCode murmur k = \<bar>GetHashCode (Data (sk_ScriptHash k)) + sk_murmur murmur k\<bar>"

definition sk_eq :: "storage_key \<Rightarrow> storage_key \<Rightarrow> bool" where
  "sk_eq k l \<longleftrightarrow> uint_eq (sk_ScriptHash k) (sk_ScriptHash l) \<and> sk_Key k = sk_Key l"

definition sk_ToArray :: "storage_key \<Rightarrow> bytes" where
  "sk_ToArray k = Data (sk_ScriptHash k) @ sk_Key k"

section \<open>AccountState\<close>

record account_state =
  acc_ScriptHash :: "uint option"
  acc_IsFrozen :: bool
  acc_Votes :: "bytes list"
  acc_Balances :: "(uint \<times> fixed8) list"

definition AccountState :: account_state where
  "AccountState = \<lparr>acc_ScriptHash = None, acc_IsFrozen = False, acc_Votes = [], acc_Balances = []\<rparr>"

text \<open>\<open>d[k] = v\<close> on a dictionary with keys of \<open>UInt256\<close>: a key that is there stays.\<close>

fun balance_put :: "uint \<Rightarrow> fixed8 \<Rightarrow> (uint \<times> fixed8) list \<Rightarrow> (uint \<times> fixed8) list" where
  "balance_put k v [] = [(k, v)]"
| "balance_put k v ((l, w) # d) = (if uint_eq l k then (l, v) # d else (l, w) # balance_put k v d)"

definition acc_Size :: "account_state \<Rightarrow> pyexc + int" where
  "acc_Size a =
     ebind (GetVarSize_other (acc_Votes a)) (\<lambda>votes.
       let n = int (length (acc_Balances a))
       in Inr (base_Size + 20 + 1 + votes + GetVarSize_int n + n * (32 + 8)))"

primrec read_balances :: "nat \<Rightarrow> (uint \<times> fixed8) list \<Rightarrow> (stream, (uint \<times> fixed8) list) m" where
  "read_balances 0 d = ret d"
| "read_balances (Suc n) d =
     bnd ReadUInt256 (\<lambda>assetid. bnd ReadFixed8 (\<lambda>amount. read_balances n (balance_put assetid amount d)))"

definition acc_Deserialize :: "(stream, account_state) m" where
  "acc_Deserialize =
     sq base_Deserialize
       (bnd ReadUInt160 (\<lambda>hash.
        bnd ReadBool (\<lambda>frozen.
        bnd (ReadVarInt maxsize) (\<lambda>num_votes.
        bnd (repeatm (nat num_votes) (ReadBytes 33)) (\<lambda>votes.
        bnd (ReadVarInt maxsize) (\<lambda>num_balances.
        bnd (read_balances (nat num_balances) []) (\<lambda>balances.
          ret \<lparr>acc_ScriptHash = Some hash, acc_IsFrozen = frozen, acc_Votes = votes, acc_Balances = balances\<rparr>)))))))"

definition write_balance :: "uint \<times> fixed8 \<Rightarrow> (stream, unit) m" where
  "write_balance kv = sq (write256 (Some (fst kv))) (sq (WriteFixed8 (snd kv)) (ret ()))"

definition acc_Serialize :: "account_state \<Rightarrow> (stream, unit) m" where
  "acc_Serialize a =
     sq base_Serialize
       (sq (write160 (acc_ScriptHash a))
       (sq (WriteBool (PBool (acc_IsFrozen a)))
       (sq (WriteVarInt (int (length (acc_Votes a))))
       (sq (mapm (\<lambda>vote. sq (WriteBytes vote) (ret ())) (acc_Votes a))
       (sq (WriteVarInt (int (length (acc_Balances a))))
         (mapm write_balance (acc_Balances a)))))))"

definition HasBalance :: "uint \<Rightarrow> account_state \<Rightarrow> bool" where
  "HasBalance assetId a \<longleftrightarrow> list_ex (\<lambda>kv. uint_eq (fst kv) assetId) (acc_Balances a)"

fun balance_lookup :: "uint \<Rightarrow> (uint \<times> fixed8) list \<Rightarrow> fixed8" where
  "balance_lookup k [] = Fixed8 0"
| "balance_lookup k ((l, v) # d) = (if uint_eq l k then v else balance_lookup k d)"

definition BalanceFor :: "uint \<Rightarrow> account_state \<Rightarrow> fixed8" where
  "BalanceFor assetId a = balance_lookup assetId (acc_Balances a)"

text \<open>The loops write every key that equals \<open>assetId\<close>; a dictionary has at most one.\<close>

definition SetBalanceFor :: "uint \<Rightarrow> fixed8 \<Rightarrow> account_state \<Rightarrow> account_state" where
  "SetBalanceFor assetId v a =
     (if HasBalance assetId a
      then a\<lparr>acc_Balances := map (\<lambda>(k, w). if uint_eq k assetId then (k, v) else (k, w)) (acc_Balances a)\<rparr>
      else a\<lparr>acc_Balances := acc_Balances a @ [(assetId, v)]\<rparr>)"

definition AddToBalance :: "uint \<Rightarrow> fixed8 \<Rightarrow> account_state \<Rightarrow> account_state" where
  "AddToBalance assetId v a =
     (if HasBalance assetId a
      then a\<lparr>acc_Balances := map (\<lambda>(k, w). if uint_eq k assetId then (k, fx_add w v) else (k, w)) (acc_Balances a)\<rparr>
      else a\<lparr>acc_Balances := acc_Balances a @ [(assetId, v)]\<rparr>)"

definition SubtractFromBalance :: "uint \<Rightarrow> fixed8 \<Rightarrow> account_state \<Rightarrow> account_state" where
  "SubtractFromBalance assetId v a =
     (if HasBalance assetId a
      then a\<lparr>acc_Balances := map (\<lambda>(k, w). if uint_eq k assetId then (k, fx_sub w v) else (k, w)) (acc_Balances a)\<rparr>
      else a\<lparr>acc_Balances := acc_Balances a @ [(assetId, fx_mul v (Fixed8 (- 1)))]\<rparr>)"

definition AllBalancesZeroOrLess :: "account_state \<Rightarrow> bool" where
  "AllBalancesZeroOrLess a \<longleftrightarrow> list_all (\<lambda>kv. \<not> 0 < fx_value (snd kv)) (acc_Balances a)"

definition acc_FromReplica :: "account_state \<Rightarrow> account_state" where
  "acc_FromReplica replica =
     \<lparr>acc_ScriptHash = acc_ScriptHash replica, acc_IsFrozen = acc_IsFrozen replica,
      acc_Votes = acc_Votes replica, acc_Balances = acc_Balances replica\<rparr>"

section \<open>Coins\<close>

text \<open>The flags of \<open>CoinState\<close>.\<close>

definition CS_Unconfirmed :: int where "CS_Unconfirmed = 0"
definition CS_Confirmed :: int where "CS_Confirmed = 1"
definition CS_Spent :: int where "CS_Spent = 2"
definition CS_Claimed :: int where "CS_Claimed = 8"
definition CS_Locked :: int where "CS_Locked = 16"
definition CS_Frozen :: int where "CS_Frozen = 32"
definition CS_WatchOnly :: int where "CS_WatchOnly = 64"

text \<open>\<open>UnspentCoinState\<close>: one number of flags for each output of a transaction.\<close>

definition FromTXOutputsConfirmed :: "'a list \<Rightarrow> int list" where
  "FromTXOutputsConfirmed outputs = replicate (length outputs) CS_Confirmed"

definition IsAllSpent :: "int list \<Rightarrow> bool" where
  "IsAllSpent items \<longleftrightarrow> list_all (\<lambda>item. item \<noteq> CS_Confirmed) items"

definition OrEqValueForItemAt :: "int \<Rightarrow> int \<Rightarrow> int list \<Rightarrow> pyexc + int list" where
  "OrEqValueForItemAt index v items =
     (let items = items @ replicate (nat (index + 1) - length items) 0
      in ebind (py_nth index items) (\<lambda>old. py_set index (or old v) items))"

text \<open>Only the values of the \<open>CoinState\<close> enumeration have a size; combined flags raise.\<close>

definition unspent_Size :: "int list \<Rightarrow> pyexc + int" where
  "unspent_Size items =
     (if list_all (\<lambda>i. i \<in> {0, 1, 2, 8, 16, 32, 64}) items
      then Inr (base_Size + GetVarSize_items (\<lambda>_. 1) items) else Inl ValueError)"

definition unspent_Deserialize :: "(stream, int list) m" where
  "unspent_Deserialize =
     sq base_Deserialize
       (bnd (ReadVarInt maxsize) (\<lambda>blen.
          repeatm (nat blen) (bnd reader_ReadByte (\<lambda>b. ret (from_bytes_u b)))))"

definition unspent_Serialize :: "int list \<Rightarrow> (stream, unit) m" where
  "unspent_Serialize items =
     sq base_Serialize
       (sq (WriteVarInt (int (length items)))
         (mapm (\<lambda>item. bnd (lft (to_bytes_u 1 item)) (\<lambda>byt. WriteByte (PBytes byt))) items))"

text \<open>\<open>Clone\<close> calls \<open>Clone\<close> on each item, which a number does not have.\<close>

definition unspent_Clone :: "int list \<Rightarrow> pyexc + int list" where
  "unspent_Clone items = (if items = [] then Inr [] else Inl AttributeError)"

record spent_coin_item =
  sc_index :: int
  sc_height :: int

record spent_coin_state =
  sc_TransactionHash :: "uint option"
  sc_TransactionHeight :: int
  sc_Items :: "spent_coin_item list"

definition sc_Clone :: "spent_coin_state \<Rightarrow> spent_coin_state" where
  "sc_Clone s =
     \<lparr>sc_TransactionHash = sc_TransactionHash s, sc_TransactionHeight = sc_TransactionHeight s,
      sc_Items = sc_Items s\<rparr>"

definition HasIndex :: "int \<Rightarrow> spent_coin_state \<Rightarrow> bool" where
  "HasIndex index s \<longleftrightarrow> list_ex (\<lambda>i. sc_index i = index) (sc_Items s)"

text \<open>The last item with the index is removed: \<open>remove\<close> looks for that very object.\<close>

fun delete_last :: "('a \<Rightarrow> bool) \<Rightarrow> 'a list \<Rightarrow> 'a list" where
  "delete_last P [] = []"
| "delete_last P (x # xs) = (if P x \<and> \<not> list_ex P xs then xs else x # delete_last P xs)"

definition DeleteIndex :: "int \<Rightarrow> spent_coin_state \<Rightarrow> spent_coin_state" where
  "DeleteIndex index s = s\<lparr>sc_Items := delete_last (\<lambda>i. sc_index i = index) (sc_Items s)\<rparr>"

definition sc_item_Deserialize :: "(stream, spent_coin_item) m" where
  "sc_item_Deserialize =
     bnd (ReadUInt16 LE) (\<lambda>index. bnd (ReadUInt32 LE) (\<lambda>height. ret \<lparr>sc_index = index, sc_height = height\<rparr>))"

definition sc_Deserialize :: "(stream, spent_coin_state) m" where
  "sc_Deserialize =
     sq base_Deserialize
       (bnd ReadUInt256 (\<lambda>hash.
        bnd (ReadUInt32 LE) (\<lambda>height.
        bnd (ReadVarInt maxsize) (\<lambda>count.
        bnd (repeatm (nat count) sc_item_Deserialize) (\<lambda>items.
          ret \<lparr>sc_TransactionHash = Some hash, sc_TransactionHeight = height, sc_Items = items\<rparr>)))))"

definition sc_item_Serialize :: "spent_coin_item \<Rightarrow> (stream, unit) m" where
  "sc_item_Serialize i = sq (WriteUInt16 (sc_index i) LE) (sq (WriteUInt32 (sc_height i) LE) (ret ()))"

definition sc_Serialize :: "spent_coin_state \<Rightarrow> (stream, unit) m" where
  "sc_Serialize s =
     sq base_Serialize
       (sq (write256 (sc_TransactionHash s))
       (sq (WriteUInt32 (sc_TransactionHeight s) LE)
       (sq (WriteVarInt (int (length (sc_Items s))))
         (mapm sc_item_Serialize (sc_Items s)))))"


section \<open>AssetState\<close>

text \<open>The name is bytes once read, and text when the asset was made from a transaction.\<close>

record asset_state =
  as_AssetId :: "uint option"
  as_AssetType :: int
  as_Name :: io_value
  as_Amount :: fixed8
  as_Available :: fixed8
  as_Precision :: int
  as_FeeMode :: int
  as_Fee :: fixed8
  as_FeeAddress :: uint
  as_Owner :: ec_point
  as_Admin :: "uint option"
  as_Issuer :: "uint option"
  as_Expiration :: int
  as_IsFrozen :: bool

definition AT_CreditFlag :: int where "AT_CreditFlag = 0x40"
definition AT_DutyFlag :: int where "AT_DutyFlag = 0x80"
definition AT_GoverningToken :: int where "AT_GoverningToken = 0"
definition AT_UtilityToken :: int where "AT_UtilityToken = 1"
definition AT_Currency :: int where "AT_Currency = 8"
definition AT_Share :: int where "AT_Share = or AT_DutyFlag 0x10"
definition AT_Invoice :: int where "AT_Invoice = or AT_DutyFlag 0x18"
definition AT_Token :: int where "AT_Token = or AT_CreditFlag 0x20"

definition AllTypes :: "int list" where
  "AllTypes = [AT_CreditFlag, AT_DutyFlag, AT_GoverningToken, AT_UtilityToken, AT_Currency, AT_Share,
     AT_Invoice, AT_Token]"

definition GetVarSize_name :: "io_value \<Rightarrow> pyexc + int" where
  "GetVarSize_name v = (case v of
       PBytes bs \<Rightarrow> Inr (GetVarSize_bytes bs) | PByteArray bs \<Rightarrow> Inr (GetVarSize_bytes bs)
     | PStr s \<Rightarrow> GetVarSize_str s
     | PInt i \<Rightarrow> Inr (GetVarSize_int i) | PBool b \<Rightarrow> Inr 1 | PNone \<Rightarrow> Inl PlainException)"

definition as_Size :: "curve \<Rightarrow> asset_state \<Rightarrow> pyexc + int" where
  "as_Size C a =
     ebind (GetVarSize_name (as_Name a)) (\<lambda>name.
       Inr (base_Size + 32 + 1 + name + fx_Size (as_Amount a) + fx_Size (as_Available a) + 1 + 1 +
            fx_Size (as_Fee a) + 20 + ec_Size C (as_Owner a) + 20 + 20 + 4 + 1))"

text \<open>\<open>ord(reader.ReadByte())\<close>.\<close>

definition read_ord :: "(stream, int) m" where
  "read_ord = bnd reader_ReadByte (\<lambda>b. ret (from_bytes_u b))"

text \<open>An amount that raises is read once more from where it began; the fee mode is passed over.\<close>

definition as_Deserialize :: "(stream, asset_state) m" where
  "as_Deserialize =
     sq base_Deserialize
       (bnd ReadUInt256 (\<lambda>asset_id.
        bnd read_ord (\<lambda>asset_type.
        bnd (ReadVarString maxsize) (\<lambda>name.
        bnd (gets position) (\<lambda>pos.
        bnd (try_except ReadFixed8 (\<lambda>e. sq (stream_seek pos) ReadFixed8)) (\<lambda>amount.
        bnd ReadFixed8 (\<lambda>available.
        bnd read_ord (\<lambda>precision.
        sq reader_ReadByte
       (bnd ReadFixed8 (\<lambda>fee.
        bnd ReadUInt160 (\<lambda>fee_addr.
        bnd Deserialize_Secp256r1 (\<lambda>owner.
        bnd ReadUInt160 (\<lambda>admin.
        bnd ReadUInt160 (\<lambda>issuer.
        bnd (ReadUInt32 LE) (\<lambda>expiration.
        bnd ReadBool (\<lambda>frozen.
          ret \<lparr>as_AssetId = Some asset_id, as_AssetType = asset_type, as_Name = PBytes name,
               as_Amount = amount, as_Available = available, as_Precision = precision, as_FeeMode = 0,
               as_Fee = fee, as_FeeAddress = fee_addr, as_Owner = owner, as_Admin = Some admin,
               as_Issuer = Some issuer, as_Expiration = expiration, as_IsFrozen = frozen\<rparr>))))))))))))))))"

definition as_Serialize :: "curve \<Rightarrow> asset_state \<Rightarrow> (stream, unit) m" where
  "as_Serialize C a =
     sq base_Serialize
       (sq (write256 (as_AssetId a))
       (sq (WriteByte (PInt (as_AssetType a)))
       (sq (WriteVarString (as_Name a))
       (sq (WriteFixed8 (as_Amount a))
       (sq (WriteFixed8 (as_Available a))
       (sq (WriteByte (PInt (as_Precision a)))
       (sq (WriteByte (PBytes [0]))
       (sq (WriteFixed8 (as_Fee a))
       (sq (write160 (Some (as_FeeAddress a)))
       (sq (ec_Serialize C True (as_Owner a))
       (sq (write160 (as_Admin a))
       (sq (write160 (as_Issuer a))
       (sq (WriteUInt32 (as_Expiration a) LE)
       (sq (WriteBool (PBool (as_IsFrozen a)))
         (ret ())))))))))))))))"

definition as_Clone :: "asset_state \<Rightarrow> asset_state" where
  "as_Clone a = a\<lparr>as_FeeMode := 0\<rparr>"

section \<open>ValidatorState\<close>

record validator_state =
  vs_PublicKey :: ec_point
  vs_Registered :: bool
  vs_Votes :: fixed8

definition ValidatorState :: "ec_point \<Rightarrow> validator_state" where
  "ValidatorState pub_key = \<lparr>vs_PublicKey = pub_key, vs_Registered = False, vs_Votes = fx_Zero\<rparr>"

definition vs_Size :: "curve \<Rightarrow> validator_state \<Rightarrow> int" where
  "vs_Size C v = base_Size + ec_Size C (vs_PublicKey v) + 1 + fx_Size (vs_Votes v)"

definition vs_Deserialize :: "(stream, validator_state) m" where
  "vs_Deserialize =
     sq base_Deserialize
       (bnd Deserialize_Secp256r1 (\<lambda>pub_key.
        bnd ReadBool (\<lambda>registered.
        bnd ReadFixed8 (\<lambda>votes.
          ret \<lparr>vs_PublicKey = pub_key, vs_Registered = registered, vs_Votes = votes\<rparr>))))"

definition vs_Serialize :: "curve \<Rightarrow> validator_state \<Rightarrow> (stream, unit) m" where
  "vs_Serialize C v =
     sq base_Serialize
       (sq (ec_Serialize C True (vs_PublicKey v))
       (sq (WriteBool (PBool (vs_Registered v)))
       (sq (WriteFixed8 (vs_Votes v)) (ret ()))))"

definition vs_Clone :: "validator_state \<Rightarrow> validator_state" where
  "vs_Clone v =
     (ValidatorState (vs_PublicKey v))\<lparr>vs_Registered := vs_Registered v, vs_Votes := vs_Votes v\<rparr>"

section \<open>FunctionCode and ContractState\<close>

record function_code =
  fc_Script :: bytes
  fc_ParameterList :: bytes
  fc_ReturnType :: int
  fc_ContractProperties :: int

text \<open>The properties are neither written nor read: a code that is read has none.\<close>

definition fc_Deserialize :: "(stream, function_code) m" where
  "fc_Deserialize =
     bnd (ReadVarBytes maxsize) (\<lambda>scr.
     bnd (ReadVarBytes maxsize) (\<lambda>params.
     bnd read_ord (\<lambda>rtype.
       ret \<lparr>fc_Script = scr, fc_ParameterList = params, fc_ReturnType = rtype, fc_ContractProperties = 0\<rparr>)))"

definition fc_Serialize :: "function_code \<Rightarrow> (stream, unit) m" where
  "fc_Serialize c =
     sq (WriteVarBytes (fc_Script c))
       (sq (WriteVarBytes (fc_ParameterList c))
         (WriteByte (PInt (fc_ReturnType c))))"

definition fc_ScriptHash :: "primitives \<Rightarrow> function_code \<Rightarrow> pyexc + uint" where
  "fc_ScriptHash c code = Crypto_ToScriptHash c (fc_Script code) False"

record contract_state =
  co_Code :: function_code
  co_ContractProperties :: int
  co_Name :: bytes
  co_CodeVersion :: bytes
  co_Author :: bytes
  co_Email :: bytes
  co_Description :: bytes

definition CP_HasStorage :: int where "CP_HasStorage = 1"
definition CP_HasDynamicInvoke :: int where "CP_HasDynamicInvoke = 2"
definition CP_Payable :: int where "CP_Payable = 4"

definition fc_HasStorage :: "function_code \<Rightarrow> bool" where
  "fc_HasStorage c \<longleftrightarrow> 0 < and (fc_ContractProperties c) CP_HasStorage"

definition fc_HasDynamicInvoke :: "function_code \<Rightarrow> bool" where
  "fc_HasDynamicInvoke c \<longleftrightarrow> 0 < and (fc_ContractProperties c) CP_HasDynamicInvoke"

definition fc_IsPayable :: "function_code \<Rightarrow> bool" where
  "fc_IsPayable c \<longleftrightarrow> 0 < and (fc_ContractProperties c) CP_Payable"

definition co_HasStorage :: "contract_state \<Rightarrow> bool" where
  "co_HasStorage c \<longleftrightarrow> 0 < and (co_ContractProperties c) CP_HasStorage"

definition co_HasDynamicInvoke :: "contract_state \<Rightarrow> bool" where
  "co_HasDynamicInvoke c \<longleftrightarrow> 0 < and (co_ContractProperties c) CP_HasDynamicInvoke"

definition co_Payable :: "contract_state \<Rightarrow> bool" where
  "co_Payable c \<longleftrightarrow> 0 < and (co_ContractProperties c) CP_Payable"

definition co_Size :: "contract_state \<Rightarrow> int" where
  "co_Size c =
     base_Size + GetVarSize_bytes (fc_Script (co_Code c)) + GetVarSize_bytes (fc_ParameterList (co_Code c)) +
     1 + 1 + GetVarSize_bytes (co_Name c) + GetVarSize_bytes (co_CodeVersion c) +
     GetVarSize_bytes (co_Author c) + GetVarSize_bytes (co_Email c) + GetVarSize_bytes (co_Description c)"

definition co_Deserialize :: "(stream, contract_state) m" where
  "co_Deserialize =
     sq base_Deserialize
       (bnd fc_Deserialize (\<lambda>code.
        bnd (ReadUInt8 LE) (\<lambda>props.
        bnd (ReadVarString 252) (\<lambda>name.
        bnd (ReadVarString 252) (\<lambda>version.
        bnd (ReadVarString 252) (\<lambda>author.
        bnd (ReadVarString 252) (\<lambda>email.
        bnd (ReadVarString 65536) (\<lambda>description.
          ret \<lparr>co_Code = code, co_ContractProperties = props, co_Name = name, co_CodeVersion = version,
               co_Author = author, co_Email = email, co_Description = description\<rparr>))))))))"

definition co_Serialize :: "contract_state \<Rightarrow> (stream, unit) m" where
  "co_Serialize c =
     sq base_Serialize
       (sq (fc_Serialize (co_Code c))
       (sq (WriteUInt8 (co_ContractProperties c) LE)
       (sq (WriteVarString (PBytes (co_Name c)))
       (sq (WriteVarString (PBytes (co_CodeVersion c)))
       (sq (WriteVarString (PBytes (co_Author c)))
       (sq (WriteVarString (PBytes (co_Email c)))
         (WriteVarString (PBytes (co_Description c)))))))))"

definition co_Clone :: "contract_state \<Rightarrow> contract_state" where
  "co_Clone c = c"

section \<open>StateDescriptor\<close>

datatype state_type = ST_Account | ST_Validator

text \<open>The field is text, compared with ASCII literals.\<close>

record state_descriptor =
  sd_Type :: state_type
  sd_Key :: bytes
  sd_Field :: pystr
  sd_Value :: bytes

definition pystr_of :: "string \<Rightarrow> pystr" where
  "pystr_of s = map of_char s"

text \<open>
  The system fee of a validator: the characters of the value are numbers, which never equal the
  text \<open>'0'\<close>, so any value that is not empty is charged.
\<close>

definition GetSystemFee_Validator :: "state_descriptor \<Rightarrow> pyexc + fixed8" where
  "GetSystemFee_Validator d =
     (if sd_Field d = pystr_of ''Registered'' then
        if list_ex (\<lambda>character. True) (sd_Value d) then Inr (fx_FromDecimal_int 1000) else Inr fx_Zero
      else Inl PlainException)"

definition sd_SystemFee :: "state_descriptor \<Rightarrow> pyexc + fixed8" where
  "sd_SystemFee d = (if sd_Type d = ST_Validator then GetSystemFee_Validator d else Inr fx_Zero)"

definition sd_Size :: "state_descriptor \<Rightarrow> pyexc + int" where
  "sd_Size d =
     ebind (GetVarSize_str (sd_Field d)) (\<lambda>field.
       Inr (1 + GetVarSize_bytes (sd_Key d) + field + GetVarSize_bytes (sd_Value d)))"

definition CheckAccountState :: "state_descriptor \<Rightarrow> pyexc + unit" where
  "CheckAccountState d =
     (if length (sd_Key d) \<noteq> 20 then Inl PlainException
      else if sd_Field d \<noteq> pystr_of ''Votes'' then Inl PlainException
      else Inr ())"

definition CheckValidatorState :: "state_descriptor \<Rightarrow> pyexc + unit" where
  "CheckValidatorState d =
     (if length (sd_Key d) \<noteq> 33 then Inl PlainException
      else if sd_Field d \<noteq> pystr_of ''Registered'' then Inl PlainException
      else Inr ())"

definition StateType :: "int \<Rightarrow> pyexc + state_type" where
  "StateType i = (if i = 0x40 then Inr ST_Account else if i = 0x48 then Inr ST_Validator else Inl ValueError)"

definition sd_Deserialize :: "(stream, state_descriptor) m" where
  "sd_Deserialize =
     bnd read_ord (\<lambda>t.
     bnd (lft (StateType t)) (\<lambda>ty.
     bnd (ReadVarBytes 100) (\<lambda>key.
     bnd (ReadVarString 32) (\<lambda>fld.
     bnd (lft (utf8_decode fld)) (\<lambda>field.
     bnd (ReadVarBytes 65535) (\<lambda>v.
       let d = \<lparr>sd_Type = ty, sd_Key = key, sd_Field = field, sd_Value = v\<rparr>
       in bnd (lft (case ty of ST_Account \<Rightarrow> CheckAccountState d | ST_Validator \<Rightarrow> CheckValidatorState d))
            (\<lambda>_. ret d)))))))"

definition sd_Serialize :: "state_descriptor \<Rightarrow> (stream, unit) m" where
  "sd_Serialize d =
     sq (WriteByte (PBytes (case sd_Type d of ST_Account \<Rightarrow> [0x40] | ST_Validator \<Rightarrow> [0x48])))
       (sq (WriteVarBytes (sd_Key d))
       (sq (WriteVarString (PStr (sd_Field d)))
       (sq (WriteVarBytes (sd_Value d)) (ret ()))))"

definition VerifyAccountState :: "pyexc + bool" where
  "VerifyAccountState = Inl NotImplementedError"

definition VerifyValidatorState :: "state_descriptor \<Rightarrow> bool" where
  "VerifyValidatorState d \<longleftrightarrow> sd_Field d = pystr_of ''Registered''"

definition sd_Verify :: "state_descriptor \<Rightarrow> pyexc + bool" where
  "sd_Verify d =
     (case sd_Type d of
        ST_Account \<Rightarrow> VerifyAccountState
      | ST_Validator \<Rightarrow> Inr (VerifyValidatorState d))"

end
