(* ===== verification/State_Codecs.thy ===== *)
theory State_Codecs
  imports State_Objects
begin

text \<open>
  The formats of the ledger's records: each \<open>Serialize\<close> and \<open>Deserialize\<close> is an instance of the
  locale \<open>codec\<close>, for the objects whose fields fit their formats; the sizes they announce are
  the numbers of their bytes.
\<close>

section \<open>Storing and loading\<close>

context codec
begin

lemma ToByteArray_ok:
  assumes "ok x" "pool_wf s"
  shows "\<exists>s'. state_ToByteArray ser x s = (Val (hexlify (enc x)), s') \<and> pool_wf s'"
  using ToArray_ok [OF assms] by (simp add: state_ToByteArray_def helper_ToArray_def)

lemma DeserializeFromDB_ok:
  assumes "ok x" "pool_wf s"
  shows "\<exists>s'. DeserializeFromDB deser (enc x) s = (Val x, s') \<and> pool_wf s'"
proof -
  obtain i s1 where g: "GetStream (Some (enc x)) s = (Val i, s1)" "pool_wf s1"
    "streams s1 i = initial_stream (Some (enc x))" "i \<in> set (mstreams s1)" "i \<notin> set (mstreams_available s1)"
    using GetStream_clean [OF assms(2), of "Some (enc x)"] by blast
  let ?s2 = "s1\<lparr>streams := (streams s1)(i := cursor (enc x) [])\<rparr>"
  have "DeserializeFromDB deser (enc x) s = (Val x, snd (ReleaseStream i ?s2))"
    using g(1,3) on_stream_deser [OF assms(1), of s1 i "[]"]
    by (simp add: DeserializeFromDB_def bnd_def sq_def ret_def run_ReleaseStream)
  moreover have "pool_wf (snd (ReleaseStream i ?s2))"
    by (rule pool_ReleaseStream) (use g in \<open>auto simp: pool_wf_def\<close>)
  ultimately show ?thesis by blast
qed

lemma stored_and_loaded:
  assumes "ok x" "pool_wf s"
  shows "\<exists>hexed s1 raw s2. state_ToByteArray ser x s = (Val hexed, s1) \<and> unhexlify hexed = Some raw \<and>
     raw = enc x \<and> DeserializeFromDB deser raw s1 = (Val x, s2) \<and> pool_wf s2"
proof -
  obtain s1 where s1: "state_ToByteArray ser x s = (Val (hexlify (enc x)), s1)" "pool_wf s1"
    using ToByteArray_ok [OF assms] by blast
  obtain s2 where "DeserializeFromDB deser (enc x) s1 = (Val x, s2)" "pool_wf s2"
    using DeserializeFromDB_ok [OF assms(1) s1(2)] by blast
  with s1 show ?thesis by simp
qed

end

section \<open>The leaves\<close>

lemma emits_base [emits_intros]: "emits base_Serialize [0] ()"
  using emits_WriteByte [of 0] by (simp add: base_Serialize_def StateVersion_def)

lemma reads_base [reads_intros]: "reads base_Deserialize [0] ()"
  unfolding base_Deserialize_def
  using reads_bnd [OF reads_reader_ReadByte, of "\<lambda>b. let sv = from_bytes_u b in if sv \<noteq> StateVersion then throw PlainException else ret ()" 0 "[]" "()"]
  by (simp add: StateVersion_def reads_ret)

lemma emits_write160 [emits_intros]: "uint_ok 20 u \<Longrightarrow> emits (write160 (Some u)) (Data u) ()"
  by (simp add: write160_def WriteUInt160_def emits_uint_Serialize)

lemma emits_write256 [emits_intros]: "uint_ok 32 u \<Longrightarrow> emits (write256 (Some u)) (Data u) ()"
  by (simp add: write256_def WriteUInt256_def emits_uint_Serialize)

lemma emits_WriteUInt8 [emits_intros]: "0 \<le> v \<Longrightarrow> v < 2 ^ 8 \<Longrightarrow> emits (WriteUInt8 v LE) (int_bytes 1 v) 1"
  using emits_pack_int [of 1 False v LE] by (simp add: WriteUInt8_def int_fits_def order_bytes_def)

lemma emits_WriteUInt16 [emits_intros]: "0 \<le> v \<Longrightarrow> v < 2 ^ 16 \<Longrightarrow> emits (WriteUInt16 v LE) (int_bytes 2 v) 2"
  using emits_pack_int [of 2 False v LE] by (simp add: WriteUInt16_def int_fits_def order_bytes_def)

lemma emits_WriteUInt32 [emits_intros]: "0 \<le> v \<Longrightarrow> v < 2 ^ 32 \<Longrightarrow> emits (WriteUInt32 v LE) (int_bytes 4 v) 4"
  using emits_pack_int [of 4 False v LE] by (simp add: WriteUInt32_def int_fits_def order_bytes_def)

lemma emits_WriteUInt64 [emits_intros]: "0 \<le> v \<Longrightarrow> v < 2 ^ 64 \<Longrightarrow> emits (WriteUInt64 v LE) (int_bytes 8 v) 8"
  using emits_pack_int [of 8 False v LE] by (simp add: WriteUInt64_def int_fits_def order_bytes_def)

lemma reads_ReadUInt8 [reads_intros]: "0 \<le> v \<Longrightarrow> v < 2 ^ 8 \<Longrightarrow> reads (ReadUInt8 LE) (int_bytes 1 v) v"
  using reads_unpack_int [of 1 False v LE] by (simp add: ReadUInt8_def int_fits_def order_bytes_def maxsize_def)

lemma reads_ReadUInt16 [reads_intros]: "0 \<le> v \<Longrightarrow> v < 2 ^ 16 \<Longrightarrow> reads (ReadUInt16 LE) (int_bytes 2 v) v"
  using reads_unpack_int [of 2 False v LE] by (simp add: ReadUInt16_def int_fits_def order_bytes_def maxsize_def)

lemma reads_ReadUInt32 [reads_intros]: "0 \<le> v \<Longrightarrow> v < 2 ^ 32 \<Longrightarrow> reads (ReadUInt32 LE) (int_bytes 4 v) v"
  using reads_unpack_int [of 4 False v LE] by (simp add: ReadUInt32_def int_fits_def order_bytes_def maxsize_def)

lemma reads_ReadUInt64 [reads_intros]: "0 \<le> v \<Longrightarrow> v < 2 ^ 64 \<Longrightarrow> reads (ReadUInt64 LE) (int_bytes 8 v) v"
  using reads_unpack_int [of 8 False v LE] by (simp add: ReadUInt64_def int_fits_def order_bytes_def maxsize_def)

lemma emits_pack [emits_intros]: "emits (pack (Inr bs)) bs (int (length bs))"
  using emits_WriteRaw [of bs] by (simp add: pack_def emits_def bnd_def lft_def)

lemma emits_WriteBool [emits_intros]: "emits (WriteBool (PBool b)) [if b then 1 else 0] 1"
  using emits_pack [of "[if b then 1 else 0]"] by (simp add: WriteBool_def truthy_def)

lemma reads_ReadBool [reads_intros]: "reads ReadBool [if b then 1 else 0] b"
  unfolding ReadBool_def unpack_def
  by (rule reads_bnd_lft [OF reads_read]) (auto simp: unpack_bool_def maxsize_def)

lemma reads_read_ord [reads_intros]: "0 \<le> v \<Longrightarrow> v < 256 \<Longrightarrow> reads read_ord [word_of_int v] v"
  unfolding read_ord_def
  by (rule reads_bnd_ret [OF reads_reader_ReadByte]) (simp add: uint_word_of_int_8)

lemma reads_ReadVarInt_length [reads_intros]:
  "int (length xs) \<le> maxsize \<Longrightarrow> reads (ReadVarInt maxsize) (var_int (int (length xs))) (int (length xs))"
  by (rule reads_ReadVarInt) (simp_all add: maxsize_def)

lemma emits_WriteVarString_PBytes [emits_intros]:
  "int (length bs) \<le> maxsize \<Longrightarrow> emits (WriteVarString (PBytes bs)) (var_bytes bs) ()"
  by (rule emits_WriteVarString_bytes) simp_all

declare reads_ReadVarString [reads_intros]
declare emits_ec_Serialize [emits_intros]

lemma reads_bnd_gets: "(\<And>v. reads (f v) bs y) \<Longrightarrow> reads (bnd (gets g) f) bs y"
  by (simp add: reads_def bnd_def gets_def)

lemma emits_owner: "ec_ok C P \<Longrightarrow> emits (ec_Serialize C True P) (ec_bytes C P) ()"
  by (rule emits_ec_Serialize) (simp_all add: ec_ok_def)

lemma reads_owner: "ec_ok secp256r1_curve P \<Longrightarrow> reads Deserialize_Secp256r1 (ec_bytes secp256r1_curve P) P"
  by (rule public_key.deser_reads)

lemmas emits_step = emits_sq_ret emits_sq emits_intros
lemmas reads_step = reads_bnd_ret reads_bnd reads_sq reads_intros

section \<open>StorageItem\<close>

definition si_enc :: "storage_item \<Rightarrow> bytes" where
  "si_enc i = [0] @ var_bytes (si_Value i)"

definition si_ok :: "storage_item \<Rightarrow> bool" where
  "si_ok i \<longleftrightarrow> int (length (si_Value i)) \<le> maxsize \<and> \<not> si_IsConstant i"

interpretation storage_item: codec si_Serialize si_Deserialize si_enc si_ok
proof
  fix i assume ok: "si_ok i"
  show "emits (si_Serialize i) (si_enc i) ()"
    unfolding si_Serialize_def si_enc_def
    by (rule emits_step | use ok in \<open>simp add: si_ok_def\<close>)+
  show "reads si_Deserialize (si_enc i) i"
    unfolding si_Deserialize_def si_enc_def
    by (rule reads_step | use ok in \<open>cases i; simp add: si_ok_def StorageItem_def\<close>)+
qed

section \<open>Coins\<close>

definition sc_item_enc :: "spent_coin_item \<Rightarrow> bytes" where
  "sc_item_enc i = int_bytes 2 (sc_index i) @ int_bytes 4 (sc_height i)"

definition sc_item_ok :: "spent_coin_item \<Rightarrow> bool" where
  "sc_item_ok i \<longleftrightarrow> 0 \<le> sc_index i \<and> sc_index i < 2 ^ 16 \<and> 0 \<le> sc_height i \<and> sc_height i < 2 ^ 32"

interpretation spent_item: codec sc_item_Serialize sc_item_Deserialize sc_item_enc sc_item_ok
proof
  fix i assume ok: "sc_item_ok i"
  show "emits (sc_item_Serialize i) (sc_item_enc i) ()"
    unfolding sc_item_Serialize_def sc_item_enc_def
    by (rule emits_step | use ok in \<open>simp add: sc_item_ok_def\<close>)+
  show "reads sc_item_Deserialize (sc_item_enc i) i"
    unfolding sc_item_Deserialize_def sc_item_enc_def
    by (rule reads_step | use ok in \<open>cases i; simp add: sc_item_ok_def\<close>)+
qed

definition sc_enc :: "spent_coin_state \<Rightarrow> bytes" where
  "sc_enc s =
     [0] @ Data (the (sc_TransactionHash s)) @ int_bytes 4 (sc_TransactionHeight s) @
     var_int (int (length (sc_Items s))) @ concat (map sc_item_enc (sc_Items s))"

definition sc_ok :: "spent_coin_state \<Rightarrow> bool" where
  "sc_ok s \<longleftrightarrow>
     (case sc_TransactionHash s of None \<Rightarrow> False | Some h \<Rightarrow> uint_ok 32 h) \<and>
     0 \<le> sc_TransactionHeight s \<and> sc_TransactionHeight s < 2 ^ 32 \<and>
     array_ok sc_item_ok (sc_Items s)"

interpretation spent_coin: codec sc_Serialize sc_Deserialize sc_enc sc_ok
proof
  fix s assume ok: "sc_ok s"
  obtain h where h: "sc_TransactionHash s = Some h" "uint_ok 32 h"
    using ok by (auto simp: sc_ok_def split: option.splits)
  show "emits (sc_Serialize s) (sc_enc s) ()"
    unfolding sc_Serialize_def sc_enc_def h option.sel
    by (rule emits_step emits_mapm [OF spent_item.ser_emits] | use ok h in \<open>auto simp: sc_ok_def array_ok_def list_all_iff\<close>)+
  show "reads sc_Deserialize (sc_enc s) s"
    unfolding sc_Deserialize_def sc_enc_def h option.sel
    by (rule reads_step reads_repeatm [OF spent_item.deser_reads] | use ok h in \<open>cases s; auto simp: sc_ok_def array_ok_def list_all_iff\<close>)+
qed


lemma emits_unspent_item:
  "0 \<le> i \<Longrightarrow> i < 256 \<Longrightarrow>
     emits (bnd (lft (to_bytes_u 1 i)) (\<lambda>byt. WriteByte (PBytes byt))) (int_bytes 1 i) ()"
  using emits_WriteByte_bytes [of "int_bytes 1 i"] by (simp add: to_bytes_u_def emits_def bnd_def lft_def)

lemma reads_unspent_item:
  "0 \<le> i \<Longrightarrow> i < 256 \<Longrightarrow> reads (bnd reader_ReadByte (\<lambda>b. ret (from_bytes_u b))) (int_bytes 1 i) i"
  using reads_read_ord [of i] by (simp add: read_ord_def)

definition unspent_enc :: "int list \<Rightarrow> bytes" where
  "unspent_enc items = [0] @ var_int (int (length items)) @ concat (map (int_bytes 1) items)"

definition unspent_ok :: "int list \<Rightarrow> bool" where
  "unspent_ok items \<longleftrightarrow> array_ok (\<lambda>i. 0 \<le> i \<and> i < 256) items"

interpretation unspent_coins: codec unspent_Serialize unspent_Deserialize unspent_enc unspent_ok
proof
  fix items assume ok: "unspent_ok items"
  then have each: "0 \<le> i \<and> i < 256" if "i \<in> set items" for i
    using that by (simp add: unspent_ok_def array_ok_def list_all_iff)
  have len: "int (length items) \<le> maxsize" using ok by (simp add: unspent_ok_def array_ok_def)
  have w: "emits (mapm (\<lambda>item. bnd (lft (to_bytes_u 1 item)) (\<lambda>byt. WriteByte (PBytes byt))) items)
      (concat (map (int_bytes 1) items)) ()"
    using each by (intro emits_mapm emits_unspent_item) simp_all
  have r: "reads (repeatm (nat (int (length items))) (bnd reader_ReadByte (\<lambda>b. ret (from_bytes_u b))))
      (concat (map (int_bytes 1) items)) items"
    using each by (intro reads_repeatm reads_unspent_item) simp_all
  show "emits (unspent_Serialize items) (unspent_enc items) ()"
    unfolding unspent_Serialize_def unspent_enc_def by (rule w emits_step len)+
  show "reads unspent_Deserialize (unspent_enc items) items"
    unfolding unspent_Deserialize_def unspent_enc_def by (rule r reads_step len)+
qed

section \<open>AccountState\<close>

definition balance_enc :: "uint \<times> fixed8 \<Rightarrow> bytes" where
  "balance_enc kv = Data (fst kv) @ fixed8_bytes (snd kv)"

definition balances_ok :: "(uint \<times> fixed8) list \<Rightarrow> bool" where
  "balances_ok d \<longleftrightarrow> list_all (\<lambda>kv. uint_ok 32 (fst kv) \<and> fixed8_ok (snd kv)) d \<and>
     distinct (map (Data \<circ> fst) d) \<and> int (length d) \<le> maxsize"

lemma balance_put_new:
  "Data k \<notin> set (map (Data \<circ> fst) d) \<Longrightarrow> balance_put k v d = d @ [(k, v)]"
  by (induction d) (auto simp: uint_eq_def)

lemma reads_read_balances:
  assumes "list_all (\<lambda>kv. uint_ok 32 (fst kv) \<and> fixed8_ok (snd kv)) xs" "distinct (map (Data \<circ> fst) (d @ xs))"
  shows "reads (read_balances (length xs) d) (concat (map balance_enc xs)) (d @ xs)"
  using assms
proof (induction xs arbitrary: d)
  case Nil
  show ?case by (simp add: reads_ret)
next
  case (Cons kv xs)
  obtain k v where kv: "kv = (k, v)" by (cases kv)
  have "balance_put k v d = d @ [(k, v)]" using Cons.prems(2) kv by (intro balance_put_new) auto
  moreover have "reads (read_balances (length xs) (d @ [(k, v)])) (concat (map balance_enc xs)) ((d @ [(k, v)]) @ xs)"
    using Cons.prems kv by (intro Cons.IH) auto
  ultimately have rest: "reads (read_balances (length xs) (balance_put k v d)) (concat (map balance_enc xs)) (d @ kv # xs)"
    using kv by simp
  have "reads (bnd ReadUInt256 (\<lambda>k. bnd ReadFixed8 (\<lambda>v. read_balances (length xs) (balance_put k v d))))
      (Data k @ fixed8_bytes v @ concat (map balance_enc xs)) (d @ kv # xs)"
    using Cons.prems(1) kv by (intro reads_bnd [OF reads_ReadUInt256] reads_bnd [OF reads_ReadFixed8] rest) auto
  moreover have "concat (map balance_enc (kv # xs)) = Data k @ fixed8_bytes v @ concat (map balance_enc xs)"
    by (simp add: kv balance_enc_def)
  ultimately show ?case by simp
qed

lemma emits_write_balance:
  assumes "uint_ok 32 (fst kv) \<and> fixed8_ok (snd kv)"
  shows "emits (write_balance kv) (balance_enc kv) ()"
  unfolding write_balance_def balance_enc_def by (rule emits_step | use assms in simp)+

definition acc_enc :: "account_state \<Rightarrow> bytes" where
  "acc_enc a =
     [0] @ Data (the (acc_ScriptHash a)) @ [if acc_IsFrozen a then 1 else 0] @
     var_int (int (length (acc_Votes a))) @ concat (map id (acc_Votes a)) @
     var_int (int (length (acc_Balances a))) @ concat (map balance_enc (acc_Balances a))"

definition acc_ok :: "account_state \<Rightarrow> bool" where
  "acc_ok a \<longleftrightarrow>
     (case acc_ScriptHash a of None \<Rightarrow> False | Some h \<Rightarrow> uint_ok 20 h) \<and>
     array_ok (\<lambda>v. length v = 33) (acc_Votes a) \<and> balances_ok (acc_Balances a)"

lemma emits_vote:
  assumes "length v = 33"
  shows "emits (sq (WriteBytes v) (ret ())) (id v) ()"
proof -
  have "odd (length v)" unfolding assms by simp
  from emits_sq_ret [OF emits_WriteBytes [OF unhexlify_odd [OF this]]] show ?thesis unfolding id_apply .
qed

lemma reads_vote:
  assumes "length v = 33"
  shows "reads (ReadBytes 33) (id v) v"
  unfolding ReadBytes_def id_apply
  by (rule reads_read) (simp_all only: assms maxsize_def of_nat_numeral, simp)

interpretation account: codec acc_Serialize acc_Deserialize acc_enc acc_ok
proof
  fix a assume ok: "acc_ok a"
  obtain h where h: "acc_ScriptHash a = Some h" "uint_ok 20 h"
    using ok by (auto simp: acc_ok_def split: option.splits)
  have votes: "length v = 33" if "v \<in> set (acc_Votes a)" for v
    using that ok by (simp add: acc_ok_def array_ok_def list_all_iff)
  have bals: "uint_ok 32 (fst kv) \<and> fixed8_ok (snd kv)" if "kv \<in> set (acc_Balances a)" for kv
    using that ok by (simp add: acc_ok_def balances_ok_def list_all_iff)
  have len: "int (length (acc_Votes a)) \<le> maxsize" "int (length (acc_Balances a)) \<le> maxsize"
    using ok by (simp_all add: acc_ok_def array_ok_def balances_ok_def)
  have w: "emits (mapm (\<lambda>vote. sq (WriteBytes vote) (ret ())) (acc_Votes a)) (concat (map id (acc_Votes a))) ()"
    "emits (mapm write_balance (acc_Balances a)) (concat (map balance_enc (acc_Balances a))) ()"
    using votes bals by (intro emits_mapm emits_vote emits_write_balance; simp)+
  have r: "reads (repeatm (nat (int (length (acc_Votes a)))) (ReadBytes 33)) (concat (map id (acc_Votes a))) (acc_Votes a)"
    using votes by (intro reads_repeatm reads_vote) simp
  have bal: "reads (read_balances (nat (int (length (acc_Balances a)))) []) (concat (map balance_enc (acc_Balances a)))
      (acc_Balances a)"
    using reads_read_balances [of "acc_Balances a" "[]"] ok by (simp add: acc_ok_def balances_ok_def)
  show "emits (acc_Serialize a) (acc_enc a) ()"
    unfolding acc_Serialize_def acc_enc_def h option.sel by (rule w emits_step len h)+
  show "reads acc_Deserialize (acc_enc a) a"
    unfolding acc_Deserialize_def acc_enc_def h option.sel
    by (rule r bal reads_step len h | use h in \<open>cases a; simp\<close>)+
qed


section \<open>AssetState\<close>

definition as_enc :: "asset_state \<Rightarrow> bytes" where
  "as_enc a =
     [0] @ Data (the (as_AssetId a)) @ [word_of_int (as_AssetType a)] @
     (case as_Name a of PBytes bs \<Rightarrow> var_bytes bs | _ \<Rightarrow> []) @
     fixed8_bytes (as_Amount a) @ fixed8_bytes (as_Available a) @ [word_of_int (as_Precision a)] @ [0] @
     fixed8_bytes (as_Fee a) @ Data (as_FeeAddress a) @ ec_bytes secp256r1_curve (as_Owner a) @
     Data (the (as_Admin a)) @ Data (the (as_Issuer a)) @ int_bytes 4 (as_Expiration a) @
     [if as_IsFrozen a then 1 else 0]"

definition as_ok :: "asset_state \<Rightarrow> bool" where
  "as_ok a \<longleftrightarrow>
     (case as_AssetId a of None \<Rightarrow> False | Some h \<Rightarrow> uint_ok 32 h) \<and>
     0 \<le> as_AssetType a \<and> as_AssetType a < 256 \<and>
     (case as_Name a of PBytes bs \<Rightarrow> int (length bs) \<le> maxsize | _ \<Rightarrow> False) \<and>
     fixed8_ok (as_Amount a) \<and> fixed8_ok (as_Available a) \<and>
     0 \<le> as_Precision a \<and> as_Precision a < 256 \<and> as_FeeMode a = 0 \<and> fixed8_ok (as_Fee a) \<and>
     uint_ok 20 (as_FeeAddress a) \<and> ec_ok secp256r1_curve (as_Owner a) \<and>
     (case as_Admin a of None \<Rightarrow> False | Some h \<Rightarrow> uint_ok 20 h) \<and>
     (case as_Issuer a of None \<Rightarrow> False | Some h \<Rightarrow> uint_ok 20 h) \<and>
     0 \<le> as_Expiration a \<and> as_Expiration a < 2 ^ 32"

interpretation asset: codec "as_Serialize secp256r1_curve" as_Deserialize as_enc as_ok
proof
  fix a assume ok: "as_ok a"
  obtain h nm ad iss where e: "as_AssetId a = Some h" "as_Name a = PBytes nm" "as_Admin a = Some ad"
      "as_Issuer a = Some iss"
    using ok by (auto simp: as_ok_def split: option.splits io_value.splits)
  then have f: "uint_ok 32 h" "int (length nm) \<le> maxsize" "uint_ok 20 ad" "uint_ok 20 iss"
      "0 \<le> as_AssetType a" "as_AssetType a < 256" "fixed8_ok (as_Amount a)" "fixed8_ok (as_Available a)"
      "0 \<le> as_Precision a" "as_Precision a < 256" "as_FeeMode a = 0" "fixed8_ok (as_Fee a)"
      "uint_ok 20 (as_FeeAddress a)" "ec_ok secp256r1_curve (as_Owner a)"
      "0 \<le> as_Expiration a" "as_Expiration a < 2 ^ 32"
    using ok by (simp_all add: as_ok_def)
  show "emits (as_Serialize secp256r1_curve a) (as_enc a) ()"
    unfolding as_Serialize_def as_enc_def e option.sel io_value.case
    by (rule emits_sq_ret emits_sq emits_owner emits_intros f)+
  show "reads as_Deserialize (as_enc a) a"
    unfolding as_Deserialize_def as_enc_def e option.sel io_value.case
    by (rule reads_bnd_gets reads_step reads_try reads_owner reads_reader_ReadByte f
        | use e f(11) in \<open>cases a; simp\<close>)+
qed

section \<open>ValidatorState\<close>

definition vs_enc :: "validator_state \<Rightarrow> bytes" where
  "vs_enc v = [0] @ ec_bytes secp256r1_curve (vs_PublicKey v) @ [if vs_Registered v then 1 else 0] @
     fixed8_bytes (vs_Votes v)"

definition vs_ok :: "validator_state \<Rightarrow> bool" where
  "vs_ok v \<longleftrightarrow> ec_ok secp256r1_curve (vs_PublicKey v) \<and> fixed8_ok (vs_Votes v)"

interpretation validator: codec "vs_Serialize secp256r1_curve" vs_Deserialize vs_enc vs_ok
proof
  fix v assume ok: "vs_ok v"
  then have f: "ec_ok secp256r1_curve (vs_PublicKey v)" "fixed8_ok (vs_Votes v)" by (simp_all add: vs_ok_def)
  show "emits (vs_Serialize secp256r1_curve v) (vs_enc v) ()"
    unfolding vs_Serialize_def vs_enc_def
    by (rule emits_sq_ret emits_sq emits_owner emits_intros f)+
  show "reads vs_Deserialize (vs_enc v) v"
    unfolding vs_Deserialize_def vs_enc_def
    by (rule reads_step reads_owner f | (cases v; simp; fail))+
qed

section \<open>FunctionCode and ContractState\<close>

definition fc_enc :: "function_code \<Rightarrow> bytes" where
  "fc_enc c = var_bytes (fc_Script c) @ var_bytes (fc_ParameterList c) @ [word_of_int (fc_ReturnType c)]"

definition fc_ok :: "function_code \<Rightarrow> bool" where
  "fc_ok c \<longleftrightarrow> int (length (fc_Script c)) \<le> maxsize \<and> int (length (fc_ParameterList c)) \<le> maxsize \<and>
     0 \<le> fc_ReturnType c \<and> fc_ReturnType c < 256 \<and> fc_ContractProperties c = 0"

interpretation function_code: codec fc_Serialize fc_Deserialize fc_enc fc_ok
proof
  fix c assume ok: "fc_ok c"
  then have f: "int (length (fc_Script c)) \<le> maxsize" "int (length (fc_ParameterList c)) \<le> maxsize"
      "0 \<le> fc_ReturnType c" "fc_ReturnType c < 256" "fc_ContractProperties c = 0" by (simp_all add: fc_ok_def)
  show "emits (fc_Serialize c) (fc_enc c) ()"
    unfolding fc_Serialize_def fc_enc_def by (rule emits_step f)+
  show "reads fc_Deserialize (fc_enc c) c"
    unfolding fc_Deserialize_def fc_enc_def by (rule reads_step f | (insert f, cases c; simp; fail))+
qed

definition co_enc :: "contract_state \<Rightarrow> bytes" where
  "co_enc c =
     [0] @ fc_enc (co_Code c) @ int_bytes 1 (co_ContractProperties c) @ var_bytes (co_Name c) @
     var_bytes (co_CodeVersion c) @ var_bytes (co_Author c) @ var_bytes (co_Email c) @ var_bytes (co_Description c)"

definition co_ok :: "contract_state \<Rightarrow> bool" where
  "co_ok c \<longleftrightarrow> fc_ok (co_Code c) \<and> 0 \<le> co_ContractProperties c \<and> co_ContractProperties c < 2 ^ 8 \<and>
     length (co_Name c) \<le> 252 \<and> length (co_CodeVersion c) \<le> 252 \<and> length (co_Author c) \<le> 252 \<and>
     length (co_Email c) \<le> 252 \<and> length (co_Description c) \<le> 65536"

text \<open>What comes back of a contract: the properties of its code are not written.\<close>

definition stored_contract :: "contract_state \<Rightarrow> contract_state" where
  "stored_contract c = c\<lparr>co_Code := (co_Code c)\<lparr>fc_ContractProperties := 0\<rparr>\<rparr>"

lemma co_ok_stored: "co_ok c \<Longrightarrow> stored_contract c = c"
  by (cases c; cases "co_Code c") (simp add: co_ok_def fc_ok_def stored_contract_def)

lemma co_Serialize_stored: "co_Serialize (stored_contract c) = co_Serialize c"
  by (simp add: co_Serialize_def fc_Serialize_def stored_contract_def)

lemma short_bytes:
  "length bs \<le> n \<Longrightarrow> n \<le> 65536 \<Longrightarrow> int (length bs) \<le> maxsize \<and> int (length bs) \<le> int n"
  by (simp add: maxsize_def)

interpretation contract: codec co_Serialize co_Deserialize co_enc co_ok
proof
  fix c assume ok: "co_ok c"
  have f: "fc_ok (co_Code c)" "0 \<le> co_ContractProperties c" "co_ContractProperties c < 2 ^ 8"
    using ok by (simp_all add: co_ok_def)
  have g: "int (length (co_Name c)) \<le> maxsize" "int (length (co_Name c)) \<le> 252"
      "int (length (co_CodeVersion c)) \<le> maxsize" "int (length (co_CodeVersion c)) \<le> 252"
      "int (length (co_Author c)) \<le> maxsize" "int (length (co_Author c)) \<le> 252"
      "int (length (co_Email c)) \<le> maxsize" "int (length (co_Email c)) \<le> 252"
      "int (length (co_Description c)) \<le> maxsize" "int (length (co_Description c)) \<le> 65536"
    using ok short_bytes [of _ 252] short_bytes [of _ 65536] by (fastforce simp: co_ok_def)+
  show "emits (co_Serialize c) (co_enc c) ()"
    unfolding co_Serialize_def co_enc_def by (rule function_code.ser_emits emits_step f g)+
  show "reads co_Deserialize (co_enc c) c"
    unfolding co_Deserialize_def co_enc_def
    by (rule function_code.deser_reads reads_step f g | (cases c; simp; fail))+
qed


section \<open>StateDescriptor\<close>

definition field_of :: "state_type \<Rightarrow> string" where
  "field_of t = (case t of ST_Account \<Rightarrow> ''Votes'' | ST_Validator \<Rightarrow> ''Registered'')"

definition type_byte :: "state_type \<Rightarrow> byte" where
  "type_byte t = (case t of ST_Account \<Rightarrow> 0x40 | ST_Validator \<Rightarrow> 0x48)"

definition sd_enc :: "state_descriptor \<Rightarrow> bytes" where
  "sd_enc d =
     [type_byte (sd_Type d)] @ var_bytes (sd_Key d) @
     var_bytes (ascii (field_of (sd_Type d))) @ var_bytes (sd_Value d)"

definition sd_ok :: "state_descriptor \<Rightarrow> bool" where
  "sd_ok d \<longleftrightarrow>
     length (sd_Key d) = (case sd_Type d of ST_Account \<Rightarrow> 20 | ST_Validator \<Rightarrow> 33) \<and>
     sd_Field d = pystr_of (field_of (sd_Type d)) \<and> int (length (sd_Value d)) \<le> 65535"

lemma field_encode: "utf8_encode (pystr_of (field_of t)) = Inr (ascii (field_of t))"
  by (cases t) (simp_all add: field_of_def pystr_of_def ascii_def utf8_encode_def utf8_point_def)

lemma field_decode: "utf8_decode (ascii (field_of t)) = Inr (pystr_of (field_of t))"
  by (cases t) (simp_all add: field_of_def pystr_of_def ascii_def Let_def)

lemma length_field: "length (ascii (field_of t)) \<le> 32"
  by (cases t) (simp_all add: field_of_def ascii_def)

interpretation descriptor: codec sd_Serialize sd_Deserialize sd_enc sd_ok
proof
  fix d assume ok: "sd_ok d"
  let ?t = "sd_Type d"
  have fld: "sd_Field d = pystr_of (field_of ?t)" and val: "int (length (sd_Value d)) \<le> 65535"
    using ok by (simp_all add: sd_ok_def)
  have key: "length (sd_Key d) \<le> 33" using ok by (auto simp: sd_ok_def split: state_type.splits)
  then have key': "int (length (sd_Key d)) \<le> maxsize" "int (length (sd_Key d)) \<le> 100" by (simp_all add: maxsize_def)
  have val': "int (length (sd_Value d)) \<le> maxsize" using val by (simp add: maxsize_def)
  have fl: "int (length (ascii (field_of ?t))) \<le> maxsize" "int (length (ascii (field_of ?t))) \<le> 32"
    using length_field [of ?t] by (simp_all add: maxsize_def)
  have f: "emits (WriteVarString (PStr (sd_Field d))) (var_bytes (ascii (field_of ?t))) ()"
    using fl(1) field_encode [of ?t] by (intro emits_WriteVarString_bytes) (simp_all add: fld)
  have ty: "(case ?t of ST_Account \<Rightarrow> [0x40] | ST_Validator \<Rightarrow> [0x48]) = [type_byte ?t]"
    by (simp add: type_byte_def split: state_type.splits)
  show "emits (sd_Serialize d) (sd_enc d) ()"
    unfolding sd_Serialize_def sd_enc_def ty by (rule f emits_step key' val')+
  define code :: int where "code = (case ?t of ST_Account \<Rightarrow> 0x40 | ST_Validator \<Rightarrow> 0x48)"
  have code: "0 \<le> code" "code < 256" "StateType code = Inr ?t"
      "type_byte ?t = word_of_int code"
    by (simp_all add: code_def type_byte_def StateType_def split: state_type.splits)
  have chk: "(case ?t of ST_Account \<Rightarrow> CheckAccountState d | ST_Validator \<Rightarrow> CheckValidatorState d) = Inr ()"
    using ok by (auto simp: sd_ok_def CheckAccountState_def CheckValidatorState_def field_of_def split: state_type.splits)
  have d: "\<lparr>sd_Type = ?t, sd_Key = sd_Key d, sd_Field = pystr_of (field_of ?t), sd_Value = sd_Value d\<rparr> = d"
    using fld by (cases d) simp
  have last: "reads (bnd (ReadVarBytes 65535) (\<lambda>v.
       let d = \<lparr>sd_Type = ?t, sd_Key = sd_Key d, sd_Field = pystr_of (field_of ?t), sd_Value = v\<rparr>
       in bnd (lft (case ?t of ST_Account \<Rightarrow> CheckAccountState d | ST_Validator \<Rightarrow> CheckValidatorState d))
            (\<lambda>_. ret d))) (var_bytes (sd_Value d)) d"
  proof (rule reads_bnd [OF reads_ReadVarBytes [OF val val'], where cs = "[]", simplified append_Nil2])
    show "reads (let d = \<lparr>sd_Type = ?t, sd_Key = sd_Key d, sd_Field = pystr_of (field_of ?t), sd_Value = sd_Value d\<rparr>
       in bnd (lft (case ?t of ST_Account \<Rightarrow> CheckAccountState d | ST_Validator \<Rightarrow> CheckValidatorState d))
            (\<lambda>_. ret d)) [] d"
      unfolding d Let_def by (rule reads_bnd_lft_first [OF chk reads_ret])
  qed
  show "reads sd_Deserialize (sd_enc d) d"
    unfolding sd_Deserialize_def sd_enc_def code(4)
    by (rule last reads_bnd reads_bnd_lft_first [OF code(3)] reads_bnd_lft_first [OF field_decode]
        reads_intros key' fl code(1,2))+
qed

end
