(* ===== verification/State_Properties.thy ===== *)
theory State_Properties
  imports State_Codecs
begin

text \<open>
  What the ledger's records promise: an object stored as the database stores it comes back, with the
  size it announces; the balances of an account are a finite map; data of another version is
  refused.
\<close>

section \<open>Sizes\<close>

lemma length_fc_enc:
  assumes "int (length (fc_Script c)) < 2 ^ 32" "int (length (fc_ParameterList c)) < 2 ^ 32"
  shows "int (length (fc_enc c)) = GetVarSize_bytes (fc_Script c) + GetVarSize_bytes (fc_ParameterList c) + 1"
  using length_var_bytes [OF assms(1)] length_var_bytes [OF assms(2)] by (simp add: fc_enc_def)

lemma length_co_enc:
  assumes "co_ok c" "int (length (fc_Script (co_Code c))) < 2 ^ 32" "int (length (fc_ParameterList (co_Code c))) < 2 ^ 32"
  shows "int (length (co_enc c)) = co_Size c"
proof -
  have "int (length bs) < 2 ^ 32" if "length bs \<le> 65536" for bs :: bytes using that by simp
  then have v: "int (length (var_bytes bs)) = GetVarSize_bytes bs" if "length bs \<le> 65536" for bs
    using that length_var_bytes by blast
  have "int (length (var_bytes (co_Name c))) = GetVarSize_bytes (co_Name c)"
    "int (length (var_bytes (co_CodeVersion c))) = GetVarSize_bytes (co_CodeVersion c)"
    "int (length (var_bytes (co_Author c))) = GetVarSize_bytes (co_Author c)"
    "int (length (var_bytes (co_Email c))) = GetVarSize_bytes (co_Email c)"
    "int (length (var_bytes (co_Description c))) = GetVarSize_bytes (co_Description c)"
    using assms(1) by (simp_all add: v co_ok_def)
  then show ?thesis
    using length_fc_enc [OF assms(2,3)] by (simp add: co_enc_def co_Size_def base_Size_def)
qed

lemma length_ec_bytes: "int (length (ec_bytes C P)) = ec_Size C P"
  by (simp add: ec_bytes_def ec_Size_def)

lemma length_as_enc:
  assumes "as_ok a" "\<And>bs. as_Name a = PBytes bs \<Longrightarrow> int (length bs) < 2 ^ 32"
  shows "as_Size secp256r1_curve a = Inr (int (length (as_enc a)))"
proof -
  obtain h nm ad iss where e: "as_AssetId a = Some h" "as_Name a = PBytes nm" "as_Admin a = Some ad"
      "as_Issuer a = Some iss" "uint_ok 32 h" "uint_ok 20 ad" "uint_ok 20 iss" "uint_ok 20 (as_FeeAddress a)"
    using assms(1) by (auto simp: as_ok_def split: option.splits io_value.splits)
  then have "length (Data h) = 32" "length (Data ad) = 20" "length (Data iss) = 20" "length (Data (as_FeeAddress a)) = 20"
    by (simp_all add: uint_ok_def)
  then show ?thesis
    using length_var_bytes [OF assms(2) [OF e(2)]] length_ec_bytes [of secp256r1_curve "as_Owner a"] e(1-4)
    by (simp add: as_Size_def as_enc_def GetVarSize_name_def base_Size_def fx_Size_def fixed8_bytes_def)
qed

section \<open>Balances\<close>

definition account_wf :: "account_state \<Rightarrow> bool" where
  "account_wf a \<longleftrightarrow> distinct (map (Data \<circ> fst) (acc_Balances a))"

text \<open>The balances as a function from asset ids; an asset that is not listed counts as 0.\<close>

fun balance_of :: "(uint \<times> fixed8) list \<Rightarrow> bytes \<Rightarrow> int" where
  "balance_of [] k = 0"
| "balance_of ((l, v) # d) k = (if Data l = k then fx_value v else balance_of d k)"

definition balance_map :: "account_state \<Rightarrow> bytes \<Rightarrow> int" where
  "balance_map a = balance_of (acc_Balances a)"

lemma balance_of_lookup: "balance_of d (Data k) = fx_value (balance_lookup k d)"
  by (induction d) (auto simp: uint_eq_def)

lemma balance_of_update:
  assumes "list_ex (\<lambda>kv. uint_eq (fst kv) k) d" "distinct (map (Data \<circ> fst) d)"
  shows "balance_of (map (\<lambda>(l, w). if uint_eq l k then (l, f w) else (l, w)) d) =
    (balance_of d)(Data k := fx_value (f (balance_lookup k d)))"
proof -
  have keep: "map (\<lambda>(l, w). if uint_eq l k then (l, f w) else (l, w)) d = d"
    if "Data k \<notin> set (map (Data \<circ> fst) d)" for d
    using that by (induction d) (auto simp: uint_eq_def)
  show ?thesis
    using assms
  proof (induction d)
    case (Cons x d)
    obtain l w where x: "x = (l, w)" by (cases x)
    show ?case
    proof (cases "uint_eq l k")
      case True
      then have "Data k \<notin> set (map (Data \<circ> fst) d)" using Cons.prems(2) x by (simp add: uint_eq_def)
      then show ?thesis using True x keep by (auto simp: uint_eq_def fun_eq_iff)
    next
      case False
      then show ?thesis using Cons x by (auto simp: uint_eq_def fun_eq_iff)
    qed
  qed simp
qed

lemma balance_of_append:
  assumes "\<not> list_ex (\<lambda>kv. uint_eq (fst kv) k) d"
  shows "balance_of (d @ [(k, v)]) = (balance_of d)(Data k := fx_value v)" "fx_value (balance_lookup k d) = 0"
  using assms by (induction d) (auto simp: uint_eq_def fun_eq_iff)

lemma keys_update:
  "map (Data \<circ> fst) (map (\<lambda>(l, w). if uint_eq l k then (l, f w) else (l, w)) d) = map (Data \<circ> fst) d"
  by (induction d) auto

lemma keys_append:
  "\<not> list_ex (\<lambda>kv. uint_eq (fst kv) k) d \<Longrightarrow> Data k \<notin> set (map (Data \<circ> fst) d)"
  by (induction d) (auto simp: uint_eq_def)

lemma balance_step:
  assumes wf: "account_wf a"
    and b: "b = (if HasBalance k a
      then a\<lparr>acc_Balances := map (\<lambda>(l, w). if uint_eq l k then (l, f w) else (l, w)) (acc_Balances a)\<rparr>
      else a\<lparr>acc_Balances := acc_Balances a @ [(k, v)]\<rparr>)"
    and new: "fx_value v = fx_value (f (Fixed8 0))" and f: "\<And>w w'. fx_value w = fx_value w' \<Longrightarrow> f w = f w'"
  shows "account_wf b \<and> balance_map b = (balance_map a)(Data k := fx_value (f (BalanceFor k a)))"
proof (cases "HasBalance k a")
  case True
  then have "acc_Balances b = map (\<lambda>(l, w). if uint_eq l k then (l, f w) else (l, w)) (acc_Balances a)"
    using b by simp
  then have "account_wf b" using wf unfolding account_wf_def by (simp only: keys_update)
  moreover have "balance_map b = (balance_map a)(Data k := fx_value (f (BalanceFor k a)))"
    using True wf b balance_of_update [of k "acc_Balances a" f]
    by (simp add: account_wf_def balance_map_def HasBalance_def BalanceFor_def)
  ultimately show ?thesis by simp
next
  case False
  then have n: "\<not> list_ex (\<lambda>kv. uint_eq (fst kv) k) (acc_Balances a)" by (simp add: HasBalance_def)
  have "f (balance_lookup k (acc_Balances a)) = f (Fixed8 0)" using balance_of_append(2) [OF n] by (intro f) simp
  then show ?thesis
    using wf b False new balance_of_append(1) [OF n] keys_append [OF n]
    by (simp add: account_wf_def balance_map_def BalanceFor_def)
qed


section \<open>Properties\<close>

text \<open>
  C24. The balances of an account refine a function from assets to amounts: \<open>BalanceFor\<close> reads it (an
  asset without an entry has 0), \<open>SetBalanceFor\<close>, \<open>AddToBalance\<close> and \<open>SubtractFromBalance\<close> change it at
  their asset alone and by just the amount, whether the asset has an entry or not, and none of them
  makes a second entry of one asset.
\<close>

theorem balances_refine:
  assumes "account_wf a"
  shows "fx_value (BalanceFor k a) = balance_map a (Data k) \<and>
    balance_map (SetBalanceFor k v a) = (balance_map a)(Data k := fx_value v) \<and>
    balance_map (AddToBalance k v a) = (balance_map a)(Data k := balance_map a (Data k) + fx_value v) \<and>
    balance_map (SubtractFromBalance k v a) = (balance_map a)(Data k := balance_map a (Data k) - fx_value v) \<and>
    account_wf (SetBalanceFor k v a) \<and> account_wf (AddToBalance k v a) \<and> account_wf (SubtractFromBalance k v a)"
proof -
  have r: "fx_value (BalanceFor k a) = balance_map a (Data k)"
    by (simp add: balance_map_def BalanceFor_def balance_of_lookup)
  have "account_wf (SetBalanceFor k v a) \<and>
      balance_map (SetBalanceFor k v a) = (balance_map a)(Data k := fx_value v)"
    using balance_step [where k = k and v = v and f = "\<lambda>_. v", OF assms refl] by (simp add: SetBalanceFor_def)
  moreover have "account_wf (AddToBalance k v a) \<and>
      balance_map (AddToBalance k v a) = (balance_map a)(Data k := fx_value (fx_add (BalanceFor k a) v))"
    using balance_step [where k = k and v = v and f = "\<lambda>w. fx_add w v", OF assms refl] by (simp add: AddToBalance_def fx_add_def)
  moreover have "account_wf (SubtractFromBalance k v a) \<and>
      balance_map (SubtractFromBalance k v a) = (balance_map a)(Data k := fx_value (fx_sub (BalanceFor k a) v))"
    using balance_step [where k = k and v = "fx_mul v (Fixed8 (- 1))" and f = "\<lambda>w. fx_sub w v", OF assms refl]
    by (simp add: SubtractFromBalance_def fx_sub_def fx_mul_def)
  ultimately show ?thesis using r by (simp add: fx_add_def fx_sub_def)
qed

lemma balances_refine_witness:
  "balance_map (SubtractFromBalance \<lparr>Data = [1], uint_hash = 0\<rparr> (Fixed8 5) AccountState) [1] = - 5"
proof -
  have "account_wf AccountState" by (simp add: account_wf_def AccountState_def)
  from balances_refine [OF this, of "\<lparr>Data = [1], uint_hash = 0\<rparr>" "Fixed8 5"]
  show ?thesis by (simp add: balance_map_def AccountState_def)
qed

text \<open>
  C36. A contract whose fields fit their formats survives the database: the hexadecimal text that
  \<open>state_ToByteArray\<close> gives denotes bytes from which \<open>DeserializeFromDB\<close> reads the contract again, both
  leave the pool of streams clean, and the bytes are as many as \<open>Size\<close> says. Only the properties that the
  constructor of \<open>FunctionCode\<close> was given are lost: the contract has its own.
\<close>

theorem contract_stored:
  assumes "co_ok (stored_contract c)" "pool_wf s"
    and "int (length (fc_Script (co_Code c))) < 2 ^ 32" "int (length (fc_ParameterList (co_Code c))) < 2 ^ 32"
  shows "\<exists>hexed s1 raw s2. state_ToByteArray co_Serialize c s = (Val hexed, s1) \<and> unhexlify hexed = Some raw \<and>
    int (length raw) = co_Size c \<and>
    DeserializeFromDB co_Deserialize raw s1 = (Val (stored_contract c), s2) \<and> pool_wf s2"
proof -
  have "state_ToByteArray co_Serialize (stored_contract c) s = state_ToByteArray co_Serialize c s"
    by (simp add: state_ToByteArray_def co_Serialize_stored)
  moreover have "int (length (co_enc (stored_contract c))) = co_Size c"
    using length_co_enc [OF assms(1)] assms(3,4) by (simp add: stored_contract_def co_Size_def)
  ultimately show ?thesis using contract.stored_and_loaded [OF assms(1,2)] by metis
qed

definition sample_contract :: contract_state where
  "sample_contract =
     \<lparr>co_Code = \<lparr>fc_Script = [0x51, 0x66], fc_ParameterList = [7, 16], fc_ReturnType = 5, fc_ContractProperties = 0\<rparr>,
      co_ContractProperties = 3, co_Name = [65], co_CodeVersion = [], co_Author = [66], co_Email = [],
      co_Description = []\<rparr>"

definition sample_pool :: stream_manager where
  "sample_pool = \<lparr>streams = (\<lambda>_. stream_empty), mstreams = [], mstreams_available = []\<rparr>"

lemma contract_stored_witness:
  "\<exists>hexed s1 raw s2.
     state_ToByteArray co_Serialize (sample_contract\<lparr>co_Code := (co_Code sample_contract)\<lparr>fc_ContractProperties := 3\<rparr>\<rparr>) sample_pool =
       (Val hexed, s1) \<and>
     unhexlify hexed = Some raw \<and> int (length raw) = co_Size sample_contract \<and>
     DeserializeFromDB co_Deserialize raw s1 = (Val sample_contract, s2) \<and> pool_wf s2"
  using contract_stored [of "sample_contract\<lparr>co_Code := (co_Code sample_contract)\<lparr>fc_ContractProperties := 3\<rparr>\<rparr>" sample_pool]
  by (simp add: sample_contract_def stored_contract_def co_ok_def fc_ok_def maxsize_def pool_wf_def sample_pool_def co_Size_def)

text \<open>
  An asset whose fields fit their formats survives the database in the same way, its owner's
  key included, and has the size it announces.
\<close>

theorem asset_stored:
  assumes "as_ok a" "pool_wf s" "case as_Name a of PBytes bs \<Rightarrow> int (length bs) < 2 ^ 32 | _ \<Rightarrow> True"
  shows "\<exists>hexed s1 raw s2. state_ToByteArray (as_Serialize secp256r1_curve) a s = (Val hexed, s1) \<and>
    unhexlify hexed = Some raw \<and> as_Size secp256r1_curve a = Inr (int (length raw)) \<and>
    DeserializeFromDB as_Deserialize raw s1 = (Val a, s2) \<and> pool_wf s2"
proof -
  have "as_Size secp256r1_curve a = Inr (int (length (as_enc a)))"
    using assms(1,3) by (intro length_as_enc) simp_all
  with asset.stored_and_loaded [OF assms(1,2)] show ?thesis by metis
qed

definition sample_uint :: "nat \<Rightarrow> uint" where
  "sample_uint n = \<lparr>Data = replicate n 0, uint_hash = 0\<rparr>"

definition sample_asset :: asset_state where
  "sample_asset =
     \<lparr>as_AssetId = Some (sample_uint 32), as_AssetType = 1, as_Name = PBytes [71, 65, 83],
      as_Amount = Fixed8 100, as_Available = Fixed8 0, as_Precision = 8, as_FeeMode = 0, as_Fee = Fixed8 0,
      as_FeeAddress = sample_uint 20, as_Owner = ec_Infinity, as_Admin = Some (sample_uint 20),
      as_Issuer = Some (sample_uint 20), as_Expiration = 0, as_IsFrozen = False\<rparr>"

lemma from_bytes_u_zeros: "from_bytes_u (replicate n 0) = 0"
  by (induction n) auto

lemma sample_uint_ok: "uint_ok (Suc (Suc n)) (sample_uint (Suc (Suc n)))"
proof -
  have "GetHashCode (replicate k 0) = 0" for k
    by (simp add: GetHashCode_def py_slice_def from_bytes_u_zeros Let_def)
  moreover have "unhexlify (replicate (Suc (Suc n)) 0) = None" by (simp add: hex_val_def)
  ultimately show ?thesis by (simp only: sample_uint_def uint_ok_def uint.select_convs length_replicate)
qed

lemmas sample_hashes_ok = sample_uint_ok [of 18, simplified] sample_uint_ok [of 30, simplified]

lemma infinity_ok: "ec_ok secp256r1_curve ec_Infinity"
proof -
  have "reads (decode_from_reader secp256r1_curve) [0] ec_Infinity"
    by (rule reads_decode_first) (simp add: reads_ret)
  then show ?thesis by (simp add: ec_ok_def ec_bytes_def IsInfinity_def ec_eq_def f_eq_def ec_Infinity_def ec_make_def)
qed

lemma asset_stored_witness:
  "\<exists>hexed s1 raw s2. state_ToByteArray (as_Serialize secp256r1_curve) sample_asset sample_pool = (Val hexed, s1) \<and>
     unhexlify hexed = Some raw \<and> as_Size secp256r1_curve sample_asset = Inr (int (length raw)) \<and>
     DeserializeFromDB as_Deserialize raw s1 = (Val sample_asset, s2) \<and> pool_wf s2"
  by (rule asset_stored)
     (simp_all add: sample_asset_def as_ok_def sample_hashes_ok infinity_ok maxsize_def fixed8_ok_def
       int_fits_def pool_wf_def sample_pool_def)

lemma base_refuses:
  assumes "b \<noteq> 0"
  shows "base_Deserialize (cursor pre (b # post)) = (Exc PlainException, cursor (pre @ [b]) post)"
proof -
  have "uint b \<noteq> 0" using assms by (simp add: unsigned_eq_0_iff)
  moreover have "reader_ReadByte (cursor pre ([b] @ post)) = (Val [b], cursor (pre @ [b]) post)"
    using reads_reader_ReadByte [of b] by (simp only: reads_def)
  ultimately show ?thesis by (simp add: base_Deserialize_def bnd_def StateVersion_def throw_def)
qed

text \<open>
  Data that does not begin with the version byte 0 is refused by the reader of every record that
  has one: the exception of \<open>StateBase.Deserialize\<close> is raised after that single byte was read.
\<close>

theorem other_versions_refused:
  assumes "b \<noteq> 0"
  shows "acc_Deserialize (cursor pre (b # post)) = (Exc PlainException, cursor (pre @ [b]) post) \<and>
    as_Deserialize (cursor pre (b # post)) = (Exc PlainException, cursor (pre @ [b]) post) \<and>
    vs_Deserialize (cursor pre (b # post)) = (Exc PlainException, cursor (pre @ [b]) post) \<and>
    co_Deserialize (cursor pre (b # post)) = (Exc PlainException, cursor (pre @ [b]) post) \<and>
    sc_Deserialize (cursor pre (b # post)) = (Exc PlainException, cursor (pre @ [b]) post) \<and>
    unspent_Deserialize (cursor pre (b # post)) = (Exc PlainException, cursor (pre @ [b]) post) \<and>
    si_Deserialize (cursor pre (b # post)) = (Exc PlainException, cursor (pre @ [b]) post)"
  by (simp add: acc_Deserialize_def as_Deserialize_def vs_Deserialize_def co_Deserialize_def sc_Deserialize_def
      unspent_Deserialize_def si_Deserialize_def sq_def bnd_def base_refuses [OF assms])

lemma other_versions_refused_witness:
  "co_Deserialize (cursor [] [1]) = (Exc PlainException, cursor [1] [])"
  using other_versions_refused [of 1 "[]" "[]"] by simp

section \<open>Faults of the source\<close>

text \<open>A validator's fee is charged for any value, the byte 0 included.\<close>

lemma validator_fee_ignores_value:
  "sd_Field d = pystr_of ''Registered'' \<Longrightarrow> sd_Value d \<noteq> [] \<Longrightarrow>
     GetSystemFee_Validator d = Inr (fx_FromDecimal_int 1000)"
  by (cases "sd_Value d") (simp_all add: GetSystemFee_Validator_def)

text \<open>The unspent coins of a transaction with outputs cannot be cloned, an account with votes has no size.\<close>

lemma unspent_Clone_raises: "outputs \<noteq> [] \<Longrightarrow> unspent_Clone (FromTXOutputsConfirmed outputs) = Inl AttributeError"
  by (simp add: unspent_Clone_def FromTXOutputsConfirmed_def)

lemma account_Size_raises: "acc_Votes a \<noteq> [] \<Longrightarrow> acc_Size a = Inl PlainException"
  by (simp add: acc_Size_def GetVarSize_other_def)

end
