(* ===== verification/Transactions.thy ===== *)
theory Transactions
  imports State_Codecs
begin

text \<open>
  \<open>neo/Core/TX\<close>, \<open>Witness.py\<close> and \<open>CoinReference.py\<close>: transactions of every type with their
  attributes, inputs, outputs and witnesses. The subclasses of \<open>Transaction\<close> differ in the data they
  write after the version, which is the datatype \<open>tx_data\<close>; its constructor gives the type byte.

  What the ledger and the settings give is a parameter: the transactions by hash, the hash of the
  system coin, the fees by type, and the verification of witnesses. Not modelled: JSON, and
  \<open>GetScriptHashesForVerifying\<close>, whose result depends on the order of a Python set.
\<close>

section \<open>Witnesses, references and outputs\<close>

record witness =
  InvocationScript :: bytes
  VerificationScript :: bytes

text \<open>The constructor takes hexadecimal text for the bytes it denotes.\<close>

definition Witness :: "bytes \<Rightarrow> bytes \<Rightarrow> witness" where
  "Witness invc ver =
     \<lparr>InvocationScript = (case unhexlify invc of Some b \<Rightarrow> b | None \<Rightarrow> invc),
      VerificationScript = (case unhexlify ver of Some b \<Rightarrow> b | None \<Rightarrow> ver)\<rparr>"

definition wit_Size :: "witness \<Rightarrow> int" where
  "wit_Size w = GetVarSize_bytes (InvocationScript w) + GetVarSize_bytes (VerificationScript w)"

definition wit_Deserialize :: "(stream, witness) m" where
  "wit_Deserialize =
     bnd (ReadVarBytes maxsize) (\<lambda>invc.
     bnd (ReadVarBytes maxsize) (\<lambda>ver. ret \<lparr>InvocationScript = invc, VerificationScript = ver\<rparr>))"

definition wit_Serialize :: "witness \<Rightarrow> (stream, unit) m" where
  "wit_Serialize w =
     sq (WriteVarBytes (InvocationScript w)) (sq (WriteVarBytes (VerificationScript w)) (ret ()))"

record coin_reference =
  PrevHash :: uint
  PrevIndex :: int

definition cr_Size :: "coin_reference \<Rightarrow> int" where
  "cr_Size r = 32 + 2"

definition cr_Deserialize :: "(stream, coin_reference) m" where
  "cr_Deserialize =
     bnd ReadUInt256 (\<lambda>h. bnd (ReadUInt16 LE) (\<lambda>i. ret \<lparr>PrevHash = h, PrevIndex = i\<rparr>))"

definition cr_Serialize :: "coin_reference \<Rightarrow> (stream, unit) m" where
  "cr_Serialize r = sq (write256 (Some (PrevHash r))) (sq (WriteUInt16 (PrevIndex r) LE) (ret ()))"

definition cr_Equals :: "coin_reference \<Rightarrow> coin_reference \<Rightarrow> bool" where
  "cr_Equals r q \<longleftrightarrow> uint_ToBytes (PrevHash q) = uint_ToBytes (PrevHash r) \<and> PrevIndex q = PrevIndex r"

text \<open>\<open>bytearray(n)\<close> is \<open>n\<close> zeros, which the little-endian number does not see.\<close>

definition cr_hash :: "coin_reference \<Rightarrow> int" where
  "cr_hash r = from_bytes_u (Data (PrevHash r) @ replicate (nat (PrevIndex r)) 0)"

record tx_output =
  AssetId :: uint
  Value :: fixed8
  ScriptHash :: uint

definition out_Serialize :: "tx_output \<Rightarrow> (stream, unit) m" where
  "out_Serialize out =
     sq (write256 (Some (AssetId out))) (sq (WriteFixed8 (Value out)) (write160 (Some (ScriptHash out))))"

definition out_Deserialize :: "(stream, tx_output) m" where
  "out_Deserialize =
     bnd ReadUInt256 (\<lambda>a. bnd ReadFixed8 (\<lambda>v. bnd ReadUInt160 (\<lambda>h.
       ret \<lparr>AssetId = a, Value = v, ScriptHash = h\<rparr>)))"

definition out_Size :: "tx_output \<Rightarrow> int" where
  "out_Size out = fx_Size (Value out) + 20 + 32"

section \<open>Attributes\<close>

definition AU_ContractHash :: int where "AU_ContractHash = 0"
definition AU_ECDH02 :: int where "AU_ECDH02 = 2"
definition AU_ECDH03 :: int where "AU_ECDH03 = 3"
definition AU_Script :: int where "AU_Script = 0x20"
definition AU_Vote :: int where "AU_Vote = 0x30"
definition AU_DescriptionUrl :: int where "AU_DescriptionUrl = 0x81"
definition AU_Description :: int where "AU_Description = 0x90"
definition AU_Hash1 :: int where "AU_Hash1 = 0xa1"
definition AU_Hash15 :: int where "AU_Hash15 = 0xaf"
definition AU_Remark :: int where "AU_Remark = 0xf0"

definition MAX_ATTR_DATA_SIZE :: int where "MAX_ATTR_DATA_SIZE = 65535"

datatype attr_data = AttrBytes bytes | AttrUInt uint | AttrNone

record tx_attribute =
  Usage :: int
  attr_Data :: attr_data

definition is_hash_usage :: "int \<Rightarrow> bool" where
  "is_hash_usage u \<longleftrightarrow> u = AU_ContractHash \<or> u = AU_Vote \<or> (AU_Hash1 \<le> u \<and> u \<le> AU_Hash15)"

definition is_ecdh_usage :: "int \<Rightarrow> bool" where
  "is_ecdh_usage u \<longleftrightarrow> u = AU_ECDH02 \<or> u = AU_ECDH03"

definition is_text_usage :: "int \<Rightarrow> bool" where
  "is_text_usage u \<longleftrightarrow> u = AU_Description \<or> AU_Remark \<le> u"

text \<open>The key of an ECDH attribute is put after \<open>bytearray(usage)\<close>, two or three zeros.\<close>

definition attr_Deserialize :: "(stream, tx_attribute) m" where
  "attr_Deserialize =
     bnd read_ord (\<lambda>usage.
     bnd (if is_hash_usage usage then bnd (ReadBytes 32) (\<lambda>d. ret (AttrBytes d))
          else if is_ecdh_usage usage then
            bnd (ReadBytes 32) (\<lambda>d. ret (AttrBytes (replicate (nat usage) 0 @ d)))
          else if usage = AU_Script then bnd (ReadBytes 20) (\<lambda>d. ret (AttrBytes d))
          else if usage = AU_DescriptionUrl then
            bnd read_ord (\<lambda>n. bnd (ReadBytes n) (\<lambda>d. ret (AttrBytes d)))
          else if is_text_usage usage then
            bnd (ReadVarBytes MAX_ATTR_DATA_SIZE) (\<lambda>d. ret (AttrBytes d))
          else ret AttrNone) (\<lambda>d.
       ret \<lparr>Usage = usage, attr_Data = d\<rparr>))"

definition attr_Serialize :: "tx_attribute \<Rightarrow> (stream, unit) m" where
  "attr_Serialize a =
     sq (WriteByte (PInt (Usage a)))
       (bnd (case attr_Data a of AttrBytes d \<Rightarrow> ret d | AttrUInt u \<Rightarrow> ret (Data u) | AttrNone \<Rightarrow> throw TypeError) (\<lambda>d.
          if MAX_ATTR_DATA_SIZE < int (length d) then throw PlainException
          else if is_hash_usage (Usage a) then sq (WriteBytes d) (ret ())
          else if is_ecdh_usage (Usage a) then sq (WriteBytes (py_slice 1 33 d)) (ret ())
          else if Usage a = AU_Script then sq (WriteBytes d) (ret ())
          else if Usage a = AU_DescriptionUrl then WriteVarString (PBytes d)
          else if is_text_usage (Usage a) then WriteVarString (PBytes d)
          else ret ()))"

definition attr_Size :: "tx_attribute \<Rightarrow> pyexc + int" where
  "attr_Size a =
     (if is_hash_usage (Usage a) \<or> is_ecdh_usage (Usage a) then Inr (1 + 32)
      else if Usage a = AU_Script then Inr (1 + 20)
      else if Usage a = AU_DescriptionUrl then
        (case attr_Data a of
           AttrBytes d \<Rightarrow> Inr (1 + 1 + int (length d))
         | AttrUInt _ \<Rightarrow> Inl TypeError | AttrNone \<Rightarrow> Inl TypeError)
      else (case attr_Data a of
           AttrBytes d \<Rightarrow> Inr (1 + GetVarSize_bytes d)
         | AttrUInt _ \<Rightarrow> Inl PlainException | AttrNone \<Rightarrow> Inl PlainException))"

section \<open>The data of each type\<close>

record register_data =
  rg_AssetType :: int
  rg_Name :: io_value
  rg_Amount :: fixed8
  rg_Precision :: int
  rg_Owner :: ec_point
  rg_Admin :: uint

record publish_data =
  pb_Code :: function_code
  pb_NeedStorage :: bool
  pb_Name :: io_value
  pb_CodeVersion :: io_value
  pb_Author :: io_value
  pb_Email :: io_value
  pb_Description :: io_value

datatype tx_data =
    MinerTransaction int
  | IssueTransaction
  | ClaimTransaction "coin_reference list"
  | EnrollmentTransaction ec_point
  | RegisterTransaction register_data
  | ContractTransaction
  | StateTransaction "state_descriptor list"
  | PublishTransaction publish_data
  | InvocationTransaction bytes fixed8
  | OtherTransaction int

definition TransactionType :: "tx_data \<Rightarrow> int" where
  "TransactionType d = (case d of
       MinerTransaction _ \<Rightarrow> 0x00 | IssueTransaction \<Rightarrow> 0x01 | ClaimTransaction _ \<Rightarrow> 0x02
     | EnrollmentTransaction _ \<Rightarrow> 0x20 | RegisterTransaction _ \<Rightarrow> 0x40 | ContractTransaction \<Rightarrow> 0x80
     | StateTransaction _ \<Rightarrow> 0x90 | PublishTransaction _ \<Rightarrow> 0xd0 | InvocationTransaction _ _ \<Rightarrow> 0xd1
     | OtherTransaction t \<Rightarrow> t)"

definition read_claims :: "(stream, coin_reference list) m" where
  "read_claims =
     bnd (ReadVarInt maxsize) (\<lambda>numrefs.
     bnd (repeatm (nat numrefs) cr_Deserialize) (\<lambda>claims.
       if length claims = 0 then throw PlainException else ret claims))"

definition miner_Deserialize :: "(stream, tx_data) m" where
  "miner_Deserialize = bnd (ReadUInt32 LE) (\<lambda>nonce. ret (MinerTransaction nonce))"

definition issue_Deserialize :: "int \<Rightarrow> (stream, tx_data) m" where
  "issue_Deserialize version = (if 1 < version then throw PlainException else ret IssueTransaction)"

definition claim_Deserialize :: "int \<Rightarrow> (stream, tx_data) m" where
  "claim_Deserialize version =
     (if version \<noteq> 0 then throw PlainException else bnd read_claims (\<lambda>claims. ret (ClaimTransaction claims)))"

definition enrollment_Deserialize :: "int \<Rightarrow> (stream, tx_data) m" where
  "enrollment_Deserialize version =
     (if version \<noteq> 0 then throw PlainException
      else bnd Deserialize_Secp256r1 (\<lambda>key. ret (EnrollmentTransaction key)))"

definition register_Deserialize :: "(stream, tx_data) m" where
  "register_Deserialize =
     bnd read_ord (\<lambda>ty.
     bnd (ReadVarString maxsize) (\<lambda>name.
     bnd ReadFixed8 (\<lambda>amount.
     bnd read_ord (\<lambda>precision.
     bnd Deserialize_Secp256r1 (\<lambda>owner.
     bnd ReadUInt160 (\<lambda>admin.
       ret (RegisterTransaction
         \<lparr>rg_AssetType = ty, rg_Name = PBytes name, rg_Amount = amount, rg_Precision = precision,
          rg_Owner = owner, rg_Admin = admin\<rparr>)))))))"

definition state_Deserialize :: "(stream, tx_data) m" where
  "state_Deserialize =
     bnd (ReadSerializableArray sd_Deserialize maxsize) (\<lambda>ds. ret (StateTransaction ds))"

text \<open>A version above 1 is only logged.\<close>

definition publish_Deserialize :: "int \<Rightarrow> (stream, tx_data) m" where
  "publish_Deserialize version =
     bnd fc_Deserialize (\<lambda>code.
     bnd (if 1 \<le> version then ReadBool else ret False) (\<lambda>storage.
     bnd (ReadVarString maxsize) (\<lambda>name.
     bnd (ReadVarString maxsize) (\<lambda>cversion.
     bnd (ReadVarString maxsize) (\<lambda>author.
     bnd (ReadVarString maxsize) (\<lambda>email.
     bnd (ReadVarString maxsize) (\<lambda>description.
       ret (PublishTransaction
         \<lparr>pb_Code = code, pb_NeedStorage = storage, pb_Name = PBytes name, pb_CodeVersion = PBytes cversion,
          pb_Author = PBytes author, pb_Email = PBytes email, pb_Description = PBytes description\<rparr>))))))))"

definition invocation_Deserialize :: "int \<Rightarrow> (stream, tx_data) m" where
  "invocation_Deserialize version =
     (if 1 < version then throw PlainException
      else bnd (ReadVarBytes maxsize) (\<lambda>scr.
        if length scr = 0 then throw PlainException
        else if 1 \<le> version then
          bnd ReadFixed8 (\<lambda>gas. if gas < fx_Zero then throw PlainException else ret (InvocationTransaction scr gas))
        else ret (InvocationTransaction scr (Fixed8 0))))"

definition DeserializeExclusiveData :: "int \<Rightarrow> int \<Rightarrow> (stream, tx_data) m" where
  "DeserializeExclusiveData ttype version =
     (if ttype = 0x40 then register_Deserialize
      else if ttype = 0x00 then miner_Deserialize
      else if ttype = 0x01 then issue_Deserialize version
      else if ttype = 0x02 then claim_Deserialize version
      else if ttype = 0xd0 then publish_Deserialize version
      else if ttype = 0xd1 then invocation_Deserialize version
      else if ttype = 0x20 then enrollment_Deserialize version
      else if ttype = 0x90 then state_Deserialize
      else if ttype = 0x80 then ret ContractTransaction
      else ret (OtherTransaction ttype))"

text \<open>The miner's nonce goes through its hexadecimal text.\<close>

definition miner_Serialize :: "int \<Rightarrow> (stream, unit) m" where
  "miner_Serialize nonce =
     bnd (lft (to_bytes_u 4 nonce)) (\<lambda>byt. sq (WriteBytes (hexlify byt)) (ret ()))"

definition register_Serialize :: "register_data \<Rightarrow> (stream, unit) m" where
  "register_Serialize r =
     sq (WriteByte (PInt (rg_AssetType r)))
       (sq (WriteVarString (rg_Name r))
       (sq (WriteFixed8 (rg_Amount r))
       (sq (WriteByte (PInt (rg_Precision r)))
       (sq (ec_Serialize secp256r1_curve True (rg_Owner r))
         (write160 (Some (rg_Admin r)))))))"

definition publish_Serialize :: "int \<Rightarrow> publish_data \<Rightarrow> (stream, unit) m" where
  "publish_Serialize version p =
     sq (fc_Serialize (pb_Code p))
       (sq (if 1 \<le> version then sq (WriteBool (PBool (pb_NeedStorage p))) (ret ()) else ret ())
       (sq (WriteVarString (pb_Name p))
       (sq (WriteVarString (pb_CodeVersion p))
       (sq (WriteVarString (pb_Author p))
       (sq (WriteVarString (pb_Email p))
         (WriteVarString (pb_Description p)))))))"

definition invocation_Serialize :: "int \<Rightarrow> bytes \<Rightarrow> fixed8 \<Rightarrow> (stream, unit) m" where
  "invocation_Serialize version scr gas =
     sq (WriteVarBytes scr) (if 1 \<le> version then sq (WriteFixed8 gas) (ret ()) else ret ())"

definition SerializeExclusiveData :: "int \<Rightarrow> tx_data \<Rightarrow> (stream, unit) m" where
  "SerializeExclusiveData version d =
     (case d of
        MinerTransaction nonce \<Rightarrow> miner_Serialize nonce
      | IssueTransaction \<Rightarrow> ret ()
      | ClaimTransaction claims \<Rightarrow> WriteSerializableArray cr_Serialize claims
      | EnrollmentTransaction key \<Rightarrow> ec_Serialize secp256r1_curve True key
      | RegisterTransaction r \<Rightarrow> register_Serialize r
      | ContractTransaction \<Rightarrow> ret ()
      | StateTransaction ds \<Rightarrow> WriteSerializableArray sd_Serialize ds
      | PublishTransaction p \<Rightarrow> publish_Serialize version p
      | InvocationTransaction scr gas \<Rightarrow> invocation_Serialize version scr gas
      | OtherTransaction t \<Rightarrow> ret ())"

section \<open>Transactions\<close>

record tx =
  Version :: int
  tx_exclusive :: tx_data
  Attributes :: "tx_attribute list"
  tx_inputs :: "coin_reference list"
  tx_outputs :: "tx_output list"
  tx_scripts :: "witness list"

definition MAX_TX_ATTRIBUTES :: int where "MAX_TX_ATTRIBUTES = 16"
definition MAX_TX_SIZE :: int where "MAX_TX_SIZE = 102400"

definition tx_Type :: "tx \<Rightarrow> int" where
  "tx_Type t = TransactionType (tx_exclusive t)"

definition OnDeserialized :: "tx \<Rightarrow> pyexc + unit" where
  "OnDeserialized t =
     (case tx_exclusive t of
        MinerTransaction _ \<Rightarrow> if length (tx_inputs t) \<noteq> 0 then Inl PlainException else Inr ()
      | _ \<Rightarrow> Inr ())"

definition DeserializeUnsignedWithoutType :: "int \<Rightarrow> (stream, tx) m" where
  "DeserializeUnsignedWithoutType ttype =
     bnd read_ord (\<lambda>version.
     bnd (DeserializeExclusiveData ttype version) (\<lambda>d.
     bnd (ReadSerializableArray attr_Deserialize MAX_TX_ATTRIBUTES) (\<lambda>attrs.
     bnd (ReadSerializableArray cr_Deserialize maxsize) (\<lambda>inps.
     bnd (ReadSerializableArray out_Deserialize maxsize) (\<lambda>outs.
       ret \<lparr>Version = version, tx_exclusive = d, Attributes = attrs, tx_inputs = inps, tx_outputs = outs,
            tx_scripts = []\<rparr>)))))"

definition DeserializeFrom :: "(stream, tx) m" where
  "DeserializeFrom =
     bnd read_ord (\<lambda>ttype.
     bnd (DeserializeUnsignedWithoutType ttype) (\<lambda>t.
     bnd (ReadVarInt maxsize) (\<lambda>byt.
     bnd (if 0 < byt then repeatm (nat byt) wit_Deserialize else ret []) (\<lambda>wits.
       let t = t\<lparr>tx_scripts := wits\<rparr>
       in bnd (lft (OnDeserialized t)) (\<lambda>_. ret t)))))"

text \<open>The method \<open>Deserialize\<close> of an object whose class expects the type byte \<open>ttype\<close>.\<close>

definition DeserializeUnsigned :: "int \<Rightarrow> (stream, tx) m" where
  "DeserializeUnsigned ttype =
     bnd read_ord (\<lambda>txtype.
       if txtype \<noteq> ttype then throw PlainException else DeserializeUnsignedWithoutType ttype)"

definition tx_Deserialize :: "int \<Rightarrow> (stream, tx) m" where
  "tx_Deserialize ttype =
     bnd (DeserializeUnsigned ttype) (\<lambda>t.
     bnd (ReadSerializableArray wit_Deserialize maxsize) (\<lambda>wits.
       let t = t\<lparr>tx_scripts := wits\<rparr>
       in bnd (lft (OnDeserialized t)) (\<lambda>_. ret t)))"

definition DeserializeFromBufer :: "bytes \<Rightarrow> (stream_manager, tx) m" where
  "DeserializeFromBufer buffer =
     bnd (GetStream (Some buffer)) (\<lambda>mstream.
       bnd (on_stream mstream DeserializeFrom) (\<lambda>t. sq (ReleaseStream mstream) (ret t)))"

definition SerializeUnsigned :: "tx \<Rightarrow> (stream, unit) m" where
  "SerializeUnsigned t =
     sq (WriteByte (case tx_exclusive t of OtherTransaction ty \<Rightarrow> PInt ty | d \<Rightarrow> PBytes [word_of_int (TransactionType d)]))
       (sq (WriteByte (PInt (Version t)))
       (sq (SerializeExclusiveData (Version t) (tx_exclusive t))
         (if MAX_TX_ATTRIBUTES < int (length (Attributes t)) then throw PlainException
          else sq (WriteSerializableArray attr_Serialize (Attributes t))
            (sq (WriteSerializableArray cr_Serialize (tx_inputs t))
              (WriteSerializableArray out_Serialize (tx_outputs t))))))"

definition tx_Serialize :: "tx \<Rightarrow> (stream, unit) m" where
  "tx_Serialize t = sq (SerializeUnsigned t) (WriteSerializableArray wit_Serialize (tx_scripts t))"

text \<open>The hash of the unsigned part; its text is taken back to bytes first.\<close>

definition tx_GetHashData :: "tx \<Rightarrow> (stream_manager, bytes) m" where
  "tx_GetHashData t = helper_GetHashData SerializeUnsigned t"

definition tx_Hash :: "primitives \<Rightarrow> tx \<Rightarrow> (stream_manager, uint) m" where
  "tx_Hash c t =
     bnd (tx_GetHashData t) (\<lambda>h.
       case unhexlify h of
         None \<Rightarrow> throw ValueError
       | Some ba \<Rightarrow> lft (UInt256 (Some (Hash256 c ba))))"

section \<open>Sizes\<close>

definition GetVarSize_checked :: "('a \<Rightarrow> pyexc + int) \<Rightarrow> 'a list \<Rightarrow> pyexc + int" where
  "GetVarSize_checked sz xs =
     ebind (emap sz xs) (\<lambda>ns. Inr (GetVarSize_int (int (length xs)) + sum_list ns))"

definition base_tx_Size :: "tx \<Rightarrow> pyexc + int" where
  "base_tx_Size t =
     ebind (GetVarSize_checked attr_Size (Attributes t)) (\<lambda>attrs.
       Inr (1 + 1 + attrs + GetVarSize_items cr_Size (tx_inputs t) + GetVarSize_items out_Size (tx_outputs t) +
            GetVarSize_items wit_Size (tx_scripts t)))"

text \<open>What each subclass adds to the size \<open>n\<close> of its base.\<close>

definition miner_Size :: "int \<Rightarrow> int" where
  "miner_Size n = n + 4"

definition claim_Size :: "coin_reference list \<Rightarrow> int \<Rightarrow> int" where
  "claim_Size claims n = n + GetVarSize_items cr_Size claims"

definition enrollment_Size :: "ec_point \<Rightarrow> int \<Rightarrow> int" where
  "enrollment_Size key n = n + ec_Size secp256r1_curve key"

definition register_Size :: "register_data \<Rightarrow> int \<Rightarrow> pyexc + int" where
  "register_Size r n =
     ebind (GetVarSize_name (rg_Name r)) (\<lambda>name.
       Inr (n + 2 * 1 + name + fx_Size (rg_Amount r) + ec_Size secp256r1_curve (rg_Owner r) + uint_Size (rg_Admin r)))"

definition state_Size :: "state_descriptor list \<Rightarrow> int \<Rightarrow> pyexc + int" where
  "state_Size ds n = ebind (GetVarSize_checked sd_Size ds) (\<lambda>k. Inr (n + k))"

definition publish_Size :: "publish_data \<Rightarrow> int \<Rightarrow> pyexc + int" where
  "publish_Size p n =
     ebind (emap GetVarSize_name [pb_Name p, pb_CodeVersion p, pb_Author p, pb_Email p, pb_Description p]) (\<lambda>ns.
       Inr (n + GetVarSize_bytes (fc_Script (pb_Code p)) + GetVarSize_bytes (fc_ParameterList (pb_Code p)) + 1 +
            sum_list ns))"

definition invocation_Size :: "int \<Rightarrow> bytes \<Rightarrow> int \<Rightarrow> int" where
  "invocation_Size version scr n = n + GetVarSize_bytes scr + (if 1 \<le> version then 8 else 0)"

lemmas type_size_defs = miner_Size_def claim_Size_def enrollment_Size_def register_Size_def state_Size_def
  publish_Size_def invocation_Size_def

definition tx_Size :: "tx \<Rightarrow> pyexc + int" where
  "tx_Size t =
     ebind (base_tx_Size t) (\<lambda>n.
       case tx_exclusive t of
         MinerTransaction _ \<Rightarrow> Inr (miner_Size n)
       | IssueTransaction \<Rightarrow> Inr n
       | ClaimTransaction claims \<Rightarrow> Inr (claim_Size claims n)
       | EnrollmentTransaction key \<Rightarrow> Inr (enrollment_Size key n)
       | RegisterTransaction r \<Rightarrow> register_Size r n
       | ContractTransaction \<Rightarrow> Inr n
       | StateTransaction ds \<Rightarrow> state_Size ds n
       | PublishTransaction p \<Rightarrow> publish_Size p n
       | InvocationTransaction scr gas \<Rightarrow> Inr (invocation_Size (Version t) scr n)
       | OtherTransaction _ \<Rightarrow> Inr n)"

section \<open>Fees and results\<close>

text \<open>
  \<open>groupby\<close> groups neighbours only. The dictionary of references keeps one output for equal inputs:
  the last, at the place of the first.
\<close>

function group_by :: "('a \<Rightarrow> 'a \<Rightarrow> bool) \<Rightarrow> 'a list \<Rightarrow> ('a \<times> 'a list) list" where
  "group_by eqv [] = []"
| "group_by eqv (x # xs) = (x, x # takeWhile (eqv x) xs) # group_by eqv (dropWhile (eqv x) xs)"
  by pat_completeness auto
termination
  by (relation "measure (\<lambda>(_, xs). length xs)") (auto simp: le_imp_less_Suc length_dropWhile_le)

fun ref_put :: "coin_reference \<Rightarrow> tx_output \<Rightarrow> (coin_reference \<times> tx_output) list \<Rightarrow> (coin_reference \<times> tx_output) list" where
  "ref_put k v [] = [(k, v)]"
| "ref_put k v ((l, w) # d) = (if cr_Equals l k then (l, v) # d else (l, w) # ref_put k v d)"

fun put_refs :: "tx_output list \<Rightarrow> coin_reference list \<Rightarrow> (coin_reference \<times> tx_output) list \<Rightarrow> pyexc + (coin_reference \<times> tx_output) list" where
  "put_refs outs [] d = Inr d"
| "put_refs outs (i # ks) d = ebind (py_nth (PrevIndex i) outs) (\<lambda>out. put_refs outs ks (ref_put i out d))"

fun references_of :: "(uint \<Rightarrow> tx option) \<Rightarrow> (coin_reference \<times> coin_reference list) list \<Rightarrow>
    (coin_reference \<times> tx_output) list \<Rightarrow> pyexc + (coin_reference \<times> tx_output) list" where
  "references_of lookup [] d = Inr d"
| "references_of lookup ((h, grp) # gs) d =
     (case lookup (PrevHash h) of
        None \<Rightarrow> references_of lookup gs d
      | Some t \<Rightarrow> ebind (put_refs (tx_outputs t) grp d) (references_of lookup gs))"

definition References :: "(uint \<Rightarrow> tx option) \<Rightarrow> tx \<Rightarrow> pyexc + (coin_reference \<times> tx_output) list" where
  "References lookup t =
     references_of lookup (group_by (\<lambda>r q. uint_eq (PrevHash r) (PrevHash q)) (tx_inputs t)) []"

text \<open>
  What the settings and the ledger give for fees: \<open>ALL_FEES\<close> by type, the hashes of the system coin
  and share, the transactions by hash.
\<close>

record fee_env =
  ALL_FEES :: "int \<Rightarrow> int option"
  SystemCoin_Hash :: uint
  SystemShare_Hash :: uint
  GetTransaction :: "uint \<Rightarrow> tx option"

definition base_SystemFee :: "fee_env \<Rightarrow> tx \<Rightarrow> fixed8" where
  "base_SystemFee g t =
     fx_FromDecimal_int (case ALL_FEES g (tx_Type t) of None \<Rightarrow> 0 | Some fee \<Rightarrow> fee)"

fun sum_descriptor_fees :: "fixed8 \<Rightarrow> state_descriptor list \<Rightarrow> pyexc + fixed8" where
  "sum_descriptor_fees amount [] = Inr amount"
| "sum_descriptor_fees amount (d # ds) =
     ebind (sd_SystemFee d) (\<lambda>fee. sum_descriptor_fees (fx_add amount fee) ds)"

definition issue_SystemFee :: "fee_env \<Rightarrow> tx \<Rightarrow> fixed8" where
  "issue_SystemFee g t =
     (if 1 \<le> Version t then fx_Zero
      else if list_all (\<lambda>out. uint_eq (AssetId out) (SystemCoin_Hash g) \<or> uint_eq (AssetId out) (SystemShare_Hash g)) (tx_outputs t)
      then fx_Zero
      else base_SystemFee g t)"

definition register_SystemFee :: "fee_env \<Rightarrow> register_data \<Rightarrow> tx \<Rightarrow> fixed8" where
  "register_SystemFee g r t =
     (if rg_AssetType r = AT_GoverningToken \<or> rg_AssetType r = AT_UtilityToken then fx_Zero
      else base_SystemFee g t)"

definition state_SystemFee :: "state_descriptor list \<Rightarrow> pyexc + fixed8" where
  "state_SystemFee ds = sum_descriptor_fees fx_Zero ds"

definition SystemFee :: "fee_env \<Rightarrow> tx \<Rightarrow> pyexc + fixed8" where
  "SystemFee g t =
     (case tx_exclusive t of
        InvocationTransaction scr gas \<Rightarrow> Inr gas
      | IssueTransaction \<Rightarrow> Inr (issue_SystemFee g t)
      | RegisterTransaction r \<Rightarrow> Inr (register_SystemFee g r t)
      | StateTransaction ds \<Rightarrow> state_SystemFee ds
      | _ \<Rightarrow> Inr (base_SystemFee g t))"

definition sum_coin :: "fee_env \<Rightarrow> tx_output list \<Rightarrow> fixed8" where
  "sum_coin g outs =
     foldl (\<lambda>acc out. if uint_eq (AssetId out) (SystemCoin_Hash g) then fx_add acc (Value out) else acc) (Fixed8 0) outs"

definition NetworkFee :: "fee_env \<Rightarrow> tx \<Rightarrow> pyexc + fixed8" where
  "NetworkFee g t =
     (case tx_exclusive t of
        MinerTransaction _ \<Rightarrow> Inr (Fixed8 0)
      | ClaimTransaction _ \<Rightarrow> Inr (Fixed8 0)
      | _ \<Rightarrow>
        ebind (References (GetTransaction g) t) (\<lambda>refs.
          let input = sum_coin g (map snd refs); output = sum_coin g (tx_outputs t)
          in ebind (SystemFee g t) (\<lambda>fee. Inr (fx_sub (fx_sub input output) fee))))"

record tx_result =
  res_AssetId :: uint
  res_Amount :: fixed8

definition sum_results :: "tx_result list \<Rightarrow> fixed8" where
  "sum_results rs = foldl (\<lambda>acc r. fx_add acc (res_Amount r)) (Fixed8 0) rs"

definition GetTransactionResults :: "(uint \<Rightarrow> tx option) \<Rightarrow> tx \<Rightarrow> pyexc + tx_result list" where
  "GetTransactionResults lookup t =
     ebind (References lookup t) (\<lambda>refs.
       let results =
             map (\<lambda>(_, out). \<lparr>res_AssetId = AssetId out, res_Amount = Value out\<rparr>) refs @
             map (\<lambda>out. \<lparr>res_AssetId = AssetId out, res_Amount = fx_mul (Value out) (Fixed8 (- 1))\<rparr>) (tx_outputs t);
           groups = group_by (\<lambda>r q. uint_eq (res_AssetId r) (res_AssetId q)) results
       in Inr (map (\<lambda>(k, grp). \<lparr>res_AssetId = res_AssetId k, res_Amount = sum_results grp\<rparr>)
                (filter (\<lambda>(k, grp). sum_results grp \<noteq> fx_Zero) groups)))"

section \<open>The policy of fees\<close>

definition MAX_FREE_TX_SIZE :: int where "MAX_FREE_TX_SIZE = 1024"

text \<open>\<open>FEE_PER_EXTRA_BYTE\<close> is the float 0.00001, \<open>LOW_PRIORITY_THRESHOLD\<close> 0.001 as an amount.\<close>

definition FEE_PER_EXTRA_BYTE :: "pyexc + dyadic" where
  "FEE_PER_EXTRA_BYTE = int_truediv 1 100000"

definition LOW_PRIORITY_THRESHOLD :: fixed8 where
  "LOW_PRIORITY_THRESHOLD = Fixed8 100000"

definition required_fee :: "int \<Rightarrow> pyexc + fixed8" where
  "required_fee sz =
     ebind FEE_PER_EXTRA_BYTE (\<lambda>f.
     ebind (float_mul_int f (sz - MAX_FREE_TX_SIZE)) (\<lambda>x.
     ebind (fx_FromDecimal x) (\<lambda>fee.
       Inr (if fee < LOW_PRIORITY_THRESHOLD then LOW_PRIORITY_THRESHOLD else fee))))"

definition validate_simple_policy :: "fee_env \<Rightarrow> tx \<Rightarrow> pyexc + bool" where
  "validate_simple_policy g t =
     ebind (tx_Size t) (\<lambda>sz.
       if MAX_TX_SIZE < sz then Inr False
       else ebind (NetworkFee g t) (\<lambda>fee.
         if MAX_FREE_TX_SIZE < sz \<and> tx_Type t \<noteq> 0x02 then
           ebind (required_fee sz) (\<lambda>req_fee. Inr (\<not> fee < req_fee))
         else Inr True))"

text \<open>\<open>Transaction.Verify\<close>; the witnesses are checked last (\<open>verify_witnesses\<close>).\<close>

definition base_Verify :: "fee_env \<Rightarrow> (tx \<Rightarrow> pyexc + bool) \<Rightarrow> tx \<Rightarrow> pyexc + bool" where
  "base_Verify g verify_witnesses t =
     ebind (tx_Size t) (\<lambda>sz.
       if MAX_TX_SIZE < sz then Inr False
       else ebind (NetworkFee g t) (\<lambda>fee.
         ebind (if MAX_FREE_TX_SIZE < sz \<and> tx_Type t \<noteq> 0x02
                then ebind (required_fee sz) (\<lambda>req_fee. Inr (fee < req_fee)) else Inr False) (\<lambda>short.
           if short then Inr False else verify_witnesses t)))"

fun verify_descriptors :: "state_descriptor list \<Rightarrow> pyexc + bool" where
  "verify_descriptors [] = Inr True"
| "verify_descriptors (d # ds) = ebind (sd_Verify d) (\<lambda>b. if \<not> b then Inr False else verify_descriptors ds)"

definition state_Verify :: "fee_env \<Rightarrow> (tx \<Rightarrow> pyexc + bool) \<Rightarrow> state_descriptor list \<Rightarrow> tx \<Rightarrow> pyexc + bool" where
  "state_Verify g verify_witnesses ds t =
     ebind (verify_descriptors ds) (\<lambda>b. if \<not> b then Inr False else base_Verify g verify_witnesses t)"

definition invocation_Verify :: "fee_env \<Rightarrow> (tx \<Rightarrow> pyexc + bool) \<Rightarrow> fixed8 \<Rightarrow> tx \<Rightarrow> pyexc + bool" where
  "invocation_Verify g verify_witnesses gas t =
     (if fx_value gas mod 100000000 \<noteq> 0 then Inr False else base_Verify g verify_witnesses t)"

text \<open>
  \<open>ClaimTransaction.Verify\<close>: no transaction of the pool is the class itself (\<open>tx is
  ClaimTransaction\<close>), so no other claim is looked at. The bonus is \<open>CalculateBonusIgnoreClaimed\<close>,
  whose exceptions are caught.
\<close>

definition claim_Verify ::
  "fee_env \<Rightarrow> (tx \<Rightarrow> pyexc + bool) \<Rightarrow> (coin_reference list \<Rightarrow> pyexc + fixed8) \<Rightarrow> coin_reference list \<Rightarrow> tx \<Rightarrow> pyexc + bool" where
  "claim_Verify g verify_witnesses bonus claims t =
     ebind (base_Verify g verify_witnesses t) (\<lambda>b.
       if \<not> b then Inr False
       else ebind (GetTransactionResults (GetTransaction g) t) (\<lambda>results.
         case find (\<lambda>r. uint_eq (res_AssetId r) (SystemCoin_Hash g)) results of
           None \<Rightarrow> Inr False
         | Some r \<Rightarrow>
             if Fixed8 0 < res_Amount r then Inr False
             else (case bonus claims of
                     Inl _ \<Rightarrow> Inr False
                   | Inr amount \<Rightarrow> Inr (amount = fx_neg (res_Amount r)))))"

end
