(* ===== verification/Transaction_Codecs.thy ===== *)
theory Transaction_Codecs
  imports Transactions
begin

text \<open>
  The formats of transactions, put together from those of their parts: witnesses, references,
  outputs, attributes, and the data of each type are instances of the locale \<open>codec\<close>, and so is the
  transaction, which its reader finds again from the type byte.
\<close>

section \<open>Parts\<close>

definition wit_enc :: "witness \<Rightarrow> bytes" where
  "wit_enc w = var_bytes (InvocationScript w) @ var_bytes (VerificationScript w)"

definition wit_ok :: "witness \<Rightarrow> bool" where
  "wit_ok w \<longleftrightarrow> int (length (InvocationScript w)) \<le> maxsize \<and> int (length (VerificationScript w)) \<le> maxsize"

interpretation witness_codec: codec wit_Serialize wit_Deserialize wit_enc wit_ok
proof
  fix w assume "wit_ok w"
  then have f: "int (length (InvocationScript w)) \<le> maxsize" "int (length (VerificationScript w)) \<le> maxsize"
    by (simp_all add: wit_ok_def)
  show "emits (wit_Serialize w) (wit_enc w) ()"
    unfolding wit_Serialize_def wit_enc_def by (rule emits_step f)+
  show "reads wit_Deserialize (wit_enc w) w"
    unfolding wit_Deserialize_def wit_enc_def by (rule reads_step f | (cases w; simp; fail))+
qed

definition cr_enc :: "coin_reference \<Rightarrow> bytes" where
  "cr_enc r = Data (PrevHash r) @ int_bytes 2 (PrevIndex r)"

definition cr_ok :: "coin_reference \<Rightarrow> bool" where
  "cr_ok r \<longleftrightarrow> uint_ok 32 (PrevHash r) \<and> 0 \<le> PrevIndex r \<and> PrevIndex r < 2 ^ 16"

interpretation reference_codec: codec cr_Serialize cr_Deserialize cr_enc cr_ok
proof
  fix r assume "cr_ok r"
  then have f: "uint_ok 32 (PrevHash r)" "0 \<le> PrevIndex r" "PrevIndex r < 2 ^ 16" by (simp_all add: cr_ok_def)
  show "emits (cr_Serialize r) (cr_enc r) ()"
    unfolding cr_Serialize_def cr_enc_def by (rule emits_step f)+
  show "reads cr_Deserialize (cr_enc r) r"
    unfolding cr_Deserialize_def cr_enc_def by (rule reads_step f | (cases r; simp; fail))+
qed

definition out_enc :: "tx_output \<Rightarrow> bytes" where
  "out_enc out = Data (AssetId out) @ fixed8_bytes (Value out) @ Data (ScriptHash out)"

definition out_ok :: "tx_output \<Rightarrow> bool" where
  "out_ok out \<longleftrightarrow> uint_ok 32 (AssetId out) \<and> fixed8_ok (Value out) \<and> uint_ok 20 (ScriptHash out)"

interpretation output_codec: codec out_Serialize out_Deserialize out_enc out_ok
proof
  fix out assume "out_ok out"
  then have f: "uint_ok 32 (AssetId out)" "fixed8_ok (Value out)" "uint_ok 20 (ScriptHash out)"
    by (simp_all add: out_ok_def)
  show "emits (out_Serialize out) (out_enc out) ()"
    unfolding out_Serialize_def out_enc_def by (rule emits_step f)+
  show "reads out_Deserialize (out_enc out) out"
    unfolding out_Deserialize_def out_enc_def by (rule reads_step f | (cases out; simp; fail))+
qed

section \<open>Attributes\<close>

text \<open>
  An attribute comes back when its data has the length of its usage and is not hexadecimal text.
  Those of the usages ECDH02 and ECDH03 never do, and those of a usage the class does not know have
  no data.
\<close>

definition attr_ok :: "tx_attribute \<Rightarrow> bool" where
  "attr_ok a \<longleftrightarrow> 0 \<le> Usage a \<and> Usage a < 256 \<and>
     (case attr_Data a of
        AttrBytes d \<Rightarrow>
          if is_hash_usage (Usage a) then length d = 32 \<and> unhexlify d = None
          else if Usage a = AU_Script then length d = 20 \<and> unhexlify d = None
          else if Usage a = AU_DescriptionUrl then length d \<le> 252
          else is_text_usage (Usage a) \<and> length d \<le> 65535
      | AttrUInt _ \<Rightarrow> False | AttrNone \<Rightarrow> False)"

definition attr_bytes :: "tx_attribute \<Rightarrow> bytes" where
  "attr_bytes a = (case attr_Data a of AttrBytes d \<Rightarrow> d | AttrUInt u \<Rightarrow> Data u | AttrNone \<Rightarrow> [])"

definition attr_enc :: "tx_attribute \<Rightarrow> bytes" where
  "attr_enc a = [word_of_int (Usage a)] @
     (if is_hash_usage (Usage a) \<or> Usage a = AU_Script then attr_bytes a else var_bytes (attr_bytes a))"

lemmas usage_defs = is_hash_usage_def is_ecdh_usage_def is_text_usage_def AU_ContractHash_def AU_ECDH02_def
  AU_ECDH03_def AU_Script_def AU_Vote_def AU_DescriptionUrl_def AU_Description_def AU_Hash1_def
  AU_Hash15_def AU_Remark_def

lemma attr_cases:
  assumes "attr_ok a"
  obtains (hash) d where "a = \<lparr>Usage = Usage a, attr_Data = AttrBytes d\<rparr>" "is_hash_usage (Usage a)"
      "\<not> is_ecdh_usage (Usage a)" "length d = 32" "unhexlify d = None"
    | (script) d where "a = \<lparr>Usage = Usage a, attr_Data = AttrBytes d\<rparr>" "Usage a = AU_Script"
      "length d = 20" "unhexlify d = None"
    | (url) d where "a = \<lparr>Usage = Usage a, attr_Data = AttrBytes d\<rparr>" "Usage a = AU_DescriptionUrl" "length d \<le> 252"
    | (textual) d where "a = \<lparr>Usage = Usage a, attr_Data = AttrBytes d\<rparr>" "is_text_usage (Usage a)"
      "\<not> is_hash_usage (Usage a)" "\<not> is_ecdh_usage (Usage a)" "Usage a \<noteq> AU_Script" "Usage a \<noteq> AU_DescriptionUrl"
      "length d \<le> 65535"
proof -
  obtain d where d: "attr_Data a = AttrBytes d" using assms by (auto simp: attr_ok_def split: attr_data.splits)
  then have a: "a = \<lparr>Usage = Usage a, attr_Data = AttrBytes d\<rparr>" by simp
  have h: "is_hash_usage u \<Longrightarrow> \<not> is_ecdh_usage u" "is_text_usage u \<Longrightarrow> \<not> is_ecdh_usage u" for u
    by (auto simp: usage_defs)
  show ?thesis
    using assms d hash [OF a] script [OF a] url [OF a] textual [OF a] h
    by (auto simp: attr_ok_def split: if_splits)
qed

lemma attr_emits:
  assumes "attr_ok a"
  shows "emits (attr_Serialize a) (attr_enc a) ()"
proof -
  have u: "0 \<le> Usage a" "Usage a < 256" using assms by (simp_all add: attr_ok_def)
  have w: "emits (sq (WriteBytes d) (ret ())) d ()" if "unhexlify d = None" for d
    using emits_sq_ret [OF emits_WriteBytes [OF that]] .
  have v: "emits (WriteVarString (PBytes d)) (var_bytes d) ()" if "length d \<le> 65535" for d
    using that by (intro emits_intros) (simp add: maxsize_def)
  have body: "emits (attr_Serialize a) ([word_of_int (Usage a)] @ bs) ()"
    if "attr_Data a = AttrBytes d" "length d \<le> 65535" and "emits (
          if is_hash_usage (Usage a) then sq (WriteBytes d) (ret ())
          else if is_ecdh_usage (Usage a) then sq (WriteBytes (py_slice 1 33 d)) (ret ())
          else if Usage a = AU_Script then sq (WriteBytes d) (ret ())
          else if Usage a = AU_DescriptionUrl then WriteVarString (PBytes d)
          else if is_text_usage (Usage a) then WriteVarString (PBytes d)
          else ret ()) bs ()" for d bs
  proof -
    have "emits (bnd (ret d) (\<lambda>d. if MAX_ATTR_DATA_SIZE < int (length d) then throw PlainException
          else if is_hash_usage (Usage a) then sq (WriteBytes d) (ret ())
          else if is_ecdh_usage (Usage a) then sq (WriteBytes (py_slice 1 33 d)) (ret ())
          else if Usage a = AU_Script then sq (WriteBytes d) (ret ())
          else if Usage a = AU_DescriptionUrl then WriteVarString (PBytes d)
          else if is_text_usage (Usage a) then WriteVarString (PBytes d)
          else ret ())) bs ()"
      using that(2,3) by (simp add: bnd_def ret_def MAX_ATTR_DATA_SIZE_def emits_def)
    then show ?thesis
      unfolding attr_Serialize_def that(1) attr_data.case by (rule emits_sq [OF emits_WriteByte [OF u]])
  qed
  show ?thesis
    using assms
  proof (cases rule: attr_cases)
    case (hash d)
    then have "attr_Data a = AttrBytes d" by (metis tx_attribute.select_convs(2))
    with hash body [of d d] w show ?thesis by (simp add: attr_enc_def attr_bytes_def)
  next
    case (script d)
    then have "attr_Data a = AttrBytes d" by (metis tx_attribute.select_convs(2))
    with script body [of d d] w show ?thesis by (simp add: attr_enc_def attr_bytes_def usage_defs)
  next
    case (url d)
    then have "attr_Data a = AttrBytes d" by (metis tx_attribute.select_convs(2))
    with url body [of d "var_bytes d"] v show ?thesis by (simp add: attr_enc_def attr_bytes_def usage_defs)
  next
    case (textual d)
    then have "attr_Data a = AttrBytes d" by (metis tx_attribute.select_convs(2))
    with textual body [of d "var_bytes d"] v show ?thesis by (simp add: attr_enc_def attr_bytes_def)
  qed
qed

lemma reads_exactly: "length d = k \<Longrightarrow> k \<le> 1000 \<Longrightarrow> reads (ReadBytes (int k)) d d"
  unfolding ReadBytes_def by (rule reads_read) (simp_all add: maxsize_def)

lemma reads_counted:
  assumes "length d \<le> 252"
  shows "reads (bnd read_ord (\<lambda>n. bnd (ReadBytes n) (\<lambda>d. ret (AttrBytes d)))) (var_bytes d) (AttrBytes d)"
proof -
  have "var_bytes d = [word_of_int (int (length d))] @ d"
    using assms by (simp add: var_bytes_def var_int_def int_bytes_1)
  moreover have "reads (bnd (ReadBytes (int (length d))) (\<lambda>d. ret (AttrBytes d))) d (AttrBytes d)"
    using assms by (intro reads_bnd_ret [OF reads_exactly [OF refl]]) simp_all
  ultimately show ?thesis
    using reads_bnd [OF reads_read_ord [of "int (length d)"]] assms by simp
qed

lemma attr_reads:
  assumes "attr_ok a"
  shows "reads attr_Deserialize (attr_enc a) a"
proof -
  have u: "0 \<le> Usage a" "Usage a < 256" using assms by (simp_all add: attr_ok_def)
  have body: "reads attr_Deserialize ([word_of_int (Usage a)] @ bs) a"
    if "a = \<lparr>Usage = Usage a, attr_Data = d\<rparr>" and "reads (
          if is_hash_usage (Usage a) then bnd (ReadBytes 32) (\<lambda>d. ret (AttrBytes d))
          else if is_ecdh_usage (Usage a) then
            bnd (ReadBytes 32) (\<lambda>d. ret (AttrBytes (replicate (nat (Usage a)) 0 @ d)))
          else if Usage a = AU_Script then bnd (ReadBytes 20) (\<lambda>d. ret (AttrBytes d))
          else if Usage a = AU_DescriptionUrl then
            bnd read_ord (\<lambda>n. bnd (ReadBytes n) (\<lambda>d. ret (AttrBytes d)))
          else if is_text_usage (Usage a) then
            bnd (ReadVarBytes MAX_ATTR_DATA_SIZE) (\<lambda>d. ret (AttrBytes d))
          else ret AttrNone) bs d" for d bs
    unfolding attr_Deserialize_def
    by (rule reads_bnd [OF reads_read_ord [OF u]], rule reads_bnd_ret [OF that(2)], rule that(1))
  have b: "reads (bnd (ReadBytes (int k)) (\<lambda>d. ret (AttrBytes d))) d (AttrBytes d)" if "length d = k" "k \<le> 1000" for d k
    using that by (intro reads_bnd_ret [OF reads_exactly]) simp_all
  show ?thesis
    using assms
  proof (cases rule: attr_cases)
    case (hash d)
    then have "attr_Data a = AttrBytes d" by (metis tx_attribute.select_convs(2))
    then show ?thesis using body [OF hash(1), of d] hash b [OF hash(4)] by (simp add: attr_enc_def attr_bytes_def)
  next
    case (script d)
    then have "attr_Data a = AttrBytes d" by (metis tx_attribute.select_convs(2))
    then show ?thesis
      using body [OF script(1), of d] script b [OF script(3)] by (simp add: attr_enc_def attr_bytes_def usage_defs)
  next
    case (url d)
    then have "attr_Data a = AttrBytes d" by (metis tx_attribute.select_convs(2))
    then show ?thesis
      using body [OF url(1), of "var_bytes d"] url reads_counted [OF url(3)]
      by (simp add: attr_enc_def attr_bytes_def usage_defs)
  next
    case (textual d)
    then have "attr_Data a = AttrBytes d" by (metis tx_attribute.select_convs(2))
    moreover have "reads (bnd (ReadVarBytes MAX_ATTR_DATA_SIZE) (\<lambda>d. ret (AttrBytes d))) (var_bytes d) (AttrBytes d)"
      using textual(7) by (intro reads_bnd_ret [OF reads_ReadVarBytes]) (simp_all add: MAX_ATTR_DATA_SIZE_def maxsize_def)
    ultimately show ?thesis
      using body [OF textual(1), of "var_bytes d"] textual by (simp add: attr_enc_def attr_bytes_def)
  qed
qed

interpretation attribute_codec: codec attr_Serialize attr_Deserialize attr_enc attr_ok
  by unfold_locales (rule attr_emits attr_reads, assumption)+


section \<open>The data of each type\<close>

definition text_ok :: "io_value \<Rightarrow> bool" where
  "text_ok v = (case v of PBytes bs \<Rightarrow> int (length bs) \<le> maxsize | _ \<Rightarrow> False)"

definition text_enc :: "io_value \<Rightarrow> bytes" where
  "text_enc v = (case v of PBytes bs \<Rightarrow> var_bytes bs | _ \<Rightarrow> [])"

lemma emits_text: "text_ok v \<Longrightarrow> emits (WriteVarString v) (text_enc v) ()"
  by (cases v) (simp_all add: text_ok_def text_enc_def emits_WriteVarString_PBytes)

text \<open>A reader that takes the bytes of a text and goes on with them.\<close>

lemma reads_text:
  assumes "text_ok v" "\<And>bs. v = PBytes bs \<Longrightarrow> reads (f bs) cs y"
  shows "reads (bnd (ReadVarString maxsize) f) (text_enc v @ cs) y"
  using assms
  by (cases v) (auto simp: text_ok_def text_enc_def intro!: reads_bnd [OF reads_ReadVarString])

lemma reads_text_last:
  assumes "text_ok v" "\<And>bs. v = PBytes bs \<Longrightarrow> y = g bs"
  shows "reads (bnd (ReadVarString maxsize) (\<lambda>bs. ret (g bs))) (text_enc v) y"
  using reads_text [of v "\<lambda>bs. ret (g bs)" "[]" y] assms reads_ret by fastforce

definition rg_enc :: "register_data \<Rightarrow> bytes" where
  "rg_enc r = [word_of_int (rg_AssetType r)] @ text_enc (rg_Name r) @ fixed8_bytes (rg_Amount r) @
     [word_of_int (rg_Precision r)] @ ec_bytes secp256r1_curve (rg_Owner r) @ Data (rg_Admin r)"

definition rg_ok :: "register_data \<Rightarrow> bool" where
  "rg_ok r \<longleftrightarrow> 0 \<le> rg_AssetType r \<and> rg_AssetType r < 256 \<and> text_ok (rg_Name r) \<and> fixed8_ok (rg_Amount r) \<and>
     0 \<le> rg_Precision r \<and> rg_Precision r < 256 \<and> ec_ok secp256r1_curve (rg_Owner r) \<and> uint_ok 20 (rg_Admin r)"

lemma register_codec:
  assumes "rg_ok r"
  shows "emits (register_Serialize r) (rg_enc r) ()" "reads register_Deserialize (rg_enc r) (RegisterTransaction r)"
proof -
  have f: "0 \<le> rg_AssetType r" "rg_AssetType r < 256" "text_ok (rg_Name r)" "fixed8_ok (rg_Amount r)"
      "0 \<le> rg_Precision r" "rg_Precision r < 256" "ec_ok secp256r1_curve (rg_Owner r)" "uint_ok 20 (rg_Admin r)"
    using assms by (simp_all add: rg_ok_def)
  show "emits (register_Serialize r) (rg_enc r) ()"
    unfolding register_Serialize_def rg_enc_def by (rule emits_text emits_owner emits_step f)+
  show "reads register_Deserialize (rg_enc r) (RegisterTransaction r)"
    unfolding register_Deserialize_def rg_enc_def
    by (rule reads_text reads_owner reads_step f | (cases r; simp; fail))+
qed

definition pb_enc :: "int \<Rightarrow> publish_data \<Rightarrow> bytes" where
  "pb_enc version p = fc_enc (pb_Code p) @ (if 1 \<le> version then [if pb_NeedStorage p then 1 else 0] else []) @
     text_enc (pb_Name p) @ text_enc (pb_CodeVersion p) @ text_enc (pb_Author p) @ text_enc (pb_Email p) @
     text_enc (pb_Description p)"

definition pb_ok :: "int \<Rightarrow> publish_data \<Rightarrow> bool" where
  "pb_ok version p \<longleftrightarrow> fc_ok (pb_Code p) \<and> (1 \<le> version \<or> \<not> pb_NeedStorage p) \<and> text_ok (pb_Name p) \<and>
     text_ok (pb_CodeVersion p) \<and> text_ok (pb_Author p) \<and> text_ok (pb_Email p) \<and> text_ok (pb_Description p)"

lemma publish_codec:
  assumes "pb_ok v p"
  shows "emits (publish_Serialize v p) (pb_enc v p) ()" "reads (publish_Deserialize v) (pb_enc v p) (PublishTransaction p)"
proof -
  have f: "fc_ok (pb_Code p)" "text_ok (pb_Name p)" "text_ok (pb_CodeVersion p)" "text_ok (pb_Author p)"
      "text_ok (pb_Email p)" "text_ok (pb_Description p)"
    using assms by (simp_all add: pb_ok_def)
  have s: "emits (if 1 \<le> v then sq (WriteBool (PBool (pb_NeedStorage p))) (ret ()) else ret ())
      (if 1 \<le> v then [if pb_NeedStorage p then 1 else 0] else []) ()"
    by (cases "1 \<le> v") (simp_all only: if_True if_False emits_ret emits_sq_ret [OF emits_WriteBool])
  have r: "reads (if 1 \<le> v then ReadBool else ret False)
      (if 1 \<le> v then [if pb_NeedStorage p then 1 else 0] else []) (pb_NeedStorage p)"
    using assms reads_ReadBool [of "pb_NeedStorage p"] by (auto simp: reads_ret pb_ok_def)
  show "emits (publish_Serialize v p) (pb_enc v p) ()"
    unfolding publish_Serialize_def pb_enc_def
    by (rule s emits_text function_code.ser_emits emits_sq f)+
  show "reads (publish_Deserialize v) (pb_enc v p) (PublishTransaction p)"
    unfolding publish_Deserialize_def pb_enc_def
    by (rule reads_text_last reads_text function_code.deser_reads r reads_bnd f | (cases p; simp; fail))+
qed

definition invocation_enc :: "int \<Rightarrow> bytes \<Rightarrow> fixed8 \<Rightarrow> bytes" where
  "invocation_enc v scr gas = var_bytes scr @ (if 1 \<le> v then fixed8_bytes gas else [])"

definition invocation_ok :: "int \<Rightarrow> bytes \<Rightarrow> fixed8 \<Rightarrow> bool" where
  "invocation_ok v scr gas \<longleftrightarrow> v \<le> 1 \<and> scr \<noteq> [] \<and> int (length scr) \<le> maxsize \<and>
     (if 1 \<le> v then fixed8_ok gas \<and> \<not> gas < fx_Zero else gas = Fixed8 0)"

lemma invocation_codec:
  assumes "invocation_ok v scr gas"
  shows "emits (invocation_Serialize v scr gas) (invocation_enc v scr gas) ()"
    "reads (invocation_Deserialize v) (invocation_enc v scr gas) (InvocationTransaction scr gas)"
proof -
  have f: "v \<le> 1" "scr \<noteq> []" "int (length scr) \<le> maxsize" using assms by (simp_all add: invocation_ok_def)
  have w: "emits (if 1 \<le> v then sq (WriteFixed8 gas) (ret ()) else ret ()) (if 1 \<le> v then fixed8_bytes gas else []) ()"
    using assms emits_sq_ret [OF emits_WriteFixed8, of gas] by (auto simp: invocation_ok_def emits_ret)
  show "emits (invocation_Serialize v scr gas) (invocation_enc v scr gas) ()"
    unfolding invocation_Serialize_def invocation_enc_def by (rule emits_sq w emits_intros f)+
  have r: "reads (if length scr = 0 then throw PlainException
        else if 1 \<le> v then bnd ReadFixed8 (\<lambda>gas. if gas < fx_Zero then throw PlainException else ret (InvocationTransaction scr gas))
        else ret (InvocationTransaction scr (Fixed8 0)))
      (if 1 \<le> v then fixed8_bytes gas else []) (InvocationTransaction scr gas)"
  proof (cases "1 \<le> v")
    case True
    then have g: "fixed8_ok gas" "\<not> gas < fx_Zero" using assms by (simp_all add: invocation_ok_def)
    have "reads (bnd ReadFixed8 (\<lambda>gas. if gas < fx_Zero then throw PlainException else ret (InvocationTransaction scr gas)))
        (fixed8_bytes gas @ []) (InvocationTransaction scr gas)"
      by (rule reads_bnd [OF reads_ReadFixed8 [OF g(1)]]) (simp add: g(2) reads_ret)
    then show ?thesis using True f(2) by simp
  next
    case False
    then show ?thesis using assms f(2) by (simp add: invocation_ok_def reads_ret)
  qed
  have "reads (bnd (ReadVarBytes maxsize) (\<lambda>scr. if length scr = 0 then throw PlainException
        else if 1 \<le> v then bnd ReadFixed8 (\<lambda>gas. if gas < fx_Zero then throw PlainException else ret (InvocationTransaction scr gas))
        else ret (InvocationTransaction scr (Fixed8 0)))) (invocation_enc v scr gas) (InvocationTransaction scr gas)"
    unfolding invocation_enc_def by (rule reads_bnd, rule reads_ReadVarBytes [OF f(3) f(3)], rule r)
  then show "reads (invocation_Deserialize v) (invocation_enc v scr gas) (InvocationTransaction scr gas)"
    using f(1) by (simp add: invocation_Deserialize_def)
qed

lemma miner_codec:
  assumes "0 \<le> nonce" "nonce < 2 ^ 32"
  shows "emits (miner_Serialize nonce) (int_bytes 4 nonce) ()" "reads miner_Deserialize (int_bytes 4 nonce) (MinerTransaction nonce)"
proof -
  have b: "to_bytes_u 4 nonce = Inr (int_bytes 4 nonce)" using assms by (simp add: to_bytes_u_def)
  show "emits (miner_Serialize nonce) (int_bytes 4 nonce) ()"
    unfolding miner_Serialize_def
    by (rule emits_bnd_lft [OF b], rule emits_sq_ret, rule emits_WriteBytes_hex [OF unhexlify_hexlify])
  show "reads miner_Deserialize (int_bytes 4 nonce) (MinerTransaction nonce)"
    unfolding miner_Deserialize_def by (rule reads_bnd_ret [OF reads_ReadUInt32 [OF assms]]) simp
qed

lemma claim_codec:
  assumes "array_ok cr_ok claims" "claims \<noteq> []"
  shows "emits (WriteSerializableArray cr_Serialize claims) (array_enc cr_enc claims) ()"
    "reads (claim_Deserialize 0) (array_enc cr_enc claims) (ClaimTransaction claims)"
proof -
  show "emits (WriteSerializableArray cr_Serialize claims) (array_enc cr_enc claims) ()"
    using assms(1) by (rule reference_codec.array_emits)
  have len: "int (length claims) \<le> maxsize" using assms(1) by (simp add: array_ok_def)
  have items: "reads (repeatm (nat (int (length claims))) cr_Deserialize) (concat (map cr_enc claims)) claims"
    by (rule reads_repeatm) (use assms(1) in \<open>auto simp: array_ok_def list_all_iff intro: reference_codec.deser_reads\<close>)
  have last: "reads (if length claims = 0 then throw PlainException else ret claims) [] claims"
    using assms(2) by (simp add: reads_ret)
  have "reads read_claims (var_int (int (length claims)) @ concat (map cr_enc claims) @ []) claims"
    unfolding read_claims_def
    by (rule reads_bnd [OF reads_ReadVarInt_length [OF len]], rule reads_bnd [OF items], rule last)
  then have "reads read_claims (array_enc cr_enc claims) claims" by (simp add: array_enc_def)
  from reads_bnd_ret [OF this refl]
  show "reads (claim_Deserialize 0) (array_enc cr_enc claims) (ClaimTransaction claims)"
    by (simp add: claim_Deserialize_def)
qed

definition exc_enc :: "int \<Rightarrow> tx_data \<Rightarrow> bytes" where
  "exc_enc v d = (case d of
       MinerTransaction nonce \<Rightarrow> int_bytes 4 nonce
     | IssueTransaction \<Rightarrow> []
     | ClaimTransaction claims \<Rightarrow> array_enc cr_enc claims
     | EnrollmentTransaction key \<Rightarrow> ec_bytes secp256r1_curve key
     | RegisterTransaction r \<Rightarrow> rg_enc r
     | ContractTransaction \<Rightarrow> []
     | StateTransaction ds \<Rightarrow> array_enc sd_enc ds
     | PublishTransaction p \<Rightarrow> pb_enc v p
     | InvocationTransaction scr gas \<Rightarrow> invocation_enc v scr gas
     | OtherTransaction t \<Rightarrow> [])"

definition exc_ok :: "int \<Rightarrow> tx_data \<Rightarrow> bool" where
  "exc_ok v d = (case d of
       MinerTransaction nonce \<Rightarrow> 0 \<le> nonce \<and> nonce < 2 ^ 32
     | IssueTransaction \<Rightarrow> v \<le> 1
     | ClaimTransaction claims \<Rightarrow> v = 0 \<and> array_ok cr_ok claims \<and> claims \<noteq> []
     | EnrollmentTransaction key \<Rightarrow> v = 0 \<and> ec_ok secp256r1_curve key
     | RegisterTransaction r \<Rightarrow> rg_ok r
     | ContractTransaction \<Rightarrow> True
     | StateTransaction ds \<Rightarrow> array_ok sd_ok ds
     | PublishTransaction p \<Rightarrow> pb_ok v p
     | InvocationTransaction scr gas \<Rightarrow> invocation_ok v scr gas
     | OtherTransaction t \<Rightarrow> 0 \<le> t \<and> t < 256 \<and> t \<notin> {0, 1, 2, 0x20, 0x40, 0x80, 0x90, 0xd0, 0xd1})"

lemma exc_emits: "exc_ok v d \<Longrightarrow> emits (SerializeExclusiveData v d) (exc_enc v d) ()"
  by (cases d)
     (auto simp: exc_ok_def exc_enc_def SerializeExclusiveData_def emits_ret miner_codec claim_codec emits_owner
       register_codec publish_codec invocation_codec descriptor.array_emits)

lemma exc_reads:
  assumes "exc_ok v d"
  shows "reads (DeserializeExclusiveData (TransactionType d) v) (exc_enc v d) d"
proof (cases d)
  case (EnrollmentTransaction key)
  then have k: "v = 0" "ec_ok secp256r1_curve key" using assms by (simp_all add: exc_ok_def)
  have "reads (bnd Deserialize_Secp256r1 (\<lambda>key. ret (EnrollmentTransaction key))) (ec_bytes secp256r1_curve key)
      (EnrollmentTransaction key)"
    by (rule reads_bnd_ret [OF reads_owner [OF k(2)]]) simp
  then show ?thesis
    using EnrollmentTransaction k
    by (simp add: DeserializeExclusiveData_def TransactionType_def exc_enc_def enrollment_Deserialize_def)
next
  case (StateTransaction ds)
  then have k: "array_ok sd_ok ds" using assms by (simp add: exc_ok_def)
  have len: "int (length ds) \<le> maxsize" using k by (simp add: array_ok_def)
  have "reads state_Deserialize (array_enc sd_enc ds) (StateTransaction ds)"
    unfolding state_Deserialize_def by (rule reads_bnd_ret [OF descriptor.array_reads [OF k len]]) simp
  then show ?thesis
    using StateTransaction by (simp add: DeserializeExclusiveData_def TransactionType_def exc_enc_def)
qed (use assms in \<open>auto simp: DeserializeExclusiveData_def TransactionType_def exc_enc_def exc_ok_def reads_ret
    miner_codec claim_codec register_codec publish_codec invocation_codec issue_Deserialize_def\<close>)

section \<open>Whole transactions\<close>

text \<open>
  What the reader of a whole transaction takes back: a version of one byte, at most sixteen
  attributes, and no input in a transaction of a miner.
\<close>

definition unsigned_ok :: "tx \<Rightarrow> bool" where
  "unsigned_ok t \<longleftrightarrow> 0 \<le> Version t \<and> Version t < 256 \<and> exc_ok (Version t) (tx_exclusive t) \<and>
     length (Attributes t) \<le> 16 \<and> array_ok attr_ok (Attributes t) \<and> array_ok cr_ok (tx_inputs t) \<and>
     array_ok out_ok (tx_outputs t)"

definition tx_ok :: "tx \<Rightarrow> bool" where
  "tx_ok t \<longleftrightarrow> unsigned_ok t \<and> array_ok wit_ok (tx_scripts t) \<and> OnDeserialized t = Inr ()"

definition unsigned_body :: "tx \<Rightarrow> bytes" where
  "unsigned_body t = [word_of_int (Version t)] @ exc_enc (Version t) (tx_exclusive t) @
     array_enc attr_enc (Attributes t) @ array_enc cr_enc (tx_inputs t) @ array_enc out_enc (tx_outputs t)"

definition unsigned_enc :: "tx \<Rightarrow> bytes" where
  "unsigned_enc t = [word_of_int (tx_Type t)] @ unsigned_body t"

definition tx_enc :: "tx \<Rightarrow> bytes" where
  "tx_enc t = unsigned_enc t @ array_enc wit_enc (tx_scripts t)"

lemma type_byte:
  assumes "exc_ok v d"
  shows "0 \<le> TransactionType d" "TransactionType d < 256"
  using assms by (cases d; simp add: TransactionType_def exc_ok_def)+

lemma emits_unsigned:
  assumes "unsigned_ok t"
  shows "emits (SerializeUnsigned t) (unsigned_enc t) ()"
proof -
  have f: "0 \<le> Version t" "Version t < 256" "exc_ok (Version t) (tx_exclusive t)"
      "array_ok attr_ok (Attributes t)" "array_ok cr_ok (tx_inputs t)" "array_ok out_ok (tx_outputs t)"
    using assms by (simp_all add: unsigned_ok_def)
  have few: "\<not> MAX_TX_ATTRIBUTES < int (length (Attributes t))"
    using assms by (simp add: unsigned_ok_def MAX_TX_ATTRIBUTES_def)
  have type: "emits (WriteByte (case tx_exclusive t of OtherTransaction ty \<Rightarrow> PInt ty
      | d \<Rightarrow> PBytes [word_of_int (TransactionType d)])) [word_of_int (tx_Type t)] ()"
    using f(3) by (cases "tx_exclusive t")
      (auto simp: tx_Type_def TransactionType_def exc_ok_def intro!: emits_WriteByte emits_WriteByte_bytes)
  show ?thesis
    unfolding SerializeUnsigned_def unsigned_enc_def unsigned_body_def if_not_P [OF few]
    by (rule type emits_WriteByte exc_emits attribute_codec.array_emits reference_codec.array_emits
          output_codec.array_emits emits_sq f)+
qed

lemma reads_unsigned_body:
  assumes "unsigned_ok t"
  shows "reads (DeserializeUnsignedWithoutType (tx_Type t)) (unsigned_body t) (t\<lparr>tx_scripts := []\<rparr>)"
proof -
  have f: "0 \<le> Version t" "Version t < 256" "exc_ok (Version t) (tx_exclusive t)"
      "array_ok attr_ok (Attributes t)" "array_ok cr_ok (tx_inputs t)" "array_ok out_ok (tx_outputs t)"
      "int (length (Attributes t)) \<le> MAX_TX_ATTRIBUTES" "int (length (tx_inputs t)) \<le> maxsize"
      "int (length (tx_outputs t)) \<le> maxsize"
    using assms by (simp_all add: unsigned_ok_def MAX_TX_ATTRIBUTES_def array_ok_def)
  show ?thesis
    unfolding DeserializeUnsignedWithoutType_def unsigned_body_def tx_Type_def
    by (rule reads_bnd, rule reads_read_ord [OF f(1,2)], rule reads_bnd, rule exc_reads [OF f(3)],
        rule reads_bnd, rule attribute_codec.array_reads [OF f(4,7)], rule reads_bnd,
        rule reference_codec.array_reads [OF f(5,8)], rule reads_bnd_ret,
        rule output_codec.array_reads [OF f(6,9)]) (cases t; simp)
qed

lemma emits_tx:
  assumes "tx_ok t"
  shows "emits (tx_Serialize t) (tx_enc t) ()"
  unfolding tx_Serialize_def tx_enc_def
  by (rule emits_sq [OF emits_unsigned witness_codec.array_emits]) (use assms in \<open>simp_all add: tx_ok_def\<close>)

lemma reads_tx:
  assumes "tx_ok t"
  shows "reads DeserializeFrom (tx_enc t) t"
proof -
  have f: "unsigned_ok t" "exc_ok (Version t) (tx_exclusive t)" "int (length (tx_scripts t)) \<le> maxsize"
      "list_all wit_ok (tx_scripts t)" "OnDeserialized t = Inr ()"
    using assms by (simp_all add: tx_ok_def unsigned_ok_def array_ok_def)
  have type: "0 \<le> tx_Type t" "tx_Type t < 256" using type_byte [OF f(2)] by (simp_all add: tx_Type_def)
  have last: "reads (let t' = (t\<lparr>tx_scripts := []\<rparr>)\<lparr>tx_scripts := tx_scripts t\<rparr> in bnd (lft (OnDeserialized t')) (\<lambda>_. ret t')) [] t"
    by (cases t) (use f(5) in \<open>auto intro: reads_bnd_lft_first reads_ret\<close>)
  have wits: "reads (if 0 < int (length (tx_scripts t)) then repeatm (nat (int (length (tx_scripts t)))) wit_Deserialize else ret [])
      (concat (map wit_enc (tx_scripts t))) (tx_scripts t)"
  proof (cases "tx_scripts t = []")
    case False
    have "reads (repeatm (nat (int (length (tx_scripts t)))) wit_Deserialize) (concat (map wit_enc (tx_scripts t))) (tx_scripts t)"
      by (rule reads_repeatm) (use f(4) in \<open>auto simp: list_all_iff intro: witness_codec.deser_reads\<close>)
    then show ?thesis using False by simp
  qed (simp add: reads_ret)
  have "reads DeserializeFrom ([word_of_int (tx_Type t)] @ unsigned_body t @ var_int (int (length (tx_scripts t))) @
      concat (map wit_enc (tx_scripts t)) @ []) t"
    unfolding DeserializeFrom_def
    by (rule reads_bnd, rule reads_read_ord [OF type], rule reads_bnd, rule reads_unsigned_body [OF f(1)],
        rule reads_bnd, rule reads_ReadVarInt_length [OF f(3)], rule reads_bnd, rule wits, rule last)
  then show ?thesis by (simp add: tx_enc_def unsigned_enc_def array_enc_def)
qed

interpretation transaction: codec tx_Serialize DeserializeFrom tx_enc tx_ok
  by unfold_locales (rule emits_tx reads_tx, assumption)+

end
