(* ===== verification/Transaction_Properties.thy ===== *)
theory Transaction_Properties
  imports Transaction_Codecs State_Properties
begin

text \<open>
  What transactions promise: a transaction that was written is read back, with the size it announces;
  what is hashed determines all but the witnesses; the results of a transaction are its inputs less
  its outputs, asset by asset. Samples of the types serve as instances, and the faults of the source
  that the model shows are stated at the end.
\<close>

section \<open>Sizes\<close>

lemma length_var_bytes_small:
  "int (length (var_bytes bs)) < 2 ^ 32 \<Longrightarrow> int (length (var_bytes bs)) = GetVarSize_bytes bs"
  by (rule length_var_bytes) (simp add: var_bytes_def)

text \<open>An array whose format is small has few items, as no item has an empty format.\<close>

lemma length_array_small:
  assumes "int (length (array_enc enc xs)) < 2 ^ 32" "\<And>x. x \<in> set xs \<Longrightarrow> enc x \<noteq> []"
  shows "int (length xs) < 2 ^ 32"
proof -
  have "length xs \<le> length (concat (map enc xs))"
    using assms(2)
  proof (induction xs)
    case (Cons x xs)
    then have "length xs \<le> length (concat (map enc xs))" "enc x \<noteq> []" by simp_all
    then show ?case by (cases "enc x") simp_all
  qed simp
  also have "\<dots> \<le> length (array_enc enc xs)" by (simp add: array_enc_def)
  finally show ?thesis using assms(1) by linarith
qed

lemma length_part_small: "x \<in> set xs \<Longrightarrow> length (enc x) \<le> length (array_enc enc xs)"
proof -
  assume "x \<in> set xs"
  then have "length (enc x) \<le> length (concat (map enc xs))" by (induction xs) auto
  then show ?thesis by (simp add: array_enc_def)
qed

lemma emap_Inr: "(\<And>x. x \<in> set xs \<Longrightarrow> f x = Inr (g x)) \<Longrightarrow> emap f xs = Inr (map g xs)"
  by (induction xs) simp_all

lemma array_size:
  assumes "int (length (array_enc enc xs)) < 2 ^ 32" "\<And>x. x \<in> set xs \<Longrightarrow> enc x \<noteq> []"
    and "\<And>x. x \<in> set xs \<Longrightarrow> int (length (enc x)) < 2 ^ 32 \<Longrightarrow> sz x = int (length (enc x))"
  shows "GetVarSize_items sz xs = int (length (array_enc enc xs))"
proof -
  have "sz x = int (length (enc x))" if "x \<in> set xs" for x
    using assms(1,3) length_part_small [OF that, of enc] that by simp
  then show ?thesis
    using length_array_enc [OF length_array_small [OF assms(1,2)], of enc sz] by simp
qed

lemma array_size_checked:
  assumes "int (length (array_enc enc xs)) < 2 ^ 32" "\<And>x. x \<in> set xs \<Longrightarrow> enc x \<noteq> []"
    and "\<And>x. x \<in> set xs \<Longrightarrow> int (length (enc x)) < 2 ^ 32 \<Longrightarrow> sz x = Inr (int (length (enc x)))"
  shows "GetVarSize_checked sz xs = Inr (int (length (array_enc enc xs)))"
proof -
  have "sz x = Inr (int (length (enc x)))" if "x \<in> set xs" for x
    using assms(1,3) length_part_small [OF that, of enc] that by simp
  then have "GetVarSize_checked sz xs = Inr (GetVarSize_items (\<lambda>x. int (length (enc x))) xs)"
    by (simp add: GetVarSize_checked_def GetVarSize_items_def emap_Inr)
  then show ?thesis using array_size [OF assms(1,2), of "\<lambda>x. int (length (enc x))"] by simp
qed

lemma attr_size:
  assumes "attr_ok a" "int (length (attr_enc a)) < 2 ^ 32"
  shows "attr_Size a = Inr (int (length (attr_enc a)))"
  using assms(1)
proof (cases rule: attr_cases)
  case (hash d)
  then have "attr_Data a = AttrBytes d" by (metis tx_attribute.select_convs(2))
  with hash show ?thesis by (simp add: attr_Size_def attr_enc_def attr_bytes_def)
next
  case (script d)
  then have "attr_Data a = AttrBytes d" by (metis tx_attribute.select_convs(2))
  with script show ?thesis by (simp add: attr_Size_def attr_enc_def attr_bytes_def usage_defs)
next
  case (url d)
  then have "attr_Data a = AttrBytes d" by (metis tx_attribute.select_convs(2))
  with url show ?thesis
    by (simp add: attr_Size_def attr_enc_def attr_bytes_def usage_defs var_bytes_def var_int_def int_bytes_1)
next
  case (textual d)
  then have d: "attr_Data a = AttrBytes d" by (metis tx_attribute.select_convs(2))
  have "int (length (var_bytes d)) = GetVarSize_bytes d" using textual(7) by (intro length_var_bytes) simp
  with textual d show ?thesis by (simp add: attr_Size_def attr_enc_def attr_bytes_def)
qed

lemma wit_size: "int (length (wit_enc w)) < 2 ^ 32 \<Longrightarrow> wit_Size w = int (length (wit_enc w))"
  using length_var_bytes_small [of "InvocationScript w"] length_var_bytes_small [of "VerificationScript w"]
  by (simp add: wit_Size_def wit_enc_def)

lemma cr_size: "cr_ok r \<Longrightarrow> cr_Size r = int (length (cr_enc r))"
  by (simp add: cr_Size_def cr_enc_def cr_ok_def uint_ok_def)

lemma cr_enc_nonempty: "cr_ok r \<Longrightarrow> cr_enc r \<noteq> []"
  using cr_size [of r] by (auto simp: cr_Size_def)

lemma out_size: "out_ok out \<Longrightarrow> out_Size out = int (length (out_enc out))"
  by (simp add: out_Size_def out_enc_def out_ok_def uint_ok_def fx_Size_def fixed8_bytes_def)

lemma out_enc_nonempty: "out_ok out \<Longrightarrow> out_enc out \<noteq> []"
  using out_size [of out] by (auto simp: out_Size_def fx_Size_def)

lemma sd_size:
  assumes "sd_ok d" "int (length (sd_enc d)) < 2 ^ 32"
  shows "sd_Size d = Inr (int (length (sd_enc d)))"
  using assms length_var_bytes_small [of "sd_Key d"] length_var_bytes_small [of "sd_Value d"]
    length_var_bytes_small [of "ascii (field_of (sd_Type d))"] field_encode [of "sd_Type d"]
  by (simp add: sd_Size_def sd_enc_def sd_ok_def GetVarSize_str_def GetVarSize_bytes_def Let_def)

lemma text_size:
  assumes "text_ok v" "int (length (text_enc v)) < 2 ^ 32"
  shows "GetVarSize_name v = Inr (int (length (text_enc v)))"
  using assms length_var_bytes_small
  by (cases v) (simp_all add: text_ok_def text_enc_def GetVarSize_name_def)

text \<open>The byte that \<open>PublishTransaction.Size\<close> forgets.\<close>

definition unsized_bytes :: "tx \<Rightarrow> int" where
  "unsized_bytes t = (case tx_exclusive t of PublishTransaction _ \<Rightarrow> if 1 \<le> Version t then 1 else 0 | _ \<Rightarrow> 0)"

definition exc_Size :: "tx \<Rightarrow> pyexc + int" where
  "exc_Size t = ebind (tx_Size (t\<lparr>Attributes := [], tx_inputs := [], tx_outputs := [], tx_scripts := []\<rparr>)) (\<lambda>n. Inr (n - 6))"

lemma tx_Size_split:
  "tx_Size t = ebind (base_tx_Size t) (\<lambda>n. ebind (exc_Size t) (\<lambda>k. Inr (n + k)))"
  by (cases "tx_exclusive t")
     (auto simp: exc_Size_def tx_Size_def type_size_defs base_tx_Size_def GetVarSize_checked_def GetVarSize_items_def
       GetVarSize_int_def ebind_def split: sum.splits)

lemma base_size:
  assumes "tx_ok t" "int (length (tx_enc t)) < 2 ^ 32"
  shows "base_tx_Size t = Inr (2 + int (length (array_enc attr_enc (Attributes t))) +
    int (length (array_enc cr_enc (tx_inputs t))) + int (length (array_enc out_enc (tx_outputs t))) +
    int (length (array_enc wit_enc (tx_scripts t))))"
proof -
  have small: "int (length (array_enc attr_enc (Attributes t))) < 2 ^ 32" "int (length (array_enc cr_enc (tx_inputs t))) < 2 ^ 32"
      "int (length (array_enc out_enc (tx_outputs t))) < 2 ^ 32" "int (length (array_enc wit_enc (tx_scripts t))) < 2 ^ 32"
    using assms(2) by (simp_all add: tx_enc_def unsigned_enc_def unsigned_body_def)
  have ok: "\<And>a. a \<in> set (Attributes t) \<Longrightarrow> attr_ok a" "\<And>r. r \<in> set (tx_inputs t) \<Longrightarrow> cr_ok r"
      "\<And>out. out \<in> set (tx_outputs t) \<Longrightarrow> out_ok out"
    using assms(1) by (simp_all add: tx_ok_def unsigned_ok_def array_ok_def list_all_iff)
  have "GetVarSize_checked attr_Size (Attributes t) = Inr (int (length (array_enc attr_enc (Attributes t))))"
    by (rule array_size_checked [OF small(1)]) (use ok(1) in \<open>auto simp: attr_size\<close>, simp add: attr_enc_def)
  moreover have "GetVarSize_items cr_Size (tx_inputs t) = int (length (array_enc cr_enc (tx_inputs t)))"
    by (rule array_size [OF small(2)]) (use ok(2) cr_size cr_enc_nonempty in auto)
  moreover have "GetVarSize_items out_Size (tx_outputs t) = int (length (array_enc out_enc (tx_outputs t)))"
    by (rule array_size [OF small(3)]) (use ok(3) out_size out_enc_nonempty in auto)
  moreover have "GetVarSize_items wit_Size (tx_scripts t) = int (length (array_enc wit_enc (tx_scripts t)))"
    by (rule array_size [OF small(4)]) (auto simp: wit_size wit_enc_def var_bytes_def var_int_def)
  ultimately show ?thesis by (simp add: base_tx_Size_def)
qed


lemma exc_size:
  assumes "tx_ok t" "int (length (tx_enc t)) < 2 ^ 32"
  shows "exc_Size t = Inr (int (length (exc_enc (Version t) (tx_exclusive t))) - unsized_bytes t)"
proof -
  have ok: "exc_ok (Version t) (tx_exclusive t)" using assms(1) by (simp add: tx_ok_def unsigned_ok_def)
  have small: "int (length (exc_enc (Version t) (tx_exclusive t))) < 2 ^ 32"
    using assms(2) by (simp add: tx_enc_def unsigned_enc_def unsigned_body_def)
  note defs = exc_Size_def tx_Size_def type_size_defs base_tx_Size_def GetVarSize_checked_def [of _ "[]"] GetVarSize_items_def [of _ "[]"]
    GetVarSize_int_def [of 0] exc_enc_def unsized_bytes_def
  show ?thesis
  proof (cases "tx_exclusive t")
    case (ClaimTransaction claims)
    then have "GetVarSize_items cr_Size claims = int (length (array_enc cr_enc claims))"
      using ok small cr_size cr_enc_nonempty
      by (intro array_size) (auto simp: exc_ok_def exc_enc_def array_ok_def list_all_iff)
    with ClaimTransaction show ?thesis by (simp add: defs)
  next
    case (RegisterTransaction r)
    then have "rg_ok r" "int (length (text_enc (rg_Name r))) < 2 ^ 32"
      using ok small by (simp_all add: exc_ok_def exc_enc_def rg_enc_def)
    with RegisterTransaction text_size [of "rg_Name r"] show ?thesis
      by (simp add: defs rg_ok_def rg_enc_def fx_Size_def fixed8_bytes_def uint_ok_def uint_Size_def length_ec_bytes)
  next
    case (StateTransaction ds)
    have "GetVarSize_checked sd_Size ds = Inr (int (length (array_enc sd_enc ds)))"
      using ok small StateTransaction sd_size
      by (intro array_size_checked) (auto simp: exc_ok_def exc_enc_def array_ok_def list_all_iff sd_enc_def)
    with StateTransaction show ?thesis by (simp add: defs)
  next
    case (PublishTransaction p)
    then have f: "pb_ok (Version t) p" "int (length (pb_enc (Version t) p)) < 2 ^ 32"
      using ok small by (simp_all add: exc_ok_def exc_enc_def)
    then have "emap GetVarSize_name [pb_Name p, pb_CodeVersion p, pb_Author p, pb_Email p, pb_Description p] =
        Inr (map (\<lambda>v. int (length (text_enc v))) [pb_Name p, pb_CodeVersion p, pb_Author p, pb_Email p, pb_Description p])"
      by (intro emap_Inr text_size) (auto simp: pb_ok_def pb_enc_def)
    with PublishTransaction f(2) length_var_bytes_small show ?thesis
      by (simp add: defs pb_enc_def fc_enc_def)
  next
    case (InvocationTransaction scr gas)
    with small length_var_bytes_small [of scr] show ?thesis
      by (simp add: defs invocation_enc_def fixed8_bytes_def)
  qed (simp_all add: defs length_ec_bytes)
qed

text \<open>
  C32. A transaction of any type whose format is below 4 GiB announces as its \<open>Size\<close> the number of
  bytes it is written as; a published contract of version 1 announces one byte less, the flag
  \<open>NeedStorage\<close>.
\<close>

theorem tx_Size_exact:
  assumes "tx_ok t" "int (length (tx_enc t)) < 2 ^ 32"
  shows "emits (tx_Serialize t) (tx_enc t) () \<and> tx_Size t = Inr (int (length (tx_enc t)) - unsized_bytes t)"
  using emits_tx [OF assms(1)] tx_Size_split [of t] base_size [OF assms] exc_size [OF assms]
  by (simp add: tx_enc_def unsigned_enc_def unsigned_body_def)

section \<open>Writing and reading back\<close>

text \<open>
  C21. A transaction of any type whose fields fit their formats is sent and received unchanged: from
  the bytes \<open>Helper.ToStream\<close> gives, \<open>Transaction.DeserializeFromBufer\<close> builds the same
  transaction, of the class its type byte names, and both leave the pool of streams clean.
\<close>

theorem transaction_roundtrip:
  assumes "tx_ok t" "pool_wf s"
  shows "\<exists>bs s1 s2. helper_ToStream tx_Serialize t s = (Val bs, s1) \<and>
    DeserializeFromBufer bs s1 = (Val t, s2) \<and> pool_wf s2"
proof -
  obtain s1 where s1: "helper_ToStream tx_Serialize t s = (Val (tx_enc t), s1)" "pool_wf s1"
    using transaction.ToStream_ok [OF assms] by blast
  have "DeserializeFromBufer (tx_enc t) s1 = DeserializeFromDB DeserializeFrom (tx_enc t) s1"
    by (simp add: DeserializeFromBufer_def DeserializeFromDB_def)
  with s1 transaction.DeserializeFromDB_ok [OF assms(1) s1(2)] show ?thesis by metis
qed

definition sample_tx :: tx where
  "sample_tx =
     \<lparr>Version = 1, tx_exclusive = InvocationTransaction [0x51, 0x66] (Fixed8 700000000),
      Attributes = [\<lparr>Usage = 0x20, attr_Data = AttrBytes (replicate 20 0)\<rparr>, \<lparr>Usage = 0xf0, attr_Data = AttrBytes [104, 105]\<rparr>],
      tx_inputs = [\<lparr>PrevHash = sample_uint 32, PrevIndex = 258\<rparr>],
      tx_outputs = [\<lparr>AssetId = sample_uint 32, Value = Fixed8 5, ScriptHash = sample_uint 20\<rparr>],
      tx_scripts = [\<lparr>InvocationScript = [0x51], VerificationScript = [0xac]\<rparr>]\<rparr>"

lemma unhexlify_zeros: "unhexlify (0 # bs) = None"
  by (cases bs) (simp_all add: hex_val_def)

lemma sample_tx_ok: "tx_ok sample_tx"
proof -
  have script: "attr_ok \<lparr>Usage = 0x20, attr_Data = AttrBytes (replicate 20 0)\<rparr>"
    using unhexlify_zeros [of "replicate 19 0"] by (simp add: attr_ok_def usage_defs flip: replicate_Suc)
  have remark: "attr_ok \<lparr>Usage = 0xf0, attr_Data = AttrBytes [104, 105]\<rparr>" by (simp add: attr_ok_def usage_defs)
  have "cr_ok \<lparr>PrevHash = sample_uint 32, PrevIndex = 258\<rparr>" by (simp add: cr_ok_def sample_hashes_ok)
  moreover have "out_ok \<lparr>AssetId = sample_uint 32, Value = Fixed8 5, ScriptHash = sample_uint 20\<rparr>"
    by (simp add: out_ok_def sample_hashes_ok fixed8_ok_def int_fits_def)
  moreover have "exc_ok 1 (InvocationTransaction [0x51, 0x66] (Fixed8 700000000))"
    by (simp add: exc_ok_def invocation_ok_def maxsize_def fixed8_ok_def int_fits_def fx_Zero_def less_fixed8_def fx_lt_def)
  moreover have "wit_ok \<lparr>InvocationScript = [0x51], VerificationScript = [0xac]\<rparr>" by (simp add: wit_ok_def maxsize_def)
  ultimately show ?thesis
    using script remark
    by (simp add: sample_tx_def tx_ok_def unsigned_ok_def array_ok_def OnDeserialized_def maxsize_def)
qed

lemma transaction_roundtrip_witness:
  "\<exists>bs s1 s2. helper_ToStream tx_Serialize sample_tx sample_pool = (Val bs, s1) \<and>
     DeserializeFromBufer bs s1 = (Val sample_tx, s2) \<and> pool_wf s2"
  by (rule transaction_roundtrip [OF sample_tx_ok]) (simp add: pool_wf_def sample_pool_def)

lemma length_sample: "length (tx_enc sample_tx) = 140"
  by (simp add: sample_tx_def tx_enc_def unsigned_enc_def unsigned_body_def tx_Type_def TransactionType_def exc_enc_def
      invocation_enc_def array_enc_def var_bytes_def var_int_def fixed8_bytes_def attr_enc_def attr_bytes_def usage_defs
      cr_enc_def out_enc_def wit_enc_def sample_uint_def)

lemma tx_Size_exact_witness: "tx_Size sample_tx = Inr 140"
  using tx_Size_exact [OF sample_tx_ok] length_sample by (simp add: unsized_bytes_def sample_tx_def)

section \<open>What is hashed\<close>

definition unsigned :: "tx \<Rightarrow> tx" where
  "unsigned t = t\<lparr>tx_scripts := []\<rparr>"

interpretation unsigned: codec SerializeUnsigned "bnd read_ord DeserializeUnsignedWithoutType" unsigned_enc
    "\<lambda>t. unsigned_ok t \<and> unsigned t = t"
proof
  fix t assume ok: "unsigned_ok t \<and> unsigned t = t"
  show "emits (SerializeUnsigned t) (unsigned_enc t) ()" using ok by (simp add: emits_unsigned)
  have "0 \<le> tx_Type t" "tx_Type t < 256"
    using ok type_byte [of "Version t" "tx_exclusive t"] by (simp_all add: tx_Type_def unsigned_ok_def)
  then show "reads (bnd read_ord DeserializeUnsignedWithoutType) (unsigned_enc t) t"
    unfolding unsigned_enc_def using ok reads_unsigned_body [of t]
    by (intro reads_bnd [OF reads_read_ord]) (simp_all add: unsigned_def)
qed

lemma unsigned_same:
  "SerializeUnsigned (unsigned t) = SerializeUnsigned t" "unsigned_ok (unsigned t) = unsigned_ok t"
  "unsigned (unsigned t) = unsigned t"
  by (simp_all add: unsigned_def SerializeUnsigned_def unsigned_ok_def)

lemma GetHashData_ok:
  assumes "unsigned_ok t" "pool_wf s"
  shows "\<exists>s'. tx_GetHashData t s = (Val (hexlify (unsigned_enc (unsigned t))), s') \<and> pool_wf s'"
proof -
  have "tx_GetHashData t s = helper_ToArray SerializeUnsigned (unsigned t) s"
    by (simp add: tx_GetHashData_def helper_GetHashData_def helper_ToArray_def unsigned_same)
  then show ?thesis using unsigned.ToArray_ok [of "unsigned t" s] assms by (simp add: unsigned_same)
qed

text \<open>
  C22. The data that is hashed and signed determines the transaction but for its witnesses: two
  transactions with the same data are of the same type and agree in version, exclusive data,
  attributes, inputs and outputs; and the witnesses are not part of it.
\<close>

theorem hash_data_determines:
  assumes "unsigned_ok t" "unsigned_ok u" "pool_wf s" "pool_wf s'"
  shows "fst (tx_GetHashData t s) = fst (tx_GetHashData u s') \<longleftrightarrow> unsigned t = unsigned u"
proof -
  have "fst (tx_GetHashData t s) = Val (hexlify (unsigned_enc (unsigned t)))"
    "fst (tx_GetHashData u s') = Val (hexlify (unsigned_enc (unsigned u)))"
    using GetHashData_ok [OF assms(1,3)] GetHashData_ok [OF assms(2,4)] by auto
  moreover have "unsigned_enc (unsigned t) = unsigned_enc (unsigned u) \<longleftrightarrow> unsigned t = unsigned u"
    using unsigned.enc_inject [of "unsigned t" "unsigned u"] assms(1,2) by (auto simp: unsigned_same)
  ultimately show ?thesis by (metis res.inject(1) option.inject unhexlify_hexlify)
qed

lemma hash_data_determines_witness:
  "fst (tx_GetHashData sample_tx sample_pool) \<noteq> fst (tx_GetHashData (sample_tx\<lparr>tx_outputs := []\<rparr>) sample_pool) \<and>
   fst (tx_GetHashData sample_tx sample_pool) = fst (tx_GetHashData (sample_tx\<lparr>tx_scripts := []\<rparr>) sample_pool)"
proof -
  have ok: "unsigned_ok sample_tx" "unsigned_ok (sample_tx\<lparr>tx_outputs := []\<rparr>)" "unsigned_ok (sample_tx\<lparr>tx_scripts := []\<rparr>)"
    using sample_tx_ok by (simp_all add: tx_ok_def unsigned_ok_def array_ok_def maxsize_def)
  have pool: "pool_wf sample_pool" by (simp add: pool_wf_def sample_pool_def)
  show ?thesis
    using hash_data_determines [OF ok(1,2) pool pool] hash_data_determines [OF ok(1,3) pool pool]
    by (simp add: unsigned_def sample_tx_def)
qed

section \<open>Results\<close>

definition amount_in :: "bytes \<Rightarrow> tx_output list \<Rightarrow> int" where
  "amount_in a outs = sum_list (map (\<lambda>out. if Data (AssetId out) = a then fx_value (Value out) else 0) outs)"

definition result_in :: "bytes \<Rightarrow> tx_result list \<Rightarrow> int" where
  "result_in a rs = sum_list (map (\<lambda>r. if Data (res_AssetId r) = a then fx_value (res_Amount r) else 0) rs)"

lemma result_in_append [simp]: "result_in a (rs @ qs) = result_in a rs + result_in a qs"
  by (simp add: result_in_def)

lemma sum_results_value: "fx_value (sum_results rs) = sum_list (map (fx_value \<circ> res_Amount) rs)"
proof -
  have "fx_value (foldl (\<lambda>acc r. fx_add acc (res_Amount r)) acc rs) = fx_value acc + sum_list (map (fx_value \<circ> res_Amount) rs)" for acc
    by (induction rs arbitrary: acc) (simp_all add: fx_add_def)
  then show ?thesis by (simp add: sum_results_def)
qed

lemma result_in_same:
  "\<forall>r \<in> set rs. Data (res_AssetId r) = k \<Longrightarrow> result_in a rs = (if k = a then fx_value (sum_results rs) else 0)"
  by (induction rs) (auto simp: result_in_def sum_results_value)

lemma result_in_Cons [simp]:
  "result_in a (r # rs) = (if Data (res_AssetId r) = a then fx_value (res_Amount r) else 0) + result_in a rs"
  by (simp add: result_in_def)

lemma result_in_groups:
  "result_in a (map (\<lambda>(k, grp). \<lparr>res_AssetId = res_AssetId k, res_Amount = sum_results grp\<rparr>)
     (filter (\<lambda>(k, grp). sum_results grp \<noteq> fx_Zero) (group_by (\<lambda>r q. uint_eq (res_AssetId r) (res_AssetId q)) rs))) = result_in a rs"
proof (induction "length rs" arbitrary: rs rule: less_induct)
  case less
  show ?case
  proof (cases rs)
    case (Cons r qs)
    let ?same = "\<lambda>q. uint_eq (res_AssetId r) (res_AssetId q)"
    let ?grp = "r # takeWhile ?same qs"
    have "length (dropWhile ?same qs) < length rs" by (simp add: Cons le_imp_less_Suc length_dropWhile_le)
    note rest = less [OF this]
    have grp: "\<forall>q \<in> set ?grp. Data (res_AssetId q) = Data (res_AssetId r)"
      by (auto simp: uint_eq_def dest: set_takeWhileD)
    have "result_in a rs = result_in a (?grp @ dropWhile ?same qs)" by (simp add: Cons)
    also have "\<dots> = (if Data (res_AssetId r) = a then fx_value (sum_results ?grp) else 0) + result_in a (dropWhile ?same qs)"
      by (simp only: result_in_append result_in_same [OF grp])
    finally show ?thesis using rest by (simp add: Cons fx_Zero_def del: takeWhile_dropWhile_id)
  qed simp
qed

text \<open>
  C31. The results of a transaction add up, for every asset, to what its inputs refer to less what it
  puts out, and none of them is zero. (There may be several of one asset, see below.)
\<close>

theorem results_conserve:
  assumes "GetTransactionResults lookup t = Inr rs"
  shows "\<exists>refs. References lookup t = Inr refs \<and>
    result_in a rs = amount_in a (map snd refs) - amount_in a (tx_outputs t) \<and> fx_Zero \<notin> res_Amount ` set rs"
proof -
  obtain refs where refs: "References lookup t = Inr refs"
    using assms by (cases "References lookup t") (simp_all add: GetTransactionResults_def)
  let ?rs = "map (\<lambda>(_, out). \<lparr>res_AssetId = AssetId out, res_Amount = Value out\<rparr>) refs @
             map (\<lambda>out. \<lparr>res_AssetId = AssetId out, res_Amount = fx_mul (Value out) (Fixed8 (- 1))\<rparr>) (tx_outputs t)"
  have rs: "rs = map (\<lambda>(k, grp). \<lparr>res_AssetId = res_AssetId k, res_Amount = sum_results grp\<rparr>)
     (filter (\<lambda>(k, grp). sum_results grp \<noteq> fx_Zero) (group_by (\<lambda>r q. uint_eq (res_AssetId r) (res_AssetId q)) ?rs))"
    using assms refs by (simp add: GetTransactionResults_def Let_def)
  have ins: "result_in a (map (\<lambda>(_, out). \<lparr>res_AssetId = AssetId out, res_Amount = Value out\<rparr>) refs) = amount_in a (map snd refs)"
    by (induction refs) (auto simp: amount_in_def result_in_def)
  have outs: "result_in a (map (\<lambda>out. \<lparr>res_AssetId = AssetId out, res_Amount = fx_mul (Value out) (Fixed8 (- 1))\<rparr>) qs) = - amount_in a qs" for qs
    by (induction qs) (auto simp: amount_in_def result_in_def fx_mul_def)
  have "result_in a rs = result_in a ?rs" unfolding rs by (rule result_in_groups)
  then have "result_in a rs = amount_in a (map snd refs) - amount_in a (tx_outputs t)" by (simp only: result_in_append ins outs)
  moreover have "fx_Zero \<notin> res_Amount ` set rs" unfolding rs by auto
  ultimately show ?thesis using refs by blast
qed


definition sample_coins :: "int \<Rightarrow> int \<Rightarrow> tx_output list" where
  "sample_coins a b =
     [\<lparr>AssetId = \<lparr>Data = [1], uint_hash = 0\<rparr>, Value = Fixed8 a, ScriptHash = sample_uint 20\<rparr>,
      \<lparr>AssetId = \<lparr>Data = [2], uint_hash = 0\<rparr>, Value = Fixed8 b, ScriptHash = sample_uint 20\<rparr>]"

definition sample_spending :: tx where
  "sample_spending = sample_tx\<lparr>tx_inputs := [\<lparr>PrevHash = sample_uint 32, PrevIndex = 0\<rparr>, \<lparr>PrevHash = sample_uint 32, PrevIndex = 1\<rparr>],
     tx_outputs := sample_coins 5 3\<rparr>"

lemma sample_results:
  "GetTransactionResults (\<lambda>_. Some (sample_tx\<lparr>tx_outputs := sample_coins 5 3\<rparr>)) sample_spending =
     Inr [\<lparr>res_AssetId = \<lparr>Data = [1], uint_hash = 0\<rparr>, res_Amount = Fixed8 5\<rparr>,
          \<lparr>res_AssetId = \<lparr>Data = [2], uint_hash = 0\<rparr>, res_Amount = Fixed8 3\<rparr>,
          \<lparr>res_AssetId = \<lparr>Data = [1], uint_hash = 0\<rparr>, res_Amount = Fixed8 (- 5)\<rparr>,
          \<lparr>res_AssetId = \<lparr>Data = [2], uint_hash = 0\<rparr>, res_Amount = Fixed8 (- 3)\<rparr>]"
  by (simp add: GetTransactionResults_def References_def sample_spending_def sample_coins_def py_nth_def py_index_def uint_eq_def
      cr_Equals_def uint_ToBytes_def sum_results_def fx_add_def fx_mul_def fx_Zero_def Let_def sample_tx_def)

lemma results_conserve_witness:
  "\<exists>refs. References (\<lambda>_. Some (sample_tx\<lparr>tx_outputs := sample_coins 5 3\<rparr>)) sample_spending = Inr refs \<and>
     amount_in [1] (map snd refs) = 5"
  using results_conserve [OF sample_results, of "[1]"]
  by (auto simp: result_in_def amount_in_def sample_spending_def sample_coins_def)

section \<open>Faults of the source\<close>

text \<open>
  A balanced transaction of two assets has four results: \<open>groupby\<close> joins neighbours only, and the
  results are not sorted.
\<close>

lemma balanced_has_results:
  "\<exists>rs. GetTransactionResults (\<lambda>_. Some (sample_tx\<lparr>tx_outputs := sample_coins 5 3\<rparr>)) sample_spending = Inr rs \<and>
     length rs = 4"
  using sample_results by simp

text \<open>
  The public key of an ECDH attribute is read behind \<open>bytearray(usage)\<close>, as many zeros as the usage
  says, and written without its last byte.
\<close>

lemma ecdh_attribute_changes:
  assumes "length d = 32"
  shows "reads attr_Deserialize (2 # d) \<lparr>Usage = 2, attr_Data = AttrBytes (0 # 0 # d)\<rparr>"
    "emits (attr_Serialize \<lparr>Usage = 2, attr_Data = AttrBytes (0 # 0 # d)\<rparr>) (2 # 0 # take 31 d) ()"
proof -
  have "reads (bnd (ReadBytes 32) (\<lambda>d. ret (AttrBytes (replicate (nat 2) 0 @ d)))) d (AttrBytes (0 # 0 # d))"
    using reads_exactly [OF assms] by (intro reads_bnd_ret) (simp_all add: numeral_2_eq_2)
  then have "reads attr_Deserialize ([word_of_int 2] @ d) \<lparr>Usage = 2, attr_Data = AttrBytes (0 # 0 # d)\<rparr>"
    unfolding attr_Deserialize_def
    by (intro reads_bnd [OF reads_read_ord] reads_bnd_ret) (simp_all add: usage_defs)
  then show "reads attr_Deserialize (2 # d) \<lparr>Usage = 2, attr_Data = AttrBytes (0 # 0 # d)\<rparr>" by simp
next
  have ret_first: "bnd (ret x) f = f x" for x :: bytes and f :: "bytes \<Rightarrow> (stream, unit) m"
    by (rule ext) (simp add: bnd_def ret_def)
  have "py_slice 1 33 (0 # 0 # d) = 0 # take 31 d" using assms by (simp add: py_slice_def py_clamp_def Let_def)
  then have "attr_Serialize \<lparr>Usage = 2, attr_Data = AttrBytes (0 # 0 # d)\<rparr> =
      sq (WriteByte (PInt 2)) (sq (WriteBytes (0 # take 31 d)) (ret ()))"
    using assms by (simp add: attr_Serialize_def ret_first usage_defs MAX_ATTR_DATA_SIZE_def)
  then show "emits (attr_Serialize \<lparr>Usage = 2, attr_Data = AttrBytes (0 # 0 # d)\<rparr>) (2 # 0 # take 31 d) ()"
    using emits_sq [OF emits_WriteByte [of 2] emits_sq_ret [OF emits_WriteBytes [OF unhexlify_zeros [of "take 31 d"]]]]
    by simp
qed

end
