(* ===== verification/Merkle_Tree.thy ===== *)
theory Merkle_Tree
  imports Transactions
begin

text \<open>
  \<open>neo/Core/Cryptography/MerkleTree.py\<close>: the hashes of a block's transactions as the leaves of a
  tree, level by level. A node without children is a leaf, whatever it was before it was trimmed.
  The node at the end of an odd level is both children of its parent; as \<open>_TrimNode\<close> gives both
  children the same index, it does the same to two copies as to the one object.

  \<open>Parent\<close> is written and read by \<open>IsRoot\<close> only, and \<open>Size\<close> is the interpreter's; neither is
  modelled. The set of \<open>ToHashArray\<close> is a list without equal hashes.
\<close>

section \<open>Building the tree\<close>

datatype merkle =
    MLeaf uint
  | MNode uint merkle merkle

primrec node_Hash :: "merkle \<Rightarrow> uint" where
  "node_Hash (MLeaf h) = h"
| "node_Hash (MNode h l r) = h"

definition node_IsLeaf :: "merkle \<Rightarrow> bool" where
  "node_IsLeaf t = (case t of MLeaf _ \<Rightarrow> True | MNode _ _ _ \<Rightarrow> False)"

definition merkle_parent :: "primitives \<Rightarrow> merkle \<Rightarrow> merkle \<Rightarrow> pyexc + merkle" where
  "merkle_parent c l r =
     ebind (UInt256 (Some (Hash256 c (Data (node_Hash l) @ Data (node_Hash r))))) (\<lambda>h. Inr (MNode h l r))"

fun merkle_parents :: "primitives \<Rightarrow> merkle list \<Rightarrow> pyexc + merkle list" where
  "merkle_parents c [] = Inr []"
| "merkle_parents c [l] = ebind (merkle_parent c l l) (\<lambda>p. Inr [p])"
| "merkle_parents c (l # r # leaves) =
     ebind (merkle_parent c l r) (\<lambda>p. ebind (merkle_parents c leaves) (\<lambda>ps. Inr (p # ps)))"

lemma length_merkle_parents: "merkle_parents c ts = Inr ps \<Longrightarrow> length ps = (length ts + 1) div 2"
  by (induction c ts arbitrary: ps rule: merkle_parents.induct) (auto simp: ebind_Inr_iff)

function merkle_build :: "primitives \<Rightarrow> merkle list \<Rightarrow> pyexc + merkle" where
  "merkle_build c leaves =
     (if length leaves < 1 then Inl ValueError
      else if length leaves = 1 then Inr (leaves ! 0)
      else case merkle_parents c leaves of Inl e \<Rightarrow> Inl e | Inr parents \<Rightarrow> merkle_build c parents)"
  by pat_completeness auto
termination
proof (relation "measure (\<lambda>(_, ts). length ts)")
  fix c leaves b
  assume "\<not> length leaves < 1" "length leaves \<noteq> 1" "merkle_parents c leaves = Inr b"
  then show "((c, b), c, leaves) \<in> measure (\<lambda>(_, ts). length ts)"
    using length_merkle_parents [of c leaves b] by (simp, linarith)
qed simp

declare merkle_build.simps [simp del]

primrec left_depth :: "merkle \<Rightarrow> nat" where
  "left_depth (MLeaf h) = 1"
| "left_depth (MNode h l r) = Suc (left_depth l)"

record merkle_tree =
  mt_Root :: merkle
  mt_Depth :: nat

definition MerkleTree :: "primitives \<Rightarrow> uint list \<Rightarrow> pyexc + merkle_tree" where
  "MerkleTree c hashes =
     ebind (merkle_build c (map MLeaf hashes)) (\<lambda>root. Inr \<lparr>mt_Root = root, mt_Depth = left_depth root\<rparr>)"

definition ComputeRoot :: "primitives \<Rightarrow> uint list \<Rightarrow> pyexc + uint" where
  "ComputeRoot c hashes =
     (if length hashes = 0 then Inl ValueError
      else if length hashes = 1 then Inr (hashes ! 0)
      else ebind (MerkleTree c hashes) (\<lambda>t. Inr (node_Hash (mt_Root t))))"

section \<open>The hashes of the tree\<close>

definition set_add :: "uint \<Rightarrow> uint list \<Rightarrow> uint list" where
  "set_add h hashes = (if list_ex (uint_eq h) hashes then hashes else hashes @ [h])"

primrec DepthFirstSearch :: "merkle \<Rightarrow> uint list \<Rightarrow> uint list" where
  "DepthFirstSearch (MLeaf h) hashes = set_add h hashes"
| "DepthFirstSearch (MNode h l r) hashes = DepthFirstSearch r (DepthFirstSearch l hashes)"

definition ToHashArray :: "merkle_tree \<Rightarrow> uint list" where
  "ToHashArray t = DepthFirstSearch (mt_Root t) []"

section \<open>Trimming\<close>

fun TrimNode :: "merkle \<Rightarrow> nat \<Rightarrow> nat \<Rightarrow> bytes \<Rightarrow> pyexc + merkle" where
  "TrimNode (MLeaf h) index depth flags = Inr (MLeaf h)"
| "TrimNode (MNode h l r) index depth flags =
     (if depth = 1 then Inr (MNode h l r)
      else if depth = 2 then
        ebind (py_nth (int (index * 2)) flags) (\<lambda>a.
          if a \<noteq> 0 then Inr (MNode h l r)
          else ebind (py_nth (int (index * 2 + 1)) flags) (\<lambda>b.
            if b = 0 then Inr (MLeaf h) else Inr (MNode h l r)))
      else
        ebind (TrimNode l (index * 2) (depth - 1) flags) (\<lambda>l'.
        ebind (TrimNode r (index * 2) (depth - 1) flags) (\<lambda>r'.
          Inr (if node_IsLeaf l' \<and> node_IsLeaf r' then MLeaf h else MNode h l' r'))))"

definition mt_Trim :: "bytes \<Rightarrow> merkle_tree \<Rightarrow> pyexc + merkle_tree" where
  "mt_Trim flags t =
     (let len = 2 ^ (mt_Depth t - 1); flags = flags @ replicate (len - length flags) 0
      in ebind (TrimNode (mt_Root t) 0 (mt_Depth t) flags) (\<lambda>root. Inr (t\<lparr>mt_Root := root\<rparr>)))"

lemmas merkle_defs = node_IsLeaf_def merkle_parent_def MerkleTree_def ComputeRoot_def set_add_def
  ToHashArray_def mt_Trim_def

declare merkle_defs [model_defs]

end
