(* ===== verification/Merkle_Properties.thy ===== *)
theory Merkle_Properties
  imports Merkle_Tree State_Properties Samples
begin

text \<open>
  What the Merkle tree promises. The root is computed from the hashes level by level (\<open>level_up\<close>),
  which is the reference definition here; from it follow the depth of the tree, that its leaves are
  the hashes given, and that a root commits to the hashes for a given number of them.
\<close>

section \<open>Levels of hashes\<close>

definition join :: "primitives \<Rightarrow> uint \<Rightarrow> uint \<Rightarrow> pyexc + uint" where
  "join c h k = UInt256 (Some (Hash256 c (Data h @ Data k)))"

fun level_up :: "primitives \<Rightarrow> uint list \<Rightarrow> pyexc + uint list" where
  "level_up c [] = Inr []"
| "level_up c [h] = ebind (join c h h) (\<lambda>p. Inr [p])"
| "level_up c (h # k # hs) = ebind (join c h k) (\<lambda>p. ebind (level_up c hs) (\<lambda>ps. Inr (p # ps)))"

inductive root_of :: "primitives \<Rightarrow> uint list \<Rightarrow> nat \<Rightarrow> uint \<Rightarrow> bool" for c where
  top: "root_of c [h] 0 h"
| up: "2 \<le> length hs \<Longrightarrow> level_up c hs = Inr ps \<Longrightarrow> root_of c ps n r \<Longrightarrow> root_of c hs (Suc n) r"

inductive_cases root_of_0E: "root_of c hs 0 r"
inductive_cases root_of_SucE: "root_of c hs (Suc n) r"

lemma level_up_parents: "merkle_parents c ts = Inr ps \<Longrightarrow> level_up c (map node_Hash ts) = Inr (map node_Hash ps)"
  by (induction c ts arbitrary: ps rule: merkle_parents.induct)
     (auto simp: merkle_parent_def join_def ebind_Inr_iff)

text \<open>A tree whose left branches all have the same length.\<close>

fun perfect :: "nat \<Rightarrow> merkle \<Rightarrow> bool" where
  "perfect n (MLeaf h) \<longleftrightarrow> n = 0"
| "perfect n (MNode h l r) \<longleftrightarrow> n \<noteq> 0 \<and> perfect (n - 1) l \<and> perfect (n - 1) r"

primrec leaf_data :: "merkle \<Rightarrow> bytes set" where
  "leaf_data (MLeaf h) = {Data h}"
| "leaf_data (MNode h l r) = leaf_data l \<union> leaf_data r"

lemma perfect_depth: "perfect n t \<Longrightarrow> left_depth t = Suc n"
  by (induction t arbitrary: n) auto

lemma parents_perfect:
  "merkle_parents c ts = Inr ps \<Longrightarrow> \<forall>t\<in>set ts. perfect n t \<Longrightarrow> \<forall>p\<in>set ps. perfect (Suc n) p"
  by (induction c ts arbitrary: ps rule: merkle_parents.induct)
     (auto simp: merkle_parent_def ebind_Inr_iff)

lemma parents_leaves:
  "merkle_parents c ts = Inr ps \<Longrightarrow> \<Union> (leaf_data ` set ps) = \<Union> (leaf_data ` set ts)"
proof (induction c ts arbitrary: ps rule: merkle_parents.induct)
  case (3 c l r leaves)
  then obtain h qs where q: "ps = MNode h l r # qs" "merkle_parents c leaves = Inr qs"
    by (auto simp: merkle_parent_def ebind_Inr_iff)
  have "\<Union> (leaf_data ` set qs) = \<Union> (leaf_data ` set leaves)" by (rule 3(1) [OF q(2)])
  then show ?case using q(1) by (simp add: Un_assoc)
qed (auto simp: merkle_parent_def ebind_Inr_iff)

text \<open>What the loop of \<open>__Build\<close> does to a level of perfect trees.\<close>

lemma merkle_build_step:
  "merkle_build c ts = Inr root \<Longrightarrow>
     (\<exists>t. ts = [t] \<and> root = t) \<or> (2 \<le> length ts \<and> (\<exists>ps. merkle_parents c ts = Inr ps \<and> merkle_build c ps = Inr root))"
  by (subst (asm) merkle_build.simps)
     (auto split: if_splits sum.splits simp: length_Suc_conv numeral_2_eq_2 Suc_le_eq neq_Nil_conv)

lemma merkle_build_shape:
  assumes "merkle_build c ts = Inr root" "\<forall>t\<in>set ts. perfect n t"
  shows "\<exists>k. perfect (n + k) root \<and> root_of c (map node_Hash ts) k (node_Hash root) \<and>
    length ts \<le> 2 ^ k \<and> 2 ^ k < 2 * length ts \<and> leaf_data root = \<Union> (leaf_data ` set ts)"
  using assms
proof (induction "length ts" arbitrary: ts n rule: less_induct)
  case less
  consider t where "ts = [t]" "root = t"
    | ps where "2 \<le> length ts" "merkle_parents c ts = Inr ps" "merkle_build c ps = Inr root"
    using merkle_build_step [OF less(2)] by blast
  then show ?case
  proof cases
    case 1
    then show ?thesis using less(3) by (auto intro!: exI [of _ 0] root_of.top)
  next
    case 2
    have len: "length ps = (length ts + 1) div 2" using 2(2) by (rule length_merkle_parents)
    have "length ps < length ts" using 2(1) len by linarith
    from less(1) [OF this 2(3) parents_perfect [OF 2(2) less(3)]] obtain k where k:
      "perfect (Suc n + k) root" "root_of c (map node_Hash ps) k (node_Hash root)" "length ps \<le> 2 ^ k"
      "2 ^ k < 2 * length ps" "leaf_data root = \<Union> (leaf_data ` set ps)" by blast
    have "root_of c (map node_Hash ts) (Suc k) (node_Hash root)"
      using 2 k(2) by (intro root_of.up [OF _ level_up_parents]) simp_all
    moreover have "length ts \<le> 2 ^ Suc k" using k(3) len by (simp add: mult_2)
    moreover have "2 ^ Suc k < 2 * length ts"
    proof -
      show ?thesis
      proof (cases k)
        case (Suc j)
        then have "(2::nat) ^ j < length ps" using k(4) by simp
        then show ?thesis using len Suc by simp
      qed (use 2(1) in simp)
    qed
    moreover have "leaf_data root = \<Union> (leaf_data ` set ts)" using k(5) parents_leaves [OF 2(2)] by simp
    ultimately show ?thesis using k(1) by (intro exI [of _ "Suc k"]) simp
  qed
qed

section \<open>The tree of given hashes\<close>

lemma DepthFirstSearch_adds:
  "distinct (map Data hashes) \<Longrightarrow>
     distinct (map Data (DepthFirstSearch t hashes)) \<and>
     Data ` set (DepthFirstSearch t hashes) = Data ` set hashes \<union> leaf_data t"
proof (induction t arbitrary: hashes)
  case (MLeaf h)
  have "list_ex (uint_eq h) hashes \<longleftrightarrow> Data h \<in> Data ` set hashes"
    by (auto simp: list_ex_iff uint_eq_def)
  then show ?case using MLeaf by (auto simp: set_add_def)
next
  case (MNode h l r)
  from MNode(1) [OF MNode(3)] MNode(2) [of "DepthFirstSearch l hashes"] show ?case by auto
qed

lemma UInt256_hash:
  "(\<And>b. length (sha256 c b) = 32) \<Longrightarrow> \<exists>h. UInt256 (Some (Hash256 c b)) = Inr h"
  by (simp add: UInt256_def UIntBase_new_def Hash256_def bin_dbl_sha256_def)

lemma merkle_parents_total:
  assumes "\<And>b. length (sha256 c b) = 32"
  shows "\<exists>ps. merkle_parents c ts = Inr ps"
proof -
  have "\<exists>p. merkle_parent c l r = Inr p" for l r
    using UInt256_hash [OF assms, of "Data (node_Hash l) @ Data (node_Hash r)"] by (auto simp: merkle_parent_def)
  then show ?thesis
  proof (induction c ts rule: merkle_parents.induct)
    case (2 c l)
    then obtain p where "merkle_parent c l l = Inr p" by blast
    then show ?case by simp
  next
    case (3 c l r leaves)
    then obtain p ps where "merkle_parent c l r = Inr p" "merkle_parents c leaves = Inr ps" by blast
    then show ?case by simp
  qed simp
qed

lemma merkle_build_total:
  assumes "\<And>b. length (sha256 c b) = 32" "ts \<noteq> []"
  shows "\<exists>root. merkle_build c ts = Inr root"
  using assms(2)
proof (induction "length ts" arbitrary: ts rule: less_induct)
  case less
  show ?case
  proof (cases "length ts = 1")
    case False
    obtain ps where ps: "merkle_parents c ts = Inr ps" using merkle_parents_total [OF assms(1)] by blast
    have "2 \<le> length ts" using less(2) False by (cases ts; cases "tl ts") auto
    then have "length ps < length ts" "0 < length ps" using length_merkle_parents [OF ps] by linarith+
    then have "length ps < length ts" "ps \<noteq> []" by auto
    then obtain root where "merkle_build c ps = Inr root" using less(1) by blast
    then show ?thesis using ps False less(2) by (subst merkle_build.simps) simp
  qed (subst merkle_build.simps, simp)
qed

text \<open>
  C33. The tree of one or more hashes always exists, as SHA-256 gives 32 bytes: it is a perfect binary
  tree whose depth is the least that has room for the hashes, its leaves are just those hashes, and
  \<open>ToHashArray\<close> lists each of them once.
\<close>

theorem merkle_tree_shape:
  assumes "\<And>b. length (sha256 c b) = 32" "hashes \<noteq> []"
  shows "\<exists>t n. MerkleTree c hashes = Inr t \<and> mt_Depth t = Suc n \<and> perfect n (mt_Root t) \<and>
    length hashes \<le> 2 ^ n \<and> 2 ^ n < 2 * length hashes \<and>
    distinct (map Data (ToHashArray t)) \<and> Data ` set (ToHashArray t) = Data ` set hashes"
proof -
  obtain root where root: "merkle_build c (map MLeaf hashes) = Inr root"
    using merkle_build_total [OF assms(1), of "map MLeaf hashes"] assms(2) by auto
  obtain n where n: "perfect n root" "length hashes \<le> 2 ^ n" "2 ^ n < 2 * length hashes"
    "leaf_data root = Data ` set hashes"
    using merkle_build_shape [OF root, of 0] by (auto simp: UNION_singleton_eq_range)
  then show ?thesis
    using root perfect_depth [OF n(1)] DepthFirstSearch_adds [of "[]" root]
    by (auto simp: MerkleTree_def ToHashArray_def)
qed

lemma merkle_tree_shape_witness:
  "\<exists>t n. MerkleTree sample_primitives [sample_uint 32, sample_uint 32, sample_uint 32] = Inr t \<and> mt_Depth t = Suc n \<and>
     perfect n (mt_Root t) \<and> n = 2"
proof -
  have "length (sha256 sample_primitives b) = 32" for b by (simp add: sample_primitives_def)
  from merkle_tree_shape [OF this, of "[sample_uint 32, sample_uint 32, sample_uint 32]"]
  obtain t n where t: "MerkleTree sample_primitives [sample_uint 32, sample_uint 32, sample_uint 32] = Inr t"
    "mt_Depth t = Suc n" "perfect n (mt_Root t)" "3 \<le> (2::nat) ^ n" "(2::nat) ^ n < 6" by auto
  moreover have "n = 2"
  proof -
    have "n < 3" using t(5) power_increasing [of 3 n "2::nat"] by (cases "3 \<le> n") auto
    moreover have "1 < n" using t(4) power_increasing [of n 1 "2::nat"] by (cases "n \<le> 1") auto
    ultimately show ?thesis by simp
  qed
  ultimately show ?thesis by blast
qed

section \<open>The root\<close>

lemma ComputeRoot_root_of:
  assumes "ComputeRoot c hashes = Inr r"
  shows "\<exists>k. root_of c hashes k r"
proof (cases "length hashes = 1")
  case True
  then obtain h where "hashes = [h]" by (auto simp: length_Suc_conv)
  then show ?thesis using assms root_of.top by (auto simp: ComputeRoot_def)
next
  case False
  then obtain root where "merkle_build c (map MLeaf hashes) = Inr root" "node_Hash root = r"
    using assms by (auto simp: ComputeRoot_def MerkleTree_def ebind_Inr_iff split: if_splits)
  then show ?thesis using merkle_build_shape [of c "map MLeaf hashes" root 0] by (auto simp: o_def)
qed

text \<open>
  The strings whose hashes make up the root: the pairs of a level, and those of the levels above.
\<close>

fun level_inputs :: "uint list \<Rightarrow> bytes set" where
  "level_inputs [] = {}"
| "level_inputs [h] = {Data h @ Data h}"
| "level_inputs (h # k # hs) = insert (Data h @ Data k) (level_inputs hs)"

inductive hashed :: "primitives \<Rightarrow> uint list \<Rightarrow> bytes \<Rightarrow> bool" for c where
  here: "2 \<le> length hs \<Longrightarrow> x \<in> level_inputs hs \<Longrightarrow> hashed c hs x"
| above: "2 \<le> length hs \<Longrightarrow> level_up c hs = Inr ps \<Longrightarrow> hashed c ps x \<Longrightarrow> hashed c hs x"

text \<open>Two different strings among those given that have the same hash.\<close>

definition clash :: "primitives \<Rightarrow> bytes set \<Rightarrow> bytes set \<Rightarrow> bool" where
  "clash c A B \<longleftrightarrow> (\<exists>x\<in>A. \<exists>y\<in>B. x \<noteq> y \<and> Hash256 c x = Hash256 c y)"

lemma clash_mono: "clash c A B \<Longrightarrow> A \<subseteq> A' \<Longrightarrow> B \<subseteq> B' \<Longrightarrow> clash c A' B'"
  by (auto simp: clash_def)

lemma join_binds:
  assumes "join c h k = Inr p" "join c h' k' = Inr q" "Data p = Data q"
    and "length (Data h) = length (Data h')"
  shows "clash c {Data h @ Data k} {Data h' @ Data k'} \<or> Data h = Data h' \<and> Data k = Data k'"
proof -
  have "Hash256 c (Data h @ Data k) = Hash256 c (Data h' @ Data k')"
    using assms(1-3) by (auto simp: join_def UInt256_def UIntBase_new_def split: if_splits)
  then show ?thesis using assms(4) by (auto simp: clash_def)
qed

lemma join_length: "join c h k = Inr p \<Longrightarrow> length (Data p) = 32"
  by (auto simp: join_def UInt256_def UIntBase_new_def split: if_splits)

lemma level_up_length:
  "level_up c hs = Inr ps \<Longrightarrow> (\<forall>p\<in>set ps. length (Data p) = 32) \<and> length ps = (length hs + 1) div 2"
  by (induction c hs arbitrary: ps rule: level_up.induct) (auto simp: ebind_Inr_iff join_length)

lemma level_up_binds:
  assumes "level_up c hs = Inr ps" "level_up c ks = Inr qs" "length hs = length ks" "map Data ps = map Data qs"
    and "\<forall>h\<in>set hs. length (Data h) = 32" "\<forall>k\<in>set ks. length (Data k) = 32"
  shows "clash c (level_inputs hs) (level_inputs ks) \<or> map Data hs = map Data ks"
  using assms
proof (induction c hs arbitrary: ks ps qs rule: level_up.induct)
  case (2 c h)
  then obtain k where "ks = [k]" by (cases ks) auto
  then show ?case using 2 join_binds [of c h h _ k k] by (auto simp: ebind_Inr_iff)
next
  case (3 c h h' hs)
  then obtain k k' ks' where ks: "ks = k # k' # ks'" by (cases ks; cases "tl ks") auto
  then obtain p ps' q qs' where s: "join c h h' = Inr p" "level_up c hs = Inr ps'" "ps = p # ps'"
      "join c k k' = Inr q" "level_up c ks' = Inr qs'" "qs = q # qs'"
    using 3(2,3) by (auto simp: ebind_Inr_iff)
  have "clash c (level_inputs hs) (level_inputs ks') \<or> map Data hs = map Data ks'"
    using 3(1) [OF s(2,5)] 3(4-7) s ks by simp
  moreover have "clash c {Data h @ Data h'} {Data k @ Data k'} \<or> Data h = Data k \<and> Data h' = Data k'"
    using join_binds [OF s(1,4)] 3(5-7) s ks by simp
  ultimately show ?case using ks by (auto intro: clash_mono)
qed simp

lemma root_of_binds:
  assumes "root_of c hs n r" "root_of c ks m q" "length hs = length ks" "Data r = Data q"
    and "\<forall>h\<in>set hs. length (Data h) = 32" "\<forall>k\<in>set ks. length (Data k) = 32"
  shows "clash c {x. hashed c hs x} {y. hashed c ks y} \<or> map Data hs = map Data ks"
  using assms
proof (induction arbitrary: ks m rule: root_of.induct)
  case (top h)
  from top(1) show ?case using top(2,3) by cases auto
next
  case (up hs ps n r)
  note hs = up(1,2) and IH = up(4) and same = up(6,7) and lengths = up(8,9)
  from up(5) show ?case
  proof cases
    case top
    then show ?thesis using hs same by simp
  next
    case (up qs m')
    note l = level_up_length [OF hs(2)] level_up_length [OF up(3)]
    have "clash c {x. hashed c ps x} {y. hashed c qs y} \<or> map Data ps = map Data qs"
      by (rule IH [OF up(4)]) (use same l in simp_all)
    moreover have "clash c (level_inputs hs) (level_inputs ks) \<or> map Data hs = map Data ks"
      if "map Data ps = map Data qs"
      using level_up_binds [OF hs(2) up(3) same(1) that lengths] .
    ultimately show ?thesis
      using hs up(2,3) by (auto intro: clash_mono hashed.intros)
  qed
qed

text \<open>
  C20. A Merkle root commits to the hashes it was computed from, for a given number of them: if two
  lists of as many hashes have the same root, they are the same, or two different strings hashed on
  the way to the two roots have the same double SHA-256.
\<close>

theorem merkle_root_binding:
  assumes "ComputeRoot c hs = Inr r" "ComputeRoot c ks = Inr q" "uint_eq r q" "length hs = length ks"
    and "\<forall>h\<in>set hs. length (Data h) = 32" "\<forall>k\<in>set ks. length (Data k) = 32"
  shows "list_all2 uint_eq hs ks \<or>
    (\<exists>x y. hashed c hs x \<and> hashed c ks y \<and> x \<noteq> y \<and> Hash256 c x = Hash256 c y)"
proof -
  obtain n m where "root_of c hs n r" "root_of c ks m q" using assms(1,2) ComputeRoot_root_of by blast
  then have "clash c {x. hashed c hs x} {y. hashed c ks y} \<or> map Data hs = map Data ks"
    using assms(3-6) root_of_binds [of c hs n r ks m q] by (simp add: uint_eq_def)
  moreover have "map Data hs = map Data ks \<Longrightarrow> list_all2 uint_eq hs ks"
    by (simp add: list_all2_conv_all_nth uint_eq_def list_eq_iff_nth_eq)
  ultimately show ?thesis unfolding clash_def by blast
qed

text \<open>Three zero hashes and a root of theirs, with the sample's truncating hash.\<close>

lemma sample_root: "ComputeRoot sample_primitives [sample_uint 32, sample_uint 32, sample_uint 32] = Inr (sample_uint 32)"
proof -
  have "Hash256 sample_primitives (replicate 32 0 @ replicate 32 0) = replicate 32 0"
    by (simp add: Hash256_def bin_dbl_sha256_def sample_primitives_def)
  moreover have "UIntBase_new 32 (Some (replicate 32 0)) = Inr (sample_uint 32)"
    using sample_hashes_ok(2) by (intro UIntBase_new_ok [of 32 "sample_uint 32", unfolded sample_uint_def uint.select_convs, folded sample_uint_def])
  ultimately show ?thesis
    by (simp add: ComputeRoot_def MerkleTree_def merkle_build.simps merkle_parent_def UInt256_def sample_uint_def)
qed

lemma merkle_root_binding_witness:
  "list_all2 uint_eq [sample_uint 32, sample_uint 32, sample_uint 32] [sample_uint 32, sample_uint 32, sample_uint 32] \<or>
    (\<exists>x y. hashed sample_primitives [sample_uint 32, sample_uint 32, sample_uint 32] x \<and>
      hashed sample_primitives [sample_uint 32, sample_uint 32, sample_uint 32] y \<and> x \<noteq> y \<and>
      Hash256 sample_primitives x = Hash256 sample_primitives y)"
  by (rule merkle_root_binding [OF sample_root sample_root]) (simp_all add: uint_eq_def sample_uint_def)

section \<open>Faults of the source\<close>

text \<open>
  The number of hashes is not part of the root: an odd level is completed with its last node, so a
  list and the same list with its last hash twice have one root, and a block whose last transaction
  is repeated has the root of the block without the repetition.
\<close>

lemma level_up_repeat: "odd (length hs) \<Longrightarrow> level_up c (hs @ [last hs]) = level_up c hs"
  by (induction c hs rule: level_up.induct) (auto simp: neq_Nil_conv)

lemma root_repeats_last:
  assumes "odd (length hs)" "length hs \<noteq> 1"
  shows "root_of c (hs @ [last hs]) n r = root_of c hs n r"
proof -
  have "2 \<le> length hs" using assms by (cases hs; cases "tl hs") auto
  then have long: "2 \<le> length hs" "2 \<le> length (hs @ [last hs])" by simp_all
  have up_iff: "root_of c ks n r \<longleftrightarrow> (\<exists>ps m. n = Suc m \<and> level_up c ks = Inr ps \<and> root_of c ps m r)" if "2 \<le> length ks" for ks
    using that by (subst root_of.simps) auto
  show ?thesis unfolding up_iff [OF long(1)] up_iff [OF long(2)] level_up_repeat [OF assms(1)] ..
qed

text \<open>\<open>_TrimNode\<close> gives both children the index of the left one, so the flags of right nodes are never read.\<close>

lemma trim_ignores_right:
  assumes "flags ! 0 = 0" "flags ! 1 = 0" "2 \<le> length flags"
  shows "TrimNode (MNode h (MNode a (MLeaf p) (MLeaf q)) (MNode b (MLeaf x) (MLeaf y))) 0 3 flags = Inr (MLeaf h)"
  using assms by (cases flags) (auto simp: py_nth_def py_index_def node_IsLeaf_def)

end
