(* ===== verification/Blocks.thy ===== *)
theory Blocks
  imports Merkle_Tree
begin

text \<open>
  \<open>neo/Core/BlockBase.py\<close>, \<open>Header.py\<close> and \<open>Block.py\<close>: the fields that are hashed, the script that
  signs them, and the transactions of a block with the Merkle root that stands for them.

  The headers by hash, the transactions by hash, and the verification of witnesses are parameters.
  The hash of a block and of a transaction is computed when it is asked for; the classes keep the
  first value in a field, which \<open>Deserialize\<close> clears. Not modelled: JSON, and \<open>FullTransactions\<close>,
  which gives the transactions as they are unless they are text.
\<close>

section \<open>The base of headers and blocks\<close>

record block_base =
  bb_Version :: int
  bb_PrevHash :: uint
  bb_MerkleRoot :: "uint option"
  bb_Timestamp :: int
  bb_Index :: int
  bb_ConsensusData :: int
  bb_NextConsensus :: uint
  bb_Script :: "witness option"

definition bb_SerializeUnsigned :: "block_base \<Rightarrow> (stream, unit) m" where
  "bb_SerializeUnsigned b =
     sq (WriteUInt32 (bb_Version b) LE)
       (sq (write256 (Some (bb_PrevHash b)))
       (sq (write256 (bb_MerkleRoot b))
       (sq (WriteUInt32 (bb_Timestamp b) LE)
       (sq (WriteUInt32 (bb_Index b) LE)
       (sq (WriteUInt64 (bb_ConsensusData b) LE)
         (write160 (Some (bb_NextConsensus b))))))))"

definition bb_DeserializeUnsigned :: "(stream, block_base) m" where
  "bb_DeserializeUnsigned =
     bnd (ReadUInt32 LE) (\<lambda>version.
     bnd ReadUInt256 (\<lambda>prev.
     bnd ReadUInt256 (\<lambda>root.
     bnd (ReadUInt32 LE) (\<lambda>timestamp.
     bnd (ReadUInt32 LE) (\<lambda>index.
     bnd (ReadUInt64 LE) (\<lambda>consensus.
     bnd ReadUInt160 (\<lambda>next_consensus.
       ret \<lparr>bb_Version = version, bb_PrevHash = prev, bb_MerkleRoot = Some root, bb_Timestamp = timestamp,
            bb_Index = index, bb_ConsensusData = consensus, bb_NextConsensus = next_consensus,
            bb_Script = None\<rparr>)))))))"

text \<open>A script that is None has no method \<open>Serialize\<close>.\<close>

definition write_script :: "witness option \<Rightarrow> (stream, unit) m" where
  "write_script script = (case script of None \<Rightarrow> throw AttributeError | Some w \<Rightarrow> wit_Serialize w)"

definition bb_Serialize :: "block_base \<Rightarrow> (stream, unit) m" where
  "bb_Serialize b =
     sq (bb_SerializeUnsigned b) (sq (WriteByte (PInt 1)) (write_script (bb_Script b)))"

definition bb_Deserialize :: "(stream, block_base) m" where
  "bb_Deserialize =
     bnd bb_DeserializeUnsigned (\<lambda>b.
     bnd read_ord (\<lambda>byt.
       if byt \<noteq> 1 then throw PlainException
       else bnd wit_Deserialize (\<lambda>w. ret (b\<lparr>bb_Script := Some w\<rparr>))))"

definition bb_Size :: "block_base \<Rightarrow> int" where
  "bb_Size b =
     4 + 32 + 32 + 4 + 4 + 8 + 20 + 1 + (case bb_Script b of None \<Rightarrow> 0 | Some w \<Rightarrow> wit_Size w)"

definition bb_IndexBytes :: "block_base \<Rightarrow> pyexc + bytes" where
  "bb_IndexBytes b = to_bytes_u 4 (bb_Index b)"

definition bb_RawData :: "block_base \<Rightarrow> (stream_manager, bytes) m" where
  "bb_RawData b = helper_GetHashData bb_SerializeUnsigned b"

definition bb_Hash :: "primitives \<Rightarrow> block_base \<Rightarrow> (stream_manager, uint) m" where
  "bb_Hash c b =
     bnd (bb_RawData b) (\<lambda>hashdata.
       case unhexlify hashdata of
         None \<Rightarrow> throw ValueError
       | Some ba \<Rightarrow> lft (UInt256 (Some (bin_dbl_sha256 c ba))))"

text \<open>
  Who has to sign: for the first block its own verification script, then the next consensus of the
  header before, from the snapshot (\<open>get_header\<close>).
\<close>

definition bb_GetScriptHashesForVerifying ::
  "(bytes \<Rightarrow> pyexc + block_base option) \<Rightarrow> block_base \<Rightarrow> pyexc + (bytes + uint) list" where
  "bb_GetScriptHashesForVerifying get_header b =
     (if Data (bb_PrevHash b) = replicate 32 0 then
        (case bb_Script b of
           None \<Rightarrow> Inl AttributeError
         | Some w \<Rightarrow> Inr [Inl (VerificationScript w)])
      else ebind (get_header (uint_ToBytes (bb_PrevHash b))) (\<lambda>h.
        case h of
          None \<Rightarrow> Inl PlainException
        | Some prev_header \<Rightarrow> Inr [Inr (bb_NextConsensus prev_header)]))"

definition bb_Verify ::
  "(bytes \<Rightarrow> pyexc + block_base option) \<Rightarrow> (block_base \<Rightarrow> pyexc + bool) \<Rightarrow> block_base \<Rightarrow> pyexc + bool" where
  "bb_Verify get_header verify_witnesses b =
     (if 0 < bb_Index b then
        ebind (get_header (uint_ToBytes (bb_PrevHash b))) (\<lambda>h.
          case h of
            None \<Rightarrow> Inr False
          | Some prev_header \<Rightarrow>
              if bb_Index prev_header + 1 \<noteq> bb_Index b then Inr False
              else if bb_Timestamp b \<le> bb_Timestamp prev_header then Inr False
              else verify_witnesses b)
      else verify_witnesses b)"

section \<open>Headers\<close>

definition header_Size :: "block_base \<Rightarrow> int" where
  "header_Size b = bb_Size b + 1"

definition header_Serialize :: "block_base \<Rightarrow> (stream, unit) m" where
  "header_Serialize b = sq (bb_Serialize b) (WriteByte (PInt 0))"

definition header_Deserialize :: "(stream, block_base) m" where
  "header_Deserialize =
     bnd bb_Deserialize (\<lambda>b. bnd read_ord (\<lambda>byt. if byt \<noteq> 0 then throw PlainException else ret b))"

text \<open>The byte before the witness is not looked at, and nothing is read after it.\<close>

definition read_trimmed :: "(stream, block_base) m" where
  "read_trimmed =
     bnd bb_DeserializeUnsigned (\<lambda>b.
     sq reader_ReadByte
       (bnd wit_Deserialize (\<lambda>w. ret (b\<lparr>bb_Script := Some w\<rparr>))))"

definition header_FromTrimmedData :: "bytes \<Rightarrow> (stream_manager, block_base) m" where
  "header_FromTrimmedData data =
     bnd (GetStream (Some data)) (\<lambda>ms.
     bnd (on_stream ms read_trimmed) (\<lambda>header. sq (ReleaseStream ms) (ret header)))"

definition header_Equals :: "primitives \<Rightarrow> block_base \<Rightarrow> block_base \<Rightarrow> (stream_manager, bool) m" where
  "header_Equals c b q = bnd (bb_Hash c b) (\<lambda>h. bnd (bb_Hash c q) (\<lambda>k. ret (uint_eq h k)))"

section \<open>Blocks\<close>

record block =
  blk_base :: block_base
  Transactions :: "tx list"

definition blk_Header :: "block \<Rightarrow> block_base" where
  "blk_Header b = (blk_base b)\<lparr>bb_Version := 0\<rparr>"

definition blk_Size :: "block \<Rightarrow> pyexc + int" where
  "blk_Size b = ebind (GetVarSize_checked tx_Size (Transactions b)) (\<lambda>n. Inr (bb_Size (blk_base b) + n))"

fun sum_fees :: "fee_env \<Rightarrow> fixed8 \<Rightarrow> tx list \<Rightarrow> pyexc + fixed8" where
  "sum_fees g amount [] = Inr amount"
| "sum_fees g amount (t # ts) = ebind (SystemFee g t) (\<lambda>fee. sum_fees g (fx_add amount fee) ts)"

definition TotalFees :: "fee_env \<Rightarrow> block \<Rightarrow> pyexc + fixed8" where
  "TotalFees g b = sum_fees g fx_Zero (Transactions b)"

text \<open>\<open>[tx.Hash for tx in self.Transactions]\<close>, each with a stream from the pool.\<close>

primrec tx_Hashes :: "primitives \<Rightarrow> tx list \<Rightarrow> (stream_manager, uint list) m" where
  "tx_Hashes c [] = ret []"
| "tx_Hashes c (t # ts) = bnd (tx_Hash c t) (\<lambda>h. bnd (tx_Hashes c ts) (\<lambda>hs. ret (h # hs)))"

definition RebuildMerkleRoot :: "primitives \<Rightarrow> block \<Rightarrow> (stream_manager, block) m" where
  "RebuildMerkleRoot c b =
     (if 0 < length (Transactions b) then
        bnd (tx_Hashes c (Transactions b)) (\<lambda>hs.
        bnd (lft (ComputeRoot c hs)) (\<lambda>root. ret (b\<lparr>blk_base := (blk_base b)\<lparr>bb_MerkleRoot := Some root\<rparr>\<rparr>)))
      else ret b)"

text \<open>The reader is on stream \<open>i\<close> of the pool; an unset root equals no hash.\<close>

definition root_matches :: "uint \<Rightarrow> uint option \<Rightarrow> bool" where
  "root_matches root expected = (case expected of None \<Rightarrow> False | Some r \<Rightarrow> uint_eq root r)"

definition blk_Deserialize :: "primitives \<Rightarrow> nat \<Rightarrow> (stream_manager, block) m" where
  "blk_Deserialize c i =
     bnd (on_stream i bb_Deserialize) (\<lambda>base.
     bnd (on_stream i (ReadVarInt maxsize)) (\<lambda>transaction_length.
       if transaction_length < 1 then throw PlainException
       else bnd (on_stream i (repeatm (nat transaction_length) DeserializeFrom)) (\<lambda>txs.
         bnd (tx_Hashes c txs) (\<lambda>hs.
         bnd (lft (ComputeRoot c hs)) (\<lambda>root.
           if \<not> root_matches root (bb_MerkleRoot base) then throw PlainException
           else ret \<lparr>blk_base = base, Transactions = txs\<rparr>)))))"

definition blk_DeserializeForImport :: "(stream, block) m" where
  "blk_DeserializeForImport =
     bnd bb_Deserialize (\<lambda>base.
     bnd (ReadVarInt maxsize) (\<lambda>transaction_length.
     bnd (repeatm (nat transaction_length) DeserializeFrom) (\<lambda>txs.
       if length txs < 1 then throw PlainException else ret \<lparr>blk_base = base, Transactions = txs\<rparr>)))"

definition blk_Serialize :: "block \<Rightarrow> (stream, unit) m" where
  "blk_Serialize b = sq (bb_Serialize (blk_base b)) (WriteSerializableArray tx_Serialize (Transactions b))"

definition blk_Trim :: "primitives \<Rightarrow> block \<Rightarrow> (stream_manager, bytes) m" where
  "blk_Trim c b =
     bnd (GetStream None) (\<lambda>ms.
     sq (on_stream ms (bb_Serialize (blk_base b)))
       (bnd (tx_Hashes c (Transactions b)) (\<lambda>hs.
       sq (on_stream ms (WriteHashes (map uint_ToBytes hs)))
         (bnd (gets (\<lambda>s. stream_ToArray (streams s ms))) (\<lambda>retVal.
         sq (ReleaseStream ms) (ret retVal))))))"

text \<open>\<open>bc.GetTransaction(tx_hash)[0]\<close> is the parameter \<open>lookup\<close>.\<close>

fun find_transactions :: "(bytes \<Rightarrow> tx option) \<Rightarrow> bytes list \<Rightarrow> pyexc + tx list" where
  "find_transactions lookup [] = Inr []"
| "find_transactions lookup (h # hs) =
     (case lookup h of
        None \<Rightarrow> Inl PlainException
      | Some t \<Rightarrow> ebind (find_transactions lookup hs) (\<lambda>ts. Inr (t # ts)))"

definition blk_FromTrimmedData :: "(bytes \<Rightarrow> tx option) \<Rightarrow> bytes \<Rightarrow> (stream_manager, block) m" where
  "blk_FromTrimmedData lookup byts =
     bnd (GetStream (Some byts)) (\<lambda>ms.
     bnd (on_stream ms read_trimmed) (\<lambda>base.
     bnd (on_stream ms ReadHashes) (\<lambda>hs.
     bnd (lft (find_transactions lookup hs)) (\<lambda>txs.
       if length txs < 1 then throw PlainException
       else sq (ReleaseStream ms) (ret \<lparr>blk_base = base, Transactions = txs\<rparr>)))))"

lemmas block_defs = bb_SerializeUnsigned_def bb_DeserializeUnsigned_def write_script_def bb_Serialize_def
  bb_Deserialize_def bb_Size_def bb_IndexBytes_def bb_RawData_def bb_Hash_def
  bb_GetScriptHashesForVerifying_def bb_Verify_def header_Size_def header_Serialize_def
  header_Deserialize_def read_trimmed_def header_FromTrimmedData_def header_Equals_def blk_Header_def
  blk_Size_def TotalFees_def RebuildMerkleRoot_def root_matches_def blk_Deserialize_def
  blk_DeserializeForImport_def blk_Serialize_def blk_Trim_def blk_FromTrimmedData_def

declare block_defs [model_defs]

end
