(* ===== verification/Block_Properties.thy ===== *)
theory Block_Properties
  imports Blocks Transaction_Properties Merkle_Properties
begin

text \<open>
  What headers and blocks promise: their formats are read back; a block is accepted when the Merkle
  root of its transactions is the one it names, and refused otherwise; a block trimmed to the hashes
  of its transactions is found again from them.
\<close>

section \<open>Formats\<close>

definition bb_unsigned_ok :: "block_base \<Rightarrow> bool" where
  "bb_unsigned_ok b \<longleftrightarrow> 0 \<le> bb_Version b \<and> bb_Version b < 2 ^ 32 \<and> uint_ok 32 (bb_PrevHash b) \<and>
     (case bb_MerkleRoot b of None \<Rightarrow> False | Some r \<Rightarrow> uint_ok 32 r) \<and>
     0 \<le> bb_Timestamp b \<and> bb_Timestamp b < 2 ^ 32 \<and> 0 \<le> bb_Index b \<and> bb_Index b < 2 ^ 32 \<and>
     0 \<le> bb_ConsensusData b \<and> bb_ConsensusData b < 2 ^ 64 \<and> uint_ok 20 (bb_NextConsensus b)"

definition bb_ok :: "block_base \<Rightarrow> bool" where
  "bb_ok b \<longleftrightarrow> bb_unsigned_ok b \<and> (case bb_Script b of None \<Rightarrow> False | Some w \<Rightarrow> wit_ok w)"

definition bb_unsigned_enc :: "block_base \<Rightarrow> bytes" where
  "bb_unsigned_enc b =
     int_bytes 4 (bb_Version b) @ Data (bb_PrevHash b) @ Data (the (bb_MerkleRoot b)) @ int_bytes 4 (bb_Timestamp b) @
     int_bytes 4 (bb_Index b) @ int_bytes 8 (bb_ConsensusData b) @ Data (bb_NextConsensus b)"

definition bb_enc :: "block_base \<Rightarrow> bytes" where
  "bb_enc b = bb_unsigned_enc b @ [1] @ wit_enc (the (bb_Script b))"

lemma bb_fields:
  assumes "bb_unsigned_ok b"
  obtains root where "bb_MerkleRoot b = Some root" "uint_ok 32 root" "0 \<le> bb_Version b" "bb_Version b < 2 ^ 32"
    "uint_ok 32 (bb_PrevHash b)" "0 \<le> bb_Timestamp b" "bb_Timestamp b < 2 ^ 32" "0 \<le> bb_Index b" "bb_Index b < 2 ^ 32"
    "0 \<le> bb_ConsensusData b" "bb_ConsensusData b < 2 ^ 64" "uint_ok 20 (bb_NextConsensus b)"
  using assms by (auto simp: bb_unsigned_ok_def split: option.splits)

lemma emits_bb_unsigned:
  assumes "bb_unsigned_ok b"
  shows "emits (bb_SerializeUnsigned b) (bb_unsigned_enc b) ()"
proof -
  obtain root where f: "bb_MerkleRoot b = Some root" "uint_ok 32 root" "0 \<le> bb_Version b" "bb_Version b < 2 ^ 32"
    "uint_ok 32 (bb_PrevHash b)" "0 \<le> bb_Timestamp b" "bb_Timestamp b < 2 ^ 32" "0 \<le> bb_Index b" "bb_Index b < 2 ^ 32"
    "0 \<le> bb_ConsensusData b" "bb_ConsensusData b < 2 ^ 64" "uint_ok 20 (bb_NextConsensus b)"
    by (rule bb_fields [OF assms])
  show ?thesis
    unfolding bb_SerializeUnsigned_def bb_unsigned_enc_def f(1) option.sel by (rule emits_sq emits_intros f)+
qed

lemma reads_bb_unsigned:
  assumes "bb_unsigned_ok b"
  shows "reads bb_DeserializeUnsigned (bb_unsigned_enc b) (b\<lparr>bb_Script := None\<rparr>)"
proof -
  obtain root where f: "bb_MerkleRoot b = Some root" "uint_ok 32 root" "0 \<le> bb_Version b" "bb_Version b < 2 ^ 32"
    "uint_ok 32 (bb_PrevHash b)" "0 \<le> bb_Timestamp b" "bb_Timestamp b < 2 ^ 32" "0 \<le> bb_Index b" "bb_Index b < 2 ^ 32"
    "0 \<le> bb_ConsensusData b" "bb_ConsensusData b < 2 ^ 64" "uint_ok 20 (bb_NextConsensus b)"
    by (rule bb_fields [OF assms])
  show ?thesis
    unfolding bb_DeserializeUnsigned_def bb_unsigned_enc_def f(1) option.sel
    by (rule reads_step f | (use f(1) in \<open>cases b; simp; fail\<close>))+
qed

interpretation block_base_codec: codec bb_Serialize bb_Deserialize bb_enc bb_ok
proof
  fix b assume "bb_ok b"
  then obtain w where u: "bb_unsigned_ok b" and w: "bb_Script b = Some w" "wit_ok w"
    by (auto simp: bb_ok_def split: option.splits)
  have "emits (bb_SerializeUnsigned b) (bb_unsigned_enc b) ()" using u by (rule emits_bb_unsigned)
  moreover have "emits (WriteByte (PInt 1)) [1] ()" using emits_WriteByte [of 1] by simp
  moreover have "emits (write_script (bb_Script b)) (wit_enc w) ()"
    using witness_codec.ser_emits [OF w(2)] by (simp add: write_script_def w(1))
  ultimately show "emits (bb_Serialize b) (bb_enc b) ()"
    unfolding bb_Serialize_def bb_enc_def w(1) option.sel by (intro emits_sq)
  have one: "reads read_ord [1] 1" using reads_read_ord [of 1] by simp
  have wit: "reads (bnd wit_Deserialize (\<lambda>w. ret ((b\<lparr>bb_Script := None\<rparr>)\<lparr>bb_Script := Some w\<rparr>))) (wit_enc w) b"
    by (rule reads_bnd_ret [OF witness_codec.deser_reads [OF w(2)]]) (use w(1) in \<open>cases b; simp\<close>)
  show "reads bb_Deserialize (bb_enc b) b"
    unfolding bb_Deserialize_def bb_enc_def w(1) option.sel
    by (rule reads_bnd, rule reads_bb_unsigned [OF u], rule reads_bnd, rule one) (use wit in simp)
qed

definition header_enc :: "block_base \<Rightarrow> bytes" where
  "header_enc b = bb_enc b @ [0]"

interpretation header_codec: codec header_Serialize header_Deserialize header_enc bb_ok
proof
  fix b assume ok: "bb_ok b"
  have "emits (WriteByte (PInt 0)) [0] ()" using emits_WriteByte [of 0] by simp
  with block_base_codec.ser_emits [OF ok] show "emits (header_Serialize b) (header_enc b) ()"
    unfolding header_Serialize_def header_enc_def by (rule emits_sq)
  have "reads (bnd read_ord (\<lambda>byt. if byt \<noteq> 0 then throw PlainException else ret b)) [0] b"
    using reads_bnd [OF reads_read_ord [of 0], of "\<lambda>byt. if byt \<noteq> 0 then throw PlainException else ret b" "[]" b]
    by (simp add: reads_ret)
  with block_base_codec.deser_reads [OF ok] show "reads header_Deserialize (header_enc b) b"
    unfolding header_Deserialize_def header_enc_def by (rule reads_bnd)
qed

lemma reads_trimmed:
  assumes "bb_ok b"
  shows "reads read_trimmed (bb_enc b) b"
proof -
  obtain w where u: "bb_unsigned_ok b" and w: "bb_Script b = Some w" "wit_ok w"
    using assms by (auto simp: bb_ok_def split: option.splits)
  have wit: "reads (bnd wit_Deserialize (\<lambda>w. ret ((b\<lparr>bb_Script := None\<rparr>)\<lparr>bb_Script := Some w\<rparr>))) (wit_enc w) b"
    by (rule reads_bnd_ret [OF witness_codec.deser_reads [OF w(2)]]) (use w(1) in \<open>cases b; simp\<close>)
  show ?thesis
    unfolding read_trimmed_def bb_enc_def w(1) option.sel
    by (rule reads_bnd, rule reads_bb_unsigned [OF u], rule reads_sq, rule reads_reader_ReadByte, rule wit)
qed

text \<open>A header is stored with the byte after it, which its trimmed form leaves on the stream.\<close>

lemma bb_size:
  assumes "bb_ok b" "int (length (bb_enc b)) < 2 ^ 32"
  shows "bb_Size b = int (length (bb_enc b))"
proof -
  obtain w root where w: "bb_Script b = Some w" "bb_MerkleRoot b = Some root" "uint_ok 32 root"
      "uint_ok 32 (bb_PrevHash b)" "uint_ok 20 (bb_NextConsensus b)"
    using assms(1) by (auto simp: bb_ok_def bb_unsigned_ok_def split: option.splits)
  then have "wit_Size w = int (length (wit_enc w))"
    using assms(2) by (intro wit_size) (simp add: bb_enc_def)
  with w show ?thesis by (simp add: bb_Size_def bb_enc_def bb_unsigned_enc_def uint_ok_def)
qed

section \<open>Hashes from the pool\<close>

definition in_use :: "stream_manager \<Rightarrow> nat set" where
  "in_use s = set (mstreams s) - set (mstreams_available s)"

definition pool_keeps :: "stream_manager \<Rightarrow> stream_manager \<Rightarrow> bool" where
  "pool_keeps s s' \<longleftrightarrow> (\<forall>j\<in>in_use s. j \<in> in_use s' \<and> streams s' j = streams s j)"

lemma pool_keeps_refl [simp]: "pool_keeps s s" by (simp add: pool_keeps_def)

lemma pool_keeps_trans: "pool_keeps s t \<Longrightarrow> pool_keeps t u \<Longrightarrow> pool_keeps s u"
  by (auto simp: pool_keeps_def)

lemma GetStream_keeps:
  assumes "pool_wf s" "GetStream data s = (Val i, s')"
  shows "i \<notin> in_use s" "i \<in> in_use s'" "pool_keeps s s'"
proof -
  have "i \<notin> in_use s \<and> i \<in> in_use s' \<and> pool_keeps s s'"
  proof (cases "mstreams_available s" rule: rev_cases)
    case Nil
    have m: "mstreams s = [0..<length (mstreams s)]" using assms(1) by (simp add: pool_wf_def)
    have "length (mstreams s) \<notin> set (mstreams s)" by (subst m) simp
    then show ?thesis
      using assms(2) Nil by (auto simp: run_GetStream_new in_use_def pool_keeps_def)
  next
    case (snoc xs k)
    then have "streams s k = stream_empty" using assms(1) by (simp add: pool_wf_def)
    then show ?thesis
      using assms snoc run_GetStream_pooled [OF snoc] by (auto simp: in_use_def pool_keeps_def pool_wf_def)
  qed
  then show "i \<notin> in_use s" "i \<in> in_use s'" "pool_keeps s s'" by simp_all
qed

lemma on_stream_keeps:
  assumes "on_stream i p s = (r, s')"
  shows "in_use s' = in_use s" "j \<noteq> i \<Longrightarrow> streams s' j = streams s j"
    "mstreams s' = mstreams s" "mstreams_available s' = mstreams_available s"
  using assms by (auto simp: on_stream_def in_use_def split: prod.splits)

lemma GetHashData_keeps:
  assumes "pool_wf s" "helper_GetHashData ser x s = (Val v, s')"
  shows "pool_keeps s s'"
proof -
  obtain i s1 where g: "GetStream None s = (Val i, s1)" using GetStream_clean [OF assms(1), of None] by metis
  note k = GetStream_keeps [OF assms(1) g]
  obtain r s2 where w: "on_stream i (ser x) s1 = (r, s2)" by (cases "on_stream i (ser x) s1")
  have "s' = snd (ReleaseStream i s2)"
    using assms(2) g w by (auto simp: helper_GetHashData_def bnd_def sq_def gets_def ret_def run_ReleaseStream split: res.splits)
  then show ?thesis
    using k on_stream_keeps [OF w] by (auto simp: pool_keeps_def in_use_def run_ReleaseStream)
qed

text \<open>The hash of a transaction, from the format of its unsigned part.\<close>

definition tx_id :: "primitives \<Rightarrow> tx \<Rightarrow> uint" where
  "tx_id c t = (let d = Hash256 c (unsigned_enc (unsigned t)) in \<lparr>Data = d, uint_hash = GetHashCode d\<rparr>)"

lemma tx_Hash_ok:
  assumes "unsigned_ok t" "pool_wf s" "\<And>b. length (sha256 c b) = 32"
  shows "\<exists>s'. tx_Hash c t s = (Val (tx_id c t), s') \<and> pool_wf s' \<and> pool_keeps s s'"
proof -
  obtain s' where s': "tx_GetHashData t s = (Val (hexlify (unsigned_enc (unsigned t))), s')" "pool_wf s'"
    using GetHashData_ok [OF assms(1,2)] by blast
  then have "pool_keeps s s'" using GetHashData_keeps [OF assms(2)] by (simp add: tx_GetHashData_def)
  with s' show ?thesis
    by (simp add: tx_Hash_def bnd_def lft_def UInt256_def UIntBase_new_def tx_id_def Let_def Hash256_def
        bin_dbl_sha256_def assms(3))
qed

lemma tx_Hashes_ok:
  assumes "\<forall>t\<in>set ts. unsigned_ok t" "pool_wf s" "\<And>b. length (sha256 c b) = 32"
  shows "\<exists>s'. tx_Hashes c ts s = (Val (map (tx_id c) ts), s') \<and> pool_wf s' \<and> pool_keeps s s'"
  using assms(1,2)
proof (induction ts arbitrary: s)
  case (Cons t ts)
  obtain s1 where s1: "tx_Hash c t s = (Val (tx_id c t), s1)" "pool_wf s1" "pool_keeps s s1"
    using tx_Hash_ok [OF _ Cons.prems(2) assms(3)] Cons.prems(1) by auto
  obtain s2 where "tx_Hashes c ts s1 = (Val (map (tx_id c) ts), s2)" "pool_wf s2" "pool_keeps s1 s2"
    using Cons.IH [OF _ s1(2)] Cons.prems(1) by auto
  with s1 show ?case by (auto simp: bnd_def ret_def intro: pool_keeps_trans)
qed (simp add: ret_def)

section \<open>Blocks\<close>

definition blk_ok :: "block \<Rightarrow> bool" where
  "blk_ok b \<longleftrightarrow> bb_ok (blk_base b) \<and> array_ok tx_ok (Transactions b) \<and> Transactions b \<noteq> []"

definition blk_enc :: "block \<Rightarrow> bytes" where
  "blk_enc b = bb_enc (blk_base b) @ array_enc tx_enc (Transactions b)"

lemma emits_blk:
  assumes "blk_ok b"
  shows "emits (blk_Serialize b) (blk_enc b) ()"
  unfolding blk_Serialize_def blk_enc_def
  by (rule emits_sq [OF block_base_codec.ser_emits transaction.array_emits]) (use assms in \<open>simp_all add: blk_ok_def\<close>)

lemma on_stream_reads:
  assumes "reads p bs x" "streams s i = cursor pre (bs @ post)"
  shows "on_stream i p s = (Val x, s\<lparr>streams := (streams s)(i := cursor (pre @ bs) post)\<rparr>)"
  using assms by (simp add: on_stream_def reads_def)

lemma pool_in_use:
  assumes "pool_wf s" "i \<in> in_use s"
  shows "pool_wf (s\<lparr>streams := (streams s)(i := t)\<rparr>)" "in_use (s\<lparr>streams := (streams s)(i := t)\<rparr>) = in_use s"
  using assms by (auto simp: pool_wf_def in_use_def)

lemma reads_transactions:
  "array_ok tx_ok txs \<Longrightarrow> reads (repeatm (nat (int (length txs))) DeserializeFrom) (concat (map tx_enc txs)) txs"
  by (rule reads_repeatm) (auto simp: array_ok_def list_all_iff intro: transaction.deser_reads)

lemma ComputeRoot_total:
  assumes "\<And>b. length (sha256 c b) = 32" "hs \<noteq> []"
  shows "\<exists>root. ComputeRoot c hs = Inr root"
  using merkle_build_total [OF assms(1), of "map MLeaf hs"] assms(2)
  by (auto simp: ComputeRoot_def MerkleTree_def)

text \<open>
  C9. A block is read from the bytes \<open>Block.Serialize\<close> writes, up to their end and wherever they are
  on the reader's stream, and is accepted just when the Merkle root of its transactions' hashes is
  the root in its header; otherwise the exception \<open>Merkle Root Mismatch\<close> is raised. The streams
  used for the hashes go back to the pool.
\<close>

theorem block_checks_root:
  assumes "blk_ok b" "pool_wf s" "i \<in> in_use s" "streams s i = cursor pre (blk_enc b @ post)"
    and "\<And>b. length (sha256 c b) = 32"
  shows "emits (blk_Serialize b) (blk_enc b) () \<and>
    (\<exists>root s'. ComputeRoot c (map (tx_id c) (Transactions b)) = Inr root \<and>
      blk_Deserialize c i s = (if root_matches root (bb_MerkleRoot (blk_base b)) then Val b else Exc PlainException, s') \<and>
      pool_wf s' \<and> streams s' i = cursor (pre @ blk_enc b) post)"
proof -
  let ?txs = "Transactions b" and ?base = "blk_base b"
  have ok: "bb_ok ?base" "array_ok tx_ok ?txs" "?txs \<noteq> []" "int (length ?txs) \<le> maxsize"
      "\<forall>t\<in>set ?txs. unsigned_ok t"
    using assms(1) by (auto simp: blk_ok_def array_ok_def list_all_iff tx_ok_def)
  define n where "n = var_int (int (length ?txs))"
  define items where "items = concat (map tx_enc ?txs)"
  define at where "at = (\<lambda>p q. s\<lparr>streams := (streams s)(i := cursor p q)\<rparr>)"
  have base: "on_stream i bb_Deserialize s = (Val ?base, at (pre @ bb_enc ?base) (n @ items @ post))"
    using on_stream_reads [OF block_base_codec.deser_reads [OF ok(1)], of s i pre] assms(4)
    by (simp add: blk_enc_def array_enc_def at_def n_def items_def)
  have count: "on_stream i (ReadVarInt maxsize) (at p (n @ q)) = (Val (int (length ?txs)), at (p @ n) q)" for p q
    using on_stream_reads [OF reads_ReadVarInt_length [OF ok(4)], of "at p (n @ q)" i p q] by (simp add: at_def n_def)
  have txs: "on_stream i (repeatm (nat (int (length ?txs))) DeserializeFrom) (at p (items @ q)) = (Val ?txs, at (p @ items) q)" for p q
    using on_stream_reads [OF reads_transactions [OF ok(2)], of "at p (items @ q)" i p q] by (simp add: at_def items_def)
  let ?s = "at (pre @ blk_enc b) post"
  have "pool_wf ?s" "i \<in> in_use ?s" using pool_in_use [OF assms(2,3)] assms(3) by (simp_all add: at_def)
  then obtain s' where s': "tx_Hashes c ?txs ?s = (Val (map (tx_id c) ?txs), s')" "pool_wf s'" "pool_keeps ?s s'"
    using tx_Hashes_ok [OF ok(5) _ assms(5)] by blast
  obtain root where root: "ComputeRoot c (map (tx_id c) ?txs) = Inr root"
    using ComputeRoot_total [OF assms(5), of "map (tx_id c) ?txs"] ok(3) by auto
  have "?s = at (pre @ bb_enc ?base @ n @ items) post" by (simp add: blk_enc_def array_enc_def n_def items_def)
  then have "blk_Deserialize c i s =
      (if root_matches root (bb_MerkleRoot ?base) then Val b else Exc PlainException, s')"
    using base count [of "pre @ bb_enc ?base" "items @ post"] txs [of "pre @ bb_enc ?base @ n" post] s'(1) root ok(3)
    by (cases b) (simp add: blk_Deserialize_def bnd_def lft_def ret_def throw_def)
  moreover have "streams s' i = cursor (pre @ blk_enc b) post"
    using s'(3) \<open>i \<in> in_use ?s\<close> by (simp add: pool_keeps_def at_def)
  ultimately show ?thesis using emits_blk [OF assms(1)] root s'(2) by blast
qed

definition sample_block :: block where
  "sample_block =
     \<lparr>blk_base =
        \<lparr>bb_Version = 0, bb_PrevHash = sample_uint 32, bb_MerkleRoot = Some (tx_id sample_primitives sample_tx),
         bb_Timestamp = 1468595301, bb_Index = 7, bb_ConsensusData = 2083236893, bb_NextConsensus = sample_uint 20,
         bb_Script = Some \<lparr>InvocationScript = [0x51], VerificationScript = [0xac]\<rparr>\<rparr>,
      Transactions = [sample_tx]\<rparr>"

lemma sample_tx_id: "uint_ok 32 (tx_id sample_primitives sample_tx)"
proof -
  obtain bs where bs: "unsigned_enc (unsigned sample_tx) = 0xd1 # bs"
    by (simp add: unsigned_enc_def unsigned_def sample_tx_def tx_Type_def TransactionType_def)
  then have "Hash256 sample_primitives (unsigned_enc (unsigned sample_tx)) = 0xd1 # take 31 (take 31 (bs @ replicate 32 0) @ replicate 32 0)"
    by (simp add: Hash256_def bin_dbl_sha256_def sample_primitives_def)
  moreover have "unhexlify (0xd1 # bs) = None" for bs by (cases bs) (simp_all add: hex_val_def)
  ultimately show ?thesis by (simp add: tx_id_def uint_ok_def Let_def)
qed

lemma sample_block_ok: "blk_ok sample_block"
  using sample_tx_ok sample_tx_id
  by (simp add: sample_block_def blk_ok_def array_ok_def bb_ok_def bb_unsigned_ok_def sample_hashes_ok wit_ok_def maxsize_def)

definition sample_reading :: "bytes \<Rightarrow> stream_manager" where
  "sample_reading bs = \<lparr>streams = (\<lambda>_. stream_empty)(0 := cursor [] bs), mstreams = [0], mstreams_available = []\<rparr>"

lemma sha256_sample: "length (sha256 sample_primitives b) = 32"
  by (simp add: sample_primitives_def)

lemma block_checks_root_witness:
  "\<exists>s'. blk_Deserialize sample_primitives 0 (sample_reading (blk_enc sample_block)) = (Val sample_block, s')"
proof -
  have "pool_wf (sample_reading bs)" "0 \<in> in_use (sample_reading bs)" "streams (sample_reading bs) 0 = cursor [] bs" for bs
    by (simp_all add: sample_reading_def pool_wf_def in_use_def)
  with block_checks_root [OF sample_block_ok, of "sample_reading (blk_enc sample_block)" 0 "[]" "[]", OF _ _ _ sha256_sample]
  show ?thesis by (auto simp: sample_block_def ComputeRoot_def root_matches_def uint_eq_def)
qed

section \<open>Trimmed blocks\<close>

definition trimmed_enc :: "primitives \<Rightarrow> block \<Rightarrow> bytes" where
  "trimmed_enc c b = bb_enc (blk_base b) @ array_enc Data (map (tx_id c) (Transactions b))"

lemma emits_write_reversed:
  assumes "uint_ok 32 h"
  shows "emits (write_reversed (uint_ToBytes h)) (Data h) ()"
proof -
  have "unhexlify (uint_ToBytes h) = Some (rev (Data h))"
    using unhexlify_hexlify [of "rev (Data h)"] by (simp add: uint_ToBytes_def uint_ToString_def hexlify_def)
  then show ?thesis
    using assms emits_sq_ret [OF emits_WriteBytes, of "Data h" "()"] by (simp add: write_reversed_def uint_ok_def)
qed

lemma emits_WriteHashes:
  assumes "array_ok (uint_ok 32) hs"
  shows "emits (WriteHashes (map uint_ToBytes hs)) (array_enc Data hs) ()"
proof -
  have "mapm write_reversed (map uint_ToBytes hs) = mapm (\<lambda>h. write_reversed (uint_ToBytes h)) hs"
    by (induction hs) simp_all
  then show ?thesis
    unfolding WriteHashes_def array_enc_def length_map
    by (simp only:) (rule emits_sq [OF emits_WriteVarInt_length emits_mapm];
        use assms emits_write_reversed in \<open>auto simp: array_ok_def list_all_iff\<close>)
qed

lemma reads_ReadHashes:
  assumes "array_ok (uint_ok 32) hs"
  shows "reads ReadHashes (array_enc Data hs) (map uint_ToBytes hs)"
proof -
  let ?item = "bnd (ReadBytes 32) (\<lambda>ba. ret (hexlify (rev ba)))"
  have len: "\<And>h. h \<in> set hs \<Longrightarrow> length (Data h) = 32" "int (length hs) \<le> maxsize"
    using assms by (auto simp: array_ok_def list_all_iff uint_ok_def)
  have one: "reads ?item (Data h) (uint_ToBytes h)" if "h \<in> set hs" for h
    using reads_exactly [OF len(1) [OF that]]
    by (intro reads_bnd_ret) (simp_all add: uint_ToBytes_def uint_ToString_def hexlify_def)
  have "reads (repeatm (length hs) ?item) (concat (map Data hs)) (map uint_ToBytes hs)"
    using one
  proof (induction hs)
    case (Cons h hs)
    have "reads (bnd ?item (\<lambda>x. bnd (repeatm (length hs) ?item) (\<lambda>xs. ret (x # xs))))
      (Data h @ concat (map Data hs)) (uint_ToBytes h # map uint_ToBytes hs)"
      by (rule reads_bnd, rule Cons.prems, simp, rule reads_bnd_ret, rule Cons.IH, rule Cons.prems) simp_all
    then show ?case by simp
  qed (simp add: reads_ret)
  then have "reads (repeatm (nat (int (length hs))) ?item) (concat (map Data hs)) (map uint_ToBytes hs)"
    by (simp only: nat_int)
  then show ?thesis
    unfolding ReadHashes_def array_enc_def by (rule reads_bnd [OF reads_ReadVarInt_length [OF len(2)]])
qed

lemma find_transactions_all:
  "\<forall>t\<in>set ts. lookup (key t) = Some t \<Longrightarrow> find_transactions lookup (map key ts) = Inr ts"
  by (induction ts) simp_all

lemma release_in_use:
  assumes "pool_wf s" "i \<in> in_use s"
  shows "pool_wf (snd (ReleaseStream i (s\<lparr>streams := (streams s)(i := t)\<rparr>)))"
  by (rule pool_ReleaseStream [OF pool_in_use(1) [OF assms]]) (use assms(2) in \<open>simp_all add: in_use_def\<close>)

definition trimmable :: "primitives \<Rightarrow> block \<Rightarrow> bool" where
  "trimmable c b \<longleftrightarrow> blk_ok b \<and> list_all (\<lambda>t. uint_ok 32 (tx_id c t)) (Transactions b)"

lemma trimmable_facts:
  assumes "trimmable c b"
  shows "bb_ok (blk_base b)" "Transactions b \<noteq> []" "\<forall>t\<in>set (Transactions b). unsigned_ok t"
    "array_ok (uint_ok 32) (map (tx_id c) (Transactions b))"
  using assms by (auto simp: trimmable_def blk_ok_def array_ok_def list_all_iff tx_ok_def)

lemma Trim_ok:
  assumes "trimmable c b" "pool_wf s" "\<And>b. length (sha256 c b) = 32"
  shows "\<exists>s1. blk_Trim c b s = (Val (hexlify (trimmed_enc c b)), s1) \<and> pool_wf s1"
proof -
  note ok = trimmable_facts [OF assms(1)]
  let ?hs = "map (tx_id c) (Transactions b)"
  obtain i t where g: "GetStream None s = (Val i, t)" "pool_wf t" "streams t i = cursor [] []"
    using GetStream_clean [OF assms(2), of None] unfolding initial_stream_def cursor_def
    by (metis append_Nil list.size(3) option.simps(4))
  have i: "i \<in> in_use t" by (rule GetStream_keeps(2) [OF assms(2) g(1)])
  let ?t1 = "t\<lparr>streams := (streams t)(i := cursor (bb_enc (blk_base b)) [])\<rparr>"
  have t1: "on_stream i (bb_Serialize (blk_base b)) t = (Val (), ?t1)" "pool_wf ?t1" "i \<in> in_use ?t1"
    using on_stream_emits [OF block_base_codec.ser_emits [OF ok(1)] g(3)] pool_in_use [OF g(2) i] i by simp_all
  obtain t2 where t2: "tx_Hashes c (Transactions b) ?t1 = (Val ?hs, t2)" "pool_wf t2" "pool_keeps ?t1 t2"
    using tx_Hashes_ok [OF ok(3) t1(2) assms(3)] by blast
  then have at: "streams t2 i = cursor (bb_enc (blk_base b)) []" "i \<in> in_use t2" using t1(3) by (auto simp: pool_keeps_def)
  have t3: "on_stream i (WriteHashes (map uint_ToBytes ?hs)) t2 =
      (Val (), t2\<lparr>streams := (streams t2)(i := cursor (trimmed_enc c b) [])\<rparr>)"
    using on_stream_emits [OF emits_WriteHashes [OF ok(4)] at(1)] by (simp add: trimmed_enc_def)
  have "blk_Trim c b s = (Val (hexlify (trimmed_enc c b)),
      snd (ReleaseStream i (t2\<lparr>streams := (streams t2)(i := cursor (trimmed_enc c b) [])\<rparr>)))"
    using g(1) t1(1) t2(1) t3
    by (simp add: blk_Trim_def bnd_def sq_def gets_def ret_def run_ReleaseStream stream_ToArray_def del: map_map)
  then show ?thesis using release_in_use [OF t2(2) at(2)] by blast
qed

text \<open>A new stream on the trimmed bytes, from which the base has been read.\<close>

lemma open_trimmed:
  assumes "trimmable c b" "pool_wf s"
  shows "\<exists>i t. GetStream (Some (trimmed_enc c b)) s = (Val i, t) \<and> pool_wf t \<and> i \<in> in_use t \<and>
    on_stream i read_trimmed t = (Val (blk_base b), t\<lparr>streams := (streams t)
      (i := cursor (bb_enc (blk_base b)) (array_enc Data (map (tx_id c) (Transactions b))))\<rparr>)"
proof -
  obtain i t where g: "GetStream (Some (trimmed_enc c b)) s = (Val i, t)" "pool_wf t"
      "streams t i = initial_stream (Some (trimmed_enc c b))"
    using GetStream_clean [OF assms(2)] by metis
  have "streams t i = cursor [] (bb_enc (blk_base b) @ array_enc Data (map (tx_id c) (Transactions b)))"
    using g(3) by (simp add: initial_stream_def cursor_def trimmed_enc_def)
  from on_stream_reads [OF reads_trimmed [OF trimmable_facts(1) [OF assms(1)]] this]
  show ?thesis using g GetStream_keeps(2) [OF assms(2) g(1)] by auto
qed

lemma header_FromTrimmedData_ok:
  assumes "trimmable c b" "pool_wf s"
  shows "\<exists>s1. header_FromTrimmedData (trimmed_enc c b) s = (Val (blk_base b), s1) \<and> pool_wf s1"
proof -
  obtain i t where t: "GetStream (Some (trimmed_enc c b)) s = (Val i, t)" "pool_wf t" "i \<in> in_use t"
    "on_stream i read_trimmed t = (Val (blk_base b), t\<lparr>streams := (streams t)
      (i := cursor (bb_enc (blk_base b)) (array_enc Data (map (tx_id c) (Transactions b))))\<rparr>)"
    using open_trimmed [OF assms] by blast
  then show ?thesis
    using release_in_use [OF t(2,3)]
    by (simp add: header_FromTrimmedData_def bnd_def sq_def ret_def run_ReleaseStream)
qed

lemma blk_FromTrimmedData_ok:
  assumes "trimmable c b" "pool_wf s" "\<forall>t\<in>set (Transactions b). lookup (uint_ToBytes (tx_id c t)) = Some t"
  shows "\<exists>s1. blk_FromTrimmedData lookup (trimmed_enc c b) s = (Val b, s1) \<and> pool_wf s1"
proof -
  note ok = trimmable_facts [OF assms(1)]
  let ?hs = "map (tx_id c) (Transactions b)"
  obtain i t where t: "GetStream (Some (trimmed_enc c b)) s = (Val i, t)" "pool_wf t" "i \<in> in_use t"
    "on_stream i read_trimmed t = (Val (blk_base b), t\<lparr>streams := (streams t)(i := cursor (bb_enc (blk_base b)) (array_enc Data ?hs))\<rparr>)"
    using open_trimmed [OF assms(1,2)] by blast
  have find: "find_transactions lookup (map uint_ToBytes ?hs) = Inr (Transactions b)"
    using find_transactions_all [of "Transactions b" lookup "\<lambda>t. uint_ToBytes (tx_id c t)"] assms(3) by (simp add: o_def)
  have hashes: "on_stream i ReadHashes (t\<lparr>streams := (streams t)(i := cursor (bb_enc (blk_base b)) (array_enc Data ?hs))\<rparr>) =
      (Val (map uint_ToBytes ?hs), t\<lparr>streams := (streams t)(i := cursor (trimmed_enc c b) [])\<rparr>)"
    using on_stream_reads [OF reads_ReadHashes [OF ok(4)],
        of "t\<lparr>streams := (streams t)(i := cursor (bb_enc (blk_base b)) (array_enc Data ?hs))\<rparr>" i "bb_enc (blk_base b)" "[]"]
    by (simp add: trimmed_enc_def)
  have "blk_FromTrimmedData lookup (trimmed_enc c b) s = (Val b,
      snd (ReleaseStream i (t\<lparr>streams := (streams t)(i := cursor (trimmed_enc c b) [])\<rparr>)))"
    using t(1,4) hashes find ok(2)
    by (cases b) (simp add: blk_FromTrimmedData_def bnd_def sq_def lft_def ret_def run_ReleaseStream del: map_map)
  then show ?thesis using release_in_use [OF t(2,3)] by blast
qed

text \<open>
  C23. A block is stored without its transactions and found again: from the hexadecimal text that
  \<open>Block.Trim\<close> gives, \<open>Block.FromTrimmedData\<close> builds the same block when the ledger finds every
  transaction by its hash, and \<open>Header.FromTrimmedData\<close> its header.
\<close>

theorem block_trimmed:
  assumes "trimmable c b" "pool_wf s" "\<And>b. length (sha256 c b) = 32"
    and "\<forall>t\<in>set (Transactions b). lookup (uint_ToBytes (tx_id c t)) = Some t"
  shows "\<exists>hexed s1 raw s2 s3. blk_Trim c b s = (Val hexed, s1) \<and> unhexlify hexed = Some raw \<and>
    blk_FromTrimmedData lookup raw s1 = (Val b, s2) \<and> header_FromTrimmedData raw s2 = (Val (blk_base b), s3) \<and> pool_wf s3"
proof -
  obtain s1 where s1: "blk_Trim c b s = (Val (hexlify (trimmed_enc c b)), s1)" "pool_wf s1"
    using Trim_ok [OF assms(1-3)] by blast
  obtain s2 where s2: "blk_FromTrimmedData lookup (trimmed_enc c b) s1 = (Val b, s2)" "pool_wf s2"
    using blk_FromTrimmedData_ok [OF assms(1) s1(2) assms(4)] by blast
  obtain s3 where "header_FromTrimmedData (trimmed_enc c b) s2 = (Val (blk_base b), s3)" "pool_wf s3"
    using header_FromTrimmedData_ok [OF assms(1) s2(2)] by blast
  with s1 s2 unhexlify_hexlify [of "trimmed_enc c b"] show ?thesis by blast
qed

lemma block_trimmed_witness:
  "\<exists>hexed s1 raw s2. blk_Trim sample_primitives sample_block sample_pool = (Val hexed, s1) \<and> unhexlify hexed = Some raw \<and>
     blk_FromTrimmedData (\<lambda>_. Some sample_tx) raw s1 = (Val sample_block, s2)"
proof -
  have "pool_wf sample_pool" "trimmable sample_primitives sample_block"
    using sample_block_ok sample_tx_id by (simp_all add: pool_wf_def sample_pool_def trimmable_def sample_block_def)
  from block_trimmed [OF this(2,1) sha256_sample, of "\<lambda>_. Some sample_tx"]
  show ?thesis by (auto simp: sample_block_def)
qed

end
