(* ===== verification/Data_Cache.thy ===== *)
theory Data_Cache
  imports State_Codecs "HOL-Library.AList"
begin

text \<open>
  The caches of \<open>neo/Storage\<close>. A \<open>DataCache\<close> keeps the items it has read or changed, each with the
  state it is in, and leaves the rest to its subclass: \<open>CloneCache\<close> stands on another cache and hands
  out copies, \<open>LevelDBCache\<close> stands on the database and a batch of writes. The methods a subclass
  provides are the record \<open>internals\<close>, over the state \<open>'s\<close> of what lies below; a cache on a cache has
  the inner cache as that state.

  Items are values here: what a caller does to an object that it was handed, and that the cache keeps, is
  \<open>dc_mutate\<close>, and \<open>Clone\<close> makes an equal value. \<open>Shared_Objects\<close> has the same caches with items as
  objects, who shares them, and the proof that the values are what the objects hold. Generators are lists here, as
  callers run them to their end.
\<close>

section \<open>Tracked items\<close>

datatype track_state = TS_NONE | TS_ADDED | TS_CHANGED | TS_DELETED

record 'v trackable =
  tr_Item :: 'v
  tr_State :: track_state

text \<open>\<open>dictionary\<close> in the order of insertion, as in Python.\<close>

record ('s, 'k, 'v) data_cache =
  dictionary :: "('k \<times> 'v trackable) list"
  backing :: 's

record ('s, 'k, 'v) internals =
  GetInternal :: "'k \<Rightarrow> ('s, 'v) m"
  TryGetInternal :: "'k \<Rightarrow> ('s, 'v option) m"
  AddInternal :: "'k \<Rightarrow> 'v \<Rightarrow> ('s, unit) m"
  UpdateInternal :: "'k \<Rightarrow> 'v \<Rightarrow> ('s, unit) m"
  DeleteInternal :: "'k \<Rightarrow> ('s, unit) m"
  FindInternal :: "bytes \<Rightarrow> ('s, ('k \<times> 'v) list) m"

definition on_backing :: "('s, 'a) m \<Rightarrow> (('s, 'k, 'v) data_cache, 'a) m" where
  "on_backing p c = (case p (backing c) of (r, s) \<Rightarrow> (r, c\<lparr>backing := s\<rparr>))"

definition tracked :: "'k \<Rightarrow> (('s, 'k, 'v) data_cache, 'v trackable option) m" where
  "tracked k = gets (\<lambda>c. map_of (dictionary c) k)"

definition track :: "'k \<Rightarrow> 'v \<Rightarrow> track_state \<Rightarrow> (('s, 'k, 'v) data_cache, unit) m" where
  "track k v st = modify (\<lambda>c. c\<lparr>dictionary := AList.update k \<lparr>tr_Item = v, tr_State = st\<rparr> (dictionary c)\<rparr>)"

section \<open>DataCache\<close>

definition dc_getitem :: "('s, 'k, 'v) internals \<Rightarrow> 'k \<Rightarrow> (('s, 'k, 'v) data_cache, 'v) m" where
  "dc_getitem I k =
     bnd (tracked k) (\<lambda>t.
       case t of
         Some tr \<Rightarrow> if tr_State tr = TS_DELETED then throw KeyError else ret (tr_Item tr)
       | None \<Rightarrow> bnd (on_backing (GetInternal I k)) (\<lambda>v. sq (track k v TS_NONE) (ret v)))"

definition dc_Add :: "'k \<Rightarrow> 'v \<Rightarrow> (('s, 'k, 'v) data_cache, unit) m" where
  "dc_Add k v =
     bnd (tracked k) (\<lambda>t.
       case t of
         None \<Rightarrow> track k v TS_ADDED
       | Some tr \<Rightarrow> if tr_State tr \<noteq> TS_DELETED then throw ValueError else track k v TS_CHANGED)"

definition commit_item :: "('s, 'k, 'v) internals \<Rightarrow> 'k \<times> 'v trackable \<Rightarrow> (('s, 'k, 'v) data_cache, unit) m" where
  "commit_item I e =
     (case tr_State (snd e) of
        TS_ADDED \<Rightarrow> on_backing (AddInternal I (fst e) (tr_Item (snd e)))
      | TS_CHANGED \<Rightarrow> on_backing (UpdateInternal I (fst e) (tr_Item (snd e)))
      | TS_DELETED \<Rightarrow> on_backing (DeleteInternal I (fst e))
      | TS_NONE \<Rightarrow> ret ())"

definition dc_Commit :: "('s, 'k, 'v) internals \<Rightarrow> (('s, 'k, 'v) data_cache, unit) m" where
  "dc_Commit I = bnd (gets dictionary) (\<lambda>d. mapm (commit_item I) d)"

definition dc_CreateSnapshot :: "'c \<Rightarrow> ('c, 'k, 'v) data_cache" where
  "dc_CreateSnapshot c = \<lparr>dictionary = [], backing = c\<rparr>"

definition dc_Delete :: "('s, 'k, 'v) internals \<Rightarrow> 'k \<Rightarrow> (('s, 'k, 'v) data_cache, unit) m" where
  "dc_Delete I k =
     bnd (tracked k) (\<lambda>t.
       case t of
         Some tr \<Rightarrow>
           if tr_State tr = TS_ADDED then modify (\<lambda>c. c\<lparr>dictionary := AList.delete k (dictionary c)\<rparr>)
           else track k (tr_Item tr) TS_DELETED
       | None \<Rightarrow>
           bnd (on_backing (TryGetInternal I k)) (\<lambda>item.
             case item of None \<Rightarrow> ret () | Some v \<Rightarrow> track k v TS_DELETED))"

definition dc_DeleteWhere :: "('k \<Rightarrow> 'v \<Rightarrow> bool) \<Rightarrow> (('s, 'k, 'v) data_cache, unit) m" where
  "dc_DeleteWhere P =
     modify (\<lambda>c. c\<lparr>dictionary := map (\<lambda>(k, tr).
       if tr_State tr \<noteq> TS_DELETED \<and> P k (tr_Item tr) then (k, tr\<lparr>tr_State := TS_DELETED\<rparr>) else (k, tr)) (dictionary c)\<rparr>)"

text \<open>The operator \<open>in\<close> on bytes: the prefix may be anywhere in the key.\<close>

definition py_in :: "bytes \<Rightarrow> bytes \<Rightarrow> bool" where
  "py_in p k = list_ex (\<lambda>i. take (length p) (drop i k) = p) [0..<Suc (length k)]"

definition dc_Find :: "('s, bytes, 'v) internals \<Rightarrow> bytes option \<Rightarrow> (('s, bytes, 'v) data_cache, (bytes \<times> 'v) list) m" where
  "dc_Find I key_prefix =
     (let p = case_option [] id key_prefix
      in bnd (on_backing (FindInternal I p)) (\<lambda>found.
         bnd (gets dictionary) (\<lambda>d.
           ret (filter (\<lambda>(k, v). map_of d k = None) found @
                map (\<lambda>(k, tr). (k, tr_Item tr)) (filter (\<lambda>(k, tr). tr_State tr \<noteq> TS_DELETED \<and> py_in p k) d)))))"

text \<open>\<open>factory()\<close> is the new item, when there is a factory.\<close>

definition dc_GetAndChange :: "('s, 'k, 'v) internals \<Rightarrow> 'k \<Rightarrow> 'v option \<Rightarrow> (('s, 'k, 'v) data_cache, 'v) m" where
  "dc_GetAndChange I k factory =
     bnd (tracked k) (\<lambda>t.
       case t of
         Some tr \<Rightarrow>
           if tr_State tr = TS_DELETED then
             (case factory of None \<Rightarrow> throw KeyError | Some v \<Rightarrow> sq (track k v TS_CHANGED) (ret v))
           else if tr_State tr = TS_NONE then sq (track k (tr_Item tr) TS_CHANGED) (ret (tr_Item tr))
           else ret (tr_Item tr)
       | None \<Rightarrow>
           bnd (on_backing (TryGetInternal I k)) (\<lambda>item.
             case item of
               None \<Rightarrow> (case factory of None \<Rightarrow> throw KeyError | Some v \<Rightarrow> sq (track k v TS_ADDED) (ret v))
             | Some v \<Rightarrow> sq (track k v TS_CHANGED) (ret v)))"

definition dc_GetOrAdd :: "('s, 'k, 'v) internals \<Rightarrow> 'k \<Rightarrow> 'v \<Rightarrow> (('s, 'k, 'v) data_cache, 'v) m" where
  "dc_GetOrAdd I k new =
     bnd (tracked k) (\<lambda>t.
       case t of
         Some tr \<Rightarrow>
           if tr_State tr = TS_DELETED then sq (track k new TS_CHANGED) (ret new) else ret (tr_Item tr)
       | None \<Rightarrow>
           bnd (on_backing (TryGetInternal I k)) (\<lambda>item.
             case item of
               None \<Rightarrow> sq (track k new TS_ADDED) (ret new)
             | Some v \<Rightarrow> sq (track k v TS_NONE) (ret v)))"

definition dc_TryGet :: "('s, 'k, 'v) internals \<Rightarrow> 'k \<Rightarrow> (('s, 'k, 'v) data_cache, 'v option) m" where
  "dc_TryGet I k =
     bnd (tracked k) (\<lambda>t.
       case t of
         Some tr \<Rightarrow> ret (if tr_State tr = TS_DELETED then None else Some (tr_Item tr))
       | None \<Rightarrow>
           bnd (on_backing (TryGetInternal I k)) (\<lambda>item.
             case item of None \<Rightarrow> ret None | Some v \<Rightarrow> sq (track k v TS_NONE) (ret (Some v))))"

definition dc_GetChangeSet :: "('s, 'k, 'v) data_cache \<Rightarrow> ('k \<times> 'v trackable) list" where
  "dc_GetChangeSet c = filter (\<lambda>e. tr_State (snd e) \<noteq> TS_NONE) (dictionary c)"

text \<open>A caller changes an object it was handed; the key is in the dictionary.\<close>

definition dc_mutate :: "'k \<Rightarrow> ('v \<Rightarrow> pyexc + 'v) \<Rightarrow> (('s, 'k, 'v) data_cache, unit) m" where
  "dc_mutate k f =
     bnd (tracked k) (\<lambda>t.
       case t of
         None \<Rightarrow> ret ()
       | Some tr \<Rightarrow> bnd (lft (f (tr_Item tr))) (\<lambda>v. track k v (tr_State tr)))"

section \<open>CloneCache\<close>

text \<open>
  \<open>Clone\<close> and \<open>FromReplica\<close> are those of the items' class; a class without them, or whose \<open>Clone\<close>
  fails, raises.
\<close>

definition clone_found :: "('v \<Rightarrow> pyexc + 'v) \<Rightarrow> ('k \<times> 'v) list \<Rightarrow> pyexc + ('k \<times> 'v) list" where
  "clone_found clone found = emap (\<lambda>(k, v). ebind (clone v) (\<lambda>w. Inr (k, w))) found"

definition CloneCache ::
  "('s, bytes, 'v) internals \<Rightarrow> ('v \<Rightarrow> pyexc + 'v) \<Rightarrow> ('v \<Rightarrow> 'v \<Rightarrow> pyexc + 'v) \<Rightarrow>
   (('s, bytes, 'v) data_cache, bytes, 'v) internals" where
  "CloneCache I clone from_replica =
     \<lparr>GetInternal = (\<lambda>k. bnd (dc_getitem I k) (\<lambda>v. lft (clone v))),
      TryGetInternal = (\<lambda>k. bnd (dc_TryGet I k) (\<lambda>res.
        case res of None \<Rightarrow> ret None | Some v \<Rightarrow> bnd (lft (clone v)) (\<lambda>w. ret (Some w)))),
      AddInternal = (\<lambda>k v. dc_Add k v),
      UpdateInternal = (\<lambda>k v. sq (dc_GetAndChange I k None) (dc_mutate k (\<lambda>old. from_replica old v))),
      DeleteInternal = (\<lambda>k. dc_Delete I k),
      FindInternal = (\<lambda>p. bnd (dc_Find I (Some p)) (\<lambda>found. lft (clone_found clone found)))\<rparr>"

section \<open>LevelDBCache\<close>

text \<open>
  The database is a third-party store: here the pairs of keys and values in the order of keys, with
  the lookup, the iteration over a prefix and the batch of writes that its documentation describes.
  Values are hexadecimal text. A batch is an object, so the test of it is true.
\<close>

fun bytes_less :: "bytes \<Rightarrow> bytes \<Rightarrow> bool" where
  "bytes_less xs [] = False"
| "bytes_less [] (y # ys) = True"
| "bytes_less (x # xs) (y # ys) = (x < y \<or> (x = y \<and> bytes_less xs ys))"

fun db_put :: "bytes \<Rightarrow> bytes \<Rightarrow> (bytes \<times> bytes) list \<Rightarrow> (bytes \<times> bytes) list" where
  "db_put k v [] = [(k, v)]"
| "db_put k v ((l, w) # d) =
     (if l = k then (k, v) # d else if bytes_less k l then (k, v) # (l, w) # d else (l, w) # db_put k v d)"

definition db_delete :: "bytes \<Rightarrow> (bytes \<times> bytes) list \<Rightarrow> (bytes \<times> bytes) list" where
  "db_delete k d = filter (\<lambda>e. fst e \<noteq> k) d"

record leveldb =
  ldb :: "(bytes \<times> bytes) list"
  ldb_batch :: "(bytes \<times> bytes option) list"
  ldb_streams :: stream_manager

definition batch_put :: "bytes \<Rightarrow> bytes \<Rightarrow> (leveldb, unit) m" where
  "batch_put k v = modify (\<lambda>s. s\<lparr>ldb_batch := ldb_batch s @ [(k, Some v)]\<rparr>)"

definition batch_delete :: "bytes \<Rightarrow> (leveldb, unit) m" where
  "batch_delete k = modify (\<lambda>s. s\<lparr>ldb_batch := ldb_batch s @ [(k, None)]\<rparr>)"

definition apply_write :: "bytes \<times> bytes option \<Rightarrow> (bytes \<times> bytes) list \<Rightarrow> (bytes \<times> bytes) list" where
  "apply_write w d = (case snd w of None \<Rightarrow> db_delete (fst w) d | Some v \<Rightarrow> db_put (fst w) v d)"

definition batch_write :: "(leveldb, unit) m" where
  "batch_write = modify (\<lambda>s. s\<lparr>ldb := fold apply_write (ldb_batch s) (ldb s)\<rparr>)"

definition on_streams :: "(stream_manager, 'a) m \<Rightarrow> (leveldb, 'a) m" where
  "on_streams p s = (case p (ldb_streams s) of (r, t) \<Rightarrow> (r, s\<lparr>ldb_streams := t\<rparr>))"

text \<open>
  The bytes of an item go through a stream of the pool, in the steps of \<open>ToByteArray\<close> and
  \<open>DeserializeFromDB\<close>.
\<close>

definition ldb_put :: "bytes \<Rightarrow> ('v \<Rightarrow> (stream, unit) m) \<Rightarrow> bytes \<Rightarrow> 'v \<Rightarrow> (leveldb, unit) m" where
  "ldb_put prefix ser k v =
     bnd (on_streams (state_ToByteArray ser v)) (\<lambda>data. batch_put (prefix @ k) data)"

definition ldb_TryGetInternal :: "bytes \<Rightarrow> (stream, 'v) m \<Rightarrow> bytes \<Rightarrow> (leveldb, 'v option) m" where
  "ldb_TryGetInternal prefix deser k =
     bnd (gets (\<lambda>s. map_of (ldb s) (prefix @ k))) (\<lambda>data.
       case data of
         None \<Rightarrow> ret None
       | Some hexed \<Rightarrow>
           (case unhexlify hexed of
              None \<Rightarrow> throw ValueError
            | Some raw \<Rightarrow> bnd (on_streams (DeserializeFromDB deser raw)) (\<lambda>obj. ret (Some obj))))"

definition ldb_GetInternal :: "bytes \<Rightarrow> (stream, 'v) m \<Rightarrow> bytes \<Rightarrow> (leveldb, 'v) m" where
  "ldb_GetInternal prefix deser k =
     bnd (ldb_TryGetInternal prefix deser k) (\<lambda>result.
       case result of None \<Rightarrow> throw ValueError | Some v \<Rightarrow> ret v)"

text \<open>The prefix of a search may be hexadecimal text; one byte of every key is the cache's prefix.\<close>

primrec ldb_load :: "(stream, 'v) m \<Rightarrow> (bytes \<times> bytes) list \<Rightarrow> (leveldb, (bytes \<times> 'v) list) m" where
  "ldb_load deser [] = ret []"
| "ldb_load deser (e # es) =
     (case unhexlify (snd e) of
        None \<Rightarrow> throw ValueError
      | Some raw \<Rightarrow>
          bnd (on_streams (DeserializeFromDB deser raw)) (\<lambda>obj.
          bnd (ldb_load deser es) (\<lambda>rest. ret ((drop 1 (fst e), obj) # rest))))"

definition ldb_FindInternal :: "bytes \<Rightarrow> (stream, 'v) m \<Rightarrow> bytes \<Rightarrow> (leveldb, (bytes \<times> 'v) list) m" where
  "ldb_FindInternal prefix deser key_prefix =
     (let p = prefix @ (case unhexlify key_prefix of Some b \<Rightarrow> b | None \<Rightarrow> key_prefix)
      in bnd (gets (\<lambda>s. filter (\<lambda>e. take (length p) (fst e) = p) (ldb s))) (ldb_load deser))"

definition LevelDBCache ::
  "bytes \<Rightarrow> ('v \<Rightarrow> (stream, unit) m) \<Rightarrow> (stream, 'v) m \<Rightarrow> (leveldb, bytes, 'v) internals" where
  "LevelDBCache prefix ser deser =
     \<lparr>GetInternal = ldb_GetInternal prefix deser,
      TryGetInternal = ldb_TryGetInternal prefix deser,
      AddInternal = ldb_put prefix ser,
      UpdateInternal = ldb_put prefix ser,
      DeleteInternal = (\<lambda>k. batch_delete (prefix @ k)),
      FindInternal = ldb_FindInternal prefix deser\<rparr>"

section \<open>The storage of contracts, and scripts\<close>

definition ST_Storage :: bytes where "ST_Storage = [0x70]"
definition ST_Contract :: bytes where "ST_Contract = [0x50]"

definition Storages :: "(leveldb, bytes, storage_item) internals" where
  "Storages = LevelDBCache ST_Storage si_Serialize si_Deserialize"

definition Storages_clone :: "((leveldb, bytes, storage_item) data_cache, bytes, storage_item) internals" where
  "Storages_clone = CloneCache Storages (\<lambda>i. Inr (si_Clone i)) (\<lambda>i replica. Inr (si_FromReplica i replica))"

definition Contracts :: "(leveldb, bytes, contract_state) internals" where
  "Contracts = LevelDBCache ST_Contract co_Serialize co_Deserialize"

text \<open>\<open>CachedScriptTable\<close>, and \<open>Snapshot.GetScript\<close>, which catches \<open>ValueError\<close> only.\<close>

definition GetContractState ::
  "('s, bytes, contract_state) internals \<Rightarrow> bytes \<Rightarrow> (('s, bytes, contract_state) data_cache, contract_state option) m" where
  "GetContractState I script_hash = dc_TryGet I script_hash"

definition table_GetScript ::
  "('s, bytes, contract_state) internals \<Rightarrow> bytes \<Rightarrow> (('s, bytes, contract_state) data_cache, bytes option) m" where
  "table_GetScript I script_hash =
     bnd (dc_TryGet I script_hash) (\<lambda>contract.
       case contract of None \<Rightarrow> ret None | Some c \<Rightarrow> ret (Some (fc_Script (co_Code c))))"

definition snapshot_GetScript ::
  "('s, bytes, contract_state) internals \<Rightarrow> bytes \<Rightarrow> (('s, bytes, contract_state) data_cache, bytes option) m" where
  "snapshot_GetScript I script_hash =
     try_except (bnd (dc_getitem I script_hash) (\<lambda>c. ret (Some (fc_Script (co_Code c)))))
       (\<lambda>e. if e = ValueError then ret None else throw e)"

text \<open>What \<open>Snapshot.Commit\<close> deletes before it commits.\<close>

definition dead_account :: "bytes \<Rightarrow> account_state \<Rightarrow> bool" where
  "dead_account k a \<longleftrightarrow> \<not> acc_IsFrozen a \<and> length (acc_Votes a) = 0 \<and> AllBalancesZeroOrLess a"

definition dead_unspent :: "bytes \<Rightarrow> int list \<Rightarrow> bool" where
  "dead_unspent k items \<longleftrightarrow> IsAllSpent items"

definition dead_spent :: "bytes \<Rightarrow> spent_coin_state \<Rightarrow> bool" where
  "dead_spent k s \<longleftrightarrow> length (sc_Items s) = 0"

definition commit_purged ::
  "('s, bytes, 'v) internals \<Rightarrow> (bytes \<Rightarrow> 'v \<Rightarrow> bool) \<Rightarrow> (('s, bytes, 'v) data_cache, unit) m" where
  "commit_purged I P = sq (dc_DeleteWhere P) (dc_Commit I)"

lemmas data_cache_defs = on_backing_def tracked_def track_def dc_getitem_def dc_Add_def commit_item_def dc_Commit_def
  dc_CreateSnapshot_def dc_Delete_def dc_DeleteWhere_def py_in_def dc_Find_def dc_GetAndChange_def dc_GetOrAdd_def
  dc_TryGet_def dc_GetChangeSet_def dc_mutate_def clone_found_def CloneCache_def db_delete_def batch_put_def
  batch_delete_def apply_write_def batch_write_def on_streams_def ldb_put_def ldb_TryGetInternal_def
  ldb_GetInternal_def ldb_FindInternal_def LevelDBCache_def Storages_def Storages_clone_def Contracts_def
  GetContractState_def table_GetScript_def snapshot_GetScript_def dead_account_def dead_unspent_def
  dead_spent_def commit_purged_def

declare data_cache_defs [model_defs]

end
