(* ===== verification/Cache_Contract.thy ===== *)
theory Cache_Contract
  imports Data_Cache
begin

text \<open>
  What a cache needs of what lies below it, and what it promises in turn. The locale \<open>cache_source\<close> is
  what reading asks of the methods a subclass of \<open>DataCache\<close> provides: what is read below is the map
  \<open>rd\<close>. It suffices for a cache to be a map (\<open>dc_view\<close>) with the operations of one. The locale \<open>store\<close>
  adds the methods that write: what is written goes into the map \<open>pend\<close>, and \<open>Commit\<close> makes what is
  pending below equal to the cache. A cache fulfils both contracts itself, so that caches can stand on
  caches; one whose items cannot take over a copy is a source only. The locale \<open>cache_search\<close> is about
  searches by a prefix.
\<close>

definition dc_view :: "('s \<Rightarrow> 'k \<Rightarrow> 'v option) \<Rightarrow> ('s, 'k, 'v) data_cache \<Rightarrow> 'k \<Rightarrow> 'v option" where
  "dc_view rd c = (\<lambda>k.
     case map_of (dictionary c) k of
       None \<Rightarrow> rd (backing c) k
     | Some tr \<Rightarrow> if tr_State tr = TS_DELETED then None else Some (tr_Item tr))"

text \<open>What the state of an item says about the map below.\<close>

definition entry_ok :: "('v \<Rightarrow> bool) \<Rightarrow> 'v option \<Rightarrow> 'v trackable \<Rightarrow> bool" where
  "entry_ok ok below tr \<longleftrightarrow> ok (tr_Item tr) \<and>
     (case tr_State tr of
        TS_NONE \<Rightarrow> below = Some (tr_Item tr)
      | TS_ADDED \<Rightarrow> below = None
      | TS_CHANGED \<Rightarrow> below \<noteq> None
      | TS_DELETED \<Rightarrow> below \<noteq> None)"

definition cache_inv ::
  "('s \<Rightarrow> bool) \<Rightarrow> ('s \<Rightarrow> 'k \<Rightarrow> 'v option) \<Rightarrow> ('s \<Rightarrow> 'k \<Rightarrow> 'v option) \<Rightarrow> ('v \<Rightarrow> bool) \<Rightarrow> ('s, 'k, 'v) data_cache \<Rightarrow> bool" where
  "cache_inv valid rd pend ok c \<longleftrightarrow> valid (backing c) \<and> pend (backing c) = rd (backing c) \<and>
     distinct (map fst (dictionary c)) \<and>
     (\<forall>k tr. map_of (dictionary c) k = Some tr \<longrightarrow> entry_ok ok (rd (backing c) k) tr)"

text \<open>After \<open>DeleteWhere\<close> an item may be marked as deleted that is not below; it can still be committed.\<close>

definition commit_inv ::
  "('s \<Rightarrow> bool) \<Rightarrow> ('s \<Rightarrow> 'k \<Rightarrow> 'v option) \<Rightarrow> ('s \<Rightarrow> 'k \<Rightarrow> 'v option) \<Rightarrow> ('v \<Rightarrow> bool) \<Rightarrow> ('s, 'k, 'v) data_cache \<Rightarrow> bool" where
  "commit_inv valid rd pend ok c \<longleftrightarrow> valid (backing c) \<and> pend (backing c) = rd (backing c) \<and>
     distinct (map fst (dictionary c)) \<and>
     (\<forall>k tr. map_of (dictionary c) k = Some tr \<longrightarrow> tr_State tr = TS_DELETED \<or> entry_ok ok (rd (backing c) k) tr)"

lemma commit_inv_cache_inv: "cache_inv valid rd pend ok c \<Longrightarrow> commit_inv valid rd pend ok c"
  by (simp add: cache_inv_def commit_inv_def)

section \<open>The map a cache is\<close>

text \<open>The operations of a client, and what they do to a map: the result, and the map afterwards.\<close>

datatype ('k, 'v) cache_op =
    C_Add 'k 'v
  | C_Delete 'k
  | C_TryGet 'k
  | C_GetOrAdd 'k 'v
  | C_Change 'k "'v option" "'v \<Rightarrow> 'v"

text \<open>
  A client adds keys that are not in the map: \<open>Add\<close> looks at the tracked items only, and overwrites a
  key it does not track (\<open>Add_overwrites\<close>).
\<close>

fun op_ok :: "('v \<Rightarrow> bool) \<Rightarrow> ('k, 'v) cache_op \<Rightarrow> ('k \<Rightarrow> 'v option) \<Rightarrow> bool" where
  "op_ok ok (C_Add k v) m \<longleftrightarrow> ok v \<and> m k = None"
| "op_ok ok (C_Delete k) m \<longleftrightarrow> True"
| "op_ok ok (C_TryGet k) m \<longleftrightarrow> True"
| "op_ok ok (C_GetOrAdd k v) m \<longleftrightarrow> ok v"
| "op_ok ok (C_Change k factory f) m \<longleftrightarrow>
     (case factory of None \<Rightarrow> True | Some v \<Rightarrow> ok v) \<and> (\<forall>v. ok v \<longrightarrow> ok (f v))"

fun map_op :: "('k, 'v) cache_op \<Rightarrow> ('k \<Rightarrow> 'v option) \<Rightarrow> (pyexc + 'v option) \<times> ('k \<Rightarrow> 'v option)" where
  "map_op (C_Add k v) m = (Inr None, m(k \<mapsto> v))"
| "map_op (C_Delete k) m = (Inr None, m(k := None))"
| "map_op (C_TryGet k) m = (Inr (m k), m)"
| "map_op (C_GetOrAdd k v) m =
     (case m k of Some w \<Rightarrow> (Inr (Some w), m) | None \<Rightarrow> (Inr (Some v), m(k \<mapsto> v)))"
| "map_op (C_Change k factory f) m =
     (case m k of
        Some w \<Rightarrow> (Inr (Some w), m(k \<mapsto> f w))
      | None \<Rightarrow> (case factory of None \<Rightarrow> (Inl KeyError, m) | Some v \<Rightarrow> (Inr (Some v), m(k \<mapsto> f v))))"

text \<open>\<open>C_Change\<close> is \<open>GetAndChange\<close> with what the caller then does to the object.\<close>

fun run_op :: "('s, 'k, 'v) internals \<Rightarrow> ('k, 'v) cache_op \<Rightarrow> (('s, 'k, 'v) data_cache, 'v option) m" where
  "run_op I (C_Add k v) = sq (dc_Add k v) (ret None)"
| "run_op I (C_Delete k) = sq (dc_Delete I k) (ret None)"
| "run_op I (C_TryGet k) = dc_TryGet I k"
| "run_op I (C_GetOrAdd k v) = bnd (dc_GetOrAdd I k v) (\<lambda>w. ret (Some w))"
| "run_op I (C_Change k factory f) =
     bnd (dc_GetAndChange I k factory) (\<lambda>w. sq (dc_mutate k (\<lambda>v. Inr (f v))) (ret (Some w)))"

definition result_of :: "pyexc + 'a \<Rightarrow> 'a res" where
  "result_of r = (case r of Inl e \<Rightarrow> Exc e | Inr a \<Rightarrow> Val a)"

lemma result_of_simps [simp]: "result_of (Inl e) = Exc e" "result_of (Inr a) = Val a"
  by (simp_all add: result_of_def)

text \<open>An item handed out for a change is tracked as added or changed, so that the change is committed.\<close>

definition changing :: "('s, bytes, 'v) data_cache \<Rightarrow> bytes \<Rightarrow> 'v \<Rightarrow> bool" where
  "changing c k v \<longleftrightarrow> (\<exists>tr. map_of (dictionary c) k = Some tr \<and> tr_Item tr = v \<and> tr_State tr \<in> {TS_ADDED, TS_CHANGED})"

text \<open>What an item leaves below.\<close>

definition committed :: "'v trackable \<Rightarrow> 'v option \<Rightarrow> 'v option" where
  "committed tr below = (case tr_State tr of TS_NONE \<Rightarrow> below | TS_DELETED \<Rightarrow> None | _ \<Rightarrow> Some (tr_Item tr))"

lemma map_of_map_value: "map_of (map (\<lambda>(k, v). (k, f k v)) xs) k = map_option (f k) (map_of xs k)"
  by (induction xs) auto

section \<open>Running the operations\<close>

lemma run_tracked: "bnd (tracked k) f c = f (map_of (dictionary c) k) c"
  by (simp add: tracked_def run_simps)

lemma run_track: "track k v st c = (Val (), c\<lparr>dictionary := AList.update k \<lparr>tr_Item = v, tr_State = st\<rparr> (dictionary c)\<rparr>)"
  by (simp add: track_def run_simps)

lemmas dc_runs =
  dc_getitem_def [THEN fun_cong, unfolded run_tracked] dc_Add_def [THEN fun_cong, unfolded run_tracked]
  dc_Delete_def [THEN fun_cong, unfolded run_tracked] dc_GetAndChange_def [THEN fun_cong, unfolded run_tracked]
  dc_GetOrAdd_def [THEN fun_cong, unfolded run_tracked] dc_TryGet_def [THEN fun_cong, unfolded run_tracked]
  dc_mutate_def [THEN fun_cong, unfolded run_tracked]

section \<open>The contract\<close>

locale cache_source =
  fixes I :: "('s, bytes, 'v) internals"
    and valid :: "'s \<Rightarrow> bool"
    and rd :: "'s \<Rightarrow> bytes \<Rightarrow> 'v option"
    and pend :: "'s \<Rightarrow> bytes \<Rightarrow> 'v option"
    and ok :: "'v \<Rightarrow> bool"
  assumes rd_ok: "valid s \<Longrightarrow> rd s k = Some v \<Longrightarrow> ok v"
    and try_get_law: "valid s \<Longrightarrow>
      \<exists>s'. TryGetInternal I k s = (Val (rd s k), s') \<and> valid s' \<and> rd s' = rd s \<and> pend s' = pend s"
    and get_law: "valid s \<Longrightarrow> \<exists>r s'. GetInternal I k s = (r, s') \<and> valid s' \<and> rd s' = rd s \<and> pend s' = pend s \<and>
      (case rd s k of Some v \<Rightarrow> r = Val v | None \<Rightarrow> r = Exc KeyError \<or> r = Exc ValueError)"
begin

abbreviation "view \<equiv> dc_view rd"
abbreviation "good \<equiv> cache_inv valid rd pend ok"

lemma good_backing:
  assumes "good c" "valid s" "rd s = rd (backing c)" "pend s = pend (backing c)"
  shows "good (c\<lparr>backing := s\<rparr>)" "view (c\<lparr>backing := s\<rparr>) = view c"
  using assms by (auto simp: cache_inv_def dc_view_def fun_eq_iff split: option.splits)

lemma good_track:
  assumes "good c" "entry_ok ok (rd (backing c) k) tr"
  shows "good (c\<lparr>dictionary := AList.update k tr (dictionary c)\<rparr>)"
    "view (c\<lparr>dictionary := AList.update k tr (dictionary c)\<rparr>) =
      (view c)(k := if tr_State tr = TS_DELETED then None else Some (tr_Item tr))"
  using assms
  by (auto simp: cache_inv_def dc_view_def fun_eq_iff AList.update_conv' AList.distinct_update split: option.splits)

lemma good_untrack:
  assumes "good c" "rd (backing c) k = None"
  shows "good (c\<lparr>dictionary := AList.delete k (dictionary c)\<rparr>)"
    "view (c\<lparr>dictionary := AList.delete k (dictionary c)\<rparr>) = (view c)(k := None)"
  using assms
  by (auto simp: cache_inv_def dc_view_def fun_eq_iff AList.delete_conv' AList.distinct_delete split: option.splits)

lemma view_untracked: "map_of (dictionary c) k = None \<Longrightarrow> view c k = rd (backing c) k"
  by (simp add: dc_view_def)

lemma view_tracked:
  "map_of (dictionary c) k = Some tr \<Longrightarrow> view c k = (if tr_State tr = TS_DELETED then None else Some (tr_Item tr))"
  by (simp add: dc_view_def)

lemma good_entry: "good c \<Longrightarrow> map_of (dictionary c) k = Some tr \<Longrightarrow> entry_ok ok (rd (backing c) k) tr"
  by (simp add: cache_inv_def)

lemma good_valid: "good c \<Longrightarrow> valid (backing c)"
  by (simp add: cache_inv_def)

text \<open>Looking below, as every operation does for a key it does not track.\<close>

lemma try_below:
  assumes "good c"
  obtains c' where "on_backing (TryGetInternal I k) c = (Val (rd (backing c) k), c')" "good c'" "view c' = view c"
    "dictionary c' = dictionary c" "rd (backing c') = rd (backing c)"
proof -
  obtain s where s: "TryGetInternal I k (backing c) = (Val (rd (backing c) k), s)" "valid s" "rd s = rd (backing c)"
      "pend s = pend (backing c)"
    using try_get_law [OF good_valid [OF assms]] by blast
  then show ?thesis
    using that [of "c\<lparr>backing := s\<rparr>"] good_backing [OF assms s(2-4)] by (simp add: on_backing_def)
qed

lemma dc_TryGet_ok:
  assumes "good c"
  shows "\<exists>c'. dc_TryGet I k c = (Val (view c k), c') \<and> good c' \<and> view c' = view c \<and> rd (backing c') = rd (backing c)"
proof (cases "map_of (dictionary c) k")
  case None
  obtain c' where c': "on_backing (TryGetInternal I k) c = (Val (rd (backing c) k), c')" "good c'" "view c' = view c"
      "dictionary c' = dictionary c" "rd (backing c') = rd (backing c)"
    by (rule try_below [OF assms])
  show ?thesis
  proof (cases "rd (backing c) k")
    case (Some v)
    have "entry_ok ok (rd (backing c') k) \<lparr>tr_Item = v, tr_State = TS_NONE\<rparr>"
      using Some c'(5) rd_ok [OF good_valid [OF assms] Some] by (simp add: entry_ok_def)
    from good_track [OF c'(2) this] show ?thesis
      using None Some c' view_untracked [OF None]
      by (simp add: dc_runs bnd_def sq_def ret_def run_track fun_upd_idem_iff)
  qed (use None c' in \<open>simp add: dc_runs bnd_def ret_def view_untracked [OF None]\<close>)
qed (use assms in \<open>simp add: dc_runs ret_def view_tracked\<close>)

lemma dc_getitem_ok:
  assumes "good c"
  shows "\<exists>r c'. dc_getitem I k c = (r, c') \<and> good c' \<and> view c' = view c \<and>
    (case view c k of Some v \<Rightarrow> r = Val v | None \<Rightarrow> r = Exc KeyError \<or> r = Exc ValueError)"
proof (cases "map_of (dictionary c) k")
  case None
  obtain r s where s: "GetInternal I k (backing c) = (r, s)" "valid s" "rd s = rd (backing c)" "pend s = pend (backing c)"
      "case rd (backing c) k of Some v \<Rightarrow> r = Val v | None \<Rightarrow> r = Exc KeyError \<or> r = Exc ValueError"
    using get_law [OF good_valid [OF assms]] by blast
  note b = good_backing [OF assms s(2-4)]
  show ?thesis
  proof (cases "rd (backing c) k")
    case (Some v)
    have "entry_ok ok (rd (backing (c\<lparr>backing := s\<rparr>)) k) \<lparr>tr_Item = v, tr_State = TS_NONE\<rparr>"
      using Some s(3) rd_ok [OF good_valid [OF assms] Some] by (simp add: entry_ok_def)
    from good_track [OF b(1) this] show ?thesis
      using None Some s b(2) view_untracked [OF None]
      by (simp add: dc_runs on_backing_def bnd_def sq_def ret_def run_track fun_upd_idem_iff)
  qed (use None s b view_untracked [OF None] in \<open>auto simp: dc_runs on_backing_def bnd_def\<close>)
next
  case (Some tr)
  then show ?thesis
    using assms view_tracked [OF Some] by (simp add: dc_runs ret_def throw_def)
qed

lemma dc_Add_ok:
  assumes "good c" "ok v" "view c k = None"
  shows "\<exists>c'. dc_Add k v c = (Val (), c') \<and> good c' \<and> view c' = (view c)(k \<mapsto> v) \<and> rd (backing c') = rd (backing c)"
proof (cases "map_of (dictionary c) k")
  case None
  have "entry_ok ok (rd (backing c) k) \<lparr>tr_Item = v, tr_State = TS_ADDED\<rparr>"
    using None assms by (simp add: entry_ok_def view_untracked)
  from good_track [OF assms(1) this] show ?thesis using None by (simp add: dc_runs run_track)
next
  case (Some tr)
  then have "tr_State tr = TS_DELETED" using assms(3) by (simp add: view_tracked split: if_splits)
  moreover have "rd (backing c) k \<noteq> None"
    using good_entry [OF assms(1) Some] calculation by (simp add: entry_ok_def)
  then have "entry_ok ok (rd (backing c) k) \<lparr>tr_Item = v, tr_State = TS_CHANGED\<rparr>"
    using assms(2) by (simp add: entry_ok_def)
  from good_track [OF assms(1) this] show ?thesis
    using Some calculation by (simp add: dc_runs run_track)
qed

lemma dc_Delete_ok:
  assumes "good c"
  shows "\<exists>c'. dc_Delete I k c = (Val (), c') \<and> good c' \<and> view c' = (view c)(k := None) \<and> rd (backing c') = rd (backing c)"
proof (cases "map_of (dictionary c) k")
  case None
  obtain c' where c': "on_backing (TryGetInternal I k) c = (Val (rd (backing c) k), c')" "good c'" "view c' = view c"
      "dictionary c' = dictionary c" "rd (backing c') = rd (backing c)"
    by (rule try_below [OF assms])
  show ?thesis
  proof (cases "rd (backing c) k")
    case (Some v)
    have "entry_ok ok (rd (backing c') k) \<lparr>tr_Item = v, tr_State = TS_DELETED\<rparr>"
      using Some c'(5) rd_ok [OF good_valid [OF assms] Some] by (simp add: entry_ok_def)
    from good_track [OF c'(2) this] show ?thesis
      using None Some c' by (simp add: dc_runs bnd_def run_track)
  next
    case below: None
    then have "(view c)(k := None) = view c" using None by (simp add: fun_upd_idem view_untracked)
    then show ?thesis using None below c' by (simp add: dc_runs bnd_def ret_def)
  qed
next
  case (Some tr)
  note entry = good_entry [OF assms Some]
  show ?thesis
  proof (cases "tr_State tr = TS_ADDED")
    case True
    then have "rd (backing c) k = None" using entry by (simp add: entry_ok_def)
    from good_untrack [OF assms this] show ?thesis
      using Some True by (simp add: dc_runs modify_def)
  next
    case False
    then have "entry_ok ok (rd (backing c) k) \<lparr>tr_Item = tr_Item tr, tr_State = TS_DELETED\<rparr>"
      using entry by (cases "tr_State tr") (auto simp: entry_ok_def)
    from good_track [OF assms this] show ?thesis
      using Some False by (simp add: dc_runs run_track)
  qed
qed

lemma good_changing:
  assumes "good c" "ok v" "st = (if rd (backing c) k = None then TS_ADDED else TS_CHANGED)"
  shows "good (c\<lparr>dictionary := AList.update k \<lparr>tr_Item = v, tr_State = st\<rparr> (dictionary c)\<rparr>)"
    "view (c\<lparr>dictionary := AList.update k \<lparr>tr_Item = v, tr_State = st\<rparr> (dictionary c)\<rparr>) = (view c)(k \<mapsto> v)"
    "changing (c\<lparr>dictionary := AList.update k \<lparr>tr_Item = v, tr_State = st\<rparr> (dictionary c)\<rparr>) k v"
proof -
  have "entry_ok ok (rd (backing c) k) \<lparr>tr_Item = v, tr_State = st\<rparr>" using assms(2,3) by (simp add: entry_ok_def)
  from good_track [OF assms(1) this]
  show "good (c\<lparr>dictionary := AList.update k \<lparr>tr_Item = v, tr_State = st\<rparr> (dictionary c)\<rparr>)"
    "view (c\<lparr>dictionary := AList.update k \<lparr>tr_Item = v, tr_State = st\<rparr> (dictionary c)\<rparr>) = (view c)(k \<mapsto> v)"
    using assms(3) by simp_all
  show "changing (c\<lparr>dictionary := AList.update k \<lparr>tr_Item = v, tr_State = st\<rparr> (dictionary c)\<rparr>) k v"
    using assms(3) by (simp add: changing_def AList.update_conv')
qed

lemma entry_state:
  "entry_ok ok below tr \<Longrightarrow> tr_State tr \<in> {TS_ADDED, TS_CHANGED} \<longleftrightarrow>
     tr_State tr \<noteq> TS_DELETED \<and> tr_State tr \<noteq> TS_NONE \<and> tr_State tr = (if below = None then TS_ADDED else TS_CHANGED)"
  by (cases "tr_State tr") (simp_all add: entry_ok_def)

lemma dc_GetAndChange_ok:
  assumes "good c" "case factory of None \<Rightarrow> True | Some v \<Rightarrow> ok v"
  shows "case (case view c k of Some v \<Rightarrow> Some v | None \<Rightarrow> factory) of
      None \<Rightarrow> \<exists>c'. dc_GetAndChange I k factory c = (Exc KeyError, c') \<and> good c' \<and> view c' = view c \<and> rd (backing c') = rd (backing c)
    | Some v \<Rightarrow> \<exists>c'. dc_GetAndChange I k factory c = (Val v, c') \<and> good c' \<and> view c' = (view c)(k \<mapsto> v) \<and> changing c' k v \<and> rd (backing c') = rd (backing c)"
proof (cases "map_of (dictionary c) k")
  case None
  obtain c' where c': "on_backing (TryGetInternal I k) c = (Val (rd (backing c) k), c')" "good c'" "view c' = view c"
      "dictionary c' = dictionary c" "rd (backing c') = rd (backing c)"
    by (rule try_below [OF assms(1)])
  have vw: "view c k = rd (backing c) k" using None by (rule view_untracked)
  show ?thesis
  proof (cases "rd (backing c) k")
    case (Some v)
    have v: "ok v" by (rule rd_ok [OF good_valid [OF assms(1)] Some])
    from good_changing [OF c'(2) v refl, of k] show ?thesis
      using None Some c' vw by (simp add: dc_runs bnd_def sq_def ret_def run_track)
  next
    case below: None
    show ?thesis
    proof (cases factory)
      case (Some v)
      then have v: "ok v" using assms(2) by simp
      from good_changing [OF c'(2) v refl, of k] show ?thesis
        using None Some below c' vw by (simp add: dc_runs bnd_def sq_def ret_def run_track)
    qed (use None below c' vw in \<open>simp add: dc_runs bnd_def throw_def\<close>)
  qed
next
  case (Some tr)
  note entry = good_entry [OF assms(1) Some]
  note vw = view_tracked [OF Some]
  have st: "TS_CHANGED = (if rd (backing c) k = None then TS_ADDED else TS_CHANGED)"
    if "tr_State tr = TS_DELETED \<or> tr_State tr = TS_NONE"
    using that entry by (auto simp: entry_ok_def)
  have v: "ok (tr_Item tr)" using entry by (simp add: entry_ok_def)
  show ?thesis
  proof (cases "tr_State tr")
    case TS_DELETED
    show ?thesis
    proof (cases factory)
      case fac: (Some w)
      then have "ok w" using assms(2) by simp
      from good_changing [OF assms(1) this st] show ?thesis
        using Some TS_DELETED fac vw by (simp add: dc_runs bnd_def sq_def ret_def run_track)
    qed (use Some TS_DELETED vw assms(1) in \<open>simp add: dc_runs throw_def\<close>)
  next
    case TS_NONE
    from good_changing [OF assms(1) v st] show ?thesis
      using Some TS_NONE vw by (simp add: dc_runs bnd_def sq_def ret_def run_track)
  qed (use Some vw assms(1) in \<open>simp_all add: dc_runs ret_def changing_def fun_upd_idem\<close>)
qed

lemma dc_mutate_ok:
  assumes "good c" "changing c k v" "g v = Inr w" "ok w"
  shows "\<exists>c'. dc_mutate k g c = (Val (), c') \<and> good c' \<and> view c' = (view c)(k \<mapsto> w) \<and> rd (backing c') = rd (backing c)"
proof -
  obtain tr where tr: "map_of (dictionary c) k = Some tr" "tr_Item tr = v" "tr_State tr \<in> {TS_ADDED, TS_CHANGED}"
    using assms(2) by (auto simp: changing_def)
  then have st: "tr_State tr = (if rd (backing c) k = None then TS_ADDED else TS_CHANGED)"
    using entry_state [OF good_entry [OF assms(1) tr(1)]] by simp
  show ?thesis
    using good_changing [OF assms(1,4) st] tr assms(3) by (simp add: dc_runs bnd_def lft_def run_track)
qed

lemma dc_Change_ok:
  assumes "good c" "case factory of None \<Rightarrow> True | Some v \<Rightarrow> ok v" "\<And>v. ok v \<Longrightarrow> ok (f v)"
  shows "\<exists>c'. run_op I (C_Change k factory f) c = (result_of (fst (map_op (C_Change k factory f) (view c))), c') \<and>
    good c' \<and> view c' = snd (map_op (C_Change k factory f) (view c)) \<and> rd (backing c') = rd (backing c)"
proof (cases "case view c k of Some v \<Rightarrow> Some v | None \<Rightarrow> factory")
  case None
  then show ?thesis
    using dc_GetAndChange_ok [OF assms(1,2), of k] by (auto simp: bnd_def split: option.splits)
next
  case (Some v)
  then obtain c' where c': "dc_GetAndChange I k factory c = (Val v, c')" "good c'" "view c' = (view c)(k \<mapsto> v)" "changing c' k v"
      "rd (backing c') = rd (backing c)"
    using dc_GetAndChange_ok [OF assms(1,2), of k] by auto
  then have "ok (f v)" using good_entry by (intro assms(3)) (auto simp: changing_def entry_ok_def)
  then obtain c'' where "dc_mutate k (\<lambda>v. Inr (f v)) c' = (Val (), c'')" "good c''" "view c'' = (view c')(k \<mapsto> f v)"
      "rd (backing c'') = rd (backing c')"
    using dc_mutate_ok [where g = "\<lambda>v. Inr (f v)" and w = "f v", OF c'(2,4)] by blast
  then show ?thesis using c' Some by (auto simp: bnd_def sq_def ret_def split: option.splits)
qed

lemma dc_GetOrAdd_ok:
  assumes "good c" "ok v"
  shows "\<exists>c'. run_op I (C_GetOrAdd k v) c = (result_of (fst (map_op (C_GetOrAdd k v) (view c))), c') \<and>
    good c' \<and> view c' = snd (map_op (C_GetOrAdd k v) (view c)) \<and> rd (backing c') = rd (backing c)"
proof (cases "map_of (dictionary c) k")
  case None
  obtain c' where c': "on_backing (TryGetInternal I k) c = (Val (rd (backing c) k), c')" "good c'" "view c' = view c"
      "dictionary c' = dictionary c" "rd (backing c') = rd (backing c)"
    by (rule try_below [OF assms(1)])
  have vw: "view c k = rd (backing c) k" using None by (rule view_untracked)
  show ?thesis
  proof (cases "rd (backing c) k")
    case (Some w)
    have "entry_ok ok (rd (backing c') k) \<lparr>tr_Item = w, tr_State = TS_NONE\<rparr>"
      using Some c'(5) rd_ok [OF good_valid [OF assms(1)] Some] by (simp add: entry_ok_def)
    from good_track [OF c'(2) this] show ?thesis
      using None Some c' vw
      by (simp add: dc_runs bnd_def sq_def ret_def run_track fun_upd_idem_iff)
  next
    case below: None
    have "entry_ok ok (rd (backing c') k) \<lparr>tr_Item = v, tr_State = TS_ADDED\<rparr>"
      using below c'(5) assms(2) by (simp add: entry_ok_def)
    from good_track [OF c'(2) this] show ?thesis
      using None below c' vw by (simp add: dc_runs bnd_def sq_def ret_def run_track)
  qed
next
  case (Some tr)
  note entry = good_entry [OF assms(1) Some]
  note vw = view_tracked [OF Some]
  show ?thesis
  proof (cases "tr_State tr = TS_DELETED")
    case True
    then have "entry_ok ok (rd (backing c) k) \<lparr>tr_Item = v, tr_State = TS_CHANGED\<rparr>"
      using entry assms(2) by (simp add: entry_ok_def)
    from good_track [OF assms(1) this] show ?thesis
      using Some True vw by (simp add: dc_runs bnd_def sq_def ret_def run_track)
  qed (use Some vw assms(1) in \<open>simp add: dc_runs bnd_def ret_def\<close>)
qed

text \<open>Every operation of a client acts on the map as \<open>map_op\<close> says.\<close>

lemma run_op_ok:
  assumes "good c" "op_ok ok oper (view c)"
  shows "\<exists>c'. run_op I oper c = (result_of (fst (map_op oper (view c))), c') \<and> good c' \<and> view c' = snd (map_op oper (view c)) \<and> rd (backing c') = rd (backing c)"
proof (cases oper)
  case (C_Add k v)
  then show ?thesis using dc_Add_ok [OF assms(1), of v k] assms(2) by (auto simp: sq_def bnd_def ret_def)
next
  case (C_Delete k)
  then show ?thesis using dc_Delete_ok [OF assms(1), of k] by (auto simp: sq_def bnd_def ret_def)
next
  case (C_TryGet k)
  then show ?thesis using dc_TryGet_ok [OF assms(1), of k] by auto
next
  case (C_GetOrAdd k v)
  then show ?thesis using dc_GetOrAdd_ok [OF assms(1), of v k] assms(2) by simp
next
  case (C_Change k factory f)
  then show ?thesis using dc_Change_ok [OF assms(1), of factory f k] assms(2) by simp
qed

lemma dc_DeleteWhere_ok:
  assumes "good c"
  shows "\<exists>c'. dc_DeleteWhere P c = (Val (), c') \<and> commit_inv valid rd pend ok c' \<and>
    view c' = (\<lambda>k. case map_of (dictionary c) k of
      Some tr \<Rightarrow> if P k (tr_Item tr) then None else view c k | None \<Rightarrow> view c k)"
proof -
  let ?mark = "\<lambda>k tr. if tr_State tr \<noteq> TS_DELETED \<and> P k (tr_Item tr) then tr\<lparr>tr_State := TS_DELETED\<rparr> else tr"
  let ?c = "c\<lparr>dictionary := map (\<lambda>(k, tr). (k, ?mark k tr)) (dictionary c)\<rparr>"
  have run: "dc_DeleteWhere P c = (Val (), ?c)"
    by (auto simp: dc_DeleteWhere_def modify_def intro!: arg_cong [where f = "\<lambda>d. c\<lparr>dictionary := d\<rparr>"])
  have look: "map_of (dictionary ?c) k = map_option (?mark k) (map_of (dictionary c) k)" for k
    using map_of_map_value [of ?mark "dictionary c" k] by simp
  have keys: "map fst (dictionary ?c) = map fst (dictionary c)" by (simp add: case_prod_beta comp_def)
  have "commit_inv valid rd pend ok ?c"
    unfolding commit_inv_def keys look using assms by (auto simp: cache_inv_def)
  moreover have "view ?c = (\<lambda>k. case map_of (dictionary c) k of
      Some tr \<Rightarrow> if P k (tr_Item tr) then None else view c k | None \<Rightarrow> view c k)"
    unfolding dc_view_def look by (rule ext) (auto split: option.splits)
  ultimately show ?thesis using run by blast
qed

section \<open>A cache as a source\<close>

text \<open>A cache on which another stands: its items have copies.\<close>

lemma view_ok: "good c \<Longrightarrow> view c k = Some v \<Longrightarrow> ok v"
  using good_entry [of c k] rd_ok [OF good_valid]
  by (cases "map_of (dictionary c) k") (auto simp: view_untracked view_tracked entry_ok_def split: if_splits)

lemma clone_source:
  assumes "\<And>v. ok v \<Longrightarrow> clone v = Inr v"
  shows "cache_source (CloneCache I clone from_replica) good view view ok"
proof
  fix c k and v :: 'v
  assume good: "good c"
  show "ok v" if "view c k = Some v" using view_ok [OF good that] .
  have copy: "clone v = Inr v" if "view c k = Some v" for v using assms view_ok [OF good that] .
  show "\<exists>c'. TryGetInternal (CloneCache I clone from_replica) k c = (Val (view c k), c') \<and> good c' \<and>
      view c' = view c \<and> view c' = view c"
    using dc_TryGet_ok [OF good, of k] copy
    by (cases "view c k") (auto simp: CloneCache_def bnd_def ret_def lft_def)
  show "\<exists>r c'. GetInternal (CloneCache I clone from_replica) k c = (r, c') \<and> good c' \<and> view c' = view c \<and>
      view c' = view c \<and> (case view c k of Some v \<Rightarrow> r = Val v | None \<Rightarrow> r = Exc KeyError \<or> r = Exc ValueError)"
    using dc_getitem_ok [OF good, of k] copy
    by (cases "view c k") (auto simp: CloneCache_def bnd_def ret_def lft_def)
qed

end

section \<open>Searching below\<close>

text \<open>
  A search returns items of the map, all of those whose key begins with the prefix among them; it may
  return others. It asks for a prefix that is not hexadecimal text, which the database would decode.
\<close>

definition search_ok :: "bytes \<Rightarrow> (bytes \<Rightarrow> 'v option) \<Rightarrow> (bytes \<times> 'v) list \<Rightarrow> bool" where
  "search_ok p m found \<longleftrightarrow> (\<forall>k v. (k, v) \<in> set found \<longrightarrow> m k = Some v) \<and>
     (\<forall>k v. m k = Some v \<longrightarrow> take (length p) k = p \<longrightarrow> (k, v) \<in> set found)"

lemma search_okD: "search_ok p m found \<Longrightarrow> m k = Some v \<Longrightarrow> take (length p) k = p \<Longrightarrow> (k, v) \<in> set found"
  unfolding search_ok_def by blast

lemma py_in_prefix: "take (length p) k = p \<Longrightarrow> py_in p k"
  by (auto simp: py_in_def list_ex_iff intro!: bexI [of _ 0])

lemma emap_id: "(\<And>x. x \<in> set xs \<Longrightarrow> f x = Inr x) \<Longrightarrow> emap f xs = Inr xs"
  by (induction xs) auto

locale cache_search = cache_source +
  assumes find_law: "valid s \<Longrightarrow> unhexlify p = None \<Longrightarrow>
    \<exists>found s'. FindInternal I p s = (Val found, s') \<and> valid s' \<and> rd s' = rd s \<and> pend s' = pend s \<and> search_ok p (rd s) found"
begin

lemma dc_Find_ok:
  assumes "good c" "unhexlify p = None"
  shows "\<exists>found c'. dc_Find I (Some p) c = (Val found, c') \<and> good c' \<and> view c' = view c \<and> search_ok p (view c) found"
proof -
  obtain below s where s: "FindInternal I p (backing c) = (Val below, s)" "valid s" "rd s = rd (backing c)"
      "pend s = pend (backing c)" "search_ok p (rd (backing c)) below"
    using find_law [OF good_valid [OF assms(1)] assms(2)] by blast
  let ?found = "filter (\<lambda>(k, v). map_of (dictionary c) k = None) below @
      map (\<lambda>(k, tr). (k, tr_Item tr)) (filter (\<lambda>(k, tr). tr_State tr \<noteq> TS_DELETED \<and> py_in p k) (dictionary c))"
  have is_tracked: "map_of (dictionary c) k = Some tr \<longleftrightarrow> (k, tr) \<in> set (dictionary c)" for k tr
    using assms(1) by (simp add: cache_inv_def)
  have untracked: "view c k = rd (backing c) k" if "map_of (dictionary c) k = None" for k
    using that by (rule view_untracked)
  have "search_ok p (view c) ?found"
    unfolding search_ok_def
  proof (intro conjI allI impI)
    fix k v assume "(k, v) \<in> set ?found"
    then consider (below) "(k, v) \<in> set below" "map_of (dictionary c) k = None" |
        (tracked) tr where "(k, tr) \<in> set (dictionary c)" "tr_State tr \<noteq> TS_DELETED" "v = tr_Item tr"
      by auto
    then show "view c k = Some v"
    proof cases
      case below
      then have "rd (backing c) k = Some v" using s(5) unfolding search_ok_def by blast
      then show ?thesis using untracked [OF below(2)] by simp
    next
      case (tracked tr)
      then have "map_of (dictionary c) k = Some tr" by (simp only: is_tracked)
      from view_tracked [OF this] show ?thesis using tracked(2,3) by simp
    qed
  next
    fix k v assume v: "view c k = Some v" and p: "take (length p) k = p"
    show "(k, v) \<in> set ?found"
    proof (cases "map_of (dictionary c) k")
      case None
      then have "(k, v) \<in> set below" using v p s(5) untracked unfolding search_ok_def by metis
      then show ?thesis using None by simp
    next
      case (Some tr)
      then have "tr_State tr \<noteq> TS_DELETED" "tr_Item tr = v" using v view_tracked [OF Some] by (auto split: if_splits)
      moreover have "(k, tr) \<in> set (dictionary c)" using Some by (simp only: is_tracked)
      ultimately show ?thesis using py_in_prefix [OF p] by (force simp: image_iff)
    qed
  qed
  moreover have "dc_Find I (Some p) c = (Val ?found, c\<lparr>backing := s\<rparr>)"
    using s(1) by (simp add: dc_Find_def on_backing_def bnd_def gets_def ret_def)
  ultimately show ?thesis using good_backing [OF assms(1) s(2-4)] by blast
qed

lemma clone_search:
  assumes "\<And>v. ok v \<Longrightarrow> clone v = Inr v"
  shows "cache_search (CloneCache I clone from_replica) good view view ok"
proof (intro cache_search.intro clone_source assms cache_search_axioms.intro)
  fix c and p :: bytes
  assume good: "good c" and p: "unhexlify p = None"
  obtain found c' where c': "dc_Find I (Some p) c = (Val found, c')" "good c'" "view c' = view c" "search_ok p (view c) found"
    using dc_Find_ok [OF good p] by blast
  have "clone v = Inr v" if "(k, v) \<in> set found" for k v
    using c'(4) that assms [OF view_ok [OF good]] unfolding search_ok_def by blast
  then have "clone_found clone found = Inr found"
    unfolding clone_found_def by (intro emap_id) auto
  then show "\<exists>found c'. FindInternal (CloneCache I clone from_replica) p c = (Val found, c') \<and> good c' \<and>
      view c' = view c \<and> view c' = view c \<and> search_ok p (view c) found"
    using c' by (auto simp: CloneCache_def bnd_def lft_def)
qed

end

section \<open>Writing below\<close>

locale store = cache_source +
  assumes add_law: "valid s \<Longrightarrow> ok v \<Longrightarrow> pend s k = None \<Longrightarrow>
      \<exists>s'. AddInternal I k v s = (Val (), s') \<and> valid s' \<and> pend s' = (pend s)(k \<mapsto> v)"
    and update_law: "valid s \<Longrightarrow> ok v \<Longrightarrow> pend s k \<noteq> None \<Longrightarrow>
      \<exists>s'. UpdateInternal I k v s = (Val (), s') \<and> valid s' \<and> pend s' = (pend s)(k \<mapsto> v)"
    and delete_law: "valid s \<Longrightarrow>
      \<exists>s'. DeleteInternal I k s = (Val (), s') \<and> valid s' \<and> pend s' = (pend s)(k := None)"
begin

section \<open>Committing\<close>

lemma commit_item_ok:
  assumes "valid s" "tr_State tr = TS_ADDED \<longrightarrow> ok (tr_Item tr) \<and> pend s k = None"
    "tr_State tr = TS_CHANGED \<longrightarrow> ok (tr_Item tr) \<and> pend s k \<noteq> None"
  shows "\<exists>s'. commit_item I (k, tr) (c\<lparr>backing := s\<rparr>) = (Val (), c\<lparr>backing := s'\<rparr>) \<and> valid s' \<and>
    pend s' = (pend s)(k := committed tr (pend s k))"
  using assms add_law [OF assms(1), of "tr_Item tr" k] update_law [OF assms(1), of "tr_Item tr" k] delete_law [OF assms(1), of k]
  by (cases "tr_State tr") (auto simp: commit_item_def on_backing_def committed_def ret_def)

lemma commit_items_ok:
  assumes "valid s" "distinct (map fst es)"
    "\<And>k tr. (k, tr) \<in> set es \<Longrightarrow> tr_State tr = TS_ADDED \<longrightarrow> ok (tr_Item tr) \<and> pend s k = None"
    "\<And>k tr. (k, tr) \<in> set es \<Longrightarrow> tr_State tr = TS_CHANGED \<longrightarrow> ok (tr_Item tr) \<and> pend s k \<noteq> None"
  shows "\<exists>s'. mapm (commit_item I) es (c\<lparr>backing := s\<rparr>) = (Val (), c\<lparr>backing := s'\<rparr>) \<and> valid s' \<and>
    pend s' = (\<lambda>k. case map_of es k of None \<Rightarrow> pend s k | Some tr \<Rightarrow> committed tr (pend s k))"
  using assms
proof (induction es arbitrary: s)
  case Nil
  then show ?case by (auto simp: ret_def intro!: exI [of _ s])
next
  case (Cons e es)
  obtain k tr where e: "e = (k, tr)" by (cases e)
  obtain s1 where s1: "commit_item I e (c\<lparr>backing := s\<rparr>) = (Val (), c\<lparr>backing := s1\<rparr>)" "valid s1"
      "pend s1 = (pend s)(k := committed tr (pend s k))"
    using commit_item_ok [OF Cons.prems(1), of tr k c] Cons.prems(3,4) [of k tr] e by auto
  have other: "j \<noteq> k" if "(j, t) \<in> set es" for j t
    using Cons.prems(2) that by (force simp: e)
  have d: "distinct (map fst es)" using Cons.prems(2) by simp
  have p3: "tr_State t = TS_ADDED \<longrightarrow> ok (tr_Item t) \<and> pend s1 j = None" if "(j, t) \<in> set es" for j t
    using Cons.prems(3) [of j t] other [OF that] that by (simp add: s1(3))
  have p4: "tr_State t = TS_CHANGED \<longrightarrow> ok (tr_Item t) \<and> pend s1 j \<noteq> None" if "(j, t) \<in> set es" for j t
    using Cons.prems(4) [of j t] other [OF that] that by (simp add: s1(3))
  obtain s2 where s2: "mapm (commit_item I) es (c\<lparr>backing := s1\<rparr>) = (Val (), c\<lparr>backing := s2\<rparr>)" "valid s2"
      "pend s2 = (\<lambda>k. case map_of es k of None \<Rightarrow> pend s1 k | Some tr \<Rightarrow> committed tr (pend s1 k))"
    using Cons.IH [OF s1(2) d p3 p4] by blast
  have "map_of es k = None" using Cons.prems(2) by (simp add: e map_of_eq_None_iff)
  then have "pend s2 = (\<lambda>j. case map_of (e # es) j of None \<Rightarrow> pend s j | Some tr \<Rightarrow> committed tr (pend s j))"
    by (auto simp: s2(3) s1(3) e fun_eq_iff split: option.splits)
  then show ?case using s1(1) s2(1,2) by (auto simp: sq_def bnd_def)
qed

lemma dc_Commit_ok:
  assumes "commit_inv valid rd pend ok c"
  shows "\<exists>s'. dc_Commit I c = (Val (), c\<lparr>backing := s'\<rparr>) \<and> valid s' \<and> pend s' = view c"
proof -
  note f = assms [unfolded commit_inv_def]
  have entry: "tr_State tr = TS_DELETED \<or> entry_ok ok (rd (backing c) k) tr" if "(k, tr) \<in> set (dictionary c)" for k tr
    using f that map_of_is_SomeI by fast
  obtain s' where s': "mapm (commit_item I) (dictionary c) (c\<lparr>backing := backing c\<rparr>) = (Val (), c\<lparr>backing := s'\<rparr>)" "valid s'"
      "pend s' = (\<lambda>k. case map_of (dictionary c) k of None \<Rightarrow> pend (backing c) k | Some tr \<Rightarrow> committed tr (pend (backing c) k))"
    using commit_items_ok [of "backing c" "dictionary c" c] f entry by (fastforce simp: entry_ok_def)
  have "pend s' = view c"
  proof
    fix k
    show "pend s' k = view c k"
    proof (cases "map_of (dictionary c) k")
      case (Some tr)
      then have "tr_State tr = TS_DELETED \<or> entry_ok ok (rd (backing c) k) tr" using f by blast
      then show ?thesis
        using Some f by (cases "tr_State tr") (auto simp: s'(3) dc_view_def committed_def entry_ok_def)
    qed (use f in \<open>simp add: s'(3) dc_view_def\<close>)
  qed
  then show ?thesis using s'(1,2) by (auto simp: dc_Commit_def gets_def bnd_def intro!: exI [of _ s'])
qed

text \<open>A cache whose items also take over the content of others is a store for the next.\<close>

lemma clone_store:
  assumes "\<And>v. ok v \<Longrightarrow> clone v = Inr v" "\<And>u v. ok u \<Longrightarrow> ok v \<Longrightarrow> from_replica u v = Inr v"
  shows "store (CloneCache I clone from_replica) good view view ok"
proof (intro store.intro store_axioms.intro clone_source)
  fix c k and v :: 'b
  assume good: "good c"
  show "\<exists>c'. AddInternal (CloneCache I clone from_replica) k v c = (Val (), c') \<and> good c' \<and> view c' = (view c)(k \<mapsto> v)"
    if "ok v" "view c k = None"
    using dc_Add_ok [OF good that] by (auto simp: CloneCache_def)
  show "\<exists>c'. DeleteInternal (CloneCache I clone from_replica) k c = (Val (), c') \<and> good c' \<and> view c' = (view c)(k := None)"
    using dc_Delete_ok [OF good, of k] by (auto simp: CloneCache_def)
  show "\<exists>c'. UpdateInternal (CloneCache I clone from_replica) k v c = (Val (), c') \<and> good c' \<and> view c' = (view c)(k \<mapsto> v)"
    if "ok v" "view c k \<noteq> None"
  proof -
    note new = that
    obtain u where u: "view c k = Some u" using new(2) by blast
    then obtain c' where c': "dc_GetAndChange I k None c = (Val u, c')" "good c'" "view c' = (view c)(k \<mapsto> u)" "changing c' k u"
      using dc_GetAndChange_ok [OF good, of None k] by auto
    have "from_replica u v = Inr v" by (rule assms(2)) (use view_ok [OF good u] new(1) in simp_all)
    then obtain c'' where "dc_mutate k (\<lambda>old. from_replica old v) c' = (Val (), c'')" "good c''" "view c'' = (view c')(k \<mapsto> v)"
      using dc_mutate_ok [where g = "\<lambda>old. from_replica old v" and w = v, OF c'(2,4)] new(1) by blast
    then show ?thesis using c' by (simp add: CloneCache_def sq_def bnd_def)
  qed
qed (rule assms)

end

end
