(* ===== verification/Shared_Objects.thy ===== *)
theory Shared_Objects
  imports Cache_Contract
begin

text \<open>
  The caches with the objects they share. \<open>Data_Cache\<close> has the methods of \<open>neo/Storage/Common/DataCache.py\<close> for
  items of any type; here the items are references to objects on a heap, as in Python, so that a cache and
  whoever it handed an object to see each other's changes. What reads the database makes new objects;
  \<open>CloneCache\<close> makes copies with \<open>Clone\<close> where the code does.

  The locale \<open>object_layer\<close> relates methods on objects to methods on values: as long as no object is in two places
  (\<open>apart\<close>), they do the same. A cache over a layer is a layer again, and so is a clone of a cache; that is
  what justifies the caches of values. Assignments to the attributes of an object are writes of its whole
  content here. The byte string in a storage item is not copied by \<open>Clone\<close>; absent changes it in place.
\<close>

section \<open>Objects\<close>

record 'v objects =
  obj_at :: "nat \<Rightarrow> 'v"
  obj_next :: nat

text \<open>A state that has a heap is given with the functions that read and replace the heap.\<close>

definition obj_new :: "('s \<Rightarrow> 'v objects) \<Rightarrow> ('v objects \<Rightarrow> 's \<Rightarrow> 's) \<Rightarrow> 'v \<Rightarrow> ('s, nat) m" where
  "obj_new heap with_heap v s =
     (let h = heap s in
      (Val (obj_next h), with_heap (h\<lparr>obj_at := (obj_at h)(obj_next h := v), obj_next := Suc (obj_next h)\<rparr>) s))"

definition obj_value :: "('s \<Rightarrow> 'v objects) \<Rightarrow> nat \<Rightarrow> ('s, 'v) m" where
  "obj_value heap r = gets (\<lambda>s. obj_at (heap s) r)"

definition obj_set :: "('s \<Rightarrow> 'v objects) \<Rightarrow> ('v objects \<Rightarrow> 's \<Rightarrow> 's) \<Rightarrow> nat \<Rightarrow> 'v \<Rightarrow> ('s, unit) m" where
  "obj_set heap with_heap r v =
     modify (\<lambda>s. with_heap ((heap s)\<lparr>obj_at := (obj_at (heap s))(r := v)\<rparr>) s)"

text \<open>What lies at the bottom: the heap, and the state that holds no objects.\<close>

record ('b, 'v) heaped =
  hp_objects :: "'v objects"
  hp_base :: 'b

definition hp_with :: "'v objects \<Rightarrow> ('b, 'v) heaped \<Rightarrow> ('b, 'v) heaped" where
  "hp_with h s = s\<lparr>hp_objects := h\<rparr>"

definition on_base :: "('b, 'a) m \<Rightarrow> (('b, 'v) heaped, 'a) m" where
  "on_base p s = (case p (hp_base s) of (r, b) \<Rightarrow> (r, s\<lparr>hp_base := b\<rparr>))"

section \<open>The methods on objects\<close>

text \<open>New objects for the values of a list of pairs.\<close>

primrec new_found :: "('s \<Rightarrow> 'v objects) \<Rightarrow> ('v objects \<Rightarrow> 's \<Rightarrow> 's) \<Rightarrow> ('k \<times> 'v) list \<Rightarrow> ('s, ('k \<times> nat) list) m" where
  "new_found heap with_heap [] = ret []"
| "new_found heap with_heap (e # es) =
     bnd (obj_new heap with_heap (snd e)) (\<lambda>r. bnd (new_found heap with_heap es) (\<lambda>rs. ret ((fst e, r) # rs)))"

text \<open>A subclass that reads values from below and makes an object of each, as \<open>LevelDBCache\<close> does.\<close>

definition ObjectCache :: "('b, bytes, 'v) internals \<Rightarrow> (('b, 'v) heaped, bytes, nat) internals" where
  "ObjectCache J =
     \<lparr>GetInternal = (\<lambda>k. bnd (on_base (GetInternal J k)) (obj_new hp_objects hp_with)),
      TryGetInternal = (\<lambda>k. bnd (on_base (TryGetInternal J k)) (\<lambda>res.
        case res of None \<Rightarrow> ret None | Some v \<Rightarrow> bnd (obj_new hp_objects hp_with v) (\<lambda>r. ret (Some r)))),
      AddInternal = (\<lambda>k r. bnd (obj_value hp_objects r) (\<lambda>v. on_base (AddInternal J k v))),
      UpdateInternal = (\<lambda>k r. bnd (obj_value hp_objects r) (\<lambda>v. on_base (UpdateInternal J k v))),
      DeleteInternal = (\<lambda>k. on_base (DeleteInternal J k)),
      FindInternal = (\<lambda>p. bnd (on_base (FindInternal J p)) (new_found hp_objects hp_with))\<rparr>"

text \<open>The heap of a cache is the one below it.\<close>

definition c_heap :: "('s \<Rightarrow> 'v objects) \<Rightarrow> ('s, 'k, nat) data_cache \<Rightarrow> 'v objects" where
  "c_heap heap c = heap (backing c)"

definition c_with :: "('v objects \<Rightarrow> 's \<Rightarrow> 's) \<Rightarrow> 'v objects \<Rightarrow> ('s, 'k, nat) data_cache \<Rightarrow> ('s, 'k, nat) data_cache" where
  "c_with with_heap h c = c\<lparr>backing := with_heap h (backing c)\<rparr>"

text \<open>\<open>Clone\<close> on an object: a new one with what the class's \<open>Clone\<close> makes of it.\<close>

definition clone_object ::
  "('s \<Rightarrow> 'v objects) \<Rightarrow> ('v objects \<Rightarrow> 's \<Rightarrow> 's) \<Rightarrow> ('v \<Rightarrow> pyexc + 'v) \<Rightarrow> nat \<Rightarrow> ('s, nat) m" where
  "clone_object heap with_heap clone r =
     bnd (obj_value heap r) (\<lambda>v. bnd (lft (clone v)) (obj_new heap with_heap))"

primrec clone_objects ::
  "('s \<Rightarrow> 'v objects) \<Rightarrow> ('v objects \<Rightarrow> 's \<Rightarrow> 's) \<Rightarrow> ('v \<Rightarrow> pyexc + 'v) \<Rightarrow> ('k \<times> nat) list \<Rightarrow> ('s, ('k \<times> nat) list) m" where
  "clone_objects heap with_heap clone [] = ret []"
| "clone_objects heap with_heap clone (e # es) =
     bnd (clone_object heap with_heap clone (snd e)) (\<lambda>r.
     bnd (clone_objects heap with_heap clone es) (\<lambda>rs. ret ((fst e, r) # rs)))"

text \<open>\<open>CloneCache\<close>: what is added below is the object itself, what is updated takes over its content.\<close>

definition CloneObjects ::
  "('s \<Rightarrow> 'v objects) \<Rightarrow> ('v objects \<Rightarrow> 's \<Rightarrow> 's) \<Rightarrow> ('s, bytes, nat) internals \<Rightarrow>
   ('v \<Rightarrow> pyexc + 'v) \<Rightarrow> ('v \<Rightarrow> 'v \<Rightarrow> pyexc + 'v) \<Rightarrow> (('s, bytes, nat) data_cache, bytes, nat) internals" where
  "CloneObjects heap with_heap I clone from_replica =
     (let get = c_heap heap; put = c_with with_heap in
     \<lparr>GetInternal = (\<lambda>k. bnd (dc_getitem I k) (clone_object get put clone)),
      TryGetInternal = (\<lambda>k. bnd (dc_TryGet I k) (\<lambda>res.
        case res of None \<Rightarrow> ret None | Some r \<Rightarrow> bnd (clone_object get put clone r) (\<lambda>q. ret (Some q)))),
      AddInternal = (\<lambda>k r. dc_Add k r),
      UpdateInternal = (\<lambda>k r. bnd (dc_GetAndChange I k None) (\<lambda>q.
        bnd (obj_value get q) (\<lambda>old. bnd (obj_value get r) (\<lambda>replica.
        bnd (lft (from_replica old replica)) (obj_set get put q))))),
      DeleteInternal = (\<lambda>k. dc_Delete I k),
      FindInternal = (\<lambda>p. bnd (dc_Find I (Some p)) (clone_objects get put clone))\<rparr>)"

section \<open>Apart\<close>

text \<open>
  \<open>owned\<close> are the references a state keeps. The references \<open>H\<close> that others hold are apart from those, and all of
  them have been made.
\<close>

definition apart :: "('s \<Rightarrow> 'v objects) \<Rightarrow> ('s \<Rightarrow> nat set) \<Rightarrow> ('s \<Rightarrow> bool) \<Rightarrow> nat set \<Rightarrow> 's \<Rightarrow> bool" where
  "apart heap owned sound H s \<longleftrightarrow> sound s \<and> owned s \<inter> H = {} \<and> (\<forall>r\<in>owned s \<union> H. r < obj_next (heap s))"

definition res_refs :: "('a \<Rightarrow> nat set) \<Rightarrow> 'a res \<Rightarrow> nat set" where
  "res_refs f r = (case r of Val x \<Rightarrow> f x | _ \<Rightarrow> {})"

text \<open>
  Two outcomes agree: the same result, up to what the references denote; states that correspond; the
  references in the result are new to those who held \<open>H\<close>, and what is at \<open>H\<close> is as it was.
\<close>

definition agree ::
  "('s \<Rightarrow> 'v objects) \<Rightarrow> ('s \<Rightarrow> nat set) \<Rightarrow> ('s \<Rightarrow> bool) \<Rightarrow> ('s \<Rightarrow> 't) \<Rightarrow> ('a \<Rightarrow> nat set) \<Rightarrow> ((nat \<Rightarrow> 'v) \<Rightarrow> 'a \<Rightarrow> 'b) \<Rightarrow>
   nat set \<Rightarrow> (nat \<Rightarrow> 'v) \<Rightarrow> 'a res \<times> 's \<Rightarrow> 'b res \<times> 't \<Rightarrow> bool" where
  "agree heap owned sound img rf val H before x y \<longleftrightarrow>
     (case x of (r, s) \<Rightarrow> y = (map_res (val (obj_at (heap s))) r, img s) \<and> apart heap owned sound (H \<union> res_refs rf r) s \<and>
        res_refs rf r \<inter> H = {} \<and> (\<forall>h\<in>H. obj_at (heap s) h = before h))"

definition sim ::
  "('s \<Rightarrow> 'v objects) \<Rightarrow> ('s \<Rightarrow> nat set) \<Rightarrow> ('s \<Rightarrow> bool) \<Rightarrow> ('s \<Rightarrow> 't) \<Rightarrow> ('a \<Rightarrow> nat set) \<Rightarrow> ((nat \<Rightarrow> 'v) \<Rightarrow> 'a \<Rightarrow> 'b) \<Rightarrow>
   ('s, 'a) m \<Rightarrow> ('t, 'b) m \<Rightarrow> bool" where
  "sim heap owned sound img rf val p q \<longleftrightarrow>
     (\<forall>H s. apart heap owned sound H s \<longrightarrow> agree heap owned sound img rf val H (obj_at (heap s)) (p s) (q (img s)))"

definition found_refs :: "('k \<times> nat) list \<Rightarrow> nat set" where
  "found_refs es = snd ` set es"

definition found_values :: "(nat \<Rightarrow> 'v) \<Rightarrow> ('k \<times> nat) list \<Rightarrow> ('k \<times> 'v) list" where
  "found_values ot es = map (\<lambda>e. (fst e, ot (snd e))) es"

section \<open>Agreement\<close>

lemma res_refs_simps [simp]: "res_refs f (Val x) = f x" "res_refs f (Exc e) = {}" "res_refs f (Ret b) = {}"
  by (simp_all add: res_refs_def)

lemma agreeD:
  assumes "agree heap owned sound img rf val H before x y"
  obtains r s where "x = (r, s)" "y = (map_res (val (obj_at (heap s))) r, img s)" "apart heap owned sound (H \<union> res_refs rf r) s"
    "res_refs rf r \<inter> H = {}" "\<forall>h\<in>H. obj_at (heap s) h = before h"
  using assms by (cases x) (auto simp: agree_def)

text \<open>\<open>bnd\<close> on an outcome.\<close>

definition andthen :: "'a res \<times> 's \<Rightarrow> ('a \<Rightarrow> ('s, 'b) m) \<Rightarrow> 'b res \<times> 's" where
  "andthen x f = (case x of (Val a, s) \<Rightarrow> f a s | (Ret b, s) \<Rightarrow> (Ret b, s) | (Exc e, s) \<Rightarrow> (Exc e, s))"

lemma bnd_andthen: "bnd p f s = andthen (p s) f"
  by (simp add: bnd_def andthen_def)

lemma andthen_val: "andthen (ret a s) f = f a s"
  by (simp add: andthen_def ret_def)

lemma andthen_ret: "andthen x ret = x"
  by (simp add: andthen_def ret_def split: prod.splits res.splits)

lemma agree_bnd:
  assumes "agree heap owned sound img rf1 val1 H before x y"
    and "\<And>a s'. x = (Val a, s') \<Longrightarrow> apart heap owned sound (H \<union> rf1 a) s' \<Longrightarrow> rf1 a \<inter> H = {} \<Longrightarrow>
      \<forall>h\<in>H. obj_at (heap s') h = before h \<Longrightarrow>
      agree heap owned sound img rf val H before (f a s') (g (val1 (obj_at (heap s')) a) (img s'))"
  shows "agree heap owned sound img rf val H before (andthen x f) (andthen y g)"
proof -
  obtain r u where r: "x = (r, u)" "y = (map_res (val1 (obj_at (heap u))) r, img u)" "apart heap owned sound (H \<union> res_refs rf1 r) u"
      "res_refs rf1 r \<inter> H = {}" "\<forall>h\<in>H. obj_at (heap u) h = before h"
    by (rule agreeD [OF assms(1)])
  show ?thesis
  proof (cases r)
    case (Val a)
    then show ?thesis using assms(2) [of a u] r by (simp add: andthen_def)
  qed (use r in \<open>simp_all add: andthen_def agree_def\<close>)
qed

lemma agree_lft:
  assumes "apart heap owned sound H s" "\<forall>h\<in>H. obj_at (heap s) h = before h" "\<And>v. rf v = {}" "\<And>ot v. val ot v = v"
  shows "agree heap owned sound img rf val H before (lft r s) (lft r (img s))"
  using assms by (cases r) (simp_all add: agree_def lft_def)

lemma agree_ret:
  assumes "apart heap owned sound (H \<union> rf x) s" "rf x \<inter> H = {}" "\<forall>h\<in>H. obj_at (heap s) h = before h" "y = val (obj_at (heap s)) x"
  shows "agree heap owned sound img rf val H before (ret x s) (ret y (img s))"
  using assms by (simp add: agree_def ret_def)

lemma agree_throw:
  assumes "apart heap owned sound H s" "\<forall>h\<in>H. obj_at (heap s) h = before h"
  shows "agree heap owned sound img rf val H before (throw e s) (throw e (img s))"
  using assms by (simp add: agree_def throw_def)

lemma apart_less: "apart heap owned sound H s \<Longrightarrow> G \<subseteq> H \<Longrightarrow> apart heap owned sound G s"
  unfolding apart_def by blast

text \<open>A state with a heap: \<open>img\<close> is the state of values it stands for; it depends on the owned objects only.\<close>

locale heap_state =
  fixes heap :: "'s \<Rightarrow> 'v objects" and with_heap :: "'v objects \<Rightarrow> 's \<Rightarrow> 's"
    and owned :: "'s \<Rightarrow> nat set" and sound :: "'s \<Rightarrow> bool" and img :: "'s \<Rightarrow> 't"
  assumes heap_with: "heap (with_heap h s) = h"
    and owned_with: "owned (with_heap h s) = owned s"
    and sound_with: "sound (with_heap h s) = sound s"
    and img_with: "(\<And>r. r \<in> owned s \<Longrightarrow> obj_at h r = obj_at (heap s) r) \<Longrightarrow> img (with_heap h s) = img s"
begin

abbreviation "apart_in \<equiv> apart heap owned sound"
abbreviation "agree_in \<equiv> agree heap owned sound img"

lemma new_apart:
  assumes "apart_in H s" "obj_new heap with_heap v s = (r, t)"
  shows "r = Val (obj_next (heap s))" "apart_in (insert (obj_next (heap s)) H) t" "obj_next (heap s) \<notin> H" "img t = img s"
    "obj_at (heap t) = (obj_at (heap s))(obj_next (heap s) := v)"
proof -
  let ?h = "(heap s)\<lparr>obj_at := (obj_at (heap s))(obj_next (heap s) := v), obj_next := Suc (obj_next (heap s))\<rparr>"
  have t: "t = with_heap ?h s" "r = Val (obj_next (heap s))" using assms(2) by (auto simp: obj_new_def Let_def)
  have fresh: "obj_next (heap s) \<notin> owned s \<union> H" using assms(1) unfolding apart_def by blast
  show "r = Val (obj_next (heap s))" "obj_next (heap s) \<notin> H" using t(2) fresh by simp_all
  show "img t = img s" unfolding t(1) by (rule img_with) (use fresh in auto)
  show "obj_at (heap t) = (obj_at (heap s))(obj_next (heap s) := v)" unfolding t(1) heap_with by simp
  have "\<forall>r\<in>owned s \<union> insert (obj_next (heap s)) H. r < Suc (obj_next (heap s))"
    using assms(1) unfolding apart_def by (simp add: less_Suc_eq)
  moreover have "owned s \<inter> insert (obj_next (heap s)) H = {}" "sound s" using assms(1) fresh unfolding apart_def by auto
  ultimately show "apart_in (insert (obj_next (heap s)) H) t"
    unfolding apart_def t(1) heap_with owned_with sound_with by simp
qed

lemma agree_new:
  assumes "apart_in H s" "\<forall>h\<in>H. obj_at (heap s) h = before h"
  shows "agree_in (\<lambda>r. {r}) (\<lambda>ot r. ot r) H before (obj_new heap with_heap v s) (ret v (img s))"
proof -
  obtain r t where new: "obj_new heap with_heap v s = (r, t)" by (cases "obj_new heap with_heap v s")
  from new_apart [OF assms(1) new] show ?thesis
    using assms(2) by (auto simp: agree_def new ret_def)
qed

lemma agree_new_found:
  assumes "apart_in H s" "\<forall>h\<in>H. obj_at (heap s) h = before h"
  shows "agree_in found_refs found_values H before (new_found heap with_heap es s) (ret es (img s))"
  using assms
proof (induction es arbitrary: H s before)
  case Nil
  then show ?case by (simp add: agree_def ret_def found_refs_def found_values_def)
next
  case (Cons e es)
  obtain r t where new: "obj_new heap with_heap (snd e) s = (r, t)" by (cases "obj_new heap with_heap (snd e) s")
  note t = new_apart [OF Cons.prems(1) new]
  let ?r = "obj_next (heap s)"
  obtain q u where u: "new_found heap with_heap es t = (q, u)"
      "ret es (img t) = (map_res (found_values (obj_at (heap u))) q, img u)"
      "apart_in (insert ?r H \<union> res_refs found_refs q) u" "res_refs found_refs q \<inter> insert ?r H = {}"
      "\<forall>h\<in>insert ?r H. obj_at (heap u) h = obj_at (heap t) h"
    by (rule agreeD [OF Cons.IH [OF t(2), of "obj_at (heap t)"]]) auto
  then obtain rs where rs: "q = Val rs" "found_values (obj_at (heap u)) rs = es" "img u = img t"
    by (cases q) (auto simp: ret_def)
  have "obj_at (heap u) h = before h" if "h \<in> H" for h using that u(5) t(3,5) Cons.prems(2) by auto
  moreover have "apart_in (H \<union> found_refs ((fst e, ?r) # rs)) u"
    using u(3) rs(1) by (simp add: found_refs_def Un_insert_left Un_insert_right)
  moreover have "obj_at (heap u) ?r = snd e" using u(5) t(5) by simp
  ultimately show ?case
    using new t(1,3,4) u(1,4) rs by (simp add: agree_def ret_def bnd_def found_refs_def found_values_def)
qed

text \<open>Copies are new objects.\<close>

lemma clone_object_run:
  "clone_object heap with_heap clone r s = andthen (lft (clone (obj_at (heap s) r)) s) (obj_new heap with_heap)"
  by (simp add: clone_object_def obj_value_def gets_def bnd_def andthen_def)

lemma agree_clone:
  assumes "apart_in H s" "\<forall>h\<in>H. obj_at (heap s) h = before h"
  shows "agree_in (\<lambda>r. {r}) (\<lambda>ot r. ot r) H before (clone_object heap with_heap clone r s) (lft (clone (obj_at (heap s) r)) (img s))"
proof -
  have "agree_in (\<lambda>r. {r}) (\<lambda>ot r. ot r) H before (andthen (lft (clone (obj_at (heap s) r)) s) (obj_new heap with_heap))
    (andthen (lft (clone (obj_at (heap s) r)) (img s)) ret)"
  proof (rule agree_bnd [OF agree_lft [where rf = "\<lambda>v. {}" and val = "\<lambda>ot v. v", OF assms]])
    show "agree_in (\<lambda>r. {r}) (\<lambda>ot r. ot r) H before (obj_new heap with_heap v t) (ret v (img t))"
      if "apart_in (H \<union> {}) t" "\<forall>h\<in>H. obj_at (heap t) h = before h" for v t
      by (rule agree_new) (use that in simp_all)
  qed simp_all
  then show ?thesis by (simp add: clone_object_run andthen_ret)
qed

text \<open>A search through copies: the objects found keep their values while the copies are made.\<close>

lemma agree_clone_objects:
  assumes "apart_in H s" "\<forall>h\<in>H. obj_at (heap s) h = before h" "\<forall>r\<in>found_refs es. r < obj_next (heap s)"
  shows "agree_in found_refs found_values H before (clone_objects heap with_heap clone es s)
    (lft (clone_found clone (found_values (obj_at (heap s)) es)) (img s))"
  using assms
proof (induction es arbitrary: H s before)
  case Nil
  then show ?case by (simp add: agree_def clone_found_def found_values_def found_refs_def ret_def lft_def)
next
  case (Cons e es)
  obtain r t where new: "clone_object heap with_heap clone (snd e) s = (r, t)" by (cases "clone_object heap with_heap clone (snd e) s")
  have e: "agree_in (\<lambda>r. {r}) (\<lambda>ot r. ot r) H before (r, t) (lft (clone (obj_at (heap s) (snd e))) (img s))"
    using agree_clone [OF Cons.prems(1,2), of clone "snd e"] new by simp
  show ?case
  proof (cases "clone (obj_at (heap s) (snd e))")
    case (Inl x)
    then show ?thesis
      using e new by (cases r) (simp_all add: agree_def lft_def throw_def clone_found_def found_values_def bnd_def ebind_def)
  next
    case (Inr v)
    then have r: "r = Val (obj_next (heap s))" "obj_new heap with_heap v s = (r, t)"
      using new new_apart(1) [OF Cons.prems(1)] by (auto simp: clone_object_run andthen_def lft_def ret_def)
    note n = new_apart [OF Cons.prems(1) r(2)]
    have next_t: "obj_next (heap t) = Suc (obj_next (heap s))"
      using r(2) by (auto simp: obj_new_def Let_def heap_with)
    have same: "found_values (obj_at (heap t)) es = found_values (obj_at (heap s)) es"
      using Cons.prems(3) by (auto simp: found_values_def n(5) found_refs_def)
    have "agree_in found_refs found_values (insert (obj_next (heap s)) H) (obj_at (heap t)) (clone_objects heap with_heap clone es t)
       (lft (clone_found clone (found_values (obj_at (heap t)) es)) (img t))"
      by (rule Cons.IH [OF n(2)]) (use Cons.prems(3) in \<open>auto simp: next_t found_refs_def less_Suc_eq\<close>)
    then obtain rs u where u: "clone_objects heap with_heap clone es t = (rs, u)"
        "lft (clone_found clone (found_values (obj_at (heap s)) es)) (img s) = (map_res (found_values (obj_at (heap u))) rs, img u)"
        "apart_in (insert (obj_next (heap s)) H \<union> res_refs found_refs rs) u" "res_refs found_refs rs \<inter> insert (obj_next (heap s)) H = {}"
        "\<forall>h\<in>insert (obj_next (heap s)) H. obj_at (heap u) h = obj_at (heap t) h"
      unfolding same n(4) by (rule agreeD)
    have before: "\<forall>h\<in>H. obj_at (heap u) h = before h"
      using u(5) n(3,5) Cons.prems(2) by (metis fun_upd_other insertCI)
    have v: "obj_at (heap u) (obj_next (heap s)) = v" using u(5) n(5) by simp
    show ?thesis
    proof (cases rs)
      case (Val xs)
      then obtain ws where "clone_found clone (found_values (obj_at (heap s)) es) = Inr ws" "ws = found_values (obj_at (heap u)) xs"
        using u(2) by (cases "clone_found clone (found_values (obj_at (heap s)) es)") (auto simp: lft_def ret_def throw_def)
      then show ?thesis
        using u(1,2,3,4) Val before v Inr new r(1) n(3)
        by (simp add: agree_def bnd_def ret_def lft_def clone_found_def found_values_def found_refs_def ebind_def insert_commute)
    next
      case (Exc x)
      then have "clone_found clone (found_values (obj_at (heap s)) es) = Inl x"
        using u(2) by (cases "clone_found clone (found_values (obj_at (heap s)) es)") (auto simp: lft_def ret_def throw_def)
      then show ?thesis
        using u Exc before Inr new r(1) apart_less [of heap owned sound "insert (obj_next (heap s)) H" u H]
        by (auto simp: agree_def bnd_def ret_def lft_def throw_def clone_found_def found_values_def ebind_def)
    next
      case (Ret x)
      then show ?thesis
        using u(2) by (cases "clone_found clone (found_values (obj_at (heap s)) es)") (auto simp: lft_def ret_def throw_def)
    qed
  qed
qed

end

text \<open>The methods on objects do what those on values do.\<close>

locale object_layer = heap_state +
  fixes I :: "('a, bytes, nat) internals" and J :: "('c, bytes, 'b) internals"
  assumes get_sim: "sim heap owned sound img (\<lambda>r. {r}) (\<lambda>ot r. ot r) (GetInternal I k) (GetInternal J k)"
    and try_sim: "sim heap owned sound img set_option map_option (TryGetInternal I k) (TryGetInternal J k)"
    and find_sim: "sim heap owned sound img found_refs found_values (FindInternal I p) (FindInternal J p)"

section \<open>The database below\<close>

interpretation below: heap_state hp_objects hp_with "\<lambda>s. {}" "\<lambda>s. True" hp_base
  by unfold_locales (simp_all add: hp_with_def)

lemma agree_on_base:
  assumes "apart hp_objects (\<lambda>s. {}) (\<lambda>s. True) H s"
  shows "agree hp_objects (\<lambda>s. {}) (\<lambda>s. True) hp_base (\<lambda>v. {}) (\<lambda>ot v. v) H (obj_at (hp_objects s)) (on_base p s) (p (hp_base s))"
  using assms by (auto simp: agree_def on_base_def apart_def res.map_ident split: prod.splits)
    (simp_all add: res_refs_def split: res.splits)

lemma agree_some:
  assumes "agree heap owned sound img (\<lambda>r. {r}) (\<lambda>ot r. ot r) H before x y"
  shows "agree heap owned sound img set_option map_option H before (andthen x (\<lambda>r. ret (Some r))) (andthen y (\<lambda>v. ret (Some v)))"
  by (rule agree_bnd [OF assms], rule agree_ret) simp_all

lemma agree_after_base:
  assumes "apart hp_objects (\<lambda>s. {}) (\<lambda>s. True) H s"
    and "\<And>x s'. apart hp_objects (\<lambda>s. {}) (\<lambda>s. True) H s' \<Longrightarrow> \<forall>h\<in>H. obj_at (hp_objects s') h = obj_at (hp_objects s) h \<Longrightarrow>
      agree hp_objects (\<lambda>s. {}) (\<lambda>s. True) hp_base rf val H (obj_at (hp_objects s)) (f x s') (ret x (hp_base s'))"
  shows "agree hp_objects (\<lambda>s. {}) (\<lambda>s. True) hp_base rf val H (obj_at (hp_objects s)) (bnd (on_base p) f s) (p (hp_base s))"
proof -
  have "agree hp_objects (\<lambda>s. {}) (\<lambda>s. True) hp_base rf val H (obj_at (hp_objects s)) (andthen (on_base p s) f) (andthen (p (hp_base s)) ret)"
    by (rule agree_bnd [OF agree_on_base [OF assms(1)]]) (use assms(2) in simp)
  then show ?thesis by (simp add: andthen_ret bnd_andthen)
qed

interpretation objects: object_layer hp_objects hp_with "\<lambda>s. {}" "\<lambda>s. True" hp_base "ObjectCache J" J for J
proof unfold_locales
  fix k
  show "sim hp_objects (\<lambda>s. {}) (\<lambda>s. True) hp_base (\<lambda>r. {r}) (\<lambda>ot r. ot r) (GetInternal (ObjectCache J) k) (GetInternal J k)"
    by (simp add: sim_def ObjectCache_def) (intro allI impI agree_after_base, assumption, rule below.agree_new)
  show "sim hp_objects (\<lambda>s. {}) (\<lambda>s. True) hp_base found_refs found_values (FindInternal (ObjectCache J) k) (FindInternal J k)"
    by (simp add: sim_def ObjectCache_def) (intro allI impI agree_after_base, assumption, rule below.agree_new_found)
  show "sim hp_objects (\<lambda>s. {}) (\<lambda>s. True) hp_base set_option map_option (TryGetInternal (ObjectCache J) k) (TryGetInternal J k)"
    unfolding sim_def ObjectCache_def internals.simps
  proof (intro allI impI agree_after_base, assumption)
    fix H and s s' :: "('a, 'b) heaped" and res :: "'b option"
    assume s': "apart hp_objects (\<lambda>s. {}) (\<lambda>s. True) H s'" "\<forall>h\<in>H. obj_at (hp_objects s') h = obj_at (hp_objects s) h"
    show "agree hp_objects (\<lambda>s. {}) (\<lambda>s. True) hp_base set_option map_option H (obj_at (hp_objects s))
      ((case res of None \<Rightarrow> ret None | Some v \<Rightarrow> bnd (obj_new hp_objects hp_with v) (\<lambda>r. ret (Some r))) s') (ret res (hp_base s'))"
    proof (cases res)
      case None
      then show ?thesis using s' by (simp add: agree_def ret_def)
    next
      case (Some v)
      then show ?thesis using agree_some [OF below.agree_new [OF s', of v]] by (simp add: bnd_andthen andthen_val)
    qed
  qed
qed

section \<open>A cache of objects\<close>

definition refs_of :: "('s, 'k, nat) data_cache \<Rightarrow> nat set" where
  "refs_of c = (\<lambda>e. tr_Item (snd e)) ` set (dictionary c)"

definition c_owned :: "('s \<Rightarrow> nat set) \<Rightarrow> ('s, 'k, nat) data_cache \<Rightarrow> nat set" where
  "c_owned owned c = refs_of c \<union> owned (backing c)"

definition c_sound :: "('s \<Rightarrow> nat set) \<Rightarrow> ('s \<Rightarrow> bool) \<Rightarrow> ('s, 'k, nat) data_cache \<Rightarrow> bool" where
  "c_sound owned sound c \<longleftrightarrow> sound (backing c) \<and> refs_of c \<inter> owned (backing c) = {} \<and>
     distinct (map (\<lambda>e. tr_Item (snd e)) (dictionary c)) \<and> distinct (map fst (dictionary c))"

definition deref :: "(nat \<Rightarrow> 'v) \<Rightarrow> nat trackable \<Rightarrow> 'v trackable" where
  "deref ot tr = \<lparr>tr_Item = ot (tr_Item tr), tr_State = tr_State tr\<rparr>"

definition c_img :: "('s \<Rightarrow> 'v objects) \<Rightarrow> ('s \<Rightarrow> 't) \<Rightarrow> ('s, 'k, nat) data_cache \<Rightarrow> ('t, 'k, 'v) data_cache" where
  "c_img heap img c =
     \<lparr>dictionary = map (\<lambda>e. (fst e, deref (obj_at (heap (backing c))) (snd e))) (dictionary c), backing = img (backing c)\<rparr>"

lemma img_lookup:
  "map_of (dictionary (c_img heap img c)) k = map_option (deref (obj_at (heap (backing c)))) (map_of (dictionary c) k)"
proof -
  have "map_of (map (\<lambda>e. (fst e, f (snd e))) xs) k = map_option f (map_of xs k)" for f and xs :: "('b \<times> nat trackable) list"
    by (induction xs) auto
  then show ?thesis by (simp add: c_img_def)
qed

context heap_state
begin

lemma cache_state: "heap_state (c_heap heap) (c_with with_heap) (c_owned owned) (c_sound owned sound) (c_img heap img)"
proof
  fix h :: "'v objects" and c :: "('s, 'k, nat) data_cache"
  assume same: "\<And>r. r \<in> c_owned owned c \<Longrightarrow> obj_at h r = obj_at (c_heap heap c) r"
  have "img (with_heap h (backing c)) = img (backing c)"
    by (rule img_with) (use same in \<open>simp add: c_owned_def c_heap_def\<close>)
  moreover have "deref (obj_at h) (snd e) = deref (obj_at (heap (backing c))) (snd e)" if "e \<in> set (dictionary c)" for e
    using same [of "tr_Item (snd e)"] that by (auto simp: deref_def c_owned_def refs_of_def c_heap_def)
  ultimately show "c_img heap img (c_with with_heap h c) = c_img heap img c"
    by (simp add: c_img_def c_with_def heap_with)
qed (simp_all add: c_heap_def c_with_def c_owned_def c_sound_def refs_of_def heap_with owned_with sound_with)

end

section \<open>What a cache does\<close>

lemma items_update:
  "distinct (map (\<lambda>e. tr_Item (snd e)) d) \<Longrightarrow> r \<notin> (\<lambda>e. tr_Item (snd e)) ` set d \<Longrightarrow>
     distinct (map (\<lambda>e. tr_Item (snd e)) (AList.update k \<lparr>tr_Item = r, tr_State = st\<rparr> d)) \<and>
     (\<lambda>e. tr_Item (snd e)) ` set (AList.update k \<lparr>tr_Item = r, tr_State = st\<rparr> d) \<subseteq> insert r ((\<lambda>e. tr_Item (snd e)) ` set d)"
  by (induction d) auto

lemma items_restate:
  "map_of d k = Some tr \<Longrightarrow> map (\<lambda>e. tr_Item (snd e)) (AList.update k \<lparr>tr_Item = tr_Item tr, tr_State = st\<rparr> d) = map (\<lambda>e. tr_Item (snd e)) d"
  by (induction d) auto

lemma img_update: "map (\<lambda>e. (fst e, f (snd e))) (AList.update k v d) = AList.update k (f v) (map (\<lambda>e. (fst e, f (snd e))) d)"
  by (induction d) auto

lemma img_delete: "map (\<lambda>e. (fst e, f (snd e))) (AList.delete k d) = AList.delete k (map (\<lambda>e. (fst e, f (snd e))) d)"
  by (induction d) (auto simp: AList.delete_eq)

lemma bnd_tracked: "bnd (tracked k) f c = f (map_of (dictionary c) k) c"
  by (simp add: tracked_def gets_def bnd_def)

lemma on_backing_dictionary: "on_backing p c = (r, c') \<Longrightarrow> dictionary c' = dictionary c"
  by (auto simp: on_backing_def split: prod.splits)

context object_layer
begin

abbreviation "c_apart \<equiv> apart (c_heap heap) (c_owned owned) (c_sound owned sound)"
abbreviation "c_agree \<equiv> agree (c_heap heap) (c_owned owned) (c_sound owned sound) (c_img heap img)"

lemma agree_below:
  assumes "sim heap owned sound img rf val p q" "c_apart H c"
  shows "c_agree rf val H (obj_at (c_heap heap c)) (on_backing p c) (on_backing q (c_img heap img c))"
    "on_backing p c = (r, c') \<Longrightarrow> res_refs rf r \<inter> refs_of c = {}"
proof -
  have "apart heap owned sound (H \<union> refs_of c) (backing c)"
    using assms(2) unfolding apart_def c_sound_def c_owned_def c_heap_def by blast
  then have "agree heap owned sound img rf val (H \<union> refs_of c) (obj_at (heap (backing c))) (p (backing c)) (q (img (backing c)))"
    using assms(1) by (simp add: sim_def)
  then obtain r s where s: "p (backing c) = (r, s)" "q (img (backing c)) = (map_res (val (obj_at (heap s))) r, img s)"
      "apart heap owned sound (H \<union> refs_of c \<union> res_refs rf r) s" "res_refs rf r \<inter> (H \<union> refs_of c) = {}"
      "\<forall>h\<in>H \<union> refs_of c. obj_at (heap s) h = obj_at (heap (backing c)) h"
    by (rule agreeD)
  have "deref (obj_at (heap s)) (snd e) = deref (obj_at (heap (backing c))) (snd e)" if "e \<in> set (dictionary c)" for e
    using s(5) that by (auto simp: deref_def refs_of_def)
  then have img: "c_img heap img (c\<lparr>backing := s\<rparr>) = (c_img heap img c)\<lparr>backing := img s\<rparr>"
    by (simp add: c_img_def)
  have "c_apart (H \<union> res_refs rf r) (c\<lparr>backing := s\<rparr>)"
    using s(3,4) assms(2) unfolding apart_def c_sound_def c_owned_def c_heap_def refs_of_def by auto
  then show "c_agree rf val H (obj_at (c_heap heap c)) (on_backing p c) (on_backing q (c_img heap img c))"
    using s(1,2,4,5) img by (auto simp: agree_def on_backing_def c_heap_def c_img_def)
  show "res_refs rf r' \<inter> refs_of c = {}" if "on_backing p c = (r', c')" for r' c'
    using that s(1,4) by (auto simp: on_backing_def)
qed

lemma track_fresh:
  fixes k :: 'k and st
  assumes "c_apart (insert r H) c" "r \<notin> H"
  defines "c' \<equiv> c\<lparr>dictionary := AList.update k \<lparr>tr_Item = r, tr_State = st\<rparr> (dictionary c)\<rparr>"
  shows "c_apart H c'" "c_heap heap c' = c_heap heap c"
    "c_img heap img c' = (c_img heap img c)\<lparr>dictionary := AList.update k \<lparr>tr_Item = obj_at (c_heap heap c) r, tr_State = st\<rparr> (dictionary (c_img heap img c))\<rparr>"
proof -
  have r: "r \<notin> refs_of c" "r \<notin> owned (backing c)" using assms(1) unfolding apart_def c_owned_def by auto
  note items = items_update [of "dictionary c" r k st, folded refs_of_def]
  have d: "distinct (map (\<lambda>e. tr_Item (snd e)) (dictionary c'))" "refs_of c' \<subseteq> insert r (refs_of c)"
    using items assms(1) r unfolding apart_def c_sound_def c'_def refs_of_def by auto
  moreover have "distinct (map fst (dictionary c'))"
    using assms(1) unfolding apart_def c_sound_def c'_def by (simp add: AList.distinct_update)
  ultimately show "c_apart H c'"
    using assms(1,2) r unfolding apart_def c_sound_def c_owned_def c_heap_def
    by (auto simp: c'_def)
  show "c_heap heap c' = c_heap heap c" by (simp add: c_heap_def c'_def)
  show "c_img heap img c' = (c_img heap img c)\<lparr>dictionary := AList.update k \<lparr>tr_Item = obj_at (c_heap heap c) r, tr_State = st\<rparr> (dictionary (c_img heap img c))\<rparr>"
    by (simp add: c_img_def c'_def img_update c_heap_def) (simp add: deref_def)
qed

lemma track_same:
  fixes k :: 'k and st
  assumes "c_apart H c" "map_of (dictionary c) k = Some tr"
  defines "c' \<equiv> c\<lparr>dictionary := AList.update k \<lparr>tr_Item = tr_Item tr, tr_State = st\<rparr> (dictionary c)\<rparr>"
  shows "c_apart H c'" "c_heap heap c' = c_heap heap c"
    "c_img heap img c' = (c_img heap img c)\<lparr>dictionary := AList.update k \<lparr>tr_Item = obj_at (c_heap heap c) (tr_Item tr), tr_State = st\<rparr> (dictionary (c_img heap img c))\<rparr>"
proof -
  have items: "map (\<lambda>e. tr_Item (snd e)) (dictionary c') = map (\<lambda>e. tr_Item (snd e)) (dictionary c)"
    unfolding c'_def using items_restate [OF assms(2)] by simp
  then have "refs_of c' = refs_of c" unfolding refs_of_def by (metis list.set_map)
  moreover have "distinct (map fst (dictionary c'))"
    using assms(1) unfolding apart_def c_sound_def c'_def by (simp add: AList.distinct_update)
  ultimately show "c_apart H c'"
    using assms(1) items unfolding apart_def c_sound_def c_owned_def c_heap_def by (simp add: c'_def)
  show "c_heap heap c' = c_heap heap c" by (simp add: c_heap_def c'_def)
  show "c_img heap img c' = (c_img heap img c)\<lparr>dictionary := AList.update k \<lparr>tr_Item = obj_at (c_heap heap c) (tr_Item tr), tr_State = st\<rparr> (dictionary (c_img heap img c))\<rparr>"
    by (simp add: c_img_def c'_def img_update c_heap_def) (simp add: deref_def)
qed

lemma untrack:
  fixes k :: 'k
  assumes "c_apart H c"
  defines "c' \<equiv> c\<lparr>dictionary := AList.delete k (dictionary c)\<rparr>"
  shows "c_apart H c'" "c_heap heap c' = c_heap heap c"
    "c_img heap img c' = (c_img heap img c)\<lparr>dictionary := AList.delete k (dictionary (c_img heap img c))\<rparr>"
proof -
  have "refs_of c' \<subseteq> refs_of c" by (auto simp: refs_of_def c'_def AList.delete_eq)
  moreover have "distinct (map (\<lambda>e. tr_Item (snd e)) (dictionary c'))" "distinct (map fst (dictionary c'))"
    using assms(1) unfolding apart_def c_sound_def c'_def by (simp_all add: AList.delete_eq distinct_map_filter)
  ultimately show "c_apart H c'"
    using assms(1) unfolding apart_def c_sound_def c_owned_def c_heap_def by (auto simp: c'_def)
  show "c_heap heap c' = c_heap heap c" by (simp add: c_heap_def c'_def)
  show "c_img heap img c' = (c_img heap img c)\<lparr>dictionary := AList.delete k (dictionary (c_img heap img c))\<rparr>"
    by (simp add: c_img_def c'_def img_delete)
qed

text \<open>Reading a tracked item.\<close>

lemma lookup_img: "map_of (dictionary (c_img heap img c)) k = map_option (deref (obj_at (c_heap heap c))) (map_of (dictionary c) k)"
  by (simp add: img_lookup c_heap_def)

lemma agree_tracked:
  assumes "c_apart H c" "\<forall>h\<in>H. obj_at (c_heap heap c) h = before h" "y = val (obj_at (c_heap heap c)) x" "rf x = {}"
  shows "c_agree rf val H before (ret x c) (ret y (c_img heap img c))"
  by (rule agree_ret) (use assms in simp_all)

lemma agree_track:
  assumes "c_apart (insert r H) c" "r \<notin> H" "\<forall>h\<in>H. obj_at (c_heap heap c) h = before h"
    "y = val (obj_at (c_heap heap c)) x" "rf x = {}"
  shows "c_agree rf val H before (sq (track k r st) (ret x) c)
    (sq (track k (obj_at (c_heap heap c) r) st) (ret y) (c_img heap img c))"
proof -
  note f = track_fresh [OF assms(1,2), of k st]
  have "sq (track k r st) (ret x) c = ret x (c\<lparr>dictionary := AList.update k \<lparr>tr_Item = r, tr_State = st\<rparr> (dictionary c)\<rparr>)"
    by (simp add: sq_def bnd_def track_def modify_def)
  moreover have "sq (track k (obj_at (c_heap heap c) r) st) (ret y) (c_img heap img c) =
      ret y ((c_img heap img c)\<lparr>dictionary := AList.update k \<lparr>tr_Item = obj_at (c_heap heap c) r, tr_State = st\<rparr> (dictionary (c_img heap img c))\<rparr>)"
    by (simp add: sq_def bnd_def track_def modify_def)
  ultimately show ?thesis
    using agree_tracked [OF f(1), of before y val x rf] assms(3-5) unfolding f(2,3) by simp
qed

lemma dc_TryGet_sim: "sim (c_heap heap) (c_owned owned) (c_sound owned sound) (c_img heap img) (\<lambda>v. {}) map_option (dc_TryGet I k) (dc_TryGet J k)"
  unfolding sim_def
proof (intro allI impI)
  fix H and c :: "('a, bytes, nat) data_cache"
  assume c: "c_apart H c"
  show "c_agree (\<lambda>v. {}) map_option H (obj_at (c_heap heap c)) (dc_TryGet I k c) (dc_TryGet J k (c_img heap img c))"
  proof (cases "map_of (dictionary c) k")
    case (Some tr)
    have "c_agree (\<lambda>v. {}) map_option H (obj_at (c_heap heap c)) (ret (if tr_State tr = TS_DELETED then None else Some (tr_Item tr)) c)
       (ret (if tr_State tr = TS_DELETED then None else Some (obj_at (c_heap heap c) (tr_Item tr))) (c_img heap img c))"
      by (rule agree_tracked [OF c]) simp_all
    then show ?thesis by (simp add: dc_TryGet_def bnd_tracked lookup_img Some deref_def split: if_splits)
  next
    case None
    have "c_agree (\<lambda>v. {}) map_option H (obj_at (c_heap heap c))
       (andthen (on_backing (TryGetInternal I k) c) (\<lambda>item. case item of None \<Rightarrow> ret None | Some v \<Rightarrow> sq (track k v TS_NONE) (ret (Some v))))
       (andthen (on_backing (TryGetInternal J k) (c_img heap img c)) (\<lambda>item. case item of None \<Rightarrow> ret None | Some v \<Rightarrow> sq (track k v TS_NONE) (ret (Some v))))"
    proof (rule agree_bnd [OF agree_below(1) [OF try_sim c]])
      fix a and c' :: "('a, bytes, nat) data_cache"
      assume a: "c_apart (H \<union> set_option a) c'" "set_option a \<inter> H = {}" "\<forall>h\<in>H. obj_at (c_heap heap c') h = obj_at (c_heap heap c) h"
      show "c_agree (\<lambda>v. {}) map_option H (obj_at (c_heap heap c))
         ((case a of None \<Rightarrow> ret None | Some v \<Rightarrow> sq (track k v TS_NONE) (ret (Some v))) c')
         ((case map_option (obj_at (c_heap heap c')) a of None \<Rightarrow> ret None | Some v \<Rightarrow> sq (track k v TS_NONE) (ret (Some v))) (c_img heap img c'))"
      proof (cases a)
        case None
        then show ?thesis using a by simp (rule agree_tracked, simp_all)
      next
        case (Some r)
        then show ?thesis using a by simp (rule agree_track, simp_all)
      qed
    qed
    then show ?thesis unfolding dc_TryGet_def bnd_tracked by (simp add: lookup_img None bnd_andthen)
  qed
qed

lemma dc_getitem_sim: "sim (c_heap heap) (c_owned owned) (c_sound owned sound) (c_img heap img) (\<lambda>v. {}) (\<lambda>ot r. ot r) (dc_getitem I k) (dc_getitem J k)"
  unfolding sim_def
proof (intro allI impI)
  fix H and c :: "('a, bytes, nat) data_cache"
  assume c: "c_apart H c"
  show "c_agree (\<lambda>v. {}) (\<lambda>ot r. ot r) H (obj_at (c_heap heap c)) (dc_getitem I k c) (dc_getitem J k (c_img heap img c))"
  proof (cases "map_of (dictionary c) k")
    case (Some tr)
    show ?thesis
    proof (cases "tr_State tr = TS_DELETED")
      case True
      then show ?thesis using agree_throw [OF c, of "obj_at (c_heap heap c)"]
        by (simp add: dc_getitem_def bnd_tracked lookup_img Some deref_def)
    next
      case False
      have "c_agree (\<lambda>v. {}) (\<lambda>ot r. ot r) H (obj_at (c_heap heap c)) (ret (tr_Item tr) c)
         (ret (obj_at (c_heap heap c) (tr_Item tr)) (c_img heap img c))"
        by (rule agree_tracked [OF c]) simp_all
      then show ?thesis using False by (simp add: dc_getitem_def bnd_tracked lookup_img Some deref_def)
    qed
  next
    case None
    have "c_agree (\<lambda>v. {}) (\<lambda>ot r. ot r) H (obj_at (c_heap heap c))
       (andthen (on_backing (GetInternal I k) c) (\<lambda>v. sq (track k v TS_NONE) (ret v)))
       (andthen (on_backing (GetInternal J k) (c_img heap img c)) (\<lambda>v. sq (track k v TS_NONE) (ret v)))"
    proof (rule agree_bnd [OF agree_below(1) [OF get_sim c]])
      fix r and c' :: "('a, bytes, nat) data_cache"
      assume a: "c_apart (H \<union> {r}) c'" "{r} \<inter> H = {}" "\<forall>h\<in>H. obj_at (c_heap heap c') h = obj_at (c_heap heap c) h"
      show "c_agree (\<lambda>v. {}) (\<lambda>ot r. ot r) H (obj_at (c_heap heap c)) (sq (track k r TS_NONE) (ret r) c')
         (sq (track k (obj_at (c_heap heap c') r) TS_NONE) (ret (obj_at (c_heap heap c') r)) (c_img heap img c'))"
        using a by (intro agree_track) simp_all
    qed
    then show ?thesis unfolding dc_getitem_def bnd_tracked by (simp add: lookup_img None bnd_andthen)
  qed
qed

text \<open>What a search finds is either new or the cache's own; it has all been made.\<close>

lemma dc_Find_sim:
  assumes "c_apart H c"
  shows "c_agree (\<lambda>v. {}) found_values H (obj_at (c_heap heap c)) (dc_Find I p c) (dc_Find J p (c_img heap img c))"
    and "dc_Find I p c = (Val es, c') \<Longrightarrow> r \<in> found_refs es \<Longrightarrow> r < obj_next (c_heap heap c')"
proof -
  let ?p = "case_option [] id p"
  note below = agree_below(1) [OF find_sim [of ?p] assms]
  have step: "dc_Find I p c = andthen (on_backing (FindInternal I ?p) c) (\<lambda>found. bnd (gets dictionary) (\<lambda>d.
      ret (filter (\<lambda>(k, v). map_of d k = None) found @
        map (\<lambda>(k, tr). (k, tr_Item tr)) (filter (\<lambda>(k, tr). tr_State tr \<noteq> TS_DELETED \<and> py_in ?p k) d))))"
    by (simp add: dc_Find_def Let_def bnd_andthen)
  have "c_agree (\<lambda>v. {}) found_values H (obj_at (c_heap heap c))
     (andthen (on_backing (FindInternal I ?p) c) (\<lambda>found. bnd (gets dictionary) (\<lambda>d.
       ret (filter (\<lambda>(k, v). map_of d k = None) found @
         map (\<lambda>(k, tr). (k, tr_Item tr)) (filter (\<lambda>(k, tr). tr_State tr \<noteq> TS_DELETED \<and> py_in ?p k) d)))))
     (andthen (on_backing (FindInternal J ?p) (c_img heap img c)) (\<lambda>found. bnd (gets dictionary) (\<lambda>d.
       ret (filter (\<lambda>(k, v). map_of d k = None) found @
         map (\<lambda>(k, tr). (k, tr_Item tr)) (filter (\<lambda>(k, tr). tr_State tr \<noteq> TS_DELETED \<and> py_in ?p k) d)))))"
  proof (rule agree_bnd [OF below])
    fix es :: "(bytes \<times> nat) list" and c' :: "('a, bytes, nat) data_cache"
    assume a: "c_apart (H \<union> found_refs es) c'" "\<forall>h\<in>H. obj_at (c_heap heap c') h = obj_at (c_heap heap c) h"
    let ?ot = "obj_at (c_heap heap c')"
    have "filter (\<lambda>(k, v). map_of (dictionary (c_img heap img c')) k = None) (found_values ?ot es) =
        found_values ?ot (filter (\<lambda>(k, v). map_of (dictionary c') k = None) es)"
      by (simp add: found_values_def filter_map comp_def lookup_img case_prod_unfold)
    moreover have "map (\<lambda>(k, tr). (k, tr_Item tr)) (filter (\<lambda>(k, tr). tr_State tr \<noteq> TS_DELETED \<and> py_in ?p k) (dictionary (c_img heap img c'))) =
        found_values ?ot (map (\<lambda>(k, tr). (k, tr_Item tr)) (filter (\<lambda>(k, tr). tr_State tr \<noteq> TS_DELETED \<and> py_in ?p k) (dictionary c')))"
      by (simp add: found_values_def c_img_def c_heap_def filter_map comp_def deref_def case_prod_unfold)
    ultimately show "c_agree (\<lambda>v. {}) found_values H (obj_at (c_heap heap c))
       (bnd (gets dictionary) (\<lambda>d. ret (filter (\<lambda>(k, v). map_of d k = None) es @
         map (\<lambda>(k, tr). (k, tr_Item tr)) (filter (\<lambda>(k, tr). tr_State tr \<noteq> TS_DELETED \<and> py_in ?p k) d))) c')
       (bnd (gets dictionary) (\<lambda>d. ret (filter (\<lambda>(k, v). map_of d k = None) (found_values ?ot es) @
         map (\<lambda>(k, tr). (k, tr_Item tr)) (filter (\<lambda>(k, tr). tr_State tr \<noteq> TS_DELETED \<and> py_in ?p k) d))) (c_img heap img c'))"
      using a by (simp add: bnd_def [of "gets dictionary"] gets_def)
        (rule agree_ret, auto elim: apart_less simp: found_values_def)
  qed
  then show "c_agree (\<lambda>v. {}) found_values H (obj_at (c_heap heap c)) (dc_Find I p c) (dc_Find J p (c_img heap img c))"
    by (simp add: dc_Find_def Let_def bnd_andthen)
  assume run: "dc_Find I p c = (Val es, c')" and r: "r \<in> found_refs es"
  obtain x u where u: "on_backing (FindInternal I ?p) c = (x, u)" "c_apart (H \<union> res_refs found_refs x) u"
    using below by (auto elim: agreeD)
  then obtain found where found: "x = Val found" using run unfolding step by (cases x) (simp_all add: andthen_def)
  have "found_refs es \<subseteq> found_refs found \<union> refs_of u" "c' = u"
    using run unfolding step u(1) found by (auto simp: andthen_def bnd_def gets_def ret_def found_refs_def refs_of_def) force+
  then show "r < obj_next (c_heap heap c')"
    using u(2) r unfolding apart_def found c_owned_def by auto
qed

text \<open>A clone of a cache is a layer.\<close>

lemma clone_layer:
  "object_layer (c_heap heap) (c_with with_heap) (c_owned owned) (c_sound owned sound) (c_img heap img)
     (CloneObjects heap with_heap I clone fr) (CloneCache J clone fr)"
proof (intro object_layer.intro cache_state object_layer_axioms.intro)
  fix k
  note agree_copy = heap_state.agree_clone [OF cache_state]
  note get = dc_getitem_sim [of k, unfolded sim_def, rule_format]
    and look = dc_TryGet_sim [of k, unfolded sim_def, rule_format]
  have "c_agree (\<lambda>r. {r}) (\<lambda>ot r. ot r) H (obj_at (c_heap heap c))
      (andthen (dc_getitem I k c) (clone_object (c_heap heap) (c_with with_heap) clone))
      (andthen (dc_getitem J k (c_img heap img c)) (\<lambda>v. lft (clone v)))" if "c_apart H c" for H c
    by (rule agree_bnd [OF get [OF that]], rule agree_copy) simp_all
  then show "sim (c_heap heap) (c_owned owned) (c_sound owned sound) (c_img heap img) (\<lambda>r. {r}) (\<lambda>ot r. ot r)
      (GetInternal (CloneObjects heap with_heap I clone fr) k) (GetInternal (CloneCache J clone fr) k)"
    by (simp add: sim_def CloneObjects_def CloneCache_def Let_def bnd_andthen)
  have "c_agree set_option map_option H (obj_at (c_heap heap c))
      (andthen (dc_TryGet I k c) (\<lambda>res. case res of None \<Rightarrow> ret None
        | Some r \<Rightarrow> bnd (clone_object (c_heap heap) (c_with with_heap) clone r) (\<lambda>q. ret (Some q))))
      (andthen (dc_TryGet J k (c_img heap img c)) (\<lambda>res. case res of None \<Rightarrow> ret None
        | Some v \<Rightarrow> bnd (lft (clone v)) (\<lambda>w. ret (Some w))))" if "c_apart H c" for H c
  proof (rule agree_bnd [OF look [OF that]])
    fix res and c' :: "('a, bytes, nat) data_cache"
    assume c': "c_apart (H \<union> {}) c'" "\<forall>h\<in>H. obj_at (c_heap heap c') h = obj_at (c_heap heap c) h"
    show "c_agree set_option map_option H (obj_at (c_heap heap c))
      ((case res of None \<Rightarrow> ret None
        | Some r \<Rightarrow> bnd (clone_object (c_heap heap) (c_with with_heap) clone r) (\<lambda>q. ret (Some q))) c')
      ((case map_option (obj_at (c_heap heap c')) res of None \<Rightarrow> ret None
        | Some v \<Rightarrow> bnd (lft (clone v)) (\<lambda>w. ret (Some w))) (c_img heap img c'))"
    proof (cases res)
      case None
      show ?thesis unfolding None by (simp, rule agree_ret) (use c' in simp_all)
    next
      case (Some r)
      have "c_agree (\<lambda>r. {r}) (\<lambda>ot r. ot r) H (obj_at (c_heap heap c)) (clone_object (c_heap heap) (c_with with_heap) clone r c')
         (lft (clone (obj_at (c_heap heap c') r)) (c_img heap img c'))"
        by (rule agree_copy) (use c' in simp_all)
      from agree_some [OF this] show ?thesis by (simp add: Some bnd_andthen)
    qed
  qed
  then show "sim (c_heap heap) (c_owned owned) (c_sound owned sound) (c_img heap img) set_option map_option
      (TryGetInternal (CloneObjects heap with_heap I clone fr) k) (TryGetInternal (CloneCache J clone fr) k)"
    by (simp add: sim_def CloneObjects_def CloneCache_def Let_def bnd_andthen)
  have "c_agree found_refs found_values H (obj_at (c_heap heap c))
      (andthen (dc_Find I (Some k) c) (clone_objects (c_heap heap) (c_with with_heap) clone))
      (andthen (dc_Find J (Some k) (c_img heap img c)) (\<lambda>found. lft (clone_found clone found)))" if "c_apart H c" for H c
    by (rule agree_bnd [OF dc_Find_sim(1) [OF that]], rule heap_state.agree_clone_objects [OF cache_state])
      (use dc_Find_sim(2) [OF that] in simp_all)
  then show "sim (c_heap heap) (c_owned owned) (c_sound owned sound) (c_img heap img) found_refs found_values
      (FindInternal (CloneObjects heap with_heap I clone fr) k) (FindInternal (CloneCache J clone fr) k)"
    by (simp add: sim_def CloneObjects_def CloneCache_def Let_def bnd_andthen)
qed

end

section \<open>A client of a cache\<close>

text \<open>
  What code that is given a cache can do: call it, make objects, and assign to any object it was given or has
  made. \<open>held\<close> are the references it has; a number is a position in them. The factories make their object
  whether or not it is needed.
\<close>

datatype 'v client_act =
    O_Add bytes nat
  | O_Delete bytes
  | O_getitem bytes
  | O_TryGet bytes
  | O_GetOrAdd bytes 'v
  | O_GetAndChange bytes
  | O_GetAndAdd bytes 'v
  | O_Find "bytes option"
  | O_New 'v
  | O_Assign nat 'v

definition held_add :: "('a \<Rightarrow> nat list) \<Rightarrow> 'a res \<times> 's \<Rightarrow> nat list \<Rightarrow> nat list \<times> 's" where
  "held_add f x held = (case x of (Val a, s) \<Rightarrow> (f a @ held, s) | (_, s) \<Rightarrow> (held, s))"

definition client_step ::
  "('s \<Rightarrow> 'v objects) \<Rightarrow> ('v objects \<Rightarrow> 's \<Rightarrow> 's) \<Rightarrow> ('s, bytes, nat) internals \<Rightarrow> 'v client_act \<Rightarrow>
   nat list \<times> ('s, bytes, nat) data_cache \<Rightarrow> nat list \<times> ('s, bytes, nat) data_cache" where
  "client_step heap with_heap I st = (\<lambda>(held, c).
     let new = obj_new (c_heap heap) (c_with with_heap)
     in case st of
       O_Add k i \<Rightarrow> (held, if i < length held then snd (dc_Add k (held ! i) c) else c)
     | O_Delete k \<Rightarrow> (held, snd (dc_Delete I k c))
     | O_getitem k \<Rightarrow> held_add (\<lambda>r. [r]) (dc_getitem I k c) held
     | O_TryGet k \<Rightarrow> held_add (\<lambda>res. case res of None \<Rightarrow> [] | Some r \<Rightarrow> [r]) (dc_TryGet I k c) held
     | O_GetOrAdd k v \<Rightarrow> held_add (\<lambda>r. [r]) (bnd (new v) (\<lambda>r. dc_GetOrAdd I k r) c) held
     | O_GetAndChange k \<Rightarrow> held_add (\<lambda>r. [r]) (dc_GetAndChange I k None c) held
     | O_GetAndAdd k v \<Rightarrow> held_add (\<lambda>r. [r]) (bnd (new v) (\<lambda>r. dc_GetAndChange I k (Some r)) c) held
     | O_Find p \<Rightarrow> held_add (map snd) (dc_Find I p c) held
     | O_New v \<Rightarrow> held_add (\<lambda>r. [r]) (new v c) held
     | O_Assign i v \<Rightarrow> (held, if i < length held then snd (obj_set (c_heap heap) (c_with with_heap) (held ! i) v c) else c))"

definition client_run ::
  "('s \<Rightarrow> 'v objects) \<Rightarrow> ('v objects \<Rightarrow> 's \<Rightarrow> 's) \<Rightarrow> ('s, bytes, nat) internals \<Rightarrow> 'v client_act list \<Rightarrow>
   nat list \<times> ('s, bytes, nat) data_cache \<Rightarrow> nat list \<times> ('s, bytes, nat) data_cache" where
  "client_run heap with_heap I = fold (client_step heap with_heap I)"

text \<open>
  The client's references and those its cache keeps may be the same; none of them is kept below. \<open>Q\<close> is a
  property of what lies below.
\<close>

definition client_apart ::
  "('s \<Rightarrow> 'v objects) \<Rightarrow> ('s \<Rightarrow> nat set) \<Rightarrow> ('s \<Rightarrow> bool) \<Rightarrow> ('s \<Rightarrow> 't) \<Rightarrow> ('t \<Rightarrow> bool) \<Rightarrow> nat set \<Rightarrow>
   ('s, bytes, nat) data_cache \<Rightarrow> bool" where
  "client_apart heap owned sound img Q held c \<longleftrightarrow>
     apart heap owned sound (held \<union> refs_of c) (backing c) \<and> Q (img (backing c))"

lemma refs_track: "refs_of (c\<lparr>dictionary := AList.update k \<lparr>tr_Item = r, tr_State = st\<rparr> (dictionary c)\<rparr>) \<subseteq> insert r (refs_of c)"
proof -
  have "(\<lambda>e. tr_Item (snd e)) ` set (AList.update k \<lparr>tr_Item = r, tr_State = st\<rparr> d) \<subseteq> insert r ((\<lambda>e. tr_Item (snd e)) ` set d)"
    for d :: "('b \<times> nat trackable) list"
    by (induction d) auto
  then show ?thesis by (simp add: refs_of_def)
qed

lemma refs_untrack: "refs_of (c\<lparr>dictionary := AList.delete k (dictionary c)\<rparr>) \<subseteq> refs_of c"
  by (auto simp: refs_of_def AList.delete_eq)

lemma refs_tracked: "map_of (dictionary c) k = Some tr \<Longrightarrow> tr_Item tr \<in> refs_of c"
  unfolding refs_of_def by (drule map_of_SomeD) force

text \<open>What lies below keeps a property when it is read.\<close>

locale guarded_layer = object_layer +
  fixes Q :: "'c \<Rightarrow> bool"
  assumes guard_get: "Q t \<Longrightarrow> Q (snd (GetInternal J k t))"
    and guard_try: "Q t \<Longrightarrow> Q (snd (TryGetInternal J k t))"
    and guard_find: "Q t \<Longrightarrow> Q (snd (FindInternal J p t))"
begin

abbreviation "kept \<equiv> client_apart heap owned sound img Q"

lemma kept_less: "kept G c \<Longrightarrow> H \<union> refs_of c' \<subseteq> G \<union> refs_of c \<Longrightarrow> backing c' = backing c \<Longrightarrow> kept H c'"
  unfolding client_apart_def using apart_less by metis

lemma kept_track:
  "kept G c \<Longrightarrow> r \<in> G \<union> refs_of c \<Longrightarrow> H \<subseteq> G \<union> refs_of c \<Longrightarrow>
     kept H (c\<lparr>dictionary := AList.update k \<lparr>tr_Item = r, tr_State = st\<rparr> (dictionary c)\<rparr>)"
  by (erule kept_less) (use refs_track [where c = c and r = r and st = st and k = k] in auto)

lemma kept_below:
  assumes "sim heap owned sound img rf val p q" "kept H c" "on_backing p c = (r, c')" "\<And>t. Q t \<Longrightarrow> Q (snd (q t))"
  shows "kept (H \<union> res_refs rf r) c'" "dictionary c' = dictionary c"
proof -
  have a: "apart heap owned sound (H \<union> refs_of c) (backing c)" "Q (img (backing c))"
    using assms(2) by (simp_all add: client_apart_def)
  then have "agree heap owned sound img rf val (H \<union> refs_of c) (obj_at (heap (backing c))) (p (backing c)) (q (img (backing c)))"
    using assms(1) by (simp add: sim_def)
  then obtain x s where s: "p (backing c) = (x, s)" "q (img (backing c)) = (map_res (val (obj_at (heap s))) x, img s)"
      "apart heap owned sound (H \<union> refs_of c \<union> res_refs rf x) s"
    by (rule agreeD)
  have c': "x = r" "c' = c\<lparr>backing := s\<rparr>" using assms(3) s(1) by (auto simp: on_backing_def)
  show "dictionary c' = dictionary c" using c'(2) by simp
  then have "refs_of c' = refs_of c" by (simp add: refs_of_def)
  then show "kept (H \<union> res_refs rf r) c'"
    using s(2,3) c' assms(4) [OF a(2)] by (simp add: client_apart_def Un_ac)
qed

lemmas kept_reads = kept_below [OF try_sim _ _ guard_try] kept_below [OF get_sim _ _ guard_get] kept_below [OF find_sim _ _ guard_find]

lemma refs_new: "on_backing p c = (r, c') \<Longrightarrow> refs_of c' = refs_of c"
  by (drule on_backing_dictionary) (simp add: refs_of_def)

lemma run_track_ref: "track k r st c = (Val (), c\<lparr>dictionary := AList.update k \<lparr>tr_Item = r, tr_State = st\<rparr> (dictionary c)\<rparr>)"
  by (simp add: track_def modify_def)

lemma kept_Add: "kept H c \<Longrightarrow> r \<in> H \<Longrightarrow> kept H (snd (dc_Add k r c))"
  unfolding dc_Add_def bnd_tracked
  by (auto simp: throw_def run_track_ref intro: kept_track split: option.splits)

lemma kept_Delete: "kept H c \<Longrightarrow> kept H (snd (dc_Delete I k c))"
proof -
  assume c: "kept H c"
  show ?thesis
  proof (cases "map_of (dictionary c) k")
    case None
    obtain r c' where b: "on_backing (TryGetInternal I k) c = (r, c')" by (cases "on_backing (TryGetInternal I k) c")
    note c' = kept_reads(1) [OF c b]
    have "kept H c'" by (rule kept_less [OF c'(1)]) auto
    then show ?thesis unfolding dc_Delete_def bnd_tracked using None b c'(1)
      by (auto simp: bnd_def ret_def run_track_ref intro!: kept_track [where G = "H \<union> res_refs set_option r"] split: res.splits option.splits)
  next
    case (Some tr)
    show ?thesis unfolding dc_Delete_def bnd_tracked
      using Some refs_tracked [OF Some] kept_track [OF c, of "tr_Item tr" H] refs_untrack [where c = c and k = k]
      by (auto simp: modify_def run_track_ref intro!: kept_less [OF c])
  qed
qed

text \<open>What a call hands out may be the cache's own: the client holds it from then on.\<close>

abbreviation "keeps rf H x \<equiv> kept (H \<union> res_refs rf (fst x)) (snd x)"

lemma keeps_ret: "kept H c \<Longrightarrow> rf x \<subseteq> H \<union> refs_of c \<Longrightarrow> keeps rf H (ret x c)"
  unfolding ret_def fst_conv snd_conv by (rule kept_less) auto

lemma keeps_throw: "kept H c \<Longrightarrow> keeps rf H (throw e c)"
  by (simp add: throw_def)

lemma keeps_track: "kept G c \<Longrightarrow> H \<subseteq> G \<Longrightarrow> r \<in> G \<union> refs_of c \<Longrightarrow> rf x \<subseteq> insert r H \<Longrightarrow> keeps rf H (sq (track k r st) (ret x) c)"
  unfolding sq_def bnd_def run_track_ref ret_def by (auto intro!: kept_track [where G = G])

lemma keeps_below:
  assumes "keeps below H (on_backing p c)"
    and "\<And>x c'. kept (H \<union> below x) c' \<Longrightarrow> keeps rf H (f x c')"
  shows "keeps rf H (bnd (on_backing p) f c)"
proof -
  obtain r c' where b: "on_backing p c = (r, c')" by (cases "on_backing p c")
  show ?thesis using assms by (cases r) (simp_all add: b bnd_def)
qed

lemma keeps_reads:
  assumes "kept H c"
  shows "keeps set_option H (on_backing (TryGetInternal I k) c)" "keeps (\<lambda>r. {r}) H (on_backing (GetInternal I k) c)"
    "keeps found_refs H (on_backing (FindInternal I p) c)"
  using kept_reads(1,3,5) [OF assms] by (metis prod.collapse)+

lemma keeps_getitem: "kept H c \<Longrightarrow> keeps (\<lambda>r. {r}) H (dc_getitem I k c)"
  unfolding dc_getitem_def bnd_tracked
  by (auto split: option.splits intro!: keeps_throw keeps_ret keeps_below [where below = "\<lambda>r. {r}"] keeps_reads keeps_track dest: refs_tracked)

lemma keeps_TryGet: "kept H c \<Longrightarrow> keeps set_option H (dc_TryGet I k c)"
  unfolding dc_TryGet_def bnd_tracked
  by (auto split: option.splits intro!: keeps_ret keeps_below [where below = set_option] keeps_reads keeps_track dest: refs_tracked)

lemma keeps_GetOrAdd:
  assumes "kept H c" "r \<in> H"
  shows "keeps (\<lambda>r. {r}) H (dc_GetOrAdd I k r c)"
proof (cases "map_of (dictionary c) k")
  case None
  show ?thesis unfolding dc_GetOrAdd_def bnd_tracked None option.case
    by (rule keeps_below [where below = set_option, OF keeps_reads(1) [OF assms(1)]])
      (use assms(2) in \<open>auto split: option.splits intro!: keeps_track\<close>)
next
  case (Some tr)
  then show ?thesis unfolding dc_GetOrAdd_def bnd_tracked
    using assms by (auto intro!: keeps_ret keeps_track dest: refs_tracked)
qed

lemma keeps_GetAndChange:
  assumes "kept H c" "set_option factory \<subseteq> H"
  shows "keeps (\<lambda>r. {r}) H (dc_GetAndChange I k factory c)"
proof (cases "map_of (dictionary c) k")
  case None
  show ?thesis unfolding dc_GetAndChange_def bnd_tracked None option.case
    by (rule keeps_below [where below = set_option, OF keeps_reads(1) [OF assms(1)]])
      (use assms(2) in \<open>auto split: option.splits intro!: keeps_track keeps_throw\<close>)
next
  case (Some tr)
  then show ?thesis unfolding dc_GetAndChange_def bnd_tracked
    using assms by (auto split: option.splits intro!: keeps_ret keeps_throw keeps_track dest: refs_tracked)
qed

lemma keeps_Find: "kept H c \<Longrightarrow> keeps found_refs H (dc_Find I p c)"
proof -
  assume c: "kept H c"
  show ?thesis unfolding dc_Find_def Let_def
  proof (rule keeps_below [where below = found_refs, OF keeps_reads(3) [OF c]])
    fix es and c' :: "('a, bytes, nat) data_cache"
    let ?found = "filter (\<lambda>(k, v). map_of (dictionary c') k = None) es @
        map (\<lambda>(k, tr). (k, tr_Item tr)) (filter (\<lambda>(k, tr). tr_State tr \<noteq> TS_DELETED \<and> py_in (case_option [] id p) k) (dictionary c'))"
    assume c': "kept (H \<union> found_refs es) c'"
    have "found_refs ?found \<subseteq> found_refs es \<union> refs_of c'"
      unfolding found_refs_def refs_of_def by force
    with c' have "kept (H \<union> found_refs ?found) c'" by (intro kept_less [OF c']) auto
    then show "keeps found_refs H (bnd (gets dictionary) (\<lambda>d. ret (filter (\<lambda>(k, v). map_of d k = None) es @
        map (\<lambda>(k, tr). (k, tr_Item tr)) (filter (\<lambda>(k, tr). tr_State tr \<noteq> TS_DELETED \<and> py_in (case_option [] id p) k) d))) c')"
      by (simp add: bnd_def gets_def ret_def)
  qed
qed

lemma kept_new:
  assumes "kept H c"
  shows "\<exists>r c'. obj_new (c_heap heap) (c_with with_heap) v c = (Val r, c') \<and> kept (insert r H) c'"
proof -
  have a: "apart_in (H \<union> refs_of c) (backing c)" "Q (img (backing c))" using assms by (simp_all add: client_apart_def)
  obtain r t where new: "obj_new heap with_heap v (backing c) = (r, t)" by (cases "obj_new heap with_heap v (backing c)")
  note n = new_apart [OF a(1) new]
  have "obj_new (c_heap heap) (c_with with_heap) v c = (Val (obj_next (heap (backing c))), c\<lparr>backing := t\<rparr>)"
    using new by (simp add: obj_new_def Let_def c_heap_def c_with_def)
  moreover have "kept (insert (obj_next (heap (backing c))) H) (c\<lparr>backing := t\<rparr>)"
    using n(2,4) a(2) by (simp add: client_apart_def refs_of_def)
  ultimately show ?thesis by blast
qed

lemma kept_assign:
  assumes "kept H c" "r \<in> H"
  shows "kept H (snd (obj_set (c_heap heap) (c_with with_heap) r v c))"
proof -
  let ?h = "(heap (backing c))\<lparr>obj_at := (obj_at (heap (backing c)))(r := v)\<rparr>"
  have "img (with_heap ?h (backing c)) = img (backing c)"
    by (rule img_with) (use assms in \<open>auto simp: client_apart_def apart_def\<close>)
  then show ?thesis
    using assms(1) by (simp add: client_apart_def apart_def obj_set_def modify_def c_heap_def c_with_def refs_of_def
        heap_with owned_with sound_with)
qed

text \<open>Whatever a client does.\<close>

lemma keeps_held:
  "keeps (\<lambda>a. set (f a)) (set held) x \<Longrightarrow> kept (set (fst (held_add f x held))) (snd (held_add f x held))"
  by (cases x; cases "fst x") (auto simp: held_add_def Un_commute)

lemma keeps_bnd_new:
  assumes "kept H c" "\<And>r c'. kept (insert r H) c' \<Longrightarrow> keeps rf (insert r H) (f r c')"
  shows "keeps rf H (bnd (obj_new (c_heap heap) (c_with with_heap) v) f c)"
proof -
  obtain r c' where "obj_new (c_heap heap) (c_with with_heap) v c = (Val r, c')" "kept (insert r H) c'"
    using kept_new [OF assms(1)] by blast
  moreover have "kept (H \<union> res_refs rf (fst (f r c'))) (snd (f r c'))"
    by (rule kept_less [OF assms(2) [OF calculation(2)]]) auto
  ultimately show ?thesis by (simp add: bnd_def)
qed

lemma client_step_kept:
  assumes "kept (set (fst x)) (snd x)"
  shows "kept (set (fst (client_step heap with_heap I st x))) (snd (client_step heap with_heap I st x))"
proof -
  obtain held c where x: "x = (held, c)" by (cases x)
  have c: "kept (set held) c" using assms x by simp
  show ?thesis
  proof (cases st)
    case (O_TryGet k)
    have "keeps (\<lambda>a. set (case a of None \<Rightarrow> [] | Some r \<Rightarrow> [r])) (set held) (dc_TryGet I k c)"
      using keeps_TryGet [OF c, of k] by (rule back_subst [where P = "\<lambda>f. keeps f (set held) (dc_TryGet I k c)"])
        (auto simp: fun_eq_iff split: option.splits)
    then show ?thesis unfolding x O_TryGet client_step_def by (simp add: keeps_held)
  next
    case (O_Find p)
    have "keeps (\<lambda>a. set (map snd a)) (set held) (dc_Find I p c)"
      using keeps_Find [OF c, of p] by (simp add: found_refs_def [abs_def])
    then show ?thesis unfolding x O_Find client_step_def by (simp add: keeps_held)
  next
    case (O_New v)
    have "keeps (\<lambda>a. set [a]) (set held) (obj_new (c_heap heap) (c_with with_heap) v c)"
      using kept_new [OF c, of v] by auto
    then show ?thesis unfolding x O_New client_step_def by (simp add: keeps_held)
  next
    case (O_GetOrAdd k v)
    have "keeps (\<lambda>a. set [a]) (set held) (bnd (obj_new (c_heap heap) (c_with with_heap) v) (\<lambda>r. dc_GetOrAdd I k r) c)"
      by (rule keeps_bnd_new [OF c]) (simp only: list.set, rule keeps_GetOrAdd, simp_all)
    then show ?thesis unfolding x O_GetOrAdd client_step_def by (simp add: keeps_held)
  next
    case (O_GetAndAdd k v)
    have "keeps (\<lambda>a. set [a]) (set held) (bnd (obj_new (c_heap heap) (c_with with_heap) v) (\<lambda>r. dc_GetAndChange I k (Some r)) c)"
      by (rule keeps_bnd_new [OF c]) (simp only: list.set, rule keeps_GetAndChange, simp_all)
    then show ?thesis unfolding x O_GetAndAdd client_step_def by (simp add: keeps_held)
  qed (use keeps_held [where f = "\<lambda>r. [r]" and held = held] keeps_getitem [OF c] keeps_GetAndChange [OF c, of None] kept_Add [OF c] kept_Delete [OF c]
      kept_assign [OF c] c in \<open>simp_all add: x client_step_def\<close>)
qed

lemma client_run_kept:
  "kept (set (fst x)) (snd x) \<Longrightarrow> kept (set (fst (client_run heap with_heap I sts x))) (snd (client_run heap with_heap I sts x))"
  by (induction sts arbitrary: x) (simp_all add: client_run_def client_step_kept)

end

section \<open>A client's operations on values\<close>

text \<open>
  The operations of \<open>Cache_Contract\<close> as code does them: it makes an object and adds it, or reads the object it
  is given, or assigns to it.
\<close>

primrec obj_op ::
  "('s \<Rightarrow> 'v objects) \<Rightarrow> ('v objects \<Rightarrow> 's \<Rightarrow> 's) \<Rightarrow> ('s, bytes, nat) internals \<Rightarrow> (bytes, 'v) cache_op \<Rightarrow>
   (('s, bytes, nat) data_cache, 'v option) m" where
  "obj_op heap with_heap I (C_Add k v) = bnd (obj_new (c_heap heap) (c_with with_heap) v) (\<lambda>r. sq (dc_Add k r) (ret None))"
| "obj_op heap with_heap I (C_Delete k) = sq (dc_Delete I k) (ret None)"
| "obj_op heap with_heap I (C_TryGet k) = bnd (dc_TryGet I k) (\<lambda>res.
     case res of None \<Rightarrow> ret None | Some r \<Rightarrow> bnd (obj_value (c_heap heap) r) (\<lambda>v. ret (Some v)))"
| "obj_op heap with_heap I (C_GetOrAdd k v) = bnd (obj_new (c_heap heap) (c_with with_heap) v) (\<lambda>r.
     bnd (dc_GetOrAdd I k r) (\<lambda>q. bnd (obj_value (c_heap heap) q) (\<lambda>v. ret (Some v))))"
| "obj_op heap with_heap I (C_Change k factory f) =
     bnd (case factory of None \<Rightarrow> ret None | Some v \<Rightarrow> bnd (obj_new (c_heap heap) (c_with with_heap) v) (\<lambda>r. ret (Some r))) (\<lambda>new.
     bnd (dc_GetAndChange I k new) (\<lambda>q. bnd (obj_value (c_heap heap) q) (\<lambda>v.
       sq (obj_set (c_heap heap) (c_with with_heap) q (f v)) (ret (Some v)))))"

text \<open>After a step that also kept \<open>G\<close> as it was.\<close>

lemma agree_bnd_more:
  assumes "agree heap owned sound img rf1 val1 G before' x y" "H \<subseteq> G" "\<forall>h\<in>H. before' h = before h"
    and "\<And>a s'. x = (Val a, s') \<Longrightarrow> apart heap owned sound (G \<union> rf1 a) s' \<Longrightarrow> rf1 a \<inter> G = {} \<Longrightarrow>
      \<forall>h\<in>G. obj_at (heap s') h = before' h \<Longrightarrow>
      agree heap owned sound img rf val H before (f a s') (g (val1 (obj_at (heap s')) a) (img s'))"
  shows "agree heap owned sound img rf val H before (andthen x f) (andthen y g)"
proof -
  obtain r u where r: "x = (r, u)" "y = (map_res (val1 (obj_at (heap u))) r, img u)" "apart heap owned sound (G \<union> res_refs rf1 r) u"
      "res_refs rf1 r \<inter> G = {}" "\<forall>h\<in>G. obj_at (heap u) h = before' h"
    by (rule agreeD [OF assms(1)])
  have less: "apart heap owned sound H u" by (rule apart_less [OF r(3)]) (use assms(2) in blast)
  show ?thesis
  proof (cases r)
    case (Val a)
    then show ?thesis using assms(4) [of a u] r by (simp add: andthen_def)
  qed (use r less assms(2,3) in \<open>auto simp: andthen_def agree_def subset_iff\<close>)
qed

lemma mutate_img:
  "distinct (map fst d) \<Longrightarrow> distinct (map (\<lambda>e. tr_Item (snd e)) d) \<Longrightarrow> map_of d k = Some tr \<Longrightarrow>
     map (\<lambda>e. (fst e, deref (ot(tr_Item tr := v)) (snd e))) d =
     AList.update k \<lparr>tr_Item = v, tr_State = tr_State tr\<rparr> (map (\<lambda>e. (fst e, deref ot (snd e))) d)"
proof (induction d)
  case (Cons e d)
  have rest: "map (\<lambda>e. (fst e, deref (ot(tr_Item (snd e') := v)) (snd e))) d = map (\<lambda>e. (fst e, deref ot (snd e))) d"
    if "tr_Item (snd e') \<notin> (\<lambda>e. tr_Item (snd e)) ` set d" for e' :: "'a \<times> nat trackable"
  proof (rule map_cong [OF refl])
    fix e assume "e \<in> set d"
    then have "tr_Item (snd e) \<in> (\<lambda>e. tr_Item (snd e)) ` set d" by (rule imageI)
    then have "tr_Item (snd e) \<noteq> tr_Item (snd e')" using that by metis
    then show "(fst e, deref (ot(tr_Item (snd e') := v)) (snd e)) = (fst e, deref ot (snd e))" by (simp add: deref_def)
  qed
  show ?case
  proof (cases "fst e = k")
    case True
    then have "snd e = tr" using Cons.prems(3) by (cases e) simp
    then show ?thesis using True Cons.prems(2) rest [of e] by (cases e) (simp add: deref_def)
  next
    case False
    then have "map_of d k = Some tr" using Cons.prems(3) by (cases e) simp
    moreover have "tr_Item tr \<in> (\<lambda>e. tr_Item (snd e)) ` set d"
      using map_of_SomeD [OF calculation] by (metis image_eqI snd_conv)
    then have "tr_Item tr \<noteq> tr_Item (snd e)" using Cons.prems(2) by (metis distinct.simps(2) list.map(2) list.set_map)
    ultimately show ?thesis using False Cons.IH Cons.prems by (cases e) (simp add: deref_def)
  qed
qed simp

lemma dc_GetAndChange_tracked:
  "dc_GetAndChange I k factory c = (Val q, c') \<Longrightarrow> \<exists>tr. map_of (dictionary c') k = Some tr \<and> tr_Item tr = q"
  unfolding dc_GetAndChange_def bnd_tracked
  by (auto simp: sq_def bnd_def track_def modify_def ret_def throw_def AList.update_conv'
      split: option.splits if_splits prod.splits res.splits)

context object_layer
begin

lemma track_alone: "sq (track k v st) (ret ()) = track k v st"
  by (simp add: fun_eq_iff sq_def bnd_def track_def modify_def ret_def)

lemmas agree_track_unit = agree_track [where x = "()" and y = "()", unfolded track_alone]

lemma agree_Add:
  assumes "c_apart (insert r H) c" "r \<notin> H" "\<forall>h\<in>H. obj_at (c_heap heap c) h = before h"
  shows "c_agree (\<lambda>v. {}) (\<lambda>ot v. v) H before (dc_Add k r c) (dc_Add k (obj_at (c_heap heap c) r) (c_img heap img c))"
proof -
  have less: "c_apart H c" by (rule apart_less [OF assms(1)]) auto
  show ?thesis unfolding dc_Add_def bnd_tracked
    using agree_throw [OF less assms(3)] agree_track_unit [OF assms(1-3)]
    by (auto simp: lookup_img deref_def split: option.split)
qed

lemma agree_Delete:
  assumes "c_apart H c" "\<forall>h\<in>H. obj_at (c_heap heap c) h = before h"
  shows "c_agree (\<lambda>v. {}) (\<lambda>ot v. v) H before (dc_Delete I k c) (dc_Delete J k (c_img heap img c))"
proof (cases "map_of (dictionary c) k")
  case None
  have "c_agree (\<lambda>v. {}) (\<lambda>ot v. v) H before
     (andthen (on_backing (TryGetInternal I k) c) (\<lambda>item. case item of None \<Rightarrow> ret () | Some v \<Rightarrow> track k v TS_DELETED))
     (andthen (on_backing (TryGetInternal J k) (c_img heap img c)) (\<lambda>item. case item of None \<Rightarrow> ret () | Some v \<Rightarrow> track k v TS_DELETED))"
  proof (rule agree_bnd_more [OF agree_below(1) [OF try_sim assms(1)] subset_refl assms(2)])
    fix a and c' :: "('a, bytes, nat) data_cache"
    assume a: "c_apart (H \<union> set_option a) c'" "set_option a \<inter> H = {}" "\<forall>h\<in>H. obj_at (c_heap heap c') h = obj_at (c_heap heap c) h"
    have b: "\<forall>h\<in>H. obj_at (c_heap heap c') h = before h" using a(3) assms(2) by simp
    show "c_agree (\<lambda>v. {}) (\<lambda>ot v. v) H before ((case a of None \<Rightarrow> ret () | Some v \<Rightarrow> track k v TS_DELETED) c')
       ((case map_option (obj_at (c_heap heap c')) a of None \<Rightarrow> ret () | Some v \<Rightarrow> track k v TS_DELETED) (c_img heap img c'))"
    proof (cases a)
      case None
      show ?thesis unfolding None by (simp, rule agree_tracked) (use a b None in simp_all)
    next
      case (Some r)
      show ?thesis unfolding Some by (simp, rule agree_track_unit) (use a b Some in simp_all)
    qed
  qed
  then show ?thesis unfolding dc_Delete_def bnd_tracked by (simp add: lookup_img None bnd_andthen)
next
  case (Some tr)
  note same = track_same [OF assms(1) Some, where st = TS_DELETED]
  note gone = untrack [OF assms(1), where k = k]
  show ?thesis
  proof (cases "tr_State tr = TS_ADDED")
    case True
    have "c_agree (\<lambda>v. {}) (\<lambda>ot v. v) H before (ret () (c\<lparr>dictionary := AList.delete k (dictionary c)\<rparr>))
       (ret () (c_img heap img (c\<lparr>dictionary := AList.delete k (dictionary c)\<rparr>)))"
      by (rule agree_tracked) (use gone assms(2) in simp_all)
    then show ?thesis unfolding dc_Delete_def bnd_tracked
      using True by (simp add: lookup_img Some deref_def modify_def ret_def gone(3))
  next
    case False
    have "c_agree (\<lambda>v. {}) (\<lambda>ot v. v) H before
       (ret () (c\<lparr>dictionary := AList.update k \<lparr>tr_Item = tr_Item tr, tr_State = TS_DELETED\<rparr> (dictionary c)\<rparr>))
       (ret () (c_img heap img (c\<lparr>dictionary := AList.update k \<lparr>tr_Item = tr_Item tr, tr_State = TS_DELETED\<rparr> (dictionary c)\<rparr>)))"
      by (rule agree_tracked) (use same assms(2) in simp_all)
    then show ?thesis unfolding dc_Delete_def bnd_tracked
      using False by (simp add: lookup_img Some deref_def track_def modify_def ret_def same(3))
  qed
qed

text \<open>Looking below, with \<open>G\<close> still apart.\<close>

lemma agree_try:
  assumes "c_apart G c" "H \<subseteq> G" "\<forall>h\<in>H. obj_at (c_heap heap c) h = before h"
    and "\<And>a c'. c_apart (G \<union> set_option a) c' \<Longrightarrow> set_option a \<inter> G = {} \<Longrightarrow>
      \<forall>h\<in>G. obj_at (c_heap heap c') h = obj_at (c_heap heap c) h \<Longrightarrow> \<forall>h\<in>H. obj_at (c_heap heap c') h = before h \<Longrightarrow>
      c_agree rf val H before (f a c') (g (map_option (obj_at (c_heap heap c')) a) (c_img heap img c'))"
  shows "c_agree rf val H before (bnd (on_backing (TryGetInternal I k)) f c) (bnd (on_backing (TryGetInternal J k)) g (c_img heap img c))"
  unfolding bnd_andthen
  by (rule agree_bnd_more [OF agree_below(1) [OF try_sim assms(1)] assms(2,3)], rule assms(4))
    (use assms(2,3) in \<open>auto simp: subset_iff\<close>)

lemma agree_GetOrAdd:
  assumes "c_apart (insert r H) c" "r \<notin> H" "\<forall>h\<in>H. obj_at (c_heap heap c) h = before h"
  shows "c_agree (\<lambda>v. {}) (\<lambda>ot q. ot q) H before (dc_GetOrAdd I k r c)
    (dc_GetOrAdd J k (obj_at (c_heap heap c) r) (c_img heap img c))"
proof (cases "map_of (dictionary c) k")
  case None
  have "c_agree (\<lambda>v. {}) (\<lambda>ot q. ot q) H before
     (bnd (on_backing (TryGetInternal I k)) (\<lambda>item. case item of None \<Rightarrow> sq (track k r TS_ADDED) (ret r)
        | Some v \<Rightarrow> sq (track k v TS_NONE) (ret v)) c)
     (bnd (on_backing (TryGetInternal J k)) (\<lambda>item. case item of
          None \<Rightarrow> sq (track k (obj_at (c_heap heap c) r) TS_ADDED) (ret (obj_at (c_heap heap c) r))
        | Some v \<Rightarrow> sq (track k v TS_NONE) (ret v)) (c_img heap img c))"
  proof (rule agree_try [OF assms(1) _ assms(3)])
    fix a and c' :: "('a, bytes, nat) data_cache"
    assume a: "c_apart (insert r H \<union> set_option a) c'" "set_option a \<inter> insert r H = {}"
        "\<forall>h\<in>insert r H. obj_at (c_heap heap c') h = obj_at (c_heap heap c) h" "\<forall>h\<in>H. obj_at (c_heap heap c') h = before h"
    show "c_agree (\<lambda>v. {}) (\<lambda>ot q. ot q) H before
       ((case a of None \<Rightarrow> sq (track k r TS_ADDED) (ret r) | Some v \<Rightarrow> sq (track k v TS_NONE) (ret v)) c')
       ((case map_option (obj_at (c_heap heap c')) a of
          None \<Rightarrow> sq (track k (obj_at (c_heap heap c) r) TS_ADDED) (ret (obj_at (c_heap heap c) r))
        | Some v \<Rightarrow> sq (track k v TS_NONE) (ret v)) (c_img heap img c'))"
    proof (cases a)
      case None
      have "obj_at (c_heap heap c) r = obj_at (c_heap heap c') r" using a(3) by simp
      then show ?thesis unfolding None by (simp, intro agree_track) (use a(1,4) assms(2) None in simp_all)
    next
      case (Some q)
      have "c_apart (insert q H) c'" by (rule apart_less [OF a(1)]) (use Some in auto)
      then show ?thesis unfolding Some by (simp, intro agree_track) (use a(2,4) Some in simp_all)
    qed
  qed auto
  then show ?thesis unfolding dc_GetOrAdd_def bnd_tracked by (simp add: lookup_img None)
next
  case (Some tr)
  have less: "c_apart H c" by (rule apart_less [OF assms(1)]) auto
  show ?thesis unfolding dc_GetOrAdd_def bnd_tracked
    by (simp add: lookup_img Some deref_def, intro conjI impI agree_track agree_tracked) (use assms less in simp_all)
qed

lemma agree_GetAndChange:
  assumes "c_apart (set_option new \<union> H) c" "set_option new \<inter> H = {}" "\<forall>h\<in>H. obj_at (c_heap heap c) h = before h"
  shows "c_agree (\<lambda>v. {}) (\<lambda>ot q. ot q) H before (dc_GetAndChange I k new c)
    (dc_GetAndChange J k (map_option (obj_at (c_heap heap c)) new) (c_img heap img c))"
proof (cases "map_of (dictionary c) k")
  case None
  have "c_agree (\<lambda>v. {}) (\<lambda>ot q. ot q) H before
     (bnd (on_backing (TryGetInternal I k)) (\<lambda>item. case item of
          None \<Rightarrow> (case new of None \<Rightarrow> throw KeyError | Some v \<Rightarrow> sq (track k v TS_ADDED) (ret v))
        | Some v \<Rightarrow> sq (track k v TS_CHANGED) (ret v)) c)
     (bnd (on_backing (TryGetInternal J k)) (\<lambda>item. case item of
          None \<Rightarrow> (case map_option (obj_at (c_heap heap c)) new of None \<Rightarrow> throw KeyError | Some v \<Rightarrow> sq (track k v TS_ADDED) (ret v))
        | Some v \<Rightarrow> sq (track k v TS_CHANGED) (ret v)) (c_img heap img c))"
  proof (rule agree_try [OF assms(1) _ assms(3)])
    fix a and c' :: "('a, bytes, nat) data_cache"
    assume a: "c_apart (set_option new \<union> H \<union> set_option a) c'" "set_option a \<inter> (set_option new \<union> H) = {}"
        "\<forall>h\<in>set_option new \<union> H. obj_at (c_heap heap c') h = obj_at (c_heap heap c) h" "\<forall>h\<in>H. obj_at (c_heap heap c') h = before h"
    show "c_agree (\<lambda>v. {}) (\<lambda>ot q. ot q) H before
       ((case a of None \<Rightarrow> (case new of None \<Rightarrow> throw KeyError | Some v \<Rightarrow> sq (track k v TS_ADDED) (ret v))
          | Some v \<Rightarrow> sq (track k v TS_CHANGED) (ret v)) c')
       ((case map_option (obj_at (c_heap heap c')) a of
          None \<Rightarrow> (case map_option (obj_at (c_heap heap c)) new of None \<Rightarrow> throw KeyError | Some v \<Rightarrow> sq (track k v TS_ADDED) (ret v))
        | Some v \<Rightarrow> sq (track k v TS_CHANGED) (ret v)) (c_img heap img c'))"
    proof (cases a)
      case absent: None
      have less: "c_apart H c'" by (rule apart_less [OF a(1)]) auto
      show ?thesis
      proof (cases new)
        case None
        have "c_agree (\<lambda>v. {}) (\<lambda>ot q. ot q) H before (throw KeyError c') (throw KeyError (c_img heap img c'))"
          by (rule agree_throw [OF less a(4)])
        then show ?thesis by (simp add: absent None)
      next
        case (Some r)
        then have "obj_at (c_heap heap c) r = obj_at (c_heap heap c') r" using a(3) by simp
        then show ?thesis unfolding absent Some
          by (simp, intro agree_track) (use a(1,4) assms(2) absent Some in simp_all)
      qed
    next
      case (Some q)
      have "c_apart (insert q H) c'" by (rule apart_less [OF a(1)]) (use Some in auto)
      then show ?thesis unfolding Some by (simp, intro agree_track) (use a(2,4) Some in simp_all)
    qed
  qed auto
  then show ?thesis unfolding dc_GetAndChange_def bnd_tracked by (simp only: lookup_img None option.map option.case)
next
  case (Some tr)
  have less: "c_apart H c" by (rule apart_less [OF assms(1)]) auto
  have own: "c_agree (\<lambda>v. {}) (\<lambda>ot q. ot q) H before (sq (track k (tr_Item tr) TS_CHANGED) (ret (tr_Item tr)) c)
     (sq (track k (obj_at (c_heap heap c) (tr_Item tr)) TS_CHANGED) (ret (obj_at (c_heap heap c) (tr_Item tr))) (c_img heap img c))"
  proof -
    note same = track_same [OF less Some, where st = TS_CHANGED]
    have "c_agree (\<lambda>v. {}) (\<lambda>ot q. ot q) H before
       (ret (tr_Item tr) (c\<lparr>dictionary := AList.update k \<lparr>tr_Item = tr_Item tr, tr_State = TS_CHANGED\<rparr> (dictionary c)\<rparr>))
       (ret (obj_at (c_heap heap c) (tr_Item tr))
         (c_img heap img (c\<lparr>dictionary := AList.update k \<lparr>tr_Item = tr_Item tr, tr_State = TS_CHANGED\<rparr> (dictionary c)\<rparr>)))"
      by (rule agree_tracked) (use same assms(3) in simp_all)
    then show ?thesis by (simp add: sq_def bnd_def track_def modify_def same(3))
  qed
  show ?thesis unfolding dc_GetAndChange_def bnd_tracked
    using own agree_throw [OF less assms(3)]
    by (cases new; simp add: lookup_img Some deref_def; intro conjI impI agree_track agree_tracked) (use assms less in simp_all)
qed

text \<open>An assignment to an object that is tracked.\<close>

lemma agree_mutate:
  assumes "c_apart H c" "\<forall>h\<in>H. obj_at (c_heap heap c) h = before h" "map_of (dictionary c) k = Some tr"
  shows "c_agree (\<lambda>v. {}) (\<lambda>ot v. v) H before (obj_set (c_heap heap) (c_with with_heap) (tr_Item tr) v c)
    (track k v (tr_State tr) (c_img heap img c))"
proof -
  let ?h = "(c_heap heap c)\<lparr>obj_at := (obj_at (c_heap heap c))(tr_Item tr := v)\<rparr>"
  have q: "tr_Item tr \<in> refs_of c" by (rule refs_tracked [OF assms(3)])
  have "img (with_heap ?h (backing c)) = img (backing c)"
    by (rule img_with) (use q assms(1) in \<open>auto simp: apart_def c_sound_def c_heap_def\<close>)
  moreover have "map (\<lambda>e. (fst e, deref (obj_at ?h) (snd e))) (dictionary c) =
      AList.update k \<lparr>tr_Item = v, tr_State = tr_State tr\<rparr> (dictionary (c_img heap img c))"
    using mutate_img [OF _ _ assms(3), of "obj_at (c_heap heap c)" v] assms(1)
    by (simp add: apart_def c_sound_def c_img_def c_heap_def)
  ultimately have "c_img heap img (c_with with_heap ?h c) =
      (c_img heap img c)\<lparr>dictionary := AList.update k \<lparr>tr_Item = v, tr_State = tr_State tr\<rparr> (dictionary (c_img heap img c))\<rparr>"
    by (simp add: c_img_def c_with_def heap_with)
  moreover have "c_apart H (c_with with_heap ?h c)"
    using assms(1) by (simp add: apart_def c_heap_def c_with_def c_owned_def c_sound_def refs_of_def heap_with owned_with sound_with)
  moreover have "obj_at (c_heap heap (c_with with_heap ?h c)) = (obj_at (c_heap heap c))(tr_Item tr := v)"
    by (simp add: c_heap_def c_with_def heap_with)
  moreover have "tr_Item tr \<notin> H" using q assms(1) by (auto simp: apart_def c_owned_def)
  ultimately show ?thesis
    using assms(2) by (auto simp: agree_def obj_set_def modify_def track_def)
qed

text \<open>The operations.\<close>

lemma agree_with_new:
  assumes "c_apart H c" "\<forall>h\<in>H. obj_at (c_heap heap c) h = before h"
    and "\<And>r c'. c_apart (insert r H) c' \<Longrightarrow> r \<notin> H \<Longrightarrow> \<forall>h\<in>H. obj_at (c_heap heap c') h = before h \<Longrightarrow>
      c_agree rf val H before (f r c') (g (obj_at (c_heap heap c') r) (c_img heap img c'))"
  shows "c_agree rf val H before (bnd (obj_new (c_heap heap) (c_with with_heap) v) f c) (g v (c_img heap img c))"
proof -
  have "c_agree rf val H before (andthen (obj_new (c_heap heap) (c_with with_heap) v c) f) (andthen (ret v (c_img heap img c)) g)"
    by (rule agree_bnd [OF heap_state.agree_new [OF cache_state assms(1,2)]], rule assms(3)) simp_all
  then show ?thesis by (simp add: bnd_andthen andthen_val)
qed

lemma agree_value:
  assumes "c_agree (\<lambda>v. {}) (\<lambda>ot q. ot q) H before x y"
  shows "c_agree (\<lambda>v. {}) (\<lambda>ot v. v) H before (andthen x (\<lambda>q. bnd (obj_value (c_heap heap) q) (\<lambda>v. ret (Some v)))) (andthen y (\<lambda>v. ret (Some v)))"
proof (rule agree_bnd [OF assms])
  fix a and c' :: "('a, 'e, nat) data_cache"
  assume c': "c_apart (H \<union> {}) c'" "\<forall>h\<in>H. obj_at (c_heap heap c') h = before h"
  have "c_agree (\<lambda>v. {}) (\<lambda>ot v. v) H before (ret (Some (obj_at (c_heap heap c') a)) c') (ret (Some (obj_at (c_heap heap c') a)) (c_img heap img c'))"
    by (rule agree_tracked) (use c' in simp_all)
  then show "c_agree (\<lambda>v. {}) (\<lambda>ot v. v) H before (bnd (obj_value (c_heap heap) a) (\<lambda>v. ret (Some v)) c')
      (ret (Some (obj_at (c_heap heap c') a)) (c_img heap img c'))"
    by (simp add: bnd_def obj_value_def gets_def)
qed

lemma agree_done:
  assumes "c_agree (\<lambda>v. {}) (\<lambda>ot v. v) H before x y"
  shows "c_agree (\<lambda>v. {}) (\<lambda>ot v. v) H before (andthen x (\<lambda>_. ret w)) (andthen y (\<lambda>_. ret w))"
  by (rule agree_bnd [OF assms], rule agree_tracked) simp_all

lemma agree_change:
  assumes "c_apart (set_option new \<union> H) c" "set_option new \<inter> H = {}" "\<forall>h\<in>H. obj_at (c_heap heap c) h = before h"
  shows "c_agree (\<lambda>v. {}) (\<lambda>ot v. v) H before
    (bnd (dc_GetAndChange I k new) (\<lambda>q. bnd (obj_value (c_heap heap) q) (\<lambda>v.
       sq (obj_set (c_heap heap) (c_with with_heap) q (f v)) (ret (Some v)))) c)
    (run_op J (C_Change k (map_option (obj_at (c_heap heap c)) new) f) (c_img heap img c))"
  unfolding run_op.simps bnd_andthen
proof (rule agree_bnd [OF agree_GetAndChange [OF assms]])
  fix q and c' :: "('a, bytes, nat) data_cache"
  assume q: "dc_GetAndChange I k new c = (Val q, c')" "c_apart (H \<union> {}) c'" "\<forall>h\<in>H. obj_at (c_heap heap c') h = before h"
  obtain tr where tr: "map_of (dictionary c') k = Some tr" "tr_Item tr = q" using dc_GetAndChange_tracked [OF q(1)] by blast
  let ?v = "obj_at (c_heap heap c') q"
  have "c_agree (\<lambda>v. {}) (\<lambda>ot v. v) H before
      (andthen (obj_set (c_heap heap) (c_with with_heap) (tr_Item tr) (f ?v) c') (\<lambda>_. ret (Some ?v)))
      (andthen (track k (f ?v) (tr_State tr) (c_img heap img c')) (\<lambda>_. ret (Some ?v)))"
    by (rule agree_done, rule agree_mutate) (use q tr in simp_all)
  moreover have "dc_mutate k (\<lambda>v. Inr (f v)) (c_img heap img c') = track k (f ?v) (tr_State tr) (c_img heap img c')"
    by (simp add: dc_mutate_def bnd_tracked lookup_img tr deref_def) (simp add: bnd_def lft_def ret_def)
  ultimately show "c_agree (\<lambda>v. {}) (\<lambda>ot v. v) H before
      (andthen (obj_value (c_heap heap) q c') (\<lambda>v. sq (obj_set (c_heap heap) (c_with with_heap) q (f v)) (ret (Some v))))
      (sq (dc_mutate k (\<lambda>v. Inr (f v))) (ret (Some ?v)) (c_img heap img c'))"
    unfolding sq_def bnd_andthen by (simp add: obj_value_def gets_def andthen_def tr(2) split del: if_split)
qed

lemma obj_op_sim: "sim (c_heap heap) (c_owned owned) (c_sound owned sound) (c_img heap img) (\<lambda>v. {}) (\<lambda>ot v. v)
    (obj_op heap with_heap I oper) (run_op J oper)"
  unfolding sim_def
proof (intro allI impI)
  fix H and c :: "('a, bytes, nat) data_cache"
  assume c: "c_apart H c"
  let ?b = "obj_at (c_heap heap c)"
  show "c_agree (\<lambda>v. {}) (\<lambda>ot v. v) H ?b (obj_op heap with_heap I oper c) (run_op J oper (c_img heap img c))"
  proof (cases oper)
    case (C_Add k v)
    have "c_agree (\<lambda>v. {}) (\<lambda>ot v. v) H ?b (bnd (obj_new (c_heap heap) (c_with with_heap) v) (\<lambda>r. sq (dc_Add k r) (ret None)) c)
       ((\<lambda>v. sq (dc_Add k v) (ret None)) v (c_img heap img c))"
      by (rule agree_with_new [OF c]) (unfold sq_def bnd_andthen, simp, intro agree_done agree_Add, simp_all)
    then show ?thesis unfolding C_Add by simp
  next
    case (C_Delete k)
    show ?thesis unfolding C_Delete obj_op.simps run_op.simps sq_def bnd_andthen
      by (rule agree_done, rule agree_Delete [OF c]) simp
  next
    case (C_TryGet k)
    have "c_agree (\<lambda>v. {}) (\<lambda>ot v. v) H ?b (andthen (dc_TryGet I k c) (\<lambda>res.
         case res of None \<Rightarrow> ret None | Some r \<Rightarrow> bnd (obj_value (c_heap heap) r) (\<lambda>v. ret (Some v))))
         (andthen (dc_TryGet J k (c_img heap img c)) ret)"
    proof (rule agree_bnd [OF dc_TryGet_sim [unfolded sim_def, rule_format, OF c]])
      fix res and c' :: "('a, bytes, nat) data_cache"
      assume c': "c_apart (H \<union> {}) c'" "\<forall>h\<in>H. obj_at (c_heap heap c') h = ?b h"
      have "c_agree (\<lambda>v. {}) (\<lambda>ot v. v) H ?b (ret (map_option (obj_at (c_heap heap c')) res) c')
         (ret (map_option (obj_at (c_heap heap c')) res) (c_img heap img c'))"
        by (rule agree_tracked) (use c' in simp_all)
      then show "c_agree (\<lambda>v. {}) (\<lambda>ot v. v) H ?b
         ((case res of None \<Rightarrow> ret None | Some r \<Rightarrow> bnd (obj_value (c_heap heap) r) (\<lambda>v. ret (Some v))) c')
         (ret (map_option (obj_at (c_heap heap c')) res) (c_img heap img c'))"
        by (cases res) (simp_all add: bnd_def obj_value_def gets_def)
    qed
    then show ?thesis unfolding C_TryGet by (simp add: bnd_andthen andthen_ret)
  next
    case (C_GetOrAdd k v)
    have "c_agree (\<lambda>v. {}) (\<lambda>ot v. v) H ?b (bnd (obj_new (c_heap heap) (c_with with_heap) v) (\<lambda>r.
         bnd (dc_GetOrAdd I k r) (\<lambda>q. bnd (obj_value (c_heap heap) q) (\<lambda>v. ret (Some v)))) c)
       ((\<lambda>v. bnd (dc_GetOrAdd J k v) (\<lambda>v. ret (Some v))) v (c_img heap img c))"
      by (rule agree_with_new [OF c]) (simp, unfold bnd_andthen [of "dc_GetOrAdd _ _ _"], intro agree_value agree_GetOrAdd, simp_all)
    then show ?thesis unfolding C_GetOrAdd by simp
  next
    case (C_Change k factory f)
    show ?thesis
    proof (cases factory)
      case None
      have "c_agree (\<lambda>v. {}) (\<lambda>ot v. v) H ?b
        (bnd (dc_GetAndChange I k None) (\<lambda>q. bnd (obj_value (c_heap heap) q) (\<lambda>v.
           sq (obj_set (c_heap heap) (c_with with_heap) q (f v)) (ret (Some v)))) c)
        (run_op J (C_Change k (map_option ?b None) f) (c_img heap img c))"
        by (rule agree_change) (use c in simp_all)
      then show ?thesis unfolding C_Change None obj_op.simps by (simp add: bnd_def [of "ret None"] ret_def)
    next
      case (Some v)
      have "c_agree (\<lambda>v. {}) (\<lambda>ot v. v) H ?b (bnd (obj_new (c_heap heap) (c_with with_heap) v) (\<lambda>r.
         bnd (dc_GetAndChange I k (Some r)) (\<lambda>q. bnd (obj_value (c_heap heap) q) (\<lambda>v.
           sq (obj_set (c_heap heap) (c_with with_heap) q (f v)) (ret (Some v))))) c)
         ((\<lambda>v. run_op J (C_Change k (Some v) f)) v (c_img heap img c))"
      proof (rule agree_with_new [OF c])
        fix r and c' :: "('a, bytes, nat) data_cache"
        assume r: "c_apart (insert r H) c'" "r \<notin> H" "\<forall>h\<in>H. obj_at (c_heap heap c') h = ?b h"
        show "c_agree (\<lambda>v. {}) (\<lambda>ot v. v) H ?b (bnd (dc_GetAndChange I k (Some r)) (\<lambda>q. bnd (obj_value (c_heap heap) q) (\<lambda>v.
           sq (obj_set (c_heap heap) (c_with with_heap) q (f v)) (ret (Some v)))) c')
           (run_op J (C_Change k (Some (obj_at (c_heap heap c') r)) f) (c_img heap img c'))"
          using agree_change [of "Some r" H c' ?b k f] r by simp
      qed simp
      moreover have "bnd (bnd p (\<lambda>r. ret (Some r))) g c = bnd p (\<lambda>r. g (Some r)) c" for p and g :: "nat option \<Rightarrow> (('a, bytes, nat) data_cache, 'b option) m" and c
        by (simp add: bnd_def ret_def split: prod.splits res.splits)
      ultimately show ?thesis unfolding C_Change Some obj_op.simps by simp
    qed
  qed
qed

end

section \<open>Committing\<close>

lemma res_refs_none: "res_refs (\<lambda>v. {}) r = {}"
  by (cases r) simp_all

lemma map_res_unit: "map_res (\<lambda>v. ()) r = r"
  by (cases r) simp_all

lemma agree_less:
  assumes "agree heap owned sound img (\<lambda>v. {}) val G before x y" "H \<subseteq> G"
  shows "agree heap owned sound img (\<lambda>v. {}) val H before x y"
  using assms apart_less [of heap owned sound G _ H] by (auto simp: agree_def res_refs_none)

lemma agree_before:
  "agree heap owned sound img rf val H before x y \<Longrightarrow> \<forall>h\<in>H. before h = before' h \<Longrightarrow> agree heap owned sound img rf val H before' x y"
  by (auto simp: agree_def)

text \<open>What \<open>Commit\<close> does below for one item.\<close>

definition commit_step :: "('s, 'k, 'v) internals \<Rightarrow> 'k \<times> 'v trackable \<Rightarrow> ('s, unit) m" where
  "commit_step I e =
     (case tr_State (snd e) of
        TS_ADDED \<Rightarrow> AddInternal I (fst e) (tr_Item (snd e))
      | TS_CHANGED \<Rightarrow> UpdateInternal I (fst e) (tr_Item (snd e))
      | TS_DELETED \<Rightarrow> DeleteInternal I (fst e)
      | TS_NONE \<Rightarrow> ret ())"

lemma commit_item_step: "commit_item I e c = on_backing (commit_step I e) c"
  by (simp add: commit_item_def commit_step_def on_backing_def ret_def split: track_state.split)

lemma commit_steps: "mapm (commit_item I) d c = on_backing (mapm (commit_step I) d) c"
  by (induction d arbitrary: c)
    (simp_all add: commit_item_step on_backing_def sq_def bnd_def ret_def split: prod.splits res.splits)

text \<open>A layer that can be written: an item that is added is its own from then on, an item that is updated is not.\<close>

locale object_writer = object_layer +
  assumes add_sim: "apart heap owned sound (insert r H) s \<Longrightarrow> r \<notin> H \<Longrightarrow>
      agree heap owned sound img (\<lambda>v. {}) (\<lambda>ot v. v) H (obj_at (heap s)) (AddInternal I k r s) (AddInternal J k (obj_at (heap s) r) (img s))"
    and update_sim: "apart heap owned sound (insert r H) s \<Longrightarrow> r \<notin> H \<Longrightarrow>
      agree heap owned sound img (\<lambda>v. {}) (\<lambda>ot v. v) H (obj_at (heap s)) (UpdateInternal I k r s) (UpdateInternal J k (obj_at (heap s) r) (img s))"
    and delete_sim: "sim heap owned sound img (\<lambda>v. {}) (\<lambda>ot v. v) (DeleteInternal I k) (DeleteInternal J k)"
begin

lemma commit_step_agree:
  assumes "apart_in (insert (tr_Item (snd e)) H) s" "tr_Item (snd e) \<notin> H"
  shows "agree_in (\<lambda>v. {}) (\<lambda>ot v. v) H (obj_at (heap s)) (commit_step I e s)
    (commit_step J (fst e, deref (obj_at (heap s)) (snd e)) (img s))"
proof -
  have less: "apart_in H s" by (rule apart_less [OF assms(1)]) auto
  have nothing_done: "agree_in (\<lambda>v. {}) (\<lambda>ot v. v) H (obj_at (heap s)) (ret () s) (ret () (img s))"
    by (rule agree_ret) (use less in simp_all)
  show ?thesis
    using nothing_done add_sim [OF assms] update_sim [OF assms] delete_sim [unfolded sim_def, rule_format, OF less]
    by (cases "tr_State (snd e)") (simp_all add: commit_step_def deref_def)
qed

lemma commit_steps_agree:
  assumes "apart_in (H \<union> (\<lambda>e. tr_Item (snd e)) ` set d) s" "distinct (map (\<lambda>e. tr_Item (snd e)) d)"
    "(\<lambda>e. tr_Item (snd e)) ` set d \<inter> H = {}"
  shows "agree_in (\<lambda>v. {}) (\<lambda>ot v. v) H (obj_at (heap s)) (mapm (commit_step I) d s)
    (mapm (commit_step J) (map (\<lambda>e. (fst e, deref (obj_at (heap s)) (snd e))) d) (img s))"
  using assms
proof (induction d arbitrary: s)
  case Nil
  then show ?case by (simp add: agree_def ret_def)
next
  case (Cons e d)
  let ?G = "H \<union> (\<lambda>e. tr_Item (snd e)) ` set d"
  have e: "tr_Item (snd e) \<notin> ?G" using Cons.prems(2,3) by (auto simp del: image_iff)
  have "apart_in (insert (tr_Item (snd e)) ?G) s" using Cons.prems(1) by simp
  note step = commit_step_agree [OF this e]
  have "agree_in (\<lambda>v. {}) (\<lambda>ot v. v) H (obj_at (heap s)) (andthen (commit_step I e s) (\<lambda>_. mapm (commit_step I) d))
     (andthen (commit_step J (fst e, deref (obj_at (heap s)) (snd e)) (img s))
       (\<lambda>_. mapm (commit_step J) (map (\<lambda>e. (fst e, deref (obj_at (heap s)) (snd e))) d)))"
  proof (rule agree_bnd_more [OF step])
    fix s'
    assume s': "apart_in (?G \<union> {}) s'" "\<forall>h\<in>?G. obj_at (heap s') h = obj_at (heap s) h"
    have same: "map (\<lambda>e. (fst e, deref (obj_at (heap s')) (snd e))) d = map (\<lambda>e. (fst e, deref (obj_at (heap s)) (snd e))) d"
      using s'(2) by (simp add: deref_def)
    have "agree_in (\<lambda>v. {}) (\<lambda>ot v. v) H (obj_at (heap s')) (mapm (commit_step I) d s')
       (mapm (commit_step J) (map (\<lambda>e. (fst e, deref (obj_at (heap s')) (snd e))) d) (img s'))"
      by (rule Cons.IH) (use s' Cons.prems in auto)
    then show "agree_in (\<lambda>v. {}) (\<lambda>ot v. v) H (obj_at (heap s)) (mapm (commit_step I) d s')
       (mapm (commit_step J) (map (\<lambda>e. (fst e, deref (obj_at (heap s)) (snd e))) d) (img s'))"
      unfolding same by (rule agree_before) (use s'(2) in simp)
  qed auto
  then show ?case by (simp add: sq_def bnd_andthen)
qed

text \<open>After a commit the state below is that of the values; the items added are now shared with it.\<close>

lemma dc_Commit_agree:
  assumes "apart (c_heap heap) (c_owned owned) (c_sound owned sound) H c" "dc_Commit I c = (r, c')"
  shows "dc_Commit J (c_img heap img c) = (r, (c_img heap img c)\<lparr>backing := img (backing c')\<rparr>)" "apart_in H (backing c')"
proof -
  have d: "apart_in (H \<union> (\<lambda>e. tr_Item (snd e)) ` set (dictionary c)) (backing c)"
      "distinct (map (\<lambda>e. tr_Item (snd e)) (dictionary c))" "(\<lambda>e. tr_Item (snd e)) ` set (dictionary c) \<inter> H = {}"
    using assms(1) unfolding apart_def c_sound_def c_owned_def c_heap_def refs_of_def by auto
  have "dc_Commit I c = on_backing (mapm (commit_step I) (dictionary c)) c"
    "dc_Commit J (c_img heap img c) = on_backing (mapm (commit_step J) (dictionary (c_img heap img c))) (c_img heap img c)"
    by (simp_all add: dc_Commit_def bnd_def gets_def commit_steps)
  moreover obtain x s where s: "mapm (commit_step I) (dictionary c) (backing c) = (x, s)"
      "mapm (commit_step J) (map (\<lambda>e. (fst e, deref (obj_at (heap (backing c))) (snd e))) (dictionary c)) (img (backing c)) =
        (map_res (\<lambda>v. v) x, img s)" "apart_in (H \<union> res_refs (\<lambda>v. {}) x) s"
    by (rule agreeD [OF commit_steps_agree [OF d]])
  moreover have "apart_in H s" by (rule apart_less [OF s(3)]) simp
  ultimately show "dc_Commit J (c_img heap img c) = (r, (c_img heap img c)\<lparr>backing := img (backing c')\<rparr>)" "apart_in H (backing c')"
    using assms(2) by (auto simp: on_backing_def c_img_def map_res_unit)
qed

end

interpretation object_store: object_writer hp_objects hp_with "\<lambda>s. {}" "\<lambda>s. True" hp_base "ObjectCache J" J for J
proof unfold_locales
  fix r :: nat and H k and s :: "('a, 'b) heaped"
  assume "apart hp_objects (\<lambda>s. {}) (\<lambda>s. True) (insert r H) s"
  then have less: "apart hp_objects (\<lambda>s. {}) (\<lambda>s. True) H s" by (rule apart_less) auto
  show "agree hp_objects (\<lambda>s. {}) (\<lambda>s. True) hp_base (\<lambda>v. {}) (\<lambda>ot v. v) H (obj_at (hp_objects s))
      (AddInternal (ObjectCache J) k r s) (AddInternal J k (obj_at (hp_objects s) r) (hp_base s))"
    using agree_on_base [OF less, of "AddInternal J k (obj_at (hp_objects s) r)"] by (simp add: ObjectCache_def bnd_def obj_value_def gets_def)
  show "agree hp_objects (\<lambda>s. {}) (\<lambda>s. True) hp_base (\<lambda>v. {}) (\<lambda>ot v. v) H (obj_at (hp_objects s))
      (UpdateInternal (ObjectCache J) k r s) (UpdateInternal J k (obj_at (hp_objects s) r) (hp_base s))"
    using agree_on_base [OF less, of "UpdateInternal J k (obj_at (hp_objects s) r)"] by (simp add: ObjectCache_def bnd_def obj_value_def gets_def)
next
  fix k
  show "sim hp_objects (\<lambda>s. {}) (\<lambda>s. True) hp_base (\<lambda>v. {}) (\<lambda>ot v. v) (DeleteInternal (ObjectCache J) k) (DeleteInternal J k)"
    unfolding sim_def ObjectCache_def internals.simps by (intro allI impI agree_on_base)
qed

context object_layer
begin

lemma agree_update:
  assumes "c_apart (insert r H) c" "r \<notin> H"
  shows "c_agree (\<lambda>v. {}) (\<lambda>ot v. v) H (obj_at (c_heap heap c)) (UpdateInternal (CloneObjects heap with_heap I clone fr) k r c)
    (UpdateInternal (CloneCache J clone fr) k (obj_at (c_heap heap c) r) (c_img heap img c))"
proof -
  let ?b = "obj_at (c_heap heap c)"
  have "c_agree (\<lambda>v. {}) (\<lambda>ot v. v) (insert r H) ?b
     (andthen (dc_GetAndChange I k None c) (\<lambda>q. bnd (obj_value (c_heap heap) q) (\<lambda>old. bnd (obj_value (c_heap heap) r) (\<lambda>replica.
        bnd (lft (fr old replica)) (obj_set (c_heap heap) (c_with with_heap) q)))))
     (andthen (dc_GetAndChange J k (map_option ?b None) (c_img heap img c)) (\<lambda>_. dc_mutate k (\<lambda>old. fr old (?b r))))"
  proof (rule agree_bnd [OF agree_GetAndChange])
    fix q and c' :: "('a, bytes, nat) data_cache"
    assume q: "dc_GetAndChange I k None c = (Val q, c')" "c_apart (insert r H \<union> {}) c'"
        "\<forall>h\<in>insert r H. obj_at (c_heap heap c') h = ?b h"
    obtain tr where tr: "map_of (dictionary c') k = Some tr" "tr_Item tr = q" using dc_GetAndChange_tracked [OF q(1)] by blast
    let ?v = "obj_at (c_heap heap c') q"
    have c': "c_apart (insert r H) c'" using q(2) by simp
    have low: "bnd (obj_value (c_heap heap) q) (\<lambda>old. bnd (obj_value (c_heap heap) r) (\<lambda>replica.
        bnd (lft (fr old replica)) (obj_set (c_heap heap) (c_with with_heap) q))) c' =
        andthen (lft (fr ?v (?b r)) c') (obj_set (c_heap heap) (c_with with_heap) (tr_Item tr))"
      using q(3) tr(2) by (simp add: bnd_def obj_value_def gets_def andthen_def)
    have high: "dc_mutate k (\<lambda>old. fr old (?b r)) (c_img heap img c') =
        andthen (lft (fr ?v (?b r)) (c_img heap img c')) (\<lambda>v. track k v (tr_State tr))"
      unfolding dc_mutate_def bnd_tracked by (simp add: lookup_img tr deref_def bnd_andthen)
    show "c_agree (\<lambda>v. {}) (\<lambda>ot v. v) (insert r H) ?b
        (bnd (obj_value (c_heap heap) q) (\<lambda>old. bnd (obj_value (c_heap heap) r) (\<lambda>replica.
          bnd (lft (fr old replica)) (obj_set (c_heap heap) (c_with with_heap) q))) c')
        (dc_mutate k (\<lambda>old. fr old (?b r)) (c_img heap img c'))"
    proof (cases "fr ?v (?b r)")
      case (Inl e)
      have "c_agree (\<lambda>v. {}) (\<lambda>ot (v :: unit). v) (insert r H) ?b (throw e c') (throw e (c_img heap img c'))"
        by (rule agree_throw [OF c' q(3)])
      then show ?thesis unfolding low high by (simp add: Inl lft_def andthen_def throw_def)
    next
      case (Inr v)
      have "c_agree (\<lambda>v. {}) (\<lambda>ot v. v) (insert r H) ?b (obj_set (c_heap heap) (c_with with_heap) (tr_Item tr) v c')
          (track k v (tr_State tr) (c_img heap img c'))"
        by (rule agree_mutate [OF c' q(3) tr(1)])
      then show ?thesis unfolding low high by (simp add: Inr lft_def andthen_def ret_def)
    qed
  qed (use assms in simp_all)
  then have "c_agree (\<lambda>v. {}) (\<lambda>ot v. v) H ?b
     (andthen (dc_GetAndChange I k None c) (\<lambda>q. bnd (obj_value (c_heap heap) q) (\<lambda>old. bnd (obj_value (c_heap heap) r) (\<lambda>replica.
        bnd (lft (fr old replica)) (obj_set (c_heap heap) (c_with with_heap) q)))))
     (andthen (dc_GetAndChange J k (map_option ?b None) (c_img heap img c)) (\<lambda>_. dc_mutate k (\<lambda>old. fr old (?b r))))"
    by (rule agree_less) auto
  then show ?thesis by (simp add: CloneObjects_def CloneCache_def Let_def bnd_andthen sq_def)
qed

lemma clone_writer:
  "object_writer (c_heap heap) (c_with with_heap) (c_owned owned) (c_sound owned sound) (c_img heap img)
     (CloneObjects heap with_heap I clone fr) (CloneCache J clone fr)"
proof (intro object_writer.intro clone_layer object_writer_axioms.intro agree_update)
  show "c_agree (\<lambda>v. {}) (\<lambda>ot v. v) H (obj_at (c_heap heap c)) (AddInternal (CloneObjects heap with_heap I clone fr) k r c)
      (AddInternal (CloneCache J clone fr) k (obj_at (c_heap heap c) r) (c_img heap img c))"
    if "c_apart (insert r H) c" "r \<notin> H" for r H c k
    using agree_Add [OF that, of "obj_at (c_heap heap c)" k] by (simp add: CloneObjects_def CloneCache_def Let_def)
  show "sim (c_heap heap) (c_owned owned) (c_sound owned sound) (c_img heap img) (\<lambda>v. {}) (\<lambda>ot v. v)
      (DeleteInternal (CloneObjects heap with_heap I clone fr) k) (DeleteInternal (CloneCache J clone fr) k)" for k
    unfolding sim_def CloneObjects_def CloneCache_def Let_def internals.simps by (intro allI impI agree_Delete) simp_all
qed

end

end
