(* ===== verification/Cache_Properties.thy ===== *)
theory Cache_Properties
  imports Cache_Contract State_Properties
begin

text \<open>
  The caches of the storage of contracts. The database fulfils the contract \<open>store\<close> for every class
  with a format (\<open>codec\<close>), a clone of such a cache fulfils it by \<open>clone_store\<close>; so the two levels
  that a block's execution stacks on the database are a map, and their commits write that map.
\<close>

section \<open>The database\<close>

definition ldb_decode :: "(stream, 'v) m \<Rightarrow> bytes \<Rightarrow> 'v option" where
  "ldb_decode deser hexed =
     (case unhexlify hexed of
        None \<Rightarrow> None
      | Some raw \<Rightarrow> (case fst (deser (cursor [] raw)) of Val v \<Rightarrow> Some v | _ \<Rightarrow> None))"

text \<open>What the database holds, and what it will hold after the batch; the pairs of one cache are those with its prefix.\<close>

definition ldb_lookup :: "bytes \<Rightarrow> (stream, 'v) m \<Rightarrow> (bytes \<times> bytes) list \<Rightarrow> bytes \<Rightarrow> 'v option" where
  "ldb_lookup prefix deser d k = Option.bind (map_of d (prefix @ k)) (ldb_decode deser)"

definition ldb_rd :: "bytes \<Rightarrow> (stream, 'v) m \<Rightarrow> leveldb \<Rightarrow> bytes \<Rightarrow> 'v option" where
  "ldb_rd prefix deser s = ldb_lookup prefix deser (ldb s)"

definition ldb_pend :: "bytes \<Rightarrow> (stream, 'v) m \<Rightarrow> leveldb \<Rightarrow> bytes \<Rightarrow> 'v option" where
  "ldb_pend prefix deser s = ldb_lookup prefix deser (fold apply_write (ldb_batch s) (ldb s))"

definition ldb_valid :: "bytes \<Rightarrow> ('v \<Rightarrow> bytes) \<Rightarrow> ('v \<Rightarrow> bool) \<Rightarrow> leveldb \<Rightarrow> bool" where
  "ldb_valid prefix enc ok s \<longleftrightarrow> pool_wf (ldb_streams s) \<and> distinct (map fst (ldb s)) \<and>
     (\<forall>k hexed. map_of (ldb s) (prefix @ k) = Some hexed \<longrightarrow> (\<exists>v. ok v \<and> hexed = hexlify (enc v)))"

lemma ldb_validD:
  "ldb_valid prefix enc ok s \<Longrightarrow> map_of (ldb s) (prefix @ k) = Some hexed \<Longrightarrow> \<exists>v. ok v \<and> hexed = hexlify (enc v)"
  unfolding ldb_valid_def by blast

lemma map_of_db_put: "map_of (db_put k v d) = (map_of d)(k \<mapsto> v)"
  by (induction k v d rule: db_put.induct) (auto simp: fun_eq_iff)

lemma map_of_db_delete: "map_of (db_delete k d) = (map_of d)(k := None)"
  by (induction d) (auto simp: db_delete_def fun_eq_iff)

lemma fold_apply_snoc: "fold apply_write (ws @ [w]) d = apply_write w (fold apply_write ws d)"
  by simp

context codec
begin

lemma decode_enc: "ok v \<Longrightarrow> ldb_decode deser (hexlify (enc v)) = Some v"
  using deser_reads [of v, unfolded reads_def, rule_format, of "[]" "[]"] by (simp add: ldb_decode_def)

lemma ldb_put_ok:
  assumes "ldb_valid prefix enc ok s" "ok v"
  shows "\<exists>s'. ldb_put prefix ser k v s = (Val (), s') \<and> ldb_valid prefix enc ok s' \<and>
    ldb_pend prefix deser s' = (ldb_pend prefix deser s)(k \<mapsto> v)"
proof -
  have wf: "pool_wf (ldb_streams s)" using assms(1) by (simp add: ldb_valid_def)
  obtain t where t: "state_ToByteArray ser v (ldb_streams s) = (Val (hexlify (enc v)), t)" "pool_wf t"
    using ToByteArray_ok [OF assms(2) wf] by blast
  let ?s = "s\<lparr>ldb_streams := t, ldb_batch := ldb_batch s @ [(prefix @ k, Some (hexlify (enc v)))]\<rparr>"
  have "ldb_put prefix ser k v s = (Val (), ?s)"
    using t(1) by (simp add: ldb_put_def on_streams_def batch_put_def bnd_def modify_def)
  moreover have "ldb_valid prefix enc ok ?s" using assms(1) t(2) by (simp add: ldb_valid_def)
  moreover have "ldb_pend prefix deser ?s = (ldb_pend prefix deser s)(k \<mapsto> v)"
    by (auto simp: ldb_pend_def ldb_lookup_def apply_write_def map_of_db_put decode_enc [OF assms(2)] fun_eq_iff)
  ultimately show ?thesis by blast
qed

lemma ldb_delete_ok:
  assumes "ldb_valid prefix enc ok s"
  shows "\<exists>s'. batch_delete (prefix @ k) s = (Val (), s') \<and> ldb_valid prefix enc ok s' \<and>
    ldb_pend prefix deser s' = (ldb_pend prefix deser s)(k := None)"
  using assms
  by (auto simp: batch_delete_def modify_def ldb_valid_def ldb_pend_def ldb_lookup_def apply_write_def map_of_db_delete
      fun_eq_iff)

lemma ldb_TryGet_ok:
  assumes "ldb_valid prefix enc ok s"
  shows "\<exists>t. ldb_TryGetInternal prefix deser k s = (Val (ldb_rd prefix deser s k), s\<lparr>ldb_streams := t\<rparr>) \<and> pool_wf t"
proof (cases "map_of (ldb s) (prefix @ k)")
  case None
  then show ?thesis
    using assms
    by (auto simp: ldb_TryGetInternal_def run_simps ldb_rd_def ldb_lookup_def ldb_valid_def intro!: exI [of _ "ldb_streams s"])
next
  case (Some hexed)
  then obtain v where v: "ok v" "hexed = hexlify (enc v)" using ldb_validD [OF assms] by blast
  have wf: "pool_wf (ldb_streams s)" using assms by (simp add: ldb_valid_def)
  obtain t where "DeserializeFromDB deser (enc v) (ldb_streams s) = (Val v, t)" "pool_wf t"
    using DeserializeFromDB_ok [OF v(1) wf] by blast
  then show ?thesis
    using Some v
    by (auto simp: ldb_TryGetInternal_def gets_def bnd_def on_streams_def ret_def ldb_rd_def ldb_lookup_def decode_enc)
qed

text \<open>The database with a batch of writes, under one prefix.\<close>

lemma leveldb_store:
  "store (LevelDBCache prefix ser deser) (ldb_valid prefix enc ok) (ldb_rd prefix deser) (ldb_pend prefix deser) ok"
proof
  fix s :: leveldb and k and v :: 'a
  assume valid: "ldb_valid prefix enc ok s"
  obtain t where t: "ldb_TryGetInternal prefix deser k s = (Val (ldb_rd prefix deser s k), s\<lparr>ldb_streams := t\<rparr>)" "pool_wf t"
    using ldb_TryGet_ok [OF valid] by blast
  let ?s = "s\<lparr>ldb_streams := t\<rparr>"
  have same: "ldb_valid prefix enc ok ?s" "ldb_rd prefix deser ?s = ldb_rd prefix deser s"
    "ldb_pend prefix deser ?s = ldb_pend prefix deser s"
    using valid t(2) by (simp_all add: ldb_valid_def ldb_rd_def ldb_pend_def)
  show "\<exists>s'. TryGetInternal (LevelDBCache prefix ser deser) k s = (Val (ldb_rd prefix deser s k), s') \<and>
      ldb_valid prefix enc ok s' \<and> ldb_rd prefix deser s' = ldb_rd prefix deser s \<and>
      ldb_pend prefix deser s' = ldb_pend prefix deser s"
    using t(1) same by (auto simp: LevelDBCache_def)
  show "\<exists>r s'. GetInternal (LevelDBCache prefix ser deser) k s = (r, s') \<and> ldb_valid prefix enc ok s' \<and>
      ldb_rd prefix deser s' = ldb_rd prefix deser s \<and> ldb_pend prefix deser s' = ldb_pend prefix deser s \<and>
      (case ldb_rd prefix deser s k of Some v \<Rightarrow> r = Val v | None \<Rightarrow> r = Exc KeyError \<or> r = Exc ValueError)"
    using t(1) same
    by (auto simp: LevelDBCache_def ldb_GetInternal_def bnd_def ret_def throw_def split: option.splits)
  show "ok v" if "ldb_rd prefix deser s k = Some v"
  proof -
    note found = that
    obtain hexed where h: "map_of (ldb s) (prefix @ k) = Some hexed" "ldb_decode deser hexed = Some v"
      using found by (auto simp: ldb_rd_def ldb_lookup_def bind_eq_Some_conv)
    then obtain w where "ok w" "hexed = hexlify (enc w)" using ldb_validD [OF valid] by blast
    then show ?thesis using h(2) decode_enc by simp
  qed
  show "\<exists>s'. AddInternal (LevelDBCache prefix ser deser) k v s = (Val (), s') \<and> ldb_valid prefix enc ok s' \<and>
      ldb_pend prefix deser s' = (ldb_pend prefix deser s)(k \<mapsto> v)" if "ok v" "ldb_pend prefix deser s k = None"
    using ldb_put_ok [OF valid that(1)] by (simp add: LevelDBCache_def)
  show "\<exists>s'. UpdateInternal (LevelDBCache prefix ser deser) k v s = (Val (), s') \<and> ldb_valid prefix enc ok s' \<and>
      ldb_pend prefix deser s' = (ldb_pend prefix deser s)(k \<mapsto> v)" if "ok v" "ldb_pend prefix deser s k \<noteq> None"
    using ldb_put_ok [OF valid that(1)] by (simp add: LevelDBCache_def)
  show "\<exists>s'. DeleteInternal (LevelDBCache prefix ser deser) k s = (Val (), s') \<and> ldb_valid prefix enc ok s' \<and>
      ldb_pend prefix deser s' = (ldb_pend prefix deser s)(k := None)"
    using ldb_delete_ok [OF valid] by (simp add: LevelDBCache_def)
qed

text \<open>A search of the database decodes what it finds.\<close>

lemma ldb_load_ok:
  assumes "ldb_valid prefix enc ok s" "\<And>e. e \<in> set es \<Longrightarrow> \<exists>v. ok v \<and> snd e = hexlify (enc v)"
  shows "\<exists>t. ldb_load deser es s = (Val (map (\<lambda>e. (drop 1 (fst e), the (ldb_decode deser (snd e)))) es), s\<lparr>ldb_streams := t\<rparr>) \<and> pool_wf t"
  using assms
proof (induction es arbitrary: s)
  case Nil
  then show ?case by (auto simp: ret_def ldb_valid_def intro!: exI [of _ "ldb_streams s"])
next
  case (Cons e es)
  obtain v where v: "ok v" "snd e = hexlify (enc v)" using Cons.prems(2) [of e] by auto
  have wf: "pool_wf (ldb_streams s)" using Cons.prems(1) by (simp add: ldb_valid_def)
  obtain t where t: "DeserializeFromDB deser (enc v) (ldb_streams s) = (Val v, t)" "pool_wf t"
    using DeserializeFromDB_ok [OF v(1) wf] by blast
  have "ldb_valid prefix enc ok (s\<lparr>ldb_streams := t\<rparr>)" using Cons.prems(1) t(2) by (simp add: ldb_valid_def)
  from Cons.IH [OF this] Cons.prems(2)
  obtain u where "ldb_load deser es (s\<lparr>ldb_streams := t\<rparr>) =
      (Val (map (\<lambda>e. (drop 1 (fst e), the (ldb_decode deser (snd e)))) es), s\<lparr>ldb_streams := u\<rparr>)" "pool_wf u"
    by auto
  then show ?case using t(1) v by (auto simp: bnd_def on_streams_def ret_def decode_enc)
qed

lemma leveldb_search:
  assumes "length prefix = 1"
  shows "cache_search (LevelDBCache prefix ser deser) (ldb_valid prefix enc ok) (ldb_rd prefix deser) (ldb_pend prefix deser) ok"
proof (intro cache_search.intro cache_search_axioms.intro store.axioms(1) [OF leveldb_store])
    fix s p assume valid: "ldb_valid prefix enc ok s" and p: "unhexlify p = None"
    let ?es = "filter (\<lambda>e. take (length (prefix @ p)) (fst e) = prefix @ p) (ldb s)"
    let ?found = "map (\<lambda>e. (drop 1 (fst e), the (ldb_decode deser (snd e)))) ?es"
    have key: "fst e = prefix @ drop 1 (fst e)" if "e \<in> set ?es" for e
    proof -
      have "take 1 (fst e) = take 1 (take (length (prefix @ p)) (fst e))" using assms by (simp add: min_def)
      also have "\<dots> = prefix" using that assms by (simp del: take_take)
      finally show ?thesis using append_take_drop_id [of 1 "fst e"] by simp
    qed
    have look: "map_of (ldb s) (fst e) = Some (snd e)" if "e \<in> set (ldb s)" for e
      using that valid by (intro map_of_is_SomeI) (auto simp: ldb_valid_def)
    have dec: "\<exists>v. ok v \<and> snd e = hexlify (enc v)" if "e \<in> set ?es" for e
    proof -
      have "map_of (ldb s) (prefix @ drop 1 (fst e)) = Some (snd e)" using look [of e] key [OF that] that by simp
      then show ?thesis by (rule ldb_validD [OF valid])
    qed
    have "search_ok p (ldb_rd prefix deser s) ?found"
      unfolding search_ok_def
    proof (intro conjI allI impI)
      fix k v assume "(k, v) \<in> set ?found"
      then obtain e where e: "e \<in> set ?es" "k = drop 1 (fst e)" "v = the (ldb_decode deser (snd e))" by auto
      obtain w where "ok w" "snd e = hexlify (enc w)" using dec [OF e(1)] by blast
      then show "ldb_rd prefix deser s k = Some v"
        using e key [OF e(1)] look [of e] by (simp add: ldb_rd_def ldb_lookup_def decode_enc)
    next
      fix k v assume v: "ldb_rd prefix deser s k = Some v" and k: "take (length p) k = p"
      then obtain h where h: "map_of (ldb s) (prefix @ k) = Some h" "ldb_decode deser h = Some v"
        by (auto simp: ldb_rd_def ldb_lookup_def bind_eq_Some_conv)
      then have "(prefix @ k, h) \<in> set ?es" using k map_of_SomeD by fastforce
      then show "(k, v) \<in> set ?found" using h(2) assms by (force simp: image_iff)
    qed
    moreover obtain t where t: "ldb_load deser ?es s = (Val ?found, s\<lparr>ldb_streams := t\<rparr>)" "pool_wf t"
      using ldb_load_ok [OF valid dec] by blast
    ultimately show "\<exists>found s'. FindInternal (LevelDBCache prefix ser deser) p s = (Val found, s') \<and> ldb_valid prefix enc ok s' \<and>
        ldb_rd prefix deser s' = ldb_rd prefix deser s \<and> ldb_pend prefix deser s' = ldb_pend prefix deser s \<and>
        search_ok p (ldb_rd prefix deser s) found"
      using valid p
      by (auto simp: LevelDBCache_def ldb_FindInternal_def bnd_def gets_def ldb_valid_def ldb_rd_def ldb_pend_def)
qed

end

section \<open>The storage of contracts\<close>

interpretation storages: store Storages "ldb_valid ST_Storage si_enc si_ok" "ldb_rd ST_Storage si_Deserialize"
    "ldb_pend ST_Storage si_Deserialize" si_ok
  unfolding Storages_def by (rule storage_item.leveldb_store)

definition block_cache :: "leveldb \<Rightarrow> (leveldb, bytes, storage_item) data_cache" where
  "block_cache db = dc_CreateSnapshot db"

definition storage_view :: "(leveldb, bytes, storage_item) data_cache \<Rightarrow> bytes \<Rightarrow> storage_item option" where
  "storage_view = dc_view (ldb_rd ST_Storage si_Deserialize)"

definition storage_good :: "(leveldb, bytes, storage_item) data_cache \<Rightarrow> bool" where
  "storage_good = cache_inv (ldb_valid ST_Storage si_enc si_ok) (ldb_rd ST_Storage si_Deserialize)
     (ldb_pend ST_Storage si_Deserialize) si_ok"

interpretation storages_clone: store Storages_clone storage_good storage_view storage_view si_ok
  unfolding Storages_clone_def storage_good_def storage_view_def
proof (rule storages.clone_store)
  show "Inr (si_Clone v) = Inr v" if "si_ok v" for v
    using that by (cases v) (simp add: si_ok_def si_Clone_def StorageItem_def)
  show "Inr (si_FromReplica u v) = Inr v" if "si_ok u" "si_ok v" for u v
    using that by (cases u; cases v) (simp add: si_ok_def si_FromReplica_def)
qed

interpretation storages_search: cache_search Storages "ldb_valid ST_Storage si_enc si_ok" "ldb_rd ST_Storage si_Deserialize"
    "ldb_pend ST_Storage si_Deserialize" si_ok
  unfolding Storages_def by (rule storage_item.leveldb_search) (simp add: ST_Storage_def)

interpretation storages_clone_search: cache_search Storages_clone storage_good storage_view storage_view si_ok
  unfolding Storages_clone_def storage_good_def storage_view_def
proof (rule storages_search.clone_search)
  show "Inr (si_Clone v) = Inr v" if "si_ok v" for v
    using that by (cases v) (simp add: si_ok_def si_Clone_def StorageItem_def)
qed

section \<open>Sequences of operations\<close>

text \<open>A client's operations one after the other; an operation that raises is caught by the client.\<close>

primrec run_ops :: "('s, 'k, 'v) internals \<Rightarrow> ('k, 'v) cache_op list \<Rightarrow> ('s, 'k, 'v) data_cache \<Rightarrow>
    'v option res list \<times> ('s, 'k, 'v) data_cache" where
  "run_ops I [] c = ([], c)"
| "run_ops I (oper # opers) c =
     (case run_op I oper c of (r, c') \<Rightarrow> (case run_ops I opers c' of (rs, c'') \<Rightarrow> (r # rs, c'')))"

primrec map_ops :: "('k, 'v) cache_op list \<Rightarrow> ('k \<Rightarrow> 'v option) \<Rightarrow> (pyexc + 'v option) list \<times> ('k \<Rightarrow> 'v option)" where
  "map_ops [] m = ([], m)"
| "map_ops (oper # opers) m =
     (case map_op oper m of (r, m') \<Rightarrow> (case map_ops opers m' of (rs, m'') \<Rightarrow> (r # rs, m'')))"

primrec ops_ok :: "('v \<Rightarrow> bool) \<Rightarrow> ('k, 'v) cache_op list \<Rightarrow> ('k \<Rightarrow> 'v option) \<Rightarrow> bool" where
  "ops_ok ok [] m \<longleftrightarrow> True"
| "ops_ok ok (oper # opers) m \<longleftrightarrow> op_ok ok oper m \<and> ops_ok ok opers (snd (map_op oper m))"

lemma run_ops_ok:
  assumes "cache_source I valid rd pend ok" "cache_inv valid rd pend ok c" "ops_ok ok opers (dc_view rd c)"
  shows "\<exists>c'. run_ops I opers c = (map result_of (fst (map_ops opers (dc_view rd c))), c') \<and>
    cache_inv valid rd pend ok c' \<and> dc_view rd c' = snd (map_ops opers (dc_view rd c)) \<and>
    rd (backing c') = rd (backing c)"
  using assms(2,3)
proof (induction opers arbitrary: c)
  case Nil
  then show ?case by simp
next
  case (Cons oper opers)
  obtain c1 where c1: "run_op I oper c = (result_of (fst (map_op oper (dc_view rd c))), c1)"
      "cache_inv valid rd pend ok c1" "dc_view rd c1 = snd (map_op oper (dc_view rd c))" "rd (backing c1) = rd (backing c)"
    using cache_source.run_op_ok [OF assms(1) Cons.prems(1), of oper] Cons.prems(2) by auto
  obtain c2 where "run_ops I opers c1 = (map result_of (fst (map_ops opers (dc_view rd c1))), c2)"
      "cache_inv valid rd pend ok c2" "dc_view rd c2 = snd (map_ops opers (dc_view rd c1))" "rd (backing c2) = rd (backing c1)"
    using Cons.IH [OF c1(2)] Cons.prems(2) c1(3) by auto
  then show ?case using c1 by (simp add: case_prod_beta)
qed

lemma snapshot_ok:
  "valid s \<Longrightarrow> pend s = rd s \<Longrightarrow> cache_inv valid rd pend ok (dc_CreateSnapshot s)"
  "dc_view rd (dc_CreateSnapshot s) = rd s"
  by (simp_all add: dc_CreateSnapshot_def cache_inv_def dc_view_def)

definition storage_map :: "leveldb \<Rightarrow> bytes \<Rightarrow> storage_item option" where
  "storage_map = ldb_rd ST_Storage si_Deserialize"

definition storage_db_ok :: "leveldb \<Rightarrow> bool" where
  "storage_db_ok db \<longleftrightarrow> ldb_valid ST_Storage si_enc si_ok db \<and> ldb_batch db = []"

lemma block_cache_ok:
  "storage_db_ok db \<Longrightarrow> storage_good (block_cache db)" "storage_view (block_cache db) = storage_map db"
  unfolding storage_good_def storage_view_def storage_map_def block_cache_def
  by (rule snapshot_ok; simp add: storage_db_ok_def ldb_pend_def ldb_rd_def) (rule snapshot_ok)

text \<open>
  The two caches of values, their commits and the write of the batch. \<open>Object_Properties\<close> has the caches with the
  objects they share.
\<close>

lemma storage_values_refine:
  assumes "storage_db_ok db" "ops_ok si_ok opers (storage_map db)"
  shows "\<exists>c c' inner db'.
    run_ops Storages_clone opers (dc_CreateSnapshot (block_cache db)) = (map result_of (fst (map_ops opers (storage_map db))), c) \<and>
    dc_Commit Storages_clone c = (Val (), c') \<and> dc_Commit Storages (backing c') = (Val (), inner) \<and>
    batch_write (backing inner) = (Val (), db') \<and> storage_map db' = snd (map_ops opers (storage_map db))"
proof -
  note outer = snapshot_ok(1) [where valid = storage_good and rd = storage_view and pend = storage_view and ok = si_ok,
      OF block_cache_ok(1) [OF assms(1)] refl]
  note v = snapshot_ok(2) [of storage_view "block_cache db", unfolded block_cache_ok(2)]
  obtain c where c: "run_ops Storages_clone opers (dc_CreateSnapshot (block_cache db)) =
      (map result_of (fst (map_ops opers (storage_map db))), c)" "cache_inv storage_good storage_view storage_view si_ok c"
      "dc_view storage_view c = snd (map_ops opers (storage_map db))"
    using run_ops_ok [OF storages_clone.cache_source_axioms outer, of opers] assms(2) v by auto
  obtain inner where inner: "dc_Commit Storages_clone c = (Val (), c\<lparr>backing := inner\<rparr>)" "storage_good inner"
      "storage_view inner = snd (map_ops opers (storage_map db))"
    using storages_clone.dc_Commit_ok [OF commit_inv_cache_inv [OF c(2)]] c(3) by auto
  obtain s where s: "dc_Commit Storages inner = (Val (), inner\<lparr>backing := s\<rparr>)"
      "ldb_pend ST_Storage si_Deserialize s = snd (map_ops opers (storage_map db))"
    using storages.dc_Commit_ok [OF commit_inv_cache_inv [OF inner(2) [unfolded storage_good_def]]] inner(3)
    by (auto simp: storage_view_def)
  have "batch_write s = (Val (), s\<lparr>ldb := fold apply_write (ldb_batch s) (ldb s)\<rparr>)"
    by (simp add: batch_write_def modify_def)
  moreover have "storage_map (s\<lparr>ldb := fold apply_write (ldb_batch s) (ldb s)\<rparr>) = snd (map_ops opers (storage_map db))"
    using s(2) by (simp add: storage_map_def ldb_rd_def ldb_pend_def)
  ultimately show ?thesis using c(1) inner(1) s(1) by auto
qed

section \<open>What the caches do not do\<close>

text \<open>\<open>Add\<close> of a key that is below but not tracked replaces it: only tracked keys are refused.\<close>

lemma Add_overwrites:
  "map_of (dictionary c) k = None \<Longrightarrow>
    dc_Add k v c = (Val (), c\<lparr>dictionary := AList.update k \<lparr>tr_Item = v, tr_State = TS_ADDED\<rparr> (dictionary c)\<rparr>)"
  by (simp add: dc_runs run_track)

lemma Add_refused:
  "map_of (dictionary c) k = Some tr \<Longrightarrow> tr_State tr \<noteq> TS_DELETED \<Longrightarrow> dc_Add k v c = (Exc ValueError, c)"
  by (simp add: dc_runs throw_def)

text \<open>A cache keeps its items when it commits; committed again, an added item is refused by the cache below.\<close>

lemma commit_twice:
  assumes "c = \<lparr>dictionary = [(k, \<lparr>tr_Item = v, tr_State = TS_ADDED\<rparr>)], backing = \<lparr>dictionary = d, backing = s\<rparr>\<rparr>" "map_of d k = None"
  shows "fst (dc_Commit (CloneCache I clone fr) c) = Val ()"
    "fst (sq (dc_Commit (CloneCache I clone fr)) (dc_Commit (CloneCache I clone fr)) c) = Exc ValueError"
  using assms
  by (simp_all add: dc_Commit_def gets_def bnd_def sq_def commit_item_def CloneCache_def on_backing_def dc_runs run_track
      throw_def ret_def AList.update_conv')

text \<open>An added item that \<open>DeleteWhere\<close> removed and that is added again is committed as a change; below there is nothing to change.\<close>

lemma DeleteWhere_readd:
  assumes "c = \<lparr>dictionary = [], backing = \<lparr>dictionary = d, backing = s\<rparr>\<rparr>" "map_of d k = None" "P k v"
    "TryGetInternal I k s = (Val None, s')"
  shows "fst (sq (dc_Add k v) (sq (dc_DeleteWhere P) (sq (dc_Add k v) (dc_Commit (CloneCache I clone fr)))) c) = Exc KeyError"
  using assms
  by (simp add: dc_Commit_def dc_DeleteWhere_def modify_def gets_def bnd_def sq_def commit_item_def CloneCache_def
      on_backing_def dc_runs run_track throw_def)

text \<open>An item's copy is never constant.\<close>

lemma clone_loses_constant: "\<not> si_IsConstant (si_Clone i)"
  by (simp add: si_Clone_def StorageItem_def)

text \<open>
  A search finds a tracked item whose key has the prefix anywhere; one that is not tracked only if its key
  starts with it.
\<close>

lemma py_in_append: "py_in p (xs @ p @ ys)"
  by (auto simp: py_in_def list_ex_iff intro!: bexI [of _ "length xs"])

lemma Find_anywhere:
  assumes "dictionary c = [(xs @ p @ ys, \<lparr>tr_Item = v, tr_State = TS_CHANGED\<rparr>)]" "FindInternal I p (backing c) = (Val [], s)"
  shows "dc_Find I (Some p) c = (Val [(xs @ p @ ys, v)], c\<lparr>backing := s\<rparr>)"
  using assms py_in_append [of p xs ys] by (simp add: dc_Find_def on_backing_def bnd_def gets_def ret_def)

section \<open>The contracts\<close>

interpretation contracts: store Contracts "ldb_valid ST_Contract co_enc co_ok" "ldb_rd ST_Contract co_Deserialize"
    "ldb_pend ST_Contract co_Deserialize" co_ok
  unfolding Contracts_def by (rule contract.leveldb_store)

text \<open>A cache may also keep a contract that was made in this snapshot; its code has properties.\<close>

definition contract_kept :: "contract_state \<Rightarrow> bool" where
  "contract_kept c = co_ok (stored_contract c)"

lemma contract_keptI: "co_ok c \<Longrightarrow> contract_kept c"
  by (simp add: contract_kept_def co_ok_stored)

interpretation contract_cache: cache_source Contracts "ldb_valid ST_Contract co_enc co_ok" "ldb_rd ST_Contract co_Deserialize"
    "ldb_pend ST_Contract co_Deserialize" contract_kept
  by unfold_locales (use contracts.rd_ok contract_keptI contracts.try_get_law contracts.get_law in blast)+

definition contracts_good :: "(leveldb, bytes, contract_state) data_cache \<Rightarrow> bool" where
  "contracts_good = cache_inv (ldb_valid ST_Contract co_enc co_ok) (ldb_rd ST_Contract co_Deserialize)
     (ldb_pend ST_Contract co_Deserialize) contract_kept"

definition contract_map :: "leveldb \<Rightarrow> bytes \<Rightarrow> contract_state option" where
  "contract_map = ldb_rd ST_Contract co_Deserialize"

definition contract_view :: "(leveldb, bytes, contract_state) data_cache \<Rightarrow> bytes \<Rightarrow> contract_state option" where
  "contract_view = dc_view contract_map"

lemma table_GetScript_ok:
  assumes "contracts_good c"
  shows "\<exists>c'. table_GetScript Contracts script_hash c =
    (Val (map_option (\<lambda>contract. fc_Script (co_Code contract)) (contract_view c script_hash)), c') \<and> contracts_good c'"
  using contract_cache.dc_TryGet_ok [OF assms [unfolded contracts_good_def], of script_hash]
  by (auto simp: table_GetScript_def bnd_def ret_def contract_view_def contract_map_def contracts_good_def split: option.splits)

text \<open> A contract of the database that was destroyed in this snapshot has no script for the table of scripts, while
  \<open>Snapshot.GetScript\<close>, which means to answer None for it, raises \<open>KeyError\<close>: it catches \<open>ValueError\<close> only. \<close>

theorem destroyed_script:
  assumes "contracts_good c" "contract_map (backing c) script_hash \<noteq> None"
  shows "\<exists>c'. dc_Delete Contracts script_hash c = (Val (), c') \<and> table_GetScript Contracts script_hash c' = (Val None, c') \<and>
    snapshot_GetScript Contracts script_hash c' = (Exc KeyError, c')"
proof -
  note good = assms(1) [unfolded contracts_good_def]
  obtain c' where c': "dc_Delete Contracts script_hash c = (Val (), c')" "contracts_good c'" "contract_view c' script_hash = None"
      "contract_map (backing c') = contract_map (backing c)"
    using contract_cache.dc_Delete_ok [OF good, of script_hash] by (auto simp: contracts_good_def contract_map_def contract_view_def)
  then obtain tr where "map_of (dictionary c') script_hash = Some tr" "tr_State tr = TS_DELETED"
    using assms(2) by (auto simp: contract_view_def dc_view_def split: option.splits if_splits)
  then have "table_GetScript Contracts script_hash c' = (Val None, c')" "snapshot_GetScript Contracts script_hash c' = (Exc KeyError, c')"
    by (simp_all add: table_GetScript_def snapshot_GetScript_def dc_runs try_except_def bnd_def ret_def throw_def)
  with c'(1) show ?thesis by blast
qed

section \<open>A sample database\<close>

definition sample_leveldb :: leveldb where
  "sample_leveldb =
     \<lparr>ldb = [([0x50, 9], hexlify (co_enc sample_contract)), ([0x70, 1], hexlify (si_enc (StorageItem (Some [7]))))],
      ldb_batch = [], ldb_streams = sample_pool\<rparr>"

definition sample_ops :: "(bytes, storage_item) cache_op list" where
  "sample_ops =
     [C_TryGet [1], C_Change [1] None (\<lambda>i. i), C_Add [2] (StorageItem (Some [8])), C_Delete [1],
      C_Change [3] None (\<lambda>i. i), C_GetOrAdd [1] (StorageItem None)]"

lemma sample_item_ok: "int (length v) < 100 \<Longrightarrow> si_ok (StorageItem (Some v))" "si_ok (StorageItem None)"
  by (simp_all add: si_ok_def StorageItem_def maxsize_def)

lemma sample_pool_wf: "pool_wf sample_pool"
  by (simp add: pool_wf_def sample_pool_def)

lemma sample_contract_ok: "co_ok sample_contract"
  by (simp add: sample_contract_def co_ok_def fc_ok_def maxsize_def)

lemma sample_storage_map: "storage_map sample_leveldb = [[1] \<mapsto> StorageItem (Some [7])]"
  using storage_item.decode_enc [OF sample_item_ok(1) [of "[7]"]]
  by (auto simp: storage_map_def ldb_rd_def ldb_lookup_def sample_leveldb_def ST_Storage_def fun_eq_iff)

lemma sample_storage_ok: "storage_db_ok sample_leveldb"
  using sample_item_ok(1) [of "[7]"] sample_pool_wf
  by (auto simp: storage_db_ok_def ldb_valid_def sample_leveldb_def ST_Storage_def intro!: exI [of _ "StorageItem (Some [7])"] split: if_splits)

lemma sample_ops_ok: "ops_ok si_ok sample_ops [[1] \<mapsto> StorageItem (Some [7])]"
  using sample_item_ok(1) [of "[8]"] sample_item_ok(2) by (simp add: sample_ops_def)

lemma sample_contracts:
  "contracts_good (dc_CreateSnapshot sample_leveldb)" "contract_map sample_leveldb [9] = Some sample_contract"
proof -
  have "ldb_valid ST_Contract co_enc co_ok sample_leveldb"
    using sample_contract_ok sample_pool_wf
    by (auto simp: ldb_valid_def sample_leveldb_def ST_Contract_def intro!: exI [of _ sample_contract] split: if_splits)
  then show "contracts_good (dc_CreateSnapshot sample_leveldb)"
    unfolding contracts_good_def by (rule snapshot_ok) (simp add: ldb_pend_def ldb_rd_def sample_leveldb_def)
  show "contract_map sample_leveldb [9] = Some sample_contract"
    using contract.decode_enc [OF sample_contract_ok]
    by (simp add: contract_map_def ldb_rd_def ldb_lookup_def sample_leveldb_def ST_Contract_def)
qed

lemma destroyed_script_witness:
  "\<exists>c'. dc_Delete Contracts [9] (dc_CreateSnapshot sample_leveldb) = (Val (), c') \<and>
    table_GetScript Contracts [9] c' = (Val None, c') \<and> snapshot_GetScript Contracts [9] c' = (Exc KeyError, c')"
  by (rule destroyed_script) (simp_all add: sample_contracts, simp add: dc_CreateSnapshot_def sample_contracts(2))

end
