(* ===== verification/Object_Properties.thy ===== *)
theory Object_Properties
  imports Shared_Objects Cache_Properties
begin

text \<open>
  The storage of contracts on objects: the cache over the database, and the clone of it that an execution works
  on. Whatever the execution does, with the clone and with the objects it was handed, the cache below is as it
  was, for who reads it and for its commit.
\<close>

definition Storage_Objects :: "((leveldb, storage_item) heaped, bytes, nat) internals" where
  "Storage_Objects = ObjectCache Storages"

definition Storage_Clones :: "(((leveldb, storage_item) heaped, bytes, nat) data_cache, bytes, nat) internals" where
  "Storage_Clones = CloneObjects hp_objects hp_with Storage_Objects (\<lambda>i. Inr (si_Clone i)) (\<lambda>i replica. Inr (si_FromReplica i replica))"

text \<open>The cache of values that a cache of objects stands for, and that no two places have the same object.\<close>

definition storage_values :: "((leveldb, storage_item) heaped, bytes, nat) data_cache \<Rightarrow> (leveldb, bytes, storage_item) data_cache" where
  "storage_values = c_img hp_objects hp_base"

definition storage_apart :: "nat set \<Rightarrow> ((leveldb, storage_item) heaped, bytes, nat) data_cache \<Rightarrow> bool" where
  "storage_apart = apart (c_heap hp_objects) (c_owned (\<lambda>s. {})) (c_sound (\<lambda>s. {}) (\<lambda>s. True))"

interpretation storage_clones: object_layer "c_heap hp_objects" "c_with hp_with" "c_owned (\<lambda>s. {})"
    "c_sound (\<lambda>s. {}) (\<lambda>s. True)" "c_img hp_objects hp_base" Storage_Clones Storages_clone
  unfolding Storage_Clones_def Storages_clone_def Storage_Objects_def by (rule objects.clone_layer)

section \<open>What reading changes\<close>

lemma changes_track:
  "map_of (dictionary c) k = None \<Longrightarrow>
     dc_GetChangeSet (c\<lparr>dictionary := AList.update k \<lparr>tr_Item = v, tr_State = TS_NONE\<rparr> (dictionary c)\<rparr>) = dc_GetChangeSet c"
proof -
  have "map_of d k = None \<Longrightarrow> filter (\<lambda>e. tr_State (snd e) \<noteq> TS_NONE) (AList.update k \<lparr>tr_Item = v, tr_State = TS_NONE\<rparr> d) =
      filter (\<lambda>e. tr_State (snd e) \<noteq> TS_NONE) d" for d :: "('b \<times> 'a trackable) list"
    by (induction d) (auto split: if_splits)
  then show "map_of (dictionary c) k = None \<Longrightarrow>
     dc_GetChangeSet (c\<lparr>dictionary := AList.update k \<lparr>tr_Item = v, tr_State = TS_NONE\<rparr> (dictionary c)\<rparr>) = dc_GetChangeSet c"
    by (simp add: dc_GetChangeSet_def)
qed

lemma changes_below: "on_backing p c = (r, c') \<Longrightarrow> dc_GetChangeSet c' = dc_GetChangeSet c \<and> dictionary c' = dictionary c"
  by (auto simp: on_backing_def dc_GetChangeSet_def split: prod.splits)

lemma changes_TryGet: "dc_GetChangeSet (snd (dc_TryGet I k c)) = dc_GetChangeSet c"
proof (cases "map_of (dictionary c) k")
  case None
  obtain r c' where b: "on_backing (TryGetInternal I k) c = (r, c')" by (cases "on_backing (TryGetInternal I k) c")
  show ?thesis
    using None changes_below [OF b] changes_track [of c' k]
    by (auto simp: dc_TryGet_def tracked_def gets_def bnd_def b ret_def sq_def track_def modify_def split: res.splits option.splits)
qed (simp add: dc_TryGet_def tracked_def gets_def bnd_def ret_def)

lemma changes_getitem: "dc_GetChangeSet (snd (dc_getitem I k c)) = dc_GetChangeSet c"
proof (cases "map_of (dictionary c) k")
  case None
  obtain r c' where b: "on_backing (GetInternal I k) c = (r, c')" by (cases "on_backing (GetInternal I k) c")
  show ?thesis
    using None changes_below [OF b] changes_track [of c' k]
    by (auto simp: dc_getitem_def tracked_def gets_def bnd_def b ret_def sq_def track_def modify_def split: res.splits)
qed (simp add: dc_getitem_def tracked_def gets_def bnd_def ret_def throw_def)

lemma changes_Find: "dc_GetChangeSet (snd (dc_Find I p c)) = dc_GetChangeSet c"
proof -
  obtain r c' where b: "on_backing (FindInternal I (case_option [] id p)) c = (r, c')"
    by (cases "on_backing (FindInternal I (case_option [] id p)) c")
  show ?thesis
    using changes_below [OF b] by (simp add: dc_Find_def Let_def bnd_def b gets_def ret_def split: res.splits)
qed

lemma snd_lft: "snd (bnd p (\<lambda>x. lft (f x)) c) = snd (p c)"
  by (auto simp: bnd_def lft_def ret_def throw_def split: prod.splits res.splits sum.splits)

context codec
begin

text \<open>Any search: also one whose prefix is hexadecimal text.\<close>

lemma ldb_Find_keeps:
  assumes valid: "ldb_valid prefix enc ok s" and one: "length prefix = 1"
  shows "\<exists>found t. ldb_FindInternal prefix deser p s = (Val found, s\<lparr>ldb_streams := t\<rparr>) \<and> pool_wf t"
proof -
  define q where "q = (case unhexlify p of Some b \<Rightarrow> b | None \<Rightarrow> p)"
  let ?es = "filter (\<lambda>e. take (length (prefix @ q)) (fst e) = prefix @ q) (ldb s)"
  have "\<exists>v. ok v \<and> snd e = hexlify (enc v)" if e: "e \<in> set ?es" for e
  proof -
    have "take 1 (fst e) = take 1 (take (length (prefix @ q)) (fst e))" using one by (simp add: min_def)
    also have "\<dots> = prefix" using e one by (simp del: take_take)
    finally have "fst e = prefix @ drop 1 (fst e)" using append_take_drop_id [of 1 "fst e"] by simp
    moreover have "map_of (ldb s) (fst e) = Some (snd e)"
      using e valid by (intro map_of_is_SomeI) (auto simp: ldb_valid_def)
    ultimately have "map_of (ldb s) (prefix @ drop 1 (fst e)) = Some (snd e)" by simp
    then show ?thesis by (rule ldb_validD [OF valid])
  qed
  then obtain found t where "ldb_load deser ?es s = (Val found, s\<lparr>ldb_streams := t\<rparr>)" "pool_wf t"
    using ldb_load_ok [OF valid, of ?es] by blast
  then show ?thesis unfolding ldb_FindInternal_def q_def Let_def bnd_def gets_def by auto
qed

end

lemma storage_Find_keeps:
  assumes "storage_good c"
  shows "storage_good (snd (dc_Find Storages p c))" "storage_view (snd (dc_Find Storages p c)) = storage_view c"
proof -
  let ?p = "case_option [] id p"
  have "ldb_valid ST_Storage si_enc si_ok (backing c)" using assms by (simp add: storage_good_def cache_inv_def)
  from storage_item.ldb_Find_keeps [OF this, of ?p]
  obtain found t where t: "FindInternal Storages ?p (backing c) = (Val found, (backing c)\<lparr>ldb_streams := t\<rparr>)" "pool_wf t"
    by (auto simp: Storages_def LevelDBCache_def ST_Storage_def)
  have "snd (dc_Find Storages p c) = c\<lparr>backing := (backing c)\<lparr>ldb_streams := t\<rparr>\<rparr>"
    by (simp add: dc_Find_def Let_def bnd_def on_backing_def t(1) gets_def ret_def)
  moreover have "ldb_valid ST_Storage si_enc si_ok ((backing c)\<lparr>ldb_streams := t\<rparr>)"
    using assms t(2) by (simp add: storage_good_def cache_inv_def ldb_valid_def)
  ultimately show "storage_good (snd (dc_Find Storages p c))" "storage_view (snd (dc_Find Storages p c)) = storage_view c"
    using storages.good_backing [OF assms [unfolded storage_good_def], of "(backing c)\<lparr>ldb_streams := t\<rparr>"]
    by (simp_all add: storage_good_def storage_view_def ldb_rd_def ldb_pend_def)
qed

text \<open>What the cache below shows and has to commit.\<close>

definition storage_shows ::
  "(bytes \<Rightarrow> storage_item option) \<Rightarrow> (bytes \<times> storage_item trackable) list \<Rightarrow> (leveldb, bytes, storage_item) data_cache \<Rightarrow> bool" where
  "storage_shows shown changes c \<longleftrightarrow> storage_good c \<and> storage_view c = shown \<and> dc_GetChangeSet c = changes"

interpretation storage_guard: guarded_layer "c_heap hp_objects" "c_with hp_with" "c_owned (\<lambda>s. {})"
    "c_sound (\<lambda>s. {}) (\<lambda>s. True)" "c_img hp_objects hp_base" Storage_Clones Storages_clone "storage_shows shown changes"
  for shown changes
proof unfold_locales
  fix t k
  assume t: "storage_shows shown changes t"
  then have good: "storage_good t" by (simp add: storage_shows_def)
  have "snd (GetInternal Storages_clone k t) = snd (dc_getitem Storages k t)"
    by (simp add: Storages_clone_def CloneCache_def snd_lft)
  moreover obtain r u where u: "GetInternal Storages_clone k t = (r, u)" "storage_good u" "storage_view u = storage_view t"
    using storages_clone.get_law [OF good, of k] by blast
  ultimately show "storage_shows shown changes (snd (GetInternal Storages_clone k t))"
    using t changes_getitem [of Storages k t] by (simp add: storage_shows_def)
  have "snd (TryGetInternal Storages_clone k t) = snd (dc_TryGet Storages k t)"
    by (auto simp: Storages_clone_def CloneCache_def bnd_def ret_def lft_def split: prod.splits res.splits option.splits)
  moreover obtain v where v: "TryGetInternal Storages_clone k t = (Val (storage_view t k), v)" "storage_good v" "storage_view v = storage_view t"
    using storages_clone.try_get_law [OF good, of k] by blast
  ultimately show "storage_shows shown changes (snd (TryGetInternal Storages_clone k t))"
    using t changes_TryGet [of Storages k t] by (simp add: storage_shows_def)
  have "snd (FindInternal Storages_clone k t) = snd (dc_Find Storages (Some k) t)"
    by (simp add: Storages_clone_def CloneCache_def snd_lft)
  then show "storage_shows shown changes (snd (FindInternal Storages_clone k t))"
    using t storage_Find_keeps [OF good, of "Some k"] changes_Find [of Storages "Some k" t] by (simp add: storage_shows_def)
qed

text \<open> C26. An execution on a clone of the cache of stored items may call the clone in any way, make items and assign
  to any item it was handed or made: until it commits, the cache below shows what it showed, and has the same changes to
  commit. So no object of the cache below is ever handed out. \<close>

theorem storage_clone_isolated:
  assumes "storage_good (storage_values inner)" "storage_apart (set held) inner"
  shows "\<exists>held' c. client_run (c_heap hp_objects) (c_with hp_with) Storage_Clones steps (held, dc_CreateSnapshot inner) = (held', c) \<and>
    storage_view (storage_values (backing c)) = storage_view (storage_values inner) \<and>
    dc_GetChangeSet (storage_values (backing c)) = dc_GetChangeSet (storage_values inner)"
proof -
  let ?shows = "storage_shows (storage_view (storage_values inner)) (dc_GetChangeSet (storage_values inner))"
  have "storage_guard.kept (storage_view (storage_values inner)) (dc_GetChangeSet (storage_values inner)) (set held) (dc_CreateSnapshot inner)"
    using assms by (simp add: client_apart_def storage_apart_def dc_CreateSnapshot_def refs_of_def storage_shows_def storage_values_def)
  from storage_guard.client_run_kept [of _ _ "(held, dc_CreateSnapshot inner)" steps, simplified, OF this]
  show ?thesis
    by (cases "client_run (c_heap hp_objects) (c_with hp_with) Storage_Clones steps (held, dc_CreateSnapshot inner)")
      (simp add: client_apart_def storage_shows_def storage_values_def)
qed

section \<open>Operations and commits\<close>

text \<open>A client's operations on objects, one after the other.\<close>

primrec obj_ops ::
  "('s \<Rightarrow> 'v objects) \<Rightarrow> ('v objects \<Rightarrow> 's \<Rightarrow> 's) \<Rightarrow> ('s, bytes, nat) internals \<Rightarrow> (bytes, 'v) cache_op list \<Rightarrow>
   ('s, bytes, nat) data_cache \<Rightarrow> 'v option res list \<times> ('s, bytes, nat) data_cache" where
  "obj_ops heap with_heap I [] c = ([], c)"
| "obj_ops heap with_heap I (oper # opers) c =
     (case obj_op heap with_heap I oper c of (r, c') \<Rightarrow>
       (case obj_ops heap with_heap I opers c' of (rs, c'') \<Rightarrow> (r # rs, c'')))"

context object_layer
begin

lemma obj_ops_run:
  assumes "c_apart {} c" "obj_ops heap with_heap I opers c = (rs, c')"
  shows "run_ops J opers (c_img heap img c) = (rs, c_img heap img c') \<and> c_apart {} c'"
  using assms
proof (induction opers arbitrary: c rs)
  case Nil
  then show ?case by simp
next
  case (Cons oper opers)
  obtain r d where d: "obj_op heap with_heap I oper c = (r, d)" by (cases "obj_op heap with_heap I oper c")
  obtain qs where e: "obj_ops heap with_heap I opers d = (qs, c')" "rs = r # qs"
    using Cons.prems(2) d by (auto split: prod.splits)
  have "c_agree (\<lambda>v. {}) (\<lambda>ot v. v) {} (obj_at (c_heap heap c)) (r, d) (run_op J oper (c_img heap img c))"
    using obj_op_sim [of oper, unfolded sim_def, rule_format, OF Cons.prems(1)] d by simp
  then have "run_op J oper (c_img heap img c) = (r, c_img heap img d)" "c_apart {} d"
    by (simp_all add: agree_def res.map_ident res_refs_none)
  then show ?case using Cons.IH [OF _ e(1)] d e by simp
qed

end

text \<open>The two caches over a database, with nothing in them yet; the heap may hold any other objects.\<close>

definition block_objects :: "storage_item objects \<Rightarrow> leveldb \<Rightarrow> ((leveldb, storage_item) heaped, bytes, nat) data_cache" where
  "block_objects h db = dc_CreateSnapshot \<lparr>hp_objects = h, hp_base = db\<rparr>"

interpretation storage_clone_writer: object_writer "c_heap hp_objects" "c_with hp_with" "c_owned (\<lambda>s. {})"
    "c_sound (\<lambda>s. {}) (\<lambda>s. True)" "c_img hp_objects hp_base" Storage_Clones Storages_clone
  unfolding Storage_Clones_def Storages_clone_def Storage_Objects_def by (rule objects.clone_writer)

interpretation storage_writer: object_writer hp_objects hp_with "\<lambda>s. {}" "\<lambda>s. True" hp_base Storage_Objects Storages
  unfolding Storage_Objects_def by unfold_locales

text \<open> C25. A block's execution on its own clone of the cache of stored items, over the cache of the snapshot, over
  the database, with items as objects: sequences of operations that add items only under keys that are absent return
  what the same operations on a map return, the two commits and the write of the batch succeed, and the database then
  holds just the map that the operations compute. \<close>

theorem storage_commit_refines:
  assumes "storage_db_ok db" "ops_ok si_ok opers (storage_map db)"
  shows "\<exists>c c' inner db'.
    obj_ops (c_heap hp_objects) (c_with hp_with) Storage_Clones opers (dc_CreateSnapshot (block_objects h db)) =
      (map result_of (fst (map_ops opers (storage_map db))), c) \<and>
    dc_Commit Storage_Clones c = (Val (), c') \<and> dc_Commit Storage_Objects (backing c') = (Val (), inner) \<and>
    batch_write (hp_base (backing inner)) = (Val (), db') \<and> storage_map db' = snd (map_ops opers (storage_map db))"
proof -
  obtain v v' vals db' where vals:
      "run_ops Storages_clone opers (dc_CreateSnapshot (block_cache db)) = (map result_of (fst (map_ops opers (storage_map db))), v)"
      "dc_Commit Storages_clone v = (Val (), v')" "dc_Commit Storages (backing v') = (Val (), vals)"
      "batch_write (backing vals) = (Val (), db')" "storage_map db' = snd (map_ops opers (storage_map db))"
    using storage_values_refine [OF assms] by blast
  let ?start = "dc_CreateSnapshot (block_objects h db)"
  have start: "storage_clones.c_apart {} ?start" "c_img (c_heap hp_objects) (c_img hp_objects hp_base) ?start = dc_CreateSnapshot (block_cache db)"
    by (simp_all add: apart_def c_owned_def c_sound_def refs_of_def c_img_def block_objects_def block_cache_def dc_CreateSnapshot_def)
  obtain rs c where c: "obj_ops (c_heap hp_objects) (c_with hp_with) Storage_Clones opers ?start = (rs, c)"
    by (cases "obj_ops (c_heap hp_objects) (c_with hp_with) Storage_Clones opers ?start")
  from storage_clones.obj_ops_run [OF start(1) c] vals(1)
  have v: "rs = map result_of (fst (map_ops opers (storage_map db)))" "v = c_img (c_heap hp_objects) (c_img hp_objects hp_base) c"
      "storage_clones.c_apart {} c"
    unfolding start(2) by simp_all
  obtain r c' where c': "dc_Commit Storage_Clones c = (r, c')" by (cases "dc_Commit Storage_Clones c")
  from storage_clone_writer.dc_Commit_agree [OF v(3) c'] vals(2)
  have v': "r = Val ()" "backing v' = c_img hp_objects hp_base (backing c')"
      "apart (c_heap hp_objects) (c_owned (\<lambda>s. {})) (c_sound (\<lambda>s. {}) (\<lambda>s. True)) {} (backing c')"
    unfolding v(2) by auto
  obtain q inner where inner: "dc_Commit Storage_Objects (backing c') = (q, inner)" by (cases "dc_Commit Storage_Objects (backing c')")
  from storage_writer.dc_Commit_agree(1) [OF v'(3) inner] vals(3)
  have "q = Val ()" "backing vals = hp_base (backing inner)" unfolding v'(2) by auto
  then show ?thesis using c v(1) c' v'(1) inner vals(4,5) by auto
qed

section \<open>Witnesses\<close>

lemma storage_commit_refines_witness:
  "\<exists>c c' inner db'.
    obj_ops (c_heap hp_objects) (c_with hp_with) Storage_Clones sample_ops
        (dc_CreateSnapshot (block_objects \<lparr>obj_at = (\<lambda>r. StorageItem None), obj_next = 0\<rparr> sample_leveldb)) =
      ([Val (Some (StorageItem (Some [7]))), Val (Some (StorageItem (Some [7]))), Val None, Val None, Exc KeyError,
        Val (Some (StorageItem None))], c) \<and>
    dc_Commit Storage_Clones c = (Val (), c') \<and> dc_Commit Storage_Objects (backing c') = (Val (), inner) \<and>
    batch_write (hp_base (backing inner)) = (Val (), db') \<and>
    storage_map db' = [[1] \<mapsto> StorageItem None, [2] \<mapsto> StorageItem (Some [8])]"
proof -
  have "map_ops sample_ops [[1] \<mapsto> StorageItem (Some [7])] =
     ([Inr (Some (StorageItem (Some [7]))), Inr (Some (StorageItem (Some [7]))), Inr None, Inr None, Inl KeyError,
       Inr (Some (StorageItem None))], [[1] \<mapsto> StorageItem None, [2] \<mapsto> StorageItem (Some [8])])"
    by (auto simp: sample_ops_def fun_eq_iff)
  then show ?thesis
    using storage_commit_refines [OF sample_storage_ok, of sample_ops "\<lparr>obj_at = (\<lambda>r. StorageItem None), obj_next = 0\<rparr>"] sample_ops_ok
    by (simp add: sample_storage_map)
qed

text \<open>A client that reads an item, assigns to it, adds an item of its own under a new key and deletes the first one.\<close>

lemma storage_clone_isolated_witness:
  "\<exists>held' c. client_run (c_heap hp_objects) (c_with hp_with) Storage_Clones
      [O_TryGet [1], O_Assign 0 (StorageItem None), O_New (StorageItem (Some [8])), O_Add [2] 0, O_Assign 0 (StorageItem (Some [9])),
       O_Delete [1]]
      ([], dc_CreateSnapshot (block_objects \<lparr>obj_at = (\<lambda>r. StorageItem None), obj_next = 0\<rparr> sample_leveldb)) = (held', c) \<and>
    storage_view (storage_values (backing c)) = [[1] \<mapsto> StorageItem (Some [7])] \<and>
    dc_GetChangeSet (storage_values (backing c)) = []"
proof -
  let ?inner = "block_objects \<lparr>obj_at = (\<lambda>r. StorageItem None), obj_next = 0\<rparr> sample_leveldb"
  have inner: "storage_values ?inner = block_cache sample_leveldb"
    by (simp add: storage_values_def c_img_def block_objects_def block_cache_def dc_CreateSnapshot_def)
  have "storage_apart (set []) ?inner"
    by (simp add: storage_apart_def apart_def c_owned_def c_sound_def refs_of_def block_objects_def dc_CreateSnapshot_def)
  from storage_clone_isolated [OF _ this, unfolded inner, OF block_cache_ok(1) [OF sample_storage_ok]]
  show ?thesis
    by (simp add: block_cache_ok(2) sample_storage_map) (simp add: block_cache_def dc_CreateSnapshot_def dc_GetChangeSet_def)
qed

end
