(* ===== verification/Script_Builder.thy ===== *)
theory Script_Builder
  imports Codec Elliptic_Curve Op_Code BigInteger
begin

text \<open>
  \<open>neo/VM/ScriptBuilder.py\<close>: the builder is its stream, every method writes at its end. The scripts
  of \<open>neo/SmartContract/Contract.py\<close> are built with it. An argument of \<open>push\<close> is a value of the
  Python types \<open>push\<close> tells apart.
\<close>

section \<open>ScriptBuilder\<close>

datatype push_value =
    P_None | P_Bool bool | P_Int int | P_BigInteger int | P_ByteArray bytes | P_Bytes bytes | P_Str pystr

definition sb_write :: "bytes \<Rightarrow> (stream, unit) m" where
  "sb_write bs = sq (stream_write bs) (ret ())"

text \<open>\<open>WriteBytes\<close> writes what its bytes denote if they are hexadecimal text.\<close>

definition sb_WriteBytes :: "bytes \<Rightarrow> (stream, unit) m" where
  "sb_WriteBytes value = sb_write (case unhexlify value of Some bs \<Rightarrow> bs | None \<Rightarrow> value)"

definition sb_pack :: "pyexc + bytes \<Rightarrow> (stream, unit) m" where
  "sb_pack packed = bnd (lft packed) sb_WriteBytes"

definition sb_WriteUInt16 :: "int \<Rightarrow> endian \<Rightarrow> (stream, unit) m" where
  "sb_WriteUInt16 value e = sb_pack (pack_int 2 False e value)"

definition sb_WriteUInt32 :: "int \<Rightarrow> endian \<Rightarrow> (stream, unit) m" where
  "sb_WriteUInt32 value e = sb_pack (pack_int 4 False e value)"

definition sb_WriteUInt64 :: "int \<Rightarrow> endian \<Rightarrow> (stream, unit) m" where
  "sb_WriteUInt64 value e = sb_pack (pack_int 8 False e value)"

text \<open>\<open>bytes([op])\<close> of a number.\<close>

definition sb_WriteByte :: "int \<Rightarrow> (stream, unit) m" where
  "sb_WriteByte value = (if 0 \<le> value \<and> value < 256 then sb_write [word_of_int value] else throw ValueError)"

definition sb_WriteVarInt :: "int \<Rightarrow> endian \<Rightarrow> (stream, unit) m" where
  "sb_WriteVarInt value e =
     (if value < 0 then throw PlainException
      else if value < 0xfd then sb_WriteByte value
      else if value \<le> 0xffff then sq (sb_WriteByte 0xfd) (sb_WriteUInt16 value e)
      else if value \<le> 0xFFFFFFFF then sq (sb_WriteByte 0xfe) (sb_WriteUInt32 value e)
      else sq (sb_WriteByte 0xff) (sb_WriteUInt64 value e))"

definition sb_WriteVarBytes :: "bytes \<Rightarrow> endian \<Rightarrow> (stream, unit) m" where
  "sb_WriteVarBytes value e = sq (sb_WriteVarInt (int (length value)) e) (sb_WriteBytes value)"

definition sb_add_int :: "int \<Rightarrow> (stream, unit) m" where
  "sb_add_int op = (if 0 \<le> op \<and> op < 256 then sb_write [word_of_int op] else throw ValueError)"

definition sb_add :: "byte \<Rightarrow> (stream, unit) m" where
  "sb_add op = sb_write [op]"

definition sb_WriteBool :: "bool \<Rightarrow> (stream, unit) m" where
  "sb_WriteBool value = (if value then sb_add OP_PUSH1 else sb_add OP_PUSH0)"

text \<open>The length as the machine's opcodes have it, then the buffer; from \<open>2 ^ 32\<close> bytes on nothing is written.\<close>

definition push_header :: "int \<Rightarrow> (stream, unit) m" where
  "push_header n =
     (if n \<le> 75 then sb_add_int n
      else if n < 0x100 then sq (sb_add OP_PUSHDATA1) (sb_add_int n)
      else if n < 0x10000 then
        sq (sb_add OP_PUSHDATA2) (sq (sb_add_int (n mod 256)) (sb_add_int (n div 2 ^ 8)))
      else
        sq (sb_add OP_PUSHDATA4) (sq (sb_add_int (n mod 256)) (sq (sb_add_int (n div 2 ^ 8 mod 256))
          (sq (sb_add_int (n div 2 ^ 16 mod 256)) (sb_add_int (n div 2 ^ 24))))))"

definition push_buf :: "bytes \<Rightarrow> (stream, unit) m" where
  "push_buf buf =
     (if int (length buf) < 0x100000000 then sq (push_header (int (length buf))) (sb_write buf) else ret ())"

text \<open>A text that is not hexadecimal cannot be written to the stream, but its length is.\<close>

definition push_text :: "pystr \<Rightarrow> (stream, unit) m" where
  "push_text s =
     bnd (lft (unhexlify_str s)) (\<lambda>r.
       case r of
         Some buf \<Rightarrow> push_buf buf
       | None \<Rightarrow> if int (length s) < 0x100000000 then sq (push_header (int (length s))) (throw TypeError) else ret ())"

text \<open>The small numbers are instructions; an \<open>int\<close> has no \<open>ToByteArray\<close>, a \<open>BigInteger\<close> has.\<close>

definition push_int :: "int \<Rightarrow> (stream, unit) m \<Rightarrow> (stream, unit) m" where
  "push_int data other =
     (if data = - 1 then sb_add OP_PUSHM1
      else if data = 0 then sb_add OP_PUSH0
      else if data > 0 \<and> data \<le> 16 then sb_add_int (0x51 - 1 + data)
      else other)"

definition sb_push :: "push_value \<Rightarrow> (stream, unit) m" where
  "sb_push data =
     (case data of
        P_None \<Rightarrow> ret ()
      | P_Bool b \<Rightarrow> sb_add_int (if b then 1 else 0)
      | P_Int i \<Rightarrow> push_int i (throw AttributeError)
      | P_BigInteger i \<Rightarrow> push_int i (bnd (lft (ToByteArray i)) (\<lambda>bs.
          push_buf (case unhexlify (hexlify bs) of Some b \<Rightarrow> b | None \<Rightarrow> hexlify bs)))
      | P_ByteArray bs \<Rightarrow> push_buf bs
      | P_Bytes bs \<Rightarrow> push_buf (case unhexlify bs of Some b \<Rightarrow> b | None \<Rightarrow> bs)
      | P_Str s \<Rightarrow> push_text s)"

definition sb_WriteVarData :: "bytes \<Rightarrow> (stream, unit) m" where
  "sb_WriteVarData data =
     (let n = int (length data)
      in sq (if n \<le> 75 then sb_WriteByte n
             else if n < 0x100 then sq (sb_add OP_PUSHDATA1) (sb_WriteByte n)
             else if n < 0x1000 then sq (sb_add OP_PUSHDATA2) (sb_WriteBytes (int_bytes 2 n))
             else if n < 0x10000 then sq (sb_add OP_PUSHDATA4) (sb_WriteBytes (int_bytes 4 n))
             else ret ()) (sb_WriteBytes data))"

definition sb_Emit :: "byte \<Rightarrow> bytes option \<Rightarrow> (stream, unit) m" where
  "sb_Emit op arg = sq (sb_add op) (case arg of None \<Rightarrow> ret () | Some a \<Rightarrow> sb_write a)"

text \<open>A number is no argument of the stream's \<open>write\<close>.\<close>

definition EmitPushBigInteger :: "int \<Rightarrow> (stream, unit) m" where
  "EmitPushBigInteger number =
     (if number = - 1 then sb_Emit OP_PUSHM1 None
      else if number = 0 then sb_Emit OP_PUSH0 None
      else throw TypeError)"

definition EmitAppCall :: "bytes \<Rightarrow> bool \<Rightarrow> (stream, unit) m" where
  "EmitAppCall scriptHash useTailCall =
     (if length scriptHash \<noteq> 20 then throw PlainException
      else if useTailCall then sb_Emit OP_TAILCALL (Some scriptHash)
      else sb_Emit OP_APPCALL (Some scriptHash))"

definition push_operation :: "pystr \<Rightarrow> (stream, unit) m" where
  "push_operation operation = bnd (lft (utf8_encode operation)) (\<lambda>bs. sb_push (P_Str (ascii_points (hexlify bs))))"

definition EmitAppCallWithOperationAndData :: "uint \<Rightarrow> pystr \<Rightarrow> push_value \<Rightarrow> (stream, unit) m" where
  "EmitAppCallWithOperationAndData script_hash operation data =
     sq (sb_push data) (sq (push_operation operation) (sb_Emit OP_APPCALL (Some (Data script_hash))))"

definition push_args :: "push_value list \<Rightarrow> (stream, unit) m" where
  "push_args args = sq (mapm sb_push (rev args)) (sq (sb_push (P_Int (int (length args)))) (sb_Emit OP_PACK None))"

definition EmitAppCallWithOperationAndArgs :: "uint \<Rightarrow> pystr \<Rightarrow> push_value list \<Rightarrow> (stream, unit) m" where
  "EmitAppCallWithOperationAndArgs script_hash operation args =
     sq (push_args args) (sq (push_operation operation) (sb_Emit OP_APPCALL (Some (Data script_hash))))"

definition EmitAppCallWithOperation :: "uint \<Rightarrow> pystr \<Rightarrow> (stream, unit) m" where
  "EmitAppCallWithOperation script_hash operation =
     sq (sb_push (P_Bool False)) (sq (push_operation operation) (sb_Emit OP_APPCALL (Some (Data script_hash))))"

text \<open>The arguments are what \<open>ToVM\<close> gives for a contract parameter, or for the elements of its list.\<close>

datatype json_arg = J_Item push_value | J_List "push_value list"

definition push_json_arg :: "json_arg \<Rightarrow> (stream, unit) m" where
  "push_json_arg a = (case a of J_Item v \<Rightarrow> sb_push v | J_List vs \<Rightarrow> push_args vs)"

definition EmitAppCallWithJsonArgs :: "uint \<Rightarrow> json_arg list \<Rightarrow> (stream, unit) m" where
  "EmitAppCallWithJsonArgs script_hash args =
     sq (mapm push_json_arg (rev args)) (sb_Emit OP_APPCALL (Some (Data script_hash)))"

definition EmitSysCall :: "pystr option \<Rightarrow> (stream, unit) m" where
  "EmitSysCall api =
     (case api of
        None \<Rightarrow> throw PlainException
      | Some s \<Rightarrow> bnd (lft (utf8_encode s)) (\<lambda>api_bytes.
          if length api_bytes < 256 then sb_Emit OP_SYSCALL (Some (of_nat (length api_bytes) # api_bytes))
          else throw OverflowError))"

datatype syscall_arg = S_Bool bool | S_Bytes bytes | S_Other bytes

text \<open>\<open>S_Other\<close>: bytes of another type than \<open>bytes\<close>.\<close>

definition push_syscall_arg :: "syscall_arg \<Rightarrow> (stream, unit) m" where
  "push_syscall_arg a =
     (case a of
        S_Bool b \<Rightarrow> sb_WriteBool b
      | S_Bytes bs \<Rightarrow> if length bs = 1 then sb_write bs else sb_push (P_Bytes (hexlify bs))
      | S_Other bs \<Rightarrow> sb_push (P_Bytes (hexlify bs)))"

definition EmitSysCallWithArguments :: "pystr option \<Rightarrow> syscall_arg list \<Rightarrow> (stream, unit) m" where
  "EmitSysCallWithArguments api args = sq (mapm push_syscall_arg (rev args)) (EmitSysCall api)"

text \<open>A builder takes a stream of the pool, and \<open>ToArray\<close> returns its bytes as text and the stream to the pool.\<close>

definition sb_ToArray :: "(stream, unit) m \<Rightarrow> (stream_manager, bytes) m" where
  "sb_ToArray build =
     bnd (GetStream None) (\<lambda>ms.
       sq (on_stream ms build)
         (bnd (gets (\<lambda>s. stream_ToArray (streams s ms))) (\<lambda>retval. sq (ReleaseStream ms) (ret retval))))"

section \<open>The scripts of contracts\<close>

text \<open>
  \<open>list.sort\<close> with the comparison of the points, which puts them in the order of their first
  coordinates and leaves those with the same coordinate as they were.
\<close>

primrec py_insort :: "('a \<Rightarrow> 'a \<Rightarrow> bool) \<Rightarrow> 'a \<Rightarrow> 'a list \<Rightarrow> 'a list" where
  "py_insort lt x [] = [x]"
| "py_insort lt x (y # ys) = (if lt y x then y # py_insort lt x ys else x # y # ys)"

definition py_sort :: "('a \<Rightarrow> 'a \<Rightarrow> bool) \<Rightarrow> 'a list \<Rightarrow> 'a list" where
  "py_sort lt xs = foldr (py_insort lt) xs []"

text \<open>\<open>encode_point\<close> gives hexadecimal bytes, and a \<open>bytearray\<close> for the infinite point.\<close>

definition push_point :: "curve \<Rightarrow> ec_point \<Rightarrow> (stream, unit) m" where
  "push_point C p =
     bnd (lft (encode_point C p True)) (\<lambda>bs. sb_push (if IsInfinity C p then P_ByteArray bs else P_Bytes bs))"

definition CreateSignatureRedeemScript :: "curve \<Rightarrow> ec_point \<Rightarrow> (stream_manager, bytes) m" where
  "CreateSignatureRedeemScript C publicKey = sb_ToArray (sq (push_point C publicKey) (sb_add OP_CHECKSIG))"

definition key_text :: "curve \<Rightarrow> ec_point \<Rightarrow> pyexc + pystr" where
  "key_text C p = ebind (encode_point C p True) (\<lambda>bs. Inr (map unat bs))"

definition CreateMultiSigRedeemScript :: "curve \<Rightarrow> int \<Rightarrow> ec_point list \<Rightarrow> (stream_manager, bytes) m" where
  "CreateMultiSigRedeemScript C m publicKeys =
     (if m < 1 then throw PlainException
      else if m > int (length publicKeys) then throw PlainException
      else if length publicKeys > 1024 then throw PlainException
      else sb_ToArray
        (sq (sb_push (P_Int m))
        (bnd (lft (emap (key_text C) (py_sort (ec_lt C) publicKeys))) (\<lambda>keys.
         sq (mapm (\<lambda>key. sb_push (P_Str key)) keys)
        (sq (sb_push (P_Int (int (length publicKeys)))) (sb_add OP_CHECKMULTISIG))))))"

definition PubkeyToRedeem :: "bytes \<Rightarrow> pyexc + bytes" where
  "PubkeyToRedeem pubkey =
     (case unhexlify (ascii ''21'' @ pubkey @ ascii ''ac'') of Some r \<Rightarrow> Inr r | None \<Rightarrow> Inl ValueError)"

definition RedeemToScripthash :: "primitives \<Rightarrow> bytes \<Rightarrow> bytes" where
  "RedeemToScripthash c redeem = hexlify (ascii (bin_hash160 c redeem))"

record contract =
  con_Script :: bytes
  con_ParameterList :: bytes
  con_PublicKeyHash :: uint

text \<open>\<open>IsStandard\<close> replaces a script of 70 bytes by what it denotes.\<close>

definition con_IsStandard :: "contract \<Rightarrow> pyexc + bool \<times> contract" where
  "con_IsStandard c =
     ebind (if length (con_Script c) = 70 then
              (case unhexlify (con_Script c) of None \<Rightarrow> Inl ValueError | Some s \<Rightarrow> Inr (c\<lparr>con_Script := s\<rparr>))
            else Inr c) (\<lambda>c.
       Inr (length (con_Script c) = 35 \<and> con_Script c ! 0 = 33 \<and> con_Script c ! 34 = OP_CHECKSIG, c))"

definition con_IsMultiSig :: "bytes \<Rightarrow> bool" where
  "con_IsMultiSig s =
     (let scp = (case unhexlify s of Some b \<Rightarrow> b | None \<Rightarrow> s)
      in \<not> length scp < 37 \<and> scp ! (length scp - 1) = OP_CHECKMULTISIG)"

datatype contract_type = SignatureContract | MultiSigContract | CustomContract

definition con_Type :: "contract \<Rightarrow> pyexc + contract_type \<times> contract" where
  "con_Type c =
     ebind (con_IsStandard c) (\<lambda>(standard, c).
       Inr (if standard then SignatureContract
            else if con_IsMultiSig (con_Script c) then MultiSigContract else CustomContract, c))"

definition con_Serialize :: "contract \<Rightarrow> (stream, unit) m" where
  "con_Serialize c =
     sq (WriteUInt160 (V160 (con_PublicKeyHash c)))
       (sq (WriteVarBytes (con_ParameterList c)) (sq (WriteVarBytes (con_Script c)) (ret ())))"

definition con_Deserialize :: "(stream, contract) m" where
  "con_Deserialize =
     bnd ReadUInt160 (\<lambda>pkh.
     bnd (ReadVarBytes maxsize) (\<lambda>params.
     bnd (ReadVarInt maxsize) (\<lambda>n.
     bnd (ReadBytes n) (\<lambda>script.
       ret \<lparr>con_Script = script, con_ParameterList = params, con_PublicKeyHash = pkh\<rparr>))))"

definition CreateSignatureContract :: "primitives \<Rightarrow> ec_point \<Rightarrow> (stream_manager, contract) m" where
  "CreateSignatureContract c publicKey =
     bnd (CreateSignatureRedeemScript secp256r1_curve publicKey) (\<lambda>script.
     bnd (lft (encode_point secp256r1_curve publicKey True)) (\<lambda>encoded.
     bnd (lft (Crypto_ToScriptHash c encoded True)) (\<lambda>pubkey_hash.
       ret \<lparr>con_Script = script, con_ParameterList = [0], con_PublicKeyHash = pubkey_hash\<rparr>)))"

definition CreateMultiSigContract :: "uint \<Rightarrow> nat \<Rightarrow> bytes list \<Rightarrow> (stream_manager, contract) m" where
  "CreateMultiSigContract publicKeyHash m publicKeys =
     bnd (lft (emap (\<lambda>p. decode_secp256r1 p True True) publicKeys)) (\<lambda>pk.
     bnd (CreateMultiSigRedeemScript secp256r1_curve (int m) pk) (\<lambda>script.
       ret \<lparr>con_Script = script, con_ParameterList = replicate m 0, con_PublicKeyHash = publicKeyHash\<rparr>))"

lemmas script_builder_defs = sb_write_def sb_WriteBytes_def sb_pack_def sb_WriteUInt16_def sb_WriteUInt32_def
  sb_WriteUInt64_def sb_WriteByte_def sb_WriteVarInt_def sb_WriteVarBytes_def sb_add_int_def sb_add_def
  sb_WriteBool_def push_header_def push_buf_def push_text_def push_int_def sb_push_def sb_WriteVarData_def
  sb_Emit_def EmitPushBigInteger_def EmitAppCall_def push_operation_def EmitAppCallWithOperationAndData_def
  push_args_def EmitAppCallWithOperationAndArgs_def EmitAppCallWithOperation_def push_json_arg_def
  EmitAppCallWithJsonArgs_def EmitSysCall_def push_syscall_arg_def EmitSysCallWithArguments_def sb_ToArray_def
  py_sort_def push_point_def CreateSignatureRedeemScript_def key_text_def CreateMultiSigRedeemScript_def
  PubkeyToRedeem_def RedeemToScripthash_def con_IsStandard_def con_IsMultiSig_def con_Type_def con_Serialize_def
  con_Deserialize_def CreateSignatureContract_def CreateMultiSigContract_def

declare script_builder_defs [model_defs]

end
