(* ===== verification/Verification.thy ===== *)
theory Verification
  imports Script_Builder Application_Engine Transactions
begin

text \<open>
  \<open>Helper.VerifyWitnesses\<close> of \<open>neo/SmartContract/Helper.py\<close>. The hashes a verifiable object asks
  for and its witnesses are given; so is the machine's environment, which holds the object as its script
  container. What the chain's own services do is in that environment too. The events that are emitted
  after a run are not modelled. A verification whose script does not end is None.
\<close>

section \<open>One witness\<close>

text \<open>
  The verification script to run: a call of the contract where the witness has none, and no script where
  the hash is not the one asked for. The call is written into a new stream.
\<close>

definition verification_program :: "primitives \<Rightarrow> uint \<Rightarrow> witness \<Rightarrow> pyexc + bytes option" where
  "verification_program c hash w =
     (if VerificationScript w = [] then
        (case EmitAppCall (Data hash) False (initial_stream None) of
           (Exc e, ms) \<Rightarrow> Inl e
         | (_, ms) \<Rightarrow> Inr (Some (getvalue ms)))
      else
        ebind (Crypto_ToScriptHash c (VerificationScript w) False) (\<lambda>verification_hash.
        Inr (if uint_eq hash verification_hash then Some (VerificationScript w) else None)))"

text \<open>\<open>engine.ResultStack.Count != 1 or not engine.ResultStack.Pop().GetBoolean()\<close>, negated.\<close>

definition accepting :: "'z app_engine_scheme \<Rightarrow> pyexc + bool" where
  "accepting e =
     (if ras_Count (ResultStack e) \<noteq> 1 then Inr False
      else ebind (ras_Pop (ResultStack e)) (\<lambda>(x, _). Inr (GetBoolean x)))"

definition witness_engine :: "'z app_engine_scheme app_env \<Rightarrow> 'z \<Rightarrow> bytes \<Rightarrow> bytes \<Rightarrow> 'z app_engine_scheme" where
  "witness_engine env services verification invocation =
     snd (LoadScript (vm_env env) invocation (- 1)
       (snd (LoadScript (vm_env env) verification (- 1) (ApplicationEngine services 0 False))))"

definition VerifyWitness ::
  "'z app_engine_scheme app_env \<Rightarrow> 'z \<Rightarrow> uint \<Rightarrow> witness \<Rightarrow> ((pyexc + bool) \<times> 'z) option" where
  "VerifyWitness env services hash w =
     (case verification_program (primitives_of (vm_env env)) hash w of
        Inl e \<Rightarrow> Some (Inl e, services)
      | Inr None \<Rightarrow> Some (Inr False, services)
      | Inr (Some verification) \<Rightarrow>
          map_option (\<lambda>(_, e). (accepting e, app_engine.more e))
            (app_Execute env (witness_engine env services verification (InvocationScript w))))"

section \<open>All witnesses\<close>

text \<open>Every engine has a new service over the snapshot that the last run left: \<open>renew\<close>.\<close>

fun verify_each ::
  "'z app_engine_scheme app_env \<Rightarrow> ('z \<Rightarrow> 'z) \<Rightarrow> 'z \<Rightarrow> uint list \<Rightarrow> witness list \<Rightarrow> (pyexc + bool) option" where
  "verify_each env renew services (h # hs) (w # ws) =
     (case VerifyWitness env services h w of
        None \<Rightarrow> None
      | Some (Inr True, left) \<Rightarrow> verify_each env renew (renew left) hs ws
      | Some (r, _) \<Rightarrow> Some r)"
| "verify_each env renew services _ _ = Some (Inr True)"

definition VerifyWitnesses ::
  "'z app_engine_scheme app_env \<Rightarrow> ('z \<Rightarrow> 'z) \<Rightarrow> 'z \<Rightarrow> pyexc + uint list \<Rightarrow> witness list \<Rightarrow> (pyexc + bool) option" where
  "VerifyWitnesses env renew services script_hashes scripts =
     (case script_hashes of
        Inl e \<Rightarrow> Some (Inr False)
      | Inr hashes \<Rightarrow>
          if length hashes \<noteq> length scripts then Some (Inr False)
          else verify_each env renew services hashes scripts)"

lemmas verification_defs = verification_program_def accepting_def witness_engine_def VerifyWitness_def VerifyWitnesses_def

declare verification_defs [model_defs]

section \<open>What acceptance means\<close>

lemma verify_each_accepts:
  "length hs = length ws \<Longrightarrow> verify_each env renew z hs ws = Some (Inr True) \<Longrightarrow>
     list_all2 (\<lambda>h w. \<exists>z z'. VerifyWitness env z h w = Some (Inr True, z')) hs ws"
  by (induction hs ws arbitrary: z rule: list_induct2) (fastforce split: option.splits sum.splits bool.splits prod.splits)+

lemma VerifyWitnesses_accepts:
  "VerifyWitnesses env renew z script_hashes scripts = Some (Inr True) \<Longrightarrow>
     \<exists>hashes. script_hashes = Inr hashes \<and>
        list_all2 (\<lambda>h w. \<exists>z z'. VerifyWitness env z h w = Some (Inr True, z')) hashes scripts"
  using verify_each_accepts by (auto simp: VerifyWitnesses_def split: sum.splits if_splits)

text \<open>A witness with a script of its own is accepted only if the script has the hash that is asked for.\<close>

lemma VerifyWitness_hash:
  assumes "VerifyWitness env z h w = Some (Inr True, z')" "VerificationScript w \<noteq> []"
  shows "\<exists>v. Crypto_ToScriptHash (primitives_of (vm_env env)) (VerificationScript w) False = Inr v \<and> Data h = Data v"
  using assms
  by (auto simp: VerifyWitness_def verification_program_def uint_eq_def ebind_Inr_iff split: sum.splits if_splits option.splits)

lemma accepting_one [simp]: "ResultStack e = mk_ras [x] \<Longrightarrow> accepting e = Inr (GetBoolean x)"
  by (simp add: accepting_def)

end
