(* ===== verification/Straight_Line.thy ===== *)
theory Straight_Line
  imports Instruction_Properties Gas_Limit
begin

text \<open>
  Running instructions that do not branch: a step whose hook passes is the instruction and the move to
  the next one, which is decoded at once. A script is run to its end by such steps and the RET that
  ends it.
\<close>

definition ticked :: "'z engine_scheme \<Rightarrow> 'z engine_scheme" where
  "ticked s = s\<lparr>ops_processed := ops_processed s + 1\<rparr>"

definition advanced :: "cid \<Rightarrow> int \<Rightarrow> instruction \<Rightarrow> 'z engine_scheme \<Rightarrow> 'z engine_scheme" where
  "advanced c ip j s = update_context c (\<lambda>x. x\<lparr>InstructionPointer := ip, ins := Some j\<rparr>) s"

lemma ticked_fields [simp]:
  "InvocationStack (ticked s) = InvocationStack s" "contexts (ticked s) = contexts s" "VMState (ticked s) = VMState s"
  "get_stack k (ticked s) = get_stack k s" "count_fits (ticked s) n = count_fits s n" "items_heap (ticked s) = items_heap s"
  "stackitem_count (ticked s) = stackitem_count s"
  by (simp_all add: ticked_def count_fits_def, cases k, simp_all add: get_stack.simps)

lemma counted_put_context:
  "contexts (counted b n (put_stack (EStack c) t s)) c = (contexts s c)\<lparr>EvaluationStack := t\<rparr>"
  by (simp add: counted_def put_stack.simps update_context_def)

lemma advanced_fields [simp]:
  "contexts (advanced c ip j s) c = (contexts s c)\<lparr>InstructionPointer := ip, ins := Some j\<rparr>"
  "InvocationStack (advanced c ip j s) = InvocationStack s" "VMState (advanced c ip j s) = VMState s"
  "get_stack k (advanced c ip j s) = get_stack k s" "stackitem_count (advanced c ip j s) = stackitem_count s"
  by (simp_all add: advanced_def update_context_def, cases k, simp_all add: get_stack.simps)

lemma counted_more [simp]:
  "VMState (counted b n s) = VMState s"
  "stackitem_count (counted b n s) = stackitem_count s + n"
  "get_stack k (counted b n s) = get_stack k s"
proof -
  show "VMState (counted b n s) = VMState s" "stackitem_count (counted b n s) = stackitem_count s + n"
    by (simp_all add: counted_def)
  show "get_stack k (counted b n s) = get_stack k s" by (cases k) (simp_all add: counted_def get_stack.simps)
qed

lemma CurrentInstruction_stack [simp]: "CurrentInstruction (x\<lparr>EvaluationStack := t\<rparr>) = CurrentInstruction x"
  by (cases "ins x") (simp_all add: CurrentInstruction_def)

lemma run_MoveNext:
  assumes "CurrentInstruction (contexts s c) = Inr i"
    "GetInstruction (Script (contexts s c)) (InstructionPointer (contexts s c) + Instruction_Size i) = Inr j"
  shows "\<exists>b. MoveNext c s = (Val b, advanced c (InstructionPointer (contexts s c) + Instruction_Size i) j s)"
  using assms
  by (simp add: MoveNext_def jump_to_def update_context_def advanced_def sq_def bnd_def modify_def gets_def lft_def)

lemma current_peek: "InvocationStack s = mk_ras (c # cs) \<Longrightarrow> bnd CurrentContext f s = f c s"
  by (simp add: CurrentContext_def run_simps ras_Peek_mk)

lemma step_runs:
  assumes inv: "InvocationStack s = mk_ras (c # cs)" "CurrentInstruction (contexts s c) = Inr i"
    and pre: "pre (ticked s) = (Val True, s1)" "InvocationStack s1 = mk_ras (c # cs)" "contexts s1 = contexts s"
    and ins: "catch_ret (sq (dispatch env c i) (sq (MoveNext c) (ret True))) s1 = (Val True, s2)"
  shows "ExecuteNext env pre PostExecuteInstruction s = s2"
proof -
  have "ExecuteInstruction env s1 = (Val True, s2)"
    using ins pre(2,3) inv(2) by (simp add: ExecuteInstruction_def current_peek catch_ret_def run_simps)
  then have ex: "or_fault (ExecuteInstruction env) s1 = (Val (), s2)" by (intro or_fault_passes)
  have pre': "or_fault pre (ticked s) = (Val (), s1)" by (rule or_fault_passes) (rule pre(1))
  have post: "or_fault PostExecuteInstruction s2 = (Val (), s2)"
    by (intro or_fault_passes) (simp add: PostExecuteInstruction_def ret_def)
  have "step_body env pre PostExecuteInstruction (ticked s) = (Val (), s2)"
    using inv by (simp add: step_body_def current_peek run_simps run_sq_val pre' ex post)
  then show ?thesis using inv(1) by (simp add: ExecuteNext_def ticked_def)
qed

lemma step_straight:
  assumes "InvocationStack s = mk_ras (c # cs)" "CurrentInstruction (contexts s c) = Inr i"
    "pre (ticked s) = (Val True, s1)" "InvocationStack s1 = mk_ras (c # cs)" "contexts s1 = contexts s"
    and disp: "dispatch env c i s1 = (Val (), s2)" "CurrentInstruction (contexts s2 c) = Inr i"
    and next_ins: "GetInstruction (Script (contexts s2 c)) (InstructionPointer (contexts s2 c) + Instruction_Size i) = Inr j"
  shows "ExecuteNext env pre PostExecuteInstruction s =
    advanced c (InstructionPointer (contexts s2 c) + Instruction_Size i) j s2"
proof (rule step_runs)
  obtain b where "MoveNext c s2 = (Val b, advanced c (InstructionPointer (contexts s2 c) + Instruction_Size i) j s2)"
    using run_MoveNext [OF disp(2) next_ins] by blast
  then show "catch_ret (sq (dispatch env c i) (sq (MoveNext c) (ret True))) s1 =
      (Val True, advanced c (InstructionPointer (contexts s2 c) + Instruction_Size i) j s2)"
    by (simp add: catch_ret_def sq_def bnd_def disp(1) ret_def)
qed (use assms in simp_all)

section \<open>The hooks\<close>

lemma base_hook: "PreExecuteInstruction s = (Val True, s)"
  by (simp add: PreExecuteInstruction_def ret_def)

text \<open>The application engine's hook charges the price of the instruction.\<close>

lemma app_hook_passes:
  assumes "InvocationStack s = mk_ras (c # cs)" "CurrentInstruction (contexts s c) = Inr i"
    "ins_OpCode i \<notin> {OP_APPCALL, OP_TAILCALL, OP_CALL_ED, OP_CALL_EDT}" "GetPrice env s = (Val p, s)"
    "\<not> testMode s" "gas_consumed s + p * ratio \<le> gas_amount s"
  shows "\<exists>g. app_PreExecuteInstruction env s = (Val True, s\<lparr>gas_consumed := g\<rparr>) \<and> g \<le> gas_consumed s + \<bar>p * ratio\<bar>"
proof (cases "InstructionPointer (contexts s c) \<ge> Script_Length (Script (contexts s c))")
  case True
  then show ?thesis
    using assms by (auto simp: app_PreExecuteInstruction_def current_peek run_simps intro!: exI [of _ "gas_consumed s"])
next
  case False
  let ?s = "s\<lparr>gas_consumed := gas_consumed s + p * ratio\<rparr>"
  have "CheckDynamicInvoke env ?s = (Val True, ?s)"
    using assms(1-3) by (simp add: CheckDynamicInvoke_def current_peek run_simps Let_def)
  then show ?thesis
    using assms False
    by (auto simp: app_PreExecuteInstruction_def current_peek run_simps bnd_def [of "GetPrice env"] pass_on_error_def)
qed

end
