(* ===== verification/Script_Properties.thy ===== *)
theory Script_Properties
  imports Script_Builder Straight_Line
begin

text \<open>
  What the builder and the machine promise each other: what \<open>push\<close> writes for some bytes is decoded
  as one instruction with these bytes, wherever it stands in a script, and running it puts them on the
  evaluation stack.
\<close>

section \<open>What is written\<close>

definition push_prefix :: "nat \<Rightarrow> bytes" where
  "push_prefix n =
     (if n \<le> 75 then [of_nat n]
      else if n < 0x100 then [OP_PUSHDATA1, of_nat n]
      else if n < 0x10000 then OP_PUSHDATA2 # int_bytes 2 (int n)
      else OP_PUSHDATA4 # int_bytes 4 (int n))"

definition push_code :: "bytes \<Rightarrow> bytes" where
  "push_code buf = push_prefix (length buf) @ buf"

lemma emits_sb_write [emits_intros]: "emits (sb_write bs) bs ()"
  unfolding sb_write_def by (rule emits_sq_ret [OF emits_stream_write])

lemma emits_sb_add [emits_intros]: "emits (sb_add op) [op] ()"
  unfolding sb_add_def by (rule emits_sb_write)

lemma emits_sb_add_int [emits_intros]: "0 \<le> n \<Longrightarrow> n < 256 \<Longrightarrow> emits (sb_add_int n) [word_of_int n] ()"
  by (simp add: sb_add_int_def emits_sb_write)

lemma int_bytes_2: "int_bytes 2 n = [word_of_int (n mod 256), word_of_int (n div 256 mod 256)]"
  by (simp add: eval_nat_numeral)

lemma int_bytes_4:
  "int_bytes 4 n = [word_of_int (n mod 256), word_of_int (n div 2 ^ 8 mod 256), word_of_int (n div 2 ^ 16 mod 256),
     word_of_int (n div 2 ^ 24 mod 256)]"
  by (simp add: eval_nat_numeral zdiv_zmult2_eq [symmetric])

lemma emits_push_header:
  assumes "n < 2 ^ 32"
  shows "emits (push_header (int n)) (push_prefix n) ()"
proof -
  consider "n \<le> 75" | "75 < n" "n < 0x100" | "0x100 \<le> n" "n < 0x10000" | "0x10000 \<le> n" by linarith
  then show ?thesis
  proof cases
    case 1
    then show ?thesis using emits_sb_add_int [of "int n"] by (simp add: push_header_def push_prefix_def)
  next
    case 2
    then show ?thesis
      using emits_sq [OF emits_sb_add [of OP_PUSHDATA1] emits_sb_add_int [of "int n"]] by (simp add: push_header_def push_prefix_def)
  next
    case 3
    then have "int n div 256 < 256" by (simp add: div_less_iff_less_mult)
    then show ?thesis
      using 3 emits_sq [OF emits_sb_add [of OP_PUSHDATA2] emits_sq [OF emits_sb_add_int [of "int n mod 256"]
          emits_sb_add_int [of "int n div 2 ^ 8"]]]
      by (simp add: push_header_def push_prefix_def int_bytes_2)
  next
    case 4
    have "int n < 256 * 16777216" using assms by simp
    then have "int n div 2 ^ 24 < 256" by (simp add: div_less_iff_less_mult)
    then show ?thesis
      using 4 emits_sq [OF emits_sb_add [of OP_PUSHDATA4] emits_sq [OF emits_sb_add_int [of "int n mod 256"]
          emits_sq [OF emits_sb_add_int [of "int n div 2 ^ 8 mod 256"] emits_sq [OF emits_sb_add_int [of "int n div 2 ^ 16 mod 256"]
          emits_sb_add_int [of "int n div 2 ^ 24"]]]]]
      by (simp add: push_header_def push_prefix_def int_bytes_4)
  qed
qed

lemma emits_push_buf [emits_intros]: "length buf < 2 ^ 32 \<Longrightarrow> emits (push_buf buf) (push_code buf) ()"
  unfolding push_buf_def push_code_def by (simp add: emits_sq [OF emits_push_header emits_sb_write])

section \<open>What is decoded\<close>

definition push_instruction :: "bytes \<Rightarrow> instruction" where
  "push_instruction buf = \<lparr>ins_OpCode = hd (push_code buf), ins_Operand = buf\<rparr>"

lemma push_prefix_not_Nil: "push_prefix n \<noteq> []"
  by (simp add: push_prefix_def)

lemma uint_of_nat_byte: "n < 256 \<Longrightarrow> uint (of_nat n :: byte) = int n"
  by (simp add: unsigned_of_nat take_bit_nat_eq_self)

lemma of_nat_byte_le: "m < 256 \<Longrightarrow> k < 256 \<Longrightarrow> (of_nat m :: byte) \<le> of_nat k \<longleftrightarrow> m \<le> k"
  by (simp add: word_le_nat_alt unat_of_nat)

lemma small_opcode:
  assumes "op \<le> (75 :: byte)"
  shows "OperandSizePrefixTable op = 0" "OperandSizeTable op = uint op"
proof -
  have "op \<noteq> k" if "75 < k" for k using assms that by auto
  then show "OperandSizePrefixTable op = 0" "OperandSizeTable op = uint op"
    using assms
    by (auto simp: OperandSizePrefixTable_def OperandSizeTable_def opcode_defs not_le)
qed

text \<open>The instruction at the end of some bytes depends on what follows only.\<close>

lemma py_nth_append: "py_nth (int (length xs)) (xs @ y # ys) = Inr y"
  by (simp add: py_nth_def py_index_def)

lemma py_slice_append:
  "py_slice (int (length xs)) (int (length xs) + int (length ys)) (xs @ ys @ zs) = ys"
  by (simp add: py_slice_nonneg nat_add_distrib)

lemma slice_at:
  assumes "v = pre @ mid @ rest" "lo = int (length pre)" "hi = int (length pre) + int (length mid)"
  shows "py_slice lo hi v = mid"
  using py_slice_append [of pre mid rest] assms by simp

lemma decode_operand:
  assumes script: "s_value scr = pre @ op # hdr @ buf @ rest"
    and header: "(if OperandSizePrefixTable op = 0 then Inr (int (length pre) + 1, OperandSizeTable op)
            else if OperandSizePrefixTable op = 1 then ReadByte scr (int (length pre) + 1)
            else if OperandSizePrefixTable op = 2 then ReadUint16 scr (int (length pre) + 1)
            else ReadInt32 scr (int (length pre) + 1)) = Inr (int (length pre) + 1 + int (length hdr), int (length buf))"
  shows "FromScriptAndIP scr (int (length pre)) = Inr \<lparr>ins_OpCode = op, ins_Operand = buf\<rparr>"
proof -
  have op: "py_nth (int (length pre)) (s_value scr) = Inr op" by (simp add: script py_nth_append)
  have sl: "py_slice (int (length pre) + 1 + int (length hdr)) (int (length pre) + 1 + int (length hdr) + int (length buf)) (s_value scr) = buf"
    by (rule slice_at [of _ "pre @ op # hdr" _ rest]) (simp_all add: script)
  have len: "\<not> int (length pre) + 1 + int (length hdr) + int (length buf) > Script_Length scr"
    by (simp add: Script_Length_def script)
  show ?thesis
    unfolding FromScriptAndIP_def Let_def op ebind_simps header prod.case ReadExactBytes_def sl if_not_P [OF len]
    by (cases buf) simp_all
qed

lemma prefix_tables:
  "OperandSizePrefixTable OP_PUSHDATA1 = 1" "OperandSizePrefixTable OP_PUSHDATA2 = 2" "OperandSizePrefixTable OP_PUSHDATA4 = 4"
  by (simp_all add: OperandSizePrefixTable_def opcode_defs)

lemma decode_push:
  assumes "s_value scr = pre @ push_code buf @ rest" "length buf < 2 ^ 31"
  shows "FromScriptAndIP scr (int (length pre)) = Inr (push_instruction buf)" (is ?decodes)
    "Instruction_Size (push_instruction buf) = int (length (push_code buf))" (is ?size)
proof -
  let ?n = "length buf"
  consider "?n \<le> 75" | "75 < ?n" "?n < 0x100" | "0x100 \<le> ?n" "?n < 0x10000" | "0x10000 \<le> ?n" by linarith
  then have "?decodes \<and> ?size"
  proof cases
    case 1
    then have le: "(of_nat ?n :: byte) \<le> 75" using of_nat_byte_le [of ?n 75] by simp
    have u: "uint (of_nat ?n :: byte) = int ?n" by (rule uint_of_nat_byte) (use 1 in simp)
    have code: "push_code buf = of_nat ?n # [] @ buf" using 1 by (simp add: push_code_def push_prefix_def)
    have "?decodes"
      unfolding push_instruction_def code list.sel
      by (rule decode_operand [where hdr = "[]" and rest = rest])
        (use assms(1) in \<open>simp add: code\<close>, simp add: small_opcode [OF le] u)
    then show ?thesis using small_opcode [OF le] u by (simp add: Instruction_Size_def Let_def push_instruction_def code)
  next
    case 2
    have code: "push_code buf = OP_PUSHDATA1 # [of_nat ?n] @ buf" using 2 by (simp add: push_code_def push_prefix_def)
    have "ReadByte scr (int (length pre) + 1) = Inr (int (length pre) + 1 + int (length [of_nat ?n :: byte]), int ?n)"
    proof -
      have "py_nth (int (length (pre @ [OP_PUSHDATA1]))) (s_value scr) = Inr (of_nat ?n)"
        using py_nth_append [of "pre @ [OP_PUSHDATA1]" "of_nat ?n" "buf @ rest"] assms(1) by (simp add: code)
      moreover have "uint (of_nat ?n :: byte) = int ?n" by (rule uint_of_nat_byte) (use 2 in simp)
      ultimately show ?thesis using assms(1) by (simp add: ReadByte_def Script_Length_def code Let_def add.commute)
    qed
    then have "?decodes"
      unfolding push_instruction_def code list.sel
      by (intro decode_operand [where hdr = "[of_nat ?n]" and rest = rest])
        (use assms(1) in \<open>simp add: code\<close>, simp add: prefix_tables)
    then show ?thesis by (simp add: Instruction_Size_def Let_def push_instruction_def code prefix_tables)
  next
    case 3
    let ?h = "int_bytes 2 (int ?n)"
    have code: "push_code buf = OP_PUSHDATA2 # ?h @ buf" using 3 by (simp add: push_code_def push_prefix_def)
    have "py_slice (int (length pre) + 1) (int (length pre) + 1 + 2) (s_value scr) = ?h"
      by (rule slice_at [of _ "pre @ [OP_PUSHDATA2]" _ "buf @ rest"]) (simp_all add: assms(1) code)
    then have "ReadUint16 scr (int (length pre) + 1) = Inr (int (length pre) + 1 + int (length ?h), int ?n)"
      using 3 assms(1) by (simp add: ReadUint16_def Script_Length_def code from_bytes_u_int_bytes)
    then have "?decodes"
      unfolding push_instruction_def code list.sel
      by (intro decode_operand [where hdr = ?h and rest = rest])
        (use assms(1) in \<open>simp add: code\<close>, simp add: prefix_tables)
    then show ?thesis by (simp add: Instruction_Size_def Let_def push_instruction_def code prefix_tables)
  next
    case 4
    let ?h = "int_bytes 4 (int ?n)"
    have code: "push_code buf = OP_PUSHDATA4 # ?h @ buf" using 4 by (simp add: push_code_def push_prefix_def)
    have "py_slice (int (length pre) + 1) (int (length pre) + 1 + 4) (s_value scr) = ?h"
      by (rule slice_at [of _ "pre @ [OP_PUSHDATA4]" _ "buf @ rest"]) (simp_all add: assms(1) code)
    moreover have "from_bytes_s ?h = int ?n"
      by (rule from_bytes_s_int_bytes) (use assms(2) in simp_all)
    ultimately have "ReadInt32 scr (int (length pre) + 1) = Inr (int (length pre) + 1 + int (length ?h), int ?n)"
      using 4 assms(1) by (simp add: ReadInt32_def Script_Length_def code)
    then have "?decodes"
      unfolding push_instruction_def code list.sel
      by (intro decode_operand [where hdr = ?h and rest = rest])
        (use assms(1) in \<open>simp add: code\<close>, simp add: prefix_tables)
    then show ?thesis by (simp add: Instruction_Size_def Let_def push_instruction_def code prefix_tables)
  qed
  then show ?decodes ?size by simp_all
qed

section \<open>What is run\<close>

lemma push_code_op:
  "hd (push_code buf) = (let n = length buf in if n \<le> 75 then of_nat n else if n < 0x100 then OP_PUSHDATA1
     else if n < 0x10000 then OP_PUSHDATA2 else OP_PUSHDATA4)"
  by (simp add: push_code_def push_prefix_def Let_def)

lemma dispatch_push:
  assumes "int (length buf) \<le> maxItemSize" "get_stack (EStack c) s = mk_ras xs" "count_fits s 1"
  shows "dispatch env c (push_instruction buf) s =
    (Val (), counted True 1 (put_stack (EStack c) (mk_ras (ByteArray buf # xs)) s))"
proof (cases "buf = []")
  case True
  then have "dispatch env c (push_instruction buf) = op_PUSH0 env c (push_instruction buf)"
    by (simp add: dispatch_def push_instruction_def push_code_op opcode_defs)
  then show ?thesis using assms True by (simp add: op_PUSH0_def run_simps)
next
  case False
  have "OP_PUSHBYTES1 \<le> hd (push_code buf) \<and> hd (push_code buf) \<le> OP_PUSHDATA4"
  proof (cases "length buf \<le> 75")
    case True
    then show ?thesis
      using False of_nat_byte_le [of "length buf" 78] of_nat_byte_le [of 1 "length buf"]
      by (cases buf) (simp_all add: push_code_op opcode_defs)
  qed (simp add: push_code_op opcode_defs Let_def)
  then have "dispatch env c (push_instruction buf) = op_PUSHBYTES env c (push_instruction buf)"
    by (simp add: dispatch_def push_instruction_def)
  then show ?thesis
    using assms by (simp add: op_PUSHBYTES_def push_instruction_def CheckMaxItemSize_def run_simps)
qed

section \<open>Literals\<close>

text \<open>The bytes and integers \<open>push\<close> accepts, their code, and the item the machine makes of it.\<close>

datatype literal = L_Bytes bytes | L_Int int

definition int_literal :: "int \<Rightarrow> bytes" where
  "int_literal i = int_bytes (encoded_length i) i"

fun lit_code :: "literal \<Rightarrow> bytes" where
  "lit_code (L_Bytes b) = push_code b"
| "lit_code (L_Int i) =
     (if i = - 1 then [OP_PUSHM1] else if 1 \<le> i \<and> i \<le> 16 then [word_of_int (0x50 + i)]
      else push_code (if i = 0 then [] else int_literal i))"

fun lit_item :: "literal \<Rightarrow> stack_item" where
  "lit_item (L_Bytes b) = ByteArray b"
| "lit_item (L_Int i) =
     (if i = - 1 \<or> 1 \<le> i \<and> i \<le> 16 then Integer i else ByteArray (if i = 0 then [] else int_literal i))"

fun lit_instruction :: "literal \<Rightarrow> instruction" where
  "lit_instruction (L_Bytes b) = push_instruction b"
| "lit_instruction (L_Int i) =
     (if i = - 1 \<or> 1 \<le> i \<and> i \<le> 16 then \<lparr>ins_OpCode = word_of_int (0x50 + i), ins_Operand = []\<rparr>
      else push_instruction (if i = 0 then [] else int_literal i))"

fun lit_ok :: "literal \<Rightarrow> bool" where
  "lit_ok (L_Bytes b) \<longleftrightarrow> int (length b) \<le> maxItemSize"
| "lit_ok (L_Int i) \<longleftrightarrow> int (encoded_length i) \<le> maxItemSize"

fun pushed :: "push_value \<Rightarrow> literal option" where
  "pushed P_None = None"
| "pushed (P_Bool b) = None"
| "pushed (P_Int i) = (if - 1 \<le> i \<and> i \<le> 16 then Some (L_Int i) else None)"
| "pushed (P_BigInteger i) = Some (L_Int i)"
| "pushed (P_ByteArray bs) = Some (L_Bytes bs)"
| "pushed (P_Bytes bs) = Some (L_Bytes (case unhexlify bs of Some b \<Rightarrow> b | None \<Rightarrow> bs))"
| "pushed (P_Str s) = (case unhexlify_str s of Inr (Some b) \<Rightarrow> Some (L_Bytes b) | _ \<Rightarrow> None)"

text \<open>The item of a number is that number.\<close>

lemma lit_item_int: "GetBigInteger (lit_item (L_Int i)) = Inr i"
  using encoded_length_fits [of i] by (simp add: int_literal_def from_bytes_s_int_bytes) (simp add: from_bytes_s_def)

lemma length_int_literal [simp]: "length (int_literal i) = encoded_length i"
  by (simp add: int_literal_def)

lemma emits_push_int:
  assumes "\<not> (- 1 \<le> i \<and> i \<le> 16) \<Longrightarrow> emits other (push_code (int_literal i)) ()"
  shows "emits (push_int i other) (lit_code (L_Int i)) ()"
proof -
  consider "i = - 1" | "i = 0" | "1 \<le> i" "i \<le> 16" | "\<not> (- 1 \<le> i \<and> i \<le> 16)" by linarith
  then show ?thesis
  proof cases
    case 2
    then show ?thesis
      using emits_sb_add [of OP_PUSH0] by (simp add: push_int_def push_code_def push_prefix_def opcode_defs)
  next
    case 3
    then show ?thesis using emits_sb_add_int [of "0x51 - 1 + i"] by (simp add: push_int_def)
  qed (use assms emits_sb_add [of OP_PUSHM1] in \<open>auto simp: push_int_def\<close>)
qed

lemma lit_small: "lit_ok l \<Longrightarrow> l = L_Bytes b \<or> l = L_Int i \<and> b = int_literal i \<Longrightarrow> length b < 2 ^ 32"
  by (auto simp: maxItemSize_def)

lemma emits_sb_push:
  assumes "pushed v = Some l" "lit_ok l"
  shows "emits (sb_push v) (lit_code l) ()"
proof (cases v)
  case (P_BigInteger i)
  then have l: "l = L_Int i" using assms(1) by simp
  have "emits (push_buf (int_literal i)) (push_code (int_literal i)) ()"
    by (rule emits_push_buf) (use lit_small [OF assms(2)] l in blast)
  then have "emits (bnd (lft (ToByteArray i)) (\<lambda>bs. push_buf (case unhexlify (hexlify bs) of Some b \<Rightarrow> b | None \<Rightarrow> hexlify bs)))
      (push_code (int_literal i)) ()"
    by (intro emits_bnd_lft [OF ToByteArray_eq]) (simp add: int_literal_def)
  then show ?thesis unfolding P_BigInteger l sb_push_def push_value.case by (rule emits_push_int)
next
  case (P_Int i)
  then have l: "l = L_Int i" "- 1 \<le> i" "i \<le> 16" using assms(1) by (auto split: if_splits)
  then show ?thesis unfolding P_Int l sb_push_def push_value.case by (intro emits_push_int) simp
next
  case (P_Str s)
  then obtain b where b: "unhexlify_str s = Inr (Some b)" "l = L_Bytes b"
    using assms(1) by (auto split: sum.splits option.splits)
  then have "emits (push_buf b) (push_code b) ()" using lit_small [OF assms(2)] by (blast intro: emits_push_buf)
  then show ?thesis
    unfolding P_Str sb_push_def push_value.case push_text_def using b by (intro emits_bnd_lft [OF b(1)]) simp
qed (use assms emits_push_buf lit_small [OF assms(2)] in \<open>auto simp: sb_push_def\<close>)

lemma small_literal:
  "i = - 1 \<or> 1 \<le> i \<and> i \<le> 16 \<Longrightarrow> i \<in> {- 1, 1, 2, 3, 4, 5, 6, 7, 8, 9, 10, 11, 12, 13, 14, 15, 16 :: int}"
  unfolding insert_iff empty_iff by presburger

lemma lit_code_append_decode:
  assumes "s_value scr = pre @ lit_code l @ rest" "lit_ok l"
  shows "GetInstruction scr (int (length pre)) = Inr (lit_instruction l)"
    "Instruction_Size (lit_instruction l) = int (length (lit_code l))"
proof -
  have no: "lit_code l \<noteq> []" by (cases l) (auto simp: push_code_def push_prefix_not_Nil)
  then have "0 < length (lit_code l)" by blast
  then have ip: "\<not> int (length pre) \<ge> Script_Length scr" unfolding Script_Length_def assms(1) length_append by linarith
  have size: "length (if i = 0 then [] else int_literal i) < 2 ^ 31" if "lit_ok (L_Int i)" for i
    using that by (simp add: maxItemSize_def)
  have "FromScriptAndIP scr (int (length pre)) = Inr (lit_instruction l) \<and>
    Instruction_Size (lit_instruction l) = int (length (lit_code l))"
  proof (cases "\<exists>i. l = L_Int i \<and> (i = - 1 \<or> 1 \<le> i \<and> i \<le> 16)")
    case True
    then obtain i where i: "l = L_Int i" "i = - 1 \<or> 1 \<le> i \<and> i \<le> 16" by blast
    then have code: "lit_code l = [word_of_int (0x50 + i)]" "lit_instruction l = \<lparr>ins_OpCode = word_of_int (0x50 + i), ins_Operand = []\<rparr>"
      by (auto simp: opcode_defs)
    have "i \<in> {- 1, 1, 2, 3, 4, 5, 6, 7, 8, 9, 10, 11, 12, 13, 14, 15, 16}" by (rule small_literal) (rule i(2))
    then have tables: "OperandSizePrefixTable (word_of_int (0x50 + i)) = 0" "OperandSizeTable (word_of_int (0x50 + i)) = 0"
      by (auto simp: OperandSizePrefixTable_def OperandSizeTable_def opcode_defs)
    have "FromScriptAndIP scr (int (length pre)) = Inr \<lparr>ins_OpCode = word_of_int (0x50 + i), ins_Operand = []\<rparr>"
      by (rule decode_operand [where hdr = "[]" and rest = rest]) (use assms(1) code tables in simp_all)
    then show ?thesis using tables code by (simp add: Instruction_Size_def)
  next
    case False
    then obtain b where b: "lit_code l = push_code b" "lit_instruction l = push_instruction b" "length b < 2 ^ 31"
      using assms(2) size by (cases l) (auto simp: maxItemSize_def)
    then show ?thesis using decode_push [of scr pre b rest] assms(1) by simp
  qed
  then show "GetInstruction scr (int (length pre)) = Inr (lit_instruction l)"
    "Instruction_Size (lit_instruction l) = int (length (lit_code l))"
    using ip by (simp_all add: GetInstruction_def)
qed

lemma dispatch_literal:
  assumes "lit_ok l" "get_stack (EStack c) s = mk_ras xs" "count_fits s 1"
  shows "dispatch env c (lit_instruction l) s = (Val (), counted True 1 (put_stack (EStack c) (mk_ras (lit_item l # xs)) s))"
proof (cases "\<exists>i. l = L_Int i \<and> (i = - 1 \<or> 1 \<le> i \<and> i \<le> 16)")
  case True
  then obtain i where i: "l = L_Int i" "i = - 1 \<or> 1 \<le> i \<and> i \<le> 16" by blast
  have "i \<in> {- 1, 1, 2, 3, 4, 5, 6, 7, 8, 9, 10, 11, 12, 13, 14, 15, 16}" by (rule small_literal) (rule i(2))
  then have "dispatch env c (lit_instruction l) = op_PUSHINT env c (lit_instruction l) \<and>
      uint (ins_OpCode (lit_instruction l)) - uint OP_PUSH1 + 1 = i"
    by (auto simp: i(1) dispatch_def opcode_defs)
  then show ?thesis using assms i by (auto simp: op_PUSHINT_def run_simps)
next
  case False
  then obtain b where "lit_instruction l = push_instruction b" "lit_item l = ByteArray b" "int (length b) \<le> maxItemSize"
    using assms(1) by (cases l) (auto simp: maxItemSize_def)
  then show ?thesis using dispatch_push [OF _ assms(2,3)] by simp
qed

section \<open>Literals in a script\<close>

text \<open>The machine stands before the literals \<open>ls\<close> and then \<open>rest\<close>, with \<open>xs\<close> on the evaluation stack.\<close>

definition stands :: "cid \<Rightarrow> cid list \<Rightarrow> bytes \<Rightarrow> literal list \<Rightarrow> bytes \<Rightarrow> stack_item list \<Rightarrow> 'z engine_scheme \<Rightarrow> bool" where
  "stands c cs pre ls rest xs s \<longleftrightarrow> InvocationStack s = mk_ras (c # cs) \<and>
     s_value (Script (contexts s c)) = pre @ concat (map lit_code ls) @ rest \<and>
     InstructionPointer (contexts s c) = int (length pre) \<and>
     CurrentInstruction (contexts s c) = GetInstruction (Script (contexts s c)) (int (length pre)) \<and>
     get_stack (EStack c) s = mk_ras xs \<and>
     0 \<le> stackitem_count s \<and> stackitem_count s + int (length ls) \<le> maxStackSize \<and> VMState s = VM_NONE"

text \<open>All but the context that runs, its place in its script and the counts.\<close>

definition same_but :: "cid \<Rightarrow> 'z engine_scheme \<Rightarrow> 'z engine_scheme \<Rightarrow> bool" where
  "same_but c s s' \<longleftrightarrow> (\<forall>d. d \<noteq> c \<longrightarrow> contexts s' d = contexts s d) \<and>
     Script (contexts s' c) = Script (contexts s c) \<and> RVCount (contexts s' c) = RVCount (contexts s c) \<and>
     AltStack (contexts s' c) = AltStack (contexts s c) \<and>
     ResultStack s' = ResultStack s \<and> items_heap s' = items_heap s \<and> InvocationStack s' = InvocationStack s \<and>
     engine.more s' = engine.more s"

lemma same_but_refl [simp]: "same_but c s s"
  by (simp add: same_but_def)

lemma same_but_trans: "same_but c s t \<Longrightarrow> same_but c t u \<Longrightarrow> same_but c s u"
  by (simp add: same_but_def)

lemma same_but_step: "same_but c s (advanced c ip j (counted b n (put_stack (EStack c) t (ticked s))))"
  by (simp add: same_but_def advanced_def counted_def put_stack.simps update_context_def ticked_def)

text \<open>A hook that lets the literals pass as they are.\<close>

definition hook_free :: "('z engine_scheme, bool) m \<Rightarrow> 'z engine_scheme \<Rightarrow> bool" where
  "hook_free hook s \<longleftrightarrow> (\<forall>t c cs l. engine.more t = engine.more s \<longrightarrow> InvocationStack t = mk_ras (c # cs) \<longrightarrow>
     CurrentInstruction (contexts t c) = Inr (lit_instruction l) \<longrightarrow> lit_ok l \<longrightarrow> hook t = (Val True, t))"

lemma hook_freeD:
  "hook_free hook s \<Longrightarrow> engine.more t = engine.more s \<Longrightarrow> InvocationStack t = mk_ras (c # cs) \<Longrightarrow>
    CurrentInstruction (contexts t c) = Inr (lit_instruction l) \<Longrightarrow> lit_ok l \<Longrightarrow> hook t = (Val True, t)"
  unfolding hook_free_def by blast

lemma hook_free_same: "hook_free hook s \<Longrightarrow> engine.more t = engine.more s \<Longrightarrow> hook_free hook t"
  by (simp add: hook_free_def)

lemma hook_free_base: "hook_free PreExecuteInstruction s"
  by (simp add: hook_free_def base_hook)

text \<open>What follows the literals can be decoded.\<close>

definition decodes :: "bytes \<Rightarrow> bytes \<Rightarrow> bool" where
  "decodes pre rest \<longleftrightarrow> (\<forall>scr. s_value scr = pre @ rest \<longrightarrow> (\<exists>j. GetInstruction scr (int (length pre)) = Inr j))"

lemma decodes_end: "decodes pre []"
  by (simp add: decodes_def GetInstruction_def Script_Length_def)

lemma decodes_literal: "lit_ok l \<Longrightarrow> decodes pre (lit_code l @ rest)"
  using lit_code_append_decode(1) by (auto simp: decodes_def)

lemma stands_step:
  assumes "stands c cs pre (l # ls) rest xs s" "lit_ok l" "list_all lit_ok ls" "decodes (pre @ concat (map lit_code (l # ls))) rest"
    "hook_free hook s"
  shows "\<exists>t. ExecuteNext env hook PostExecuteInstruction s = t \<and> stands c cs (pre @ lit_code l) ls rest (lit_item l # xs) t \<and>
    same_but c s t \<and> stackitem_count t = stackitem_count s + 1"
proof -
  note st = assms(1) [unfolded stands_def]
  let ?scr = "Script (contexts s c)"
  note dec = lit_code_append_decode [of ?scr pre l "concat (map lit_code ls) @ rest", OF _ assms(2)]
  have dec': "GetInstruction ?scr (int (length pre)) = Inr (lit_instruction l)"
    "Instruction_Size (lit_instruction l) = int (length (lit_code l))"
    using dec st by simp_all
  obtain j where j: "GetInstruction ?scr (int (length pre) + int (length (lit_code l))) = Inr j"
  proof (cases ls)
    case Nil
    then have "\<exists>j. GetInstruction ?scr (int (length (pre @ lit_code l))) = Inr j"
      using assms(4) st unfolding decodes_def by simp
    then show ?thesis using that by auto
  next
    case (Cons l' ls')
    then show ?thesis
      using lit_code_append_decode(1) [of ?scr "pre @ lit_code l" l' "concat (map lit_code ls') @ rest"] st assms(3) that by simp
  qed
  let ?s2 = "counted True 1 (put_stack (EStack c) (mk_ras (lit_item l # xs)) (ticked s))"
  have fits: "count_fits (ticked s) 1" using st by (simp add: count_fits_def)
  have same: "CurrentInstruction (contexts ?s2 c) = CurrentInstruction (contexts s c)" "Script (contexts ?s2 c) = ?scr"
      "InstructionPointer (contexts ?s2 c) = int (length pre)"
    using st by (simp_all add: counted_put_context)
  have hook: "hook (ticked s) = (Val True, ticked s)"
    by (rule hook_freeD [OF assms(5), where l = l and c = c and cs = cs]) (use st dec' assms(2) in \<open>simp_all add: ticked_def\<close>)
  have run: "ExecuteNext env hook PostExecuteInstruction s =
      advanced c (InstructionPointer (contexts ?s2 c) + Instruction_Size (lit_instruction l)) j ?s2"
  proof (rule step_straight)
    show "hook (ticked s) = (Val True, ticked s)" by (rule hook)
    show "dispatch env c (lit_instruction l) (ticked s) = (Val (), ?s2)"
      by (rule dispatch_literal [OF assms(2) _ fits]) (use st in simp)
  qed (use st dec' j same in simp_all)
  have "stands c cs (pre @ lit_code l) ls rest (lit_item l # xs)
      (advanced c (InstructionPointer (contexts ?s2 c) + Instruction_Size (lit_instruction l)) j ?s2)"
    using st j dec' same
    by (simp add: stands_def counted_put_context CurrentInstruction_def)
  then show ?thesis using run same_but_step by (simp add: same)
qed

lemma stands_running: "stands c cs pre ls rest xs s \<Longrightarrow> running s"
  by (simp add: stands_def running_def vm_state_defs)

text \<open>Running the literals, whatever comes then.\<close>

lemma literals_run:
  assumes "stands c cs pre ls rest xs s" "list_all lit_ok ls" "decodes (pre @ concat (map lit_code ls)) rest" "hook_free hook s"
  shows "\<exists>t. loop_stepinto env hook PostExecuteInstruction s = loop_stepinto env hook PostExecuteInstruction t \<and>
    stands c cs (pre @ concat (map lit_code ls)) [] rest (rev (map lit_item ls) @ xs) t \<and> same_but c s t \<and>
    stackitem_count t = stackitem_count s + int (length ls)"
  using assms
proof (induction ls arbitrary: pre xs s)
  case Nil
  then show ?case by (intro exI [of _ s]) simp
next
  case (Cons l ls)
  obtain t where t: "ExecuteNext env hook PostExecuteInstruction s = t" "stands c cs (pre @ lit_code l) ls rest (lit_item l # xs) t"
      "same_but c s t" "stackitem_count t = stackitem_count s + 1"
    using stands_step [OF Cons.prems(1), of hook env] Cons.prems(2-4) by auto
  have "hook_free hook t" by (rule hook_free_same [OF Cons.prems(4)]) (use t(3) in \<open>simp add: same_but_def\<close>)
  then obtain u where u: "loop_stepinto env hook PostExecuteInstruction t = loop_stepinto env hook PostExecuteInstruction u"
      "stands c cs (pre @ concat (map lit_code (l # ls))) [] rest (rev (map lit_item (l # ls)) @ xs) u" "same_but c t u"
      "stackitem_count u = stackitem_count t + int (length ls)"
    using Cons.IH [OF t(2)] Cons.prems(2,3) by auto
  have "loop_stepinto env hook PostExecuteInstruction s = loop_stepinto env hook PostExecuteInstruction t"
    using stands_running [OF Cons.prems(1)] t(1) by (subst loop_stepinto.simps) simp
  then show ?case using u same_but_trans [OF t(3) u(3)] t(4) by (intro exI [of _ u]) simp
qed

section \<open>The end of a script\<close>

text \<open>At the end of its script a context returns: its items go to the caller, or to the result stack.\<close>

lemma end_current:
  assumes "stands c cs pre [] [] xs s"
  shows "CurrentInstruction (contexts s c) = Inr Instruction_RET"
  using assms by (simp add: stands_def GetInstruction_def Script_Length_def)

lemma dispatch_end: "dispatch env c Instruction_RET = op_RET env c Instruction_RET"
  by (simp add: dispatch_def Instruction_RET_def opcode_defs)

lemma last_return:
  assumes "stands c [] pre [] [] xs s" "hook (ticked s) = (Val True, ticked s)" "RVCount (contexts s c) = - 1"
    "ResultStack s = mk_ras []"
  shows "\<exists>t. loop_stepinto env hook PostExecuteInstruction s = Some t \<and> VMState t = VM_HALT \<and> ResultStack t = mk_ras xs"
proof -
  note st = assms(1) [unfolded stands_def]
  note cur = end_current [OF assms(1)]
  have "\<exists>t. op_RET env c Instruction_RET (ticked s) = (Ret True, t) \<and> VMState t = VM_HALT \<and> get_stack RStack t = mk_ras xs"
    using st assms(3,4) ras_CopyTo_mk(2) [of "int (length xs)" xs "[]"]
    by (cases "xs = []") (simp_all add: op_RET_def run_simps whenm_def count_fits_def, simp_all add: get_stack.simps ticked_def)
  then obtain t where t: "op_RET env c Instruction_RET (ticked s) = (Ret True, t)" "VMState t = VM_HALT" "get_stack RStack t = mk_ras xs"
    by blast
  have "ExecuteNext env hook PostExecuteInstruction s = t"
    by (rule step_runs [where s = s and c = c and cs = "[]" and i = Instruction_RET and ?s1.0 = "ticked s"])
      (use st t(1) cur assms(2) in \<open>simp_all add: catch_ret_def sq_def bnd_def dispatch_end\<close>)
  moreover have "loop_stepinto env hook PostExecuteInstruction t = Some t"
    using t(2) by (subst loop_stepinto.simps) (simp add: running_def vm_state_defs)
  ultimately show ?thesis
    using t stands_running [OF assms(1)] by (subst loop_stepinto.simps) (simp add: get_stack.simps)
qed

section \<open>Properties\<close>

lemma sb_ToArray_emits: "emits build bs () \<Longrightarrow> pool_wf p \<Longrightarrow> \<exists>p'. sb_ToArray build p = (Val (hexlify bs), p') \<and> pool_wf p'"
  using helper_ToArray_emits [of "\<lambda>_. build" "()" bs p] by (simp add: sb_ToArray_def helper_ToArray_def)

lemma emits_literals:
  "list_all2 (\<lambda>v l. pushed v = Some l) vs ls \<Longrightarrow> list_all lit_ok ls \<Longrightarrow> emits (mapm sb_push vs) (concat (map lit_code ls)) ()"
proof (induction vs ls rule: list_all2_induct)
  case (Cons v vs l ls)
  then show ?case using emits_sq [OF emits_sb_push [of v l]] by simp
qed (simp add: emits_ret)

lemma loaded_stands:
  assumes "list_all lit_ok ls" "int (length ls) \<le> maxStackSize"
  shows "stands 0 [] [] ls [] [] ((snd (LoadScript env (concat (map lit_code ls)) (- 1) ExecutionEngine))\<lparr>VMState := VM_NONE\<rparr>)"
  using assms
  by (simp add: stands_def LoadScript_def LoadScriptInternal_def ExecutionEngine_def run_simps Script_new_def
      ExecutionContext_def CurrentInstruction_def ras_empty_mk get_stack.simps)

text \<open>
  C7. A script built by pushing bytes and numbers, whatever their lengths and sizes, runs to its end: the
  machine halts, and the result stack holds the values that were pushed, the last on top.
\<close>

theorem built_script_runs:
  assumes "list_all2 (\<lambda>v l. pushed v = Some l) vs ls" "list_all lit_ok ls" "int (length ls) \<le> maxStackSize" "pool_wf p"
  shows "\<exists>scr p' e. sb_ToArray (mapm sb_push vs) p = (Val (hexlify scr), p') \<and> pool_wf p' \<and>
    Execute env PreExecuteInstruction PostExecuteInstruction (snd (LoadScript env scr (- 1) ExecutionEngine)) = Some (True, e) \<and>
    VMState e = VM_HALT \<and> ResultStack e = mk_ras (rev (map lit_item ls))"
proof -
  let ?scr = "concat (map lit_code ls)"
  let ?s = "snd (LoadScript env ?scr (- 1) ExecutionEngine)"
  obtain p' where p': "sb_ToArray (mapm sb_push vs) p = (Val (hexlify ?scr), p')" "pool_wf p'"
    using sb_ToArray_emits [OF emits_literals [OF assms(1,2)] assms(4)] by blast
  let ?t = "?s\<lparr>VMState := VM_NONE\<rparr>"
  obtain t where t: "loop_stepinto env PreExecuteInstruction PostExecuteInstruction ?t =
        loop_stepinto env PreExecuteInstruction PostExecuteInstruction t"
      "stands 0 [] ?scr [] [] (rev (map lit_item ls)) t" "same_but 0 ?t t"
    using literals_run [OF loaded_stands [OF assms(2,3)] assms(2) decodes_end hook_free_base] by auto
  have "RVCount (contexts t 0) = - 1" "ResultStack t = mk_ras []"
    using t(3) by (simp_all add: same_but_def LoadScript_def LoadScriptInternal_def ExecutionEngine_def run_simps
        ExecutionContext_def ras_empty_mk)
  then obtain e where e: "loop_stepinto env PreExecuteInstruction PostExecuteInstruction ?t = Some e"
      "VMState e = VM_HALT" "ResultStack e = mk_ras (rev (map lit_item ls))"
    using last_return [where hook = PreExecuteInstruction, OF t(2) base_hook] t(1) by auto
  have "clear_break (VMState ?s) = VM_NONE"
    by (simp add: LoadScript_def LoadScriptInternal_def ExecutionEngine_def run_simps vm_state_defs)
  then have "Execute env PreExecuteInstruction PostExecuteInstruction ?s = Some (True, e)"
    using e by (simp add: Execute_def vm_state_defs)
  then show ?thesis using p' e by blast
qed

end
