(* ===== verification/Verification_Properties.thy ===== *)
theory Verification_Properties
  imports Verification Script_Properties EC_Properties State_Properties
begin

text \<open>
  What the verification of a witness decides. The invocation script pushes its items and returns, the
  verification script pushes its own and ends with one instruction; the machine is followed through both.
\<close>

section \<open>Scripts that end with an instruction\<close>

lemma inner_end:
  assumes "stands c (d # cs) pre [] [] xs s" "c \<noteq> d" "hook (ticked s) = (Val True, ticked s)" "RVCount (contexts s c) = - 1"
    "AltStack (contexts s c) = mk_ras []" "EvaluationStack (contexts s d) = mk_ras ys" "AltStack (contexts s d) = mk_ras zs"
  shows "\<exists>t. ExecuteNext env hook PostExecuteInstruction s = t \<and> InvocationStack t = mk_ras (d # cs) \<and>
    contexts t d = (contexts s d)\<lparr>EvaluationStack := mk_ras (xs @ ys)\<rparr> \<and> ResultStack t = ResultStack s \<and>
    VMState t = VMState s \<and> stackitem_count t = stackitem_count s \<and> engine.more t = engine.more s"
proof -
  note st = assms(1) [unfolded stands_def]
  note cur = end_current [OF assms(1)]
  let ?u = "(ticked s)\<lparr>InvocationStack := mk_ras (d # cs)\<rparr>"
  let ?v = "put_stack (EStack d) (mk_ras (xs @ ys)) ?u"
  have stacks: "get_stack (EStack c) ?u = mk_ras xs" "get_stack (EStack d) ?u = mk_ras ys" "get_stack (AStack d) ?u = mk_ras zs"
      "get_stack (AStack c) ?u = mk_ras []" "count_fits ?u 0"
    using st assms(5-7) by (simp_all add: get_stack.simps ticked_def count_fits_def)
  let ?t = "counted False 0 (put_stack (AStack d) (mk_ras zs) ?v)"
  have "op_RET env c Instruction_RET (ticked s) = (Ret True, ?t)"
  proof (cases "xs = []")
    case True
    then have v: "?v = ?u" using stacks(2) put_get_stack [of "EStack d" ?u] by simp
    show ?thesis
      using st assms(2,4) stacks True ras_CopyTo_mk(1) [of "[]" zs]
      unfolding v by (simp add: op_RET_def run_simps whenm_def current_peek)
  next
    case False
    then show ?thesis
      using st assms(2,4) stacks ras_CopyTo_mk(2) [of "int (length xs)" xs ys] ras_CopyTo_mk(1) [of "[]" zs]
      by (simp add: op_RET_def run_simps whenm_def current_peek)
  qed
  then have "ExecuteNext env hook PostExecuteInstruction s = ?t"
    by (intro step_runs [where c = c and cs = "d # cs" and i = Instruction_RET and ?s1.0 = "ticked s"])
      (use st cur assms(3) in \<open>simp_all add: catch_ret_def sq_def bnd_def dispatch_end\<close>)
  then show ?thesis
    using assms(7) by (simp add: counted_def put_stack.simps update_context_def ticked_def)
qed

text \<open>The hook of the application engine charges nothing for a literal, and passes the end of a script.\<close>

lemma literal_opcode: "lit_ok l \<Longrightarrow> ins_OpCode (lit_instruction l) \<le> OP_PUSH16"
proof (cases "\<exists>i. l = L_Int i \<and> (i = - 1 \<or> 1 \<le> i \<and> i \<le> 16)")
  case True
  then obtain i where i: "l = L_Int i" "i = - 1 \<or> 1 \<le> i \<and> i \<le> 16" by blast
  have "i \<in> {- 1, 1, 2, 3, 4, 5, 6, 7, 8, 9, 10, 11, 12, 13, 14, 15, 16}" by (rule small_literal) (rule i(2))
  then show ?thesis by (auto simp: i(1) opcode_defs)
next
  case False
  then obtain b where "lit_instruction l = push_instruction b" by (cases l) auto
  moreover have "hd (push_code b) \<le> OP_PUSH16"
  proof (cases "length b \<le> 75")
    case True
    then show ?thesis
      using of_nat_byte_le [of "length b" 96] by (simp add: push_code_def push_prefix_def opcode_defs)
  qed (auto simp: push_code_def push_prefix_def opcode_defs)
  ultimately show ?thesis by (simp add: push_instruction_def)
qed

lemma free_instruction:
  assumes "InvocationStack s = mk_ras (c # cs)" "CurrentInstruction (contexts s c) = Inr i" "ins_OpCode i \<le> OP_NOP"
    "\<not> testMode s" "gas_consumed s \<le> gas_amount s"
  shows "app_PreExecuteInstruction env s = (Val True, s)"
proof (cases "InstructionPointer (contexts s c) \<ge> Script_Length (Script (contexts s c))")
  case True
  then show ?thesis using assms by (simp add: app_PreExecuteInstruction_def current_peek run_simps)
next
  case False
  have price: "GetPrice env s = (Val 0, s)"
    using assms(1-3) by (simp add: GetPrice_def current_peek run_simps Let_def)
  have ops: "ins_OpCode i \<notin> {OP_APPCALL, OP_TAILCALL, OP_CALL_ED, OP_CALL_EDT}"
    using assms(3) by (auto simp: opcode_defs)
  have "CheckDynamicInvoke env s = (Val True, s)"
    using assms(1,2) ops by (simp add: CheckDynamicInvoke_def current_peek run_simps Let_def)
  then show ?thesis
    using assms False
    by (simp add: app_PreExecuteInstruction_def current_peek run_simps bnd_def [of "GetPrice env"] pass_on_error_def price)
qed

lemma app_hook_end:
  assumes "stands c cs pre [] [] xs s"
  shows "app_PreExecuteInstruction env (ticked s) = (Val True, ticked s)"
  using assms by (simp add: app_PreExecuteInstruction_def current_peek run_simps stands_def Script_Length_def)

lemma same_fields:
  "engine.more t = engine.more s \<Longrightarrow>
     testMode t = testMode s \<and> gas_consumed t = gas_consumed s \<and> gas_amount t = gas_amount s"
  for s t :: "'z app_engine_scheme"
  by (cases s, cases t) simp

lemma hook_free_app:
  assumes "\<not> testMode s" "gas_consumed s \<le> gas_amount s"
  shows "hook_free (app_PreExecuteInstruction env) s"
  unfolding hook_free_def
proof (intro allI impI)
  fix t :: "'a app_engine_scheme" and c cs l
  assume t: "engine.more t = engine.more s" "InvocationStack t = mk_ras (c # cs)"
    "CurrentInstruction (contexts t c) = Inr (lit_instruction l)" "lit_ok l"
  show "app_PreExecuteInstruction env t = (Val True, t)"
  proof (rule free_instruction [OF t(2,3)])
    show "ins_OpCode (lit_instruction l) \<le> OP_NOP"
      using literal_opcode [OF t(4)] by (rule order_trans) (simp add: opcode_defs)
    show "\<not> testMode t" "gas_consumed t \<le> gas_amount t" using same_fields [OF t(1)] assms by simp_all
  qed
qed

text \<open>An instruction without operand at the end of a script, which the hook charges for.\<close>

lemma decode_single:
  assumes "s_value scr = pre @ [op]" "OperandSizePrefixTable op = 0" "OperandSizeTable op = 0"
  shows "GetInstruction scr (int (length pre)) = Inr \<lparr>ins_OpCode = op, ins_Operand = []\<rparr>"
proof -
  have "FromScriptAndIP scr (int (length pre)) = Inr \<lparr>ins_OpCode = op, ins_Operand = []\<rparr>"
    by (rule decode_operand [where hdr = "[]" and rest = "[]"]) (use assms in simp_all)
  then show ?thesis using assms(1) by (simp add: GetInstruction_def Script_Length_def)
qed

lemma final_step:
  assumes "stands c cs pre [] [op] ys s" "OperandSizePrefixTable op = 0" "OperandSizeTable op = 0"
    and hook: "hook (ticked s) = (Val True, s1)" "InvocationStack s1 = mk_ras (c # cs)" "contexts s1 = contexts s"
    and disp: "dispatch env c \<lparr>ins_OpCode = op, ins_Operand = []\<rparr> s1 = (Val (), s2)"
    and s2: "contexts s2 c = (contexts s c)\<lparr>EvaluationStack := mk_ras zs\<rparr>" "InvocationStack s2 = mk_ras (c # cs)"
      "VMState s2 = VM_NONE" "0 \<le> stackitem_count s2" "stackitem_count s2 \<le> maxStackSize"
  shows "\<exists>t. ExecuteNext env hook PostExecuteInstruction s = t \<and> stands c cs (pre @ [op]) [] [] zs t \<and>
    ResultStack t = ResultStack s2 \<and> RVCount (contexts t c) = RVCount (contexts s c)"
proof -
  note st = assms(1) [unfolded stands_def]
  let ?i = "\<lparr>ins_OpCode = op, ins_Operand = []\<rparr>"
  let ?scr = "Script (contexts s c)"
  have dec: "GetInstruction ?scr (int (length pre)) = Inr ?i" using decode_single [of ?scr pre op] st assms(2,3) by simp
  have size: "Instruction_Size ?i = 1" using assms(2,3) by (simp add: Instruction_Size_def)
  have end_of: "GetInstruction ?scr (int (length pre) + 1) = Inr Instruction_RET"
    using st by (simp add: GetInstruction_def Script_Length_def)
  have "ExecuteNext env hook PostExecuteInstruction s =
      advanced c (InstructionPointer (contexts s2 c) + Instruction_Size ?i) Instruction_RET s2"
  proof (rule step_straight)
    show "hook (ticked s) = (Val True, s1)" by (rule hook(1))
    show "dispatch env c ?i s1 = (Val (), s2)" by (rule disp)
  qed (use st dec size end_of s2 hook in simp_all)
  moreover have "stands c cs (pre @ [op]) [] [] zs (advanced c (int (length pre) + 1) Instruction_RET s2)"
    using st s2 end_of by (simp add: stands_def get_stack.simps CurrentInstruction_def add.commute)
  ultimately show ?thesis using s2 st size by (simp add: advanced_def update_context_def)
qed

section \<open>The run of a witness\<close>

lemma decodes_single:
  "OperandSizePrefixTable op = 0 \<Longrightarrow> OperandSizeTable op = 0 \<Longrightarrow> decodes pre [op]"
  using decode_single by (auto simp: decodes_def)

definition witness_start :: "'z app_engine_scheme app_env \<Rightarrow> 'z \<Rightarrow> bytes \<Rightarrow> bytes \<Rightarrow> 'z app_engine_scheme" where
  "witness_start env z v i = (witness_engine env z v i)\<lparr>VMState := VM_NONE\<rparr>"

lemma witness_start_fields:
  "InvocationStack (witness_start env z v i) = mk_ras [1, 0]"
  "contexts (witness_start env z v i) 1 = ExecutionContext (Script_new (Hash160 (primitives_of (vm_env env))) i) (- 1)"
  "contexts (witness_start env z v i) 0 = ExecutionContext (Script_new (Hash160 (primitives_of (vm_env env))) v) (- 1)"
  "ResultStack (witness_start env z v i) = mk_ras []" "stackitem_count (witness_start env z v i) = 0"
  "VMState (witness_start env z v i) = VM_NONE" "\<not> testMode (witness_start env z v i)"
  "gas_consumed (witness_start env z v i) = 0" "gas_amount (witness_start env z v i) = gas_free"
  by (simp_all add: witness_start_def witness_engine_def ApplicationEngine_def LoadScript_def LoadScriptInternal_def
      ExecutionEngine_def run_simps ras_empty_mk engine.defs)

lemma witness_run:
  fixes env :: "'z app_engine_scheme app_env" and z :: 'z
  defines "hook \<equiv> app_PreExecuteInstruction env"
  assumes "list_all lit_ok is" "list_all lit_ok vs" "int (length is + length vs) \<le> maxStackSize"
    "OperandSizePrefixTable op = 0" "OperandSizeTable op = 0"
  defines "s \<equiv> witness_start env z (concat (map lit_code vs) @ [op]) (concat (map lit_code is))"
  shows "\<exists>t. loop_stepinto (vm_env env) hook PostExecuteInstruction s = loop_stepinto (vm_env env) hook PostExecuteInstruction t \<and>
    stands 0 [] (concat (map lit_code vs)) [] [op] (rev (map lit_item vs) @ rev (map lit_item is)) t \<and>
    stackitem_count t = int (length is + length vs) \<and> ResultStack t = mk_ras [] \<and> RVCount (contexts t 0) = - 1 \<and>
    engine.more t = engine.more s"
proof -
  note start = witness_start_fields [of env z "concat (map lit_code vs) @ [op]" "concat (map lit_code is)", folded s_def]
  have free: "hook_free hook t" if "engine.more t = engine.more s" for t
    unfolding hook_def using same_fields [OF that] start
    by (intro hook_free_app) (simp_all add: gas_free_def)
  have "stands 1 [0] [] is [] [] s"
    using assms(4) start by (simp add: stands_def get_stack.simps ExecutionContext_def Script_new_def CurrentInstruction_def ras_empty_mk)
  from literals_run [OF this assms(2) decodes_end free [OF refl], of "vm_env env"]
  obtain t where t: "loop_stepinto (vm_env env) hook PostExecuteInstruction s = loop_stepinto (vm_env env) hook PostExecuteInstruction t"
      "stands 1 [0] (concat (map lit_code is)) [] [] (rev (map lit_item is)) t" "same_but 1 s t"
      "stackitem_count t = int (length is)"
    using start(5) by auto
  have t': "contexts t 0 = contexts s 0" "RVCount (contexts t 1) = - 1" "AltStack (contexts t 1) = mk_ras []"
      "ResultStack t = mk_ras []" "engine.more t = engine.more s"
    using t(3) start by (simp_all add: same_but_def ExecutionContext_def ras_empty_mk)
  have hook_t: "hook (ticked t) = (Val True, ticked t)" unfolding hook_def by (rule app_hook_end [OF t(2)])
  have "EvaluationStack (contexts t 0) = mk_ras []" "AltStack (contexts t 0) = mk_ras []"
    using t'(1) start(3) by (simp_all add: ExecutionContext_def ras_empty_mk)
  from inner_end [where hook = hook and env = "vm_env env", OF t(2) _ hook_t t'(2,3) this]
  obtain u where u: "ExecuteNext (vm_env env) hook PostExecuteInstruction t = u" "InvocationStack u = mk_ras [0]"
      "contexts u 0 = (contexts t 0)\<lparr>EvaluationStack := mk_ras (rev (map lit_item is))\<rparr>" "ResultStack u = mk_ras []"
      "VMState u = VM_NONE" "stackitem_count u = int (length is)" "engine.more u = engine.more s"
    using t t' by (auto simp: stands_def)
  have "stands 0 [] [] vs [op] (rev (map lit_item is)) u"
    using assms(4) u t'(1) start(3)
    by (simp add: stands_def get_stack.simps ExecutionContext_def Script_new_def CurrentInstruction_def)
  from literals_run [OF this assms(3) _ free [OF u(7)], of "vm_env env"]
  obtain w where w: "loop_stepinto (vm_env env) hook PostExecuteInstruction u = loop_stepinto (vm_env env) hook PostExecuteInstruction w"
      "stands 0 [] (concat (map lit_code vs)) [] [op] (rev (map lit_item vs) @ rev (map lit_item is)) w" "same_but 0 u w"
      "stackitem_count w = int (length is + length vs)"
    using decodes_single [OF assms(5,6)] u(6) by auto
  have "loop_stepinto (vm_env env) hook PostExecuteInstruction t = loop_stepinto (vm_env env) hook PostExecuteInstruction u"
    using stands_running [OF t(2)] u(1) by (subst loop_stepinto.simps) simp
  moreover have "RVCount (contexts w 0) = - 1" "ResultStack w = mk_ras []" "engine.more w = engine.more s"
    using w(3) u t'(1) start(3) by (simp_all add: same_but_def ExecutionContext_def)
  ultimately show ?thesis using t(1) w by auto
qed

section \<open>The last instruction decides\<close>

text \<open>A state in which the last instruction left one Boolean.\<close>

definition decided :: "nat \<Rightarrow> bool \<Rightarrow> int \<Rightarrow> 'z app_engine_scheme \<Rightarrow> 'z app_engine_scheme" where
  "decided j r n s = put_stack (EStack 0) (mk_ras [Boolean j r]) (with_new_id (counted True n s))"

lemma decided_fields [simp]:
  "contexts (decided j r n s) 0 = (contexts s 0)\<lparr>EvaluationStack := mk_ras [Boolean j r]\<rparr>"
  "InvocationStack (decided j r n s) = InvocationStack s" "VMState (decided j r n s) = VMState s"
  "stackitem_count (decided j r n s) = stackitem_count s + n" "ResultStack (decided j r n s) = ResultStack s"
  by (simp_all add: decided_def put_stack.simps update_context_def with_new_id_def counted_def)

lemma witness_decided:
  fixes env :: "'z app_engine_scheme app_env" and z :: 'z
  assumes "list_all lit_ok is" "list_all lit_ok vs" "int (length is + length vs) \<le> maxStackSize"
    and op: "OperandSizePrefixTable op = 0" "OperandSizeTable op = 0" "op \<notin> {OP_APPCALL, OP_TAILCALL, OP_CALL_ED, OP_CALL_EDT}"
    and price: "\<And>t. InvocationStack t = mk_ras [0] \<Longrightarrow> CurrentInstruction (contexts t 0) = Inr \<lparr>ins_OpCode = op, ins_Operand = []\<rparr> \<Longrightarrow>
      get_stack (EStack 0) t = mk_ras (rev (map lit_item vs) @ rev (map lit_item is)) \<Longrightarrow> GetPrice env t = (Val p, t)"
      "p * ratio \<le> gas_free"
    and disp: "\<And>t. get_stack (EStack 0) t = mk_ras (rev (map lit_item vs) @ rev (map lit_item is)) \<Longrightarrow>
      stackitem_count t = int (length is + length vs) \<Longrightarrow>
      dispatch (vm_env env) 0 \<lparr>ins_OpCode = op, ins_Operand = []\<rparr> t = (Val (), decided (heap_size t) r n t)"
    and n: "0 \<le> int (length is + length vs) + n" "n \<le> 0"
  shows "\<exists>e. app_Execute env (witness_engine env z (concat (map lit_code vs) @ [op]) (concat (map lit_code is))) = Some (True, e) \<and>
    accepting e = Inr r"
proof -
  let ?hook = "app_PreExecuteInstruction env" and ?i = "\<lparr>ins_OpCode = op, ins_Operand = []\<rparr>"
  let ?pre = "concat (map lit_code vs)" and ?items = "rev (map lit_item vs) @ rev (map lit_item is)"
  let ?s = "witness_start env z (?pre @ [op]) (concat (map lit_code is))"
  obtain t where t: "loop_stepinto (vm_env env) ?hook PostExecuteInstruction ?s = loop_stepinto (vm_env env) ?hook PostExecuteInstruction t"
      "stands 0 [] ?pre [] [op] ?items t" "stackitem_count t = int (length is + length vs)" "ResultStack t = mk_ras []"
      "RVCount (contexts t 0) = - 1" "engine.more t = engine.more ?s"
    using witness_run [where env = env and z = z, OF assms(1-3) op(1,2)] by blast
  note st = t(2) [unfolded stands_def]
  have cur: "CurrentInstruction (contexts t 0) = Inr ?i" using decode_single [of "Script (contexts t 0)" ?pre op] op st by simp
  have gas: "\<not> testMode t" "gas_consumed t = 0" "gas_amount t = gas_free"
    using same_fields [OF t(6)] witness_start_fields [of env z "?pre @ [op]" "concat (map lit_code is)"] by simp_all
  obtain g where g: "?hook (ticked t) = (Val True, (ticked t)\<lparr>gas_consumed := g\<rparr>)"
  proof -
    have "GetPrice env (ticked t) = (Val p, ticked t)" by (rule price) (use st cur in simp_all)
    moreover have "gas_consumed (ticked t) + p * ratio \<le> gas_amount (ticked t)" "\<not> testMode (ticked t)"
      using gas price(2) by (simp_all add: ticked_def)
    ultimately show ?thesis
      using app_hook_passes [of "ticked t" 0 "[]" ?i env p] st cur op(3) that by auto
  qed
  let ?t1 = "(ticked t)\<lparr>gas_consumed := g\<rparr>"
  have same: "contexts ?t1 = contexts t" "InvocationStack ?t1 = mk_ras [0]" "stackitem_count ?t1 = stackitem_count t"
      "ResultStack ?t1 = mk_ras []" "VMState ?t1 = VM_NONE" "get_stack (EStack 0) ?t1 = mk_ras ?items"
    using st t(4) by (simp_all add: ticked_def get_stack.simps)
  have d: "dispatch (vm_env env) 0 ?i ?t1 = (Val (), decided (heap_size ?t1) r n ?t1)" using same t(3) by (intro disp) simp_all
  obtain u where u: "ExecuteNext (vm_env env) ?hook PostExecuteInstruction t = u"
      "stands 0 [] (?pre @ [op]) [] [] [Boolean (heap_size ?t1) r] u" "ResultStack u = mk_ras []" "RVCount (contexts u 0) = - 1"
    using final_step [where hook = ?hook and env = "vm_env env" and zs = "[Boolean (heap_size ?t1) r]", OF t(2) op(1,2) g same(2,1) d] same st t(3,5) n by auto
  obtain e where e: "loop_stepinto (vm_env env) ?hook PostExecuteInstruction u = Some e" "VMState e = VM_HALT"
      "ResultStack e = mk_ras [Boolean (heap_size ?t1) r]"
    using last_return [where hook = ?hook, OF u(2) app_hook_end [OF u(2)] u(4,3)] by blast
  have "loop_stepinto (vm_env env) ?hook PostExecuteInstruction ?s = Some e"
    using t(1) u(1) e(1) stands_running [OF t(2)] by (simp, subst loop_stepinto.simps) simp
  moreover have "clear_break (VMState (witness_engine env z (?pre @ [op]) (concat (map lit_code is)))) = VM_NONE"
    by (simp add: witness_engine_def ApplicationEngine_def LoadScript_def LoadScriptInternal_def ExecutionEngine_def run_simps
        vm_state_defs engine.defs)
  ultimately have "app_Execute env (witness_engine env z (?pre @ [op]) (concat (map lit_code is))) = Some (True, e)"
    using e(2) by (simp add: app_Execute_def Execute_def witness_start_def vm_state_defs)
  then show ?thesis using e(3) by (intro exI [of _ e]) simp
qed

section \<open>The redeem scripts\<close>

text \<open>A point whose first coordinate fits the 32 bytes of its encoding.\<close>

definition key_ok :: "curve \<Rightarrow> ec_point \<Rightarrow> bool" where
  "key_ok C P \<longleftrightarrow> \<not> IsInfinity C P \<and> 0 \<le> ec_x P \<and> ec_x P < 2 ^ 256"

definition key_literal :: "curve \<Rightarrow> ec_point \<Rightarrow> literal" where
  "key_literal C P = L_Bytes (ec_bytes C P)"

lemma encode_key: "key_ok C P \<Longrightarrow> encode_point C P True = Inr (hexlify (ec_bytes C P))"
  by (simp add: key_ok_def encode_point_ok)

lemma key_literal_ok [simp]: "lit_ok (key_literal C P)"
  by (simp add: key_literal_def ec_bytes_def maxItemSize_def)

lemma signature_script:
  assumes "key_ok C P" "pool_wf p"
  shows "\<exists>p'. CreateSignatureRedeemScript C P p = (Val (hexlify (lit_code (key_literal C P) @ [OP_CHECKSIG])), p') \<and> pool_wf p'"
proof -
  have "emits (sb_push (P_Bytes (hexlify (ec_bytes C P)))) (lit_code (key_literal C P)) ()"
    by (rule emits_sb_push [OF _ key_literal_ok]) (simp add: key_literal_def)
  then have "emits (push_point C P) (lit_code (key_literal C P)) ()"
    unfolding push_point_def using assms(1) by (intro emits_bnd_lft [OF encode_key]) (simp_all add: key_ok_def)
  from emits_sq [OF this emits_sb_add] show ?thesis
    unfolding CreateSignatureRedeemScript_def using sb_ToArray_emits assms(2) by blast
qed

lemma key_text_ok: "key_ok C P \<Longrightarrow> key_text C P = Inr (ascii_points (hexlify (ec_bytes C P)))"
  by (simp add: key_text_def encode_key ascii_points_def)

lemma emap_key_text: "list_all (key_ok C) Ps \<Longrightarrow> emap (key_text C) Ps = Inr (map (\<lambda>P. ascii_points (hexlify (ec_bytes C P))) Ps)"
  by (induction Ps) (simp_all add: key_text_ok)

lemma mapm_map: "mapm f (map g xs) = mapm (\<lambda>x. f (g x)) xs"
  by (induction xs) simp_all

lemma small_int_ok: "- 1 \<le> i \<Longrightarrow> i \<le> 16 \<Longrightarrow> lit_ok (L_Int i)"
  using encoded_length_le_iff [of i 0] by (simp add: maxItemSize_def)

lemma set_py_insort [simp]: "set (py_insort lt x xs) = insert x (set xs)"
  by (induction xs) auto

lemma py_sort_simps [simp]: "py_sort lt [] = []" "py_sort lt (x # xs) = py_insort lt x (py_sort lt xs)"
  by (simp_all add: py_sort_def)

lemma set_py_sort [simp]: "set (py_sort lt xs) = set xs"
  by (induction xs) simp_all

lemma length_py_insort [simp]: "length (py_insort lt x xs) = Suc (length xs)"
  by (induction xs) auto

lemma length_py_sort [simp]: "length (py_sort lt xs) = length xs"
  by (induction xs) simp_all

definition sorted_keys :: "curve \<Rightarrow> ec_point list \<Rightarrow> bytes list" where
  "sorted_keys C Ps = map (ec_bytes C) (py_sort (ec_lt C) Ps)"

definition multisig_literals :: "curve \<Rightarrow> int \<Rightarrow> ec_point list \<Rightarrow> literal list" where
  "multisig_literals C m Ps = L_Int m # map L_Bytes (sorted_keys C Ps) @ [L_Int (int (length Ps))]"

lemma length_sorted_keys [simp]: "length (sorted_keys C Ps) = length Ps"
  by (simp add: sorted_keys_def)

lemma sorted_keys_Nil [simp]: "sorted_keys C Ps = [] \<longleftrightarrow> Ps = []"
  using length_sorted_keys [of C Ps] by (metis length_0_conv)

lemma multisig_script:
  assumes "list_all (key_ok C) Ps" "1 \<le> m" "m \<le> int (length Ps)" "length Ps \<le> 16" "pool_wf p"
  shows "\<exists>p'. CreateMultiSigRedeemScript C m Ps p =
    (Val (hexlify (concat (map lit_code (multisig_literals C m Ps)) @ [OP_CHECKMULTISIG])), p') \<and> pool_wf p'"
proof -
  let ?ks = "py_sort (ec_lt C) Ps"
  let ?texts = "map (\<lambda>P. ascii_points (hexlify (ec_bytes C P))) ?ks"
  have ks: "list_all (key_ok C) ?ks" using assms(1) by (simp add: list_all_iff)
  have ints: "emits (sb_push (P_Int i)) (lit_code (L_Int i)) ()" if "0 \<le> i" "i \<le> 16" for i
    by (rule emits_sb_push [OF _ small_int_ok]) (use that in simp_all)
  have "list_all2 (\<lambda>v l. pushed v = Some l) (map P_Str ?texts) (map L_Bytes (sorted_keys C Ps))"
    by (simp add: sorted_keys_def list_all2_map1 list_all2_map2 list_all2_same unhexlify_str_hexlify)
  moreover have "list_all lit_ok (map L_Bytes (sorted_keys C Ps))"
    by (simp add: sorted_keys_def list_all_iff ec_bytes_def maxItemSize_def)
  ultimately have keys: "emits (mapm (\<lambda>key. sb_push (P_Str key)) ?texts) (concat (map lit_code (map L_Bytes (sorted_keys C Ps)))) ()"
    using emits_literals [of "map P_Str ?texts"] by (simp add: mapm_map del: map_map)
  have "emits (sq (sb_push (P_Int m)) (bnd (lft (emap (key_text C) ?ks)) (\<lambda>keys.
      sq (mapm (\<lambda>key. sb_push (P_Str key)) keys) (sq (sb_push (P_Int (int (length Ps)))) (sb_add OP_CHECKMULTISIG)))))
      (lit_code (L_Int m) @ concat (map lit_code (map L_Bytes (sorted_keys C Ps))) @ lit_code (L_Int (int (length Ps))) @ [OP_CHECKMULTISIG]) ()"
    by (rule emits_sq [OF ints], use assms(2-4) in simp, use assms(2-4) in simp, rule emits_bnd_lft [OF emap_key_text [OF ks]], rule emits_sq [OF keys],
        rule emits_sq [OF ints emits_sb_add]) (use assms(4) in simp_all)
  from sb_ToArray_emits [OF this assms(5)] show ?thesis
    using assms(2-4) by (simp add: CreateMultiSigRedeemScript_def multisig_literals_def del: lit_code.simps)
qed

text \<open>A number above 16 cannot be pushed, so there is no redeem script for 17 signatures.\<close>

lemma multisig_above_16:
  assumes "16 < m" "m \<le> int (length Ps)" "length Ps \<le> 1024"
  shows "fst (CreateMultiSigRedeemScript C m Ps p) = Exc AttributeError"
proof -
  have "sb_push (P_Int m) s = (Exc AttributeError, s)" for s
    using assms(1) by (simp add: sb_push_def push_int_def throw_def)
  then show ?thesis
    using assms
    by (simp add: CreateMultiSigRedeemScript_def sb_ToArray_def GetStream_def on_stream_def sq_def bnd_def gets_def modify_def ret_def
        Let_def stream_seek_def split: list.splits)
qed

section \<open>Properties\<close>

text \<open>The machine verifies for an object whose message it has.\<close>

definition verifies_for :: "'z app_engine_scheme app_env \<Rightarrow> bytes \<Rightarrow> bool" where
  "verifies_for env msg \<longleftrightarrow> container (vm_env env) \<noteq> None \<and> GetMessage (vm_env env) = Inr msg"

lemma dispatch_CHECKSIG: "dispatch env c \<lparr>ins_OpCode = OP_CHECKSIG, ins_Operand = []\<rparr> = op_CHECKSIG env c \<lparr>ins_OpCode = OP_CHECKSIG, ins_Operand = []\<rparr>"
  by (simp add: dispatch_def opcode_defs)

lemma dispatch_CHECKMULTISIG:
  "dispatch env c \<lparr>ins_OpCode = OP_CHECKMULTISIG, ins_Operand = []\<rparr> = op_CHECKMULTISIG env c \<lparr>ins_OpCode = OP_CHECKMULTISIG, ins_Operand = []\<rparr>"
  by (simp add: dispatch_def opcode_defs)

lemma checksig_tables:
  "OperandSizePrefixTable OP_CHECKSIG = 0" "OperandSizeTable OP_CHECKSIG = 0"
  "OperandSizePrefixTable OP_CHECKMULTISIG = 0" "OperandSizeTable OP_CHECKMULTISIG = 0"
  "OP_CHECKSIG \<notin> {OP_APPCALL, OP_TAILCALL, OP_CALL_ED, OP_CALL_EDT}"
  "OP_CHECKMULTISIG \<notin> {OP_APPCALL, OP_TAILCALL, OP_CALL_ED, OP_CALL_EDT}"
  by (simp_all add: OperandSizePrefixTable_def OperandSizeTable_def opcode_defs)

lemma counted_new_id: "counted b n (with_new_id s) = with_new_id (counted b n s)"
  by (simp add: counted_def with_new_id_def)

lemma signature_run:
  assumes "verifies_for env msg" "lit_ok (L_Bytes sig)" "lit_ok (L_Bytes key)"
  shows "\<exists>e. app_Execute env (witness_engine env z (push_code key @ [OP_CHECKSIG]) (push_code sig)) = Some (True, e) \<and>
    accepting e = Inr (VerifySignature (primitives_of (vm_env env)) msg sig key True = Inr True)"
proof -
  let ?r = "VerifySignature (primitives_of (vm_env env)) msg sig key True"
  have or_false: "or_false ?r \<longleftrightarrow> ?r = Inr True" by (cases ?r) auto
  have disp: "dispatch (vm_env env) 0 \<lparr>ins_OpCode = OP_CHECKSIG, ins_Operand = []\<rparr> t =
      (Val (), decided (heap_size t) (?r = Inr True) (- 1) t)"
    if "get_stack (EStack 0) t = mk_ras [ByteArray key, ByteArray sig]" "stackitem_count t = 2" for t
  proof -
    have "count_fits t (- 1)" using that(2) by (simp add: count_fits_def maxStackSize_def)
    then show ?thesis
      using that(1) assms(1) or_false
      by (simp add: dispatch_CHECKSIG op_CHECKSIG_def run_simps verifies_for_def decided_def counted_put with_new_id_put counted_new_id)
  qed
  have price: "GetPrice env t = (Val 100, t)"
    if "InvocationStack t = mk_ras [0]" "CurrentInstruction (contexts t 0) = Inr \<lparr>ins_OpCode = OP_CHECKSIG, ins_Operand = []\<rparr>" for t
    using that by (simp add: GetPrice_def current_peek run_simps Let_def opcode_defs)
  show ?thesis
    using witness_decided [of "[L_Bytes sig]" "[L_Bytes key]" OP_CHECKSIG env 100 "?r = Inr True" "- 1"] assms checksig_tables price disp
    by (simp add: maxStackSize_def ratio_def gas_free_def)
qed

text \<open>
  C5. The witness of a standard account. The redeem script made for a key is the script that pushes the
  encoded key and checks a signature; with an invocation script that pushes a signature, the verification
  ends, and it accepts exactly when the script has the hash that is asked for and the signature of the
  message is valid for the key.
\<close>

theorem signature_witness_decides:
  assumes "key_ok C P" "pool_wf p" "verifies_for env msg" "lit_ok (L_Bytes sig)"
  shows "\<exists>red p'. CreateSignatureRedeemScript C P p = (Val (hexlify red), p') \<and> pool_wf p' \<and>
    (\<forall>z h. \<exists>z'. VerifyWitness env z h \<lparr>InvocationScript = push_code sig, VerificationScript = red\<rparr> =
      Some (ebind (Crypto_ToScriptHash (primitives_of (vm_env env)) red False) (\<lambda>v.
        Inr (uint_eq h v \<and> VerifySignature (primitives_of (vm_env env)) msg sig (ec_bytes C P) True = Inr True)), z'))"
proof -
  let ?red = "push_code (ec_bytes C P) @ [OP_CHECKSIG]"
  obtain p' where p': "CreateSignatureRedeemScript C P p = (Val (hexlify ?red), p')" "pool_wf p'"
    using signature_script [OF assms(1,2)] by (auto simp: key_literal_def)
  have "\<exists>z'. VerifyWitness env z h \<lparr>InvocationScript = push_code sig, VerificationScript = ?red\<rparr> =
      Some (ebind (Crypto_ToScriptHash (primitives_of (vm_env env)) ?red False) (\<lambda>v.
        Inr (uint_eq h v \<and> VerifySignature (primitives_of (vm_env env)) msg sig (ec_bytes C P) True = Inr True)), z')" for z h
  proof -
    obtain e where e: "app_Execute env (witness_engine env z ?red (push_code sig)) = Some (True, e)"
        "accepting e = Inr (VerifySignature (primitives_of (vm_env env)) msg sig (ec_bytes C P) True = Inr True)"
      using signature_run [OF assms(3,4)] key_literal_ok [of C P] unfolding key_literal_def by blast
    then show ?thesis
      by (cases "Crypto_ToScriptHash (primitives_of (vm_env env)) ?red False")
        (simp_all add: VerifyWitness_def verification_program_def)
  qed
  then show ?thesis using p' by blast
qed

lemma multisig_items:
  assumes "1 \<le> m" "m \<le> int (length Ps)" "length Ps \<le> 16" "int (length sigs) = m"
  shows "rev (map lit_item (multisig_literals C m Ps)) @ rev (map lit_item (map L_Bytes sigs)) =
    Integer (int (length (rev (sorted_keys C Ps)))) # map ByteArray (rev (sorted_keys C Ps)) @
    Integer (int (length (rev sigs))) # map ByteArray (rev sigs)"
  using assms by (simp add: multisig_literals_def sorted_keys_def rev_map comp_def)

lemma rev_subseq: "subseq xs ys \<Longrightarrow> subseq (rev xs) (rev ys)"
proof (induction rule: list_emb.induct)
  case (list_emb_Cons2 x y xs ys)
  then show ?case using list_emb_append_mono [of "(=)" "rev xs" "rev ys" "[x]" "[y]"] by simp
qed (simp_all add: subseq_rev_drop_many)

lemma matching_rev: "matching V (rev sigs) (rev keys) \<longleftrightarrow> matching V sigs keys"
proof -
  have "matching V (rev ss) (rev kk)" if "matching V ss kk" for ss kk
    using that unfolding matching_def by (metis list_all2_rev rev_subseq)
  from this [of sigs keys] this [of "rev sigs" "rev keys"] show ?thesis by auto
qed

lemma multisig_run:
  fixes env :: "'z app_engine_scheme app_env" and z :: 'z and msg :: bytes
  defines "V \<equiv> verifies (primitives_of (vm_env env)) msg"
  assumes "verifies_for env msg" "1 \<le> m" "m \<le> int (length Ps)" "length Ps \<le> 16" "int (length sigs) = m"
    "list_all (\<lambda>sig. lit_ok (L_Bytes sig)) sigs" "list_all (readable (primitives_of (vm_env env))) (sorted_keys C Ps)"
  shows "\<exists>e. app_Execute env (witness_engine env z (concat (map lit_code (multisig_literals C m Ps)) @ [OP_CHECKMULTISIG])
      (concat (map push_code sigs))) = Some (True, e) \<and> accepting e = Inr (matching V sigs (sorted_keys C Ps))"
proof -
  let ?i = "\<lparr>ins_OpCode = OP_CHECKMULTISIG, ins_Operand = []\<rparr>"
  let ?keys = "rev (sorted_keys C Ps)"
  let ?is = "map L_Bytes sigs" and ?vs = "multisig_literals C m Ps"
  note items = multisig_items [OF assms(3-6), of C]
  have len: "length (?is) + length ?vs = length ?keys + length (rev sigs) + 2" "length ?keys = length Ps"
    by (simp_all add: multisig_literals_def sorted_keys_def)
  have disp: "dispatch (vm_env env) 0 ?i t =
      (Val (), decided (heap_size t) (matching V sigs (sorted_keys C Ps)) (- int (length Ps) - int (length sigs) - 2) t)"
    if "get_stack (EStack 0) t = mk_ras (rev (map lit_item ?vs) @ rev (map lit_item ?is))"
      "stackitem_count t = int (length ?is + length ?vs)" for t :: "'z app_engine_scheme"
  proof -
    have nonempty: "Ps \<noteq> []" "sigs \<noteq> []" using assms(3,4,6) by auto
    have all: "takeWhile (readable (primitives_of (vm_env env))) ?keys = ?keys"
      using assms(8) by (intro takeWhile_eq_all_conv [THEN iffD2]) (simp add: list_all_iff)
    obtain ob where ob: "container (vm_env env) = Some ob" "GetMessage (vm_env env) = Inr msg"
      using assms(2) by (auto simp: verifies_for_def)
    have "count_fits t (- int (length ?keys) - 1)" "count_fits t (- int (length ?keys) - int (length (rev sigs)) - 2)"
      using that(2) len assms(4-6) by (simp_all add: count_fits_def maxStackSize_def)
    moreover have "get_stack (EStack 0) t = mk_ras (Integer (int (length ?keys)) # map ByteArray ?keys @
        Integer (int (length (rev sigs))) # map ByteArray (rev sigs) @ [])"
      using that(1) items by simp
    ultimately have "op_CHECKMULTISIG (vm_env env) 0 ?i t =
        (Val (), put_stack (EStack 0) (mk_ras [Boolean (heap_size t) (matching V (rev sigs) ?keys)])
          (with_new_id (counted True (- int (length ?keys) - int (length (rev sigs)) - 2) t)))"
      using nonempty run_CHECKMULTISIG [of 0 t ?keys "rev sigs" "[]" "vm_env env" ob msg ?i] assms(3-6) len ob unfolding V_def all by auto
    then show ?thesis by (simp add: dispatch_CHECKMULTISIG decided_def matching_rev len(2))
  qed
  have price: "GetPrice env t = (Val (100 * int (length Ps)), t)"
    if "InvocationStack t = mk_ras [0]" "CurrentInstruction (contexts t 0) = Inr ?i"
      "get_stack (EStack 0) t = mk_ras (rev (map lit_item ?vs) @ rev (map lit_item ?is))" for t :: "'z app_engine_scheme"
  proof -
    have st: "EvaluationStack (contexts t 0) = mk_ras (Integer (int (length ?keys)) # map ByteArray ?keys @
        Integer (int (length (rev sigs))) # map ByteArray (rev sigs))"
      using that(3) items by (simp add: get_stack.simps)
    have "Ps \<noteq> []" using assms(3,4) by auto
    then show ?thesis
      using that(1,2) st len(2) run_Peek [of "EStack 0" t _ 0]
      by (simp add: GetPrice_def current_peek run_simps Let_def opcode_defs get_stack.simps)
  qed
  have "concat (map push_code sigs) = concat (map lit_code ?is)" by (simp add: comp_def)
  moreover have "list_all lit_ok ?is" "list_all lit_ok ?vs"
    using assms(3-5,7) by (simp_all add: list_all_iff multisig_literals_def sorted_keys_def ec_bytes_def maxItemSize_def small_int_ok del: lit_ok.simps(2))
  ultimately show ?thesis
    using witness_decided [of ?is ?vs OP_CHECKMULTISIG env "100 * int (length Ps)" "matching V sigs (sorted_keys C Ps)"
        "- int (length Ps) - int (length sigs) - 2"] checksig_tables price disp len assms(4-6)
    by (simp add: maxStackSize_def ratio_def gas_free_def)
qed

text \<open>
  C6. The witness of an account of several keys. The redeem script for \<open>m\<close> of up to 16 keys holds them in
  the order of the points; with an invocation script of \<open>m\<close> signatures the verification ends, and it accepts
  exactly when the script has the hash that is asked for and every signature can be given a key of its own,
  in that order. The keys of the script are assumed to be such that the library decompresses them.
\<close>

theorem multisig_witness_decides:
  assumes "list_all (key_ok C) Ps" "1 \<le> m" "m \<le> int (length Ps)" "length Ps \<le> 16" "pool_wf p"
    and "verifies_for env msg" "int (length sigs) = m" "list_all (\<lambda>sig. lit_ok (L_Bytes sig)) sigs"
    and "list_all (\<lambda>k. \<exists>d. decompress (primitives_of (vm_env env)) k = Inr d) (sorted_keys C Ps)"
  shows "\<exists>red p'. CreateMultiSigRedeemScript C m Ps p = (Val (hexlify red), p') \<and> pool_wf p' \<and>
    (\<forall>z h. \<exists>z'. VerifyWitness env z h \<lparr>InvocationScript = concat (map push_code sigs), VerificationScript = red\<rparr> =
      Some (ebind (Crypto_ToScriptHash (primitives_of (vm_env env)) red False) (\<lambda>v.
        Inr (uint_eq h v \<and> matching (\<lambda>sig k. VerifySignature (primitives_of (vm_env env)) msg sig k True = Inr True)
          sigs (sorted_keys C Ps))), z'))"
proof -
  let ?V = "\<lambda>sig k. VerifySignature (primitives_of (vm_env env)) msg sig k True = Inr True"
  have V: "verifies (primitives_of (vm_env env)) msg = ?V" by (simp add: verifies_def fun_eq_iff)
  have read: "list_all (readable (primitives_of (vm_env env))) (sorted_keys C Ps)"
    using assms(9) by (simp add: list_all_iff readable_def)
  let ?red = "concat (map lit_code (multisig_literals C m Ps)) @ [OP_CHECKMULTISIG]"
  obtain p' where p': "CreateMultiSigRedeemScript C m Ps p = (Val (hexlify ?red), p')" "pool_wf p'"
    using multisig_script [OF assms(1-5)] by auto
  have "\<exists>z'. VerifyWitness env z h \<lparr>InvocationScript = concat (map push_code sigs), VerificationScript = ?red\<rparr> =
      Some (ebind (Crypto_ToScriptHash (primitives_of (vm_env env)) ?red False) (\<lambda>v.
        Inr (uint_eq h v \<and> matching ?V sigs (sorted_keys C Ps))), z')" for z h
  proof -
    obtain e where e: "app_Execute env (witness_engine env z ?red (concat (map push_code sigs))) = Some (True, e)"
        "accepting e = Inr (matching ?V sigs (sorted_keys C Ps))"
      using multisig_run [where C = C, OF assms(6,2-4,7,8) read] unfolding V by auto
    then show ?thesis
      by (cases "Crypto_ToScriptHash (primitives_of (vm_env env)) ?red False")
        (simp_all add: VerifyWitness_def verification_program_def)
  qed
  then show ?thesis using p' by blast
qed

text \<open>
  C8. What a verification that accepts guarantees: the hashes could be found, there is one witness for
  each of them, and every witness that carries a script carries one with the hash it stands for.
\<close>

theorem accepted_scripts_hash:
  assumes "VerifyWitnesses env renew z script_hashes ws = Some (Inr True)"
  shows "\<exists>hs. script_hashes = Inr hs \<and> list_all2 (\<lambda>h w. VerificationScript w \<noteq> [] \<longrightarrow>
    (\<exists>v. Crypto_ToScriptHash (primitives_of (vm_env env)) (VerificationScript w) False = Inr v \<and> Data h = Data v)) hs ws"
proof -
  obtain hs where hs: "script_hashes = Inr hs" "list_all2 (\<lambda>h w. \<exists>z z'. VerifyWitness env z h w = Some (Inr True, z')) hs ws"
    using assms by (auto dest!: VerifyWitnesses_accepts)
  from hs(2) have "list_all2 (\<lambda>h w. VerificationScript w \<noteq> [] \<longrightarrow>
      (\<exists>v. Crypto_ToScriptHash (primitives_of (vm_env env)) (VerificationScript w) False = Inr v \<and> Data h = Data v)) hs ws"
    by (rule list_all2_mono) (use VerifyWitness_hash in fast)
  with hs(1) show ?thesis by blast
qed

section \<open>Instances\<close>

lemma sample_key_ok: "key_ok sample_curve sample_point"
  by (simp add: key_ok_def sample_point_def sample_curve_def ec_make_def IsInfinity_def ec_Infinity_def ec_eq_def f_eq_def)

lemma sample_verifies: "verifies_for sample_app_env []"
  by (simp add: verifies_for_def sample_app_env_def sample_env_def)

lemma pool_wf_sample: "pool_wf sample_pool"
  by (simp add: pool_wf_def sample_pool_def)

lemma sample_literals: "list_all lit_ok [L_Int 5, L_Bytes [1, 2], L_Int (- 1)]"
  by (simp add: small_int_ok del: lit_ok.simps(2)) (simp add: maxItemSize_def)

lemma built_script_runs_witness:
  "\<exists>scr p' e. sb_ToArray (mapm sb_push [P_BigInteger 5, P_ByteArray [1, 2], P_Int (- 1)]) sample_pool = (Val (hexlify scr), p') \<and>
    pool_wf p' \<and> Execute sample_env PreExecuteInstruction PostExecuteInstruction (snd (LoadScript sample_env scr (- 1) ExecutionEngine)) =
      Some (True, e) \<and> VMState e = VM_HALT \<and>
    ResultStack e = mk_ras (rev (map lit_item [L_Int 5, L_Bytes [1, 2], L_Int (- 1)]))"
  by (rule built_script_runs [OF _ sample_literals _ pool_wf_sample]) (simp_all add: maxStackSize_def)

lemma signature_witness_decides_witness:
  "\<exists>red p'. CreateSignatureRedeemScript sample_curve sample_point sample_pool = (Val (hexlify red), p') \<and> pool_wf p' \<and>
    (\<forall>z h. \<exists>z'. VerifyWitness sample_app_env z h \<lparr>InvocationScript = push_code [9], VerificationScript = red\<rparr> =
      Some (ebind (Crypto_ToScriptHash (primitives_of (vm_env sample_app_env)) red False) (\<lambda>v.
        Inr (uint_eq h v \<and>
          VerifySignature (primitives_of (vm_env sample_app_env)) [] [9] (ec_bytes sample_curve sample_point) True = Inr True)), z'))"
  by (rule signature_witness_decides [OF sample_key_ok pool_wf_sample sample_verifies]) (simp add: maxItemSize_def)

lemma sample_signatures:
  "VerifySignature (primitives_of (vm_env sample_app_env)) [] sig k True = Inr ((if length k = 33 then tl k else k) = sig)"
  by (simp add: sample_app_env_def sample_env_def VerifySignature_def sample_primitives_def py_slice_from_def py_clamp_def drop_Suc)

lemma multisig_witness_decides_witness:
  "\<exists>red p'. CreateMultiSigRedeemScript sample_curve 1 [sample_point] sample_pool = (Val (hexlify red), p') \<and> pool_wf p' \<and>
    (\<forall>z h. \<exists>z'. VerifyWitness sample_app_env z h \<lparr>InvocationScript = concat (map push_code [[9]]), VerificationScript = red\<rparr> =
      Some (ebind (Crypto_ToScriptHash (primitives_of (vm_env sample_app_env)) red False) (\<lambda>v.
        Inr (uint_eq h v \<and> matching (\<lambda>sig k. VerifySignature (primitives_of (vm_env sample_app_env)) [] sig k True = Inr True) [[9]]
          (sorted_keys sample_curve [sample_point]))), z'))"
  by (rule multisig_witness_decides [OF _ _ _ _ pool_wf_sample sample_verifies])
    (simp_all add: sample_key_ok maxItemSize_def list_all_iff sample_app_env_def sample_env_def sample_primitives_def)

definition sample_witness :: witness where
  "sample_witness = \<lparr>InvocationScript = push_code [7], VerificationScript = push_code [7] @ [OP_CHECKSIG]\<rparr>"

lemma sample_hash: "\<exists>h. Crypto_ToScriptHash (primitives_of (vm_env sample_app_env)) data False = Inr h"
proof -
  let ?c = "primitives_of (vm_env sample_app_env)"
  have len: "length (Hash160 ?c data) = 20"
    by (simp add: Hash160_def bin_hash160Bytes_def sample_app_env_def sample_env_def sample_primitives_def)
  then have "\<exists>h. UInt160 (Some (Hash160 ?c data)) = Inr h" by (simp add: UInt160_def UIntBase_new_def)
  then show ?thesis using ToScriptHash_eq [OF len] by simp
qed

lemma sample_accepted: "\<exists>h. VerifyWitnesses sample_app_env id () (Inr [h]) [sample_witness] = Some (Inr True)"
proof -
  obtain h where h: "Crypto_ToScriptHash (primitives_of (vm_env sample_app_env)) (push_code [7] @ [OP_CHECKSIG]) False = Inr h"
    using sample_hash by blast
  have "VerifySignature (primitives_of (vm_env sample_app_env)) [] [7] [7] True = Inr True"
    using sample_signatures [of "[7]" "[7]"] by simp
  then have "\<exists>z. VerifyWitness sample_app_env () h sample_witness = Some (Inr True, z)"
    using signature_run [OF sample_verifies, of "[7]" "[7]" "()"] h
    by (auto simp: VerifyWitness_def verification_program_def sample_witness_def uint_eq_def maxItemSize_def)
  then show ?thesis by (intro exI [of _ h]) (auto simp: VerifyWitnesses_def)
qed

lemma accepted_scripts_hash_witness:
  "\<exists>h. VerifyWitnesses sample_app_env id () (Inr [h]) [sample_witness] = Some (Inr True) \<and>
    (\<exists>hs. (Inr [h] :: pyexc + uint list) = Inr hs \<and> list_all2 (\<lambda>h w. VerificationScript w \<noteq> [] \<longrightarrow>
      (\<exists>v. Crypto_ToScriptHash (primitives_of (vm_env sample_app_env)) (VerificationScript w) False = Inr v \<and> Data h = Data v))
      hs [sample_witness])"
proof -
  obtain h where h: "VerifyWitnesses sample_app_env id () (Inr [h]) [sample_witness] = Some (Inr True)" using sample_accepted by blast
  from accepted_scripts_hash [OF h] h show ?thesis by blast
qed

end
