(* ===== verification/Db_Interface.thy ===== *)
theory Db_Interface
  imports Data_Cache
begin

text \<open>
  The database as the blockchain uses it: \<open>LevelDBImpl\<close>, and \<open>DBInterface\<close>, a view of the items of one
  prefix that keeps what it has read, changed and deleted until it is committed.

  \<open>Destroy\<close>, after which the view has no database, is the end of its life and has no definition.
\<close>

section \<open>LevelDBImpl\<close>

definition DATA_Block :: bytes where "DATA_Block = [0x01]"
definition DATA_Transaction :: bytes where "DATA_Transaction = [0x02]"
definition DB_Account :: bytes where "DB_Account = [0x40]"
definition DB_Asset :: bytes where "DB_Asset = [0x4c]"
definition ST_Coin :: bytes where "ST_Coin = [0x44]"
definition ST_SpentCoin :: bytes where "ST_SpentCoin = [0x45]"
definition ST_Validator :: bytes where "ST_Validator = [0x48]"
definition IX_HeaderHashList :: bytes where "IX_HeaderHashList = [0x80]"
definition SYS_CurrentBlock :: bytes where "SYS_CurrentBlock = [0xc0]"
definition SYS_CurrentHeader :: bytes where "SYS_CurrentHeader = [0xc1]"
definition SYS_Version :: bytes where "SYS_Version = [0xf0]"

text \<open>
  \<open>LevelDBImpl\<close>: a lookup, a write, a deletion, and a batch, which is written when the block of the
  \<open>with\<close> statement ends and is lost when it raises.
\<close>

definition db_get :: "bytes \<Rightarrow> (leveldb, bytes option) m" where
  "db_get key = gets (\<lambda>d. map_of (ldb d) key)"

definition db_write :: "bytes \<Rightarrow> bytes \<Rightarrow> (leveldb, unit) m" where
  "db_write key v = modify (\<lambda>d. d\<lparr>ldb := db_put key v (ldb d)\<rparr>)"

definition db_remove :: "bytes \<Rightarrow> (leveldb, unit) m" where
  "db_remove key = modify (\<lambda>d. d\<lparr>ldb := db_delete key (ldb d)\<rparr>)"

definition write_batch :: "(bytes \<times> bytes option) list \<Rightarrow> (leveldb, unit) m" where
  "write_batch wb = modify (\<lambda>d. d\<lparr>ldb := fold apply_write wb (ldb d)\<rparr>)"

definition open_iter :: "bytes \<Rightarrow> (leveldb, (bytes \<times> bytes) list) m" where
  "open_iter prefix = gets (\<lambda>d. filter (\<lambda>e. take (length prefix) (fst e) = prefix) (ldb d))"

definition cloneDatabaseStorage :: "leveldb \<Rightarrow> (leveldb, unit) m" where
  "cloneDatabaseStorage from =
     mapm (\<lambda>(k, v). db_write k v) (filter (\<lambda>e. take (length ST_Storage) (fst e) = ST_Storage) (ldb from))"

section \<open>DBInterface\<close>

datatype change = C_Added | C_Changed | C_Deleted

text \<open>
  \<open>Collection\<close> in the order of insertion; None for an item that was not read yet, or was deleted. The list
  \<open>tracking\<close> has the changes of stored items, with their keys and values as hexadecimal text.
\<close>

record 'v db_interface =
  dbi_DB :: leveldb
  dbi_Collection :: "(bytes \<times> 'v option) list"
  dbi_Changed :: "bytes list"
  dbi_Deleted :: "bytes list"
  dbi_built_keys :: bool
  dbi_tracking :: "(change \<times> bytes \<times> bytes) list"

text \<open>The prefix, and the class of the items: how they are written and read.\<close>

record 'v item_class =
  ic_Prefix :: bytes
  ic_Serialize :: "'v \<Rightarrow> (stream, unit) m"
  ic_Deserialize :: "(stream, 'v) m"

definition DBInterface :: "leveldb \<Rightarrow> 'v db_interface" where
  "DBInterface db =
     \<lparr>dbi_DB = db, dbi_Collection = [], dbi_Changed = [], dbi_Deleted = [], dbi_built_keys = False, dbi_tracking = []\<rparr>"

definition on_DB :: "(leveldb, 'a) m \<Rightarrow> ('v db_interface, 'a) m" where
  "on_DB p s = (case p (dbi_DB s) of (r, d) \<Rightarrow> (r, s\<lparr>dbi_DB := d\<rparr>))"

definition collect :: "bytes \<Rightarrow> 'v option \<Rightarrow> ('v db_interface, unit) m" where
  "collect k v = modify (\<lambda>s. s\<lparr>dbi_Collection := AList.update k v (dbi_Collection s)\<rparr>)"

definition dbi_Current :: "'v db_interface \<Rightarrow> (bytes \<times> 'v) list" where
  "dbi_Current s = map (\<lambda>(k, v). (k, the v)) (filter (\<lambda>(k, v). v \<noteq> None) (dbi_Collection s))"

text \<open>\<open>Keys\<close> looks through the database every time: nothing sets \<open>_built_keys\<close>.\<close>

definition BuildCollectionKeys :: "'v item_class \<Rightarrow> ('v db_interface, unit) m" where
  "BuildCollectionKeys C =
     bnd (on_DB (open_iter (ic_Prefix C))) (\<lambda>es.
       mapm (\<lambda>e. bnd (gets (\<lambda>s. map_of (dbi_Collection s) (drop 1 (fst e)))) (\<lambda>found.
         whenm (found = None) (collect (drop 1 (fst e)) None))) es)"

definition dbi_Keys :: "'v item_class \<Rightarrow> ('v db_interface, bytes list) m" where
  "dbi_Keys C =
     bnd (gets dbi_built_keys) (\<lambda>built.
     sq (whenm (\<not> built) (BuildCollectionKeys C)) (gets (\<lambda>s. map fst (dbi_Collection s))))"

definition MarkChanged :: "bytes \<Rightarrow> ('v db_interface, unit) m" where
  "MarkChanged k = modify (\<lambda>s. if k \<in> set (dbi_Changed s) then s else s\<lparr>dbi_Changed := dbi_Changed s @ [k]\<rparr>)"

text \<open>A buffer that cannot be read, and an empty one, are no item.\<close>

definition dbi_GetItem :: "'v item_class \<Rightarrow> bytes \<Rightarrow> ('v db_interface, 'v option) m" where
  "dbi_GetItem C k =
     bnd (gets dbi_Deleted) (\<lambda>deleted.
       if k \<in> set deleted then ret None
       else try_except
         (bnd (on_DB (db_get (ic_Prefix C @ k))) (\<lambda>buffer.
            if buffer = None \<or> buffer = Some [] then ret None
            else
              (case unhexlify (the buffer) of
                 None \<Rightarrow> throw ValueError
               | Some raw \<Rightarrow>
                   bnd (on_DB (on_streams (DeserializeFromDB (ic_Deserialize C) raw))) (\<lambda>item.
                   sq (collect k (Some item)) (ret (Some item))))))
         (\<lambda>e. ret None))"

definition dbi_TryGet :: "'v item_class \<Rightarrow> bytes \<Rightarrow> ('v db_interface, 'v option) m" where
  "dbi_TryGet C k =
     bnd (gets dbi_Deleted) (\<lambda>deleted.
       if k \<in> set deleted then ret None
       else bnd (gets (\<lambda>s. map_of (dbi_Collection s) k)) (\<lambda>found.
         case found of
           Some (Some item) \<Rightarrow> ret (Some item)
         | Some None \<Rightarrow> dbi_GetItem C k
         | None \<Rightarrow>
             bnd (on_DB (db_get (ic_Prefix C @ k))) (\<lambda>data.
               if data = None then ret None else dbi_GetItem C k)))"

definition dbi_Add :: "'v item_class \<Rightarrow> bytes \<Rightarrow> 'v \<Rightarrow> ('v db_interface, unit) m" where
  "dbi_Add C k item =
     sq (whenm (ic_Prefix C = ST_Storage)
          (bnd (on_DB (db_get (ic_Prefix C @ k))) (\<lambda>found.
           bnd (on_DB (on_streams (state_ToByteArray (ic_Serialize C) item))) (\<lambda>data.
             modify (\<lambda>s. s\<lparr>dbi_tracking := dbi_tracking s @ [(if found = None then C_Added else C_Changed, hexlify k, data)]\<rparr>)))))
       (sq (collect k (Some item)) (MarkChanged k))"

definition undelete :: "bytes \<Rightarrow> ('v db_interface, unit) m" where
  "undelete k = modify (\<lambda>s. s\<lparr>dbi_Deleted := remove1 k (dbi_Deleted s)\<rparr>)"

definition dbi_ReplaceOrAdd :: "'v item_class \<Rightarrow> bytes \<Rightarrow> 'v \<Rightarrow> ('v db_interface, 'v) m" where
  "dbi_ReplaceOrAdd C k item = sq (undelete k) (sq (dbi_Add C k item) (ret item))"

definition dbi_GetOrAdd :: "'v item_class \<Rightarrow> bytes \<Rightarrow> 'v \<Rightarrow> ('v db_interface, 'v) m" where
  "dbi_GetOrAdd C k new_instance =
     bnd (dbi_TryGet C k) (\<lambda>existing.
       case existing of
         Some item \<Rightarrow> ret item
       | None \<Rightarrow> sq (undelete k) (sq (dbi_Add C k new_instance) (ret new_instance)))"

text \<open>
  \<open>GetAndChange\<close> as it is: a key that was read and not deleted, and one that the database does not have,
  leave the variable \<open>item\<close> without a value. \<open>new\<close> is the new item, the one of \<open>ClassRef()\<close> if none is given.
\<close>

definition dbi_GetAndChange :: "'v item_class \<Rightarrow> bytes \<Rightarrow> 'v \<Rightarrow> ('v db_interface, 'v option) m" where
  "dbi_GetAndChange C k new =
     bnd (gets (\<lambda>s. map_of (dbi_Collection s) k)) (\<lambda>found.
     bnd (gets dbi_Deleted) (\<lambda>deleted.
       if found \<noteq> None then
         (if k \<in> set deleted then sq (undelete k) (sq (dbi_Add C k new) (ret (Some new)))
          else throw UnboundLocalError)
       else
         bnd (on_DB (db_get (ic_Prefix C @ k))) (\<lambda>data.
           if data = None then throw UnboundLocalError
           else bnd (dbi_GetItem C k) (\<lambda>item. sq (MarkChanged k) (ret item)))))"

definition dbi_Remove :: "'v item_class \<Rightarrow> bytes \<Rightarrow> ('v db_interface, unit) m" where
  "dbi_Remove C k =
     modify (\<lambda>s.
       if k \<in> set (dbi_Deleted s) then s
       else s\<lparr>dbi_Deleted := dbi_Deleted s @ [k],
              dbi_tracking := dbi_tracking s @ (if ic_Prefix C = ST_Storage then [(C_Deleted, hexlify k, [])] else [])\<rparr>)"

definition dbi_Reset :: "('v db_interface, unit) m" where
  "dbi_Reset = modify (\<lambda>s. s\<lparr>dbi_Changed := [], dbi_Deleted := []\<rparr>)"

text \<open>\<open>Commit\<close> without a batch, for a view that is used further.\<close>

definition commit_changed :: "'v item_class \<Rightarrow> bytes \<Rightarrow> ('v db_interface, unit) m" where
  "commit_changed C k =
     bnd (gets (\<lambda>s. map_of (dbi_Collection s) k)) (\<lambda>found.
       case found of
         None \<Rightarrow> throw KeyError
       | Some None \<Rightarrow> ret ()
       | Some (Some item) \<Rightarrow>
           bnd (on_DB (on_streams (state_ToByteArray (ic_Serialize C) item))) (\<lambda>data.
             on_DB (db_write (ic_Prefix C @ k) data)))"

definition commit_deleted :: "'v item_class \<Rightarrow> bytes \<Rightarrow> ('v db_interface, unit) m" where
  "commit_deleted C k = sq (on_DB (db_remove (ic_Prefix C @ k))) (collect k None)"

definition dbi_Commit :: "'v item_class \<Rightarrow> ('v db_interface, unit) m" where
  "dbi_Commit C =
     bnd (gets dbi_Changed) (\<lambda>changed.
     sq (mapm (commit_changed C) changed)
       (bnd (gets dbi_Deleted) (\<lambda>deleted.
        sq (mapm (commit_deleted C) deleted) dbi_Reset)))"

text \<open>\<open>Find\<close> gives the values under a prefix by the rest of their keys; \<open>TryFind\<close> lets what is in the view win.\<close>

primrec dbi_load :: "(stream, storage_item) m \<Rightarrow> (bytes \<times> bytes) list \<Rightarrow> (storage_item db_interface, (bytes \<times> bytes) list) m" where
  "dbi_load deser [] = ret []"
| "dbi_load deser (e # es) =
     (case unhexlify (snd e) of
        None \<Rightarrow> throw ValueError
      | Some raw \<Rightarrow>
          bnd (on_DB (on_streams (DeserializeFromDB deser raw))) (\<lambda>item.
          bnd (dbi_load deser es) (\<lambda>rest. ret ((drop 21 (fst e), si_Value item) # rest))))"

definition dbi_Find :: "storage_item item_class \<Rightarrow> bytes \<Rightarrow> (storage_item db_interface, (bytes \<times> bytes) list) m" where
  "dbi_Find C key_prefix =
     bnd (on_DB (open_iter (ic_Prefix C @ key_prefix))) (\<lambda>es.
     bnd (dbi_load (ic_Deserialize C) es) (\<lambda>found. ret (fold (\<lambda>(k, v). AList.update k v) found [])))"

definition dbi_TryFind :: "storage_item item_class \<Rightarrow> bytes \<Rightarrow> (storage_item db_interface, (bytes \<times> bytes) list) m" where
  "dbi_TryFind C key_prefix =
     bnd (gets (\<lambda>s. filter (\<lambda>(k, v). py_in key_prefix k \<and> k \<notin> set (dbi_Deleted s)) (dbi_Collection s))) (\<lambda>hits.
     if list_ex (\<lambda>(k, v). v = None) hits then throw AttributeError
     else
       let candidates = fold (\<lambda>(k, v). AList.update (drop 20 k) (si_Value (the v))) hits []
       in bnd (dbi_Find C key_prefix) (\<lambda>db_results. ret (fold (\<lambda>(k, v). AList.update k v) candidates db_results)))"

text \<open>\<open>DBInterface(db, prefix, class).TryGet(key)\<close>, as the getters of the blockchain use it.\<close>

definition db_state :: "'v item_class \<Rightarrow> bytes \<Rightarrow> (leveldb, 'v option) m" where
  "db_state C k db = (case dbi_TryGet C k (DBInterface db) of (r, s) \<Rightarrow> (r, dbi_DB s))"

end
