(* ===== verification/Service_State.thy ===== *)
theory Service_State
  imports Application_Engine Db_Interface Script_Builder Blocks
begin

text \<open>
  What the system calls of \<open>StateReader.py\<close> and \<open>StateMachine.py\<close> work on. The state of a state
  machine extends the record of the application engine: the snapshot with its caches, the objects behind
  interop interfaces, what was notified and which events are to be dispatched. The snapshot is a clone, as
  in \<open>Persist\<close> and in test invocations; each of its caches stands on one of a LevelDB snapshot. The
  methods of the blockchain that the calls use are the record \<open>chain\<close>.

  The objects that scripts hold are never changed by a call, so they are values; those of enumerators and
  iterators are not modelled.
\<close>

section \<open>Objects behind interop interfaces\<close>

record storage_context =
  ctx_ScriptHash :: uint
  ctx_IsReadOnly :: bool

datatype host_object =
    H_Header block_base
  | H_Block block
  | H_Tx tx
  | H_Attribute tx_attribute
  | H_Input coin_reference
  | H_Output tx_output
  | H_Witness witness
  | H_Account account_state
  | H_Asset asset_state
  | H_Contract contract_state
  | H_Context storage_context
  | H_Other nat

text \<open>A block is a \<open>BlockBase\<close> too, and an invocation a \<open>Transaction\<close>.\<close>

fun as_BlockBase :: "host_object \<Rightarrow> block_base option" where
  "as_BlockBase (H_Header h) = Some h"
| "as_BlockBase (H_Block b) = Some (blk_base b)"
| "as_BlockBase _ = None"

fun as_Block :: "host_object \<Rightarrow> block option" where
  "as_Block (H_Block b) = Some b"
| "as_Block _ = None"

fun as_Transaction :: "host_object \<Rightarrow> tx option" where
  "as_Transaction (H_Tx t) = Some t"
| "as_Transaction _ = None"

fun as_InvocationTransaction :: "host_object \<Rightarrow> bytes option" where
  "as_InvocationTransaction (H_Tx t) = (case tx_exclusive t of InvocationTransaction scr gas \<Rightarrow> Some scr | _ \<Rightarrow> None)"
| "as_InvocationTransaction _ = None"

fun as_Attribute :: "host_object \<Rightarrow> tx_attribute option" where
  "as_Attribute (H_Attribute a) = Some a"
| "as_Attribute _ = None"

fun as_Input :: "host_object \<Rightarrow> coin_reference option" where
  "as_Input (H_Input r) = Some r"
| "as_Input _ = None"

fun as_Output :: "host_object \<Rightarrow> tx_output option" where
  "as_Output (H_Output r) = Some r"
| "as_Output _ = None"

fun as_Account :: "host_object \<Rightarrow> account_state option" where
  "as_Account (H_Account a) = Some a"
| "as_Account _ = None"

fun as_Asset :: "host_object \<Rightarrow> asset_state option" where
  "as_Asset (H_Asset a) = Some a"
| "as_Asset _ = None"

fun as_Contract :: "host_object \<Rightarrow> contract_state option" where
  "as_Contract (H_Contract c) = Some c"
| "as_Contract _ = None"

fun as_Context :: "host_object \<Rightarrow> storage_context option" where
  "as_Context (H_Context c) = Some c"
| "as_Context _ = None"

section \<open>The snapshot\<close>

text \<open>The classes of the items say how they are cloned, and how a changed clone is taken over.\<close>


definition Accounts :: "(leveldb, bytes, account_state) internals" where
  "Accounts = LevelDBCache DB_Account acc_Serialize acc_Deserialize"

definition Assets :: "(leveldb, bytes, asset_state) internals" where
  "Assets = LevelDBCache DB_Asset (as_Serialize secp256r1_curve) as_Deserialize"

text \<open>
  \<open>AccountState.FromReplica\<close> makes a new object, which \<open>CloneCache\<close> drops. \<open>AccountState.Clone\<close> hands the
  balances and the votes of the account over to its copy; no system call changes either of them.
\<close>

definition Accounts_clone :: "((leveldb, bytes, account_state) data_cache, bytes, account_state) internals" where
  "Accounts_clone = CloneCache Accounts (\<lambda>a. Inr a) (\<lambda>old replica. Inr old)"

definition Assets_clone :: "((leveldb, bytes, asset_state) data_cache, bytes, asset_state) internals" where
  "Assets_clone = CloneCache Assets (\<lambda>a. Inr (as_Clone a)) (\<lambda>old replica. Inl AttributeError)"

definition Contracts_clone :: "((leveldb, bytes, contract_state) data_cache, bytes, contract_state) internals" where
  "Contracts_clone = CloneCache Contracts (\<lambda>c. Inr (co_Clone c)) (\<lambda>old replica. Inl AttributeError)"

type_synonym 'v clone = "((leveldb, bytes, 'v) data_cache, bytes, 'v) data_cache"

record snapshot =
  PersistingBlock :: "block option"
  snap_Accounts :: "account_state clone"
  snap_Assets :: "asset_state clone"
  snap_Contracts :: "contract_state clone"
  snap_Storages :: "storage_item clone"

section \<open>The state of the service\<close>

datatype parameter =
    PA_Array "parameter option list" | PA_Boolean bool | PA_ByteArray bytes | PA_Integer int | PA_Interop "nat option"

datatype sc_event =
    STORAGE_GET uint bytes bytes
  | STORAGE_PUT uint bytes bytes
  | STORAGE_DELETE uint bytes
  | CONTRACT_CREATED uint contract_state
  | CONTRACT_MIGRATED uint contract_state
  | CONTRACT_DESTROY uint "contract_state option"
  | RUNTIME_LOG uint stack_item

record svc = app_engine +
  host :: "nat \<Rightarrow> host_object"
  host_next :: nat
  notifications :: "(uint \<times> parameter option) list"
  events_to_dispatch :: "sc_event list"
  hashes_for_verifying :: "uint list option"
  contracts_created :: "(bytes \<times> uint) list"
  Snapshot :: snapshot
  svc_pool :: stream_manager

text \<open>What the constructors of the service set up.\<close>

definition new_services :: "snapshot \<Rightarrow> stream_manager \<Rightarrow> 'z \<Rightarrow> 'z svc_ext" where
  "new_services snap pool rest =
     \<lparr>host = (\<lambda>_. H_Other 0), host_next = 0, notifications = [], events_to_dispatch = [], hashes_for_verifying = None,
      contracts_created = [], Snapshot = snap, svc_pool = pool, \<dots> = rest\<rparr>"

text \<open>
  What a state machine is given: its trigger, the hashes its container is to be verified with, the
  container's own hash, and the methods of the blockchain.
\<close>

datatype header_key = HK_Height int | HK_Hash uint | HK_Text bytes

record chain =
  Trigger :: byte
  ScriptHashesForVerifying :: "pyexc + uint list"
  ContainerHash :: uint
  Height :: int
  SECONDS_PER_BLOCK :: int
  GetHeaderByHeight :: "int \<Rightarrow> pyexc + block_base option"
  GetHeaderBy :: "header_key \<Rightarrow> pyexc + block_base option"
  GetBlockByHeight :: "int \<Rightarrow> pyexc + block option"
  GetBlockByHash :: "bytes \<Rightarrow> pyexc + block option"
  chain_GetTransaction :: "uint \<Rightarrow> pyexc + tx option \<times> int"
  LookupTransaction :: "uint \<Rightarrow> tx option"
  GetAllUnspent :: "uint \<Rightarrow> pyexc + tx_output list"
  ADDRESS_VERSION :: byte
  b58encode :: "bytes \<Rightarrow> bytes"

text \<open>\<open>Crypto.ToAddress\<close>, as bytes; the base-58 encoding is a package.\<close>

definition scripthash_to_address :: "primitives \<Rightarrow> (bytes \<Rightarrow> bytes) \<Rightarrow> byte \<Rightarrow> bytes \<Rightarrow> bytes" where
  "scripthash_to_address c base58 version scripthash =
     (let sb = version # scripthash; c256 = py_slice 0 4 (bin_dbl_sha256 c sb); outb = sb @ c256 in base58 outb)"

definition Crypto_ToAddress :: "primitives \<Rightarrow> chain \<Rightarrow> uint \<Rightarrow> bytes" where
  "Crypto_ToAddress c ch script_hash = scripthash_to_address c (b58encode ch) (ADDRESS_VERSION ch) (Data script_hash)"

definition TR_Verification :: byte where "TR_Verification = 0x00"
definition TR_Application :: byte where "TR_Application = 0x10"
definition TR_VerificationR :: byte where "TR_VerificationR = 0x01"
definition TR_ApplicationR :: byte where "TR_ApplicationR = 0x11"

type_synonym ('z, 'a) call = "('z svc_scheme, 'a) m"

section \<open>Using the state\<close>

definition on_pool :: "(stream_manager, 'a) m \<Rightarrow> ('z, 'a) call" where
  "on_pool p s = (case p (svc_pool s) of (r, t) \<Rightarrow> (r, s\<lparr>svc_pool := t\<rparr>))"

definition on_Accounts :: "(account_state clone, 'a) m \<Rightarrow> ('z, 'a) call" where
  "on_Accounts p s = (case p (snap_Accounts (Snapshot s)) of (r, t) \<Rightarrow> (r, s\<lparr>Snapshot := (Snapshot s)\<lparr>snap_Accounts := t\<rparr>\<rparr>))"

definition on_Assets :: "(asset_state clone, 'a) m \<Rightarrow> ('z, 'a) call" where
  "on_Assets p s = (case p (snap_Assets (Snapshot s)) of (r, t) \<Rightarrow> (r, s\<lparr>Snapshot := (Snapshot s)\<lparr>snap_Assets := t\<rparr>\<rparr>))"

definition on_Contracts :: "(contract_state clone, 'a) m \<Rightarrow> ('z, 'a) call" where
  "on_Contracts p s = (case p (snap_Contracts (Snapshot s)) of (r, t) \<Rightarrow> (r, s\<lparr>Snapshot := (Snapshot s)\<lparr>snap_Contracts := t\<rparr>\<rparr>))"

definition on_Storages :: "(storage_item clone, 'a) m \<Rightarrow> ('z, 'a) call" where
  "on_Storages p s = (case p (snap_Storages (Snapshot s)) of (r, t) \<Rightarrow> (r, s\<lparr>Snapshot := (Snapshot s)\<lparr>snap_Storages := t\<rparr>\<rparr>))"

definition emit :: "sc_event \<Rightarrow> ('z, unit) call" where
  "emit e = modify (\<lambda>s. s\<lparr>events_to_dispatch := events_to_dispatch s @ [e]\<rparr>)"

text \<open>\<open>engine.CurrentContext.EvaluationStack\<close>, and \<open>UInt160(data=engine.CurrentContext.ScriptHash())\<close>.\<close>

definition cur_Pop :: "('z, stack_item) call" where
  "cur_Pop = bnd CurrentContext (\<lambda>c. Pop (EStack c))"

definition cur_Peek :: "('z, stack_item) call" where
  "cur_Peek = bnd CurrentContext (\<lambda>c. Peek (EStack c) 0)"

definition cur_PopBytes :: "('z, bytes) call" where
  "cur_PopBytes = bnd cur_Pop (\<lambda>x. lft (GetByteArray x))"

definition cur_PopInt :: "('z, int) call" where
  "cur_PopInt = bnd cur_Pop (\<lambda>x. lft (GetBigInteger x))"

definition cur_PushT :: "pyval \<Rightarrow> ('z, unit) call" where
  "cur_PushT v = bnd CurrentContext (\<lambda>c. PushT (EStack c) v)"

definition cur_ScriptHash :: "('z, uint) call" where
  "cur_ScriptHash = bnd CurrentContext (\<lambda>c. bnd (gets (\<lambda>s. s_hash (Script (contexts s c)))) (\<lambda>h. lft (UInt160 (Some h))))"

text \<open>\<open>StackItem.FromInterface\<close> of an object, or of \<open>None\<close>.\<close>

definition new_object :: "host_object option \<Rightarrow> ('z, nat option) call" where
  "new_object ob =
     (case ob of
        None \<Rightarrow> ret None
      | Some x \<Rightarrow> bnd (gets host_next) (\<lambda>n.
          sq (modify (\<lambda>s. s\<lparr>host := (host s)(n := x), host_next := Suc n\<rparr>)) (ret (Some n))))"

definition from_interface :: "host_object option \<Rightarrow> ('z, stack_item) call" where
  "from_interface ob =
     bnd (new_object ob) (\<lambda>n s. let (x, h) = FromInterface n (items_heap s) in (Val x, s\<lparr>items_heap := h\<rparr>))"

definition cur_PushInterface :: "host_object option \<Rightarrow> ('z, unit) call" where
  "cur_PushInterface ob = bnd CurrentContext (\<lambda>c. bnd (from_interface ob) (Push (EStack c)))"

primrec from_interfaces :: "host_object list \<Rightarrow> ('z, stack_item list) call" where
  "from_interfaces [] = ret []"
| "from_interfaces (x # xs) = bnd (from_interface (Some x)) (\<lambda>i. bnd (from_interfaces xs) (\<lambda>is. ret (i # is)))"

text \<open>
  \<open>GetInterface\<close> with a class: only interop interfaces take the argument. An object of another class,
  and \<open>None\<close>, give \<open>None\<close>.
\<close>

definition GetInterface :: "(host_object \<Rightarrow> 'a option) \<Rightarrow> stack_item \<Rightarrow> ('z, 'a option) call" where
  "GetInterface as item =
     (case item of
        InteropInterface _ ob \<Rightarrow> gets (\<lambda>s. case ob of None \<Rightarrow> None | Some n \<Rightarrow> as (host s n))
      | _ \<Rightarrow> throw TypeError)"

definition pop_interface :: "(host_object \<Rightarrow> 'a option) \<Rightarrow> ('z, 'a option) call" where
  "pop_interface as = bnd cur_Pop (GetInterface as)"

text \<open>The calls that pop an object, return False if it is not one of the class, and push a value of it.\<close>

definition getter :: "(host_object \<Rightarrow> 'a option) \<Rightarrow> ('a \<Rightarrow> ('z, pyval) call) \<Rightarrow> ('z, bool) call" where
  "getter as value =
     bnd (pop_interface as) (\<lambda>ob.
       case ob of
         None \<Rightarrow> ret False
       | Some x \<Rightarrow> bnd (value x) (\<lambda>v. sq (cur_PushT v) (ret True)))"

text \<open>Those that push a list of objects, unless it is longer than an array may be.\<close>

definition list_getter ::
  "(host_object \<Rightarrow> 'a option) \<Rightarrow> ('a \<Rightarrow> ('z, nat) call) \<Rightarrow> ('a \<Rightarrow> ('z, host_object list) call) \<Rightarrow> ('z, bool) call" where
  "list_getter as count obs =
     bnd (pop_interface as) (\<lambda>ob.
       case ob of
         None \<Rightarrow> ret False
       | Some x \<Rightarrow> bnd (count x) (\<lambda>n.
           if int n > maxArraySize then ret False
           else bnd (obs x) (\<lambda>l. bnd (from_interfaces l) (\<lambda>is. sq (cur_PushT (PyList is)) (ret True)))))"

lemmas service_defs = new_services_def scripthash_to_address_def Crypto_ToAddress_def on_pool_def on_Accounts_def on_Assets_def on_Contracts_def on_Storages_def emit_def cur_Pop_def
  cur_Peek_def cur_PopBytes_def cur_PopInt_def cur_PushT_def cur_ScriptHash_def new_object_def from_interface_def
  cur_PushInterface_def GetInterface_def pop_interface_def getter_def list_getter_def Accounts_def Assets_def
  Accounts_clone_def DB_Account_def DB_Asset_def Assets_clone_def Contracts_clone_def

declare service_defs [model_defs]

end
