(* ===== verification/Item_Serialization.thy ===== *)
theory Item_Serialization
  imports Stack_Item Codec
begin

text \<open>
  The binary form of stack items: \<open>Serialize\<close> of the classes of \<open>neo/VM/InteropService.py\<close> and
  \<open>StackItem.DeserializeStackItem\<close>. An item on the heap stands for a tree; its bytes depend on the tree
  only, and reading them makes a new item that stands for the same tree. \<open>depth\<close> is the depth of calls
  at which Python raises RecursionError, where an array that contains itself ends.
\<close>

section \<open>Writing\<close>

definition ST_ByteArray :: int where "ST_ByteArray = 0x00"
definition ST_Boolean :: int where "ST_Boolean = 0x01"
definition ST_Integer :: int where "ST_Integer = 0x02"
definition ST_Array :: int where "ST_Array = 0x80"
definition ST_Struct :: int where "ST_Struct = 0x81"
definition ST_Map :: int where "ST_Map = 0x82"

definition ByteArray_Serialize :: "bytes \<Rightarrow> (stream, unit) m" where
  "ByteArray_Serialize b = sq (WriteByte (PInt ST_ByteArray)) (sq (WriteVarBytes b) (ret ()))"

definition Boolean_Serialize :: "bool \<Rightarrow> (stream, unit) m" where
  "Boolean_Serialize b = sq (WriteByte (PInt ST_Boolean)) (WriteByte (PBool b))"

definition Integer_Serialize :: "int \<Rightarrow> (stream, unit) m" where
  "Integer_Serialize v =
     sq (WriteByte (PInt ST_Integer)) (bnd (lft (ToByteArray v)) (\<lambda>b. sq (WriteVarBytes b) (ret ())))"

text \<open>The elements' own \<open>Serialize\<close> is an argument.\<close>

definition Array_Serialize :: "('a \<Rightarrow> (stream, unit) m) \<Rightarrow> 'a list \<Rightarrow> (stream, unit) m" where
  "Array_Serialize ser xs =
     sq (WriteByte (PInt ST_Array)) (sq (WriteVarInt (int (length xs))) (mapm ser xs))"

definition Struct_Serialize :: "('a \<Rightarrow> (stream, unit) m) \<Rightarrow> 'a list \<Rightarrow> (stream, unit) m" where
  "Struct_Serialize ser xs =
     sq (WriteByte (PInt ST_Struct)) (sq (WriteVarInt (int (length xs))) (mapm ser xs))"

definition Map_Serialize :: "('a \<Rightarrow> (stream, unit) m) \<Rightarrow> ('a \<times> 'a) list \<Rightarrow> (stream, unit) m" where
  "Map_Serialize ser kvs =
     sq (WriteByte (PInt ST_Map)) (sq (WriteVarInt (int (length kvs))) (mapm (\<lambda>(key, val). sq (ser key) (ser val)) kvs))"

lemmas class_Serialize_defs [simp] = ByteArray_Serialize_def Boolean_Serialize_def Integer_Serialize_def
  Array_Serialize_def Struct_Serialize_def Map_Serialize_def

primrec item_Serialize :: "nat \<Rightarrow> heap \<Rightarrow> stack_item \<Rightarrow> (stream, unit) m" where
  "item_Serialize 0 h x = throw RecursionError"
| "item_Serialize (Suc depth) h x =
     (case x of
        ByteArray b \<Rightarrow> ByteArray_Serialize b
      | Boolean _ b \<Rightarrow> Boolean_Serialize b
      | Integer v \<Rightarrow> Integer_Serialize v
      | InteropInterface _ _ \<Rightarrow> throw PlainException
      | Array r \<Rightarrow> Array_Serialize (item_Serialize depth h) (h_list h r)
      | Struct r \<Rightarrow> Struct_Serialize (item_Serialize depth h) (h_list h r)
      | Map r \<Rightarrow> Map_Serialize (item_Serialize depth h) (h_dict h r))"

section \<open>Reading\<close>

text \<open>A reader and the heap of the items that are made.\<close>

type_synonym ('a) item_reader = "(stream \<times> heap, 'a) m"

definition from_reader :: "(stream, 'a) m \<Rightarrow> 'a item_reader" where
  "from_reader p s = (case p (fst s) of (r, t) \<Rightarrow> (r, (t, snd s)))"

definition new_on_heap :: "(heap \<Rightarrow> 'a \<times> heap) \<Rightarrow> 'a item_reader" where
  "new_on_heap f s = (let (x, h) = f (snd s) in (Val x, (fst s, h)))"

definition item_Add :: "ref \<Rightarrow> stack_item \<Rightarrow> unit item_reader" where
  "item_Add r x = modify (\<lambda>s. (fst s, set_list r (h_list (snd s) r @ [x]) (snd s)))"

definition item_SetItem :: "ref \<Rightarrow> stack_item \<Rightarrow> stack_item \<Rightarrow> unit item_reader" where
  "item_SetItem r k v s =
     (case Map_SetItem r k v (snd s) of Inl e \<Rightarrow> (Exc e, s) | Inr h \<Rightarrow> (Val (), (fst s, h)))"

text \<open>The loop \<open>while count > 0\<close>.\<close>

primrec repeat_n :: "nat \<Rightarrow> ('s, unit) m \<Rightarrow> ('s, unit) m" where
  "repeat_n 0 p = ret ()"
| "repeat_n (Suc n) p = sq p (repeat_n n p)"

primrec DeserializeStackItem :: "nat \<Rightarrow> stack_item item_reader" where
  "DeserializeStackItem 0 = throw RecursionError"
| "DeserializeStackItem (Suc depth) =
     bnd (from_reader (ReadUInt8 LE)) (\<lambda>stype.
       if stype = ST_ByteArray then bnd (from_reader (ReadVarBytes maxsize)) (\<lambda>b. ret (ByteArray b))
       else if stype = ST_Boolean then
         bnd (from_reader reader_ReadByte) (\<lambda>b.
           bnd (new_on_heap alloc_id) (\<lambda>i. ret (Boolean i (from_bytes_u b \<noteq> 0))))
       else if stype = ST_Integer then
         bnd (from_reader (ReadVarBytes maxsize)) (\<lambda>b. ret (Integer (FromBytes b True)))
       else if stype = ST_Array then
         bnd (new_on_heap (alloc_list [])) (\<lambda>r.
         bnd (from_reader (ReadVarInt maxsize)) (\<lambda>count.
         sq (repeat_n (nat count) (bnd (DeserializeStackItem depth) (item_Add r))) (ret (Array r))))
       else if stype = ST_Struct then
         bnd (new_on_heap (alloc_list [])) (\<lambda>r.
         bnd (from_reader (ReadVarInt maxsize)) (\<lambda>count.
         sq (repeat_n (nat count) (bnd (DeserializeStackItem depth) (item_Add r))) (ret (Struct r))))
       else if stype = ST_Map then
         bnd (new_on_heap (alloc_dict [])) (\<lambda>r.
         bnd (from_reader (ReadVarInt maxsize)) (\<lambda>count.
         sq (repeat_n (nat count)
               (bnd (DeserializeStackItem depth) (\<lambda>key.
                bnd (DeserializeStackItem depth) (\<lambda>val. item_SetItem r key val)))) (ret (Map r))))
       else throw ValueError)"

lemmas item_serialization_defs = ST_ByteArray_def ST_Boolean_def ST_Integer_def ST_Array_def ST_Struct_def
  ST_Map_def from_reader_def new_on_heap_def item_Add_def item_SetItem_def

declare item_serialization_defs [model_defs]

section \<open>The tree an item stands for\<close>

datatype item_tree =
    T_Bytes bytes
  | T_Bool bool
  | T_Int int
  | T_Array "item_tree list"
  | T_Struct "item_tree list"
  | T_Map "(item_tree \<times> item_tree) list"

text \<open>
  The tree of an item, all of whose references are from \<open>lo\<close> on and below \<open>hi\<close>, if its depth is less
  than the given one.
\<close>

definition both :: "'a option \<times> 'b option \<Rightarrow> ('a \<times> 'b) option" where
  "both p = (case p of (Some a, Some b) \<Rightarrow> Some (a, b) | _ \<Rightarrow> None)"

primrec tree_in :: "ref \<Rightarrow> ref \<Rightarrow> nat \<Rightarrow> heap \<Rightarrow> stack_item \<Rightarrow> item_tree option" where
  "tree_in lo hi 0 h x = None"
| "tree_in lo hi (Suc d) h x =
     (case x of
        ByteArray b \<Rightarrow> Some (T_Bytes b)
      | Boolean i b \<Rightarrow> if lo \<le> i \<and> i < hi then Some (T_Bool b) else None
      | Integer v \<Rightarrow> Some (T_Int v)
      | InteropInterface _ _ \<Rightarrow> None
      | Array r \<Rightarrow> if lo \<le> r \<and> r < hi then map_option T_Array (those (map (tree_in lo hi d h) (h_list h r))) else None
      | Struct r \<Rightarrow> if lo \<le> r \<and> r < hi then map_option T_Struct (those (map (tree_in lo hi d h) (h_list h r))) else None
      | Map r \<Rightarrow>
          if lo \<le> r \<and> r < hi then
            map_option T_Map (those (map (\<lambda>(k, v). both (tree_in lo hi d h k, tree_in lo hi d h v)) (h_dict h r)))
          else None)"

text \<open>The bytes of a tree.\<close>

fun tree_enc :: "item_tree \<Rightarrow> bytes" where
  "tree_enc (T_Bytes b) = 0x00 # var_bytes b"
| "tree_enc (T_Bool b) = [0x01, if b then 1 else 0]"
| "tree_enc (T_Int v) = 0x02 # var_bytes (case ToByteArray v of Inr b \<Rightarrow> b | Inl _ \<Rightarrow> [])"
| "tree_enc (T_Array ts) = 0x80 # var_int (int (length ts)) @ concat (map tree_enc ts)"
| "tree_enc (T_Struct ts) = 0x81 # var_int (int (length ts)) @ concat (map tree_enc ts)"
| "tree_enc (T_Map kvs) = 0x82 # var_int (int (length kvs)) @ concat (map (\<lambda>(k, v). tree_enc k @ tree_enc v) kvs)"

text \<open>Sizes fit the length fields, and no two keys of a map are equal or have the hash of their bytes in common.\<close>

fun key_hash :: "item_tree \<Rightarrow> int option" where
  "key_hash (T_Bytes b) = Some (bytes_hash b)"
| "key_hash (T_Int v) = (case ToByteArray v of Inr b \<Rightarrow> Some (bytes_hash b) | Inl _ \<Rightarrow> None)"
| "key_hash _ = None"

fun tree_ok :: "item_tree \<Rightarrow> bool" where
  "tree_ok (T_Bytes b) \<longleftrightarrow> int (length b) \<le> maxsize"
| "tree_ok (T_Bool b) \<longleftrightarrow> True"
| "tree_ok (T_Int v) \<longleftrightarrow> (case ToByteArray v of Inr b \<Rightarrow> int (length b) \<le> maxsize | Inl _ \<Rightarrow> False)"
| "tree_ok (T_Array ts) \<longleftrightarrow> int (length ts) \<le> maxsize \<and> list_all tree_ok ts"
| "tree_ok (T_Struct ts) \<longleftrightarrow> int (length ts) \<le> maxsize \<and> list_all tree_ok ts"
| "tree_ok (T_Map kvs) \<longleftrightarrow> int (length kvs) \<le> maxsize \<and> list_all (\<lambda>(k, v). tree_ok k \<and> tree_ok v) kvs \<and>
     distinct (filter (\<lambda>x. x \<noteq> None) (map (\<lambda>(k, v). key_hash k) kvs))"

lemma those_iff: "those (map f xs) = Some ys \<longleftrightarrow> list_all2 (\<lambda>x y. f x = Some y) xs ys"
proof (induction xs arbitrary: ys)
  case (Cons x xs)
  show ?case by (cases ys) (auto simp: Cons.IH [symmetric] split: option.splits)
qed auto

lemma both_iff: "both (a, b) = Some (x, y) \<longleftrightarrow> a = Some x \<and> b = Some y"
  by (auto simp: both_def split: option.splits)

section \<open>The bytes that are written\<close>

lemma emits_mapm2:
  assumes "list_all2 (\<lambda>x t. emits (f x) (enc t) ()) xs ts"
  shows "emits (mapm f xs) (concat (map enc ts)) ()"
  using assms by (induction rule: list_all2_induct) (auto intro: emits_ret emits_sq)

lemma emits_tagged:
  assumes "emits p bs x" "0 \<le> i" "i < 256"
  shows "emits (sq (WriteByte (PInt i)) p) (word_of_int i # bs) x"
  using emits_sq [OF emits_WriteByte [OF assms(2,3)] assms(1)] by simp

lemma emits_counted:
  assumes "list_all2 (\<lambda>x t. emits (f x) (enc t) ()) xs ts" "int (length ts) \<le> maxsize"
  shows "emits (sq (WriteVarInt (int (length xs))) (mapm f xs)) (var_int (int (length ts)) @ concat (map enc ts)) ()"
  using emits_sq [OF emits_WriteVarInt_length [of xs] emits_mapm2 [OF assms(1)]] assms list_all2_lengthD [OF assms(1)]
  by simp

lemma item_Serialize_emits:
  assumes "tree_in lo hi d h x = Some t" "tree_ok t"
  shows "emits (item_Serialize d h x) (tree_enc t) ()"
  using assms
proof (induction d arbitrary: x t)
  case (Suc d)
  have lists: "list_all2 (\<lambda>x t. emits (item_Serialize d h x) (tree_enc t) ()) xs ts"
    if "list_all2 (\<lambda>x t. tree_in lo hi d h x = Some t) xs ts" "list_all tree_ok ts" for xs ts
    using that(1) by (rule list.rel_mono_strong) (use that(2) Suc.IH in \<open>auto simp: list_all_iff\<close>)
  show ?case
  proof (cases x)
    case (ByteArray b)
    then show ?thesis using Suc.prems emits_tagged [OF emits_sq_ret [OF emits_WriteVarBytes [of b]], of 0]
      by (auto simp: ST_ByteArray_def)
  next
    case (Integer v)
    then obtain b where b: "ToByteArray v = Inr b" "int (length b) \<le> maxsize" "t = T_Int v"
      using Suc.prems by (auto split: sum.splits)
    from emits_tagged [OF emits_bnd_lft [OF b(1), where f = "\<lambda>b. sq (WriteVarBytes b) (ret ())", OF emits_sq_ret [OF emits_WriteVarBytes [OF b(2)]]], of 2]
    show ?thesis using Integer b by (simp add: ST_Integer_def)
  next
    case (Boolean i b)
    have "emits (WriteByte (PBool b)) [if b then 1 else 0] ()"
      using emits_sq_ret [OF emits_stream_write] by (auto simp: WriteByte_def)
    then show ?thesis using Boolean Suc.prems emits_tagged [of "WriteByte (PBool b)" "[if b then 1 else 0]" "()" 1]
      by (auto simp: ST_Boolean_def split: if_splits)
  next
    case (Array r)
    then obtain ts where ts: "t = T_Array ts" "list_all2 (\<lambda>x t. tree_in lo hi d h x = Some t) (h_list h r) ts"
      using Suc.prems(1) by (auto simp: those_iff split: if_splits)
    then show ?thesis using Array Suc.prems(2) emits_tagged [OF emits_counted [OF lists [OF ts(2)]], of 128]
      by (simp add: ST_Array_def)
  next
    case (Struct r)
    then obtain ts where ts: "t = T_Struct ts" "list_all2 (\<lambda>x t. tree_in lo hi d h x = Some t) (h_list h r) ts"
      using Suc.prems(1) by (auto simp: those_iff split: if_splits)
    then show ?thesis using Struct Suc.prems(2) emits_tagged [OF emits_counted [OF lists [OF ts(2)]], of 129]
      by (simp add: ST_Struct_def)
  next
    case (Map r)
    then obtain kvs where kvs: "t = T_Map kvs"
        "list_all2 (\<lambda>p q. (\<lambda>(k, v). both (tree_in lo hi d h k, tree_in lo hi d h v)) p = Some q) (h_dict h r) kvs"
      using Suc.prems(1) by (auto simp: those_iff split: if_splits)
    have "list_all2 (\<lambda>p q. emits ((\<lambda>(key, val). sq (item_Serialize d h key) (item_Serialize d h val)) p)
        ((\<lambda>(k, v). tree_enc k @ tree_enc v) q) ()) (h_dict h r) kvs"
      using kvs(2)
    proof (rule list.rel_mono_strong)
      fix p q assume q: "q \<in> set kvs" and pq: "(\<lambda>(k, v). both (tree_in lo hi d h k, tree_in lo hi d h v)) p = Some q"
      obtain k v k' v' where kv: "p = (k, v)" "q = (k', v')" by (cases p; cases q)
      then have "tree_in lo hi d h k = Some k'" "tree_in lo hi d h v = Some v'" using pq by (simp_all add: both_iff)
      moreover have "tree_ok k'" "tree_ok v'" using Suc.prems(2) q kv by (auto simp: kvs(1) list_all_iff)
      ultimately show "emits ((\<lambda>(key, val). sq (item_Serialize d h key) (item_Serialize d h val)) p)
          ((\<lambda>(k, v). tree_enc k @ tree_enc v) q) ()"
        using emits_sq [OF Suc.IH Suc.IH] by (simp add: kv)
    qed
    from emits_tagged [OF emits_counted [OF this], of 130] show ?thesis
      using Map kvs(1) Suc.prems(2) by (simp add: ST_Map_def)
  qed (use Suc.prems in auto)
qed simp

section \<open>What is read back\<close>

definition same_in :: "ref \<Rightarrow> ref \<Rightarrow> heap \<Rightarrow> heap \<Rightarrow> bool" where
  "same_in lo hi h h' \<longleftrightarrow> (\<forall>r. lo \<le> r \<longrightarrow> r < hi \<longrightarrow> h_list h' r = h_list h r \<and> h_dict h' r = h_dict h r)"

lemma same_in_trans: "same_in lo hi h h' \<Longrightarrow> same_in lo hi h' h'' \<Longrightarrow> same_in lo hi h h''"
  by (simp add: same_in_def)

lemma same_in_sub: "same_in lo hi h h' \<Longrightarrow> lo \<le> lo' \<Longrightarrow> hi' \<le> hi \<Longrightarrow> same_in lo' hi' h h'"
  by (simp add: same_in_def)

text \<open>The tree of an item depends on its references only.\<close>

lemma tree_in_mono:
  assumes "tree_in lo hi d h x = Some t" "same_in lo hi h h'" "lo' \<le> lo" "hi \<le> hi'"
  shows "tree_in lo' hi' d h' x = Some t"
  using assms(1)
proof (induction d arbitrary: x t)
  case (Suc d)
  note same = assms(2) [unfolded same_in_def, rule_format]
  have lists: "list_all2 (\<lambda>x t. tree_in lo' hi' d h' x = Some t) xs ts"
    if "list_all2 (\<lambda>x t. tree_in lo hi d h x = Some t) xs ts" for xs ts
    using that by (rule list.rel_mono_strong) (rule Suc.IH)
  have pairs: "list_all2 (\<lambda>p q. (\<lambda>(k, v). both (tree_in lo' hi' d h' k, tree_in lo' hi' d h' v)) p = Some q) kvs qs"
    if "list_all2 (\<lambda>p q. (\<lambda>(k, v). both (tree_in lo hi d h k, tree_in lo hi d h v)) p = Some q) kvs qs" for kvs qs
    using that by (rule list.rel_mono_strong) (auto simp: both_iff Suc.IH split: prod.splits)
  show ?case
    using Suc.prems assms(3,4) same lists pairs by (cases x) (auto simp: those_iff split: if_splits)
qed simp

text \<open>Reading the bytes of a tree makes an item for it, out of new references.\<close>

definition remakes :: "nat \<Rightarrow> item_tree \<Rightarrow> bool" where
  "remakes d t \<longleftrightarrow> (\<forall>pre post h. \<exists>x h'.
     DeserializeStackItem d (cursor pre (tree_enc t @ post), h) = (Val x, (cursor (pre @ tree_enc t) post, h')) \<and>
     h_next h \<le> h_next h' \<and> same_in 0 (h_next h) h h' \<and> tree_in (h_next h) (h_next h') d h' x = Some t)"

lemma from_reader_reads: "reads p bs x \<Longrightarrow> from_reader p (cursor pre (bs @ post), h) = (Val x, (cursor (pre @ bs) post, h))"
  by (simp add: from_reader_def reads_def)

lemma read_type: "reads (ReadUInt8 LE) [b] (uint b)"
proof -
  have "int_bytes 1 (uint b) = [b]" "int_fits 1 False (uint b)"
    using uint_ge_0 [of b] uint_bounded [of b] by (simp_all add: int_fits_def)
  then show ?thesis using reads_unpack_int [of 1 False "uint b" LE] by (simp add: ReadUInt8_def order_bytes_def maxsize_def)
qed

lemma run_type:
  "bnd (from_reader (ReadUInt8 LE)) f (cursor pre (b # post), h) = f (uint b) (cursor (pre @ [b]) post, h)"
  using from_reader_reads [OF read_type [of b], of pre post h] by (simp add: bnd_def)


lemma array_loop:
  assumes "list_all (remakes d) ts" "r < h_next h" "h_list h r = xs"
  shows "\<exists>ys h'. repeat_n (length ts) (bnd (DeserializeStackItem d) (item_Add r)) (cursor pre (concat (map tree_enc ts) @ post), h) =
      (Val (), (cursor (pre @ concat (map tree_enc ts)) post, h')) \<and> h_next h \<le> h_next h' \<and>
      (\<forall>q < h_next h. q \<noteq> r \<longrightarrow> h_list h' q = h_list h q \<and> h_dict h' q = h_dict h q) \<and>
      h_list h' r = xs @ ys \<and> list_all2 (\<lambda>y t. tree_in (h_next h) (h_next h') d h' y = Some t) ys ts"
  using assms
proof (induction ts arbitrary: pre h xs)
  case Nil
  then show ?case by (simp add: ret_def)
next
  case (Cons t ts)
  obtain x h1 where x: "DeserializeStackItem d (cursor pre (tree_enc t @ (concat (map tree_enc ts) @ post)), h) =
      (Val x, (cursor (pre @ tree_enc t) (concat (map tree_enc ts) @ post), h1))"
      "h_next h \<le> h_next h1" "same_in 0 (h_next h) h h1" "tree_in (h_next h) (h_next h1) d h1 x = Some t"
    using Cons.prems(1) unfolding list.pred_inject(2) remakes_def by blast
  let ?h = "set_list r (xs @ [x]) h1"
  have old: "h_list h1 r = xs" using x(3) Cons.prems(2,3) by (simp add: same_in_def)
  obtain ys h' where rest: "repeat_n (length ts) (bnd (DeserializeStackItem d) (item_Add r))
        (cursor (pre @ tree_enc t) (concat (map tree_enc ts) @ post), ?h) =
      (Val (), (cursor ((pre @ tree_enc t) @ concat (map tree_enc ts)) post, h'))" "h_next ?h \<le> h_next h'"
      "\<forall>q < h_next ?h. q \<noteq> r \<longrightarrow> h_list h' q = h_list ?h q \<and> h_dict h' q = h_dict ?h q"
      "h_list h' r = (xs @ [x]) @ ys" "list_all2 (\<lambda>y t. tree_in (h_next ?h) (h_next h') d h' y = Some t) ys ts"
    using Cons.IH [of ?h "xs @ [x]" "pre @ tree_enc t"] Cons.prems(1,2) x(2) by (auto simp: set_list_def)
  have next1: "h_next ?h = h_next h1" by (simp add: set_list_def)
  have "same_in (h_next h) (h_next h1) h1 h'"
    using rest(3) Cons.prems(2) by (auto simp: same_in_def set_list_def)
  from tree_in_mono [OF x(4) this] have first: "tree_in (h_next h) (h_next h') d h' x = Some t"
    using rest(2) next1 by simp
  have "list_all2 (\<lambda>y t. tree_in (h_next h) (h_next h') d h' y = Some t) ys ts"
    using rest(5)
    by (rule list.rel_mono_strong) (rule tree_in_mono, assumption, simp_all add: same_in_def next1 x(2))
  moreover have "\<forall>q < h_next h. q \<noteq> r \<longrightarrow> h_list h' q = h_list h q \<and> h_dict h' q = h_dict h q"
    using rest(3) x(2,3) by (auto simp: same_in_def set_list_def)
  moreover have "repeat_n (length (t # ts)) (bnd (DeserializeStackItem d) (item_Add r))
      (cursor pre (concat (map tree_enc (t # ts)) @ post), h) =
      (Val (), (cursor (pre @ concat (map tree_enc (t # ts))) post, h'))"
    using x(1) rest(1) old by (simp add: sq_def bnd_def item_Add_def modify_def)
  ultimately show ?case using first rest(2,4) next1 x(2) by (intro exI [of _ "x # ys"] exI [of _ h']) simp
qed

text \<open>Keys are told apart by the hash of their bytes, or by their identity.\<close>

fun ref_of :: "stack_item \<Rightarrow> ref option" where
  "ref_of (Boolean r b) = Some r"
| "ref_of (Array r) = Some r"
| "ref_of (Struct r) = Some r"
| "ref_of (Map r) = Some r"
| "ref_of _ = None"

definition key_like :: "ref \<Rightarrow> ref \<Rightarrow> stack_item \<Rightarrow> item_tree \<Rightarrow> bool" where
  "key_like lo hi x t \<longleftrightarrow>
     (case key_hash t of
        Some n \<Rightarrow> item_hash x = Inr (HashInt n)
      | None \<Rightarrow> item_hash x = Inr (HashId x) \<and> (\<exists>r. ref_of x = Some r \<and> lo \<le> r \<and> r < hi))"

lemma key_like_tree:
  assumes "tree_in lo hi d h x = Some t" "tree_ok t"
  shows "key_like lo hi x t"
  using assms by (cases d; cases x) (auto simp: key_like_def split: if_splits sum.splits)

lemma dict_set_new: "list_all (\<lambda>p. hash_eq (fst p) k = Inr False) d \<Longrightarrow> dict_set k v d = Inr (d @ [(k, v)])"
  by (induction d) auto

lemma distinct_some:
  assumes "distinct (filter (\<lambda>x. x \<noteq> None) (map f (xs @ y # ys)))" "p \<in> set xs"
  shows "f p \<noteq> f y \<or> f p = None"
proof (cases "f p")
  case (Some a)
  then have "f p \<in> set (filter (\<lambda>x. x \<noteq> None) (map f xs))" using imageI [OF assms(2), of f] by simp
  moreover have "f y \<in> set (filter (\<lambda>x. x \<noteq> None) (map f (y # ys)))" if "f y = f p" using that Some by simp
  moreover have "set (filter (\<lambda>x. x \<noteq> None) (map f xs)) \<inter> set (filter (\<lambda>x. x \<noteq> None) (map f (y # ys))) = {}"
    using assms(1) by (simp only: map_append filter_append distinct_append)
  ultimately show ?thesis by (metis IntI empty_iff)
qed simp

lemma fresh_key:
  assumes "key_like 0 n x t" "key_like n m y u" "key_hash t \<noteq> key_hash u \<or> key_hash t = None"
  shows "hash_eq x y = Inr False"
  using assms by (auto simp: key_like_def hash_eq_def split: option.splits)

lemma map_loop:
  assumes "list_all (\<lambda>(k, v). remakes d k \<and> remakes d v \<and> tree_ok k) kvs" "r < h_next h" "h_dict h r = es"
    "list_all2 (\<lambda>p q. key_like 0 (h_next h) (fst p) (fst q)) es kvs0"
    "distinct (filter (\<lambda>x. x \<noteq> None) (map (\<lambda>(k, v). key_hash k) (kvs0 @ kvs)))"
  shows "\<exists>ps h'. repeat_n (length kvs) (bnd (DeserializeStackItem d) (\<lambda>key. bnd (DeserializeStackItem d) (\<lambda>val. item_SetItem r key val)))
        (cursor pre (concat (map (\<lambda>(k, v). tree_enc k @ tree_enc v) kvs) @ post), h) =
      (Val (), (cursor (pre @ concat (map (\<lambda>(k, v). tree_enc k @ tree_enc v) kvs)) post, h')) \<and> h_next h \<le> h_next h' \<and>
      (\<forall>q < h_next h. q \<noteq> r \<longrightarrow> h_list h' q = h_list h q \<and> h_dict h' q = h_dict h q) \<and>
      h_dict h' r = es @ ps \<and>
      list_all2 (\<lambda>p q. tree_in (h_next h) (h_next h') d h' (fst p) = Some (fst q) \<and>
        tree_in (h_next h) (h_next h') d h' (snd p) = Some (snd q)) ps kvs"
  using assms
proof (induction kvs arbitrary: pre h es kvs0)
  case Nil
  then show ?case by (simp add: ret_def)
next
  case (Cons kv kvs)
  obtain k v where kv: "kv = (k, v)" by (cases kv)
  let ?rest = "concat (map (\<lambda>(k, v). tree_enc k @ tree_enc v) kvs)"
  have remake: "remakes d k" "remakes d v" "tree_ok k" using Cons.prems(1) kv by simp_all
  obtain x h1 where x: "DeserializeStackItem d (cursor pre (tree_enc k @ (tree_enc v @ ?rest @ post)), h) =
      (Val x, (cursor (pre @ tree_enc k) (tree_enc v @ ?rest @ post), h1))"
      "h_next h \<le> h_next h1" "same_in 0 (h_next h) h h1" "tree_in (h_next h) (h_next h1) d h1 x = Some k"
    using remake(1) unfolding remakes_def by blast
  obtain y h2 where y: "DeserializeStackItem d (cursor (pre @ tree_enc k) (tree_enc v @ (?rest @ post)), h1) =
      (Val y, (cursor ((pre @ tree_enc k) @ tree_enc v) (?rest @ post), h2))"
      "h_next h1 \<le> h_next h2" "same_in 0 (h_next h1) h1 h2" "tree_in (h_next h1) (h_next h2) d h2 y = Some v"
    using remake(2) unfolding remakes_def by blast
  let ?h = "set_dict r (es @ [(x, y)]) h2"
  have old: "h_dict h2 r = es" using x(2,3) y(3) Cons.prems(2,3) by (simp add: same_in_def)
  have "hash_eq (fst p) x = Inr False" if p: "p \<in> set es" for p
  proof -
    obtain i where i: "i < length es" "p = es ! i" using p by (auto simp: in_set_conv_nth)
    have len: "length kvs0 = length es" using Cons.prems(4) by (simp add: list_all2_lengthD)
    have a: "key_like 0 (h_next h) (fst p) (fst (kvs0 ! i))"
      using Cons.prems(4) i by (simp add: list_all2_conv_all_nth)
    have "kvs0 ! i \<in> set kvs0" using i(1) len by simp
    then have "key_hash (fst (kvs0 ! i)) \<noteq> key_hash k \<or> key_hash (fst (kvs0 ! i)) = None"
      using distinct_some [OF Cons.prems(5) [unfolded kv]] by (simp add: case_prod_beta)
    from fresh_key [OF a key_like_tree [OF x(4) remake(3)] this] show ?thesis .
  qed
  then have set: "Map_SetItem r x y h2 = Inr ?h" by (simp add: Map_SetItem_def old dict_set_new list_all_iff)
  have next1: "h_next ?h = h_next h2" by (simp add: set_dict_def)
  have keys: "list_all2 (\<lambda>p q. key_like 0 (h_next ?h) (fst p) (fst q)) (es @ [(x, y)]) (kvs0 @ [kv])"
  proof -
    have "list_all2 (\<lambda>p q. key_like 0 (h_next ?h) (fst p) (fst q)) es kvs0"
      using Cons.prems(4)
      by (rule list.rel_mono_strong) (use x(2) y(2) next1 in \<open>fastforce simp: key_like_def split: option.splits\<close>)
    moreover have "key_like 0 (h_next ?h) x k"
      using key_like_tree [OF x(4) remake(3)] y(2) next1 by (fastforce simp: key_like_def split: option.splits)
    ultimately show ?thesis by (simp add: list_all2_appendI kv)
  qed
  obtain ps h' where rest: "repeat_n (length kvs) (bnd (DeserializeStackItem d) (\<lambda>key. bnd (DeserializeStackItem d) (\<lambda>val. item_SetItem r key val)))
        (cursor (pre @ tree_enc k @ tree_enc v) (?rest @ post), ?h) =
      (Val (), (cursor ((pre @ tree_enc k @ tree_enc v) @ ?rest) post, h'))" "h_next ?h \<le> h_next h'"
      "\<forall>q < h_next ?h. q \<noteq> r \<longrightarrow> h_list h' q = h_list ?h q \<and> h_dict h' q = h_dict ?h q"
      "h_dict h' r = (es @ [(x, y)]) @ ps"
      "list_all2 (\<lambda>p q. tree_in (h_next ?h) (h_next h') d h' (fst p) = Some (fst q) \<and>
        tree_in (h_next ?h) (h_next h') d h' (snd p) = Some (snd q)) ps kvs"
    using Cons.IH [of ?h "es @ [(x, y)]" "kvs0 @ [kv]" "pre @ tree_enc k @ tree_enc v"] Cons.prems(1,2,5) keys x(2) y(2)
    by (auto simp: set_dict_def)
  have keep: "same_in (h_next h1) (h_next h2) h2 h'" "same_in (h_next h) (h_next h1) h1 h'"
    using rest(3) Cons.prems(2) x(2) y(2,3) by (auto simp: same_in_def set_dict_def)
  have "tree_in (h_next h) (h_next h') d h' x = Some k" "tree_in (h_next h) (h_next h') d h' y = Some v"
    using tree_in_mono [OF x(4) keep(2)] tree_in_mono [OF y(4) keep(1)] rest(2) next1 x(2) y(2) by simp_all
  moreover have "list_all2 (\<lambda>p q. tree_in (h_next h) (h_next h') d h' (fst p) = Some (fst q) \<and>
      tree_in (h_next h) (h_next h') d h' (snd p) = Some (snd q)) ps kvs"
    using rest(5)
  proof (rule list.rel_mono_strong)
    fix p q
    assume "tree_in (h_next ?h) (h_next h') d h' (fst p) = Some (fst q) \<and> tree_in (h_next ?h) (h_next h') d h' (snd p) = Some (snd q)"
    moreover have "same_in (h_next ?h) (h_next h') h' h'" "h_next h \<le> h_next ?h" using next1 x(2) y(2) by (simp_all add: same_in_def)
    ultimately show "tree_in (h_next h) (h_next h') d h' (fst p) = Some (fst q) \<and> tree_in (h_next h) (h_next h') d h' (snd p) = Some (snd q)"
      using tree_in_mono by blast
  qed
  moreover have "\<forall>q < h_next h. q \<noteq> r \<longrightarrow> h_list h' q = h_list h q \<and> h_dict h' q = h_dict h q"
    using rest(3) x(2,3) y(2,3) by (auto simp: same_in_def set_dict_def)
  moreover have "repeat_n (length (kv # kvs)) (bnd (DeserializeStackItem d) (\<lambda>key. bnd (DeserializeStackItem d) (\<lambda>val. item_SetItem r key val)))
        (cursor pre (concat (map (\<lambda>(k, v). tree_enc k @ tree_enc v) (kv # kvs)) @ post), h) =
      (Val (), (cursor (pre @ concat (map (\<lambda>(k, v). tree_enc k @ tree_enc v) (kv # kvs))) post, h'))"
    using x(1) y(1) rest(1) set by (simp add: kv sq_def bnd_def item_SetItem_def)
  ultimately show ?case using rest(2,4) next1 x(2) y(2) by (intro exI [of _ "(x, y) # ps"] exI [of _ h']) (simp add: kv)
qed

lemma read_var_int:
  "int n \<le> maxsize \<Longrightarrow> bnd (from_reader (ReadVarInt maxsize)) f (cursor pre (var_int (int n) @ post), h) =
     f (int n) (cursor (pre @ var_int (int n)) post, h)"
  using from_reader_reads [OF reads_ReadVarInt [of "int n" maxsize], of pre post h] by (simp add: bnd_def maxsize_def)

lemma read_var_bytes:
  "int (length b) \<le> maxsize \<Longrightarrow> bnd (from_reader (ReadVarBytes maxsize)) f (cursor pre (var_bytes b @ post), h) =
     f b (cursor (pre @ var_bytes b) post, h)"
  using from_reader_reads [OF reads_ReadVarBytes [of b maxsize], of pre post h] by (simp add: bnd_def)

lemmas item_types = ST_ByteArray_def ST_Boolean_def ST_Integer_def ST_Array_def ST_Struct_def ST_Map_def

lemma alloc_runs:
  "bnd (new_on_heap (alloc_list [])) f (s, h) = f (h_next h) (s, h\<lparr>h_list := (h_list h)(h_next h := []), h_next := Suc (h_next h)\<rparr>)"
  "bnd (new_on_heap (alloc_dict [])) f (s, h) = f (h_next h) (s, h\<lparr>h_dict := (h_dict h)(h_next h := []), h_next := Suc (h_next h)\<rparr>)"
  "bnd (new_on_heap alloc_id) f (s, h) = f (h_next h) (s, h\<lparr>h_next := Suc (h_next h)\<rparr>)"
  by (simp_all add: bnd_def new_on_heap_def alloc_list_def alloc_dict_def alloc_id_def)

lemma run_sq_ret: "p s = (Val (), s') \<Longrightarrow> sq p (ret x) s = (Val x, s')"
  by (simp add: sq_def bnd_def ret_def)

text \<open>A counted array, behind its type.\<close>

lemma remakes_array:
  assumes "list_all (remakes d) ts" "int (length ts) \<le> maxsize"
  shows "\<exists>h'. bnd (new_on_heap (alloc_list [])) (\<lambda>r. bnd (from_reader (ReadVarInt maxsize)) (\<lambda>count.
      sq (repeat_n (nat count) (bnd (DeserializeStackItem d) (item_Add r))) (ret (mk r))))
      (cursor pre ((var_int (int (length ts)) @ concat (map tree_enc ts)) @ post), h) =
      (Val (mk (h_next h)), (cursor (pre @ var_int (int (length ts)) @ concat (map tree_enc ts)) post, h')) \<and>
      h_next h < h_next h' \<and> same_in 0 (h_next h) h h' \<and>
      list_all2 (\<lambda>y t. tree_in (h_next h) (h_next h') d h' y = Some t) (h_list h' (h_next h)) ts"
proof -
  let ?h = "h\<lparr>h_list := (h_list h)(h_next h := []), h_next := Suc (h_next h)\<rparr>"
  obtain ys h' where loop: "repeat_n (length ts) (bnd (DeserializeStackItem d) (item_Add (h_next h)))
        (cursor (pre @ var_int (int (length ts))) (concat (map tree_enc ts) @ post), ?h) =
      (Val (), (cursor ((pre @ var_int (int (length ts))) @ concat (map tree_enc ts)) post, h'))"
      "h_next ?h \<le> h_next h'" "\<forall>q < h_next ?h. q \<noteq> h_next h \<longrightarrow> h_list h' q = h_list ?h q \<and> h_dict h' q = h_dict ?h q"
      "h_list h' (h_next h) = ys" "list_all2 (\<lambda>y t. tree_in (h_next ?h) (h_next h') d h' y = Some t) ys ts"
    using array_loop [OF assms(1), of "h_next h" ?h "[]" "pre @ var_int (int (length ts))" post] by auto
  have "list_all2 (\<lambda>y t. tree_in (h_next h) (h_next h') d h' y = Some t) ys ts"
    using loop(5) by (rule list.rel_mono_strong) (rule tree_in_mono, assumption, simp_all add: same_in_def)
  moreover have "same_in 0 (h_next h) h h'" using loop(3) by (auto simp: same_in_def)
  ultimately show ?thesis
    using loop(2,4) assms(2) loop(1) [simplified append_assoc] by (simp add: alloc_runs read_var_int run_sq_ret)
qed

lemma remakes_map:
  assumes "list_all (\<lambda>(k, v). remakes d k \<and> remakes d v \<and> tree_ok k) kvs" "int (length kvs) \<le> maxsize"
    "distinct (filter (\<lambda>x. x \<noteq> None) (map (\<lambda>(k, v). key_hash k) kvs))"
  shows "\<exists>h'. bnd (new_on_heap (alloc_dict [])) (\<lambda>r. bnd (from_reader (ReadVarInt maxsize)) (\<lambda>count.
      sq (repeat_n (nat count) (bnd (DeserializeStackItem d) (\<lambda>key. bnd (DeserializeStackItem d) (\<lambda>val. item_SetItem r key val)))) (ret (Map r))))
      (cursor pre ((var_int (int (length kvs)) @ concat (map (\<lambda>(k, v). tree_enc k @ tree_enc v) kvs)) @ post), h) =
      (Val (Map (h_next h)), (cursor (pre @ var_int (int (length kvs)) @ concat (map (\<lambda>(k, v). tree_enc k @ tree_enc v) kvs)) post, h')) \<and>
      h_next h < h_next h' \<and> same_in 0 (h_next h) h h' \<and>
      list_all2 (\<lambda>p q. tree_in (h_next h) (h_next h') d h' (fst p) = Some (fst q) \<and>
        tree_in (h_next h) (h_next h') d h' (snd p) = Some (snd q)) (h_dict h' (h_next h)) kvs"
proof -
  let ?h = "h\<lparr>h_dict := (h_dict h)(h_next h := []), h_next := Suc (h_next h)\<rparr>"
  let ?enc = "concat (map (\<lambda>(k, v). tree_enc k @ tree_enc v) kvs)"
  obtain ps h' where loop: "repeat_n (length kvs) (bnd (DeserializeStackItem d) (\<lambda>key. bnd (DeserializeStackItem d) (\<lambda>val. item_SetItem (h_next h) key val)))
        (cursor (pre @ var_int (int (length kvs))) (?enc @ post), ?h) =
      (Val (), (cursor ((pre @ var_int (int (length kvs))) @ ?enc) post, h'))"
      "h_next ?h \<le> h_next h'" "\<forall>q < h_next ?h. q \<noteq> h_next h \<longrightarrow> h_list h' q = h_list ?h q \<and> h_dict h' q = h_dict ?h q"
      "h_dict h' (h_next h) = ps" "list_all2 (\<lambda>p q. tree_in (h_next ?h) (h_next h') d h' (fst p) = Some (fst q) \<and>
        tree_in (h_next ?h) (h_next h') d h' (snd p) = Some (snd q)) ps kvs"
    using map_loop [OF assms(1), of "h_next h" ?h "[]" "[]" "pre @ var_int (int (length kvs))" post] assms(3) by auto
  have "list_all2 (\<lambda>p q. tree_in (h_next h) (h_next h') d h' (fst p) = Some (fst q) \<and>
        tree_in (h_next h) (h_next h') d h' (snd p) = Some (snd q)) ps kvs"
    using loop(5)
  proof (rule list.rel_mono_strong)
    fix p q
    assume "tree_in (h_next ?h) (h_next h') d h' (fst p) = Some (fst q) \<and> tree_in (h_next ?h) (h_next h') d h' (snd p) = Some (snd q)"
    moreover have "same_in (h_next ?h) (h_next h') h' h'" "h_next h \<le> h_next ?h" by (simp_all add: same_in_def)
    ultimately show "tree_in (h_next h) (h_next h') d h' (fst p) = Some (fst q) \<and> tree_in (h_next h) (h_next h') d h' (snd p) = Some (snd q)"
      using tree_in_mono by blast
  qed
  moreover have "same_in 0 (h_next h) h h'" using loop(3) by (auto simp: same_in_def)
  ultimately show ?thesis
    using loop(2,4) assms(2) loop(1) [simplified append_assoc] by (simp add: alloc_runs read_var_int run_sq_ret)
qed

text \<open>The bytes of every tree of less than the depth are read back.\<close>

lemma remakes_leaf:
  assumes "\<And>pre post h. \<exists>x h'. DeserializeStackItem (Suc d) (cursor pre (tree_enc t @ post), h) =
      (Val x, (cursor (pre @ tree_enc t) post, h')) \<and> (h' = h \<or> h' = h\<lparr>h_next := Suc (h_next h)\<rparr>) \<and>
      tree_in (h_next h) (h_next h') (Suc d) h' x = Some t"
  shows "remakes (Suc d) t"
  unfolding remakes_def
proof (intro allI)
  fix pre post h
  obtain x h' where x: "DeserializeStackItem (Suc d) (cursor pre (tree_enc t @ post), h) =
      (Val x, (cursor (pre @ tree_enc t) post, h'))" "h' = h \<or> h' = h\<lparr>h_next := Suc (h_next h)\<rparr>"
      "tree_in (h_next h) (h_next h') (Suc d) h' x = Some t"
    using assms by blast
  moreover have "h_next h \<le> h_next h'" "same_in 0 (h_next h) h h'" using x(2) by (auto simp: same_in_def)
  ultimately show "\<exists>x h'. DeserializeStackItem (Suc d) (cursor pre (tree_enc t @ post), h) =
     (Val x, (cursor (pre @ tree_enc t) post, h')) \<and>
     h_next h \<le> h_next h' \<and> same_in 0 (h_next h) h h' \<and> tree_in (h_next h) (h_next h') (Suc d) h' x = Some t"
    by blast
qed

lemma remakes_ref:
  assumes "tree_enc t = b # bs"
    "\<And>pre post h. \<exists>h'. DeserializeStackItem (Suc d) (cursor pre ((b # bs) @ post), h) =
      (Val (mk (h_next h)), (cursor ((pre @ [b]) @ bs) post, h')) \<and> h_next h < h_next h' \<and> same_in 0 (h_next h) h h' \<and>
      tree_in (h_next h) (h_next h') (Suc d) h' (mk (h_next h)) = Some t"
  shows "remakes (Suc d) t"
  unfolding remakes_def assms(1)
proof (intro allI)
  fix pre post h
  show "\<exists>x h'. DeserializeStackItem (Suc d) (cursor pre ((b # bs) @ post), h) =
     (Val x, (cursor (pre @ b # bs) post, h')) \<and>
     h_next h \<le> h_next h' \<and> same_in 0 (h_next h) h h' \<and> tree_in (h_next h) (h_next h') (Suc d) h' x = Some t"
    using assms(2) [of pre post h] by (metis append.assoc append_Cons append_Nil less_imp_le)
qed

lemma remakes_tree:
  assumes "tree_in lo hi d h0 x0 = Some t" "tree_ok t"
  shows "remakes d t"
  using assms
proof (induction d arbitrary: x0 t)
  case (Suc d)
  have lists: "list_all (remakes d) ts"
    if "list_all2 (\<lambda>x t. tree_in lo hi d h0 x = Some t) xs ts" "list_all tree_ok ts" for xs ts
    using that Suc.IH by (auto simp: list_all_length list_all2_conv_all_nth)
  show ?case
  proof (cases x0)
    case (ByteArray b)
    then have t: "t = T_Bytes b" "int (length b) \<le> maxsize" using Suc.prems by auto
    show ?thesis
      by (rule remakes_leaf) (simp add: t run_type item_types read_var_bytes ret_def)
  next
    case (Integer v)
    then obtain b where b: "t = T_Int v" "ToByteArray v = Inr b" "int (length b) \<le> maxsize"
      using Suc.prems by (auto split: sum.splits)
    then have "FromBytes b True = v"
      using encoded_length_fits [of v] by (auto simp: ToByteArray_eq FromBytes_def from_bytes_s_int_bytes)
    then show ?thesis
      by (intro remakes_leaf) (simp add: b run_type item_types read_var_bytes ret_def)
  next
    case (Boolean i b)
    then have t: "t = T_Bool b" using Suc.prems by (auto split: if_splits)
    have rd: "bnd (from_reader reader_ReadByte) f (cursor pre (c # post), h) = f [c] (cursor (pre @ [c]) post, h)" for f pre c post h
      using from_reader_reads [OF reads_reader_ReadByte [of c], of pre post h] by (simp add: bnd_def)
    show ?thesis
      by (rule remakes_leaf) (simp add: t run_type rd item_types alloc_runs ret_def)
  next
    case (Array r)
    then obtain ts where ts: "t = T_Array ts" "list_all2 (\<lambda>x t. tree_in lo hi d h0 x = Some t) (h_list h0 r) ts"
      using Suc.prems(1) by (auto simp: those_iff split: if_splits)
    then have a: "list_all (remakes d) ts" "int (length ts) \<le> maxsize" using lists Suc.prems(2) by auto
    show ?thesis
    proof (rule remakes_ref [where b = "0x80" and mk = Array])
      fix pre post h
      show "\<exists>h'. DeserializeStackItem (Suc d) (cursor pre ((0x80 # var_int (int (length ts)) @ concat (map tree_enc ts)) @ post), h) =
          (Val (Array (h_next h)), (cursor ((pre @ [0x80]) @ var_int (int (length ts)) @ concat (map tree_enc ts)) post, h')) \<and>
          h_next h < h_next h' \<and> same_in 0 (h_next h) h h' \<and>
          tree_in (h_next h) (h_next h') (Suc d) h' (Array (h_next h)) = Some t"
        using remakes_array [OF a, where mk = Array, of "pre @ [0x80]" post h] by (auto simp: ts(1) run_type item_types those_iff)
    qed (simp add: ts(1))
  next
    case (Struct r)
    then obtain ts where ts: "t = T_Struct ts" "list_all2 (\<lambda>x t. tree_in lo hi d h0 x = Some t) (h_list h0 r) ts"
      using Suc.prems(1) by (auto simp: those_iff split: if_splits)
    then have a: "list_all (remakes d) ts" "int (length ts) \<le> maxsize" using lists Suc.prems(2) by auto
    show ?thesis
    proof (rule remakes_ref [where b = "0x81" and mk = Struct])
      fix pre post h
      show "\<exists>h'. DeserializeStackItem (Suc d) (cursor pre ((0x81 # var_int (int (length ts)) @ concat (map tree_enc ts)) @ post), h) =
          (Val (Struct (h_next h)), (cursor ((pre @ [0x81]) @ var_int (int (length ts)) @ concat (map tree_enc ts)) post, h')) \<and>
          h_next h < h_next h' \<and> same_in 0 (h_next h) h h' \<and>
          tree_in (h_next h) (h_next h') (Suc d) h' (Struct (h_next h)) = Some t"
        using remakes_array [OF a, where mk = Struct, of "pre @ [0x81]" post h] by (auto simp: ts(1) run_type item_types those_iff)
    qed (simp add: ts(1))
  next
    case (Map r)
    then obtain kvs where kvs: "t = T_Map kvs"
        "list_all2 (\<lambda>p q. (\<lambda>(k, v). both (tree_in lo hi d h0 k, tree_in lo hi d h0 v)) p = Some q) (h_dict h0 r) kvs"
      using Suc.prems(1) by (auto simp: those_iff split: if_splits)
    have a: "list_all (\<lambda>(k, v). remakes d k \<and> remakes d v \<and> tree_ok k) kvs"
      unfolding list_all_length
    proof (intro allI impI)
      fix n assume n: "n < length kvs"
      then have "(\<lambda>(k, v). both (tree_in lo hi d h0 k, tree_in lo hi d h0 v)) (h_dict h0 r ! n) = Some (kvs ! n)"
        using kvs(2) by (simp add: list_all2_conv_all_nth)
      moreover have "(\<lambda>(k, v). tree_ok k \<and> tree_ok v) (kvs ! n)" using Suc.prems(2) n by (simp add: kvs(1) list_all_length)
      ultimately show "(\<lambda>(k, v). remakes d k \<and> remakes d v \<and> tree_ok k) (kvs ! n)"
        using Suc.IH by (cases "h_dict h0 r ! n"; cases "kvs ! n") (auto simp: both_iff)
    qed
    have ok: "int (length kvs) \<le> maxsize" "distinct (filter (\<lambda>x. x \<noteq> None) (map (\<lambda>(k, v). key_hash k) kvs))"
      using Suc.prems(2) kvs(1) by simp_all
    let ?enc = "concat (map (\<lambda>(k, v). tree_enc k @ tree_enc v) kvs)"
    show ?thesis
    proof (rule remakes_ref [where b = "0x82" and mk = Map])
      fix pre post h
      have both: "(\<lambda>(k, v). both (tree_in lo' hi' d h' k, tree_in lo' hi' d h' v)) p = Some q \<longleftrightarrow>
          tree_in lo' hi' d h' (fst p) = Some (fst q) \<and> tree_in lo' hi' d h' (snd p) = Some (snd q)" for lo' hi' h' p q
        by (cases p; cases q) (simp add: both_iff)
      show "\<exists>h'. DeserializeStackItem (Suc d) (cursor pre ((0x82 # var_int (int (length kvs)) @ ?enc) @ post), h) =
          (Val (Map (h_next h)), (cursor ((pre @ [0x82]) @ var_int (int (length kvs)) @ ?enc) post, h')) \<and>
          h_next h < h_next h' \<and> same_in 0 (h_next h) h h' \<and>
          tree_in (h_next h) (h_next h') (Suc d) h' (Map (h_next h)) = Some t"
        using remakes_map [OF a ok, of "pre @ [0x82]" post h] by (auto simp: kvs(1) run_type item_types those_iff both)
    qed (simp add: kvs(1))
  qed (use Suc.prems in auto)
qed simp

end
