(* ===== verification/State_Reader.thy ===== *)
theory State_Reader
  imports Service_State Item_Serialization
begin

text \<open>
  The system calls of \<open>neo/SmartContract/StateReader.py\<close>, but for
  \<open>ExecutionCompleted\<close>. Each is a method of the service: its value is what \<open>Invoke\<close> returns to SYSCALL,
  and an exception is one of the engine. The setting that emits notifications at once is off, as it is by
  default.
\<close>

section \<open>Checks\<close>

definition CheckStorageContext :: "storage_context option \<Rightarrow> ('z, bool) call" where
  "CheckStorageContext context =
     (case context of
        None \<Rightarrow> ret False
      | Some ctx \<Rightarrow>
          bnd (on_Contracts (dc_TryGet Contracts_clone (uint_ToBytes (ctx_ScriptHash ctx)))) (\<lambda>contract.
            ret (case contract of None \<Rightarrow> False | Some c \<Rightarrow> co_HasStorage c)))"

definition CheckWitnessHash :: "'z svc_scheme env \<Rightarrow> chain \<Rightarrow> uint \<Rightarrow> ('z, bool) call" where
  "CheckWitnessHash env ch hash =
     (if container env = None then ret False
      else
        bnd (gets hashes_for_verifying) (\<lambda>known.
        bnd (case known of
               Some hs \<Rightarrow> ret hs
             | None \<Rightarrow> bnd (lft (ScriptHashesForVerifying ch)) (\<lambda>hs.
                 sq (modify (\<lambda>s. s\<lparr>hashes_for_verifying := Some hs\<rparr>)) (ret hs))) (\<lambda>hs.
          ret (list_ex (uint_eq hash) hs))))"

definition CheckWitnessPubkey :: "'z svc_scheme env \<Rightarrow> chain \<Rightarrow> ec_point \<Rightarrow> ('z, bool) call" where
  "CheckWitnessPubkey env ch pubkey =
     bnd (on_pool (CreateSignatureRedeemScript secp256r1_curve pubkey)) (\<lambda>scripthash.
     bnd (lft (Crypto_ToScriptHash (primitives_of env) scripthash True)) (\<lambda>h.
       CheckWitnessHash env ch h))"

section \<open>Runtime\<close>

definition Runtime_Platform :: "('z, bool) call" where
  "Runtime_Platform = sq (cur_PushT (PyBytes [0x4e, 0x45, 0x4f])) (ret True)"

definition Runtime_GetTrigger :: "chain \<Rightarrow> ('z, bool) call" where
  "Runtime_GetTrigger ch = sq (cur_PushT (PyInt (uint (Trigger ch)))) (ret True)"

definition Runtime_CheckWitness :: "'z svc_scheme env \<Rightarrow> chain \<Rightarrow> ('z, bool) call" where
  "Runtime_CheckWitness env ch =
     bnd cur_PopBytes (\<lambda>hashOrPubkey.
       if length hashOrPubkey = 20 then
         bnd (lft (UInt160 (Some hashOrPubkey))) (\<lambda>h.
         bnd (CheckWitnessHash env ch h) (\<lambda>result. sq (cur_PushT (PyBool result)) (ret True)))
       else if length hashOrPubkey = 33 then
         (case decode_secp256r1 hashOrPubkey False True of
            Inl ValueError \<Rightarrow> ret False
          | Inl e \<Rightarrow> throw e
          | Inr point \<Rightarrow>
              bnd (CheckWitnessPubkey env ch point) (\<lambda>result. sq (cur_PushT (PyBool result)) (ret True)))
       else ret False)"

text \<open>Maps have no parameter: \<open>ToParameter\<close> falls off its end. The depth is Python's recursion limit.\<close>

fun ToParameter :: "nat \<Rightarrow> heap \<Rightarrow> stack_item \<Rightarrow> pyexc + parameter option" where
  "ToParameter 0 h x = Inl RecursionError"
| "ToParameter (Suc d) h x =
     (case x of
        Array r \<Rightarrow> ebind (emap (ToParameter d h) (h_list h r)) (\<lambda>ps. Inr (Some (PA_Array ps)))
      | Struct r \<Rightarrow> ebind (emap (ToParameter d h) (h_list h r)) (\<lambda>ps. Inr (Some (PA_Array ps)))
      | Boolean i b \<Rightarrow> Inr (Some (PA_Boolean b))
      | ByteArray bs \<Rightarrow> Inr (Some (PA_ByteArray bs))
      | Integer i \<Rightarrow> Inr (Some (PA_Integer i))
      | InteropInterface i ob \<Rightarrow> Inr (Some (PA_Interop ob))
      | Map r \<Rightarrow> Inr None)"

definition Runtime_Notify :: "'z svc_scheme env \<Rightarrow> ('z, bool) call" where
  "Runtime_Notify env =
     bnd cur_Pop (\<lambda>state.
     bnd (gets items_heap) (\<lambda>h.
     bnd (lft (ToParameter (recursion_limit env) h state)) (\<lambda>payload.
     bnd cur_ScriptHash (\<lambda>hash.
     sq (modify (\<lambda>s. s\<lparr>notifications := notifications s @ [(hash, payload)]\<rparr>)) (ret True)))))"

definition Runtime_Log :: "('z, bool) call" where
  "Runtime_Log =
     bnd cur_Pop (\<lambda>item.
     bnd (lft (GetByteArray item)) (\<lambda>_.
     bnd cur_ScriptHash (\<lambda>hash.
     sq (emit (RUNTIME_LOG hash item)) (ret True))))"

definition Runtime_GetCurrentTime :: "chain \<Rightarrow> ('z, bool) call" where
  "Runtime_GetCurrentTime ch =
     bnd (gets (\<lambda>s. PersistingBlock (Snapshot s))) (\<lambda>block.
       case block of
         None \<Rightarrow>
           bnd (lft (GetHeaderByHeight ch (Height ch))) (\<lambda>header.
             case header of
               None \<Rightarrow> throw AttributeError
             | Some h \<Rightarrow> sq (cur_PushT (PyInt (bb_Timestamp h + SECONDS_PER_BLOCK ch))) (ret True))
       | Some b \<Rightarrow> sq (cur_PushT (PyInt (bb_Timestamp (blk_base b)))) (ret True))"

text \<open>
  Items are written to and read from a stream of the pool, which is returned in the end. Whatever writing
  raises is the value False, but reading only catches \<open>ValueError\<close>.
\<close>

definition cur_Push :: "stack_item \<Rightarrow> ('z, unit) call" where
  "cur_Push x = bnd CurrentContext (\<lambda>c. Push (EStack c) x)"

definition Runtime_Serialize :: "'z svc_scheme env \<Rightarrow> ('z, bool) call" where
  "Runtime_Serialize env =
     bnd cur_Pop (\<lambda>item.
     bnd (on_pool (GetStream None)) (\<lambda>ms.
     bnd (gets items_heap) (\<lambda>h.
     bnd (try_except (sq (on_pool (on_stream ms (item_Serialize (recursion_limit env) h item))) (ret True)) (\<lambda>e. ret False)) (\<lambda>ok.
       if \<not> ok then sq (on_pool (ReleaseStream ms)) (ret False)
       else
         bnd (gets (\<lambda>s. streams (svc_pool s) ms)) (\<lambda>stream.
           if int (position stream) > maxItemSize then sq (on_pool (ReleaseStream ms)) (ret False)
           else
             sq (on_pool (ReleaseStream ms))
            (sq (cur_Push (ByteArray (getvalue stream))) (ret True)))))))"

definition on_item_reader :: "nat \<Rightarrow> 'a item_reader \<Rightarrow> ('z, 'a) call" where
  "on_item_reader i p s =
     (case p (streams (svc_pool s) i, items_heap s) of
        (r, t, h) \<Rightarrow> (r, s\<lparr>svc_pool := (svc_pool s)\<lparr>streams := (streams (svc_pool s))(i := t)\<rparr>, items_heap := h\<rparr>))"

definition Runtime_Deserialize :: "'z svc_scheme env \<Rightarrow> ('z, bool) call" where
  "Runtime_Deserialize env =
     bnd cur_PopBytes (\<lambda>data.
     bnd (on_pool (GetStream (Some data))) (\<lambda>ms.
     bnd (try_except
            (sq (bnd (on_item_reader ms (DeserializeStackItem (recursion_limit env))) cur_Push) (ret (Inr True)))
            (\<lambda>e. ret (if e = ValueError then Inr False else Inl e))) (\<lambda>r.
     sq (on_pool (ReleaseStream ms)) (lft r))))"

section \<open>Blockchain\<close>

definition Blockchain_GetHeight :: "chain \<Rightarrow> ('z, bool) call" where
  "Blockchain_GetHeight ch = sq (cur_PushT (PyInt (Height ch))) (ret True)"

text \<open>\<open>BigInteger.FromBytes\<close> of the data; the hash is looked up as a \<open>UInt256\<close> for headers, as text for blocks.\<close>

definition Blockchain_GetHeader :: "chain \<Rightarrow> ('z, bool) call" where
  "Blockchain_GetHeader ch =
     bnd cur_PopBytes (\<lambda>data.
     bnd (if length data \<le> 5 then lft (GetHeaderBy ch (HK_Height (FromBytes data False)))
          else if length data = 32 then bnd (lft (UInt256 (Some data))) (\<lambda>h. lft (GetHeaderBy ch (HK_Hash h)))
          else ret None) (\<lambda>header.
     sq (cur_PushInterface (map_option H_Header header)) (ret True)))"

definition Blockchain_GetBlock :: "chain \<Rightarrow> ('z, bool) call" where
  "Blockchain_GetBlock ch =
     bnd cur_PopBytes (\<lambda>data.
     bnd (if length data \<le> 5 then lft (GetBlockByHeight ch (FromBytes data False))
          else if length data = 32 then
            bnd (lft (UInt256 (Some data))) (\<lambda>h. lft (GetBlockByHash ch (uint_ToBytes h)))
          else ret None) (\<lambda>block.
     sq (cur_PushInterface (map_option H_Block block)) (ret True)))"

definition Blockchain_GetTransaction :: "chain \<Rightarrow> ('z, bool) call" where
  "Blockchain_GetTransaction ch =
     bnd cur_PopBytes (\<lambda>data.
     bnd (lft (UInt256 (Some data))) (\<lambda>h.
     bnd (lft (chain_GetTransaction ch h)) (\<lambda>(tx, height).
     sq (cur_PushInterface (map_option H_Tx tx)) (ret True))))"

definition Blockchain_GetTransactionHeight :: "chain \<Rightarrow> ('z, bool) call" where
  "Blockchain_GetTransactionHeight ch =
     bnd cur_PopBytes (\<lambda>data.
     bnd (lft (UInt256 (Some data))) (\<lambda>h.
     bnd (lft (chain_GetTransaction ch h)) (\<lambda>(tx, height).
     sq (cur_PushT (PyInt height)) (ret True))))"

definition Blockchain_GetContract :: "('z, bool) call" where
  "Blockchain_GetContract =
     bnd cur_PopBytes (\<lambda>data.
     bnd (lft (UInt160 (Some data))) (\<lambda>hash.
     bnd (on_Contracts (dc_TryGet Contracts_clone (uint_ToBytes hash))) (\<lambda>contract.
       case contract of
         None \<Rightarrow> sq (cur_PushT (PyBytes [])) (ret True)
       | Some c \<Rightarrow> sq (cur_PushInterface (Some (H_Contract c))) (ret True))))"

section \<open>Headers, blocks and transactions\<close>

definition Header_GetIndex :: "('z, bool) call" where
  "Header_GetIndex = getter as_BlockBase (\<lambda>h. ret (PyInt (bb_Index h)))"

definition Header_GetHash :: "'z svc_scheme env \<Rightarrow> ('z, bool) call" where
  "Header_GetHash env = getter as_BlockBase (\<lambda>h. bnd (on_pool (bb_Hash (primitives_of env) h)) (\<lambda>u. ret (PyBytes (Data u))))"

definition Header_GetPrevHash :: "('z, bool) call" where
  "Header_GetPrevHash = getter as_BlockBase (\<lambda>h. ret (PyBytes (Data (bb_PrevHash h))))"

definition Header_GetTimestamp :: "('z, bool) call" where
  "Header_GetTimestamp = getter as_BlockBase (\<lambda>h. ret (PyInt (bb_Timestamp h)))"

definition Block_GetTransactionCount :: "('z, bool) call" where
  "Block_GetTransactionCount = getter as_Block (\<lambda>b. ret (PyInt (int (length (Transactions b)))))"

definition Block_GetTransactions :: "('z, bool) call" where
  "Block_GetTransactions =
     list_getter as_Block (\<lambda>b. ret (length (Transactions b))) (\<lambda>b. ret (map H_Tx (Transactions b)))"

text \<open>The index of one transaction may be their number; the list raises then.\<close>

definition Block_GetTransaction :: "('z, bool) call" where
  "Block_GetTransaction =
     bnd (pop_interface as_Block) (\<lambda>block.
     bnd cur_PopInt (\<lambda>index.
       case block of
         None \<Rightarrow> ret False
       | Some b \<Rightarrow>
           if index < 0 \<or> index > int (length (Transactions b)) then ret False
           else bnd (lft (py_nth index (Transactions b))) (\<lambda>t.
                sq (cur_PushInterface (Some (H_Tx t))) (ret True))))"

definition Transaction_GetHash :: "'z svc_scheme env \<Rightarrow> ('z, bool) call" where
  "Transaction_GetHash env = getter as_Transaction (\<lambda>t. bnd (on_pool (tx_Hash (primitives_of env) t)) (\<lambda>u. ret (PyBytes (Data u))))"

section \<open>Storage\<close>

definition Storage_GetContext :: "('z, bool) call" where
  "Storage_GetContext =
     bnd cur_ScriptHash (\<lambda>hash.
     sq (cur_PushInterface (Some (H_Context \<lparr>ctx_ScriptHash = hash, ctx_IsReadOnly = False\<rparr>))) (ret True))"

definition Storage_GetReadOnlyContext :: "('z, bool) call" where
  "Storage_GetReadOnlyContext =
     bnd cur_ScriptHash (\<lambda>hash.
     sq (cur_PushInterface (Some (H_Context \<lparr>ctx_ScriptHash = hash, ctx_IsReadOnly = True\<rparr>))) (ret True))"

text \<open>The method \<open>Pop\<close> is not called, and a method has no \<open>GetInterface\<close>.\<close>

definition StorageContext_AsReadOnly :: "('z, bool) call" where
  "StorageContext_AsReadOnly = bnd CurrentContext (\<lambda>c. throw AttributeError)"

text \<open>\<open>try: context = Pop().GetInterface(StorageContext) except Exception: return False\<close>.\<close>

definition pop_context :: "('z, storage_context option option) call" where
  "pop_context = try_except (bnd (pop_interface as_Context) (\<lambda>c. ret (Some c))) (\<lambda>e. ret None)"

definition storage_key_of :: "storage_context \<Rightarrow> bytes \<Rightarrow> bytes" where
  "storage_key_of ctx key = sk_ToArray \<lparr>sk_ScriptHash = ctx_ScriptHash ctx, sk_Key = key\<rparr>"

definition Storage_Get :: "('z, bool) call" where
  "Storage_Get =
     bnd pop_context (\<lambda>context.
       case context of
         None \<Rightarrow> ret False
       | Some context \<Rightarrow>
           bnd (CheckStorageContext context) (\<lambda>ok.
             if \<not> ok then ret False
             else
               bnd cur_PopBytes (\<lambda>key.
               let ctx = the context in
               bnd (on_Storages (dc_TryGet Storages_clone (storage_key_of ctx key))) (\<lambda>item.
               let val = (case item of None \<Rightarrow> [] | Some i \<Rightarrow> si_Value i) in
               sq (cur_PushT (PyBytes val))
              (sq (emit (STORAGE_GET (ctx_ScriptHash ctx) key val)) (ret True))))))"

definition new_StorageItem :: storage_item where
  "new_StorageItem = \<lparr>si_Value = [], si_IsConstant = False\<rparr>"

definition Storage_Put :: "('z, bool) call" where
  "Storage_Put =
     bnd pop_context (\<lambda>context.
       case context of
         None \<Rightarrow> ret False
       | Some context \<Rightarrow>
           bnd (CheckStorageContext context) (\<lambda>ok.
             if \<not> ok then ret False
             else
               bnd cur_PopBytes (\<lambda>key.
               if 1024 < length key then ret False
               else
                 bnd cur_PopBytes (\<lambda>val.
                 let ctx = the context; k = storage_key_of ctx key in
                 sq (on_Storages (sq (dc_GetAndChange Storages_clone k (Some new_StorageItem))
                       (dc_mutate k (\<lambda>item. Inr (item\<lparr>si_Value := val\<rparr>)))))
                (sq (emit (STORAGE_PUT (ctx_ScriptHash ctx) key val)) (ret True))))))"

definition Storage_PutEx :: "('z, bool) call" where
  "Storage_PutEx = ret False"

definition Storage_Delete :: "chain \<Rightarrow> ('z, bool) call" where
  "Storage_Delete ch =
     (if Trigger ch \<noteq> TR_Application \<and> Trigger ch \<noteq> TR_ApplicationR then ret False
      else
        bnd (pop_interface as_Context) (\<lambda>context.
        bnd (CheckStorageContext context) (\<lambda>ok.
          if \<not> ok then ret False
          else
            let ctx = the context in
            if ctx_IsReadOnly ctx then ret False
            else
              bnd cur_PopBytes (\<lambda>key.
              sq (emit (STORAGE_DELETE (ctx_ScriptHash ctx) key))
             (bnd (on_Storages (dc_TryGet Storages_clone (storage_key_of ctx key))) (\<lambda>item.
                if (case item of None \<Rightarrow> False | Some i \<Rightarrow> si_IsConstant i) then ret False
                else sq (on_Storages (dc_Delete Storages_clone (storage_key_of ctx key))) (ret True)))))))"

section \<open>Contracts\<close>

definition Contract_GetStorageContext :: "'z svc_scheme env \<Rightarrow> ('z, bool) call" where
  "Contract_GetStorageContext env =
     bnd (pop_interface as_Contract) (\<lambda>contract.
       case contract of
         None \<Rightarrow> throw AttributeError
       | Some c \<Rightarrow>
           bnd (lft (Crypto_ToScriptHash (primitives_of env) (fc_Script (co_Code c)) False)) (\<lambda>shash.
           bnd (gets (\<lambda>s. map_of (contracts_created s) (uint_ToBytes shash))) (\<lambda>created.
             case created of
               None \<Rightarrow> ret False
             | Some creator \<Rightarrow>
                 bnd cur_ScriptHash (\<lambda>hash.
                   if uint_eq creator hash then
                     sq (cur_PushInterface (Some (H_Context \<lparr>ctx_ScriptHash = shash, ctx_IsReadOnly = False\<rparr>))) (ret True)
                   else ret False))))"

text \<open>The keys that are found are deleted under the contract's own hash, whatever they began with.\<close>

definition delete_storage :: "uint \<Rightarrow> ('z, unit) call" where
  "delete_storage hash =
     bnd (on_Storages (dc_Find Storages_clone (Some (Data hash)))) (\<lambda>found.
       mapm (\<lambda>(k, v). on_Storages (dc_Delete Storages_clone (sk_ToArray \<lparr>sk_ScriptHash = hash, sk_Key = drop 20 k\<rparr>))) found)"

definition Contract_Destroy :: "('z, bool) call" where
  "Contract_Destroy =
     bnd cur_ScriptHash (\<lambda>hash.
     bnd (on_Contracts (dc_TryGet Contracts_clone (uint_ToBytes hash))) (\<lambda>contract.
     sq (case contract of
           None \<Rightarrow> ret ()
         | Some c \<Rightarrow>
             sq (on_Contracts (dc_Delete Contracts_clone (uint_ToBytes hash)))
                (whenm (co_HasStorage c) (delete_storage hash)))
    (sq (emit (CONTRACT_DESTROY hash contract)) (ret True))))"

lemmas state_reader_defs = cur_Push_def Runtime_Serialize_def on_item_reader_def Runtime_Deserialize_def CheckStorageContext_def CheckWitnessHash_def
  CheckWitnessPubkey_def Runtime_Platform_def Runtime_GetTrigger_def Runtime_CheckWitness_def Runtime_Notify_def
  Runtime_Log_def Runtime_GetCurrentTime_def Blockchain_GetHeight_def Blockchain_GetHeader_def
  Blockchain_GetBlock_def Blockchain_GetTransaction_def Blockchain_GetTransactionHeight_def
  Blockchain_GetContract_def Header_GetIndex_def Header_GetHash_def Header_GetPrevHash_def
  Header_GetTimestamp_def Block_GetTransactionCount_def Block_GetTransactions_def Block_GetTransaction_def
  Transaction_GetHash_def Storage_GetContext_def Storage_GetReadOnlyContext_def StorageContext_AsReadOnly_def
  pop_context_def storage_key_of_def Storage_Get_def new_StorageItem_def Storage_Put_def Storage_PutEx_def
  Storage_Delete_def Contract_GetStorageContext_def delete_storage_def Contract_Destroy_def

declare state_reader_defs [model_defs]

end
