(* ===== verification/State_Machine.thy ===== *)
theory State_Machine
  imports State_Reader
begin

text \<open>
  The system calls of \<open>neo/SmartContract/StateMachine.py\<close>, and the dictionary of all system calls with
  their prices. The calls on iterators and enumerators and \<open>Storage.Find\<close> are an argument of the
  dictionary.
\<close>

section \<open>The blockchain\<close>

text \<open>Accounts are kept under their address, in a clone too.\<close>

definition Blockchain_GetAccount :: "'z svc_scheme env \<Rightarrow> chain \<Rightarrow> ('z, bool) call" where
  "Blockchain_GetAccount env ch =
     bnd cur_PopBytes (\<lambda>data.
     bnd (lft (UInt160 (Some data))) (\<lambda>hash.
     bnd (on_Accounts (dc_GetOrAdd Accounts_clone (Crypto_ToAddress (primitives_of env) ch hash) (AccountState\<lparr>acc_ScriptHash := Some hash\<rparr>))) (\<lambda>account.
     sq (cur_PushInterface (Some (H_Account account))) (ret True))))"

text \<open>No snapshot implements \<open>GetValidators\<close>.\<close>

definition Blockchain_GetValidators :: "('z, bool) call" where
  "Blockchain_GetValidators = throw NotImplementedError"

text \<open>The key is a \<open>UInt256\<close>; the database cannot append it to its prefix.\<close>

definition Blockchain_GetAsset :: "('z, bool) call" where
  "Blockchain_GetAsset =
     bnd cur_PopBytes (\<lambda>data.
     bnd (lft (UInt256 (Some data))) (\<lambda>hash. throw TypeError))"

section \<open>Headers and transactions\<close>

definition Header_GetVersion :: "('z, bool) call" where
  "Header_GetVersion = getter as_BlockBase (\<lambda>h. ret (PyInt (bb_Version h)))"

text \<open>\<open>ToArray()\<close> of a hash that may be None.\<close>

definition hash_array :: "uint option \<Rightarrow> ('z, pyval) call" where
  "hash_array h = (case h of None \<Rightarrow> throw AttributeError | Some u \<Rightarrow> ret (PyBytes (Data u)))"

definition Header_GetMerkleRoot :: "('z, bool) call" where
  "Header_GetMerkleRoot = getter as_BlockBase (\<lambda>h. hash_array (bb_MerkleRoot h))"

definition Header_GetConsensusData :: "('z, bool) call" where
  "Header_GetConsensusData = getter as_BlockBase (\<lambda>h. ret (PyInt (bb_ConsensusData h)))"

definition Header_GetNextConsensus :: "('z, bool) call" where
  "Header_GetNextConsensus = getter as_BlockBase (\<lambda>h. ret (PyBytes (Data (bb_NextConsensus h))))"

definition Transaction_GetType :: "('z, bool) call" where
  "Transaction_GetType = getter as_Transaction (\<lambda>t. ret (PyInt (tx_Type t)))"

definition Transaction_GetAttributes :: "('z, bool) call" where
  "Transaction_GetAttributes =
     list_getter as_Transaction (\<lambda>t. ret (length (Attributes t))) (\<lambda>t. ret (map H_Attribute (Attributes t)))"

definition Transaction_GetInputs :: "('z, bool) call" where
  "Transaction_GetInputs =
     list_getter as_Transaction (\<lambda>t. ret (length (tx_inputs t))) (\<lambda>t. ret (map H_Input (tx_inputs t)))"

definition Transaction_GetOutputs :: "('z, bool) call" where
  "Transaction_GetOutputs =
     list_getter as_Transaction (\<lambda>t. ret (length (tx_outputs t))) (\<lambda>t. ret (map H_Output (tx_outputs t)))"

text \<open>\<open>tx.References[input]\<close>: an input whose transaction is not found has no reference.\<close>

fun ref_get :: "coin_reference \<Rightarrow> (coin_reference \<times> tx_output) list \<Rightarrow> pyexc + tx_output" where
  "ref_get r [] = Inl KeyError"
| "ref_get r ((q, out) # d) = (if cr_Equals q r then Inr out else ref_get r d)"

definition Transaction_GetReferences :: "chain \<Rightarrow> ('z, bool) call" where
  "Transaction_GetReferences ch =
     list_getter as_Transaction (\<lambda>t. ret (length (tx_inputs t)))
       (\<lambda>t. bnd (lft (if tx_inputs t = [] then Inr [] else References (LookupTransaction ch) t)) (\<lambda>refs.
            bnd (lft (emap (\<lambda>r. ref_get r refs) (tx_inputs t))) (\<lambda>outs. ret (map H_Output outs))))"

definition Transaction_GetUnspentCoins :: "'z svc_scheme env \<Rightarrow> chain \<Rightarrow> ('z, bool) call" where
  "Transaction_GetUnspentCoins env ch =
     bnd (pop_interface as_Transaction) (\<lambda>tx.
       case tx of
         None \<Rightarrow> ret False
       | Some t \<Rightarrow>
           bnd (on_pool (tx_Hash (primitives_of env) t)) (\<lambda>hash.
           bnd (lft (GetAllUnspent ch hash)) (\<lambda>outputs.
             if int (length outputs) > maxArraySize then ret False
             else bnd (from_interfaces (map H_Output outputs)) (\<lambda>refs. sq (cur_PushT (PyList refs)) (ret True)))))"

definition Transaction_GetWitnesses :: "('z, bool) call" where
  "Transaction_GetWitnesses =
     list_getter as_Transaction (\<lambda>t. ret (length (tx_scripts t))) (\<lambda>t. ret (map H_Witness (tx_scripts t)))"

definition InvocationTransaction_GetScript :: "('z, bool) call" where
  "InvocationTransaction_GetScript = getter as_InvocationTransaction (\<lambda>scr. ret (PyBytes scr))"

text \<open>\<open>GetInterface()\<close> without a class, which every item has; only witnesses have the attribute.\<close>

definition Witness_GetVerificationScript :: "('z, bool) call" where
  "Witness_GetVerificationScript =
     bnd cur_Pop (\<lambda>item.
     bnd (gets host) (\<lambda>objects.
       case item of
         InteropInterface _ (Some n) \<Rightarrow>
           (case objects n of
              H_Witness w \<Rightarrow> sq (cur_PushT (PyBytes (VerificationScript w))) (ret True)
            | _ \<Rightarrow> throw AttributeError)
       | _ \<Rightarrow> ret False))"

definition Attribute_GetUsage :: "('z, bool) call" where
  "Attribute_GetUsage = getter as_Attribute (\<lambda>a. ret (PyInt (Usage a)))"

text \<open>
  Data that is not bytes would be put on the stack as it is, where nothing can use it; an attribute read
  from a stream has it for no known usage.
\<close>

definition Attribute_GetData :: "('z, bool) call" where
  "Attribute_GetData =
     getter as_Attribute (\<lambda>a. case attr_Data a of AttrBytes d \<Rightarrow> ret (PyBytes d) | _ \<Rightarrow> throw AttributeError)"

definition Input_GetHash :: "('z, bool) call" where
  "Input_GetHash = getter as_Input (\<lambda>r. ret (PyBytes (Data (PrevHash r))))"

definition Input_GetIndex :: "('z, bool) call" where
  "Input_GetIndex = getter as_Input (\<lambda>r. ret (PyInt (PrevIndex r)))"

definition Output_GetAssetId :: "('z, bool) call" where
  "Output_GetAssetId = getter as_Output (\<lambda>out. ret (PyBytes (Data (AssetId out))))"

definition Output_GetValue :: "('z, bool) call" where
  "Output_GetValue = getter as_Output (\<lambda>out. ret (PyInt (fx_value (Value out))))"

definition Output_GetScriptHash :: "('z, bool) call" where
  "Output_GetScriptHash = getter as_Output (\<lambda>out. ret (PyBytes (Data (ScriptHash out))))"

section \<open>Accounts and assets\<close>

definition Account_GetScriptHash :: "('z, bool) call" where
  "Account_GetScriptHash = getter as_Account (\<lambda>a. hash_array (acc_ScriptHash a))"

text \<open>Votes are bytes, which have no \<open>EncodePoint\<close>.\<close>

definition Account_GetVotes :: "('z, bool) call" where
  "Account_GetVotes = getter as_Account (\<lambda>a. if acc_Votes a = [] then ret (PyList []) else throw AttributeError)"

definition Account_GetBalance :: "('z, bool) call" where
  "Account_GetBalance =
     bnd (pop_interface as_Account) (\<lambda>account.
     bnd cur_PopBytes (\<lambda>data.
     bnd (lft (UInt256 (Some data))) (\<lambda>assetId.
       case account of
         None \<Rightarrow> ret False
       | Some a \<Rightarrow> sq (cur_PushT (PyInt (fx_value (BalanceFor assetId a)))) (ret True))))"

definition Account_IsStandard :: "('z, bool) call" where
  "Account_IsStandard = ret False"

definition Asset_GetAssetId :: "('z, bool) call" where
  "Asset_GetAssetId = getter as_Asset (\<lambda>a. hash_array (as_AssetId a))"

definition Asset_GetAssetType :: "('z, bool) call" where
  "Asset_GetAssetType = getter as_Asset (\<lambda>a. ret (PyInt (as_AssetType a)))"

definition Asset_GetAmount :: "('z, bool) call" where
  "Asset_GetAmount = getter as_Asset (\<lambda>a. ret (PyInt (fx_value (as_Amount a))))"

definition Asset_GetAvailable :: "('z, bool) call" where
  "Asset_GetAvailable = getter as_Asset (\<lambda>a. ret (PyInt (fx_value (as_Available a))))"

definition Asset_GetPrecision :: "('z, bool) call" where
  "Asset_GetPrecision = getter as_Asset (\<lambda>a. ret (PyInt (as_Precision a)))"

text \<open>A point has no \<open>EncodePoint\<close> either.\<close>

definition Asset_GetOwner :: "('z, bool) call" where
  "Asset_GetOwner = getter as_Asset (\<lambda>a. throw AttributeError)"

definition Asset_GetAdmin :: "('z, bool) call" where
  "Asset_GetAdmin = getter as_Asset (\<lambda>a. hash_array (as_Admin a))"

definition Asset_GetIssuer :: "('z, bool) call" where
  "Asset_GetIssuer = getter as_Asset (\<lambda>a. hash_array (as_Issuer a))"

text \<open>\<open>if len(Peek().GetByteArray()) > n: return False\<close>, then the bytes popped.\<close>

definition pop_at_most :: "nat \<Rightarrow> (bytes \<Rightarrow> ('z, bool) call) \<Rightarrow> ('z, bool) call" where
  "pop_at_most n next_step =
     bnd cur_Peek (\<lambda>x. bnd (lft (GetByteArray x)) (\<lambda>b.
       if n < length b then ret False else bnd cur_PopBytes next_step))"

definition asset_type_ok :: "int \<Rightarrow> bool" where
  "asset_type_ok t \<longleftrightarrow> t \<in> set AllTypes \<and> t \<noteq> AT_CreditFlag \<and> t \<noteq> AT_DutyFlag \<and> t \<noteq> AT_GoverningToken \<and>
     t \<noteq> AT_UtilityToken"

definition Asset_Create :: "'z svc_scheme env \<Rightarrow> chain \<Rightarrow> ('z, bool) call" where
  "Asset_Create env ch =
     bnd cur_PopInt (\<lambda>asset_type.
     if \<not> asset_type_ok asset_type then ret False
     else pop_at_most 1024 (\<lambda>name_bytes.
     bnd (lft (utf8_decode name_bytes)) (\<lambda>name.
     bnd cur_PopInt (\<lambda>amount_value.
     let amount = Fixed8 amount_value in
     if amount = fx_Zero \<or> amount < fx_NegativeSatoshi then ret False
     else if asset_type = AT_Invoice \<and> amount \<noteq> fx_NegativeSatoshi then ret False
     else
       bnd cur_PopInt (\<lambda>precision.
       if precision > 8 then ret False
       else if asset_type = AT_Share \<and> precision \<noteq> 0 then ret False
       else if amount \<noteq> fx_NegativeSatoshi \<and> fx_value amount mod 10 ^ nat (8 - precision) \<noteq> 0 then ret False
       else
         bnd cur_PopBytes (\<lambda>ownerData.
           case decode_secp256r1 ownerData False True of
             Inl e \<Rightarrow> if e = ValueError then ret False else throw e
           | Inr owner \<Rightarrow>
               if IsInfinity secp256r1_curve owner then ret False
               else
                 bnd (CheckWitnessPubkey env ch owner) (\<lambda>ok.
                 if \<not> ok then ret False
                 else
                   bnd cur_PopBytes (\<lambda>admin_bytes.
                   bnd (lft (UInt160 (Some admin_bytes))) (\<lambda>admin.
                   bnd cur_PopBytes (\<lambda>issuer_bytes.
                   bnd (lft (UInt160 (Some issuer_bytes))) (\<lambda>issuer.
                   bnd (lft (UInt160 None)) (\<lambda>fee_addr.
                   let new_asset =
                     \<lparr>as_AssetId = Some (ContainerHash ch), as_AssetType = asset_type, as_Name = PStr name,
                      as_Amount = amount, as_Available = fx_Zero, as_Precision = precision, as_FeeMode = 0,
                      as_Fee = fx_Zero, as_FeeAddress = fee_addr, as_Owner = owner, as_Admin = Some admin,
                      as_Issuer = Some issuer, as_Expiration = Height ch + 1 + 2000000, as_IsFrozen = False\<rparr> in
                   bnd (on_Assets (dc_GetOrAdd Assets_clone (uint_ToBytes (ContainerHash ch)) new_asset)) (\<lambda>asset.
                   sq (cur_PushInterface (Some (H_Asset asset))) (ret True))))))))))))))"

text \<open>The asset is marked as changed; then the snapshot is asked for a height, which it does not have.\<close>

definition Asset_Renew :: "('z, bool) call" where
  "Asset_Renew =
     bnd (pop_interface as_Asset) (\<lambda>current_asset.
       case current_asset of
         None \<Rightarrow> ret False
       | Some a \<Rightarrow>
           bnd cur_PopInt (\<lambda>years.
           case as_AssetId a of
             None \<Rightarrow> throw AttributeError
           | Some asset_id \<Rightarrow>
               bnd (on_Assets (dc_GetAndChange Assets_clone (uint_ToBytes asset_id) None)) (\<lambda>asset.
               throw AttributeError)))"

section \<open>Contracts\<close>

text \<open>\<open>FunctionCode\<close> takes the return types of \<open>ContractParameterType\<close> only.\<close>

definition return_types :: "int list" where
  "return_types = [0x00, 0x01, 0x02, 0x03, 0x04, 0x05, 0x06, 0x07, 0x10, 0xf0, 0xff]"

definition FunctionCode :: "bytes \<Rightarrow> bytes \<Rightarrow> int \<Rightarrow> int \<Rightarrow> pyexc + function_code" where
  "FunctionCode scr params return_type contract_properties =
     (if return_type \<in> set return_types
      then Inr \<lparr>fc_Script = scr, fc_ParameterList = params, fc_ReturnType = return_type,
                 fc_ContractProperties = contract_properties\<rparr>
      else Inl ValueError)"

definition created_by :: "uint \<Rightarrow> uint \<Rightarrow> ('z, unit) call" where
  "created_by hash creator =
     modify (\<lambda>s. s\<lparr>contracts_created := AList.update (uint_ToBytes hash) creator (contracts_created s)\<rparr>)"

text \<open>The return type that the constructor refuses is set after it.\<close>

definition Contract_Create :: "'z svc_scheme env \<Rightarrow> ('z, bool) call" where
  "Contract_Create env =
     bnd cur_PopBytes (\<lambda>scr.
     if 1024 * 1024 < int (length scr) then ret False
     else bnd cur_PopBytes (\<lambda>param_list.
     if 252 < length param_list then ret False
     else bnd cur_PopInt (\<lambda>return_type.
     if return_type < 0 \<or> return_type > 0xff then throw ValueError
     else bnd cur_PopInt (\<lambda>contract_properties.
       pop_at_most 252 (\<lambda>name.
       pop_at_most 252 (\<lambda>code_version.
       pop_at_most 252 (\<lambda>author.
       pop_at_most 252 (\<lambda>email.
       pop_at_most 65536 (\<lambda>description.
       bnd (lft (Crypto_ToScriptHash (primitives_of env) scr False)) (\<lambda>hash.
       bnd (on_Contracts (dc_TryGet Contracts_clone (uint_ToBytes hash))) (\<lambda>found.
       bnd (case found of
              Some contract \<Rightarrow> ret contract
            | None \<Rightarrow>
                let code = \<lparr>fc_Script = scr, fc_ParameterList = param_list, fc_ReturnType = return_type,
                             fc_ContractProperties = contract_properties\<rparr>;
                    contract =
                      \<lparr>co_Code = code, co_ContractProperties = contract_properties, co_Name = name,
                       co_CodeVersion = code_version, co_Author = author, co_Email = email,
                       co_Description = description\<rparr>
                in bnd (lft (fc_ScriptHash (primitives_of env) code)) (\<lambda>code_hash.
                   sq (on_Contracts (dc_Add (uint_ToBytes code_hash) contract))
                  (bnd cur_ScriptHash (\<lambda>creator.
                   sq (created_by hash creator) (ret contract))))) (\<lambda>contract.
       sq (cur_PushInterface (Some (H_Contract contract)))
      (sq (emit (CONTRACT_CREATED hash contract)) (ret True))))))))))))))"

text \<open>Texts are decoded; they are kept here by the bytes that \<open>WriteVarString\<close> writes for them.\<close>

definition pop_text :: "nat \<Rightarrow> (bytes \<Rightarrow> ('z, bool) call) \<Rightarrow> ('z, bool) call" where
  "pop_text n next_step = pop_at_most n (\<lambda>b. bnd (lft (utf8_decode b)) (\<lambda>text. next_step b))"

text \<open>The items under the migrating contract's hash are added under the new one.\<close>

definition copy_storage :: "uint \<Rightarrow> uint \<Rightarrow> ('z, unit) call" where
  "copy_storage old new =
     bnd (on_Storages (dc_Find Storages_clone (Some (Data old)))) (\<lambda>found.
       mapm (\<lambda>(k, item). on_Storages (dc_Add (sk_ToArray \<lparr>sk_ScriptHash = new, sk_Key = drop 20 k\<rparr>) item)) found)"

definition Contract_Migrate :: "'z svc_scheme env \<Rightarrow> ('z, bool) call" where
  "Contract_Migrate env =
     bnd cur_PopBytes (\<lambda>scr.
     if 1024 * 1024 < int (length scr) then ret False
     else bnd cur_PopBytes (\<lambda>param_list.
     if 252 < length param_list then ret False
     else bnd cur_PopInt (\<lambda>return_type.
     bnd cur_PopInt (\<lambda>contract_properties.
       pop_text 252 (\<lambda>name.
       pop_text 252 (\<lambda>version.
       pop_text 252 (\<lambda>author.
       pop_text 252 (\<lambda>email.
       pop_text 65536 (\<lambda>description.
       bnd (lft (Crypto_ToScriptHash (primitives_of env) scr False)) (\<lambda>hash.
       bnd (on_Contracts (dc_TryGet Contracts_clone (uint_ToBytes hash))) (\<lambda>found.
       bnd (case found of
              Some contract \<Rightarrow> ret contract
            | None \<Rightarrow>
                bnd (lft (FunctionCode scr param_list return_type 0)) (\<lambda>code.
                let contract =
                      \<lparr>co_Code = code, co_ContractProperties = contract_properties, co_Name = name,
                       co_CodeVersion = version, co_Author = author, co_Email = email,
                       co_Description = description\<rparr>
                in sq (on_Contracts (dc_Add (uint_ToBytes hash) contract))
                  (bnd cur_ScriptHash (\<lambda>cur_hash.
                   sq (created_by hash cur_hash)
                  (sq (whenm (co_HasStorage contract) (copy_storage cur_hash hash))
                     (ret contract)))))) (\<lambda>contract.
       sq (cur_PushInterface (Some (H_Contract contract)))
      (sq (emit (CONTRACT_MIGRATED hash contract)) Contract_Destroy)))))))))))))"

definition Contract_GetScript :: "('z, bool) call" where
  "Contract_GetScript = getter as_Contract (\<lambda>c. ret (PyBytes (fc_Script (co_Code c))))"

definition Contract_IsPayable :: "('z, bool) call" where
  "Contract_IsPayable = getter as_Contract (\<lambda>c. ret (PyBool (co_Payable c)))"

section \<open>The dictionary of system calls\<close>

type_synonym 'z registration = "string \<times> ('z, bool) call \<times> int option"

text \<open>\<open>RegisterWithPrice\<close>, and \<open>Register\<close> for the calls whose price the engine works out.\<close>

definition RegisterWithPrice ::
  "primitives \<Rightarrow> 'z registration \<Rightarrow> 'z svc_scheme service_table \<times> (int \<Rightarrow> int option) \<Rightarrow>
   'z svc_scheme service_table \<times> (int \<Rightarrow> int option)" where
  "RegisterWithPrice p r tables =
     (case r of (method, func, price) \<Rightarrow>
       (Register p method func (fst tables),
        case price of None \<Rightarrow> snd tables | Some v \<Rightarrow> (snd tables)(interop_hash p (ascii method) \<mapsto> v)))"

definition StateReader_calls :: "'z svc_scheme env \<Rightarrow> chain \<Rightarrow> (string \<Rightarrow> ('z, bool) call) \<Rightarrow> 'z registration list" where
  "StateReader_calls env ch others =
    [(''System.Runtime.Platform'', Runtime_Platform, Some 1),
     (''System.Runtime.GetTrigger'', Runtime_GetTrigger ch, Some 1),
     (''System.Runtime.CheckWitness'', Runtime_CheckWitness env ch, Some 200),
     (''System.Runtime.Notify'', Runtime_Notify env, Some 1),
     (''System.Runtime.Log'', Runtime_Log, Some 1),
     (''System.Runtime.GetTime'', Runtime_GetCurrentTime ch, Some 1),
     (''System.Runtime.Serialize'', Runtime_Serialize env, Some 1),
     (''System.Runtime.Deserialize'', Runtime_Deserialize env, Some 1),
     (''System.Blockchain.GetHeight'', Blockchain_GetHeight ch, Some 1),
     (''System.Blockchain.GetHeader'', Blockchain_GetHeader ch, Some 100),
     (''System.Blockchain.GetBlock'', Blockchain_GetBlock ch, Some 200),
     (''System.Blockchain.GetTransaction'', Blockchain_GetTransaction ch, Some 200),
     (''System.Blockchain.GetTransactionHeight'', Blockchain_GetTransactionHeight ch, Some 100),
     (''System.Blockchain.GetContract'', Blockchain_GetContract, Some 100),
     (''System.Header.GetIndex'', Header_GetIndex, Some 1),
     (''System.Header.GetHash'', Header_GetHash env, Some 1),
     (''System.Header.GetPrevHash'', Header_GetPrevHash, Some 1),
     (''System.Header.GetTimestamp'', Header_GetTimestamp, Some 1),
     (''System.Block.GetTransactionCount'', Block_GetTransactionCount, Some 1),
     (''System.Block.GetTransactions'', Block_GetTransactions, Some 1),
     (''System.Block.GetTransaction'', Block_GetTransaction, Some 1),
     (''System.Transaction.GetHash'', Transaction_GetHash env, Some 1),
     (''System.Storage.GetContext'', Storage_GetContext, Some 1),
     (''System.Storage.GetReadOnlyContext'', Storage_GetReadOnlyContext, Some 1),
     (''System.Storage.Get'', Storage_Get, Some 100),
     (''System.Storage.Put'', Storage_Put, None),
     (''System.Storage.PutEx'', Storage_PutEx, None),
     (''System.Storage.Delete'', Storage_Delete ch, Some 100),
     (''System.StorageContext.AsReadOnly'', StorageContext_AsReadOnly, Some 1)]"

definition StateMachine_calls :: "'z svc_scheme env \<Rightarrow> chain \<Rightarrow> (string \<Rightarrow> ('z, bool) call) \<Rightarrow> 'z registration list" where
  "StateMachine_calls env ch others =
    [(''Neo.Runtime.GetTrigger'', Runtime_GetTrigger ch, Some 1),
     (''Neo.Runtime.CheckWitness'', Runtime_CheckWitness env ch, Some 200),
     (''Neo.Runtime.Notify'', Runtime_Notify env, Some 1),
     (''Neo.Runtime.Log'', Runtime_Log, Some 1),
     (''Neo.Runtime.GetTime'', Runtime_GetCurrentTime ch, Some 1),
     (''Neo.Runtime.Serialize'', Runtime_Serialize env, Some 1),
     (''Neo.Runtime.Deserialize'', Runtime_Deserialize env, Some 1),
     (''Neo.Blockchain.GetHeight'', Blockchain_GetHeight ch, Some 1),
     (''Neo.Blockchain.GetHeader'', Blockchain_GetHeader ch, Some 100),
     (''Neo.Blockchain.GetBlock'', Blockchain_GetBlock ch, Some 200),
     (''Neo.Blockchain.GetTransaction'', Blockchain_GetTransaction ch, Some 100),
     (''Neo.Blockchain.GetTransactionHeight'', Blockchain_GetTransactionHeight ch, Some 100),
     (''Neo.Blockchain.GetAccount'', Blockchain_GetAccount env ch, Some 100),
     (''Neo.Blockchain.GetValidators'', Blockchain_GetValidators, Some 100),
     (''Neo.Blockchain.GetAsset'', Blockchain_GetAsset, Some 100),
     (''Neo.Blockchain.GetContract'', Blockchain_GetContract, Some 100),
     (''Neo.Header.GetHash'', Header_GetHash env, Some 1),
     (''Neo.Header.GetVersion'', Header_GetVersion, Some 1),
     (''Neo.Header.GetPrevHash'', Header_GetPrevHash, Some 1),
     (''Neo.Header.GetMerkleRoot'', Header_GetMerkleRoot, Some 1),
     (''Neo.Header.GetTimestamp'', Header_GetTimestamp, Some 1),
     (''Neo.Header.GetIndex'', Header_GetIndex, Some 1),
     (''Neo.Header.GetConsensusData'', Header_GetConsensusData, Some 1),
     (''Neo.Header.GetNextConsensus'', Header_GetNextConsensus, Some 1),
     (''Neo.Block.GetTransactionCount'', Block_GetTransactionCount, Some 1),
     (''Neo.Block.GetTransactions'', Block_GetTransactions, Some 1),
     (''Neo.Block.GetTransaction'', Block_GetTransaction, Some 1),
     (''Neo.Transaction.GetHash'', Transaction_GetHash env, Some 1),
     (''Neo.Transaction.GetType'', Transaction_GetType, Some 1),
     (''Neo.Transaction.GetAttributes'', Transaction_GetAttributes, Some 1),
     (''Neo.Transaction.GetInputs'', Transaction_GetInputs, Some 1),
     (''Neo.Transaction.GetOutputs'', Transaction_GetOutputs, Some 1),
     (''Neo.Transaction.GetReferences'', Transaction_GetReferences ch, Some 200),
     (''Neo.Transaction.GetUnspentCoins'', Transaction_GetUnspentCoins env ch, Some 200),
     (''Neo.Transaction.GetWitnesses'', Transaction_GetWitnesses, Some 200),
     (''Neo.InvocationTransaction.GetScript'', InvocationTransaction_GetScript, Some 1),
     (''Neo.Witness.GetVerificationScript'', Witness_GetVerificationScript, Some 100),
     (''Neo.Attribute.GetUsage'', Attribute_GetUsage, Some 1),
     (''Neo.Attribute.GetData'', Attribute_GetData, Some 1),
     (''Neo.Input.GetHash'', Input_GetHash, Some 1),
     (''Neo.Input.GetIndex'', Input_GetIndex, Some 1),
     (''Neo.Output.GetAssetId'', Output_GetAssetId, Some 1),
     (''Neo.Output.GetValue'', Output_GetValue, Some 1),
     (''Neo.Output.GetScriptHash'', Output_GetScriptHash, Some 1),
     (''Neo.Account.GetScriptHash'', Account_GetScriptHash, Some 1),
     (''Neo.Account.GetVotes'', Account_GetVotes, Some 1),
     (''Neo.Account.GetBalance'', Account_GetBalance, Some 1),
     (''Neo.Account.IsStandard'', Account_IsStandard, Some 100),
     (''Neo.Asset.Create'', Asset_Create env ch, None),
     (''Neo.Asset.Renew'', Asset_Renew, None),
     (''Neo.Asset.GetAssetId'', Asset_GetAssetId, Some 1),
     (''Neo.Asset.GetAssetType'', Asset_GetAssetType, Some 1),
     (''Neo.Asset.GetAmount'', Asset_GetAmount, Some 1),
     (''Neo.Asset.GetAvailable'', Asset_GetAvailable, Some 1),
     (''Neo.Asset.GetPrecision'', Asset_GetPrecision, Some 1),
     (''Neo.Asset.GetOwner'', Asset_GetOwner, Some 1),
     (''Neo.Asset.GetAdmin'', Asset_GetAdmin, Some 1),
     (''Neo.Asset.GetIssuer'', Asset_GetIssuer, Some 1),
     (''Neo.Contract.Create'', Contract_Create env, None),
     (''Neo.Contract.Migrate'', Contract_Migrate env, None),
     (''Neo.Contract.Destroy'', Contract_Destroy, Some 1),
     (''Neo.Contract.GetScript'', Contract_GetScript, Some 1),
     (''Neo.Contract.IsPayable'', Contract_IsPayable, Some 1),
     (''Neo.Contract.GetStorageContext'', Contract_GetStorageContext env, Some 1),
     (''Neo.Storage.GetContext'', Storage_GetContext, Some 1),
     (''Neo.Storage.GetReadOnlyContext'', Storage_GetReadOnlyContext, Some 1),
     (''Neo.Storage.Get'', Storage_Get, Some 100),
     (''Neo.Storage.Put'', Storage_Put, None),
     (''Neo.Storage.Delete'', Storage_Delete ch, Some 100),
     (''Neo.Storage.Find'', others ''Storage_Find'', Some 1),
     (''Neo.StorageContext.AsReadOnly'', StorageContext_AsReadOnly, Some 1),
     (''Neo.Enumerator.Create'', others ''Enumerator_Create'', Some 1),
     (''Neo.Enumerator.Next'', others ''Enumerator_Next'', Some 1),
     (''Neo.Enumerator.Value'', others ''Enumerator_Value'', Some 1),
     (''Neo.Enumerator.Concat'', others ''Enumerator_Concat'', Some 1),
     (''Neo.Iterator.Create'', others ''Iterator_Create'', Some 1),
     (''Neo.Iterator.Key'', others ''Iterator_Key'', Some 1),
     (''Neo.Iterator.Keys'', others ''Iterator_Keys'', Some 1),
     (''Neo.Iterator.Values'', others ''Iterator_Values'', Some 1),
     (''Neo.Iterator.Concat'', others ''Iterator_Concat'', Some 1),
     (''Neo.Iterator.Next'', others ''Enumerator_Next'', Some 1),
     (''Neo.Iterator.Value'', others ''Enumerator_Value'', Some 1),
     (''AntShares.Runtime.CheckWitness'', Runtime_CheckWitness env ch, Some 200),
     (''AntShares.Runtime.Notify'', Runtime_Notify env, Some 1),
     (''AntShares.Runtime.Log'', Runtime_Log, Some 1),
     (''AntShares.Blockchain.GetHeight'', Blockchain_GetHeight ch, Some 1),
     (''AntShares.Blockchain.GetHeader'', Blockchain_GetHeader ch, Some 100),
     (''AntShares.Blockchain.GetBlock'', Blockchain_GetBlock ch, Some 200),
     (''AntShares.Blockchain.GetTransaction'', Blockchain_GetTransaction ch, Some 100),
     (''AntShares.Blockchain.GetAccount'', Blockchain_GetAccount env ch, Some 100),
     (''AntShares.Blockchain.GetValidators'', Blockchain_GetValidators, Some 200),
     (''AntShares.Blockchain.GetAsset'', Blockchain_GetAsset, Some 100),
     (''AntShares.Blockchain.GetContract'', Blockchain_GetContract, Some 100),
     (''AntShares.Header.GetHash'', Header_GetHash env, Some 1),
     (''AntShares.Header.GetVersion'', Header_GetVersion, Some 1),
     (''AntShares.Header.GetPrevHash'', Header_GetPrevHash, Some 1),
     (''AntShares.Header.GetMerkleRoot'', Header_GetMerkleRoot, Some 1),
     (''AntShares.Header.GetTimestamp'', Header_GetTimestamp, Some 1),
     (''AntShares.Header.GetConsensusData'', Header_GetConsensusData, Some 1),
     (''AntShares.Header.GetNextConsensus'', Header_GetNextConsensus, Some 1),
     (''AntShares.Block.GetTransactionCount'', Block_GetTransactionCount, Some 1),
     (''AntShares.Block.GetTransactions'', Block_GetTransactions, Some 1),
     (''AntShares.Block.GetTransaction'', Block_GetTransaction, Some 1),
     (''AntShares.Transaction.GetHash'', Transaction_GetHash env, Some 1),
     (''AntShares.Transaction.GetType'', Transaction_GetType, Some 1),
     (''AntShares.Transaction.GetAttributes'', Transaction_GetAttributes, Some 1),
     (''AntShares.Transaction.GetInputs'', Transaction_GetInputs, Some 1),
     (''AntShares.Transaction.GetOutpus'', Transaction_GetOutputs, Some 1),
     (''AntShares.Transaction.GetReferences'', Transaction_GetReferences ch, Some 200),
     (''AntShares.Attribute.GetData'', Attribute_GetData, Some 1),
     (''AntShares.Attribute.GetUsage'', Attribute_GetUsage, Some 1),
     (''AntShares.Input.GetHash'', Input_GetHash, Some 1),
     (''AntShares.Input.GetIndex'', Input_GetIndex, Some 1),
     (''AntShares.Output.GetAssetId'', Output_GetAssetId, Some 1),
     (''AntShares.Output.GetValue'', Output_GetValue, Some 1),
     (''AntShares.Output.GetScriptHash'', Output_GetScriptHash, Some 1),
     (''AntShares.Account.GetVotes'', Account_GetVotes, Some 1),
     (''AntShares.Account.GetBalance'', Account_GetBalance, Some 1),
     (''AntShares.Account.GetScriptHash'', Account_GetScriptHash, Some 1),
     (''AntShares.Asset.Create'', Asset_Create env ch, None),
     (''AntShares.Asset.Renew'', Asset_Renew, None),
     (''AntShares.Asset.GetAssetId'', Asset_GetAssetId, Some 1),
     (''AntShares.Asset.GetAssetType'', Asset_GetAssetType, Some 1),
     (''AntShares.Asset.GetAmount'', Asset_GetAmount, Some 1),
     (''AntShares.Asset.GetAvailable'', Asset_GetAvailable, Some 1),
     (''AntShares.Asset.GetPrecision'', Asset_GetPrecision, Some 1),
     (''AntShares.Asset.GetOwner'', Asset_GetOwner, Some 1),
     (''AntShares.Asset.GetAdmin'', Asset_GetAdmin, Some 1),
     (''AntShares.Asset.GetIssuer'', Asset_GetIssuer, Some 1),
     (''AntShares.Contract.Create'', Contract_Create env, None),
     (''AntShares.Contract.Migrate'', Contract_Migrate env, None),
     (''AntShares.Contract.Destroy'', Contract_Destroy, Some 1),
     (''AntShares.Contract.GetScript'', Contract_GetScript, Some 1),
     (''AntShares.Contract.GetStorageContext'', Contract_GetStorageContext env, Some 1),
     (''AntShares.Storage.GetContext'', Storage_GetContext, Some 1),
     (''AntShares.Storage.Get'', Storage_Get, Some 100),
     (''AntShares.Storage.Put'', Storage_Put, None),
     (''Neo.Storage.Delete'', Storage_Delete ch, Some 100)]"

text \<open>A name that is registered again is overwritten.\<close>

definition registered ::
  "'z svc_scheme env \<Rightarrow> chain \<Rightarrow> (string \<Rightarrow> ('z, bool) call) \<Rightarrow>
   'z svc_scheme service_table \<times> (int \<Rightarrow> int option)" where
  "registered env ch others =
     fold (RegisterWithPrice (primitives_of env)) (StateReader_calls env ch others @ StateMachine_calls env ch others)
       (InteropService env, \<lambda>_. None)"

definition StateMachine :: "'z svc_scheme env \<Rightarrow> chain \<Rightarrow> (string \<Rightarrow> ('z, bool) call) \<Rightarrow> 'z svc_scheme service_table" where
  "StateMachine env ch others = fst (registered env ch others)"

definition StateReader_GetPrice :: "'z svc_scheme env \<Rightarrow> chain \<Rightarrow> (string \<Rightarrow> ('z, bool) call) \<Rightarrow> int \<Rightarrow> int" where
  "StateReader_GetPrice env ch others hash =
     (case snd (registered env ch others) hash of None \<Rightarrow> 0 | Some price \<Rightarrow> price)"

text \<open>
  The engine that \<open>ApplicationEngine.__init__\<close> builds: the state machine is its service and the snapshot
  its table of scripts; what it asks of contracts it asks the snapshot.
\<close>

definition machine_env ::
  "'z svc_scheme env \<Rightarrow> chain \<Rightarrow> (string \<Rightarrow> ('z, bool) call) \<Rightarrow> 'z svc_scheme app_env" where
  "machine_env base ch others =
     (let env = base\<lparr>GetScript := Some (\<lambda>h. on_Contracts (snapshot_GetScript Contracts_clone h))\<rparr> in
      \<lparr>vm_env = env\<lparr>service := Some (StateMachine env ch others)\<rparr>,
       HasDynamicInvoke = (\<lambda>h. bnd (on_Contracts (dc_getitem Contracts_clone h)) (\<lambda>c. ret (co_HasDynamicInvoke c))),
       Service_GetPrice = (\<lambda>h. Inr (StateReader_GetPrice env ch others h))\<rparr>)"

lemmas state_machine_defs = Blockchain_GetAccount_def Blockchain_GetValidators_def Blockchain_GetAsset_def
  Header_GetVersion_def hash_array_def Header_GetMerkleRoot_def Header_GetConsensusData_def
  Header_GetNextConsensus_def Transaction_GetType_def Transaction_GetAttributes_def Transaction_GetInputs_def
  Transaction_GetOutputs_def Transaction_GetReferences_def Transaction_GetUnspentCoins_def
  Transaction_GetWitnesses_def InvocationTransaction_GetScript_def Witness_GetVerificationScript_def
  Attribute_GetUsage_def Attribute_GetData_def Input_GetHash_def Input_GetIndex_def Output_GetAssetId_def
  Output_GetValue_def Output_GetScriptHash_def Account_GetScriptHash_def Account_GetVotes_def
  Account_GetBalance_def Account_IsStandard_def Asset_GetAssetId_def Asset_GetAssetType_def Asset_GetAmount_def
  Asset_GetAvailable_def Asset_GetPrecision_def Asset_GetOwner_def Asset_GetAdmin_def Asset_GetIssuer_def
  pop_at_most_def asset_type_ok_def Asset_Create_def Asset_Renew_def return_types_def FunctionCode_def
  created_by_def Contract_Create_def pop_text_def copy_storage_def Contract_Migrate_def Contract_GetScript_def
  Contract_IsPayable_def RegisterWithPrice_def StateReader_calls_def StateMachine_calls_def registered_def
  StateMachine_def StateReader_GetPrice_def machine_env_def

declare state_machine_defs [model_defs]

end
