(* ===== verification/Service_Frame.thy ===== *)
theory Service_Frame
  imports State_Machine Gas_Limit
begin

text \<open>
  What a system call leaves alone: it works on the stacks of contexts, on the heap of items and on the
  state of the service, and on nothing else that the engine keeps. So the state machine is a service as
  the application engine expects it, and test runs with system calls end.
\<close>

section \<open>What system calls do not touch\<close>

definition engine_view ::
  "'z app_engine_scheme \<Rightarrow> int \<times> cid ras \<times> cid \<times> int \<times> (int \<times> int \<times> bool) \<times> (cid \<Rightarrow> script \<times> int \<times> instruction option)" where
  "engine_view s =
     (VMState s, InvocationStack s, next_context s, ops_processed s, accounts s, \<lambda>c. code_view (contexts s c))"

definition stays :: "('z app_engine_scheme, 'a) m \<Rightarrow> bool" where
  "stays m \<longleftrightarrow> (\<forall>s. engine_view (snd (m s)) = engine_view s)"

named_theorems stays_intros

lemma stays_keeps: "stays m \<longleftrightarrow> (\<forall>a. keeps (\<lambda>s. engine_view s = a) m)"
  unfolding stays_def keeps_def by blast

lemma stays_bnd [stays_intros]: "stays m \<Longrightarrow> (\<And>a. stays (f a)) \<Longrightarrow> stays (bnd m f)"
  unfolding stays_keeps by (blast intro: keeps_bnd)

lemma stays_sq [stays_intros]: "stays m \<Longrightarrow> stays m' \<Longrightarrow> stays (sq m m')"
  unfolding sq_def by (rule stays_bnd)

lemma stays_basic [stays_intros]:
  "stays (ret a)" "stays (fin b)" "stays (throw e)" "stays (lft r)" "stays (gets g)"
  unfolding stays_keeps by (simp_all add: keeps_basic)

lemma stays_structure [stays_intros]:
  "stays m \<Longrightarrow> stays m' \<Longrightarrow> stays (if b then m else m')"
  "stays (h a) \<Longrightarrow> stays (Let a h)"
  "stays m \<Longrightarrow> (\<And>x. stays (g x)) \<Longrightarrow> stays (case v of None \<Rightarrow> m | Some x \<Rightarrow> g x)"
  "(\<And>x y. stays (k x y)) \<Longrightarrow> stays (case p of (x, y) \<Rightarrow> k x y)"
  "(\<And>e. stays (l e)) \<Longrightarrow> (\<And>x. stays (g x)) \<Longrightarrow> stays (case r of Inl e \<Rightarrow> l e | Inr x \<Rightarrow> g x)"
  by (simp_all split: option.splits prod.splits sum.splits)

lemma stays_whenm [stays_intros]: "stays m \<Longrightarrow> stays (whenm b m)"
  unfolding stays_keeps by (blast intro: keeps_whenm)

lemma stays_mapm [stays_intros]: "(\<And>x. stays (f x)) \<Longrightarrow> stays (mapm f xs)"
  unfolding stays_keeps by (blast intro: keeps_mapm)

lemma stays_try [stays_intros]: "stays m \<Longrightarrow> (\<And>e. stays (h e)) \<Longrightarrow> stays (try_except m h)"
  by (auto simp: stays_def try_except_def split: prod.splits res.splits) (metis snd_conv)+

lemma stays_modify: "(\<And>s. engine_view (f s) = engine_view s) \<Longrightarrow> stays (modify f)"
  by (simp add: stays_def modify_def)

lemma engine_view_put [simp]: "engine_view (put_stack k t s) = engine_view s"
  by (cases k) (auto simp: engine_view_def accounts_def code_view_def update_context_def put_stack.simps fun_eq_iff)

lemma engine_view_heap [simp]: "engine_view (s\<lparr>items_heap := h\<rparr>) = engine_view s"
  by (simp add: engine_view_def accounts_def)

lemma stays_primitives [stays_intros]:
  "stays (Pop k)" "stays (Peek k n)" "stays (Push k x)" "stays CurrentContext"
  "stays CallingContext" "stays EntryContext"
  unfolding Pop_def Remove_def Peek_def Push_def CurrentContext_def CallingContext_def EntryContext_def
  by (rule stays_intros stays_modify | simp)+

lemma stays_heap: "stays (\<lambda>s. let (x, h) = f (items_heap s) in (Val x, s\<lparr>items_heap := h\<rparr>))"
  by (auto simp: stays_def split: prod.splits)

lemma stays_PushT [stays_intros]: "stays (PushT k v)"
  unfolding PushT_def new_item_def [abs_def] by (rule stays_intros stays_heap)+

text \<open>A call that stays is one that the engine and the application engine expect.\<close>

lemma engine_viewD:
  assumes "engine_view s = engine_view t"
  shows "VMState s = VMState t" "InvocationStack s = InvocationStack t" "next_context s = next_context t"
    "ops_processed s = ops_processed t" "accounts s = accounts t" "code_view (contexts s c) = code_view (contexts t c)"
  using assms by (auto simp: engine_view_def fun_eq_iff)

lemma context_code_ok_view: "code_view x = code_view y \<Longrightarrow> context_code_ok x = context_code_ok y"
  by (auto simp: code_view_def context_code_ok_def)

lemma stays_behaves:
  assumes "stays m"
  shows "keeps (\<lambda>s. \<not> running s) m" "keeps calls_wf m" "keeps (\<lambda>s. ops_processed s = n) m"
    "keeps (\<lambda>s. accounts s = a) m" "keeps_code c m"
proof -
  have v: "engine_view (snd (m s)) = engine_view s" for s using assms by (simp add: stays_def)
  show "keeps (\<lambda>s. \<not> running s) m" "keeps calls_wf m" "keeps (\<lambda>s. ops_processed s = n) m" "keeps (\<lambda>s. accounts s = a) m"
    by (simp_all add: keeps_def running_def calls_wf_def engine_viewD(1-5) [OF v])
  show "keeps_code c m"
    using context_code_ok_view [OF engine_viewD(6) [OF v]]
    by (simp add: keeps_code_def code_ok_def engine_viewD(3,6) [OF v])
qed

section \<open>The parts of system calls\<close>

lemma engine_view_svc [simp]:
  "engine_view (s\<lparr>host := a\<rparr>) = engine_view s" "engine_view (s\<lparr>host_next := b\<rparr>) = engine_view s"
  "engine_view (s\<lparr>notifications := c\<rparr>) = engine_view s" "engine_view (s\<lparr>events_to_dispatch := d\<rparr>) = engine_view s"
  "engine_view (s\<lparr>hashes_for_verifying := e\<rparr>) = engine_view s" "engine_view (s\<lparr>contracts_created := f\<rparr>) = engine_view s"
  "engine_view (s\<lparr>Snapshot := g\<rparr>) = engine_view s" "engine_view (s\<lparr>svc_pool := h\<rparr>) = engine_view s"
  by (simp_all add: engine_view_def accounts_def)

lemma stays_parts [stays_intros]:
  "stays (on_pool p)" "stays (on_Accounts p')" "stays (on_Assets p'')" "stays (on_Contracts q)" "stays (on_Storages q')"
  by (auto simp: stays_def on_pool_def on_Accounts_def on_Assets_def on_Contracts_def on_Storages_def split: prod.splits)

lemma stays_cur [stays_intros]:
  "stays (emit e)" "stays cur_Pop" "stays cur_Peek" "stays cur_PopBytes" "stays cur_PopInt" "stays (cur_PushT v)"
  "stays cur_ScriptHash" "stays (new_object ob)"
  unfolding emit_def cur_Pop_def cur_Peek_def cur_PopBytes_def cur_PopInt_def cur_PushT_def cur_ScriptHash_def
    new_object_def
  by (rule stays_intros stays_modify | simp)+

lemma stays_from_interface [stays_intros]: "stays (from_interface ob)"
  unfolding from_interface_def by (rule stays_intros stays_heap)+

lemma stays_interfaces [stays_intros]: "stays (from_interfaces obs)"
  by (induction obs) (auto intro!: stays_intros)

lemma stays_interface_calls [stays_intros]:
  "stays (cur_PushInterface ob)" "stays (GetInterface as item)" "stays (pop_interface as)"
  unfolding cur_PushInterface_def GetInterface_def pop_interface_def
  by (rule stays_intros | simp add: stays_intros split: stack_item.splits)+

lemma stays_getter [stays_intros]:
  "(\<And>x. stays (f x)) \<Longrightarrow> stays (getter as f)"
  "(\<And>x. stays (n x)) \<Longrightarrow> (\<And>x. stays (g x)) \<Longrightarrow> stays (list_getter as n g)"
  unfolding getter_def list_getter_def by (rule stays_intros | assumption | simp)+

section \<open>The system calls\<close>

lemma stays_checks [stays_intros]:
  "stays (CheckStorageContext context)" "stays (CheckWitnessHash env ch h)"
  unfolding CheckStorageContext_def CheckWitnessHash_def by (rule stays_intros stays_modify | simp)+

lemma stays_CheckWitnessPubkey [stays_intros]: "stays (CheckWitnessPubkey env ch k)"
  unfolding CheckWitnessPubkey_def by (rule stays_intros)+

lemma stays_Runtime [stays_intros]:
  "stays Runtime_Platform" "stays (Runtime_GetTrigger ch)" "stays (Runtime_Notify env)" "stays Runtime_Log"
  "stays (Runtime_GetCurrentTime ch)"
  unfolding Runtime_Platform_def Runtime_GetTrigger_def Runtime_Notify_def Runtime_Log_def Runtime_GetCurrentTime_def
  by (rule stays_intros stays_modify | simp)+

lemma stays_Runtime_CheckWitness [stays_intros]: "stays (Runtime_CheckWitness env ch)"
  unfolding Runtime_CheckWitness_def
  by (rule stays_intros | simp add: stays_intros split: pyexc.splits)+

lemma stays_cur_Push [stays_intros]: "stays (cur_Push x)"
  unfolding cur_Push_def by (rule stays_intros)+

lemma stays_item_reader [stays_intros]: "stays (on_item_reader i p)"
  by (auto simp: stays_def on_item_reader_def split: prod.splits)

lemma stays_serialization [stays_intros]: "stays (Runtime_Serialize env)" "stays (Runtime_Deserialize env)"
  unfolding Runtime_Serialize_def Runtime_Deserialize_def by (rule stays_intros)+

lemma stays_Blockchain [stays_intros]:
  "stays (Blockchain_GetHeight ch)" "stays (Blockchain_GetHeader ch)" "stays (Blockchain_GetBlock ch)"
  "stays (Blockchain_GetTransaction ch)" "stays (Blockchain_GetTransactionHeight ch)" "stays Blockchain_GetContract"
  "stays (Blockchain_GetAccount env ch)" "stays Blockchain_GetValidators" "stays Blockchain_GetAsset"
  unfolding Blockchain_GetHeight_def Blockchain_GetHeader_def Blockchain_GetBlock_def Blockchain_GetTransaction_def
    Blockchain_GetTransactionHeight_def Blockchain_GetContract_def Blockchain_GetAccount_def
    Blockchain_GetValidators_def Blockchain_GetAsset_def
  by (rule stays_intros)+

lemma stays_hash_array [stays_intros]: "stays (hash_array h)"
  unfolding hash_array_def by (rule stays_intros)+

lemma stays_Header [stays_intros]:
  "stays Header_GetIndex" "stays (Header_GetHash env)" "stays Header_GetPrevHash" "stays Header_GetTimestamp"
  "stays Header_GetVersion" "stays Header_GetMerkleRoot" "stays Header_GetConsensusData" "stays Header_GetNextConsensus"
  "stays Block_GetTransactionCount" "stays Block_GetTransactions" "stays Block_GetTransaction"
  unfolding Header_GetIndex_def Header_GetHash_def Header_GetPrevHash_def Header_GetTimestamp_def
    Header_GetVersion_def Header_GetMerkleRoot_def Header_GetConsensusData_def Header_GetNextConsensus_def
    Block_GetTransactionCount_def Block_GetTransactions_def Block_GetTransaction_def
  by (rule stays_intros)+

lemma stays_Transaction [stays_intros]:
  "stays (Transaction_GetHash env)" "stays Transaction_GetType" "stays Transaction_GetAttributes"
  "stays Transaction_GetInputs" "stays Transaction_GetOutputs" "stays (Transaction_GetReferences ch)"
  "stays (Transaction_GetUnspentCoins env ch)" "stays Transaction_GetWitnesses" "stays InvocationTransaction_GetScript"
  unfolding Transaction_GetHash_def Transaction_GetType_def Transaction_GetAttributes_def Transaction_GetInputs_def
    Transaction_GetOutputs_def Transaction_GetReferences_def Transaction_GetUnspentCoins_def
    Transaction_GetWitnesses_def InvocationTransaction_GetScript_def
  by (rule stays_intros)+

lemma stays_Witness [stays_intros]: "stays Witness_GetVerificationScript"
  unfolding Witness_GetVerificationScript_def
  by (rule stays_intros | simp add: stays_intros split: stack_item.splits option.splits host_object.splits)+

lemma stays_fields [stays_intros]:
  "stays Attribute_GetUsage" "stays Input_GetHash" "stays Input_GetIndex" "stays Output_GetAssetId"
  "stays Output_GetValue" "stays Output_GetScriptHash" "stays Account_GetScriptHash" "stays Account_GetVotes"
  "stays Account_GetBalance" "stays Account_IsStandard" "stays Asset_GetAssetId" "stays Asset_GetAssetType"
  "stays Asset_GetAmount" "stays Asset_GetAvailable" "stays Asset_GetPrecision" "stays Asset_GetOwner"
  "stays Asset_GetAdmin" "stays Asset_GetIssuer" "stays Contract_GetScript" "stays Contract_IsPayable"
  unfolding Attribute_GetUsage_def Input_GetHash_def Input_GetIndex_def Output_GetAssetId_def Output_GetValue_def
    Output_GetScriptHash_def Account_GetScriptHash_def Account_GetVotes_def Account_GetBalance_def
    Account_IsStandard_def Asset_GetAssetId_def Asset_GetAssetType_def Asset_GetAmount_def Asset_GetAvailable_def
    Asset_GetPrecision_def Asset_GetOwner_def Asset_GetAdmin_def Asset_GetIssuer_def Contract_GetScript_def
    Contract_IsPayable_def
  by (rule stays_intros)+

lemma stays_Attribute_GetData [stays_intros]: "stays Attribute_GetData"
  unfolding Attribute_GetData_def by (rule stays_intros | simp add: stays_intros split: attr_data.splits)+

lemma stays_Storage [stays_intros]:
  "stays Storage_GetContext" "stays Storage_GetReadOnlyContext" "stays StorageContext_AsReadOnly" "stays pop_context"
  "stays Storage_PutEx" "stays (delete_storage h)"
  unfolding Storage_GetContext_def Storage_GetReadOnlyContext_def StorageContext_AsReadOnly_def pop_context_def
    Storage_PutEx_def delete_storage_def
  by (rule stays_intros)+

lemma stays_Storage_access [stays_intros]: "stays Storage_Get" "stays Storage_Put" "stays (Storage_Delete ch)"
  unfolding Storage_Get_def Storage_Put_def Storage_Delete_def by (rule stays_intros)+

lemma stays_Contract [stays_intros]:
  "stays (Contract_GetStorageContext env)" "stays Contract_Destroy"
  unfolding Contract_GetStorageContext_def Contract_Destroy_def by (rule stays_intros)+

lemma stays_pops [stays_intros]:
  "(\<And>b. stays (f b)) \<Longrightarrow> stays (pop_at_most n f)" "(\<And>b. stays (f b)) \<Longrightarrow> stays (pop_text n f)"
  unfolding pop_at_most_def pop_text_def by (rule stays_intros | assumption)+

lemma stays_created [stays_intros]: "stays (created_by h c)" "stays (copy_storage h h')"
  unfolding created_by_def copy_storage_def by (rule stays_intros stays_modify | simp)+

lemma stays_Asset [stays_intros]: "stays (Asset_Create env ch)" "stays Asset_Renew"
  unfolding Asset_Create_def Asset_Renew_def by (rule stays_intros)+

lemma stays_Contract_Create [stays_intros]: "stays (Contract_Create env)" "stays (Contract_Migrate env)"
  unfolding Contract_Create_def Contract_Migrate_def by (rule stays_intros)+

lemma stays_InteropService: "InteropService env h = Some f \<Longrightarrow> stays f"
proof -
  have "stays (GetScriptContainer env)" unfolding GetScriptContainer_def by (rule stays_intros stays_heap)+
  moreover have "stays GetExecutingScriptHash" "stays GetCallingScriptHash" "stays GetEntryScriptHash"
    unfolding GetExecutingScriptHash_def GetCallingScriptHash_def GetEntryScriptHash_def by (rule stays_intros)+
  ultimately show "InteropService env h = Some f \<Longrightarrow> stays f"
    by (auto simp: InteropService_def Register_def Let_def split: if_splits)
qed

section \<open>The state machine\<close>

lemma registered_calls:
  assumes "fst (fold (RegisterWithPrice p) rs tables) h = Some f"
  shows "fst tables h = Some f \<or> (\<exists>r\<in>set rs. fst (snd r) = f)"
  using assms
proof (induction rs arbitrary: tables)
  case (Cons r rs)
  from Cons.IH [of "RegisterWithPrice p r tables"] Cons.prems
  have "fst (RegisterWithPrice p r tables) h = Some f \<or> (\<exists>r\<in>set rs. fst (snd r) = f)" by simp
  then show ?case
    by (cases r) (auto simp: RegisterWithPrice_def Register_def split: if_splits)
qed simp

lemma stays_reader_calls: "(\<And>name. stays (others name)) \<Longrightarrow> list_all (\<lambda>r. stays (fst (snd r))) (StateReader_calls env ch others)"
  unfolding StateReader_calls_def list.pred_inject(2) fst_conv snd_conv
  by (intro conjI list.pred_inject(1) stays_intros)

lemma stays_machine_calls: "(\<And>name. stays (others name)) \<Longrightarrow> list_all (\<lambda>r. stays (fst (snd r))) (StateMachine_calls env ch others)"
  unfolding StateMachine_calls_def list.pred_inject(2) fst_conv snd_conv
  by (intro conjI list.pred_inject(1) stays_intros)

lemma stays_StateMachine:
  assumes "\<And>name. stays (others name)" "StateMachine env ch others h = Some f"
  shows "stays f"
  using registered_calls [OF assms(2) [unfolded StateMachine_def registered_def]] stays_InteropService
    stays_reader_calls [of others env ch, OF assms(1)] stays_machine_calls [of others env ch, OF assms(1)]
  by (auto simp: list_all_iff)

section \<open>Lookups in the snapshot\<close>

text \<open>No lookup returns from the method that asks for it.\<close>

abbreviation no_ret :: "('s, 'a) m \<Rightarrow> bool" where
  "no_ret \<equiv> looks_at (\<lambda>_. ())"

lemma no_ret_sq [looks_intros]: "no_ret m \<Longrightarrow> no_ret m' \<Longrightarrow> no_ret (sq m m')"
  unfolding sq_def by (rule looks_bnd)

lemma no_ret_modify [looks_intros]: "no_ret (modify f)"
  by (simp add: looks_at_def modify_def)

lemma no_ret_try [looks_intros]: "no_ret m \<Longrightarrow> (\<And>e. no_ret (h e)) \<Longrightarrow> no_ret (try_except m h)"
  by (auto simp: looks_at_def try_except_def split: prod.splits res.splits) (metis fst_conv)+

lemma no_ret_inside [looks_intros]:
  "no_ret p \<Longrightarrow> no_ret (on_stream i p)" "no_ret q \<Longrightarrow> no_ret (on_streams q)" "no_ret b \<Longrightarrow> no_ret (on_backing b)"
  by (auto simp: looks_at_def on_stream_def on_streams_def on_backing_def split: prod.splits) (metis fst_conv)+

lemma no_ret_whenm [looks_intros]: "no_ret m \<Longrightarrow> no_ret (whenm b m)"
  by (simp add: whenm_def looks_basic)

lemma no_ret_stream [looks_intros]:
  "no_ret (stream_read n)" "no_ret (stream_seek k)" "no_ret (stream_truncate k)" "no_ret (stream_write d)" "no_ret Cleanup"
  unfolding Cleanup_def
  by (rule looks_intros | simp add: looks_at_def stream_read_def stream_seek_def stream_truncate_def stream_write_def
    Let_def throw_def modify_def split: if_splits; fail)+

lemma no_ret_streams [looks_intros]: "no_ret (GetStream d)" "no_ret (ReleaseStream k)"
  unfolding GetStream_def ReleaseStream_def by (rule looks_intros)+

lemma no_ret_readers [looks_intros]:
  "no_ret (unpack f n)" "no_ret reader_ReadByte" "no_ret (ReadUInt8 e)"
  "no_ret (ReadVarInt mx)" "no_ret (ReadVarBytes mx)" "no_ret (ReadVarString mx)"
  unfolding unpack_def reader_ReadByte_def SafeReadBytes_def ReadBytes_def ReadUInt8_def ReadVarInt_def ReadVarBytes_def
    ReadVarString_def ReadUInt16_def ReadUInt32_def ReadUInt64_def
  by (rule looks_intros)+

lemma no_ret_contract [looks_intros]: "no_ret co_Deserialize"
  unfolding co_Deserialize_def base_Deserialize_def fc_Deserialize_def read_ord_def by (rule looks_intros)+

lemma no_ret_getitem [looks_intros]:
  "(\<And>k. no_ret (GetInternal I k)) \<Longrightarrow> no_ret (dc_getitem I k)"
  unfolding dc_getitem_def tracked_def track_def by (rule looks_intros | assumption)+

lemma no_ret_Contracts [looks_intros]: "no_ret (dc_getitem Contracts_clone k)"
  unfolding Contracts_clone_def CloneCache_def Contracts_def LevelDBCache_def internals.simps ldb_GetInternal_def
    ldb_TryGetInternal_def DeserializeFromDB_def
  by (rule looks_intros | simp only: internals.simps)+

lemma no_ret_GetScript: "no_ret (snapshot_GetScript Contracts_clone k)"
  unfolding snapshot_GetScript_def by (rule looks_intros)+

lemma app_lookup_Contracts:
  assumes "no_ret p"
  shows "app_lookup (on_Contracts p)" "lookup_only (on_Contracts p)"
  using assms
  by (auto simp: looks_at_def lookup_only_def on_Contracts_def app_engine.defs engine.defs split: prod.splits)
     (metis fst_conv)+

section \<open>Engines with system calls\<close>

lemma machine_env_simps:
  "\<exists>env. service (vm_env (machine_env base ch others)) = Some (StateMachine env ch others)"
  "GetScript (vm_env (machine_env base ch others)) = Some (\<lambda>h. on_Contracts (snapshot_GetScript Contracts_clone h))"
  "HasDynamicInvoke (machine_env base ch others) h =
     bnd (on_Contracts (dc_getitem Contracts_clone h)) (\<lambda>c. ret (co_HasDynamicInvoke c))"
  "exit_on_error (vm_env (machine_env base ch others)) = exit_on_error base"
  by (auto simp: machine_env_def Let_def)

lemma machine_env_behaves:
  assumes "\<And>name. stays (others name)"
  shows "app_services_behave (machine_env base ch others)"
proof -
  let ?env = "machine_env base ch others"
  have dyn: "app_lookup (HasDynamicInvoke ?env h)" for h
    unfolding machine_env_simps by (rule looks_intros app_lookup_Contracts(1) no_ret_Contracts)+
  have calls: "stays f" if "service (vm_env ?env) = Some dict" "dict h = Some f" for dict h f
    using that stays_StateMachine [of others, OF assms] machine_env_simps(1) [of base ch others] by force
  have "service (vm_env ?env) = Some dict \<Longrightarrow> dict h = Some f \<Longrightarrow> keeps (\<lambda>s. accounts s = a) f" for dict h f a
    using stays_behaves(4) [OF calls] .
  moreover have "services_behave (vm_env ?env)"
    unfolding services_behave_def table_looks_up_def
    using stays_behaves(1-3,5) [OF calls] by (auto simp: machine_env_simps(2) app_lookup_Contracts no_ret_GetScript)
  ultimately show ?thesis
    using dyn unfolding app_services_behave_def by (simp add: machine_env_simps(2) app_lookup_Contracts no_ret_GetScript)
qed

text \<open>C30. A test run of any script with the system calls of the state machine ends, whatever the snapshot and
  the blockchain hold, given that the calls that are not modelled leave the engine alone too.\<close>

theorem system_test_Run_ends:
  assumes "exit_on_error base" "\<And>name. stays (others name)"
  shows "\<exists>r. Run (machine_env base ch others) services scr gas True wb = Some r"
  by (rule test_Run_ends) (simp_all add: assms machine_env_simps(4) machine_env_behaves)

end
