(* ===== verification/Service_Properties.thy ===== *)
theory Service_Properties
  imports Service_Frame Cache_Properties
begin

text \<open>
  What the system calls on storage do. The caches of a snapshot are maps (\<open>Cache_Properties\<close>), so the
  calls are described on the map of the stored items and on the map of the contracts.
\<close>

section \<open>The snapshot as maps\<close>

interpretation contracts_clone: cache_source Contracts_clone contracts_good contract_view contract_view contract_kept
  unfolding Contracts_clone_def contracts_good_def contract_view_def contract_map_def
  by (rule contract_cache.clone_source) (simp add: co_Clone_def)

definition stored :: "'z svc_scheme \<Rightarrow> bytes \<Rightarrow> storage_item option" where
  "stored s = dc_view storage_view (snap_Storages (Snapshot s))"

definition deployed :: "'z svc_scheme \<Rightarrow> bytes \<Rightarrow> contract_state option" where
  "deployed s = dc_view contract_view (snap_Contracts (Snapshot s))"

definition snapshot_good :: "'z svc_scheme \<Rightarrow> bool" where
  "snapshot_good s \<longleftrightarrow>
     cache_inv storage_good storage_view storage_view si_ok (snap_Storages (Snapshot s)) \<and>
     cache_inv contracts_good contract_view contract_view contract_kept (snap_Contracts (Snapshot s))"

text \<open>
  The state as a client of the calls on storage sees it: the evaluation stack as a list, the items and the
  contracts as maps, the events, the objects behind interfaces, and the hash of the running script.
\<close>

record svc_abs =
  a_stack :: "stack_item list"
  a_stored :: "bytes \<Rightarrow> storage_item option"
  a_deployed :: "bytes \<Rightarrow> contract_state option"
  a_events :: "sc_event list"
  a_host :: "nat \<Rightarrow> host_object"
  a_hash :: "pyexc + uint"

text \<open>An item that can be stored: its bytes are not longer than what can be read back.\<close>

definition storable :: "stack_item \<Rightarrow> bool" where
  "storable x = (case GetByteArray x of Inl e \<Rightarrow> True | Inr b \<Rightarrow> int (length b) \<le> maxsize)"

definition implements :: "cid \<Rightarrow> 'z svc_scheme \<Rightarrow> svc_abs \<Rightarrow> bool" where
  "implements c s a \<longleftrightarrow>
     (\<exists>cs. InvocationStack s = mk_ras (c # cs)) \<and> get_stack (EStack c) s = mk_ras (a_stack a) \<and>
     list_all storable (a_stack a) \<and> snapshot_good s \<and> stored s = a_stored a \<and> deployed s = a_deployed a \<and>
     events_to_dispatch s = a_events a \<and> host s = a_host a \<and> UInt160 (Some (s_hash (Script (contexts s c)))) = a_hash a"

definition refines :: "cid \<Rightarrow> ('z, 'a) call \<Rightarrow> (svc_abs, 'a) m \<Rightarrow> bool" where
  "refines c p q \<longleftrightarrow> (\<forall>s a. implements c s a \<longrightarrow> (\<exists>s'. p s = (fst (q a), s') \<and> implements c s' (snd (q a))))"

named_theorems refines_intros

lemma refinesI: "(\<And>s a. implements c s a \<Longrightarrow> \<exists>s'. p s = (fst (q a), s') \<and> implements c s' (snd (q a))) \<Longrightarrow> refines c p q"
  by (simp add: refines_def)

lemma refinesD: "refines c p q \<Longrightarrow> implements c s a \<Longrightarrow> \<exists>s'. p s = (fst (q a), s') \<and> implements c s' (snd (q a))"
  by (simp add: refines_def)

lemma refines_bnd [refines_intros]:
  fixes p :: "('z, 'a) call"
  assumes p: "refines c p q" and f: "\<And>x. refines c (f x) (g x)"
  shows "refines c (bnd p f) (bnd q g)"
proof (rule refinesI)
  fix s :: "'z svc_scheme" and a assume "implements c s a"
  then obtain s' where s': "p s = (fst (q a), s')" "implements c s' (snd (q a))" using refinesD [OF p] by blast
  show "\<exists>s'. bnd p f s = (fst (bnd q g a), s') \<and> implements c s' (snd (bnd q g a))"
  proof (cases "fst (q a)")
    case (Val x)
    then show ?thesis using s' refinesD [OF f s'(2), of x] by (auto simp: bnd_def split: prod.splits)
  qed (use s' in \<open>auto simp: bnd_def split: prod.splits\<close>)
qed

lemma refines_sq [refines_intros]: "refines c p q \<Longrightarrow> refines c p' q' \<Longrightarrow> refines c (sq p p') (sq q q')"
  unfolding sq_def by (rule refines_bnd)

lemma refines_basic [refines_intros]: "refines c (ret x) (ret x)" "refines c (throw e) (throw e)" "refines c (lft r) (lft r)"
  by (auto simp: refines_def ret_def throw_def lft_def split: sum.splits)

lemma refines_structure [refines_intros]:
  "refines c p q \<Longrightarrow> refines c p' q' \<Longrightarrow> refines c (if b then p else p') (if b then q else q')"
  "refines c (f x) (g x) \<Longrightarrow> refines c (Let x f) (Let x g)"
  "refines c p q \<Longrightarrow> (\<And>x. refines c (f x) (g x)) \<Longrightarrow> refines c (case v of None \<Rightarrow> p | Some x \<Rightarrow> f x) (case v of None \<Rightarrow> q | Some x \<Rightarrow> g x)"
  by (simp_all split: option.splits)

lemma refines_try [refines_intros]:
  fixes p :: "('z, 'a) call"
  assumes p: "refines c p q" and f: "\<And>e. refines c (f e) (g e)"
  shows "refines c (try_except p f) (try_except q g)"
proof (rule refinesI)
  fix s :: "'z svc_scheme" and a assume "implements c s a"
  then obtain s' where s': "p s = (fst (q a), s')" "implements c s' (snd (q a))" using refinesD [OF p] by blast
  show "\<exists>s'. try_except p f s = (fst (try_except q g a), s') \<and> implements c s' (snd (try_except q g a))"
  proof (cases "fst (q a)")
    case (Exc e)
    then show ?thesis using s' refinesD [OF f s'(2), of e] by (auto simp: try_except_def split: prod.splits)
  qed (use s' in \<open>auto simp: try_except_def split: prod.splits\<close>)
qed

section \<open>The primitives\<close>

lemma implements_put:
  "implements c s a \<Longrightarrow> list_all storable xs \<Longrightarrow> implements c (put_stack (EStack c) (mk_ras xs) s) (a\<lparr>a_stack := xs\<rparr>)"
  by (auto simp: implements_def put_stack.simps get_stack.simps update_context_def stored_def deployed_def snapshot_good_def)

definition a_Pop :: "(svc_abs, stack_item) m" where
  "a_Pop a = (case a_stack a of [] \<Rightarrow> (Exc InvalidListOperation, a) | x # xs \<Rightarrow> (Val x, a\<lparr>a_stack := xs\<rparr>))"

lemma refines_CurrentContext:
  fixes f :: "cid \<Rightarrow> ('z, 'a) call"
  assumes "\<And>s a. implements c s a \<Longrightarrow> \<exists>s'. f c s = (fst (q a), s') \<and> implements c s' (snd (q a))"
  shows "refines c (bnd CurrentContext f) q"
proof (rule refinesI)
  fix s :: "'z svc_scheme" and a assume a: "implements c s a"
  then have "CurrentContext s = (Val c, s)"
    by (auto simp: implements_def CurrentContext_def gets_def bnd_def lft_def ras_Peek_mk)
  then show "\<exists>s'. bnd CurrentContext f s = (fst (q a), s') \<and> implements c s' (snd (q a))"
    using assms [OF a] by (simp add: bnd_def)
qed

lemma refines_cur_Pop [refines_intros]: "refines c cur_Pop a_Pop"
  unfolding cur_Pop_def
proof (rule refines_CurrentContext)
  fix s :: "'z svc_scheme" and a assume a: "implements c s a"
  then have st: "get_stack (EStack c) s = mk_ras (a_stack a)" "list_all storable (a_stack a)"
    by (simp_all add: implements_def)
  show "\<exists>s'. Pop (EStack c) s = (fst (a_Pop a), s') \<and> implements c s' (snd (a_Pop a))"
  proof (cases "a_stack a")
    case Nil
    then show ?thesis using st a by (auto simp: a_Pop_def Pop_def gets_def bnd_def lft_def)
  next
    case (Cons x xs)
    then show ?thesis
      using st implements_put [OF a, of xs]
      by (auto simp: a_Pop_def Pop_def gets_def bnd_def lft_def sq_def modify_def ret_def)
  qed
qed

lemma storable_bytes: "storable x \<Longrightarrow> GetByteArray x = Inr b \<Longrightarrow> int (length b) \<le> maxsize"
  by (simp add: storable_def)

text \<open>The bytes of an item that was on the stack can be stored.\<close>

lemma refines_PopBytes:
  fixes f :: "bytes \<Rightarrow> ('z, 'a) call"
  assumes f: "\<And>b. int (length b) \<le> maxsize \<Longrightarrow> refines c (f b) (g b)"
  shows "refines c (bnd cur_PopBytes f) (bnd a_Pop (\<lambda>x. bnd (lft (GetByteArray x)) g))"
proof (rule refinesI)
  fix s :: "'z svc_scheme" and a assume a: "implements c s a"
  obtain s' where s': "cur_Pop s = (fst (a_Pop a), s')" "implements c s' (snd (a_Pop a))"
    using refinesD [OF refines_cur_Pop a] by blast
  show "\<exists>s'. bnd cur_PopBytes f s = (fst (bnd a_Pop (\<lambda>x. bnd (lft (GetByteArray x)) g) a), s') \<and>
      implements c s' (snd (bnd a_Pop (\<lambda>x. bnd (lft (GetByteArray x)) g) a))"
  proof (cases "a_stack a")
    case Nil
    then show ?thesis using s' by (auto simp: cur_PopBytes_def bnd_def a_Pop_def)
  next
    case (Cons x xs)
    have "int (length b) \<le> maxsize" if "GetByteArray x = Inr b" for b
      using storable_bytes [OF _ that] a Cons by (simp add: implements_def)
    then show ?thesis
      using s' Cons refinesD [OF f s'(2)] by (auto simp: cur_PopBytes_def bnd_def a_Pop_def lft_def split: sum.splits)
  qed
qed

lemma refines_emit [refines_intros]: "refines c (emit e) (modify (\<lambda>a. a\<lparr>a_events := a_events a @ [e]\<rparr>))"
  by (auto simp: refines_def emit_def modify_def implements_def get_stack.simps stored_def deployed_def snapshot_good_def)

lemma refines_PushBytes:
  assumes "int (length b) \<le> maxsize"
  shows "refines c (cur_PushT (PyBytes b)) (modify (\<lambda>a. a\<lparr>a_stack := ByteArray b # a_stack a\<rparr>))"
  unfolding cur_PushT_def
proof (rule refines_CurrentContext)
  fix s :: "'z svc_scheme" and a assume a: "implements c s a"
  have "storable (ByteArray b)" using assms by (simp add: storable_def)
  then show "\<exists>s'. PushT (EStack c) (PyBytes b) s = (fst (modify (\<lambda>a. a\<lparr>a_stack := ByteArray b # a_stack a\<rparr>) a), s') \<and>
      implements c s' (snd (modify (\<lambda>a. a\<lparr>a_stack := ByteArray b # a_stack a\<rparr>) a))"
    using a implements_put [OF a, of "ByteArray b # a_stack a"]
    by (auto simp: PushT_def new_item_def bnd_def Push_def modify_def implements_def)
qed

text \<open>Contexts on the stack.\<close>

definition a_context :: "svc_abs \<Rightarrow> stack_item \<Rightarrow> storage_context option" where
  "a_context a x = (case x of InteropInterface r (Some n) \<Rightarrow> as_Context (a_host a n) | _ \<Rightarrow> None)"

definition a_interface :: "(svc_abs, storage_context option) m" where
  "a_interface =
     bnd a_Pop (\<lambda>x. case x of InteropInterface r ob \<Rightarrow> gets (\<lambda>a. a_context a x) | _ \<Rightarrow> throw TypeError)"

lemma refines_pop_interface [refines_intros]: "refines c (pop_interface as_Context) a_interface"
  unfolding pop_interface_def a_interface_def
proof (rule refines_bnd [OF refines_cur_Pop])
  fix x
  show "refines c (GetInterface as_Context x)
     (case x of InteropInterface r ob \<Rightarrow> gets (\<lambda>a. a_context a x) | _ \<Rightarrow> throw TypeError)"
    by (auto simp: GetInterface_def refines_def gets_def throw_def implements_def a_context_def split: stack_item.splits option.splits)
qed

section \<open>The caches\<close>

definition has_storage :: "svc_abs \<Rightarrow> storage_context \<Rightarrow> bool" where
  "has_storage a ctx =
     (case a_deployed a (uint_ToBytes (ctx_ScriptHash ctx)) of None \<Rightarrow> False | Some con \<Rightarrow> co_HasStorage con)"

lemma implements_Contracts:
  assumes "implements c s a" "cache_inv contracts_good contract_view contract_view contract_kept con" "dc_view contract_view con = m"
  shows "implements c (s\<lparr>Snapshot := (Snapshot s)\<lparr>snap_Contracts := con\<rparr>\<rparr>) (a\<lparr>a_deployed := m\<rparr>)"
  using assms by (auto simp: implements_def get_stack.simps stored_def deployed_def snapshot_good_def)

lemma implements_Storages:
  assumes "implements c s a" "cache_inv storage_good storage_view storage_view si_ok d" "dc_view storage_view d = m"
  shows "implements c (s\<lparr>Snapshot := (Snapshot s)\<lparr>snap_Storages := d\<rparr>\<rparr>) (a\<lparr>a_stored := m\<rparr>)"
  using assms by (auto simp: implements_def get_stack.simps stored_def deployed_def snapshot_good_def)

lemma implementsD:
  assumes "implements c s a"
  shows "cache_inv storage_good storage_view storage_view si_ok (snap_Storages (Snapshot s))"
    "dc_view storage_view (snap_Storages (Snapshot s)) = a_stored a"
    "cache_inv contracts_good contract_view contract_view contract_kept (snap_Contracts (Snapshot s))"
    "dc_view contract_view (snap_Contracts (Snapshot s)) = a_deployed a"
  using assms by (simp_all add: implements_def snapshot_good_def stored_def deployed_def)

lemma refines_TryGet_contract [refines_intros]:
  "refines c (on_Contracts (dc_TryGet Contracts_clone k)) (gets (\<lambda>a. a_deployed a k))"
proof (rule refinesI)
  fix s :: "'z svc_scheme" and a assume a: "implements c s a"
  show "\<exists>s'. on_Contracts (dc_TryGet Contracts_clone k) s = (fst (gets (\<lambda>a. a_deployed a k) a), s') \<and>
      implements c s' (snd (gets (\<lambda>a. a_deployed a k) a))"
    using contracts_clone.dc_TryGet_ok [OF implementsD(3) [OF a], of k] implements_Contracts [OF a, where m = "a_deployed a"]
      implementsD(4) [OF a]
    by (auto simp: on_Contracts_def gets_def)
qed

lemma refines_Delete_contract [refines_intros]:
  "refines c (on_Contracts (dc_Delete Contracts_clone k)) (modify (\<lambda>a. a\<lparr>a_deployed := (a_deployed a)(k := None)\<rparr>))"
proof (rule refinesI)
  fix s :: "'z svc_scheme" and a assume a: "implements c s a"
  show "\<exists>s'. on_Contracts (dc_Delete Contracts_clone k) s = (fst (modify (\<lambda>a. a\<lparr>a_deployed := (a_deployed a)(k := None)\<rparr>) a), s') \<and>
      implements c s' (snd (modify (\<lambda>a. a\<lparr>a_deployed := (a_deployed a)(k := None)\<rparr>) a))"
    using contracts_clone.dc_Delete_ok [OF implementsD(3) [OF a], of k] implements_Contracts [OF a] implementsD(4) [OF a]
    by (auto simp: on_Contracts_def modify_def)
qed

lemma refines_Delete_item [refines_intros]:
  "refines c (on_Storages (dc_Delete Storages_clone k)) (modify (\<lambda>a. a\<lparr>a_stored := (a_stored a)(k := None)\<rparr>))"
proof (rule refinesI)
  fix s :: "'z svc_scheme" and a assume a: "implements c s a"
  show "\<exists>s'. on_Storages (dc_Delete Storages_clone k) s = (fst (modify (\<lambda>a. a\<lparr>a_stored := (a_stored a)(k := None)\<rparr>) a), s') \<and>
      implements c s' (snd (modify (\<lambda>a. a\<lparr>a_stored := (a_stored a)(k := None)\<rparr>) a))"
    using storages_clone.dc_Delete_ok [OF implementsD(1) [OF a], of k] implements_Storages [OF a] implementsD(2) [OF a]
    by (auto simp: on_Storages_def modify_def)
qed

text \<open>A stored item can be put on the stack and stored again.\<close>

lemma refines_TryGet_item:
  fixes f :: "storage_item option \<Rightarrow> ('z, 'a) call"
  assumes f: "\<And>i. (\<And>x. i = Some x \<Longrightarrow> si_ok x) \<Longrightarrow> refines c (f i) (g i)"
  shows "refines c (bnd (on_Storages (dc_TryGet Storages_clone k)) f) (bnd (gets (\<lambda>a. a_stored a k)) g)"
proof (rule refinesI)
  fix s :: "'z svc_scheme" and a assume a: "implements c s a"
  obtain d where d: "dc_TryGet Storages_clone k (snap_Storages (Snapshot s)) = (Val (a_stored a k), d)"
      "cache_inv storage_good storage_view storage_view si_ok d" "dc_view storage_view d = a_stored a"
    using storages_clone.dc_TryGet_ok [OF implementsD(1) [OF a], of k] implementsD(2) [OF a] by auto
  have i: "implements c (s\<lparr>Snapshot := (Snapshot s)\<lparr>snap_Storages := d\<rparr>\<rparr>) a"
    using implements_Storages [OF a d(2,3)] by simp
  have "si_ok x" if "a_stored a k = Some x" for x
    using storages_clone.view_ok [OF d(2)] that d(3) by simp
  from refinesD [OF f [OF this] i]
  show "\<exists>s'. bnd (on_Storages (dc_TryGet Storages_clone k)) f s = (fst (bnd (gets (\<lambda>a. a_stored a k)) g a), s') \<and>
      implements c s' (snd (bnd (gets (\<lambda>a. a_stored a k)) g a))"
    using d(1) by (simp add: on_Storages_def bnd_def gets_def)
qed

lemma refines_Change_item:
  assumes "int (length val) \<le> maxsize"
  shows "refines c (on_Storages (sq (dc_GetAndChange Storages_clone k (Some new_StorageItem))
      (dc_mutate k (\<lambda>item. Inr (item\<lparr>si_Value := val\<rparr>)))))
    (modify (\<lambda>a. a\<lparr>a_stored := (a_stored a)(k \<mapsto> \<lparr>si_Value = val, si_IsConstant = False\<rparr>)\<rparr>))"
proof (rule refinesI)
  fix s :: "'z svc_scheme" and a assume a: "implements c s a"
  let ?d = "snap_Storages (Snapshot s)" and ?new = "\<lparr>si_Value = val, si_IsConstant = False\<rparr>"
  note good = implementsD(1) [OF a]
  have new: "si_ok new_StorageItem" "si_ok ?new" using assms by (simp_all add: si_ok_def new_StorageItem_def maxsize_def)
  obtain v d where d: "dc_GetAndChange Storages_clone k (Some new_StorageItem) ?d = (Val v, d)"
      "cache_inv storage_good storage_view storage_view si_ok d" "dc_view storage_view d = (dc_view storage_view ?d)(k \<mapsto> v)" "changing d k v"
    using storages_clone.dc_GetAndChange_ok [OF good, of "Some new_StorageItem" k] new(1) by (auto split: option.splits)
  have "si_ok v" using storages_clone.view_ok [OF d(2), of k] d(3) by simp
  then have v: "v\<lparr>si_Value := val\<rparr> = ?new" by (simp add: si_ok_def)
  obtain e where e: "dc_mutate k (\<lambda>item. Inr (item\<lparr>si_Value := val\<rparr>)) d = (Val (), e)"
      "cache_inv storage_good storage_view storage_view si_ok e" "dc_view storage_view e = (dc_view storage_view d)(k \<mapsto> ?new)"
    using storages_clone.dc_mutate_ok [OF d(2,4) _ new(2), of "\<lambda>item. Inr (item\<lparr>si_Value := val\<rparr>)"] v by auto
  have "implements c (s\<lparr>Snapshot := (Snapshot s)\<lparr>snap_Storages := e\<rparr>\<rparr>) (a\<lparr>a_stored := (a_stored a)(k \<mapsto> ?new)\<rparr>)"
    by (rule implements_Storages [OF a e(2)]) (simp add: e(3) d(3) implementsD(2) [OF a])
  then show "\<exists>s'. on_Storages (sq (dc_GetAndChange Storages_clone k (Some new_StorageItem))
      (dc_mutate k (\<lambda>item. Inr (item\<lparr>si_Value := val\<rparr>)))) s =
        (fst (modify (\<lambda>a. a\<lparr>a_stored := (a_stored a)(k \<mapsto> ?new)\<rparr>) a), s') \<and>
      implements c s' (snd (modify (\<lambda>a. a\<lparr>a_stored := (a_stored a)(k \<mapsto> ?new)\<rparr>) a))"
    using d(1) e(1) by (simp add: on_Storages_def sq_def bnd_def modify_def)
qed

lemma refines_CheckStorageContext [refines_intros]:
  "refines c (CheckStorageContext context) (gets (\<lambda>a. case context of None \<Rightarrow> False | Some ctx \<Rightarrow> has_storage a ctx))"
proof (cases "context")
  case None
  then show ?thesis by (simp add: CheckStorageContext_def refines_def ret_def gets_def)
next
  case (Some ctx)
  have "refines c (CheckStorageContext context)
     (bnd (gets (\<lambda>a. a_deployed a (uint_ToBytes (ctx_ScriptHash ctx))))
       (\<lambda>contract. ret (case contract of None \<Rightarrow> False | Some c \<Rightarrow> co_HasStorage c)))"
    unfolding CheckStorageContext_def Some option.case by (rule refines_intros)+
  then show ?thesis by (simp add: Some refines_def has_storage_def bnd_def gets_def ret_def)
qed

section \<open>The calls on storage\<close>

text \<open>
  What the calls do, every branch. An item that is not an interface is popped, and so is an interface of
  another object; a context of a contract without storage is refused. \<open>Put\<close> does not ask if the context
  is read-only, nor for the trigger.
\<close>

definition spec_context :: "svc_abs \<Rightarrow> (storage_context \<Rightarrow> svc_abs \<Rightarrow> bool res \<times> svc_abs) \<Rightarrow> bool res \<times> svc_abs" where
  "spec_context a f =
     (case a_stack a of
        [] \<Rightarrow> (Val False, a)
      | x # xs \<Rightarrow>
          (case a_context a x of
             None \<Rightarrow> (Val False, a\<lparr>a_stack := xs\<rparr>)
           | Some ctx \<Rightarrow> if has_storage a ctx then f ctx (a\<lparr>a_stack := xs\<rparr>) else (Val False, a\<lparr>a_stack := xs\<rparr>)))"

definition spec_bytes :: "svc_abs \<Rightarrow> (bytes \<Rightarrow> svc_abs \<Rightarrow> bool res \<times> svc_abs) \<Rightarrow> bool res \<times> svc_abs" where
  "spec_bytes a f =
     (case a_stack a of
        [] \<Rightarrow> (Exc InvalidListOperation, a)
      | x # xs \<Rightarrow>
          (case GetByteArray x of
             Inl e \<Rightarrow> (Exc e, a\<lparr>a_stack := xs\<rparr>)
           | Inr b \<Rightarrow> f b (a\<lparr>a_stack := xs\<rparr>)))"

definition item_value :: "storage_item option \<Rightarrow> bytes" where
  "item_value i = (case i of None \<Rightarrow> [] | Some x \<Rightarrow> si_Value x)"

definition spec_Get :: "svc_abs \<Rightarrow> bool res \<times> svc_abs" where
  "spec_Get a =
     spec_context a (\<lambda>ctx a. spec_bytes a (\<lambda>key a.
       let val = item_value (a_stored a (storage_key_of ctx key)) in
       (Val True, a\<lparr>a_stack := ByteArray val # a_stack a, a_events := a_events a @ [STORAGE_GET (ctx_ScriptHash ctx) key val]\<rparr>)))"

definition spec_Put :: "svc_abs \<Rightarrow> bool res \<times> svc_abs" where
  "spec_Put a =
     spec_context a (\<lambda>ctx a. spec_bytes a (\<lambda>key a.
       if 1024 < length key then (Val False, a)
       else spec_bytes a (\<lambda>val a.
         (Val True, a\<lparr>a_stored := (a_stored a)(storage_key_of ctx key \<mapsto> \<lparr>si_Value = val, si_IsConstant = False\<rparr>),
                      a_events := a_events a @ [STORAGE_PUT (ctx_ScriptHash ctx) key val]\<rparr>))))"

text \<open>\<open>Delete\<close> does not catch what \<open>GetInterface\<close> raises, and says that it deletes before it looks for the item.\<close>

definition is_interface :: "stack_item \<Rightarrow> bool" where
  "is_interface x = (case x of InteropInterface _ _ \<Rightarrow> True | _ \<Rightarrow> False)"

definition spec_Delete :: "chain \<Rightarrow> svc_abs \<Rightarrow> bool res \<times> svc_abs" where
  "spec_Delete ch a =
     (if Trigger ch \<notin> {TR_Application, TR_ApplicationR} then (Val False, a)
      else
        case a_stack a of
          [] \<Rightarrow> (Exc InvalidListOperation, a)
        | x # xs \<Rightarrow>
            if \<not> is_interface x then (Exc TypeError, a\<lparr>a_stack := xs\<rparr>)
            else
              spec_context a (\<lambda>ctx a.
                if ctx_IsReadOnly ctx then (Val False, a)
                else spec_bytes a (\<lambda>key a.
                  (Val True, a\<lparr>a_stored := (a_stored a)(storage_key_of ctx key := None),
                               a_events := a_events a @ [STORAGE_DELETE (ctx_ScriptHash ctx) key]\<rparr>))))"

lemmas runs = bnd_def sq_def gets_def modify_def lft_def throw_def ret_def Let_def

lemma has_storage_stack [simp]: "has_storage (a\<lparr>a_stack := xs\<rparr>) ctx = has_storage a ctx"
  by (simp add: has_storage_def)

lemma refines_cong: "refines c p q \<Longrightarrow> (\<And>a. q a = r a) \<Longrightarrow> refines c p r"
  by (simp add: refines_def)

lemma refines_Get: "refines c Storage_Get spec_Get"
proof (rule refines_cong)
  show "refines c Storage_Get
    (bnd (try_except (bnd a_interface (\<lambda>c. ret (Some c))) (\<lambda>e. ret None)) (\<lambda>ob.
       case ob of None \<Rightarrow> ret False | Some context \<Rightarrow>
         bnd (gets (\<lambda>a. case context of None \<Rightarrow> False | Some ctx \<Rightarrow> has_storage a ctx)) (\<lambda>ok.
           if \<not> ok then ret False
           else bnd a_Pop (\<lambda>x. bnd (lft (GetByteArray x)) (\<lambda>key.
             let ctx = the context in
             bnd (gets (\<lambda>a. a_stored a (storage_key_of ctx key))) (\<lambda>item.
             let val = item_value item in
             sq (modify (\<lambda>a. a\<lparr>a_stack := ByteArray val # a_stack a\<rparr>))
            (sq (modify (\<lambda>a. a\<lparr>a_events := a_events a @ [STORAGE_GET (ctx_ScriptHash ctx) key val]\<rparr>)) (ret True))))))))"
    unfolding Storage_Get_def pop_context_def item_value_def
    by (rule refines_intros refines_PopBytes refines_TryGet_item refines_PushBytes | simp add: si_ok_def maxsize_def split: option.splits)+
qed (auto simp: spec_Get_def spec_context_def spec_bytes_def a_interface_def a_Pop_def a_context_def runs try_except_def item_value_def
      split: list.splits stack_item.splits option.splits sum.splits)

lemma refines_Put: "refines c Storage_Put spec_Put"
proof (rule refines_cong)
  show "refines c Storage_Put
    (bnd (try_except (bnd a_interface (\<lambda>c. ret (Some c))) (\<lambda>e. ret None)) (\<lambda>ob.
       case ob of None \<Rightarrow> ret False | Some context \<Rightarrow>
         bnd (gets (\<lambda>a. case context of None \<Rightarrow> False | Some ctx \<Rightarrow> has_storage a ctx)) (\<lambda>ok.
           if \<not> ok then ret False
           else bnd a_Pop (\<lambda>x. bnd (lft (GetByteArray x)) (\<lambda>key.
             if 1024 < length key then ret False
             else bnd a_Pop (\<lambda>x. bnd (lft (GetByteArray x)) (\<lambda>val.
               let ctx = the context; k = storage_key_of ctx key in
               sq (modify (\<lambda>a. a\<lparr>a_stored := (a_stored a)(k \<mapsto> \<lparr>si_Value = val, si_IsConstant = False\<rparr>)\<rparr>))
              (sq (modify (\<lambda>a. a\<lparr>a_events := a_events a @ [STORAGE_PUT (ctx_ScriptHash ctx) key val]\<rparr>)) (ret True)))))))))"
    unfolding Storage_Put_def pop_context_def
    by (rule refines_intros refines_PopBytes refines_Change_item | assumption)+
qed (auto simp: spec_Put_def spec_context_def spec_bytes_def a_interface_def a_Pop_def a_context_def runs try_except_def
      split: list.splits stack_item.splits option.splits sum.splits)

lemma refines_Delete: "refines c (Storage_Delete ch) (spec_Delete ch)"
proof (rule refines_cong)
  show "refines c (Storage_Delete ch)
    (if Trigger ch \<noteq> TR_Application \<and> Trigger ch \<noteq> TR_ApplicationR then ret False
     else
       bnd a_interface (\<lambda>context.
       bnd (gets (\<lambda>a. case context of None \<Rightarrow> False | Some ctx \<Rightarrow> has_storage a ctx)) (\<lambda>ok.
         if \<not> ok then ret False
         else
           let ctx = the context in
           if ctx_IsReadOnly ctx then ret False
           else
             bnd a_Pop (\<lambda>x. bnd (lft (GetByteArray x)) (\<lambda>key.
             sq (modify (\<lambda>a. a\<lparr>a_events := a_events a @ [STORAGE_DELETE (ctx_ScriptHash ctx) key]\<rparr>))
            (bnd (gets (\<lambda>a. a_stored a (storage_key_of ctx key))) (\<lambda>item.
               sq (modify (\<lambda>a. a\<lparr>a_stored := (a_stored a)(storage_key_of ctx key := None)\<rparr>)) (ret True))))))))"
  proof -
    have item: "refines c (if (case i of None \<Rightarrow> False | Some x \<Rightarrow> si_IsConstant x) then ret False
        else sq (on_Storages (dc_Delete Storages_clone k)) (ret True))
        (sq (modify (\<lambda>a. a\<lparr>a_stored := (a_stored a)(k := None)\<rparr>)) (ret True))"
      if "\<And>x. i = Some x \<Longrightarrow> si_ok x" for i k
      using that refines_sq [OF refines_Delete_item [of c k] refines_basic(1) [of c True]]
      by (cases i) (auto simp: si_ok_def)
    show ?thesis
      unfolding Storage_Delete_def
      by (rule refines_intros refines_PopBytes refines_TryGet_item item | assumption | blast)+
  qed
qed (auto simp: spec_Delete_def spec_context_def spec_bytes_def a_interface_def a_Pop_def a_context_def is_interface_def runs
      split: list.splits stack_item.splits option.splits sum.splits)

section \<open>The end of a contract\<close>

text \<open>
  \<open>Contract_Destroy\<close> on the maps: the contract that runs is no longer deployed, and, if it had storage,
  exactly the items under its hash are gone, however a search finds them. The hash must not be
  hexadecimal text, which a search of the database would decode first.
\<close>

definition searchable :: "pyexc + uint \<Rightarrow> bool" where
  "searchable h = (case h of Inl e \<Rightarrow> True | Inr u \<Rightarrow> unhexlify (Data u) = None)"

definition without_prefix :: "bytes \<Rightarrow> (bytes \<Rightarrow> 'v option) \<Rightarrow> bytes \<Rightarrow> 'v option" where
  "without_prefix p m = (\<lambda>k. if take (length p) k = p then None else m k)"

definition spec_Destroy :: "svc_abs \<Rightarrow> bool res \<times> svc_abs" where
  "spec_Destroy a =
     (case a_hash a of
        Inl e \<Rightarrow> (Exc e, a)
      | Inr h \<Rightarrow>
          let contract = a_deployed a (uint_ToBytes h) in
          (Val True,
           a\<lparr>a_deployed := (a_deployed a)(uint_ToBytes h := None),
             a_stored := (if (case contract of None \<Rightarrow> False | Some con \<Rightarrow> co_HasStorage con)
               then without_prefix (Data h) (a_stored a) else a_stored a),
             a_events := a_events a @ [CONTRACT_DESTROY h contract]\<rparr>))"

lemma delete_all:
  assumes "implements c s a"
  shows "\<exists>s'. mapm (\<lambda>(k, v). on_Storages (dc_Delete Storages_clone (f k))) found s = (Val (), s') \<and>
    implements c s' (a\<lparr>a_stored := (\<lambda>k. if k \<in> f ` fst ` set found then None else a_stored a k)\<rparr>)"
  using assms
proof (induction found arbitrary: s a)
  case Nil
  then show ?case by (simp add: ret_def)
next
  case (Cons x found)
  obtain k v where x: "x = (k, v)" by (cases x)
  let ?a = "a\<lparr>a_stored := (a_stored a)(f k := None)\<rparr>"
  obtain s1 where s1: "on_Storages (dc_Delete Storages_clone (f k)) s = (Val (), s1)" "implements c s1 ?a"
    using refinesD [OF refines_Delete_item Cons.prems, of "f k"] by (auto simp: modify_def)
  obtain s2 where s2: "mapm (\<lambda>(k, v). on_Storages (dc_Delete Storages_clone (f k))) found s1 = (Val (), s2)"
      "implements c s2 (?a\<lparr>a_stored := (\<lambda>k. if k \<in> f ` fst ` set found then None else a_stored ?a k)\<rparr>)"
    using Cons.IH [OF s1(2)] by blast
  have "(\<lambda>k. if k \<in> f ` fst ` set found then None else a_stored ?a k) =
      (\<lambda>l. if l \<in> f ` fst ` set (x # found) then None else a_stored a l)"
    by (auto simp: x fun_eq_iff)
  then show ?case using s1(1) s2 by (simp add: x bnd_def sq_def)
qed

lemma refines_delete_storage:
  fixes h :: uint
  assumes "unhexlify (Data h) = None" "length (Data h) = 20"
  shows "refines c (delete_storage h) (modify (\<lambda>a. a\<lparr>a_stored := without_prefix (Data h) (a_stored a)\<rparr>))"
proof (rule refinesI)
  fix s :: "'z svc_scheme" and a assume a: "implements c s a"
  let ?f = "\<lambda>k. sk_ToArray \<lparr>sk_ScriptHash = h, sk_Key = drop 20 k\<rparr>"
  obtain found d where d: "dc_Find Storages_clone (Some (Data h)) (snap_Storages (Snapshot s)) = (Val found, d)"
      "cache_inv storage_good storage_view storage_view si_ok d" "dc_view storage_view d = a_stored a"
      "search_ok (Data h) (a_stored a) found"
    using storages_clone_search.dc_Find_ok [OF implementsD(1) [OF a] assms(1)] implementsD(2) [OF a] by auto
  let ?s = "s\<lparr>Snapshot := (Snapshot s)\<lparr>snap_Storages := d\<rparr>\<rparr>"
  have "implements c ?s a" using implements_Storages [OF a d(2,3)] by simp
  from delete_all [OF this, of ?f found]
  obtain s' where s': "mapm (\<lambda>(k, v). on_Storages (dc_Delete Storages_clone (?f k))) found ?s = (Val (), s')"
      "implements c s' (a\<lparr>a_stored := (\<lambda>k. if k \<in> ?f ` fst ` set found then None else a_stored a k)\<rparr>)"
    by blast
  have "(\<lambda>k. if k \<in> ?f ` fst ` set found then None else a_stored a k) = without_prefix (Data h) (a_stored a)"
  proof (rule ext)
    fix k
    have own: "take 20 k = Data h" if "k \<in> ?f ` fst ` set found"
      using that assms(2) by (auto simp: sk_ToArray_def)
    have all: "k \<in> ?f ` fst ` set found" if "take 20 k = Data h" "a_stored a k = Some v" for v
    proof -
      have "(k, v) \<in> set found" by (rule search_okD [OF d(4) that(2)]) (simp add: assms(2) that(1))
      then have "?f (fst (k, v)) \<in> ?f ` fst ` set found" by (intro imageI)
      moreover have "?f (fst (k, v)) = k" using that(1) append_take_drop_id [of 20 k] by (simp add: sk_ToArray_def)
      ultimately show ?thesis by (simp only:)
    qed
    show "(if k \<in> ?f ` fst ` set found then None else a_stored a k) = without_prefix (Data h) (a_stored a) k"
    proof (cases "take 20 k = Data h")
      case True
      then show ?thesis using all [OF True] assms(2) by (cases "a_stored a k") (simp_all add: without_prefix_def)
    next
      case False
      then have "k \<notin> ?f ` fst ` set found" using own by blast
      then show ?thesis using False assms(2) by (simp add: without_prefix_def)
    qed
  qed
  then show "\<exists>s'. delete_storage h s = (fst (modify (\<lambda>a. a\<lparr>a_stored := without_prefix (Data h) (a_stored a)\<rparr>) a), s') \<and>
      implements c s' (snd (modify (\<lambda>a. a\<lparr>a_stored := without_prefix (Data h) (a_stored a)\<rparr>) a))"
    using d(1) s' by (simp add: delete_storage_def bnd_def on_Storages_def modify_def)
qed

lemma refines_ScriptHash [refines_intros]: "refines c cur_ScriptHash (bnd (gets a_hash) lft)"
  unfolding cur_ScriptHash_def
  by (rule refines_CurrentContext) (auto simp: runs implements_def split: sum.splits)

lemma refines_when [refines_intros]: "refines c p q \<Longrightarrow> refines c (whenm b p) (whenm b q)"
  by (simp add: whenm_def refines_basic)

text \<open>The call is run at one state; there its hash is known.\<close>

lemma Destroy_ok:
  assumes "implements c s a" "searchable (a_hash a)"
  shows "\<exists>s'. Contract_Destroy s = (fst (spec_Destroy a), s') \<and> implements c s' (snd (spec_Destroy a))"
proof -
  obtain s1 where s1: "cur_ScriptHash s = (fst (bnd (gets a_hash) lft a), s1)" "implements c s1 (snd (bnd (gets a_hash) lft a))"
    using refinesD [OF refines_ScriptHash assms(1)] by blast
  show ?thesis
  proof (cases "a_hash a")
    case (Inl e)
    then show ?thesis using s1 by (auto simp: Contract_Destroy_def spec_Destroy_def runs)
  next
    case (Inr h)
    have h: "unhexlify (Data h) = None" using assms(2) Inr by (simp add: searchable_def)
    have "UInt160 (Some (s_hash (Script (contexts s c)))) = Inr h" using assms(1) Inr by (simp add: implements_def)
    then have len: "length (Data h) = 20"
      using UIntBase_new_wf [of 20 "Some (s_hash (Script (contexts s c)))" h] by (simp add: UInt160_def uint_wf_def)
    let ?gone = "modify (\<lambda>a. a\<lparr>a_stored := without_prefix (Data h) (a_stored a)\<rparr>)"
    let ?spec = "bnd (gets (\<lambda>a. a_deployed a (uint_ToBytes h))) (\<lambda>contract.
        sq (case contract of
              None \<Rightarrow> ret ()
            | Some con \<Rightarrow>
                sq (modify (\<lambda>a. a\<lparr>a_deployed := (a_deployed a)(uint_ToBytes h := None)\<rparr>)) (whenm (co_HasStorage con) ?gone))
       (sq (modify (\<lambda>a. a\<lparr>a_events := a_events a @ [CONTRACT_DESTROY h contract]\<rparr>)) (ret True)))"
    let ?code = "bnd (on_Contracts (dc_TryGet Contracts_clone (uint_ToBytes h))) (\<lambda>contract.
        sq (case contract of
              None \<Rightarrow> ret ()
            | Some con \<Rightarrow>
                sq (on_Contracts (dc_Delete Contracts_clone (uint_ToBytes h))) (whenm (co_HasStorage con) (delete_storage h)))
       (sq (emit (CONTRACT_DESTROY h contract)) (ret True)))"
    have "refines c ?code ?spec"
      by (rule refines_intros refines_delete_storage [OF h len])+
    moreover have s1: "implements c s1 a" "cur_ScriptHash s = (Val h, s1)" using s1 Inr by (simp_all add: runs)
    ultimately obtain s' where "?code s1 = (fst (?spec a), s')" "implements c s' (snd (?spec a))"
      using refinesD by blast
    moreover have "Contract_Destroy s = ?code s1" by (simp add: Contract_Destroy_def bnd_def [of cur_ScriptHash] s1(2))
    moreover have "fst (?spec a) = fst (spec_Destroy a) \<and> snd (?spec a) = snd (spec_Destroy a)"
      using Inr by (cases "a_deployed a (uint_ToBytes h)") (simp_all add: spec_Destroy_def runs whenm_def fun_upd_idem)
    ultimately show ?thesis by metis
  qed
qed

section \<open>Properties\<close>

text \<open>C27. The calls on storage do what the specifications on maps say, on every branch and whatever the
  stack holds: with the same result or the same exception they leave a state that implements the
  specified one. That is so under every trigger: \<open>Storage_Put\<close> looks neither at the trigger nor at whether the
  context is read-only, as \<open>Storage_Delete\<close> does, while the documentation of the repository says that it fails in a
  verification.\<close>

theorem storage_calls_refine:
  assumes "implements c s a"
  shows "(\<exists>s'. Storage_Get s = (fst (spec_Get a), s') \<and> implements c s' (snd (spec_Get a))) \<and>
    (\<exists>s'. Storage_Put s = (fst (spec_Put a), s') \<and> implements c s' (snd (spec_Put a))) \<and>
    (\<exists>s'. Storage_Delete ch s = (fst (spec_Delete ch a), s') \<and> implements c s' (snd (spec_Delete ch a)))"
  using refinesD [OF refines_Get assms] refinesD [OF refines_Put assms] refinesD [OF refines_Delete assms] by blast

lemma put_get_spec:
  assumes "a_stack a = x # k # v # x' # k' # xs" "a_context a x = Some ctx" "a_context a x' = Some ctx'"
    "has_storage a ctx" "has_storage a ctx'" "GetByteArray k = Inr key" "GetByteArray k' = Inr key'"
    "GetByteArray v = Inr val" "length key \<le> 1024"
  shows "sq spec_Put spec_Get a =
    (let m = (a_stored a)(storage_key_of ctx key \<mapsto> \<lparr>si_Value = val, si_IsConstant = False\<rparr>);
         got = item_value (m (storage_key_of ctx' key')) in
     (Val True, a\<lparr>a_stack := ByteArray got # xs, a_stored := m,
        a_events := a_events a @ [STORAGE_PUT (ctx_ScriptHash ctx) key val, STORAGE_GET (ctx_ScriptHash ctx') key' got]\<rparr>))"
  using assms
  by (auto simp: spec_Put_def spec_Get_def spec_context_def spec_bytes_def a_context_def has_storage_def runs
      split: stack_item.splits option.splits)

text \<open>C29. A value that is put is the one that is got by the same key and any context of the same contract,
  read-only or not; by other keys one gets what was stored before. It is so in a verification too, where the
  documentation of the repository says that a put fails.\<close>

theorem storage_put_get:
  assumes "implements c s a" "a_stack a = x # k # v # x' # k' # xs" "a_context a x = Some ctx" "a_context a x' = Some ctx'"
    "has_storage a ctx" "has_storage a ctx'" "GetByteArray k = Inr key" "GetByteArray k' = Inr key'"
    "GetByteArray v = Inr val" "length key \<le> 1024"
  shows "\<exists>s'. sq Storage_Put Storage_Get s = (Val True, s') \<and>
    get_stack (EStack c) s' = mk_ras (ByteArray
      (if storage_key_of ctx key = storage_key_of ctx' key' then val
       else item_value (stored s (storage_key_of ctx' key'))) # xs) \<and>
    stored s' = (stored s)(storage_key_of ctx key \<mapsto> \<lparr>si_Value = val, si_IsConstant = False\<rparr>) \<and>
    deployed s' = deployed s"
  using refinesD [OF refines_sq [OF refines_Put refines_Get] assms(1)] assms(1)
  unfolding put_get_spec [OF assms(2-10)] by (auto simp: Let_def implements_def item_value_def)

text \<open>C28. The end of a contract: it is no longer deployed, and of the stored items exactly those under its hash
  are gone; all of them are found, though the items are spread over two caches and the database.\<close>

theorem Contract_Destroy_removes:
  assumes "implements c s a" "a_hash a = Inr h" "a_deployed a (uint_ToBytes h) = Some con" "co_HasStorage con"
    "unhexlify (Data h) = None"
  shows "\<exists>s'. Contract_Destroy s = (Val True, s') \<and> deployed s' = (deployed s)(uint_ToBytes h := None) \<and>
    stored s' = (\<lambda>k. if take (length (Data h)) k = Data h then None else stored s k)"
proof -
  obtain s' where s': "Contract_Destroy s = (fst (spec_Destroy a), s')" "implements c s' (snd (spec_Destroy a))"
    using Destroy_ok [OF assms(1)] assms(2,5) by (auto simp: searchable_def)
  have "stored s = a_stored a" "deployed s = a_deployed a" using assms(1) by (simp_all add: implements_def)
  then show ?thesis
    using s' assms(2-4) by (auto simp: spec_Destroy_def implements_def without_prefix_def)
qed

section \<open>A concrete service\<close>

text \<open>
  A database with a contract with storage and an item of it; a cache of it as a block's, and one as a
  transaction's; and an engine that runs the contract.
\<close>

definition key_20 :: bytes where "key_20 = replicate 20 7"

definition service_leveldb :: leveldb where
  "service_leveldb =
     \<lparr>ldb = [(0x50 # hexlify key_20, hexlify (co_enc sample_contract)), (0x70 # key_20 @ [1], hexlify (si_enc (StorageItem (Some [7]))))],
      ldb_batch = [], ldb_streams = sample_pool\<rparr>"

definition sample_snapshot :: snapshot where
  "sample_snapshot =
     \<lparr>PersistingBlock = None,
      snap_Accounts = dc_CreateSnapshot (dc_CreateSnapshot service_leveldb),
      snap_Assets = dc_CreateSnapshot (dc_CreateSnapshot service_leveldb),
      snap_Contracts = dc_CreateSnapshot (dc_CreateSnapshot service_leveldb),
      snap_Storages = dc_CreateSnapshot (dc_CreateSnapshot service_leveldb)\<rparr>"

definition sample_hash :: uint where
  "sample_hash = \<lparr>Data = key_20, uint_hash = GetHashCode key_20\<rparr>"

definition sample_service :: "stack_item list \<Rightarrow> svc" where
  "sample_service xs = put_stack (EStack 0) (mk_ras xs)
     ((loaded \<lparr>s_value = [], s_hash = key_20\<rparr> (- 1) (ApplicationEngine (new_services sample_snapshot sample_pool ()) 0 False))
       \<lparr>host := (\<lambda>_. H_Context \<lparr>ctx_ScriptHash = sample_hash, ctx_IsReadOnly = True\<rparr>)\<rparr>)"

definition sample_abs :: "stack_item list \<Rightarrow> svc_abs" where
  "sample_abs xs =
     \<lparr>a_stack = xs, a_stored = [key_20 @ [1] \<mapsto> StorageItem (Some [7])], a_deployed = [hexlify key_20 \<mapsto> sample_contract],
      a_events = [], a_host = (\<lambda>_. H_Context \<lparr>ctx_ScriptHash = sample_hash, ctx_IsReadOnly = True\<rparr>), a_hash = Inr sample_hash\<rparr>"

lemma service_leveldb_valid:
  "ldb_valid ST_Storage si_enc si_ok service_leveldb" "ldb_valid ST_Contract co_enc co_ok service_leveldb"
  using sample_item_ok(1) [of "[7]"] sample_contract_ok sample_pool_wf
  by (auto simp: ldb_valid_def service_leveldb_def ST_Storage_def ST_Contract_def split: if_splits)

lemma service_leveldb_maps:
  "storage_map service_leveldb = [key_20 @ [1] \<mapsto> StorageItem (Some [7])]"
  "contract_map service_leveldb = [hexlify key_20 \<mapsto> sample_contract]"
  using storage_item.decode_enc [OF sample_item_ok(1) [of "[7]"]] contract.decode_enc [OF sample_contract_ok]
  by (auto simp: storage_map_def contract_map_def ldb_rd_def ldb_lookup_def service_leveldb_def ST_Storage_def
      ST_Contract_def fun_eq_iff)

lemma service_caches:
  "storage_good (dc_CreateSnapshot service_leveldb)" "storage_view (dc_CreateSnapshot service_leveldb) = storage_map service_leveldb"
  "contracts_good (dc_CreateSnapshot service_leveldb)" "contract_view (dc_CreateSnapshot service_leveldb) = contract_map service_leveldb"
  unfolding storage_good_def storage_view_def contracts_good_def contract_view_def storage_map_def contract_map_def
  using service_leveldb_valid
  by (auto intro!: snapshot_ok simp: snapshot_ok(2) ldb_pend_def ldb_rd_def service_leveldb_def)

lemma sample_UInt160: "UInt160 (Some key_20) = Inr sample_hash"
  by (simp add: UInt160_def UIntBase_new_def key_20_def sample_hash_def)

lemma sample_service_fields:
  "InvocationStack (sample_service xs) = mk_ras [0]" "get_stack (EStack 0) (sample_service xs) = mk_ras xs"
  "Snapshot (sample_service xs) = sample_snapshot" "events_to_dispatch (sample_service xs) = []"
  "host (sample_service xs) = (\<lambda>_. H_Context \<lparr>ctx_ScriptHash = sample_hash, ctx_IsReadOnly = True\<rparr>)"
  "s_hash (Script (contexts (sample_service xs) 0)) = key_20"
  by (simp_all add: sample_service_def put_stack.simps get_stack.simps update_context_def loaded_def ApplicationEngine_def
      ExecutionEngine_def engine.defs new_services_def ras_empty_mk ExecutionContext_def)

lemma sample_service_implements:
  assumes "list_all storable xs"
  shows "implements 0 (sample_service xs) (sample_abs xs)"
  using assms service_caches sample_UInt160
  by (auto simp: implements_def sample_service_fields sample_abs_def snapshot_good_def stored_def deployed_def
      sample_snapshot_def snapshot_ok service_leveldb_maps)

text \<open>A context on the stack, and the facts that the instances ask for.\<close>

definition ctx_item :: stack_item where "ctx_item = InteropInterface 0 (Some 0)"

lemma sample_context:
  "a_context (sample_abs xs) ctx_item = Some \<lparr>ctx_ScriptHash = sample_hash, ctx_IsReadOnly = True\<rparr>"
  "has_storage (sample_abs xs) \<lparr>ctx_ScriptHash = sample_hash, ctx_IsReadOnly = b\<rparr>"
proof -
  have "uint_ToBytes sample_hash = hexlify key_20" "co_HasStorage sample_contract" by code_simp+
  then show "has_storage (sample_abs xs) \<lparr>ctx_ScriptHash = sample_hash, ctx_IsReadOnly = b\<rparr>"
    by (simp add: has_storage_def sample_abs_def)
qed (simp add: a_context_def sample_abs_def ctx_item_def)

lemma storage_calls_refine_witness:
  "\<exists>s'. Storage_Put (sample_service [ctx_item, ByteArray [9], ByteArray [8]]) = (Val True, s') \<and>
     stored s' = [key_20 @ [1] \<mapsto> StorageItem (Some [7]), key_20 @ [9] \<mapsto> \<lparr>si_Value = [8], si_IsConstant = False\<rparr>]"
proof -
  let ?xs = "[ctx_item, ByteArray [9], ByteArray [8]]"
  have "list_all storable ?xs" by (simp add: storable_def ctx_item_def maxsize_def)
  from storage_calls_refine [OF sample_service_implements [OF this]]
  obtain s' where "Storage_Put (sample_service ?xs) = (fst (spec_Put (sample_abs ?xs)), s')"
      "implements 0 s' (snd (spec_Put (sample_abs ?xs)))"
    by blast
  moreover have "a_stack (sample_abs ?xs) = ?xs" by (simp add: sample_abs_def)
  ultimately show ?thesis
    using sample_context
    by (auto simp: spec_Put_def spec_context_def spec_bytes_def implements_def)
       (auto simp: sample_abs_def storage_key_of_def sk_ToArray_def sample_hash_def fun_eq_iff)
qed

lemma storage_put_get_witness:
  "\<exists>s'. sq Storage_Put Storage_Get (sample_service [ctx_item, ByteArray [9], ByteArray [8], ctx_item, ByteArray [9]]) = (Val True, s') \<and>
     get_stack (EStack 0) s' = mk_ras [ByteArray [8]]"
proof -
  let ?xs = "[ctx_item, ByteArray [9], ByteArray [8], ctx_item, ByteArray [9]]"
  have "list_all storable ?xs" by (simp add: storable_def ctx_item_def maxsize_def)
  from storage_put_get [OF sample_service_implements [OF this] _ sample_context(1,1) sample_context(2,2),
      of "ByteArray [9]" "ByteArray [8]" "ByteArray [9]" "[]" "[9]" "[9]" "[8]"]
  show ?thesis by (auto simp: sample_abs_def)
qed

lemma Contract_Destroy_removes_witness:
  "\<exists>s'. Contract_Destroy (sample_service []) = (Val True, s') \<and> deployed s' = Map.empty \<and> stored s' = Map.empty"
proof -
  have impl: "implements 0 (sample_service []) (sample_abs [])" by (rule sample_service_implements) simp
  have key: "uint_ToBytes sample_hash = hexlify key_20" "unhexlify (Data sample_hash) = None" "co_HasStorage sample_contract"
    "take (length (Data sample_hash)) (key_20 @ [1]) = Data sample_hash"
    by code_simp+
  obtain s' where s': "Contract_Destroy (sample_service []) = (Val True, s')"
      "deployed s' = (deployed (sample_service []))(uint_ToBytes sample_hash := None)"
      "stored s' = (\<lambda>k. if take (length (Data sample_hash)) k = Data sample_hash then None else stored (sample_service []) k)"
    using Contract_Destroy_removes [OF impl, of sample_hash sample_contract] key by (auto simp: sample_abs_def)
  have "stored (sample_service []) = [key_20 @ [1] \<mapsto> StorageItem (Some [7])]"
    "deployed (sample_service []) = [hexlify key_20 \<mapsto> sample_contract]"
    using impl by (simp_all add: implements_def sample_abs_def)
  then have "stored s' = Map.empty" "deployed s' = Map.empty"
    using s'(2,3) key by (auto simp: fun_eq_iff)
  then show ?thesis using s'(1) by blast
qed

section \<open>A run with system calls\<close>

definition sample_chain :: chain where
  "sample_chain =
     \<lparr>Trigger = TR_Application, ScriptHashesForVerifying = Inr [], ContainerHash = sample_hash, Height = 0,
      SECONDS_PER_BLOCK = 15, GetHeaderByHeight = (\<lambda>_. Inr None), GetHeaderBy = (\<lambda>_. Inr None),
      GetBlockByHeight = (\<lambda>_. Inr None), GetBlockByHash = (\<lambda>_. Inr None), chain_GetTransaction = (\<lambda>_. Inr (None, - 1)),
      LookupTransaction = (\<lambda>_. None), GetAllUnspent = (\<lambda>_. Inr []), ADDRESS_VERSION = 23, b58encode = (\<lambda>b. b)\<rparr>"

lemma system_test_Run_ends_witness:
  "\<exists>r. Run (machine_env sample_env sample_chain (\<lambda>_. ret False)) (new_services sample_snapshot sample_pool ()) [0x51, 0x63, 0xff] 0 True True = Some r"
  by (rule system_test_Run_ends) (simp_all add: stays_basic)

end
