(* ===== verification/Serialization_Properties.thy ===== *)
theory Serialization_Properties
  imports Service_Properties
begin

text \<open>
  The two system calls that turn an item of the evaluation stack into bytes and back, through streams of
  the pool (\<open>Item_Serialization\<close> has the formats).
\<close>

section \<open>Runs of the calls\<close>

lemma run_cur:
  fixes s :: "'z svc_scheme"
  assumes "InvocationStack s = mk_ras (c # cs)"
  shows "bnd CurrentContext f s = f c s"
  using assms by (simp add: bnd_def CurrentContext_def gets_def lft_def ras_Peek_mk)

lemma run_cur_Pop:
  fixes s :: "'z svc_scheme"
  assumes "InvocationStack s = mk_ras (c # cs)" "get_stack (EStack c) s = mk_ras (x # xs)"
  shows "bnd cur_Pop f s = f x (put_stack (EStack c) (mk_ras xs) s)"
  using assms by (simp add: cur_Pop_def run_assoc run_cur run_Pop)

lemma run_cur_PopBytes:
  fixes s :: "'z svc_scheme"
  assumes "InvocationStack s = mk_ras (c # cs)" "get_stack (EStack c) s = mk_ras (ByteArray b # xs)"
  shows "bnd cur_PopBytes f s = f b (put_stack (EStack c) (mk_ras xs) s)"
  using assms by (simp add: cur_PopBytes_def run_assoc run_cur_Pop run_simps)

lemma run_cur_Push:
  fixes s :: "'z svc_scheme"
  assumes "InvocationStack s = mk_ras (c # cs)" "get_stack (EStack c) s = mk_ras xs"
  shows "sq (cur_Push x) m s = m (put_stack (EStack c) (mk_ras (x # xs)) s)"
  using assms by (simp add: cur_Push_def sq_def run_assoc run_cur) (simp add: sq_def [symmetric] run_Push)

lemma run_on_pool:
  fixes s :: "'z svc_scheme"
  assumes "p (svc_pool s) = (Val x, t)"
  shows "bnd (on_pool p) f s = f x (s\<lparr>svc_pool := t\<rparr>)" "sq (on_pool p) m s = m (s\<lparr>svc_pool := t\<rparr>)"
    "on_pool p s = (Val x, s\<lparr>svc_pool := t\<rparr>)"
  using assms by (simp_all add: bnd_def sq_def on_pool_def)

lemma pool_of_stack [simp]:
  fixes s :: "'z svc_scheme"
  shows "svc_pool (put_stack k st s) = svc_pool s" "get_stack k (s\<lparr>svc_pool := t\<rparr>) = get_stack k s"
    "put_stack k st (s\<lparr>svc_pool := t\<rparr>) = (put_stack k st s)\<lparr>svc_pool := t\<rparr>"
    "put_stack k st (s\<lparr>items_heap := h\<rparr>) = (put_stack k st s)\<lparr>items_heap := h\<rparr>"
    "InvocationStack (put_stack (EStack c) st s) = InvocationStack s" "items_heap (put_stack k st s) = items_heap s"
  by (cases k; simp add: put_stack.simps get_stack.simps update_context_def)+

lemma run_val: "m s = (Val x, t) \<Longrightarrow> bnd m f s = f x t"
  by (simp add: bnd_def)

lemma run_try:
  "m s = (Val x, t) \<Longrightarrow> bnd (try_except m h) f s = f x t"
  "m s = (Exc e, t) \<Longrightarrow> bnd (try_except m h) f s = bnd (h e) f t"
  by (simp_all add: bnd_def try_except_def)

text \<open>An item that stands for a tree whose bytes are not too many is replaced by them.\<close>

lemma run_Runtime_Serialize:
  fixes s :: "'z svc_scheme"
  assumes stacks: "InvocationStack s = mk_ras (c # cs)" "get_stack (EStack c) s = mk_ras (x # xs)"
    and tree: "tree_in lo hi (recursion_limit env) (items_heap s) x = Some t" "tree_ok t" "int (length (tree_enc t)) \<le> maxItemSize"
    and pool: "pool_wf (svc_pool s)"
  shows "\<exists>u. Runtime_Serialize env s = (Val True, (put_stack (EStack c) (mk_ras (ByteArray (tree_enc t) # xs)) s)\<lparr>svc_pool := u\<rparr>) \<and> pool_wf u"
proof -
  obtain i u where g: "GetStream None (svc_pool s) = (Val i, u)" "pool_wf u" "streams u i = initial_stream None"
      "i \<in> set (mstreams u)" "i \<notin> set (mstreams_available u)"
    using GetStream_clean [OF pool, of None] by blast
  let ?u = "u\<lparr>streams := (streams u)(i := cursor (tree_enc t) [])\<rparr>"
  let ?v = "snd (ReleaseStream i ?u)"
  have written: "on_stream i (item_Serialize (recursion_limit env) (items_heap s) x) u = (Val (), ?u)"
    by (rule on_new_stream_emits [OF item_Serialize_emits [OF tree(1,2)] g(3)])
  have released: "ReleaseStream i ?u = (Val (), ?v)" by (simp add: run_ReleaseStream)
  have "\<not> int (position (cursor (tree_enc t) [])) > maxItemSize" using tree(3) by (simp add: cursor_def)
  then have "Runtime_Serialize env s = (Val True, (put_stack (EStack c) (mk_ras (ByteArray (tree_enc t) # xs)) s)\<lparr>svc_pool := ?v\<rparr>)"
    using stacks g(1) written released
    by (simp add: Runtime_Serialize_def run_cur_Pop run_on_pool run_cur_Push run_try run_simps cong: if_cong)
  moreover have "pool_wf ?v" by (rule pool_ReleaseStream) (use g in \<open>auto simp: pool_wf_def\<close>)
  ultimately show ?thesis by blast
qed

text \<open>The bytes of a tree are replaced by a new item that stands for it; what other items are stays.\<close>

lemma run_Runtime_Deserialize:
  fixes s :: "'z svc_scheme"
  assumes stacks: "InvocationStack s = mk_ras (c # cs)" "get_stack (EStack c) s = mk_ras (ByteArray (tree_enc t) # xs)"
    and tree: "remakes (recursion_limit env) t" and pool: "pool_wf (svc_pool s)"
  shows "\<exists>y h u. Runtime_Deserialize env s =
       (Val True, (put_stack (EStack c) (mk_ras (y # xs)) s)\<lparr>svc_pool := u, items_heap := h\<rparr>) \<and> pool_wf u \<and>
     same_in 0 (h_next (items_heap s)) (items_heap s) h \<and>
     tree_in (h_next (items_heap s)) (h_next h) (recursion_limit env) h y = Some t"
proof -
  obtain i u where g: "GetStream (Some (tree_enc t)) (svc_pool s) = (Val i, u)" "pool_wf u"
      "streams u i = initial_stream (Some (tree_enc t))" "i \<in> set (mstreams u)" "i \<notin> set (mstreams_available u)"
    using GetStream_clean [OF pool, of "Some (tree_enc t)"] by blast
  obtain y h where y: "DeserializeStackItem (recursion_limit env) (cursor [] (tree_enc t @ []), items_heap s) =
        (Val y, (cursor ([] @ tree_enc t) [], h))"
      "same_in 0 (h_next (items_heap s)) (items_heap s) h"
      "tree_in (h_next (items_heap s)) (h_next h) (recursion_limit env) h y = Some t"
    using tree [unfolded remakes_def, rule_format, of "[]" "[]" "items_heap s"] by blast
  let ?u = "u\<lparr>streams := (streams u)(i := cursor (tree_enc t) [])\<rparr>"
  let ?v = "snd (ReleaseStream i ?u)"
  let ?s = "(put_stack (EStack c) (mk_ras xs) s)\<lparr>svc_pool := u\<rparr>"
  have "streams u i = cursor [] (tree_enc t)" using g(3) by (simp add: initial_stream_def cursor_def)
  then have read: "on_item_reader i (DeserializeStackItem (recursion_limit env)) ?s = (Val y, ?s\<lparr>svc_pool := ?u, items_heap := h\<rparr>)"
    using y(1) by (simp add: on_item_reader_def)
  have read: "bnd (on_item_reader i (DeserializeStackItem (recursion_limit env))) f ?s = f y (?s\<lparr>svc_pool := ?u, items_heap := h\<rparr>)"
    for f :: "stack_item \<Rightarrow> ('z, pyexc + bool) call"
    by (simp only: bnd_def read) simp
  have released: "ReleaseStream i ?u = (Val (), ?v)" by (simp add: run_ReleaseStream)
  have "Runtime_Deserialize env s = (Val True, (put_stack (EStack c) (mk_ras (y # xs)) s)\<lparr>svc_pool := ?v, items_heap := h\<rparr>)"
    using stacks g(1) read released
    by (simp add: Runtime_Deserialize_def run_cur_PopBytes run_on_pool run_cur_Push run_try run_simps read lft_def)
  moreover have "pool_wf ?v" by (rule pool_ReleaseStream) (use g in \<open>auto simp: pool_wf_def\<close>)
  ultimately show ?thesis using y by blast
qed

section \<open>Serialize, then Deserialize\<close>

text \<open>C14. An item that is serialized and then deserialized is replaced by one of the same tree: of equal bytes,
  numbers and truth values, of arrays, structures and maps with equal members. All its objects are new, so
  it shares none with the first item, and the objects there were keep what they hold.\<close>

theorem serialize_deserialize:
  fixes s :: "'z svc_scheme"
  assumes "InvocationStack s = mk_ras (c # cs)" "get_stack (EStack c) s = mk_ras (x # xs)"
    "tree_in lo hi (recursion_limit env) (items_heap s) x = Some t" "tree_ok t" "int (length (tree_enc t)) \<le> maxItemSize"
    "pool_wf (svc_pool s)"
  shows "\<exists>y s'. sq (Runtime_Serialize env) (Runtime_Deserialize env) s = (Val True, s') \<and>
     get_stack (EStack c) s' = mk_ras (y # xs) \<and> same_in 0 (h_next (items_heap s)) (items_heap s) (items_heap s') \<and>
     tree_in (h_next (items_heap s)) (h_next (items_heap s')) (recursion_limit env) (items_heap s') y = Some t"
proof -
  obtain u where u: "Runtime_Serialize env s = (Val True, (put_stack (EStack c) (mk_ras (ByteArray (tree_enc t) # xs)) s)\<lparr>svc_pool := u\<rparr>)"
      "pool_wf u"
    using run_Runtime_Serialize [OF assms] by blast
  let ?s = "(put_stack (EStack c) (mk_ras (ByteArray (tree_enc t) # xs)) s)\<lparr>svc_pool := u\<rparr>"
  have "InvocationStack ?s = mk_ras (c # cs)" "get_stack (EStack c) ?s = mk_ras (ByteArray (tree_enc t) # xs)"
      "pool_wf (svc_pool ?s)" "items_heap ?s = items_heap s"
    using assms(1) u(2) by simp_all
  from run_Runtime_Deserialize [OF this(1,2) remakes_tree [OF assms(3,4)] this(3)]
  obtain y h v where "Runtime_Deserialize env ?s =
       (Val True, (put_stack (EStack c) (mk_ras (y # xs)) ?s)\<lparr>svc_pool := v, items_heap := h\<rparr>)"
      "same_in 0 (h_next (items_heap s)) (items_heap s) h"
      "tree_in (h_next (items_heap s)) (h_next h) (recursion_limit env) h y = Some t"
    by auto
  then show ?thesis using u(1) by (auto simp: sq_def bnd_def)
qed

lemma sample_service_pool: "pool_wf (svc_pool (sample_service xs))"
  using sample_pool_wf
  by (simp add: sample_service_def loaded_def ApplicationEngine_def ExecutionEngine_def engine.defs new_services_def)

definition nested_service :: svc where
  "nested_service = (sample_service [Array 0])\<lparr>items_heap :=
     \<lparr>h_list = (\<lambda>r. if r = 0 then [Integer 7, Map 1, ByteArray []] else []),
      h_dict = (\<lambda>r. if r = 1 then [(ByteArray [1], ByteArray [2])] else []), h_next = 2\<rparr>\<rparr>"

lemma serialize_deserialize_witness:
  "\<exists>y s'. sq (Runtime_Serialize sample_env) (Runtime_Deserialize sample_env) (nested_service) = (Val True, s') \<and>
     get_stack (EStack 0) s' = mk_ras [y] \<and>
     tree_in 2 (h_next (items_heap s')) 10 (items_heap s') y = Some (T_Array [T_Int 7, T_Map [(T_Bytes [1], T_Bytes [2])], T_Bytes []])"
proof -
  have stacks: "InvocationStack nested_service = mk_ras [0]" "get_stack (EStack 0) nested_service = mk_ras [Array 0]"
      "pool_wf (svc_pool nested_service)" "h_next (items_heap nested_service) = 2"
    by (simp_all add: nested_service_def sample_service_fields sample_service_pool)
  have tree: "tree_in 0 2 (recursion_limit sample_env) (items_heap nested_service) (Array 0) =
      Some (T_Array [T_Int 7, T_Map [(T_Bytes [1], T_Bytes [2])], T_Bytes []])"
    by (simp add: nested_service_def sample_env_def eval_nat_numeral both_def)
  have ok: "tree_ok (T_Array [T_Int 7, T_Map [(T_Bytes [1], T_Bytes [2])], T_Bytes []])"
      "int (length (tree_enc (T_Array [T_Int 7, T_Map [(T_Bytes [1], T_Bytes [2])], T_Bytes []]))) \<le> maxItemSize"
    by code_simp+
  from serialize_deserialize [OF stacks(1,2) tree ok stacks(3)] show ?thesis
    using stacks(4) by (auto simp: sample_env_def)
qed

section \<open>An array that contains itself\<close>

lemma cyclic_raises:
  assumes "h_list h r = Array r # ys" "int (length (h_list h r)) \<le> maxsize"
  shows "\<exists>buf'. item_Serialize d h (Array r) (cursor buf []) = (Exc RecursionError, cursor buf' [])"
proof (induction d arbitrary: buf)
  case 0
  then show ?case by (auto simp: throw_def)
next
  case (Suc d)
  have "WriteByte (PInt ST_Array) (cursor buf []) = (Val (), cursor (buf @ [0x80]) [])"
    using emits_WriteByte [of ST_Array] by (simp add: emits_def ST_Array_def)
  moreover have "WriteVarInt (int (length (h_list h r))) (cursor (buf @ [0x80]) []) =
      (Val (), cursor ((buf @ [0x80]) @ var_int (int (length (h_list h r)))) [])"
    using emits_WriteVarInt_length [OF assms(2)] by (simp add: emits_def)
  moreover obtain buf' where "item_Serialize d h (Array r)
      (cursor ((buf @ [0x80]) @ var_int (int (length (h_list h r)))) []) = (Exc RecursionError, cursor buf' [])"
    using Suc by blast
  ultimately show ?case using assms(1) by (auto simp: sq_def bnd_def)
qed

text \<open>C18. An array whose first element is the array itself is popped, and the call fails without an exception: the
  RecursionError that ends the serialization is caught, and the stream goes back to the pool.\<close>

theorem serialize_cyclic:
  fixes s :: "'z svc_scheme"
  assumes stacks: "InvocationStack s = mk_ras (c # cs)" "get_stack (EStack c) s = mk_ras (Array r # xs)"
    and cyclic: "h_list (items_heap s) r = Array r # ys" "int (length (h_list (items_heap s) r)) \<le> maxsize"
    and pool: "pool_wf (svc_pool s)"
  shows "\<exists>u. Runtime_Serialize env s = (Val False, (put_stack (EStack c) (mk_ras xs) s)\<lparr>svc_pool := u\<rparr>) \<and> pool_wf u"
proof -
  obtain i u where g: "GetStream None (svc_pool s) = (Val i, u)" "pool_wf u" "streams u i = initial_stream None"
      "i \<in> set (mstreams u)" "i \<notin> set (mstreams_available u)"
    using GetStream_clean [OF pool, of None] by blast
  have "streams u i = cursor [] []" using g(3) by (simp add: initial_stream_def cursor_def)
  then obtain t where t: "on_stream i (item_Serialize (recursion_limit env) (items_heap s) (Array r)) u =
      (Exc RecursionError, u\<lparr>streams := (streams u)(i := t)\<rparr>)"
    using cyclic_raises [OF cyclic, of "recursion_limit env" "[]"] by (auto simp: on_stream_def)
  let ?u = "u\<lparr>streams := (streams u)(i := t)\<rparr>"
  let ?v = "snd (ReleaseStream i ?u)"
  have raised: "sq (on_pool (on_stream i (item_Serialize (recursion_limit env) (items_heap s) (Array r)))) m v =
      (Exc RecursionError, v\<lparr>svc_pool := ?u\<rparr>)" if "svc_pool v = u" for v :: "'z svc_scheme" and m :: "('z, bool) call"
    using t that by (simp add: sq_def bnd_def on_pool_def)
  have released: "ReleaseStream i ?u = (Val (), ?v)" by (simp add: run_ReleaseStream)
  have "Runtime_Serialize env s = (Val False, (put_stack (EStack c) (mk_ras xs) s)\<lparr>svc_pool := ?v\<rparr>)"
    using stacks g(1) released
    by (simp add: Runtime_Serialize_def run_cur_Pop run_on_pool raised run_try run_simps cong: if_cong)
  moreover have "pool_wf ?v" by (rule pool_ReleaseStream) (use g in \<open>auto simp: pool_wf_def\<close>)
  ultimately show ?thesis by blast
qed

lemma serialize_cyclic_witness:
  "\<exists>s'. Runtime_Serialize sample_env ((sample_service [Array 0])\<lparr>items_heap := \<lparr>h_list = (\<lambda>r. [Array 0]), h_dict = (\<lambda>r. []), h_next = 1\<rparr>\<rparr>) =
     (Val False, s')"
proof -
  let ?s = "(sample_service [Array 0])\<lparr>items_heap := \<lparr>h_list = (\<lambda>r. [Array 0]), h_dict = (\<lambda>r. []), h_next = 1\<rparr>\<rparr>"
  have "InvocationStack ?s = mk_ras [0]" "get_stack (EStack 0) ?s = mk_ras [Array 0]"
      "h_list (items_heap ?s) 0 = [Array 0]" "int (length (h_list (items_heap ?s) 0)) \<le> maxsize" "pool_wf (svc_pool ?s)"
    by (simp_all add: sample_service_fields sample_service_pool maxsize_def)
  from serialize_cyclic [OF this, of sample_env] show ?thesis by auto
qed

end
