(* ===== verification/Py_Double.thy ===== *)
theory Py_Double
  imports Binary_Format
begin

text \<open>
  Python's floats and numbers that are integers or floats, as the ledger's system fees need them: sums,
  differences and products of mixed numbers, \<open>int\<close> of a float, and \<open>struct\<close>'s format \<open><d\<close>. A float is a
  dyadic number, rounded as IEEE prescribes, or an infinity, or not a number; the sign of zero is not kept.
\<close>

section \<open>Floats\<close>

datatype double = Fin dyadic | Inf bool | NaN

definition round_dyadic :: "dyadic \<Rightarrow> double" where
  "round_dyadic f =
     (case f of (m, e) \<Rightarrow>
        (case int_truediv (m * 2 ^ nat e) (2 ^ nat (- e)) of Inr g \<Rightarrow> Fin g | Inl _ \<Rightarrow> Inf (m < 0)))"

fun dbl_neg :: "double \<Rightarrow> double" where
  "dbl_neg (Fin (m, e)) = Fin (- m, e)"
| "dbl_neg (Inf neg) = Inf (\<not> neg)"
| "dbl_neg NaN = NaN"

fun dbl_add :: "double \<Rightarrow> double \<Rightarrow> double" where
  "dbl_add (Fin (m, e)) (Fin (n, f)) =
     (let k = min e f in round_dyadic (m * 2 ^ nat (e - k) + n * 2 ^ nat (f - k), k))"
| "dbl_add (Inf a) (Inf b) = (if a = b then Inf a else NaN)"
| "dbl_add (Inf a) (Fin f) = Inf a"
| "dbl_add (Fin f) (Inf b) = Inf b"
| "dbl_add _ _ = NaN"

fun dbl_mul :: "double \<Rightarrow> double \<Rightarrow> double" where
  "dbl_mul (Fin (m, e)) (Fin (n, f)) = round_dyadic (m * n, e + f)"
| "dbl_mul (Inf a) (Inf b) = Inf (a \<noteq> b)"
| "dbl_mul (Inf a) (Fin (m, e)) = (if m = 0 then NaN else Inf (a \<noteq> (m < 0)))"
| "dbl_mul (Fin (m, e)) (Inf b) = (if m = 0 then NaN else Inf (b \<noteq> (m < 0)))"
| "dbl_mul _ _ = NaN"

section \<open>Numbers\<close>

datatype pynum = PyI int | PyF double

fun num_float :: "pynum \<Rightarrow> pyexc + double" where
  "num_float (PyI i) = (case int_truediv i 1 of Inl e \<Rightarrow> Inl e | Inr f \<Rightarrow> Inr (Fin f))"
| "num_float (PyF x) = Inr x"

definition num_op :: "(int \<Rightarrow> int \<Rightarrow> int) \<Rightarrow> (double \<Rightarrow> double \<Rightarrow> double) \<Rightarrow> pynum \<Rightarrow> pynum \<Rightarrow> pyexc + pynum" where
  "num_op iop fop a b =
     (case (a, b) of
        (PyI i, PyI j) \<Rightarrow> Inr (PyI (iop i j))
      | _ \<Rightarrow> ebind (num_float a) (\<lambda>x. ebind (num_float b) (\<lambda>y. Inr (PyF (fop x y)))))"

definition num_add :: "pynum \<Rightarrow> pynum \<Rightarrow> pyexc + pynum" where
  "num_add = num_op (+) dbl_add"

definition num_sub :: "pynum \<Rightarrow> pynum \<Rightarrow> pyexc + pynum" where
  "num_sub = num_op (-) (\<lambda>x y. dbl_add x (dbl_neg y))"

definition num_mul :: "pynum \<Rightarrow> pynum \<Rightarrow> pyexc + pynum" where
  "num_mul = num_op (*) dbl_mul"

text \<open>The operator \<open>/\<close> of two integers.\<close>

definition num_div :: "int \<Rightarrow> int \<Rightarrow> pyexc + pynum" where
  "num_div i j = ebind (int_truediv i j) (\<lambda>f. Inr (PyF (Fin f)))"

fun num_int :: "pynum \<Rightarrow> pyexc + int" where
  "num_int (PyI i) = Inr i"
| "num_int (PyF (Fin f)) = Inr (float_trunc f)"
| "num_int (PyF (Inf _)) = Inl OverflowError"
| "num_int (PyF NaN) = Inl ValueError"

section \<open>The format of eight bytes\<close>

definition double_bits :: "bool \<Rightarrow> int \<Rightarrow> int \<Rightarrow> int" where
  "double_bits neg biased frac = (if neg then 2 ^ 63 else 0) + biased * 2 ^ 52 + frac"

fun pack_double :: "double \<Rightarrow> bytes" where
  "pack_double (Fin (m, e)) =
     int_bytes 8
       (if m = 0 then 0
        else let b = bit_length m; top = e + int b - 1
          in if top < - 1022 then double_bits (m < 0) 0 (\<bar>m\<bar> * 2 ^ nat (e + 1074))
             else double_bits (m < 0) (top + 1023) (\<bar>m\<bar> * 2 ^ 52 div 2 ^ (b - 1) - 2 ^ 52))"
| "pack_double (Inf neg) = int_bytes 8 (double_bits neg 2047 0)"
| "pack_double NaN = int_bytes 8 (double_bits False 2047 (2 ^ 51))"

definition unpack_double :: "bytes \<Rightarrow> pyexc + double" where
  "unpack_double bs =
     (if length bs \<noteq> 8 then Inl StructError
      else let v = from_bytes_u bs; neg = 2 ^ 63 \<le> v; biased = v div 2 ^ 52 mod 2048; frac = v mod 2 ^ 52;
             sign = (if neg then - 1 else 1)
        in Inr (if biased = 2047 then (if frac = 0 then Inf neg else NaN)
                else if biased = 0 then (if frac = 0 then Fin (0, 0) else Fin (sign * frac, - 1074))
                else Fin (sign * (2 ^ 52 + frac), biased - 1075)))"

lemmas double_defs = round_dyadic_def num_op_def num_add_def num_sub_def num_mul_def num_div_def double_bits_def
  unpack_double_def

declare double_defs [model_defs]

section \<open>Whole numbers\<close>

text \<open>A dyadic number that stands for an integer, with an exponent that roundings of such numbers have.\<close>

definition dy_int :: "dyadic \<Rightarrow> int \<Rightarrow> bool" where
  "dy_int f n \<longleftrightarrow> (case f of (m, e) \<Rightarrow> - 60 \<le> e \<and> e \<le> 0 \<and> m = n * 2 ^ nat (- e))"

fun num_is :: "pynum \<Rightarrow> int \<Rightarrow> bool" where
  "num_is (PyI i) n \<longleftrightarrow> i = n"
| "num_is (PyF (Fin f)) n \<longleftrightarrow> dy_int f n"
| "num_is _ n \<longleftrightarrow> False"

lemma round_half_even_exact: "0 < b \<Longrightarrow> round_half_even (n * b) b = n"
  by (simp add: round_half_even_def)

lemma bit_length_mult_ge:
  assumes "0 < n" "0 < d"
  shows "bit_length d \<le> bit_length (n * d)"
proof -
  have "d \<le> n * d" using assms by simp
  also have "n * d < 2 ^ bit_length (n * d)" using bit_length_bounds [of "n * d"] assms by simp
  finally have "d < 2 ^ bit_length (n * d)" .
  then show ?thesis using assms by (simp add: bit_length_le_iff)
qed

lemma int_truediv_exact_pos:
  assumes n: "0 < n" "n < 2 ^ 53" and d: "0 < d" "d < 2 ^ 1000"
  shows "\<exists>s. int_truediv (n * d) d = Inr (n * 2 ^ nat (- s), s) \<and> - 60 \<le> s \<and> s \<le> 0"
proof -
  define s where "s = float_exp (n * d) d"
  obtain a b where ab: "scaled s (n * d) d = (a, b)" by (cases "scaled s (n * d) d")
  have nd: "0 < n * d" using n d by simp
  have norm: "2 ^ 52 * b \<le> a" using float_exp_normalised [OF nd d] ab s_def by blast
  have s0: "s \<le> 0"
  proof (rule ccontr)
    assume "\<not> s \<le> 0"
    then obtain k where k: "nat s = Suc k" "nat (- s) = 0" by (cases "nat s") auto
    then have "2 ^ 52 * (d * 2 ^ Suc k) \<le> n * d" using norm ab by (auto simp: scaled_def)
    then have "d * (2 ^ 53 * 2 ^ k) \<le> d * n" by (simp add: ac_simps)
    then have "2 ^ 53 * 2 ^ k \<le> n" using d(1) by (simp only: mult_le_cancel_left_pos)
    moreover have "(1 :: int) \<le> 2 ^ k" by simp
    then have "(2 :: int) ^ 53 \<le> 2 ^ 53 * 2 ^ k" by simp
    ultimately show False using n(2) by (meson le_less_trans linorder_not_less order_trans)
  qed
  have "int (bit_length (n * d)) - int (bit_length d) - 53 \<le> s"
    by (auto simp: s_def float_exp_def Let_def split: prod.splits)
  then have "- 60 \<le> s" using bit_length_mult_ge [OF n(1) d(1)] by simp
  moreover have "a = (n * 2 ^ nat (- s)) * d" "b = d" using ab s0 by (auto simp: scaled_def)
  then have "round_half_even a b = n * 2 ^ nat (- s)" using round_half_even_exact [OF d(1)] by simp
  then have "int_truediv (n * d) d = Inr (n * 2 ^ nat (- s), s)"
    using n d s0 ab nd by (simp add: int_truediv_def s_def [symmetric])
  ultimately show ?thesis using s0 by blast
qed

lemma int_truediv_exact:
  assumes "\<bar>n\<bar> < 2 ^ 53" "0 < d" "d < 2 ^ 1000"
  shows "\<exists>f. int_truediv (n * d) d = Inr f \<and> dy_int f n"
proof (cases "n = 0")
  case True
  then show ?thesis using assms(2) by (simp add: int_truediv_def dy_int_def)
next
  case False
  obtain s where s: "int_truediv (\<bar>n\<bar> * d) d = Inr (\<bar>n\<bar> * 2 ^ nat (- s), s)" "- 60 \<le> s" "s \<le> 0"
    using int_truediv_exact_pos [of "\<bar>n\<bar>" d] assms False by auto
  have "int_truediv (n * d) d = Inr (sgn (n * d) * sgn d * (\<bar>n\<bar> * 2 ^ nat (- s)), s)"
    by (rule int_truediv_signs) (use s assms False in \<open>auto simp: abs_mult\<close>)
  moreover have "sgn (n * d) * sgn d * (\<bar>n\<bar> * 2 ^ nat (- s)) = n * 2 ^ nat (- s)"
    using assms(2) False by (cases "n < 0") (auto simp: sgn_mult)
  ultimately show ?thesis using s(2,3) by (simp add: dy_int_def)
qed

lemma round_dyadic_int:
  assumes "- 200 \<le> e" "e \<le> 0" "m = n * 2 ^ nat (- e)" "\<bar>n\<bar> < 2 ^ 53"
  shows "\<exists>f. round_dyadic (m, e) = Fin f \<and> dy_int f n"
proof -
  have "(2 :: int) ^ nat (- e) < 2 ^ 1000" using assms(1) by (intro power_strict_increasing) simp_all
  then obtain f where "int_truediv (n * 2 ^ nat (- e)) (2 ^ nat (- e)) = Inr f" "dy_int f n"
    using int_truediv_exact [OF assms(4), of "2 ^ nat (- e)"] by auto
  then show ?thesis using assms(2,3) by (simp add: round_dyadic_def)
qed

lemma dy_intE:
  assumes "dy_int f n"
  obtains m e where "f = (m, e)" "- 60 \<le> e" "e \<le> 0" "m = n * 2 ^ nat (- e)"
  using assms by (cases f) (auto simp: dy_int_def)

lemma pow_shift: "k \<le> e \<Longrightarrow> e \<le> 0 \<Longrightarrow> (2 :: int) ^ nat (- e) * 2 ^ nat (e - k) = 2 ^ nat (- k)"
  by (simp add: power_add [symmetric] nat_add_distrib [symmetric])

lemma dbl_add_int:
  assumes "dy_int f x" "dy_int g y" "\<bar>x + y\<bar> < 2 ^ 53"
  shows "\<exists>h. dbl_add (Fin f) (Fin g) = Fin h \<and> dy_int h (x + y)"
proof -
  obtain m e where f: "f = (m, e)" "- 60 \<le> e" "e \<le> 0" "m = x * 2 ^ nat (- e)" using assms(1) by (rule dy_intE)
  obtain n d where g: "g = (n, d)" "- 60 \<le> d" "d \<le> 0" "n = y * 2 ^ nat (- d)" using assms(2) by (rule dy_intE)
  let ?k = "min e d"
  have "m * 2 ^ nat (e - ?k) + n * 2 ^ nat (d - ?k) = (x + y) * 2 ^ nat (- ?k)"
    using pow_shift [of ?k e] pow_shift [of ?k d] f(3) g(3) by (simp add: f(4) g(4) mult.assoc algebra_simps)
  moreover have "- 200 \<le> ?k" "?k \<le> 0" using f(2,3) g(2,3) by auto
  then obtain h where "round_dyadic ((x + y) * 2 ^ nat (- ?k), ?k) = Fin h" "dy_int h (x + y)"
    using round_dyadic_int [OF _ _ refl assms(3), of ?k] by blast
  ultimately show ?thesis using f(1) g(1) by (simp add: Let_def)
qed

lemma dbl_mul_int:
  assumes "dy_int f x" "dy_int g y" "\<bar>x * y\<bar> < 2 ^ 53"
  shows "\<exists>h. dbl_mul (Fin f) (Fin g) = Fin h \<and> dy_int h (x * y)"
proof -
  obtain m e where f: "f = (m, e)" "- 60 \<le> e" "e \<le> 0" "m = x * 2 ^ nat (- e)" using assms(1) by (rule dy_intE)
  obtain n d where g: "g = (n, d)" "- 60 \<le> d" "d \<le> 0" "n = y * 2 ^ nat (- d)" using assms(2) by (rule dy_intE)
  have "nat (- (e + d)) = nat (- e) + nat (- d)" using f(3) g(3) by simp
  then have "m * n = (x * y) * 2 ^ nat (- (e + d))"
    by (simp only: f(4) g(4) power_add) (simp only: ac_simps)
  moreover obtain h where "round_dyadic ((x * y) * 2 ^ nat (- (e + d)), e + d) = Fin h" "dy_int h (x * y)"
    using round_dyadic_int [of "e + d" "(x * y) * 2 ^ nat (- (e + d))" "x * y"] f(2,3) g(2,3) assms(3) by auto
  ultimately show ?thesis using f(1) g(1) by simp
qed

lemma dbl_neg_int: "dy_int f x \<Longrightarrow> \<exists>g. dbl_neg (Fin f) = Fin g \<and> dy_int g (- x)"
  by (cases f) (auto simp: dy_int_def)

lemma num_float_is:
  assumes "num_is a x" "\<bar>x\<bar> < 2 ^ 53"
  obtains f where "num_float a = Inr (Fin f)" "dy_int f x"
proof (cases a)
  case (PyI i)
  then obtain f where "int_truediv x 1 = Inr f" "dy_int f x" using int_truediv_exact [OF assms(2), of 1] by auto
  then show ?thesis using that [of f] PyI assms(1) by simp
next
  case (PyF d)
  then show ?thesis using that assms(1) by (cases d) auto
qed

lemma num_op_is:
  assumes "num_is a x" "num_is b y" "\<bar>x\<bar> < 2 ^ 53" "\<bar>y\<bar> < 2 ^ 53"
    and "\<And>f g. dy_int f x \<Longrightarrow> dy_int g y \<Longrightarrow> \<exists>h. fop (Fin f) (Fin g) = Fin h \<and> dy_int h (iop x y)"
  shows "\<exists>c. num_op iop fop a b = Inr c \<and> num_is c (iop x y)"
proof (cases "\<exists>i j. a = PyI i \<and> b = PyI j")
  case True
  then show ?thesis using assms(1,2) by (auto simp: num_op_def)
next
  case False
  obtain f where f: "num_float a = Inr (Fin f)" "dy_int f x" using num_float_is [OF assms(1,3)] .
  obtain g where g: "num_float b = Inr (Fin g)" "dy_int g y" using num_float_is [OF assms(2,4)] .
  obtain h where "fop (Fin f) (Fin g) = Fin h" "dy_int h (iop x y)" using assms(5) [OF f(2) g(2)] by blast
  moreover have "num_op iop fop a b = ebind (num_float a) (\<lambda>x. ebind (num_float b) (\<lambda>y. Inr (PyF (fop x y))))"
    using False by (cases a; cases b) (auto simp: num_op_def)
  ultimately show ?thesis using f g by simp
qed

lemma num_add_is:
  assumes "num_is a x" "num_is b y" "\<bar>x\<bar> < 2 ^ 53" "\<bar>y\<bar> < 2 ^ 53" "\<bar>x + y\<bar> < 2 ^ 53"
  shows "\<exists>c. num_add a b = Inr c \<and> num_is c (x + y)"
  unfolding num_add_def by (rule num_op_is [OF assms(1-4)]) (rule dbl_add_int [OF _ _ assms(5)])

lemma num_sub_is:
  assumes "num_is a x" "num_is b y" "\<bar>x\<bar> < 2 ^ 53" "\<bar>y\<bar> < 2 ^ 53" "\<bar>x - y\<bar> < 2 ^ 53"
  shows "\<exists>c. num_sub a b = Inr c \<and> num_is c (x - y)"
  unfolding num_sub_def
proof (rule num_op_is [OF assms(1-4)])
  fix f g assume f: "dy_int f x" "dy_int g y"
  obtain g' where "dbl_neg (Fin g) = Fin g'" "dy_int g' (- y)" using dbl_neg_int [OF f(2)] by blast
  then show "\<exists>h. dbl_add (Fin f) (dbl_neg (Fin g)) = Fin h \<and> dy_int h (x - y)"
    using dbl_add_int [OF f(1), of g' "- y"] assms(5) by simp
qed

lemma num_mul_is:
  assumes "num_is a x" "num_is b y" "\<bar>x\<bar> < 2 ^ 53" "\<bar>y\<bar> < 2 ^ 53" "\<bar>x * y\<bar> < 2 ^ 53"
  shows "\<exists>c. num_mul a b = Inr c \<and> num_is c (x * y)"
  unfolding num_mul_def by (rule num_op_is [OF assms(1-4)]) (rule dbl_mul_int [OF _ _ assms(5)])

lemma num_div_is:
  assumes "\<bar>n\<bar> < 2 ^ 53" "0 < d" "d < 2 ^ 1000"
  shows "\<exists>c. num_div (n * d) d = Inr c \<and> num_is c n"
  using int_truediv_exact [OF assms] by (auto simp: num_div_def)

lemma num_int_is:
  assumes "num_is a x"
  shows "num_int a = Inr x"
proof (cases a)
  case (PyF d)
  then obtain f where "d = Fin f" "dy_int f x" using assms by (cases d) auto
  moreover have "float_trunc f = x" if "dy_int f x" for f
    using that by (cases f) (auto simp: dy_int_def float_trunc_def float_floor_def abs_mult sgn_mult mult_sgn_abs split: if_splits)
  ultimately show ?thesis using PyF by simp
qed (use assms in simp)

text \<open>Eight bytes keep a whole number below \<open>2 ^ 53\<close>.\<close>

lemma unpack_bits:
  assumes "0 \<le> p" "p < 1023" "0 \<le> fr" "fr < 2 ^ 52"
  shows "unpack_double (int_bytes 8 (double_bits neg (p + 1023) fr)) = Inr (Fin ((if neg then - 1 else 1) * (2 ^ 52 + fr), p - 52))"
proof -
  let ?v = "double_bits neg (p + 1023) fr"
  have low: "0 \<le> (p + 1023) * 2 ^ 52 + fr" "(p + 1023) * 2 ^ 52 + fr < 2 ^ 63" using assms by simp_all
  then have range: "0 \<le> ?v" "?v < 2 ^ 64" by (auto simp: double_bits_def)
  then have v: "from_bytes_u (int_bytes 8 ?v) = ?v" by (simp add: from_bytes_u_int_bytes)
  have "?v div 2 ^ 52 = (if neg then 2048 else 0) + (p + 1023)" "?v mod 2 ^ 52 = fr"
    using assms(3,4) by (auto simp: double_bits_def div_add1_eq mod_add_eq [symmetric])
  moreover have "2 ^ 63 \<le> ?v \<longleftrightarrow> neg" using low by (auto simp: double_bits_def)
  moreover have "((if neg then 2048 else 0) + (p + 1023)) mod 2048 = p + 1023"
    using assms(1,2) mod_add_self1 [of 2048 "p + 1023"] by (cases neg) simp_all
  ultimately show ?thesis using assms(1,2) v by (simp add: unpack_double_def Let_def)
qed

lemma unpack_pack_whole:
  assumes "dy_int f n" "\<bar>n\<bar> < 2 ^ 53"
  shows "\<exists>g. unpack_double (pack_double (Fin f)) = Inr (Fin g) \<and> dy_int g n"
proof (cases "n = 0")
  case True
  then show ?thesis using assms(1)
    by (auto simp: dy_int_def unpack_double_def Let_def from_bytes_u_int_bytes split: prod.splits)
next
  case False
  obtain m e where f: "f = (m, e)" "- 60 \<le> e" "e \<le> 0" "m = n * 2 ^ nat (- e)" using assms(1) by (rule dy_intE)
  define k where "k = nat (- e)"
  define b where "b = bit_length m"
  have m: "\<bar>m\<bar> = \<bar>n\<bar> * 2 ^ k" using f(4) by (simp add: k_def abs_mult)
  have "0 < \<bar>m\<bar>" using False m by simp
  moreover have "bit_length \<bar>m\<bar> = b" by (simp add: b_def bit_length_def)
  ultimately have b: "2 ^ (b - 1) \<le> \<bar>m\<bar>" "\<bar>m\<bar> < 2 ^ b" "0 < b" using bit_length_bounds by blast+
  have "1 \<le> \<bar>n\<bar>" using False by simp
  then have "1 * 2 ^ k \<le> \<bar>n\<bar> * 2 ^ k" by (rule mult_right_mono) simp
  then have "(2 :: int) ^ k < 2 ^ b" using le_less_trans [OF _ b(2), of "2 ^ k"] by (simp only: m mult_1)
  then have "k < b" by (rule power_less_imp_less_exp [rotated]) simp
  then obtain p where p: "b = Suc (p + k)" by (metis add.commute less_iff_Suc_add)
  have n: "2 ^ p \<le> \<bar>n\<bar>" "\<bar>n\<bar> < 2 ^ Suc p"
    using b(1,2) by (simp_all add: m p power_add)
  then have "(2 :: int) ^ p < 2 ^ 53" using assms(2) by linarith
  then have "p < 53" by (rule power_less_imp_less_exp [rotated]) simp
  then obtain r where r: "52 = p + r" using le_Suc_ex [of p 52] by auto
  have "\<bar>m\<bar> * 2 ^ 52 = (\<bar>n\<bar> * 2 ^ r) * 2 ^ (b - 1)" by (simp only: m r) (simp add: p power_add)
  then have frac: "\<bar>m\<bar> * 2 ^ 52 div 2 ^ (b - 1) = \<bar>n\<bar> * 2 ^ r" by simp
  have whole: "(2 :: int) ^ 52 = 2 ^ p * 2 ^ r" by (simp only: r power_add)
  have "2 ^ p * 2 ^ r \<le> \<bar>n\<bar> * 2 ^ r" "\<bar>n\<bar> * 2 ^ r < 2 ^ Suc p * 2 ^ r"
    using n by (simp_all only: mult_right_mono mult_strict_right_mono zero_less_power zero_le_power zero_less_numeral zero_le_numeral)
  then have range: "0 \<le> \<bar>n\<bar> * 2 ^ r - 2 ^ 52" "\<bar>n\<bar> * 2 ^ r - 2 ^ 52 < 2 ^ 52"
    unfolding power_Suc mult.assoc whole [symmetric] by linarith+
  have top: "e + int b - 1 = int p" using f(3) p by (simp add: k_def)
  have sign: "m \<noteq> 0" "m < 0 \<longleftrightarrow> n < 0" using False by (simp_all add: f(4) mult_less_0_iff)
  have "pack_double (Fin f) = int_bytes 8 (double_bits (n < 0) (int p + 1023) (\<bar>n\<bar> * 2 ^ r - 2 ^ 52))"
    unfolding f(1) pack_double.simps b_def [symmetric] Let_def top frac using sign by simp
  moreover have "int p < 1023" using \<open>p < 53\<close> by simp
  ultimately have "unpack_double (pack_double (Fin f)) =
      Inr (Fin ((if n < 0 then - 1 else 1) * (\<bar>n\<bar> * 2 ^ r), int p - 52))"
    using unpack_bits [OF _ _ range, of "int p" "n < 0"] by simp
  moreover have "nat (- (int p - 52)) = r" "int p - 52 \<le> 0" using r by simp_all
  ultimately show ?thesis by (auto simp: dy_int_def)
qed

end
