(* ===== verification/Claim_Bonus.thy ===== *)
theory Claim_Bonus
  imports Py_Double Transactions
begin

text \<open>
  What a claim is worth: \<open>CalculateBonusInternal\<close>, \<open>CalculateBonus\<close> and \<open>CalculateBonusIgnoreClaimed\<close> of
  \<open>neo/Core/Blockchain.py\<close>. Every block generates an amount of gas that falls from interval to interval, and
  a coin is due its share of what the blocks generated, and of the system fees they collected, between
  the heights at which it came to be and was spent.

  The system fees by height, the transactions and the claimable coins by hash are parameters here; the
  chain's own are in \<open>Chain_State\<close>.
\<close>

section \<open>The gas of a range of heights\<close>

definition DECREMENT_INTERVAL :: int where "DECREMENT_INTERVAL = 2000000"

definition GENERATION_AMOUNT :: "int list" where
  "GENERATION_AMOUNT = [8, 7, 6, 5, 4, 3, 2, 1, 1, 1, 1, 1, 1, 1, 1, 1, 1, 1, 1, 1, 1, 1]"

text \<open>The loop \<open>while ustart < uend\<close>, by the number of its turns; a missing amount is an IndexError.\<close>

fun bonus_loop :: "nat \<Rightarrow> int \<Rightarrow> int \<Rightarrow> int \<Rightarrow> pyexc + int \<times> int \<times> int" where
  "bonus_loop 0 ustart istart amount = Inr (ustart, istart, amount)"
| "bonus_loop (Suc n) ustart istart amount =
     ebind (py_nth ustart GENERATION_AMOUNT) (\<lambda>g.
       bonus_loop n (ustart + 1) 0 (amount + (DECREMENT_INTERVAL - istart) * g))"

text \<open>\<open>int(height / decInterval)\<close>: a true division, then truncated.\<close>

definition interval_of :: "int \<Rightarrow> pyexc + int" where
  "interval_of height = ebind (int_truediv height DECREMENT_INTERVAL) (\<lambda>f. Inr (float_trunc f))"

definition generated_amount :: "int \<Rightarrow> int \<Rightarrow> pyexc + int" where
  "generated_amount start stop =
     (let genLen = int (length GENERATION_AMOUNT) in
      ebind (interval_of start) (\<lambda>ustart.
        if ustart < genLen then
          let istart = start mod DECREMENT_INTERVAL in
          ebind (interval_of stop) (\<lambda>uend.
            let iend = (if genLen \<le> uend then 0 else stop mod DECREMENT_INTERVAL);
                (uend, iend) = (if iend = 0 then (uend - 1, DECREMENT_INTERVAL) else (uend, iend))
            in ebind (bonus_loop (nat (uend - ustart)) ustart istart 0) (\<lambda>(ustart, istart, amount).
               ebind (py_nth ustart GENERATION_AMOUNT) (\<lambda>g. Inr (amount + (iend - istart) * g))))
        else Inr 0))"

section \<open>The bonus\<close>

record spent_coin =
  spc_Output :: tx_output
  spc_StartHeight :: int
  spc_EndHeight :: int

definition same_heights :: "spent_coin \<Rightarrow> spent_coin \<Rightarrow> bool" where
  "same_heights a b \<longleftrightarrow> spc_StartHeight a = spc_StartHeight b \<and> spc_EndHeight a = spc_EndHeight b"

text \<open>The coins of one pair of heights; \<open>fee\<close> is \<open>GetSysFeeAmountByHeight\<close>.\<close>

definition group_bonus :: "(int \<Rightarrow> pyexc + pynum) \<Rightarrow> int \<Rightarrow> int \<Rightarrow> spent_coin list \<Rightarrow> pyexc + fixed8" where
  "group_bonus fee start stop coins =
     ebind (generated_amount start stop) (\<lambda>amount.
     ebind (fee (stop - 1)) (\<lambda>endamount.
     ebind (if start = 0 then Inr (PyI 0) else fee (start - 1)) (\<lambda>startamount.
     ebind (num_sub endamount startamount) (\<lambda>fees.
     ebind (num_add (PyI amount) fees) (\<lambda>amount.
       let outputSum = sum_list (map (\<lambda>c. fx_value (Value (spc_Output c))) coins) in
       ebind (num_div outputSum 100000000) (\<lambda>outputSum.
       ebind (num_mul outputSum amount) (\<lambda>bonus.
       ebind (num_int bonus) (\<lambda>b. Inr (Fixed8 b)))))))))"

fun sum_bonuses :: "(int \<Rightarrow> pyexc + pynum) \<Rightarrow> fixed8 \<Rightarrow> (spent_coin \<times> spent_coin list) list \<Rightarrow> pyexc + fixed8" where
  "sum_bonuses fee claimed [] = Inr claimed"
| "sum_bonuses fee claimed ((c, coins) # gs) =
     ebind (group_bonus fee (spc_StartHeight c) (spc_EndHeight c) coins) (\<lambda>b. sum_bonuses fee (fx_add claimed b) gs)"

definition CalculateBonusInternal :: "(int \<Rightarrow> pyexc + pynum) \<Rightarrow> spent_coin list \<Rightarrow> pyexc + fixed8" where
  "CalculateBonusInternal fee unclaimed = sum_bonuses fee fx_Zero (group_by same_heights unclaimed)"

section \<open>The coins that are claimed\<close>

text \<open>\<open>claimable\<close> is the dictionary of \<open>GetUnclaimed\<close>, from indices to coins.\<close>

fun claimed_coins :: "bool \<Rightarrow> (int \<times> spent_coin) list \<Rightarrow> coin_reference list \<Rightarrow> pyexc + spent_coin list" where
  "claimed_coins ignore claimable [] = Inr []"
| "claimed_coins ignore claimable (r # rs) =
     (case map_of claimable (PrevIndex r) of
        Some c \<Rightarrow> ebind (claimed_coins ignore claimable rs) (\<lambda>cs. Inr (c # cs))
      | None \<Rightarrow> if ignore then claimed_coins ignore claimable rs else Inl PlainException)"

fun claimed_groups ::
  "(uint \<Rightarrow> pyexc + (int \<times> spent_coin) list option) \<Rightarrow> bool \<Rightarrow> (coin_reference \<times> coin_reference list) list \<Rightarrow> pyexc + spent_coin list" where
  "claimed_groups get_unclaimed ignore [] = Inr []"
| "claimed_groups get_unclaimed ignore ((r, rs) # gs) =
     ebind (get_unclaimed (PrevHash r)) (\<lambda>claimable.
       if claimable = None \<or> claimable = Some [] then
         (if ignore then claimed_groups get_unclaimed ignore gs else Inl PlainException)
       else
         ebind (claimed_coins ignore (the claimable) rs) (\<lambda>cs.
         ebind (claimed_groups get_unclaimed ignore gs) (\<lambda>ds. Inr (cs @ ds))))"

definition refs_by_hash :: "coin_reference list \<Rightarrow> (coin_reference \<times> coin_reference list) list" where
  "refs_by_hash refs = group_by (\<lambda>r q. uint_eq (PrevHash r) (PrevHash q)) refs"

definition CalculateBonusIgnoreClaimed ::
  "(int \<Rightarrow> pyexc + pynum) \<Rightarrow> (uint \<Rightarrow> pyexc + (int \<times> spent_coin) list option) \<Rightarrow> coin_reference list \<Rightarrow> bool \<Rightarrow> pyexc + fixed8" where
  "CalculateBonusIgnoreClaimed fee get_unclaimed refs ignore_claimed =
     ebind (claimed_groups get_unclaimed ignore_claimed (refs_by_hash refs)) (CalculateBonusInternal fee)"

fun unspent_coins :: "uint \<Rightarrow> tx \<Rightarrow> int \<Rightarrow> int \<Rightarrow> coin_reference list \<Rightarrow> pyexc + spent_coin list" where
  "unspent_coins share t start stop [] = Inr []"
| "unspent_coins share t start stop (r # rs) =
     (if int (length (tx_outputs t)) \<le> PrevIndex r then Inl PlainException
      else ebind (py_nth (PrevIndex r) (tx_outputs t)) (\<lambda>out.
        if \<not> uint_eq (AssetId out) share then Inl PlainException
        else ebind (unspent_coins share t start stop rs) (\<lambda>cs.
          Inr (\<lparr>spc_Output = out, spc_StartHeight = start, spc_EndHeight = stop\<rparr> # cs))))"

fun unspent_groups ::
  "(uint \<Rightarrow> pyexc + tx option \<times> int) \<Rightarrow> uint \<Rightarrow> int \<Rightarrow> (coin_reference \<times> coin_reference list) list \<Rightarrow> pyexc + spent_coin list" where
  "unspent_groups get_tx share height_end [] = Inr []"
| "unspent_groups get_tx share height_end ((r, rs) # gs) =
     ebind (get_tx (PrevHash r)) (\<lambda>(t, height_start).
       case t of
         None \<Rightarrow> Inl PlainException
       | Some t \<Rightarrow>
           if height_start = height_end then unspent_groups get_tx share height_end gs
           else ebind (unspent_coins share t height_start height_end rs) (\<lambda>cs.
             ebind (unspent_groups get_tx share height_end gs) (\<lambda>ds. Inr (cs @ ds))))"

definition CalculateBonus ::
  "(int \<Rightarrow> pyexc + pynum) \<Rightarrow> (uint \<Rightarrow> pyexc + tx option \<times> int) \<Rightarrow> uint \<Rightarrow> coin_reference list \<Rightarrow> int \<Rightarrow> pyexc + fixed8" where
  "CalculateBonus fee get_tx share refs height_end =
     ebind (unspent_groups get_tx share height_end (refs_by_hash refs)) (CalculateBonusInternal fee)"

lemmas bonus_defs = DECREMENT_INTERVAL_def GENERATION_AMOUNT_def interval_of_def generated_amount_def same_heights_def
  group_bonus_def CalculateBonusInternal_def refs_by_hash_def CalculateBonusIgnoreClaimed_def CalculateBonus_def

declare bonus_defs [model_defs]

section \<open>What the blocks generate\<close>

text \<open>Block by block: the amount of its interval, and nothing after the last one.\<close>

definition generates :: "int \<Rightarrow> int" where
  "generates h = (if h < 22 * DECREMENT_INTERVAL then GENERATION_AMOUNT ! nat (h div DECREMENT_INTERVAL) else 0)"

lemma interval_of_div:
  assumes "0 \<le> h" "h < 2 ^ 53"
  shows "interval_of h = Inr (h div DECREMENT_INTERVAL)"
proof -
  have "\<bar>h\<bar> < 2 ^ 53" "\<bar>DECREMENT_INTERVAL\<bar> < 2 ^ 1000" "DECREMENT_INTERVAL \<noteq> 0"
    using assms by (simp_all add: DECREMENT_INTERVAL_def)
  then obtain f where "int_truediv h DECREMENT_INTERVAL = Inr f" "float_trunc f = truncated_quotient h DECREMENT_INTERVAL"
    using int_truediv_trunc by blast
  moreover have "truncated_quotient h DECREMENT_INTERVAL = h div DECREMENT_INTERVAL"
    using assms(1) by (cases "h = 0") (simp_all add: truncated_quotient_def DECREMENT_INTERVAL_def)
  ultimately show ?thesis by (simp add: interval_of_def)
qed

lemma sum_split: "a \<le> b \<Longrightarrow> b \<le> c \<Longrightarrow> sum f {a..<c :: int} = sum f {a..<b} + (sum f {b..<c} :: int)"
  by (subst ivl_disj_un_two(3) [of a b c, symmetric]) (auto intro!: sum.union_disjoint)

lemma sum_in_interval:
  assumes "0 \<le> u" "u < 22" "0 \<le> i" "i \<le> j" "j \<le> DECREMENT_INTERVAL"
  shows "sum generates {u * DECREMENT_INTERVAL + i..<u * DECREMENT_INTERVAL + j} = (j - i) * GENERATION_AMOUNT ! nat u"
proof -
  have "generates h = GENERATION_AMOUNT ! nat u" if "h \<in> {u * DECREMENT_INTERVAL + i..<u * DECREMENT_INTERVAL + j}" for h
  proof -
    have h: "u * DECREMENT_INTERVAL \<le> h" "h < u * DECREMENT_INTERVAL + DECREMENT_INTERVAL" using that assms(3,5) by auto
    then have "h div DECREMENT_INTERVAL = u" by (simp add: DECREMENT_INTERVAL_def)
    moreover have "h < 22 * DECREMENT_INTERVAL" using h(2) assms(2) by (simp add: DECREMENT_INTERVAL_def)
    ultimately show ?thesis by (simp add: generates_def)
  qed
  then have "sum generates {u * DECREMENT_INTERVAL + i..<u * DECREMENT_INTERVAL + j} =
      sum (\<lambda>h. GENERATION_AMOUNT ! nat u) {u * DECREMENT_INTERVAL + i..<u * DECREMENT_INTERVAL + j}"
    by (rule sum.cong [OF refl])
  then show ?thesis using assms(4) by simp
qed

lemma py_nth_amount: "0 \<le> u \<Longrightarrow> u < 22 \<Longrightarrow> py_nth u GENERATION_AMOUNT = Inr (GENERATION_AMOUNT ! nat u)"
  by (simp add: py_nth_def py_index_def GENERATION_AMOUNT_def)

lemma bonus_loop_sum:
  assumes "0 \<le> u" "u + int n \<le> 22" "0 \<le> i" "i \<le> DECREMENT_INTERVAL"
  shows "bonus_loop n u i a =
    Inr (u + int n, if n = 0 then i else 0, a + sum generates {u * DECREMENT_INTERVAL + i..<(u + int n) * DECREMENT_INTERVAL + (if n = 0 then i else 0)})"
  using assms
proof (induction n arbitrary: u i a)
  case (Suc n)
  let ?d = DECREMENT_INTERVAL
  have d: "0 \<le> ?d" by (simp add: DECREMENT_INTERVAL_def)
  have "u * ?d + i \<le> (u + 1) * ?d" "(u + 1) * ?d \<le> (u + 1 + int n) * ?d"
    using Suc.prems d by (simp_all add: algebra_simps)
  then have "sum generates {u * ?d + i..<(u + int (Suc n)) * ?d} =
      sum generates {u * ?d + i..<u * ?d + ?d} + sum generates {(u + 1) * ?d..<(u + 1 + int n) * ?d}"
    using sum_split [of "u * ?d + i" "(u + 1) * ?d" "(u + 1 + int n) * ?d" generates]
    by (simp add: algebra_simps)
  also have "sum generates {u * ?d + i..<u * ?d + ?d} = (?d - i) * GENERATION_AMOUNT ! nat u"
    by (rule sum_in_interval) (use Suc.prems in auto)
  finally show ?case
    using Suc.IH [of "u + 1" 0 "a + (?d - i) * GENERATION_AMOUNT ! nat u"] Suc.prems d py_nth_amount [of u]
    by (simp add: algebra_simps)
qed simp

lemma generates_none: "22 * DECREMENT_INTERVAL \<le> a \<Longrightarrow> sum generates {a..<b} = 0"
  by (intro sum.neutral) (auto simp: generates_def)

text \<open>The end of the range, as an interval and a part of it that is not empty.\<close>

lemma last_interval:
  assumes "0 < stop" "stop < 23 * DECREMENT_INTERVAL"
  obtains u i where "0 \<le> u" "u < 22" "0 < i" "i \<le> DECREMENT_INTERVAL"
    "u * DECREMENT_INTERVAL + i = min stop (22 * DECREMENT_INTERVAL)"
    "(let iend = (if int (length GENERATION_AMOUNT) \<le> stop div DECREMENT_INTERVAL then 0 else stop mod DECREMENT_INTERVAL)
      in if iend = 0 then (stop div DECREMENT_INTERVAL - 1, DECREMENT_INTERVAL) else (stop div DECREMENT_INTERVAL, iend)) = (u, i)"
proof -
  let ?d = DECREMENT_INTERVAL and ?u = "stop div DECREMENT_INTERVAL" and ?i = "stop mod DECREMENT_INTERVAL"
  have d: "0 < ?d" by (simp add: DECREMENT_INTERVAL_def)
  have len: "int (length GENERATION_AMOUNT) = 22" by (simp add: GENERATION_AMOUNT_def)
  have dm: "?u * ?d + ?i = stop" by simp
  have i: "0 \<le> ?i" "?i < ?d" using d by simp_all
  have u: "0 \<le> ?u" "?u < 23" using assms by (simp_all add: DECREMENT_INTERVAL_def)
  show ?thesis
  proof (cases "22 \<le> ?u")
    case True
    then have "?u = 22" using u by simp
    moreover have "min stop (22 * ?d) = 22 * ?d" using dm i \<open>?u = 22\<close> by simp
    ultimately show ?thesis using that [of 21 ?d] d len by simp
  next
    case False
    show ?thesis
    proof (cases "?i = 0")
      case True
      have "?u \<noteq> 0" using True dm assms(1) by auto
      then have "1 \<le> ?u" using u by simp
      moreover have "stop \<le> 22 * ?d"
      proof -
        have "?u * ?d \<le> 22 * ?d" using False d by (intro mult_right_mono) simp_all
        then show ?thesis using dm True by simp
      qed
      moreover have "(?u - 1) * ?d + ?d = stop" using dm True by (simp add: algebra_simps)
      ultimately show ?thesis using that [of "?u - 1" ?d] d False True len by simp
    next
      case i0: False
      have "?u * ?d + ?i \<le> 21 * ?d + ?d"
        using False d i by (intro add_mono mult_right_mono) simp_all
      then have "min stop (22 * ?d) = stop" using dm by simp
      then show ?thesis using that [of ?u ?i] u i i0 False dm len by simp
    qed
  qed
qed

lemma generated_amount_eq:
  assumes "0 \<le> start" "start < stop" "stop < 23 * DECREMENT_INTERVAL"
  shows "generated_amount start stop = Inr (sum generates {start..<stop})"
proof (cases "22 * DECREMENT_INTERVAL \<le> start")
  case True
  then have "22 \<le> start div DECREMENT_INTERVAL" by (simp add: DECREMENT_INTERVAL_def)
  moreover have "start < 2 ^ 53" using assms by (simp add: DECREMENT_INTERVAL_def)
  ultimately show ?thesis
    using assms True interval_of_div [of start] generates_none [of start stop]
    by (simp add: generated_amount_def GENERATION_AMOUNT_def)
next
  case False
  let ?d = DECREMENT_INTERVAL and ?u = "start div DECREMENT_INTERVAL" and ?i = "start mod DECREMENT_INTERVAL"
  have d: "0 < ?d" by (simp add: DECREMENT_INTERVAL_def)
  obtain v j where v: "0 \<le> v" "v < 22" "0 < j" "j \<le> ?d" "v * ?d + j = min stop (22 * ?d)"
    and eq: "(let iend = (if int (length GENERATION_AMOUNT) \<le> stop div ?d then 0 else stop mod ?d)
      in if iend = 0 then (stop div ?d - 1, ?d) else (stop div ?d, iend)) = (v, j)"
    using last_interval [OF _ assms(3)] assms(1,2) by auto
  have start: "?u * ?d + ?i = start" "0 \<le> ?i" "?i < ?d" "0 \<le> ?u" "?u < 22"
    using assms(1) False d by (simp_all add: DECREMENT_INTERVAL_def)
  have below: "start < v * ?d + j" using v(5) assms(2) False by simp
  have "?u * ?d \<le> start" using start(1,2) by linarith
  moreover have "(v + 1) * ?d = v * ?d + ?d" by (simp add: algebra_simps)
  ultimately have "?u * ?d < (v + 1) * ?d" using below v(4) by linarith
  then have uv: "?u \<le> v" using d by (simp add: mult_less_cancel_right)
  let ?n = "nat (v - ?u)"
  define k where "k = (if nat (v - ?u) = 0 then ?i else 0)"
  have n: "?u + int ?n = v" using uv by simp
  have k_ok: "0 \<le> k" "k \<le> j"
  proof -
    have "?i \<le> j" if "?u = v" using below start(1) that by simp
    then show "0 \<le> k" "k \<le> j" using start(2) v(3) uv by (auto simp: k_def)
  qed
  have loop: "bonus_loop ?n ?u ?i 0 = Inr (v, k, sum generates {start..<v * ?d + k})"
    using bonus_loop_sum [of ?u ?n ?i 0] start v(2) uv n by (simp only: add_0 order.strict_implies_order k_def)
  have le: "start \<le> v * ?d + k"
  proof (cases "?u = v")
    case True
    then show ?thesis using start(1) by (simp add: k_def)
  next
    case False
    then have "(?u + 1) * ?d \<le> v * ?d" using uv d by (intro mult_right_mono) simp_all
    moreover have "(?u + 1) * ?d = ?u * ?d + ?d" by (simp add: algebra_simps)
    ultimately have "start \<le> v * ?d" using start(1,3) by linarith
    then show ?thesis using k_ok(1) by linarith
  qed
  have "sum generates {start..<v * ?d + k} + (j - k) * GENERATION_AMOUNT ! nat v = sum generates {start..<v * ?d + j}"
    using sum_in_interval [OF v(1,2) k_ok v(4)] sum_split [OF le, of "v * ?d + j" generates] k_ok(2) by linarith
  also have "\<dots> = sum generates {start..<stop}"
  proof (cases "stop \<le> 22 * ?d")
    case True
    then show ?thesis using v(5) by simp
  next
    case False
    then have "v * ?d + j = 22 * ?d" using v(5) by simp
    then show ?thesis
      using sum_split [of start "22 * ?d" stop generates] generates_none [of "22 * ?d" stop] False below by simp
  qed
  finally have circulating: "sum generates {start..<v * ?d + k} + (j - k) * GENERATION_AMOUNT ! nat v = sum generates {start..<stop}" .
  have "interval_of start = Inr ?u" "interval_of stop = Inr (stop div ?d)"
    using interval_of_div assms by (simp_all add: DECREMENT_INTERVAL_def)
  moreover have "?u < int (length GENERATION_AMOUNT)" using start(5) by (simp add: GENERATION_AMOUNT_def)
  ultimately show ?thesis
    using eq loop circulating py_nth_amount [OF v(1,2)]
    by (simp add: generated_amount_def Let_def split del: if_split cong: if_cong)
qed

section \<open>What a claim is worth\<close>

text \<open>
  One whole coin is due what is generated between its heights and the system fees of the blocks in
  between, when \<open>fees h\<close> is the total up to and with block \<open>h\<close>.
\<close>

definition rate :: "(int \<Rightarrow> int) \<Rightarrow> int \<Rightarrow> int \<Rightarrow> int" where
  "rate fees start stop =
     sum generates {start..<stop} + (fees (stop - 1) - (if start = 0 then 0 else fees (start - 1)))"

definition whole_coins :: "spent_coin \<Rightarrow> int" where
  "whole_coins c = fx_value (Value (spc_Output c)) div 100000000"

definition coin_due :: "(int \<Rightarrow> int) \<Rightarrow> spent_coin \<Rightarrow> int" where
  "coin_due fees c = whole_coins c * rate fees (spc_StartHeight c) (spc_EndHeight c)"

text \<open>Coins in whole numbers, heights in order, and products that a float holds exactly.\<close>

definition claimable_coin :: "(int \<Rightarrow> int) \<Rightarrow> int \<Rightarrow> spent_coin \<Rightarrow> bool" where
  "claimable_coin fees circulating c \<longleftrightarrow>
     100000000 dvd fx_value (Value (spc_Output c)) \<and> 0 \<le> fx_value (Value (spc_Output c)) \<and>
     0 \<le> spc_StartHeight c \<and> spc_StartHeight c < spc_EndHeight c \<and> spc_EndHeight c < 23 * DECREMENT_INTERVAL \<and>
     0 \<le> rate fees (spc_StartHeight c) (spc_EndHeight c) \<and>
     rate fees (spc_StartHeight c) (spc_EndHeight c) < 2 ^ 53 \<and>
     circulating * rate fees (spc_StartHeight c) (spc_EndHeight c) < 2 ^ 53"

definition fees_known :: "(int \<Rightarrow> pyexc + pynum) \<Rightarrow> (int \<Rightarrow> int) \<Rightarrow> bool" where
  "fees_known fee fees \<longleftrightarrow> (\<forall>h\<ge>0. 0 \<le> fees h \<and> fees h < 2 ^ 52 \<and> (\<exists>x. fee h = Inr x \<and> num_is x (fees h)))"

lemma float_range:
  fixes a b :: int
  assumes "0 \<le> a" "a < 2 ^ 52" "0 \<le> b" "b < 2 ^ 52"
  shows "\<bar>a\<bar> < 2 ^ 53 \<and> \<bar>b\<bar> < 2 ^ 53 \<and> \<bar>a - b\<bar> < 2 ^ 53"
  using assms by simp

lemma fees_knownE:
  assumes "fees_known fee fees" "0 \<le> h"
  obtains x where "fee h = Inr x" "num_is x (fees h)" "0 \<le> fees h" "fees h < 2 ^ 52"
  using assms unfolding fees_known_def by blast

lemma generates_range: "0 \<le> generates h \<and> generates h \<le> 8"
proof -
  have amounts: "0 \<le> GENERATION_AMOUNT ! i \<and> GENERATION_AMOUNT ! i \<le> 8" if "i < 22" for i
  proof -
    have "GENERATION_AMOUNT ! i \<in> set GENERATION_AMOUNT" using that by (intro nth_mem) (simp add: GENERATION_AMOUNT_def)
    then show ?thesis by (auto simp: GENERATION_AMOUNT_def)
  qed
  have "nat (h div DECREMENT_INTERVAL) < 22" if "h < 22 * DECREMENT_INTERVAL"
    using that by (simp add: DECREMENT_INTERVAL_def)
  then show ?thesis using amounts by (simp add: generates_def)
qed

lemma generated_range:
  assumes "a \<le> b"
  shows "0 \<le> sum generates {a..<b} \<and> sum generates {a..<b} \<le> 8 * (b - a)"
  using sum_bounded_above [of "{a..<b}" generates 8] sum_nonneg [of "{a..<b}" generates] generates_range assms
  by (simp add: mult.commute)

lemma group_bonus_due:
  assumes fees: "fees_known fee fees"
    and coins: "\<And>c. c \<in> set cs \<Longrightarrow> claimable_coin fees circulating c \<and> spc_StartHeight c = start \<and> spc_EndHeight c = stop"
    and "cs \<noteq> []" and circulating: "sum_list (map whole_coins cs) \<le> circulating" "circulating < 2 ^ 53"
  shows "group_bonus fee start stop cs = Inr (Fixed8 (sum_list (map (coin_due fees) cs)))"
proof -
  define r where "r = rate fees start stop"
  define w where "w = sum_list (map whole_coins cs)"
  obtain c where "c \<in> set cs" using \<open>cs \<noteq> []\<close> by (cases cs) auto
  then have c: "0 \<le> start" "start < stop" "stop < 23 * DECREMENT_INTERVAL" "0 \<le> r" "r < 2 ^ 53" "circulating * r < 2 ^ 53"
    using coins by (auto simp: claimable_coin_def r_def)
  have whole: "fx_value (Value (spc_Output c)) = whole_coins c * 100000000" "0 \<le> whole_coins c" if "c \<in> set cs" for c
    using coins [OF that] by (simp_all add: claimable_coin_def whole_coins_def pos_imp_zdiv_nonneg_iff)
  have outputs: "sum_list (map (\<lambda>c. fx_value (Value (spc_Output c))) cs) = w * 100000000"
    using whole(1) unfolding w_def by (induction cs) (auto simp: algebra_simps)
  have w: "0 \<le> w" unfolding w_def by (rule sum_list_nonneg) (use whole(2) in auto)
  have due: "sum_list (map (coin_due fees) cs) = w * r"
    using coins unfolding w_def r_def by (induction cs) (auto simp: coin_due_def algebra_simps)
  let ?gen = "sum generates {start..<stop}"
  let ?s = "fees (stop - 1)" and ?t = "if start = 0 then 0 else fees (start - 1)"
  obtain x where x: "fee (stop - 1) = Inr x" "num_is x ?s" "0 \<le> ?s" "?s < 2 ^ 52"
    using fees_knownE [OF fees, of "stop - 1"] c(1,2) by force
  obtain y where y: "(if start = 0 then Inr (PyI 0) else fee (start - 1)) = Inr y" "num_is y ?t" "0 \<le> ?t" "?t < 2 ^ 52"
  proof (cases "start = 0")
    case False
    then have "0 \<le> start - 1" using c(1) by simp
    then obtain y where "fee (start - 1) = Inr y" "num_is y (fees (start - 1))" "0 \<le> fees (start - 1)" "fees (start - 1) < 2 ^ 52"
      by (rule fees_knownE [OF fees])
    then show ?thesis using that [of y] False by simp
  qed (use that [of "PyI 0"] in simp)
  have bounds: "\<bar>?s\<bar> < 2 ^ 53" "\<bar>?t\<bar> < 2 ^ 53" "\<bar>?s - ?t\<bar> < 2 ^ 53" 
    using float_range [OF x(3,4) y(3,4)] by blast+
  obtain d where d: "num_sub x y = Inr d" "num_is d (?s - ?t)"
    using num_sub_is [OF x(2) y(2) bounds] by blast
  have "\<bar>?gen\<bar> < 2 ^ 53" using generated_range [of start stop] c(1-3) by (simp add: DECREMENT_INTERVAL_def)
  moreover have "?gen + (?s - ?t) = r" by (simp add: r_def rate_def)
  moreover have "\<bar>r\<bar> < 2 ^ 53" using c(4,5) by simp
  ultimately obtain a where a: "num_add (PyI ?gen) d = Inr a" "num_is a r"
    using num_add_is [of "PyI ?gen" ?gen d "?s - ?t"] d(2) bounds(3) by auto
  have "w < 2 ^ 53" using circulating by (simp add: w_def)
  then obtain q where q: "num_div (w * 100000000) 100000000 = Inr q" "num_is q w"
    using num_div_is [of w 100000000] w by auto
  have "w * r \<le> circulating * r" using circulating(1) c(4) by (intro mult_right_mono) (simp_all add: w_def)
  then have "\<bar>w * r\<bar> < 2 ^ 53" using w c(4,6) by (simp add: abs_mult)
  then obtain b where b: "num_mul q a = Inr b" "num_is b (w * r)"
    using num_mul_is [OF q(2) a(2)] w \<open>w < 2 ^ 53\<close> c(4,5) by auto
  show ?thesis
    using generated_amount_eq [OF c(1-3)] x(1) y(1) d(1) a(1) outputs q(1) b(1) num_int_is [OF b(2)] due
    by (simp add: group_bonus_def Let_def)
qed

lemma sum_bonuses_due:
  assumes "fees_known fee fees" "\<And>c. c \<in> set cs \<Longrightarrow> claimable_coin fees circulating c"
    "sum_list (map whole_coins cs) \<le> circulating" "circulating < 2 ^ 53"
  shows "sum_bonuses fee (Fixed8 n) (group_by same_heights cs) = Inr (Fixed8 (n + sum_list (map (coin_due fees) cs)))"
  using assms(2,3)
proof (induction cs arbitrary: n rule: measure_induct_rule [of length])
  case (less coins)
  show ?case
  proof (cases coins)
  case (Cons c cs)
  let ?same = "takeWhile (same_heights c) cs" and ?rest = "dropWhile (same_heights c) cs"
  have split: "sum_list (map f cs) = sum_list (map f ?same) + sum_list (map f ?rest)" for f :: "spent_coin \<Rightarrow> int"
    by (metis map_append sum_list_append takeWhile_dropWhile_id)
  have sub: "set ?same \<subseteq> set cs" "set ?rest \<subseteq> set cs"
    by (metis Un_iff set_append subsetI takeWhile_dropWhile_id)+
  have whole: "0 \<le> whole_coins d" if "d \<in> set (c # cs)" for d
    using less.prems(1) [of d] that Cons by (simp add: claimable_coin_def whole_coins_def pos_imp_zdiv_nonneg_iff)
  have part: "0 \<le> sum_list (map whole_coins ds)" if "set ds \<subseteq> set cs" for ds
    using that whole by (intro sum_list_nonneg) auto
  have "0 \<le> sum_list (map whole_coins ?rest)" "0 \<le> sum_list (map whole_coins ?same)" "0 \<le> whole_coins c"
    using part [OF sub(1)] part [OF sub(2)] whole [of c] by simp_all
  then have sums: "sum_list (map whole_coins (c # ?same)) \<le> circulating" "sum_list (map whole_coins ?rest) \<le> circulating"
    using less.prems(2) split [of whole_coins] Cons by simp_all
  have "group_bonus fee (spc_StartHeight c) (spc_EndHeight c) (c # ?same) = Inr (Fixed8 (sum_list (map (coin_due fees) (c # ?same))))"
    by (rule group_bonus_due [OF assms(1) _ _ sums(1) assms(4)])
       (use less.prems(1) Cons in \<open>auto simp: same_heights_def dest: set_takeWhileD\<close>)
  moreover have "sum_bonuses fee (Fixed8 m) (group_by same_heights ?rest) = Inr (Fixed8 (m + sum_list (map (coin_due fees) ?rest)))" for m
    by (rule less.IH) (use Cons sub(2) less.prems(1) sums(2) length_dropWhile_le [of "same_heights c" cs] in auto)
  ultimately show ?thesis
    using split [of "coin_due fees"] Cons by (simp add: fx_add_def algebra_simps)
  qed (use less.prems in simp)
qed

text \<open>C12. The bonus of whole coins is the sum of what each is due: for every block from the one it came with to
  the one before it was spent, the amount that the block's interval generates and the fees it collected.
  The code counts intervals, groups coins and calculates with floats; the reference adds up block by block.\<close>

theorem bonus_reference:
  assumes "fees_known fee fees" "\<And>c. c \<in> set coins \<Longrightarrow> claimable_coin fees circulating c"
    "sum_list (map whole_coins coins) \<le> circulating" "circulating < 2 ^ 53"
  shows "CalculateBonusInternal fee coins = Inr (Fixed8 (sum_list (map (coin_due fees) coins)))"
  using sum_bonuses_due [OF assms, of 0] by (simp add: CalculateBonusInternal_def fx_Zero_def)

definition sample_coin :: "int \<Rightarrow> int \<Rightarrow> spent_coin" where
  "sample_coin start stop =
     \<lparr>spc_Output = \<lparr>AssetId = \<lparr>Data = [], uint_hash = 0\<rparr>, Value = Fixed8 300000000, ScriptHash = \<lparr>Data = [], uint_hash = 0\<rparr>\<rparr>,
      spc_StartHeight = start, spc_EndHeight = stop\<rparr>"

lemma bonus_reference_witness:
  "CalculateBonusInternal (\<lambda>h. Inr (PyI 7)) [sample_coin 5 10, sample_coin 5 10, sample_coin 0 3] = Inr (Fixed8 333)"
proof -
  have known: "fees_known (\<lambda>h. Inr (PyI 7)) (\<lambda>h. 7)" by (simp add: fees_known_def)
  have rates: "rate (\<lambda>h. 7) 5 10 = 40" "rate (\<lambda>h. 7) 0 3 = 31"
    using sum_in_interval [of 0 5 10] sum_in_interval [of 0 0 3]
    by (simp_all add: rate_def DECREMENT_INTERVAL_def GENERATION_AMOUNT_def)
  let ?coins = "[sample_coin 5 10, sample_coin 5 10, sample_coin 0 3]"
  have coins: "claimable_coin (\<lambda>h. 7) 9 c" if "c \<in> set ?coins" for c
    using that rates by (auto simp: claimable_coin_def sample_coin_def DECREMENT_INTERVAL_def)
  have whole: "whole_coins (sample_coin a b) = 3" for a b by (simp add: whole_coins_def sample_coin_def)
  have "coin_due (\<lambda>h. 7) (sample_coin a b) = 3 * rate (\<lambda>h. 7) a b" for a b
    using whole by (simp add: coin_due_def) (simp add: sample_coin_def)
  then have "sum_list (map (coin_due (\<lambda>h. 7)) ?coins) = 333" using rates by simp
  then show ?thesis using bonus_reference [where coins = ?coins, OF known coins] whole by simp
qed

section \<open>Where it goes wrong\<close>

lemma bonus_loop_fails: "0 \<le> u \<Longrightarrow> 22 < u + int n \<Longrightarrow> u \<le> 22 \<Longrightarrow> bonus_loop n u i a = Inl IndexError"
proof (induction n arbitrary: u i a)
  case (Suc n)
  show ?case
  proof (cases "u = 22")
    case True
    then show ?thesis by (simp add: py_nth_def py_index_def GENERATION_AMOUNT_def)
  next
    case False
    then show ?thesis using Suc py_nth_amount [of u] by simp
  qed
qed simp

text \<open>C19. Two ranges at the ends of intervals go wrong. A coin that is spent in the very block it came with, at a
  height where an interval begins, is due what a whole interval generates. And a range that begins before the
  last interval's end and ends an interval or more after it is an IndexError, as the last amount that is
  looked up is not moved to the end of the table.\<close>

theorem bonus_range_errors:
  assumes "0 \<le> k" "k < 22" "0 \<le> start" "start < 22 * DECREMENT_INTERVAL" "23 * DECREMENT_INTERVAL \<le> stop" "stop < 2 ^ 53"
  shows "generated_amount (k * DECREMENT_INTERVAL) (k * DECREMENT_INTERVAL) = Inr (DECREMENT_INTERVAL * GENERATION_AMOUNT ! nat k) \<and>
    generated_amount start stop = Inl IndexError"
proof
  have len: "int (length GENERATION_AMOUNT) = 22" by (simp add: GENERATION_AMOUNT_def)
  have k: "interval_of (k * DECREMENT_INTERVAL) = Inr k" "k * DECREMENT_INTERVAL mod DECREMENT_INTERVAL = 0"
    using interval_of_div [of "k * DECREMENT_INTERVAL"] assms(1,2) by (simp_all add: DECREMENT_INTERVAL_def)
  show "generated_amount (k * DECREMENT_INTERVAL) (k * DECREMENT_INTERVAL) = Inr (DECREMENT_INTERVAL * GENERATION_AMOUNT ! nat k)"
    using k assms(1,2) py_nth_amount [OF assms(1,2)] by (simp add: generated_amount_def len Let_def)
  let ?u = "start div DECREMENT_INTERVAL" and ?v = "stop div DECREMENT_INTERVAL"
  have u: "0 \<le> ?u" "?u < 22" "23 \<le> ?v" using assms(3-5) by (simp_all add: DECREMENT_INTERVAL_def)
  have ivl: "interval_of start = Inr ?u" "interval_of stop = Inr ?v"
    using interval_of_div assms by (simp_all add: DECREMENT_INTERVAL_def)
  show "generated_amount start stop = Inl IndexError"
  proof (cases "?v = 23")
    case True
    have "bonus_loop (nat (22 - ?u)) ?u (start mod DECREMENT_INTERVAL) 0 = Inr (22, 0, sum generates {start..<22 * DECREMENT_INTERVAL})"
      using bonus_loop_sum [of ?u "nat (22 - ?u)" "start mod DECREMENT_INTERVAL" 0] u by (simp add: DECREMENT_INTERVAL_def)
    then show ?thesis
      using ivl u True by (simp add: generated_amount_def len Let_def py_nth_def py_index_def)
  next
    case False
    then have "bonus_loop (nat (?v - 1 - ?u)) ?u (start mod DECREMENT_INTERVAL) 0 = Inl IndexError"
      by (intro bonus_loop_fails) (use u in auto)
    then show ?thesis using ivl u by (simp add: generated_amount_def len Let_def)
  qed
qed

lemma bonus_range_errors_witness:
  "generated_amount 2000000 2000000 = Inr 14000000 \<and> generated_amount 43999999 46000000 = Inl IndexError"
  using bonus_range_errors [of 1 43999999 46000000] by (simp add: DECREMENT_INTERVAL_def GENERATION_AMOUNT_def)

end
