(* ===== verification/Chain_State.thy ===== *)
theory Chain_State
  imports Blocks Db_Interface Claim_Bonus
begin

text \<open>
  The blockchain object of \<open>neo/Core/Blockchain.py\<close>: the list of the headers' hashes, the height, the
  database behind them, how headers are accepted and stored, and the lookups of headers, blocks,
  transactions, fees and coins. \<open>Block_Persist\<close> has the persisting of blocks.

  Keys and values of the database are bytes; hashes are kept as hexadecimal text (\<open>ToBytes\<close>), as in the
  code. Logging is left out.
\<close>

section \<open>State\<close>

record blockchain =
  bc_db :: leveldb
  bc_header_index :: "bytes list"
  bc_stored_header_count :: int
  bc_current_block_height :: int
  bc_block_cache :: "(bytes \<times> block) list"
  bc_persisting_block :: "block option"
  bc_TXProcessed :: int

text \<open>
  What the methods use from elsewhere: hashing, whether blocks are verified (\<open>_verify_blocks\<close>, False unless someone
  sets it), the fees of transactions with the hash of the system share, and the base-58 address of a script hash.
\<close>

record chain_env =
  ce_primitives :: primitives
  ce_verify_blocks :: bool
  ce_fees :: fee_env
  ce_AddressBytes :: "uint \<Rightarrow> bytes"

definition on_db :: "(leveldb, 'a) m \<Rightarrow> ('z blockchain_scheme, 'a) m" where
  "on_db p s = (case p (bc_db s) of (r, d) \<Rightarrow> (r, s\<lparr>bc_db := d\<rparr>))"

definition on_bc_pool :: "(stream_manager, 'a) m \<Rightarrow> ('z blockchain_scheme, 'a) m" where
  "on_bc_pool p = on_db (on_streams p)"

section \<open>Heights and hashes\<close>

definition bc_CurrentBlockHash :: "'z blockchain_scheme \<Rightarrow> bytes option" where
  "bc_CurrentBlockHash s =
     (case py_nth (bc_current_block_height s) (bc_header_index s) of Inl e \<Rightarrow> None | Inr h \<Rightarrow> Some h)"

definition bc_CurrentHeaderHash :: "'z blockchain_scheme \<Rightarrow> pyexc + bytes" where
  "bc_CurrentHeaderHash s = py_nth (- 1) (bc_header_index s)"

definition bc_HeaderHeight :: "'z blockchain_scheme \<Rightarrow> int" where
  "bc_HeaderHeight s = int (length (bc_header_index s)) - 1"

definition bc_Height :: "'z blockchain_scheme \<Rightarrow> int" where
  "bc_Height s = bc_current_block_height s"

definition bc_ContainsBlock :: "int \<Rightarrow> 'z blockchain_scheme \<Rightarrow> bool" where
  "bc_ContainsBlock index s \<longleftrightarrow> index \<le> bc_current_block_height s"

definition bc_GetHeaderHash :: "int \<Rightarrow> ('z blockchain_scheme, bytes option) m" where
  "bc_GetHeaderHash height =
     bnd (gets bc_header_index) (\<lambda>hs.
       if height < int (length hs) \<and> height \<ge> 0 then bnd (lft (py_nth height hs)) (\<lambda>h. ret (Some h)) else ret None)"

text \<open>A negative height counts from the end of the list.\<close>

definition bc_GetBlockHash :: "int \<Rightarrow> ('z blockchain_scheme, bytes option) m" where
  "bc_GetBlockHash height =
     bnd (gets bc_current_block_height) (\<lambda>current.
     bnd (gets bc_header_index) (\<lambda>hs.
       if current < height then ret None
       else if int (length hs) \<le> height then ret None
       else bnd (lft (py_nth height hs)) (\<lambda>h. ret (Some h))))"

section \<open>Stored headers, blocks and transactions\<close>

text \<open>\<open>GetHeader\<close> of bytes, or of a hash by its bytes; whatever goes wrong is the value None.\<close>

definition bc_GetHeader :: "bytes \<Rightarrow> ('z blockchain_scheme, block_base option) m" where
  "bc_GetHeader hash =
     try_except
       (bnd (on_db (db_get (DATA_Block @ hash))) (\<lambda>out.
          case out of
            None \<Rightarrow> throw TypeError
          | Some out \<Rightarrow>
              (case unhexlify (drop 8 out) of
                 None \<Rightarrow> throw ValueError
               | Some outhex \<Rightarrow> bnd (on_bc_pool (header_FromTrimmedData outhex)) (\<lambda>h. ret (Some h)))))
       (\<lambda>e. ret None)"

definition bc_ContainsTransaction :: "uint \<Rightarrow> ('z blockchain_scheme, bool) m" where
  "bc_ContainsTransaction hash =
     bnd (on_db (db_get (DATA_Transaction @ uint_ToBytes hash))) (\<lambda>tx. ret (tx \<noteq> None))"

definition bc_GetTransaction :: "bytes \<Rightarrow> ('z blockchain_scheme, tx option \<times> int) m" where
  "bc_GetTransaction hash =
     bnd (on_db (db_get (DATA_Transaction @ hash))) (\<lambda>out.
       case out of
         None \<Rightarrow> ret (None, - 1)
       | Some out \<Rightarrow>
           (case unhexlify (drop 4 out) of
              None \<Rightarrow> throw ValueError
            | Some outhex \<Rightarrow>
                bnd (on_bc_pool (DeserializeFromBufer outhex)) (\<lambda>t. ret (Some t, from_bytes_u (take 4 out)))))"

text \<open>
  \<open>bc.GetTransaction(hash)[0]\<close> while a trimmed block is read. A transaction that cannot be read makes
  \<open>GetBlockByHash\<close> answer None, as one that is not there does; the streams it is read from go back to the pool.
\<close>

definition bc_lookup :: "'z blockchain_scheme \<Rightarrow> bytes \<Rightarrow> tx option" where
  "bc_lookup s hash = (case fst (bc_GetTransaction hash s) of Val (t, h) \<Rightarrow> t | _ \<Rightarrow> None)"

definition bc_GetBlockByHash :: "bytes \<Rightarrow> ('z blockchain_scheme, block option) m" where
  "bc_GetBlockByHash hash =
     try_except
       (bnd (on_db (db_get (DATA_Block @ hash))) (\<lambda>out.
          case out of
            None \<Rightarrow> throw TypeError
          | Some out \<Rightarrow>
              (case unhexlify (drop 8 out) of
                 None \<Rightarrow> throw ValueError
               | Some outhex \<Rightarrow>
                   bnd (gets bc_lookup) (\<lambda>lookup.
                   bnd (on_bc_pool (blk_FromTrimmedData lookup outhex)) (\<lambda>b. ret (Some b))))))
       (\<lambda>e. ret None)"

definition bc_GetBlockByHeight :: "int \<Rightarrow> ('z blockchain_scheme, block option) m" where
  "bc_GetBlockByHeight height =
     bnd (bc_GetBlockHash height) (\<lambda>hash. case hash of None \<Rightarrow> ret None | Some h \<Rightarrow> bc_GetBlockByHash h)"

definition bc_CurrentBlock :: "('z blockchain_scheme, block option) m" where
  "bc_CurrentBlock =
     bnd (gets bc_persisting_block) (\<lambda>b.
       case b of Some b \<Rightarrow> ret (Some b) | None \<Rightarrow> bnd (gets bc_Height) bc_GetBlockByHeight)"

text \<open>False when the height is beyond the headers (the outer None), else what \<open>GetHeader\<close> answers.\<close>

definition bc_GetHeaderByHeight :: "int \<Rightarrow> ('z blockchain_scheme, block_base option option) m" where
  "bc_GetHeaderByHeight height =
     bnd (gets bc_header_index) (\<lambda>hs.
       if int (length hs) \<le> height then ret None
       else bnd (lft (py_nth height hs)) (\<lambda>h. bnd (bc_GetHeader h) (\<lambda>header. ret (Some header))))"

definition bc_GetNextBlockHash :: "bytes \<Rightarrow> ('z blockchain_scheme, bytes option) m" where
  "bc_GetNextBlockHash hash =
     bnd (bc_GetHeader hash) (\<lambda>header.
       case header of
         None \<Rightarrow> ret None
       | Some h \<Rightarrow>
           bnd (gets bc_header_index) (\<lambda>hs.
             if bb_Index h + 1 \<ge> int (length hs) then ret None
             else bnd (lft (py_nth (bb_Index h + 1) hs)) (\<lambda>x. ret (Some x))))"

section \<open>Fees\<close>

text \<open>The first eight bytes of a stored block are a float; anything else is worth 0.\<close>

definition bc_GetSysFeeAmount :: "bytes \<Rightarrow> ('z blockchain_scheme, pynum) m" where
  "bc_GetSysFeeAmount hash =
     bnd (on_db (db_get (DATA_Block @ hash))) (\<lambda>out.
       case out of
         None \<Rightarrow> ret (PyI 0)
       | Some out \<Rightarrow> (case unpack_double (take 8 out) of Inl e \<Rightarrow> ret (PyI 0) | Inr x \<Rightarrow> ret (PyF x)))"

definition bc_GetSysFeeAmountByHeight :: "int \<Rightarrow> ('z blockchain_scheme, pynum) m" where
  "bc_GetSysFeeAmountByHeight height =
     bnd (bc_GetBlockHash height) (\<lambda>hash. case hash of None \<Rightarrow> ret (PyI 0) | Some h \<Rightarrow> bc_GetSysFeeAmount h)"

section \<open>Stored states and coins\<close>

definition account_class :: "account_state item_class" where
  "account_class = \<lparr>ic_Prefix = DB_Account, ic_Serialize = acc_Serialize, ic_Deserialize = acc_Deserialize\<rparr>"

definition asset_class :: "asset_state item_class" where
  "asset_class = \<lparr>ic_Prefix = DB_Asset, ic_Serialize = as_Serialize secp256r1_curve, ic_Deserialize = as_Deserialize\<rparr>"

definition contract_class :: "contract_state item_class" where
  "contract_class = \<lparr>ic_Prefix = ST_Contract, ic_Serialize = co_Serialize, ic_Deserialize = co_Deserialize\<rparr>"

definition storage_class :: "storage_item item_class" where
  "storage_class = \<lparr>ic_Prefix = ST_Storage, ic_Serialize = si_Serialize, ic_Deserialize = si_Deserialize\<rparr>"

definition unspent_class :: "int list item_class" where
  "unspent_class = \<lparr>ic_Prefix = ST_Coin, ic_Serialize = unspent_Serialize, ic_Deserialize = unspent_Deserialize\<rparr>"

definition spent_class :: "spent_coin_state item_class" where
  "spent_class = \<lparr>ic_Prefix = ST_SpentCoin, ic_Serialize = sc_Serialize, ic_Deserialize = sc_Deserialize\<rparr>"

definition bc_GetAccountState :: "bytes \<Rightarrow> ('z blockchain_scheme, account_state option) m" where
  "bc_GetAccountState address = on_db (db_state account_class address)"

definition bc_GetAssetState :: "bytes \<Rightarrow> ('z blockchain_scheme, asset_state option) m" where
  "bc_GetAssetState assetId = on_db (db_state asset_class assetId)"

definition bc_GetContract :: "bytes \<Rightarrow> ('z blockchain_scheme, contract_state option) m" where
  "bc_GetContract hash = on_db (db_state contract_class hash)"

definition bc_GetScript :: "bytes \<Rightarrow> ('z blockchain_scheme, contract_state option) m" where
  "bc_GetScript script_hash = bc_GetContract script_hash"

definition bc_GetStorageItem :: "storage_key \<Rightarrow> ('z blockchain_scheme, storage_item option) m" where
  "bc_GetStorageItem key = on_db (db_state storage_class (sk_ToArray key))"

definition bc_GetSpentCoins :: "bytes \<Rightarrow> ('z blockchain_scheme, spent_coin_state option) m" where
  "bc_GetSpentCoins tx_hash = on_db (db_state spent_class tx_hash)"

text \<open>The keys of a prefix, as \<open>ShowAllAssets\<close> and \<open>ShowAllContracts\<close> list them, and as \<open>Keys\<close> does.\<close>

definition prefix_keys :: "bytes \<Rightarrow> ('z blockchain_scheme, bytes list) m" where
  "prefix_keys prefix = on_db (bnd (open_iter prefix) (\<lambda>es. ret (map (\<lambda>e. drop 1 (fst e)) es)))"

definition bc_ShowAllAssets :: "('z blockchain_scheme, bytes list) m" where
  "bc_ShowAllAssets = prefix_keys DB_Asset"

definition bc_ShowAllContracts :: "('z blockchain_scheme, bytes list) m" where
  "bc_ShowAllContracts = prefix_keys ST_Contract"

definition bc_GetAllSpentCoins :: "('z blockchain_scheme, bytes list) m" where
  "bc_GetAllSpentCoins = on_db (\<lambda>db. case dbi_Keys spent_class (DBInterface db) of (r, s) \<Rightarrow> (r, dbi_DB s))"

text \<open>An output of a transaction that may be missing.\<close>

definition output_of :: "tx option \<Rightarrow> int \<Rightarrow> pyexc + tx_output" where
  "output_of t index = (case t of None \<Rightarrow> Inl AttributeError | Some t \<Rightarrow> py_nth index (tx_outputs t))"

definition bc_GetUnspent :: "bytes \<Rightarrow> int \<Rightarrow> ('z blockchain_scheme, tx_output option) m" where
  "bc_GetUnspent hash index =
     bnd (on_db (db_state unspent_class hash)) (\<lambda>state.
       case state of
         None \<Rightarrow> ret None
       | Some items \<Rightarrow>
           if index \<ge> int (length items) then ret None
           else bnd (lft (py_nth index items)) (\<lambda>item.
             if and item CS_Spent > 0 then ret None
             else bnd (bc_GetTransaction hash) (\<lambda>(t, height).
               bnd (lft (output_of t index)) (\<lambda>out. ret (Some out)))))"

definition bc_GetAllUnspent :: "uint \<Rightarrow> ('z blockchain_scheme, tx_output list) m" where
  "bc_GetAllUnspent hash =
     bnd (on_db (db_state unspent_class (uint_ToBytes hash))) (\<lambda>state.
       case state of
         None \<Rightarrow> ret []
       | Some items \<Rightarrow>
           bnd (bc_GetTransaction (uint_ToBytes hash)) (\<lambda>(t, height).
             lft (emap (\<lambda>(index, item). output_of t (int index)) (filter (\<lambda>(index, item). and item CS_Spent = 0) (enumerate 0 items)))))"

text \<open>The dictionary of \<open>GetUnclaimed\<close>: the last coin of an index counts.\<close>

definition bc_GetUnclaimed :: "uint \<Rightarrow> ('z blockchain_scheme, (int \<times> spent_coin) list option) m" where
  "bc_GetUnclaimed hash =
     bnd (bc_GetTransaction (uint_ToBytes hash)) (\<lambda>(t, height).
       if t = None then ret None
       else
         bnd (on_db (db_state spent_class (uint_ToBytes hash))) (\<lambda>state.
           case state of
             None \<Rightarrow> ret (Some [])
           | Some st \<Rightarrow>
               bnd (lft (emap (\<lambda>item. ebind (output_of t (sc_index item)) (\<lambda>out.
                   Inr (sc_index item, \<lparr>spc_Output = out, spc_StartHeight = height, spc_EndHeight = sc_height item\<rparr>)))
                   (sc_Items st))) (\<lambda>coins. ret (Some (fold (\<lambda>(k, v). AList.update k v) coins [])))))"

text \<open>The calculations of \<open>Claim_Bonus\<close> on the chain. Reading leaves all but the pool of streams as it is.\<close>

definition asked :: "('z blockchain_scheme, 'a) m \<Rightarrow> 'z blockchain_scheme \<Rightarrow> pyexc + 'a" where
  "asked p s = (case fst (p s) of Val x \<Rightarrow> Inr x | Exc e \<Rightarrow> Inl e | Ret b \<Rightarrow> Inl PlainException)"

definition bc_CalculateBonusIgnoreClaimed :: "coin_reference list \<Rightarrow> bool \<Rightarrow> 'z blockchain_scheme \<Rightarrow> pyexc + fixed8" where
  "bc_CalculateBonusIgnoreClaimed refs ignore_claimed s =
     CalculateBonusIgnoreClaimed (\<lambda>h. asked (bc_GetSysFeeAmountByHeight h) s) (\<lambda>u. asked (bc_GetUnclaimed u) s) refs ignore_claimed"

definition bc_CalculateBonus :: "chain_env \<Rightarrow> coin_reference list \<Rightarrow> int \<Rightarrow> 'z blockchain_scheme \<Rightarrow> pyexc + fixed8" where
  "bc_CalculateBonus env refs height_end s =
     CalculateBonus (\<lambda>h. asked (bc_GetSysFeeAmountByHeight h) s) (\<lambda>u. asked (bc_GetTransaction (uint_ToBytes u)) s)
       (SystemShare_Hash (ce_fees env)) refs height_end"

section \<open>Headers by height or hash\<close>

text \<open>
  \<open>int\<close> of text: blanks around it, a sign, digits, single underscores between digits.
\<close>

definition blank :: "byte \<Rightarrow> bool" where
  "blank c \<longleftrightarrow> c = 0x20 \<or> (0x09 \<le> c \<and> c \<le> 0x0d)"

definition digit :: "byte \<Rightarrow> bool" where
  "digit c \<longleftrightarrow> 0x30 \<le> c \<and> c \<le> 0x39"

fun digits_value :: "int \<Rightarrow> bool \<Rightarrow> bytes \<Rightarrow> int option" where
  "digits_value n after_digit [] = (if after_digit then Some n else None)"
| "digits_value n after_digit (c # cs) =
     (if digit c then digits_value (10 * n + (uint c - 48)) True cs
      else if c = 0x5f \<and> after_digit then digits_value n False cs else None)"

definition int_of_text :: "bytes \<Rightarrow> int option" where
  "int_of_text t =
     (let t = rev (dropWhile blank (rev (dropWhile blank t))) in
      case t of
        [] \<Rightarrow> None
      | c # cs \<Rightarrow>
          if c = 0x2d then map_option uminus (digits_value 0 False cs)
          else if c = 0x2b then digits_value 0 False cs
          else digits_value 0 False t)"

text \<open>A key is a number, or text; a \<open>UInt256\<close> has no length.\<close>

datatype chain_key = CK_Height int | CK_Hash uint | CK_Text bytes

definition text_hash :: "bytes \<Rightarrow> bytes list \<Rightarrow> bytes option" where
  "text_hash t hs =
     (if length t = 64 then (if t \<in> set hs then Some t else None)
      else if length t = 66 then (if drop 2 t \<in> set hs then Some (drop 2 t) else None)
      else None)"

definition key_hash_of ::
  "(int \<Rightarrow> ('z blockchain_scheme, bytes option) m) \<Rightarrow> chain_key \<Rightarrow> ('z blockchain_scheme, bytes option) m" where
  "key_hash_of by_height key =
     (case key of
        CK_Height i \<Rightarrow> by_height i
      | CK_Hash u \<Rightarrow> throw TypeError
      | CK_Text t \<Rightarrow>
          (case int_of_text t of Some i \<Rightarrow> by_height i | None \<Rightarrow> gets (\<lambda>s. text_hash t (bc_header_index s))))"

definition bc_GetHeaderBy :: "chain_key \<Rightarrow> ('z blockchain_scheme, block_base option) m" where
  "bc_GetHeaderBy key =
     bnd (key_hash_of bc_GetHeaderHash key) (\<lambda>hash. case hash of None \<Rightarrow> ret None | Some h \<Rightarrow> bc_GetHeader h)"

definition bc_GetBlock :: "chain_key \<Rightarrow> ('z blockchain_scheme, block option) m" where
  "bc_GetBlock key =
     bnd (key_hash_of bc_GetBlockHash key) (\<lambda>hash. case hash of None \<Rightarrow> ret None | Some h \<Rightarrow> bc_GetBlockByHash h)"

section \<open>Accepting headers\<close>

text \<open>
  The headers that are taken, out of those that come: \<open>height\<close> is the length of the list with those taken
  so far. A header further on ends the loop, one that is known already is passed over. With verification on, the
  call \<open>header.Verify()\<close> lacks the snapshot that \<open>BlockBase.Verify\<close> takes, which is a TypeError whatever the
  header is.
\<close>

fun take_headers :: "chain_env \<Rightarrow> int \<Rightarrow> block_base list \<Rightarrow> pyexc + block_base list" where
  "take_headers env height [] = Inr []"
| "take_headers env height (h # hs) =
     (if bb_Index h - 1 \<ge> height then Inr []
      else if bb_Index h < height then take_headers env height hs
      else if ce_verify_blocks env then Inl TypeError
      else ebind (take_headers env (height + 1) hs) (\<lambda>ts. Inr (h # ts)))"

primrec header_hashes :: "primitives \<Rightarrow> block_base list \<Rightarrow> (stream_manager, bytes list) m" where
  "header_hashes c [] = ret []"
| "header_hashes c (h # hs) = bnd (bb_Hash c h) (\<lambda>u. bnd (header_hashes c hs) (\<lambda>us. ret (uint_ToBytes u # us)))"

text \<open>
  The loop that stores the list in pieces of 2000 hashes, by the number of its turns, and the writes that
  it puts into the batch.
\<close>

definition hash_list_bytes :: "bytes list \<Rightarrow> (stream_manager, bytes) m" where
  "hash_list_bytes hs =
     bnd (GetStream None) (\<lambda>ms.
     sq (on_stream ms (Write2000256List hs))
       (bnd (gets (\<lambda>s. stream_ToArray (streams s ms))) (\<lambda>out.
        sq (ReleaseStream ms) (ret out))))"

primrec store_hash_lists :: "nat \<Rightarrow> ('z blockchain_scheme, (bytes \<times> bytes option) list) m" where
  "store_hash_lists 0 = ret []"
| "store_hash_lists (Suc n) =
     bnd (gets bc_stored_header_count) (\<lambda>count.
     bnd (gets (\<lambda>s. py_slice count (count + 2000) (bc_header_index s))) (\<lambda>headers_to_write.
     bnd (on_bc_pool (hash_list_bytes headers_to_write)) (\<lambda>out.
     bnd (lft (to_bytes_u 4 count)) (\<lambda>key.
     sq (modify (\<lambda>s. s\<lparr>bc_stored_header_count := count + 2000\<rparr>))
       (bnd (store_hash_lists n) (\<lambda>wb. ret ((IX_HeaderHashList @ key, Some out) # wb)))))))"

definition bc_OnAddHeader :: "chain_env \<Rightarrow> block_base \<Rightarrow> ('z blockchain_scheme, unit) m" where
  "bc_OnAddHeader env header =
     bnd (on_bc_pool (bb_Hash (ce_primitives env) header)) (\<lambda>u.
     let hHash = uint_ToBytes u in
     bnd (gets (\<lambda>s. nat ((bb_Index header - bc_stored_header_count s) div 2000))) (\<lambda>turns.
     bnd (store_hash_lists turns) (\<lambda>lists.
     bnd (on_db (db_get (DATA_Block @ hHash))) (\<lambda>known.
     bnd (if known = None then
            bnd (on_bc_pool (helper_ToArray header_Serialize header)) (\<lambda>out.
              ret [(DATA_Block @ hHash, Some (replicate 8 0 @ out))])
          else ret []) (\<lambda>block.
     bnd (lft (to_bytes_u 4 (bb_Index header))) (\<lambda>index.
     on_db (write_batch (lists @ block @ [(SYS_CurrentHeader, Some (hHash @ index))]))))))))"

definition bc_ProcessNewHeaders :: "chain_env \<Rightarrow> block_base list \<Rightarrow> ('z blockchain_scheme, unit) m" where
  "bc_ProcessNewHeaders env headers =
     bnd (lft (py_nth (- 1) headers)) (\<lambda>lastheader.
     bnd (on_bc_pool (header_hashes (ce_primitives env) headers)) (\<lambda>hashes.
     sq (modify (\<lambda>s. s\<lparr>bc_header_index := bc_header_index s @ hashes\<rparr>)) (bc_OnAddHeader env lastheader)))"

definition bc_AddHeaders :: "chain_env \<Rightarrow> block_base list \<Rightarrow> ('z blockchain_scheme, int) m" where
  "bc_AddHeaders env headers =
     bnd (gets (\<lambda>s. int (length (bc_header_index s)))) (\<lambda>height.
     bnd (lft (take_headers env height headers)) (\<lambda>newheaders.
     sq (whenm (newheaders \<noteq> []) (bc_ProcessNewHeaders env newheaders)) (ret (int (length newheaders)))))"

definition bc_AddHeader :: "chain_env \<Rightarrow> block_base \<Rightarrow> ('z blockchain_scheme, int) m" where
  "bc_AddHeader env header = bc_AddHeaders env [header]"

text \<open>\<open>block.Verify()\<close> lacks its argument too.\<close>

definition bc_AddBlock :: "chain_env \<Rightarrow> block \<Rightarrow> ('z blockchain_scheme, bool) m" where
  "bc_AddBlock env block =
     bnd (on_bc_pool (bb_Hash (ce_primitives env) (blk_base block))) (\<lambda>u.
     sq (modify (\<lambda>s. if map_of (bc_block_cache s) (uint_ToBytes u) = None
           then s\<lparr>bc_block_cache := bc_block_cache s @ [(uint_ToBytes u, block)]\<rparr> else s))
       (bnd (gets (\<lambda>s. int (length (bc_header_index s)))) (\<lambda>header_len.
         if bb_Index (blk_base block) - 1 \<ge> header_len then ret False
         else if bb_Index (blk_base block) = header_len then
           if ce_verify_blocks env then throw TypeError
           else if length (Transactions block) < 1 then ret False
           else sq (bc_AddHeader env (blk_Header block)) (ret True)
         else ret True)))"

end
