(* ===== verification/Block_Persist.thy ===== *)
theory Block_Persist
  imports Chain_State Service_State
begin

text \<open>
  \<open>Blockchain.Persist\<close> and \<open>TryPersist\<close>: a block's transactions are applied one by one to the caches of a
  snapshot, which is then written to the database with the block itself.

  The batch of a transaction is written when the transaction has been applied, so that the ones after it
  find it; the batch of the block is written at the end. What a contract does is the argument \<open>invoke\<close>: from
  the transaction and the snapshot to the snapshot with what was committed, and the events.
  \<open>Snapshot\<close>'s caches of blocks and transactions are never used and have no field.
\<close>

section \<open>The snapshot\<close>

definition UnspentCoins :: "(leveldb, bytes, int list) internals" where
  "UnspentCoins = LevelDBCache ST_Coin unspent_Serialize unspent_Deserialize"

definition SpentCoins :: "(leveldb, bytes, spent_coin_state) internals" where
  "SpentCoins = LevelDBCache ST_SpentCoin sc_Serialize sc_Deserialize"

definition Validators :: "(leveldb, bytes, validator_state) internals" where
  "Validators = LevelDBCache ST_Validator (vs_Serialize secp256r1_curve) vs_Deserialize"

record ledger_snapshot =
  ls_PersistingBlock :: "block option"
  ls_Accounts :: "(leveldb, bytes, account_state) data_cache"
  ls_UnspentCoins :: "(leveldb, bytes, int list) data_cache"
  ls_SpentCoins :: "(leveldb, bytes, spent_coin_state) data_cache"
  ls_Validators :: "(leveldb, bytes, validator_state) data_cache"
  ls_Assets :: "(leveldb, bytes, asset_state) data_cache"
  ls_Contracts :: "(leveldb, bytes, contract_state) data_cache"
  ls_Storages :: "(leveldb, bytes, storage_item) data_cache"

text \<open>Every cache reads the database through its own copy; their keys have different first bytes.\<close>

definition createSnapshot :: "leveldb \<Rightarrow> block \<Rightarrow> ledger_snapshot" where
  "createSnapshot db b =
     (let db = db\<lparr>ldb_batch := []\<rparr> in
      \<lparr>ls_PersistingBlock = Some b, ls_Accounts = dc_CreateSnapshot db, ls_UnspentCoins = dc_CreateSnapshot db,
       ls_SpentCoins = dc_CreateSnapshot db, ls_Validators = dc_CreateSnapshot db, ls_Assets = dc_CreateSnapshot db,
       ls_Contracts = dc_CreateSnapshot db, ls_Storages = dc_CreateSnapshot db\<rparr>)"

record 'e persisting = blockchain +
  ps_snapshot :: ledger_snapshot
  ps_dispatch :: "'e list"

definition within :: "('s \<Rightarrow> 't) \<Rightarrow> ('t \<Rightarrow> 's \<Rightarrow> 's) \<Rightarrow> ('t, 'a) m \<Rightarrow> ('s, 'a) m" where
  "within get put p s = (case p (get s) of (r, t) \<Rightarrow> (r, put t s))"

definition in_Accounts :: "((leveldb, bytes, account_state) data_cache, 'a) m \<Rightarrow> ('e persisting, 'a) m" where
  "in_Accounts = within (\<lambda>s. ls_Accounts (ps_snapshot s)) (\<lambda>c s. s\<lparr>ps_snapshot := (ps_snapshot s)\<lparr>ls_Accounts := c\<rparr>\<rparr>)"

definition in_UnspentCoins :: "((leveldb, bytes, int list) data_cache, 'a) m \<Rightarrow> ('e persisting, 'a) m" where
  "in_UnspentCoins = within (\<lambda>s. ls_UnspentCoins (ps_snapshot s)) (\<lambda>c s. s\<lparr>ps_snapshot := (ps_snapshot s)\<lparr>ls_UnspentCoins := c\<rparr>\<rparr>)"

definition in_SpentCoins :: "((leveldb, bytes, spent_coin_state) data_cache, 'a) m \<Rightarrow> ('e persisting, 'a) m" where
  "in_SpentCoins = within (\<lambda>s. ls_SpentCoins (ps_snapshot s)) (\<lambda>c s. s\<lparr>ps_snapshot := (ps_snapshot s)\<lparr>ls_SpentCoins := c\<rparr>\<rparr>)"

definition in_Validators :: "((leveldb, bytes, validator_state) data_cache, 'a) m \<Rightarrow> ('e persisting, 'a) m" where
  "in_Validators = within (\<lambda>s. ls_Validators (ps_snapshot s)) (\<lambda>c s. s\<lparr>ps_snapshot := (ps_snapshot s)\<lparr>ls_Validators := c\<rparr>\<rparr>)"

definition in_Assets :: "((leveldb, bytes, asset_state) data_cache, 'a) m \<Rightarrow> ('e persisting, 'a) m" where
  "in_Assets = within (\<lambda>s. ls_Assets (ps_snapshot s)) (\<lambda>c s. s\<lparr>ps_snapshot := (ps_snapshot s)\<lparr>ls_Assets := c\<rparr>\<rparr>)"

definition in_Contracts :: "((leveldb, bytes, contract_state) data_cache, 'a) m \<Rightarrow> ('e persisting, 'a) m" where
  "in_Contracts = within (\<lambda>s. ls_Contracts (ps_snapshot s)) (\<lambda>c s. s\<lparr>ps_snapshot := (ps_snapshot s)\<lparr>ls_Contracts := c\<rparr>\<rparr>)"

section \<open>Coins and balances\<close>

text \<open>Adding and taking an amount, in the account of an address that may be new.\<close>

definition new_account :: "uint \<Rightarrow> account_state" where
  "new_account script_hash = AccountState\<lparr>acc_ScriptHash := Some script_hash\<rparr>"

definition credit :: "uint \<Rightarrow> fixed8 \<Rightarrow> account_state \<Rightarrow> account_state" where
  "credit asset v a = (if HasBalance asset a then AddToBalance asset v a else SetBalanceFor asset v a)"

definition persist_output :: "chain_env \<Rightarrow> tx_output \<Rightarrow> ('e persisting, unit) m" where
  "persist_output env out =
     (let key = ce_AddressBytes env (ScriptHash out) in
      sq (in_Accounts (dc_GetAndChange Accounts key (Some (new_account (ScriptHash out)))))
        (in_Accounts (dc_mutate key (\<lambda>a. Inr (credit (AssetId out) (Value out) a)))))"

text \<open>The hashes of the inputs' transactions, each once, in the order they come.\<close>

fun unique_hashes :: "uint list \<Rightarrow> coin_reference list \<Rightarrow> uint list" where
  "unique_hashes found [] = found"
| "unique_hashes found (i # refs) =
     (if list_ex (\<lambda>u. uint_eq u (PrevHash i)) found then unique_hashes found refs
      else unique_hashes (found @ [PrevHash i]) refs)"

definition spend :: "int \<Rightarrow> int list \<Rightarrow> pyexc + int list" where
  "spend index items = ebind (py_nth index items) (\<lambda>item. py_set index (or item CS_Spent) items)"

definition persist_input ::
  "chain_env \<Rightarrow> int \<Rightarrow> tx option \<Rightarrow> int \<Rightarrow> coin_reference \<Rightarrow> ('e persisting, unit) m" where
  "persist_input env block_index prevTx height i =
     (let key = uint_ToBytes (PrevHash i) in
      sq (in_UnspentCoins (dc_GetAndChange UnspentCoins key None))
     (sq (in_UnspentCoins (dc_mutate key (spend (PrevIndex i))))
     (bnd (lft (output_of prevTx (PrevIndex i))) (\<lambda>out.
      sq (whenm (uint_ToBytes (AssetId out) = uint_ToBytes (SystemShare_Hash (ce_fees env)))
            (sq (in_SpentCoins (dc_GetAndChange SpentCoins key
                   (Some \<lparr>sc_TransactionHash = Some (PrevHash i), sc_TransactionHeight = height, sc_Items = []\<rparr>)))
              (in_SpentCoins (dc_mutate key (\<lambda>st. Inr (st\<lparr>sc_Items := sc_Items st @ [\<lparr>sc_index = PrevIndex i, sc_height = block_index\<rparr>]\<rparr>))))))
     (let address = ce_AddressBytes env (ScriptHash out) in
      sq (in_Accounts (dc_GetAndChange Accounts address (Some (new_account (ScriptHash out)))))
        (in_Accounts (dc_mutate address (\<lambda>a. Inr (SubtractFromBalance (AssetId out) (Value out) a)))))))))"

definition persist_inputs :: "chain_env \<Rightarrow> int \<Rightarrow> coin_reference list \<Rightarrow> uint \<Rightarrow> ('e persisting, unit) m" where
  "persist_inputs env block_index refs txhash =
     bnd (bc_GetTransaction (uint_ToBytes txhash)) (\<lambda>(prevTx, height).
       mapm (persist_input env block_index prevTx height)
         (filter (\<lambda>i. uint_ToBytes (PrevHash i) = uint_ToBytes txhash) refs))"

section \<open>What the type of a transaction adds\<close>

text \<open>The fee mode is given as an amount of 0, which nothing looks at.\<close>

definition registered_asset :: "uint \<Rightarrow> register_data \<Rightarrow> int \<Rightarrow> asset_state" where
  "registered_asset tx_hash d block_index =
     \<lparr>as_AssetId = Some tx_hash, as_AssetType = rg_AssetType d, as_Name = rg_Name d, as_Amount = rg_Amount d,
      as_Available = Fixed8 0, as_Precision = rg_Precision d, as_FeeMode = 0, as_Fee = Fixed8 0,
      as_FeeAddress = \<lparr>Data = replicate 20 0, uint_hash = 0\<rparr>, as_Owner = rg_Owner d, as_Admin = Some (rg_Admin d), as_Issuer = Some (rg_Admin d),
      as_Expiration = block_index + 2 * 2000000, as_IsFrozen = False\<rparr>"

definition persist_issue :: "tx \<Rightarrow> ('e persisting, unit) m" where
  "persist_issue t =
     bnd (gets bc_lookup) (\<lambda>lookup.
     bnd (lft (GetTransactionResults (\<lambda>u. lookup (uint_ToBytes u)) t)) (\<lambda>results.
       mapm (\<lambda>r.
         let key = uint_ToBytes (res_AssetId r) in
         sq (in_Assets (dc_GetAndChange Assets key None))
           (in_Assets (dc_mutate key (\<lambda>a. Inr (a\<lparr>as_Available := fx_sub (as_Available a) (res_Amount r)\<rparr>)))))
         (filter (\<lambda>r. fx_value (res_Amount r) < 0) results)))"

definition persist_claim :: "coin_reference \<Rightarrow> ('e persisting, unit) m" where
  "persist_claim i =
     (let key = uint_ToBytes (PrevHash i) in
      bnd (in_SpentCoins (dc_TryGet SpentCoins key)) (\<lambda>sc.
        case sc of
          None \<Rightarrow> ret ()
        | Some st \<Rightarrow>
            whenm (HasIndex (PrevIndex i) st)
              (sq (in_SpentCoins (dc_mutate key (\<lambda>st. Inr (DeleteIndex (PrevIndex i) st))))
                (sq (in_SpentCoins (dc_GetAndChange SpentCoins key None)) (ret ())))))"

text \<open>The texts of a published contract are bytes when the transaction was read.\<close>

definition text_bytes :: "io_value \<Rightarrow> pyexc + bytes" where
  "text_bytes v = (case v of PBytes b \<Rightarrow> Inr b | PByteArray b \<Rightarrow> Inr b | _ \<Rightarrow> Inl TypeError)"

definition create_contract_state :: "publish_data \<Rightarrow> pyexc + contract_state" where
  "create_contract_state p =
     ebind (emap text_bytes [pb_Name p, pb_CodeVersion p, pb_Author p, pb_Email p, pb_Description p]) (\<lambda>ts.
       Inr \<lparr>co_Code = pb_Code p, co_ContractProperties = of_bool (pb_NeedStorage p), co_Name = ts ! 0, co_CodeVersion = ts ! 1,
            co_Author = ts ! 2, co_Email = ts ! 3, co_Description = ts ! 4\<rparr>)"

definition persist_by_type ::
  "chain_env \<Rightarrow> (tx \<Rightarrow> ledger_snapshot \<Rightarrow> ledger_snapshot \<times> 'e list) \<Rightarrow> int \<Rightarrow> uint \<Rightarrow> tx \<Rightarrow> ('e persisting, unit) m" where
  "persist_by_type env invoke block_index tx_hash t =
     (case tx_exclusive t of
        RegisterTransaction d \<Rightarrow>
          in_Assets (dc_Add (uint_ToBytes tx_hash) (registered_asset tx_hash d block_index))
      | IssueTransaction \<Rightarrow> persist_issue t
      | ClaimTransaction claims \<Rightarrow> mapm persist_claim claims
      | EnrollmentTransaction key \<Rightarrow>
          bnd (lft (ec_ToBytes secp256r1_curve key)) (\<lambda>k.
            sq (in_Validators (dc_GetAndChange Validators k (Some (ValidatorState key)))) (ret ()))
      | PublishTransaction p \<Rightarrow>
          bnd (lft (fc_ScriptHash (ce_primitives env) (pb_Code p))) (\<lambda>h.
          bnd (lft (create_contract_state p)) (\<lambda>c.
            sq (in_Contracts (dc_GetOrAdd Contracts (uint_ToBytes h) c)) (ret ())))
      | InvocationTransaction scr gas \<Rightarrow>
          modify (\<lambda>s. let (snap, events) = invoke t (ps_snapshot s)
            in s\<lparr>ps_snapshot := snap, ps_dispatch := ps_dispatch s @ events\<rparr>)
      | _ \<Rightarrow> ret ())"

section \<open>A transaction\<close>

definition persist_tx ::
  "chain_env \<Rightarrow> (tx \<Rightarrow> ledger_snapshot \<Rightarrow> ledger_snapshot \<times> 'e list) \<Rightarrow> int \<Rightarrow> tx \<Rightarrow> ('e persisting, unit) m" where
  "persist_tx env invoke block_index t =
     bnd (on_bc_pool (tx_Hash (ce_primitives env) t)) (\<lambda>tx_hash.
     bnd (lft (to_bytes_u 4 block_index)) (\<lambda>index_bytes.
     bnd (on_bc_pool (helper_ToArray tx_Serialize t)) (\<lambda>data.
     sq (in_UnspentCoins (dc_Add (uint_ToBytes tx_hash) (FromTXOutputsConfirmed (tx_outputs t))))
    (sq (mapm (persist_output env) (tx_outputs t))
    (sq (mapm (persist_inputs env block_index (tx_inputs t)) (unique_hashes [] (tx_inputs t)))
    (sq (persist_by_type env invoke block_index tx_hash t)
      (on_db (write_batch [(DATA_Transaction @ uint_ToBytes tx_hash, Some (index_bytes @ data))]))))))))"

section \<open>A block\<close>

text \<open>\<open>Snapshot.Commit\<close>: the caches in turn fill one batch, which is then written.\<close>

definition commit_snapshot :: "ledger_snapshot \<Rightarrow> unit res \<times> (bytes \<times> bytes option) list" where
  "commit_snapshot s =
     (let collect = (\<lambda>p q. case p of (Val u, b) \<Rightarrow> (case q of (r, c) \<Rightarrow> (r, b @ ldb_batch c)) | _ \<Rightarrow> p);
          accounts = commit_purged Accounts dead_account (ls_Accounts s);
          unspent = commit_purged UnspentCoins dead_unspent (ls_UnspentCoins s);
          spent = commit_purged SpentCoins dead_spent (ls_SpentCoins s)
      in collect (collect (collect (collect (collect (collect (collect (Val (), [])
           (map_prod id backing accounts)) (map_prod id backing unspent)) (map_prod id backing spent))
           (map_prod id backing (dc_Commit Validators (ls_Validators s))))
           (map_prod id backing (dc_Commit Assets (ls_Assets s))))
           (map_prod id backing (dc_Commit Contracts (ls_Contracts s))))
           (map_prod id backing (dc_Commit Storages (ls_Storages s))))"

definition snapshot_Commit :: "('e persisting, unit) m" where
  "snapshot_Commit s =
     (case commit_snapshot (ps_snapshot s) of
        (Val u, wb) \<Rightarrow> on_db (write_batch wb) s
      | (r, wb) \<Rightarrow> (r, s))"

text \<open>The system fee up to and with the block, and the eight bytes it is stored as.\<close>

definition block_sysfee :: "chain_env \<Rightarrow> block \<Rightarrow> ('z blockchain_scheme, bytes) m" where
  "block_sysfee env b =
     bnd (bc_GetSysFeeAmount (uint_ToBytes (bb_PrevHash (blk_base b)))) (\<lambda>before.
     bnd (lft (TotalFees (ce_fees env) b)) (\<lambda>total_fees.
     bnd (lft (num_div (fx_value total_fees) Fixed8_D)) (\<lambda>fees.
     bnd (lft (num_add before fees)) (\<lambda>amount.
     bnd (lft (num_float amount)) (\<lambda>d. ret (pack_double d))))))"

definition persist_block ::
  "chain_env \<Rightarrow> (tx \<Rightarrow> ledger_snapshot \<Rightarrow> ledger_snapshot \<times> 'e list) \<Rightarrow> block \<Rightarrow> ('e persisting, unit) m" where
  "persist_block env invoke b =
     bnd (block_sysfee env b) (\<lambda>fee_bytes.
     bnd (on_bc_pool (bb_Hash (ce_primitives env) (blk_base b))) (\<lambda>hash.
     bnd (on_bc_pool (blk_Trim (ce_primitives env) b)) (\<lambda>trimmed.
     sq (mapm (persist_tx env invoke (bb_Index (blk_base b))) (Transactions b))
    (sq snapshot_Commit
    (bnd (lft (bb_IndexBytes (blk_base b))) (\<lambda>index_bytes.
     sq (modify (\<lambda>s. s\<lparr>bc_current_block_height := bb_Index (blk_base b), bc_persisting_block := None,
            bc_TXProcessed := bc_TXProcessed s + int (length (Transactions b))\<rparr>))
       (on_db (write_batch [(DATA_Block @ uint_ToBytes hash, Some (fee_bytes @ trimmed)),
          (SYS_CurrentBlock, Some (uint_ToBytes hash @ index_bytes))]))))))))"

text \<open>
  \<open>Persist\<close> makes the snapshot. At its end the events of the invocations are emitted in their order: \<open>handle\<close> stands for
  the emitter (a library) that calls the handlers which are registered at that time; a handler may raise.
\<close>

definition bc_Persist ::
  "chain_env \<Rightarrow> (tx \<Rightarrow> ledger_snapshot \<Rightarrow> ledger_snapshot \<times> 'e list) \<Rightarrow> ('e \<Rightarrow> (blockchain, unit) m) \<Rightarrow> block \<Rightarrow>
     (blockchain, unit) m" where
  "bc_Persist env invoke handle b s =
     (let start = blockchain.extend (s\<lparr>bc_persisting_block := Some b\<rparr>)
            (persisting.fields (createSnapshot (bc_db s) b) [])
      in case persist_block env invoke b start of
           (Val u, t) \<Rightarrow> mapm handle (ps_dispatch t) (blockchain.truncate t)
         | (Exc e, t) \<Rightarrow> (Exc e, blockchain.truncate t)
         | (Ret r, t) \<Rightarrow> (Ret r, blockchain.truncate t))"

datatype persist_result = Persisted | BlockExists | NotNext | PersistFailed pyexc

definition bc_TryPersist ::
  "chain_env \<Rightarrow> (tx \<Rightarrow> ledger_snapshot \<Rightarrow> ledger_snapshot \<times> 'e list) \<Rightarrow> ('e \<Rightarrow> (blockchain, unit) m) \<Rightarrow> block \<Rightarrow>
     (blockchain, bool \<times> persist_result) m" where
  "bc_TryPersist env invoke handle b =
     bnd (gets (\<lambda>s. bc_current_block_height s - bb_Index (blk_base b))) (\<lambda>distance.
       if distance \<ge> 0 then ret (False, BlockExists)
       else if distance < - 1 then ret (False, NotNext)
       else try_except (sq (bc_Persist env invoke handle b) (ret (True, Persisted)))
         (\<lambda>e. ret (False, PersistFailed e)))"

end
