(* ===== verification/Genesis.thy ===== *)
theory Genesis
  imports Chain_State Script_Builder
begin

text \<open>
  The first block of \<open>neo/Core/Blockchain.py\<close> and the two assets it registers. The standby validators
  come from the settings, as hexadecimal keys.
\<close>

definition StandbyValidators :: "bytes list \<Rightarrow> pyexc + ec_point list" where
  "StandbyValidators keys = emap (\<lambda>pkey. decode_secp256r1 pkey True True) keys"

text \<open>The names are texts; \<open>chars\<close> are the code points of ASCII characters.\<close>

definition chars :: "string \<Rightarrow> pystr" where
  "chars s = map of_char s"

definition system_name :: "pystr \<Rightarrow> string \<Rightarrow> io_value" where
  "system_name chinese english =
     PStr (chars ''[{\"lang\":\"zh-CN\",\"name\":\"'' @ chinese @ chars ''\"},{\"lang\":\"en\",\"name\":\"'' @
       chars english @ chars ''\"}]'')"

definition generated_total :: fixed8 where
  "generated_total = fx_FromDecimal_int (sum_list GENERATION_AMOUNT * DECREMENT_INTERVAL)"

definition register_system :: "int \<Rightarrow> io_value \<Rightarrow> int \<Rightarrow> uint \<Rightarrow> tx" where
  "register_system asset_type asset_name precision admin =
     \<lparr>Version = 0,
      tx_exclusive = RegisterTransaction \<lparr>rg_AssetType = asset_type, rg_Name = asset_name, rg_Amount = generated_total,
        rg_Precision = precision, rg_Owner = ec_Infinity, rg_Admin = admin\<rparr>,
      Attributes = [], tx_inputs = [], tx_outputs = [], tx_scripts = []\<rparr>"

definition SystemShare :: "primitives \<Rightarrow> pyexc + tx" where
  "SystemShare c =
     ebind (Crypto_ToScriptHash c [0x51] True) (\<lambda>admin.
       Inr (register_system AT_GoverningToken (system_name [0x5c0f, 0x8681, 0x80a1] ''AntShare'') 0 admin))"

definition SystemCoin :: "primitives \<Rightarrow> pyexc + tx" where
  "SystemCoin c =
     ebind (Crypto_ToScriptHash c [0x00] True) (\<lambda>admin.
       Inr (register_system AT_UtilityToken (system_name [0x5c0f, 0x8681, 0x5e01] ''AntCoin'') 8 admin))"

text \<open>Halves and thirds are true divisions, then truncated.\<close>

definition truncated_div :: "int \<Rightarrow> int \<Rightarrow> pyexc + int" where
  "truncated_div a b = ebind (int_truediv a b) (\<lambda>f. Inr (float_trunc f))"

definition GetConsensusAddress :: "primitives \<Rightarrow> ec_point list \<Rightarrow> (stream_manager, uint) m" where
  "GetConsensusAddress c validators =
     (let vlen = int (length validators) in
      bnd (lft (truncated_div (vlen - 1) 3)) (\<lambda>third.
      bnd (CreateMultiSigRedeemScript secp256r1_curve (vlen - third) validators) (\<lambda>script.
        lft (Crypto_ToScriptHash c script True))))"

definition genesis_output :: "primitives \<Rightarrow> tx \<Rightarrow> ec_point list \<Rightarrow> (stream_manager, tx_output) m" where
  "genesis_output c share validators =
     bnd (tx_Hash c share) (\<lambda>asset.
     bnd (lft (truncated_div (int (length validators)) 2)) (\<lambda>half.
     bnd (CreateMultiSigRedeemScript secp256r1_curve (half + 1) validators) (\<lambda>script.
     bnd (lft (Crypto_ToScriptHash c script True)) (\<lambda>h.
       ret \<lparr>AssetId = asset, Value = generated_total, ScriptHash = h\<rparr>))))"

definition GenesisBlock :: "primitives \<Rightarrow> bytes list \<Rightarrow> (stream_manager, block) m" where
  "GenesisBlock c keys =
     bnd (lft (UInt256 (Some (replicate 32 0)))) (\<lambda>prev_hash.
     bnd (lft (StandbyValidators keys)) (\<lambda>validators.
     bnd (GetConsensusAddress c validators) (\<lambda>next_consensus.
     bnd (lft (SystemShare c)) (\<lambda>share.
     bnd (genesis_output c share validators) (\<lambda>output.
     bnd (lft (SystemCoin c)) (\<lambda>coin.
       let script = Witness [] [0x51];
           miner = \<lparr>Version = 0, tx_exclusive = MinerTransaction 2083236893, Attributes = [], tx_inputs = [],
             tx_outputs = [], tx_scripts = []\<rparr>;
           issue = \<lparr>Version = 0, tx_exclusive = IssueTransaction, Attributes = [], tx_inputs = [],
             tx_outputs = [output], tx_scripts = [script]\<rparr>
       in RebuildMerkleRoot c
            \<lparr>blk_base = \<lparr>bb_Version = 0, bb_PrevHash = prev_hash, bb_MerkleRoot = None, bb_Timestamp = 1468595301,
               bb_Index = 0, bb_ConsensusData = 2083236893, bb_NextConsensus = next_consensus, bb_Script = Some script\<rparr>,
             Transactions = [miner, share, coin, issue]\<rparr>))))))"

text \<open>The gas of all intervals is the amount the gas asset is registered with.\<close>

lemma bonus_loop_numeral:
  "bonus_loop (numeral n) u i a =
     ebind (py_nth u GENERATION_AMOUNT) (\<lambda>g. bonus_loop (pred_numeral n) (u + 1) 0 (a + (DECREMENT_INTERVAL - i) * g))"
  by (simp add: numeral_eq_Suc)

lemma generated_total_all: "generated_amount 0 44000000 = Inr (fx_value generated_total div Fixed8_D)"
proof -
  have "interval_of 0 = Inr 0" "interval_of 44000000 = Inr 22"
    using interval_of_div [of 0] interval_of_div [of 44000000] by (simp_all add: DECREMENT_INTERVAL_def)
  then show ?thesis
    by (simp add: generated_amount_def bonus_loop_numeral py_nth_amount GENERATION_AMOUNT_def [THEN arg_cong [where f = length]])
       (simp add: GENERATION_AMOUNT_def DECREMENT_INTERVAL_def generated_total_def fx_FromDecimal_int_def Fixed8_D_def)
qed

end
