(* ===== verification/Chain_Startup.thy ===== *)
theory Chain_Startup
  imports Block_Persist Genesis
begin

text \<open>
  The constructor of \<open>Blockchain\<close>: the list of headers is put together from what the database holds. A new
  database gets the first block; one of another version is emptied if the user says so.
\<close>

section \<open>The stored lists of hashes\<close>

text \<open>One entry: its number and its hashes. A stream that cannot be read is not given back.\<close>

definition load_hash_list :: "bytes \<times> bytes \<Rightarrow> (stream_manager, int \<times> bytes list) m" where
  "load_hash_list e =
     bnd (GetStream (Some (snd e))) (\<lambda>ms.
     bnd (on_stream ms Read2000256List) (\<lambda>hlist.
     sq (ReleaseStream ms) (ret (from_bytes_u (py_slice_from (- 4) (fst e)), hlist))))"

text \<open>The loop in its \<open>try\<close>: an entry that cannot be read ends it, those before it are kept.\<close>

primrec load_hash_lists :: "(bytes \<times> bytes) list \<Rightarrow> (stream_manager, (int \<times> bytes list) list) m" where
  "load_hash_lists [] = ret []"
| "load_hash_lists (e # es) =
     bnd (try_except (bnd (load_hash_list e) (\<lambda>l. ret (Some l))) (\<lambda>x. ret None)) (\<lambda>l.
       case l of None \<Rightarrow> ret [] | Some l \<Rightarrow> bnd (load_hash_lists es) (\<lambda>ls. ret (l # ls)))"

definition add_hash_lists :: "bytes \<Rightarrow> (int \<times> bytes list) list \<Rightarrow> (blockchain, unit) m" where
  "add_hash_lists genstr hashes =
     (let hs = concat (map snd (sort_key fst hashes)) in
      modify (\<lambda>s. s\<lparr>bc_header_index := bc_header_index s @ filter (\<lambda>h. h \<noteq> genstr) hs,
        bc_stored_header_count := bc_stored_header_count s + int (length hs)\<rparr>))"

section \<open>The headers of stored blocks\<close>

primrec stored_headers :: "(bytes \<times> bytes) list \<Rightarrow> (stream_manager, block_base list) m" where
  "stored_headers [] = ret []"
| "stored_headers (e # es) =
     (case unhexlify (drop 8 (snd e)) of
        None \<Rightarrow> throw ValueError
      | Some data \<Rightarrow>
          bnd (header_FromTrimmedData data) (\<lambda>h. bnd (stored_headers es) (\<lambda>hs. ret (h # hs))))"

definition recreate_headers :: "chain_env \<Rightarrow> (blockchain, unit) m" where
  "recreate_headers env =
     bnd (on_db (open_iter DATA_Block)) (\<lambda>es.
     bnd (on_bc_pool (stored_headers es)) (\<lambda>headers.
     let headers = sort_key bb_Index headers in
     bnd (on_bc_pool (header_hashes (ce_primitives env) (filter (\<lambda>h. bb_Index h > 0) headers))) (\<lambda>hs.
     sq (modify (\<lambda>s. s\<lparr>bc_header_index := bc_header_index s @ hs\<rparr>))
       (whenm (headers \<noteq> []) (bc_OnAddHeader env (last headers))))))"

section \<open>The headers after the stored lists\<close>

text \<open>
  Back from the current header to the last one of the lists. A header that is missing is an AttributeError,
  which the caller catches. With more turns than the database has entries the loop would never end: \<open>fuel\<close>
  runs out, and the answer is None.
\<close>

primrec headers_back :: "nat \<Rightarrow> bytes \<Rightarrow> bytes \<Rightarrow> block_base list \<Rightarrow> (blockchain, block_base list option) m" where
  "headers_back 0 target hash newhashes = ret None"
| "headers_back (Suc fuel) target hash newhashes =
     (if hash = target then ret (Some newhashes)
      else bnd (bc_GetHeader hash) (\<lambda>header.
        case header of
          None \<Rightarrow> throw AttributeError
        | Some h \<Rightarrow> headers_back fuel target (uint_ToBytes (bb_PrevHash h)) (h # newhashes)))"

definition catch_up :: "chain_env \<Rightarrow> bytes \<Rightarrow> (blockchain, unit) m" where
  "catch_up env current_header_hash =
     bnd (try_except
       (bnd (gets bc_CurrentHeaderHash) (\<lambda>target.
        bnd (lft target) (\<lambda>target.
        bnd (gets (\<lambda>s. length (ldb (bc_db s)) + 2)) (\<lambda>fuel.
        bnd (headers_back fuel target current_header_hash []) (\<lambda>newhashes.
          case newhashes of None \<Rightarrow> ret False | Some hs \<Rightarrow> sq (bc_AddHeaders env hs) (ret True))))))
       (\<lambda>e. ret True)) (\<lambda>ended. if ended then ret () else throw OutOfFuel)"

section \<open>The constructor\<close>

definition sysversion :: bytes where
  "sysversion = ascii ''schema v.0.8.5''"

definition load_chain :: "chain_env \<Rightarrow> bytes \<Rightarrow> bool \<Rightarrow> (blockchain, unit) m" where
  "load_chain env genstr skip_header_check =
     bnd (on_db (db_get SYS_CurrentBlock)) (\<lambda>ba.
     sq (modify (\<lambda>s. s\<lparr>bc_current_block_height := from_bytes_u (py_slice_from (- 4) (case_option [] id ba))\<rparr>))
       (if skip_header_check then ret ()
        else
          bnd (on_db (db_get SYS_CurrentHeader)) (\<lambda>ba.
          let ba = case_option [] id ba; current_header_height = from_bytes_u (py_slice_from (- 4) ba) in
          bnd (lft (ebind (utf8_decode (take 64 ba)) utf8_encode)) (\<lambda>current_header_hash.
          bnd (on_db (open_iter IX_HeaderHashList)) (\<lambda>es.
          bnd (on_bc_pool (load_hash_lists es)) (\<lambda>hashes.
          sq (add_hash_lists genstr hashes)
            (bnd (gets bc_stored_header_count) (\<lambda>stored.
               if stored = 0 then recreate_headers env
               else whenm (current_header_height > stored) (catch_up env current_header_hash))))))))) "

text \<open>
  \<open>genesis\<close> is the first block; \<open>erase\<close> whether the user wants a database of another version to be emptied.
\<close>

definition Blockchain_init ::
  "chain_env \<Rightarrow> (tx \<Rightarrow> ledger_snapshot \<Rightarrow> ledger_snapshot \<times> 'e list) \<Rightarrow> ('e \<Rightarrow> (blockchain, unit) m) \<Rightarrow> block \<Rightarrow> bool \<Rightarrow> bool \<Rightarrow> bool \<Rightarrow>
     (blockchain, unit) m" where
  "Blockchain_init env invoke handle genesis skip_version_check skip_header_check erase =
     bnd (on_bc_pool (bb_Hash (ce_primitives env) (blk_Header genesis))) (\<lambda>gen_header.
     sq (modify (\<lambda>s. s\<lparr>bc_header_index := [uint_ToBytes gen_header], bc_TXProcessed := 0\<rparr>))
    (bnd (on_db (db_get SYS_Version)) (\<lambda>version.
     sq (whenm skip_version_check (on_db (db_write SYS_Version sysversion)))
    (let version = (if skip_version_check then Some sysversion else version);
         new_chain = sq (bc_Persist env invoke handle genesis) (on_db (db_write SYS_Version sysversion))
     in if version = Some sysversion then
          bnd (on_bc_pool (bb_Hash (ce_primitives env) (blk_base genesis))) (\<lambda>gen.
            load_chain env (uint_ToBytes gen) skip_header_check)
        else if version = None then new_chain
        else if erase then
          bnd (on_db (open_iter [])) (\<lambda>es. sq (on_db (write_batch (map (\<lambda>e. (fst e, None)) es))) new_chain)
        else throw PlainException))))"

end
