(* ===== verification/Chain_Properties.thy ===== *)
theory Chain_Properties
  imports Chain_Startup Block_Properties Cache_Properties
begin

text \<open>
  The list of headers: which headers are accepted, where their hashes stand, what is stored of them, and
  what a restart makes of it.
\<close>

section \<open>Computations with streams of the pool\<close>

definition yields :: "(stream_manager, 'a) m \<Rightarrow> 'a \<Rightarrow> bool" where
  "yields p x \<longleftrightarrow> (\<forall>s. pool_wf s \<longrightarrow> (\<exists>t. p s = (Val x, t) \<and> pool_wf t))"

lemma yields_run: "yields p x \<Longrightarrow> pool_wf s \<Longrightarrow> \<exists>t. p s = (Val x, t) \<and> pool_wf t"
  by (simp add: yields_def)

lemma bnd_val: "p s = (Val x, t) \<Longrightarrow> bnd p f s = f x t"
  by (simp add: bnd_def)

lemma sq_val: "p s = (Val x, t) \<Longrightarrow> sq p q s = q t"
  by (simp add: sq_def bnd_def)

lemma run_gets: "bnd (gets f) g s = g (f s) s"
  by (simp add: bnd_def gets_def)

lemma run_modify: "modify f s = (Val (), f s)"
  by (simp add: modify_def)

lemma run_lft: "bnd (lft (Inr x)) g s = g x s"
  by (simp add: bnd_def lft_def)

lemma yields_ret: "yields (ret x) x"
  by (simp add: yields_def ret_def)

lemma yields_bnd:
  assumes "yields p x" "yields (f x) y"
  shows "yields (bnd p f) y"
  unfolding yields_def
proof (intro allI impI)
  fix s assume "pool_wf s"
  then obtain t where t: "p s = (Val x, t)" "pool_wf t" using yields_run [OF assms(1)] by blast
  then obtain u where "f x t = (Val y, u)" "pool_wf u" using yields_run [OF assms(2)] by blast
  with t show "\<exists>t. bnd p f s = (Val y, t) \<and> pool_wf t" by (simp add: bnd_def)
qed

lemma yields_ToArray: "emits (ser x) bs () \<Longrightarrow> yields (helper_ToArray ser x) (hexlify bs)"
  unfolding yields_def by (blast intro: helper_ToArray_emits)

lemma GetHashData_ToArray: "helper_GetHashData ser x = helper_ToArray ser x"
  by (simp add: helper_GetHashData_def helper_ToArray_def)

text \<open>A stream on bytes of which the first part is read.\<close>

lemma yields_reads:
  assumes "reads p bs x"
  shows "yields (bnd (GetStream (Some (bs @ post))) (\<lambda>ms. bnd (on_stream ms p) (\<lambda>y. sq (ReleaseStream ms) (ret (g y))))) (g x)"
  unfolding yields_def
proof (intro allI impI)
  fix s assume wf: "pool_wf s"
  obtain i t where t: "GetStream (Some (bs @ post)) s = (Val i, t)" "pool_wf t"
      "streams t i = initial_stream (Some (bs @ post))" "i \<in> set (mstreams t)" "i \<notin> set (mstreams_available t)"
    using GetStream_clean [OF wf, of "Some (bs @ post)"] by metis
  have "streams t i = cursor [] (bs @ post)" using t(3) by (simp add: initial_stream_def cursor_def)
  then have r: "on_stream i p t = (Val x, t\<lparr>streams := (streams t)(i := cursor bs post)\<rparr>)"
    using on_stream_reads [OF assms, of t i "[]" post] by simp
  have "pool_wf (snd (ReleaseStream i (t\<lparr>streams := (streams t)(i := cursor bs post)\<rparr>)))"
    by (rule pool_ReleaseStream) (use t in \<open>auto simp: pool_wf_def\<close>)
  then show "\<exists>t. bnd (GetStream (Some (bs @ post))) (\<lambda>ms. bnd (on_stream ms p) (\<lambda>y. sq (ReleaseStream ms) (ret (g y)))) s =
      (Val (g x), t) \<and> pool_wf t"
    using t(1) r by (simp add: bnd_def sq_def ret_def run_ReleaseStream)
qed

section \<open>Headers\<close>

text \<open>The hash of a header, from the format of its unsigned part.\<close>

definition header_id :: "primitives \<Rightarrow> block_base \<Rightarrow> uint" where
  "header_id c b = (let d = Hash256 c (bb_unsigned_enc b) in \<lparr>Data = d, uint_hash = GetHashCode d\<rparr>)"

definition hash_text :: "primitives \<Rightarrow> block_base \<Rightarrow> bytes" where
  "hash_text c b = uint_ToBytes (header_id c b)"

lemma yields_bb_Hash:
  assumes "bb_ok b" "\<And>b. length (sha256 c b) = 32"
  shows "yields (bb_Hash c b) (header_id c b)"
proof -
  have "bb_unsigned_ok b" using assms(1) by (simp add: bb_ok_def)
  then have raw: "yields (bb_RawData b) (hexlify (bb_unsigned_enc b))"
    unfolding bb_RawData_def GetHashData_ToArray by (intro yields_ToArray emits_bb_unsigned)
  have id: "UInt256 (Some (bin_dbl_sha256 c (bb_unsigned_enc b))) = Inr (header_id c b)"
    by (simp add: UInt256_def UIntBase_new_def header_id_def Let_def Hash256_def bin_dbl_sha256_def assms(2))
  have "yields (case unhexlify (hexlify (bb_unsigned_enc b)) of None \<Rightarrow> throw ValueError
      | Some ba \<Rightarrow> lft (UInt256 (Some (bin_dbl_sha256 c ba)))) (header_id c b)"
    by (simp add: id yields_def lft_def)
  then show ?thesis unfolding bb_Hash_def by (rule yields_bnd [OF raw])
qed

lemma yields_header_hashes:
  assumes "\<forall>h\<in>set hs. bb_ok h" "\<And>b. length (sha256 c b) = 32"
  shows "yields (header_hashes c hs) (map (hash_text c) hs)"
  using assms(1)
proof (induction hs)
  case (Cons h hs)
  then show ?case
    unfolding header_hashes.simps list.map
    unfolding hash_text_def by (intro yields_bnd [OF yields_bb_Hash [OF _ assms(2)]] yields_bnd [OF Cons.IH [unfolded hash_text_def]]) (auto intro: yields_ret)
qed (simp add: yields_ret)

lemma yields_FromTrimmed: "bb_ok h \<Longrightarrow> yields (header_FromTrimmedData (bb_enc h @ post)) h"
  unfolding header_FromTrimmedData_def by (rule yields_reads [where g = id, simplified]) (rule reads_trimmed)

section \<open>The chain and the pool\<close>

definition pool_ok :: "'z blockchain_scheme \<Rightarrow> bool" where
  "pool_ok s \<longleftrightarrow> pool_wf (ldb_streams (bc_db s))"

definition with_pool :: "stream_manager \<Rightarrow> 'z blockchain_scheme \<Rightarrow> 'z blockchain_scheme" where
  "with_pool t s = s\<lparr>bc_db := (bc_db s)\<lparr>ldb_streams := t\<rparr>\<rparr>"

lemma with_pool_simps [simp]:
  "bc_header_index (with_pool t s) = bc_header_index s" "bc_stored_header_count (with_pool t s) = bc_stored_header_count s"
  "bc_current_block_height (with_pool t s) = bc_current_block_height s" "ldb (bc_db (with_pool t s)) = ldb (bc_db s)"
  "ldb_streams (bc_db (with_pool t s)) = t" "with_pool t (with_pool u s) = with_pool t s"
  "pool_ok (with_pool t s) = pool_wf t" "bc_persisting_block (with_pool t s) = bc_persisting_block s"
  by (simp_all add: with_pool_def pool_ok_def)

lemma run_bc_pool:
  assumes "yields p x" "pool_ok s"
  shows "\<exists>t. on_bc_pool p s = (Val x, with_pool t s) \<and> pool_wf t"
  using yields_run [OF assms(1)] assms(2)
  by (fastforce simp: pool_ok_def on_bc_pool_def on_db_def on_streams_def with_pool_def)

lemma run_on_db_get: "on_db (db_get k) s = (Val (map_of (ldb (bc_db s)) k), s)"
  by (simp add: on_db_def db_get_def gets_def)

lemma run_on_db_write:
  "on_db (write_batch wb) s = (Val (), s\<lparr>bc_db := (bc_db s)\<lparr>ldb := fold apply_write wb (ldb (bc_db s))\<rparr>\<rparr>)"
  by (simp add: on_db_def write_batch_def modify_def)

lemma writes_elsewhere: "\<forall>w\<in>set wb. fst w \<noteq> k \<Longrightarrow> map_of (fold apply_write wb d) k = map_of d k"
proof (induction wb arbitrary: d)
  case (Cons w wb)
  then show ?case
    by (cases w; cases "snd w") (auto simp: apply_write_def map_of_db_put map_of_db_delete)
qed simp

text \<open>
  What is stored under a hash begins with the header, after the eight bytes of the fees: it is the header alone, or
  the trimmed block.
\<close>

definition block_value :: "block_base \<Rightarrow> bytes \<Rightarrow> bool" where
  "block_value h v \<longleftrightarrow> bb_ok h \<and> (\<exists>fee post. length fee = 8 \<and> v = fee @ hexlify (bb_enc h @ post))"

lemma run_GetHeader:
  assumes "map_of (ldb (bc_db s)) (DATA_Block @ k) = Some v" "block_value h v" "pool_ok s"
  shows "\<exists>t. bc_GetHeader k s = (Val (Some h), with_pool t s) \<and> pool_wf t"
proof -
  obtain fee post where v: "bb_ok h" "length fee = 8" "v = fee @ hexlify (bb_enc h @ post)"
    using assms(2) by (auto simp: block_value_def)
  obtain t where "on_bc_pool (header_FromTrimmedData (bb_enc h @ post)) s = (Val h, with_pool t s)" "pool_wf t"
    using run_bc_pool [OF yields_FromTrimmed [OF v(1)] assms(3)] by blast
  then show ?thesis
    using assms(1) v by (auto simp: bc_GetHeader_def try_except_def bnd_def run_on_db_get ret_def)
qed

lemma run_GetHeader_none:
  "map_of (ldb (bc_db s)) (DATA_Block @ k) = None \<Longrightarrow> bc_GetHeader k s = (Val None, s)"
  by (simp add: bc_GetHeader_def try_except_def bnd_def run_on_db_get ret_def throw_def)

section \<open>Which headers are accepted\<close>

text \<open>
  The headers of a batch that have the next free index, in their order, up to one that is further on. With
  verification on, the first of them raises.
\<close>

fun continuing :: "int \<Rightarrow> block_base list \<Rightarrow> block_base list" where
  "continuing n [] = []"
| "continuing n (h # hs) =
     (if bb_Index h > n then [] else if bb_Index h < n then continuing n hs else h # continuing (n + 1) hs)"

lemma take_headers_continuing:
  "take_headers env n hs = (if ce_verify_blocks env \<and> continuing n hs \<noteq> [] then Inl TypeError else Inr (continuing n hs))"
  by (induction env n hs rule: take_headers.induct) (simp_all add: ebind_def)

lemma continuing_subseq: "subseq (continuing n hs) hs"
  by (induction n hs rule: continuing.induct) auto

lemma indexes_Suc: "map (\<lambda>i. n + int i) [0..<Suc k] = n # map (\<lambda>i. (n + 1) + int i) [0..<k]"
  by (simp add: upt_conv_Cons map_Suc_upt [symmetric] del: upt_Suc)

lemma continuing_indexes: "map bb_Index (continuing n hs) = map (\<lambda>i. n + int i) [0..<length (continuing n hs)]"
  by (induction n hs rule: continuing.induct) (auto simp: indexes_Suc simp del: upt_Suc)

lemma continuing_all: "map bb_Index hs = map (\<lambda>i. n + int i) [0..<length hs] \<Longrightarrow> continuing n hs = hs"
  by (induction n hs rule: continuing.induct) (auto simp: indexes_Suc simp del: upt_Suc)

section \<open>What is stored\<close>

definition hash_texts :: "bytes list \<Rightarrow> bool" where
  "hash_texts hs \<longleftrightarrow> (\<forall>h\<in>set hs. \<exists>u. uint_ok 32 u \<and> h = uint_ToBytes u)"

lemma yields_hash_list:
  assumes "hash_texts hs"
  shows "\<exists>out. yields (hash_list_bytes hs) out"
proof -
  obtain us where us: "hs = map uint_ToBytes us" "\<forall>u\<in>set us. uint_ok 32 u"
    using assms unfolding hash_texts_def
  proof (induction hs arbitrary: thesis)
    case (Cons h hs)
    obtain u where u: "uint_ok 32 u" "h = uint_ToBytes u" using Cons.prems(2) by auto
    obtain us where "hs = map uint_ToBytes us" "\<forall>u\<in>set us. uint_ok 32 u" using Cons.IH Cons.prems(2) by auto
    then show ?case using Cons.prems(1) [of "u # us"] u by simp
  qed simp
  have "emits (mapm (\<lambda>u. write_reversed (uint_ToBytes u)) us) (concat (map Data us)) ()"
    using us(2) by (intro emits_mapm emits_write_reversed) simp
  moreover have "mapm (\<lambda>u. write_reversed (uint_ToBytes u)) us = Write2000256List hs"
    unfolding us(1) Write2000256List_def by (induction us) simp_all
  ultimately have "yields (helper_ToArray Write2000256List hs) (hexlify (concat (map Data us)))"
    by (intro yields_ToArray) simp
  then show ?thesis unfolding hash_list_bytes_def helper_ToArray_def by blast
qed

lemma to_bytes_4: "0 \<le> i \<Longrightarrow> i < 2 ^ 32 \<Longrightarrow> to_bytes_u 4 i = Inr (int_bytes 4 i)"
  by (simp add: to_bytes_u_def)

text \<open>The loop that stores pieces of the list: it ends, and writes under its own prefix only.\<close>

lemma store_hash_lists_run:
  assumes "pool_ok s" "hash_texts (bc_header_index s)" "0 \<le> bc_stored_header_count s"
    "bc_stored_header_count s + 2000 * int n < 2 ^ 32 + 2000"
  shows "\<exists>wb t. store_hash_lists n s = (Val wb, (with_pool t s)\<lparr>bc_stored_header_count := bc_stored_header_count s + 2000 * int n\<rparr>) \<and>
    pool_wf t \<and> (\<forall>w\<in>set wb. \<exists>k. fst w = IX_HeaderHashList @ k)"
  using assms
proof (induction n arbitrary: s)
  case 0
  then show ?case by (auto simp: ret_def with_pool_def pool_ok_def intro!: exI [of _ "ldb_streams (bc_db s)"])
next
  case (Suc n)
  let ?count = "bc_stored_header_count s" and ?piece = "py_slice (bc_stored_header_count s) (bc_stored_header_count s + 2000) (bc_header_index s)"
  have "set ?piece \<subseteq> set (bc_header_index s)" by (auto simp: py_slice_def Let_def dest: in_set_takeD in_set_dropD)
  then have "hash_texts ?piece" using Suc.prems(2) by (auto simp: hash_texts_def)
  then obtain out where "yields (hash_list_bytes ?piece) out" using yields_hash_list by blast
  from run_bc_pool [OF this Suc.prems(1)]
  obtain t where t: "on_bc_pool (hash_list_bytes ?piece) s = (Val out, with_pool t s)" "pool_wf t" by blast
  have key: "to_bytes_u 4 ?count = Inr (int_bytes 4 ?count)" using Suc.prems(3,4) by (intro to_bytes_4) simp_all
  let ?s = "(with_pool t s)\<lparr>bc_stored_header_count := ?count + 2000\<rparr>"
  have "pool_ok ?s" using t(2) by (simp add: pool_ok_def)
  then obtain wb u where "store_hash_lists n ?s = (Val wb, (with_pool u ?s)\<lparr>bc_stored_header_count := bc_stored_header_count ?s + 2000 * int n\<rparr>)"
      "pool_wf u" "\<forall>w\<in>set wb. \<exists>k. fst w = IX_HeaderHashList @ k"
    using Suc.IH [of ?s] Suc.prems by auto
  moreover have "with_pool u ?s = (with_pool u s)\<lparr>bc_stored_header_count := ?count + 2000\<rparr>" by (simp add: with_pool_def)
  ultimately have "store_hash_lists (Suc n) s =
      (Val ((IX_HeaderHashList @ int_bytes 4 ?count, Some out) # wb), (with_pool u s)\<lparr>bc_stored_header_count := ?count + 2000 * int (Suc n)\<rparr>)"
      "pool_wf u" "\<forall>w\<in>set wb. \<exists>k. fst w = IX_HeaderHashList @ k"
    using key t(1) by (simp_all add: bnd_val run_gets run_lft sq_val run_modify ret_def add.assoc)
  then show ?case by (intro exI [of _ "(IX_HeaderHashList @ int_bytes 4 ?count, Some out) # wb"] exI [of _ u]) simp
qed

text \<open>What \<open>OnAddHeader\<close> leaves: the header under its hash, and as the current one.\<close>

definition current_header :: "primitives \<Rightarrow> block_base \<Rightarrow> bytes" where
  "current_header c h = hash_text c h @ int_bytes 4 (bb_Index h)"

definition stored_header :: "block_base \<Rightarrow> bytes" where
  "stored_header h = replicate 8 0 @ hexlify (header_enc h)"

lemma OnAddHeader_run:
  fixes s :: "'z blockchain_scheme"
  assumes "pool_ok s" "hash_texts (bc_header_index s)" "0 \<le> bc_stored_header_count s" "bb_ok h"
    "\<And>b. length (sha256 (ce_primitives env) b) = 32"
  defines "k \<equiv> hash_text (ce_primitives env) h"
    and "turns \<equiv> nat ((bb_Index h - bc_stored_header_count s) div 2000)"
  shows "\<exists>wb t. bc_OnAddHeader env h s = (Val (), s\<lparr>bc_stored_header_count := bc_stored_header_count s + 2000 * int turns,
      bc_db := (bc_db s)\<lparr>ldb_streams := t, ldb := fold apply_write (wb @
        (if map_of (ldb (bc_db s)) (DATA_Block @ k) = None then [(DATA_Block @ k, Some (stored_header h))] else []) @
        [(SYS_CurrentHeader, Some (current_header (ce_primitives env) h))]) (ldb (bc_db s))\<rparr>\<rparr>) \<and>
    pool_wf t \<and> (\<forall>w\<in>set wb. \<exists>k. fst w = IX_HeaderHashList @ k) \<and> (turns = 0 \<longrightarrow> wb = [])"
proof -
  obtain t where t: "on_bc_pool (bb_Hash (ce_primitives env) h) s = (Val (header_id (ce_primitives env) h), with_pool t s)" "pool_wf t"
    using run_bc_pool [OF yields_bb_Hash [OF assms(4,5)] assms(1)] by blast
  have index: "0 \<le> bb_Index h" "bb_Index h < 2 ^ 32" using assms(4) by (auto simp: bb_ok_def bb_unsigned_ok_def)
  have "2000 * int turns \<le> max 0 (bb_Index h - bc_stored_header_count s)"
    using mult_div_mod_eq [of 2000 "bb_Index h - bc_stored_header_count s"] pos_mod_sign [of 2000 "bb_Index h - bc_stored_header_count s"]
    by (simp add: turns_def max_def; linarith)
  then have "bc_stored_header_count s + 2000 * int turns < 2 ^ 32 + 2000 \<or> turns = 0" using index by (cases "turns = 0") auto
  then have bound: "turns = 0 \<or> bc_stored_header_count s + 2000 * int turns < 2 ^ 32 + 2000" by blast
  obtain wb u where wb: "store_hash_lists turns (with_pool t s) =
        (Val wb, (with_pool u s)\<lparr>bc_stored_header_count := bc_stored_header_count s + 2000 * int turns\<rparr>)"
      "pool_wf u" "\<forall>w\<in>set wb. \<exists>k. fst w = IX_HeaderHashList @ k" "turns = 0 \<longrightarrow> wb = []"
  proof (cases "turns = 0")
    case True
    then show ?thesis using that [of "[]" t] t(2) by (simp add: ret_def with_pool_def)
  next
    case False
    then show ?thesis using store_hash_lists_run [of "with_pool t s" turns] bound assms(2,3) t(2) that by auto
  qed
  let ?s = "(with_pool u s)\<lparr>bc_stored_header_count := bc_stored_header_count s + 2000 * int turns\<rparr>"
  have "pool_ok ?s" using wb(2) by (simp add: pool_ok_def)
  then obtain v where v: "on_bc_pool (helper_ToArray header_Serialize h) ?s = (Val (hexlify (header_enc h)), with_pool v ?s)" "pool_wf v"
    using run_bc_pool [OF yields_ToArray [where ser = header_Serialize and x = h, OF header_codec.ser_emits [OF assms(4)]]] by blast
  have keep: "to_bytes_u 4 (bb_Index h) = Inr (int_bytes 4 (bb_Index h))" by (rule to_bytes_4 [OF index])
  have "bc_OnAddHeader env h s = (Val (), s\<lparr>bc_stored_header_count := bc_stored_header_count s + 2000 * int turns,
      bc_db := (bc_db s)\<lparr>ldb_streams := if map_of (ldb (bc_db s)) (DATA_Block @ k) = None then v else u, ldb := fold apply_write (wb @
        (if map_of (ldb (bc_db s)) (DATA_Block @ k) = None then [(DATA_Block @ k, Some (stored_header h))] else []) @
        [(SYS_CurrentHeader, Some (current_header (ce_primitives env) h))]) (ldb (bc_db s))\<rparr>\<rparr>)"
    by (simp add: bc_OnAddHeader_def bnd_val t(1) run_gets turns_def [symmetric] wb(1) run_on_db_get keep
        hash_text_def [symmetric] k_def [symmetric] v(1) run_lft run_on_db_write ret_def stored_header_def current_header_def)
       (simp add: with_pool_def)
  then show ?thesis using wb(2-4) v(2) by auto
qed

section \<open>Batches of headers\<close>

text \<open>What a chain keeps: its list has hashes, and the pool of streams is in order.\<close>

definition chain_ok :: "chain_env \<Rightarrow> 'z blockchain_scheme \<Rightarrow> bool" where
  "chain_ok env s \<longleftrightarrow> pool_ok s \<and> hash_texts (bc_header_index s) \<and> 0 \<le> bc_stored_header_count s \<and>
     (\<forall>b. length (sha256 (ce_primitives env) b) = 32)"

definition headers_ok :: "chain_env \<Rightarrow> block_base list \<Rightarrow> bool" where
  "headers_ok env hs \<longleftrightarrow> (\<forall>h\<in>set hs. bb_ok h \<and> uint_ok 32 (header_id (ce_primitives env) h))"

lemma headers_ok_subseq: "subseq ts hs \<Longrightarrow> headers_ok env hs \<Longrightarrow> headers_ok env ts"
  by (auto simp: headers_ok_def dest: list_emb_set)

text \<open>What is written when \<open>ts\<close> are accepted.\<close>

definition header_writes :: "chain_env \<Rightarrow> int \<Rightarrow> block_base list \<Rightarrow> (bytes \<times> bytes) list \<Rightarrow> (bytes \<times> bytes option) list \<Rightarrow> bool" where
  "header_writes env stored ts d wb \<longleftrightarrow>
     (let h = last ts; k = DATA_Block @ hash_text (ce_primitives env) h in
      \<exists>lists. (\<forall>w\<in>set lists. \<exists>k. fst w = IX_HeaderHashList @ k) \<and> (bb_Index h < stored + 2000 \<longrightarrow> lists = []) \<and>
        wb = lists @ (if map_of d k = None then [(k, Some (stored_header h))] else []) @
          [(SYS_CurrentHeader, Some (current_header (ce_primitives env) h))])"

lemma ProcessNewHeaders_run:
  fixes s :: "'z blockchain_scheme"
  assumes "chain_ok env s" "headers_ok env ts" "ts \<noteq> []"
  shows "\<exists>wb t. bc_ProcessNewHeaders env ts s = (Val (), t) \<and> chain_ok env t \<and>
    bc_header_index t = bc_header_index s @ map (hash_text (ce_primitives env)) ts \<and>
    bc_current_block_height t = bc_current_block_height s \<and>
    (bb_Index (last ts) < bc_stored_header_count s + 2000 \<longrightarrow> bc_stored_header_count t = bc_stored_header_count s) \<and>
    ldb (bc_db t) = fold apply_write wb (ldb (bc_db s)) \<and> header_writes env (bc_stored_header_count s) ts (ldb (bc_db s)) wb"
proof -
  have facts: "pool_ok s" "hash_texts (bc_header_index s)" "0 \<le> bc_stored_header_count s"
      "\<And>b. length (sha256 (ce_primitives env) b) = 32"
    using assms(1) by (simp_all add: chain_ok_def)
  have ts: "\<forall>h\<in>set ts. bb_ok h" "\<forall>h\<in>set ts. uint_ok 32 (header_id (ce_primitives env) h)"
    using assms(2) by (simp_all add: headers_ok_def)
  obtain t where t: "on_bc_pool (header_hashes (ce_primitives env) ts) s = (Val (map (hash_text (ce_primitives env)) ts), with_pool t s)" "pool_wf t"
    using run_bc_pool [OF yields_header_hashes [OF ts(1) facts(4)] facts(1)] by blast
  let ?s = "(with_pool t s)\<lparr>bc_header_index := bc_header_index s @ map (hash_text (ce_primitives env)) ts\<rparr>"
  have ok: "hash_texts (bc_header_index s @ map (hash_text (ce_primitives env)) ts)"
    using facts(2) ts(2) by (auto simp: hash_texts_def hash_text_def)
  have nth: "py_nth (- 1) ts = Inr (last ts)" using assms(3) by (simp add: py_nth_def py_index_def last_conv_nth nat_diff_distrib')
  have "pool_ok ?s" using t(2) by (simp add: pool_ok_def)
  moreover have "bb_ok (last ts)" using ts(1) assms(3) by simp
  moreover have "hash_texts (bc_header_index ?s)" using ok by simp
  ultimately obtain lists u where u: "bc_OnAddHeader env (last ts) ?s = (Val (), ?s\<lparr>bc_stored_header_count := bc_stored_header_count ?s +
          2000 * int (nat ((bb_Index (last ts) - bc_stored_header_count ?s) div 2000)),
        bc_db := (bc_db ?s)\<lparr>ldb_streams := u, ldb := fold apply_write (lists @
          (if map_of (ldb (bc_db ?s)) (DATA_Block @ hash_text (ce_primitives env) (last ts)) = None
           then [(DATA_Block @ hash_text (ce_primitives env) (last ts), Some (stored_header (last ts)))] else []) @
          [(SYS_CurrentHeader, Some (current_header (ce_primitives env) (last ts)))]) (ldb (bc_db ?s))\<rparr>\<rparr>)"
      (is "_ = (_, ?t)") "pool_wf u" "\<forall>w\<in>set lists. \<exists>k. fst w = IX_HeaderHashList @ k"
      "nat ((bb_Index (last ts) - bc_stored_header_count ?s) div 2000) = 0 \<longrightarrow> lists = []"
    using OnAddHeader_run [of ?s "last ts" env] facts(3,4) by auto
  have "bc_ProcessNewHeaders env ts s = (Val (), ?t)"
    using u(1) t(1) nth by (simp add: bc_ProcessNewHeaders_def run_lft bnd_val sq_val run_modify)
  moreover have "chain_ok env ?t" using ok u(2) facts(3,4) by (simp add: chain_ok_def pool_ok_def)
  moreover have "bc_header_index ?t = bc_header_index s @ map (hash_text (ce_primitives env)) ts"
      "bc_current_block_height ?t = bc_current_block_height s"
      "bb_Index (last ts) < bc_stored_header_count s + 2000 \<longrightarrow> bc_stored_header_count ?t = bc_stored_header_count s" by auto
  moreover define wb where "wb = lists @
      (if map_of (ldb (bc_db s)) (DATA_Block @ hash_text (ce_primitives env) (last ts)) = None
       then [(DATA_Block @ hash_text (ce_primitives env) (last ts), Some (stored_header (last ts)))] else []) @
      [(SYS_CurrentHeader, Some (current_header (ce_primitives env) (last ts)))]"
  then have "ldb (bc_db ?t) = fold apply_write wb (ldb (bc_db s))" "header_writes env (bc_stored_header_count s) ts (ldb (bc_db s)) wb"
    using u(3,4) by (auto simp: header_writes_def Let_def)
  ultimately show ?thesis by blast
qed

lemma AddHeaders_run:
  fixes s :: "'z blockchain_scheme"
  assumes "chain_ok env s" "headers_ok env hs" "take_headers env (int (length (bc_header_index s))) hs = Inr ts" "subseq ts hs"
  shows "\<exists>wb t. bc_AddHeaders env hs s = (Val (int (length ts)), t) \<and> chain_ok env t \<and>
    bc_header_index t = bc_header_index s @ map (hash_text (ce_primitives env)) ts \<and>
    bc_current_block_height t = bc_current_block_height s \<and>
    (bb_Index (last ts) < bc_stored_header_count s + 2000 \<longrightarrow> bc_stored_header_count t = bc_stored_header_count s) \<and>
    ldb (bc_db t) = fold apply_write wb (ldb (bc_db s)) \<and> (if ts = [] then wb = [] else header_writes env (bc_stored_header_count s) ts (ldb (bc_db s)) wb)"
proof (cases "ts = []")
  case True
  then show ?thesis using assms(1,3) by (simp add: bc_AddHeaders_def run_gets run_lft whenm_def sq_val ret_def)
next
  case False
  obtain wb t where "bc_ProcessNewHeaders env ts s = (Val (), t)" "chain_ok env t"
      "bc_header_index t = bc_header_index s @ map (hash_text (ce_primitives env)) ts"
      "bc_current_block_height t = bc_current_block_height s"
      "bb_Index (last ts) < bc_stored_header_count s + 2000 \<longrightarrow> bc_stored_header_count t = bc_stored_header_count s"
      "ldb (bc_db t) = fold apply_write wb (ldb (bc_db s))" "header_writes env (bc_stored_header_count s) ts (ldb (bc_db s)) wb"
    using ProcessNewHeaders_run [OF assms(1) headers_ok_subseq [OF assms(4,2)] False] by blast
  then show ?thesis
    using assms(3) False by (intro exI [of _ wb] exI [of _ t]) (simp add: bc_AddHeaders_def run_gets run_lft whenm_def sq_val ret_def)
qed

text \<open> C11. Of a batch of headers, \<open>AddHeaders\<close> accepts some in their order, those whose index is the next free position
  of the list of headers; it counts them and adds exactly their hashes, each at the position of its index. A
  batch that continues the list is accepted as a whole. That is so with verification off; with verification on
  the first header that would be accepted is a TypeError, since \<open>header.Verify()\<close> lacks its argument, and the chain
  stays as it is. \<close>

theorem headers_accepted:
  fixes s :: "'z blockchain_scheme"
  assumes "chain_ok env s" "headers_ok env hs"
  shows "\<exists>ts t. subseq ts hs \<and> map bb_Index ts = map (\<lambda>i. int (length (bc_header_index s)) + int i) [0..<length ts] \<and>
    (map bb_Index hs = map (\<lambda>i. int (length (bc_header_index s)) + int i) [0..<length hs] \<longrightarrow> ts = hs) \<and>
    (if ce_verify_blocks env \<and> ts \<noteq> [] then bc_AddHeaders env hs s = (Exc TypeError, s)
     else bc_AddHeaders env hs s = (Val (int (length ts)), t) \<and> chain_ok env t \<and>
       bc_header_index t = bc_header_index s @ map (hash_text (ce_primitives env)) ts)"
proof -
  define ts where "ts = continuing (int (length (bc_header_index s))) hs"
  have take: "take_headers env (int (length (bc_header_index s))) hs = (if ce_verify_blocks env \<and> ts \<noteq> [] then Inl TypeError else Inr ts)"
    unfolding ts_def by (rule take_headers_continuing)
  have ts: "subseq ts hs" "map bb_Index ts = map (\<lambda>i. int (length (bc_header_index s)) + int i) [0..<length ts]"
      "map bb_Index hs = map (\<lambda>i. int (length (bc_header_index s)) + int i) [0..<length hs] \<longrightarrow> ts = hs"
    unfolding ts_def by (rule continuing_subseq, rule continuing_indexes, rule impI, rule continuing_all)
  show ?thesis
  proof (cases "ce_verify_blocks env \<and> ts \<noteq> []")
    case True
    then have "take_headers env (int (length (bc_header_index s))) hs = Inl TypeError" by (simp add: take)
    then have "bc_AddHeaders env hs s = (Exc TypeError, s)"
      by (simp add: bc_AddHeaders_def bnd_def gets_def lft_def ret_def throw_def)
    then show ?thesis using ts by (intro exI [of _ ts] exI [of _ s]) (unfold if_P [OF True], (assumption | rule conjI)+)
  next
    case False
    then have "take_headers env (int (length (bc_header_index s))) hs = Inr ts" by (simp only: take if_False)
    from AddHeaders_run [OF assms this ts(1)]
    obtain t where "bc_AddHeaders env hs s = (Val (int (length ts)), t)" "chain_ok env t"
        "bc_header_index t = bc_header_index s @ map (hash_text (ce_primitives env)) ts" by blast
    then show ?thesis using False ts by (intro exI [of _ ts] exI [of _ t]) (unfold if_not_P [OF False], (assumption | rule conjI)+)
  qed
qed

lemma stored_header_value: "bb_ok h \<Longrightarrow> block_value h (stored_header h)"
  unfolding block_value_def stored_header_def header_enc_def
  by (intro conjI exI [of _ "replicate 8 0"] exI [of _ "[0]"]) simp_all

text \<open>What the writes for a batch do to the stored blocks.\<close>

lemma header_writes_blocks:
  assumes "header_writes env stored ts d wb" "map_of d (DATA_Block @ hash_text (ce_primitives env) (last ts)) = None"
  shows "map_of (fold apply_write wb d) (DATA_Block @ k) =
    (if k = hash_text (ce_primitives env) (last ts) then Some (stored_header (last ts)) else map_of d (DATA_Block @ k))"
proof -
  obtain lists where w: "\<forall>w\<in>set lists. \<exists>k. fst w = IX_HeaderHashList @ k"
      "wb = lists @ [(DATA_Block @ hash_text (ce_primitives env) (last ts), Some (stored_header (last ts))),
        (SYS_CurrentHeader, Some (current_header (ce_primitives env) (last ts)))]"
    using assms by (auto simp: header_writes_def Let_def)
  have "map_of (fold apply_write lists d) (DATA_Block @ k) = map_of d (DATA_Block @ k)"
    by (rule writes_elsewhere) (use w(1) in \<open>auto simp: DATA_Block_def IX_HeaderHashList_def\<close>)
  then show ?thesis
    using w(2) by (simp add: apply_write_def map_of_db_put SYS_CurrentHeader_def DATA_Block_def)
qed

text \<open> C17. Only the last header of a batch is stored: afterwards \<open>GetHeader\<close> finds it by its hash, and answers None for
  every other header of the batch that was not in the database before, although the list has their hashes. \<close>

theorem batch_stores_last:
  fixes s :: "'z blockchain_scheme"
  assumes "chain_ok env s" "headers_ok env hs" "hs \<noteq> []" "\<not> ce_verify_blocks env"
    "map bb_Index hs = map (\<lambda>i. int (length (bc_header_index s)) + int i) [0..<length hs]"
    "\<forall>h\<in>set hs. map_of (ldb (bc_db s)) (DATA_Block @ hash_text (ce_primitives env) h) = None"
    "hash_text (ce_primitives env) (last hs) \<notin> hash_text (ce_primitives env) ` set (butlast hs)"
  shows "\<exists>t. bc_AddHeaders env hs s = (Val (int (length hs)), t) \<and>
    fst (bc_GetHeader (hash_text (ce_primitives env) (last hs)) t) = Val (Some (last hs)) \<and>
    (\<forall>h\<in>set (butlast hs). fst (bc_GetHeader (hash_text (ce_primitives env) h) t) = Val None)"
proof -
  have take: "take_headers env (int (length (bc_header_index s))) hs = Inr hs"
    using take_headers_continuing [of env "int (length (bc_header_index s))" hs] continuing_all [OF assms(5)] assms(4) by simp
  obtain wb t where t: "bc_AddHeaders env hs s = (Val (int (length hs)), t)" "chain_ok env t"
      "ldb (bc_db t) = fold apply_write wb (ldb (bc_db s))" "header_writes env (bc_stored_header_count s) hs (ldb (bc_db s)) wb"
    using AddHeaders_run [OF assms(1,2) take subseq_order.order_refl] assms(3) by auto
  have last: "bb_ok (last hs)" "map_of (ldb (bc_db s)) (DATA_Block @ hash_text (ce_primitives env) (last hs)) = None"
    using assms(2,3,6) by (simp_all add: headers_ok_def)
  note blocks = header_writes_blocks [OF t(4) last(2), folded t(3)]
  have "pool_ok t" using t(2) by (simp add: chain_ok_def)
  then obtain u where "bc_GetHeader (hash_text (ce_primitives env) (last hs)) t = (Val (Some (last hs)), with_pool u t)"
    using run_GetHeader [OF _ stored_header_value [OF last(1)], of t "hash_text (ce_primitives env) (last hs)"] blocks by auto
  moreover have "bc_GetHeader (hash_text (ce_primitives env) h) t = (Val None, t)" if "h \<in> set (butlast hs)" for h
  proof (rule run_GetHeader_none)
    have "hash_text (ce_primitives env) h \<noteq> hash_text (ce_primitives env) (last hs)" using that assms(7) by (metis imageI)
    then show "map_of (ldb (bc_db t)) (DATA_Block @ hash_text (ce_primitives env) h) = None"
      using blocks [of "hash_text (ce_primitives env) h"] that assms(6) by (simp add: in_set_butlastD)
  qed
  ultimately show ?thesis using t(1) by simp
qed

section \<open>A sample chain\<close>

definition sample_header :: "nat \<Rightarrow> block_base" where
  "sample_header n =
     \<lparr>bb_Version = 0, bb_PrevHash = \<lparr>Data = of_nat n # 0 # replicate 30 0, uint_hash = int n\<rparr>, bb_MerkleRoot = Some (sample_uint 32),
      bb_Timestamp = 1468595301 + int n, bb_Index = int n, bb_ConsensusData = 2083236893, bb_NextConsensus = sample_uint 20,
      bb_Script = Some \<lparr>InvocationScript = [0x51], VerificationScript = [0xac]\<rparr>\<rparr>"

definition sample_chain_env :: chain_env where
  "sample_chain_env =
     \<lparr>ce_primitives = sample_primitives, ce_verify_blocks = False,
      ce_fees = \<lparr>ALL_FEES = (\<lambda>t. None), SystemCoin_Hash = sample_uint 32, SystemShare_Hash = sample_uint 32, GetTransaction = (\<lambda>u. None)\<rparr>,
      ce_AddressBytes = Data\<rparr>"

text \<open>A chain with the first block only.\<close>

definition sample_node :: blockchain where
  "sample_node =
     \<lparr>bc_db = \<lparr>ldb = [(DATA_Block @ hash_text sample_primitives (sample_header 0), stored_header (sample_header 0)),
          (SYS_CurrentBlock, hash_text sample_primitives (sample_header 0) @ int_bytes 4 0), (SYS_Version, sysversion)],
        ldb_batch = [], ldb_streams = sample_pool\<rparr>,
      bc_header_index = [hash_text sample_primitives (sample_header 0)], bc_stored_header_count = 0,
      bc_current_block_height = 0, bc_block_cache = [], bc_persisting_block = None, bc_TXProcessed = 0\<rparr>"

text \<open>No contract does anything, and nobody listens.\<close>

definition unheard :: "unit \<Rightarrow> (blockchain, unit) m" where
  "unheard event = ret ()"

definition no_contracts :: "tx \<Rightarrow> ledger_snapshot \<Rightarrow> ledger_snapshot \<times> unit list" where
  "no_contracts t snap = (snap, [])"

lemma unhexlify_zero_second: "unhexlify (b # 0 # bs) = None"
  by (simp add: hex_val_def split: option.split)

lemma sample_prev_ok:
  assumes "n < 3"
  shows "uint_ok 32 \<lparr>Data = of_nat n # 0 # replicate 30 0, uint_hash = int n\<rparr>"
proof -
  have n: "uint (of_nat n :: byte) = int n" using assms by (simp add: unsigned_of_nat take_bit_nat_eq_self uint_nat)
  have "GetHashCode (of_nat n # 0 # replicate 30 0) = int n"
    by (simp add: GetHashCode_def py_slice_def py_clamp_def n take_Cons' numeral_eq_Suc)
  then show ?thesis by (simp add: uint_ok_def unhexlify_zero_second del: unhexlify.simps)
qed

lemma sample_header_ok: "n < 3 \<Longrightarrow> bb_ok (sample_header n)"
  using sample_prev_ok
  by (simp add: sample_header_def bb_ok_def bb_unsigned_ok_def sample_hashes_ok wit_ok_def maxsize_def)

lemma sample_header_Data:
  "Data (header_id sample_primitives (sample_header n)) = [0, 0, 0, 0, of_nat n] @ replicate 27 0"
  by (simp add: header_id_def Let_def Hash256_def bin_dbl_sha256_def sample_primitives_def bb_unsigned_enc_def sample_header_def
      int_bytes.simps numeral_eq_Suc)

lemma sample_header_id: "uint_ok 32 (header_id sample_primitives (sample_header n))"
proof -
  have "uint_hash (header_id c h) = GetHashCode (Data (header_id c h))" for c h by (simp add: header_id_def Let_def)
  then show ?thesis using unhexlify_zeros by (simp add: uint_ok_def sample_header_Data del: unhexlify.simps)
qed

lemma sample_hash_text:
  assumes "m < 3" "n < 3"
  shows "hash_text sample_primitives (sample_header m) = hash_text sample_primitives (sample_header n) \<longleftrightarrow> m = n"
proof -
  have "m = n" if "hash_text sample_primitives (sample_header m) = hash_text sample_primitives (sample_header n)"
  proof -
    have "unhexlify (hash_text sample_primitives (sample_header k)) = Some (rev (Data (header_id sample_primitives (sample_header k))))" for k
      using unhexlify_hexlify [of "rev (Data (header_id sample_primitives (sample_header k)))"]
      by (simp add: hash_text_def uint_ToBytes_def uint_ToString_def hexlify_def del: unhexlify.simps)
    then have "rev (Data (header_id sample_primitives (sample_header m))) = rev (Data (header_id sample_primitives (sample_header n)))"
      using that by (metis option.inject)
    then have "(of_nat m :: byte) = of_nat n" by (simp add: sample_header_Data)
    then have "unat (of_nat m :: byte) = unat (of_nat n :: byte)" by simp
    then show ?thesis using assms by (simp add: unsigned_of_nat take_bit_nat_eq_self)
  qed
  then show ?thesis by blast
qed

definition sample_batch :: "block_base list" where
  "sample_batch = [sample_header 1, sample_header 2]"

lemma sample_facts:
  "chain_ok sample_chain_env sample_node" "headers_ok sample_chain_env sample_batch" "\<not> ce_verify_blocks sample_chain_env"
  "map bb_Index sample_batch = map (\<lambda>i. 1 + int i) [0..<length sample_batch]" "sample_batch \<noteq> []"
  "bc_header_index sample_node = [hash_text sample_primitives (sample_header 0)]"
  "\<forall>h\<in>set sample_batch. map_of (ldb (bc_db sample_node)) (DATA_Block @ hash_text sample_primitives h) = None"
  "ce_primitives sample_chain_env = sample_primitives"
proof -
  show "chain_ok sample_chain_env sample_node"
    using sample_pool_wf sample_header_id by (auto simp: chain_ok_def sample_node_def sample_chain_env_def pool_ok_def hash_texts_def hash_text_def sha256_sample)
  show "headers_ok sample_chain_env sample_batch"
    using sample_header_ok [of 1] sample_header_ok [of 2] sample_header_id
    by (simp add: headers_ok_def sample_batch_def sample_chain_env_def)
  show "\<forall>h\<in>set sample_batch. map_of (ldb (bc_db sample_node)) (DATA_Block @ hash_text sample_primitives h) = None"
    using sample_hash_text [of 1 0] sample_hash_text [of 2 0]
    by (simp add: sample_batch_def sample_node_def DATA_Block_def SYS_CurrentBlock_def SYS_Version_def)
qed (simp_all add: sample_batch_def sample_chain_env_def sample_node_def sample_header_def)

lemma headers_accepted_witness:
  "(\<exists>t. bc_AddHeaders sample_chain_env sample_batch sample_node = (Val 2, t) \<and>
     bc_header_index t = map (\<lambda>n. hash_text sample_primitives (sample_header n)) [0, 1, 2]) \<and>
   fst (bc_AddHeaders (sample_chain_env\<lparr>ce_verify_blocks := True\<rparr>) sample_batch sample_node) = Exc TypeError"
proof -
  have index: "int (length (bc_header_index sample_node)) = 1" by (simp add: sample_facts(6))
  obtain t where t: "bc_AddHeaders sample_chain_env sample_batch sample_node = (Val (int (length sample_batch)), t)"
      "bc_header_index t = bc_header_index sample_node @ map (hash_text sample_primitives) sample_batch"
    using headers_accepted [OF sample_facts(1,2), unfolded index] sample_facts(3,4,8) by auto
  have on: "chain_ok (sample_chain_env\<lparr>ce_verify_blocks := True\<rparr>) sample_node" "headers_ok (sample_chain_env\<lparr>ce_verify_blocks := True\<rparr>) sample_batch"
    using sample_facts(1,2) by (simp_all add: chain_ok_def headers_ok_def)
  have "fst (bc_AddHeaders (sample_chain_env\<lparr>ce_verify_blocks := True\<rparr>) sample_batch sample_node) = Exc TypeError"
    using headers_accepted [OF on, unfolded index] sample_facts(4,5) by auto
  with t show ?thesis by (auto simp: sample_facts(6)) (simp_all add: sample_batch_def)
qed

lemma batch_stores_last_witness:
  "\<exists>t. bc_AddHeaders sample_chain_env sample_batch sample_node = (Val 2, t) \<and>
    fst (bc_GetHeader (hash_text sample_primitives (sample_header 2)) t) = Val (Some (sample_header 2)) \<and>
    fst (bc_GetHeader (hash_text sample_primitives (sample_header 1)) t) = Val None"
proof -
  have "hash_text sample_primitives (last sample_batch) \<notin> hash_text sample_primitives ` set (butlast sample_batch)"
    using sample_hash_text [of 2 1] by (simp add: sample_batch_def)
  then show ?thesis
    using batch_stores_last [OF sample_facts(1,2,5,3)] sample_facts(4,6,7,8) by (auto simp: sample_batch_def)
qed

end
