(* ===== verification/Restart_Properties.thy ===== *)
theory Restart_Properties
  imports Chain_Properties
begin

text \<open>
  What the constructor makes of a database without stored lists of hashes: the list of headers is put
  together again from the stored blocks and headers.
\<close>

section \<open>The order of the database\<close>

lemma bytes_less_irrefl: "\<not> bytes_less a a"
  by (induction a) simp_all

lemma bytes_less_trans: "bytes_less a b \<Longrightarrow> bytes_less b c \<Longrightarrow> bytes_less a c"
proof (induction a b arbitrary: c rule: bytes_less.induct)
  case (2 y ys)
  then show ?case by (cases c) simp_all
next
  case (3 x xs y ys)
  then show ?case by (cases c) auto
qed simp

lemma bytes_less_total: "a = b \<or> bytes_less a b \<or> bytes_less b a"
proof (induction a b rule: bytes_less.induct)
  case (1 xs)
  then show ?case by (cases xs) simp_all
next
  case (3 x xs y ys)
  then show ?case by (cases "x < y"; cases "y < x") auto
qed simp_all

definition db_sorted :: "(bytes \<times> bytes) list \<Rightarrow> bool" where
  "db_sorted d \<longleftrightarrow> sorted_wrt bytes_less (map fst d)"

lemma db_sorted_distinct: "db_sorted d \<Longrightarrow> distinct (map fst d)"
  using bytes_less_irrefl unfolding db_sorted_def by (induction d) (auto simp: image_iff)

lemma db_put_keys: "set (map fst (db_put k v d)) = insert k (set (map fst d))"
  by (induction k v d rule: db_put.induct) auto

lemma db_put_sorted: "db_sorted d \<Longrightarrow> db_sorted (db_put k v d)"
proof (induction k v d rule: db_put.induct)
  case (2 k v l w d)
  then show ?case
    using db_put_keys [of k v d] bytes_less_total [of k l] bytes_less_trans [of k l]
    by (auto simp: db_sorted_def simp del: set_map)
qed (simp add: db_sorted_def)

lemma db_delete_sorted: "db_sorted d \<Longrightarrow> db_sorted (db_delete k d)"
  by (induction d) (auto simp: db_sorted_def db_delete_def)

lemma apply_writes_sorted: "db_sorted d \<Longrightarrow> db_sorted (fold apply_write wb d)"
  by (induction wb arbitrary: d) (auto simp: apply_write_def db_put_sorted db_delete_sorted split: option.splits)

section \<open>Stored headers\<close>

text \<open>The blocks of the database are those of \<open>hs\<close>, which are in the order of their index.\<close>

definition blocks_exactly :: "primitives \<Rightarrow> (bytes \<times> bytes) list \<Rightarrow> block_base list \<Rightarrow> bool" where
  "blocks_exactly c d hs \<longleftrightarrow> db_sorted d \<and> sorted_wrt (<) (map bb_Index hs) \<and> distinct (map (hash_text c) hs) \<and>
     (\<forall>k v. map_of d (DATA_Block @ k) = Some v \<longrightarrow> (\<exists>h\<in>set hs. k = hash_text c h \<and> block_value h v)) \<and>
     (\<forall>h\<in>set hs. map_of d (DATA_Block @ hash_text c h) \<noteq> None)"

definition block_entries :: "(bytes \<times> bytes) list \<Rightarrow> (bytes \<times> bytes) list" where
  "block_entries d = filter (\<lambda>e. take (length DATA_Block) (fst e) = DATA_Block) d"

lemma block_entry:
  assumes "db_sorted d" "e \<in> set (block_entries d)"
  shows "map_of d (DATA_Block @ drop 1 (fst e)) = Some (snd e)" "fst e = DATA_Block @ drop 1 (fst e)"
proof -
  have "take 1 (fst e) = DATA_Block" "e \<in> set d" using assms(2) by (auto simp: block_entries_def DATA_Block_def)
  then show f: "fst e = DATA_Block @ drop 1 (fst e)" using append_take_drop_id [of 1 "fst e"] by simp
  show "map_of d (DATA_Block @ drop 1 (fst e)) = Some (snd e)"
    unfolding f [symmetric] using \<open>e \<in> set d\<close> db_sorted_distinct [OF assms(1)] by (intro map_of_is_SomeI) simp_all
qed

text \<open>The entries are the headers in another order.\<close>

lemma entries_headers:
  assumes "blocks_exactly c d hs"
  obtains gs where "list_all2 (\<lambda>e g. block_value g (snd e)) (block_entries d) gs" "set gs = set hs" "distinct gs"
proof -
  have d: "db_sorted d" using assms by (simp add: blocks_exactly_def)
  have ex: "\<exists>h. h \<in> set hs \<and> fst e = DATA_Block @ hash_text c h \<and> block_value h (snd e)" if e: "e \<in> set (block_entries d)" for e
  proof -
    obtain h where "h \<in> set hs" "drop 1 (fst e) = hash_text c h" "block_value h (snd e)"
      using assms block_entry(1) [OF d e] unfolding blocks_exactly_def by blast
    then show ?thesis using block_entry(2) [OF d e] by auto
  qed
  then obtain f where f: "\<And>e. e \<in> set (block_entries d) \<Longrightarrow> f e \<in> set hs \<and> fst e = DATA_Block @ hash_text c (f e) \<and> block_value (f e) (snd e)"
    by metis
  have "distinct (map fst (block_entries d))"
    using db_sorted_distinct [OF d] unfolding block_entries_def by (rule distinct_map_filter)
  moreover have "map fst (block_entries d) = map (\<lambda>h. DATA_Block @ hash_text c h) (map f (block_entries d))"
    using f by simp
  ultimately have "distinct (map f (block_entries d))" by (metis distinct_map)
  moreover have "set (map f (block_entries d)) = set hs"
  proof
    show "set hs \<subseteq> set (map f (block_entries d))"
    proof
      fix h assume h: "h \<in> set hs"
      then obtain v where v: "map_of d (DATA_Block @ hash_text c h) = Some v"
        using assms unfolding blocks_exactly_def by blast
      then have e: "(DATA_Block @ hash_text c h, v) \<in> set (block_entries d)"
        by (auto simp: block_entries_def dest: map_of_SomeD)
      then have "hash_text c (f (DATA_Block @ hash_text c h, v)) = hash_text c h" "f (DATA_Block @ hash_text c h, v) \<in> set hs"
        using f [OF e] by simp_all
      then have "f (DATA_Block @ hash_text c h, v) = h"
        using assms h by (auto simp: blocks_exactly_def distinct_map dest: inj_onD)
      then show "h \<in> set (map f (block_entries d))" using e by force
    qed
  qed (use f in auto)
  moreover have "list_all2 (\<lambda>e g. block_value g (snd e)) (block_entries d) (map f (block_entries d))"
    using f by (simp add: list_all2_map2 list_all2_same)
  ultimately show ?thesis using that by blast
qed

lemma sort_headers:
  assumes "set gs = set hs" "distinct gs" "sorted_wrt (<) (map bb_Index hs)"
  shows "sort_key bb_Index gs = hs"
proof -
  have strict: "distinct (map bb_Index hs)" "sorted (map bb_Index hs)"
    using assms(3) by (simp_all add: strict_sorted_iff)
  have inj: "inj_on bb_Index (set hs)" using strict(1) by (simp add: distinct_map)
  have "distinct (map bb_Index (sort_key bb_Index gs))" using inj assms(1,2) by (simp add: distinct_map)
  then have "map bb_Index (sort_key bb_Index gs) = map bb_Index hs"
    using strict assms(1) by (intro sorted_distinct_set_unique) simp_all
  then show ?thesis using inj assms(1) by (auto intro: map_inj_on)
qed

lemma yields_stored_headers:
  "list_all2 (\<lambda>e g. block_value g (snd e)) es gs \<Longrightarrow> yields (stored_headers es) gs"
proof (induction es gs rule: list_all2_induct)
  case (Cons e es g gs)
  obtain fee post where v: "bb_ok g" "length fee = 8" "snd e = fee @ hexlify (bb_enc g @ post)"
    using Cons.hyps(1) by (auto simp: block_value_def)
  have "yields (bnd (header_FromTrimmedData (bb_enc g @ post)) (\<lambda>h. bnd (stored_headers es) (\<lambda>hs. ret (h # hs)))) (g # gs)"
    by (rule yields_bnd [OF yields_FromTrimmed [OF v(1)]], rule yields_bnd [OF Cons.IH], rule yields_ret)
  then show ?case using v by simp
qed (simp add: yields_ret)

section \<open>The constructor\<close>

lemma utf8_ascii: "\<forall>b\<in>set bs. b < 128 \<Longrightarrow> utf8_decode bs = Inr (map unat bs) \<and> utf8_encode (map unat bs) = Inr bs"
proof (induction bs)
  case (Cons b bs)
  then have "unat b < 128" by (simp add: word_less_nat_alt)
  then show ?case
    using Cons by (cases "emap utf8_point (map unat bs)") (auto simp: utf8_encode_def utf8_point_def)
qed (simp add: utf8_encode_def)

lemma hex_ascii: "b \<in> set (ascii (hex bs)) \<Longrightarrow> b < 128"
proof -
  have digit: "(of_char (hex_digit n) :: byte) < 128" if "n < 16" for n
    using that by (simp add: hex_digit_def word_less_nat_alt unat_of_char)
  have "unat (x :: byte) div 16 < 16" for x using unsigned_less [of x, where 'a = nat] by simp
  note digits = this digit
  show "b \<in> set (ascii (hex bs)) \<Longrightarrow> b < 128"
    by (induction bs) (auto simp: ascii_def hex_def hex_byte_def intro!: digits)
qed

lemma text_of_hash:
  assumes "\<And>b. length (sha256 c b) = 32"
  shows "length (hash_text c h) = 64" "utf8_decode (hash_text c h) = Inr (map unat (hash_text c h))"
    "utf8_encode (map unat (hash_text c h)) = Inr (hash_text c h)"
proof -
  show "length (hash_text c h) = 64"
    by (simp add: hash_text_def uint_ToBytes_def uint_ToString_def ascii_def length_hex header_id_def Let_def Hash256_def bin_dbl_sha256_def assms)
  have "\<forall>b\<in>set (hash_text c h). b < 128"
    by (auto simp: hash_text_def uint_ToBytes_def uint_ToString_def intro: hex_ascii)
  then show "utf8_decode (hash_text c h) = Inr (map unat (hash_text c h))" "utf8_encode (map unat (hash_text c h)) = Inr (hash_text c h)"
    using utf8_ascii by blast+
qed

lemma last_four:
  assumes "length xs = n" "0 \<le> i" "i < 2 ^ 32"
  shows "from_bytes_u (py_slice_from (- 4) (xs @ int_bytes 4 i)) = i"
proof -
  have "py_slice_from (- 4) (xs @ int_bytes 4 i) = int_bytes 4 i"
    by (simp add: py_slice_from_def py_clamp_def length_int_bytes)
  then show ?thesis using assms by (simp add: from_bytes_u_int_bytes)
qed

text \<open>The blocks of the database, read and sorted; the last one is stored again as the current header.\<close>

lemma recreate_headers_run:
  fixes s :: blockchain
  assumes "chain_ok env s" "blocks_exactly (ce_primitives env) (ldb (bc_db s)) hs" "hs \<noteq> []"
    "\<forall>h\<in>set hs. uint_ok 32 (header_id (ce_primitives env) h)"
  shows "\<exists>t. recreate_headers env s = (Val (), t) \<and> chain_ok env t \<and>
    bc_header_index t = bc_header_index s @ map (hash_text (ce_primitives env)) (filter (\<lambda>h. 0 < bb_Index h) hs) \<and>
    bc_current_block_height t = bc_current_block_height s"
proof -
  let ?c = "ce_primitives env" and ?new = "filter (\<lambda>h. 0 < bb_Index h) hs"
  have facts: "pool_ok s" "hash_texts (bc_header_index s)" "0 \<le> bc_stored_header_count s" "\<And>b. length (sha256 ?c b) = 32"
    using assms(1) by (simp_all add: chain_ok_def)
  obtain gs where gs: "list_all2 (\<lambda>e g. block_value g (snd e)) (block_entries (ldb (bc_db s))) gs" "set gs = set hs" "distinct gs"
    by (rule entries_headers [OF assms(2)])
  have sort: "sort_key bb_Index gs = hs" using assms(2) gs(2,3) by (intro sort_headers) (simp_all add: blocks_exactly_def)
  have ok: "\<forall>h\<in>set hs. bb_ok h"
    unfolding gs(2) [symmetric] using gs(1) by (auto simp: list_all2_conv_all_nth in_set_conv_nth block_value_def)
  have iter: "on_db (open_iter DATA_Block) s = (Val (block_entries (ldb (bc_db s))), s)"
    by (simp add: on_db_def open_iter_def gets_def block_entries_def)
  obtain t where t: "on_bc_pool (stored_headers (block_entries (ldb (bc_db s)))) s = (Val gs, with_pool t s)" "pool_wf t"
    using run_bc_pool [OF yields_stored_headers [OF gs(1)] facts(1)] by blast
  have "yields (header_hashes ?c ?new) (map (hash_text ?c) ?new)"
    by (rule yields_header_hashes [OF _ facts(4)]) (use ok in simp)
  then obtain u where u: "on_bc_pool (header_hashes ?c ?new) (with_pool t s) = (Val (map (hash_text ?c) ?new), with_pool u s)" "pool_wf u"
    using run_bc_pool [of "header_hashes ?c ?new" _ "with_pool t s"] t(2) by auto
  let ?s = "(with_pool u s)\<lparr>bc_header_index := bc_header_index s @ map (hash_text ?c) ?new\<rparr>"
  have ok2: "pool_ok ?s" "hash_texts (bc_header_index ?s)" "0 \<le> bc_stored_header_count ?s" "bb_ok (last hs)"
    using u(2) facts(2,3) ok assms(3,4) by (auto simp: pool_ok_def hash_texts_def hash_text_def)
  obtain v where v: "bc_OnAddHeader env (last hs) ?s = (Val (), v)" "chain_ok env v" "bc_header_index v = bc_header_index ?s"
      "bc_current_block_height v = bc_current_block_height s"
    using OnAddHeader_run [OF ok2 facts(4)] ok2(2,3) facts(4) by (auto simp: chain_ok_def pool_ok_def)
  have "recreate_headers env s = (Val (), v)"
    using v(1) assms(3) by (simp add: recreate_headers_def bnd_val iter t(1) sort u(1) Let_def sq_val run_modify whenm_def)
  then show ?thesis using v(2-) by simp
qed

definition restart_ok :: "chain_env \<Rightarrow> block_base list \<Rightarrow> int \<Rightarrow> 'z blockchain_scheme \<Rightarrow> bool" where
  "restart_ok env hs i s \<longleftrightarrow> pool_ok s \<and> (\<forall>b. length (sha256 (ce_primitives env) b) = 32) \<and> bc_stored_header_count s = 0 \<and>
     blocks_exactly (ce_primitives env) (ldb (bc_db s)) hs \<and> hs \<noteq> [] \<and>
     (\<forall>h\<in>set hs. uint_ok 32 (header_id (ce_primitives env) h)) \<and>
     (\<forall>k. map_of (ldb (bc_db s)) (IX_HeaderHashList @ k) = None) \<and>
     map_of (ldb (bc_db s)) SYS_Version = Some sysversion \<and> 0 \<le> i \<and> i < 2 ^ 32 \<and>
     (\<exists>k. map_of (ldb (bc_db s)) SYS_CurrentBlock = Some (k @ int_bytes 4 i)) \<and>
     (\<forall>v. map_of (ldb (bc_db s)) SYS_CurrentHeader = Some v \<longrightarrow> (\<exists>h. v = current_header (ce_primitives env) h))"

lemma no_hash_lists:
  assumes "\<forall>k. map_of d (IX_HeaderHashList @ k) = None"
  shows "filter (\<lambda>e. take (length IX_HeaderHashList) (fst e) = IX_HeaderHashList) d = []"
proof (rule filter_False, intro ballI notI)
  fix e assume e: "e \<in> set d" "take (length IX_HeaderHashList) (fst e) = IX_HeaderHashList"
  then have "fst e = IX_HeaderHashList @ drop (length IX_HeaderHashList) (fst e)"
    using append_take_drop_id [of "length IX_HeaderHashList" "fst e"] by simp
  then have "map_of d (fst e) = None" using assms by metis
  then show False using e(1) by (auto simp: map_of_eq_None_iff)
qed

lemma load_chain_run:
  fixes s :: blockchain
  assumes "restart_ok env hs i s" "hash_texts (bc_header_index s)"
  shows "\<exists>t. load_chain env genstr False s = (Val (), t) \<and> chain_ok env t \<and>
    bc_header_index t = bc_header_index s @ map (hash_text (ce_primitives env)) (filter (\<lambda>h. 0 < bb_Index h) hs) \<and>
    bc_current_block_height t = i"
proof -
  obtain k where db: "map_of (ldb (bc_db s)) SYS_CurrentBlock = Some (k @ int_bytes 4 i)"
    using assms(1) by (auto simp: restart_ok_def)
  have sha: "\<And>b. length (sha256 (ce_primitives env) b) = 32" and i: "0 \<le> i" "i < 2 ^ 32"
    using assms(1) by (simp_all add: restart_ok_def)
  let ?s = "s\<lparr>bc_current_block_height := i\<rparr>"
  have iter: "on_db (open_iter IX_HeaderHashList) ?s = (Val [], ?s)"
    using no_hash_lists [of "ldb (bc_db s)"] assms(1) by (auto simp: on_db_def open_iter_def gets_def restart_ok_def)
  have lists: "on_bc_pool (ret []) ?s = (Val [], ?s)"
    by (simp add: on_bc_pool_def on_db_def on_streams_def ret_def)
  have head: "take 64 (current_header (ce_primitives env) h) = hash_text (ce_primitives env) h" for h
    by (simp add: current_header_def text_of_hash(1) [OF sha])
  obtain x where current: "ebind (utf8_decode (take 64 (case_option [] id (map_of (ldb (bc_db s)) SYS_CurrentHeader)))) utf8_encode = Inr x"
  proof (cases "map_of (ldb (bc_db s)) SYS_CurrentHeader")
    case (Some v)
    then obtain h where "v = current_header (ce_primitives env) h" using assms(1) by (auto simp: restart_ok_def)
    then show ?thesis using that Some by (simp add: head text_of_hash(2,3) [OF sha])
  qed (use that in \<open>simp add: utf8_encode_def\<close>)
  have "chain_ok env ?s" using assms by (simp add: chain_ok_def restart_ok_def pool_ok_def)
  then obtain t where "recreate_headers env ?s = (Val (), t)" "chain_ok env t"
      "bc_header_index t = bc_header_index s @ map (hash_text (ce_primitives env)) (filter (\<lambda>h. 0 < bb_Index h) hs)"
      "bc_current_block_height t = i"
    using recreate_headers_run [of env ?s hs] assms(1) by (auto simp: restart_ok_def)
  moreover have "load_chain env genstr False s = recreate_headers env ?s"
    using assms(1) by (simp add: load_chain_def bnd_val run_on_db_get db last_four [OF refl i] sq_val run_modify Let_def current run_lft iter lists
        add_hash_lists_def run_gets restart_ok_def)
  ultimately show ?thesis by auto
qed

text \<open>The first block, as the constructor is given it.\<close>

definition genesis_ok :: "chain_env \<Rightarrow> block \<Rightarrow> bool" where
  "genesis_ok env genesis \<longleftrightarrow> bb_ok (blk_base genesis) \<and> bb_Version (blk_base genesis) = 0 \<and>
     uint_ok 32 (header_id (ce_primitives env) (blk_base genesis))"

lemma Blockchain_init_run:
  fixes s :: blockchain
  assumes "restart_ok env hs i s" "genesis_ok env genesis"
  shows "\<exists>t. Blockchain_init env invoke handle genesis False False erase s = (Val (), t) \<and> chain_ok env t \<and>
    bc_header_index t = hash_text (ce_primitives env) (blk_base genesis) #
      map (hash_text (ce_primitives env)) (filter (\<lambda>h. 0 < bb_Index h) hs) \<and>
    bc_current_block_height t = i"
proof -
  let ?c = "ce_primitives env" and ?g = "blk_base genesis"
  have g: "blk_Header genesis = ?g" "bb_ok ?g" using assms(2) by (simp_all add: genesis_ok_def blk_Header_def)
  have sha: "\<And>b. length (sha256 ?c b) = 32" and pool: "pool_ok s" using assms(1) by (simp_all add: restart_ok_def)
  obtain t where t: "on_bc_pool (bb_Hash ?c ?g) s = (Val (header_id ?c ?g), with_pool t s)" "pool_wf t"
    using run_bc_pool [OF yields_bb_Hash [OF g(2) sha] pool] by blast
  let ?s = "(with_pool t s)\<lparr>bc_header_index := [hash_text ?c ?g], bc_TXProcessed := 0\<rparr>"
  have "pool_ok ?s" using t(2) by (simp add: pool_ok_def)
  then obtain u where u: "on_bc_pool (bb_Hash ?c ?g) ?s = (Val (header_id ?c ?g), with_pool u ?s)" "pool_wf u"
    using run_bc_pool [OF yields_bb_Hash [OF g(2) sha]] by blast
  have "restart_ok env hs i (with_pool u ?s)" using assms(1) u(2) by (simp add: restart_ok_def pool_ok_def with_pool_def)
  moreover have "hash_texts (bc_header_index (with_pool u ?s))"
    using assms(2) by (auto simp: hash_texts_def hash_text_def genesis_ok_def)
  ultimately obtain v where v: "load_chain env (hash_text ?c ?g) False (with_pool u ?s) = (Val (), v)" "chain_ok env v"
      "bc_header_index v = hash_text ?c ?g # map (hash_text ?c) (filter (\<lambda>h. 0 < bb_Index h) hs)" "bc_current_block_height v = i"
    using load_chain_run [of env hs i "with_pool u ?s" "hash_text ?c ?g"] by auto
  have version: "map_of (ldb (bc_db s)) SYS_Version = Some sysversion" using assms(1) by (simp add: restart_ok_def)
  have "Blockchain_init env invoke handle genesis False False erase s = (Val (), v)"
    using v(1) by (simp add: Blockchain_init_def g(1) bnd_val t(1) sq_val run_modify hash_text_def [symmetric] run_on_db_get version
        whenm_def ret_def Let_def u(1))
  then show ?thesis using v(2-) by blast
qed

text \<open> C99. A node that starts on a database without stored lists finds the list of headers again: the first block's
  hash, and behind it those of all stored blocks and headers with a positive index, in the order of their index; and
  the height of the last block. \<close>

theorem restart_recreates:
  fixes s :: blockchain
  assumes "restart_ok env hs i s" "genesis_ok env genesis"
  shows "\<exists>t. Blockchain_init env invoke handle genesis False False erase s = (Val (), t) \<and> chain_ok env t \<and>
    bc_header_index t = hash_text (ce_primitives env) (blk_base genesis) #
      map (hash_text (ce_primitives env)) (filter (\<lambda>h. 0 < bb_Index h) hs) \<and>
    bc_current_block_height t = i"
  by (rule Blockchain_init_run [OF assms])

text \<open>After a batch, the database has one header more.\<close>

lemma batch_blocks:
  assumes "blocks_exactly c d gs" "header_writes env n ts d wb" "c = ce_primitives env"
    "map_of d (DATA_Block @ hash_text c (last ts)) = None" "\<forall>g\<in>set gs. bb_Index g < bb_Index (last ts)" "bb_ok (last ts)"
  shows "blocks_exactly c (fold apply_write wb d) (gs @ [last ts])"
proof -
  note blocks = header_writes_blocks [OF assms(2) assms(4) [unfolded assms(3)], folded assms(3)]
  have "hash_text c (last ts) \<noteq> hash_text c g" if "g \<in> set gs" for g
    using assms(1,4) that by (auto simp: blocks_exactly_def)
  then have "distinct (map (hash_text c) (gs @ [last ts]))"
    using assms(1) by (auto simp: blocks_exactly_def)
  moreover have "sorted_wrt (<) (map bb_Index (gs @ [last ts]))"
    using assms(1,5) by (auto simp: blocks_exactly_def sorted_wrt_append)
  ultimately show ?thesis
    using assms(1) blocks stored_header_value [OF assms(6)] apply_writes_sorted
    unfolding blocks_exactly_def by (auto split: if_splits)
qed

lemma batch_writes_rest:
  assumes "header_writes env n ts d wb" "bb_Index (last ts) < n + 2000"
  shows "map_of (fold apply_write wb d) (IX_HeaderHashList @ k) = map_of d (IX_HeaderHashList @ k)"
    "map_of (fold apply_write wb d) SYS_Version = map_of d SYS_Version"
    "map_of (fold apply_write wb d) SYS_CurrentBlock = map_of d SYS_CurrentBlock"
    "map_of (fold apply_write wb d) SYS_CurrentHeader = Some (current_header (ce_primitives env) (last ts))"
  using assms
  by (auto simp: header_writes_def Let_def apply_write_def map_of_db_put IX_HeaderHashList_def DATA_Block_def
      SYS_Version_def SYS_CurrentBlock_def SYS_CurrentHeader_def)

text \<open> C99. A node has stored the blocks up to some height, and then accepts the headers of one batch that continues
  them, fewer than 2000 in all. They do not survive a restart: of the batch only the last header is stored, and
  the node that starts again has its hash directly behind the stored blocks, at a position that is not its index
  unless the batch was that header alone. \<close>

theorem batch_lost_on_restart:
  fixes s :: blockchain
  assumes "chain_ok env s" "restart_ok env gs i s" "genesis_ok env genesis" "hd gs = blk_base genesis"
    "map bb_Index gs = map int [0..<length gs]" "bc_header_index s = map (hash_text (ce_primitives env)) gs"
    "headers_ok env hs" "hs \<noteq> []" "\<not> ce_verify_blocks env" "map bb_Index hs = map (\<lambda>k. int (length gs) + int k) [0..<length hs]"
    "length gs + length hs \<le> 2000" "map_of (ldb (bc_db s)) (DATA_Block @ hash_text (ce_primitives env) (last hs)) = None"
  shows "\<exists>t u. bc_AddHeaders env hs s = (Val (int (length hs)), t) \<and>
    bc_header_index t = map (hash_text (ce_primitives env)) (gs @ hs) \<and>
    Blockchain_init env invoke handle genesis False False erase t = (Val (), u) \<and>
    bc_header_index u = map (hash_text (ce_primitives env)) (gs @ [last hs]) \<and>
    bb_Index (last hs) = int (length gs + length hs) - 1"
proof -
  let ?c = "ce_primitives env"
  have "continuing (int (length gs)) hs = hs" by (rule continuing_all) (use assms(10) in simp)
  then have take: "take_headers env (int (length (bc_header_index s))) hs = Inr hs"
    using take_headers_continuing [of env "int (length gs)" hs] assms(6,9) by simp
  have "length hs - Suc 0 < length hs" using assms(8) by simp
  then have "bb_Index (last hs) = int (length gs) + int (length hs - Suc 0)"
    using arg_cong [OF assms(10), of "\<lambda>xs. xs ! (length hs - Suc 0)"] assms(8) by (simp add: last_conv_nth)
  then have index: "bb_Index (last hs) = int (length gs + length hs) - 1" using assms(8) by (simp add: of_nat_diff Suc_leI)
  have before: "\<forall>g\<in>set gs. bb_Index g < bb_Index (last hs)"
  proof
    fix g assume "g \<in> set gs"
    then have "bb_Index g \<in> set (map int [0..<length gs])" unfolding assms(5) [symmetric] by simp
    then have "bb_Index g < int (length gs)" by auto
    moreover have "0 < length hs" using assms(8) by simp
    ultimately show "bb_Index g < bb_Index (last hs)" unfolding index by linarith
  qed
  have stored: "bc_stored_header_count s = 0" and "gs \<noteq> []" using assms(2) by (simp_all add: restart_ok_def)
  obtain wb t where t: "bc_AddHeaders env hs s = (Val (int (length hs)), t)" "chain_ok env t"
      "bc_header_index t = bc_header_index s @ map (hash_text ?c) hs" "bc_stored_header_count t = 0"
      "ldb (bc_db t) = fold apply_write wb (ldb (bc_db s))" "header_writes env 0 hs (ldb (bc_db s)) wb"
    using AddHeaders_run [OF assms(1,7) take subseq_order.order_refl] assms(8,11) index stored by auto
  have last: "bb_ok (last hs)" "uint_ok 32 (header_id ?c (last hs))" using assms(7,8) by (simp_all add: headers_ok_def)
  have "blocks_exactly ?c (ldb (bc_db t)) (gs @ [last hs])"
    unfolding t(5) by (rule batch_blocks [OF _ t(6) refl assms(12) before last(1)]) (use assms(2) in \<open>simp add: restart_ok_def\<close>)
  then have "restart_ok env (gs @ [last hs]) i t"
    using assms(2) t(2,4) last(2) batch_writes_rest [OF t(6), folded t(5)] index assms(11)
    unfolding restart_ok_def chain_ok_def by auto
  from Blockchain_init_run [OF this assms(3), of invoke handle erase]
  obtain u where u: "Blockchain_init env invoke handle genesis False False erase t = (Val (), u)"
      "bc_header_index u = hash_text ?c (blk_base genesis) # map (hash_text ?c) (filter (\<lambda>h. 0 < bb_Index h) (gs @ [last hs]))"
    by blast
  obtain rest where gs: "gs = blk_base genesis # rest" using \<open>gs \<noteq> []\<close> assms(4) by (cases gs) auto
  have "map int [0..<length gs] = 0 # map int [1..<length gs]" using gs by (simp add: upt_conv_Cons del: upt_Suc)
  then have rest: "bb_Index (blk_base genesis) = 0" "map bb_Index rest = map int [1..<length gs]" using assms(5) gs by auto
  have "filter (\<lambda>h. 0 < bb_Index h) rest = rest"
  proof (rule filter_True, rule ballI)
    fix h assume "h \<in> set rest"
    then have "bb_Index h \<in> set (map int [1..<length gs])" unfolding rest(2) [symmetric] by simp
    then show "0 < bb_Index h" by auto
  qed
  moreover have "0 < bb_Index (last hs)" using before rest(1) gs by auto
  ultimately have "bc_header_index u = map (hash_text ?c) (gs @ [last hs])" using u(2) rest(1) gs by simp
  then show ?thesis using t(1,3) u(1) assms(6) index by auto
qed

section \<open>A sample start\<close>

definition sample_genesis :: block where
  "sample_genesis = \<lparr>blk_base = sample_header 0, Transactions = []\<rparr>"

lemma sample_start:
  "genesis_ok sample_chain_env sample_genesis" "restart_ok sample_chain_env [sample_header 0] 0 sample_node"
proof -
  show "genesis_ok sample_chain_env sample_genesis"
    using sample_header_ok [of 0] sample_header_id
    by (simp add: genesis_ok_def sample_genesis_def sample_chain_env_def) (simp add: sample_header_def)
  have "blocks_exactly sample_primitives (ldb (bc_db sample_node)) [sample_header 0]"
    using stored_header_value [OF sample_header_ok [of 0]]
    by (auto simp: blocks_exactly_def sample_node_def db_sorted_def DATA_Block_def SYS_CurrentBlock_def SYS_Version_def split: if_splits)
  then show "restart_ok sample_chain_env [sample_header 0] 0 sample_node"
    using sample_facts(1) sample_header_id
    by (auto simp: restart_ok_def chain_ok_def sample_chain_env_def)
       (auto simp: sample_node_def DATA_Block_def IX_HeaderHashList_def SYS_CurrentBlock_def SYS_Version_def SYS_CurrentHeader_def)
qed

lemma restart_recreates_witness:
  "\<exists>t. Blockchain_init sample_chain_env no_contracts unheard sample_genesis False False False sample_node = (Val (), t) \<and>
    bc_header_index t = [hash_text sample_primitives (sample_header 0)] \<and> bc_current_block_height t = 0"
  using restart_recreates [OF sample_start(2,1), of no_contracts unheard False] sample_facts(8)
  by (auto simp: sample_genesis_def) (simp add: sample_header_def)

lemma batch_lost_on_restart_witness:
  "\<exists>t u. bc_AddHeaders sample_chain_env sample_batch sample_node = (Val 2, t) \<and>
    bc_header_index t = map (\<lambda>n. hash_text sample_primitives (sample_header n)) [0, 1, 2] \<and>
    Blockchain_init sample_chain_env no_contracts unheard sample_genesis False False False t = (Val (), u) \<and>
    bc_header_index u = map (\<lambda>n. hash_text sample_primitives (sample_header n)) [0, 2]"
proof -
  have g: "blk_base sample_genesis = sample_header 0" "bb_Index (sample_header 0) = 0"
    by (simp_all add: sample_genesis_def sample_header_def)
  have b: "length sample_batch = 2" "last sample_batch = sample_header 2" "last sample_batch \<in> set sample_batch"
    by (simp_all add: sample_batch_def)
  show ?thesis
    using batch_lost_on_restart [of sample_chain_env sample_node "[sample_header 0]" 0 sample_genesis sample_batch no_contracts unheard False]
      sample_facts sample_start b
    by (simp add: g) (simp add: sample_batch_def, blast)
qed

end
