(* ===== verification/Persist_Properties.thy ===== *)
theory Persist_Properties
  imports Chain_Properties "HOL-Library.Multiset"
begin

text \<open>
  What persisting does: which blocks are taken and how the height moves, and what a transaction does to the
  balances and the coins of the ledger.
\<close>

section \<open>What is left alone\<close>

definition unchanged :: "('s \<Rightarrow> 'x) \<Rightarrow> ('s, 'a) m \<Rightarrow> bool" where
  "unchanged f p \<longleftrightarrow> (\<forall>s. f (snd (p s)) = f s)"

named_theorems unchanged_intros

lemma unchanged_basic [unchanged_intros]: "unchanged f (ret x)" "unchanged f (throw e)" "unchanged f (lft r)" "unchanged f (gets g)"
  by (auto simp: unchanged_def ret_def throw_def lft_def gets_def split: sum.splits)

lemma unchanged_bnd [unchanged_intros]: "unchanged f p \<Longrightarrow> (\<And>x. unchanged f (q x)) \<Longrightarrow> unchanged f (bnd p q)"
  unfolding unchanged_def bnd_def by (simp split: prod.splits res.splits) (metis snd_conv)

lemma unchanged_sq [unchanged_intros]: "unchanged f p \<Longrightarrow> unchanged f q \<Longrightarrow> unchanged f (sq p q)"
  unfolding sq_def by (rule unchanged_bnd)

lemma unchanged_mapm [unchanged_intros]: "(\<And>x. unchanged f (g x)) \<Longrightarrow> unchanged f (mapm g xs)"
  by (induction xs) (auto intro: unchanged_intros)

lemma unchanged_whenm [unchanged_intros]: "unchanged f p \<Longrightarrow> unchanged f (whenm b p)"
  by (simp add: whenm_def unchanged_basic)

lemma unchanged_modify: "(\<And>s. f (g s) = f s) \<Longrightarrow> unchanged f (modify g)"
  by (simp add: unchanged_def modify_def)

lemma unchanged_within:
  assumes "\<And>t s. f (put t s) = f s"
  shows "unchanged f (within get put p)"
  using assms by (auto simp: unchanged_def within_def split: prod.splits)

text \<open>The part of the state that only the end of \<open>Persist\<close> changes.\<close>

definition chain_view :: "'z blockchain_scheme \<Rightarrow> int \<times> block option \<times> bytes list" where
  "chain_view s = (bc_current_block_height s, bc_persisting_block s, bc_header_index s)"

lemma view_in [unchanged_intros]:
  "unchanged chain_view (in_Accounts p1)" "unchanged chain_view (in_UnspentCoins p2)"
  "unchanged chain_view (in_SpentCoins p3)" "unchanged chain_view (in_Validators p4)"
  "unchanged chain_view (in_Assets p5)" "unchanged chain_view (in_Contracts p6)"
  unfolding in_Accounts_def in_UnspentCoins_def in_SpentCoins_def in_Validators_def in_Assets_def in_Contracts_def
  by (rule unchanged_within, simp add: chain_view_def)+

lemma view_db [unchanged_intros]:
  "unchanged chain_view (on_db p)" "unchanged chain_view (on_bc_pool q)"
  by (auto simp: unchanged_def on_db_def on_bc_pool_def chain_view_def split: prod.splits)

lemma view_GetTransaction [unchanged_intros]: "unchanged chain_view (bc_GetTransaction h)"
  unfolding bc_GetTransaction_def by (intro unchanged_bnd view_db) (auto split: option.splits intro: unchanged_intros)

lemma view_GetSysFeeAmount [unchanged_intros]: "unchanged chain_view (bc_GetSysFeeAmount h)"
  unfolding bc_GetSysFeeAmount_def by (intro unchanged_bnd view_db) (auto split: option.splits sum.splits intro: unchanged_intros)

lemma view_block_sysfee [unchanged_intros]: "unchanged chain_view (block_sysfee env b)"
  unfolding block_sysfee_def by (intro unchanged_intros)

lemma view_persist_output [unchanged_intros]: "unchanged chain_view (persist_output env out)"
  unfolding persist_output_def Let_def by (intro unchanged_intros)

lemma view_persist_inputs [unchanged_intros]: "unchanged chain_view (persist_inputs env i refs h)"
  unfolding persist_inputs_def persist_input_def Let_def
  by (intro unchanged_intros) (auto split: prod.splits intro!: unchanged_intros)

lemma view_persist_issue [unchanged_intros]: "unchanged chain_view (persist_issue t)"
  unfolding persist_issue_def Let_def by (intro unchanged_intros)

lemma view_persist_claim [unchanged_intros]: "unchanged chain_view (persist_claim i)"
  unfolding persist_claim_def Let_def by (intro unchanged_bnd view_in) (auto split: option.splits intro!: unchanged_intros)

lemma view_persist_by_type [unchanged_intros]: "unchanged chain_view (persist_by_type env invoke i h t)"
  unfolding persist_by_type_def
  by (cases "tx_exclusive t") (auto intro!: unchanged_intros unchanged_modify simp: Let_def chain_view_def split: prod.splits)

lemma view_persist_tx [unchanged_intros]: "unchanged chain_view (persist_tx env invoke i t)"
  unfolding persist_tx_def by (intro unchanged_intros)

lemma view_snapshot_Commit [unchanged_intros]: "unchanged chain_view snapshot_Commit"
  unfolding unchanged_def
proof
  fix s :: "'e persisting"
  obtain r wb where "commit_snapshot (ps_snapshot s) = (r, wb)" by (cases "commit_snapshot (ps_snapshot s)")
  then show "chain_view (snd (snapshot_Commit s)) = chain_view s"
    by (cases r) (simp_all add: snapshot_Commit_def run_on_db_write chain_view_def)
qed

section \<open>The height\<close>

text \<open>A computation that changes the view to \<open>v\<close> when it returns, and leaves it when it fails.\<close>

definition sets_view :: "('s \<Rightarrow> 'x) \<Rightarrow> ('x \<Rightarrow> 'x) \<Rightarrow> ('s, 'a) m \<Rightarrow> bool" where
  "sets_view f g p \<longleftrightarrow> (\<forall>s. case p s of (Val x, t) \<Rightarrow> f t = g (f s) | (_, t) \<Rightarrow> f t = f s)"

lemma sets_view_bnd: "unchanged f p \<Longrightarrow> (\<And>x. sets_view f g (q x)) \<Longrightarrow> sets_view f g (bnd p q)"
  unfolding sets_view_def
proof
  fix s assume u: "unchanged f p" and q: "\<And>x. \<forall>s. case q x s of (Val x, t) \<Rightarrow> f t = g (f s) | (_, t) \<Rightarrow> f t = f s"
  obtain r t where p: "p s = (r, t)" by (cases "p s")
  have same: "f t = f s" using u p unfolding unchanged_def by (metis snd_conv)
  show "case bnd p q s of (Val x, t) \<Rightarrow> f t = g (f s) | (_, t) \<Rightarrow> f t = f s"
  proof (cases r)
    case (Val x)
    then show ?thesis using p same spec [OF q [of x], of t] by (auto simp: bnd_def split: prod.splits res.splits)
  qed (use p same in \<open>simp_all add: bnd_def\<close>)
qed

lemma sets_view_sq: "unchanged f p \<Longrightarrow> sets_view f g q \<Longrightarrow> sets_view f g (sq p q)"
  unfolding sq_def by (rule sets_view_bnd)

lemma persist_block_view: "sets_view chain_view (\<lambda>(h, b', hs). (bb_Index (blk_base b), None, hs)) (persist_block env invoke b)"
  unfolding persist_block_def
  by (rule sets_view_bnd, rule view_block_sysfee, rule sets_view_bnd, rule view_db, rule sets_view_bnd, rule view_db,
      rule sets_view_sq, intro unchanged_intros, rule sets_view_sq, rule view_snapshot_Commit, rule sets_view_bnd,
      rule unchanged_basic)
     (simp add: sets_view_def sq_def bnd_def modify_def run_on_db_write chain_view_def)

text \<open>The computation of a block before its events are emitted.\<close>

lemma Persist_cases:
  "\<exists>r t events. bc_Persist env invoke handle b s = (case r of Val u \<Rightarrow> mapm handle events t | _ \<Rightarrow> (r, t)) \<and>
    chain_view t = (case r of Val u \<Rightarrow> (bb_Index (blk_base b), None, bc_header_index s)
      | _ \<Rightarrow> (bc_current_block_height s, Some b, bc_header_index s))"
proof -
  let ?start = "blockchain.extend (s\<lparr>bc_persisting_block := Some b\<rparr>) (persisting.fields (createSnapshot (bc_db s) b) [])"
  obtain r t where run: "persist_block env invoke b ?start = (r, t)" by (cases "persist_block env invoke b ?start")
  have start: "chain_view ?start = (bc_current_block_height s, Some b, bc_header_index s)"
    by (simp add: chain_view_def blockchain.defs persisting.defs)
  have "chain_view (blockchain.truncate t) = chain_view t" by (simp add: chain_view_def blockchain.defs)
  moreover have "case r of Val x \<Rightarrow> chain_view t = (bb_Index (blk_base b), None, bc_header_index s)
      | _ \<Rightarrow> chain_view t = (bc_current_block_height s, Some b, bc_header_index s)"
    using persist_block_view [of b env invoke, unfolded sets_view_def, THEN spec, of ?start] run start by (auto split: res.splits)
  ultimately show ?thesis
    using run by (intro exI [of _ r] exI [of _ "blockchain.truncate t"] exI [of _ "ps_dispatch t"])
      (auto simp: bc_Persist_def Let_def split: res.splits)
qed

lemma mapm_raises:
  assumes "mapm f xs s = (r, t)" "\<forall>u. r \<noteq> Val u"
  shows "\<exists>x s. \<forall>u. fst (f x s) \<noteq> Val u"
  using assms
proof (induction xs arbitrary: s)
  case (Cons x xs)
  then show ?case
  proof (cases "fst (f x s)")
    case (Val u)
    then obtain s' where "f x s = (Val u, s')" by (metis prod.collapse)
    then show ?thesis using Cons by (simp add: sq_def bnd_def)
  qed (use Cons in \<open>metis res.distinct(1,3)\<close>)+
qed (simp add: ret_def)


section \<open>The caches of the ledger\<close>

text \<open>What is in a cache need not fit its format yet, as long as the database does.\<close>

lemma weaker_source:
  assumes "cache_source I valid rd pend ok" "\<And>v. ok v \<Longrightarrow> ok' v"
  shows "cache_source I valid rd pend ok'"
  using assms unfolding cache_source_def by blast

lemma acc_ok_wf: "acc_ok a \<Longrightarrow> account_wf a"
  by (simp add: acc_ok_def account_wf_def balances_ok_def)

interpretation accounts: cache_source Accounts "ldb_valid DB_Account acc_enc acc_ok" "ldb_rd DB_Account acc_Deserialize"
    "ldb_pend DB_Account acc_Deserialize" account_wf
  unfolding Accounts_def by (rule weaker_source [OF store.axioms(1) [OF account.leveldb_store] acc_ok_wf])

interpretation coins: cache_source UnspentCoins "ldb_valid ST_Coin unspent_enc unspent_ok" "ldb_rd ST_Coin unspent_Deserialize"
    "ldb_pend ST_Coin unspent_Deserialize" "\<lambda>items. True"
  unfolding UnspentCoins_def by (rule weaker_source [OF store.axioms(1) [OF unspent_coins.leveldb_store]]) simp

interpretation spent: cache_source SpentCoins "ldb_valid ST_SpentCoin sc_enc sc_ok" "ldb_rd ST_SpentCoin sc_Deserialize"
    "ldb_pend ST_SpentCoin sc_Deserialize" "\<lambda>st. True"
  unfolding SpentCoins_def by (rule weaker_source [OF store.axioms(1) [OF spent_coin.leveldb_store]]) simp

definition accounts_good :: "(leveldb, bytes, account_state) data_cache \<Rightarrow> bool" where
  "accounts_good = cache_inv (ldb_valid DB_Account acc_enc acc_ok) (ldb_rd DB_Account acc_Deserialize) (ldb_pend DB_Account acc_Deserialize) account_wf"

definition coins_good :: "(leveldb, bytes, int list) data_cache \<Rightarrow> bool" where
  "coins_good = cache_inv (ldb_valid ST_Coin unspent_enc unspent_ok) (ldb_rd ST_Coin unspent_Deserialize) (ldb_pend ST_Coin unspent_Deserialize) (\<lambda>items. True)"

definition spent_good :: "(leveldb, bytes, spent_coin_state) data_cache \<Rightarrow> bool" where
  "spent_good = cache_inv (ldb_valid ST_SpentCoin sc_enc sc_ok) (ldb_rd ST_SpentCoin sc_Deserialize) (ldb_pend ST_SpentCoin sc_Deserialize) (\<lambda>st. True)"

definition account_at :: "'e persisting \<Rightarrow> bytes \<Rightarrow> account_state option" where
  "account_at s = dc_view (ldb_rd DB_Account acc_Deserialize) (ls_Accounts (ps_snapshot s))"

definition coins_at :: "'e persisting \<Rightarrow> bytes \<Rightarrow> int list option" where
  "coins_at s = dc_view (ldb_rd ST_Coin unspent_Deserialize) (ls_UnspentCoins (ps_snapshot s))"

text \<open>An item is taken for a change, and changed.\<close>

context cache_source
begin

lemma change_ok:
  assumes "good c" "case factory of None \<Rightarrow> True | Some v \<Rightarrow> ok v"
    "(case view c k of Some v \<Rightarrow> Some v | None \<Rightarrow> factory) = Some v" "g v = Inr w" "ok w"
  shows "\<exists>c1 c2. dc_GetAndChange I k factory c = (Val v, c1) \<and> dc_mutate k g c1 = (Val (), c2) \<and> good c2 \<and> view c2 = (view c)(k \<mapsto> w)"
proof -
  obtain c1 where c1: "dc_GetAndChange I k factory c = (Val v, c1)" "good c1" "view c1 = (view c)(k \<mapsto> v)" "changing c1 k v"
    using dc_GetAndChange_ok [OF assms(1,2), of k] assms(3) by auto
  obtain c2 where "dc_mutate k g c1 = (Val (), c2)" "good c2" "view c2 = (view c1)(k \<mapsto> w)"
    using dc_mutate_ok [where g = g and v = v and w = w, OF c1(2,4) assms(4,5)] by blast
  with c1 show ?thesis by auto
qed

end

section \<open>Balances\<close>

text \<open>The balance of an address in an asset; who has no account has nothing.\<close>

definition balance :: "'e persisting \<Rightarrow> bytes \<Rightarrow> bytes \<Rightarrow> int" where
  "balance s address asset = (case account_at s address of None \<Rightarrow> 0 | Some a \<Rightarrow> balance_map a asset)"

lemma new_account_ok: "account_wf (new_account h)" "balance_map (new_account h) = (\<lambda>asset. 0)"
  by (simp_all add: account_wf_def balance_map_def new_account_def AccountState_def fun_eq_iff)

lemma credit_ok:
  assumes "account_wf a"
  shows "account_wf (credit k v a)" "balance_map (credit k v a) = (balance_map a)(Data k := balance_map a (Data k) + fx_value v)"
proof -
  have "credit k v a = (if HasBalance k a
      then a\<lparr>acc_Balances := map (\<lambda>(l, w). if uint_eq l k then (l, fx_add w v) else (l, w)) (acc_Balances a)\<rparr>
      else a\<lparr>acc_Balances := acc_Balances a @ [(k, v)]\<rparr>)"
    by (simp add: credit_def AddToBalance_def SetBalanceFor_def)
  from balance_step [OF assms this] show "account_wf (credit k v a)"
    "balance_map (credit k v a) = (balance_map a)(Data k := balance_map a (Data k) + fx_value v)"
    by (simp_all add: fx_add_def balance_map_def BalanceFor_def balance_of_lookup)
qed

lemma debit_ok:
  assumes "account_wf a"
  shows "account_wf (SubtractFromBalance k v a)"
    "balance_map (SubtractFromBalance k v a) = (balance_map a)(Data k := balance_map a (Data k) - fx_value v)"
  using balance_step [OF assms SubtractFromBalance_def]
  by (simp_all add: fx_sub_def fx_mul_def balance_map_def BalanceFor_def balance_of_lookup)

section \<open>Moves of coins\<close>

text \<open>Amounts that are added to the balance of an address in an asset.\<close>

definition moved :: "(bytes \<times> bytes \<times> int) list \<Rightarrow> bytes \<Rightarrow> bytes \<Rightarrow> int" where
  "moved ms address asset = sum_list (map (\<lambda>(k, a, v). if k = address \<and> a = asset then v else 0) ms)"

definition ledger_ok :: "'e persisting \<Rightarrow> bool" where
  "ledger_ok s \<longleftrightarrow> pool_ok s \<and> accounts_good (ls_Accounts (ps_snapshot s)) \<and> coins_good (ls_UnspentCoins (ps_snapshot s)) \<and>
     spent_good (ls_SpentCoins (ps_snapshot s))"

definition coin_key :: "coin_reference \<Rightarrow> bytes" where
  "coin_key i = uint_ToBytes (PrevHash i)"

definition is_spent :: "int \<Rightarrow> bool" where
  "is_spent item \<longleftrightarrow> and item CS_Spent \<noteq> 0"

definition coin_spent :: "'e persisting \<Rightarrow> coin_reference \<Rightarrow> bool" where
  "coin_spent s i \<longleftrightarrow> (\<exists>items. coins_at s (coin_key i) = Some items \<and> 0 \<le> PrevIndex i \<and> PrevIndex i < int (length items) \<and>
     is_spent (items ! nat (PrevIndex i)))"

text \<open>
  What a step of persisting does: the balances move, the coins of \<open>refs\<close> are spent, and no coin that was spent
  is unspent again; the database and what makes the ledger readable stay.
\<close>

definition keeps_coins :: "'e persisting \<Rightarrow> 'e persisting \<Rightarrow> bool" where
  "keeps_coins s u \<longleftrightarrow> (\<forall>h items. coins_at s h = Some items \<longrightarrow>
     (\<exists>items'. coins_at u h = Some items' \<and> list_all2 (\<lambda>x y. is_spent x \<longrightarrow> is_spent y) items items'))"

definition effect :: "'e persisting \<Rightarrow> 'e persisting \<Rightarrow> (bytes \<times> bytes \<times> int) list \<Rightarrow> coin_reference list \<Rightarrow> bool" where
  "effect s u ms refs \<longleftrightarrow> ledger_ok u \<and> ldb (bc_db u) = ldb (bc_db s) \<and>
     (\<forall>k a. balance u k a = balance s k a + moved ms k a) \<and> keeps_coins s u \<and> (\<forall>i\<in>set refs. coin_spent u i)"

lemma keeps_coins_refl: "keeps_coins s s"
  by (auto simp: keeps_coins_def intro: list_all2_refl)

lemma keeps_coins_trans:
  assumes "keeps_coins s t" "keeps_coins t u"
  shows "keeps_coins s u"
  unfolding keeps_coins_def
proof (intro allI impI)
  fix h items assume "coins_at s h = Some items"
  then obtain xs ys where xs: "list_all2 (\<lambda>x y. is_spent x \<longrightarrow> is_spent y) items xs" "coins_at u h = Some ys"
      "list_all2 (\<lambda>x y. is_spent x \<longrightarrow> is_spent y) xs ys"
    using assms unfolding keeps_coins_def by metis
  have "list_all2 (\<lambda>x y. is_spent x \<longrightarrow> is_spent y) items ys"
    by (rule list_all2_trans [OF _ xs(1,3)]) blast
  then show "\<exists>items'. coins_at u h = Some items' \<and> list_all2 (\<lambda>x y. is_spent x \<longrightarrow> is_spent y) items items'"
    using xs(2) by blast
qed

lemma coin_spent_keeps: "keeps_coins s u \<Longrightarrow> coin_spent s i \<Longrightarrow> coin_spent u i"
proof -
  assume k: "keeps_coins s u" and "coin_spent s i"
  then obtain xs where xs: "coins_at s (coin_key i) = Some xs" "0 \<le> PrevIndex i" "PrevIndex i < int (length xs)" "is_spent (xs ! nat (PrevIndex i))"
    by (auto simp: coin_spent_def)
  then obtain ys where "coins_at u (coin_key i) = Some ys" "list_all2 (\<lambda>x y. is_spent x \<longrightarrow> is_spent y) xs ys"
    using k unfolding keeps_coins_def by blast
  with xs show "coin_spent u i" by (auto simp: coin_spent_def list_all2_conv_all_nth)
qed

lemma effect_refl: "ledger_ok s \<Longrightarrow> effect s s [] []"
  by (simp add: effect_def moved_def keeps_coins_refl)

lemma effect_trans:
  assumes "effect s t ms refs" "effect t u ns more_refs"
  shows "effect s u (ms @ ns) (refs @ more_refs)"
proof -
  have "coin_spent u i" if "i \<in> set refs" for i
    using that assms coin_spent_keeps unfolding effect_def by blast
  then show ?thesis
    using assms keeps_coins_trans unfolding effect_def by (auto simp: moved_def)
qed

lemma effect_mapm:
  assumes "ledger_ok s" "\<And>x u ms refs. x \<in> set xs \<Longrightarrow> effect s u ms refs \<Longrightarrow> \<exists>v. p x u = (Val (), v) \<and> effect u v (f x) (g x)"
  shows "\<exists>u. mapm p xs s = (Val (), u) \<and> effect s u (concat (map f xs)) (concat (map g xs))"
proof -
  have "\<exists>u. mapm p xs t = (Val (), u) \<and> effect t u (concat (map f xs)) (concat (map g xs))" if "effect s t ms refs" for t ms refs
    using that assms(2)
  proof (induction xs arbitrary: t ms refs)
    case Nil
    then show ?case using effect_refl by (auto simp: ret_def effect_def)
  next
    case (Cons x xs)
    obtain u where u: "p x t = (Val (), u)" "effect t u (f x) (g x)" using Cons.prems by fastforce
    obtain v where "mapm p xs u = (Val (), v)" "effect u v (concat (map f xs)) (concat (map g xs))"
      using Cons.IH [OF effect_trans [OF Cons.prems(1) u(2)]] Cons.prems(2) by fastforce
    then show ?case using u effect_trans [OF u(2)] by (auto simp: sq_val)
  qed
  then show ?thesis using effect_refl [OF assms(1)] by blast
qed

section \<open>The steps\<close>

lemma account_change:
  assumes "ledger_ok s"
    "\<And>a. account_wf a \<Longrightarrow> account_wf (f a) \<and> balance_map (f a) = (balance_map a)(asset := balance_map a asset + d)"
  shows "\<exists>u. sq (in_Accounts (dc_GetAndChange Accounts k (Some (new_account h)))) (in_Accounts (dc_mutate k (\<lambda>a. Inr (f a)))) s = (Val (), u) \<and>
    effect s u [(k, asset, d)] []"
proof -
  let ?c = "ls_Accounts (ps_snapshot s)"
  have good: "accounts_good ?c" using assms(1) by (simp add: ledger_ok_def)
  define a where "a = (case account_at s k of Some a \<Rightarrow> a | None \<Rightarrow> new_account h)"
  have wf: "account_wf a"
  proof (cases "account_at s k")
    case (Some b)
    then show ?thesis
      using accounts.view_ok [of ?c k b] good by (simp add: a_def account_at_def accounts_good_def)
  qed (simp add: a_def new_account_ok)
  obtain c1 c2 where c: "dc_GetAndChange Accounts k (Some (new_account h)) ?c = (Val a, c1)" "dc_mutate k (\<lambda>a. Inr (f a)) c1 = (Val (), c2)"
      "accounts_good c2" "dc_view (ldb_rd DB_Account acc_Deserialize) c2 = (account_at s)(k \<mapsto> f a)"
    using accounts.change_ok [of ?c "Some (new_account h)" k a "\<lambda>a. Inr (f a)" "f a"] good wf assms(2) new_account_ok
    by (auto simp: accounts_good_def account_at_def a_def split: option.splits)
  let ?u = "s\<lparr>ps_snapshot := (ps_snapshot s)\<lparr>ls_Accounts := c2\<rparr>\<rparr>"
  have run: "sq (in_Accounts (dc_GetAndChange Accounts k (Some (new_account h)))) (in_Accounts (dc_mutate k (\<lambda>a. Inr (f a)))) s = (Val (), ?u)"
    using c(1,2) by (simp add: in_Accounts_def sq_def bnd_def within_def)
  have before: "balance s k asset' = balance_map a asset'" for asset'
    by (simp add: balance_def a_def new_account_ok split: option.split)
  have at: "account_at ?u = (account_at s)(k \<mapsto> f a)" using c(4) by (simp add: account_at_def)
  have "balance ?u k' a' = balance s k' a' + moved [(k, asset, d)] k' a'" for k' a'
    using assms(2) [OF wf] before by (auto simp: balance_def [of ?u] at moved_def) (auto simp: balance_def)
  moreover have "coins_at ?u = coins_at s" by (simp add: coins_at_def fun_eq_iff)
  ultimately have "effect s ?u [(k, asset, d)] []"
    using assms(1) c(3) keeps_coins_refl [of s] by (simp add: effect_def ledger_ok_def pool_ok_def keeps_coins_def)
  with run show ?thesis by blast
qed

definition out_move :: "chain_env \<Rightarrow> tx_output \<Rightarrow> bytes \<times> bytes \<times> int" where
  "out_move env out = (ce_AddressBytes env (ScriptHash out), Data (AssetId out), fx_value (Value out))"

lemma persist_output_effect:
  assumes "ledger_ok s"
  shows "\<exists>u. persist_output env out s = (Val (), u) \<and> effect s u [out_move env out] []"
  unfolding persist_output_def Let_def out_move_def
  by (rule account_change [OF assms]) (simp add: credit_ok)

text \<open>A coin of a stored transaction, whose state is known.\<close>

definition spendable :: "(bytes \<Rightarrow> tx) \<Rightarrow> (bytes \<Rightarrow> int) \<Rightarrow> 'e persisting \<Rightarrow> coin_reference \<Rightarrow> bool" where
  "spendable prev height s i \<longleftrightarrow> tx_ok (prev (coin_key i)) \<and> 0 \<le> height (coin_key i) \<and> height (coin_key i) < 2 ^ 32 \<and>
     map_of (ldb (bc_db s)) (DATA_Transaction @ coin_key i) = Some (int_bytes 4 (height (coin_key i)) @ hexlify (tx_enc (prev (coin_key i)))) \<and>
     0 \<le> PrevIndex i \<and> PrevIndex i < int (length (tx_outputs (prev (coin_key i)))) \<and>
     (\<exists>items. coins_at s (coin_key i) = Some items \<and> PrevIndex i < int (length items))"

definition spent_output :: "(bytes \<Rightarrow> tx) \<Rightarrow> coin_reference \<Rightarrow> tx_output" where
  "spent_output prev i = tx_outputs (prev (coin_key i)) ! nat (PrevIndex i)"

definition in_move :: "chain_env \<Rightarrow> (bytes \<Rightarrow> tx) \<Rightarrow> coin_reference \<Rightarrow> bytes \<times> bytes \<times> int" where
  "in_move env prev i =
     (let out = spent_output prev i in (ce_AddressBytes env (ScriptHash out), Data (AssetId out), - fx_value (Value out)))"

lemma spendable_effect:
  assumes "spendable prev height s i" "effect s u ms refs"
  shows "spendable prev height u i"
proof -
  obtain items where "coins_at s (coin_key i) = Some items" "PrevIndex i < int (length items)"
    using assms(1) by (auto simp: spendable_def)
  then obtain items' where "coins_at u (coin_key i) = Some items'" "PrevIndex i < int (length items')"
    using assms(2) unfolding effect_def keeps_coins_def by (metis list_all2_lengthD)
  then show ?thesis using assms by (auto simp: spendable_def effect_def)
qed

lemma or_spent: "is_spent (or x CS_Spent)"
proof -
  have "and (or x CS_Spent) CS_Spent = CS_Spent" by (simp add: bit_eq_iff bit_simps) blast
  then show ?thesis by (simp add: is_spent_def CS_Spent_def)
qed

lemma coin_change:
  assumes "ledger_ok s" "coins_at s (coin_key i) = Some items" "0 \<le> PrevIndex i" "PrevIndex i < int (length items)"
  shows "\<exists>u. sq (in_UnspentCoins (dc_GetAndChange UnspentCoins (coin_key i) None))
      (in_UnspentCoins (dc_mutate (coin_key i) (spend (PrevIndex i)))) s = (Val (), u) \<and> effect s u [] [i]"
proof -
  let ?c = "ls_UnspentCoins (ps_snapshot s)" and ?j = "nat (PrevIndex i)"
  let ?items = "items[?j := or (items ! ?j) CS_Spent]"
  have good: "coins_good ?c" using assms(1) by (simp add: ledger_ok_def)
  have "spend (PrevIndex i) items = Inr ?items"
    using assms(3,4) by (simp add: spend_def py_nth_def py_set_def py_index_def)
  then obtain c1 c2 where c: "dc_GetAndChange UnspentCoins (coin_key i) None ?c = (Val items, c1)"
      "dc_mutate (coin_key i) (spend (PrevIndex i)) c1 = (Val (), c2)"
      "coins_good c2" "dc_view (ldb_rd ST_Coin unspent_Deserialize) c2 = (coins_at s)(coin_key i \<mapsto> ?items)"
    using coins.change_ok [of ?c None "coin_key i" items "spend (PrevIndex i)" ?items] good assms(2)
    by (auto simp: coins_good_def coins_at_def)
  let ?u = "s\<lparr>ps_snapshot := (ps_snapshot s)\<lparr>ls_UnspentCoins := c2\<rparr>\<rparr>"
  have at: "coins_at ?u = (coins_at s)(coin_key i \<mapsto> ?items)" using c(4) by (simp add: coins_at_def)
  have "list_all2 (\<lambda>x y. is_spent x \<longrightarrow> is_spent y) xs (xs[?j := or (xs ! ?j) CS_Spent])" for xs
    by (auto simp: list_all2_conv_all_nth) (metis or_spent nth_list_update_eq nth_list_update_neq)
  then have "keeps_coins s ?u" using assms(2) by (auto simp: keeps_coins_def at intro: list_all2_refl)
  moreover have "coin_spent ?u i" using assms(3,4) or_spent by (simp add: coin_spent_def at)
  moreover have "balance ?u k a = balance s k a" for k a by (simp add: balance_def account_at_def)
  ultimately have "effect s ?u [] [i]"
    using assms(1) c(3) by (simp add: effect_def ledger_ok_def pool_ok_def moved_def)
  moreover have "sq (in_UnspentCoins (dc_GetAndChange UnspentCoins (coin_key i) None))
      (in_UnspentCoins (dc_mutate (coin_key i) (spend (PrevIndex i)))) s = (Val (), ?u)"
    using c(1,2) by (simp add: in_UnspentCoins_def sq_def bnd_def within_def)
  ultimately show ?thesis by blast
qed

lemma spent_change:
  assumes "ledger_ok s"
  shows "\<exists>u. sq (in_SpentCoins (dc_GetAndChange SpentCoins k (Some st))) (in_SpentCoins (dc_mutate k (\<lambda>st. Inr (f st)))) s = (Val (), u) \<and>
    effect s u [] []"
proof -
  let ?c = "ls_SpentCoins (ps_snapshot s)"
  have good: "spent_good ?c" using assms(1) by (simp add: ledger_ok_def)
  obtain x c1 c2 where c: "dc_GetAndChange SpentCoins k (Some st) ?c = (Val x, c1)" "dc_mutate k (\<lambda>st. Inr (f st)) c1 = (Val (), c2)" "spent_good c2"
    using spent.change_ok [of ?c "Some st" k _ "\<lambda>st. Inr (f st)"] good by (fastforce simp: spent_good_def split: option.splits)
  let ?u = "s\<lparr>ps_snapshot := (ps_snapshot s)\<lparr>ls_SpentCoins := c2\<rparr>\<rparr>"
  have "balance ?u k a = balance s k a" "coins_at ?u = coins_at s" for k a by (simp_all add: balance_def account_at_def coins_at_def fun_eq_iff)
  then have "effect s ?u [] []"
    using assms(1) c(3) keeps_coins_refl [of s] by (simp add: effect_def ledger_ok_def pool_ok_def moved_def keeps_coins_def)
  moreover have "sq (in_SpentCoins (dc_GetAndChange SpentCoins k (Some st))) (in_SpentCoins (dc_mutate k (\<lambda>st. Inr (f st)))) s = (Val (), ?u)"
    using c(1,2) by (simp add: in_SpentCoins_def sq_def bnd_def within_def)
  ultimately show ?thesis by blast
qed

lemma run_both: "sq p q s = (Val x, t) \<Longrightarrow> sq p (sq q r) s = r t"
  using sq_val [of "sq p q" s x t r] by (simp add: run_assoc)

lemma persist_input_effect:
  assumes "ledger_ok s" "spendable prev height s i"
  shows "\<exists>u. persist_input env n (Some (prev (coin_key i))) h i s = (Val (), u) \<and> effect s u [in_move env prev i] [i]"
proof -
  obtain items where items: "coins_at s (coin_key i) = Some items" "0 \<le> PrevIndex i" "PrevIndex i < int (length items)"
    using assms(2) by (auto simp: spendable_def)
  obtain u1 where u1: "sq (in_UnspentCoins (dc_GetAndChange UnspentCoins (coin_key i) None))
      (in_UnspentCoins (dc_mutate (coin_key i) (spend (PrevIndex i)))) s = (Val (), u1)" "effect s u1 [] [i]"
    using coin_change [OF assms(1) items] by blast
  have out: "output_of (Some (prev (coin_key i))) (PrevIndex i) = Inr (spent_output prev i)"
    using assms(2) by (simp add: output_of_def spendable_def py_nth_def py_index_def spent_output_def)
  let ?st = "\<lparr>sc_TransactionHash = Some (PrevHash i), sc_TransactionHeight = h, sc_Items = []\<rparr>"
  let ?share = "sq (in_SpentCoins (dc_GetAndChange SpentCoins (coin_key i) (Some ?st)))
      (in_SpentCoins (dc_mutate (coin_key i) (\<lambda>st. Inr (st\<lparr>sc_Items := sc_Items st @ [\<lparr>sc_index = PrevIndex i, sc_height = n\<rparr>]\<rparr>))))"
  let ?cond = "uint_ToBytes (AssetId (spent_output prev i)) = uint_ToBytes (SystemShare_Hash (ce_fees env))"
  have ok1: "ledger_ok u1" using u1(2) by (simp add: effect_def)
  obtain u2 where u2: "whenm ?cond ?share u1 = (Val (), u2)" "effect u1 u2 [] []"
  proof (cases ?cond)
    case True
    then show ?thesis
      using that spent_change [OF ok1, of "coin_key i" ?st "\<lambda>st. st\<lparr>sc_Items := sc_Items st @ [\<lparr>sc_index = PrevIndex i, sc_height = n\<rparr>]\<rparr>"]
      by (auto simp: whenm_def)
  next
    case False
    then show ?thesis using that effect_refl [OF ok1] by (simp add: whenm_def ret_def)
  qed
  have ok2: "ledger_ok u2" using u2(2) by (simp add: effect_def)
  let ?out = "spent_output prev i"
  obtain u3 where u3: "sq (in_Accounts (dc_GetAndChange Accounts (ce_AddressBytes env (ScriptHash ?out)) (Some (new_account (ScriptHash ?out)))))
      (in_Accounts (dc_mutate (ce_AddressBytes env (ScriptHash ?out)) (\<lambda>a. Inr (SubtractFromBalance (AssetId ?out) (Value ?out) a)))) u2 = (Val (), u3)"
      "effect u2 u3 [in_move env prev i] []"
    unfolding in_move_def Let_def
    using account_change [OF ok2, of "SubtractFromBalance (AssetId ?out) (Value ?out)" "Data (AssetId ?out)" "- fx_value (Value ?out)"
        "ce_AddressBytes env (ScriptHash ?out)" "ScriptHash ?out"] debit_ok by auto
  have "persist_input env n (Some (prev (coin_key i))) h i s = (Val (), u3)"
    using u1(1) u2(1) u3(1) out
    by (simp add: persist_input_def Let_def coin_key_def [symmetric] run_both sq_val run_lft)
  then show ?thesis using effect_trans [OF effect_trans [OF u1(2) u2(2)] u3(2)] by auto
qed

text \<open>The inputs, grouped by the hashes of their transactions, are the inputs in another order.\<close>

lemma ToBytes_eq: "uint_ToBytes u = uint_ToBytes v \<longleftrightarrow> Data u = Data v"
proof
  assume "uint_ToBytes u = uint_ToBytes v"
  then have "unhexlify (hexlify (rev (Data u))) = unhexlify (hexlify (rev (Data v)))"
    by (simp add: uint_ToBytes_def uint_ToString_def hexlify_def)
  then show "Data u = Data v" by simp
qed (simp add: uint_ToBytes_def uint_ToString_def)

lemma unique_hashes_ok:
  assumes "distinct (map Data found)"
  shows "distinct (map Data (unique_hashes found refs)) \<and>
    Data ` set (unique_hashes found refs) = Data ` set found \<union> (\<lambda>i. Data (PrevHash i)) ` set refs"
  using assms
proof (induction found refs rule: unique_hashes.induct)
  case (2 found i refs)
  show ?case
  proof (cases "list_ex (\<lambda>u. uint_eq u (PrevHash i)) found")
    case True
    then obtain u where "u \<in> set found" "Data u = Data (PrevHash i)" by (auto simp: list_ex_iff uint_eq_def)
    then have "Data (PrevHash i) \<in> Data ` set found" by (metis imageI)
    then show ?thesis using 2 True by auto
  next
    case False
    then have "Data (PrevHash i) \<notin> Data ` set found" by (auto simp: list_ex_iff uint_eq_def)
    then show ?thesis using 2 False by auto
  qed
qed simp

lemma mset_groups:
  "distinct ks \<Longrightarrow> mset (concat (map (\<lambda>k. filter (\<lambda>x. f x = k) xs) ks)) = mset (filter (\<lambda>x. f x \<in> set ks) xs)"
proof (induction ks)
  case (Cons k ks)
  have "mset (filter (\<lambda>x. f x = k) xs) + mset (filter (\<lambda>x. f x \<in> set ks) xs) = mset (filter (\<lambda>x. f x = k \<or> f x \<in> set ks) xs)"
    using Cons.prems by (induction xs) auto
  then show ?case using Cons by simp
qed simp

lemma mset_by_hash:
  "mset (concat (map (\<lambda>h. filter (\<lambda>i. uint_ToBytes (PrevHash i) = uint_ToBytes h) refs) (unique_hashes [] refs))) = mset refs"
proof -
  have u: "distinct (map Data (unique_hashes [] refs))" "Data ` set (unique_hashes [] refs) = (\<lambda>i. Data (PrevHash i)) ` set refs"
    using unique_hashes_ok [of "[]" refs] by simp_all
  have "filter (\<lambda>i. Data (PrevHash i) \<in> Data ` set (unique_hashes [] refs)) refs = refs" by (simp add: u(2))
  then show ?thesis
    using mset_groups [OF u(1), of "\<lambda>i. Data (PrevHash i)" refs] by (simp add: ToBytes_eq comp_def)
qed

lemma moved_mset:
  assumes "mset ms = mset ns"
  shows "moved ms k a = moved ns k a"
proof -
  have "mset (map f ms) = mset (map f ns)" for f :: "bytes \<times> bytes \<times> int \<Rightarrow> int" using assms by simp
  then have "sum_list (map f ms) = sum_list (map f ns)" for f :: "bytes \<times> bytes \<times> int \<Rightarrow> int" by (metis sum_mset_sum_list)
  then show ?thesis by (simp add: moved_def)
qed

text \<open>A stored transaction is found by its hash, with the index of its block.\<close>

lemma run_GetTransaction:
  assumes "map_of (ldb (bc_db s)) (DATA_Transaction @ k) = Some (int_bytes 4 h @ hexlify (tx_enc t))" "tx_ok t" "0 \<le> h" "h < 2 ^ 32" "pool_ok s"
  shows "\<exists>p. bc_GetTransaction k s = (Val (Some t, h), with_pool p s) \<and> pool_wf p"
proof -
  have "yields (DeserializeFromBufer (tx_enc t)) t"
    unfolding DeserializeFromBufer_def
    using yields_reads [OF transaction.deser_reads [OF assms(2)], of "[]" id] by simp
  from run_bc_pool [OF this assms(5)]
  obtain p where "on_bc_pool (DeserializeFromBufer (tx_enc t)) s = (Val t, with_pool p s)" "pool_wf p" by blast
  then show ?thesis
    using assms(1,3,4)
    by (intro exI [of _ p]) (simp add: bc_GetTransaction_def bnd_val run_on_db_get ret_def length_int_bytes from_bytes_u_int_bytes)
qed

lemma effect_pool: "ledger_ok s \<Longrightarrow> pool_wf p \<Longrightarrow> effect s (with_pool p s) [] []"
  using keeps_coins_refl [of s]
  by (simp add: effect_def ledger_ok_def moved_def balance_def account_at_def coins_at_def keeps_coins_def) (simp add: with_pool_def)

lemma persist_inputs_effect:
  assumes "ledger_ok s" "\<forall>i\<in>set refs. spendable prev height s i" "\<exists>i\<in>set refs. Data (PrevHash i) = Data h"
  defines "here \<equiv> filter (\<lambda>i. uint_ToBytes (PrevHash i) = uint_ToBytes h) refs"
  shows "\<exists>u. persist_inputs env n refs h s = (Val (), u) \<and> effect s u (map (in_move env prev) here) here"
proof -
  obtain j where j: "j \<in> set refs" "coin_key j = uint_ToBytes h" using assms(3) by (auto simp: coin_key_def ToBytes_eq)
  then have "spendable prev height s j" using assms(2) by blast
  then obtain p where p: "bc_GetTransaction (uint_ToBytes h) s = (Val (Some (prev (uint_ToBytes h)), height (uint_ToBytes h)), with_pool p s)" "pool_wf p"
    using run_GetTransaction [of s "uint_ToBytes h"] assms(1) unfolding spendable_def j(2) ledger_ok_def by blast
  let ?s = "with_pool p s"
  have e: "effect s ?s [] []" by (rule effect_pool [OF assms(1) p(2)])
  have step: "\<exists>v. persist_input env n (Some (prev (uint_ToBytes h))) (height (uint_ToBytes h)) i u = (Val (), v) \<and> effect u v [in_move env prev i] [i]"
    if i: "i \<in> set here" "effect ?s u ms more_refs" for i u ms more_refs
  proof -
    have "coin_key i = uint_ToBytes h" "spendable prev height u i"
      using i assms(2) spendable_effect [OF _ effect_trans [OF e i(2)]] by (auto simp: here_def coin_key_def)
    moreover have "ledger_ok u" using i(2) by (simp add: effect_def)
    ultimately show ?thesis using persist_input_effect [of u prev height i env n "height (uint_ToBytes h)"] by simp
  qed
  have "ledger_ok ?s" using e by (simp add: effect_def)
  then have "\<exists>u. mapm (persist_input env n (Some (prev (uint_ToBytes h))) (height (uint_ToBytes h))) here ?s = (Val (), u) \<and>
      effect ?s u (concat (map (\<lambda>i. [in_move env prev i]) here)) (concat (map (\<lambda>i. [i]) here))"
    by (rule effect_mapm) (rule step)
  then obtain u where "mapm (persist_input env n (Some (prev (uint_ToBytes h))) (height (uint_ToBytes h))) here ?s = (Val (), u)"
      "effect ?s u (map (in_move env prev) here) here"
    by (auto simp: concat_map_singleton)
  then show ?thesis
    using p(1) effect_trans [OF e] by (auto simp: persist_inputs_def bnd_val here_def)
qed

section \<open>A transaction\<close>

lemma new_coins_effect:
  assumes "ledger_ok s" "coins_at s k = None"
  shows "\<exists>u. in_UnspentCoins (dc_Add k items) s = (Val (), u) \<and> effect s u [] [] \<and> coins_at u k = Some items"
proof -
  let ?c = "ls_UnspentCoins (ps_snapshot s)"
  obtain c where c: "dc_Add k items ?c = (Val (), c)" "coins_good c" "dc_view (ldb_rd ST_Coin unspent_Deserialize) c = (coins_at s)(k \<mapsto> items)"
    using coins.dc_Add_ok [where c = ?c and k = k and v = items] assms by (auto simp: ledger_ok_def coins_good_def coins_at_def)
  let ?u = "s\<lparr>ps_snapshot := (ps_snapshot s)\<lparr>ls_UnspentCoins := c\<rparr>\<rparr>"
  have new: "coins_at ?u = (coins_at s)(k \<mapsto> items)" using c(3) by (simp add: coins_at_def)
  then have "keeps_coins s ?u" using assms(2) by (auto simp: keeps_coins_def intro: list_all2_refl)
  moreover have "balance ?u k a = balance s k a" for k a by (simp add: balance_def account_at_def)
  ultimately have "effect s ?u [] []" using assms(1) c(2) by (simp add: effect_def ledger_ok_def pool_ok_def moved_def)
  moreover have "in_UnspentCoins (dc_Add k items) s = (Val (), ?u)" using c(1) by (simp add: in_UnspentCoins_def within_def)
  ultimately show ?thesis using new by auto
qed

lemma concat_map_Nil: "concat (map (\<lambda>x. []) xs) = []"
  by (induction xs) simp_all

text \<open>A transaction that only moves coins, and what it needs.\<close>

definition moves_only :: "tx \<Rightarrow> bool" where
  "moves_only t \<longleftrightarrow> tx_exclusive t = ContractTransaction \<or> (\<exists>n. tx_exclusive t = MinerTransaction n)"

definition persistable :: "chain_env \<Rightarrow> (bytes \<Rightarrow> tx) \<Rightarrow> (bytes \<Rightarrow> int) \<Rightarrow> tx \<Rightarrow> 'e persisting \<Rightarrow> bool" where
  "persistable env prev height t s \<longleftrightarrow> ledger_ok s \<and> tx_ok t \<and> moves_only t \<and> (\<forall>b. length (sha256 (ce_primitives env) b) = 32) \<and>
     coins_at s (uint_ToBytes (tx_id (ce_primitives env) t)) = None \<and> (\<forall>i\<in>set (tx_inputs t). spendable prev height s i)"

lemma persist_tx_run:
  fixes s :: "'e persisting"
  assumes "persistable env prev height t s" "0 \<le> n" "n < 2 ^ 32"
  shows "\<exists>u. persist_tx env invoke n t s = (Val (), u) \<and> ledger_ok u \<and> keeps_coins s u \<and>
    (\<exists>items. coins_at u (uint_ToBytes (tx_id (ce_primitives env) t)) = Some items \<and> length items = length (tx_outputs t)) \<and> (\<forall>i\<in>set (tx_inputs t). coin_spent u i) \<and>
    (\<forall>k a. balance u k a = balance s k a + moved (map (out_move env) (tx_outputs t)) k a + moved (map (in_move env prev) (tx_inputs t)) k a) \<and>
    map_of (ldb (bc_db u)) (DATA_Transaction @ uint_ToBytes (tx_id (ce_primitives env) t)) = Some (int_bytes 4 n @ hexlify (tx_enc t))"
proof -
  let ?c = "ce_primitives env"
  define h where "h = tx_id ?c t"
  have ok: "ledger_ok s" "tx_ok t" "moves_only t" "\<And>b. length (sha256 ?c b) = 32" "coins_at s (uint_ToBytes h) = None"
      "\<forall>i\<in>set (tx_inputs t). spendable prev height s i"
    using assms(1) by (simp_all add: persistable_def h_def)
  have "yields (tx_Hash ?c t) h"
    using tx_Hash_ok [OF _ _ ok(4)] ok(2) unfolding yields_def h_def tx_ok_def by blast
  then obtain p where p: "on_bc_pool (tx_Hash ?c t) s = (Val h, with_pool p s)" "pool_wf p"
    using run_bc_pool [of "tx_Hash ?c t" h s] ok(1) by (auto simp: ledger_ok_def)
  have "yields (helper_ToArray tx_Serialize t) (hexlify (tx_enc t))"
    by (rule yields_ToArray) (rule transaction.ser_emits [OF ok(2)])
  then obtain q where q: "on_bc_pool (helper_ToArray tx_Serialize t) (with_pool p s) = (Val (hexlify (tx_enc t)), with_pool q s)" "pool_wf q"
    using run_bc_pool [of "helper_ToArray tx_Serialize t" _ "with_pool p s"] p(2) by auto
  let ?s = "with_pool q s"
  have e0: "effect s ?s [] []" by (rule effect_pool [OF ok(1) q(2)])
  have ok0: "ledger_ok ?s" "coins_at ?s (uint_ToBytes h) = None" using e0 ok(5) by (simp_all add: effect_def coins_at_def with_pool_def)
  obtain u1 where u1: "in_UnspentCoins (dc_Add (uint_ToBytes h) (FromTXOutputsConfirmed (tx_outputs t))) ?s = (Val (), u1)" "effect ?s u1 [] []"
      "coins_at u1 (uint_ToBytes h) = Some (FromTXOutputsConfirmed (tx_outputs t))"
    using new_coins_effect [OF ok0] by blast
  have e1: "effect s u1 [] []" using effect_trans [OF e0 u1(2)] by simp
  then have ok1: "ledger_ok u1" by (simp add: effect_def)
  have "\<exists>u. mapm (persist_output env) (tx_outputs t) u1 = (Val (), u) \<and>
      effect u1 u (concat (map (\<lambda>out. [out_move env out]) (tx_outputs t))) (concat (map (\<lambda>out. []) (tx_outputs t)))"
    using ok1 by (rule effect_mapm) (rule persist_output_effect, simp add: effect_def)
  then obtain u2 where u2: "mapm (persist_output env) (tx_outputs t) u1 = (Val (), u2)" "effect u1 u2 (map (out_move env) (tx_outputs t)) []"
    by (auto simp: concat_map_singleton concat_map_Nil)
  have e2: "effect s u2 (map (out_move env) (tx_outputs t)) []" using effect_trans [OF e1 u2(2)] by simp
  let ?here = "\<lambda>h. filter (\<lambda>i. uint_ToBytes (PrevHash i) = uint_ToBytes h) (tx_inputs t)" and ?hs = "unique_hashes [] (tx_inputs t)"
  have step: "\<exists>v. persist_inputs env n (tx_inputs t) h u = (Val (), v) \<and> effect u v (map (in_move env prev) (?here h)) (?here h)"
    if h: "h \<in> set ?hs" "effect u2 u ms refs" for h u ms refs
  proof (rule persist_inputs_effect)
    show "ledger_ok u" using h(2) by (simp add: effect_def)
    show "\<forall>i\<in>set (tx_inputs t). spendable prev height u i"
      using ok(6) spendable_effect [OF _ effect_trans [OF e2 h(2)]] by blast
    show "\<exists>i\<in>set (tx_inputs t). Data (PrevHash i) = Data h"
    proof -
      have "Data h \<in> Data ` set ?hs" using h(1) by blast
      then have "Data h \<in> (\<lambda>i. Data (PrevHash i)) ` set (tx_inputs t)" using unique_hashes_ok [of "[]" "tx_inputs t"] by auto
      then show ?thesis by force
    qed
  qed
  have "ledger_ok u2" using e2 by (simp add: effect_def)
  then have "\<exists>u. mapm (persist_inputs env n (tx_inputs t)) ?hs u2 = (Val (), u) \<and>
      effect u2 u (concat (map (\<lambda>h. map (in_move env prev) (?here h)) ?hs)) (concat (map ?here ?hs))"
    by (rule effect_mapm) (rule step)
  then obtain u3 where u3: "mapm (persist_inputs env n (tx_inputs t)) ?hs u2 = (Val (), u3)"
      "effect u2 u3 (concat (map (\<lambda>h. map (in_move env prev) (?here h)) ?hs)) (concat (map ?here ?hs))" by blast
  note e3 = effect_trans [OF e2 u3(2)]
  have group: "mset (concat (map ?here ?hs)) = mset (tx_inputs t)" by (rule mset_by_hash)
  then have refs: "set (concat (map ?here ?hs)) = set (tx_inputs t)" by (metis set_mset_mset)
  have "mset (concat (map (\<lambda>h. map (in_move env prev) (?here h)) ?hs)) = mset (map (in_move env prev) (concat (map ?here ?hs)))"
    by (simp add: map_concat comp_def)
  then have moves: "moved (concat (map (\<lambda>h. map (in_move env prev) (?here h)) ?hs)) k a = moved (map (in_move env prev) (tx_inputs t)) k a" for k a
    using group by (intro moved_mset) simp
  let ?w = "[(DATA_Transaction @ uint_ToBytes h, Some (int_bytes 4 n @ hexlify (tx_enc t)))]"
  let ?u = "u3\<lparr>bc_db := (bc_db u3)\<lparr>ldb := fold apply_write ?w (ldb (bc_db u3))\<rparr>\<rparr>"
  have type: "persist_by_type env invoke n h t u3 = (Val (), u3)"
    using ok(3) by (auto simp: persist_by_type_def moves_only_def ret_def)
  have run: "persist_tx env invoke n t s = (Val (), ?u)"
    using p(1) q(1) u1(1) u2(1) u3(1) type
    by (simp add: persist_tx_def bnd_val sq_val run_lft to_bytes_4 [OF assms(2,3)] run_on_db_write)
  have same: "balance ?u = balance u3" "coins_at ?u = coins_at u3" "ledger_ok ?u = ledger_ok u3" "coin_spent ?u = coin_spent u3"
    by (simp_all add: balance_def account_at_def coins_at_def ledger_ok_def pool_ok_def coin_spent_def fun_eq_iff)
  have keeps: "keeps_coins s ?u" using e3 same(2) by (simp add: effect_def keeps_coins_def)
  have stored: "map_of (ldb (bc_db ?u)) (DATA_Transaction @ uint_ToBytes h) = Some (int_bytes 4 n @ hexlify (tx_enc t))"
    by (simp add: apply_write_def map_of_db_put)
  have moved: "balance u3 k a = balance s k a + moved (map (out_move env) (tx_outputs t)) k a + moved (map (in_move env prev) (tx_inputs t)) k a" for k a
    using e3 moves [of k a] by (simp add: effect_def) (simp add: moved_def)
  have "keeps_coins u1 u3" using effect_trans [OF u2(2) u3(2)] by (simp add: effect_def)
  then obtain items where "coins_at u3 (uint_ToBytes h) = Some items"
      "list_all2 (\<lambda>x y. is_spent x \<longrightarrow> is_spent y) (FromTXOutputsConfirmed (tx_outputs t)) items"
    using u1(3) unfolding keeps_coins_def by blast
  then have new: "\<exists>items. coins_at u3 (uint_ToBytes h) = Some items \<and> length items = length (tx_outputs t)"
    using list_all2_lengthD by (fastforce simp: FromTXOutputsConfirmed_def)
  have end3: "ledger_ok u3" "\<forall>i\<in>set (tx_inputs t). coin_spent u3 i"
    using e3 unfolding effect_def append_Nil refs by blast+
  show ?thesis unfolding h_def [symmetric]
  proof (intro exI [of _ ?u] conjI allI)
    show "ledger_ok ?u" "\<forall>i\<in>set (tx_inputs t). coin_spent ?u i"
        "\<exists>items. coins_at ?u (uint_ToBytes h) = Some items \<and> length items = length (tx_outputs t)"
      using end3 new same by (simp_all only: )
    show "balance ?u k a = balance s k a + moved (map (out_move env) (tx_outputs t)) k a + moved (map (in_move env prev) (tx_inputs t)) k a" for k a
      using moved by (simp only: same)
  qed (rule run keeps stored)+
qed

text \<open>
  C10. Persisting a transaction that only moves coins, whose inputs name outputs of stored transactions: it returns
  without an error; every balance changes by what the outputs bring and the inputs take; the coins of the inputs are
  spent and no spent coin is unspent again; and afterwards the transaction is found at its height and each of its
  outputs can be spent.
\<close>

theorem persist_moves_coins:
  fixes s :: "'e persisting"
  assumes "persistable env prev height t s" "0 \<le> n" "n < 2 ^ 32"
  shows "\<exists>u. persist_tx env invoke n t s = (Val (), u) \<and>
    (\<forall>k a. balance u k a = balance s k a + moved (map (out_move env) (tx_outputs t)) k a + moved (map (in_move env prev) (tx_inputs t)) k a) \<and>
    (\<forall>i\<in>set (tx_inputs t). coin_spent u i) \<and> keeps_coins s u \<and>
    fst (bc_GetTransaction (uint_ToBytes (tx_id (ce_primitives env) t)) u) = Val (Some t, n) \<and>
    (\<forall>i. uint_ToBytes (PrevHash i) = uint_ToBytes (tx_id (ce_primitives env) t) \<longrightarrow> 0 \<le> PrevIndex i \<longrightarrow>
       PrevIndex i < int (length (tx_outputs t)) \<longrightarrow> spendable (\<lambda>k. t) (\<lambda>k. n) u i)"
proof -
  have t: "tx_ok t" using assms(1) by (simp add: persistable_def)
  from persist_tx_run [OF assms] obtain u items where u: "persist_tx env invoke n t s = (Val (), u)" "ledger_ok u" "keeps_coins s u"
      "coins_at u (uint_ToBytes (tx_id (ce_primitives env) t)) = Some items" "length items = length (tx_outputs t)"
      "\<forall>i\<in>set (tx_inputs t). coin_spent u i"
      "\<forall>k a. balance u k a = balance s k a + moved (map (out_move env) (tx_outputs t)) k a + moved (map (in_move env prev) (tx_inputs t)) k a"
      "map_of (ldb (bc_db u)) (DATA_Transaction @ uint_ToBytes (tx_id (ce_primitives env) t)) = Some (int_bytes 4 n @ hexlify (tx_enc t))"
    by blast
  have "pool_ok u" using u(2) by (simp add: ledger_ok_def)
  from run_GetTransaction [OF u(8) t assms(2,3) this]
  have "fst (bc_GetTransaction (uint_ToBytes (tx_id (ce_primitives env) t)) u) = Val (Some t, n)" by auto
  moreover have "spendable (\<lambda>k. t) (\<lambda>k. n) u i"
    if "uint_ToBytes (PrevHash i) = uint_ToBytes (tx_id (ce_primitives env) t)" "0 \<le> PrevIndex i" "PrevIndex i < int (length (tx_outputs t))" for i
    using that t assms(2,3) u(4,5,8) by (simp add: spendable_def coin_key_def)
  ultimately show ?thesis using u by blast
qed

text \<open>An account with 5 units from one stored output, of which a transaction sends 3 back and leaves 2 as a fee.\<close>

definition sample_moving :: tx where
  "sample_moving = sample_tx\<lparr>tx_exclusive := ContractTransaction, tx_inputs := [\<lparr>PrevHash = sample_uint 32, PrevIndex = 0\<rparr>],
     tx_outputs := [\<lparr>AssetId = sample_uint 32, Value = Fixed8 3, ScriptHash = sample_uint 20\<rparr>]\<rparr>"

definition sample_rich :: account_state where
  "sample_rich = (new_account (sample_uint 20))\<lparr>acc_Balances := [(sample_uint 32, Fixed8 5)]\<rparr>"

definition sample_ledger_db :: leveldb where
  "sample_ledger_db = \<lparr>ldb = [], ldb_batch = [], ldb_streams = sample_pool\<rparr>"

definition sample_persisting :: "unit persisting" where
  "sample_persisting =
     (let s = createSnapshot sample_ledger_db sample_block; k = uint_ToBytes (sample_uint 32) in
      \<lparr>bc_db = sample_ledger_db\<lparr>ldb := [(DATA_Transaction @ k, int_bytes 4 6 @ hexlify (tx_enc sample_tx))]\<rparr>,
       bc_header_index = [], bc_stored_header_count = 0, bc_current_block_height = 6, bc_block_cache = [],
       bc_persisting_block = None, bc_TXProcessed = 0,
       ps_snapshot = s\<lparr>ls_Accounts := (ls_Accounts s)\<lparr>dictionary := [(Data (sample_uint 20), \<lparr>tr_Item = sample_rich, tr_State = TS_ADDED\<rparr>)]\<rparr>,
         ls_UnspentCoins := (ls_UnspentCoins s)\<lparr>dictionary := [(k, \<lparr>tr_Item = [CS_Confirmed], tr_State = TS_ADDED\<rparr>)]\<rparr>\<rparr>,
       ps_dispatch = []\<rparr>)"

lemma sample_moving_ok: "tx_ok sample_moving"
  using sample_tx_ok
  by (simp add: sample_moving_def sample_tx_def tx_ok_def unsigned_ok_def array_ok_def OnDeserialized_def maxsize_def exc_ok_def
      cr_ok_def out_ok_def sample_hashes_ok fixed8_ok_def int_fits_def)

lemma sample_moving_id: "uint_ToBytes (tx_id sample_primitives sample_moving) \<noteq> uint_ToBytes (sample_uint 32)"
proof
  assume eq: "uint_ToBytes (tx_id sample_primitives sample_moving) = uint_ToBytes (sample_uint 32)"
  have shown: "unhexlify (uint_ToBytes u) = Some (rev (Data u))" for u
    using unhexlify_hexlify [of "rev (Data u)"]
    by (simp add: uint_ToBytes_def uint_ToString_def hexlify_def del: unhexlify.simps)
  obtain bs where bs: "unsigned_enc (unsigned sample_moving) = 0x80 # bs"
    by (simp add: unsigned_enc_def unsigned_def sample_moving_def tx_Type_def TransactionType_def)
  then have "Hash256 sample_primitives (unsigned_enc (unsigned sample_moving)) = 0x80 # take 31 (take 31 (bs @ replicate 32 0) @ replicate 32 0)"
    by (simp add: Hash256_def bin_dbl_sha256_def sample_primitives_def)
  then have "hd (Data (tx_id sample_primitives sample_moving)) = 0x80" by (simp add: tx_id_def Let_def)
  moreover have "hd (Data (sample_uint 32)) = 0" by (simp add: sample_uint_def hd_replicate)
  ultimately have "Data (tx_id sample_primitives sample_moving) \<noteq> Data (sample_uint 32)"
by auto
  then show False using shown eq by (metis option.inject rev_rev_ident)
qed

lemma sample_persisting_ok: "persistable sample_chain_env (\<lambda>k. sample_tx) (\<lambda>k. 6) sample_moving sample_persisting"
proof -
  have db: "ldb_valid p enc ok sample_ledger_db" "ldb_rd p deser sample_ledger_db = (\<lambda>k. None)"
    "ldb_pend p deser sample_ledger_db = (\<lambda>k. None)" for p enc ok deser
    by (simp_all add: ldb_valid_def ldb_rd_def ldb_pend_def ldb_lookup_def sample_ledger_db_def sample_pool_wf fun_eq_iff)
  have same: "sample_ledger_db\<lparr>ldb_batch := []\<rparr> = sample_ledger_db" by (simp add: sample_ledger_db_def)
  have "ledger_ok sample_persisting"
    by (simp add: ledger_ok_def pool_ok_def accounts_good_def coins_good_def spent_good_def cache_inv_def db entry_ok_def
        sample_persisting_def createSnapshot_def dc_CreateSnapshot_def Let_def same account_wf_def sample_rich_def)
       (simp add: sample_ledger_db_def sample_pool_wf)
  moreover have "coins_at sample_persisting = [uint_ToBytes (sample_uint 32) \<mapsto> [CS_Confirmed]]"
    by (auto simp: coins_at_def dc_view_def sample_persisting_def createSnapshot_def dc_CreateSnapshot_def Let_def same db fun_eq_iff)
  moreover have "moves_only sample_moving" by (simp add: moves_only_def sample_moving_def)
  ultimately show ?thesis
    using sample_moving_ok sample_moving_id sample_tx_ok
    by (simp add: persistable_def spendable_def coin_key_def sample_chain_env_def sha256_sample sample_persisting_def Let_def)
       (simp add: sample_moving_def sample_tx_def)
qed

lemma persist_moves_coins_witness:
  "\<exists>u. persist_tx sample_chain_env (\<lambda>t s. (s, [])) 7 sample_moving sample_persisting = (Val (), u) \<and>
     balance sample_persisting (Data (sample_uint 20)) (Data (sample_uint 32)) = 5 \<and>
     balance u (Data (sample_uint 20)) (Data (sample_uint 32)) = 3 \<and>
     coin_spent u \<lparr>PrevHash = sample_uint 32, PrevIndex = 0\<rparr>"
proof -
  have before: "balance sample_persisting (Data (sample_uint 20)) (Data (sample_uint 32)) = 5"
    by (simp add: balance_def account_at_def dc_view_def sample_persisting_def Let_def sample_rich_def balance_map_def)
  obtain u where u: "persist_tx sample_chain_env (\<lambda>t s. (s, [])) 7 sample_moving sample_persisting = (Val (), u)"
      "\<forall>k a. balance u k a = balance sample_persisting k a + moved (map (out_move sample_chain_env) (tx_outputs sample_moving)) k a +
        moved (map (in_move sample_chain_env (\<lambda>k. sample_tx)) (tx_inputs sample_moving)) k a"
      "\<forall>i\<in>set (tx_inputs sample_moving). coin_spent u i"
    using persist_moves_coins [OF sample_persisting_ok, of 7 "\<lambda>t s. (s, [])"] by auto
  have "balance u (Data (sample_uint 20)) (Data (sample_uint 32)) = 5 + 3 - 5"
    using u(2) by (simp add: before moved_def out_move_def in_move_def spent_output_def Let_def sample_moving_def sample_tx_def sample_chain_env_def)
  then show ?thesis using u(1,3) before by (auto simp: sample_moving_def)
qed


end
