(* ===== verification/Spec2Isabelle.thy ===== *)
theory Spec2Isabelle
  imports Gas_Limit Stack_Isolation IO_Properties EC_Properties State_Properties Transaction_Properties
    Merkle_Properties Block_Properties Object_Properties Verification_Properties
    Service_Properties Serialization_Properties Claim_Bonus Restart_Properties Persist_Properties
begin

text \<open>
  neo-python is a node and wallet of the NEO blockchain. Its core is the virtual machine that runs contract scripts
  (\<open>neo/VM\<close>, \<open>neo/SmartContract\<close>) and the ledger the scripts work on (\<open>neo/Core\<close>, \<open>neo/Storage\<close>): a node
  receives headers and blocks, verifies the witnesses of transactions by running their scripts, and persists a block
  by applying its transactions to cached views of a database, which a script's system calls read and write too. This
  development models the machine, the system calls, the ledger's objects with their formats, the caches, the chain
  and the persisting of blocks.

  Conventions. A method is a state transformer (\<open>Py_Monad\<close>) with three outcomes: a value, an early return of the
  enclosing method, an exception; the state it reached stays, as in Python. Methods without state give \<open>pyexc + 'a\<close>
  (\<open>Prelude\<close>, with the shared lemmas and \<open>named_theorems\<close>). What lies outside the repository is a parameter: hash
  functions, the decompression of keys and the verification of signatures (record \<open>primitives\<close> of \<open>Crypto\<close>), base-58,
  the handlers of events; the database is the ordered list of pairs that LevelDB documents.

  Values. \<open>PyFloat\<close> and \<open>Py_Double\<close> are Python's floats, exact; \<open>BigInteger\<close>, \<open>UInt_Base\<close> (UIntBase, UInt160,
  UInt256), \<open>Fixed_Point\<close> (Fixed8) and \<open>Elliptic_Curve\<close> (ECCurve.py) are the numbers of \<open>neo/Core\<close>, with their bounds,
  round trips and inverses there and in \<open>EC_Properties\<close>.

  The machine. \<open>Random_Access_Stack\<close> and \<open>Stack_Item\<close> are stacks and items; arrays, structs and maps are shared in
  the code, so items refer into a heap. \<open>Op_Code\<close> and \<open>Instruction\<close> decode scripts. \<open>Engine_State\<close> has the record
  \<open>engine\<close> (the fields of ExecutionEngine, its contexts by number), \<open>Engine_Limits\<close> the limits, the counting of items
  and the loading of scripts; \<open>Ops_Stack\<close>, \<open>Ops_Numeric\<close> and \<open>Ops_Collection\<close> have one definition per branch of
  ExecuteInstruction, \<open>Execution_Engine\<close> the dispatch, the step and the loop, \<open>Interop_Service\<close> the table of calls,
  \<open>Application_Engine\<close> gas, prices, test mode and Run. \<open>Engine_Invariant\<close>, \<open>Engine_Safety\<close>, \<open>Control_Flow\<close> and
  \<open>Engine_Step\<close> show that no step breaks the heap, the stacks, the invocation stack or the instruction pointers, but
  for the dynamic isolated calls, which \<open>Stack_Isolation\<close> shows to break a stack. \<open>Engine_Frame\<close> is the locale of
  predicates that no instruction breaks, interpreted by the frames of the other theories. \<open>Engine_Run\<close> and
  \<open>Straight_Line\<close> execute instructions and scripts symbolically, for \<open>Instruction_Properties\<close> and the scripts below;
  \<open>Gas_Limit\<close> has the limits of gas and of free operations; \<open>Samples\<close> has engines for the instances.

  Bytes. \<open>Memory_Stream\<close> is the pool of streams, \<open>Binary_Format\<close>, \<open>Binary_Writer\<close> and \<open>Binary_Reader\<close> are the
  formats. \<open>Codec\<close> is the interface of everything that is stored: the locale \<open>codec\<close> (what is written is read back,
  through a stream of the pool and through the database), interpreted in \<open>State_Codecs\<close> and \<open>Transaction_Codecs\<close> for
  every class. \<open>IO_Properties\<close> has the boundary cases, truncated streams among them. \<open>Item_Serialization\<close> and
  \<open>Serialization_Properties\<close> are the binary form of stack items and the two system calls on it.

  The ledger. \<open>Ledger_Size\<close>, \<open>State_Objects\<close> (\<open>neo/Core/State\<close>, FunctionCode), \<open>Transactions\<close> (\<open>neo/Core/TX\<close>),
  \<open>Merkle_Tree\<close> and \<open>Blocks\<close> are its objects; \<open>State_Properties\<close>, \<open>Transaction_Properties\<close>, \<open>Merkle_Properties\<close> and
  \<open>Block_Properties\<close> show their round trips, sizes, balances, results, and what a root and a signed hash determine.

  Scripts and witnesses. \<open>Script_Builder\<close> is ScriptBuilder.py with the redeem scripts of Contract.py;
  \<open>Script_Properties\<close> runs what it builds. \<open>Verification\<close> is Helper.VerifyWitnesses; \<open>Verification_Properties\<close> shows
  what the witness of a key and of several keys decides.

  Storage. \<open>Data_Cache\<close> has DataCache, CloneCache and LevelDBCache with items as values; \<open>Cache_Contract\<close> has the
  locales \<open>cache_source\<close>, \<open>cache_search\<close> and \<open>store\<close>: a cache is a map and can stand on a cache; \<open>Cache_Properties\<close>
  interprets them for the database and for clones. \<open>Shared_Objects\<close> has the same caches with items as objects on a
  heap, and the locales \<open>heap_state\<close>, \<open>object_layer\<close>, \<open>guarded_layer\<close> and \<open>object_writer\<close>: as long as no object is in
  two places, objects and values behave alike, commits included, and a clone is such a layer again because it copies
  what it reads. \<open>Object_Properties\<close> draws the consequences for the storage of contracts: isolation of a clone from
  what its client does to the objects it holds, and the refinement of maps down to the database. \<open>Db_Interface\<close> is
  DBInterface and the driver.

  System calls. \<open>Service_State\<close> extends the engine's record by the snapshot, the objects behind interop interfaces and
  the events; \<open>State_Reader\<close> and \<open>State_Machine\<close> are the calls and their dictionary. \<open>Service_Frame\<close> shows that they
  leave the engine alone, so that runs with them end; \<open>Service_Properties\<close> specifies the calls on storage on maps.

  The chain. \<open>Chain_State\<close> is the blockchain object with the acceptance of headers, \<open>Genesis\<close> and \<open>Chain_Startup\<close>
  the first block and the constructor, \<open>Block_Persist\<close> is Persist and TryPersist, \<open>Claim_Bonus\<close> the calculation of
  bonuses with its reference. \<open>Chain_Properties\<close>, \<open>Restart_Properties\<close> and \<open>Persist_Properties\<close> show how the list of
  headers grows, what of it survives a restart, how the height moves and how persisting moves coins.

  Fuel and depth. \<open>GetItemCount\<close> has the number of items of the stack and of all collections of the heap as fuel,
  which is enough (\<open>GetItemCount_enough_fuel\<close>). \<open>Execute\<close> is a partial function, since scripts may loop; that test
  runs end is a theorem. Equality, cloning and serialization of nested items recurse in Python up to its recursion
  limit: the depth is a parameter and running out of it is the exception \<open>RecursionError\<close>, as in Python. The loop of
  the constructor that follows headers backwards through the database (\<open>headers_back\<close>) has two turns more than the
  database has entries: one that needs more meets a header again and never ends in the code, which is \<open>OutOfFuel\<close>.

  Not modelled. Between the parts of Persist other tasks may run (\<open>await\<close>); here it runs through. The system calls
  on enumerators and iterators, Storage.Find and ExecutionCompleted are the parameter \<open>others\<close> of the dictionary:
  their objects are Python generators and iterators over dictionaries, and what those yield when a script changes the
  collection under them is not determined by the language. Clones of the caches of accounts, assets, contracts and
  coins have the methods of their classes, which partly raise or lose changes; the theorems on commits are about the
  storage of contracts. Log lines, the debugger, wallets, the network, RPC and the prompt are left out.
\<close>

end
